(* ===== verification/Nori_Prelude.thy ===== *)
theory Nori_Prelude
  imports Main "HOL-Library.AList" "HOL-Library.Multiset" "HOL-Library.Sublist"
begin

text \<open>
  Shared vocabulary of the development: JavaScript strings, insertion-ordered maps and sets,
  and the two interfaces every stateful component is put behind (an invariant kept by every
  operation; a log of records whose replay rebuilds the state).

  JavaScript values are modelled as follows. A string is a list of code units in the Latin-1
  range, i.e. the type \<^typ>\<open>string\<close>. A number that the code only uses as an integer (a
  count, an index, an epoch in milliseconds) is an \<^typ>\<open>int\<close> or a \<^typ>\<open>nat\<close>. An
  optional property (\<open>x?: T\<close>, \<open>T | undefined\<close>, \<open>T | null\<close>) is an option. A \<open>Map\<close> with its
  insertion order is an association list under \<open>AList.update\<close> (overwrite in place, append
  when new, exactly \<open>Map.prototype.set\<close>) and \<open>AList.delete\<close>; a \<open>Set\<close> with its
  insertion order is a list without duplicates.
\<close>

section \<open>Collections of facts\<close>

named_theorems step_defs \<open>unfolding equations of the operations of a component\<close>
named_theorems inv_rules \<open>preservation rules: an operation keeps the invariant of its component\<close>

type_synonym ms = int

section \<open>Strings\<close>

text \<open>White space as \<open>String.prototype.trim\<close> and \<open>\s\<close> have it, in the Latin-1 range.\<close>

definition is_js_space :: "char \<Rightarrow> bool" where
  "is_js_space c \<longleftrightarrow> c \<in> set [CHR 0x09, CHR 0x0A, CHR 0x0B, CHR 0x0C, CHR 0x0D, CHR '' '', CHR 0xA0]"

definition js_trim_start :: "string \<Rightarrow> string" where
  "js_trim_start s = dropWhile is_js_space s"

definition js_trim :: "string \<Rightarrow> string" where
  "js_trim s = rev (dropWhile is_js_space (rev (js_trim_start s)))"

lemma js_trim_Nil [simp]: "js_trim [] = []"
  by (simp add: js_trim_def js_trim_start_def)

lemma length_js_trim_le: "length (js_trim s) \<le> length s"
  unfolding js_trim_def js_trim_start_def
  by (metis length_dropWhile_le length_rev order_trans)

lemma js_trim_eq_Nil_iff: "js_trim s = [] \<longleftrightarrow> (\<forall>c \<in> set s. is_js_space c)"
proof -
  have "js_trim s = [] \<longleftrightarrow> (\<forall>c \<in> set (dropWhile is_js_space s). is_js_space c)"
    by (simp add: js_trim_def js_trim_start_def dropWhile_eq_Nil_conv)
  also have "\<dots> \<longleftrightarrow> (\<forall>c \<in> set s. is_js_space c)"
  proof (cases "dropWhile is_js_space s")
    case Nil
    from Nil have all: "\<forall>c \<in> set s. is_js_space c" by (simp add: dropWhile_eq_Nil_conv)
    show ?thesis unfolding Nil using all by simp
  next
    case (Cons c cs)
    then have "\<not> is_js_space c" by (simp add: dropWhile_eq_Cons_conv)
    moreover have "c \<in> set s"
      using Cons by (metis list.set_intros(1) set_dropWhileD)
    ultimately show ?thesis using Cons by auto
  qed
  finally show ?thesis .
qed

lemma js_trim_idem [simp]: "js_trim (js_trim s) = js_trim s"
proof -
  let ?d = "dropWhile is_js_space"
  have hd_out: "xs \<noteq> [] \<Longrightarrow> \<not> is_js_space (hd xs) \<Longrightarrow> ?d xs = xs" for xs
    by (cases xs) auto
  let ?t = "rev (?d (rev (?d s)))"
  show ?thesis
  proof (cases "?t = []")
    case True
    then have "js_trim s = []" unfolding js_trim_def js_trim_start_def .
    then show ?thesis by simp
  next
    case False
    then have ne: "?d (rev (?d s)) \<noteq> []" by simp
    have pre: "prefix ?t (?d s)"
      using suffix_dropWhile [of is_js_space "rev (?d s)"] by (metis rev_rev_ident suffix_to_prefix)
    then have "hd ?t = hd (?d s)" using False
      by (metis prefix_def hd_append2)
    moreover have "?d s \<noteq> []" using pre False by (metis prefix_Nil)
    ultimately have a: "\<not> is_js_space (hd ?t)" by (metis hd_dropWhile)
    have b: "\<not> is_js_space (hd (?d (rev (?d s))))" using ne by (rule hd_dropWhile)
    show ?thesis
      using hd_out [OF False a] hd_out [OF ne b] by (simp add: js_trim_def js_trim_start_def)
  qed
qed

section \<open>Order in lists\<close>

text \<open>Some occurrence of \<open>x\<close> stands before some occurrence of \<open>y\<close>.\<close>

fun precedes :: "'a \<Rightarrow> 'a \<Rightarrow> 'a list \<Rightarrow> bool" where
  "precedes x y [] = False"
| "precedes x y (a # xs) \<longleftrightarrow> x = a \<and> y \<in> set xs \<or> precedes x y xs"

lemma precedes_append:
  "precedes x y (xs @ ys) \<longleftrightarrow> precedes x y xs \<or> x \<in> set xs \<and> y \<in> set ys \<or> precedes x y ys"
  by (induction xs) auto

lemma precedes_in: "precedes x y xs \<Longrightarrow> x \<in> set xs \<and> y \<in> set xs"
  by (induction xs) auto

section \<open>Insertion-ordered sets\<close>

definition oset_add :: "'a \<Rightarrow> 'a list \<Rightarrow> 'a list" where
  "oset_add x xs = (if x \<in> set xs then xs else xs @ [x])"

definition oset_remove :: "'a \<Rightarrow> 'a list \<Rightarrow> 'a list" where
  "oset_remove x xs = filter (\<lambda>y. y \<noteq> x) xs"

definition oset_of :: "'a list \<Rightarrow> 'a list" where
  "oset_of xs = foldl (\<lambda>s x. oset_add x s) [] xs"

lemma set_oset_add [simp]: "set (oset_add x xs) = insert x (set xs)"
  by (auto simp: oset_add_def)

lemma distinct_oset_add [simp]: "distinct (oset_add x xs) = distinct xs"
  by (auto simp: oset_add_def)

lemma set_oset_remove [simp]: "set (oset_remove x xs) = set xs - {x}"
  by (auto simp: oset_remove_def)

lemma distinct_oset_remove [simp]: "distinct xs \<Longrightarrow> distinct (oset_remove x xs)"
  by (simp add: oset_remove_def)

lemma oset_fold:
  "set (foldl (\<lambda>s x. oset_add x s) acc xs) = set acc \<union> set xs \<and>
   (distinct acc \<longrightarrow> distinct (foldl (\<lambda>s x. oset_add x s) acc xs))"
  by (induction xs arbitrary: acc) auto

lemma set_oset_of [simp]: "set (oset_of xs) = set xs"
  using oset_fold [of "[]" xs] by (simp add: oset_of_def)

lemma distinct_oset_of [simp]: "distinct (oset_of xs)"
  using oset_fold [of "[]" xs] by (simp add: oset_of_def)

section \<open>Insertion-ordered maps\<close>

abbreviation map_get :: "('k \<times> 'v) list \<Rightarrow> 'k \<Rightarrow> 'v option" where
  "map_get m k \<equiv> map_of m k"

abbreviation map_put :: "'k \<Rightarrow> 'v \<Rightarrow> ('k \<times> 'v) list \<Rightarrow> ('k \<times> 'v) list" where
  "map_put k v m \<equiv> AList.update k v m"

abbreviation map_remove :: "'k \<Rightarrow> ('k \<times> 'v) list \<Rightarrow> ('k \<times> 'v) list" where
  "map_remove k m \<equiv> AList.delete k m"

abbreviation keys_ok :: "('k \<times> 'v) list \<Rightarrow> bool" where
  "keys_ok m \<equiv> distinct (map fst m)"

lemma map_get_put [simp]: "map_get (map_put k v m) k' = (if k' = k then Some v else map_get m k')"
  by (simp add: update_conv)

lemma map_get_remove [simp]: "map_get (map_remove k m) k' = (if k' = k then None else map_get m k')"
  by (simp add: delete_conv)

lemma keys_ok_put [simp, intro]: "keys_ok m \<Longrightarrow> keys_ok (map_put k v m)"
  by (rule distinct_update)

lemma keys_ok_remove [simp, intro]: "keys_ok m \<Longrightarrow> keys_ok (map_remove k m)"
  by (rule distinct_delete)

lemma in_put_iff:
  "keys_ok m \<Longrightarrow> (k', v') \<in> set (map_put k v m) \<longleftrightarrow> (if k' = k then v' = v else (k', v') \<in> set m)"
  by (metis keys_ok_put map_get_put map_of_eq_Some_iff option.inject)

lemma in_remove_iff: "(k', v') \<in> set (map_remove k m) \<longleftrightarrow> k' \<noteq> k \<and> (k', v') \<in> set m"
  by (auto simp: AList.delete_eq)

section \<open>The interface of a stateful component\<close>

text \<open>
  A component offers operations \<open>step s e\<close> and promises that each keeps its invariant. The
  client runs any sequence of operations.
\<close>

definition run_ops :: "('s \<Rightarrow> 'e \<Rightarrow> 's) \<Rightarrow> 's \<Rightarrow> 'e list \<Rightarrow> 's" where
  "run_ops step s es = foldl step s es"

lemma run_ops_simps [simp]:
  "run_ops step s [] = s"
  "run_ops step s (e # es) = run_ops step (step s e) es"
  by (simp_all add: run_ops_def)

lemma run_ops_append: "run_ops step s (es @ fs) = run_ops step (run_ops step s es) fs"
  by (simp add: run_ops_def)

locale invariant_component =
  fixes step :: "'s \<Rightarrow> 'e \<Rightarrow> 's"
    and inv :: "'s \<Rightarrow> bool"
  assumes step_inv: "inv s \<Longrightarrow> inv (step s e)"
begin

lemma run_inv: "inv s \<Longrightarrow> inv (run_ops step s es)"
  by (induction es arbitrary: s) (auto intro: step_inv)

end

text \<open>
  An event-sourced component also writes records. Its promise is a simulation: whatever state
  \<open>q\<close> the restoring side has reached, as long as it shows the same view as the live state
  \<open>s\<close>, restoring the records that one live operation wrote takes it to a state with the view
  of the new live state. The client learns that restoring a whole log, in order, rebuilds the view.
\<close>

locale event_sourced = invariant_component step inv
  for step :: "'s \<Rightarrow> 'e \<Rightarrow> 's" and inv :: "'s \<Rightarrow> bool" +
  fixes log :: "'s \<Rightarrow> 'r list"
    and view :: "'s \<Rightarrow> 'p"
    and restore :: "'q \<Rightarrow> 'r \<Rightarrow> 'q"
    and rview :: "'q \<Rightarrow> 'p"
  assumes step_logs:
    "inv s \<Longrightarrow> rview q = view s \<Longrightarrow>
     \<exists>new. log (step s e) = log s @ new \<and> rview (foldl restore q new) = view (step s e)"
begin

lemma run_logs:
  "inv s \<Longrightarrow> rview q = view s \<Longrightarrow>
   \<exists>new. log (run_ops step s es) = log s @ new \<and> rview (foldl restore q new) = view (run_ops step s es)"
proof (induction es arbitrary: s q)
  case Nil
  then show ?case by (intro exI [of _ "[]"]) simp
next
  case (Cons e es)
  from step_logs [OF Cons.prems, of e] obtain n1 where
    n1: "log (step s e) = log s @ n1" "rview (foldl restore q n1) = view (step s e)" by blast
  from Cons.IH [OF step_inv [OF Cons.prems(1)] n1(2)] obtain n2 where
    n2: "log (run_ops step (step s e) es) = log (step s e) @ n2"
        "rview (foldl restore (foldl restore q n1) n2) = view (run_ops step (step s e) es)" by blast
  show ?case by (rule exI [of _ "n1 @ n2"]) (simp add: n1 n2)
qed

lemma restore_rebuilds:
  assumes "inv s" and "rview q = view s" and "log s = []"
  shows "rview (foldl restore q (log (run_ops step s es))) = view (run_ops step s es)"
  using run_logs [OF assms(1,2), of es] assms(3) by auto

end

end
