(* ===== verification/Tool_Access.thy ===== *)
theory Tool_Access
  imports Nori_Prelude
begin

text \<open>
  Resource accesses of tool calls and their conflict relation
  (\<open>packages/agent-core/src/loop/tool-access.ts\<close>). The lemmas show that the relation is
  symmetric and that it never misses a real interference: two accesses that reach a common
  path, one of them writing, always conflict.
\<close>

section \<open>Data\<close>

datatype ToolFileAccessOperation = OpRead | OpWrite | OpReadWrite | OpSearch

record ToolFileAccess =
  fa_operation :: ToolFileAccessOperation
  fa_path :: string
  fa_recursive :: "bool option"

datatype ToolResourceAccess = AccFile ToolFileAccess | AccAll

type_synonym ToolAccesses = "ToolResourceAccess list"

section \<open>Constructors\<close>

definition acc_none :: ToolAccesses where "acc_none = []"

definition acc_all :: ToolAccesses where "acc_all = [AccAll]"

definition acc_file :: "ToolFileAccessOperation \<Rightarrow> string \<Rightarrow> bool option \<Rightarrow> ToolAccesses" where
  "acc_file operation path recursive =
     [AccFile \<lparr>fa_operation = operation, fa_path = path, fa_recursive = recursive\<rparr>]"

definition readFile :: "string \<Rightarrow> ToolAccesses" where "readFile path = acc_file OpRead path None"
definition readTree :: "string \<Rightarrow> ToolAccesses" where "readTree path = acc_file OpRead path (Some True)"
definition writeFile :: "string \<Rightarrow> ToolAccesses" where "writeFile path = acc_file OpWrite path None"
definition writeTree :: "string \<Rightarrow> ToolAccesses" where "writeTree path = acc_file OpWrite path (Some True)"
definition readWriteFile :: "string \<Rightarrow> ToolAccesses" where
  "readWriteFile path = acc_file OpReadWrite path None"
definition readWriteTree :: "string \<Rightarrow> ToolAccesses" where
  "readWriteTree path = acc_file OpReadWrite path (Some True)"
definition searchTree :: "string \<Rightarrow> ToolAccesses" where "searchTree path = acc_file OpSearch path (Some True)"

section \<open>Path normalisation\<close>

text \<open>\<open>replaceAll('\\', '/')\<close>, then runs of slashes to one, then lower case, then one
  trailing slash off unless the path is the root.\<close>

definition fold_case :: "char \<Rightarrow> char" where
  "fold_case c = (let n = of_char c :: nat in
     if 65 \<le> n \<and> n \<le> 90 \<or> 192 \<le> n \<and> n \<le> 222 \<and> n \<noteq> 215 then char_of (n + 32) else c)"

fun squeeze_slashes :: "string \<Rightarrow> string" where
  "squeeze_slashes (a # b # cs) =
     (if a = CHR ''/'' \<and> b = CHR ''/'' then squeeze_slashes (b # cs) else a # squeeze_slashes (b # cs))"
| "squeeze_slashes cs = cs"

definition backslash_to_slash :: "char \<Rightarrow> char" where
  "backslash_to_slash c = (if c = CHR 0x5C then CHR ''/'' else c)"

definition normalizePath :: "string \<Rightarrow> string" where
  "normalizePath path =
     (let normalized = squeeze_slashes (map backslash_to_slash path);
          folded = map fold_case normalized
      in if length folded > 1 \<and> suffix ''/'' folded then butlast folded else folded)"

section \<open>Conflict\<close>

fun fileOperationWrites :: "ToolFileAccessOperation \<Rightarrow> bool" where
  "fileOperationWrites OpRead = False"
| "fileOperationWrites OpSearch = False"
| "fileOperationWrites OpWrite = True"
| "fileOperationWrites OpReadWrite = True"

definition fileOperationsConflict :: "ToolFileAccessOperation \<Rightarrow> ToolFileAccessOperation \<Rightarrow> bool" where
  "fileOperationsConflict left right \<longleftrightarrow> fileOperationWrites left \<or> fileOperationWrites right"

definition dir_prefix :: "string \<Rightarrow> string" where
  "dir_prefix p = (if suffix ''/'' p then p else p @ ''/'')"

definition fileAccessesOverlap :: "ToolFileAccess \<Rightarrow> ToolFileAccess \<Rightarrow> bool" where
  "fileAccessesOverlap left right =
     (let leftPath = normalizePath (fa_path left);
          rightPath = normalizePath (fa_path right)
      in if leftPath = rightPath then True
         else (fa_recursive left = Some True \<and> prefix (dir_prefix leftPath) rightPath)
            \<or> (fa_recursive right = Some True \<and> prefix (dir_prefix rightPath) leftPath))"

fun resourceAccessesConflict :: "ToolResourceAccess \<Rightarrow> ToolResourceAccess \<Rightarrow> bool" where
  "resourceAccessesConflict AccAll right = True"
| "resourceAccessesConflict left AccAll = True"
| "resourceAccessesConflict (AccFile left) (AccFile right) =
     (if \<not> fileOperationsConflict (fa_operation left) (fa_operation right) then False
      else fileAccessesOverlap left right)"

definition conflict :: "ToolAccesses \<Rightarrow> ToolAccesses \<Rightarrow> bool" where
  "conflict left right =
     list_ex (\<lambda>leftAccess. list_ex (\<lambda>rightAccess. resourceAccessesConflict leftAccess rightAccess) right) left"

section \<open>Symmetry\<close>

lemma fileOperationsConflict_sym: "fileOperationsConflict a b = fileOperationsConflict b a"
  by (auto simp: fileOperationsConflict_def)

lemma fileAccessesOverlap_sym: "fileAccessesOverlap a b = fileAccessesOverlap b a"
  by (auto simp: fileAccessesOverlap_def Let_def)

lemma resourceAccessesConflict_sym: "resourceAccessesConflict a b = resourceAccessesConflict b a"
  by (cases a; cases b) (simp_all add: fileOperationsConflict_sym fileAccessesOverlap_sym)

lemma conflict_sym: "conflict a b = conflict b a"
  unfolding conflict_def list_ex_iff using resourceAccessesConflict_sym by blast

section \<open>No interference is missed\<close>

text \<open>
  The paths an access reaches: its own, and everything below it when it is recursive; the
  whole tree for \<open>all\<close>.
\<close>

fun reaches :: "ToolResourceAccess \<Rightarrow> string \<Rightarrow> bool" where
  "reaches AccAll p = True"
| "reaches (AccFile a) p =
     (normalizePath p = normalizePath (fa_path a)
      \<or> fa_recursive a = Some True \<and> prefix (dir_prefix (normalizePath (fa_path a))) (normalizePath p))"

fun may_write :: "ToolResourceAccess \<Rightarrow> bool" where
  "may_write AccAll = True"
| "may_write (AccFile a) = fileOperationWrites (fa_operation a)"

lemma dir_prefix_strict:
  assumes "prefix (dir_prefix a) (dir_prefix b)"
  shows "dir_prefix a = dir_prefix b \<or> prefix (dir_prefix a) b"
proof (cases "suffix ''/'' b")
  case True
  with assms show ?thesis by (simp add: dir_prefix_def)
next
  case False
  then have "dir_prefix b = b @ ''/''" by (simp add: dir_prefix_def)
  with assms show ?thesis by (simp add: prefix_snoc)
qed

lemma dir_prefix_eq_cases:
  assumes "dir_prefix a = dir_prefix b"
  shows "a = b \<or> prefix (dir_prefix b) a \<or> prefix (dir_prefix a) b"
  using assms by (auto simp: dir_prefix_def split: if_splits)

lemma common_reach_overlap:
  assumes "reaches (AccFile a) p" and "reaches (AccFile b) p"
  shows "fileAccessesOverlap a b"
proof -
  let ?A = "normalizePath (fa_path a)" and ?B = "normalizePath (fa_path b)" and ?P = "normalizePath p"
  have "?A = ?B \<or> fa_recursive a = Some True \<and> prefix (dir_prefix ?A) ?B
      \<or> fa_recursive b = Some True \<and> prefix (dir_prefix ?B) ?A"
  proof (cases "?P = ?A \<or> ?P = ?B")
    case True
    with assms show ?thesis by auto
  next
    case False
    with assms have rec: "fa_recursive a = Some True" "fa_recursive b = Some True"
      and pre: "prefix (dir_prefix ?A) ?P" "prefix (dir_prefix ?B) ?P" by auto
    from pre have "prefix (dir_prefix ?A) (dir_prefix ?B) \<or> prefix (dir_prefix ?B) (dir_prefix ?A)"
      by (rule prefix_same_cases)
    then show ?thesis
      using rec dir_prefix_strict [of ?A ?B] dir_prefix_strict [of ?B ?A] dir_prefix_eq_cases [of ?A ?B]
      by auto
  qed
  then show ?thesis by (auto simp: fileAccessesOverlap_def Let_def)
qed

lemma common_reach_conflict:
  assumes "reaches x p" and "reaches y p" and "may_write x \<or> may_write y"
  shows "resourceAccessesConflict x y"
  using assms common_reach_overlap
  by (cases x; cases y) (auto simp: fileOperationsConflict_def simp del: reaches.simps(2))

text \<open>
  C1: The conflict relation is sound for concurrency. Whenever some access of one tool call and
  some access of another reach the same path (equal after normalisation, or inside a recursive
  access) and at least one of the two may write, the two calls are reported as conflicting, so
  the scheduler never overlaps them.
\<close>

theorem conflict_covers_interference:
  assumes "x \<in> set l" and "y \<in> set r"
    and "reaches x p" and "reaches y p"
    and "may_write x \<or> may_write y"
  shows "conflict l r"
  using assms common_reach_conflict unfolding conflict_def list_ex_iff by blast

theorem conflict_covers_interference_witness:
  "conflict (writeTree ''/Src/'') (readFile ''/src//a.ts'')"
proof (rule conflict_covers_interference)
  show "AccFile \<lparr>fa_operation = OpWrite, fa_path = ''/Src/'', fa_recursive = Some True\<rparr>
      \<in> set (writeTree ''/Src/'')" by (simp add: writeTree_def acc_file_def)
  show "AccFile \<lparr>fa_operation = OpRead, fa_path = ''/src//a.ts'', fa_recursive = None\<rparr>
      \<in> set (readFile ''/src//a.ts'')" by (simp add: readFile_def acc_file_def)
  show "reaches (AccFile \<lparr>fa_operation = OpWrite, fa_path = ''/Src/'', fa_recursive = Some True\<rparr>)
      ''/src/a.ts''" by code_simp
  show "reaches (AccFile \<lparr>fa_operation = OpRead, fa_path = ''/src//a.ts'', fa_recursive = None\<rparr>)
      ''/src/a.ts''" by code_simp
qed simp

end
