(* ===== verification/Tool_Scheduler.thy ===== *)
theory Tool_Scheduler
  imports Tool_Access
begin

text \<open>
  The execution scheduler for the tool calls of one model step
  (\<open>packages/agent-core/src/loop/tool-scheduler.ts\<close>): tasks with conflicting accesses wait,
  the others overlap. The operations are parametric in the conflict relation they call
  (\<open>ToolAccesses.conflict\<close>); what they need of it is the locale \<open>access_relation\<close>.

  A task object is its identity \<open>tc_id\<close>, its accesses, and whether \<open>task.start()\<close> throws
  synchronously. The promise of a started task settles later; that callback is
  \<open>finish\<close>. The field \<open>started\<close> records the order in which \<open>start()\<close> is called and
  \<open>rejected\<close> the result promises rejected in the \<open>catch\<close> branch. When a queued task throws,
  \<open>startQueuedTasks\<close> re-enters itself while \<open>this.queuedTasks\<close> still holds the old queue, so
  that recursion carries fuel: the depth of nested re-entries. No task that starts without
  throwing uses any of it (\<open>queued_loop_total\<close>).
\<close>

section \<open>State and operations\<close>

record ToolCallTask =
  tc_id :: nat
  tc_accesses :: ToolAccesses
  tc_throws :: bool

record ToolScheduler =
  activeTasks :: "ToolCallTask list"
  queuedTasks :: "ToolCallTask list"
  started :: "ToolCallTask list"
  rejected :: "ToolCallTask list"

type_synonym access_rel = "ToolAccesses \<Rightarrow> ToolAccesses \<Rightarrow> bool"

definition new_scheduler :: ToolScheduler where
  "new_scheduler = \<lparr>activeTasks = [], queuedTasks = [], started = [], rejected = []\<rparr>"

definition conflictsWithAny :: "access_rel \<Rightarrow> ToolCallTask \<Rightarrow> ToolCallTask list \<Rightarrow> bool" where
  "conflictsWithAny cf task candidates =
     list_ex (\<lambda>candidate. cf (tc_accesses task) (tc_accesses candidate)) candidates"

definition isBlocked :: "access_rel \<Rightarrow> ToolScheduler \<Rightarrow> ToolCallTask \<Rightarrow> ToolCallTask list \<Rightarrow> bool" where
  "isBlocked cf s task queuedBefore \<longleftrightarrow>
     conflictsWithAny cf task (activeTasks s) \<or> conflictsWithAny cf task queuedBefore"

definition push_active :: "ToolCallTask \<Rightarrow> ToolScheduler \<Rightarrow> ToolScheduler" where
  "push_active task s = s\<lparr>activeTasks := activeTasks s @ [task], started := started s @ [task]\<rparr>"

definition reject_task :: "ToolCallTask \<Rightarrow> ToolScheduler \<Rightarrow> ToolScheduler" where
  "reject_task task s = s\<lparr>rejected := rejected s @ [task]\<rparr>"

definition splice_active :: "ToolCallTask \<Rightarrow> ToolScheduler \<Rightarrow> ToolScheduler" where
  "splice_active task s = s\<lparr>activeTasks := remove1 task (activeTasks s)\<rparr>"

text \<open>
  The loop of \<open>startQueuedTasks\<close> over the queue it read on entry: \<open>still\<close> is
  \<open>stillQueued\<close>. The throwing branch is \<open>start\<close>, then \<open>finish\<close>, then a nested
  \<open>startQueuedTasks\<close> over \<open>this.queuedTasks\<close>, which the outer call has not replaced yet.
\<close>

fun queued_loop :: "access_rel \<Rightarrow> nat \<Rightarrow> ToolCallTask list \<Rightarrow> ToolCallTask list \<Rightarrow> ToolScheduler \<Rightarrow>
    (ToolCallTask list \<times> ToolScheduler) option" where
  "queued_loop cf n [] still s = Some (still, s)"
| "queued_loop cf n (t # ts) still s =
     (if isBlocked cf s t still then queued_loop cf n ts (still @ [t]) s
      else if tc_throws t then
        (case n of
           0 \<Rightarrow> None
         | Suc m \<Rightarrow>
             (let s2 = splice_active t (reject_task t (push_active t s))
              in case queued_loop cf m (queuedTasks s2) [] s2 of
                   None \<Rightarrow> None
                 | Some (still', s3) \<Rightarrow> queued_loop cf n ts still (s3\<lparr>queuedTasks := still'\<rparr>)))
      else queued_loop cf n ts still (push_active t s))"

definition startQueuedTasks :: "access_rel \<Rightarrow> nat \<Rightarrow> ToolScheduler \<Rightarrow> ToolScheduler option" where
  "startQueuedTasks cf n s =
     (case queued_loop cf n (queuedTasks s) [] s of
        None \<Rightarrow> None
      | Some (stillQueued, s') \<Rightarrow> Some (s'\<lparr>queuedTasks := stillQueued\<rparr>))"

definition finish :: "access_rel \<Rightarrow> nat \<Rightarrow> ToolCallTask \<Rightarrow> ToolScheduler \<Rightarrow> ToolScheduler option" where
  "finish cf n task s = startQueuedTasks cf n (splice_active task s)"

definition start_task :: "access_rel \<Rightarrow> nat \<Rightarrow> ToolCallTask \<Rightarrow> ToolScheduler \<Rightarrow> ToolScheduler option" where
  "start_task cf n task s =
     (let s1 = push_active task s
      in if tc_throws task then finish cf n task (reject_task task s1) else Some s1)"

definition add_task :: "access_rel \<Rightarrow> nat \<Rightarrow> ToolCallTask \<Rightarrow> ToolScheduler \<Rightarrow> ToolScheduler option" where
  "add_task cf n task s =
     (if isBlocked cf s task (queuedTasks s) then Some (s\<lparr>queuedTasks := queuedTasks s @ [task]\<rparr>)
      else start_task cf n task s)"

section \<open>What a run of the scheduler may do\<close>

text \<open>
  \<open>sched_reach cf s added\<close>: \<open>s\<close> is reached after adding the tasks \<open>added\<close>, in that order,
  with settlements of active tasks in between. Every task starts asynchronously, as
  \<open>tool-call.ts\<close> builds them (\<open>start: async () => ...\<close>); task objects are distinct.
\<close>

inductive sched_reach :: "access_rel \<Rightarrow> ToolScheduler \<Rightarrow> ToolCallTask list \<Rightarrow> bool" for cf where
  reach_new: "sched_reach cf new_scheduler []"
| reach_add: "sched_reach cf s added \<Longrightarrow> t \<notin> set added \<Longrightarrow> \<not> tc_throws t \<Longrightarrow>
    add_task cf 0 t s = Some s' \<Longrightarrow> sched_reach cf s' (added @ [t])"
| reach_settle: "sched_reach cf s added \<Longrightarrow> t \<in> set (activeTasks s) \<Longrightarrow>
    finish cf 0 t s = Some s' \<Longrightarrow> sched_reach cf s' added"

inductive_cases sched_reach_NilE: "sched_reach cf s []"

text \<open>The settlements \<open>ts\<close> arriving one after the other, each of a task that is active then. None: one of
  them is not of an active task, or its \<open>finish\<close> does not return.\<close>

fun settle_run :: "access_rel \<Rightarrow> ToolCallTask list \<Rightarrow> ToolScheduler \<Rightarrow> ToolScheduler option" where
  "settle_run cf [] s = Some s"
| "settle_run cf (t # ts) s =
     (if t \<in> set (activeTasks s)
      then case finish cf 0 t s of None \<Rightarrow> None | Some s' \<Rightarrow> settle_run cf ts s'
      else None)"

lemma settle_run_reach:
  "sched_reach cf s added \<Longrightarrow> settle_run cf ts s = Some s' \<Longrightarrow> sched_reach cf s' added"
  by (induction ts arbitrary: s) (auto split: if_splits option.splits intro: reach_settle)

lemma settle_run_append:
  "settle_run cf (ts @ us) s = (case settle_run cf ts s of None \<Rightarrow> None | Some s' \<Rightarrow> settle_run cf us s')"
  by (induction ts arbitrary: s) (auto split: option.split)

text \<open>The tasks that have not settled yet.\<close>

definition pending :: "ToolScheduler \<Rightarrow> nat" where
  "pending s = length (activeTasks s) + length (queuedTasks s)"

section \<open>Client lemmas over the conflict interface\<close>

locale access_relation =
  fixes cf :: access_rel
  assumes cf_sym: "cf a b = cf b a"
begin

abbreviation clash :: "ToolCallTask \<Rightarrow> ToolCallTask \<Rightarrow> bool" where
  "clash t u \<equiv> cf (tc_accesses t) (tc_accesses u)"

lemma clash_sym: "clash t u \<longleftrightarrow> clash u t"
  by (rule cf_sym)

lemma conflictsWithAny_iff: "conflictsWithAny cf t us \<longleftrightarrow> (\<exists>u \<in> set us. clash t u)"
  by (simp add: conflictsWithAny_def list_ex_iff)

definition apart :: "ToolCallTask list \<Rightarrow> bool" where
  "apart ts \<longleftrightarrow> sorted_wrt (\<lambda>t u. \<not> clash t u) ts"

definition waits :: "ToolCallTask list \<Rightarrow> ToolCallTask list \<Rightarrow> bool" where
  "waits act q \<longleftrightarrow> (\<forall>pre t post. q = pre @ t # post \<longrightarrow>
     (\<exists>u \<in> set act. clash t u) \<or> (\<exists>u \<in> set pre. clash t u))"

definition in_order :: "ToolCallTask list \<Rightarrow> ToolCallTask list \<Rightarrow> bool" where
  "in_order added l \<longleftrightarrow> (\<forall>t u. precedes t u added \<longrightarrow> clash t u \<longrightarrow> precedes t u l)"

definition sched_inv :: "ToolScheduler \<Rightarrow> ToolCallTask list \<Rightarrow> bool" where
  "sched_inv s added \<longleftrightarrow>
     apart (activeTasks s) \<and> waits (activeTasks s) (queuedTasks s) \<and>
     in_order added (started s @ queuedTasks s) \<and>
     mset (started s @ queuedTasks s) = mset added \<and> set (activeTasks s) \<subseteq> set (started s) \<and>
     (\<forall>t \<in> set added. \<not> tc_throws t) \<and> distinct added"

lemma inv_set: "sched_inv s added \<Longrightarrow> set added = set (started s) \<union> set (queuedTasks s)"
  unfolding sched_inv_def by (metis mset_eq_setD set_append)

lemma apart_snoc: "apart (ts @ [t]) \<longleftrightarrow> apart ts \<and> (\<forall>u \<in> set ts. \<not> clash t u)"
  using clash_sym by (auto simp: apart_def sorted_wrt_append)

lemma apart_remove1: "apart ts \<Longrightarrow> apart (remove1 t ts)"
  by (induction ts) (auto simp: apart_def dest: notin_set_remove1)

lemma waits_mono: "waits act q \<Longrightarrow> set act \<subseteq> set act' \<Longrightarrow> waits act' q"
  unfolding waits_def by blast

lemma waits_snoc:
  "waits act (q @ [t]) \<longleftrightarrow> waits act q \<and> ((\<exists>u \<in> set act. clash t u) \<or> (\<exists>u \<in> set q. clash t u))"
proof
  assume l: "waits act (q @ [t])"
  then have "waits act q" unfolding waits_def by (metis append_Cons append_assoc)
  with l show "waits act q \<and> ((\<exists>u \<in> set act. clash t u) \<or> (\<exists>u \<in> set q. clash t u))"
    unfolding waits_def by blast
next
  assume r: "waits act q \<and> ((\<exists>u \<in> set act. clash t u) \<or> (\<exists>u \<in> set q. clash t u))"
  show "waits act (q @ [t])"
    unfolding waits_def
  proof (intro allI impI)
    fix pre v post
    assume eq: "q @ [t] = pre @ v # post"
    show "(\<exists>u \<in> set act. clash v u) \<or> (\<exists>u \<in> set pre. clash v u)"
    proof (cases post rule: rev_cases)
      case Nil
      with eq r show ?thesis by simp
    next
      case (snoc post' x)
      with eq have "q = pre @ v # post'" by simp
      with r show ?thesis unfolding waits_def by blast
    qed
  qed
qed

lemma in_order_snoc:
  assumes "in_order added l" and "set added \<subseteq> set l"
  shows "in_order (added @ [t]) (l @ [t])"
  using assms by (auto simp: in_order_def precedes_append)

lemma in_order_move:
  assumes "in_order added (st @ still @ t # ts)" and "\<forall>u \<in> set still. \<not> clash t u"
  shows "in_order added ((st @ [t]) @ still @ ts)"
  unfolding in_order_def
proof (intro allI impI)
  fix x y
  assume "precedes x y added" and c: "clash x y"
  with assms(1) have "precedes x y (st @ still @ t # ts)" unfolding in_order_def by blast
  moreover have "\<not> (x \<in> set still \<and> y = t)" using assms(2) c clash_sym by blast
  ultimately show "precedes x y ((st @ [t]) @ still @ ts)" by (auto simp: precedes_append)
qed

text \<open>One pass of the loop over tasks that do not throw.\<close>

lemma queued_loop_spec:
  assumes "\<forall>t \<in> set ts. \<not> tc_throws t" and "apart (activeTasks s)" and "waits (activeTasks s) still"
    and "in_order added (started s @ still @ ts)" and "set (activeTasks s) \<subseteq> set (started s)"
  shows "\<exists>still' s'. queued_loop cf n ts still s = Some (still', s') \<and>
     apart (activeTasks s') \<and> waits (activeTasks s') still' \<and> in_order added (started s' @ still') \<and>
     mset (started s' @ still') = mset (started s @ still @ ts) \<and>
     set (activeTasks s') \<subseteq> set (started s')"
  using assms
proof (induction ts arbitrary: still s)
  case Nil
  then show ?case by simp
next
  case (Cons t ts)
  show ?case
  proof (cases "isBlocked cf s t still")
    case True
    then have "waits (activeTasks s) (still @ [t])"
      using Cons.prems(3) by (auto simp: waits_snoc isBlocked_def conflictsWithAny_iff)
    then have "\<exists>still' s'. queued_loop cf n ts (still @ [t]) s = Some (still', s') \<and>
       apart (activeTasks s') \<and> waits (activeTasks s') still' \<and> in_order added (started s' @ still') \<and>
       mset (started s' @ still') = mset (started s @ (still @ [t]) @ ts) \<and>
       set (activeTasks s') \<subseteq> set (started s')"
      using Cons.prems by (intro Cons.IH) auto
    with True show ?thesis by simp
  next
    case False
    then have free: "\<forall>u \<in> set (activeTasks s). \<not> clash t u" "\<forall>u \<in> set still. \<not> clash t u"
      by (auto simp: isBlocked_def conflictsWithAny_iff)
    let ?s1 = "push_active t s"
    have s1: "activeTasks ?s1 = activeTasks s @ [t]" "started ?s1 = started s @ [t]"
      by (simp_all add: push_active_def)
    have "\<exists>still' s'. queued_loop cf n ts still ?s1 = Some (still', s') \<and>
       apart (activeTasks s') \<and> waits (activeTasks s') still' \<and> in_order added (started s' @ still') \<and>
       mset (started s' @ still') = mset (started ?s1 @ still @ ts) \<and>
       set (activeTasks s') \<subseteq> set (started s')"
    proof (rule Cons.IH)
      show "apart (activeTasks ?s1)" using Cons.prems(2) free(1) by (simp add: s1 apart_snoc)
      show "waits (activeTasks ?s1) still" using Cons.prems(3) by (rule waits_mono) (auto simp: s1)
      show "in_order added (started ?s1 @ still @ ts)"
        unfolding s1 using Cons.prems(4) free(2) by (rule in_order_move)
      show "set (activeTasks ?s1) \<subseteq> set (started ?s1)" using Cons.prems(5) by (auto simp: s1)
    qed (use Cons.prems(1) in simp)
    with False Cons.prems(1) show ?thesis by (simp add: s1)
  qed
qed

lemma finish_spec:
  assumes "sched_inv s added"
  shows "\<exists>s'. finish cf n t s = Some s' \<and> sched_inv s' added"
proof -
  let ?s = "splice_active t s"
  have f: "activeTasks ?s = remove1 t (activeTasks s)" "started ?s = started s"
    "queuedTasks ?s = queuedTasks s" by (simp_all add: splice_active_def)
  have sub: "set (activeTasks ?s) \<subseteq> set (started ?s)"
    using assms set_remove1_subset [of t "activeTasks s"] unfolding f sched_inv_def by blast
  have q: "\<forall>u \<in> set (queuedTasks s). \<not> tc_throws u"
    using assms inv_set [OF assms] unfolding sched_inv_def by blast
  have "\<exists>still' s'. queued_loop cf n (queuedTasks ?s) [] ?s = Some (still', s') \<and>
     apart (activeTasks s') \<and> waits (activeTasks s') still' \<and> in_order added (started s' @ still') \<and>
     mset (started s' @ still') = mset (started ?s @ [] @ queuedTasks ?s) \<and>
     set (activeTasks s') \<subseteq> set (started s')"
    using assms q sub by (intro queued_loop_spec) (auto simp: f sched_inv_def apart_remove1 waits_def)
  then obtain still' s' where l: "queued_loop cf n (queuedTasks ?s) [] ?s = Some (still', s')"
    and p: "apart (activeTasks s')" "waits (activeTasks s') still'" "in_order added (started s' @ still')"
      "mset (started s' @ still') = mset (started s @ queuedTasks s)"
      "set (activeTasks s') \<subseteq> set (started s')"
    unfolding f by auto
  have "finish cf n t s = Some (s'\<lparr>queuedTasks := still'\<rparr>)"
    using l by (simp add: finish_def startQueuedTasks_def)
  moreover have "sched_inv (s'\<lparr>queuedTasks := still'\<rparr>) added"
    using assms p by (simp add: sched_inv_def)
  ultimately show ?thesis by blast
qed

text \<open>The loop only moves tasks from the queue to the active ones, so a settlement leaves one task less.\<close>

lemma queued_loop_length:
  assumes "\<forall>t \<in> set ts. \<not> tc_throws t" and "queued_loop cf n ts still s = Some (still', s')"
  shows "length (activeTasks s') + length still' = length (activeTasks s) + length still + length ts"
  using assms
proof (induction ts arbitrary: still s)
  case (Cons t ts)
  show ?case
  proof (cases "isBlocked cf s t still")
    case True
    with Cons.prems Cons.IH [of "still @ [t]" s] show ?thesis by simp
  next
    case False
    with Cons.prems Cons.IH [of still "push_active t s"] show ?thesis by (simp add: push_active_def)
  qed
qed simp

lemma finish_pending:
  assumes "sched_inv s added" and "t \<in> set (activeTasks s)" and "finish cf n t s = Some s'"
  shows "Suc (pending s') = pending s"
proof -
  have q: "\<forall>u \<in> set (queuedTasks s). \<not> tc_throws u"
    using assms(1) inv_set [OF assms(1)] unfolding sched_inv_def by blast
  obtain still' s1 where l: "queued_loop cf n (queuedTasks s) [] (splice_active t s) = Some (still', s1)"
    and s': "s' = s1\<lparr>queuedTasks := still'\<rparr>"
    using assms(3) by (auto simp: finish_def startQueuedTasks_def splice_active_def split: option.splits)
  have "length (activeTasks s1) + length still' = length (remove1 t (activeTasks s)) + length (queuedTasks s)"
    using queued_loop_length [OF q l] by (simp add: splice_active_def)
  moreover have "length (activeTasks s) = Suc (length (remove1 t (activeTasks s)))"
    using assms(2) length_pos_if_in_set [OF assms(2)] by (simp add: length_remove1)
  ultimately show ?thesis by (simp add: pending_def s')
qed

lemma add_spec:
  assumes inv: "sched_inv s added" and new: "t \<notin> set added" and nt: "\<not> tc_throws t"
  shows "\<exists>s'. add_task cf n t s = Some s' \<and> sched_inv s' (added @ [t])"
proof (cases "isBlocked cf s t (queuedTasks s)")
  case True
  have "in_order (added @ [t]) (started s @ queuedTasks s @ [t])"
    using in_order_snoc [of added "started s @ queuedTasks s" t] inv inv_set [OF inv]
    by (simp add: sched_inv_def)
  moreover have "waits (activeTasks s) (queuedTasks s @ [t])"
    using inv True by (auto simp: sched_inv_def waits_snoc isBlocked_def conflictsWithAny_iff)
  ultimately have "sched_inv (s\<lparr>queuedTasks := queuedTasks s @ [t]\<rparr>) (added @ [t])"
    using inv new nt by (simp add: sched_inv_def)
  with True show ?thesis by (simp add: add_task_def)
next
  case False
  then have free: "\<forall>u \<in> set (activeTasks s). \<not> clash t u" "\<forall>u \<in> set (queuedTasks s). \<not> clash t u"
    by (auto simp: isBlocked_def conflictsWithAny_iff)
  have "in_order (added @ [t]) (started s @ queuedTasks s @ t # [])"
    using in_order_snoc [of added "started s @ queuedTasks s" t] inv inv_set [OF inv]
    by (simp add: sched_inv_def)
  then have "in_order (added @ [t]) ((started s @ [t]) @ queuedTasks s @ [])"
    using free(2) by (rule in_order_move)
  then have "sched_inv (push_active t s) (added @ [t])"
    using inv free new nt
    by (auto simp: sched_inv_def push_active_def apart_snoc intro: waits_mono)
  with False nt show ?thesis by (simp add: add_task_def start_task_def Let_def)
qed

lemma sched_inv_new: "sched_inv new_scheduler []"
  by (simp add: sched_inv_def new_scheduler_def apart_def waits_def in_order_def)

lemma reach_inv: "sched_reach cf s added \<Longrightarrow> sched_inv s added"
proof (induction rule: sched_reach.induct)
  case reach_new
  show ?case by (rule sched_inv_new)
next
  case (reach_add s added t s')
  with add_spec [of s added t 0] show ?case by auto
next
  case (reach_settle s added t s')
  with finish_spec [of s added 0 t] show ?case by auto
qed

lemma settle_run_pending:
  assumes "sched_reach cf s added" and "settle_run cf ts s = Some s'"
  shows "pending s' + length ts = pending s"
  using assms
proof (induction ts arbitrary: s)
  case (Cons t ts)
  from Cons.prems(2) obtain s1 where t: "t \<in> set (activeTasks s)" "finish cf 0 t s = Some s1"
    and r: "settle_run cf ts s1 = Some s'" by (auto split: if_splits option.splits)
  from Cons.IH [OF reach_settle [OF Cons.prems(1) t] r] finish_pending [OF reach_inv [OF Cons.prems(1)] t]
  show ?case by simp
qed simp

lemma waits_empty_active: "waits [] q \<Longrightarrow> q = []"
  by (cases q) (force simp: waits_def)+

lemma apart_member:
  assumes "apart ts" and "t \<in> set ts" and "u \<in> set ts" and "t \<noteq> u"
  shows "\<not> clash t u"
proof -
  obtain xs ys where sp: "ts = xs @ t # ys" using assms(2) by (meson split_list)
  with assms show ?thesis using clash_sym by (auto simp: apart_def sorted_wrt_append)
qed

end

section \<open>The model's conflict relation\<close>

interpretation acc: access_relation conflict
  by unfold_locales (rule conflict_sym)

text \<open>Calls with access to everything, which conflict with each other.\<close>

definition demo_call :: "nat \<Rightarrow> ToolCallTask" where
  "demo_call i = \<lparr>tc_id = i, tc_accesses = acc_all, tc_throws = False\<rparr>"

lemma demo_clash: "conflict acc_all acc_all"
  by code_simp

lemmas demo_sched_defs = add_task_def isBlocked_def conflictsWithAny_def new_scheduler_def start_task_def Let_def
  push_active_def demo_call_def

text \<open>
  C2: Mutual exclusion. In every state the scheduler reaches, by adding tool calls and settling
  active ones in any order, two different active tool calls never have conflicting accesses.
\<close>

theorem active_tasks_never_conflict:
  assumes "sched_reach conflict s added"
    and "t \<in> set (activeTasks s)" and "u \<in> set (activeTasks s)" and "t \<noteq> u"
  shows "\<not> conflict (tc_accesses t) (tc_accesses u)"
  using acc.apart_member [OF _ assms(2-4)] acc.reach_inv [OF assms(1)] by (simp add: acc.sched_inv_def)

theorem active_tasks_never_conflict_witness:
  "\<not> conflict (readFile ''/a'') (writeFile ''/b'')"
proof -
  let ?t = "\<lparr>tc_id = 1, tc_accesses = readFile ''/a'', tc_throws = False\<rparr>"
  let ?u = "\<lparr>tc_id = 2, tc_accesses = writeFile ''/b'', tc_throws = False\<rparr>"
  let ?s1 = "push_active ?t new_scheduler"
  let ?s2 = "push_active ?u ?s1"
  have nc: "\<not> conflict (writeFile ''/b'') (readFile ''/a'')" by code_simp
  have 1: "sched_reach conflict ?s1 ([] @ [?t])"
    by (rule reach_add [OF reach_new])
      (simp_all add: add_task_def isBlocked_def conflictsWithAny_def new_scheduler_def start_task_def Let_def)
  have 2: "sched_reach conflict ?s2 (([] @ [?t]) @ [?u])"
    by (rule reach_add [OF 1])
      (simp_all add: add_task_def isBlocked_def conflictsWithAny_def new_scheduler_def start_task_def
        Let_def push_active_def nc)
  from active_tasks_never_conflict [OF 2, of ?t ?u] show ?thesis
    by (simp add: push_active_def new_scheduler_def)
qed

text \<open>
  C3: Conflicting calls keep the provider's order. If \<open>t\<close> was added before \<open>u\<close> and their
  accesses conflict, then once \<open>u\<close> has been started, \<open>t\<close> was started before it; a later
  conflicting call never overtakes an earlier one, whatever settles in between.
\<close>

theorem conflicting_tasks_start_in_order:
  assumes "sched_reach conflict s added" and "precedes t u added"
    and "conflict (tc_accesses t) (tc_accesses u)" and "u \<in> set (started s)"
  shows "precedes t u (started s)"
proof -
  from acc.reach_inv [OF assms(1)] have inv: "acc.sched_inv s added" .
  then have "precedes t u (started s @ queuedTasks s)"
    using assms(2,3) by (auto simp: acc.sched_inv_def acc.in_order_def)
  moreover have "distinct (started s @ queuedTasks s)"
    using inv unfolding acc.sched_inv_def by (metis mset_eq_imp_distinct_iff)
  ultimately show ?thesis using assms(4) by (auto simp: precedes_append dest: precedes_in)
qed

theorem conflicting_tasks_start_in_order_witness:
  "precedes \<lparr>tc_id = 1, tc_accesses = acc_all, tc_throws = False\<rparr>
     \<lparr>tc_id = 2, tc_accesses = acc_all, tc_throws = False\<rparr>
     [\<lparr>tc_id = 1, tc_accesses = acc_all, tc_throws = False\<rparr>,
      \<lparr>tc_id = 2, tc_accesses = acc_all, tc_throws = False\<rparr>]"
proof -
  let ?t = "\<lparr>tc_id = 1, tc_accesses = acc_all, tc_throws = False\<rparr>"
  let ?u = "\<lparr>tc_id = 2, tc_accesses = acc_all, tc_throws = False\<rparr>"
  let ?s1 = "push_active ?t new_scheduler"
  let ?s2 = "?s1\<lparr>queuedTasks := [?u]\<rparr>"
  let ?s3 = "\<lparr>activeTasks = [?u], queuedTasks = [], started = [?t, ?u], rejected = []\<rparr>"
  have c: "conflict acc_all acc_all" by code_simp
  note defs = add_task_def isBlocked_def conflictsWithAny_def new_scheduler_def start_task_def Let_def
    push_active_def
  have 1: "sched_reach conflict ?s1 ([] @ [?t])"
    by (rule reach_add [OF reach_new]) (simp_all add: defs)
  have 2: "sched_reach conflict ?s2 (([] @ [?t]) @ [?u])"
    by (rule reach_add [OF 1]) (simp_all add: defs c)
  have 3: "sched_reach conflict ?s3 (([] @ [?t]) @ [?u])"
    by (rule reach_settle [OF 2, of ?t])
      (simp_all add: defs c finish_def startQueuedTasks_def splice_active_def)
  from conflicting_tasks_start_in_order [OF 3, of ?t ?u] show ?thesis by (simp add: c)
qed

text \<open>
  C4: The scheduler drains. From every reachable state, let settlements \<open>ts\<close> of active tasks arrive, in any
  order. Each leaves exactly one task less that is active or queued; whenever no task is active, none
  is queued and every task ever added has been started, once; and as long as one is active, its
  settlement returns. So every maximal sequence of settlements has as many members as tasks were
  pending, and starts them all: no queued call is forgotten, started twice or waits for ever.
\<close>

theorem scheduler_drains:
  assumes "sched_reach conflict s added" and "settle_run conflict ts s = Some s'"
  shows "pending s' + length ts = pending s \<and>
    (activeTasks s' = [] \<longrightarrow> queuedTasks s' = [] \<and> mset (started s') = mset added \<and> distinct (started s')) \<and>
    (\<forall>t \<in> set (activeTasks s'). settle_run conflict (ts @ [t]) s \<noteq> None)"
proof -
  from settle_run_reach [OF assms] have r: "sched_reach conflict s' added" .
  from acc.reach_inv [OF r] have inv: "acc.sched_inv s' added" .
  have "queuedTasks s' = []" if "activeTasks s' = []"
    using inv that acc.waits_empty_active [of "queuedTasks s'"] by (simp add: acc.sched_inv_def)
  moreover have "mset (started s' @ queuedTasks s') = mset added" "distinct added"
    using inv by (simp_all add: acc.sched_inv_def)
  moreover have "settle_run conflict (ts @ [t]) s \<noteq> None" if "t \<in> set (activeTasks s')" for t
    using assms(2) that acc.finish_spec [OF inv, of 0 t] by (auto simp: settle_run_append)
  ultimately show ?thesis
    using acc.settle_run_pending [OF assms] by (auto dest: mset_eq_imp_distinct_iff)
qed

theorem scheduler_drains_witness:
  "queuedTasks \<lparr>activeTasks = [], queuedTasks = [], started = [demo_call 1, demo_call 2], rejected = []\<rparr> = []
   \<and> mset [demo_call 1, demo_call 2] = mset ([demo_call 1] @ [demo_call 2])"
proof -
  let ?s2 = "(push_active (demo_call 1) new_scheduler)\<lparr>queuedTasks := [demo_call 2]\<rparr>"
  let ?s4 = "\<lparr>activeTasks = [], queuedTasks = [], started = [demo_call 1, demo_call 2], rejected = []\<rparr>"
  have 1: "sched_reach conflict (push_active (demo_call 1) new_scheduler) ([] @ [demo_call 1])"
    by (rule reach_add [OF reach_new]) (simp_all add: demo_sched_defs)
  have 2: "sched_reach conflict ?s2 (([] @ [demo_call 1]) @ [demo_call 2])"
    by (rule reach_add [OF 1]) (simp_all add: demo_sched_defs demo_clash)
  have 3: "settle_run conflict [demo_call 1, demo_call 2] ?s2 = Some ?s4"
    by (simp add: demo_sched_defs demo_clash finish_def startQueuedTasks_def splice_active_def)
  from scheduler_drains [OF 2 3] show ?thesis by simp
qed

text \<open>
  A queued task whose \<open>start()\<close> throws synchronously makes \<open>startQueuedTasks\<close> re-enter
  itself for ever: when the last active task settles and a throwing task heads the queue, no
  depth of re-entry is enough. The \<open>catch\<close> branch of \<open>start\<close> calls \<open>finish\<close> before the outer
  loop has taken the task out of \<open>this.queuedTasks\<close>.
\<close>

lemma throwing_loop_diverges:
  "tc_throws t \<Longrightarrow> activeTasks s = [] \<Longrightarrow> queuedTasks s = t # q \<Longrightarrow> queued_loop cf n (t # q) [] s = None"
proof (induction n arbitrary: s)
  case 0
  then show ?case by (simp add: isBlocked_def conflictsWithAny_def)
next
  case (Suc n)
  let ?s2 = "splice_active t (reject_task t (push_active t s))"
  have s2: "activeTasks ?s2 = []" "queuedTasks ?s2 = t # q"
    using Suc.prems by (simp_all add: splice_active_def reject_task_def push_active_def)
  have "queued_loop cf n (t # q) [] ?s2 = None" using Suc.prems(1) s2 by (rule Suc.IH)
  with Suc.prems s2 show ?case
    by (simp del: queued_loop.simps add: queued_loop.simps(2) [of cf "Suc n" t q "[]" s]
        isBlocked_def conflictsWithAny_def Let_def)
qed

theorem throwing_queued_start_never_returns:
  assumes "activeTasks s = [a]" and "queuedTasks s = t # q" and "tc_throws t"
  shows "\<forall>fuel. finish conflict fuel a s = None"
  using assms throwing_loop_diverges [of t "splice_active a s" q conflict]
  by (simp add: finish_def startQueuedTasks_def splice_active_def)

theorem throwing_queued_start_never_returns_witness:
  "\<forall>fuel. finish conflict fuel \<lparr>tc_id = 1, tc_accesses = acc_all, tc_throws = False\<rparr>
     \<lparr>activeTasks = [\<lparr>tc_id = 1, tc_accesses = acc_all, tc_throws = False\<rparr>],
      queuedTasks = [\<lparr>tc_id = 2, tc_accesses = acc_all, tc_throws = True\<rparr>],
      started = [\<lparr>tc_id = 1, tc_accesses = acc_all, tc_throws = False\<rparr>], rejected = []\<rparr> = None"
  by (rule throwing_queued_start_never_returns [of _ _ "\<lparr>tc_id = 2, tc_accesses = acc_all, tc_throws = True\<rparr>" "[]"])
    simp_all

end
