(* ===== verification/Agent_Records.thy ===== *)
theory Agent_Records
  imports Nori_Prelude
begin

text \<open>
  The services of the agent that its stateful components write to: the record log
  (\<open>AgentRecords.logRecord\<close>, \<open>agent/records/index.ts\<close>), the event sink
  (\<open>Agent.emitEvent\<close>, \<open>agent/index.ts\<close>) and the replay builder
  (\<open>agent/replay/index.ts\<close>). Types \<open>'r\<close>, \<open>'e\<close>, \<open>'p\<close> are the records, events and replay
  payloads of the component at hand. While a record is being restored, \<open>ag_restoring\<close> holds
  its time; then nothing is logged and nothing is emitted.
\<close>

section \<open>State\<close>

datatype 'r wire = WMetadata ms | WRecord 'r ms

record 'p ReplayBuilder =
  postRestoring :: bool
  captureLiveRecords :: bool
  rb_records :: "('p \<times> ms) list"
  frozen :: bool
  segmentStart :: nat
  rb_range :: "(nat option \<times> nat option) option"

record ('r, 'e, 'p) agent =
  ag_restoring :: "ms option"
  ag_persistence :: bool
  ag_metadataInitialized :: bool
  ag_wire :: "'r wire list"
  ag_events :: "'e list"
  ag_replay :: "'p ReplayBuilder"

section \<open>Record log and events\<close>

definition logRecord :: "ms \<Rightarrow> 'r \<Rightarrow> ('r, 'e, 'p) agent \<Rightarrow> ('r, 'e, 'p) agent" where
  "logRecord now r a =
     (if ag_restoring a \<noteq> None then a
      else let a1 = (if ag_persistence a \<and> \<not> ag_metadataInitialized a
                     then a\<lparr>ag_wire := ag_wire a @ [WMetadata now], ag_metadataInitialized := True\<rparr>
                     else a)
           in if ag_persistence a then a1\<lparr>ag_wire := ag_wire a1 @ [WRecord r now]\<rparr> else a1)"

definition emitEvent :: "'e \<Rightarrow> ('r, 'e, 'p) agent \<Rightarrow> ('r, 'e, 'p) agent" where
  "emitEvent e a = (if ag_restoring a \<noteq> None then a else a\<lparr>ag_events := ag_events a @ [e]\<rparr>)"

fun wire_payload :: "'r wire \<Rightarrow> ('r \<times> ms) list" where
  "wire_payload (WMetadata t) = []"
| "wire_payload (WRecord r t) = [(r, t)]"

definition logged :: "('r, 'e, 'p) agent \<Rightarrow> ('r \<times> ms) list" where
  "logged a = concat (map wire_payload (ag_wire a))"

section \<open>Replay builder\<close>

definition rb_push :: "ms option \<Rightarrow> ms \<Rightarrow> 'p \<Rightarrow> 'p ReplayBuilder \<Rightarrow> 'p ReplayBuilder" where
  "rb_push restoring now p b =
     (if captureLiveRecords b \<or> restoring \<noteq> None \<or> postRestoring b
      then (if frozen b then b
            else b\<lparr>rb_records := rb_records b @ [(p, case restoring of Some t \<Rightarrow> t | None \<Rightarrow> now)]\<rparr>)
      else b)"

definition rb_checkpoint :: "'p ReplayBuilder \<Rightarrow> nat" where
  "rb_checkpoint b = length (rb_records b)"

definition rb_truncate :: "nat \<Rightarrow> 'p ReplayBuilder \<Rightarrow> 'p ReplayBuilder" where
  "rb_truncate checkpoint b =
     (if frozen b then b else b\<lparr>rb_records := take checkpoint (rb_records b)\<rparr>)"

definition rb_patchLast :: "ms option \<Rightarrow> ('p \<Rightarrow> bool) \<Rightarrow> ('p \<Rightarrow> 'p) \<Rightarrow> 'p ReplayBuilder \<Rightarrow> 'p ReplayBuilder" where
  "rb_patchLast restoring is_type patch b =
     (if frozen b then b
      else if restoring \<noteq> None then
        (if rb_records b \<noteq> [] \<and> is_type (fst (last (rb_records b)))
         then b\<lparr>rb_records := butlast (rb_records b) @
                  [(patch (fst (last (rb_records b))), snd (last (rb_records b)))]\<rparr>
         else b)
      else b)"

definition rb_removeLastMessages :: "('p \<Rightarrow> bool) \<Rightarrow> 'p ReplayBuilder \<Rightarrow> 'p ReplayBuilder" where
  "rb_removeLastMessages is_removed b =
     (if frozen b then b else b\<lparr>rb_records := filter (\<lambda>(p, t). \<not> is_removed p) (rb_records b)\<rparr>)"

text \<open>\<open>boundary\<close>: the record just restored is a \<open>context.clear\<close> or
  \<open>context.apply_compaction\<close> (\<open>UNDO_BOUNDARY_RECORD_TYPES\<close>). The result is whether replay may
  stop.\<close>

definition finishRestoringRecord :: "bool \<Rightarrow> 'p ReplayBuilder \<Rightarrow> bool \<times> 'p ReplayBuilder" where
  "finishRestoringRecord boundary b =
     (case rb_range b of
        None \<Rightarrow> (False, b)
      | Some (start_opt, count_opt) \<Rightarrow>
          if frozen b then (True, b)
          else if \<not> boundary then (False, b)
          else (case start_opt of
                  None \<Rightarrow> (False, b)
                | Some start \<Rightarrow>
                    (let nextSegmentStart = segmentStart b + length (rb_records b)
                     in if nextSegmentStart > start then (True, b\<lparr>frozen := True\<rparr>)
                        else (False, b\<lparr>segmentStart := nextSegmentStart, rb_records := []\<rparr>))))"

definition buildResult :: "'p ReplayBuilder \<Rightarrow> ('p \<times> ms) list" where
  "buildResult b =
     (case rb_range b of
        None \<Rightarrow> rb_records b
      | Some (None, Some cnt) \<Rightarrow> drop (length (rb_records b) - cnt) (rb_records b)
      | Some (start_opt, count_opt) \<Rightarrow>
          (let start = (case start_opt of None \<Rightarrow> 0 | Some n \<Rightarrow> n);
               offset = start - segmentStart b
           in case count_opt of
                None \<Rightarrow> drop offset (rb_records b)
              | Some cnt \<Rightarrow> take cnt (drop offset (rb_records b))))"

definition replay_push :: "ms \<Rightarrow> 'p \<Rightarrow> ('r, 'e, 'p) agent \<Rightarrow> ('r, 'e, 'p) agent" where
  "replay_push now p a = a\<lparr>ag_replay := rb_push (ag_restoring a) now p (ag_replay a)\<rparr>"

definition replay_truncate :: "nat \<Rightarrow> ('r, 'e, 'p) agent \<Rightarrow> ('r, 'e, 'p) agent" where
  "replay_truncate n a = a\<lparr>ag_replay := rb_truncate n (ag_replay a)\<rparr>"

section \<open>Log facts\<close>

definition live :: "('r, 'e, 'p) agent \<Rightarrow> bool" where
  "live a \<longleftrightarrow> ag_restoring a = None \<and> ag_persistence a"

lemma logged_logRecord [simp]:
  "logged (logRecord now r a) = logged a @ (if live a then [(r, now)] else [])"
  by (simp add: logged_def logRecord_def live_def Let_def)

lemma restoring_frame [simp]:
  "ag_restoring (logRecord now r a) = ag_restoring a"
  "ag_restoring (emitEvent e a) = ag_restoring a"
  "ag_restoring (replay_push now p a) = ag_restoring a"
  "ag_restoring (replay_truncate n a) = ag_restoring a"
  by (simp_all add: logRecord_def emitEvent_def replay_push_def replay_truncate_def Let_def)

lemma logged_frame [simp]:
  "logged (emitEvent e a) = logged a"
  "logged (replay_push now p a) = logged a"
  "logged (replay_truncate n a) = logged a"
  by (simp_all add: logged_def emitEvent_def replay_push_def replay_truncate_def)

lemma live_frame [simp]:
  "live (logRecord now r a) = live a"
  "live (emitEvent e a) = live a"
  "live (replay_push now p a) = live a"
  "live (replay_truncate n a) = live a"
  by (simp_all add: live_def logRecord_def emitEvent_def replay_push_def replay_truncate_def Let_def)

lemma restoring_is_silent:
  assumes "ag_restoring a \<noteq> None"
  shows "logRecord now r a = a" and "emitEvent e a = a"
  using assms by (auto simp: logRecord_def emitEvent_def)

text \<open>The first record of the file is the metadata record, which \<open>replay\<close> insists on.\<close>

definition wire_ok :: "('r, 'e, 'p) agent \<Rightarrow> bool" where
  "wire_ok a \<longleftrightarrow> (if ag_metadataInitialized a then \<exists>t rest. ag_wire a = WMetadata t # rest else ag_wire a = [])"

lemma wire_ok_logRecord [inv_rules]: "wire_ok a \<Longrightarrow> wire_ok (logRecord now r a)"
  by (auto simp: wire_ok_def logRecord_def Let_def split: if_splits)

section \<open>Windowed replay\<close>

text \<open>
  The restore loop of \<open>AgentRecords.replay\<close> seen by the builder: each record pushes some
  payloads with its time and is then finished; the loop stops when that returns true.
\<close>

fun rb_replay :: "('p list \<times> ms \<times> bool) list \<Rightarrow> 'p ReplayBuilder \<Rightarrow> 'p ReplayBuilder" where
  "rb_replay [] b = b"
| "rb_replay ((ps, t, boundary) # rs) b =
     (let b1 = foldl (\<lambda>b p. rb_push (Some t) t p b) b ps
      in case finishRestoringRecord boundary b1 of
           (stop, b2) \<Rightarrow> if stop then b2 else rb_replay rs b2)"

fun payloads_of :: "('p list \<times> ms \<times> bool) list \<Rightarrow> ('p \<times> ms) list" where
  "payloads_of [] = []"
| "payloads_of ((ps, t, boundary) # rs) = map (\<lambda>p. (p, t)) ps @ payloads_of rs"

lemma rb_push_fold:
  "\<not> frozen b \<Longrightarrow> foldl (\<lambda>b p. rb_push (Some t) t p b) b ps =
     b\<lparr>rb_records := rb_records b @ map (\<lambda>p. (p, t)) ps\<rparr>"
  by (induction ps arbitrary: b) (simp_all add: rb_push_def)

lemma rb_replay_window:
  assumes "rb_range b = Some (Some start, Some cnt)" and "\<not> frozen b" and "segmentStart b \<le> start"
  shows "prefix (buildResult (rb_replay rs b)) (take cnt (drop (start - segmentStart b) (rb_records b @ payloads_of rs)))
    \<and> (start - segmentStart b < length (rb_records b @ payloads_of rs) \<and> cnt > 0 \<longrightarrow> buildResult (rb_replay rs b) \<noteq> [])"
  using assms
proof (induction rs arbitrary: b)
  case Nil
  then show ?case by (simp add: buildResult_def)
next
  case (Cons r rs)
  obtain ps t bd where r: "r = (ps, t, bd)" by (cases r)
  let ?new = "rb_records b @ map (\<lambda>p. (p, t)) ps"
  let ?b1 = "b\<lparr>rb_records := ?new\<rparr>"
  note push = rb_push_fold [OF Cons.prems(2), of t ps]
  consider (go) "\<not> bd" | (freeze) "bd" "segmentStart b + length ?new > start"
    | (drop) "bd" "segmentStart b + length ?new \<le> start" by linarith
  then show ?case
  proof cases
    case go
    with Cons.prems have "rb_replay (r # rs) b = rb_replay rs ?b1"
      by (simp add: r push finishRestoringRecord_def)
    moreover have "prefix (buildResult (rb_replay rs ?b1))
        (take cnt (drop (start - segmentStart ?b1) (rb_records ?b1 @ payloads_of rs))) \<and>
      (start - segmentStart ?b1 < length (rb_records ?b1 @ payloads_of rs) \<and> cnt > 0 \<longrightarrow>
        buildResult (rb_replay rs ?b1) \<noteq> [])"
      using Cons.prems by (intro Cons.IH) simp_all
    ultimately show ?thesis by (simp add: r add.assoc)
  next
    case freeze
    with Cons.prems have "rb_replay (r # rs) b = ?b1\<lparr>frozen := True\<rparr>"
      by (simp add: r push finishRestoringRecord_def)
    then have "buildResult (rb_replay (r # rs) b) = take cnt (drop (start - segmentStart b) ?new)"
      using Cons.prems by (simp add: buildResult_def)
    moreover have "start - segmentStart b < length ?new" using freeze(2) Cons.prems(3) by linarith
    moreover have "prefix (take cnt (drop (start - segmentStart b) ?new))
        (take cnt (drop (start - segmentStart b) (?new @ payloads_of rs)))"
      by (simp add: take_append)
    ultimately show ?thesis by (auto simp: r)
  next
    case drop
    let ?b2 = "b\<lparr>segmentStart := segmentStart b + length ?new, rb_records := []\<rparr>"
    from drop Cons.prems have "rb_replay (r # rs) b = rb_replay rs ?b2"
      by (simp add: r push finishRestoringRecord_def)
    moreover have "prefix (buildResult (rb_replay rs ?b2))
        (take cnt (drop (start - segmentStart ?b2) (rb_records ?b2 @ payloads_of rs))) \<and>
      (start - segmentStart ?b2 < length (rb_records ?b2 @ payloads_of rs) \<and> cnt > 0 \<longrightarrow>
        buildResult (rb_replay rs ?b2) \<noteq> [])"
      using Cons.prems drop by (intro Cons.IH) simp_all
    moreover have "drop (start - segmentStart b) (?new @ payloads_of rs)
        = drop (start - segmentStart ?b2) (payloads_of rs)"
      using drop(2) Cons.prems(3) by (simp add: drop_append add.assoc)
    ultimately show ?thesis using drop(2) by (simp add: r less_diff_conv2)
  qed
qed

definition new_replay_builder :: "(nat option \<times> nat option) option \<Rightarrow> 'p ReplayBuilder" where
  "new_replay_builder rng = \<lparr>postRestoring = False, captureLiveRecords = False, rb_records = [],
     frozen = False, segmentStart = 0, rb_range = rng\<rparr>"

text \<open>
  Reading a window of the transcript is sound. Dropping whole segments before the window and
  stopping at the first boundary past its start never changes what the window shows: the result
  is an initial part of the requested slice of the full transcript, and it is empty only when
  the slice is.
\<close>

theorem replay_window_is_slice:
  "prefix (buildResult (rb_replay rs (new_replay_builder (Some (Some start, Some cnt)))))
      (take cnt (drop start (payloads_of rs)))
   \<and> (buildResult (rb_replay rs (new_replay_builder (Some (Some start, Some cnt)))) = [])
      = (take cnt (drop start (payloads_of rs)) = [])"
  using rb_replay_window [of "new_replay_builder (Some (Some start, Some cnt))" start cnt rs]
  by (auto simp: new_replay_builder_def)

end
