(* ===== verification/Messages.thy ===== *)
theory Messages
  imports Nori_Prelude
begin

text \<open>
  Messages: the provider-facing shape (\<open>packages/kosong/src/message.ts\<close>) and its extension
  with transcript metadata (\<open>agent/context/types.ts\<close>). Provider-specific call \<open>extras\<close> are
  carried opaquely by the code and left out. Streamed parts merge by \<open>mergeInPlace\<close>.
\<close>

section \<open>Data\<close>

datatype Role = RoleSystem | RoleUser | RoleAssistant | RoleTool

datatype ContentPart =
    TextPart string
  | ThinkPart string "string option"
  | ImageURLPart string "string option"
  | AudioURLPart string "string option"
  | VideoURLPart string "string option"

datatype StreamIndex = NumIndex int | StrIndex string

record ToolCall =
  tc_id :: string
  tc_name :: string
  tc_arguments :: "string option"
  tc_streamIndex :: "StreamIndex option"

datatype StreamedMessagePart =
    SContent ContentPart
  | SCall ToolCall
  | SCallPart "string option" "StreamIndex option"

record Message =
  role :: Role
  msg_name :: "string option"
  content :: "ContentPart list"
  toolCalls :: "ToolCall list"
  toolCallId :: "string option"
  partial :: "bool option"

datatype SpeakerKind = SK_user | SK_lead | SK_team | SK_sub | SK_system

record SpeakerOrigin =
  speaker_from :: SpeakerKind
  speakerId :: "string option"
  speakerName :: "string option"

datatype SkillTrigger = UserSlash | ModelTool | NestedSkill

datatype OriginKind =
    OK_user "bool option"
  | OK_skill_activation string string SkillTrigger
  | OK_plugin_command string SkillTrigger
  | OK_injection string
  | OK_shell_command bool "bool option"
  | OK_compaction_summary
  | OK_system_trigger string
  | OK_background_task string string
  | OK_cron_job string
  | OK_cron_missed nat
  | OK_hook_result string "bool option"
  | OK_retry "string option"

record PromptOrigin =
  origin_kind :: OriginKind
  speaker :: "SpeakerOrigin option"

record ContextMessage = Message +
  origin :: "PromptOrigin option"
  isError :: "bool option"

section \<open>Constructors and text\<close>

fun is_text :: "ContentPart \<Rightarrow> bool" where
  "is_text (TextPart t) = True"
| "is_text _ = False"

fun part_text :: "ContentPart \<Rightarrow> string" where
  "part_text (TextPart t) = t"
| "part_text _ = []"

fun join_with :: "string \<Rightarrow> string list \<Rightarrow> string" where
  "join_with sep [] = []"
| "join_with sep [x] = x"
| "join_with sep (x # y # xs) = x @ sep @ join_with sep (y # xs)"

definition extractText :: "'a Message_scheme \<Rightarrow> string \<Rightarrow> string" where
  "extractText m sep = join_with sep (map part_text (filter is_text (content m)))"

definition createUserMessage :: "string \<Rightarrow> Message" where
  "createUserMessage t = \<lparr>role = RoleUser, msg_name = None, content = [TextPart t], toolCalls = [],
     toolCallId = None, partial = None\<rparr>"

definition createAssistantMessage :: "ContentPart list \<Rightarrow> ToolCall list option \<Rightarrow> Message" where
  "createAssistantMessage c tcs = \<lparr>role = RoleAssistant, msg_name = None, content = c,
     toolCalls = (case tcs of None \<Rightarrow> [] | Some l \<Rightarrow> l), toolCallId = None, partial = None\<rparr>"

definition createToolMessage :: "string \<Rightarrow> string + ContentPart list \<Rightarrow> Message" where
  "createToolMessage call_id output = \<lparr>role = RoleTool, msg_name = None,
     content = (case output of Inl t \<Rightarrow> [TextPart t] | Inr parts \<Rightarrow> parts),
     toolCalls = [], toolCallId = Some call_id, partial = None\<rparr>"

section \<open>Streaming\<close>

text \<open>\<open>mergeInPlace\<close> mutates its target; here the new target is returned, \<open>None\<close> for \<open>false\<close>.\<close>

fun mergeInPlace :: "StreamedMessagePart \<Rightarrow> StreamedMessagePart \<Rightarrow> StreamedMessagePart option" where
  "mergeInPlace (SContent (TextPart t)) (SContent (TextPart u)) = Some (SContent (TextPart (t @ u)))"
| "mergeInPlace (SContent (ThinkPart t enc)) (SContent (ThinkPart u enc')) =
     (if enc \<noteq> None then None
      else Some (SContent (ThinkPart (t @ u) (if enc' \<noteq> None then enc' else enc))))"
| "mergeInPlace (SCall tc) (SCallPart a i) =
     (case a of
        None \<Rightarrow> Some (SCall tc)
      | Some delta \<Rightarrow> Some (SCall (tc\<lparr>tc_arguments := Some (case tc_arguments tc of None \<Rightarrow> delta
                                                          | Some old \<Rightarrow> old @ delta)\<rparr>)))"
| "mergeInPlace _ _ = None"

lemma join_with_empty [simp]: "join_with [] xs = concat xs"
  by (induction "[] :: string" xs rule: join_with.induct) auto

lemma join_with_append:
  "xs \<noteq> [] \<Longrightarrow> ys \<noteq> [] \<Longrightarrow> join_with sep (xs @ ys) = join_with sep xs @ sep @ join_with sep ys"
  by (induction sep xs rule: join_with.induct) (auto simp: neq_Nil_conv)

end
