(* ===== verification/Compaction.thy ===== *)
theory Compaction
  imports Complex_Main Messages
begin

text \<open>
  Token estimates (\<open>utils/tokens.ts\<close>), what compaction keeps (\<open>agent/compaction/handoff.ts\<close>),
  micro compaction (\<open>agent/compaction/micro.ts\<close>) and the trigger (\<open>agent/compaction/strategy.ts\<close>).

  The estimate of a message is computed afresh: the code caches it per message object, and a message
  is not changed once its step has ended. Ratios are rational numbers; the products the code
  forms with doubles are within half a unit of the exact ones, so comparing them with integers
  decides alike for contexts below \<open>10 ^ 14\<close> tokens.
\<close>

section \<open>Token estimates\<close>

definition is_ascii :: "char \<Rightarrow> bool" where
  "is_ascii c \<longleftrightarrow> (of_char c :: nat) \<le> 127"

definition tokens_of_counts :: "nat \<Rightarrow> nat \<Rightarrow> nat" where
  "tokens_of_counts asciiCount nonAsciiCount = (asciiCount + 3) div 4 + nonAsciiCount"

definition estimateTokens :: "string \<Rightarrow> nat" where
  "estimateTokens t = tokens_of_counts (length (filter is_ascii t)) (length (filter (\<lambda>c. \<not> is_ascii c) t))"

definition MEDIA_TOKEN_ESTIMATE :: nat where "MEDIA_TOKEN_ESTIMATE = 2000"

fun estimateTokensForContentPart :: "ContentPart \<Rightarrow> nat" where
  "estimateTokensForContentPart (TextPart t) = estimateTokens t"
| "estimateTokensForContentPart (ThinkPart t enc) = estimateTokens t"
| "estimateTokensForContentPart (ImageURLPart u i) = MEDIA_TOKEN_ESTIMATE"
| "estimateTokensForContentPart (AudioURLPart u i) = MEDIA_TOKEN_ESTIMATE"
| "estimateTokensForContentPart (VideoURLPart u i) = MEDIA_TOKEN_ESTIMATE"

definition estimateTokensForContentParts :: "ContentPart list \<Rightarrow> nat" where
  "estimateTokensForContentParts ps = sum_list (map estimateTokensForContentPart ps)"

text \<open>\<open>JSON.stringify\<close> of a string (Latin-1 code units) or \<open>null\<close>.\<close>

definition hex_digit :: "nat \<Rightarrow> char" where
  "hex_digit n = (if n < 10 then char_of (48 + n) else char_of (87 + n))"

definition json_char :: "char \<Rightarrow> string" where
  "json_char c =
     (if c = CHR 0x22 then [CHR 0x5C, CHR 0x22]
      else if c = CHR 0x5C then [CHR 0x5C, CHR 0x5C]
      else if c = CHR 0x08 then [CHR 0x5C, CHR ''b'']
      else if c = CHR 0x0C then [CHR 0x5C, CHR ''f'']
      else if c = CHR 0x0A then [CHR 0x5C, CHR ''n'']
      else if c = CHR 0x0D then [CHR 0x5C, CHR ''r'']
      else if c = CHR 0x09 then [CHR 0x5C, CHR ''t'']
      else if (of_char c :: nat) < 32
      then [CHR 0x5C, CHR ''u'', CHR ''0'', CHR ''0'', hex_digit (of_char c div 16), hex_digit (of_char c mod 16)]
      else [c])"

definition json_string :: "string \<Rightarrow> string" where
  "json_string s = [CHR 0x22] @ concat (map json_char s) @ [CHR 0x22]"

definition json_args :: "string option \<Rightarrow> string" where
  "json_args a = (case a of None \<Rightarrow> ''null'' | Some s \<Rightarrow> json_string s)"

fun role_name :: "Role \<Rightarrow> string" where
  "role_name RoleSystem = ''system''"
| "role_name RoleUser = ''user''"
| "role_name RoleAssistant = ''assistant''"
| "role_name RoleTool = ''tool''"

definition estimateTokensForMessage :: "'a Message_scheme \<Rightarrow> nat" where
  "estimateTokensForMessage m =
     estimateTokens (role_name (role m)) + estimateTokensForContentParts (content m)
     + sum_list (map (\<lambda>tc. estimateTokens (tc_name tc) + estimateTokens (json_args (tc_arguments tc))) (toolCalls m))"

definition estimateTokensForMessages :: "'a Message_scheme list \<Rightarrow> nat" where
  "estimateTokensForMessages ms = sum_list (map estimateTokensForMessage ms)"

section \<open>What compaction keeps\<close>

definition COMPACT_USER_MESSAGE_MAX_TOKENS :: int where "COMPACT_USER_MESSAGE_MAX_TOKENS = 20000"

datatype Disposition = Keep | Drop

definition compactionUserMessageDisposition :: "PromptOrigin option \<Rightarrow> Disposition" where
  "compactionUserMessageDisposition og =
     (case og of
        None \<Rightarrow> Keep
      | Some p \<Rightarrow>
          (case origin_kind p of
             OK_user _ \<Rightarrow> Keep
           | OK_skill_activation _ _ tr \<Rightarrow> if tr = UserSlash then Keep else Drop
           | OK_plugin_command _ tr \<Rightarrow> if tr = UserSlash then Keep else Drop
           | _ \<Rightarrow> Drop))"

definition isCompactionSummaryMessage :: "ContextMessage \<Rightarrow> bool" where
  "isCompactionSummaryMessage m = (map_option origin_kind (origin m) = Some OK_compaction_summary)"

definition isRealUserInput :: "ContextMessage \<Rightarrow> bool" where
  "isRealUserInput m \<longleftrightarrow> role m = RoleUser \<and> compactionUserMessageDisposition (origin m) = Keep"

definition collectCompactableUserMessages :: "ContextMessage list \<Rightarrow> ContextMessage list" where
  "collectCompactableUserMessages ms = filter (\<lambda>m. isRealUserInput m \<and> \<not> isCompactionSummaryMessage m) ms"

text \<open>The loop of \<open>truncateTextToTokens\<close> with its two counters; the result is the kept prefix.\<close>

fun truncate_loop :: "string \<Rightarrow> nat \<Rightarrow> nat \<Rightarrow> int \<Rightarrow> string" where
  "truncate_loop [] a n maxTokens = []"
| "truncate_loop (c # cs) a n maxTokens =
     (let a' = (if is_ascii c then a + 1 else a); n' = (if is_ascii c then n else n + 1)
      in if int (tokens_of_counts a' n') > maxTokens then []
         else c # truncate_loop cs a' n' maxTokens)"

definition truncateTextToTokens :: "string \<Rightarrow> int \<Rightarrow> string" where
  "truncateTextToTokens t maxTokens = (if maxTokens \<le> 0 then [] else truncate_loop t 0 0 maxTokens)"

definition truncateUserMessage :: "ContextMessage \<Rightarrow> int \<Rightarrow> ContextMessage" where
  "truncateUserMessage m maxTokens =
     m\<lparr>content := [TextPart (truncateTextToTokens (concat (map part_text (filter is_text (content m)))) maxTokens)],
       toolCalls := []\<rparr>"

text \<open>The loop of \<open>selectRecentUserMessages\<close> from the newest message on: the selected messages,
  newest first.\<close>

fun select_loop :: "ContextMessage list \<Rightarrow> int \<Rightarrow> ContextMessage list" where
  "select_loop [] remaining = []"
| "select_loop (m # older) remaining =
     (if remaining \<le> 0 then []
      else let tokens = int (estimateTokensForMessage m)
           in if tokens \<le> remaining then m # select_loop older (remaining - tokens)
              else [truncateUserMessage m remaining])"

definition selectRecentUserMessages :: "ContextMessage list \<Rightarrow> int \<Rightarrow> ContextMessage list" where
  "selectRecentUserMessages ms maxTokens = rev (select_loop (rev ms) maxTokens)"

text \<open>\<open>COMPACTION_SUMMARY_PREFIX\<close> is the text of a Markdown file.\<close>

definition buildCompactionSummaryText :: "string \<Rightarrow> string \<Rightarrow> string" where
  "buildCompactionSummaryText prefix_text summary =
     (let suf = js_trim summary
      in prefix_text @ [CHR 0x0A] @ (if length suf > 0 then suf else ''(no summary available)''))"

section \<open>Micro compaction\<close>

record MicroCompactionConfig =
  keepRecentMessages :: nat
  minContentTokens :: nat
  cacheMissedThresholdMs :: ms
  truncatedMarker :: string
  minContextUsageRatio :: rat

definition DEFAULT_CONFIG :: MicroCompactionConfig where
  "DEFAULT_CONFIG = \<lparr>keepRecentMessages = 20, minContentTokens = 100,
     cacheMissedThresholdMs = 60 * 60 * 1000, truncatedMarker = ''[Old tool result content cleared]'',
     minContextUsageRatio = 1 / 2\<rparr>"

definition micro_reset :: "nat \<Rightarrow> nat \<Rightarrow> nat" where
  "micro_reset maxCutoff cutoff = min cutoff maxCutoff"

text \<open>The decision of \<open>detect\<close>: the new cutoff, \<open>None\<close> when nothing is applied.\<close>

definition micro_detect :: "bool \<Rightarrow> MicroCompactionConfig \<Rightarrow> ms \<Rightarrow> ms option \<Rightarrow> nat \<Rightarrow> int \<Rightarrow> int option \<Rightarrow> nat option" where
  "micro_detect enabled cfg now lastAssistantAt historyLength contextTokens maxContextTokens =
     (if \<not> enabled then None
      else let cacheMissed = (case lastAssistantAt of None \<Rightarrow> False
                              | Some t \<Rightarrow> now - t \<ge> cacheMissedThresholdMs cfg)
           in if \<not> cacheMissed then None
              else let ratio = (case maxContextTokens of
                                  Some mx \<Rightarrow> if mx > 0 then rat_of_int contextTokens / rat_of_int mx else 1
                                | None \<Rightarrow> 1)
                   in if ratio < minContextUsageRatio cfg then None
                      else Some (historyLength - keepRecentMessages cfg))"

definition clearable :: "MicroCompactionConfig \<Rightarrow> 'a Message_scheme \<Rightarrow> bool" where
  "clearable cfg m \<longleftrightarrow> role m = RoleTool \<and> toolCallId m \<noteq> None
     \<and> estimateTokensForContentParts (content m) \<ge> minContentTokens cfg"

fun compact_loop :: "MicroCompactionConfig \<Rightarrow> nat \<Rightarrow> nat \<Rightarrow> ContextMessage list \<Rightarrow> ContextMessage list" where
  "compact_loop cfg cutoff i [] = []"
| "compact_loop cfg cutoff i (m # ms) =
     (if i < cutoff \<and> clearable cfg m then m\<lparr>content := [TextPart (truncatedMarker cfg)]\<rparr> else m)
     # compact_loop cfg cutoff (Suc i) ms"

definition micro_compact :: "bool \<Rightarrow> MicroCompactionConfig \<Rightarrow> nat \<Rightarrow> ContextMessage list \<Rightarrow> ContextMessage list" where
  "micro_compact enabled cfg cutoff ms = (if \<not> enabled then ms else compact_loop cfg cutoff 0 ms)"

record MicroEffect =
  truncatedToolResultCount :: nat
  truncatedToolResultTokensBefore :: nat
  truncatedToolResultTokensAfter :: nat

definition measureEffect :: "MicroCompactionConfig \<Rightarrow> ContextMessage list \<Rightarrow> nat \<Rightarrow> MicroEffect" where
  "measureEffect cfg ms cutoff =
     (let hit = filter (clearable cfg) (take cutoff ms);
          marker = estimateTokensForContentParts [TextPart (truncatedMarker cfg)]
      in \<lparr>truncatedToolResultCount = length hit,
          truncatedToolResultTokensBefore = sum_list (map (\<lambda>m. estimateTokensForContentParts (content m)) hit),
          truncatedToolResultTokensAfter = sum_list (map (\<lambda>m. marker) hit)\<rparr>)"

section \<open>When to compact\<close>

record CompactionConfig =
  triggerRatio :: rat
  blockRatio :: rat
  reservedContextSize :: int
  maxOverflowCompactionAttempts :: nat

definition DEFAULT_COMPACTION_CONFIG :: CompactionConfig where
  "DEFAULT_COMPACTION_CONFIG = \<lparr>triggerRatio = 85 / 100, blockRatio = 85 / 100,
     reservedContextSize = 50000, maxOverflowCompactionAttempts = 3\<rparr>"

definition shouldUseReservedContext :: "CompactionConfig \<Rightarrow> int \<Rightarrow> int \<Rightarrow> bool" where
  "shouldUseReservedContext cfg maxSize usedSize \<longleftrightarrow>
     reservedContextSize cfg > 0 \<and> reservedContextSize cfg < maxSize \<and> usedSize + reservedContextSize cfg \<ge> maxSize"

definition shouldCompact :: "CompactionConfig \<Rightarrow> int \<Rightarrow> int \<Rightarrow> bool" where
  "shouldCompact cfg maxSize usedSize =
     (if maxSize \<le> 0 then False
      else rat_of_int usedSize \<ge> rat_of_int maxSize * triggerRatio cfg \<or> shouldUseReservedContext cfg maxSize usedSize)"

definition shouldBlock :: "CompactionConfig \<Rightarrow> int \<Rightarrow> int \<Rightarrow> bool" where
  "shouldBlock cfg maxSize usedSize =
     (if maxSize \<le> 0 then False
      else rat_of_int usedSize \<ge> rat_of_int maxSize * blockRatio cfg \<or> shouldUseReservedContext cfg maxSize usedSize)"

definition checkAfterStep :: "CompactionConfig \<Rightarrow> bool" where
  "checkAfterStep cfg \<longleftrightarrow> triggerRatio cfg \<noteq> blockRatio cfg"

end
