(* ===== verification/Context_Projector.thy ===== *)
theory Context_Projector
  imports Messages
begin

text \<open>
  The request projector (\<open>agent/context/projector.ts\<close>): from the stored history to the messages a
  provider accepts. The anomaly sink is modelled by the list of the anomalies reported, in order.
  The repair walks indices with a set of consumed ones, as the code does; its two loops are
  \<open>scan_results\<close> and \<open>repair_loop\<close>, which carry the index beside the rest of the list.
\<close>

section \<open>Data\<close>

record ProjectOptions =
  synthesizeMissing :: bool
  dropOrphanResults :: bool
  dropLeadingNonUser :: bool
  mergeConsecutiveAssistants :: bool

datatype ProjectionAnomaly =
    tool_result_reordered string
  | tool_result_synthesized string bool
  | orphan_tool_result_dropped string
  | leading_non_user_dropped Role
  | consecutive_assistants_merged
  | whitespace_text_dropped Role

text \<open>The thrown \<open>REQUEST_INVALID\<close> with its detail \<open>toolCallId\<close>.\<close>

datatype projection_error = EmptyToolResult "string option"

definition SYNTHETIC_TOOL_RESULT_TEXT :: string where
  "SYNTHETIC_TOOL_RESULT_TEXT = ''Tool result is not available in the current context. Do not assume the tool completed successfully.''"

section \<open>Preparing and merging user messages\<close>

definition is_blank_text :: "ContentPart \<Rightarrow> bool" where
  "is_blank_text p \<longleftrightarrow> is_text p \<and> length (js_trim (part_text p)) = 0"

definition prepareMessageForProjection ::
  "ContextMessage \<Rightarrow> (projection_error + ContextMessage option) \<times> ProjectionAnomaly list" where
  "prepareMessageForProjection m =
     (if partial m = Some True then (Inr None, [])
      else let blanks = filter is_blank_text (content m);
               anomalies = map (\<lambda>p. whitespace_text_dropped (role m))
                             (filter (\<lambda>p. length (part_text p) > 0) blanks);
               next = (if blanks = [] then m else m\<lparr>content := filter (\<lambda>p. \<not> is_blank_text p) (content m)\<rparr>)
           in if role next = RoleTool \<and> length (content next) = 0
              then (Inl (EmptyToolResult (toolCallId next)), anomalies)
              else if length (content next) = 0 \<and> length (toolCalls next) = 0 then (Inr None, anomalies)
              else (Inr (Some next), anomalies))"

definition canMergeUserMessage :: "ContextMessage \<Rightarrow> bool" where
  "canMergeUserMessage m \<longleftrightarrow> role m = RoleUser \<and>
     (case origin m of
        Some og \<Rightarrow> (case origin_kind og of OK_user _ \<Rightarrow> True | _ \<Rightarrow> False)
      | None \<Rightarrow> False)"

definition extractTextOnly :: "'a Message_scheme \<Rightarrow> string" where
  "extractTextOnly m = concat (map part_text (filter is_text (content m)))"

definition mergeTwoUserMessages :: "ContextMessage \<Rightarrow> ContextMessage \<Rightarrow> ContextMessage" where
  "mergeTwoUserMessages a b =
     (let aText = extractTextOnly a; bText = extractTextOnly b;
          nonTextParts = filter (\<lambda>p. \<not> is_text p) (content a) @ filter (\<lambda>p. \<not> is_text p) (content b);
          mergedText = TextPart (aText @ [CHR 0x0A, CHR 0x0A] @ bText)
      in \<lparr>role = RoleUser, msg_name = None, content = mergedText # nonTextParts, toolCalls = [],
          toolCallId = None, partial = None, origin = origin a, isError = None\<rparr>)"

definition stripContextMetadata :: "ContextMessage \<Rightarrow> Message" where
  "stripContextMetadata m = \<lparr>role = role m, msg_name = msg_name m, content = content m,
     toolCalls = toolCalls m, toolCallId = toolCallId m, partial = partial m\<rparr>"

definition push_merged :: "ContextMessage \<Rightarrow> ContextMessage list \<Rightarrow> ContextMessage list" where
  "push_merged m out =
     (if canMergeUserMessage m \<and> out \<noteq> [] \<and> canMergeUserMessage (last out)
      then butlast out @ [mergeTwoUserMessages (last out) m]
      else out @ [m])"

fun merge_loop :: "ContextMessage list \<Rightarrow> ContextMessage list \<Rightarrow> ProjectionAnomaly list \<Rightarrow>
    (projection_error + ContextMessage list) \<times> ProjectionAnomaly list" where
  "merge_loop [] out an = (Inr out, an)"
| "merge_loop (source # rest) out an =
     (case prepareMessageForProjection source of
        (Inl e, a) \<Rightarrow> (Inl e, an @ a)
      | (Inr None, a) \<Rightarrow> merge_loop rest out (an @ a)
      | (Inr (Some m), a) \<Rightarrow> merge_loop rest (push_merged m out) (an @ a))"

definition mergeAdjacentUserMessages ::
  "ContextMessage list \<Rightarrow> (projection_error + Message list) \<times> ProjectionAnomaly list" where
  "mergeAdjacentUserMessages history =
     (case merge_loop history [] [] of
        (Inl e, an) \<Rightarrow> (Inl e, an)
      | (Inr out, an) \<Rightarrow> (Inr (map stripContextMetadata out), an))"

section \<open>Repairing the adjacency of calls and results\<close>

definition makeSyntheticToolResult :: "string \<Rightarrow> Message" where
  "makeSyntheticToolResult i = \<lparr>role = RoleTool, msg_name = None,
     content = [TextPart SYNTHETIC_TOOL_RESULT_TEXT], toolCalls = [], toolCallId = Some i, partial = None\<rparr>"

text \<open>The index of the last message that is not a tool result; \<open>None\<close> is the code's \<open>-1\<close>.\<close>

fun last_non_tool :: "'a Message_scheme list \<Rightarrow> nat \<Rightarrow> nat option" where
  "last_non_tool ms 0 = None"
| "last_non_tool ms (Suc n) = (if role (ms ! n) = RoleTool then last_non_tool ms n else Some n)"

definition lastNonToolIndex :: "'a Message_scheme list \<Rightarrow> nat option" where
  "lastNonToolIndex ms = last_non_tool ms (length ms)"

text \<open>The inner loop: results, consumed indices, ids still pending, anomalies.\<close>

fun scan_results :: "nat \<Rightarrow> Message list \<Rightarrow> nat list \<Rightarrow> string list \<Rightarrow> bool \<Rightarrow>
    Message list \<times> nat list \<times> string list \<times> ProjectionAnomaly list" where
  "scan_results j [] consumed pending foreignBetween = ([], consumed, pending, [])"
| "scan_results j (next # rest) consumed pending foreignBetween =
     (if pending = [] then ([], consumed, pending, [])
      else if j \<in> set consumed then scan_results (Suc j) rest consumed pending foreignBetween
      else case (if role next = RoleTool then toolCallId next else None) of
          None \<Rightarrow> scan_results (Suc j) rest consumed pending True
        | Some i \<Rightarrow>
            if i \<in> set pending then
              (case scan_results (Suc j) rest (oset_add j consumed) (oset_remove i pending) foreignBetween of
                 (out, c, p, an) \<Rightarrow> (next # out, c, p, (if foreignBetween then [tool_result_reordered i] else []) @ an))
            else scan_results (Suc j) rest consumed pending True)"

definition has_calls :: "'a Message_scheme \<Rightarrow> bool" where
  "has_calls m \<longleftrightarrow> role m = RoleAssistant \<and> toolCalls m \<noteq> []"

definition call_ids :: "'a Message_scheme \<Rightarrow> string list" where
  "call_ids m = oset_of (map tc_id (toolCalls m))"

fun repair_loop :: "bool \<Rightarrow> nat option \<Rightarrow> nat \<Rightarrow> Message list \<Rightarrow> nat list \<Rightarrow>
    Message list \<times> ProjectionAnomaly list" where
  "repair_loop synth lastIdx i [] consumed = ([], [])"
| "repair_loop synth lastIdx i (m # rest) consumed =
     (if i \<in> set consumed then repair_loop synth lastIdx (Suc i) rest consumed
      else if \<not> has_calls m then
        (case repair_loop synth lastIdx (Suc i) rest consumed of (out, an) \<Rightarrow> (m # out, an))
      else case scan_results (Suc i) rest consumed (call_ids m) False of
        (results, consumed', pending, an1) \<Rightarrow>
          (let isMidHistory = (case lastIdx of None \<Rightarrow> False | Some l \<Rightarrow> i < l);
               closing = synth \<or> isMidHistory;
               missing = (if closing then map makeSyntheticToolResult pending else []);
               an2 = (if closing then map (\<lambda>p. tool_result_synthesized p (\<not> isMidHistory)) pending else [])
           in case repair_loop synth lastIdx (Suc i) rest consumed' of
                (out, an) \<Rightarrow> (m # results @ missing @ out, an1 @ an2 @ an)))"

definition repairToolExchangeAdjacency :: "bool \<Rightarrow> Message list \<Rightarrow> Message list \<times> ProjectionAnomaly list" where
  "repairToolExchangeAdjacency synth ms = repair_loop synth (lastNonToolIndex ms) 0 ms []"

section \<open>Strict-resend passes\<close>

definition dropOrphanToolResults :: "Message list \<Rightarrow> Message list \<times> ProjectionAnomaly list" where
  "dropOrphanToolResults ms =
     (let toolUseIds = concat (map (\<lambda>m. if role m = RoleAssistant then map tc_id (toolCalls m) else []) ms);
          orphan = (\<lambda>m. role m = RoleTool \<and> (case toolCallId m of None \<Rightarrow> False | Some i \<Rightarrow> i \<notin> set toolUseIds))
      in (filter (\<lambda>m. \<not> orphan m) ms,
          map (\<lambda>m. orphan_tool_result_dropped (the (toolCallId m))) (filter orphan ms)))"

definition push_assistant :: "Message list \<Rightarrow> Message \<Rightarrow> Message list" where
  "push_assistant out m =
     (if out \<noteq> [] \<and> role (last out) = RoleAssistant \<and> role m = RoleAssistant
      then butlast out @ [(last out)\<lparr>content := content (last out) @ content m,
                                      toolCalls := toolCalls (last out) @ toolCalls m\<rparr>]
      else out @ [m])"

definition mergeConsecutiveAssistantMessages :: "Message list \<Rightarrow> Message list \<times> ProjectionAnomaly list" where
  "mergeConsecutiveAssistantMessages ms =
     (let out = foldl push_assistant [] ms
      in (out, replicate (length ms - length out) consecutive_assistants_merged))"

definition dropLeadingNonUserMessages :: "Message list \<Rightarrow> Message list \<times> ProjectionAnomaly list" where
  "dropLeadingNonUserMessages ms =
     (dropWhile (\<lambda>m. role m \<noteq> RoleUser) ms,
      map (\<lambda>m. leading_non_user_dropped (role m)) (takeWhile (\<lambda>m. role m \<noteq> RoleUser) ms))"

definition stage :: "bool \<Rightarrow> (Message list \<Rightarrow> Message list \<times> ProjectionAnomaly list) \<Rightarrow>
    Message list \<times> ProjectionAnomaly list \<Rightarrow> Message list \<times> ProjectionAnomaly list" where
  "stage enabled pass r = (if enabled then (case pass (fst r) of (out, an) \<Rightarrow> (out, snd r @ an)) else r)"

definition project :: "ContextMessage list \<Rightarrow> ProjectOptions \<Rightarrow>
    (projection_error + Message list) \<times> ProjectionAnomaly list" where
  "project history opts =
     (case mergeAdjacentUserMessages history of
        (Inl e, an0) \<Rightarrow> (Inl e, an0)
      | (Inr merged, an0) \<Rightarrow>
          (let r1 = (case repairToolExchangeAdjacency (synthesizeMissing opts) merged of
                       (out, an) \<Rightarrow> (out, an0 @ an));
               r2 = stage (mergeConsecutiveAssistants opts) mergeConsecutiveAssistantMessages r1;
               r3 = stage (dropOrphanResults opts) dropOrphanToolResults r2;
               r4 = stage (dropLeadingNonUser opts) dropLeadingNonUserMessages r3
           in (Inr (fst r4), snd r4)))"

section \<open>Trimming an open tail\<close>

definition trimTrailingOpenToolExchange :: "Message list \<Rightarrow> Message list" where
  "trimTrailingOpenToolExchange history =
     (case lastNonToolIndex history of
        None \<Rightarrow> []
      | Some l \<Rightarrow>
          (let assistant = history ! l
           in if \<not> has_calls assistant then history
              else let ids = List.map_filter toolCallId (drop (Suc l) history)
                   in if list_all (\<lambda>tc. tc_id tc \<in> set ids) (toolCalls assistant) then history
                      else take l history))"

end
