(* ===== verification/Xml_Escape.thy ===== *)
theory Xml_Escape
  imports Nori_Prelude
begin

text \<open>
  \<open>packages/agent-core/src/utils/xml-escape.ts\<close>. \<open>replaceAll\<close> with a one-character pattern maps
  each character on its own; the escapes are such passes, one after the other.
\<close>

definition replaceAll :: "char \<Rightarrow> string \<Rightarrow> string \<Rightarrow> string" where
  "replaceAll c by s = concat (map (\<lambda>d. if d = c then by else [d]) s)"

definition escapeXml :: "string \<Rightarrow> string" where
  "escapeXml s = replaceAll CHR 0x22 ''&quot;''
     (replaceAll CHR ''>'' ''&gt;'' (replaceAll CHR ''<'' ''&lt;'' (replaceAll CHR ''&'' ''&amp;'' s)))"

definition escapeXmlAttr :: "string \<Rightarrow> string" where
  "escapeXmlAttr s = replaceAll CHR 0x22 ''&quot;'' (replaceAll CHR ''&'' ''&amp;'' s)"

definition escapeXmlTags :: "string \<Rightarrow> string" where
  "escapeXmlTags s = replaceAll CHR ''>'' ''&gt;'' (replaceAll CHR ''<'' ''&lt;'' s)"

lemma replaceAll_simps [simp]:
  "replaceAll c by [] = []"
  "replaceAll c by (d # s) = (if d = c then by else [d]) @ replaceAll c by s"
  "replaceAll c by (s @ t) = replaceAll c by s @ replaceAll c by t"
  by (simp_all add: replaceAll_def)

lemma escapeXml_append: "escapeXml (s @ t) = escapeXml s @ escapeXml t"
  by (simp add: escapeXml_def)

lemma escapeXml_Nil [simp]: "escapeXml [] = []"
  by (simp add: escapeXml_def)

text \<open>A decoder that reads the four entities and nothing else.\<close>

fun unescapeXml :: "string \<Rightarrow> string" where
  "unescapeXml [] = []"
| "unescapeXml (c # s) =
     (if c \<noteq> CHR ''&'' then c # unescapeXml s
      else if take 4 s = ''amp;'' then CHR ''&'' # unescapeXml (drop 4 s)
      else if take 3 s = ''lt;'' then CHR ''<'' # unescapeXml (drop 3 s)
      else if take 3 s = ''gt;'' then CHR ''>'' # unescapeXml (drop 3 s)
      else if take 5 s = ''quot;'' then CHR 0x22 # unescapeXml (drop 5 s)
      else c # unescapeXml s)"

lemma escapeXml_Cons:
  "escapeXml (c # s) =
     (if c = CHR ''&'' then ''&amp;'' else if c = CHR ''<'' then ''&lt;'' else if c = CHR ''>'' then ''&gt;''
      else if c = CHR 0x22 then ''&quot;'' else [c]) @ escapeXml s"
  by (simp add: escapeXml_def)

text \<open>
  Escaping is safe and loses nothing. The escaped text has no tag or quote character, so it
  cannot close the element or the attribute it is put in, and decoding gives the text back; hence
  escaping is injective.
\<close>

theorem escapeXml_roundtrip:
  "unescapeXml (escapeXml s) = s \<and> set (escapeXml s) \<inter> {CHR ''<'', CHR ''>'', CHR 0x22} = {}"
proof (induction s)
  case (Cons c s)
  then show ?case by (auto simp: escapeXml_Cons)
qed simp

end
