(* ===== verification/Context_Memory.thy ===== *)
theory Context_Memory
  imports Agent_Records Compaction Context_Projector Xml_Escape
    "HOL-Library.Char_ord" "HOL-Library.List_Lexorder"
begin

text \<open>
  The conversation an agent keeps (\<open>agent/context/index.ts\<close>): history, open tool exchanges, deferred
  messages, token counts.

  A message of the history is an object that its open step goes on changing; so entries carry an
  object identity, \<open>openSteps\<close> maps step ids to identities, and changing the object changes the entry
  that has it. \<open>cx_core\<close> fields are the state; the agent (log, events, replay) and the calls into
  other components (\<open>cx_calls\<close>, in order) are the effects. \<open>JSON.stringify\<close> of tool arguments is
  done by the caller of the model. The label of the human speaker is its UTF-8 bytes.
\<close>

section \<open>Data\<close>

record TokenUsage =
  inputOther :: nat
  output_tokens :: nat
  inputCacheRead :: nat
  inputCacheCreation :: nat

record ExecutableToolResult =
  tr_output :: "string + ContentPart list"
  tr_isError :: "bool option"

datatype LoopRecordedEvent =
    StepBegin string
  | StepEnd string "TokenUsage option"
  | ContentPartEvent string ContentPart
  | ToolCallEvent string string string "string option"
  | ToolResultEvent string ExecutableToolResult

record CompactionResult =
  cr_summary :: string
  cr_contextSummary :: string
  cr_compactedCount :: nat
  cr_tokensBefore :: int
  cr_tokensAfter :: int
  cr_keptUserMessageCount :: nat
  cr_droppedCount :: "nat option"

record CompactionInput =
  ci_summary :: string
  ci_contextSummary :: "string option"
  ci_compactedCount :: nat
  ci_tokensBefore :: int
  ci_tokensAfter :: "int option"
  ci_keptUserMessageCount :: "nat option"
  ci_droppedCount :: "nat option"

datatype ContextRecord =
    CR_clear
  | CR_undo int
  | CR_apply_compaction CompactionResult
  | CR_append_loop_event LoopRecordedEvent
  | CR_append_message ContextMessage
  | CR_append_transcript_message ContextMessage

datatype ContextEvent = CE_status_updated

text \<open>A replayed message is the object itself, so its identity.\<close>

datatype ContextReplay = CP_message nat | CP_compaction "CompactionResult option"

datatype ContextCall =
    Call_microCompaction_reset nat
  | Call_injection_onContextClear
  | Call_injection_onContextMessageRemoved nat
  | Call_injection_onContextCompacted
  | Call_background_markDelivered PromptOrigin
  | Call_turn_steer "ContentPart list" PromptOrigin
  | Call_log_repaired "nat list" "string list"

datatype context_error =
    UnknownStepForContentPart string
  | UnknownStepForToolCall string
  | UndoUnavailable int int bool

type_synonym context_agent = "(ContextRecord, ContextEvent, ContextReplay) agent"
type_synonym entry = "nat \<times> ContextMessage"

record ContextCore =
  cx_history :: "entry list"
  cx_tokenCount :: int
  cx_covered :: nat
  cx_openSteps :: "(string \<times> nat) list"
  cx_pending :: "string list"
  cx_deferred :: "entry list"
  cx_lastAssistantAt :: "ms option"
  cx_nextId :: nat

record ContextMemory = ContextCore +
  cx_agent :: context_agent
  cx_transient :: "ContextMessage option"
  cx_repairSignature :: "string option"
  cx_calls :: "ContextCall list"

definition TOOL_ERROR_STATUS :: string where
  "TOOL_ERROR_STATUS = ''<system>ERROR: Tool execution failed.</system>''"

definition TOOL_EMPTY_STATUS :: string where
  "TOOL_EMPTY_STATUS = ''<system>Tool output is empty.</system>''"

definition TOOL_EMPTY_ERROR_STATUS :: string where
  "TOOL_EMPTY_ERROR_STATUS = ''<system>ERROR: Tool execution failed. Tool output is empty.</system>''"

definition TOOL_OUTPUT_EMPTY_TEXT :: string where
  "TOOL_OUTPUT_EMPTY_TEXT = ''Tool output is empty.''"

definition TOOL_INTERRUPTED_ON_RESUME_OUTPUT :: string where
  "TOOL_INTERRUPTED_ON_RESUME_OUTPUT = ''Tool execution was interrupted before its result was recorded. Do not assume the tool completed successfully.''"

section \<open>Tool results and speakers\<close>

definition isEmptyEquivalentContentArray :: "ContentPart list \<Rightarrow> bool" where
  "isEmptyEquivalentContentArray parts \<longleftrightarrow> list_all (\<lambda>p. is_text p \<and> length (js_trim (part_text p)) = 0) parts"

definition isEmptyOutputText :: "string \<Rightarrow> bool" where
  "isEmptyOutputText t \<longleftrightarrow> length (js_trim t) = 0 \<or> js_trim t = TOOL_OUTPUT_EMPTY_TEXT"

definition toolResultOutputForModel :: "ExecutableToolResult \<Rightarrow> string + ContentPart list" where
  "toolResultOutputForModel r =
     (case tr_output r of
        Inl t \<Rightarrow>
          if tr_isError r = Some True then
            (if length t = 0 then Inl TOOL_EMPTY_ERROR_STATUS
             else if prefix ''<system>ERROR:'' (js_trim_start t) then Inl t
             else Inl (TOOL_ERROR_STATUS @ [CHR 0x0A] @ t))
          else Inl (if isEmptyOutputText t then TOOL_EMPTY_STATUS else t)
      | Inr parts \<Rightarrow>
          if isEmptyEquivalentContentArray parts
          then Inr [TextPart (if tr_isError r = Some True then TOOL_EMPTY_ERROR_STATUS else TOOL_EMPTY_STATUS)]
          else if tr_isError r = Some True then Inr (TextPart TOOL_ERROR_STATUS # parts)
          else Inr parts)"

fun speaker_kind_name :: "SpeakerKind \<Rightarrow> string" where
  "speaker_kind_name SK_user = ''user''"
| "speaker_kind_name SK_lead = ''lead''"
| "speaker_kind_name SK_team = ''team''"
| "speaker_kind_name SK_sub = ''sub''"
| "speaker_kind_name SK_system = ''system''"

definition USER_LABEL :: string where
  "USER_LABEL = [CHR 0xE7, CHR 0x94, CHR 0xA8, CHR 0xE6, CHR 0x88, CHR 0xB7]"

definition speakerDetails :: "PromptOrigin \<Rightarrow> (string \<times> string) option" where
  "speakerDetails og =
     (case speaker og of
        None \<Rightarrow> None
      | Some i \<Rightarrow>
          (let sid = map_option js_trim (speakerId i); nm = map_option js_trim (speakerName i);
               from_name = speaker_kind_name (speaker_from i)
           in Some (case sid of
                      None \<Rightarrow> from_name
                    | Some s \<Rightarrow> if length s = 0 then from_name else from_name @ '':'' @ s,
                    case nm of
                      None \<Rightarrow> if speaker_from i = SK_user then USER_LABEL else from_name
                    | Some n \<Rightarrow> if n = [] then (if speaker_from i = SK_user then USER_LABEL else from_name) else n)))"

definition wrapped_text :: "string \<times> string \<Rightarrow> string \<Rightarrow> string" where
  "wrapped_text sp t = ''<message from='' @ [CHR 0x22] @ escapeXml (fst sp) @ [CHR 0x22] @ '' name='' @ [CHR 0x22]
     @ escapeXml (snd sp) @ [CHR 0x22] @ ''>'' @ escapeXml t @ ''</message>''"

definition wrapSpeakerContent :: "ContentPart list \<Rightarrow> PromptOrigin \<Rightarrow> ContentPart list option" where
  "wrapSpeakerContent parts og =
     (case speakerDetails og of
        None \<Rightarrow> None
      | Some sp \<Rightarrow> Some (map (\<lambda>p. case p of TextPart t \<Rightarrow> TextPart (wrapped_text sp t) | _ \<Rightarrow> p) parts))"

section \<open>Effects\<close>

abbreviation on_agent_cx :: "(context_agent \<Rightarrow> context_agent) \<Rightarrow> ContextMemory \<Rightarrow> ContextMemory" where
  "on_agent_cx f c \<equiv> c\<lparr>cx_agent := f (cx_agent c)\<rparr>"

definition cx_log :: "ms \<Rightarrow> ContextRecord \<Rightarrow> ContextMemory \<Rightarrow> ContextMemory" where
  "cx_log now r c = on_agent_cx (logRecord now r) c"

definition cx_call :: "ContextCall \<Rightarrow> ContextMemory \<Rightarrow> ContextMemory" where
  "cx_call k c = c\<lparr>cx_calls := cx_calls c @ [k]\<rparr>"

definition cx_emitStatusUpdated :: "ContextMemory \<Rightarrow> ContextMemory" where
  "cx_emitStatusUpdated c = on_agent_cx (emitEvent CE_status_updated) c"

text \<open>A new message object.\<close>

definition alloc :: "ContextMessage \<Rightarrow> ContextMemory \<Rightarrow> entry \<times> ContextMemory" where
  "alloc m c = ((cx_nextId c, m), c\<lparr>cx_nextId := Suc (cx_nextId c)\<rparr>)"

section \<open>Pushing to the history\<close>

definition hasOpenToolExchange :: "'a ContextCore_scheme \<Rightarrow> bool" where
  "hasOpenToolExchange c \<longleftrightarrow> length (cx_pending c) > 0"

text \<open>What one message does once it stands in the history.\<close>

definition pushed_effects :: "ms \<Rightarrow> entry \<Rightarrow> ContextMemory \<Rightarrow> ContextMemory" where
  "pushed_effects now e c =
     (let m = snd e;
          c1 = (if role m = RoleAssistant
                then c\<lparr>cx_lastAssistantAt := Some (case ag_restoring (cx_agent c) of Some t \<Rightarrow> t | None \<Rightarrow> now)\<rparr>
                else c);
          c2 = (case origin m of
                  Some og \<Rightarrow> (case origin_kind og of
                               OK_background_task _ _ \<Rightarrow> cx_call (Call_background_markDelivered og) c1
                             | _ \<Rightarrow> c1)
                | None \<Rightarrow> c1)
      in on_agent_cx (replay_push now (CP_message (fst e))) c2)"

definition pushHistory :: "ms \<Rightarrow> entry list \<Rightarrow> ContextMemory \<Rightarrow> ContextMemory" where
  "pushHistory now es c = foldl (\<lambda>c e. pushed_effects now e c) (c\<lparr>cx_history := cx_history c @ es\<rparr>) es"

definition flushDeferredMessagesIfToolExchangeClosed :: "ms \<Rightarrow> ContextMemory \<Rightarrow> ContextMemory" where
  "flushDeferredMessagesIfToolExchangeClosed now c =
     (if length (cx_pending c) > 0 \<or> length (cx_deferred c) = 0 then c
      else (pushHistory now (cx_deferred c) c)\<lparr>cx_deferred := []\<rparr>)"

definition appendMessage :: "ms \<Rightarrow> ContextMessage \<Rightarrow> ContextMemory \<Rightarrow> ContextMemory" where
  "appendMessage now m c =
     (case alloc m (cx_log now (CR_append_message m) c) of
        (e, c1) \<Rightarrow>
          if hasOpenToolExchange c1 then c1\<lparr>cx_deferred := cx_deferred c1 @ [e]\<rparr>
          else pushHistory now [e] c1)"

definition appendTranscriptMessage :: "ms \<Rightarrow> ContextMessage \<Rightarrow> ContextMemory \<Rightarrow> ContextMemory" where
  "appendTranscriptMessage now m c =
     (case alloc m (cx_log now (CR_append_transcript_message m) c) of
        (e, c1) \<Rightarrow> on_agent_cx (replay_push now (CP_message (fst e))) c1)"

definition plain_user :: "ContentPart list \<Rightarrow> PromptOrigin \<Rightarrow> ContextMessage" where
  "plain_user parts og = \<lparr>role = RoleUser, msg_name = None, content = parts, toolCalls = [],
     toolCallId = None, partial = None, origin = Some og, isError = None\<rparr>"

definition simple_origin :: "OriginKind \<Rightarrow> PromptOrigin" where
  "simple_origin k = \<lparr>origin_kind = k, speaker = None\<rparr>"

definition USER_PROMPT_ORIGIN :: PromptOrigin where
  "USER_PROMPT_ORIGIN = \<lparr>origin_kind = OK_user None,
     speaker = Some \<lparr>speaker_from = SK_user, speakerId = None, speakerName = Some USER_LABEL\<rparr>\<rparr>"

definition appendUserMessage :: "ms \<Rightarrow> ContentPart list \<Rightarrow> PromptOrigin option \<Rightarrow> ContextMemory \<Rightarrow> ContextMemory" where
  "appendUserMessage now parts og c =
     (if length parts = 0 then c
      else appendMessage now (plain_user parts (case og of Some p \<Rightarrow> p | None \<Rightarrow> USER_PROMPT_ORIGIN)) c)"

definition reminder_text :: "string \<Rightarrow> string" where
  "reminder_text t = ''<system-reminder>'' @ [CHR 0x0A] @ js_trim t @ [CHR 0x0A] @ ''</system-reminder>''"

definition appendSystemReminder :: "ms \<Rightarrow> string \<Rightarrow> PromptOrigin \<Rightarrow> ContextMemory \<Rightarrow> ContextMemory" where
  "appendSystemReminder now t og c = appendMessage now (plain_user [TextPart (reminder_text t)] og) c"

definition importMigratedHistory :: "ms \<Rightarrow> entry list \<Rightarrow> ContextMemory \<Rightarrow> ContextMemory" where
  "importMigratedHistory now es c = (if length es = 0 then c else pushHistory now es c)"

fun transientReminderText :: "ContentPart list \<Rightarrow> string option" where
  "transientReminderText [TextPart t] = Some t"
| "transientReminderText _ = None"

definition setTransientSystemReminder :: "ms \<Rightarrow> string \<Rightarrow> PromptOrigin \<Rightarrow> ContextMemory \<Rightarrow> ContextMemory" where
  "setTransientSystemReminder now t og c =
     (let txt = reminder_text t; m = plain_user [TextPart txt] og;
          unchanged = (case cx_transient c of None \<Rightarrow> False
                       | Some old \<Rightarrow> transientReminderText (content old) = Some txt);
          c1 = c\<lparr>cx_transient := Some m\<rparr>
      in if unchanged then c1 else appendTranscriptMessage now m c1)"

definition clearTransientSystemReminder :: "ContextMemory \<Rightarrow> ContextMemory" where
  "clearTransientSystemReminder c = c\<lparr>cx_transient := None\<rparr>"

definition injectAndNotify :: "ms \<Rightarrow> string \<Rightarrow> PromptOrigin option \<Rightarrow> ContextMemory \<Rightarrow> ContextMemory" where
  "injectAndNotify now t og c =
     (let og' = (case og of Some p \<Rightarrow> p | None \<Rightarrow> simple_origin (OK_injection ''system_reminder''));
          c1 = appendTranscriptMessage now (plain_user [TextPart t] og') c
      in cx_call (Call_turn_steer [TextPart t] og') c1)"

definition appendLocalCommandStdout :: "ms \<Rightarrow> string \<Rightarrow> ContextMemory \<Rightarrow> ContextMemory" where
  "appendLocalCommandStdout now t c =
     appendMessage now (plain_user [TextPart (''<local-command-stdout>'' @ [CHR 0x0A] @ js_trim t @ [CHR 0x0A]
       @ ''</local-command-stdout>'')] (simple_origin (OK_injection ''local-command-stdout''))) c"

definition appendBashInput :: "ms \<Rightarrow> string \<Rightarrow> ContextMemory \<Rightarrow> ContextMemory" where
  "appendBashInput now cmd c =
     appendMessage now (plain_user [TextPart (''<bash-input>'' @ [CHR 0x0A] @ escapeXml cmd @ [CHR 0x0A]
       @ ''</bash-input>'')] (simple_origin (OK_shell_command True None))) c"

definition appendBashOutput :: "ms \<Rightarrow> string \<Rightarrow> string \<Rightarrow> bool option \<Rightarrow> ContextMemory \<Rightarrow> ContextMemory" where
  "appendBashOutput now out err isErr c =
     appendMessage now (plain_user [TextPart (''<bash-stdout>'' @ escapeXml out @ ''</bash-stdout><bash-stderr>''
       @ escapeXml err @ ''</bash-stderr>'')]
       (simple_origin (OK_shell_command False (if isErr = Some True then Some True else None)))) c"

definition popMatchedMessage :: "(PromptOrigin option \<Rightarrow> bool) \<Rightarrow> ContextMemory \<Rightarrow> bool \<times> ContextMemory" where
  "popMatchedMessage matcher c =
     (let last_entry = (if cx_deferred c \<noteq> [] then Some (last (cx_deferred c))
                        else if cx_history c \<noteq> [] then Some (last (cx_history c)) else None)
      in case last_entry of
           None \<Rightarrow> (False, c)
         | Some e \<Rightarrow>
             if \<not> matcher (origin (snd e)) then (False, c)
             else if cx_deferred c \<noteq> [] then (True, c\<lparr>cx_deferred := butlast (cx_deferred c)\<rparr>)
             else (True, c\<lparr>cx_history := butlast (cx_history c)\<rparr>))"

section \<open>Loop events\<close>

definition update_object :: "nat \<Rightarrow> (ContextMessage \<Rightarrow> ContextMessage) \<Rightarrow> entry list \<Rightarrow> entry list" where
  "update_object i f es = map (\<lambda>(j, m). (j, if j = i then f m else m)) es"

definition interrupted_result :: ExecutableToolResult where
  "interrupted_result = \<lparr>tr_output = Inl TOOL_INTERRUPTED_ON_RESUME_OUTPUT, tr_isError = Some True\<rparr>"

definition tool_result_message :: "string \<Rightarrow> ExecutableToolResult \<Rightarrow> ContextMessage" where
  "tool_result_message i r = \<lparr>role = RoleTool, msg_name = None,
     content = (case toolResultOutputForModel r of Inl t \<Rightarrow> [TextPart t] | Inr parts \<Rightarrow> parts),
     toolCalls = [], toolCallId = Some i, partial = None, origin = None, isError = tr_isError r\<rparr>"

text \<open>The branch \<open>tool.result\<close> of \<open>appendLoopEvent\<close>, log record included.\<close>

definition append_tool_result :: "ms \<Rightarrow> string \<Rightarrow> ExecutableToolResult \<Rightarrow> ContextMemory \<Rightarrow> ContextMemory" where
  "append_tool_result now i r c0 =
     (let c = cx_log now (CR_append_loop_event (ToolResultEvent i r)) c0
      in if i \<notin> set (cx_pending c) then c
         else case alloc (tool_result_message i r) c of
           (e, c1) \<Rightarrow>
             (let c2 = pushHistory now [e] c1;
                  c3 = c2\<lparr>cx_pending := oset_remove i (cx_pending c2)\<rparr>
              in flushDeferredMessagesIfToolExchangeClosed now c3))"

definition closePendingToolResults :: "ms \<Rightarrow> ContextMemory \<Rightarrow> ContextMemory" where
  "closePendingToolResults now c =
     (if length (cx_pending c) = 0 then c
      else foldl (\<lambda>c i. append_tool_result now i interrupted_result c) c (cx_pending c))"

definition empty_assistant :: ContextMessage where
  "empty_assistant = \<lparr>role = RoleAssistant, msg_name = None, content = [], toolCalls = [],
     toolCallId = None, partial = None, origin = None, isError = None\<rparr>"

definition index_of :: "nat \<Rightarrow> entry list \<Rightarrow> nat option" where
  "index_of i es = (let k = length (takeWhile (\<lambda>e. fst e \<noteq> i) es) in if k < length es then Some k else None)"

definition total_usage :: "TokenUsage \<Rightarrow> nat" where
  "total_usage u = inputCacheRead u + inputCacheCreation u + inputOther u + output_tokens u"

definition end_step :: "string \<Rightarrow> TokenUsage option \<Rightarrow> ContextMemory \<Rightarrow> ContextMemory" where
  "end_step uuid usage c =
     (let openStep = map_get (cx_openSteps c) uuid;
          c1 = c\<lparr>cx_openSteps := map_remove uuid (cx_openSteps c)\<rparr>
      in case usage of
           None \<Rightarrow> c1
         | Some u \<Rightarrow>
             (let openStepIndex = (case openStep of None \<Rightarrow> None | Some i \<Rightarrow> index_of i (cx_history c1));
                  coveredCount = (case openStepIndex of None \<Rightarrow> length (cx_history c1) | Some k \<Rightarrow> k + 1);
                  previous = cx_covered c1;
                  count' = (if total_usage u > 0 then int (total_usage u)
                            else cx_tokenCount c1 + int (estimateTokensForMessages
                              (map snd (drop previous (take coveredCount (cx_history c1))))))
              in c1\<lparr>cx_tokenCount := count', cx_covered := coveredCount\<rparr>))"

definition appendLoopEvent :: "ms \<Rightarrow> LoopRecordedEvent \<Rightarrow> ContextMemory \<Rightarrow> context_error option \<times> ContextMemory" where
  "appendLoopEvent now event c0 =
     (case event of
        StepBegin uuid \<Rightarrow>
          (let c1 = closePendingToolResults now (cx_log now (CR_append_loop_event event) c0)
           in case alloc empty_assistant c1 of
                (e, c2) \<Rightarrow>
                  (let c3 = pushHistory now [e] c2
                   in (None, c3\<lparr>cx_openSteps := map_put uuid (fst e) (cx_openSteps c3)\<rparr>)))
      | StepEnd uuid usage \<Rightarrow>
          (None, flushDeferredMessagesIfToolExchangeClosed now
                   (end_step uuid usage (cx_log now (CR_append_loop_event event) c0)))
      | ContentPartEvent uuid p \<Rightarrow>
          (let c = cx_log now (CR_append_loop_event event) c0
           in case map_get (cx_openSteps c) uuid of
                None \<Rightarrow> (Some (UnknownStepForContentPart uuid), c)
              | Some i \<Rightarrow> (None, c\<lparr>cx_history := update_object i (\<lambda>m. m\<lparr>content := content m @ [p]\<rparr>) (cx_history c)\<rparr>))
      | ToolCallEvent uuid call_id nm args \<Rightarrow>
          (let c = cx_log now (CR_append_loop_event event) c0;
               tc = \<lparr>tc_id = call_id, tc_name = nm, tc_arguments = args, tc_streamIndex = None\<rparr>
           in case map_get (cx_openSteps c) uuid of
                None \<Rightarrow> (Some (UnknownStepForToolCall uuid), c)
              | Some i \<Rightarrow>
                  (None, c\<lparr>cx_history := update_object i (\<lambda>m. m\<lparr>toolCalls := toolCalls m @ [tc]\<rparr>) (cx_history c),
                           cx_pending := oset_add call_id (cx_pending c)\<rparr>))
      | ToolResultEvent i r \<Rightarrow> (None, append_tool_result now i r c0))"

definition finishResume :: "ms \<Rightarrow> ContextMemory \<Rightarrow> ContextMemory" where
  "finishResume now c = closePendingToolResults now (c\<lparr>cx_openSteps := []\<rparr>)"

section \<open>Clearing, undoing, compacting\<close>

definition clear :: "ms \<Rightarrow> ContextMemory \<Rightarrow> ContextMemory" where
  "clear now c =
     (let c1 = cx_log now CR_clear c;
          c2 = c1\<lparr>cx_history := [], cx_tokenCount := 0, cx_covered := 0, cx_openSteps := [],
                  cx_pending := [], cx_deferred := []\<rparr>;
          c3 = (clearTransientSystemReminder c2)\<lparr>cx_lastAssistantAt := None\<rparr>
      in cx_emitStatusUpdated (cx_call Call_injection_onContextClear (cx_call (Call_microCompaction_reset 0) c3)))"

definition is_injection :: "ContextMessage \<Rightarrow> bool" where
  "is_injection m =
     (case map_option origin_kind (origin m) of Some k \<Rightarrow> (case k of OK_injection _ \<Rightarrow> True | _ \<Rightarrow> False) | None \<Rightarrow> False)"

text \<open>One message leaves the history; the count of covered messages and their tokens follow.\<close>

definition undo_one :: "nat \<Rightarrow> ContextMemory \<Rightarrow> ContextMemory" where
  "undo_one i c =
     (let m = snd (cx_history c ! i);
          c1 = cx_call (Call_injection_onContextMessageRemoved i)
                 (c\<lparr>cx_history := take i (cx_history c) @ drop (Suc i) (cx_history c)\<rparr>)
      in if i < cx_covered c1
         then c1\<lparr>cx_covered := cx_covered c1 - 1,
                 cx_tokenCount := cx_tokenCount c1 - int (estimateTokensForMessages [m])\<rparr>
         else c1)"

text \<open>The loop of \<open>undo\<close>: the first argument is \<open>i + 1\<close>. Results: prompts removed, whether a
  compaction summary stopped it, the identities removed.\<close>

fun undo_loop :: "nat \<Rightarrow> int \<Rightarrow> int \<Rightarrow> nat list \<Rightarrow> ContextMemory \<Rightarrow> int \<times> bool \<times> nat list \<times> ContextMemory" where
  "undo_loop 0 cnt removedUserCount removed c = (removedUserCount, False, removed, c)"
| "undo_loop (Suc i) cnt removedUserCount removed c =
     (if is_injection (snd (cx_history c ! i)) then undo_loop i cnt removedUserCount removed c
      else if isCompactionSummaryMessage (snd (cx_history c ! i)) then (removedUserCount, True, removed, c)
      else let removed' = removed @ [fst (cx_history c ! i)]; c2 = undo_one i c
           in if isRealUserInput (snd (cx_history c ! i)) then
                (if removedUserCount + 1 \<ge> cnt then (removedUserCount + 1, False, removed', c2)
                 else undo_loop i cnt (removedUserCount + 1) removed' c2)
              else undo_loop i cnt removedUserCount removed' c2)"

definition is_message_of :: "nat list \<Rightarrow> ContextReplay \<Rightarrow> bool" where
  "is_message_of ids p = (case p of CP_message i \<Rightarrow> i \<in> set ids | _ \<Rightarrow> False)"

definition undo :: "ms \<Rightarrow> int \<Rightarrow> ContextMemory \<Rightarrow> context_error option \<times> ContextMemory" where
  "undo now cnt c =
     (if cnt \<le> 0 then (None, c)
      else if length (cx_history c) = 0 then (None, c)
      else let c1 = clearTransientSystemReminder (cx_log now (CR_undo cnt) c)
           in case undo_loop (length (cx_history c1)) cnt 0 [] c1 of
                (removedUserCount, stoppedAtBoundary, removed, c2) \<Rightarrow>
                  (let c3 = on_agent_cx (\<lambda>a. a\<lparr>ag_replay := rb_removeLastMessages (is_message_of removed) (ag_replay a)\<rparr>) c2;
                       c4 = clearTransientSystemReminder (c3\<lparr>cx_openSteps := [], cx_pending := [], cx_deferred := []\<rparr>);
                       c5 = cx_emitStatusUpdated (cx_call (Call_microCompaction_reset (length (cx_history c4))) c4)
                   in if ag_restoring (cx_agent c5) = None \<and> (stoppedAtBoundary \<or> removedUserCount < cnt)
                      then (Some (UndoUnavailable cnt removedUserCount stoppedAtBoundary), c5)
                      else (None, c5)))"

fun is_compaction_payload :: "ContextReplay \<Rightarrow> bool" where
  "is_compaction_payload (CP_compaction r) = True"
| "is_compaction_payload _ = False"

definition kept_user_entries :: "ContextMemory \<Rightarrow> ContextMessage list" where
  "kept_user_entries c =
     selectRecentUserMessages (collectCompactableUserMessages (map snd (cx_history c))) COMPACT_USER_MESSAGE_MAX_TOKENS"

definition fresh_entries :: "nat \<Rightarrow> ContextMessage list \<Rightarrow> entry list" where
  "fresh_entries n ms = zip [n..<n + length ms] ms"

text \<open>
  Kept messages that are not truncated are the same objects as before; no step is open any more, so
  nothing can change them and they are given new identities here.
\<close>

definition applyCompaction :: "ms \<Rightarrow> CompactionInput \<Rightarrow> ContextMemory \<Rightarrow> CompactionResult \<times> ContextMemory" where
  "applyCompaction now inp c =
     (let kept = kept_user_entries c;
          contextSummary = (case ci_contextSummary inp of Some s \<Rightarrow> s | None \<Rightarrow> ci_summary inp);
          tokensAfter = (case ci_tokensAfter inp of Some n \<Rightarrow> n
                         | None \<Rightarrow> int (estimateTokens contextSummary + estimateTokensForMessages kept));
          result = \<lparr>cr_summary = ci_summary inp, cr_contextSummary = contextSummary,
                    cr_compactedCount = ci_compactedCount inp, cr_tokensBefore = ci_tokensBefore inp,
                    cr_tokensAfter = tokensAfter,
                    cr_keptUserMessageCount = (case ci_keptUserMessageCount inp of Some n \<Rightarrow> n | None \<Rightarrow> length kept),
                    cr_droppedCount = ci_droppedCount inp\<rparr>;
          c1 = cx_log now (CR_apply_compaction result) c;
          c2 = on_agent_cx (\<lambda>a. a\<lparr>ag_replay := rb_patchLast (ag_restoring a) is_compaction_payload
                 (\<lambda>p. CP_compaction (Some result)) (ag_replay a)\<rparr>) c1;
          summaryMessage = plain_user [TextPart contextSummary] (simple_origin OK_compaction_summary);
          isLegacyRestore = (ag_restoring (cx_agent c2) \<noteq> None \<and> ci_keptUserMessageCount inp = None
                             \<and> ci_compactedCount inp < length (cx_history c2));
          shape = (if isLegacyRestore
                   then summaryMessage # map snd (drop (ci_compactedCount inp) (cx_history c2))
                   else kept @ [summaryMessage]);
          c3 = c2\<lparr>cx_history := fresh_entries (cx_nextId c2) shape, cx_nextId := cx_nextId c2 + length shape,
                  cx_openSteps := [], cx_pending := [], cx_deferred := [],
                  cx_tokenCount := cr_tokensAfter result, cx_covered := length shape\<rparr>;
          c4 = cx_call Call_injection_onContextCompacted (cx_call (Call_microCompaction_reset 0) c3)
      in (result, cx_emitStatusUpdated c4))"

section \<open>Reading and projecting\<close>

definition tokenCountWithPending :: "'a ContextCore_scheme \<Rightarrow> int" where
  "tokenCountWithPending c =
     cx_tokenCount c + int (estimateTokensForMessages (map snd (drop (cx_covered c) (cx_history c))))"

definition historyWithTransientSystemReminder :: "ContextMemory \<Rightarrow> ContextMessage list" where
  "historyWithTransientSystemReminder c =
     (case cx_transient c of None \<Rightarrow> map snd (cx_history c) | Some m \<Rightarrow> map snd (cx_history c) @ [m])"

definition speak :: "ContextMessage \<Rightarrow> ContextMessage" where
  "speak m =
     (case origin m of
        None \<Rightarrow> m
      | Some og \<Rightarrow>
          if role m \<noteq> RoleUser then m
          else case wrapSpeakerContent (content m) og of None \<Rightarrow> m | Some c \<Rightarrow> m\<lparr>content := c\<rparr>)"

definition historyForModel :: "ContextMemory \<Rightarrow> ContextMessage list" where
  "historyForModel c = map speak (historyWithTransientSystemReminder c)"

fun anomaly_id :: "ProjectionAnomaly \<Rightarrow> string option" where
  "anomaly_id (tool_result_reordered i) = Some i"
| "anomaly_id (tool_result_synthesized i b) = Some i"
| "anomaly_id (orphan_tool_result_dropped i) = Some i"
| "anomaly_id _ = None"

fun anomaly_kind :: "ProjectionAnomaly \<Rightarrow> string" where
  "anomaly_kind (tool_result_reordered i) = ''tool_result_reordered''"
| "anomaly_kind (tool_result_synthesized i b) = ''tool_result_synthesized''"
| "anomaly_kind (orphan_tool_result_dropped i) = ''orphan_tool_result_dropped''"
| "anomaly_kind (leading_non_user_dropped r) = ''leading_non_user_dropped''"
| "anomaly_kind consecutive_assistants_merged = ''consecutive_assistants_merged''"
| "anomaly_kind (whitespace_text_dropped r) = ''whitespace_text_dropped''"

definition notable :: "ProjectionAnomaly \<Rightarrow> bool" where
  "notable a = (case a of tool_result_synthesized i trailing \<Rightarrow> \<not> trailing | _ \<Rightarrow> True)"

definition repair_signature :: "ProjectionAnomaly list \<Rightarrow> string" where
  "repair_signature an = join_with ''|'' (sort (map (\<lambda>a.
     case anomaly_id a of Some i \<Rightarrow> anomaly_kind a @ '':'' @ i | None \<Rightarrow> anomaly_kind a) an))"

definition repair_counts :: "ProjectionAnomaly list \<Rightarrow> nat list" where
  "repair_counts an = map (\<lambda>k. length (filter (\<lambda>a. anomaly_kind a = k) an))
     [''tool_result_reordered'', ''tool_result_synthesized'', ''orphan_tool_result_dropped'',
      ''leading_non_user_dropped'', ''consecutive_assistants_merged'', ''whitespace_text_dropped'']"

definition reportProjectionRepairs :: "ProjectionAnomaly list \<Rightarrow> ContextMemory \<Rightarrow> ContextMemory" where
  "reportProjectionRepairs anomalies c =
     (let an = filter notable anomalies; signature = repair_signature an
      in if an = [] then c\<lparr>cx_repairSignature := None\<rparr>
         else if cx_repairSignature c = Some signature then c
         else cx_call (Call_log_repaired (repair_counts an) (take 5 (oset_of (List.map_filter anomaly_id an))))
                (c\<lparr>cx_repairSignature := Some signature\<rparr>))"

text \<open>\<open>micro\<close> is \<open>microCompaction.compact\<close>.\<close>

definition cx_project :: "(ContextMessage list \<Rightarrow> ContextMessage list) \<Rightarrow> ContextMessage list \<Rightarrow> ProjectOptions \<Rightarrow>
    ContextMemory \<Rightarrow> (projection_error + Message list) \<times> ContextMemory" where
  "cx_project micro ms opts c =
     (case project (micro ms) opts of
        (Inl e, an) \<Rightarrow> (Inl e, c)
      | (Inr out, an) \<Rightarrow> (Inr out, reportProjectionRepairs an c))"

definition messages :: "(ContextMessage list \<Rightarrow> ContextMessage list) \<Rightarrow> ContextMemory \<Rightarrow>
    (projection_error + Message list) \<times> ContextMemory" where
  "messages micro c = cx_project micro (historyForModel c)
     \<lparr>synthesizeMissing = False, dropOrphanResults = False, dropLeadingNonUser = False,
      mergeConsecutiveAssistants = False\<rparr> c"

definition strictMessages :: "(ContextMessage list \<Rightarrow> ContextMessage list) \<Rightarrow> ContextMemory \<Rightarrow>
    (projection_error + Message list) \<times> ContextMemory" where
  "strictMessages micro c = cx_project micro (historyForModel c)
     \<lparr>synthesizeMissing = True, dropOrphanResults = True, dropLeadingNonUser = True,
      mergeConsecutiveAssistants = True\<rparr> c"

definition as_context :: "Message \<Rightarrow> ContextMessage" where
  "as_context m = \<lparr>role = role m, msg_name = msg_name m, content = content m, toolCalls = toolCalls m,
     toolCallId = toolCallId m, partial = partial m, origin = None, isError = None\<rparr>"

definition useProjectedHistoryFrom :: "ms \<Rightarrow> (ContextMessage list \<Rightarrow> ContextMessage list) \<Rightarrow> ContextMemory \<Rightarrow>
    ContextMemory \<Rightarrow> projection_error option \<times> ContextMemory \<times> ContextMemory" where
  "useProjectedHistoryFrom now micro source c =
     (let c1 = clear now c
      in case cx_project micro (map snd (cx_history source))
                \<lparr>synthesizeMissing = False, dropOrphanResults = False, dropLeadingNonUser = False,
                 mergeConsecutiveAssistants = False\<rparr> source of
           (Inl e, source') \<Rightarrow> (Some e, source', c1)
         | (Inr out, source') \<Rightarrow>
             (let ms = map as_context (trimTrailingOpenToolExchange out);
                  es = fresh_entries (cx_nextId c1) ms
              in (None, source', pushHistory now es (c1\<lparr>cx_nextId := cx_nextId c1 + length ms\<rparr>))))"

end
