(* ===== verification/Context_Facts.thy ===== *)
theory Context_Facts
  imports Context_Memory
begin

text \<open>
  What the context component promises: its invariant and that every operation keeps it. The
  operations are collected in \<open>CxOp\<close> and run by \<open>cx_step\<close>.
\<close>

section \<open>Operations as a step function\<close>

datatype CxOp =
    CxAppend ContextMessage
  | CxTranscript ContextMessage
  | CxEvent LoopRecordedEvent
  | CxClear
  | CxUndo int
  | CxCompact string "string option" nat int "nat option"

text \<open>What the code appends: messages of the user or the harness, and the answer that a hook gives in place of
  the assistant, marked with its origin (\<open>turn/index.ts\<close>); never results or calls.\<close>

definition plain :: "ContextMessage \<Rightarrow> bool" where
  "plain m \<longleftrightarrow> role m \<noteq> RoleTool \<and> toolCalls m = [] \<and> (role m = RoleAssistant \<longrightarrow> origin m \<noteq> None)"

text \<open>An event of a step that is open; others are rejected with an error, after they have been recorded.\<close>

definition accepts :: "ContextMemory \<Rightarrow> LoopRecordedEvent \<Rightarrow> bool" where
  "accepts c e \<longleftrightarrow>
     (case e of
        ContentPartEvent u p \<Rightarrow> map_get (cx_openSteps c) u \<noteq> None
      | ToolCallEvent u i n a \<Rightarrow> map_get (cx_openSteps c) u \<noteq> None
      | _ \<Rightarrow> True)"

fun cx_step :: "ContextMemory \<Rightarrow> ms \<times> CxOp \<Rightarrow> ContextMemory" where
  "cx_step c (now, CxAppend m) = (if plain m then appendMessage now m c else c)"
| "cx_step c (now, CxTranscript m) = appendTranscriptMessage now m c"
| "cx_step c (now, CxEvent e) = snd (appendLoopEvent now e c)"
| "cx_step c (now, CxClear) = clear now c"
| "cx_step c (now, CxUndo n) = snd (undo now n c)"
| "cx_step c (now, CxCompact s cs n before dropped) =
     snd (applyCompaction now \<lparr>ci_summary = s, ci_contextSummary = cs, ci_compactedCount = n,
       ci_tokensBefore = before, ci_tokensAfter = None, ci_keptUserMessageCount = None,
       ci_droppedCount = dropped\<rparr> c)"

section \<open>Field access\<close>

lemma effect_cx [simp]:
  "cx_history (cx_log now r c) = cx_history c" "cx_pending (cx_log now r c) = cx_pending c"
  "cx_deferred (cx_log now r c) = cx_deferred c" "cx_openSteps (cx_log now r c) = cx_openSteps c"
  "cx_nextId (cx_log now r c) = cx_nextId c" "cx_covered (cx_log now r c) = cx_covered c"
  "cx_tokenCount (cx_log now r c) = cx_tokenCount c" "cx_lastAssistantAt (cx_log now r c) = cx_lastAssistantAt c"
  "cx_agent (cx_log now r c) = logRecord now r (cx_agent c)" "cx_transient (cx_log now r c) = cx_transient c"
  "cx_history (cx_call k c) = cx_history c" "cx_pending (cx_call k c) = cx_pending c"
  "cx_deferred (cx_call k c) = cx_deferred c" "cx_openSteps (cx_call k c) = cx_openSteps c"
  "cx_nextId (cx_call k c) = cx_nextId c" "cx_covered (cx_call k c) = cx_covered c"
  "cx_tokenCount (cx_call k c) = cx_tokenCount c" "cx_lastAssistantAt (cx_call k c) = cx_lastAssistantAt c"
  "cx_agent (cx_call k c) = cx_agent c" "cx_transient (cx_call k c) = cx_transient c"
  "cx_history (cx_emitStatusUpdated c) = cx_history c" "cx_pending (cx_emitStatusUpdated c) = cx_pending c"
  "cx_deferred (cx_emitStatusUpdated c) = cx_deferred c" "cx_openSteps (cx_emitStatusUpdated c) = cx_openSteps c"
  "cx_nextId (cx_emitStatusUpdated c) = cx_nextId c" "cx_covered (cx_emitStatusUpdated c) = cx_covered c"
  "cx_tokenCount (cx_emitStatusUpdated c) = cx_tokenCount c"
  "cx_lastAssistantAt (cx_emitStatusUpdated c) = cx_lastAssistantAt c"
  "cx_agent (cx_emitStatusUpdated c) = emitEvent CE_status_updated (cx_agent c)"
  "cx_transient (cx_emitStatusUpdated c) = cx_transient c"
  by (simp_all add: cx_log_def cx_call_def cx_emitStatusUpdated_def)

abbreviation stamp :: "ms \<Rightarrow> ContextMemory \<Rightarrow> ms" where
  "stamp now c \<equiv> (case ag_restoring (cx_agent c) of Some t \<Rightarrow> t | None \<Rightarrow> now)"

lemma pushed_effects_fields [simp]:
  "cx_history (pushed_effects now e c) = cx_history c" "cx_pending (pushed_effects now e c) = cx_pending c"
  "cx_deferred (pushed_effects now e c) = cx_deferred c" "cx_openSteps (pushed_effects now e c) = cx_openSteps c"
  "cx_nextId (pushed_effects now e c) = cx_nextId c" "cx_covered (pushed_effects now e c) = cx_covered c"
  "cx_tokenCount (pushed_effects now e c) = cx_tokenCount c" "cx_transient (pushed_effects now e c) = cx_transient c"
  "cx_lastAssistantAt (pushed_effects now e c) =
     (if role (snd e) = RoleAssistant then Some (stamp now c) else cx_lastAssistantAt c)"
  "ag_restoring (cx_agent (pushed_effects now e c)) = ag_restoring (cx_agent c)"
  "logged (cx_agent (pushed_effects now e c)) = logged (cx_agent c)"
  "live (cx_agent (pushed_effects now e c)) = live (cx_agent c)"
  by (simp_all add: pushed_effects_def Let_def split: option.split OriginKind.split)

text \<open>The step back from \<open>foldl\<close>: what pushing changes.\<close>

definition last_assistant :: "ms \<Rightarrow> entry list \<Rightarrow> ms option \<Rightarrow> ms option" where
  "last_assistant t es old = (if \<exists>e \<in> set es. role (snd e) = RoleAssistant then Some t else old)"

lemma push_fold:
  "cx_history (foldl (\<lambda>c e. pushed_effects now e c) c es) = cx_history c \<and>
   cx_pending (foldl (\<lambda>c e. pushed_effects now e c) c es) = cx_pending c \<and>
   cx_deferred (foldl (\<lambda>c e. pushed_effects now e c) c es) = cx_deferred c \<and>
   cx_openSteps (foldl (\<lambda>c e. pushed_effects now e c) c es) = cx_openSteps c \<and>
   cx_nextId (foldl (\<lambda>c e. pushed_effects now e c) c es) = cx_nextId c \<and>
   cx_covered (foldl (\<lambda>c e. pushed_effects now e c) c es) = cx_covered c \<and>
   cx_tokenCount (foldl (\<lambda>c e. pushed_effects now e c) c es) = cx_tokenCount c \<and>
   cx_transient (foldl (\<lambda>c e. pushed_effects now e c) c es) = cx_transient c \<and>
   cx_lastAssistantAt (foldl (\<lambda>c e. pushed_effects now e c) c es) =
     last_assistant (stamp now c) es (cx_lastAssistantAt c) \<and>
   ag_restoring (cx_agent (foldl (\<lambda>c e. pushed_effects now e c) c es)) = ag_restoring (cx_agent c) \<and>
   logged (cx_agent (foldl (\<lambda>c e. pushed_effects now e c) c es)) = logged (cx_agent c) \<and>
   live (cx_agent (foldl (\<lambda>c e. pushed_effects now e c) c es)) = live (cx_agent c)"
  by (induction es arbitrary: c) (auto simp: last_assistant_def)

lemma pushHistory_fields [simp]:
  "cx_history (pushHistory now es c) = cx_history c @ es" "cx_pending (pushHistory now es c) = cx_pending c"
  "cx_deferred (pushHistory now es c) = cx_deferred c" "cx_openSteps (pushHistory now es c) = cx_openSteps c"
  "cx_nextId (pushHistory now es c) = cx_nextId c" "cx_covered (pushHistory now es c) = cx_covered c"
  "cx_tokenCount (pushHistory now es c) = cx_tokenCount c" "cx_transient (pushHistory now es c) = cx_transient c"
  "cx_lastAssistantAt (pushHistory now es c) = last_assistant (stamp now c) es (cx_lastAssistantAt c)"
  "ag_restoring (cx_agent (pushHistory now es c)) = ag_restoring (cx_agent c)"
  "logged (cx_agent (pushHistory now es c)) = logged (cx_agent c)"
  "live (cx_agent (pushHistory now es c)) = live (cx_agent c)"
  using push_fold [of now "c\<lparr>cx_history := cx_history c @ es\<rparr>" es] by (simp_all add: pushHistory_def)

section \<open>Calls and results in a history\<close>

definition calls_of :: "string \<Rightarrow> ContextMessage list \<Rightarrow> nat" where
  "calls_of i ms = sum_list (map (\<lambda>m. length (filter (\<lambda>tc. tc_id tc = i) (toolCalls m))) ms)"

definition results_of :: "string \<Rightarrow> ContextMessage list \<Rightarrow> nat" where
  "results_of i ms = length (filter (\<lambda>m. role m = RoleTool \<and> toolCallId m = Some i) ms)"

text \<open>No result comes before its call, none comes twice, and each pending id still lacks one.\<close>

definition balanced :: "ContextMessage list \<Rightarrow> string list \<Rightarrow> bool" where
  "balanced ms pending \<longleftrightarrow> (\<forall>i k. results_of i (take k ms) \<le> calls_of i (take k ms))
     \<and> (\<forall>i \<in> set pending. results_of i ms < calls_of i ms)"

lemma count_append [simp]:
  "calls_of i (ms @ ns) = calls_of i ms + calls_of i ns" "calls_of i [] = 0"
  "calls_of i [m] = length (filter (\<lambda>tc. tc_id tc = i) (toolCalls m))"
  "results_of i (ms @ ns) = results_of i ms + results_of i ns" "results_of i [] = 0"
  "results_of i [m] = (if role m = RoleTool \<and> toolCallId m = Some i then 1 else 0)"
  by (simp_all add: calls_of_def results_of_def)

lemma no_results: "\<forall>m \<in> set ms. role m \<noteq> RoleTool \<Longrightarrow> results_of i ms = 0"
  by (simp add: results_of_def filter_empty_conv)

lemma balanced_append:
  assumes "balanced ms p" and "\<forall>m \<in> set ns. role m \<noteq> RoleTool"
  shows "balanced (ms @ ns) p"
  unfolding balanced_def
proof (intro conjI allI ballI)
  fix i k
  have "\<forall>m \<in> set (take (k - length ms) ns). role m \<noteq> RoleTool" using assms(2) by (auto dest: in_set_takeD)
  then have "results_of i (take (k - length ms) ns) = 0" by (rule no_results)
  with assms(1) show "results_of i (take k (ms @ ns)) \<le> calls_of i (take k (ms @ ns))"
    by (simp add: balanced_def trans_le_add1)
next
  fix i assume "i \<in> set p"
  with assms no_results [OF assms(2)] show "results_of i (ms @ ns) < calls_of i (ms @ ns)"
    by (auto simp: balanced_def trans_less_add1)
qed

lemma balanced_result:
  assumes "balanced ms p" and "i \<in> set p" and "role m = RoleTool" and "toolCallId m = Some i"
  shows "balanced (ms @ [m]) (oset_remove i p)"
  unfolding balanced_def
proof (intro conjI allI ballI)
  fix j k
  have full: "results_of j (ms @ [m]) \<le> calls_of j (ms @ [m])"
  proof -
    have "results_of j ms \<le> calls_of j ms" using assms(1) unfolding balanced_def by (metis take_all order_refl)
    moreover have "results_of i ms < calls_of i ms" using assms(1,2) by (simp add: balanced_def)
    ultimately show ?thesis using assms(3,4) by (cases "j = i") auto
  qed
  show "results_of j (take k (ms @ [m])) \<le> calls_of j (take k (ms @ [m]))"
  proof (cases "k \<le> length ms")
    case True
    then show ?thesis using assms(1) by (simp add: balanced_def)
  next
    case False
    then have "take k (ms @ [m]) = ms @ [m]" by simp
    with full show ?thesis by simp
  qed
next
  fix j assume "j \<in> set (oset_remove i p)"
  with assms show "results_of j (ms @ [m]) < calls_of j (ms @ [m])" by (auto simp: balanced_def)
qed

lemma balanced_prefix: "balanced ms p \<Longrightarrow> balanced (take n ms) []"
  by (simp add: balanced_def)

lemma balanced_fewer: "balanced ms p \<Longrightarrow> set q \<subseteq> set p \<Longrightarrow> balanced ms q"
  by (auto simp: balanced_def)

text \<open>Changing one message that keeps its role and call id, and does not lose calls.\<close>

lemma balanced_update:
  assumes bal: "balanced (map snd es) p"
    and f: "\<And>m. role (f m) = role m" "\<And>m. toolCallId (f m) = toolCallId m"
      "\<And>m j. length (filter (\<lambda>tc. tc_id tc = j) (toolCalls m)) \<le> length (filter (\<lambda>tc. tc_id tc = j) (toolCalls (f m)))"
  shows "balanced (map snd (update_object i f es)) p"
proof -
  have res: "results_of j (map snd (update_object i f xs)) = results_of j (map snd xs)" for j xs
    by (induction xs) (auto simp: update_object_def results_of_def f split: if_splits)
  have cal: "calls_of j (map snd xs) \<le> calls_of j (map snd (update_object i f xs))" for j xs
    by (induction xs) (auto simp: update_object_def calls_of_def f(3) intro: add_mono)
  have tk: "take k (map snd (update_object i f es)) = map snd (update_object i f (take k es))" for k
    by (simp add: update_object_def take_map)
  show ?thesis using bal unfolding balanced_def tk res
    by (metis cal le_trans less_le_trans take_map)
qed

lemma update_object_simps [simp]:
  "update_object i f [] = []"
  "update_object i f ((j, m) # es) = (j, if j = i then f m else m) # update_object i f es"
  "map fst (update_object i f es) = map fst es"
  "length (update_object i f es) = length es"
  by (auto simp: update_object_def)

lemma calls_of_Cons:
  "calls_of j (m # ms) = length (filter (\<lambda>tc. tc_id tc = j) (toolCalls m)) + calls_of j ms"
  by (simp add: calls_of_def)

lemma calls_of_update:
  assumes "(i, m) \<in> set es" and "\<And>m. length (filter (\<lambda>tc. tc_id tc = j) (toolCalls m))
      < length (filter (\<lambda>tc. tc_id tc = j) (toolCalls (f m)))"
  shows "calls_of j (map snd es) < calls_of j (map snd (update_object i f es))"
proof -
  have le: "calls_of j (map snd xs) \<le> calls_of j (map snd (update_object i f xs))" for xs
  proof (induction xs)
    case (Cons x xs)
    obtain k n where "x = (k, n)" by (cases x)
    with Cons assms(2) [of n] show ?case by (simp add: calls_of_Cons)
  qed simp
  show ?thesis using assms(1)
  proof (induction es)
    case (Cons x xs)
    obtain k n where x: "x = (k, n)" by (cases x)
    show ?case
    proof (cases "k = i")
      case True
      with le [of xs] assms(2) [of n] show ?thesis by (simp add: x calls_of_Cons)
    next
      case False
      with Cons have "calls_of j (map snd xs) < calls_of j (map snd (update_object i f xs))" by (simp add: x)
      with False show ?thesis by (simp add: x calls_of_Cons)
    qed
  qed simp
qed

section \<open>Tool results can always be sent\<close>

lemma not_blank_text: "c \<in> set t \<Longrightarrow> \<not> is_js_space c \<Longrightarrow> \<not> is_blank_text (TextPart t)"
  by (auto simp: is_blank_text_def js_trim_eq_Nil_iff)

lemma status_not_blank [simp]:
  "\<not> is_blank_text (TextPart TOOL_ERROR_STATUS)" "\<not> is_blank_text (TextPart TOOL_EMPTY_STATUS)"
  "\<not> is_blank_text (TextPart TOOL_EMPTY_ERROR_STATUS)"
  "\<not> is_blank_text (TextPart (TOOL_ERROR_STATUS @ t))"
  by (rule not_blank_text [of "CHR ''<''"];
      simp add: TOOL_ERROR_STATUS_def TOOL_EMPTY_STATUS_def TOOL_EMPTY_ERROR_STATUS_def is_js_space_def)+

lemma error_prefix_not_blank: "prefix ''<system>ERROR:'' (js_trim_start t) \<Longrightarrow> \<not> is_blank_text (TextPart t)"
proof -
  assume "prefix ''<system>ERROR:'' (js_trim_start t)"
  then have "CHR ''<'' \<in> set (js_trim_start t)" by (auto simp: prefix_def)
  then have "CHR ''<'' \<in> set t" by (auto simp: js_trim_start_def dest: set_dropWhileD)
  then show ?thesis by (rule not_blank_text) (simp add: is_js_space_def)
qed

lemma blank_parts: "isEmptyEquivalentContentArray parts = list_all is_blank_text parts"
  by (auto simp: isEmptyEquivalentContentArray_def is_blank_text_def list_all_iff)

lemma tool_result_content: "\<not> list_all is_blank_text (content (tool_result_message i r))"
proof (cases "tr_output r")
  case (Inl t)
  have "\<not> is_blank_text (TextPart (projl (toolResultOutputForModel r)))
      \<and> isl (toolResultOutputForModel r)"
    using error_prefix_not_blank [of t]
    by (auto simp: toolResultOutputForModel_def Inl isEmptyOutputText_def)
      (simp add: is_blank_text_def)
  then show ?thesis by (cases "toolResultOutputForModel r") (auto simp: tool_result_message_def)
next
  case (Inr parts)
  then show ?thesis by (auto simp: tool_result_message_def toolResultOutputForModel_def blank_parts)
qed

section \<open>The invariant\<close>

definition entry_ok :: "ContextMessage \<Rightarrow> bool" where
  "entry_ok m \<longleftrightarrow> plain m \<or> (role m = RoleAssistant \<and> origin m = None)
     \<or> (role m = RoleTool \<and> origin m = None \<and> toolCalls m = [] \<and> toolCallId m \<noteq> None
        \<and> \<not> list_all is_blank_text (content m))"

text \<open>Objects have identities of their own, allocated in order.\<close>

definition ids_ok :: "entry list \<Rightarrow> nat \<Rightarrow> bool" where
  "ids_ok es n \<longleftrightarrow> distinct (map fst es) \<and> (\<forall>e \<in> set es. fst e < n)"

text \<open>An open step changes an assistant message of the history.\<close>

definition steps_ok :: "entry list \<Rightarrow> (string \<times> nat) list \<Rightarrow> bool" where
  "steps_ok es steps \<longleftrightarrow> (\<forall>u i. map_get steps u = Some i \<longrightarrow> (\<exists>m. (i, m) \<in> set es \<and> role m = RoleAssistant \<and> origin m = None))"

lemma ids_ok_new: "ids_ok (es @ fs) n \<Longrightarrow> ids_ok (es @ (n, m) # fs) (Suc n)"
  by (auto simp: ids_ok_def less_Suc_eq image_iff)

lemma ids_ok_more: "ids_ok es n \<Longrightarrow> n \<le> n' \<Longrightarrow> ids_ok es n'"
  by (auto simp: ids_ok_def)

lemma ids_ok_left: "ids_ok (es @ fs) n \<Longrightarrow> ids_ok es n"
  by (simp add: ids_ok_def)

lemma steps_ok_append: "steps_ok es steps \<Longrightarrow> steps_ok (es @ fs) steps"
  unfolding steps_ok_def by (metis Un_iff set_append)

lemma steps_ok_Nil [simp]: "steps_ok es []"
  by (simp add: steps_ok_def)

definition ctx_pre :: "'a ContextCore_scheme \<Rightarrow> bool" where
  "ctx_pre c \<longleftrightarrow> distinct (cx_pending c)
     \<and> ids_ok (cx_history c @ cx_deferred c) (cx_nextId c) \<and> steps_ok (cx_history c) (cx_openSteps c)
     \<and> (\<forall>e \<in> set (cx_history c). entry_ok (snd e)) \<and> (\<forall>e \<in> set (cx_deferred c). plain (snd e))
     \<and> balanced (map snd (cx_history c)) (cx_pending c) \<and> cx_covered c \<le> length (cx_history c)"

text \<open>A message is deferred only while an exchange is open.\<close>

definition ctx_ok :: "'a ContextCore_scheme \<Rightarrow> bool" where
  "ctx_ok c \<longleftrightarrow> ctx_pre c \<and> (cx_deferred c \<noteq> [] \<longrightarrow> cx_pending c \<noteq> [])"

definition ctx_inv :: "ContextMemory \<Rightarrow> bool" where
  "ctx_inv c \<longleftrightarrow> ctx_ok c \<and> live (cx_agent c)"

lemma plain_not_tool: "plain m \<Longrightarrow> role m \<noteq> RoleTool"
  by (simp add: plain_def)

lemma plain_entry_ok: "plain m \<Longrightarrow> entry_ok m"
  by (simp add: entry_ok_def)

lemma plain_user_plain [simp]: "plain (plain_user parts og)"
  by (simp add: plain_def plain_user_def)

lemma ctx_ok_frame [simp]:
  "ctx_ok (cx_log now r c) = ctx_ok c" "ctx_ok (cx_call k c) = ctx_ok c"
  "ctx_ok (cx_emitStatusUpdated c) = ctx_ok c" "ctx_ok (c\<lparr>cx_agent := a\<rparr>) = ctx_ok c"
  "ctx_ok (c\<lparr>cx_transient := tr\<rparr>) = ctx_ok c"
  by (simp_all add: ctx_ok_def ctx_pre_def cx_log_def cx_call_def cx_emitStatusUpdated_def)

lemma ok_flush: "ctx_pre c \<Longrightarrow> ctx_ok (flushDeferredMessagesIfToolExchangeClosed now c)"
proof (cases "cx_pending c = [] \<and> cx_deferred c \<noteq> []")
  case True
  then have eq: "flushDeferredMessagesIfToolExchangeClosed now c = (pushHistory now (cx_deferred c) c)\<lparr>cx_deferred := []\<rparr>"
    by (simp add: flushDeferredMessagesIfToolExchangeClosed_def)
  assume pre: "ctx_pre c"
  have "balanced (map snd (cx_history c) @ map snd (cx_deferred c)) []"
    using pre True by (intro balanced_append) (auto simp: ctx_pre_def plain_not_tool)
  with pre True show ?thesis unfolding eq by (auto simp: ctx_ok_def ctx_pre_def plain_entry_ok steps_ok_append)
next
  case False
  then have "flushDeferredMessagesIfToolExchangeClosed now c = c"
    by (auto simp: flushDeferredMessagesIfToolExchangeClosed_def)
  moreover assume "ctx_pre c"
  ultimately show ?thesis using False by (auto simp: ctx_ok_def)
qed

lemma ok_appendMessage [inv_rules]:
  assumes "ctx_ok c" and "plain m"
  shows "ctx_ok (appendMessage now m c)"
proof -
  have bal: "balanced (map snd (cx_history c) @ [m]) (cx_pending c)"
    using assms by (intro balanced_append) (auto simp: ctx_ok_def ctx_pre_def plain_not_tool)
  have ids: "ids_ok ((cx_history c @ cx_deferred c) @ [(cx_nextId c, m)]) (Suc (cx_nextId c))"
    using assms(1) by (intro ids_ok_new) (simp add: ctx_ok_def ctx_pre_def)
  show ?thesis
  proof (cases "cx_pending c = []")
    case True
    then have "cx_deferred c = []" using assms(1) by (auto simp: ctx_ok_def)
    with True assms bal ids show ?thesis
      by (simp add: ctx_ok_def ctx_pre_def appendMessage_def alloc_def hasOpenToolExchange_def
          plain_entry_ok steps_ok_append)
  next
    case False
    with assms bal ids show ?thesis
      by (simp add: ctx_ok_def ctx_pre_def appendMessage_def alloc_def hasOpenToolExchange_def)
  qed
qed

lemma ok_appendTranscriptMessage [inv_rules]: "ctx_ok c \<Longrightarrow> ctx_ok (appendTranscriptMessage now m c)"
  by (auto simp: ctx_ok_def ctx_pre_def appendTranscriptMessage_def alloc_def intro: ids_ok_more)

lemma tool_result_message_simps [simp]:
  "role (tool_result_message i r) = RoleTool" "toolCallId (tool_result_message i r) = Some i"
  "toolCalls (tool_result_message i r) = []" "origin (tool_result_message i r) = None"
  by (simp_all add: tool_result_message_def)

lemma ok_append_tool_result [inv_rules]:
  assumes "ctx_ok c"
  shows "ctx_ok (append_tool_result now i r c)"
proof (cases "i \<in> set (cx_pending c)")
  case True
  let ?e = "(cx_nextId c, tool_result_message i r)"
  let ?c1 = "(cx_log now (CR_append_loop_event (ToolResultEvent i r)) c)\<lparr>cx_nextId := Suc (cx_nextId c)\<rparr>"
  let ?c3 = "(pushHistory now [?e] ?c1)\<lparr>cx_pending := oset_remove i (cx_pending c)\<rparr>"
  have eq: "append_tool_result now i r c = flushDeferredMessagesIfToolExchangeClosed now ?c3"
    using True by (simp add: append_tool_result_def alloc_def Let_def)
  have bal: "balanced (map snd (cx_history c) @ [tool_result_message i r]) (oset_remove i (cx_pending c))"
    using assms True by (intro balanced_result) (auto simp: ctx_ok_def ctx_pre_def)
  have entry: "entry_ok (tool_result_message i r)"
    by (simp add: entry_ok_def tool_result_content)
  have "ctx_pre ?c3"
    using assms bal entry ids_ok_new by (auto simp: ctx_ok_def ctx_pre_def steps_ok_append)
  then show ?thesis unfolding eq by (rule ok_flush)
next
  case False
  with assms show ?thesis by (simp add: append_tool_result_def Let_def)
qed

lemma ok_closePending [inv_rules]: "ctx_ok c \<Longrightarrow> ctx_ok (closePendingToolResults now c)"
proof -
  have "ctx_ok c \<Longrightarrow> ctx_ok (foldl (\<lambda>c i. append_tool_result now i interrupted_result c) c is)" for c "is"
    by (induction "is" arbitrary: c) (auto intro: ok_append_tool_result)
  then show "ctx_ok c \<Longrightarrow> ctx_ok (closePendingToolResults now c)" by (simp add: closePendingToolResults_def)
qed

subsection \<open>Loop events\<close>

lemma in_update_object: "(k, m) \<in> set (update_object i f es) \<longleftrightarrow>
    (\<exists>m0. (k, m0) \<in> set es \<and> m = (if k = i then f m0 else m0))"
  by (force simp: update_object_def image_iff)

lemma ids_ok_fst: "ids_ok es n \<longleftrightarrow> distinct (map fst es) \<and> (\<forall>i \<in> set (map fst es). i < n)"
  by (auto simp: ids_ok_def)

lemma ids_ok_update [simp]: "ids_ok (update_object i f es @ fs) n = ids_ok (es @ fs) n"
  unfolding ids_ok_fst map_append update_object_simps ..

lemma steps_ok_put:
  "steps_ok es os \<Longrightarrow> role m = RoleAssistant \<Longrightarrow> origin m = None \<Longrightarrow> steps_ok (es @ [(n, m)]) (map_put u n os)"
  unfolding steps_ok_def by (metis (no_types, lifting) Un_iff list.set_intros(1) map_get_put option.inject set_append)

lemma flush_pending [simp]: "cx_pending (flushDeferredMessagesIfToolExchangeClosed now c) = cx_pending c"
  by (simp add: flushDeferredMessagesIfToolExchangeClosed_def)

lemma steps_ok_update:
  "(\<And>m. role (f m) = role m) \<Longrightarrow> (\<And>m. origin (f m) = origin m) \<Longrightarrow> steps_ok es os \<Longrightarrow> steps_ok (update_object i f es) os"
  unfolding steps_ok_def in_update_object by metis

lemma entries_update:
  assumes "ids_ok es n" and "steps_ok es os" and "map_get os u = Some i"
    and "\<forall>e \<in> set es. entry_ok (snd e)"
    and f: "\<And>m. role (f m) = role m" "\<And>m. origin (f m) = origin m"
  shows "\<forall>e \<in> set (update_object i f es). entry_ok (snd e)"
proof (rule ballI)
  fix e assume mem: "e \<in> set (update_object i f es)"
  obtain k m where km: "e = (k, m)" by (cases e)
  with mem obtain m0 where e: "e = (k, if k = i then f m0 else m0)" "(k, m0) \<in> set es"
    by (auto simp: in_update_object)
  from assms(2,3) obtain m1 where m1: "(i, m1) \<in> set es" "role m1 = RoleAssistant" "origin m1 = None" by (auto simp: steps_ok_def)
  have "k = i \<Longrightarrow> m0 = m1" using e(2) m1(1) assms(1) by (auto simp: ids_ok_def dest: eq_key_imp_eq_value)
  with e assms(4) m1 f [of m1] show "entry_ok (snd e)"
    by (fastforce simp: entry_ok_def plain_def)
qed

lemma closePending_nothing_pending:
  "cx_pending (closePendingToolResults now c) = []"
proof -
  have step: "set (cx_pending (append_tool_result now i r c)) = set (cx_pending c) - {i}" for i r c
    by (auto simp: append_tool_result_def alloc_def Let_def)
  have "set (cx_pending (foldl (\<lambda>c i. append_tool_result now i interrupted_result c) c is))
      = set (cx_pending c) - set is" for c "is"
    by (induction "is" arbitrary: c) (auto simp: step)
  from this [of c "cx_pending c"] show ?thesis by (auto simp: closePendingToolResults_def)
qed

lemma ok_step_begin:
  assumes "ctx_ok c"
  shows "ctx_ok (snd (appendLoopEvent now (StepBegin u) c))"
proof -
  let ?c1 = "closePendingToolResults now (cx_log now (CR_append_loop_event (StepBegin u)) c)"
  have ok: "ctx_ok ?c1" using assms by (intro ok_closePending) simp
  have np: "cx_pending ?c1 = []" by (rule closePending_nothing_pending)
  with ok have nd: "cx_deferred ?c1 = []" by (auto simp: ctx_ok_def)
  have "balanced (map snd (cx_history ?c1) @ [empty_assistant]) []"
    using ok np by (intro balanced_append) (auto simp: ctx_ok_def ctx_pre_def empty_assistant_def)
  moreover have "ids_ok (cx_history ?c1 @ [(cx_nextId ?c1, empty_assistant)]) (Suc (cx_nextId ?c1))"
    using ok nd by (intro ids_ok_new [where fs = "[]"]) (simp add: ctx_ok_def ctx_pre_def)
  moreover have "steps_ok (cx_history ?c1 @ [(cx_nextId ?c1, empty_assistant)])
      (map_put u (cx_nextId ?c1) (cx_openSteps ?c1))"
    using ok by (intro steps_ok_put) (simp_all add: ctx_ok_def ctx_pre_def empty_assistant_def)
  moreover have "entry_ok empty_assistant" by (simp add: entry_ok_def empty_assistant_def)
  ultimately show ?thesis using ok np nd
    by (simp add: appendLoopEvent_def alloc_def Let_def ctx_ok_def ctx_pre_def)
qed

lemma ok_step_end:
  assumes "ctx_ok c"
  shows "ctx_ok (snd (appendLoopEvent now (StepEnd u us) c))"
proof -
  have "ctx_pre (end_step u us (cx_log now (CR_append_loop_event (StepEnd u us)) c))"
    using assms by (auto simp: end_step_def ctx_ok_def ctx_pre_def steps_ok_def index_of_def Let_def
        split: option.splits)
  from ok_flush [OF this] show ?thesis by (simp add: appendLoopEvent_def)
qed

lemma ok_content_part:
  assumes "ctx_ok c"
  shows "ctx_ok (snd (appendLoopEvent now (ContentPartEvent u p) c))"
proof (cases "map_get (cx_openSteps c) u")
  case (Some i)
  let ?f = "\<lambda>m. m\<lparr>content := content m @ [p]\<rparr> :: ContextMessage"
  have "\<forall>e \<in> set (update_object i ?f (cx_history c)). entry_ok (snd e)"
    using assms Some by (intro entries_update [where u = u and n = "cx_nextId c"])
      (auto simp: ctx_ok_def ctx_pre_def intro: ids_ok_left)
  moreover have "balanced (map snd (update_object i ?f (cx_history c))) (cx_pending c)"
    using assms by (intro balanced_update) (auto simp: ctx_ok_def ctx_pre_def)
  ultimately show ?thesis using assms Some
    by (simp add: appendLoopEvent_def Let_def ctx_ok_def ctx_pre_def steps_ok_update)
qed (use assms in \<open>simp add: appendLoopEvent_def\<close>)

lemma ok_tool_call:
  assumes "ctx_ok c"
  shows "ctx_ok (snd (appendLoopEvent now (ToolCallEvent u j nm a) c))"
proof (cases "map_get (cx_openSteps c) u")
  case (Some i)
  let ?tc = "\<lparr>tc_id = j, tc_name = nm, tc_arguments = a, tc_streamIndex = None\<rparr>"
  let ?f = "\<lambda>m. m\<lparr>toolCalls := toolCalls m @ [?tc]\<rparr> :: ContextMessage"
  let ?h = "update_object i ?f (cx_history c)"
  have ok: "ids_ok (cx_history c) (cx_nextId c)" "steps_ok (cx_history c) (cx_openSteps c)"
      "balanced (map snd (cx_history c)) (cx_pending c)" "\<forall>e \<in> set (cx_history c). entry_ok (snd e)"
    using assms by (auto simp: ctx_ok_def ctx_pre_def intro: ids_ok_left)
  have entries: "\<forall>e \<in> set ?h. entry_ok (snd e)"
    by (rule entries_update [OF ok(1,2) Some ok(4)]) simp_all
  have bal: "balanced (map snd ?h) (cx_pending c)" by (rule balanced_update [OF ok(3)]) simp_all
  from ok(2) Some obtain m where m: "(i, m) \<in> set (cx_history c)" by (auto simp: steps_ok_def)
  have "calls_of j (map snd (cx_history c)) < calls_of j (map snd ?h)"
    by (rule calls_of_update [OF m]) simp
  moreover have "results_of j (map snd ?h) \<le> calls_of j (map snd (cx_history c))"
  proof -
    have "results_of j (map snd (update_object i ?f es)) = results_of j (map snd es)" for es
      by (induction es) (auto simp: results_of_def split: if_splits)
    then show ?thesis using ok(3) unfolding balanced_def by (metis take_all order_refl)
  qed
  ultimately have "results_of j (map snd ?h) < calls_of j (map snd ?h)" by simp
  with bal have "balanced (map snd ?h) (oset_add j (cx_pending c))" by (auto simp: balanced_def)
  moreover have "oset_add j (cx_pending c) \<noteq> []"
    by (metis empty_iff insert_not_empty set_empty set_oset_add)
  ultimately show ?thesis using assms Some entries
    by (simp add: appendLoopEvent_def Let_def ctx_ok_def ctx_pre_def steps_ok_update)
qed (use assms in \<open>simp add: appendLoopEvent_def\<close>)

lemma ok_appendLoopEvent [inv_rules]: "ctx_ok c \<Longrightarrow> ctx_ok (snd (appendLoopEvent now e c))"
proof (cases e)
  case (ToolResultEvent i r)
  assume "ctx_ok c"
  then show ?thesis using ok_append_tool_result [of c now i r] by (simp add: ToolResultEvent appendLoopEvent_def)
qed (simp_all add: ok_step_begin ok_step_end ok_content_part ok_tool_call)

lemma ok_finishResume [inv_rules]: "ctx_ok c \<Longrightarrow> ctx_ok (finishResume now c)"
  unfolding finishResume_def by (rule ok_closePending) (simp add: ctx_ok_def ctx_pre_def)

subsection \<open>Undo, clear, compaction\<close>

lemma undo_one_fields [simp]:
  "cx_history (undo_one i c) = take i (cx_history c) @ drop (Suc i) (cx_history c)"
  "cx_pending (undo_one i c) = cx_pending c" "cx_deferred (undo_one i c) = cx_deferred c"
  "cx_openSteps (undo_one i c) = cx_openSteps c" "cx_nextId (undo_one i c) = cx_nextId c"
  "cx_agent (undo_one i c) = cx_agent c" "cx_lastAssistantAt (undo_one i c) = cx_lastAssistantAt c"
  "cx_covered (undo_one i c) = (if i < cx_covered c then cx_covered c - 1 else cx_covered c)"
  "cx_tokenCount (undo_one i c) = (if i < cx_covered c
     then cx_tokenCount c - int (estimateTokensForMessages [snd (cx_history c ! i)]) else cx_tokenCount c)"
  by (simp_all add: undo_one_def Let_def)

definition kept_by_undo :: "nat \<Rightarrow> nat \<Rightarrow> entry list \<Rightarrow> entry list" where
  "kept_by_undo j i es = take j es @ filter (\<lambda>e. is_injection (snd e)) (take (i - j) (drop j es)) @ drop i es"

lemma kept_by_undo_step:
  assumes "i < length es" and "j \<le> i"
  shows "is_injection (snd (es ! i)) \<Longrightarrow> kept_by_undo j i es = kept_by_undo j (Suc i) es"
    and "\<not> is_injection (snd (es ! i)) \<Longrightarrow>
      kept_by_undo j i (take i es @ drop (Suc i) es) = kept_by_undo j (Suc i) es"
proof -
  have mid: "take (Suc i - j) (drop j es) = take (i - j) (drop j es) @ [es ! i]"
    using assms by (simp add: Suc_diff_le take_Suc_conv_app_nth)
  have cons: "drop i es = es ! i # drop (Suc i) es" using assms(1) by (simp add: Cons_nth_drop_Suc)
  show "is_injection (snd (es ! i)) \<Longrightarrow> kept_by_undo j i es = kept_by_undo j (Suc i) es"
    by (simp add: kept_by_undo_def mid cons)
  show "\<not> is_injection (snd (es ! i)) \<Longrightarrow>
      kept_by_undo j i (take i es @ drop (Suc i) es) = kept_by_undo j (Suc i) es"
    using assms by (simp add: kept_by_undo_def mid drop_take)
qed

lemma undo_loop_props:
  assumes "undo_loop i cnt ru rem c = (ru', stop, rem', c')" and "i \<le> length (cx_history c)"
  shows "(\<exists>j \<le> i. cx_history c' = kept_by_undo j i (cx_history c))
    \<and> cx_pending c' = cx_pending c \<and> cx_deferred c' = cx_deferred c \<and> cx_openSteps c' = cx_openSteps c
    \<and> cx_nextId c' = cx_nextId c \<and> cx_agent c' = cx_agent c
    \<and> (cx_covered c \<le> length (cx_history c) \<longrightarrow> cx_covered c' \<le> length (cx_history c'))"
  using assms
proof (induction i cnt ru rem c rule: undo_loop.induct)
  case (1 cnt ru rem c)
  then show ?case by (auto simp: kept_by_undo_def)
next
  case (2 i cnt ru rem c)
  let ?e = "cx_history c ! i"
  have i: "i < length (cx_history c)" using "2.prems"(2) by simp
  show ?case
  proof (cases "is_injection (snd ?e)")
    case True
    from "2.IH"(1) [OF True] "2.prems" True obtain j where
      "j \<le> i" "cx_history c' = kept_by_undo j i (cx_history c)"
      and rest: "cx_pending c' = cx_pending c \<and> cx_deferred c' = cx_deferred c \<and> cx_openSteps c' = cx_openSteps c
        \<and> cx_nextId c' = cx_nextId c \<and> cx_agent c' = cx_agent c
        \<and> (cx_covered c \<le> length (cx_history c) \<longrightarrow> cx_covered c' \<le> length (cx_history c'))" by auto
    with kept_by_undo_step(1) [OF i _ True] show ?thesis by (metis le_SucI)
  next
    case inj: False
    show ?thesis
    proof (cases "isCompactionSummaryMessage (snd ?e)")
      case True
      with inj "2.prems" show ?thesis by (auto simp: kept_by_undo_def intro!: exI [of _ "Suc i"])
    next
      case sum: False
      have cov: "cx_covered c \<le> length (cx_history c) \<longrightarrow>
          cx_covered (undo_one i c) \<le> length (cx_history (undo_one i c))" using i by auto
      have base: "kept_by_undo i i (cx_history (undo_one i c)) = kept_by_undo i (Suc i) (cx_history c)"
        using kept_by_undo_step(2) [OF i order_refl inj] by simp
      have self: "kept_by_undo i i es = es" for es by (simp add: kept_by_undo_def)
      show ?thesis
      proof (cases "isRealUserInput (snd ?e) \<and> ru + 1 \<ge> cnt")
        case True
        with inj sum "2.prems" have c': "c' = undo_one i c" by (simp add: Let_def)
        have "cx_history c' = kept_by_undo i (Suc i) (cx_history c)" unfolding c' base [symmetric] self ..
        moreover from cov have "cx_covered c \<le> length (cx_history c) \<longrightarrow> cx_covered c' \<le> length (cx_history c')"
          unfolding c' .
        ultimately show ?thesis
          by (intro conjI exI [of _ i]) (simp_all add: c' del: undo_one_fields(1,8))
      next
        case False
        let ?rem = "rem @ [fst ?e]"
        have il: "i \<le> length (cx_history (undo_one i c))" using i by simp
        have "(\<exists>j \<le> i. cx_history c' = kept_by_undo j i (cx_history (undo_one i c)))
            \<and> cx_pending c' = cx_pending (undo_one i c) \<and> cx_deferred c' = cx_deferred (undo_one i c)
            \<and> cx_openSteps c' = cx_openSteps (undo_one i c) \<and> cx_nextId c' = cx_nextId (undo_one i c)
            \<and> cx_agent c' = cx_agent (undo_one i c)
            \<and> (cx_covered (undo_one i c) \<le> length (cx_history (undo_one i c)) \<longrightarrow>
               cx_covered c' \<le> length (cx_history c'))"
        proof (cases "isRealUserInput (snd ?e)")
          case True
          with False inj sum "2.prems"(1) have "undo_loop i cnt (ru + 1) ?rem (undo_one i c) = (ru', stop, rem', c')"
            by (simp add: Let_def)
          from "2.IH"(2) [OF inj sum refl refl True _ this il] True False show ?thesis by blast
        next
          case notreal: False
          with inj sum "2.prems"(1) have "undo_loop i cnt ru ?rem (undo_one i c) = (ru', stop, rem', c')"
            by (simp add: Let_def)
          from "2.IH"(3) [OF inj sum refl refl notreal this il] show ?thesis .
        qed
        then obtain j where
          j: "j \<le> i" "cx_history c' = kept_by_undo j i (cx_history (undo_one i c))"
          and rest: "cx_pending c' = cx_pending c \<and> cx_deferred c' = cx_deferred c
            \<and> cx_openSteps c' = cx_openSteps c \<and> cx_nextId c' = cx_nextId c \<and> cx_agent c' = cx_agent c"
          and rest2: "cx_covered (undo_one i c) \<le> length (cx_history (undo_one i c)) \<longrightarrow>
               cx_covered c' \<le> length (cx_history c')"
          unfolding undo_one_fields(2-6) by blast
        have "cx_history c' = kept_by_undo j (Suc i) (cx_history c)"
          using j(2) kept_by_undo_step(2) [OF i j(1) inj] by simp
        with j(1) rest rest2 cov show ?thesis by (metis le_SucI)
      qed
    qed
  qed
qed

lemma ids_ok_filter: "ids_ok es n \<Longrightarrow> ids_ok (take j es @ filter P (drop j es)) n"
proof -
  assume ids: "ids_ok es n"
  from ids have "distinct (map fst (take j es @ drop j es))" and lt: "\<forall>e \<in> set (take j es @ drop j es). fst e < n"
    by (simp_all add: ids_ok_def)
  then have "distinct (map fst (take j es))" "distinct (map fst (drop j es))"
    "fst ` set (take j es) \<inter> fst ` set (drop j es) = {}"
    unfolding map_append distinct_append set_map by blast+
  with lt show ?thesis unfolding ids_ok_def map_append distinct_append set_append set_map
    by (auto simp: distinct_map_filter)
qed

lemma ok_undo [inv_rules]:
  assumes "ctx_ok c"
  shows "ctx_ok (snd (undo now n c))"
proof (cases "n \<le> 0 \<or> cx_history c = []")
  case False
  let ?c1 = "clearTransientSystemReminder (cx_log now (CR_undo n) c)"
  obtain ru stop rem c2 where loop: "undo_loop (length (cx_history ?c1)) n 0 [] ?c1 = (ru, stop, rem, c2)"
    by (metis prod_cases4)
  have c1: "cx_history ?c1 = cx_history c" "cx_nextId ?c1 = cx_nextId c" "cx_covered ?c1 = cx_covered c"
    by (simp_all add: clearTransientSystemReminder_def)
  have cov: "cx_covered c \<le> length (cx_history c)" using assms by (simp add: ctx_ok_def ctx_pre_def)
  from undo_loop_props [OF loop order_refl] have
    "\<exists>j. cx_history c2 = take j (cx_history c) @ filter (\<lambda>e. is_injection (snd e)) (drop j (cx_history c))"
    and rest: "cx_nextId c2 = cx_nextId c" "cx_covered c2 \<le> length (cx_history c2)"
    unfolding c1 using cov by (auto simp: kept_by_undo_def)
  then obtain j where hist:
    "cx_history c2 = take j (cx_history c) @ filter (\<lambda>e. is_injection (snd e)) (drop j (cx_history c))" by blast
  have bal: "balanced (map snd (cx_history c2)) []"
  proof -
    have "balanced (take j (map snd (cx_history c))) []"
      using assms by (intro balanced_prefix [where p = "cx_pending c"]) (simp add: ctx_ok_def ctx_pre_def)
    moreover have "\<forall>m \<in> set (map snd (filter (\<lambda>e. is_injection (snd e)) (drop j (cx_history c)))). role m \<noteq> RoleTool"
      using assms by (auto simp: ctx_ok_def ctx_pre_def entry_ok_def is_injection_def plain_def
          dest!: in_set_dropD bspec split: option.splits)
    ultimately show ?thesis unfolding hist map_append take_map [symmetric] by (rule balanced_append)
  qed
  have ids: "ids_ok (cx_history c2) (cx_nextId c)"
    unfolding hist using assms by (intro ids_ok_filter) (auto simp: ctx_ok_def ctx_pre_def intro: ids_ok_left)
  have "\<forall>e \<in> set (cx_history c2). entry_ok (snd e)"
    using assms by (auto simp: hist ctx_ok_def ctx_pre_def dest: in_set_takeD in_set_dropD)
  with bal ids rest False loop show ?thesis
    by (simp add: undo_def Let_def clearTransientSystemReminder_def ctx_ok_def ctx_pre_def cx_emitStatusUpdated_def
        cx_call_def)
qed (auto simp: undo_def assms)

lemma ok_clear [inv_rules]: "ctx_ok c \<Longrightarrow> ctx_ok (clear now c)"
  by (simp add: clear_def ctx_ok_def ctx_pre_def clearTransientSystemReminder_def ids_ok_def balanced_def Let_def)

lemma fresh_entries_simps [simp]:
  "map fst (fresh_entries n ms) = [n..<n + length ms]" "map snd (fresh_entries n ms) = ms"
  "length (fresh_entries n ms) = length ms"
  by (simp_all add: fresh_entries_def)

lemma select_loop_plain:
  "\<forall>m \<in> set ms. isRealUserInput m \<and> toolCalls m = [] \<Longrightarrow> \<forall>m \<in> set (select_loop ms mx). plain m"
  by (induction ms arbitrary: mx)
    (auto simp: Let_def plain_def isRealUserInput_def truncateUserMessage_def)

lemma kept_plain: "ctx_ok c \<Longrightarrow> \<forall>m \<in> set (kept_user_entries c). plain m"
proof -
  assume ok: "ctx_ok c"
  have "\<forall>m \<in> set (rev (collectCompactableUserMessages (map snd (cx_history c)))). isRealUserInput m \<and> toolCalls m = []"
    using ok by (auto simp: collectCompactableUserMessages_def ctx_ok_def ctx_pre_def entry_ok_def plain_def
        isRealUserInput_def)
  from select_loop_plain [OF this] show ?thesis by (simp add: kept_user_entries_def selectRecentUserMessages_def)
qed

lemma ok_applyCompaction [inv_rules]:
  assumes "ctx_ok c" and "ag_restoring (cx_agent c) = None"
  shows "ctx_ok (snd (applyCompaction now inp c))"
proof -
  let ?cs = "case ci_contextSummary inp of Some s \<Rightarrow> s | None \<Rightarrow> ci_summary inp"
  let ?shape = "kept_user_entries c @ [plain_user [TextPart ?cs] (simple_origin OK_compaction_summary)]"
  have plain: "\<forall>m \<in> set ?shape. plain m" using kept_plain [OF assms(1)] by simp
  then have "balanced ?shape []"
    using balanced_append [of "[]" "[]" ?shape] by (simp add: balanced_def plain_not_tool)
  moreover have "ids_ok (fresh_entries (cx_nextId c) ?shape) (cx_nextId c + length ?shape)"
    by (simp add: ids_ok_fst)
  moreover have "\<forall>e \<in> set (fresh_entries (cx_nextId c) ?shape). entry_ok (snd e)"
    using plain by (metis fresh_entries_simps(2) image_eqI plain_entry_ok set_map)
  ultimately show ?thesis using assms(2)
    by (simp add: applyCompaction_def Let_def ctx_ok_def ctx_pre_def)
qed

section \<open>Every operation keeps it\<close>

lemma live_replay_update [simp]: "live (a\<lparr>ag_replay := x\<rparr>) = live a"
  by (simp add: live_def)

lemma live_operations [simp]:
  "live (cx_agent (cx_log now r c)) = live (cx_agent c)"
  "live (cx_agent (appendMessage now m c)) = live (cx_agent c)"
  "live (cx_agent (appendTranscriptMessage now m c)) = live (cx_agent c)"
  "live (cx_agent (flushDeferredMessagesIfToolExchangeClosed now c)) = live (cx_agent c)"
  "live (cx_agent (end_step u us c)) = live (cx_agent c)"
  "live (cx_agent (clear now c)) = live (cx_agent c)"
  by (simp_all add: appendMessage_def appendTranscriptMessage_def alloc_def Let_def
      flushDeferredMessagesIfToolExchangeClosed_def end_step_def clear_def clearTransientSystemReminder_def
      split: option.splits)

lemma live_append_tool_result [simp]: "live (cx_agent (append_tool_result now i r c)) = live (cx_agent c)"
  by (simp add: append_tool_result_def alloc_def Let_def)

lemma live_closePending [simp]: "live (cx_agent (closePendingToolResults now c)) = live (cx_agent c)"
proof -
  have "live (cx_agent (foldl (\<lambda>c i. append_tool_result now i interrupted_result c) c is)) = live (cx_agent c)"
    for c "is" by (induction "is" arbitrary: c) auto
  then show ?thesis by (simp add: closePendingToolResults_def)
qed

lemma live_events [simp]: "live (cx_agent (snd (appendLoopEvent now e c))) = live (cx_agent c)"
  by (simp add: appendLoopEvent_def alloc_def Let_def split: LoopRecordedEvent.split option.split)

lemma live_undo [simp]: "live (cx_agent (snd (undo now n c))) = live (cx_agent c)"
proof -
  let ?c1 = "clearTransientSystemReminder (cx_log now (CR_undo n) c)"
  obtain ru stop rem c2 where loop: "undo_loop (length (cx_history ?c1)) n 0 [] ?c1 = (ru, stop, rem, c2)"
    by (metis prod_cases4)
  from undo_loop_props [OF loop order_refl] have "cx_agent c2 = logRecord now (CR_undo n) (cx_agent c)"
    by (simp add: clearTransientSystemReminder_def)
  with loop show ?thesis by (simp add: undo_def Let_def clearTransientSystemReminder_def)
qed

lemma live_compact [simp]: "live (cx_agent (snd (applyCompaction now inp c))) = live (cx_agent c)"
  by (simp add: applyCompaction_def Let_def live_def logRecord_def emitEvent_def)

lemma cx_step_inv: "ctx_inv c \<Longrightarrow> ctx_inv (cx_step c e)"
  by (cases e; cases "snd e") (auto simp: ctx_inv_def live_def [of "cx_agent c"] intro!: inv_rules)

interpretation ctx: invariant_component cx_step ctx_inv
  by unfold_locales (rule cx_step_inv)

end
