(* ===== verification/Context_Replay.thy ===== *)
theory Context_Replay
  imports Context_Facts
begin

text \<open>
  Resuming a conversation from its record log: the part of \<open>restoreAgentRecord\<close>
  (\<open>agent/records/index.ts\<close>) that reaches the context, and the proof that the log rebuilds it.
  Restoring stops at the first record that throws, as the replay loop does.
\<close>

section \<open>Restoring\<close>

definition input_of :: "CompactionResult \<Rightarrow> CompactionInput" where
  "input_of r = \<lparr>ci_summary = cr_summary r, ci_contextSummary = Some (cr_contextSummary r),
     ci_compactedCount = cr_compactedCount r, ci_tokensBefore = cr_tokensBefore r,
     ci_tokensAfter = Some (cr_tokensAfter r), ci_keptUserMessageCount = Some (cr_keptUserMessageCount r),
     ci_droppedCount = cr_droppedCount r\<rparr>"

fun restoreContextRecord :: "ms \<Rightarrow> ContextRecord \<Rightarrow> ContextMemory \<Rightarrow> context_error option \<times> ContextMemory" where
  "restoreContextRecord t (CR_append_message m) c = (None, appendMessage t m c)"
| "restoreContextRecord t (CR_append_transcript_message m) c = (None, appendTranscriptMessage t m c)"
| "restoreContextRecord t (CR_append_loop_event e) c = appendLoopEvent t e c"
| "restoreContextRecord t CR_clear c = (None, clear t c)"
| "restoreContextRecord t (CR_apply_compaction r) c = (None, snd (applyCompaction t (input_of r) c))"
| "restoreContextRecord t (CR_undo n) c = undo t n c"

definition restoring_at :: "ms \<Rightarrow> ContextMemory \<Rightarrow> ContextMemory" where
  "restoring_at t c = on_agent_cx (\<lambda>a. a\<lparr>ag_restoring := Some t\<rparr>) c"

fun restore_context :: "ContextMemory option \<Rightarrow> ContextRecord \<times> ms \<Rightarrow> ContextMemory option" where
  "restore_context None rt = None"
| "restore_context (Some c) (r, t) =
     (case restoreContextRecord t r (restoring_at t c) of
        (Some e, c') \<Rightarrow> None
      | (None, c') \<Rightarrow> Some (on_agent_cx (\<lambda>a. a\<lparr>ag_restoring := None\<rparr>) c'))"

section \<open>Operations depend on the core only\<close>

type_synonym core = "entry list \<times> int \<times> nat \<times> (string \<times> nat) list \<times> string list \<times> entry list \<times> ms option \<times> nat"

definition core :: "ContextMemory \<Rightarrow> core" where
  "core c = (cx_history c, cx_tokenCount c, cx_covered c, cx_openSteps c, cx_pending c, cx_deferred c,
     cx_lastAssistantAt c, cx_nextId c)"

definition ceq :: "ms \<Rightarrow> ContextMemory \<Rightarrow> ContextMemory \<Rightarrow> bool" where
  "ceq t s q \<longleftrightarrow> core s = core q \<and> stamp t s = stamp t q"

lemma ceq_fields: "ceq t s q \<longleftrightarrow> cx_history s = cx_history q \<and> cx_tokenCount s = cx_tokenCount q
    \<and> cx_covered s = cx_covered q \<and> cx_openSteps s = cx_openSteps q \<and> cx_pending s = cx_pending q
    \<and> cx_deferred s = cx_deferred q \<and> cx_lastAssistantAt s = cx_lastAssistantAt q
    \<and> cx_nextId s = cx_nextId q \<and> stamp t s = stamp t q"
  by (auto simp: ceq_def core_def)

lemma ceq_log: "ceq t s q \<Longrightarrow> ceq t (cx_log t' r s) (cx_log t'' r' q)"
  by (simp add: ceq_fields)

lemma ceq_append: "ceq t s q \<Longrightarrow> ceq t (appendMessage t m s) (appendMessage t m q)"
  by (auto simp: ceq_fields appendMessage_def alloc_def hasOpenToolExchange_def)

lemma ceq_transcript: "ceq t s q \<Longrightarrow> ceq t (appendTranscriptMessage t m s) (appendTranscriptMessage t m q)"
  by (auto simp: ceq_fields appendTranscriptMessage_def alloc_def)

lemma ceq_flush:
  "ceq t s q \<Longrightarrow> ceq t (flushDeferredMessagesIfToolExchangeClosed t s) (flushDeferredMessagesIfToolExchangeClosed t q)"
  by (auto simp: ceq_fields flushDeferredMessagesIfToolExchangeClosed_def)

lemma ceq_push: "ceq t s q \<Longrightarrow> ceq t (pushHistory t es s) (pushHistory t es q)"
  by (simp add: ceq_fields)

lemma ceq_update:
  "ceq t s q \<Longrightarrow> ceq t (s\<lparr>cx_nextId := n\<rparr>) (q\<lparr>cx_nextId := n\<rparr>)"
  "ceq t s q \<Longrightarrow> ceq t (s\<lparr>cx_pending := p\<rparr>) (q\<lparr>cx_pending := p\<rparr>)"
  "ceq t s q \<Longrightarrow> ceq t (s\<lparr>cx_openSteps := os\<rparr>) (q\<lparr>cx_openSteps := os\<rparr>)"
  "ceq t s q \<Longrightarrow> ceq t (s\<lparr>cx_history := h\<rparr>) (q\<lparr>cx_history := h\<rparr>)"
  by (simp_all add: ceq_fields)

lemma ceq_tool_result: 
  assumes "ceq t s q"
  shows "ceq t (append_tool_result t i r s) (append_tool_result t i r q)"
proof -
  let ?r = "CR_append_loop_event (ToolResultEvent i r)"
  have l: "ceq t (cx_log t ?r s) (cx_log t ?r q)" using assms by (rule ceq_log)
  have eq: "cx_pending s = cx_pending q" "cx_nextId s = cx_nextId q" using assms by (simp_all add: ceq_fields)
  show ?thesis
  proof (cases "i \<in> set (cx_pending q)")
    case True
    then show ?thesis unfolding append_tool_result_def alloc_def Let_def
      by (simp add: eq) (intro ceq_flush ceq_update ceq_push l)
  qed (use l eq in \<open>simp add: append_tool_result_def Let_def\<close>)
qed

lemma ceq_closePending: "ceq t s q \<Longrightarrow> ceq t (closePendingToolResults t s) (closePendingToolResults t q)"
proof -
  have fold: "ceq t s q \<Longrightarrow> ceq t (foldl (\<lambda>c i. append_tool_result t i interrupted_result c) s is)
      (foldl (\<lambda>c i. append_tool_result t i interrupted_result c) q is)" for s q "is"
    by (induction "is" arbitrary: s q) (auto intro: ceq_tool_result)
  assume eq: "ceq t s q"
  then have "cx_pending s = cx_pending q" by (simp add: ceq_fields)
  with fold [OF eq] eq show ?thesis by (simp add: closePendingToolResults_def)
qed

lemma ceq_end_step: "ceq t s q \<Longrightarrow> ceq t (end_step u us s) (end_step u us q)"
  by (auto simp: ceq_fields end_step_def Let_def split: option.split)

lemma ceq_event:
  assumes "ceq t s q"
  shows "fst (appendLoopEvent t e s) = fst (appendLoopEvent t e q)
    \<and> ceq t (snd (appendLoopEvent t e s)) (snd (appendLoopEvent t e q))"
proof (cases e)
  case (StepBegin u)
  have c: "ceq t (closePendingToolResults t (cx_log t (CR_append_loop_event e) s))
      (closePendingToolResults t (cx_log t (CR_append_loop_event e) q))"
    by (intro ceq_closePending ceq_log assms)
  then show ?thesis
    by (simp add: StepBegin appendLoopEvent_def alloc_def Let_def ceq_fields)
next
  case (StepEnd u us)
  show ?thesis using assms by (simp add: StepEnd appendLoopEvent_def ceq_flush ceq_end_step ceq_log)
next
  case (ContentPartEvent u p)
  show ?thesis using assms
    by (auto simp: ContentPartEvent appendLoopEvent_def Let_def ceq_fields split: option.split)
next
  case (ToolCallEvent u i nm a)
  show ?thesis using assms
    by (auto simp: ToolCallEvent appendLoopEvent_def Let_def ceq_fields split: option.split)
next
  case (ToolResultEvent i r)
  show ?thesis using assms by (simp add: ToolResultEvent appendLoopEvent_def ceq_tool_result)
qed

lemma ceq_clear: "ceq t s q \<Longrightarrow> ceq t (clear t s) (clear t q)"
  by (simp add: ceq_fields clear_def clearTransientSystemReminder_def Let_def)

lemma ceq_undo_one: "ceq t s q \<Longrightarrow> ceq t (undo_one i s) (undo_one i q)"
  by (simp add: ceq_fields)

lemma ceq_undo_loop:
  "ceq t s q \<Longrightarrow> undo_loop i cnt ru rem s = (ru1, st1, rem1, s1) \<Longrightarrow>
   \<exists>q1. undo_loop i cnt ru rem q = (ru1, st1, rem1, q1) \<and> ceq t s1 q1"
proof (induction i cnt ru rem s arbitrary: q rule: undo_loop.induct)
  case (2 i cnt ru rem s)
  have h: "cx_history q = cx_history s" using "2.prems"(1) by (simp add: ceq_fields)
  note one = ceq_undo_one [OF "2.prems"(1), of i]
  show ?case
    using "2.prems" one
      "2.IH"(1) [of q] "2.IH"(2) [OF _ _ refl refl _ _ one] "2.IH"(3) [OF _ _ refl refl _ one]
    by (cases "is_injection (snd (cx_history s ! i))"; cases "isCompactionSummaryMessage (snd (cx_history s ! i))";
        cases "isRealUserInput (snd (cx_history s ! i))"; cases "ru + 1 \<ge> cnt")
      (auto simp: h Let_def)
qed simp

lemma ceq_undo: "ceq t s q \<Longrightarrow> ceq t (snd (undo t n s)) (snd (undo t n q))"
proof (cases "n \<le> 0 \<or> cx_history s = []")
  case False
  assume eq: "ceq t s q"
  let ?c = "\<lambda>c. clearTransientSystemReminder (cx_log t (CR_undo n) c)"
  have c: "ceq t (?c s) (?c q)" using eq by (simp add: ceq_fields clearTransientSystemReminder_def)
  obtain ru st rem s1 where s1: "undo_loop (length (cx_history (?c s))) n 0 [] (?c s) = (ru, st, rem, s1)"
    by (metis prod_cases4)
  from ceq_undo_loop [OF c s1] obtain q1 where
    q1: "undo_loop (length (cx_history (?c s))) n 0 [] (?c q) = (ru, st, rem, q1)" "ceq t s1 q1" by blast
  have h: "cx_history (?c s) = cx_history (?c q)" "cx_history s = cx_history q"
    using c eq by (simp_all add: ceq_fields)
  from q1(2) False s1 q1(1) h show ?thesis
    by (auto simp: undo_def Let_def ceq_fields clearTransientSystemReminder_def split: option.splits)
qed (auto simp: undo_def ceq_fields)

lemma ceq_compact:
  assumes "ceq t s q" and "ag_restoring (cx_agent s) = None"
  shows "ceq t (snd (applyCompaction t inp s))
    (snd (applyCompaction t (input_of (fst (applyCompaction t inp s))) q))"
proof -
  have "kept_user_entries s = kept_user_entries q" using assms(1) by (simp add: kept_user_entries_def ceq_fields)
  with assms show ?thesis by (simp add: applyCompaction_def input_of_def Let_def ceq_fields)
qed

section \<open>The log rebuilds the conversation\<close>

abbreviation clog :: "ContextMemory \<Rightarrow> (ContextRecord \<times> ms) list" where
  "clog c \<equiv> logged (cx_agent c)"

text \<open>An operation is written down when its records take any state with the same core to its outcome.\<close>

definition cx_written :: "ContextMemory \<Rightarrow> ContextMemory \<Rightarrow> bool" where
  "cx_written c c' \<longleftrightarrow> (\<exists>new. clog c' = clog c @ new \<and>
     (\<forall>q. core q = core c \<longrightarrow> map_option core (foldl restore_context (Some q) new) = Some (core c')))"

lemma cx_writtenI:
  "clog c' = clog c @ new \<Longrightarrow>
   (\<And>q. core q = core c \<Longrightarrow> map_option core (foldl restore_context (Some q) new) = Some (core c')) \<Longrightarrow> cx_written c c'"
  by (auto simp: cx_written_def)

lemma cx_written_refl [simp]: "cx_written c c"
  by (rule cx_writtenI [of _ _ "[]"]) simp_all

lemma core_agent [simp]: "core (c\<lparr>cx_agent := a\<rparr>) = core c"
  by (simp add: core_def)

lemma restoring_at_ceq: "core q = core c \<Longrightarrow> live (cx_agent c) \<Longrightarrow> ceq t c (restoring_at t q)"
  by (simp add: ceq_def restoring_at_def live_def)

lemma restoring_at_agent [simp]: "ag_restoring (cx_agent (restoring_at t q)) = Some t"
  by (simp add: restoring_at_def)

text \<open>One record whose restored effect has the core of the live one.\<close>

lemma restore_one:
  "fst (restoreContextRecord t r (restoring_at t q)) = None \<Longrightarrow>
   ceq t c' (snd (restoreContextRecord t r (restoring_at t q))) \<Longrightarrow>
   map_option core (restore_context (Some q) (r, t)) = Some (core c')"
  by (auto simp: ceq_def split: prod.split)

lemma cx_written_one:
  assumes "clog c' = clog c @ [(r, t)]" and "live (cx_agent c)"
    and "\<And>q. ceq t c q \<Longrightarrow> ag_restoring (cx_agent q) = Some t \<Longrightarrow>
      fst (restoreContextRecord t r q) = None \<and> ceq t c' (snd (restoreContextRecord t r q))"
  shows "cx_written c c'"
proof (rule cx_writtenI [OF assms(1)])
  fix q assume "core q = core c"
  then have "ceq t c (restoring_at t q)" using assms(2) by (rule restoring_at_ceq)
  from assms(3) [OF this] have "fst (restoreContextRecord t r (restoring_at t q)) = None"
    "ceq t c' (snd (restoreContextRecord t r (restoring_at t q)))" by simp_all
  from restore_one [OF this] show "map_option core (foldl restore_context (Some q) [(r, t)]) = Some (core c')"
    by (simp del: restore_context.simps)
qed

lemma logged_replay_update [simp]: "logged (a\<lparr>ag_replay := x\<rparr>) = logged a"
  by (simp add: logged_def)

lemma clog_flush [simp]: "clog (flushDeferredMessagesIfToolExchangeClosed now c) = clog c"
  by (simp add: flushDeferredMessagesIfToolExchangeClosed_def)

lemma clog_tool_result:
  "live (cx_agent c) \<Longrightarrow> clog (append_tool_result now i r c) = clog c @ [(CR_append_loop_event (ToolResultEvent i r), now)]"
  by (simp add: append_tool_result_def alloc_def Let_def)

lemma clog_closePending:
  "live (cx_agent c) \<Longrightarrow> clog (closePendingToolResults now c) = clog c @
     map (\<lambda>i. (CR_append_loop_event (ToolResultEvent i interrupted_result), now)) (cx_pending c)"
proof -
  have "live (cx_agent c) \<Longrightarrow> clog (foldl (\<lambda>c i. append_tool_result now i interrupted_result c) c is) = clog c @
      map (\<lambda>i. (CR_append_loop_event (ToolResultEvent i interrupted_result), now)) is" for c "is"
    by (induction "is" arbitrary: c) (auto simp: clog_tool_result)
  then show "live (cx_agent c) \<Longrightarrow> ?thesis" by (simp add: closePendingToolResults_def)
qed

lemma restore_ignored_results:
  "cx_pending q = [] \<Longrightarrow> map_option core (foldl restore_context (Some q)
     (map (\<lambda>i. (CR_append_loop_event (ToolResultEvent i r), t)) is)) = Some (core q)"
proof (induction "is" arbitrary: q)
  case (Cons i "is")
  let ?q = "on_agent_cx (\<lambda>a. a\<lparr>ag_restoring := None\<rparr>)
    (append_tool_result t i r (restoring_at t q))"
  have q: "core ?q = core q" "cx_pending ?q = []"
    using Cons.prems by (simp_all add: append_tool_result_def Let_def restoring_at_def core_def)
  have "restore_context (Some q) (CR_append_loop_event (ToolResultEvent i r), t) = Some ?q"
    by (simp add: appendLoopEvent_def)
  with Cons.IH [OF q(2)] q(1) show ?case by simp
qed simp

lemma cx_written_append: "live (cx_agent c) \<Longrightarrow> cx_written c (appendMessage t m c)"
  by (rule cx_written_one [where r = "CR_append_message m" and t = t])
    (auto simp: ceq_append, auto simp: appendMessage_def alloc_def)

lemma cx_written_transcript: "live (cx_agent c) \<Longrightarrow> cx_written c (appendTranscriptMessage t m c)"
  by (rule cx_written_one [where r = "CR_append_transcript_message m" and t = t])
    (auto simp: ceq_transcript, auto simp: appendTranscriptMessage_def alloc_def)

lemma cx_written_clear: "live (cx_agent c) \<Longrightarrow> cx_written c (clear t c)"
  by (rule cx_written_one [where r = CR_clear and t = t])
    (auto simp: ceq_clear, simp add: clear_def clearTransientSystemReminder_def Let_def)

lemma undo_restoring_quiet:
  assumes "ag_restoring (cx_agent q) = Some t"
  shows "fst (undo t n q) = None"
proof (cases "n \<le> 0 \<or> cx_history q = []")
  case False
  let ?q1 = "clearTransientSystemReminder (cx_log t (CR_undo n) q)"
  obtain ru stop rem q2 where qloop: "undo_loop (length (cx_history ?q1)) n 0 [] ?q1 = (ru, stop, rem, q2)"
    by (metis prod_cases4)
  from undo_loop_props [OF qloop order_refl] assms have "ag_restoring (cx_agent q2) = Some t"
    by (simp add: clearTransientSystemReminder_def)
  with qloop show ?thesis by (simp add: undo_def Let_def clearTransientSystemReminder_def)
qed (auto simp: undo_def)

lemma cx_written_undo:
  assumes "live (cx_agent c)"
  shows "cx_written c (snd (undo t n c))"
proof (cases "n \<le> 0 \<or> cx_history c = []")
  case False
  let ?c1 = "clearTransientSystemReminder (cx_log t (CR_undo n) c)"
  obtain ru stop rem c2 where loop: "undo_loop (length (cx_history ?c1)) n 0 [] ?c1 = (ru, stop, rem, c2)"
    by (metis prod_cases4)
  from undo_loop_props [OF loop order_refl] have "cx_agent c2 = logRecord t (CR_undo n) (cx_agent c)"
    by (simp add: clearTransientSystemReminder_def)
  then have log: "clog (snd (undo t n c)) = clog c @ [(CR_undo n, t)]"
    using loop False assms
    by (simp add: undo_def Let_def clearTransientSystemReminder_def)
  show ?thesis
    by (rule cx_written_one [OF log assms]) (simp add: undo_restoring_quiet ceq_undo)
qed (auto simp: undo_def)

lemma cx_written_compact:
  assumes "live (cx_agent c)"
  shows "cx_written c (snd (applyCompaction t inp c))"
proof (rule cx_written_one [OF _ assms])
  show "clog (snd (applyCompaction t inp c)) = clog c @ [(CR_apply_compaction (fst (applyCompaction t inp c)), t)]"
    using assms by (simp add: applyCompaction_def Let_def)
  show "fst (restoreContextRecord t (CR_apply_compaction (fst (applyCompaction t inp c))) q) = None \<and>
      ceq t (snd (applyCompaction t inp c))
        (snd (restoreContextRecord t (CR_apply_compaction (fst (applyCompaction t inp c))) q))"
    if "ceq t c q" for q
    using ceq_compact [OF that] assms by (simp add: live_def)
qed

lemma accepted_no_error: "accepts c e \<Longrightarrow> fst (appendLoopEvent t e c) = None"
  by (auto simp: accepts_def appendLoopEvent_def alloc_def Let_def split: LoopRecordedEvent.splits option.splits)

lemma clog_event:
  "live (cx_agent c) \<Longrightarrow> clog (snd (appendLoopEvent t e c)) = clog c @ (CR_append_loop_event e, t) #
     (case e of StepBegin u \<Rightarrow> map (\<lambda>i. (CR_append_loop_event (ToolResultEvent i interrupted_result), t)) (cx_pending c)
      | _ \<Rightarrow> [])"
  by (auto simp: appendLoopEvent_def alloc_def Let_def clog_closePending clog_tool_result end_step_def
      split: LoopRecordedEvent.split option.split)

lemma pending_after_begin: "cx_pending (snd (appendLoopEvent t (StepBegin u) c)) = []"
  by (simp add: appendLoopEvent_def alloc_def Let_def closePending_nothing_pending)

lemma cx_written_event:
  assumes "live (cx_agent c)" and "accepts c e"
  shows "cx_written c (snd (appendLoopEvent t e c))"
proof (rule cx_writtenI [OF clog_event [OF assms(1)]])
  fix q assume "core q = core c"
  then have eq: "ceq t c (restoring_at t q)" using assms(1) by (rule restoring_at_ceq)
  let ?q' = "on_agent_cx (\<lambda>a. a\<lparr>ag_restoring := None\<rparr>) (snd (appendLoopEvent t e (restoring_at t q)))"
  from ceq_event [OF eq, of e] accepted_no_error [OF assms(2), of t] have
    step: "restore_context (Some q) (CR_append_loop_event e, t) = Some ?q'"
    and core: "core ?q' = core (snd (appendLoopEvent t e c))"
    by (auto simp: ceq_def split: prod.split)
  let ?extra = "case e of StepBegin u \<Rightarrow>
      map (\<lambda>i. (CR_append_loop_event (ToolResultEvent i interrupted_result), t)) (cx_pending c) | _ \<Rightarrow> []"
  have "map_option core (foldl restore_context (Some ?q') ?extra) = Some (core ?q')"
  proof (cases e)
    case (StepBegin u)
    have "cx_pending ?q' = []" by (simp add: StepBegin pending_after_begin)
    then show ?thesis unfolding StepBegin LoopRecordedEvent.case by (rule restore_ignored_results)
  qed simp_all
  then show "map_option core (foldl restore_context (Some q) ((CR_append_loop_event e, t) # ?extra))
      = Some (core (snd (appendLoopEvent t e c)))"
    unfolding foldl_Cons step core .
qed

text \<open>An operation that is no event of a step that is not open. Such an event is rejected after it has been
  recorded, and a log with it cannot be restored; the runs here are those without one.\<close>

definition accepts_op :: "ContextMemory \<Rightarrow> ms \<times> CxOp \<Rightarrow> bool" where
  "accepts_op c e = (case snd e of CxEvent ev \<Rightarrow> accepts c ev | _ \<Rightarrow> True)"

fun in_open_steps :: "ContextMemory \<Rightarrow> (ms \<times> CxOp) list \<Rightarrow> bool" where
  "in_open_steps c [] = True"
| "in_open_steps c (e # es) \<longleftrightarrow> accepts_op c e \<and> in_open_steps (cx_step c e) es"

definition accepted_step :: "ContextMemory \<Rightarrow> ms \<times> CxOp \<Rightarrow> ContextMemory" where
  "accepted_step c e = (if accepts_op c e then cx_step c e else c)"

lemma run_accepted: "in_open_steps c es \<Longrightarrow> run_ops accepted_step c es = run_ops cx_step c es"
  by (induction es arbitrary: c) (auto simp: accepted_step_def)

lemma accepted_step_inv: "ctx_inv c \<Longrightarrow> ctx_inv (accepted_step c e)"
  by (simp add: accepted_step_def cx_step_inv)

lemma cx_step_written: "ctx_inv c \<Longrightarrow> accepts_op c e \<Longrightarrow> cx_written c (cx_step c e)"
  by (cases e; cases "snd e")
    (auto simp: ctx_inv_def accepts_op_def intro: cx_written_append cx_written_transcript cx_written_event cx_written_clear
      cx_written_undo cx_written_compact)

interpretation ctx_log: event_sourced accepted_step ctx_inv clog "\<lambda>c. Some (core c)" restore_context "map_option core"
proof
  show "ctx_inv s \<Longrightarrow> ctx_inv (accepted_step s e)" for s e by (rule accepted_step_inv)
  fix s q e
  assume inv: "ctx_inv s" and eq: "map_option core q = Some (core s)"
  then obtain q' where q': "q = Some q'" "core q' = core s" by (cases q) auto
  have "cx_written s (accepted_step s e)"
    using cx_step_written [OF inv, of e] by (auto simp: accepted_step_def cx_written_def intro: exI [of _ "[]"])
  with q' show
    "\<exists>new. clog (accepted_step s e) = clog s @ new \<and>
      map_option core (foldl restore_context q new) = Some (core (accepted_step s e))"
    unfolding cx_written_def by blast
qed

end
