(* ===== verification/Projector_Facts.thy ===== *)
theory Projector_Facts
  imports Context_Projector
begin

text \<open>
  What the projector promises: every call answered in place (\<open>closed\<close>), nothing lost, a
  well-formed history left alone, blank text dropped; and where the strict pipeline falls short.
\<close>

section \<open>Answered calls\<close>

abbreviation is_tool :: "'a Message_scheme \<Rightarrow> bool" where
  "is_tool m \<equiv> role m = RoleTool"

text \<open>The messages right after \<open>m\<close> are results for exactly its call ids, each once.\<close>

definition answered :: "Message \<Rightarrow> Message list \<Rightarrow> bool" where
  "answered m ms \<longleftrightarrow>
     (let rs = take (length (call_ids m)) ms
      in list_all is_tool rs \<and> mset (map toolCallId rs) = mset (map Some (call_ids m)))"

fun closed :: "Message list \<Rightarrow> bool" where
  "closed [] = True"
| "closed (m # ms) \<longleftrightarrow> (has_calls m \<longrightarrow> answered m ms) \<and> closed ms"

text \<open>As \<open>closed\<close>, but a call with only tool results after it may be open.\<close>

fun closed_mid :: "Message list \<Rightarrow> bool" where
  "closed_mid [] = True"
| "closed_mid (m # ms) \<longleftrightarrow>
     (has_calls m \<and> (\<exists>x \<in> set ms. \<not> is_tool x) \<longrightarrow> answered m ms) \<and> closed_mid ms"

lemma call_ids_distinct [simp]: "distinct (call_ids m)"
  by (simp add: call_ids_def)

lemma tool_no_calls: "is_tool m \<Longrightarrow> \<not> has_calls m"
  by (simp add: has_calls_def)

lemma synthetic_simps [simp]:
  "role (makeSyntheticToolResult i) = RoleTool" "toolCallId (makeSyntheticToolResult i) = Some i"
  by (simp_all add: makeSyntheticToolResult_def)

lemma closed_tools: "list_all is_tool xs \<Longrightarrow> closed (xs @ ys) = closed ys"
  by (induction xs) (auto simp: tool_no_calls)

lemma closed_mid_tools: "list_all is_tool xs \<Longrightarrow> closed_mid (xs @ ys) = closed_mid ys"
  by (induction xs) (auto simp: tool_no_calls)

lemma closed_drop: "closed ms \<Longrightarrow> closed (drop n ms)"
  by (induction ms arbitrary: n) (auto simp: drop_Cons split: nat.splits)

lemma answeredI:
  "list_all is_tool rs \<Longrightarrow> mset (map toolCallId rs) = mset (map Some (call_ids m)) \<Longrightarrow> answered m (rs @ ms)"
  using mset_eq_length [of "map toolCallId rs" "map Some (call_ids m)"] by (simp add: answered_def Let_def)

lemma answered_next_tool:
  assumes "answered m (x # ms)" and "has_calls m"
  shows "is_tool x"
proof -
  from assms(2) obtain tc tcs where "toolCalls m = tc # tcs" by (auto simp: has_calls_def neq_Nil_conv)
  then have "tc_id tc \<in> set (call_ids m)" by (simp add: call_ids_def)
  then obtain n where "length (call_ids m) = Suc n" by (cases "call_ids m") auto
  with assms(1) show ?thesis by (simp add: answered_def Let_def)
qed

lemma mset_remove: "distinct p \<Longrightarrow> i \<in> set p \<Longrightarrow> mset p = add_mset i (mset (oset_remove i p))"
proof -
  assume d: "distinct p" "i \<in> set p"
  have "mset (oset_remove i p) = mset (remove1 i p)"
    using d(1) by (simp add: oset_remove_def distinct_remove1_removeAll removeAll_filter_not_eq eq_commute)
  with d(2) show ?thesis by simp
qed

section \<open>The scan for results\<close>

lemma scan_results_props:
  "scan_results j rest c p f = (out, c', p', an) \<Longrightarrow> distinct p \<Longrightarrow>
   list_all is_tool out \<and> distinct p' \<and> set out \<subseteq> set rest \<and>
   mset (map toolCallId out) + mset (map Some p') = mset (map Some p)"
proof (induction j rest c p f arbitrary: out c' p' an rule: scan_results.induct)
  case (2 j "next" rest c p f)
  show ?case
  proof (cases "p \<noteq> [] \<and> j \<notin> set c \<and> is_tool next \<and> (\<exists>i. toolCallId next = Some i \<and> i \<in> set p)")
    case True
    then obtain i where i: "toolCallId next = Some i" "i \<in> set p" by blast
    obtain out1 c1 p1 an1 where rec: "scan_results (Suc j) rest (oset_add j c) (oset_remove i p) f = (out1, c1, p1, an1)"
      by (metis prod_cases4)
    from "2.IH" (3) [OF _ _ _ i(2) rec] True i "2.prems"(2)
    have "list_all is_tool out1 \<and> distinct p1 \<and> set out1 \<subseteq> set rest \<and>
      mset (map toolCallId out1) + mset (map Some p1) = mset (map Some (oset_remove i p))" by auto
    with True i rec "2.prems" mset_remove [of p i] show ?thesis by auto
  next
    case False
    with "2.IH"(1,2,4) "2.prems" show ?thesis by (fastforce split: if_splits option.splits)
  qed
qed auto

lemma all_tool_loop:
  "list_all is_tool rest \<Longrightarrow> list_all is_tool (fst (repair_loop synth l i rest c))"
  by (induction synth l i rest c rule: repair_loop.induct)
    (auto simp: tool_no_calls split: prod.splits)

lemma loop_closes: "closed (fst (repair_loop True l i ms c))"
proof (induction True l i ms c rule: repair_loop.induct)
  case (2 l i m rest c)
  show ?case
  proof (cases "i \<notin> set c \<and> has_calls m")
    case True
    obtain results c' pend an1 where scan: "scan_results (Suc i) rest c (call_ids m) False = (results, c', pend, an1)"
      by (metis prod_cases4)
    from scan_results_props [OF scan] have
      tools: "list_all is_tool (results @ map makeSyntheticToolResult pend)"
      and ids: "mset (map toolCallId (results @ map makeSyntheticToolResult pend)) = mset (map Some (call_ids m))"
      by (auto simp: list_all_iff comp_def)
    note IH = "2.hyps"(3) [OF _ _ scan [symmetric] refl refl refl refl refl refl]
    from True scan IH answeredI [OF tools ids] closed_tools [OF tools] show ?thesis
      by (auto split: prod.splits simp: Let_def)
  next
    case False
    with "2.hyps"(1,2) show ?thesis by (auto split: prod.splits)
  qed
qed simp

section \<open>The default repair\<close>

text \<open>What the index of the last non-tool message says at position \<open>i\<close>.\<close>

definition mid_index :: "nat option \<Rightarrow> nat \<Rightarrow> Message list \<Rightarrow> bool" where
  "mid_index l i ms \<longleftrightarrow> (\<forall>k < length ms.
     (case l of None \<Rightarrow> False | Some n \<Rightarrow> i + k < n) = (\<exists>x \<in> set (drop (Suc k) ms). \<not> is_tool x))"

lemma mid_index_Cons:
  assumes "mid_index l i (m # ms)"
  shows "(case l of None \<Rightarrow> False | Some n \<Rightarrow> i < n) = (\<exists>x \<in> set ms. \<not> is_tool x)"
    and "mid_index l (Suc i) ms"
proof -
  show "(case l of None \<Rightarrow> False | Some n \<Rightarrow> i < n) = (\<exists>x \<in> set ms. \<not> is_tool x)"
    using assms [unfolded mid_index_def, rule_format, of 0] by (cases l) simp_all
  show "mid_index l (Suc i) ms"
    unfolding mid_index_def
  proof (intro allI impI)
    fix k assume "k < length ms"
    with assms have "(case l of None \<Rightarrow> False | Some n \<Rightarrow> i + Suc k < n)
        = (\<exists>x \<in> set (drop (Suc (Suc k)) (m # ms)). \<not> is_tool x)"
      unfolding mid_index_def by (metis length_Cons Suc_less_eq)
    then show "(case l of None \<Rightarrow> False | Some n \<Rightarrow> Suc i + k < n) = (\<exists>x \<in> set (drop (Suc k) ms). \<not> is_tool x)"
      by (cases l) simp_all
  qed
qed

lemma last_non_tool_spec:
  "n \<le> length ms \<Longrightarrow>
   (case last_non_tool ms n of None \<Rightarrow> \<forall>k < n. is_tool (ms ! k)
    | Some l \<Rightarrow> l < n \<and> \<not> is_tool (ms ! l) \<and> (\<forall>k. l < k \<and> k < n \<longrightarrow> is_tool (ms ! k)))"
  by (induction n) (auto split: option.splits simp: less_Suc_eq)

lemma lastNonToolIndex_mid: "mid_index (lastNonToolIndex ms) 0 ms"
  unfolding mid_index_def
proof (intro allI impI)
  fix k assume k: "k < length ms"
  have ex: "(\<exists>x \<in> set (drop (Suc k) ms). \<not> is_tool x) = (\<exists>j. k < j \<and> j < length ms \<and> \<not> is_tool (ms ! j))"
  proof
    assume "\<exists>x \<in> set (drop (Suc k) ms). \<not> is_tool x"
    then obtain n where "n < length (drop (Suc k) ms)" "\<not> is_tool (drop (Suc k) ms ! n)"
      by (metis in_set_conv_nth)
    then show "\<exists>j. k < j \<and> j < length ms \<and> \<not> is_tool (ms ! j)"
      by (intro exI [of _ "Suc k + n"]) auto
  next
    assume "\<exists>j. k < j \<and> j < length ms \<and> \<not> is_tool (ms ! j)"
    then obtain j where j: "k < j" "j < length ms" "\<not> is_tool (ms ! j)" by blast
    then have "ms ! j = drop (Suc k) ms ! (j - Suc k)" "j - Suc k < length (drop (Suc k) ms)" by auto
    then have "ms ! j \<in> set (drop (Suc k) ms)" by (metis nth_mem)
    with j show "\<exists>x \<in> set (drop (Suc k) ms). \<not> is_tool x" by blast
  qed
  show "(case lastNonToolIndex ms of None \<Rightarrow> False | Some n \<Rightarrow> 0 + k < n)
      = (\<exists>x \<in> set (drop (Suc k) ms). \<not> is_tool x)"
  proof (cases "last_non_tool ms (length ms)")
    case (Some l)
    with last_non_tool_spec [of "length ms" ms] have
      l: "l < length ms" "\<not> is_tool (ms ! l)" "\<And>j. l < j \<Longrightarrow> j < length ms \<Longrightarrow> is_tool (ms ! j)" by auto
    then have "(k < l) = (\<exists>j. k < j \<and> j < length ms \<and> \<not> is_tool (ms ! j))"
      by (metis linorder_neqE_nat order.strict_trans)
    then show ?thesis unfolding ex lastNonToolIndex_def Some by simp
  qed (use last_non_tool_spec [of "length ms" ms] in \<open>auto simp: ex lastNonToolIndex_def\<close>)
qed

lemma loop_closes_mid: "mid_index l i ms \<Longrightarrow> closed_mid (fst (repair_loop synth l i ms c))"
proof (induction synth l i ms c rule: repair_loop.induct)
  case (2 synth l i m rest c)
  note mid = mid_index_Cons [OF "2.prems"]
  show ?case
  proof (cases "i \<notin> set c \<and> has_calls m")
    case True
    obtain results c' pend an1 where scan: "scan_results (Suc i) rest c (call_ids m) False = (results, c', pend, an1)"
      by (metis prod_cases4)
    note props = scan_results_props [OF scan call_ids_distinct]
    have tools: "list_all is_tool (results @ map makeSyntheticToolResult pend)" "list_all is_tool results"
      and ids: "mset (map toolCallId (results @ map makeSyntheticToolResult pend)) = mset (map Some (call_ids m))"
      using props by (auto simp: list_all_iff comp_def)
    note IH = "2.IH"(3) [OF _ _ scan [symmetric] refl refl refl refl refl refl mid(2)]
    let ?out = "fst (repair_loop synth l (Suc i) rest c')"
    let ?mid = "case l of None \<Rightarrow> False | Some n \<Rightarrow> i < n"
    show ?thesis
    proof (cases "synth \<or> ?mid")
      case closing: True
      have eq: "fst (repair_loop synth l i (m # rest) c) = m # (results @ map makeSyntheticToolResult pend) @ ?out"
        using True scan closing by (simp split: prod.split)
      from IH True answeredI [OF tools(1) ids] closed_mid_tools [OF tools(1)] show ?thesis
        unfolding eq closed_mid.simps by blast
    next
      case False
      have eq: "fst (repair_loop synth l i (m # rest) c) = m # results @ ?out"
        using True scan False by (simp split: prod.split)
      have "list_all is_tool rest" using False mid(1) by (auto simp: list_all_iff)
      from all_tool_loop [OF this] tools(2) have "\<not> (\<exists>x \<in> set (results @ ?out). \<not> is_tool x)"
        by (auto simp: list_all_iff)
      with IH True closed_mid_tools [OF tools(2)] show ?thesis unfolding eq closed_mid.simps by blast
    qed
  next
    case False
    with "2.IH"(1,2) mid(2) show ?thesis by (auto split: prod.splits)
  qed
qed simp

section \<open>Nothing is lost\<close>

fun fresh :: "nat \<Rightarrow> nat list \<Rightarrow> 'a list \<Rightarrow> 'a list" where
  "fresh i c [] = []"
| "fresh i c (m # ms) = (if i \<in> set c then fresh (Suc i) c ms else m # fresh (Suc i) c ms)"

fun synthesized_ids :: "ProjectionAnomaly list \<Rightarrow> string list" where
  "synthesized_ids [] = []"
| "synthesized_ids (tool_result_synthesized i b # an) = i # synthesized_ids an"
| "synthesized_ids (_ # an) = synthesized_ids an"

lemma synthesized_ids_append [simp]: "synthesized_ids (xs @ ys) = synthesized_ids xs @ synthesized_ids ys"
  by (induction xs rule: synthesized_ids.induct) auto

lemma synthesized_ids_map [simp]: "synthesized_ids (map (\<lambda>p. tool_result_synthesized p b) ps) = ps"
  by (induction ps) auto

lemma fresh_empty [simp]: "fresh i [] ms = ms"
  by (induction ms arbitrary: i) auto

lemma fresh_cong: "\<forall>k \<ge> i. (k \<in> set c) = (k \<in> set c') \<Longrightarrow> fresh i c ms = fresh i c' ms"
  by (induction ms arbitrary: i) auto

lemma scan_consumes:
  "scan_results j rest c p f = (out, c', p', an) \<Longrightarrow>
   set c \<subseteq> set c' \<and> (\<forall>k < j. (k \<in> set c') = (k \<in> set c)) \<and>
   mset (fresh j c rest) = mset out + mset (fresh j c' rest) \<and>
   filter (\<lambda>m. \<not> is_tool m) (fresh j c rest) = filter (\<lambda>m. \<not> is_tool m) (fresh j c' rest) \<and>
   synthesized_ids an = []"
proof (induction j rest c p f arbitrary: out c' p' an rule: scan_results.induct)
  case (2 j "next" rest c p f)
  show ?case
  proof (cases "p \<noteq> [] \<and> j \<notin> set c \<and> is_tool next \<and> (\<exists>i. toolCallId next = Some i \<and> i \<in> set p)")
    case True
    then obtain i where i: "toolCallId next = Some i" "i \<in> set p" by blast
    obtain out1 c1 p1 an1 where rec: "scan_results (Suc j) rest (oset_add j c) (oset_remove i p) f = (out1, c1, p1, an1)"
      by (metis prod_cases4)
    have shift: "fresh (Suc j) (oset_add j c) rest = fresh (Suc j) c rest" by (rule fresh_cong) auto
    have "j \<in> set c1" "set c \<subseteq> set c1" "\<forall>k < j. (k \<in> set c1) = (k \<in> set c)"
      "mset (fresh (Suc j) c rest) = mset out1 + mset (fresh (Suc j) c1 rest)"
      "filter (\<lambda>m. \<not> is_tool m) (fresh (Suc j) c rest) = filter (\<lambda>m. \<not> is_tool m) (fresh (Suc j) c1 rest)"
      "synthesized_ids an1 = []"
      using "2.IH" (3) [OF _ _ _ i(2) rec] True i by (auto simp: shift)
    with True i rec "2.prems" show ?thesis by auto
  next
    case False
    let ?goal = "\<lambda>n rest. set c \<subseteq> set c' \<and> (\<forall>k < n. (k \<in> set c') = (k \<in> set c)) \<and>
       mset (fresh n c rest) = mset out + mset (fresh n c' rest) \<and>
       filter (\<lambda>m. \<not> is_tool m) (fresh n c rest) = filter (\<lambda>m. \<not> is_tool m) (fresh n c' rest) \<and>
       synthesized_ids an = []"
    consider (stop) "p = []" | (skip) "p \<noteq> []" "j \<in> set c"
      | (plain) "p \<noteq> []" "j \<notin> set c" "(if is_tool next then toolCallId next else None) = None"
      | (other) i where "p \<noteq> []" "j \<notin> set c" "(if is_tool next then toolCallId next else None) = Some i" "i \<notin> set p"
      using False by (cases "if is_tool next then toolCallId next else None") (auto split: if_splits)
    then show ?thesis
    proof cases
      case stop
      with "2.prems" show ?thesis by auto
    next
      case skip
      with "2.prems" have "scan_results (Suc j) rest c p f = (out, c', p', an)" by simp
      from "2.IH"(1) [OF skip this] have "?goal (Suc j) rest" .
      moreover from this skip have "j \<in> set c'" by blast
      ultimately show ?thesis using skip by simp
    next
      case plain
      with "2.prems" have "scan_results (Suc j) rest c p True = (out, c', p', an)" by simp
      from "2.IH"(2) [OF plain this] have "?goal (Suc j) rest" .
      moreover from this plain have "j \<notin> set c'" by blast
      ultimately show ?thesis using plain by simp
    next
      case other
      with "2.prems" have "scan_results (Suc j) rest c p True = (out, c', p', an)" by simp
      from "2.IH"(4) [OF other this] have "?goal (Suc j) rest" .
      moreover from this other have "j \<notin> set c'" by blast
      ultimately show ?thesis using other by simp
    qed
  qed
qed auto

lemma loop_conserves:
  "mset (fst (repair_loop synth l i ms c)) =
     mset (fresh i c ms) + mset (map makeSyntheticToolResult (synthesized_ids (snd (repair_loop synth l i ms c))))
   \<and> filter (\<lambda>m. \<not> is_tool m) (fst (repair_loop synth l i ms c)) = filter (\<lambda>m. \<not> is_tool m) (fresh i c ms)"
proof (induction synth l i ms c rule: repair_loop.induct)
  case (2 synth l i m rest c)
  show ?case
  proof (cases "i \<notin> set c \<and> has_calls m")
    case True
    obtain results c' pend an1 where scan: "scan_results (Suc i) rest c (call_ids m) False = (results, c', pend, an1)"
      by (metis prod_cases4)
    have tools: "filter (\<lambda>m. \<not> is_tool m) results = []"
      using scan_results_props [OF scan call_ids_distinct] by (auto simp: list_all_iff filter_empty_conv)
    have syn: "filter (\<lambda>m. \<not> is_tool m) (map makeSyntheticToolResult ids) = []" for ids
      by (simp add: filter_empty_conv)
    note IH = "2.IH"(3) [OF _ _ scan [symmetric] refl refl refl refl refl refl]
    from True scan IH scan_consumes [OF scan] tools syn show ?thesis
      by (auto split: prod.splits simp: Let_def)
  next
    case False
    with "2.IH"(1,2) show ?thesis by (auto split: prod.splits)
  qed
qed simp

section \<open>A closed history is left alone\<close>

lemma length_oset_remove: "distinct p \<Longrightarrow> i \<in> set p \<Longrightarrow> length p = Suc (length (oset_remove i p))"
  using mset_remove [of p i] by (metis size_add_mset size_mset)

lemma scan_take:
  "distinct p \<Longrightarrow> list_all is_tool (take (length p) ms) \<Longrightarrow>
   mset (map toolCallId (take (length p) ms)) = mset (map Some p) \<Longrightarrow> \<forall>k \<in> set c. k < j \<Longrightarrow>
   \<exists>c'. scan_results j ms c p False = (take (length p) ms, c', [], []) \<and> set c' = set c \<union> {j..<j + length p}"
proof (induction ms arbitrary: j c p)
  case (Cons x ms)
  show ?case
  proof (cases "p = []")
    case False
    then obtain n where n: "length p = Suc n" by (cases p) auto
    have "toolCallId x \<in> set (map toolCallId (take (length p) (x # ms)))" by (simp add: n)
    then have "toolCallId x \<in> set (map Some p)" by (metis Cons.prems(3) set_mset_mset)
    then obtain i where i: "toolCallId x = Some i" "i \<in> set p" by auto
    let ?p = "oset_remove i p"
    have len: "length ?p = n" using length_oset_remove [OF Cons.prems(1) i(2)] n by simp
    have "mset (map Some p) = add_mset (Some i) (mset (map Some ?p))"
      using arg_cong [OF mset_remove [OF Cons.prems(1) i(2)], of "image_mset Some"] by simp
    with Cons.prems(3) have ids: "mset (map toolCallId (take (length ?p) ms)) = mset (map Some ?p)"
      by (simp add: n len i(1))
    have "\<exists>c'. scan_results (Suc j) ms (oset_add j c) ?p False = (take (length ?p) ms, c', [], [])
        \<and> set c' = set (oset_add j c) \<union> {Suc j..<Suc j + length ?p}"
      using Cons.prems ids by (intro Cons.IH) (auto simp: n len)
    then obtain c' where c': "scan_results (Suc j) ms (oset_add j c) ?p False = (take n ms, c', [], [])"
        "set c' = insert j (set c) \<union> {Suc j..<Suc j + n}" by (auto simp: len)
    have "j \<notin> set c" "is_tool x" using Cons.prems by (auto simp: n)
    moreover have "insert j (set c) \<union> {Suc j..<Suc j + n} = set c \<union> {j..<j + Suc n}" by auto
    ultimately show ?thesis using False i c' by (simp add: n)
  qed simp
qed simp

lemma loop_skip:
  "{i..<i + k} \<subseteq> set c \<Longrightarrow> k \<le> length ms \<Longrightarrow>
   repair_loop s l i ms c = repair_loop s l (i + k) (drop k ms) c"
proof (induction k arbitrary: i ms)
  case (Suc k)
  then obtain m rest where "ms = m # rest" by (cases ms) auto
  moreover have "i \<in> set c" "{Suc i..<Suc i + k} \<subseteq> set c" using Suc.prems(1) by auto
  ultimately show ?case using Suc.IH [of "Suc i" rest] Suc.prems by simp
qed simp

lemma loop_fixpoint: "closed ms \<Longrightarrow> \<forall>k \<in> set c. k < i \<Longrightarrow> repair_loop s l i ms c = (ms, [])"
proof (induction "length ms" arbitrary: i ms c rule: less_induct)
  case less
  show ?case
  proof (cases ms)
    case (Cons m rest)
    have i: "i \<notin> set c" using less.prems(2) by auto
    show ?thesis
    proof (cases "has_calls m")
      case True
      let ?n = "length (call_ids m)"
      from less.prems(1) True have
        ans: "list_all is_tool (take ?n rest)" "mset (map toolCallId (take ?n rest)) = mset (map Some (call_ids m))"
        by (auto simp: Cons answered_def Let_def)
      from scan_take [OF call_ids_distinct ans, of c "Suc i"] less.prems(2) obtain c' where
        c': "scan_results (Suc i) rest c (call_ids m) False = (take ?n rest, c', [], [])"
            "set c' = set c \<union> {Suc i..<Suc i + ?n}" by fastforce
      have n: "?n \<le> length rest" using mset_eq_length [OF ans(2)] by simp
      have "repair_loop s l (Suc i) rest c' = repair_loop s l (Suc i + ?n) (drop ?n rest) c'"
        using c'(2) n by (intro loop_skip) auto
      also have "\<dots> = (drop ?n rest, [])"
        using less.prems by (intro less.hyps) (auto simp: Cons c'(2) closed_drop)
      finally show ?thesis using i True c'(1) by (simp add: Cons Let_def)
    next
      case False
      have "repair_loop s l (Suc i) rest c = (rest, [])"
        using less.prems by (intro less.hyps) (auto simp: Cons)
      then show ?thesis using i False by (simp add: Cons)
    qed
  qed simp
qed

lemma repair_fixpoint: "closed ms \<Longrightarrow> repairToolExchangeAdjacency s ms = (ms, [])"
  unfolding repairToolExchangeAdjacency_def by (rule loop_fixpoint) simp_all

section \<open>The strict passes keep exchanges closed\<close>

lemma answered_before:
  assumes "answered e (ys @ x # zs)" and "\<not> is_tool x"
  shows "answered e (ys @ zs')"
proof -
  let ?n = "length (call_ids e)"
  have "\<not> ?n > length ys"
  proof
    assume "?n > length ys"
    then have "take (Suc (length ys)) (ys @ x # zs) = take (Suc (length ys)) (take ?n (ys @ x # zs))"
      by (simp add: min_def)
    then have "x \<in> set (take ?n (ys @ x # zs))"
      by (metis in_set_takeD last_in_set last_snoc snoc_eq_iff_butlast take_Suc_conv_app_nth length_append
          nth_append_length take_append diff_self_eq_0 take0 append_Nil2 take_all_iff order_refl
          length_Cons add_Suc_right less_add_Suc1)
    with assms show False by (auto simp: answered_def Let_def list_all_iff)
  qed
  with assms(1) show ?thesis by (simp add: answered_def Let_def)
qed

lemma closed_replace:
  "closed (a @ x # zs) \<Longrightarrow> \<not> is_tool x \<Longrightarrow> closed (x' # zs') \<Longrightarrow> closed (a @ x' # zs')"
  by (induction a) (auto intro: answered_before)

lemma closed_push_assistant:
  assumes "closed (acc @ m # ms)"
  shows "closed (push_assistant acc m @ ms)"
proof (cases "acc \<noteq> [] \<and> role (last acc) = RoleAssistant \<and> role m = RoleAssistant")
  case True
  then obtain a x where acc: "acc = a @ [x]" by (metis append_butlast_last_id)
  let ?x = "x\<lparr>content := content x @ content m, toolCalls := toolCalls x @ toolCalls m\<rparr>"
  have cl: "closed (a @ x # m # ms)" using assms by (simp add: acc)
  then have "closed (x # m # ms)" by (metis closed_drop append_eq_conv_conj)
  with True answered_next_tool [of x m ms] have "\<not> has_calls x" and m: "closed (m # ms)"
    by (auto simp: acc)
  then have nil: "toolCalls x = []" using True by (simp add: acc has_calls_def)
  have "answered ?x ms = answered m ms" by (simp add: answered_def call_ids_def nil)
  moreover have "has_calls ?x = has_calls m" using True by (simp add: has_calls_def nil acc)
  ultimately have "closed (?x # ms)" using m by simp
  from closed_replace [OF cl _ this] True show ?thesis by (simp add: acc push_assistant_def)
next
  case False
  then have "push_assistant acc m = acc @ [m]" unfolding push_assistant_def by (rule if_not_P)
  with assms show ?thesis by simp
qed

lemma closed_merge: "closed (acc @ ms) \<Longrightarrow> closed (foldl push_assistant acc ms)"
proof (induction ms arbitrary: acc)
  case (Cons m ms)
  from Cons.IH [OF closed_push_assistant [OF Cons.prems]] show ?case by simp
qed simp

lemma closed_filter:
  assumes "\<forall>m \<in> set ms. P m \<or> is_tool m \<and> (\<forall>e \<in> set ms. has_calls e \<longrightarrow> toolCallId m \<notin> Some ` set (call_ids e))"
    and "closed ms"
  shows "closed (filter P ms)"
  using assms
proof (induction ms)
  case (Cons m ms)
  have IH: "closed (filter P ms)" using Cons by (intro Cons.IH) auto
  show ?case
  proof (cases "has_calls m")
    case True
    let ?rs = "take (length (call_ids m)) ms"
    from Cons.prems(2) True have
      rs: "list_all is_tool ?rs" "mset (map toolCallId ?rs) = mset (map Some (call_ids m))"
      by (auto simp: answered_def Let_def)
    have "filter P ?rs = ?rs"
    proof (rule filter_True, rule ballI)
      fix r assume r: "r \<in> set ?rs"
      then have "toolCallId r \<in> set (map Some (call_ids m))" by (metis rs(2) image_eqI list.set_map set_mset_mset)
      with r Cons.prems(1) True show "P r" by (auto dest: in_set_takeD)
    qed
    then have "filter P ms = ?rs @ filter P (drop (length (call_ids m)) ms)"
      by (metis append_take_drop_id filter_append)
    with answeredI [OF rs] IH show ?thesis by auto
  qed (use IH in simp)
qed simp

lemma closed_dropOrphan: "closed ms \<Longrightarrow> closed (fst (dropOrphanToolResults ms))"
  unfolding dropOrphanToolResults_def Let_def fst_conv
  by (rule closed_filter) (auto simp: call_ids_def has_calls_def split: option.splits)

lemma closed_dropLeading: "closed ms \<Longrightarrow> closed (fst (dropLeadingNonUserMessages ms))"
  unfolding dropLeadingNonUserMessages_def fst_conv by (metis closed_drop dropWhile_eq_drop)

lemma closed_stages:
  "closed (fst r) \<Longrightarrow> closed (fst (stage b mergeConsecutiveAssistantMessages r))"
  "closed (fst r) \<Longrightarrow> closed (fst (stage b dropOrphanToolResults r))"
  "closed (fst r) \<Longrightarrow> closed (fst (stage b dropLeadingNonUserMessages r))"
  using closed_merge [of "[]" "fst r"] closed_dropOrphan [of "fst r"] closed_dropLeading [of "fst r"]
  by (auto simp: stage_def mergeConsecutiveAssistantMessages_def Let_def split: prod.split)

end
