(* ===== verification/Projector_Properties.thy ===== *)
theory Projector_Properties
  imports Projector_Facts
begin

text \<open>
  The properties of the projector, over whole projections, and two inputs on which the projection
  is not what a strict provider accepts.
\<close>

abbreviation no_options :: ProjectOptions where
  "no_options \<equiv> \<lparr>synthesizeMissing = False, dropOrphanResults = False, dropLeadingNonUser = False,
     mergeConsecutiveAssistants = False\<rparr>"

abbreviation strict_options :: ProjectOptions where
  "strict_options \<equiv> \<lparr>synthesizeMissing = True, dropOrphanResults = True, dropLeadingNonUser = True,
     mergeConsecutiveAssistants = True\<rparr>"

lemma project_cases:
  "project h opts =
     (case mergeAdjacentUserMessages h of
        (Inl e, an0) \<Rightarrow> (Inl e, an0)
      | (Inr merged, an0) \<Rightarrow>
          (let r1 = (fst (repairToolExchangeAdjacency (synthesizeMissing opts) merged),
                     an0 @ snd (repairToolExchangeAdjacency (synthesizeMissing opts) merged));
               r2 = stage (mergeConsecutiveAssistants opts) mergeConsecutiveAssistantMessages r1;
               r3 = stage (dropOrphanResults opts) dropOrphanToolResults r2;
               r4 = stage (dropLeadingNonUser opts) dropLeadingNonUserMessages r3
           in (Inr (fst r4), snd r4)))"
  by (auto simp: project_def case_prod_unfold Let_def split: sum.split)

section \<open>Exchanges\<close>

text \<open>
  C17: With \<open>synthesizeMissing\<close>, whatever the history, every assistant message with tool calls is
  immediately followed by results for exactly its call ids, each once; and this survives every
  choice of the strict passes.
\<close>

theorem synthesizing_projection_closed:
  "case fst (project h (opts\<lparr>synthesizeMissing := True\<rparr>)) of Inl e \<Rightarrow> True | Inr out \<Rightarrow> closed out"
  unfolding project_cases
  by (auto simp: repairToolExchangeAdjacency_def Let_def split: prod.split sum.split
      intro!: closed_stages loop_closes)

text \<open>
  The normal projection leaves a call open only at the tail: a call with any later user or
  assistant message is immediately followed by results for exactly its ids.
\<close>

theorem normal_projection_closed_mid:
  "case fst (project h no_options) of Inl e \<Rightarrow> True | Inr out \<Rightarrow> closed_mid out"
  unfolding project_cases
  using loop_closes_mid [OF lastNonToolIndex_mid]
  by (auto simp: repairToolExchangeAdjacency_def stage_def Let_def split: prod.split sum.split)

text \<open>
  The repair loses and invents nothing. Its output is, as a multiset, its input and one
  placeholder for each synthesis it reports; and the messages that are not tool results keep their
  order.
\<close>

theorem repair_conserves:
  "let (out, an) = repairToolExchangeAdjacency synth ms in
     mset out = mset ms + mset (map makeSyntheticToolResult (synthesized_ids an))
     \<and> filter (\<lambda>m. role m \<noteq> RoleTool) out = filter (\<lambda>m. role m \<noteq> RoleTool) ms"
  using loop_conserves [of synth "lastNonToolIndex ms" 0 ms "[]"]
  by (simp add: repairToolExchangeAdjacency_def case_prod_unfold)

text \<open>
  The repair is the identity on a history whose exchanges are closed, and reports nothing; so
  repairing twice is repairing once.
\<close>

theorem repair_idempotent:
  "repairToolExchangeAdjacency s (fst (repairToolExchangeAdjacency True ms))
     = (fst (repairToolExchangeAdjacency True ms), [])"
  by (rule repair_fixpoint) (simp add: repairToolExchangeAdjacency_def loop_closes)

section \<open>Trimming\<close>

lemma in_map_filter: "i \<in> set (List.map_filter f xs) \<longleftrightarrow> Some i \<in> f ` set xs"
  by (induction xs) (auto split: option.splits)

text \<open>A call every id of which has a result in the run of tool results after it.\<close>

fun all_covered :: "Message list \<Rightarrow> bool" where
  "all_covered [] = True"
| "all_covered (m # ms) \<longleftrightarrow>
     (has_calls m \<longrightarrow> Some ` set (call_ids m) \<subseteq> toolCallId ` set (takeWhile is_tool ms)) \<and> all_covered ms"

lemma answered_covers:
  assumes "answered m ms"
  shows "Some ` set (call_ids m) \<subseteq> toolCallId ` set (takeWhile is_tool ms)"
proof -
  let ?n = "length (call_ids m)"
  have rs: "list_all is_tool (take ?n ms)" "mset (map toolCallId (take ?n ms)) = mset (map Some (call_ids m))"
    using assms by (auto simp: answered_def Let_def)
  have "takeWhile is_tool ms = take ?n ms @ takeWhile is_tool (drop ?n ms)"
    using rs(1) by (metis append_take_drop_id takeWhile_append2 list_all_iff)
  moreover have "toolCallId ` set (take ?n ms) = Some ` set (call_ids m)"
    using arg_cong [OF rs(2), of set_mset] by simp
  ultimately show ?thesis by auto
qed

lemma covered_prefix:
  "closed_mid (xs @ m # ts) \<Longrightarrow> \<not> is_tool m \<Longrightarrow> all_covered xs"
proof (induction xs)
  case (Cons x xs)
  have "has_calls x \<Longrightarrow> Some ` set (call_ids x) \<subseteq> toolCallId ` set (takeWhile is_tool xs)"
  proof -
    assume "has_calls x"
    with Cons.prems have "answered x (xs @ m # ts)" by auto
    from answered_covers [OF answered_before [OF this Cons.prems(2), of "[]"]] show ?thesis by simp
  qed
  with Cons show ?case by simp
qed simp

lemma covered_extend:
  "closed_mid (xs @ m # ts) \<Longrightarrow> \<not> is_tool m \<Longrightarrow> all_covered (m # ts) \<Longrightarrow> all_covered (xs @ m # ts)"
proof (induction xs)
  case (Cons x xs)
  then show ?case using answered_covers [of x "xs @ m # ts"] by auto
qed simp

lemma covered_tools: "list_all is_tool ts \<Longrightarrow> all_covered ts"
  by (induction ts) (auto simp: tool_no_calls)

lemma last_non_tool_split:
  assumes "lastNonToolIndex ms = Some l"
  shows "ms = take l ms @ ms ! l # drop (Suc l) ms" and "\<not> is_tool (ms ! l)"
    and "list_all is_tool (drop (Suc l) ms)"
proof -
  have l: "l < length ms" "\<not> is_tool (ms ! l)" "\<And>k. l < k \<Longrightarrow> k < length ms \<Longrightarrow> is_tool (ms ! k)"
    using last_non_tool_spec [of "length ms" ms] assms by (auto simp: lastNonToolIndex_def)
  show "ms = take l ms @ ms ! l # drop (Suc l) ms" using l(1) by (rule id_take_nth_drop)
  show "\<not> is_tool (ms ! l)" by (rule l(2))
  show "list_all is_tool (drop (Suc l) ms)"
    by (auto simp: list_all_length intro!: l(3))
qed

text \<open>
  Trimming the tail of a projected history leaves no open call: every call id that remains
  has its result in the run of results right after the call.
\<close>

theorem trimmed_projection_has_no_open_call:
  "case fst (project h no_options) of Inl e \<Rightarrow> True
   | Inr out \<Rightarrow> all_covered (trimTrailingOpenToolExchange out) \<and> prefix (trimTrailingOpenToolExchange out) out"
proof (cases "fst (project h no_options)")
  case (Inr out)
  have mid: "closed_mid out"
    using loop_closes_mid [OF lastNonToolIndex_mid] Inr unfolding project_cases
    by (auto simp: repairToolExchangeAdjacency_def stage_def Let_def split: prod.splits sum.splits)
  have "all_covered (trimTrailingOpenToolExchange out)"
  proof (cases "lastNonToolIndex out")
    case (Some l)
    note split = last_non_tool_split [OF Some]
    let ?m = "out ! l" and ?ts = "drop (Suc l) out"
    from mid split(1) have mid': "closed_mid (take l out @ ?m # ?ts)" by simp
    have tw: "takeWhile is_tool ?ts = ?ts" using split(3) by (simp add: takeWhile_eq_all_conv list_all_iff)
    show ?thesis
    proof (cases "has_calls ?m \<and> \<not> list_all (\<lambda>tc. tc_id tc \<in> set (List.map_filter toolCallId ?ts)) (toolCalls ?m)")
      case True
      then have "trimTrailingOpenToolExchange out = take l out"
        by (simp add: trimTrailingOpenToolExchange_def Some Let_def)
      with covered_prefix [OF mid' split(2)] show ?thesis by simp
    next
      case False
      then have trim: "trimTrailingOpenToolExchange out = out"
        by (auto simp: trimTrailingOpenToolExchange_def Some Let_def)
      have "has_calls ?m \<Longrightarrow> Some ` set (call_ids ?m) \<subseteq> toolCallId ` set ?ts"
      proof -
        assume "has_calls ?m"
        with False have "\<forall>i \<in> set (call_ids ?m). i \<in> set (List.map_filter toolCallId ?ts)"
          by (auto simp: call_ids_def list_all_iff)
        then show ?thesis by (auto simp: in_map_filter)
      qed
      with split(3) have "all_covered (?m # ?ts)" by (simp add: tw covered_tools)
      from covered_extend [OF mid' split(2) this] show ?thesis unfolding trim split(1) [symmetric] .
    qed
  qed (simp add: trimTrailingOpenToolExchange_def)
  moreover have "prefix (trimTrailingOpenToolExchange out) out"
    by (auto simp: trimTrailingOpenToolExchange_def Let_def take_is_prefix split: option.splits)
  ultimately show ?thesis by (simp add: Inr)
qed simp

section \<open>Errors\<close>

definition unsendable :: "ContextMessage \<Rightarrow> bool" where
  "unsendable m \<longleftrightarrow> partial m \<noteq> Some True \<and> role m = RoleTool \<and> list_all is_blank_text (content m)"

lemma filter_not_Nil: "filter (\<lambda>p. \<not> P p) xs = [] \<longleftrightarrow> list_all P xs"
  by (induction xs) auto

lemma prepare_error: "isl (fst (prepareMessageForProjection m)) = unsendable m"
proof (cases "filter is_blank_text (content m) = []")
  case True
  then have "list_all is_blank_text (content m) = (content m = [])"
    by (cases "content m") (auto split: if_splits)
  with True show ?thesis by (auto simp: prepareMessageForProjection_def unsendable_def)
next
  case False
  then show ?thesis
    by (auto simp: prepareMessageForProjection_def unsendable_def Let_def filter_not_Nil)
qed

lemma merge_loop_error: "isl (fst (merge_loop h out an)) = list_ex unsendable h"
proof (induction h arbitrary: out an)
  case (Cons m h)
  show ?case using Cons prepare_error [of m]
    by (auto split: prod.split sum.split option.split)
qed simp

lemma project_isl: "isl (fst (project h opts)) = list_ex unsendable h"
proof -
  have "isl (fst (project h opts)) = isl (fst (merge_loop h [] []))"
    by (simp add: project_cases mergeAdjacentUserMessages_def Let_def split: prod.split sum.split)
  then show ?thesis by (simp add: merge_loop_error)
qed

text \<open>
  A projection throws exactly when some message that is not partial is a tool result without
  any content left after dropping blank text, whatever the options.
\<close>

theorem project_throws_iff:
  "isl (fst (project h opts)) \<longleftrightarrow>
     (\<exists>m \<in> set h. partial m \<noteq> Some True \<and> role m = RoleTool \<and> list_all is_blank_text (content m))"
  by (simp add: project_isl list_ex_iff unsendable_def)

section \<open>Blank text\<close>

abbreviation no_blank :: "'a Message_scheme \<Rightarrow> bool" where
  "no_blank m \<equiv> \<forall>p \<in> set (content m). \<not> is_blank_text p"

definition speaks :: "'a Message_scheme \<Rightarrow> bool" where
  "speaks m \<longleftrightarrow> (\<exists>p \<in> set (content m). is_text p \<and> \<not> is_blank_text p)"

lemma prepare_no_blank:
  "prepareMessageForProjection m = (Inr (Some n), an) \<Longrightarrow>
   no_blank n \<and> canMergeUserMessage n = canMergeUserMessage m \<and> (speaks m \<longrightarrow> speaks n)"
  by (auto simp: prepareMessageForProjection_def Let_def filter_empty_conv canMergeUserMessage_def speaks_def
      split: if_splits)

lemma speaks_merged:
  assumes "speaks a" and "no_blank b" and "no_blank a"
  shows "no_blank (mergeTwoUserMessages a b)" and "speaks (mergeTwoUserMessages a b)"
proof -
  from assms(1) obtain p where p: "p \<in> set (content a)" "is_text p" "\<not> is_blank_text p"
    by (auto simp: speaks_def)
  then obtain c where c: "c \<in> set (part_text p)" "\<not> is_js_space c"
    by (auto simp: is_blank_text_def js_trim_eq_Nil_iff)
  then have "c \<in> set (extractTextOnly a)" using p by (auto simp: extractTextOnly_def)
  then have t: "\<not> is_blank_text (TextPart (extractTextOnly a @ [CHR 0x0A, CHR 0x0A] @ extractTextOnly b))"
    using c by (auto simp: is_blank_text_def js_trim_eq_Nil_iff)
  then show "no_blank (mergeTwoUserMessages a b)" using assms(2,3)
    by (auto simp: mergeTwoUserMessages_def Let_def)
  show "speaks (mergeTwoUserMessages a b)" using t by (simp add: mergeTwoUserMessages_def Let_def speaks_def)
qed

lemma push_merged_no_blank:
  assumes "\<forall>m \<in> set out. no_blank m \<and> (canMergeUserMessage m \<longrightarrow> speaks m)"
    and "no_blank m" and "canMergeUserMessage m \<longrightarrow> speaks m"
  shows "\<forall>m \<in> set (push_merged m out). no_blank m \<and> (canMergeUserMessage m \<longrightarrow> speaks m)"
proof (cases "canMergeUserMessage m \<and> out \<noteq> [] \<and> canMergeUserMessage (last out)")
  case True
  then have l: "no_blank (last out)" "speaks (last out)" using assms(1) by auto
  show ?thesis using True assms(1) speaks_merged [OF l(2) assms(2) l(1)]
    by (simp add: push_merged_def) (metis in_set_butlastD)
qed (use assms in \<open>auto simp: push_merged_def\<close>)

lemma merge_loop_no_blank:
  "\<forall>m \<in> set h. canMergeUserMessage m \<longrightarrow> speaks m \<Longrightarrow>
   \<forall>m \<in> set out. no_blank m \<and> (canMergeUserMessage m \<longrightarrow> speaks m) \<Longrightarrow>
   merge_loop h out an = (Inr ms, an') \<Longrightarrow> \<forall>m \<in> set ms. no_blank m"
proof (induction h arbitrary: out an)
  case (Cons m h)
  obtain r a where r: "prepareMessageForProjection m = (r, a)" by (cases "prepareMessageForProjection m")
  show ?case
  proof (cases r)
    case (Inr o')
    show ?thesis
    proof (cases o')
      case None
      with Cons Inr r show ?thesis by simp
    next
      case (Some n)
      from prepare_no_blank [of m n a] r Inr Some Cons.prems(1)
      have n: "no_blank n" "canMergeUserMessage n \<longrightarrow> speaks n" by auto
      show ?thesis
        using Cons.prems(1,3) r Inr Some
        by (intro Cons.IH [OF _ push_merged_no_blank [OF Cons.prems(2) n], of "an @ a"]) auto
    qed
  qed (use Cons.prems r in auto)
qed auto

lemma synthetic_no_blank: "no_blank (makeSyntheticToolResult i)"
  by (simp add: makeSyntheticToolResult_def is_blank_text_def js_trim_eq_Nil_iff SYNTHETIC_TOOL_RESULT_TEXT_def
      is_js_space_def)

lemma merge_assistants_no_blank:
  "\<forall>m \<in> set acc \<union> set ms. no_blank m \<Longrightarrow> \<forall>m \<in> set (foldl push_assistant acc ms). no_blank m"
proof (induction ms arbitrary: acc)
  case (Cons m ms)
  have "\<forall>x \<in> set (push_assistant acc m). no_blank x"
  proof (cases "acc \<noteq> [] \<and> role (last acc) = RoleAssistant \<and> role m = RoleAssistant")
    case True
    then have "last acc \<in> set acc" by simp
    with True Cons.prems show ?thesis by (auto simp: push_assistant_def dest: in_set_butlastD)
  qed (use Cons.prems in \<open>auto simp: push_assistant_def\<close>)
  with Cons.IH [of "push_assistant acc m"] Cons.prems show ?case by (simp add: ball_Un)
qed auto

lemma stages_no_blank:
  "\<forall>m \<in> set (fst r). no_blank m \<Longrightarrow> \<forall>m \<in> set (fst (stage b mergeConsecutiveAssistantMessages r)). no_blank m"
  "\<forall>m \<in> set (fst r). no_blank m \<Longrightarrow> \<forall>m \<in> set (fst (stage b dropOrphanToolResults r)). no_blank m"
  "\<forall>m \<in> set (fst r). no_blank m \<Longrightarrow> \<forall>m \<in> set (fst (stage b dropLeadingNonUserMessages r)). no_blank m"
  using merge_assistants_no_blank [of "[]" "fst r"]
  by (auto simp: stage_def mergeConsecutiveAssistantMessages_def dropOrphanToolResults_def
      dropLeadingNonUserMessages_def Let_def dest: set_dropWhileD)

lemma repair_no_blank:
  assumes "\<forall>m \<in> set ms. no_blank m"
  shows "\<forall>m \<in> set (fst (repairToolExchangeAdjacency s ms)). no_blank m"
proof
  fix m assume "m \<in> set (fst (repairToolExchangeAdjacency s ms))"
  then have "m \<in># mset ms + mset (map makeSyntheticToolResult (synthesized_ids (snd (repairToolExchangeAdjacency s ms))))"
    using loop_conserves [of s "lastNonToolIndex ms" 0 ms "[]"]
    by (metis repairToolExchangeAdjacency_def fresh_empty set_mset_mset)
  with assms show "no_blank m" by (auto simp: synthetic_no_blank)
qed

text \<open>
  No blank text block is sent, under any options, as long as every message typed by the user
  has some non-blank text.
\<close>

theorem projection_has_no_blank_text:
  assumes "\<forall>m \<in> set h. canMergeUserMessage m \<longrightarrow> (\<exists>p \<in> set (content m). is_text p \<and> \<not> is_blank_text p)"
  shows "case fst (project h opts) of Inl e \<Rightarrow> True
    | Inr out \<Rightarrow> \<forall>m \<in> set out. \<forall>p \<in> set (content m). \<not> is_blank_text p"
proof (cases "merge_loop h [] []")
  case (Pair r an)
  show ?thesis
  proof (cases r)
    case (Inr ms)
    with merge_loop_no_blank [of h "[]" "[]" ms an] assms Pair
    have "\<forall>m \<in> set (map stripContextMetadata ms). no_blank m"
      by (auto simp: stripContextMetadata_def speaks_def)
    note clean = repair_no_blank [OF this, of "synthesizeMissing opts"]
    show ?thesis
      unfolding project_cases mergeAdjacentUserMessages_def Pair Inr Let_def prod.case sum.case fst_conv
      by (intro stages_no_blank) (simp only: fst_conv, rule clean)
  qed (simp add: project_cases mergeAdjacentUserMessages_def Pair)
qed

definition user_message :: "ContentPart list \<Rightarrow> ContextMessage" where
  "user_message parts = \<lparr>role = RoleUser, msg_name = None, content = parts, toolCalls = [], toolCallId = None,
     partial = None, origin = Some \<lparr>origin_kind = OK_user None, speaker = None\<rparr>, isError = None\<rparr>"

definition assistant_message :: "ContentPart list \<Rightarrow> ToolCall list \<Rightarrow> ContextMessage" where
  "assistant_message parts calls = \<lparr>role = RoleAssistant, msg_name = None, content = parts, toolCalls = calls,
     toolCallId = None, partial = None, origin = None, isError = None\<rparr>"

definition tool_message :: "string \<Rightarrow> ContentPart list \<Rightarrow> ContextMessage" where
  "tool_message i parts = \<lparr>role = RoleTool, msg_name = None, content = parts, toolCalls = [],
     toolCallId = Some i, partial = None, origin = None, isError = None\<rparr>"

lemma projection_has_no_blank_text_witness:
  "case fst (project [user_message [TextPart ''hi''], user_message [TextPart '' '', TextPart ''there'']] no_options) of
     Inl e \<Rightarrow> True | Inr out \<Rightarrow> \<forall>m \<in> set out. \<forall>p \<in> set (content m). \<not> is_blank_text p"
  by (rule projection_has_no_blank_text)
    (simp add: user_message_def is_blank_text_def js_trim_eq_Nil_iff is_js_space_def)

section \<open>Where the projection falls short\<close>

text \<open>
  Two adjacent prompts that hold only images are merged behind a text block of two line feeds:
  blank text reaches the provider, although blank blocks are dropped because providers reject them.
\<close>

lemma image_only_prompts_merge_to_blank_text:
  "fst (project [user_message [ImageURLPart ''a'' None], user_message [ImageURLPart ''b'' None]] no_options)
   = Inr [\<lparr>role = RoleUser, msg_name = None,
           content = [TextPart [CHR 0x0A, CHR 0x0A], ImageURLPart ''a'' None, ImageURLPart ''b'' None],
           toolCalls = [], toolCallId = None, partial = None\<rparr>]
   \<and> is_blank_text (TextPart [CHR 0x0A, CHR 0x0A])"
  by (simp add: project_cases mergeAdjacentUserMessages_def prepareMessageForProjection_def user_message_def
      is_blank_text_def push_merged_def canMergeUserMessage_def mergeTwoUserMessages_def extractTextOnly_def
      stripContextMetadata_def repairToolExchangeAdjacency_def has_calls_def stage_def js_trim_eq_Nil_iff
      is_js_space_def)

text \<open>
  Orphan results are dropped after consecutive assistant messages are merged, so a dropped orphan
  leaves two assistant messages next to each other in the strict projection.
\<close>

lemma strict_projection_keeps_adjacent_assistants:
  "map_sum id (map role) (fst (project [user_message [TextPart ''q''], assistant_message [TextPart ''a''] [],
      tool_message ''gone'' [TextPart ''r''], assistant_message [TextPart ''b''] []] strict_options))
   = Inr [RoleUser, RoleAssistant, RoleAssistant]"
  by (simp add: project_cases mergeAdjacentUserMessages_def prepareMessageForProjection_def user_message_def
      assistant_message_def tool_message_def push_assistant_def mergeConsecutiveAssistantMessages_def
      dropOrphanToolResults_def dropLeadingNonUserMessages_def
      is_blank_text_def push_merged_def canMergeUserMessage_def
      stripContextMetadata_def repairToolExchangeAdjacency_def has_calls_def stage_def js_trim_eq_Nil_iff
      is_js_space_def Let_def)

end
