(* ===== verification/Compaction_Facts.thy ===== *)
theory Compaction_Facts
  imports Compaction
begin

text \<open>
  What compaction promises: truncation is the longest prefix within a budget, the kept messages are
  the most recent ones, and micro compaction changes nothing but old large tool results.
\<close>

section \<open>Counting tokens\<close>

abbreviation counts :: "nat \<Rightarrow> nat \<Rightarrow> string \<Rightarrow> nat" where
  "counts a n t \<equiv> tokens_of_counts (a + length (filter is_ascii t)) (n + length (filter (\<lambda>c. \<not> is_ascii c) t))"

lemma counts_0: "counts 0 0 t = estimateTokens t"
  by (simp add: estimateTokens_def)

lemma tokens_of_counts_mono: "a \<le> a' \<Longrightarrow> n \<le> n' \<Longrightarrow> tokens_of_counts a n \<le> tokens_of_counts a' n'"
  by (simp add: tokens_of_counts_def add_mono div_le_mono)

lemma estimateTokens_Nil [simp]: "estimateTokens [] = 0"
  by (simp add: estimateTokens_def tokens_of_counts_def)

lemma estimateTokens_append: "estimateTokens (s @ t) \<le> estimateTokens s + estimateTokens t"
  by (simp add: estimateTokens_def tokens_of_counts_def)

lemma estimateTokens_prefix: "prefix s t \<Longrightarrow> estimateTokens s \<le> estimateTokens t"
  by (auto simp: prefix_def estimateTokens_def intro!: tokens_of_counts_mono)

lemma truncate_loop_longest:
  "int (tokens_of_counts a n) \<le> mx \<Longrightarrow>
   prefix (truncate_loop t a n mx) t \<and> int (counts a n (truncate_loop t a n mx)) \<le> mx \<and>
   (\<forall>s. prefix s t \<and> int (counts a n s) \<le> mx \<longrightarrow> prefix s (truncate_loop t a n mx))"
proof (induction t arbitrary: a n)
  case (Cons c cs)
  let ?a = "if is_ascii c then a + 1 else a" and ?n = "if is_ascii c then n else n + 1"
  have step: "counts a n (c # s) = counts ?a ?n s" for s by simp
  show ?case
  proof (cases "int (tokens_of_counts ?a ?n) > mx")
    case True
    have "s = []" if "prefix s (c # cs)" "int (counts a n s) \<le> mx" for s
    proof (cases s)
      case (Cons d ds)
      with that(1) have "d = c" by simp
      with that(2) Cons step [of ds] have "int (counts ?a ?n ds) \<le> mx" by simp
      moreover have "tokens_of_counts ?a ?n \<le> counts ?a ?n ds" by (rule tokens_of_counts_mono) simp_all
      ultimately show ?thesis using True by linarith
    qed
    with True Cons.prems show ?thesis by (auto simp: Let_def)
  next
    case False
    then have IH: "prefix (truncate_loop cs ?a ?n mx) cs" "int (counts ?a ?n (truncate_loop cs ?a ?n mx)) \<le> mx"
      "\<And>s. prefix s cs \<Longrightarrow> int (counts ?a ?n s) \<le> mx \<Longrightarrow> prefix s (truncate_loop cs ?a ?n mx)"
      using Cons.IH [of ?a ?n] by auto
    have eq: "truncate_loop (c # cs) a n mx = c # truncate_loop cs ?a ?n mx"
      using False by (simp only: truncate_loop.simps Let_def if_False)
    have "prefix s (c # truncate_loop cs ?a ?n mx)" if "prefix s (c # cs)" "int (counts a n s) \<le> mx" for s
    proof (cases s)
      case (Cons d ds)
      with that have d: "d = c" "prefix ds cs" by auto
      have "int (counts ?a ?n ds) \<le> mx" using that(2) unfolding Cons d(1) step .
      from IH(3) [OF d(2) this] show ?thesis by (simp add: Cons d(1))
    qed simp
    with IH(1,2) show ?thesis unfolding eq step by simp
  qed
qed simp

section \<open>Selecting messages\<close>

abbreviation total_tokens :: "ContextMessage list \<Rightarrow> int" where
  "total_tokens ms \<equiv> int (estimateTokensForMessages ms)"

lemma estimate_messages_simps [simp]:
  "estimateTokensForMessages [] = 0"
  "estimateTokensForMessages (m # ms) = estimateTokensForMessage m + estimateTokensForMessages ms"
  "estimateTokensForMessages (ms @ ns) = estimateTokensForMessages ms + estimateTokensForMessages ns"
  "estimateTokensForMessages (rev ms) = estimateTokensForMessages ms"
  by (simp_all add: estimateTokensForMessages_def rev_map [symmetric] sum_list_rev)

lemma estimate_role_user: "estimateTokens ''user'' = 1"
  by (simp add: estimateTokens_def tokens_of_counts_def is_ascii_def)

lemma truncate_text_bound: "0 < mx \<Longrightarrow> int (estimateTokens (truncateTextToTokens t mx)) \<le> mx"
  using truncate_loop_longest [of 0 0 mx t] unfolding counts_0
  by (simp add: truncateTextToTokens_def tokens_of_counts_def [of 0 0])

lemma truncated_message_bound:
  "role m = RoleUser \<Longrightarrow> 0 < mx \<Longrightarrow> int (estimateTokensForMessage (truncateUserMessage m mx)) \<le> mx + 1"
  using truncate_text_bound [of mx "concat (map part_text (filter is_text (content m)))"]
  by (simp add: estimateTokensForMessage_def truncateUserMessage_def estimate_role_user
      estimateTokensForContentParts_def)

text \<open>Newest first: some messages whole, and at most one more, truncated to what was left.\<close>

lemma user_message_costs: "role m = RoleUser \<Longrightarrow> 0 < estimateTokensForMessage m"
  by (simp add: estimateTokensForMessage_def estimate_role_user)

lemma select_loop_shape:
  "\<forall>m \<in> set ms. role m = RoleUser \<Longrightarrow> \<exists>k \<le> length ms.
     (k = 0 \<or> total_tokens (take k ms) \<le> mx) \<and> (k = length ms \<or> mx < total_tokens (take (Suc k) ms)) \<and>
     select_loop ms mx = (if k < length ms \<and> total_tokens (take k ms) < mx
       then take k ms @ [truncateUserMessage (ms ! k) (mx - total_tokens (take k ms))] else take k ms)"
proof (induction ms arbitrary: mx)
  case (Cons m ms)
  let ?t = "int (estimateTokensForMessage m)"
  have pos: "0 < ?t" using Cons.prems by (simp add: user_message_costs)
  consider "mx \<le> 0" | "mx > 0" "?t > mx" | "mx > 0" "?t \<le> mx" by linarith
  then show ?case
  proof cases
    case 1
    with pos show ?thesis by (intro exI [of _ 0]) simp
  next
    case 2
    then show ?thesis by (intro exI [of _ 0]) (simp add: Let_def)
  next
    case 3
    then have eq: "select_loop (m # ms) mx = m # select_loop ms (mx - ?t)" by (simp add: Let_def)
    from Cons.prems Cons.IH [of "mx - ?t"] obtain k where k: "k \<le> length ms"
      "k = 0 \<or> total_tokens (take k ms) \<le> mx - ?t" "k = length ms \<or> mx - ?t < total_tokens (take (Suc k) ms)"
      "select_loop ms (mx - ?t) = (if k < length ms \<and> total_tokens (take k ms) < mx - ?t
         then take k ms @ [truncateUserMessage (ms ! k) (mx - ?t - total_tokens (take k ms))] else take k ms)"
      by auto
    show ?thesis unfolding eq k(4) using k(1-3) 3(2)
      by (intro exI [of _ "Suc k"]) (auto simp: algebra_simps)
  qed
qed simp

lemma select_loop_bound:
  "\<forall>m \<in> set ms. role m = RoleUser \<Longrightarrow> 0 \<le> mx \<Longrightarrow> total_tokens (select_loop ms mx) \<le> mx + 1"
proof (induction ms arbitrary: mx)
  case (Cons m ms)
  let ?t = "int (estimateTokensForMessage m)"
  show ?case
  proof (cases "mx > 0 \<and> ?t \<le> mx")
    case True
    with Cons.IH [of "mx - ?t"] Cons.prems show ?thesis by (simp add: Let_def)
  qed (use Cons.prems truncated_message_bound [of m mx] in \<open>auto simp: Let_def\<close>)
qed simp

lemma collected_are_user: "m \<in> set (collectCompactableUserMessages ms) \<Longrightarrow> role m = RoleUser"
  by (simp add: collectCompactableUserMessages_def isRealUserInput_def)

lemma selected_within_budget:
  "estimateTokensForMessages (selectRecentUserMessages (collectCompactableUserMessages h) mx) \<le> nat mx + 1"
proof (cases "mx \<le> 0")
  case True
  then show ?thesis by (cases "rev (collectCompactableUserMessages h)") (simp_all add: selectRecentUserMessages_def)
next
  case False
  then have "total_tokens (select_loop (rev (collectCompactableUserMessages h)) mx) \<le> mx + 1"
    by (intro select_loop_bound) (auto simp: collected_are_user)
  with False show ?thesis by (simp add: selectRecentUserMessages_def)
qed

section \<open>Micro compaction\<close>

lemma compact_loop_frame [simp]: "length (compact_loop cfg cutoff i ms) = length ms"
  by (induction ms arbitrary: i) auto

lemma compact_loop_nth:
  "k < length ms \<Longrightarrow> compact_loop cfg cutoff i ms ! k =
     (if i + k < cutoff \<and> clearable cfg (ms ! k) then (ms ! k)\<lparr>content := [TextPart (truncatedMarker cfg)]\<rparr>
      else ms ! k)"
  by (induction ms arbitrary: i k) (auto simp: nth_Cons split: nat.splits)

lemma estimate_with_content:
  "estimateTokensForMessage (m\<lparr>content := c\<rparr>) + estimateTokensForContentParts (content m)
     = estimateTokensForMessage m + estimateTokensForContentParts c"
  by (simp add: estimateTokensForMessage_def)

lemma compact_loop_tokens:
  "estimateTokensForMessages (compact_loop cfg cutoff i ms)
     + sum_list (map (\<lambda>m. estimateTokensForContentParts (content m)) (filter (clearable cfg) (take (cutoff - i) ms)))
   = estimateTokensForMessages ms
     + sum_list (map (\<lambda>m. estimateTokensForContentParts [TextPart (truncatedMarker cfg)])
         (filter (clearable cfg) (take (cutoff - i) ms)))"
proof (induction ms arbitrary: i)
  case (Cons m ms)
  show ?case
  proof (cases "i < cutoff")
    case True
    then have "cutoff - i = Suc (cutoff - Suc i)" by simp
    with True Cons.IH [of "Suc i"] estimate_with_content [of "[TextPart (truncatedMarker cfg)]" m]
    show ?thesis by (simp del: sum_list_triv map_replicate_const)
  next
    case False
    with Cons.IH [of "Suc i"] show ?thesis by simp
  qed
qed simp

end
