(* ===== verification/Compaction_Properties.thy ===== *)
theory Compaction_Properties
  imports Compaction_Facts
begin

text \<open>The properties of compaction, and one input on which the budget is exceeded.\<close>

text \<open>
  Truncation keeps the longest prefix within the budget: a prefix, of at most \<open>mx\<close> estimated
  tokens (none when \<open>mx\<close> is not positive), and one more character would exceed it.
\<close>

theorem truncation_is_longest_prefix:
  "let r = truncateTextToTokens t mx in
     prefix r t \<and> int (estimateTokens r) \<le> max 0 mx
     \<and> (r = t \<or> int (estimateTokens (take (Suc (length r)) t)) > mx)"
proof (cases "mx \<le> 0")
  case True
  have "int (estimateTokens (take (Suc 0) t)) > 0 \<or> t = []"
    by (cases t) (auto simp: estimateTokens_def tokens_of_counts_def)
  with True show ?thesis by (auto simp: truncateTextToTokens_def)
next
  case False
  let ?r = "truncate_loop t 0 0 mx"
  from False truncate_loop_longest [of 0 0 mx t] have
    r: "prefix ?r t" "int (estimateTokens ?r) \<le> mx"
       "\<And>s. prefix s t \<Longrightarrow> int (estimateTokens s) \<le> mx \<Longrightarrow> prefix s ?r"
    unfolding counts_0 by (auto simp: tokens_of_counts_def [of 0 0])
  have "?r = t \<or> int (estimateTokens (take (Suc (length ?r)) t)) > mx"
  proof (rule ccontr)
    assume "\<not> ?thesis"
    then have "?r \<noteq> t" "prefix (take (Suc (length ?r)) t) ?r" using r(3) by (auto simp: take_is_prefix)
    with r(1) show False
      by (metis Suc_n_not_le_n length_take min.absorb2 not_less_eq_eq prefix_length_le prefix_length_prefix
          prefix_order.antisym take_all_iff take_is_prefix)
  qed
  with r(1,2) False show ?thesis by (simp add: truncateTextToTokens_def Let_def)
qed

text \<open>
  C39: Compaction keeps the most recent real user messages, in order. The messages kept whole are the longest
  suffix of them whose estimate is within the budget (one more message would exceed it); if the
  budget is not used up and an older message is there, that one comes first, truncated to exactly
  what is left; nothing else is kept. The estimate of all of them is at most one token over the budget.
\<close>

theorem compaction_keeps_recent_user_messages:
  "let us = collectCompactableUserMessages h; kept = selectRecentUserMessages us mx in
     estimateTokensForMessages kept \<le> nat mx + 1 \<and>
     (\<exists>k \<le> length us. let tail = drop k us; left = mx - int (estimateTokensForMessages tail) in
        (tail = [] \<or> 0 \<le> left) \<and>
        (k = 0 \<or> mx < int (estimateTokensForMessages (drop (k - 1) us))) \<and>
        kept = (if 0 < k \<and> 0 < left then truncateUserMessage (us ! (k - 1)) left # tail else tail))"
proof -
  let ?us = "collectCompactableUserMessages h"
  let ?n = "length ?us"
  have "estimateTokensForMessages (selectRecentUserMessages ?us mx) \<le> nat mx + 1"
    by (rule selected_within_budget)
  moreover
  have "\<forall>m \<in> set (rev ?us). role m = RoleUser" by (simp add: collected_are_user)
  from select_loop_shape [OF this, of mx] obtain j where j: "j \<le> ?n"
    "j = 0 \<or> total_tokens (take j (rev ?us)) \<le> mx" "j = ?n \<or> mx < total_tokens (take (Suc j) (rev ?us))"
    "select_loop (rev ?us) mx = (if j < ?n \<and> total_tokens (take j (rev ?us)) < mx
       then take j (rev ?us) @ [truncateUserMessage (rev ?us ! j) (mx - total_tokens (take j (rev ?us)))]
       else take j (rev ?us))"
    by auto
  have tk: "take i (rev ?us) = rev (drop (?n - i) ?us)" for i by (simp add: take_rev)
  have "?n - j = 0 \<or> mx < total_tokens (drop (?n - j - 1) ?us)" using j(3) by (auto simp: tk)
  moreover have "drop (?n - j) ?us = [] \<or> 0 \<le> mx - total_tokens (drop (?n - j) ?us)" using j(2) by (auto simp: tk)
  moreover have "selectRecentUserMessages ?us mx =
      (if 0 < ?n - j \<and> 0 < mx - total_tokens (drop (?n - j) ?us)
       then truncateUserMessage (?us ! (?n - j - 1)) (mx - total_tokens (drop (?n - j) ?us)) # drop (?n - j) ?us
       else drop (?n - j) ?us)"
    using j(1) unfolding selectRecentUserMessages_def j(4) tk by (auto simp: rev_nth)
  ultimately show ?thesis unfolding Let_def by (intro conjI exI [of _ "?n - j"]) simp_all
qed

text \<open>
  Micro compaction only clears old large tool results. The number of messages stays, every
  message keeps its role, calls, call id and origin, all but old results of at least the configured
  size keep their content, and the reported token effect is exact.
\<close>

theorem micro_compaction_clears_only_old_results:
  "let out = micro_compact True cfg cutoff ms; e = measureEffect cfg ms cutoff in
     list_all2 (\<lambda>m m'. role m' = role m \<and> toolCalls m' = toolCalls m \<and> toolCallId m' = toolCallId m \<and> origin m' = origin m
        \<and> (m' = m \<or> role m = RoleTool \<and> estimateTokensForContentParts (content m) \<ge> minContentTokens cfg
                       \<and> content m' = [TextPart (truncatedMarker cfg)])) ms out
     \<and> drop cutoff out = drop cutoff ms
     \<and> estimateTokensForMessages out + truncatedToolResultTokensBefore e
        = estimateTokensForMessages ms + truncatedToolResultTokensAfter e"
  using compact_loop_tokens [of cfg cutoff 0 ms]
  by (auto simp: Let_def micro_compact_def measureEffect_def list_all2_conv_all_nth compact_loop_nth clearable_def
      intro!: nth_equalityI simp del: sum_list_triv)

text \<open>
  Under the default configuration micro compaction is idempotent, for any cutoff: a cleared
  result is too small to be cleared again.
\<close>

theorem micro_compaction_idempotent:
  "micro_compact en DEFAULT_CONFIG cutoff (micro_compact en DEFAULT_CONFIG cutoff ms)
     = micro_compact en DEFAULT_CONFIG cutoff ms"
proof -
  have "estimateTokensForContentParts [TextPart (truncatedMarker DEFAULT_CONFIG)] < minContentTokens DEFAULT_CONFIG"
    by (simp add: DEFAULT_CONFIG_def estimateTokensForContentParts_def estimateTokens_def tokens_of_counts_def
        is_ascii_def)
  then have "\<not> clearable DEFAULT_CONFIG (m\<lparr>content := [TextPart (truncatedMarker DEFAULT_CONFIG)]\<rparr>)"
    for m :: ContextMessage by (simp add: clearable_def)
  then show ?thesis by (auto simp: micro_compact_def compact_loop_nth intro!: nth_equalityI)
qed

text \<open>The role of a truncated message is not part of its budget, so one token too many is kept.\<close>

lemma kept_messages_can_exceed_budget:
  "let m = \<lparr>role = RoleUser, msg_name = None, content = [TextPart ''aaaaaaaaaaaaaaaa''], toolCalls = [],
            toolCallId = None, partial = None, origin = None, isError = None\<rparr>
   in estimateTokensForMessages (selectRecentUserMessages (collectCompactableUserMessages [m]) 2) = 3"
  by (simp add: collectCompactableUserMessages_def isRealUserInput_def compactionUserMessageDisposition_def
      isCompactionSummaryMessage_def selectRecentUserMessages_def estimateTokensForMessage_def
      estimateTokensForContentParts_def estimateTokens_def tokens_of_counts_def is_ascii_def
      truncateUserMessage_def truncateTextToTokens_def Let_def)

end
