(* ===== verification/Context_Properties.thy ===== *)
theory Context_Properties
  imports Context_Replay Projector_Properties Compaction_Properties
begin

text \<open>
  The properties of the conversation: replay, the exchange invariant, sending, order, undo and
  compaction, over the interpretations \<open>ctx\<close> and \<open>ctx_log\<close>; and three ways in which the log and
  the live conversation part.
\<close>

section \<open>A fresh conversation\<close>

definition new_context_agent :: context_agent where
  "new_context_agent = \<lparr>ag_restoring = None, ag_persistence = True, ag_metadataInitialized = False,
     ag_wire = [], ag_events = [], ag_replay = new_replay_builder None\<rparr>"

definition new_context :: ContextMemory where
  "new_context = \<lparr>cx_history = [], cx_tokenCount = 0, cx_covered = 0, cx_openSteps = [], cx_pending = [],
     cx_deferred = [], cx_lastAssistantAt = None, cx_nextId = 0, cx_agent = new_context_agent,
     cx_transient = None, cx_repairSignature = None, cx_calls = []\<rparr>"

lemma new_context_inv: "ctx_inv new_context"
  by (simp add: ctx_inv_def ctx_ok_def ctx_pre_def new_context_def new_context_agent_def live_def ids_ok_def
      balanced_def)

lemmas reachable_inv = ctx.run_inv [OF new_context_inv]

text \<open>
  C14: The record log is enough. Let messages be appended, steps be streamed, and the conversation be
  cleared, undone and compacted, in any order, with no event rejected because its step is not open.
  Then restoring the log record by record succeeds and gives the same conversation: history, open
  exchanges, deferred messages, open steps and token counts (\<open>finishResume\<close>, which then closes what
  is open, comes after it). Operations that change the history without a record are not among them:
  \<open>popMatchedMessage\<close>, the import of a migrated history, and the projection of another history.
\<close>

theorem context_log_rebuilds:
  assumes "in_open_steps new_context es"
  shows "map_option core (foldl restore_context (Some new_context) (clog (run_ops cx_step new_context es)))
   = Some (core (run_ops cx_step new_context es))"
  unfolding run_accepted [OF assms, symmetric]
  by (rule ctx_log.restore_rebuilds [OF new_context_inv])
    (simp_all add: new_context_def new_context_agent_def logged_def)

definition demo_chat :: "(ms \<times> CxOp) list" where
  "demo_chat = [(1, CxAppend (plain_user [TextPart ''go''] USER_PROMPT_ORIGIN)), (2, CxEvent (StepBegin ''s'')),
     (3, CxEvent (ToolCallEvent ''s'' ''t1'' ''Read'' None)),
     (4, CxAppend (plain_user [TextPart ''more''] USER_PROMPT_ORIGIN)),
     (5, CxCompact ''done'' None 2 9 None), (6, CxEvent (StepBegin ''t''))]"

lemma context_log_rebuilds_witness:
  "map_option core (foldl restore_context (Some new_context) (clog (run_ops cx_step new_context demo_chat)))
   = Some (core (run_ops cx_step new_context demo_chat))"
  by (rule context_log_rebuilds) (simp add: demo_chat_def accepts_op_def accepts_def appendLoopEvent_def alloc_def Let_def
      appendMessage_def hasOpenToolExchange_def new_context_def closePendingToolResults_def)

text \<open>
  C15: Exchanges stay well formed in every reachable conversation: no tool result stands before its
  call, no call id has more results than calls, every pending id lacks a result, and a message is
  held back only while some exchange is open.
\<close>

theorem exchanges_well_formed:
  "let c = run_ops cx_step new_context es in
     balanced (map snd (cx_history c)) (cx_pending c) \<and> \<not> (cx_deferred c \<noteq> [] \<and> cx_pending c = [])
     \<and> cx_covered c \<le> length (cx_history c)"
  using reachable_inv [of es] by (auto simp: Let_def ctx_inv_def ctx_ok_def ctx_pre_def)

section \<open>Sending\<close>

lemma sendable_plain: "plain m \<Longrightarrow> \<not> unsendable m"
  by (simp add: plain_def unsendable_def)

lemma sendable_entry: "entry_ok m \<Longrightarrow> \<not> unsendable m"
  by (auto simp: entry_ok_def unsendable_def plain_def)

lemma speak_role: "role m = RoleTool \<Longrightarrow> speak m = m" "role (speak m) = role m"
  by (simp_all add: speak_def split: option.split)

lemma unsendable_speak: "unsendable (speak m) \<Longrightarrow> unsendable m"
  using speak_role [of m] by (cases "role m = RoleTool") (auto simp: unsendable_def)

lemma marker_not_blank: "\<not> is_blank_text (TextPart (truncatedMarker DEFAULT_CONFIG))"
  by (rule not_blank_text [of "CHR ''O''"]) (simp_all add: DEFAULT_CONFIG_def is_js_space_def)

lemma micro_sendable:
  assumes "\<forall>m \<in> set ms. \<not> unsendable m"
  shows "\<forall>m \<in> set (micro_compact en DEFAULT_CONFIG cutoff ms). \<not> unsendable m"
proof (rule ballI)
  fix m assume "m \<in> set (micro_compact en DEFAULT_CONFIG cutoff ms)"
  then obtain k where k: "k < length ms" "m = micro_compact en DEFAULT_CONFIG cutoff ms ! k"
    by (cases en) (auto simp: in_set_conv_nth micro_compact_def)
  with assms marker_not_blank show "\<not> unsendable m"
    by (auto simp: micro_compact_def compact_loop_nth unsendable_def)
qed

lemma cx_project_throws: "isl (fst (cx_project micro ms opts c)) = list_ex unsendable (micro ms)"
  unfolding cx_project_def project_isl [symmetric, of _ opts]
  by (auto split: prod.split sum.split)

lemma reachable_sendable:
  assumes "ctx_inv c" and "pred_option plain (cx_transient c)"
  shows "\<forall>m \<in> set (historyForModel c). \<not> unsendable m"
  using assms sendable_entry sendable_plain
  by (auto simp: historyForModel_def historyWithTransientSystemReminder_def ctx_inv_def ctx_ok_def ctx_pre_def
      dest!: unsendable_speak split: option.splits)

lemma sending_succeeds:
  assumes "ctx_inv c" and "pred_option plain (cx_transient c)"
  shows "\<not> isl (fst (messages (micro_compact en DEFAULT_CONFIG cutoff) c))"
    and "\<not> isl (fst (strictMessages (micro_compact en DEFAULT_CONFIG cutoff) c))"
  using micro_sendable [OF reachable_sendable [OF assms], of en cutoff]
  by (auto simp: messages_def strictMessages_def cx_project_throws list_ex_iff)

lemma transient_none: "cx_transient c = None \<Longrightarrow> cx_transient (cx_step c e) = None"
proof -
  assume none: "cx_transient c = None"
  have tr: "cx_transient (append_tool_result now i r c) = cx_transient c" for now i r c
    by (simp add: append_tool_result_def alloc_def flushDeferredMessagesIfToolExchangeClosed_def Let_def)
  have close: "cx_transient (closePendingToolResults now c) = cx_transient c" for now c
  proof -
    have "cx_transient (foldl (\<lambda>c i. append_tool_result now i interrupted_result c) c is) = cx_transient c"
      for c "is" by (induction "is" arbitrary: c) (auto simp: tr)
    then show ?thesis by (simp add: closePendingToolResults_def)
  qed
  show ?thesis using none
    by (cases e; cases "snd e")
      (auto simp: appendMessage_def appendTranscriptMessage_def appendLoopEvent_def alloc_def Let_def close tr
        flushDeferredMessagesIfToolExchangeClosed_def end_step_def clear_def clearTransientSystemReminder_def
        undo_def applyCompaction_def split: LoopRecordedEvent.split option.split prod.split)
qed

lemma transient_none_run: "cx_transient c = None \<Longrightarrow> cx_transient (run_ops cx_step c es) = None"
  by (induction es arbitrary: c) (auto simp: transient_none)

text \<open>
  C16: Sending never throws. The projection of a reachable conversation succeeds, with or without a
  transient reminder, normally and in the strict resend, whatever micro compaction cleared: the
  tool results recorded by the loop never become empty when blank text is dropped.
\<close>

theorem sending_never_throws:
  "let c = run_ops cx_step new_context es; micro = micro_compact en DEFAULT_CONFIG cutoff in
     \<not> isl (fst (messages micro c)) \<and> \<not> isl (fst (strictMessages micro c))
     \<and> \<not> isl (fst (messages micro (setTransientSystemReminder now txt og c)))
     \<and> \<not> isl (fst (strictMessages micro (setTransientSystemReminder now txt og c)))"
proof -
  let ?c = "run_ops cx_step new_context es"
  have none: "cx_transient ?c = None" by (rule transient_none_run) (simp add: new_context_def)
  let ?tc = "setTransientSystemReminder now txt og ?c"
  have tr: "pred_option plain (cx_transient ?tc)"
    by (auto simp: setTransientSystemReminder_def none Let_def appendTranscriptMessage_def alloc_def)
  have "ctx_inv ?tc"
    using reachable_inv [of es]
    by (auto simp: setTransientSystemReminder_def none Let_def ctx_inv_def intro!: inv_rules)
  with tr none reachable_inv [of es] show ?thesis
    unfolding Let_def by (intro conjI sending_succeeds) simp_all
qed

section \<open>Order\<close>

fun keeps_history :: "CxOp \<Rightarrow> bool" where
  "keeps_history (CxAppend m) = True"
| "keeps_history (CxTranscript m) = True"
| "keeps_history (CxEvent e) = True"
| "keeps_history _ = False"

fun appended :: "(ms \<times> CxOp) list \<Rightarrow> ContextMessage list" where
  "appended [] = []"
| "appended ((t, CxAppend m) # es) = (if plain m then m # appended es else appended es)"
| "appended (_ # es) = appended es"

definition plain_messages :: "ContextMemory \<Rightarrow> ContextMessage list" where
  "plain_messages c = filter plain (map snd (cx_history c @ cx_deferred c))"

lemma plain_tool_result [simp]: "\<not> plain (tool_result_message i r)" "\<not> plain empty_assistant"
  by (simp_all add: plain_def empty_assistant_def)

lemma plain_flush [simp]:
  "plain_messages (flushDeferredMessagesIfToolExchangeClosed now c) = plain_messages c"
  by (simp add: plain_messages_def flushDeferredMessagesIfToolExchangeClosed_def)

lemma plain_tool_event [simp]: "plain_messages (append_tool_result now i r c) = plain_messages c"
proof (cases "i \<in> set (cx_pending c)")
  case True
  then show ?thesis
    by (simp add: append_tool_result_def alloc_def Let_def) (simp add: plain_messages_def)
qed (simp add: append_tool_result_def Let_def plain_messages_def)

lemma plain_closePending [simp]: "plain_messages (closePendingToolResults now c) = plain_messages c"
proof -
  have "plain_messages (foldl (\<lambda>c i. append_tool_result now i interrupted_result c) c is) = plain_messages c"
    for c "is" by (induction "is" arbitrary: c) simp_all
  then show ?thesis by (simp add: closePendingToolResults_def)
qed

lemma plain_log [simp]: "plain_messages (cx_log now r c) = plain_messages c"
  by (simp add: plain_messages_def)

lemma plain_update:
  assumes "ctx_ok c" and "map_get (cx_openSteps c) u = Some i" and "\<And>m. role (f m) = role m"
    and "\<And>m. origin (f m) = origin m"
  shows "filter plain (map snd (update_object i f (cx_history c))) = filter plain (map snd (cx_history c))"
proof -
  have "steps_ok (cx_history c) (cx_openSteps c)" using assms(1) by (simp add: ctx_ok_def ctx_pre_def)
  with assms(2) obtain m1 where m1: "(i, m1) \<in> set (cx_history c)" "role m1 = RoleAssistant" "origin m1 = None"
    by (auto simp: steps_ok_def)
  have ids: "ids_ok (cx_history c) (cx_nextId c)"
    using assms(1) by (auto simp: ctx_ok_def ctx_pre_def intro: ids_ok_left)
  have "filter plain (map snd (update_object i f es)) = filter plain (map snd es)"
    if "\<forall>m. (i, m) \<in> set es \<longrightarrow> role m = RoleAssistant \<and> origin m = None" for es
    using that
  proof (induction es)
    case (Cons e es)
    obtain k m where e: "e = (k, m)" by (cases e)
    have IH: "filter plain (map snd (update_object i f es)) = filter plain (map snd es)"
      using Cons.prems by (intro Cons.IH) simp
    have "update_object i f (e # es) = (k, if k = i then f m else m) # update_object i f es"
      by (simp add: update_object_def e)
    moreover have "\<not> plain m \<and> \<not> plain (f m)" if "k = i"
      using Cons.prems that assms(3,4) [of m] by (simp add: plain_def e)
    ultimately show ?case using IH by (simp add: e)
  qed simp
  moreover have "\<forall>m. (i, m) \<in> set (cx_history c) \<longrightarrow> role m = RoleAssistant \<and> origin m = None"
    using m1 ids by (auto simp: ids_ok_def dest: eq_key_imp_eq_value)
  ultimately show ?thesis .
qed

lemma plain_event:
  assumes "ctx_ok c"
  shows "plain_messages (snd (appendLoopEvent now e c)) = plain_messages c"
proof (cases e)
  case (StepBegin u)
  let ?c1 = "closePendingToolResults now (cx_log now (CR_append_loop_event e) c)"
  have "plain_messages ?c1 = plain_messages c" by simp
  then show ?thesis unfolding plain_messages_def by (simp add: StepBegin appendLoopEvent_def alloc_def Let_def)
next
  case (StepEnd u us)
  have "plain_messages (end_step u us c') = plain_messages c'" for c'
    by (simp add: plain_messages_def end_step_def Let_def split: option.split)
  then show ?thesis by (simp add: StepEnd appendLoopEvent_def)
next
  case (ContentPartEvent u p)
  show ?thesis
    using plain_update [OF assms, of u _ "\<lambda>m. m\<lparr>content := content m @ [p]\<rparr>"]
    by (simp add: ContentPartEvent appendLoopEvent_def plain_messages_def Let_def split: option.split)
next
  case (ToolCallEvent u i nm a)
  show ?thesis
    using plain_update [OF assms, of u _ "\<lambda>m. m\<lparr>toolCalls := toolCalls m @
      [\<lparr>tc_id = i, tc_name = nm, tc_arguments = a, tc_streamIndex = None\<rparr>]\<rparr>"]
    by (simp add: ToolCallEvent appendLoopEvent_def plain_messages_def Let_def split: option.split)
next
  case (ToolResultEvent i r)
  show ?thesis by (simp add: ToolResultEvent appendLoopEvent_def)
qed

lemma plain_append:
  "ctx_ok c \<Longrightarrow> plain m \<Longrightarrow> plain_messages (appendMessage now m c) = plain_messages c @ [m]"
  by (auto simp: plain_messages_def appendMessage_def alloc_def hasOpenToolExchange_def ctx_ok_def)

lemma plain_transcript: "plain_messages (appendTranscriptMessage now m c) = plain_messages c"
  by (simp add: plain_messages_def appendTranscriptMessage_def alloc_def)

lemma run_keeps_order:
  "ctx_inv c \<Longrightarrow> \<forall>e \<in> set es. keeps_history (snd e) \<Longrightarrow>
   plain_messages (run_ops cx_step c es) = plain_messages c @ appended es"
proof (induction es arbitrary: c)
  case (Cons e es)
  obtain t op where e: "e = (t, op)" by (cases e)
  have ok: "ctx_ok c" using Cons.prems(1) by (simp add: ctx_inv_def)
  have "plain_messages (cx_step c e) = plain_messages c @ appended [e]"
    using Cons.prems(2) ok by (cases op) (auto simp: e plain_append plain_transcript plain_event)
  moreover have "appended (e # es) = appended [e] @ appended es" by (cases op) (auto simp: e)
  ultimately show ?case using Cons.IH [OF cx_step_inv [OF Cons.prems(1)], of e] Cons.prems(2) by simp
qed simp

text \<open>
  C18: No message is lost or reordered by streaming. After any appended messages and loop events,
  in any interleaving, finishing the resume leaves nothing pending and nothing held back, and the
  appended messages (the user's, the harness's, the answer of a hook) are in the history, in the order they came.
\<close>

theorem messages_survive_streaming:
  assumes "\<forall>e \<in> set es. keeps_history (snd e)"
  shows "let c = finishResume now (run_ops cx_step new_context es) in
    cx_pending c = [] \<and> cx_deferred c = [] \<and> filter plain (map snd (cx_history c)) = appended es"
proof -
  let ?c = "run_ops cx_step new_context es"
  let ?d = "finishResume now ?c"
  have pend: "cx_pending ?d = []" by (simp add: finishResume_def closePending_nothing_pending)
  have "ctx_ok ?d" using reachable_inv [of es] by (auto simp: ctx_inv_def intro: inv_rules)
  with pend have deferred: "cx_deferred ?d = []" by (auto simp: ctx_ok_def)
  have "plain_messages ?d = plain_messages ?c"
    by (simp add: finishResume_def) (simp add: plain_messages_def)
  with run_keeps_order [OF new_context_inv assms] deferred pend show ?thesis
    by (simp add: plain_messages_def new_context_def)
qed

lemma messages_survive_streaming_witness:
  "let es = [(1, CxAppend (plain_user [TextPart ''go''] USER_PROMPT_ORIGIN)), (2, CxEvent (StepBegin ''s'')),
       (3, CxEvent (ToolCallEvent ''s'' ''t1'' ''Read'' None)),
       (4, CxAppend (plain_user [TextPart ''more''] USER_PROMPT_ORIGIN))];
     c = finishResume 9 (run_ops cx_step new_context es) in
    cx_pending c = [] \<and> cx_deferred c = [] \<and> filter plain (map snd (cx_history c)) = appended es"
  unfolding Let_def by (rule messages_survive_streaming [unfolded Let_def]) simp

section \<open>Undo\<close>

text \<open>
  The specification of undo, on the history from its newest message on: what is kept, how many
  prompts were taken back, whether a compaction summary was met.
\<close>

fun undo_spec :: "int \<Rightarrow> entry list \<Rightarrow> entry list \<times> int \<times> bool" where
  "undo_spec k [] = ([], 0, False)"
| "undo_spec k (e # es) =
     (if is_injection (snd e) then (case undo_spec k es of (keep, n, stop) \<Rightarrow> (e # keep, n, stop))
      else if isCompactionSummaryMessage (snd e) then (e # es, 0, True)
      else if isRealUserInput (snd e) then
        (if k \<le> 1 then (es, 1, False)
         else case undo_spec (k - 1) es of (keep, n, stop) \<Rightarrow> (keep, n + 1, stop))
      else undo_spec k es)"

lemma undo_loop_spec:
  assumes "undo_loop i cnt ru rem c = (ru', stop, rem', c')" and "i \<le> length (cx_history c)"
    and "undo_spec (cnt - ru) (rev (take i (cx_history c))) = (keep, n, stop2)"
  shows "cx_history c' = rev keep @ drop i (cx_history c) \<and> ru' = ru + n \<and> stop = stop2"
  using assms
proof (induction i cnt ru rem c arbitrary: keep n stop2 rule: undo_loop.induct)
  case (2 i cnt ru rem c)
  let ?e = "cx_history c ! i"
  have i: "i < length (cx_history c)" using "2.prems"(2) by simp
  have tk: "rev (take (Suc i) (cx_history c)) = ?e # rev (take i (cx_history c))"
    using i by (simp add: take_Suc_conv_app_nth)
  have dr: "drop i (cx_history c) = ?e # drop (Suc i) (cx_history c)" using i by (simp add: Cons_nth_drop_Suc)
  have one: "take i (cx_history (undo_one i c)) = take i (cx_history c)"
    "drop i (cx_history (undo_one i c)) = drop (Suc i) (cx_history c)"
    and il: "i \<le> length (cx_history (undo_one i c))" using i by (simp_all add: min_def)
  note spec = "2.prems"(3) [unfolded tk undo_spec.simps(2)]
  show ?case
  proof (cases "is_injection (snd ?e)")
    case True
    from spec True obtain keep1 where "undo_spec (cnt - ru) (rev (take i (cx_history c))) = (keep1, n, stop2)"
      "keep = ?e # keep1" by (auto split: prod.splits)
    with "2.IH"(1) [OF True] "2.prems"(1) True i dr show ?thesis by auto
  next
    case inj: False
    show ?thesis
    proof (cases "isCompactionSummaryMessage (snd ?e)")
      case True
      with inj spec "2.prems"(1) i show ?thesis by (auto simp: id_take_nth_drop [symmetric])
    next
      case sum: False
      consider "\<not> isRealUserInput (snd ?e)" | "isRealUserInput (snd ?e)" "ru + 1 \<ge> cnt"
        | "isRealUserInput (snd ?e)" "\<not> ru + 1 \<ge> cnt" by blast
      then show ?thesis
      proof cases
        case 1
        from "2.prems"(1) inj sum 1 have "undo_loop i cnt ru (rem @ [fst ?e]) (undo_one i c) = (ru', stop, rem', c')"
          by (simp add: Let_def)
        from "2.IH"(3) [OF inj sum refl refl 1 this il] spec inj sum 1 show ?thesis by (simp only: one) simp
      next
        case 2
        from "2.prems"(1) inj sum 2 have "c' = undo_one i c" "ru' = ru + 1" "\<not> stop" by (auto simp: Let_def)
        moreover from spec inj sum 2 have "keep = rev (take i (cx_history c))" "n = 1" "\<not> stop2" by auto
        ultimately show ?thesis by simp
      next
        case 3
        from "2.prems"(1) inj sum 3 have
          loop: "undo_loop i cnt (ru + 1) (rem @ [fst ?e]) (undo_one i c) = (ru', stop, rem', c')" by (simp add: Let_def)
        from spec inj sum 3 obtain n1 where
          "undo_spec (cnt - (ru + 1)) (rev (take i (cx_history c))) = (keep, n1, stop2)" "n = n1 + 1"
          by (auto simp: algebra_simps split: prod.splits)
        with "2.IH"(2) [OF inj sum refl refl 3 loop il] show ?thesis by (simp only: one) simp
      qed
    qed
  qed
qed simp

lemma undo_result:
  assumes "cnt > 0" and "cx_history c \<noteq> []" and "ag_restoring (cx_agent c) = None"
    and "undo_spec cnt (rev (cx_history c)) = (keep, n, stop)"
  shows "let (err, c') = undo now cnt c in
    cx_history c' = rev keep \<and> cx_openSteps c' = [] \<and> cx_pending c' = [] \<and> cx_deferred c' = []
    \<and> err = (if stop \<or> n < cnt then Some (UndoUnavailable cnt n stop) else None)"
proof -
  let ?c1 = "clearTransientSystemReminder (cx_log now (CR_undo cnt) c)"
  have h: "cx_history ?c1 = cx_history c" by (simp add: clearTransientSystemReminder_def)
  obtain ru st rem c2 where loop: "undo_loop (length (cx_history c)) cnt 0 [] ?c1 = (ru, st, rem, c2)"
    by (metis prod_cases4)
  from undo_loop_spec [OF loop, of keep n stop] assms(4) have
    spec: "cx_history c2 = rev keep" "ru = n" "st = stop" by (simp_all add: h)
  from undo_loop_props [OF loop] have "cx_agent c2 = logRecord now (CR_undo cnt) (cx_agent c)"
    by (simp add: clearTransientSystemReminder_def)
  then have "ag_restoring (cx_agent c2) = None" using assms(3) by simp
  with loop spec assms(1,2) show ?thesis
    by (simp add: undo_def h Let_def clearTransientSystemReminder_def)
qed

text \<open>
  C19: Undo does what its specification says, and tells. On a live conversation, undoing \<open>cnt\<close>
  prompts keeps exactly what the specification keeps (injected messages survive, nothing before a
  compaction summary is touched), closes every step and exchange, and fails precisely when fewer
  than \<open>cnt\<close> prompts could be taken back.
\<close>

theorem undo_meets_spec:
  assumes "cnt > 0" and "cx_history c \<noteq> []" and "ag_restoring (cx_agent c) = None"
    and "undo_spec cnt (rev (cx_history c)) = (keep, n, stop)"
  shows "let (err, c') = undo now cnt c in
    cx_history c' = rev keep \<and> cx_openSteps c' = [] \<and> cx_pending c' = [] \<and> cx_deferred c' = []
    \<and> err = (if stop \<or> n < cnt then Some (UndoUnavailable cnt n stop) else None)"
  using undo_result [OF assms] .

lemma undo_meets_spec_witness:
  "let c = run_ops cx_step new_context [(1, CxAppend (plain_user [TextPart ''a''] USER_PROMPT_ORIGIN)),
        (2, CxAppend (plain_user [TextPart ''b''] USER_PROMPT_ORIGIN))];
       (err, c') = undo 5 1 c
   in map fst (cx_history c') = [0] \<and> err = None"
proof -
  let ?a = "plain_user [TextPart ''a''] USER_PROMPT_ORIGIN" and ?b = "plain_user [TextPart ''b''] USER_PROMPT_ORIGIN"
  let ?c = "run_ops cx_step new_context [(1, CxAppend ?a), (2, CxAppend ?b)]"
  have c: "cx_history ?c = [(0, ?a), (1, ?b)]" "ag_restoring (cx_agent ?c) = None"
    by (simp_all add: appendMessage_def alloc_def hasOpenToolExchange_def new_context_def new_context_agent_def)
  have "undo_spec 1 (rev (cx_history ?c)) = ([(0, ?a)], 1, False)"
    unfolding c by (simp add: is_injection_def isCompactionSummaryMessage_def isRealUserInput_def
      compactionUserMessageDisposition_def plain_user_def USER_PROMPT_ORIGIN_def)
  from undo_meets_spec [OF _ _ c(2) this, of 5] show ?thesis
    by (auto simp: c(1) split_def Let_def simp del: run_ops_simps)
qed

section \<open>Compaction\<close>

text \<open>
  Compaction leaves a small, closed conversation: the kept user messages followed by one
  summary, no open step, exchange or deferred message, every message counted; and its size is the
  reported \<open>tokensAfter\<close>, at most 20001 tokens more than the summary's text.
\<close>

theorem compaction_shape:
  assumes "ag_restoring (cx_agent c) = None"
  shows "let (r, c') = applyCompaction now \<lparr>ci_summary = s, ci_contextSummary = cs, ci_compactedCount = k,
        ci_tokensBefore = b, ci_tokensAfter = None, ci_keptUserMessageCount = None, ci_droppedCount = d\<rparr> c;
       txt = (case cs of None \<Rightarrow> s | Some t \<Rightarrow> t)
   in map snd (cx_history c') = kept_user_entries c @ [plain_user [TextPart txt] (simple_origin OK_compaction_summary)]
      \<and> cx_openSteps c' = [] \<and> cx_pending c' = [] \<and> cx_deferred c' = [] \<and> cx_covered c' = length (cx_history c')
      \<and> tokenCountWithPending c' = cr_tokensAfter r
      \<and> cr_tokensAfter r \<le> int (estimateTokens txt) + 20001"
  using assms selected_within_budget [of "map snd (cx_history c)" COMPACT_USER_MESSAGE_MAX_TOKENS]
  by (simp add: applyCompaction_def Let_def tokenCountWithPending_def kept_user_entries_def
      COMPACT_USER_MESSAGE_MAX_TOKENS_def split: option.split)

lemma compaction_shape_witness:
  "map snd (cx_history (snd (applyCompaction 7 \<lparr>ci_summary = ''done'', ci_contextSummary = None,
      ci_compactedCount = 0, ci_tokensBefore = 0, ci_tokensAfter = None, ci_keptUserMessageCount = None,
      ci_droppedCount = None\<rparr> new_context)))
   = [plain_user [TextPart ''done''] (simple_origin OK_compaction_summary)]"
  using compaction_shape [of new_context 7 "''done''" None 0 0 None]
  by (simp add: Let_def split_def new_context_def new_context_agent_def kept_user_entries_def
      collectCompactableUserMessages_def selectRecentUserMessages_def)

section \<open>Where the log and the live conversation part\<close>

text \<open>
  \<open>popMatchedMessage\<close> takes a reminder out of the live history and records nothing: after a resume
  the reminder is back.
\<close>

lemma popped_reminder_returns_on_resume:
  "let c = cx_step new_context (1, CxAppend (plain_user [TextPart ''outcome''] (simple_origin (OK_system_trigger ''g''))));
       c' = snd (popMatchedMessage (\<lambda>og. True) c)
   in cx_history c' = [] \<and>
      map_option cx_history (foldl restore_context (Some new_context) (clog c')) = Some (cx_history c)
      \<and> cx_history c \<noteq> []"
  by (simp add: appendMessage_def alloc_def hasOpenToolExchange_def new_context_def new_context_agent_def
      popMatchedMessage_def restoring_at_def live_def logged_def cx_log_def logRecord_def pushHistory_def
      pushed_effects_def plain_user_def plain_def simple_origin_def replay_push_def Let_def)

text \<open>
  An event of a step that is not open is recorded before it is rejected, so every later resume
  rejects the record too, and stops there.
\<close>

lemma rejected_event_stops_every_resume:
  "let c = snd (appendLoopEvent 1 (ContentPartEvent ''s'' p) new_context)
   in fst (appendLoopEvent 1 (ContentPartEvent ''s'' p) new_context) = Some (UnknownStepForContentPart ''s'')
      \<and> foldl restore_context (Some new_context) (clog c) = None"
  by (simp add: appendLoopEvent_def new_context_def new_context_agent_def live_def logged_def cx_log_def
      logRecord_def restoring_at_def Let_def)

end
