(* ===== verification/Goal_Mode.thy ===== *)
theory Goal_Mode
  imports Agent_Records
begin

text \<open>
  The durable goal of an agent (\<open>packages/agent-core/src/agent/goal/index.ts\<close>): lifecycle,
  budgets, rewind checkpoints, and the record log it is rebuilt from.

  Every operation runs synchronously to its end, so \<open>Date.now()\<close> is one argument \<open>now\<close> of the
  operation (milliseconds; the clock does not tick inside an operation). \<open>randomUUID()\<close> and the
  configuration value \<open>loopControl.goalMaxTurns\<close> are arguments of \<open>createGoal\<close>. The thrown
  \<open>KimiError\<close> codes are the datatype \<open>goal_error\<close>. Telemetry calls are the events
  \<open>Track...\<close>, kept apart because they are not gated by restoring.
\<close>

section \<open>Data\<close>

datatype GoalStatus = G_active | G_paused | G_blocked | G_complete
datatype GoalActor = A_user | A_model | A_runtime | A_system

record GoalBudgetLimits =
  tokenBudget :: "int option"
  turnBudget :: "int option"
  wallClockBudgetMs :: "int option"

record GoalState =
  gs_goalId :: string
  gs_objective :: string
  gs_completionCriterion :: "string option"
  gs_status :: GoalStatus
  gs_turnsUsed :: int
  gs_tokensUsed :: int
  gs_wallClockMs :: ms
  gs_wallClockResumedAt :: "ms option"
  gs_budgetLimits :: GoalBudgetLimits
  gs_terminalReason :: "string option"

record GoalRewindSnapshot =
  rs_goalId :: string
  rs_objective :: string
  rs_completionCriterion :: "string option"
  rs_status :: GoalStatus
  rs_turnsUsed :: int
  rs_tokensUsed :: int
  rs_wallClockMs :: ms
  rs_budgetLimits :: GoalBudgetLimits
  rs_terminalReason :: "string option"

record GoalRewindCheckpoint =
  ck_snapshot :: "GoalRewindSnapshot option"
  ck_replayCheckpoint :: nat

record GoalBudgetReport =
  br_tokenBudget :: "int option"
  br_turnBudget :: "int option"
  br_wallClockBudgetMs :: "int option"
  remainingTokens :: "int option"
  remainingTurns :: "int option"
  remainingWallClockMs :: "int option"
  tokenBudgetReached :: bool
  turnBudgetReached :: bool
  wallClockBudgetReached :: bool
  overBudget :: bool

record GoalSnapshot =
  sn_goalId :: string
  sn_objective :: string
  sn_completionCriterion :: "string option"
  sn_status :: GoalStatus
  sn_turnsUsed :: int
  sn_tokensUsed :: int
  sn_wallClockMs :: ms
  sn_budget :: GoalBudgetReport
  sn_terminalReason :: "string option"

record GoalChangeStats =
  st_turnsUsed :: int
  st_tokensUsed :: int
  st_wallClockMs :: ms

text \<open>\<open>K_created\<close> only occurs in replay payloads (\<open>restoreCreate\<close>).\<close>

datatype GoalChangeKind = K_lifecycle | K_completion | K_created

record GoalChange =
  ch_kind :: GoalChangeKind
  ch_status :: "GoalStatus option"
  ch_reason :: "string option"
  ch_stats :: "GoalChangeStats option"
  ch_actor :: "GoalActor option"

record GoalUpdate =
  up_status :: "GoalStatus option"
  up_tokensUsed :: "int option"
  up_turnsUsed :: "int option"
  up_wallClockMs :: "ms option"
  up_budgetLimits :: "GoalBudgetLimits option"
  up_reason :: "string option"
  up_actor :: "GoalActor option"

datatype GoalRecord =
    R_create string string "string option"
  | R_update GoalUpdate
  | R_clear
  | R_rewind_checkpoint "GoalRewindSnapshot option"
  | R_rewind_checkpoint_discard
  | R_user_prompt
  | R_undo nat
  | R_forked
  | R_other

datatype GoalEvent =
    E_goal_updated "GoalSnapshot option" "GoalChange option"
  | E_status_updated

datatype GoalTrack =
    T_goal_created GoalActor bool
  | T_goal_cleared GoalActor
  | T_goal_continued int
  | T_goal_budget_set GoalActor bool bool bool
  | T_goal_status_changed GoalActor GoalStatus int int ms bool bool bool

datatype GoalReplay = P_goal_updated GoalSnapshot GoalChange

datatype goal_error =
    GOAL_OBJECTIVE_EMPTY | GOAL_OBJECTIVE_TOO_LONG | GOAL_ALREADY_EXISTS | GOAL_NOT_FOUND
  | GOAL_STATUS_INVALID GoalStatus | GOAL_NOT_RESUMABLE GoalStatus

type_synonym goal_agent = "(GoalRecord, GoalEvent, GoalReplay) agent"

record GoalMode =
  gm_agent :: goal_agent
  gm_hasModel :: bool
  gm_tracks :: "GoalTrack list"
  gm_reminders :: "(string \<times> string) list"
  gm_state :: "GoalState option"
  rewindCheckpoints :: "GoalRewindCheckpoint list"
  rewindCheckpointPrepared :: bool
  legacyRewindCheckpoint :: "GoalRewindCheckpoint option"

definition MAX_GOAL_OBJECTIVE_LENGTH :: nat where "MAX_GOAL_OBJECTIVE_LENGTH = 4000"

definition GOAL_CANCELLED_REMINDER :: string where
  "GOAL_CANCELLED_REMINDER = ''The user cancelled the current goal. Ignore earlier active-goal reminders for that goal. Handle the next user request normally unless the user starts or resumes a goal.''"

definition GOAL_FORK_CLEARED_REMINDER :: string where
  "GOAL_FORK_CLEARED_REMINDER = ''This fork does not have a current goal. Ignore earlier active-goal reminders from the source session. Handle requests normally unless the user starts a new goal.''"

section \<open>Pure helpers\<close>

definition no_limits :: GoalBudgetLimits where
  "no_limits = \<lparr>tokenBudget = None, turnBudget = None, wallClockBudgetMs = None\<rparr>"

definition configuredGoalBudget :: "int option \<Rightarrow> GoalBudgetLimits" where
  "configuredGoalBudget maxTurns =
     (case maxTurns of
        Some n \<Rightarrow> if n > 0 then no_limits\<lparr>turnBudget := Some n\<rparr> else no_limits
      | None \<Rightarrow> no_limits)"

definition liveWallClockMs :: "GoalState \<Rightarrow> ms \<Rightarrow> ms" where
  "liveWallClockMs state now =
     (case gs_wallClockResumedAt state of
        Some resumed \<Rightarrow>
          if gs_status state = G_active then gs_wallClockMs state + max 0 (now - resumed)
          else gs_wallClockMs state
      | None \<Rightarrow> gs_wallClockMs state)"

definition stateFromRewindSnapshot :: "ms \<Rightarrow> GoalRewindSnapshot option \<Rightarrow> GoalState option" where
  "stateFromRewindSnapshot now snapshot =
     (case snapshot of
        None \<Rightarrow> None
      | Some s \<Rightarrow> Some
          \<lparr>gs_goalId = rs_goalId s, gs_objective = rs_objective s,
           gs_completionCriterion = rs_completionCriterion s, gs_status = rs_status s,
           gs_turnsUsed = rs_turnsUsed s, gs_tokensUsed = rs_tokensUsed s,
           gs_wallClockMs = rs_wallClockMs s,
           gs_wallClockResumedAt = (if rs_status s = G_active then Some now else None),
           gs_budgetLimits = rs_budgetLimits s, gs_terminalReason = rs_terminalReason s\<rparr>)"

definition computeBudgetReport :: "GoalState \<Rightarrow> ms \<Rightarrow> GoalBudgetReport" where
  "computeBudgetReport state now =
     (let limits = gs_budgetLimits state;
          tok = tokenBudget limits; trn = turnBudget limits; wall = wallClockBudgetMs limits;
          wallClockMs = liveWallClockMs state now;
          tokReached = (case tok of None \<Rightarrow> False | Some b \<Rightarrow> gs_tokensUsed state \<ge> b);
          trnReached = (case trn of None \<Rightarrow> False | Some b \<Rightarrow> gs_turnsUsed state \<ge> b);
          wallReached = (case wall of None \<Rightarrow> False | Some b \<Rightarrow> wallClockMs \<ge> b)
      in \<lparr>br_tokenBudget = tok, br_turnBudget = trn, br_wallClockBudgetMs = wall,
          remainingTokens = map_option (\<lambda>b. max 0 (b - gs_tokensUsed state)) tok,
          remainingTurns = map_option (\<lambda>b. max 0 (b - gs_turnsUsed state)) trn,
          remainingWallClockMs = map_option (\<lambda>b. max 0 (b - wallClockMs)) wall,
          tokenBudgetReached = tokReached, turnBudgetReached = trnReached,
          wallClockBudgetReached = wallReached,
          overBudget = (tokReached \<or> trnReached \<or> wallReached)\<rparr>)"

definition normalizeCompletionCriterion :: "string option \<Rightarrow> string option" where
  "normalizeCompletionCriterion value =
     (case value of
        None \<Rightarrow> None
      | Some v \<Rightarrow> if js_trim v = [] then None else Some (js_trim v))"

definition toSnapshot :: "ms \<Rightarrow> GoalState \<Rightarrow> GoalSnapshot" where
  "toSnapshot now state =
     \<lparr>sn_goalId = gs_goalId state, sn_objective = gs_objective state,
      sn_completionCriterion = gs_completionCriterion state, sn_status = gs_status state,
      sn_turnsUsed = gs_turnsUsed state, sn_tokensUsed = gs_tokensUsed state,
      sn_wallClockMs = liveWallClockMs state now, sn_budget = computeBudgetReport state now,
      sn_terminalReason = gs_terminalReason state\<rparr>"

definition statsOf :: "ms \<Rightarrow> GoalState \<Rightarrow> GoalChangeStats" where
  "statsOf now state =
     \<lparr>st_turnsUsed = gs_turnsUsed state, st_tokensUsed = gs_tokensUsed state,
      st_wallClockMs = liveWallClockMs state now\<rparr>"

text \<open>Leaving \<open>active\<close> folds the running interval into the total; entering it anchors a new one.\<close>

definition applyStatus :: "ms \<Rightarrow> GoalStatus \<Rightarrow> GoalState \<Rightarrow> GoalState" where
  "applyStatus now status state =
     (let s1 = (case gs_wallClockResumedAt state of
                  Some resumed \<Rightarrow>
                    if gs_status state = G_active
                    then state\<lparr>gs_wallClockMs := gs_wallClockMs state + max 0 (now - resumed),
                               gs_wallClockResumedAt := None\<rparr>
                    else state
                | None \<Rightarrow> state);
          s2 = (if status = G_active then s1\<lparr>gs_wallClockResumedAt := Some now\<rparr> else s1)
      in s2\<lparr>gs_status := status\<rparr>)"

definition lifecycle_change :: "GoalStatus \<Rightarrow> string option \<Rightarrow> GoalActor \<Rightarrow> GoalChange" where
  "lifecycle_change status reason actor =
     \<lparr>ch_kind = K_lifecycle, ch_status = Some status, ch_reason = reason, ch_stats = None,
      ch_actor = Some actor\<rparr>"

definition completion_change :: "GoalStatus \<Rightarrow> string option \<Rightarrow> GoalChangeStats \<Rightarrow> GoalActor option \<Rightarrow> GoalChange" where
  "completion_change status reason stats actor =
     \<lparr>ch_kind = K_completion, ch_status = Some status, ch_reason = reason, ch_stats = Some stats,
      ch_actor = actor\<rparr>"

definition no_update :: GoalUpdate where
  "no_update = \<lparr>up_status = None, up_tokensUsed = None, up_turnsUsed = None, up_wallClockMs = None,
     up_budgetLimits = None, up_reason = None, up_actor = None\<rparr>"

section \<open>Effects\<close>

abbreviation on_agent :: "(goal_agent \<Rightarrow> goal_agent) \<Rightarrow> GoalMode \<Rightarrow> GoalMode" where
  "on_agent f g \<equiv> g\<lparr>gm_agent := f (gm_agent g)\<rparr>"

definition track :: "GoalTrack \<Rightarrow> GoalMode \<Rightarrow> GoalMode" where
  "track t g = g\<lparr>gm_tracks := gm_tracks g @ [t]\<rparr>"

definition emitStatusUpdated :: "GoalMode \<Rightarrow> GoalMode" where
  "emitStatusUpdated g = (if gm_hasModel g then on_agent (emitEvent E_status_updated) g else g)"

definition emitGoalUpdated :: "GoalSnapshot option \<Rightarrow> GoalChange option \<Rightarrow> GoalMode \<Rightarrow> GoalMode" where
  "emitGoalUpdated snapshot change g = on_agent (emitEvent (E_goal_updated snapshot change)) g"

definition persistState :: "ms \<Rightarrow> bool \<Rightarrow> GoalChange option \<Rightarrow> GoalState option \<Rightarrow> GoalMode \<Rightarrow> GoalMode" where
  "persistState now silent change state g =
     (let g1 = g\<lparr>gm_state := state\<rparr>
      in if silent then g1 else emitGoalUpdated (map_option (toSnapshot now) state) change g1)"

definition appendGoalUpdate :: "ms \<Rightarrow> GoalUpdate \<Rightarrow> GoalMode \<Rightarrow> GoalMode" where
  "appendGoalUpdate now u g = on_agent (logRecord now (R_update u)) g"

definition appendStatusUpdate :: "ms \<Rightarrow> GoalState \<Rightarrow> GoalActor \<Rightarrow> string option \<Rightarrow> GoalMode \<Rightarrow> GoalMode" where
  "appendStatusUpdate now state actor reason g =
     (let wall = liveWallClockMs state now; limits = gs_budgetLimits state;
          g1 = appendGoalUpdate now
                 (no_update\<lparr>up_status := Some (gs_status state), up_reason := reason,
                            up_wallClockMs := Some wall, up_actor := Some actor\<rparr>) g
      in track (T_goal_status_changed actor (gs_status state) (gs_turnsUsed state) (gs_tokensUsed state)
                  wall (tokenBudget limits \<noteq> None) (turnBudget limits \<noteq> None)
                  (wallClockBudgetMs limits \<noteq> None)) g1)"

definition clearInternal :: "ms \<Rightarrow> GoalActor \<Rightarrow> bool \<Rightarrow> bool \<Rightarrow> GoalMode \<Rightarrow> GoalMode" where
  "clearInternal now actor emit tracked g =
     (case gm_state g of
        None \<Rightarrow> g
      | Some state \<Rightarrow>
          (let g1 = persistState now (\<not> emit) None None g;
               g2 = on_agent (logRecord now R_clear) g1
           in if tracked then track (T_goal_cleared actor) g2 else g2))"

section \<open>Reads and rewind snapshots\<close>

definition getGoal :: "ms \<Rightarrow> GoalMode \<Rightarrow> GoalSnapshot option" where
  "getGoal now g = map_option (toSnapshot now) (gm_state g)"

definition getActiveGoal :: "ms \<Rightarrow> GoalMode \<Rightarrow> GoalSnapshot option" where
  "getActiveGoal now g =
     (case gm_state g of
        None \<Rightarrow> None
      | Some state \<Rightarrow> if gs_status state \<noteq> G_active then None else Some (toSnapshot now state))"

definition rewindSnapshot :: "ms \<Rightarrow> GoalMode \<Rightarrow> GoalRewindSnapshot option" where
  "rewindSnapshot now g =
     (case gm_state g of
        None \<Rightarrow> None
      | Some state \<Rightarrow> Some
          \<lparr>rs_goalId = gs_goalId state, rs_objective = gs_objective state,
           rs_completionCriterion = gs_completionCriterion state, rs_status = gs_status state,
           rs_turnsUsed = gs_turnsUsed state, rs_tokensUsed = gs_tokensUsed state,
           rs_wallClockMs = liveWallClockMs state now, rs_budgetLimits = gs_budgetLimits state,
           rs_terminalReason = gs_terminalReason state\<rparr>)"

definition checkpoint_now :: "ms \<Rightarrow> GoalMode \<Rightarrow> GoalRewindCheckpoint" where
  "checkpoint_now now g =
     \<lparr>ck_snapshot = rewindSnapshot now g, ck_replayCheckpoint = rb_checkpoint (ag_replay (gm_agent g))\<rparr>"

definition prepareRewindCheckpoint :: "ms \<Rightarrow> GoalMode \<Rightarrow> GoalMode" where
  "prepareRewindCheckpoint now g =
     (if rewindCheckpointPrepared g then g
      else let snapshot = rewindSnapshot now g;
               g1 = on_agent (logRecord now (R_rewind_checkpoint snapshot)) g;
               ck = \<lparr>ck_snapshot = snapshot, ck_replayCheckpoint = rb_checkpoint (ag_replay (gm_agent g1))\<rparr>
           in g1\<lparr>rewindCheckpoints := rewindCheckpoints g1 @ [ck], rewindCheckpointPrepared := True\<rparr>)"

definition prepareLegacyRewindCheckpoint :: "ms \<Rightarrow> GoalMode \<Rightarrow> GoalMode" where
  "prepareLegacyRewindCheckpoint now g =
     (if rewindCheckpointPrepared g \<or> legacyRewindCheckpoint g \<noteq> None then g
      else g\<lparr>legacyRewindCheckpoint := Some (checkpoint_now now g)\<rparr>)"

definition discardLegacyRewindCheckpoint :: "GoalMode \<Rightarrow> GoalMode" where
  "discardLegacyRewindCheckpoint g = g\<lparr>legacyRewindCheckpoint := None\<rparr>"

definition beginRewindablePrompt :: "ms \<Rightarrow> bool \<Rightarrow> GoalMode \<Rightarrow> GoalMode" where
  "beginRewindablePrompt now useLegacyCheckpoint g =
     (let g1 = (if \<not> rewindCheckpointPrepared g
                then let next = (case (if useLegacyCheckpoint then legacyRewindCheckpoint g else None) of
                                   Some ck \<Rightarrow> ck
                                 | None \<Rightarrow> checkpoint_now now g);
                         g' = on_agent (logRecord now (R_rewind_checkpoint (ck_snapshot next))) g
                     in g'\<lparr>rewindCheckpoints := rewindCheckpoints g' @ [next]\<rparr>
                else g)
      in g1\<lparr>legacyRewindCheckpoint := None, rewindCheckpointPrepared := False\<rparr>)"

text \<open>The goal a checkpoint holds becomes the current one; the transcript is cut back to it.\<close>

definition reset_to :: "ms \<Rightarrow> GoalRewindCheckpoint \<Rightarrow> GoalMode \<Rightarrow> GoalMode" where
  "reset_to now ck g =
     on_agent (replay_truncate (ck_replayCheckpoint ck))
       (g\<lparr>gm_state := stateFromRewindSnapshot now (ck_snapshot ck)\<rparr>)"

definition discardRewindCheckpoint :: "ms \<Rightarrow> GoalMode \<Rightarrow> GoalMode" where
  "discardRewindCheckpoint now g =
     (if \<not> rewindCheckpointPrepared g then g
      else if rewindCheckpoints g = [] then g\<lparr>rewindCheckpointPrepared := False\<rparr>
      else let ck = last (rewindCheckpoints g);
               g1 = on_agent (logRecord now R_rewind_checkpoint_discard) g;
               g2 = reset_to now ck (g1\<lparr>rewindCheckpoints := butlast (rewindCheckpoints g1)\<rparr>);
               g3 = g2\<lparr>legacyRewindCheckpoint := None, rewindCheckpointPrepared := False\<rparr>
           in emitStatusUpdated (emitGoalUpdated (getGoal now g3) None g3))"

definition restoreRewindCheckpointDiscard :: "ms \<Rightarrow> GoalMode \<Rightarrow> GoalMode" where
  "restoreRewindCheckpointDiscard now g =
     (let g1 = (if rewindCheckpoints g = [] then g
                else reset_to now (last (rewindCheckpoints g))
                       (g\<lparr>rewindCheckpoints := butlast (rewindCheckpoints g)\<rparr>))
      in g1\<lparr>legacyRewindCheckpoint := None, rewindCheckpointPrepared := False\<rparr>)"

definition restoreRewindCheckpoint :: "ms \<Rightarrow> GoalRewindSnapshot option \<Rightarrow> GoalMode \<Rightarrow> GoalMode" where
  "restoreRewindCheckpoint now snapshot g =
     (let g1 = (if rewindCheckpointPrepared g then restoreRewindCheckpointDiscard now g else g);
          ck = \<lparr>ck_snapshot = snapshot, ck_replayCheckpoint = rb_checkpoint (ag_replay (gm_agent g1))\<rparr>
      in g1\<lparr>rewindCheckpoints := rewindCheckpoints g1 @ [ck], rewindCheckpointPrepared := True\<rparr>)"

definition finishReplay :: "ms \<Rightarrow> GoalMode \<Rightarrow> GoalMode" where
  "finishReplay now g =
     (let g1 = g\<lparr>legacyRewindCheckpoint := None\<rparr>
      in if rewindCheckpointPrepared g1 then restoreRewindCheckpointDiscard now g1 else g1)"

definition rewind :: "ms \<Rightarrow> nat \<Rightarrow> GoalMode \<Rightarrow> GoalMode" where
  "rewind now cnt g =
     (if cnt = 0 \<or> length (rewindCheckpoints g) < cnt then g
      else let targetIndex = length (rewindCheckpoints g) - cnt;
               ck = rewindCheckpoints g ! targetIndex;
               g1 = reset_to now ck g;
               g2 = g1\<lparr>rewindCheckpoints := take targetIndex (rewindCheckpoints g1),
                       legacyRewindCheckpoint := None, rewindCheckpointPrepared := False\<rparr>
           in emitStatusUpdated (emitGoalUpdated (getGoal now g2) None g2))"

section \<open>Restoring records\<close>

definition restoreCreate :: "ms \<Rightarrow> string \<Rightarrow> string \<Rightarrow> string option \<Rightarrow> GoalMode \<Rightarrow> GoalMode" where
  "restoreCreate now goalId objective criterion g =
     (let state = \<lparr>gs_goalId = goalId, gs_objective = objective, gs_completionCriterion = criterion,
            gs_status = G_active, gs_turnsUsed = 0, gs_tokensUsed = 0, gs_wallClockMs = 0,
            gs_wallClockResumedAt = None, gs_budgetLimits = no_limits, gs_terminalReason = None\<rparr>
      in on_agent (replay_push now (P_goal_updated (toSnapshot now state)
             \<lparr>ch_kind = K_created, ch_status = None, ch_reason = None, ch_stats = None, ch_actor = None\<rparr>))
           (g\<lparr>gm_state := Some state\<rparr>))"

definition restored_state :: "GoalUpdate \<Rightarrow> GoalState \<Rightarrow> GoalState" where
  "restored_state r s =
     (let s1 = (case up_status r of
                  None \<Rightarrow> s
                | Some st \<Rightarrow> s\<lparr>gs_status := st, gs_wallClockResumedAt := None,
                     gs_terminalReason := (if st = G_active then None else up_reason r)\<rparr>);
          s2 = (case up_turnsUsed r of None \<Rightarrow> s1 | Some n \<Rightarrow> s1\<lparr>gs_turnsUsed := n\<rparr>);
          s3 = (case up_tokensUsed r of None \<Rightarrow> s2 | Some n \<Rightarrow> s2\<lparr>gs_tokensUsed := n\<rparr>);
          s4 = (case up_wallClockMs r of None \<Rightarrow> s3
                | Some n \<Rightarrow> s3\<lparr>gs_wallClockMs := n, gs_wallClockResumedAt := None\<rparr>)
      in (case up_budgetLimits r of None \<Rightarrow> s4 | Some l \<Rightarrow> s4\<lparr>gs_budgetLimits := l\<rparr>))"

definition restoreUpdate :: "ms \<Rightarrow> GoalUpdate \<Rightarrow> GoalMode \<Rightarrow> GoalMode" where
  "restoreUpdate now r g =
     (case gm_state g of
        None \<Rightarrow> g
      | Some s \<Rightarrow>
          (let s' = restored_state r s; g1 = g\<lparr>gm_state := Some s'\<rparr>
           in case up_status r of
                None \<Rightarrow> g1
              | Some st \<Rightarrow>
                  on_agent (replay_push now (P_goal_updated (toSnapshot now s')
                    (if st = G_complete
                     then completion_change st (up_reason r) (statsOf now s') (up_actor r)
                     else \<lparr>ch_kind = K_lifecycle, ch_status = Some st, ch_reason = up_reason r,
                           ch_stats = None, ch_actor = up_actor r\<rparr>))) g1))"

definition restoreClear :: "GoalMode \<Rightarrow> GoalMode" where
  "restoreClear g = g\<lparr>gm_state := None\<rparr>"

definition restoreForked :: "GoalMode \<Rightarrow> GoalMode" where
  "restoreForked g =
     (let hadGoal = (gm_state g \<noteq> None);
          g1 = g\<lparr>gm_state := None, rewindCheckpoints := [], legacyRewindCheckpoint := None,
                 rewindCheckpointPrepared := False\<rparr>
      in if \<not> hadGoal then g1
         else g1\<lparr>gm_reminders := gm_reminders g1 @ [(GOAL_FORK_CLEARED_REMINDER, ''goal_fork_cleared'')]\<rparr>)"

definition normalizeAfterReplay :: "ms \<Rightarrow> GoalMode \<Rightarrow> GoalMode" where
  "normalizeAfterReplay now g =
     (case gm_state g of
        None \<Rightarrow> g
      | Some s0 \<Rightarrow>
          (let s = s0\<lparr>gs_wallClockResumedAt := None\<rparr>; g1 = g\<lparr>gm_state := Some s\<rparr>
           in if gs_status s = G_complete then clearInternal now A_runtime False False g1
              else if gs_status s = G_active then
                (let reason = ''Paused after agent resume'';
                     s' = (applyStatus now G_paused s)\<lparr>gs_terminalReason := Some reason\<rparr>
                 in appendStatusUpdate now s' A_runtime (Some reason) (persistState now True None (Some s') g1))
              else g1))"

text \<open>
  \<open>restoreAgentRecord\<close> restricted to the records that reach the goal, with the bookkeeping of
  \<open>AgentRecords.restore\<close> for logs written before rewind checkpoints existed: \<open>prev_legacy\<close>
  says whether the record restored before was a goal record.
\<close>

definition is_legacy_goal_record :: "GoalRecord \<Rightarrow> bool" where
  "is_legacy_goal_record r =
     (case r of R_create _ _ _ \<Rightarrow> True | R_update _ \<Rightarrow> True | R_clear \<Rightarrow> True | _ \<Rightarrow> False)"

fun restoreAgentRecord :: "ms \<Rightarrow> bool \<Rightarrow> GoalRecord \<Rightarrow> GoalMode \<Rightarrow> GoalMode" where
  "restoreAgentRecord now lg (R_create i ob c) g = restoreCreate now i ob c g"
| "restoreAgentRecord now lg (R_update u) g = restoreUpdate now u g"
| "restoreAgentRecord now lg R_clear g = restoreClear g"
| "restoreAgentRecord now lg (R_rewind_checkpoint sn) g = restoreRewindCheckpoint now sn g"
| "restoreAgentRecord now lg R_rewind_checkpoint_discard g = restoreRewindCheckpointDiscard now g"
| "restoreAgentRecord now lg R_user_prompt g = beginRewindablePrompt now lg g"
| "restoreAgentRecord now lg (R_undo n) g = rewind now n g"
| "restoreAgentRecord now lg R_forked g = restoreForked g"
| "restoreAgentRecord now lg R_other g = g"

definition restore :: "ms \<Rightarrow> bool \<Rightarrow> GoalRecord \<Rightarrow> GoalMode \<Rightarrow> GoalMode \<times> bool" where
  "restore now prev_legacy r g =
     (let g1 = on_agent (\<lambda>a. a\<lparr>ag_restoring := Some now\<rparr>) g;
          isLegacy = is_legacy_goal_record r;
          isUserPrompt = (r = R_user_prompt);
          g2 = (if isLegacy
                then prepareLegacyRewindCheckpoint now
                       (if \<not> prev_legacy then discardLegacyRewindCheckpoint g1 else g1)
                else if \<not> isUserPrompt \<or> \<not> prev_legacy then discardLegacyRewindCheckpoint g1
                else g1);
          g3 = restoreAgentRecord now (isUserPrompt \<and> prev_legacy) r g2
      in (on_agent (\<lambda>a. a\<lparr>ag_restoring := None\<rparr>) g3, isLegacy))"

section \<open>Creation and lifecycle\<close>

definition createGoal ::
  "ms \<Rightarrow> string \<Rightarrow> int option \<Rightarrow> string \<Rightarrow> string option \<Rightarrow> bool \<Rightarrow> GoalActor \<Rightarrow> GoalMode \<Rightarrow>
   (goal_error + GoalSnapshot) \<times> GoalMode" where
  "createGoal now uuid goalMaxTurns raw_objective criterion replace actor g =
     (let objective = js_trim raw_objective
      in if length objective = 0 then (Inl GOAL_OBJECTIVE_EMPTY, g)
         else if length objective > MAX_GOAL_OBJECTIVE_LENGTH then (Inl GOAL_OBJECTIVE_TOO_LONG, g)
         else if gm_state g \<noteq> None \<and> \<not> replace then (Inl GOAL_ALREADY_EXISTS, g)
         else
           let g1 = (if gm_state g \<noteq> None then clearInternal now A_system True True g else g);
               state = \<lparr>gs_goalId = uuid, gs_objective = objective,
                 gs_completionCriterion = normalizeCompletionCriterion criterion,
                 gs_status = G_active, gs_turnsUsed = 0, gs_tokensUsed = 0, gs_wallClockMs = 0,
                 gs_wallClockResumedAt = Some now, gs_budgetLimits = configuredGoalBudget goalMaxTurns,
                 gs_terminalReason = None\<rparr>;
               g2 = persistState now False None (Some state) g1;
               g3 = on_agent (logRecord now (R_create uuid objective (gs_completionCriterion state))) g2;
               g4 = (if turnBudget (gs_budgetLimits state) \<noteq> None
                     then appendGoalUpdate now (no_update\<lparr>up_budgetLimits := Some (gs_budgetLimits state)\<rparr>) g3
                     else g3);
               g5 = track (T_goal_created actor replace) g4
           in (Inr (toSnapshot now state), g5))"

text \<open>The common tail of the status setters: apply, note the reason, emit, log, report.\<close>

definition stop_with :: "ms \<Rightarrow> GoalStatus \<Rightarrow> string option \<Rightarrow> GoalActor \<Rightarrow> GoalState \<Rightarrow> GoalMode \<Rightarrow>
    GoalSnapshot \<times> GoalMode" where
  "stop_with now status reason actor state g =
     (let s = (applyStatus now status state)\<lparr>gs_terminalReason := reason\<rparr>;
          g1 = persistState now False (Some (lifecycle_change status reason actor)) (Some s) g;
          g2 = appendStatusUpdate now s actor reason g1
      in (toSnapshot now s, g2))"

definition pauseGoal :: "ms \<Rightarrow> string option \<Rightarrow> GoalActor \<Rightarrow> GoalMode \<Rightarrow> (goal_error + GoalSnapshot) \<times> GoalMode" where
  "pauseGoal now reason actor g =
     (case gm_state g of
        None \<Rightarrow> (Inl GOAL_NOT_FOUND, g)
      | Some state \<Rightarrow>
          if gs_status state = G_paused then (Inr (toSnapshot now state), g)
          else if gs_status state \<noteq> G_active then (Inl (GOAL_STATUS_INVALID (gs_status state)), g)
          else apfst Inr (stop_with now G_paused reason actor state g))"

definition pauseActiveGoal :: "ms \<Rightarrow> string option \<Rightarrow> GoalActor \<Rightarrow> GoalMode \<Rightarrow> GoalSnapshot option \<times> GoalMode" where
  "pauseActiveGoal now reason actor g =
     (case gm_state g of
        None \<Rightarrow> (None, g)
      | Some state \<Rightarrow>
          if gs_status state \<noteq> G_active then (None, g)
          else apfst Some (stop_with now G_paused reason actor state g))"

definition resumeGoal :: "ms \<Rightarrow> string option \<Rightarrow> GoalActor \<Rightarrow> GoalMode \<Rightarrow> (goal_error + GoalSnapshot) \<times> GoalMode" where
  "resumeGoal now reason actor g =
     (case gm_state g of
        None \<Rightarrow> (Inl GOAL_NOT_FOUND, g)
      | Some state \<Rightarrow>
          if gs_status state = G_active then (Inr (toSnapshot now state), g)
          else if gs_status state \<noteq> G_paused \<and> gs_status state \<noteq> G_blocked
          then (Inl (GOAL_NOT_RESUMABLE (gs_status state)), g)
          else let s = applyStatus now G_active (state\<lparr>gs_terminalReason := None\<rparr>);
                   g1 = persistState now False (Some (lifecycle_change G_active reason actor)) (Some s) g;
                   g2 = appendStatusUpdate now s actor reason g1
               in (Inr (toSnapshot now s), g2))"

text \<open>
  The patch of \<open>setBudgetLimits\<close> as \<open>{ ...a, ...b }\<close> sees it: an absent key is \<open>None\<close>, a
  present one \<open>Some v\<close>, where \<open>v\<close> may itself be \<open>undefined\<close>.
\<close>

record BudgetPatch =
  pt_tokenBudget :: "int option option"
  pt_turnBudget :: "int option option"
  pt_wallClockBudgetMs :: "int option option"

definition spread :: "'a option \<Rightarrow> 'a option option \<Rightarrow> 'a option" where
  "spread old new = (case new of None \<Rightarrow> old | Some v \<Rightarrow> v)"

definition patched_limits :: "GoalBudgetLimits \<Rightarrow> BudgetPatch \<Rightarrow> GoalBudgetLimits" where
  "patched_limits l p =
     \<lparr>tokenBudget = spread (tokenBudget l) (pt_tokenBudget p),
      turnBudget = spread (turnBudget l) (pt_turnBudget p),
      wallClockBudgetMs = spread (wallClockBudgetMs l) (pt_wallClockBudgetMs p)\<rparr>"

definition setBudgetLimits :: "ms \<Rightarrow> BudgetPatch \<Rightarrow> GoalActor \<Rightarrow> GoalMode \<Rightarrow> (goal_error + GoalSnapshot) \<times> GoalMode" where
  "setBudgetLimits now p actor g =
     (case gm_state g of
        None \<Rightarrow> (Inl GOAL_NOT_FOUND, g)
      | Some state \<Rightarrow>
          (let s = state\<lparr>gs_budgetLimits := patched_limits (gs_budgetLimits state) p\<rparr>;
               g1 = persistState now False None (Some s) g;
               g2 = appendGoalUpdate now (no_update\<lparr>up_budgetLimits := Some (gs_budgetLimits s)\<rparr>) g1;
               g3 = track (T_goal_budget_set actor (spread None (pt_tokenBudget p) \<noteq> None)
                       (spread None (pt_turnBudget p) \<noteq> None)
                       (spread None (pt_wallClockBudgetMs p) \<noteq> None)) g2
           in (Inr (toSnapshot now s), g3)))"

definition cancelGoal :: "ms \<Rightarrow> GoalActor \<Rightarrow> GoalMode \<Rightarrow> (goal_error + GoalSnapshot) \<times> GoalMode" where
  "cancelGoal now actor g =
     (case gm_state g of
        None \<Rightarrow> (Inl GOAL_NOT_FOUND, g)
      | Some state \<Rightarrow>
          (let snapshot = toSnapshot now state;
               g1 = clearInternal now actor True True g;
               g2 = (if actor = A_user
                     then g1\<lparr>gm_reminders := gm_reminders g1 @ [(GOAL_CANCELLED_REMINDER, ''goal_cancelled'')]\<rparr>
                     else g1)
           in (Inr snapshot, g2)))"

definition markBlocked :: "ms \<Rightarrow> string option \<Rightarrow> GoalActor \<Rightarrow> GoalMode \<Rightarrow> GoalSnapshot option \<times> GoalMode" where
  "markBlocked now reason actor g =
     (case gm_state g of
        None \<Rightarrow> (None, g)
      | Some state \<Rightarrow>
          if gs_status state \<noteq> G_active then (None, g)
          else apfst Some (stop_with now G_blocked reason actor state g))"

definition markComplete :: "ms \<Rightarrow> string option \<Rightarrow> GoalActor \<Rightarrow> GoalMode \<Rightarrow> GoalSnapshot option \<times> GoalMode" where
  "markComplete now reason actor g =
     (case gm_state g of
        None \<Rightarrow> (None, g)
      | Some state \<Rightarrow>
          if gs_status state \<noteq> G_active then (None, g)
          else let s = (applyStatus now G_complete state)\<lparr>gs_terminalReason := reason\<rparr>;
                   snapshot = toSnapshot now s;
                   g1 = appendStatusUpdate now s actor reason (g\<lparr>gm_state := Some s\<rparr>);
                   g2 = emitGoalUpdated (Some snapshot)
                          (Some (completion_change G_complete reason (statsOf now s) (Some actor))) g1;
                   g3 = clearInternal now actor True True g2
               in (Some snapshot, g3))"

definition pauseOnInterrupt :: "ms \<Rightarrow> string option \<Rightarrow> GoalMode \<Rightarrow> GoalSnapshot option \<times> GoalMode" where
  "pauseOnInterrupt now reason g = pauseActiveGoal now reason A_user g"

definition recordTokenUsage :: "ms \<Rightarrow> int \<Rightarrow> GoalMode \<Rightarrow> GoalSnapshot option \<times> GoalMode" where
  "recordTokenUsage now tokenDelta g =
     (case gm_state g of
        None \<Rightarrow> (None, g)
      | Some state \<Rightarrow>
          if gs_status state \<noteq> G_active then (None, g)
          else let s = state\<lparr>gs_tokensUsed := gs_tokensUsed state + max 0 tokenDelta\<rparr>;
                   g1 = persistState now True None (Some s) g;
                   g2 = appendGoalUpdate now (no_update\<lparr>up_tokensUsed := Some (gs_tokensUsed s)\<rparr>) g1
               in (Some (toSnapshot now s), g2))"

definition incrementTurn :: "ms \<Rightarrow> GoalMode \<Rightarrow> GoalSnapshot option \<times> GoalMode" where
  "incrementTurn now g =
     (case gm_state g of
        None \<Rightarrow> (None, g)
      | Some state \<Rightarrow>
          if gs_status state \<noteq> G_active then (None, g)
          else let s = state\<lparr>gs_turnsUsed := gs_turnsUsed state + 1\<rparr>;
                   g1 = persistState now False None (Some s) g;
                   g2 = appendGoalUpdate now (no_update\<lparr>up_turnsUsed := Some (gs_turnsUsed s)\<rparr>) g1;
                   g3 = track (T_goal_continued (gs_turnsUsed s)) g2
               in (Some (toSnapshot now s), g3))"

end
