(* ===== verification/Goal_Facts.thy ===== *)
theory Goal_Facts
  imports Goal_Mode
begin

text \<open>
  What the goal component promises: an invariant of its state, the arithmetic of its budgets and
  clock, and that the record log rebuilds it. The operations of the component are collected in
  \<open>GoalOp\<close> and run by \<open>goal_step\<close>.
\<close>

section \<open>Operations as a step function\<close>

datatype GoalOp =
    Op_create string "int option" string "string option" bool GoalActor
  | Op_pause "string option" GoalActor
  | Op_pauseActive "string option" GoalActor
  | Op_resume "string option" GoalActor
  | Op_setBudget BudgetPatch GoalActor
  | Op_cancel GoalActor
  | Op_block "string option" GoalActor
  | Op_complete "string option" GoalActor
  | Op_tokens int
  | Op_turn
  | Op_prepare
  | Op_prompt
  | Op_discard
  | Op_undo nat
  | Op_normalize

fun goal_step :: "GoalMode \<Rightarrow> ms \<times> GoalOp \<Rightarrow> GoalMode" where
  "goal_step g (now, Op_create u m ob c rp a) = snd (createGoal now u m ob c rp a g)"
| "goal_step g (now, Op_pause r a) = snd (pauseGoal now r a g)"
| "goal_step g (now, Op_pauseActive r a) = snd (pauseActiveGoal now r a g)"
| "goal_step g (now, Op_resume r a) = snd (resumeGoal now r a g)"
| "goal_step g (now, Op_setBudget p a) = snd (setBudgetLimits now p a g)"
| "goal_step g (now, Op_cancel a) = snd (cancelGoal now a g)"
| "goal_step g (now, Op_block r a) = snd (markBlocked now r a g)"
| "goal_step g (now, Op_complete r a) = snd (markComplete now r a g)"
| "goal_step g (now, Op_tokens d) = snd (recordTokenUsage now d g)"
| "goal_step g (now, Op_turn) = snd (incrementTurn now g)"
| "goal_step g (now, Op_prepare) = prepareRewindCheckpoint now g"
| "goal_step g (now, Op_prompt) =
     on_agent (logRecord now R_user_prompt) (beginRewindablePrompt now False g)"
| "goal_step g (now, Op_discard) = discardRewindCheckpoint now g"
| "goal_step g (now, Op_undo n) = rewind now n (on_agent (logRecord now (R_undo n)) g)"
| "goal_step g (now, Op_normalize) = normalizeAfterReplay now g"

section \<open>Field access of the effects\<close>

lemma effect_frame [simp]:
  "gm_state (track t g) = gm_state g"
  "rewindCheckpoints (track t g) = rewindCheckpoints g"
  "rewindCheckpointPrepared (track t g) = rewindCheckpointPrepared g"
  "gm_agent (track t g) = gm_agent g"
  "gm_state (emitStatusUpdated g) = gm_state g"
  "rewindCheckpoints (emitStatusUpdated g) = rewindCheckpoints g"
  "rewindCheckpointPrepared (emitStatusUpdated g) = rewindCheckpointPrepared g"
  "gm_state (emitGoalUpdated sn c g) = gm_state g"
  "rewindCheckpoints (emitGoalUpdated sn c g) = rewindCheckpoints g"
  "rewindCheckpointPrepared (emitGoalUpdated sn c g) = rewindCheckpointPrepared g"
  "gm_state (appendGoalUpdate now u g) = gm_state g"
  "rewindCheckpoints (appendGoalUpdate now u g) = rewindCheckpoints g"
  "rewindCheckpointPrepared (appendGoalUpdate now u g) = rewindCheckpointPrepared g"
  "gm_state (appendStatusUpdate now s a r g) = gm_state g"
  "rewindCheckpoints (appendStatusUpdate now s a r g) = rewindCheckpoints g"
  "rewindCheckpointPrepared (appendStatusUpdate now s a r g) = rewindCheckpointPrepared g"
  by (simp_all add: track_def emitStatusUpdated_def emitGoalUpdated_def appendGoalUpdate_def
      appendStatusUpdate_def Let_def)

lemma persistState_frame [simp]:
  "gm_state (persistState now sl c st g) = st"
  "rewindCheckpoints (persistState now sl c st g) = rewindCheckpoints g"
  "rewindCheckpointPrepared (persistState now sl c st g) = rewindCheckpointPrepared g"
  by (simp_all add: persistState_def Let_def)

lemma clearInternal_frame [simp]:
  "gm_state (clearInternal now a e t g) = None"
  "rewindCheckpoints (clearInternal now a e t g) = rewindCheckpoints g"
  "rewindCheckpointPrepared (clearInternal now a e t g) = rewindCheckpointPrepared g"
  by (simp_all add: clearInternal_def Let_def split: option.splits)

lemma reset_to_frame [simp]:
  "gm_state (reset_to now ck g) = stateFromRewindSnapshot now (ck_snapshot ck)"
  "rewindCheckpoints (reset_to now ck g) = rewindCheckpoints g"
  "rewindCheckpointPrepared (reset_to now ck g) = rewindCheckpointPrepared g"
  by (simp_all add: reset_to_def)

lemma live_effects [simp]:
  "live (gm_agent (emitStatusUpdated g)) = live (gm_agent g)"
  "live (gm_agent (emitGoalUpdated sn c g)) = live (gm_agent g)"
  "live (gm_agent (appendGoalUpdate now u g)) = live (gm_agent g)"
  "live (gm_agent (appendStatusUpdate now s a r g)) = live (gm_agent g)"
  "live (gm_agent (persistState now sl c st g)) = live (gm_agent g)"
  "live (gm_agent (clearInternal now a e t g)) = live (gm_agent g)"
  "live (gm_agent (reset_to now ck g)) = live (gm_agent g)"
  by (simp_all add: emitStatusUpdated_def emitGoalUpdated_def appendGoalUpdate_def
      appendStatusUpdate_def persistState_def clearInternal_def reset_to_def Let_def split: option.splits)

abbreviation glog :: "GoalMode \<Rightarrow> (GoalRecord \<times> ms) list" where
  "glog g \<equiv> logged (gm_agent g)"

definition status_update :: "ms \<Rightarrow> GoalState \<Rightarrow> GoalActor \<Rightarrow> string option \<Rightarrow> GoalRecord" where
  "status_update now s a r = R_update (no_update\<lparr>up_status := Some (gs_status s), up_reason := r,
     up_wallClockMs := Some (liveWallClockMs s now), up_actor := Some a\<rparr>)"

lemma glog_effects [simp]:
  "glog (emitStatusUpdated g) = glog g"
  "glog (emitGoalUpdated sn c g) = glog g"
  "glog (persistState now sl c st g) = glog g"
  "glog (reset_to now ck g) = glog g"
  "live (gm_agent g) \<Longrightarrow> glog (appendGoalUpdate now u g) = glog g @ [(R_update u, now)]"
  "live (gm_agent g) \<Longrightarrow> glog (appendStatusUpdate now s a r g) = glog g @ [(status_update now s a r, now)]"
  "live (gm_agent g) \<Longrightarrow> glog (clearInternal now a e t g) =
     glog g @ (if gm_state g = None then [] else [(R_clear, now)])"
  by (simp_all add: emitStatusUpdated_def emitGoalUpdated_def appendGoalUpdate_def status_update_def
      appendStatusUpdate_def persistState_def clearInternal_def reset_to_def Let_def split: option.splits)

section \<open>The invariant\<close>

text \<open>
  No goal rests in \<open>complete\<close>; only an active goal has a running interval; counters are not
  negative; a prepared checkpoint is the last of the list; the agent is live, with a log.
\<close>

definition state_ok :: "GoalState \<Rightarrow> bool" where
  "state_ok s \<longleftrightarrow> gs_status s \<noteq> G_complete \<and> (gs_wallClockResumedAt s \<noteq> None \<longrightarrow> gs_status s = G_active)
     \<and> 0 \<le> gs_turnsUsed s \<and> 0 \<le> gs_tokensUsed s \<and> 0 \<le> gs_wallClockMs s
     \<and> gs_objective s \<noteq> [] \<and> length (gs_objective s) \<le> MAX_GOAL_OBJECTIVE_LENGTH"

definition snapshot_ok :: "GoalRewindSnapshot \<Rightarrow> bool" where
  "snapshot_ok s \<longleftrightarrow> rs_status s \<noteq> G_complete \<and> 0 \<le> rs_turnsUsed s \<and> 0 \<le> rs_tokensUsed s
     \<and> 0 \<le> rs_wallClockMs s \<and> rs_objective s \<noteq> []
     \<and> length (rs_objective s) \<le> MAX_GOAL_OBJECTIVE_LENGTH"

definition goal_inv :: "GoalMode \<Rightarrow> bool" where
  "goal_inv g \<longleftrightarrow> live (gm_agent g) \<and> pred_option state_ok (gm_state g)
     \<and> (\<forall>ck \<in> set (rewindCheckpoints g). pred_option snapshot_ok (ck_snapshot ck))
     \<and> (rewindCheckpointPrepared g \<longrightarrow> rewindCheckpoints g \<noteq> [])"

lemma liveWallClockMs_ge: "gs_wallClockMs s \<le> liveWallClockMs s now"
  by (simp add: liveWallClockMs_def split: option.splits)

lemma applyStatus_simps [simp]:
  "gs_status (applyStatus now st s) = st"
  "gs_goalId (applyStatus now st s) = gs_goalId s"
  "gs_objective (applyStatus now st s) = gs_objective s"
  "gs_completionCriterion (applyStatus now st s) = gs_completionCriterion s"
  "gs_turnsUsed (applyStatus now st s) = gs_turnsUsed s"
  "gs_tokensUsed (applyStatus now st s) = gs_tokensUsed s"
  "gs_budgetLimits (applyStatus now st s) = gs_budgetLimits s"
  "gs_terminalReason (applyStatus now st s) = gs_terminalReason s"
  "gs_wallClockMs (applyStatus now st s) = liveWallClockMs s now"
  by (simp_all add: applyStatus_def liveWallClockMs_def Let_def split: option.splits)

lemma applyStatus_resumed:
  "state_ok s \<Longrightarrow> gs_wallClockResumedAt (applyStatus now st s) = (if st = G_active then Some now else None)"
  by (auto simp: applyStatus_def state_ok_def Let_def split: option.splits)

lemma live_after_apply [simp]:
  "state_ok s \<Longrightarrow> liveWallClockMs (applyStatus now st s) now = liveWallClockMs s now"
  by (subst liveWallClockMs_def) (simp add: applyStatus_resumed)

lemma liveWallClockMs_update [simp]:
  "liveWallClockMs (s\<lparr>gs_terminalReason := r\<rparr>) now = liveWallClockMs s now"
  by (simp add: liveWallClockMs_def split: option.splits)

lemma state_ok_apply:
  "state_ok s \<Longrightarrow> st \<noteq> G_complete \<Longrightarrow> state_ok ((applyStatus now st s)\<lparr>gs_terminalReason := r\<rparr>)"
  using liveWallClockMs_ge [of s now] by (auto simp: state_ok_def applyStatus_resumed)

lemma state_ok_reason [simp]: "state_ok (s\<lparr>gs_terminalReason := r\<rparr>) = state_ok s"
  by (simp add: state_ok_def)

lemma snapshot_ok_rewindSnapshot:
  "pred_option state_ok (gm_state g) \<Longrightarrow> pred_option snapshot_ok (rewindSnapshot now g)"
  using liveWallClockMs_ge [of _ now]
  by (auto simp: rewindSnapshot_def snapshot_ok_def state_ok_def split: option.splits intro: order_trans)

lemma state_ok_from_snapshot:
  "pred_option snapshot_ok sn \<Longrightarrow> pred_option state_ok (stateFromRewindSnapshot now sn)"
  by (auto simp: stateFromRewindSnapshot_def snapshot_ok_def state_ok_def split: option.splits)

subsection \<open>Every operation keeps it\<close>

lemma pred_option_Some_iff [simp]: "pred_option P (Some x) = P x" "pred_option P None"
  by simp_all

lemma inv_createGoal [inv_rules]: "goal_inv g \<Longrightarrow> goal_inv (snd (createGoal now u m ob c rp a g))"
  by (simp add: createGoal_def goal_inv_def state_ok_def configuredGoalBudget_def Let_def)

lemma inv_stop_with:
  "goal_inv g \<Longrightarrow> state_ok s \<Longrightarrow> st \<noteq> G_complete \<Longrightarrow> goal_inv (snd (stop_with now st r a s g))"
  using state_ok_apply [of s st r now] by (simp add: stop_with_def goal_inv_def Let_def)

lemma inv_state: "goal_inv g \<Longrightarrow> gm_state g = Some s \<Longrightarrow> state_ok s"
  by (simp add: goal_inv_def)

lemma inv_pauseGoal [inv_rules]: "goal_inv g \<Longrightarrow> goal_inv (snd (pauseGoal now r a g))"
  by (auto simp: pauseGoal_def inv_stop_with inv_state split: option.splits)

lemma inv_pauseActiveGoal [inv_rules]: "goal_inv g \<Longrightarrow> goal_inv (snd (pauseActiveGoal now r a g))"
  by (auto simp: pauseActiveGoal_def inv_stop_with inv_state split: option.splits)

lemma inv_markBlocked [inv_rules]: "goal_inv g \<Longrightarrow> goal_inv (snd (markBlocked now r a g))"
  by (auto simp: markBlocked_def inv_stop_with inv_state split: option.splits)

lemma inv_resumeGoal [inv_rules]:
  assumes "goal_inv g"
  shows "goal_inv (snd (resumeGoal now r a g))"
proof (cases "gm_state g")
  case (Some s)
  then have "state_ok (s\<lparr>gs_terminalReason := None\<rparr>)" using inv_state [OF assms] by simp
  from state_ok_apply [OF this, of G_active None now]
  have "state_ok (applyStatus now G_active (s\<lparr>gs_terminalReason := None\<rparr>))" by simp
  with assms Some show ?thesis by (simp add: resumeGoal_def goal_inv_def Let_def)
qed (use assms in \<open>simp add: resumeGoal_def\<close>)

lemma inv_setBudgetLimits [inv_rules]: "goal_inv g \<Longrightarrow> goal_inv (snd (setBudgetLimits now p a g))"
  by (auto simp: setBudgetLimits_def goal_inv_def state_ok_def Let_def split: option.splits)

lemma inv_cancelGoal [inv_rules]: "goal_inv g \<Longrightarrow> goal_inv (snd (cancelGoal now a g))"
  by (auto simp: cancelGoal_def goal_inv_def Let_def split: option.splits)

lemma inv_markComplete [inv_rules]: "goal_inv g \<Longrightarrow> goal_inv (snd (markComplete now r a g))"
  by (auto simp: markComplete_def goal_inv_def Let_def split: option.splits)

lemma inv_recordTokenUsage [inv_rules]: "goal_inv g \<Longrightarrow> goal_inv (snd (recordTokenUsage now d g))"
  by (auto simp: recordTokenUsage_def goal_inv_def state_ok_def Let_def split: option.splits)

lemma inv_incrementTurn [inv_rules]: "goal_inv g \<Longrightarrow> goal_inv (snd (incrementTurn now g))"
  by (auto simp: incrementTurn_def goal_inv_def state_ok_def Let_def split: option.splits)

lemma inv_prepare [inv_rules]: "goal_inv g \<Longrightarrow> goal_inv (prepareRewindCheckpoint now g)"
  using snapshot_ok_rewindSnapshot [of g now]
  by (auto simp: prepareRewindCheckpoint_def goal_inv_def Let_def)

lemma inv_prompt [inv_rules]: "goal_inv g \<Longrightarrow> goal_inv (beginRewindablePrompt now False g)"
  using snapshot_ok_rewindSnapshot [of g now]
  by (auto simp: beginRewindablePrompt_def goal_inv_def checkpoint_now_def Let_def)

lemma inv_discard [inv_rules]: "goal_inv g \<Longrightarrow> goal_inv (discardRewindCheckpoint now g)"
  by (auto simp: discardRewindCheckpoint_def goal_inv_def Let_def in_set_butlastD
      intro!: state_ok_from_snapshot)

lemma inv_rewind [inv_rules]: "goal_inv g \<Longrightarrow> goal_inv (rewind now n g)"
  by (auto simp: rewind_def goal_inv_def Let_def dest: in_set_takeD intro!: state_ok_from_snapshot)

lemma inv_normalize [inv_rules]: "goal_inv g \<Longrightarrow> goal_inv (normalizeAfterReplay now g)"
proof (cases "gm_state g")
  case (Some s)
  assume inv: "goal_inv g"
  have ok: "state_ok (s\<lparr>gs_wallClockResumedAt := None\<rparr>)"
    using inv_state [OF inv Some] by (simp add: state_ok_def)
  from state_ok_apply [OF ok, of G_paused _ now] ok show ?thesis
    using inv Some by (simp add: normalizeAfterReplay_def goal_inv_def Let_def)
qed (simp add: normalizeAfterReplay_def)

lemma inv_log [inv_rules]: "goal_inv g \<Longrightarrow> goal_inv (on_agent (logRecord now r) g)"
  by (simp add: goal_inv_def)

lemma goal_step_inv: "goal_inv g \<Longrightarrow> goal_inv (goal_step g e)"
  by (cases e; cases "snd e") (auto intro: inv_rules)

interpretation goal: invariant_component goal_step goal_inv
  by unfold_locales (rule goal_step_inv)

section \<open>Replay\<close>

text \<open>
  The durable view: the goal without the anchor of its running interval, the snapshots of the
  rewind checkpoints, and whether one is prepared.
\<close>

type_synonym goal_view = "GoalState option \<times> GoalRewindSnapshot option list \<times> bool"

definition durable :: "GoalState \<Rightarrow> GoalState" where
  "durable s = s\<lparr>gs_wallClockResumedAt := None\<rparr>"

definition goal_view :: "GoalMode \<Rightarrow> goal_view" where
  "goal_view g = (map_option durable (gm_state g), map ck_snapshot (rewindCheckpoints g),
     rewindCheckpointPrepared g)"

definition restored_view :: "GoalMode \<times> bool \<Rightarrow> goal_view" where
  "restored_view q = goal_view (fst q)"

definition restore_next :: "GoalMode \<times> bool \<Rightarrow> GoalRecord \<times> ms \<Rightarrow> GoalMode \<times> bool" where
  "restore_next q rt = restore (snd rt) (snd q) (fst rt) (fst q)"

definition snapshot_state :: "GoalRewindSnapshot option \<Rightarrow> GoalState option" where
  "snapshot_state sn = map_option durable (stateFromRewindSnapshot 0 sn)"

lemma durable_from_snapshot [simp]:
  "map_option durable (stateFromRewindSnapshot now sn) = snapshot_state sn"
  by (simp add: snapshot_state_def stateFromRewindSnapshot_def durable_def split: option.splits)

text \<open>What one record does to the view, whatever else the restoring side holds.\<close>

fun view_step :: "goal_view \<Rightarrow> GoalRecord \<Rightarrow> goal_view" where
  "view_step (st, cks, pr) (R_create i ob c) =
     (Some \<lparr>gs_goalId = i, gs_objective = ob, gs_completionCriterion = c,
            gs_status = G_active, gs_turnsUsed = 0, gs_tokensUsed = 0, gs_wallClockMs = 0,
            gs_wallClockResumedAt = None, gs_budgetLimits = no_limits, gs_terminalReason = None\<rparr>, cks, pr)"
| "view_step (st, cks, pr) (R_update u) = (map_option (restored_state u) st, cks, pr)"
| "view_step (st, cks, pr) R_clear = (None, cks, pr)"
| "view_step (st, cks, pr) (R_rewind_checkpoint sn) = (st, cks @ [sn], True)"
| "view_step (st, cks, pr) R_rewind_checkpoint_discard =
     (if cks = [] then (st, cks, False)
      else (snapshot_state (last cks), butlast cks, False))"
| "view_step (st, cks, pr) R_user_prompt = (st, cks, False)"
| "view_step (st, cks, pr) (R_undo n) =
     (if n = 0 \<or> length cks < n then (st, cks, pr)
      else (snapshot_state (cks ! (length cks - n)),
            take (length cks - n) cks, False))"
| "view_step (st, cks, pr) R_forked = (None, [], False)"
| "view_step (st, cks, pr) R_other = (st, cks, pr)"

definition expects :: "goal_view \<Rightarrow> GoalRecord \<Rightarrow> bool" where
  "expects v r = (case r of R_user_prompt \<Rightarrow> snd (snd v) | R_rewind_checkpoint _ \<Rightarrow> \<not> snd (snd v) | _ \<Rightarrow> True)"

lemma durable_restored: "durable (restored_state u s) = restored_state u (durable s)"
  by (simp add: durable_def restored_state_def Let_def split: option.splits)

lemma goal_view_on_agent [simp]: "goal_view (on_agent f g) = goal_view g"
  by (simp add: goal_view_def)

lemma goal_view_legacy [simp]:
  "goal_view (prepareLegacyRewindCheckpoint now g) = goal_view g"
  "goal_view (discardLegacyRewindCheckpoint g) = goal_view g"
  by (simp_all add: goal_view_def prepareLegacyRewindCheckpoint_def discardLegacyRewindCheckpoint_def)

lemma restoreAgentRecord_view:
  assumes "expects (goal_view g) r"
  shows "goal_view (restoreAgentRecord now lg r g) = view_step (goal_view g) r"
proof (cases r)
  case (R_update u)
  then show ?thesis
    by (auto simp: goal_view_def restoreUpdate_def durable_restored Let_def split: option.splits)
next
  case R_rewind_checkpoint_discard
  then show ?thesis
    by (auto simp: goal_view_def restoreRewindCheckpointDiscard_def Let_def last_map map_butlast)
next
  case (R_undo n)
  then show ?thesis by (auto simp: goal_view_def rewind_def Let_def take_map)
next
  case R_user_prompt
  then show ?thesis using assms by (auto simp: goal_view_def beginRewindablePrompt_def expects_def Let_def)
next
  case (R_rewind_checkpoint sn)
  then show ?thesis using assms by (auto simp: goal_view_def restoreRewindCheckpoint_def expects_def Let_def)
qed (simp_all add: goal_view_def restoreCreate_def restoreClear_def restoreForked_def durable_def Let_def)

lemma restore_next_view:
  "expects (restored_view q) (fst rt) \<Longrightarrow> restored_view (restore_next q rt) = view_step (restored_view q) (fst rt)"
proof -
  assume ex: "expects (restored_view q) (fst rt)"
  obtain g prev where q: "q = (g, prev)" by (cases q)
  obtain r t where rt: "rt = (r, t)" by (cases rt)
  have "\<exists>g2 lg. goal_view g2 = goal_view g \<and>
      fst (restore t prev r g) = on_agent (\<lambda>a. a\<lparr>ag_restoring := None\<rparr>) (restoreAgentRecord t lg r g2)"
    unfolding restore_def Let_def fst_conv by (rule exI, rule exI, rule conjI [rotated], rule refl) simp
  then obtain g2 lg where g2: "goal_view g2 = goal_view g"
    and eq: "fst (restore t prev r g) = on_agent (\<lambda>a. a\<lparr>ag_restoring := None\<rparr>) (restoreAgentRecord t lg r g2)"
    by blast
  have "expects (goal_view g2) r" using ex by (simp add: q rt g2 restored_view_def)
  from restoreAgentRecord_view [OF this] show ?thesis
    by (simp add: restored_view_def restore_next_def q rt eq g2)
qed


text \<open>A run of records over the view; it fails on a record that the view does not expect.\<close>

fun view_run :: "goal_view \<Rightarrow> GoalRecord list \<Rightarrow> goal_view option" where
  "view_run v [] = Some v"
| "view_run v (r # rs) = (if expects v r then view_run (view_step v r) rs else None)"

lemma view_run_restores:
  "view_run (restored_view q) (map fst rts) = Some v \<Longrightarrow> restored_view (foldl restore_next q rts) = v"
  by (induction rts arbitrary: q) (auto simp: restore_next_view split: if_splits)

text \<open>An operation is written down when the records it adds lead the view to its outcome.\<close>

definition written :: "GoalMode \<Rightarrow> GoalMode \<Rightarrow> bool" where
  "written g g' \<longleftrightarrow> (\<exists>new. glog g' = glog g @ new \<and> view_run (goal_view g) (map fst new) = Some (goal_view g'))"

lemma writtenI:
  "glog g' = glog g @ new \<Longrightarrow> view_run (goal_view g) (map fst new) = Some (goal_view g') \<Longrightarrow> written g g'"
  by (auto simp: written_def)

lemma written_refl [simp]: "written g g"
  by (rule writtenI [of _ _ "[]"]) simp_all

lemmas view_simps = goal_view_def expects_def restored_state_def status_update_def no_update_def durable_def

lemma durable_apply:
  "durable (applyStatus now st s) = (durable s)\<lparr>gs_status := st, gs_wallClockMs := liveWallClockMs s now\<rparr>"
  by (simp add: durable_def applyStatus_def liveWallClockMs_def Let_def split: option.splits)

lemma written_stop_with:
  assumes inv: "goal_inv g" and st: "gm_state g = Some s" and ne: "status \<noteq> G_active"
  shows "written g (snd (stop_with now status r a s g))"
proof (rule writtenI)
  have live: "live (gm_agent g)" using inv by (simp add: goal_inv_def)
  show "glog (snd (stop_with now status r a s g)) =
      glog g @ [(status_update now ((applyStatus now status s)\<lparr>gs_terminalReason := r\<rparr>) a r, now)]"
    using live by (simp add: stop_with_def Let_def)
  show "view_run (goal_view g) (map fst [(status_update now ((applyStatus now status s)\<lparr>gs_terminalReason := r\<rparr>) a r, now)])
      = Some (goal_view (snd (stop_with now status r a s g)))"
    using inv_state [OF inv st] ne st
    by (simp add: stop_with_def Let_def view_simps applyStatus_def liveWallClockMs_def split: option.splits)
qed

lemma written_pauseGoal: "goal_inv g \<Longrightarrow> written g (snd (pauseGoal now r a g))"
  by (auto simp: pauseGoal_def written_stop_with split: option.splits)

lemma written_pauseActiveGoal: "goal_inv g \<Longrightarrow> written g (snd (pauseActiveGoal now r a g))"
  by (auto simp: pauseActiveGoal_def written_stop_with split: option.splits)

lemma written_markBlocked: "goal_inv g \<Longrightarrow> written g (snd (markBlocked now r a g))"
  by (auto simp: markBlocked_def written_stop_with split: option.splits)

lemma written_resumeGoal:
  assumes inv: "goal_inv g"
  shows "written g (snd (resumeGoal now r a g))"
proof (cases "\<exists>s. gm_state g = Some s \<and> (gs_status s = G_paused \<or> gs_status s = G_blocked)")
  case True
  then obtain s where s: "gm_state g = Some s" "gs_status s = G_paused \<or> gs_status s = G_blocked" by blast
  let ?s = "applyStatus now G_active (s\<lparr>gs_terminalReason := None\<rparr>)"
  have live: "live (gm_agent g)" using inv by (simp add: goal_inv_def)
  have step: "snd (resumeGoal now r a g) = appendStatusUpdate now ?s a r
      (persistState now False (Some (lifecycle_change G_active r a)) (Some ?s) g)"
    using s by (auto simp: resumeGoal_def Let_def)
  have st: "?s = s\<lparr>gs_terminalReason := None, gs_wallClockResumedAt := Some now, gs_status := G_active\<rparr>"
    using s inv_state [OF inv s(1)] by (auto simp: applyStatus_def state_ok_def split: option.splits)
  show ?thesis unfolding step st
    by (rule writtenI [of _ _ "[(status_update now (s\<lparr>gs_terminalReason := None,
          gs_wallClockResumedAt := Some now, gs_status := G_active\<rparr>) a r, now)]"])
      (simp_all add: live s view_simps liveWallClockMs_def)
next
  case False
  then show ?thesis by (cases "gm_state g") (auto simp: resumeGoal_def)
qed

lemma written_setBudgetLimits: "goal_inv g \<Longrightarrow> written g (snd (setBudgetLimits now p a g))"
proof (cases "gm_state g")
  case (Some s)
  assume "goal_inv g"
  then show ?thesis using Some
    by (intro writtenI [of _ _ "[(R_update (no_update\<lparr>up_budgetLimits :=
          Some (patched_limits (gs_budgetLimits s) p)\<rparr>), now)]"])
      (simp_all add: setBudgetLimits_def Let_def view_simps goal_inv_def)
qed (simp add: setBudgetLimits_def)

lemma written_recordTokenUsage: "goal_inv g \<Longrightarrow> written g (snd (recordTokenUsage now d g))"
proof (cases "gm_state g")
  case (Some s)
  assume "goal_inv g"
  then show ?thesis using Some
    by (cases "gs_status s = G_active",
        intro writtenI [of _ _ "[(R_update (no_update\<lparr>up_tokensUsed := Some (gs_tokensUsed s + max 0 d)\<rparr>), now)]"])
      (simp_all add: recordTokenUsage_def Let_def view_simps goal_inv_def)
qed (simp add: recordTokenUsage_def)

lemma written_incrementTurn: "goal_inv g \<Longrightarrow> written g (snd (incrementTurn now g))"
proof (cases "gm_state g")
  case (Some s)
  assume "goal_inv g"
  then show ?thesis using Some
    by (cases "gs_status s = G_active",
        intro writtenI [of _ _ "[(R_update (no_update\<lparr>up_turnsUsed := Some (gs_turnsUsed s + 1)\<rparr>), now)]"])
      (simp_all add: incrementTurn_def Let_def view_simps goal_inv_def)
qed (simp add: incrementTurn_def)

lemma clearInternal_view [simp]:
  "goal_view (clearInternal now a e t g) = (None, snd (goal_view g))"
  by (simp add: goal_view_def)

lemma view_clear [simp]: "view_step v R_clear = (None, snd v)"
  by (cases v) simp

lemma written_cancelGoal: "goal_inv g \<Longrightarrow> written g (snd (cancelGoal now a g))"
proof (cases "gm_state g")
  case (Some s)
  assume "goal_inv g"
  then show ?thesis using Some
    by (intro writtenI [of _ _ "[(R_clear, now)]"])
      (simp_all add: cancelGoal_def Let_def view_simps goal_inv_def)
qed (simp add: cancelGoal_def)

lemma written_markComplete: "goal_inv g \<Longrightarrow> written g (snd (markComplete now r a g))"
proof (cases "gm_state g")
  case (Some s)
  assume "goal_inv g"
  then show ?thesis using Some
    by (cases "gs_status s = G_active",
        intro writtenI [of _ _ "[(status_update now ((applyStatus now G_complete s)\<lparr>gs_terminalReason := r\<rparr>) a r, now),
          (R_clear, now)]"])
      (simp_all add: markComplete_def Let_def view_simps goal_inv_def)
qed (simp add: markComplete_def)

lemma written_prepare: "goal_inv g \<Longrightarrow> written g (prepareRewindCheckpoint now g)"
  by (cases "rewindCheckpointPrepared g", simp add: prepareRewindCheckpoint_def,
      intro writtenI [of _ _ "[(R_rewind_checkpoint (rewindSnapshot now g), now)]"])
    (simp_all add: prepareRewindCheckpoint_def Let_def view_simps goal_inv_def)

lemma written_prompt:
  "goal_inv g \<Longrightarrow> written g (on_agent (logRecord now R_user_prompt) (beginRewindablePrompt now False g))"
  by (intro writtenI [of _ _ "(if rewindCheckpointPrepared g then []
        else [(R_rewind_checkpoint (rewindSnapshot now g), now)]) @ [(R_user_prompt, now)]"])
    (auto simp: beginRewindablePrompt_def checkpoint_now_def Let_def view_simps goal_inv_def)

lemma written_discard: "goal_inv g \<Longrightarrow> written g (discardRewindCheckpoint now g)"
  by (cases "rewindCheckpointPrepared g", intro writtenI [of _ _ "[(R_rewind_checkpoint_discard, now)]"])
    (auto simp: discardRewindCheckpoint_def Let_def view_simps goal_inv_def last_map map_butlast)

lemma written_undo: "goal_inv g \<Longrightarrow> written g (rewind now n (on_agent (logRecord now (R_undo n)) g))"
  by (intro writtenI [of _ _ "[(R_undo n, now)]"])
    (auto simp: rewind_def Let_def view_simps goal_inv_def take_map)

lemma written_normalize: "goal_inv g \<Longrightarrow> written g (normalizeAfterReplay now g)"
proof (cases "gm_state g")
  case (Some s)
  assume inv: "goal_inv g"
  let ?r = "Some ''Paused after agent resume''"
  let ?s = "(applyStatus now G_paused (s\<lparr>gs_wallClockResumedAt := None\<rparr>))\<lparr>gs_terminalReason := ?r\<rparr>"
  from inv_state [OF inv Some] inv Some show ?thesis
    by (cases "gs_status s = G_active",
        intro writtenI [of _ _ "[(status_update now ?s A_runtime ?r, now)]"])
      (auto simp: normalizeAfterReplay_def Let_def view_simps goal_inv_def state_ok_def applyStatus_def
        liveWallClockMs_def intro!: writtenI [of _ _ "[]"])
qed (simp add: normalizeAfterReplay_def)

lemma written_createGoal: "goal_inv g \<Longrightarrow> written g (snd (createGoal now u m ob c rp a g))"
proof -
  assume inv: "goal_inv g"
  let ?crit = "normalizeCompletionCriterion c"
  let ?new = "(if gm_state g = None then [] else [(R_clear, now)]) @ [(R_create u (js_trim ob) ?crit, now)] @
    (if turnBudget (configuredGoalBudget m) \<noteq> None
     then [(R_update (no_update\<lparr>up_budgetLimits := Some (configuredGoalBudget m)\<rparr>), now)] else [])"
  have budget: "turnBudget (configuredGoalBudget m) = None \<Longrightarrow> configuredGoalBudget m = no_limits"
    by (auto simp: configuredGoalBudget_def split: option.splits if_splits)
  show ?thesis
  proof (cases "js_trim ob = [] \<or> length (js_trim ob) > MAX_GOAL_OBJECTIVE_LENGTH \<or> gm_state g \<noteq> None \<and> \<not> rp")
    case True
    then show ?thesis by (auto simp: createGoal_def Let_def)
  next
    case False
    then show ?thesis using inv
      by (intro writtenI [of _ _ ?new])
        (auto simp: createGoal_def Let_def view_simps goal_inv_def budget no_limits_def)
  qed
qed

lemmas written_rules = written_createGoal written_pauseGoal written_pauseActiveGoal written_resumeGoal
  written_setBudgetLimits written_cancelGoal written_markBlocked written_markComplete
  written_recordTokenUsage written_incrementTurn written_prepare written_prompt written_discard
  written_undo written_normalize

lemma goal_step_written: "goal_inv g \<Longrightarrow> written g (goal_step g e)"
  by (cases e; cases "snd e") (auto intro: written_rules)

interpretation goal_log: event_sourced goal_step goal_inv glog goal_view restore_next restored_view
proof
  fix s q e
  assume inv: "goal_inv s" and eq: "restored_view q = goal_view s"
  from goal_step_written [OF inv, of e] obtain new where
    "glog (goal_step s e) = glog s @ new"
    "view_run (restored_view q) (map fst new) = Some (goal_view (goal_step s e))"
    unfolding written_def eq by blast
  then show "\<exists>new. glog (goal_step s e) = glog s @ new \<and>
      restored_view (foldl restore_next q new) = goal_view (goal_step s e)"
    using view_run_restores by blast
qed

end
