(* ===== verification/Goal_Properties.thy ===== *)
theory Goal_Properties
  imports Goal_Facts
begin

text \<open>
  The properties of the goal component: replay of its log, lifecycle, clock, budgets and rewind,
  each over the interpretations \<open>goal\<close> and \<open>goal_log\<close> and the frame lemmas of \<open>Goal_Facts\<close>.
\<close>

section \<open>A fresh component\<close>

definition new_agent :: "bool \<Rightarrow> goal_agent" where
  "new_agent persistent = \<lparr>ag_restoring = None, ag_persistence = persistent,
     ag_metadataInitialized = False, ag_wire = [], ag_events = [],
     ag_replay = new_replay_builder None\<rparr>"

definition new_goal_mode :: "bool \<Rightarrow> GoalMode" where
  "new_goal_mode persistent = \<lparr>gm_agent = new_agent persistent, gm_hasModel = True, gm_tracks = [],
     gm_reminders = [], gm_state = None, rewindCheckpoints = [], rewindCheckpointPrepared = False,
     legacyRewindCheckpoint = None\<rparr>"

lemma new_goal_mode_inv: "goal_inv (new_goal_mode True)"
  by (simp add: goal_inv_def new_goal_mode_def new_agent_def live_def)

text \<open>
  What \<open>AgentRecords.replay\<close> does with the goal: every record in turn, and after the last one
  \<open>finishReplay\<close>.
\<close>

definition restoreGoalLog :: "ms \<Rightarrow> (GoalRecord \<times> ms) list \<Rightarrow> GoalMode \<Rightarrow> GoalMode" where
  "restoreGoalLog now rts g = finishReplay now (fst (foldl restore_next (g, False) rts))"

text \<open>On the durable view, closing a replay and discarding a prepared checkpoint are the same.\<close>

lemma finishReplay_view:
  "goal_view (finishReplay now g) =
     (if rewindCheckpointPrepared g then view_step (goal_view g) R_rewind_checkpoint_discard else goal_view g)"
  by (simp add: finishReplay_def restoreRewindCheckpointDiscard_def goal_view_def Let_def last_map map_butlast)

lemma discard_view:
  "goal_inv g \<Longrightarrow> goal_view (discardRewindCheckpoint now g) =
     (if rewindCheckpointPrepared g then view_step (goal_view g) R_rewind_checkpoint_discard else goal_view g)"
  by (simp add: discardRewindCheckpoint_def goal_inv_def goal_view_def Let_def last_map map_butlast)

text \<open>
  C28: The record log is enough. Whatever sequence of goal operations runs, replaying its whole log
  into a fresh component, with the \<open>finishReplay\<close> at its end, gives the durable goal of the run
  (identity, objective, status, reason, counters, budgets, folded time), its rewind snapshots and
  its prepared flag. A checkpoint that was prepared for a prompt that never started is rolled back,
  just as \<open>discardRewindCheckpoint\<close> would have rolled it back in the run; without one the view
  is the one of the run itself.
\<close>

theorem goal_log_rebuilds:
  "let g = run_ops goal_step (new_goal_mode True) es in
    goal_view (restoreGoalLog now (glog g) (new_goal_mode p)) =
      (if rewindCheckpointPrepared g then goal_view (discardRewindCheckpoint now g) else goal_view g)"
proof -
  define g where "g = run_ops goal_step (new_goal_mode True) es"
  have "restored_view (foldl restore_next (new_goal_mode p, False) (glog g)) = goal_view g"
    unfolding g_def by (rule goal_log.restore_rebuilds [OF new_goal_mode_inv])
      (simp_all add: restored_view_def goal_view_def new_goal_mode_def new_agent_def logged_def)
  then have v: "goal_view (fst (foldl restore_next (new_goal_mode p, False) (glog g))) = goal_view g"
    by (simp add: restored_view_def)
  then have "rewindCheckpointPrepared (fst (foldl restore_next (new_goal_mode p, False) (glog g)))
      = rewindCheckpointPrepared g" by (simp add: goal_view_def)
  moreover have "goal_inv g" unfolding g_def by (rule goal.run_inv [OF new_goal_mode_inv])
  ultimately show ?thesis by (simp add: restoreGoalLog_def finishReplay_view discard_view v g_def [symmetric])
qed

text \<open>
  C31: In every reachable state the goal is well formed: it never rests in \<open>complete\<close>, its clock
  runs only while active, counters never go negative, the objective is a non-empty string of at
  most 4000 characters; and a prepared checkpoint is always on the list.
\<close>

theorem goal_reachable_ok:
  "pred_option state_ok (gm_state (run_ops goal_step (new_goal_mode True) es))
   \<and> \<not> (rewindCheckpointPrepared (run_ops goal_step (new_goal_mode True) es)
        \<and> rewindCheckpoints (run_ops goal_step (new_goal_mode True) es) = [])"
  using goal.run_inv [OF new_goal_mode_inv, of es] by (auto simp: goal_inv_def)

section \<open>Lifecycle\<close>

fun next_status :: "GoalStatus \<Rightarrow> GoalOp \<Rightarrow> GoalStatus" where
  "next_status st (Op_pause r a) = (if st = G_active then G_paused else st)"
| "next_status st (Op_pauseActive r a) = (if st = G_active then G_paused else st)"
| "next_status st (Op_block r a) = (if st = G_active then G_blocked else st)"
| "next_status st (Op_resume r a) = (if st = G_paused \<or> st = G_blocked then G_active else st)"
| "next_status st e = st"

text \<open>The operations that work on the goal at hand and keep it.\<close>

fun keeps_goal :: "GoalOp \<Rightarrow> bool" where
  "keeps_goal (Op_create u m ob c rp a) = False"
| "keeps_goal (Op_cancel a) = False"
| "keeps_goal (Op_complete r a) = False"
| "keeps_goal Op_prepare = True"
| "keeps_goal Op_prompt = True"
| "keeps_goal Op_discard = False"
| "keeps_goal (Op_undo n) = False"
| "keeps_goal Op_normalize = False"
| "keeps_goal e = True"

lemma stop_with_state:
  "gm_state (snd (stop_with now st r a s g)) = Some ((applyStatus now st s)\<lparr>gs_terminalReason := r\<rparr>)"
  by (simp add: stop_with_def Let_def)

lemma prepare_state [simp]: "gm_state (prepareRewindCheckpoint now g) = gm_state g"
  by (simp add: prepareRewindCheckpoint_def Let_def)

lemma prompt_state [simp]: "gm_state (beginRewindablePrompt now lg g) = gm_state g"
  by (simp add: beginRewindablePrompt_def Let_def)

definition clock_at :: "ms \<Rightarrow> GoalState \<Rightarrow> ms \<Rightarrow> bool" where
  "clock_at tot s t \<longleftrightarrow> state_ok s \<and> liveWallClockMs s t = tot \<and>
     (case gs_wallClockResumedAt s of None \<Rightarrow> gs_status s \<noteq> G_active | Some r \<Rightarrow> r \<le> t)"

lemma clock_at_later:
  "clock_at tot s t \<Longrightarrow> t \<le> u \<Longrightarrow>
   clock_at (tot + (if gs_status s = G_active then u - t else 0)) s u"
  by (auto simp: clock_at_def liveWallClockMs_def state_ok_def split: option.splits if_splits)

lemma clock_at_apply:
  "clock_at tot s t \<Longrightarrow> st \<noteq> G_complete \<Longrightarrow>
   clock_at tot ((applyStatus t st s)\<lparr>gs_terminalReason := r\<rparr>) t"
  using state_ok_apply [of s st r t]
  by (simp add: clock_at_def applyStatus_resumed)

lemma clock_at_reason [simp]: "clock_at tot (s\<lparr>gs_terminalReason := r\<rparr>) t = clock_at tot s t"
  by (simp add: clock_at_def split: option.splits)

lemma keeps_goal_step:
  assumes "gm_state g = Some s" and "clock_at tot s t" and "keeps_goal e"
  shows "\<exists>s'. gm_state (goal_step g (t, e)) = Some s' \<and> clock_at tot s' t
    \<and> gs_status s' = next_status (gs_status s) e \<and> gs_goalId s' = gs_goalId s"
proof -
  have ok: "state_ok s" using assms(2) by (simp add: clock_at_def)
  show ?thesis
  proof (cases e)
    case (Op_resume r a)
    show ?thesis
    proof (cases "gs_status s = G_paused \<or> gs_status s = G_blocked")
      case True
      have "clock_at tot ((applyStatus t G_active (s\<lparr>gs_terminalReason := None\<rparr>))\<lparr>gs_terminalReason := None\<rparr>) t"
        using assms(2) by (intro clock_at_apply) simp_all
      with True show ?thesis using assms(1) Op_resume by (auto simp: resumeGoal_def Let_def)
    qed (use assms Op_resume in \<open>auto simp: resumeGoal_def\<close>)
  next
    case (Op_setBudget p a)
    then show ?thesis using assms
      by (auto simp: setBudgetLimits_def Let_def clock_at_def state_ok_def liveWallClockMs_def split: option.splits)
  next
    case (Op_tokens d)
    then show ?thesis using assms
      by (auto simp: recordTokenUsage_def Let_def clock_at_def state_ok_def liveWallClockMs_def split: option.splits)
  next
    case Op_turn
    then show ?thesis using assms
      by (auto simp: incrementTurn_def Let_def clock_at_def state_ok_def liveWallClockMs_def split: option.splits)
  qed (use assms clock_at_apply [OF assms(2)] in
      \<open>auto simp: pauseGoal_def pauseActiveGoal_def markBlocked_def stop_with_state\<close>)
qed

text \<open>The specification of the clock: the time between operations counts while active.\<close>

fun active_time :: "ms \<Rightarrow> GoalStatus \<Rightarrow> (ms \<times> GoalOp) list \<Rightarrow> ms \<Rightarrow> ms" where
  "active_time t st [] now = (if st = G_active then now - t else 0)"
| "active_time t st ((u, e) # es) now =
     (if st = G_active then u - t else 0) + active_time u (next_status st e) es now"

lemma clock_run:
  "gm_state g = Some s \<Longrightarrow> clock_at tot s t \<Longrightarrow> \<forall>e \<in> set es. keeps_goal (snd e) \<Longrightarrow>
   sorted (t # map fst es @ [now]) \<Longrightarrow>
   \<exists>s'. gm_state (run_ops goal_step g es) = Some s' \<and>
     liveWallClockMs s' now = tot + active_time t (gs_status s) es now"
proof (induction es arbitrary: g s tot t)
  case Nil
  then have "clock_at (tot + (if gs_status s = G_active then now - t else 0)) s now"
    by (intro clock_at_later) simp_all
  with Nil show ?case by (simp add: clock_at_def)
next
  case (Cons ue es)
  obtain u e where ue: "ue = (u, e)" by (cases ue)
  let ?tot = "tot + (if gs_status s = G_active then u - t else 0)"
  have "clock_at ?tot s u" using Cons.prems by (intro clock_at_later) (simp_all add: ue)
  from keeps_goal_step [OF Cons.prems(1) this, of e] obtain s1 where
    s1: "gm_state (goal_step g (u, e)) = Some s1" "clock_at ?tot s1 u"
        "gs_status s1 = next_status (gs_status s) e"
    using Cons.prems(3) by (auto simp: ue)
  from Cons.IH [OF s1(1,2)] Cons.prems(3,4) show ?case by (auto simp: ue s1(3))
qed

text \<open>
  C30: The wall clock counts exactly the active time. From a goal created at \<open>t\<close>, after any
  operations that keep the goal at non-decreasing times, the wall clock read at \<open>now\<close> is the sum
  of the intervals during which the goal was active; pausing, blocking and repeated resuming never
  lose or double-count an interval.
\<close>

theorem wall_clock_counts_active_time:
  assumes "createGoal t u m ob c rp a g = (Inr sn, g1)"
    and "\<forall>e \<in> set es. keeps_goal (snd e)"
    and "sorted (t # map fst es @ [now])"
  shows "map_option sn_wallClockMs (getGoal now (run_ops goal_step g1 es))
    = Some (active_time t G_active es now)"
proof -
  from assms(1) have ok: "js_trim ob \<noteq> []" "length (js_trim ob) \<le> MAX_GOAL_OBJECTIVE_LENGTH"
    by (auto simp: createGoal_def Let_def split: if_splits)
  with assms(1) obtain s where s: "gm_state g1 = Some s" "clock_at 0 s t" "gs_status s = G_active"
    by (auto simp: createGoal_def Let_def clock_at_def state_ok_def liveWallClockMs_def split: if_splits)
  from clock_run [OF s(1,2) assms(2,3)] s(3) show ?thesis by (auto simp: getGoal_def toSnapshot_def)
qed

lemma wall_clock_counts_active_time_witness:
  "map_option sn_wallClockMs (getGoal 100 (run_ops goal_step
     (snd (createGoal 10 ''id'' None '' ship it '' None False A_user (new_goal_mode True)))
     [(30, Op_pause None A_user), (70, Op_resume None A_user), (75, Op_tokens 5)])) = Some 50"
proof -
  let ?c = "createGoal 10 ''id'' None '' ship it '' None False A_user (new_goal_mode True)"
  have "\<exists>sn. ?c = (Inr sn, snd ?c)"
    by (auto simp: createGoal_def Let_def new_goal_mode_def MAX_GOAL_OBJECTIVE_LENGTH_def js_trim_def
        js_trim_start_def is_js_space_def)
  then obtain sn where c: "?c = (Inr sn, snd ?c)" by blast
  show ?thesis
    by (rule trans [OF wall_clock_counts_active_time [OF c]]) simp_all
qed

section \<open>Rewinding prompts\<close>










section \<open>Creation\<close>

text \<open>
  \<open>createGoal\<close> answers every case. It fails exactly when the trimmed objective is empty or
  longer than 4000, or a goal exists and is not to be replaced, and then changes nothing;
  otherwise the new goal is active with the trimmed objective, zero counters and a turn budget
  exactly when a positive one is configured, and the answer is what \<open>getGoal\<close> reports.
\<close>

theorem createGoal_total:
  "case createGoal now uuid maxTurns obj crit rp actor g of
     (Inl e, g') \<Rightarrow> g' = g \<and>
       e = (if js_trim obj = [] then GOAL_OBJECTIVE_EMPTY
            else if length (js_trim obj) > 4000 then GOAL_OBJECTIVE_TOO_LONG else GOAL_ALREADY_EXISTS) \<and>
       (js_trim obj = [] \<or> length (js_trim obj) > 4000 \<or> getGoal now g \<noteq> None \<and> \<not> rp)
   | (Inr sn, g') \<Rightarrow> getGoal now g' = Some sn \<and> getActiveGoal now g' = Some sn \<and> sn_objective sn = js_trim obj \<and>
       sn_turnsUsed sn = 0 \<and> sn_tokensUsed sn = 0 \<and> sn_wallClockMs sn = 0 \<and>
       br_turnBudget (sn_budget sn) = (if maxTurns = None \<or> the maxTurns \<le> 0 then None else maxTurns) \<and>
       \<not> overBudget (sn_budget sn) \<and> (getGoal now g = None \<or> rp)"
  by (auto simp: createGoal_def Let_def MAX_GOAL_OBJECTIVE_LENGTH_def getGoal_def getActiveGoal_def
      toSnapshot_def liveWallClockMs_def computeBudgetReport_def configuredGoalBudget_def no_limits_def
      split: option.splits)

section \<open>Inactive goals\<close>

text \<open>
  Only an active goal advances. While no goal is active, token usage, turns, completion,
  blocking and interrupts leave the whole component as it is: state, log, events and telemetry.
\<close>

theorem inactive_goal_is_frozen:
  assumes "getActiveGoal now g = None"
  shows "recordTokenUsage now d g = (None, g) \<and> incrementTurn now g = (None, g)
    \<and> markComplete now r a g = (None, g) \<and> markBlocked now r a g = (None, g)
    \<and> pauseOnInterrupt now r g = (None, g)"
  using assms
  by (simp add: getActiveGoal_def recordTokenUsage_def incrementTurn_def markComplete_def markBlocked_def
      pauseOnInterrupt_def pauseActiveGoal_def split: option.splits if_splits)

lemma inactive_goal_is_frozen_witness:
  "let g = new_goal_mode True in recordTokenUsage 3 7 g = (None, g) \<and> incrementTurn 3 g = (None, g)
    \<and> markComplete 3 None A_model g = (None, g) \<and> markBlocked 3 None A_model g = (None, g)
    \<and> pauseOnInterrupt 3 None g = (None, g)"
  unfolding Let_def by (rule inactive_goal_is_frozen) (simp add: getActiveGoal_def new_goal_mode_def)

section \<open>Budgets\<close>

text \<open>
  The budget report is consistent and monotone. Over budget means that some configured limit
  has nothing remaining, remaining amounts are never negative, and as time passes without a change
  of the goal a reached limit stays reached.
\<close>

theorem budget_report_consistent:
  assumes "now \<le> later"
  shows "let r = computeBudgetReport s now; r' = computeBudgetReport s later in
    overBudget r = (remainingTokens r = Some 0 \<or> remainingTurns r = Some 0 \<or> remainingWallClockMs r = Some 0)
    \<and> pred_option ((\<le>) 0) (remainingTokens r) \<and> pred_option ((\<le>) 0) (remainingTurns r)
    \<and> pred_option ((\<le>) 0) (remainingWallClockMs r)
    \<and> (overBudget r \<longrightarrow> overBudget r')"
proof -
  have mono: "liveWallClockMs s now \<le> liveWallClockMs s later"
    using assms by (auto simp: liveWallClockMs_def split: option.splits)
  show ?thesis using mono
    by (auto simp: computeBudgetReport_def Let_def max_def pred_option_def split: option.splits)
qed

lemma budget_report_consistent_witness:
  "let s = \<lparr>gs_goalId = ''id'', gs_objective = ''x'', gs_completionCriterion = None, gs_status = G_active,
        gs_turnsUsed = 2, gs_tokensUsed = 7, gs_wallClockMs = 4, gs_wallClockResumedAt = Some 8,
        gs_budgetLimits = \<lparr>tokenBudget = Some 9, turnBudget = None, wallClockBudgetMs = Some 6\<rparr>,
        gs_terminalReason = None\<rparr>;
       r = computeBudgetReport s 10; r' = computeBudgetReport s 20 in
    overBudget r = (remainingTokens r = Some 0 \<or> remainingTurns r = Some 0 \<or> remainingWallClockMs r = Some 0)
    \<and> pred_option ((\<le>) 0) (remainingTokens r) \<and> pred_option ((\<le>) 0) (remainingTurns r)
    \<and> pred_option ((\<le>) 0) (remainingWallClockMs r)
    \<and> (overBudget r \<longrightarrow> overBudget r')"
  unfolding Let_def by (rule budget_report_consistent [unfolded Let_def]) simp

section \<open>Restoring\<close>

lemma restoring_effects [simp]:
  "ag_restoring (gm_agent g) \<noteq> None \<Longrightarrow> emitStatusUpdated g = g"
  "ag_restoring (gm_agent g) \<noteq> None \<Longrightarrow> emitGoalUpdated sn c g = g"
  by (simp_all add: emitStatusUpdated_def emitGoalUpdated_def restoring_is_silent)

definition silent :: "GoalMode \<Rightarrow> GoalMode \<Rightarrow> bool" where
  "silent g g' \<longleftrightarrow> ag_wire (gm_agent g') = ag_wire (gm_agent g)
     \<and> ag_events (gm_agent g') = ag_events (gm_agent g) \<and> gm_tracks g' = gm_tracks g"

lemma replay_silent [simp]:
  "ag_wire (replay_push now p a) = ag_wire a" "ag_events (replay_push now p a) = ag_events a"
  "ag_wire (replay_truncate n a) = ag_wire a" "ag_events (replay_truncate n a) = ag_events a"
  by (simp_all add: replay_push_def replay_truncate_def)

lemma silent_prompt:
  "ag_restoring (gm_agent g) \<noteq> None \<Longrightarrow> silent g (beginRewindablePrompt now lg g)"
  by (simp add: silent_def beginRewindablePrompt_def Let_def restoring_is_silent)

lemma silent_rewind: "ag_restoring (gm_agent g) \<noteq> None \<Longrightarrow> silent g (rewind now n g)"
  by (auto simp: silent_def rewind_def reset_to_def Let_def)

lemma silent_discard: "silent g (restoreRewindCheckpointDiscard now g)"
  by (simp add: silent_def restoreRewindCheckpointDiscard_def reset_to_def Let_def)

lemma silent_restoreAgentRecord:
  "ag_restoring (gm_agent g) \<noteq> None \<Longrightarrow> silent g (restoreAgentRecord now lg r g)"
  using silent_discard [of g now] silent_prompt [of g now lg] silent_rewind [of g now]
  by (cases r)
    (auto simp: restoreRewindCheckpoint_def Let_def silent_def restoreCreate_def
      restoreUpdate_def restoreClear_def restoreForked_def split: option.splits)

text \<open>
  Restoring is silent. Restoring any record writes no record, emits no event and sends no
  telemetry, so a resume never duplicates the log it reads.
\<close>

theorem restore_is_silent:
  "let g' = fst (restore now prev r g) in
    ag_wire (gm_agent g') = ag_wire (gm_agent g) \<and> ag_events (gm_agent g') = ag_events (gm_agent g)
    \<and> gm_tracks g' = gm_tracks g"
proof -
  let ?g1 = "on_agent (\<lambda>a. a\<lparr>ag_restoring := Some now\<rparr>) g"
  have "\<exists>g2 lg. silent g g2 \<and> ag_restoring (gm_agent g2) \<noteq> None \<and>
      fst (restore now prev r g) = on_agent (\<lambda>a. a\<lparr>ag_restoring := None\<rparr>) (restoreAgentRecord now lg r g2)"
    unfolding restore_def Let_def fst_conv
    by (rule exI, rule exI, rule conjI [rotated], rule conjI [rotated], rule refl)
      (simp_all add: silent_def prepareLegacyRewindCheckpoint_def discardLegacyRewindCheckpoint_def)
  then obtain g2 lg where g2: "silent g g2" "ag_restoring (gm_agent g2) \<noteq> None"
    "fst (restore now prev r g) = on_agent (\<lambda>a. a\<lparr>ag_restoring := None\<rparr>) (restoreAgentRecord now lg r g2)"
    by blast
  show ?thesis using g2(1) silent_restoreAgentRecord [OF g2(2), of now lg r]
    by (simp add: g2(3) silent_def Let_def)
qed

end
