(* ===== verification/Undo_History.thy ===== *)
theory Undo_History
  imports Context_Properties Goal_Properties
begin

text \<open>
  The RPC \<open>undoHistory\<close> (\<open>agent/index.ts\<close>), where the conversation and the goal meet: the
  context logs and undoes, then the goal rewinds. Restoring the record \<open>context.undo\<close>
  (\<open>agent/records/index.ts\<close>) does the same two calls.
\<close>

definition undoHistory :: "ms \<Rightarrow> nat \<Rightarrow> ContextMemory \<times> GoalMode \<Rightarrow>
    context_error option \<times> ContextMemory \<times> GoalMode" where
  "undoHistory now n cg =
     (case undo now (int n) (fst cg) of
        (Some e, c') \<Rightarrow> (Some e, c', snd cg)
      | (None, c') \<Rightarrow> (None, c', rewind now n (snd cg)))"

definition restoreUndo :: "ms \<Rightarrow> nat \<Rightarrow> ContextMemory \<times> GoalMode \<Rightarrow>
    context_error option \<times> ContextMemory \<times> GoalMode" where
  "restoreUndo t n cg =
     undoHistory t n (restoring_at t (fst cg), on_agent (\<lambda>a. a\<lparr>ag_restoring := Some t\<rparr>) (snd cg))"

lemma goal_view_rewind_restoring:
  "goal_view (rewind t n (on_agent (\<lambda>a. a\<lparr>ag_restoring := r\<rparr>) g)) = goal_view (rewind t n g)"
  by (simp add: rewind_def goal_view_def Let_def)

text \<open>
  Undo takes the conversation and the goal back together. A successful undo and the
  restoring of its record agree on both: the same conversation and the same durable goal.
\<close>

theorem undo_and_restore_agree:
  assumes "undoHistory t n (c, g) = (None, c', g')" and "live (cx_agent c)"
  shows "case restoreUndo t n (c, g) of (err, c'', g'') \<Rightarrow>
    err = None \<and> core c'' = core c' \<and> goal_view g'' = goal_view g'"
proof -
  let ?q = "restoring_at t c"
  have eq: "ceq t c ?q" using assms(2) by (intro restoring_at_ceq) simp_all
  from ceq_undo [OF eq, of "int n"] have core: "core (snd (undo t (int n) c)) = core (snd (undo t (int n) ?q))"
    by (simp add: ceq_def)
  have quiet: "fst (undo t (int n) ?q) = None" by (rule undo_restoring_quiet) simp
  from assms(1) have live: "snd (undo t (int n) c) = c'" "g' = rewind t n g"
    by (auto simp: undoHistory_def split: prod.splits option.splits)
  show ?thesis using core quiet live
    by (cases "undo t (int n) ?q") (simp add: restoreUndo_def undoHistory_def goal_view_rewind_restoring)
qed

lemma undo_and_restore_agree_witness:
  "case restoreUndo 5 0 (new_context, new_goal_mode True) of (err, c'', g'') \<Rightarrow>
    err = None \<and> core c'' = core new_context \<and> goal_view g'' = goal_view (new_goal_mode True)"
  by (rule undo_and_restore_agree)
    (simp_all add: undoHistory_def undo_def rewind_def new_context_def new_context_agent_def live_def)

text \<open>
  A failed undo parts them. The context records the undo before it finds that it cannot reach far
  enough; the caller then leaves the goal alone, but restoring the record rewinds it.
\<close>

lemma failed_undo_rewinds_goal_on_resume:
  "let p = plain_user [TextPart ''p''] USER_PROMPT_ORIGIN;
       c = run_ops cx_step new_context [(1, CxAppend p), (2, CxCompact ''s'' None 1 0 None), (3, CxAppend p)];
       g = run_ops goal_step (new_goal_mode True)
             [(1, Op_prompt), (2, Op_create ''id'' None ''x'' None False A_user), (3, Op_prompt)]
   in fst (undoHistory 9 2 (c, g)) \<noteq> None \<and> gm_state (snd (snd (undoHistory 9 2 (c, g)))) \<noteq> None
      \<and> gm_state (snd (snd (restoreUndo 9 2 (c, g)))) = None"
proof -
  let ?p = "plain_user [TextPart ''p''] USER_PROMPT_ORIGIN"
  let ?s = "plain_user [TextPart ''s''] (simple_origin OK_compaction_summary)"
  let ?c = "run_ops cx_step new_context [(1, CxAppend ?p), (2, CxCompact ''s'' None 1 0 None), (3, CxAppend ?p)]"
  let ?g = "run_ops goal_step (new_goal_mode True)
      [(1, Op_prompt), (2, Op_create ''id'' None ''x'' None False A_user), (3, Op_prompt)]"
  have real: "isRealUserInput ?p" "\<not> isCompactionSummaryMessage ?p" "\<not> is_injection ?p" "\<not> is_injection ?s"
    "isCompactionSummaryMessage ?s" "role ?p = RoleUser" "role ?s = RoleUser"
    by (simp_all add: isRealUserInput_def compactionUserMessageDisposition_def isCompactionSummaryMessage_def
        is_injection_def plain_user_def USER_PROMPT_ORIGIN_def simple_origin_def)
  have small: "estimateTokensForMessage ?p \<le> 20000"
    by (simp add: estimateTokensForMessage_def estimateTokensForContentParts_def plain_user_def estimateTokens_def
        tokens_of_counts_def is_ascii_def)
  have lv: "live (cx_agent ?c)"
    using reachable_inv [of "[(1, CxAppend ?p), (2, CxCompact ''s'' None 1 0 None), (3, CxAppend ?p)]"]
    by (simp add: ctx_inv_def del: run_ops_simps)
  have "map snd (cx_history ?c) = [?p, ?s, ?p]"
    using small real
    by (simp add: appendMessage_def alloc_def hasOpenToolExchange_def applyCompaction_def kept_user_entries_def
        collectCompactableUserMessages_def selectRecentUserMessages_def COMPACT_USER_MESSAGE_MAX_TOKENS_def
        new_context_def new_context_agent_def Let_def)
  then obtain i j k where h: "cx_history ?c = [(i, ?p), (j, ?s), (k, ?p)]"
    by (auto simp del: run_ops_simps)
  have "undo_spec 2 (rev (cx_history ?c)) = ([(j, ?s), (i, ?p)], 1, True)" unfolding h by (simp add: real)
  from undo_result [OF _ _ _ this, of 9] h lv have "fst (undo 9 2 ?c) \<noteq> None"
    by (auto simp: live_def Let_def split_def simp del: run_ops_simps)
  then obtain e c' where e: "undo 9 2 ?c = (Some e, c')" by (metis eq_fst_iff not_None_eq)
  have g: "gm_state ?g \<noteq> None" "map ck_snapshot (rewindCheckpoints ?g) ! 0 = None"
    "length (rewindCheckpoints ?g) = 2"
    by (simp_all add: beginRewindablePrompt_def createGoal_def new_goal_mode_def checkpoint_now_def
        rewindSnapshot_def js_trim_def js_trim_start_def is_js_space_def MAX_GOAL_OBJECTIVE_LENGTH_def Let_def)
  then have ck: "ck_snapshot (rewindCheckpoints ?g ! 0) = None"
    by (metis nth_map zero_less_numeral)
  have "fst (undo 9 2 (restoring_at 9 ?c)) = None" by (rule undo_restoring_quiet) simp
  then obtain c'' where q: "undo 9 2 (restoring_at 9 ?c) = (None, c'')" by (metis eq_fst_iff)
  show ?thesis
    unfolding Let_def undoHistory_def restoreUndo_def fst_conv snd_conv
    using e q g(1,3) ck by (simp add: rewind_def stateFromRewindSnapshot_def Let_def del: run_ops_simps)
qed

end
