(* ===== verification/Cron_Date.thy ===== *)
theory Cron_Date
  imports Nori_Prelude
begin

text \<open>
  The part of the JavaScript \<open>Date\<close> object that the cron code uses: the proleptic Gregorian
  calendar of ECMAScript (DayFromYear, YearFromTime, MonthFromTime, MakeDay), local time, and the
  setters that normalise an out-of-range month, day, hour or minute.

  A date is its epoch in milliseconds. The time zone is an argument: \<open>Zone m trs\<close> starts with
  the offset of \<open>m\<close> minutes and changes it at each instant of \<open>trs\<close>. As ECMAScript
  prescribes, a local time that occurs twice means its first occurrence, and one that is skipped is
  read with the offset before the jump. The limits of the \<open>Date\<close> range are not modelled.
\<close>

section \<open>Years\<close>

text \<open>The day, counted from 1 January 1970, on which the year \<open>y\<close> starts.\<close>

definition day_from_year :: "int \<Rightarrow> int" where
  "day_from_year y = 365 * (y - 1970) + (y - 1969) div 4 - (y - 1901) div 100 + (y - 1601) div 400"

definition leap :: "int \<Rightarrow> bool" where
  "leap y \<longleftrightarrow> 4 dvd y \<and> (\<not> 100 dvd y \<or> 400 dvd y)"

lemma div_succ:
  fixes a n :: int
  assumes n: "0 < n"
  shows "(a + 1) div n = a div n + (if n dvd a + 1 then 1 else 0)"
proof -
  let ?q = "a div n" and ?r = "a mod n"
  have a: "a = n * ?q + ?r" and r: "0 \<le> ?r" "?r < n" using n by simp_all
  show ?thesis
  proof (cases "?r + 1 = n")
    case True
    have "a + 1 = n * ?q + (?r + 1)" by simp
    then have e: "a + 1 = n * (?q + 1)" unfolding True by (simp only: distrib_left mult_1_right)
    show ?thesis unfolding e using n by simp
  next
    case False
    have e: "a + 1 = n * ?q + (?r + 1)" by simp
    have q: "(a + 1) div n = ?q" using int_div_pos_eq [OF e] r False by simp
    have "(a + 1) mod n = ?r + 1" using int_mod_pos_eq [OF e] r False by simp
    then have "\<not> n dvd a + 1" using r(1) by (simp add: dvd_eq_mod_eq_0)
    then show ?thesis using q by simp
  qed
qed

lemma day_from_year_Suc: "day_from_year (y + 1) = day_from_year y + (if leap y then 366 else 365)"
proof -
  have a: "(y + 1 - 1969) div 4 = (y - 1969) div 4 + (if 4 dvd y then 1 else 0)"
    using div_succ [of 4 "y - 1969"] dvd_add_left_iff [of 4 "-1968" y] by simp
  have b: "(y + 1 - 1901) div 100 = (y - 1901) div 100 + (if 100 dvd y then 1 else 0)"
    using div_succ [of 100 "y - 1901"] dvd_add_left_iff [of 100 "-1900" y] by simp
  have c: "(y + 1 - 1601) div 400 = (y - 1601) div 400 + (if 400 dvd y then 1 else 0)"
    using div_succ [of 400 "y - 1601"] dvd_add_left_iff [of 400 "-1600" y] by simp
  have d: "400 dvd y \<Longrightarrow> 100 dvd y" "100 dvd y \<Longrightarrow> 4 dvd y" 
    using dvd_trans [of 100 400 y] dvd_trans [of 4 100 y] by simp_all
  have gen: "365 * (y + 1 - 1970) + (A + (if 4 dvd y then 1 else 0)) - (B + (if 100 dvd y then 1 else 0))
      + (C + (if 400 dvd y then 1 else 0))
    = 365 * (y - 1970) + A - B + C + (if leap y then 366 else 365)" for A B C :: int
    using d by (cases "4 dvd y"; cases "100 dvd y"; cases "400 dvd y") (simp_all add: leap_def)
  show ?thesis unfolding day_from_year_def a b c by (rule gen)
qed

lemma day_from_year_less: "day_from_year y < day_from_year (y + 1)"
  by (simp add: day_from_year_Suc)

lemma day_from_year_grows: "day_from_year y + 365 * int n \<le> day_from_year (y + int n)
  \<and> day_from_year (y + int n) \<le> day_from_year y + 366 * int n"
proof (induction n)
  case (Suc n)
  have "day_from_year (y + int (Suc n)) = day_from_year (y + int n) + (if leap (y + int n) then 366 else 365)"
    using day_from_year_Suc [of "y + int n"] by (simp add: add.commute add.left_commute)
  then show ?case using Suc.IH by (simp split: if_splits)
qed simp

lemma day_from_year_mono: "y \<le> y' \<Longrightarrow> day_from_year y \<le> day_from_year y'"
  using day_from_year_grows [of y "nat (y' - y)"] by simp

lemma day_from_year_1970: "day_from_year 1970 = 0"
  by (simp add: day_from_year_def)

function year_up :: "int \<Rightarrow> int \<Rightarrow> int" where
  "year_up y d = (if day_from_year (y + 1) \<le> d then year_up (y + 1) d else y)"
  by pat_completeness auto
termination
  by (relation "measure (\<lambda>(y, d). nat (d - day_from_year y))")
    (auto simp: day_from_year_Suc split: if_splits)

declare year_up.simps [simp del]

definition year_of_day :: "int \<Rightarrow> int" where
  "year_of_day d = year_up (1970 + (if 0 \<le> d then d div 366 else d div 365)) d"

lemma year_up_bounds: "day_from_year y \<le> d \<Longrightarrow>
  day_from_year (year_up y d) \<le> d \<and> d < day_from_year (year_up y d + 1)"
proof (induction y d rule: year_up.induct)
  case (1 y d)
  then show ?case using year_up.simps [of y d] by (cases "day_from_year (y + 1) \<le> d") simp_all
qed

lemma year_of_day_bounds: "day_from_year (year_of_day d) \<le> d \<and> d < day_from_year (year_of_day d + 1)"
proof -
  have "day_from_year (1970 + (if 0 \<le> d then d div 366 else d div 365)) \<le> d"
  proof (cases "0 \<le> d")
    case True
    then have "int (nat (d div 366)) = d div 366" by simp
    moreover have "366 * (d div 366) \<le> d" by simp
    ultimately show ?thesis
      using day_from_year_grows [of 1970 "nat (d div 366)"] True by (simp add: day_from_year_1970)
  next
    case False
    then have "d div 365 < 0" by (simp add: pos_imp_zdiv_neg_iff)
    then have "int (nat (- (d div 365))) = - (d div 365)" by simp
    moreover have "365 * (d div 365) \<le> d" by simp
    ultimately show ?thesis
      using day_from_year_grows [of "1970 + d div 365" "nat (- (d div 365))"] False
      by (simp add: day_from_year_1970)
  qed
  then show ?thesis unfolding year_of_day_def by (rule year_up_bounds)
qed

lemma year_of_day_unique: "day_from_year y \<le> d \<Longrightarrow> d < day_from_year (y + 1) \<Longrightarrow> year_of_day d = y"
  using year_of_day_bounds [of d] day_from_year_mono [of "y + 1" "year_of_day d"]
    day_from_year_mono [of "year_of_day d + 1" y] by linarith

section \<open>Months\<close>

text \<open>Days of the year before month \<open>m\<close> (0 is January), and the month of a day of the year.\<close>

definition month_start :: "bool \<Rightarrow> int \<Rightarrow> int" where
  "month_start l m =
    (if m \<le> 0 then 0 else if m = 1 then 31
     else (if m = 2 then 59 else if m = 3 then 90 else if m = 4 then 120 else if m = 5 then 151
       else if m = 6 then 181 else if m = 7 then 212 else if m = 8 then 243 else if m = 9 then 273
       else if m = 10 then 304 else if m = 11 then 334 else 365) + (if l then 1 else 0))"

definition month_in_year :: "bool \<Rightarrow> int \<Rightarrow> int" where
  "month_in_year l r = (let e = (if l then 1 else 0) in
     if r < 31 then 0 else if r < 59 + e then 1 else if r < 90 + e then 2 else if r < 120 + e then 3
     else if r < 151 + e then 4 else if r < 181 + e then 5 else if r < 212 + e then 6
     else if r < 243 + e then 7 else if r < 273 + e then 8 else if r < 304 + e then 9
     else if r < 334 + e then 10 else 11)"

lemma month_in_year_bounds:
  assumes "0 \<le> r" "r < 365 + (if l then 1 else 0)"
  shows "0 \<le> month_in_year l r \<and> month_in_year l r \<le> 11
    \<and> month_start l (month_in_year l r) \<le> r \<and> r < month_start l (month_in_year l r + 1)"
proof -
  define Q where "Q m \<longleftrightarrow> 0 \<le> m \<and> m \<le> 11 \<and> month_start l m \<le> r \<and> r < month_start l (m + 1)" for m
  have "Q (month_in_year l r)"
  proof (cases l)
    case True
    then show ?thesis using assms unfolding month_in_year_def Let_def
      by (simp split: if_split) (simp add: Q_def month_start_def)
  next
    case False
    then show ?thesis using assms unfolding month_in_year_def Let_def
      by (simp split: if_split) (simp add: Q_def month_start_def)
  qed
  then show ?thesis by (simp add: Q_def)
qed

lemma month_start_mono: "0 \<le> m \<Longrightarrow> m \<le> 11 \<Longrightarrow> month_start l m < month_start l (m + 1)"
  by (simp add: month_start_def; arith)

lemma divmod12: "a = 12 * q + r \<Longrightarrow> 0 \<le> r \<Longrightarrow> r < 12 \<Longrightarrow> a div 12 = q \<and> a mod 12 = r" for a :: int
  using int_div_pos_eq [of a 12 q r] int_mod_pos_eq [of a 12 q r] by simp

lemma succ_div12: "(i + 1) div 12 = (if i mod 12 = 11 then i div 12 + 1 else i div 12)"
    "(i + 1) mod 12 = (if i mod 12 = 11 then 0 else i mod 12 + 1)" for i :: int
proof -
  have i: "i + 1 = 12 * (i div 12) + (i mod 12 + 1)" by simp
  have r: "0 \<le> i mod 12" "i mod 12 < 12" by simp_all
  have b: "i + 1 = 12 * (i div 12 + 1) + 0" if "i mod 12 = 11"
    using i unfolding that by (simp only: distrib_left mult_1_right)
  show "(i + 1) div 12 = (if i mod 12 = 11 then i div 12 + 1 else i div 12)"
    "(i + 1) mod 12 = (if i mod 12 = 11 then 0 else i mod 12 + 1)"
    using divmod12 [OF i] divmod12 [OF b] r by auto
qed

text \<open>Months are numbered through: month \<open>m\<close> of year \<open>y\<close> has the index \<open>12 * y + m\<close>.\<close>

definition first_day :: "int \<Rightarrow> int" where
  "first_day i = day_from_year (i div 12) + month_start (leap (i div 12)) (i mod 12)"

definition month_index :: "int \<Rightarrow> int" where
  "month_index d = (let y = year_of_day d in 12 * y + month_in_year (leap y) (d - day_from_year y))"

lemma first_day_less: "first_day i < first_day (i + 1)"
proof (cases "i mod 12 = 11")
  case True
  then have q: "(i + 1) div 12 = i div 12 + 1" "(i + 1) mod 12 = 0" by (simp_all add: succ_div12)
  show ?thesis using day_from_year_Suc [of "i div 12"]
    by (simp add: first_day_def q True month_start_def)
next
  case False
  then have q: "(i + 1) div 12 = i div 12" "(i + 1) mod 12 = i mod 12 + 1" by (simp_all add: succ_div12)
  have "0 \<le> i mod 12" "i mod 12 \<le> 11" using pos_mod_bound [of 12 i] by simp_all
  then show ?thesis using month_start_mono by (simp add: first_day_def q)
qed

lemma first_day_mono: "i \<le> j \<Longrightarrow> first_day i \<le> first_day j"
proof -
  have "first_day i \<le> first_day (i + int n)" for n
  proof (induction n)
    case (Suc n)
    then show ?case using first_day_less [of "i + int n"] by (simp add: add.commute add.left_commute)
  qed simp
  from this [of "nat (j - i)"] show "i \<le> j \<Longrightarrow> first_day i \<le> first_day j" by simp
qed

lemma month_index_bounds: "first_day (month_index d) \<le> d \<and> d < first_day (month_index d + 1)"
proof -
  let ?y = "year_of_day d"
  let ?l = "leap ?y"
  let ?r = "d - day_from_year ?y"
  let ?m = "month_in_year ?l ?r"
  have r: "0 \<le> ?r" "?r < 365 + (if ?l then 1 else 0)"
    using year_of_day_bounds [of d] day_from_year_Suc [of ?y] by (simp_all split: if_splits)
  note m = month_in_year_bounds [OF r]
  have i: "month_index d = 12 * ?y + ?m" by (simp add: month_index_def Let_def)
  have q: "month_index d div 12 = ?y" "month_index d mod 12 = ?m" using divmod12 [OF i] m by simp_all
  have lo: "first_day (month_index d) \<le> d" using m by (simp add: first_day_def q)
  show ?thesis
  proof (cases "?m = 11")
    case True
    then have "(month_index d + 1) div 12 = ?y + 1" "(month_index d + 1) mod 12 = 0"
      by (simp_all add: succ_div12 q)
    then show ?thesis using lo year_of_day_bounds [of d] by (simp add: first_day_def month_start_def)
  next
    case False
    then have "(month_index d + 1) div 12 = ?y" "(month_index d + 1) mod 12 = ?m + 1"
      by (simp_all add: succ_div12 q)
    then show ?thesis using lo m by (simp add: first_day_def)
  qed
qed

lemma month_index_unique: "first_day i \<le> d \<Longrightarrow> d < first_day (i + 1) \<Longrightarrow> month_index d = i"
  using month_index_bounds [of d] first_day_mono [of "i + 1" "month_index d"]
    first_day_mono [of "month_index d + 1" i] by linarith

lemma month_index_year: "month_index d div 12 = year_of_day d"
proof -
  let ?y = "year_of_day d"
  have "0 \<le> d - day_from_year ?y" "d - day_from_year ?y < 365 + (if leap ?y then 1 else 0)"
    using year_of_day_bounds [of d] day_from_year_Suc [of ?y] by (simp_all split: if_splits)
  from month_in_year_bounds [OF this] show ?thesis by (simp add: month_index_def Let_def)
qed


section \<open>Time zones\<close>

datatype zone = Zone (base_offset: int) (transitions: "(ms \<times> int) list")

abbreviation fixed_zone :: "int \<Rightarrow> zone" where
  "fixed_zone m \<equiv> Zone m []"

text \<open>The offset in minutes at an instant, local time, and the instant a local time denotes.\<close>

definition offset_at :: "zone \<Rightarrow> ms \<Rightarrow> int" where
  "offset_at z t = foldl (\<lambda>m (at, m'). if at \<le> t then m' else m) (base_offset z) (transitions z)"

definition local_time :: "zone \<Rightarrow> ms \<Rightarrow> ms" where
  "local_time z t = t + 60000 * offset_at z t"

fun utc_from :: "int \<Rightarrow> (ms \<times> int) list \<Rightarrow> ms \<Rightarrow> ms" where
  "utc_from m [] l = l - 60000 * m"
| "utc_from m ((at, m') # trs) l =
     (if l - 60000 * m < at then l - 60000 * m
      else if l - 60000 * m' < at then l - 60000 * m
      else utc_from m' trs l)"

definition utc_time :: "zone \<Rightarrow> ms \<Rightarrow> ms" where
  "utc_time z l = utc_from (base_offset z) (transitions z) l"

lemma fixed_zone_local [simp]: "local_time (fixed_zone m) t = t + 60000 * m"
  by (simp add: local_time_def offset_at_def)

lemma fixed_zone_utc [simp]: "utc_time (fixed_zone m) l = l - 60000 * m"
  by (simp add: utc_time_def)

section \<open>Fields and setters\<close>

definition local_day :: "zone \<Rightarrow> ms \<Rightarrow> int" where
  "local_day z t = local_time z t div 86400000"

definition getMonth :: "zone \<Rightarrow> ms \<Rightarrow> int" where
  "getMonth z t = month_index (local_day z t) mod 12"

definition getDate :: "zone \<Rightarrow> ms \<Rightarrow> int" where
  "getDate z t = local_day z t - first_day (month_index (local_day z t)) + 1"

definition getDay :: "zone \<Rightarrow> ms \<Rightarrow> int" where
  "getDay z t = (local_day z t + 4) mod 7"

definition getHours :: "zone \<Rightarrow> ms \<Rightarrow> int" where
  "getHours z t = local_time z t mod 86400000 div 3600000"

definition getMinutes :: "zone \<Rightarrow> ms \<Rightarrow> int" where
  "getMinutes z t = local_time z t mod 3600000 div 60000"

text \<open>
  \<open>setMonth(m)\<close> and \<open>setDate(d)\<close> keep the time of the day; \<open>setHours(h, 0, 0, 0)\<close>,
  \<open>setHours(h)\<close>, \<open>setMinutes(m)\<close>, \<open>setMinutes(0, 0, 0)\<close> and \<open>setSeconds(0, 0)\<close> keep the
  coarser fields. Every setter writes a local time and reads it back as an instant.
\<close>

definition setMonth :: "zone \<Rightarrow> int \<Rightarrow> ms \<Rightarrow> ms" where
  "setMonth z m t = utc_time z (86400000 *
     (first_day (12 * year_of_day (local_day z t) + m) + getDate z t - 1) + local_time z t mod 86400000)"

definition setDate :: "zone \<Rightarrow> int \<Rightarrow> ms \<Rightarrow> ms" where
  "setDate z d t = utc_time z (86400000 *
     (first_day (month_index (local_day z t)) + d - 1) + local_time z t mod 86400000)"

definition setHours_all :: "zone \<Rightarrow> ms \<Rightarrow> ms" where
  "setHours_all z t = utc_time z (86400000 * local_day z t)"

definition setHours :: "zone \<Rightarrow> int \<Rightarrow> ms \<Rightarrow> ms" where
  "setHours z h t = utc_time z (86400000 * local_day z t + 3600000 * h + local_time z t mod 3600000)"

definition setMinutes_all :: "zone \<Rightarrow> ms \<Rightarrow> ms" where
  "setMinutes_all z t = utc_time z (3600000 * (local_time z t div 3600000))"

definition setMinutes :: "zone \<Rightarrow> int \<Rightarrow> ms \<Rightarrow> ms" where
  "setMinutes z m t =
     utc_time z (3600000 * (local_time z t div 3600000) + 60000 * m + local_time z t mod 60000)"

definition setSeconds_all :: "zone \<Rightarrow> ms \<Rightarrow> ms" where
  "setSeconds_all z t = utc_time z (60000 * (local_time z t div 60000))"

lemmas date_fields = local_day_def getMonth_def getDate_def getDay_def getHours_def getMinutes_def

lemmas date_setters = setMonth_def setDate_def setHours_all_def setHours_def setMinutes_all_def
  setMinutes_def setSeconds_all_def

end
