(* ===== verification/Cron_Expr.thy ===== *)
theory Cron_Expr
  imports Cron_Date
begin

text \<open>
  \<open>packages/agent-core/src/tools/cron/cron-expr.ts\<close>: the parser of five-field cron expressions,
  the search for the next fire, and the human-readable summary.

  A JavaScript \<open>Set\<close> of numbers is a list without duplicates in insertion order. A thrown
  \<open>Error\<close> is a value of \<open>cron_error\<close>, one constructor per \<open>throw\<close> of the source.
\<close>

datatype ParsedCronExpression = Parsed
  (raw: string) (minutes: "int list") (hours: "int list") (daysOfMonth: "int list")
  (months: "int list") (daysOfWeek: "int list")
  (daysOfMonthWildcard: bool) (daysOfWeekWildcard: bool)

datatype cron_error =
    Expression_empty
  | Wrong_field_count nat
  | Field_empty string
  | Empty_list_term string
  | No_values string
  | Not_an_integer string string string
  | Step_empty string string
  | Step_not_positive string string
  | Step_without_range string string
  | Value_out_of_range string int int int
  | Range_out_of_bounds string int int int int

section \<open>Parsing\<close>

fun split_at :: "char \<Rightarrow> string \<Rightarrow> string list" where
  "split_at c [] = [[]]"
| "split_at c (x # xs) =
     (if x = c then [] # split_at c xs
      else case split_at c xs of [] \<Rightarrow> [[x]] | w # ws \<Rightarrow> (x # w) # ws)"

text \<open>\<open>split(/\s+/)\<close> of a trimmed string.\<close>

fun split_ws :: "string \<Rightarrow> string list" where
  "split_ws [] = [[]]"
| "split_ws (x # xs) =
     (if is_js_space x then
        (case xs of [] \<Rightarrow> [[], []]
         | y # _ \<Rightarrow> if is_js_space y then split_ws xs else [] # split_ws xs)
      else case split_ws xs of [] \<Rightarrow> [[x]] | w # ws \<Rightarrow> (x # w) # ws)"

definition before_char :: "char \<Rightarrow> string \<Rightarrow> string" where
  "before_char c s = takeWhile (\<lambda>x. x \<noteq> c) s"

definition after_char :: "char \<Rightarrow> string \<Rightarrow> string" where
  "after_char c s = drop (Suc (length (before_char c s))) s"

definition is_digit :: "char \<Rightarrow> bool" where
  "is_digit c \<longleftrightarrow> 48 \<le> (of_char c :: nat) \<and> (of_char c :: nat) \<le> 57"

definition digits_value :: "string \<Rightarrow> int" where
  "digits_value s = foldl (\<lambda>n c. 10 * n + (of_char c - 48)) 0 s"

definition parseCronInt :: "string \<Rightarrow> string \<Rightarrow> string \<Rightarrow> cron_error + int" where
  "parseCronInt s name role =
     (if s = [] \<or> \<not> list_all is_digit s then Inl (Not_an_integer name role s)
      else Inr (digits_value s))"

function add_steps :: "int list \<Rightarrow> int \<Rightarrow> int \<Rightarrow> int \<Rightarrow> int list" where
  "add_steps out v hi step =
     (if v \<le> hi \<and> 0 < step then add_steps (oset_add v out) (v + step) hi step else out)"
  by pat_completeness auto
termination by (relation "measure (\<lambda>(out, v, hi, step). nat (hi + 1 - v))") auto

declare add_steps.simps [simp del]

definition isWildcard :: "string \<Rightarrow> bool" where
  "isWildcard field \<longleftrightarrow> field = ''*''"


definition term_step :: "string \<Rightarrow> string \<Rightarrow> cron_error + (string \<times> int)" where
  "term_step trm name =
     (if CHR ''/'' \<notin> set trm then Inr (trm, 1)
      else if after_char CHR ''/'' trm = [] then Inl (Step_empty name trm)
      else case parseCronInt (after_char CHR ''/'' trm) name ''step'' of
        Inl e \<Rightarrow> Inl e
      | Inr step \<Rightarrow>
          if step \<le> 0 then Inl (Step_not_positive name (after_char CHR ''/'' trm))
          else if before_char CHR ''/'' trm = [] then Inl (Step_without_range name trm)
          else Inr (before_char CHR ''/'' trm, step))"

definition addTerm :: "int list \<Rightarrow> string \<Rightarrow> int \<Rightarrow> int \<Rightarrow> string \<Rightarrow> cron_error + int list" where
  "addTerm out trm lowest highest name =
     (case term_step trm name of
        Inl e \<Rightarrow> Inl e
      | Inr (rangePart, step) \<Rightarrow>
          if rangePart = ''*'' then Inr (add_steps out lowest highest step)
          else if CHR ''-'' \<notin> set rangePart then
            (case parseCronInt rangePart name ''value'' of
               Inl e \<Rightarrow> Inl e
             | Inr single \<Rightarrow>
                 if single < lowest \<or> highest < single
                 then Inl (Value_out_of_range name single lowest highest)
                 else if CHR ''/'' \<in> set trm then Inr (add_steps out single highest step)
                 else Inr (oset_add single out))
          else
            (case parseCronInt (before_char CHR ''-'' rangePart) name ''range lower bound'' of
               Inl e \<Rightarrow> Inl e
             | Inr lo \<Rightarrow>
                 (case parseCronInt (after_char CHR ''-'' rangePart) name ''range upper bound'' of
                    Inl e \<Rightarrow> Inl e
                  | Inr hi \<Rightarrow>
                      if lo < lowest \<or> highest < hi \<or> hi < lo
                      then Inl (Range_out_of_bounds name lo hi lowest highest)
                      else Inr (add_steps out lo hi step))))"

fun addTerms :: "int list \<Rightarrow> string list \<Rightarrow> int \<Rightarrow> int \<Rightarrow> string \<Rightarrow> cron_error + int list" where
  "addTerms out [] lowest highest name = Inr out"
| "addTerms out (trm # trms) lowest highest name =
     (if trm = [] then Inl (Empty_list_term name)
      else case addTerm out trm lowest highest name of
        Inl e \<Rightarrow> Inl e
      | Inr out' \<Rightarrow> addTerms out' trms lowest highest name)"

definition parseField :: "string \<Rightarrow> int \<Rightarrow> int \<Rightarrow> string \<Rightarrow> cron_error + int list" where
  "parseField field lowest highest name =
     (if field = [] then Inl (Field_empty name)
      else case addTerms [] (split_at CHR '','' field) lowest highest name of
        Inl e \<Rightarrow> Inl e
      | Inr out \<Rightarrow> if out = [] then Inl (No_values name) else Inr out)"

definition fold_sunday :: "int list \<Rightarrow> int list" where
  "fold_sunday vs = oset_of (map (\<lambda>v. if v = 7 then 0 else v) vs)"

definition parse_fields :: "string \<Rightarrow> string list \<Rightarrow> cron_error + ParsedCronExpression" where
  "parse_fields trimmed fields =
     (case parseField (fields ! 0) 0 59 ''minute'' of Inl e \<Rightarrow> Inl e | Inr mins \<Rightarrow>
     (case parseField (fields ! 1) 0 23 ''hour'' of Inl e \<Rightarrow> Inl e | Inr hrs \<Rightarrow>
     (case parseField (fields ! 2) 1 31 ''day-of-month'' of Inl e \<Rightarrow> Inl e | Inr doms \<Rightarrow>
     (case parseField (fields ! 3) 1 12 ''month'' of Inl e \<Rightarrow> Inl e | Inr mons \<Rightarrow>
     (case parseField (fields ! 4) 0 7 ''day-of-week'' of Inl e \<Rightarrow> Inl e | Inr dowRaw \<Rightarrow>
        Inr (Parsed trimmed mins hrs doms mons (fold_sunday dowRaw)
               (isWildcard (fields ! 2)) (isWildcard (fields ! 4))))))))"

definition parseCronExpression :: "string \<Rightarrow> cron_error + ParsedCronExpression" where
  "parseCronExpression expr =
     (let trimmed = js_trim expr; fields = split_ws trimmed in
      if trimmed = [] then Inl Expression_empty
      else if length fields \<noteq> 5 then Inl (Wrong_field_count (length fields))
      else parse_fields trimmed fields)"

text \<open>The decimal form of a number, as a template string prints it.\<close>

function show_num :: "nat \<Rightarrow> string" where
  "show_num n = (if n < 10 then [char_of (48 + n)] else show_num (n div 10) @ [char_of (48 + n mod 10)])"
  by pat_completeness auto
termination by (relation "measure id") auto

declare show_num.simps [simp del]

section \<open>The next fire\<close>

definition dayMatches :: "zone \<Rightarrow> ParsedCronExpression \<Rightarrow> ms \<Rightarrow> bool" where
  "dayMatches z expr date =
     (let domOk = getDate z date \<in> set (daysOfMonth expr);
          dowOk = getDay z date \<in> set (daysOfWeek expr) in
      if daysOfMonthWildcard expr \<and> daysOfWeekWildcard expr then True
      else if daysOfMonthWildcard expr then dowOk
      else if daysOfWeekWildcard expr then domOk
      else domOk \<or> dowOk)"

definition advanceMonth :: "zone \<Rightarrow> ms \<Rightarrow> ms" where
  "advanceMonth z date =
     (let date = setHours_all z (setDate z 1 date) in setMonth z (getMonth z date + 1) date)"

definition advanceDay :: "zone \<Rightarrow> ms \<Rightarrow> ms" where
  "advanceDay z date = (let date = setHours_all z date in setDate z (getDate z date + 1) date)"

definition advanceHour :: "zone \<Rightarrow> ms \<Rightarrow> ms" where
  "advanceHour z date = (let date = setMinutes_all z date in setHours z (getHours z date + 1) date)"

definition advanceMinute :: "zone \<Rightarrow> ms \<Rightarrow> ms" where
  "advanceMinute z date = (let date = setSeconds_all z date in setMinutes z (getMinutes z date + 1) date)"

definition MS_PER_MINUTE :: int where "MS_PER_MINUTE = 60000"
definition HARD_ITERATION_CAP :: int where "HARD_ITERATION_CAP = 10000000"

function seek :: "zone \<Rightarrow> ParsedCronExpression \<Rightarrow> ms \<Rightarrow> int \<Rightarrow> ms \<Rightarrow> ms option" where
  "seek z expr deadlineMs iterations date =
     (if date \<le> deadlineMs \<and> iterations < HARD_ITERATION_CAP then
        if getMonth z date + 1 \<notin> set (months expr)
        then seek z expr deadlineMs (iterations + 1) (advanceMonth z date)
        else if \<not> dayMatches z expr date
        then seek z expr deadlineMs (iterations + 1) (advanceDay z date)
        else if getHours z date \<notin> set (hours expr)
        then seek z expr deadlineMs (iterations + 1) (advanceHour z date)
        else if getMinutes z date \<notin> set (minutes expr)
        then seek z expr deadlineMs (iterations + 1) (advanceMinute z date)
        else Some date
      else None)"
  by pat_completeness auto
termination
  by (relation "measure (\<lambda>(z, expr, deadlineMs, iterations, date). nat (HARD_ITERATION_CAP - iterations))") auto

declare seek.simps [simp del]

definition nextRunWithinMinutes :: "zone \<Rightarrow> ParsedCronExpression \<Rightarrow> ms \<Rightarrow> int \<Rightarrow> ms option" where
  "nextRunWithinMinutes z expr fromMs capMinutes =
     seek z expr (fromMs + capMinutes * MS_PER_MINUTE) 0 (setSeconds_all z fromMs + MS_PER_MINUTE)"

definition computeNextCronRun :: "zone \<Rightarrow> ParsedCronExpression \<Rightarrow> ms \<Rightarrow> ms option" where
  "computeNextCronRun z expr fromMs = nextRunWithinMinutes z expr fromMs (5 * 366 * 24 * 60)"

definition hasFireWithinYears :: "zone \<Rightarrow> ParsedCronExpression \<Rightarrow> int \<Rightarrow> ms \<Rightarrow> bool" where
  "hasFireWithinYears z expr years fromMs \<longleftrightarrow>
     nextRunWithinMinutes z expr fromMs (max 1 (years * 366 * 24 * 60)) \<noteq> None"


section \<open>The human-readable summary\<close>

definition isFullRange :: "int list \<Rightarrow> int \<Rightarrow> int \<Rightarrow> bool" where
  "isFullRange vs lowest highest \<longleftrightarrow>
     int (length vs) = highest - lowest + 1 \<and> list_all (\<lambda>v. v \<in> set vs) [lowest..highest]"

text \<open>The loop over the sorted values: \<open>None\<close> for the early return, else the final \<open>expected\<close>.\<close>

fun walk_steps :: "int \<Rightarrow> int \<Rightarrow> int list \<Rightarrow> int option" where
  "walk_steps expected step [] = Some expected"
| "walk_steps expected step (v # vs) =
     (if v \<noteq> expected then None else walk_steps (expected + step) step vs)"

definition detectStep :: "int list \<Rightarrow> int \<Rightarrow> int \<Rightarrow> int option" where
  "detectStep vs lowest highest =
     (let values = sort vs in
      if length values < 2 then None
      else if values ! 0 \<noteq> lowest then None
      else let step = values ! 1 - values ! 0 in
        if step \<le> 0 then None
        else case walk_steps lowest step values of
          None \<Rightarrow> None
        | Some expected \<Rightarrow> if expected - step > highest then None else Some step)"

definition MONTH_NAMES :: "string list" where
  "MONTH_NAMES = [''January'', ''February'', ''March'', ''April'', ''May'', ''June'', ''July'',
     ''August'', ''September'', ''October'', ''November'', ''December'']"

definition DAY_NAMES :: "string list" where
  "DAY_NAMES = [''Sunday'', ''Monday'', ''Tuesday'', ''Wednesday'', ''Thursday'', ''Friday'', ''Saturday'']"

fun comma_list :: "string list \<Rightarrow> string" where
  "comma_list [] = []"
| "comma_list [w] = w"
| "comma_list (w # ws) = w @ '', '' @ comma_list ws"

definition formatDows :: "int list \<Rightarrow> string option" where
  "formatDows vs =
     (let values = sort vs in
      if values = [] then None
      else if values = [1, 2, 3, 4, 5] then Some ''weekdays''
      else if values = [0, 6] then Some ''weekends''
      else Some (comma_list (map (\<lambda>v. DAY_NAMES ! nat v) values)))"

definition show_int :: "int \<Rightarrow> string" where
  "show_int n = (if n < 0 then CHR ''-'' # show_num (nat (- n)) else show_num (nat n))"

definition pad :: "int \<Rightarrow> string" where
  "pad n = (if n < 10 then CHR ''0'' # show_int n else show_int n)"

definition human_minutes :: "ParsedCronExpression \<Rightarrow> string option" where
  "human_minutes expr =
     (if isFullRange (hours expr) 0 23 \<and> daysOfMonthWildcard expr \<and> isFullRange (months expr) 1 12
         \<and> daysOfWeekWildcard expr
      then case detectStep (minutes expr) 0 59 of
          Some step \<Rightarrow>
            if step > 1 then Some (''every '' @ show_int step @ '' minutes'')
            else if isFullRange (minutes expr) 0 59 then Some ''every minute''
            else if length (minutes expr) = 1
            then Some (''at minute '' @ show_int (minutes expr ! 0) @ '' of every hour'') else None
        | None \<Rightarrow>
            if isFullRange (minutes expr) 0 59 then Some ''every minute''
            else if length (minutes expr) = 1
            then Some (''at minute '' @ show_int (minutes expr ! 0) @ '' of every hour'') else None
      else None)"

definition human_hours :: "ParsedCronExpression \<Rightarrow> string option" where
  "human_hours expr =
     (if length (minutes expr) = 1 \<and> daysOfMonthWildcard expr \<and> isFullRange (months expr) 1 12
         \<and> daysOfWeekWildcard expr
      then case detectStep (hours expr) 0 23 of
          Some step \<Rightarrow>
            if step > 1
            then Some (''every '' @ show_int step @ '' hours at minute '' @ pad (minutes expr ! 0)) else None
        | None \<Rightarrow> None
      else None)"

definition human_daily :: "ParsedCronExpression \<Rightarrow> string option" where
  "human_daily expr =
     (if length (minutes expr) = 1 \<and> length (hours expr) = 1 \<and> daysOfMonthWildcard expr
         \<and> isFullRange (months expr) 1 12
      then let at = ''at '' @ pad (hours expr ! 0) @ '':'' @ pad (minutes expr ! 0) in
        if daysOfWeekWildcard expr then Some (at @ '' every day'')
        else case formatDows (daysOfWeek expr) of Some dows \<Rightarrow> Some (at @ '' on '' @ dows) | None \<Rightarrow> None
      else None)"

definition human_date :: "ParsedCronExpression \<Rightarrow> string option" where
  "human_date expr =
     (if length (minutes expr) = 1 \<and> length (hours expr) = 1 \<and> length (daysOfMonth expr) = 1
         \<and> \<not> daysOfMonthWildcard expr \<and> length (months expr) = 1 \<and> daysOfWeekWildcard expr
      then Some (''at '' @ pad (hours expr ! 0) @ '':'' @ pad (minutes expr ! 0) @ '' on day ''
        @ show_int (daysOfMonth expr ! 0) @ '' of '' @ MONTH_NAMES ! nat (months expr ! 0 - 1))
      else None)"

definition cronToHuman :: "ParsedCronExpression \<Rightarrow> string" where
  "cronToHuman expr =
     (case human_minutes expr of Some s \<Rightarrow> s | None \<Rightarrow>
     (case human_hours expr of Some s \<Rightarrow> s | None \<Rightarrow>
     (case human_daily expr of Some s \<Rightarrow> s | None \<Rightarrow>
     (case human_date expr of Some s \<Rightarrow> s | None \<Rightarrow> raw expr))))"

end
