(* ===== verification/Cron_Jitter.thy ===== *)
theory Cron_Jitter
  imports Complex_Main "HOL-Library.Word" Cron_Expr
begin

text \<open>
  \<open>packages/agent-core/src/tools/cron/jitter.ts\<close>: the deterministic shift of a fire time by a
  hash of the task id, and \<open>CronTask\<close> of \<open>types.ts\<close>.

  The shifted times are fractional, so they are rational numbers here, and every product and sum
  the code computes on them is rounded to a binary64 number by \<open>double\<close> (round to nearest, ties to
  even). The quotient of a 32-bit number by \<open>2 ^ 32\<close> is exact. The environment variable and
  the time zone are fields of the environment.
\<close>

section \<open>Binary64 rounding\<close>

definition round_half_even :: "rat \<Rightarrow> int" where
  "round_half_even q =
     (let f = floor q; d = q - of_int f in
      if d < 1 / 2 then f else if 1 / 2 < d then f + 1 else if even f then f else f + 1)"

text \<open>
  The unit in the last place of a number: the power of two \<open>u\<close> with
  \<open>2 ^ 52 * u \<le> \<bar>x\<bar> < 2 ^ 53 * u\<close>, but not below \<open>2 ^ - 1074\<close>.
\<close>

fun unit_down :: "nat \<Rightarrow> rat \<Rightarrow> rat \<Rightarrow> rat" where
  "unit_down n u x =
     (if n = 0 \<or> 4503599627370496 * u \<le> \<bar>x\<bar> then u else unit_down (n - 1) (u / 2) x)"

fun unit_up :: "nat \<Rightarrow> rat \<Rightarrow> rat \<Rightarrow> rat" where
  "unit_up n u x =
     (if n = 0 \<or> \<bar>x\<bar> < 9007199254740992 * u then u else unit_up (n - 1) (2 * u) x)"

declare unit_down.simps [simp del] unit_up.simps [simp del]

definition last_place :: "rat \<Rightarrow> rat" where
  "last_place x = (if \<bar>x\<bar> < 9007199254740992 then unit_down 1074 1 x else unit_up 971 2 x)"

definition double :: "rat \<Rightarrow> rat" where
  "double x = last_place x * of_int (round_half_even (x / last_place x))"

section \<open>Tasks and tunables\<close>

record CronTask =
  task_id :: string
  cron :: string
  prompt :: string
  createdAt :: ms
  recurring :: "bool option"
  lastFiredAt :: "ms option"

record JitterConfig =
  recurringMaxFractionOfPeriod :: rat
  recurringMaxMs :: int
  oneShotMaxMs :: int

text \<open>The literal \<open>0.1\<close> is the binary64 number nearest to one tenth.\<close>

definition DEFAULT_CRON_JITTER_CONFIG :: JitterConfig where
  "DEFAULT_CRON_JITTER_CONFIG = \<lparr>recurringMaxFractionOfPeriod = 3602879701896397 / 36028797018963968,
     recurringMaxMs = 15 * 60000, oneShotMaxMs = 90000\<rparr>"

record cron_env =
  env_zone :: zone
  env_no_jitter :: bool

definition MS_PER_DAY :: int where "MS_PER_DAY = 24 * 60 * 60000"

section \<open>The hash of a task id\<close>

definition is_hex :: "char \<Rightarrow> bool" where
  "is_hex c \<longleftrightarrow> is_digit c \<or> c \<in> set ''abcdefABCDEF''"

definition hex_value :: "char \<Rightarrow> int" where
  "hex_value c = (if is_digit c then of_char c - 48
     else if (of_char c :: int) \<ge> 97 then of_char c - 87 else of_char c - 55)"

definition parse_hex :: "string \<Rightarrow> int" where
  "parse_hex s = foldl (\<lambda>n c. 16 * n + hex_value c) 0 s"

definition djb2 :: "string \<Rightarrow> 32 word" where
  "djb2 s = foldl (\<lambda>h c. push_bit 5 h + h + of_char c) 5381 s"

definition fractionFromId :: "string \<Rightarrow> rat" where
  "fractionFromId s =
     (if length s = 8 \<and> list_all is_hex s then of_int (parse_hex s) / 4294967296
      else of_int (uint (djb2 s)) / 4294967296)"

section \<open>The two flavours\<close>

definition jitteredNextCronRunMs ::
  "cron_env \<Rightarrow> CronTask \<Rightarrow> ParsedCronExpression \<Rightarrow> ms \<Rightarrow> JitterConfig \<Rightarrow> rat" where
  "jitteredNextCronRunMs env task parsed idealMs config =
     (if env_no_jitter env then of_int idealMs
      else
        let period = (case computeNextCronRun (env_zone env) parsed idealMs of
                Some nextNext \<Rightarrow> if nextNext > idealMs then nextNext - idealMs else MS_PER_DAY
              | None \<Rightarrow> MS_PER_DAY);
            periodCap = double (of_int period * recurringMaxFractionOfPeriod config);
            cap = min periodCap (of_int (recurringMaxMs config))
        in if \<not> cap > 0 then of_int idealMs
           else double (of_int idealMs + double (cap * fractionFromId (task_id task))))"

definition oneShotJitteredNextCronRunMs :: "cron_env \<Rightarrow> CronTask \<Rightarrow> ms \<Rightarrow> JitterConfig \<Rightarrow> rat" where
  "oneShotJitteredNextCronRunMs env task idealMs config =
     (if env_no_jitter env then of_int idealMs
      else if idealMs mod 60000 \<noteq> 0 then of_int idealMs
      else if getMinutes (env_zone env) idealMs \<notin> {0, 30} then of_int idealMs
      else if \<not> oneShotMaxMs config > 0 then of_int idealMs
      else
        let offset = double (- of_int (oneShotMaxMs config) * fractionFromId (task_id task));
            shifted = double (of_int idealMs + offset)
        in if shifted < of_int (createdAt task) then of_int idealMs else shifted)"

section \<open>Rounding keeps integer bounds\<close>

lemma round_half_even_le: "q \<le> of_int m \<Longrightarrow> round_half_even q \<le> m"
proof -
  assume q: "q \<le> of_int m"
  show ?thesis
  proof (cases "floor q = m")
    case True
    then have "q = of_int m" using q by (metis floor_correct order_antisym)
    then show ?thesis by (simp add: round_half_even_def Let_def)
  next
    case False
    then have "floor q < m" using q by (simp add: floor_less_iff floor_le_iff le_less) linarith
    then show ?thesis by (simp add: round_half_even_def Let_def)
  qed
qed

lemma round_half_even_ge: "of_int m \<le> q \<Longrightarrow> m \<le> round_half_even q"
proof -
  assume "of_int m \<le> q"
  then have "m \<le> floor q" by (simp add: le_floor_iff)
  then show ?thesis by (simp add: round_half_even_def Let_def)
qed

lemma unit_down_divides: "\<exists>k. unit_down n u x = u / 2 ^ k"
proof (induction n u x rule: unit_down.induct)
  case (1 n u x)
  show ?case
  proof (cases "n = 0 \<or> 4503599627370496 * u \<le> \<bar>x\<bar>")
    case True
    then show ?thesis by (subst unit_down.simps) (simp add: exI [of _ 0])
  next
    case False
    from 1 [OF False] obtain k where "unit_down (n - 1) (u / 2) x = u / 2 / 2 ^ k" by blast
    then have "unit_down n u x = u / 2 ^ Suc k" using False by (subst unit_down.simps) simp
    then show ?thesis by blast
  qed
qed

lemma double_bounds:
  assumes "\<bar>x\<bar> < 9007199254740992"
  shows "x \<le> of_int n \<Longrightarrow> double x \<le> of_int n" "of_int n \<le> x \<Longrightarrow> of_int n \<le> double x"
proof -
  obtain k where u: "last_place x = 1 / 2 ^ k"
    using unit_down_divides [of 1074 1 x] assms by (auto simp: last_place_def)
  have d: "double x = of_int (round_half_even (x * 2 ^ k)) / 2 ^ k" by (simp add: double_def u)
  have m: "(of_int n :: rat) * 2 ^ k = of_int (n * 2 ^ k)" by simp
  show "double x \<le> of_int n" if "x \<le> of_int n"
  proof -
    have "x * 2 ^ k \<le> of_int (n * 2 ^ k)" using that by simp
    from round_half_even_le [OF this] have "(of_int (round_half_even (x * 2 ^ k)) :: rat) \<le> of_int (n * 2 ^ k)"
      by (rule of_int_le_iff [THEN iffD2])
    then show ?thesis by (simp add: d divide_le_eq)
  qed
  show "of_int n \<le> double x" if "of_int n \<le> x"
  proof -
    have "of_int (n * 2 ^ k) \<le> x * 2 ^ k" using that by simp
    from round_half_even_ge [OF this] have "(of_int (n * 2 ^ k) :: rat) \<le> of_int (round_half_even (x * 2 ^ k))"
      by (rule of_int_le_iff [THEN iffD2])
    then show ?thesis by (simp add: d le_divide_eq)
  qed
qed

end
