(* ===== verification/Cron_Scheduler.thy ===== *)
theory Cron_Scheduler
  imports Cron_Jitter
begin

text \<open>
  \<open>packages/agent-core/src/tools/cron/scheduler.ts\<close>: the state that \<open>createCronScheduler\<close>
  closes over and its operations. The callbacks of \<open>CronSchedulerOptions\<close> act on a world of
  type \<open>'w\<close>, which the manager instantiates with itself. \<open>onFire\<close> also says whether it
  returned; the scheduler swallows what the other callbacks throw, so they only return the world.

  A \<open>Map\<close> is an association list, a \<open>Set\<close> a list without duplicates. The trace on standard
  error under \<open>NORI_CRON_DEBUG\<close> is not modelled.
\<close>

record 'w CronSchedulerOptions =
  wallNow :: "'w \<Rightarrow> ms"
  source :: "'w \<Rightarrow> CronTask list"
  onFire :: "CronTask \<Rightarrow> int \<Rightarrow> 'w \<Rightarrow> bool \<times> 'w"
  isIdle :: "'w \<Rightarrow> bool"
  isKilled :: "'w \<Rightarrow> bool"
  removeOneShot :: "string \<Rightarrow> 'w \<Rightarrow> 'w"
  onAdvanceCursor :: "string \<Rightarrow> ms \<Rightarrow> 'w \<Rightarrow> 'w"
  pollIntervalMs :: "int option option"

record CronScheduler =
  parsedCache :: "(string \<times> ParsedCronExpression) list"
  lastSeenAt :: "(string \<times> ms) list"
  seededFromDisk :: "string list"
  inFlight :: "string list"
  timerHandle :: "int option"

definition createCronScheduler :: CronScheduler where
  "createCronScheduler = \<lparr>parsedCache = [], lastSeenAt = [], seededFromDisk = [], inFlight = [], timerHandle = None\<rparr>"

definition DEFAULT_POLL_INTERVAL_MS :: int where "DEFAULT_POLL_INTERVAL_MS = 1000"
definition MAX_COALESCE_ITERATIONS :: int where "MAX_COALESCE_ITERATIONS = 10000"

section \<open>One task\<close>

definition getParsed :: "string \<Rightarrow> CronScheduler \<Rightarrow> (cron_error + ParsedCronExpression) \<times> CronScheduler" where
  "getParsed expr st =
     (case map_of (parsedCache st) expr of
        Some cached \<Rightarrow> (Inr cached, st)
      | None \<Rightarrow> (case parseCronExpression expr of
            Inl e \<Rightarrow> (Inl e, st)
          | Inr parsed \<Rightarrow> (Inr parsed, st\<lparr>parsedCache := AList.update expr parsed (parsedCache st)\<rparr>)))"

text \<open>When an ideal occurrence of a task is delivered.\<close>

definition delivery_time :: "cron_env \<Rightarrow> CronTask \<Rightarrow> ParsedCronExpression \<Rightarrow> ms \<Rightarrow> rat" where
  "delivery_time env task parsed ideal =
     (if recurring task = Some False
      then oneShotJitteredNextCronRunMs env task ideal DEFAULT_CRON_JITTER_CONFIG
      else jitteredNextCronRunMs env task parsed ideal DEFAULT_CRON_JITTER_CONFIG)"

definition computeJitteredNext :: "cron_env \<Rightarrow> CronTask \<Rightarrow> ParsedCronExpression \<Rightarrow> ms \<Rightarrow> rat option" where
  "computeJitteredNext env task parsed baseMs =
     (case computeNextCronRun (env_zone env) parsed baseMs of
        None \<Rightarrow> None
      | Some ideal \<Rightarrow> Some (delivery_time env task parsed ideal))"

text \<open>
  The loop of \<open>countCoalesced\<close>, over any next-occurrence function \<open>nxt\<close> and delivery time
  \<open>due\<close>: \<open>n\<close> is \<open>count\<close>, \<open>cursor\<close> is both \<open>cursor\<close> and \<open>lastDueMs\<close>, which the loop
  assigns together.
\<close>

function coalesce :: "(ms \<Rightarrow> ms option) \<Rightarrow> (ms \<Rightarrow> rat) \<Rightarrow> ms \<Rightarrow> int \<Rightarrow> ms \<Rightarrow> int \<times> ms" where
  "coalesce nxt due nowMs n cursor =
     (if n < MAX_COALESCE_ITERATIONS then
        (case nxt cursor of
           None \<Rightarrow> (n, cursor)
         | Some next \<Rightarrow>
             if next > nowMs then (n, cursor)
             else if due next > of_int nowMs then (n, cursor)
             else coalesce nxt due nowMs (n + 1) next)
      else (n, cursor))"
  by pat_completeness auto
termination
  by (relation "measure (\<lambda>(nxt, due, nowMs, n, cursor). nat (MAX_COALESCE_ITERATIONS - n))") auto

declare coalesce.simps [simp del]

definition countCoalesced :: "cron_env \<Rightarrow> CronTask \<Rightarrow> ParsedCronExpression \<Rightarrow> ms \<Rightarrow> ms \<Rightarrow> int \<times> ms" where
  "countCoalesced env task parsed firstFireMs nowMs =
     coalesce (computeNextCronRun (env_zone env) parsed) (delivery_time env task parsed) nowMs 1 firstFireMs"

definition seed :: "ms \<Rightarrow> CronTask \<Rightarrow> CronScheduler \<Rightarrow> CronScheduler" where
  "seed now task st =
     (let st' = (case lastFiredAt task of
            Some fired \<Rightarrow>
              if task_id task \<notin> set (seededFromDisk st) \<and> fired \<le> now
                \<and> map_of (lastSeenAt st) (task_id task) = None
              then st\<lparr>lastSeenAt := AList.update (task_id task) fired (lastSeenAt st)\<rparr>
              else st
          | None \<Rightarrow> st)
      in st'\<lparr>seededFromDisk := oset_add (task_id task) (seededFromDisk st')\<rparr>)"

definition baseFromMs :: "CronTask \<Rightarrow> CronScheduler \<Rightarrow> ms" where
  "baseFromMs task st =
     (case map_of (lastSeenAt st) (task_id task) of
        Some seen \<Rightarrow> if seen > createdAt task then seen else createdAt task
      | None \<Rightarrow> createdAt task)"

text \<open>The occurrences a due task delivers at once: how many, and the last of them if any.\<close>

definition coalesced :: "cron_env \<Rightarrow> CronTask \<Rightarrow> ParsedCronExpression \<Rightarrow> ms \<Rightarrow> ms \<Rightarrow> int \<times> ms option" where
  "coalesced env task parsed base now =
     (case computeNextCronRun (env_zone env) parsed base of
        Some ideal \<Rightarrow>
          if recurring task \<noteq> Some False
          then let (count, lastDueMs) = countCoalesced env task parsed ideal now in (max 1 count, Some lastDueMs)
          else (1, None)
      | None \<Rightarrow> (1, None))"

definition delivered_task :: "'w CronSchedulerOptions \<Rightarrow> ms \<Rightarrow> CronTask \<Rightarrow> ms option
    \<Rightarrow> CronScheduler \<Rightarrow> 'w \<Rightarrow> CronScheduler \<times> 'w" where
  "delivered_task opts now task lastDueMs st w =
     (if recurring task = Some False then
        (st\<lparr>lastSeenAt := AList.delete (task_id task) (lastSeenAt st),
            seededFromDisk := oset_remove (task_id task) (seededFromDisk st)\<rparr>,
         removeOneShot opts (task_id task) w)
      else
        let advancedTo = (case lastDueMs of Some t \<Rightarrow> t | None \<Rightarrow> now) in
        (st\<lparr>lastSeenAt := AList.update (task_id task) advancedTo (lastSeenAt st)\<rparr>,
         onAdvanceCursor opts (task_id task) advancedTo w))"

definition fire_task :: "cron_env \<Rightarrow> 'w CronSchedulerOptions \<Rightarrow> ms \<Rightarrow> CronTask \<Rightarrow> ParsedCronExpression
    \<Rightarrow> CronScheduler \<Rightarrow> 'w \<Rightarrow> CronScheduler \<times> 'w" where
  "fire_task env opts now task parsed st w =
     (let (coalescedCount, lastDueMs) = coalesced env task parsed (baseFromMs task st) now;
          st = st\<lparr>inFlight := oset_add (task_id task) (inFlight st)\<rparr>;
          (delivered, w) = onFire opts task coalescedCount w
      in if delivered then delivered_task opts now task lastDueMs st w else (st, w))"

definition tick_task :: "cron_env \<Rightarrow> 'w CronSchedulerOptions \<Rightarrow> ms \<Rightarrow> CronTask
    \<Rightarrow> CronScheduler \<times> 'w \<Rightarrow> CronScheduler \<times> 'w" where
  "tick_task env opts now task = (\<lambda>(st, w).
     if task_id task \<in> set (inFlight st) then (st, w)
     else case getParsed (cron task) st of
        (Inl e, st) \<Rightarrow> (st, w)
      | (Inr parsed, st) \<Rightarrow>
          let st = seed now task st in
          (case computeJitteredNext env task parsed (baseFromMs task st) of
             None \<Rightarrow> (st, w)
           | Some nextFireAt \<Rightarrow>
               if of_int now < nextFireAt then (st, w)
               else fire_task env opts now task parsed st w))"

section \<open>The operations of the scheduler\<close>

definition tick :: "cron_env \<Rightarrow> 'w CronSchedulerOptions \<Rightarrow> CronScheduler \<Rightarrow> 'w \<Rightarrow> CronScheduler \<times> 'w" where
  "tick env opts st w =
     (if isKilled opts w then (st, w)
      else if \<not> isIdle opts w then (st, w)
      else if source opts w = [] then (st, w)
      else
        let (st', w') = fold (tick_task env opts (wallNow opts w)) (source opts w) (st, w)
        in (st'\<lparr>inFlight := []\<rparr>, w'))"

definition start :: "'w CronSchedulerOptions \<Rightarrow> CronScheduler \<Rightarrow> CronScheduler" where
  "start opts st =
     (if timerHandle st \<noteq> None then st
      else case (case pollIntervalMs opts of None \<Rightarrow> Some DEFAULT_POLL_INTERVAL_MS | Some interval \<Rightarrow> interval) of
        None \<Rightarrow> st
      | Some interval \<Rightarrow> if interval = 0 then st else st\<lparr>timerHandle := Some interval\<rparr>)"

definition stop :: "CronScheduler \<Rightarrow> CronScheduler" where
  "stop st = st\<lparr>timerHandle := None, inFlight := [], lastSeenAt := [], seededFromDisk := [], parsedCache := []\<rparr>"

definition nextFireFor :: "cron_env \<Rightarrow> 'w CronSchedulerOptions \<Rightarrow> 'w \<Rightarrow> CronTask \<Rightarrow> CronScheduler
    \<Rightarrow> rat option \<times> CronScheduler" where
  "nextFireFor env opts w task st =
     (case getParsed (cron task) st of
        (Inl e, st) \<Rightarrow> (None, st)
      | (Inr parsed, st) \<Rightarrow>
          let persistedCursor = (case lastFiredAt task of
                Some fired \<Rightarrow> if fired \<le> wallNow opts w then Some fired else None
              | None \<Rightarrow> None);
              cursor = (case map_of (lastSeenAt st) (task_id task) of Some seen \<Rightarrow> Some seen | None \<Rightarrow> persistedCursor);
              base = (case cursor of Some c \<Rightarrow> if c > createdAt task then c else createdAt task
                      | None \<Rightarrow> createdAt task)
          in (computeJitteredNext env task parsed base, st))"

fun earliest_fire :: "cron_env \<Rightarrow> 'w CronSchedulerOptions \<Rightarrow> 'w \<Rightarrow> CronTask list \<Rightarrow> rat option
    \<Rightarrow> CronScheduler \<Rightarrow> rat option \<times> CronScheduler" where
  "earliest_fire env opts w [] m st = (m, st)"
| "earliest_fire env opts w (task # tasks) m st =
     (case nextFireFor env opts w task st of
        (None, st) \<Rightarrow> earliest_fire env opts w tasks m st
      | (Some next, st) \<Rightarrow>
          earliest_fire env opts w tasks
            (case m of None \<Rightarrow> Some next | Some least \<Rightarrow> if next < least then Some next else Some least) st)"

definition getNextFireTime :: "cron_env \<Rightarrow> 'w CronSchedulerOptions \<Rightarrow> 'w \<Rightarrow> CronScheduler
    \<Rightarrow> rat option \<times> CronScheduler" where
  "getNextFireTime env opts w st =
     (if source opts w = [] then (None, st) else earliest_fire env opts w (source opts w) None st)"

definition getNextFireForTask :: "cron_env \<Rightarrow> 'w CronSchedulerOptions \<Rightarrow> 'w \<Rightarrow> string \<Rightarrow> CronScheduler
    \<Rightarrow> rat option \<times> CronScheduler" where
  "getNextFireForTask env opts w taskId st =
     (case find (\<lambda>t. task_id t = taskId) (source opts w) of
        None \<Rightarrow> (None, st)
      | Some task \<Rightarrow> nextFireFor env opts w task st)"

end
