(* ===== verification/Cron_Manager.thy ===== *)
theory Cron_Manager
  imports Cron_Scheduler Xml_Escape
begin

text \<open>
  \<open>packages/agent-core/src/tools/cron/session-store.ts\<close> (the store),
  \<open>agent/cron/manager.ts\<close> (the manager), \<open>tools/cron/cron-fire-xml.ts\<close> (the text of a fire)
  and the two callers that create and delete tasks: \<open>tools/cron/operations.ts\<close> and the tool
  classes of \<open>cron-create.ts\<close> and \<open>cron-delete.ts\<close>.

  The store is a \<open>Map\<close>, an association list by id. The files under \<open><sessionDir>/cron\<close>
  are \<open>disk\<close>; a mutation queues a write or an unlink behind the earlier ones of the same id
  (\<open>persistQueues\<close>), and \<open>settle\<close> lets the head of one queue finish, in success or failure.
  The result of \<open>readdir\<close> and the random bytes are arguments, and the clock, the environment
  variables and the state of the turn are fields that only the surroundings change.
\<close>

section \<open>The session store\<close>

type_synonym SessionCronStore = "(string \<times> CronTask) list"

definition is_lower_hex :: "char \<Rightarrow> bool" where
  "is_lower_hex c \<longleftrightarrow> is_digit c \<or> c \<in> set ''abcdef''"

definition cron_id_ok :: "string \<Rightarrow> bool" where
  "cron_id_ok s \<longleftrightarrow> length s = 8 \<and> list_all is_lower_hex s"

definition MAX_ID_ATTEMPTS :: nat where "MAX_ID_ATTEMPTS = 8"

definition generateUniqueId :: "string list \<Rightarrow> SessionCronStore \<Rightarrow> string option" where
  "generateUniqueId candidates tasks =
     find (\<lambda>c. cron_id_ok c \<and> map_of tasks c = None) (take MAX_ID_ATTEMPTS candidates)"

definition store_add :: "string list \<Rightarrow> string \<Rightarrow> string \<Rightarrow> bool option \<Rightarrow> ms \<Rightarrow> SessionCronStore
    \<Rightarrow> (CronTask \<times> SessionCronStore) option" where
  "store_add candidates cron_expr prompt_text recur nowMs tasks =
     (case generateUniqueId candidates tasks of
        None \<Rightarrow> None
      | Some i \<Rightarrow>
          let task = \<lparr>task_id = i, cron = cron_expr, prompt = prompt_text, createdAt = nowMs,
                recurring = recur, lastFiredAt = None\<rparr>
          in Some (task, AList.update i task tasks))"

definition store_adopt :: "CronTask \<Rightarrow> SessionCronStore \<Rightarrow> SessionCronStore" where
  "store_adopt task tasks = AList.update (task_id task) task tasks"

definition store_markFired :: "string \<Rightarrow> ms \<Rightarrow> SessionCronStore \<Rightarrow> CronTask option \<times> SessionCronStore" where
  "store_markFired i fired tasks =
     (case map_of tasks i of
        None \<Rightarrow> (None, tasks)
      | Some existing \<Rightarrow>
          let updated = existing\<lparr>lastFiredAt := Some fired\<rparr> in (Some updated, AList.update i updated tasks))"

definition store_list :: "SessionCronStore \<Rightarrow> CronTask list" where
  "store_list tasks = map snd tasks"

fun store_remove :: "string list \<Rightarrow> SessionCronStore \<Rightarrow> string list \<times> SessionCronStore" where
  "store_remove [] tasks = ([], tasks)"
| "store_remove (i # ids) tasks =
     (case map_of tasks i of
        None \<Rightarrow> store_remove ids tasks
      | Some _ \<Rightarrow> let (removed, tasks') = store_remove ids (AList.delete i tasks) in (i # removed, tasks'))"

section \<open>The manager\<close>

datatype disk_op = Disk_write CronTask | Disk_remove

record CronJobOrigin =
  jobId :: string
  job_cron :: string
  job_recurring :: bool
  coalescedCount :: int
  stale :: bool

datatype cron_event =
    Cron_fired CronJobOrigin string
  | Cron_telemetry_fired bool int bool bool
  | Cron_telemetry_missed nat
  | Cron_telemetry_scheduled bool
  | Cron_telemetry_deleted string

datatype cron_origin = Job CronJobOrigin | Missed nat

text \<open>The \<open>activeTurn\<close> field of \<open>TurnFlow\<close>.\<close>

datatype turn_slot = No_turn | Resuming | Active_turn

record CronManager =
  mg_env :: cron_env
  mg_store :: SessionCronStore
  persistStore :: bool
  disk :: "(string \<times> CronTask) list"
  persistQueues :: "(string \<times> disk_op list) list"
  mg_now :: ms
  activeTurn :: turn_slot
  isCompacting :: bool
  steered :: "(string \<times> cron_origin) list"
  steerBuffer :: "(string \<times> cron_origin) list"
  cron_events :: "cron_event list"
  env_disabled :: bool
  env_no_stale :: bool
  manual_tick :: bool
  poll_option :: "int option option"

definition hasActiveTurn :: "CronManager \<Rightarrow> bool" where
  "hasActiveTurn m \<longleftrightarrow> activeTurn m = Active_turn"

definition STALE_THRESHOLD_MS :: int where "STALE_THRESHOLD_MS = 7 * 24 * 60 * 60 * 1000"

definition persistEnqueue :: "string \<Rightarrow> disk_op \<Rightarrow> CronManager \<Rightarrow> CronManager" where
  "persistEnqueue i work m =
     (if \<not> persistStore m then m
      else let prev = (case map_of (persistQueues m) i of Some ops \<Rightarrow> ops | None \<Rightarrow> [])
        in m\<lparr>persistQueues := AList.update i (prev @ [work]) (persistQueues m)\<rparr>)"

definition disk_apply :: "string \<Rightarrow> disk_op \<Rightarrow> (string \<times> CronTask) list \<Rightarrow> (string \<times> CronTask) list" where
  "disk_apply i work d =
     (case work of Disk_write task \<Rightarrow> AList.update i task d | Disk_remove \<Rightarrow> AList.delete i d)"

text \<open>The head of the queue of one id settles: it reaches the disk, or it fails and is logged.\<close>

definition settle :: "string \<Rightarrow> bool \<Rightarrow> CronManager \<Rightarrow> CronManager" where
  "settle i ok m =
     (case map_of (persistQueues m) i of
        Some (work # rest) \<Rightarrow>
          m\<lparr>persistQueues := (if rest = [] then AList.delete i (persistQueues m)
               else AList.update i rest (persistQueues m)),
            disk := (if ok then disk_apply i work (disk m) else disk m)\<rparr>
      | _ \<Rightarrow> m)"

definition addTask :: "string list \<Rightarrow> string \<Rightarrow> string \<Rightarrow> bool option \<Rightarrow> CronManager
    \<Rightarrow> (CronTask \<times> CronManager) option" where
  "addTask candidates cron_expr prompt_text recur m =
     (case store_add candidates cron_expr prompt_text recur (mg_now m) (mg_store m) of
        None \<Rightarrow> None
      | Some (task, tasks) \<Rightarrow>
          Some (task, persistEnqueue (task_id task) (Disk_write task) (m\<lparr>mg_store := tasks\<rparr>)))"

definition removeTasks :: "string list \<Rightarrow> CronManager \<Rightarrow> string list \<times> CronManager" where
  "removeTasks ids m =
     (let (removed, tasks) = store_remove ids (mg_store m)
      in (removed, fold (\<lambda>i. persistEnqueue i Disk_remove) removed (m\<lparr>mg_store := tasks\<rparr>)))"

definition advanceCursor :: "string \<Rightarrow> ms \<Rightarrow> CronManager \<Rightarrow> CronManager" where
  "advanceCursor i fired m =
     (case store_markFired i fired (mg_store m) of
        (None, tasks) \<Rightarrow> m\<lparr>mg_store := tasks\<rparr>
      | (Some updated, tasks) \<Rightarrow>
          let m = m\<lparr>mg_store := tasks\<rparr> in
          if \<not> persistStore m then m else persistEnqueue i (Disk_write updated) m)"

definition loadFromDisk :: "string list \<Rightarrow> CronManager \<Rightarrow> CronManager" where
  "loadFromDisk entries m =
     (if \<not> persistStore m then m
      else m\<lparr>mg_store := foldl (\<lambda>tasks i. case map_of (disk m) i of
               Some task \<Rightarrow> if cron_id_ok i then store_adopt task tasks else tasks
             | None \<Rightarrow> tasks) [] entries\<rparr>)"

definition isStale :: "CronTask \<Rightarrow> CronManager \<Rightarrow> bool" where
  "isStale task m \<longleftrightarrow> \<not> env_no_stale m \<and> recurring task \<noteq> Some False
     \<and> mg_now m - createdAt task \<ge> STALE_THRESHOLD_MS"

text \<open>\<open>TurnFlow.steer\<close> as far as the manager sees it: buffered, or a turn is launched.\<close>

definition steer :: "string \<Rightarrow> cron_origin \<Rightarrow> CronManager \<Rightarrow> bool \<times> CronManager" where
  "steer content origin m =
     (if activeTurn m \<noteq> No_turn \<or> isCompacting m
      then (False, m\<lparr>steerBuffer := steerBuffer m @ [(content, origin)]\<rparr>)
      else (True, m\<lparr>activeTurn := Active_turn, steered := steered m @ [(content, origin)]\<rparr>))"

definition cron_emit :: "cron_event \<Rightarrow> CronManager \<Rightarrow> CronManager" where
  "cron_emit e m = m\<lparr>cron_events := cron_events m @ [e]\<rparr>"

definition emitScheduled :: "CronTask \<Rightarrow> CronManager \<Rightarrow> CronManager" where
  "emitScheduled task = cron_emit (Cron_telemetry_scheduled (recurring task \<noteq> Some False))"

definition emitDeleted :: "string \<Rightarrow> CronManager \<Rightarrow> CronManager" where
  "emitDeleted i = cron_emit (Cron_telemetry_deleted i)"

definition show_bool :: "bool \<Rightarrow> string" where
  "show_bool b = (if b then ''true'' else ''false'')"

definition cronAttr :: "string \<Rightarrow> string \<Rightarrow> string" where
  "cronAttr v fallback = (if v = [] then fallback else escapeXmlAttr v)"

text \<open>\<open>guidance\<close> is the trimmed text of \<open>cron-result-guidance.md\<close>.\<close>

definition renderCronFireXml :: "string \<Rightarrow> CronJobOrigin \<Rightarrow> string \<Rightarrow> string" where
  "renderCronFireXml guidance origin prompt_text =
     concat (map (\<lambda>l. l @ [CHR 0x0A])
       [''<cron-fire jobId='' @ [CHR 0x22] @ cronAttr (jobId origin) ''unknown'' @ [CHR 0x22]
          @ '' cron='' @ [CHR 0x22] @ cronAttr (job_cron origin) ''unknown'' @ [CHR 0x22]
          @ '' recurring='' @ [CHR 0x22] @ show_bool (job_recurring origin) @ [CHR 0x22]
          @ '' coalescedCount='' @ [CHR 0x22] @ show_int (coalescedCount origin) @ [CHR 0x22]
          @ '' stale='' @ [CHR 0x22] @ show_bool (stale origin) @ [CHR 0x22] @ ''>'',
        ''<prompt>'', prompt_text, [],
        ''<result-guidance>'', guidance, ''</result-guidance>'',
        ''</prompt>'']) @ ''</cron-fire>''"

definition handleFire :: "string \<Rightarrow> CronTask \<Rightarrow> int \<Rightarrow> CronManager \<Rightarrow> CronManager" where
  "handleFire guidance task cnt m =
     (let old = isStale task m;
          origin = \<lparr>jobId = task_id task, job_cron = cron task, job_recurring = (recurring task \<noteq> Some False),
            coalescedCount = cnt, stale = old\<rparr>;
          m = cron_emit (Cron_fired origin (prompt task)) m;
          (launched, m) = steer (renderCronFireXml guidance origin (prompt task)) (Job origin) m;
          m = cron_emit (Cron_telemetry_fired (recurring task \<noteq> Some False) cnt old (\<not> launched)) m
      in if old \<and> recurring task \<noteq> Some False
         then emitDeleted (task_id task) (snd (removeTasks [task_id task] m))
         else m)"

definition handleMissed :: "CronTask list \<Rightarrow> (CronTask list \<Rightarrow> string) \<Rightarrow> CronManager \<Rightarrow> CronManager" where
  "handleMissed tasks renderMissedNotification m =
     (if tasks = [] then m
      else cron_emit (Cron_telemetry_missed (length tasks))
        (snd (steer (renderMissedNotification tasks) (Missed (length tasks)) m)))"

definition cron_options :: "string \<Rightarrow> CronManager \<Rightarrow> CronManager CronSchedulerOptions" where
  "cron_options guidance m0 = \<lparr>wallNow = mg_now, source = (\<lambda>m. store_list (mg_store m)),
     onFire = (\<lambda>task cnt m. (True, handleFire guidance task cnt m)),
     isIdle = (\<lambda>m. \<not> hasActiveTurn m), isKilled = env_disabled,
     removeOneShot = (\<lambda>i m. snd (removeTasks [i] m)), onAdvanceCursor = advanceCursor,
     pollIntervalMs = (if manual_tick m0 then Some None else poll_option m0)\<rparr>"

definition manager_tick :: "string \<Rightarrow> CronScheduler \<times> CronManager \<Rightarrow> CronScheduler \<times> CronManager" where
  "manager_tick guidance = (\<lambda>(st, m). tick (mg_env m) (cron_options guidance m) st m)"

end
