(* ===== verification/Cron_Tools.thy ===== *)
theory Cron_Tools
  imports Cron_Manager
begin

text \<open>
  The two ways to create and delete a task: \<open>packages/agent-core/src/tools/cron/operations.ts\<close>
  (the direct one) and the tools of \<open>cron-create.ts\<close> and \<open>cron-delete.ts\<close>, which run in two
  steps: \<open>resolveExecution\<close> checks the arguments, and \<open>execute\<close> runs later, after the
  approval. The state at the two steps may differ, so each step takes its own manager.

  Every error is a value; its message text is left out where it only repeats the constructor.
\<close>

datatype cron_failure =
    Cron_disabled
  | Invalid_cron cron_error
  | No_fire_within_years string
  | Cron_cap_reached
  | Prompt_empty
  | Prompt_too_long nat
  | One_shot_too_far string ms
  | Invalid_cron_id string
  | No_such_cron string
  | Ids_exhausted

definition MAX_CRON_JOBS_PER_SESSION :: nat where "MAX_CRON_JOBS_PER_SESSION = 50"
definition MAX_CRON_PROMPT_BYTES :: nat where "MAX_CRON_PROMPT_BYTES = 8 * 1024"
definition ONE_SHOT_MAX_FUTURE_MS :: int where "ONE_SHOT_MAX_FUTURE_MS = 350 * 24 * 60 * 60 * 1000"

text \<open>\<open>Buffer.byteLength(s, 'utf8')\<close> for code units in the Latin-1 range.\<close>

definition byteLength :: "string \<Rightarrow> nat" where
  "byteLength s = sum_list (map (\<lambda>c. if (of_char c :: nat) < 128 then 1 else 2) s)"

fun join_spaces :: "string list \<Rightarrow> string" where
  "join_spaces [] = []"
| "join_spaces [w] = w"
| "join_spaces (w # ws) = w @ CHR '' '' # join_spaces ws"

definition normalizeCron :: "string \<Rightarrow> string" where
  "normalizeCron s = join_spaces (split_ws (js_trim s))"

record PreparedCronCreate =
  prepared_cron :: string
  prepared_prompt :: string
  prepared_recurring :: bool
  prepared_parsed :: ParsedCronExpression

section \<open>Direct operations\<close>

definition prepareCronCreate :: "CronManager \<Rightarrow> string \<Rightarrow> string \<Rightarrow> bool option
    \<Rightarrow> cron_failure + PreparedCronCreate" where
  "prepareCronCreate m input_cron input_prompt input_recurring =
     (if env_disabled m then Inl Cron_disabled
      else let c = normalizeCron input_cron in
      case parseCronExpression c of Inl e \<Rightarrow> Inl (Invalid_cron e) | Inr parsed \<Rightarrow>
      let now = mg_now m; z = env_zone (mg_env m); recur = (input_recurring \<noteq> Some False) in
      if \<not> hasFireWithinYears z parsed 5 now then Inl (No_fire_within_years c)
      else if length (store_list (mg_store m)) \<ge> MAX_CRON_JOBS_PER_SESSION then Inl Cron_cap_reached
      else if js_trim input_prompt = [] then Inl Prompt_empty
      else if byteLength input_prompt > MAX_CRON_PROMPT_BYTES
      then Inl (Prompt_too_long (byteLength input_prompt))
      else
        let prepared = \<lparr>prepared_cron = c, prepared_prompt = input_prompt, prepared_recurring = recur,
              prepared_parsed = parsed\<rparr>
        in if recur then Inr prepared
           else (case computeNextCronRun z parsed now of
               Some firstFire \<Rightarrow>
                 if firstFire - now > ONE_SHOT_MAX_FUTURE_MS then Inl (One_shot_too_far c firstFire)
                 else Inr prepared
             | None \<Rightarrow> Inr prepared))"

definition nextFireForNewTask :: "CronManager \<Rightarrow> CronTask \<Rightarrow> ParsedCronExpression \<Rightarrow> ms \<Rightarrow> rat option" where
  "nextFireForNewTask m task parsed now =
     (case computeNextCronRun (env_zone (mg_env m)) parsed now of
        None \<Rightarrow> None
      | Some ideal \<Rightarrow> Some (delivery_time (mg_env m) task parsed ideal))"

record CronTaskDetails =
  details_task :: CronTask
  details_recurring :: bool
  humanSchedule :: string
  nextFireAt :: "rat option"
  ageDays :: rat
  details_stale :: bool

definition projectCronTask :: "string \<Rightarrow> CronScheduler \<Rightarrow> CronManager \<Rightarrow> CronTask
    \<Rightarrow> ParsedCronExpression option \<Rightarrow> CronTaskDetails \<times> CronScheduler" where
  "projectCronTask guidance st m task knownParsed =
     (let now = mg_now m;
          details = (\<lambda>human due. \<lparr>details_task = task, details_recurring = (recurring task \<noteq> Some False),
            humanSchedule = human, nextFireAt = due,
            ageDays = double (of_int (now - createdAt task) / of_int MS_PER_DAY),
            details_stale = isStale task m\<rparr>)
      in case knownParsed of
           Some parsed \<Rightarrow> (details (cronToHuman parsed) (nextFireForNewTask m task parsed now), st)
         | None \<Rightarrow> (case parseCronExpression (cron task) of
               Inl _ \<Rightarrow> (details (cron task) None, st)
             | Inr parsed \<Rightarrow>
                 let (due, st') = getNextFireForTask (mg_env m) (cron_options guidance m) m (task_id task) st
                 in (details (cronToHuman parsed) due, st')))"

definition createCronTask :: "string \<Rightarrow> string list \<Rightarrow> CronScheduler \<times> CronManager \<Rightarrow> string \<Rightarrow> string
    \<Rightarrow> bool option \<Rightarrow> (cron_failure + CronTaskDetails) \<times> CronScheduler \<times> CronManager" where
  "createCronTask guidance candidates = (\<lambda>(st, m) input_cron input_prompt input_recurring.
     (case prepareCronCreate m input_cron input_prompt input_recurring of
        Inl e \<Rightarrow> (Inl e, st, m)
      | Inr prepared \<Rightarrow>
          (case addTask candidates (prepared_cron prepared) (prepared_prompt prepared)
               (Some (prepared_recurring prepared)) m of
             None \<Rightarrow> (Inl Ids_exhausted, st, m)
           | Some (task, m') \<Rightarrow>
               let m' = emitScheduled task m';
                   (details, st') = projectCronTask guidance st m' task (Some (prepared_parsed prepared))
               in (Inr details, st', m'))))"

fun listCronTasks :: "string \<Rightarrow> CronManager \<Rightarrow> CronTask list \<Rightarrow> CronScheduler
    \<Rightarrow> CronTaskDetails list \<times> CronScheduler" where
  "listCronTasks guidance m [] st = ([], st)"
| "listCronTasks guidance m (task # tasks) st =
     (let (details, st') = projectCronTask guidance st m task None;
          (rest, st'') = listCronTasks guidance m tasks st' in (details # rest, st''))"

definition deleteCronTask :: "CronManager \<Rightarrow> string \<Rightarrow> (cron_failure + unit) \<times> CronManager" where
  "deleteCronTask m i =
     (if \<not> cron_id_ok i then (Inl (Invalid_cron_id i), m)
      else let (removed, m') = removeTasks [i] m in
        if removed = [] then (Inl (No_such_cron i), m') else (Inr (), emitDeleted i m'))"

section \<open>The tools\<close>

definition CronCreate_resolve :: "CronManager \<Rightarrow> string \<Rightarrow> string \<Rightarrow> bool option
    \<Rightarrow> cron_failure + PreparedCronCreate" where
  "CronCreate_resolve m args_cron args_prompt args_recurring =
     (if env_disabled m then Inl Cron_disabled
      else let c = normalizeCron args_cron in
      case parseCronExpression c of Inl e \<Rightarrow> Inl (Invalid_cron e) | Inr parsed \<Rightarrow>
      let nowAtPrepare = mg_now m; z = env_zone (mg_env m); recur = (args_recurring \<noteq> Some False) in
      if \<not> hasFireWithinYears z parsed 5 nowAtPrepare then Inl (No_fire_within_years c)
      else if length (store_list (mg_store m)) \<ge> MAX_CRON_JOBS_PER_SESSION then Inl Cron_cap_reached
      else if byteLength args_prompt > MAX_CRON_PROMPT_BYTES
      then Inl (Prompt_too_long (byteLength args_prompt))
      else
        let prepared = \<lparr>prepared_cron = c, prepared_prompt = args_prompt, prepared_recurring = recur,
              prepared_parsed = parsed\<rparr>
        in if recur then Inr prepared
           else (case computeNextCronRun z parsed nowAtPrepare of
               Some firstFire \<Rightarrow>
                 if firstFire - nowAtPrepare > ONE_SHOT_MAX_FUTURE_MS then Inl (One_shot_too_far c firstFire)
                 else Inr prepared
             | None \<Rightarrow> Inr prepared))"

record CronCreateOutput =
  out_id :: string
  out_cron :: string
  out_humanSchedule :: string
  out_recurring :: bool
  out_nextFireAt :: "rat option"

definition CronCreate_execute :: "string list \<Rightarrow> PreparedCronCreate \<Rightarrow> CronManager
    \<Rightarrow> (cron_failure + CronCreateOutput) \<times> CronManager" where
  "CronCreate_execute candidates prepared m =
     (if length (store_list (mg_store m)) \<ge> MAX_CRON_JOBS_PER_SESSION then (Inl Cron_cap_reached, m)
      else case addTask candidates (prepared_cron prepared) (prepared_prompt prepared)
          (Some (prepared_recurring prepared)) m of
        None \<Rightarrow> (Inl Ids_exhausted, m)
      | Some (task, m') \<Rightarrow>
          (Inr \<lparr>out_id = task_id task, out_cron = prepared_cron prepared,
             out_humanSchedule = cronToHuman (prepared_parsed prepared),
             out_recurring = prepared_recurring prepared,
             out_nextFireAt = nextFireForNewTask m' task (prepared_parsed prepared) (mg_now m)\<rparr>,
           emitScheduled task m'))"

definition CronDelete_resolve :: "string \<Rightarrow> cron_failure + unit" where
  "CronDelete_resolve i = (if \<not> cron_id_ok i then Inl (Invalid_cron_id i) else Inr ())"

definition CronDelete_execute :: "string \<Rightarrow> CronManager \<Rightarrow> (cron_failure + unit) \<times> CronManager" where
  "CronDelete_execute i m =
     (let (removed, m') = removeTasks [i] m in
      if removed = [] then (Inl (No_such_cron i), m') else (Inr (), emitDeleted i m'))"

section \<open>Starting and stopping\<close>

definition manager_start :: "string \<Rightarrow> CronScheduler \<times> CronManager \<Rightarrow> CronScheduler \<times> CronManager" where
  "manager_start guidance = (\<lambda>(st, m). (start (cron_options guidance m) st, m))"

text \<open>\<open>flushPersist\<close> waits until every queue is empty; \<open>oks\<close> says which operations succeed.\<close>

fun flushPersist :: "(string \<times> bool) list \<Rightarrow> CronManager \<Rightarrow> CronManager" where
  "flushPersist [] m = m"
| "flushPersist ((i, ok) # oks) m = flushPersist oks (settle i ok m)"

definition manager_stop :: "(string \<times> bool) list \<Rightarrow> CronScheduler \<times> CronManager
    \<Rightarrow> CronScheduler \<times> CronManager" where
  "manager_stop oks = (\<lambda>(st, m). (stop st, flushPersist oks m))"

end
