(* ===== verification/Cron_Facts.thy ===== *)
theory Cron_Facts
  imports Cron_Expr
begin

text \<open>
  Facts about the cron search in a zone without transitions. Every jump of the search lands on the
  start of the next month, day, hour or minute, and no instant it jumps over has the field that the
  current instant lacks; so the search visits a candidate before any later one, and it is the least
  fire time of the window or none.
\<close>

section \<open>What counts as a fire\<close>

definition matches :: "zone \<Rightarrow> ParsedCronExpression \<Rightarrow> ms \<Rightarrow> bool" where
  "matches z e t \<longleftrightarrow> getMonth z t + 1 \<in> set (months e) \<and> dayMatches z e t
     \<and> getHours z t \<in> set (hours e) \<and> getMinutes z t \<in> set (minutes e)"

definition on_minute :: "zone \<Rightarrow> ms \<Rightarrow> bool" where
  "on_minute z t \<longleftrightarrow> local_time z t mod 60000 = 0"

definition fire_times :: "zone \<Rightarrow> ParsedCronExpression \<Rightarrow> ms \<Rightarrow> ms \<Rightarrow> ms set" where
  "fire_times z e lo hi = {t \<in> {lo..hi}. on_minute z t \<and> matches z e t}"

lemma finite_fire_times [simp]: "finite (fire_times z e lo hi)"
  by (rule finite_subset [of _ "{lo..hi}"]) (auto simp: fire_times_def)

section \<open>Days, hours and minutes of a local time\<close>

lemma hour_of_day: "l mod 86400000 div 3600000 = l div 3600000 mod 24" for l :: int
  using zmod_zmult2_eq [of 24 l 3600000] by simp

lemma minute_of_hour: "l mod 3600000 div 60000 = l div 60000 mod 60" for l :: int
  using zmod_zmult2_eq [of 60 l 60000] by simp

lemma month_index_first_day [simp]: "month_index (first_day i) = i"
  by (simp add: month_index_unique first_day_less)

lemma year_of_first_day [simp]: "year_of_day (first_day i) = i div 12"
  by (simp flip: month_index_year)

lemma month_plus_one: "12 * (i div 12) + (i mod 12 + 1) = i + 1" for i :: int
  by simp

lemma fixed_advanceMonth:
  "advanceMonth (fixed_zone m) t =
     86400000 * first_day (month_index (local_day (fixed_zone m) t) + 1) - 60000 * m"
  by (simp add: advanceMonth_def Let_def date_setters date_fields month_plus_one)

lemma fixed_advanceDay:
  "advanceDay (fixed_zone m) t = 86400000 * (local_day (fixed_zone m) t + 1) - 60000 * m"
  by (simp add: advanceDay_def Let_def date_setters date_fields)

lemma fixed_advanceHour:
  "advanceHour (fixed_zone m) t = 3600000 * ((t + 60000 * m) div 3600000 + 1) - 60000 * m"
proof -
  have "86400000 * (3600000 * q div 86400000) + 3600000 * (3600000 * q mod 86400000 div 3600000 + 1)
      = 3600000 * (q + 1)" for q :: int
  proof -
    have e: "3600000 * q div 86400000 = q div 24" "3600000 * q mod 86400000 div 3600000 = q mod 24"
      using zdiv_zmult2_eq [of 24 "3600000 * q" 3600000] hour_of_day [of "3600000 * q"] by simp_all
    have "24 * a + b = q \<Longrightarrow> 86400000 * a + 3600000 * (b + 1) = 3600000 * (q + 1)" for a b :: int by simp
    from this [of "q div 24" "q mod 24"] show ?thesis unfolding e by simp
  qed
  then show ?thesis by (simp add: advanceHour_def Let_def date_setters date_fields)
qed

lemma fixed_advanceMinute:
  "advanceMinute (fixed_zone m) t = 60000 * ((t + 60000 * m) div 60000 + 1) - 60000 * m"
proof -
  have "3600000 * (60000 * q div 3600000) + 60000 * (60000 * q mod 3600000 div 60000 + 1)
      = 60000 * (q + 1)" for q :: int
  proof -
    have e: "60000 * q div 3600000 = q div 60" "60000 * q mod 3600000 div 60000 = q mod 60"
      using zdiv_zmult2_eq [of 60 "60000 * q" 60000] minute_of_hour [of "60000 * q"] by simp_all
    have "60 * a + b = q \<Longrightarrow> 3600000 * a + 60000 * (b + 1) = 60000 * (q + 1)" for a b :: int by simp
    from this [of "q div 60" "q mod 60"] show ?thesis unfolding e by simp
  qed
  from this [of "t div 60000 + m"] show ?thesis
    by (simp add: advanceMinute_def Let_def date_setters date_fields distrib_left)
qed


section \<open>A jump skips no fire\<close>

lemma same_div:
  fixes l l' k :: int
  assumes "0 < k" "l \<le> l'" "l' < k * (l div k + 1)"
  shows "l' div k = l div k"
proof (rule antisym)
  show "l' div k \<le> l div k"
  proof (rule ccontr)
    assume "\<not> ?thesis"
    then have "k * (l div k + 1) \<le> k * (l' div k)" using assms(1) by simp
    also have "\<dots> \<le> l'" using mult_div_mod_eq [of k l'] pos_mod_sign [OF assms(1), of l'] by linarith
    finally show False using assms(3) by simp
  qed
  show "l div k \<le> l' div k" using assms(1,2) by (simp add: zdiv_mono1)
qed

lemma month_kept:
  assumes "t \<le> s" "s < advanceMonth (fixed_zone m) t"
  shows "getMonth (fixed_zone m) s = getMonth (fixed_zone m) t"
proof -
  let ?dt = "local_day (fixed_zone m) t" and ?ds = "local_day (fixed_zone m) s"
  have "?dt \<le> ?ds" using assms(1) by (simp add: local_day_def zdiv_mono1)
  moreover have "?ds < first_day (month_index ?dt + 1)"
    using assms(2) unfolding fixed_advanceMonth by (simp add: local_day_def)
  ultimately have "month_index ?ds = month_index ?dt"
    using month_index_bounds [of ?dt] by (intro month_index_unique) simp_all
  then show ?thesis by (simp add: getMonth_def)
qed

lemma day_kept:
  assumes "t \<le> s" "s < advanceDay (fixed_zone m) t"
  shows "dayMatches (fixed_zone m) e s = dayMatches (fixed_zone m) e t"
proof -
  have "local_day (fixed_zone m) s = local_day (fixed_zone m) t"
    using assms same_div [of 86400000 "t + 60000 * m" "s + 60000 * m"]
    by (simp add: fixed_advanceDay local_day_def)
  then show ?thesis by (simp add: dayMatches_def getDate_def getDay_def)
qed

lemma hour_kept:
  assumes "t \<le> s" "s < advanceHour (fixed_zone m) t"
  shows "getHours (fixed_zone m) s = getHours (fixed_zone m) t"
  using assms same_div [of 3600000 "t + 60000 * m" "s + 60000 * m"]
  by (simp add: fixed_advanceHour getHours_def hour_of_day)

lemma minute_kept:
  assumes "t \<le> s" "s < advanceMinute (fixed_zone m) t"
  shows "getMinutes (fixed_zone m) s = getMinutes (fixed_zone m) t"
  using assms same_div [of 60000 "t + 60000 * m" "s + 60000 * m"]
  by (simp add: fixed_advanceMinute getMinutes_def minute_of_hour)

text \<open>Every jump ends on a whole minute, at least one minute later.\<close>

lemma on_minute_fixed: "on_minute (fixed_zone m) t \<longleftrightarrow> 60000 dvd t"
  by (simp add: on_minute_def dvd_eq_mod_eq_0 flip: dvd_eq_mod_eq_0)

lemma advance_on_minute:
  "on_minute (fixed_zone m) (advanceMonth (fixed_zone m) t)"
  "on_minute (fixed_zone m) (advanceDay (fixed_zone m) t)"
  "on_minute (fixed_zone m) (advanceHour (fixed_zone m) t)"
  "on_minute (fixed_zone m) (advanceMinute (fixed_zone m) t)"
  by (simp_all add: on_minute_fixed fixed_advanceMonth fixed_advanceDay fixed_advanceHour fixed_advanceMinute
     del: distrib_left_numeral)

lemma advance_later:
  "t < advanceMonth (fixed_zone m) t" "t < advanceDay (fixed_zone m) t"
  "t < advanceHour (fixed_zone m) t" "t < advanceMinute (fixed_zone m) t"
proof -
  let ?l = "t + 60000 * m"
  have "?l < 86400000 * (?l div 86400000 + 1)" by simp
  also have "\<dots> \<le> 86400000 * first_day (month_index (?l div 86400000) + 1)"
    using month_index_bounds [of "?l div 86400000"] by simp
  finally show "t < advanceMonth (fixed_zone m) t" unfolding fixed_advanceMonth local_day_def by simp
  show "t < advanceDay (fixed_zone m) t" unfolding fixed_advanceDay local_day_def by simp
  show "t < advanceHour (fixed_zone m) t" unfolding fixed_advanceHour by simp
  show "t < advanceMinute (fixed_zone m) t" unfolding fixed_advanceMinute by simp
qed


section \<open>The search finds the earliest fire\<close>

definition earliest :: "ms set \<Rightarrow> ms option" where
  "earliest S = (if S = {} then None else Some (Min S))"

lemma earliest_in: "finite S \<Longrightarrow> earliest S = Some t \<Longrightarrow> t \<in> S"
  by (cases "S = {}") (auto simp: earliest_def dest: Min_in)

lemma fire_times_skip:
  assumes "lo \<le> lo'" "\<And>s. lo \<le> s \<Longrightarrow> s < lo' \<Longrightarrow> on_minute z s \<Longrightarrow> \<not> matches z e s"
  shows "fire_times z e lo hi = fire_times z e lo' hi"
  using assms by (auto simp: fire_times_def not_less) (meson not_less)

lemma earliest_here: "lo \<in> fire_times z e lo hi \<Longrightarrow> earliest (fire_times z e lo hi) = Some lo"
  by (auto simp: earliest_def intro!: Min_eqI) (auto simp: fire_times_def)

lemma next_minute: "on_minute (fixed_zone m) t \<Longrightarrow> on_minute (fixed_zone m) t' \<Longrightarrow> t < t' \<Longrightarrow> t + 60000 \<le> t'"
  unfolding on_minute_fixed by (elim dvdE) simp

lemma seek_earliest:
  assumes "z = fixed_zone m" "on_minute z date" "deadlineMs < date + 60000 * (HARD_ITERATION_CAP - iterations)"
  shows "seek z e deadlineMs iterations date = earliest (fire_times z e date deadlineMs)"
  using assms
proof (induction z e deadlineMs iterations date rule: seek.induct)
  case (1 z e dl it date)
  have room: "dl < date' + 60000 * (HARD_ITERATION_CAP - (it + 1))"
    if "on_minute z date'" "date < date'" for date'
    using next_minute [of m date date'] that 1(5-7) by simp
  have jump: "earliest (fire_times z e date' dl) = earliest (fire_times z e date dl)"
    if "date < date'" "\<And>s. date \<le> s \<Longrightarrow> s < date' \<Longrightarrow> \<not> matches z e s" for date'
    using fire_times_skip [of date date' z e dl] that by simp
  note z = \<open>z = fixed_zone m\<close>
  note later = advance_later [of _ m, folded z] and aligned = advance_on_minute [of m, folded z]
  show ?case
  proof (cases "date \<le> dl")
    case False
    then show ?thesis by (subst seek.simps) (auto simp: earliest_def fire_times_def)
  next
    case go: True
    then have it: "it < HARD_ITERATION_CAP" using 1(7) by simp
    consider (month) "getMonth z date + 1 \<notin> set (months e)"
      | (day) "getMonth z date + 1 \<in> set (months e)" "\<not> dayMatches z e date"
      | (hour) "getMonth z date + 1 \<in> set (months e)" "dayMatches z e date" "getHours z date \<notin> set (hours e)"
      | (minute) "getMonth z date + 1 \<in> set (months e)" "dayMatches z e date" "getHours z date \<in> set (hours e)"
          "getMinutes z date \<notin> set (minutes e)"
      | (hit) "matches z e date"
      by (auto simp: matches_def)
    then show ?thesis
    proof cases
      case month
      have none: "\<not> matches z e s" if "date \<le> s" "s < advanceMonth z date" for s
        using month_kept [of date s m, folded z, OF that] month by (simp add: matches_def)
      have "seek z e dl it date = seek z e dl (it + 1) (advanceMonth z date)"
        using go it month by (subst seek.simps) simp
      also have "\<dots> = earliest (fire_times z e (advanceMonth z date) dl)"
        using go it month z aligned(1) room [OF aligned(1) later(1)] by (intro 1(1)) simp_all
      finally show ?thesis using jump [OF later(1) none] by simp
    next
      case day
      have none: "\<not> matches z e s" if "date \<le> s" "s < advanceDay z date" for s
        using day_kept [of date s m e, folded z, OF that] day(2) by (simp add: matches_def)
      have "seek z e dl it date = seek z e dl (it + 1) (advanceDay z date)"
        using go it day by (subst seek.simps) simp
      also have "\<dots> = earliest (fire_times z e (advanceDay z date) dl)"
        using go it day z aligned(2) room [OF aligned(2) later(2)] by (intro 1(2)) simp_all
      finally show ?thesis using jump [OF later(2) none] by simp
    next
      case hour
      have none: "\<not> matches z e s" if "date \<le> s" "s < advanceHour z date" for s
        using hour_kept [of date s m, folded z, OF that] hour(3) by (simp add: matches_def)
      have "seek z e dl it date = seek z e dl (it + 1) (advanceHour z date)"
        using go it hour by (subst seek.simps) simp
      also have "\<dots> = earliest (fire_times z e (advanceHour z date) dl)"
        using go it hour z aligned(3) room [OF aligned(3) later(3)] by (intro 1(3)) simp_all
      finally show ?thesis using jump [OF later(3) none] by simp
    next
      case minute
      have none: "\<not> matches z e s" if "date \<le> s" "s < advanceMinute z date" for s
        using minute_kept [of date s m, folded z, OF that] minute(4) by (simp add: matches_def)
      have "seek z e dl it date = seek z e dl (it + 1) (advanceMinute z date)"
        using go it minute by (subst seek.simps) simp
      also have "\<dots> = earliest (fire_times z e (advanceMinute z date) dl)"
        using go it minute z aligned(4) room [OF aligned(4) later(4)] by (intro 1(4)) simp_all
      finally show ?thesis using jump [OF later(4) none] by simp
    next
      case hit
      then have "date \<in> fire_times z e date dl" using go 1(6) by (simp add: fire_times_def)
      from earliest_here [OF this] show ?thesis
        using go it hit by (subst seek.simps) (simp add: matches_def)
    qed
  qed
qed

lemma next_run_fixed:
  assumes "capMinutes < HARD_ITERATION_CAP"
  shows "nextRunWithinMinutes (fixed_zone m) e from capMinutes =
    earliest (fire_times (fixed_zone m) e (from + 1) (from + capMinutes * 60000))"
proof -
  let ?z = "fixed_zone m"
  let ?start = "setSeconds_all ?z from + 60000"
  have start: "?start = 60000 * ((from + 60000 * m) div 60000) - 60000 * m + 60000"
    by (simp add: setSeconds_all_def)
  have al: "on_minute ?z ?start" unfolding on_minute_fixed start
    by (intro dvd_add dvd_diff) (simp_all del: distrib_left_numeral)
  have gt: "from < ?start" unfolding start by simp
  have le: "?start \<le> from + 60000" unfolding start by simp
  have "nextRunWithinMinutes ?z e from capMinutes
      = earliest (fire_times ?z e ?start (from + capMinutes * 60000))"
    unfolding nextRunWithinMinutes_def MS_PER_MINUTE_def
    by (rule seek_earliest [OF refl al]) (use gt assms in simp)
  also have "fire_times ?z e ?start (from + capMinutes * 60000)
      = fire_times ?z e (from + 1) (from + capMinutes * 60000)"
  proof (rule fire_times_skip [symmetric])
    show "from + 1 \<le> ?start" using gt by simp
    show "\<not> matches ?z e s" if "from + 1 \<le> s" "s < ?start" "on_minute ?z s" for s
      using next_minute [OF that(3) al that(2)] that(1) le by simp
  qed
  finally show ?thesis .
qed

end
