(* ===== verification/Cron_Parse.thy ===== *)
theory Cron_Parse
  imports Cron_Expr
begin

text \<open>
  The grammar of cron expressions as data, its printer and its meaning, and the facts that lead to
  the two properties of the parser: a printed expression is read back with the values it means,
  and whatever the parser accepts lies within the bounds of its field.
\<close>

section \<open>The grammar\<close>

datatype cron_base = Star | Val nat | Range nat nat

datatype cron_term = Term cron_base "nat option"

fun show_base :: "cron_base \<Rightarrow> string" where
  "show_base Star = ''*''"
| "show_base (Val n) = show_num n"
| "show_base (Range a b) = show_num a @ CHR ''-'' # show_num b"

fun show_term :: "cron_term \<Rightarrow> string" where
  "show_term (Term b None) = show_base b"
| "show_term (Term b (Some k)) = show_base b @ CHR ''/'' # show_num k"

fun join_with :: "char \<Rightarrow> string list \<Rightarrow> string" where
  "join_with c [] = []"
| "join_with c [w] = w"
| "join_with c (w # ws) = w @ c # join_with c ws"

definition show_field :: "cron_term list \<Rightarrow> string" where
  "show_field ts = join_with CHR '','' (map show_term ts)"

text \<open>What a term means in a field with the bounds \<open>lowest\<close> and \<open>highest\<close>.\<close>

fun term_values :: "int \<Rightarrow> int \<Rightarrow> cron_term \<Rightarrow> int set" where
  "term_values lowest highest (Term b k) =
     (let (lo, hi) = (case b of Star \<Rightarrow> (lowest, highest)
            | Val n \<Rightarrow> (int n, if k = None then int n else highest)
            | Range n n' \<Rightarrow> (int n, int n'));
          step = (case k of None \<Rightarrow> 1 | Some n \<Rightarrow> int n)
      in {x \<in> {lo..hi}. step dvd x - lo})"

fun valid_term :: "int \<Rightarrow> int \<Rightarrow> cron_term \<Rightarrow> bool" where
  "valid_term lowest highest (Term b k) \<longleftrightarrow> k \<noteq> Some 0 \<and>
     (case b of Star \<Rightarrow> True | Val n \<Rightarrow> lowest \<le> int n \<and> int n \<le> highest
        | Range n n' \<Rightarrow> lowest \<le> int n \<and> n \<le> n' \<and> int n' \<le> highest)"

definition valid_field :: "int \<Rightarrow> int \<Rightarrow> cron_term list \<Rightarrow> bool" where
  "valid_field lowest highest ts \<longleftrightarrow> ts \<noteq> [] \<and> (\<forall>t \<in> set ts. valid_term lowest highest t)"

definition field_values :: "int \<Rightarrow> int \<Rightarrow> cron_term list \<Rightarrow> int set" where
  "field_values lowest highest ts = (\<Union>t \<in> set ts. term_values lowest highest t)"

section \<open>Numbers\<close>

lemma digit_char: "n < 10 \<Longrightarrow> is_digit (char_of (48 + n))" "n < 10 \<Longrightarrow> (of_char (char_of (48 + n) :: char) :: int) = 48 + int n"
  for n :: nat
proof -
  assume n: "n < 10"
  then have "(of_char (char_of (48 + n) :: char) :: nat) = 48 + n" by simp
  then show "is_digit (char_of (48 + n))" using n by (simp add: is_digit_def)
  have "(of_char (char_of (48 + n) :: char) :: int) = int (of_char (char_of (48 + n) :: char))"
    by (simp only: of_nat_of_char)
  then show "(of_char (char_of (48 + n) :: char) :: int) = 48 + int n" using n by simp
qed

lemma show_num_digits: "list_all is_digit (show_num n) \<and> show_num n \<noteq> []"
proof (induction n rule: show_num.induct)
  case (1 n)
  then show ?case using digit_char(1) [of n] digit_char(1) [of "n mod 10"]
    by (subst (1 2) show_num.simps) (auto simp: not_less)
qed

lemma digits_value_show_num [simp]: "digits_value (show_num n) = int n"
proof (induction n rule: show_num.induct)
  case (1 n)
  show ?case
  proof (cases "n < 10")
    case True
    then show ?thesis using digit_char(2) [of n] by (subst show_num.simps) (simp add: digits_value_def)
  next
    case False
    have "10 * int (n div 10) + int (n mod 10) = int n" by presburger
    then show ?thesis using False 1 digit_char(2) [of "n mod 10"]
      by (subst show_num.simps) (simp add: digits_value_def)
  qed
qed

lemma digit_not_special: "is_digit c \<Longrightarrow> c \<noteq> CHR ''/'' \<and> c \<noteq> CHR ''-'' \<and> c \<noteq> CHR '','' \<and> c \<noteq> CHR ''*'' \<and> \<not> is_js_space c"
  by (auto simp: is_digit_def is_js_space_def)

lemma show_num_clean:
  "CHR ''/'' \<notin> set (show_num n)" "CHR ''-'' \<notin> set (show_num n)" "CHR '','' \<notin> set (show_num n)"
  "CHR ''*'' \<notin> set (show_num n)" "\<forall>c \<in> set (show_num n). \<not> is_js_space c" "show_num n \<noteq> []"
  using show_num_digits [of n] digit_not_special by (auto simp: list_all_iff)

lemma parse_show_num [simp]: "parseCronInt (show_num n) name role = Inr (int n)"
  using show_num_digits [of n] by (simp add: parseCronInt_def)

section \<open>Splitting\<close>

lemma before_after:
  "c \<notin> set a \<Longrightarrow> before_char c (a @ c # b) = a" "c \<notin> set a \<Longrightarrow> after_char c (a @ c # b) = b"
proof -
  assume "c \<notin> set a"
  then have t: "takeWhile (\<lambda>x. x \<noteq> c) (a @ c # b) = a" by (subst takeWhile_append2) auto
  show "before_char c (a @ c # b) = a" "after_char c (a @ c # b) = b"
    unfolding after_char_def before_char_def t by simp_all
qed

lemma split_at_clean: "c \<notin> set w \<Longrightarrow> split_at c w = [w]"
  by (induction w) auto

lemma split_at_word: "c \<notin> set w \<Longrightarrow> split_at c (w @ c # rest) = w # split_at c rest"
  by (induction w) auto

lemma split_at_join: "ws \<noteq> [] \<Longrightarrow> \<forall>w \<in> set ws. c \<notin> set w \<Longrightarrow> split_at c (join_with c ws) = ws"
  by (induction c ws rule: join_with.induct) (auto simp: split_at_clean split_at_word)

lemma split_ws_clean: "\<forall>c \<in> set w. \<not> is_js_space c \<Longrightarrow> split_ws w = [w]"
  by (induction w) auto

lemma split_ws_word:
  "\<forall>c \<in> set w. \<not> is_js_space c \<Longrightarrow> rest \<noteq> [] \<Longrightarrow> \<not> is_js_space (hd rest) \<Longrightarrow>
    split_ws (w @ CHR '' '' # rest) = w # split_ws rest"
  by (induction w) (auto simp: is_js_space_def split: list.splits)


section \<open>Values of a term\<close>

lemma set_add_steps:
  "0 < step \<Longrightarrow> set (add_steps out v hi step) = set out \<union> {x \<in> {v..hi}. step dvd x - v}"
proof (induction out v hi step rule: add_steps.induct)
  case (1 out v hi step)
  show ?case
  proof (cases "v \<le> hi")
    case True
    have "{x \<in> {v..hi}. step dvd x - v} = insert v {x \<in> {v + step..hi}. step dvd x - (v + step)}"
    proof (intro equalityI subsetI)
      fix x assume x: "x \<in> {x \<in> {v..hi}. step dvd x - v}"
      then obtain k where k: "x - v = step * k" by blast
      have "step dvd x - (v + step)" using k by (metis diff_diff_eq dvd_diff dvd_refl dvd_triv_left)
      moreover have "x = v \<or> v + step \<le> x"
      proof (cases "k \<le> 0")
        case True
        then have "step * k \<le> 0" using 1(2) by (simp add: mult_nonneg_nonpos)
        then show ?thesis using k x by simp
      next
        case False
        then have "step * 1 \<le> step * k" using 1(2) by (intro mult_left_mono) simp_all
        then show ?thesis using k by simp
      qed
      ultimately show "x \<in> insert v {x \<in> {v + step..hi}. step dvd x - (v + step)}" using x by auto
    next
      fix x assume "x \<in> insert v {x \<in> {v + step..hi}. step dvd x - (v + step)}"
      then show "x \<in> {x \<in> {v..hi}. step dvd x - v}" using 1(2) True
        by (auto simp: diff_diff_eq [symmetric] dvd_diff_left_iff dest: dvd_add [of step _ step])
    qed
    then show ?thesis using True 1 by (subst add_steps.simps) auto
  next
    case False
    then show ?thesis by (subst add_steps.simps) auto
  qed
qed

lemma distinct_add_steps: "distinct out \<Longrightarrow> distinct (add_steps out v hi step)"
  by (induction out v hi step rule: add_steps.induct) (subst add_steps.simps, simp)

lemma no_space: "\<not> is_js_space CHR ''*''" "\<not> is_js_space CHR ''-''" "\<not> is_js_space CHR ''/''"
  "\<not> is_js_space CHR '',''"
  by (simp_all add: is_js_space_def)

lemma show_base_clean:
  "CHR ''/'' \<notin> set (show_base b)" "CHR '','' \<notin> set (show_base b)"
  "\<forall>c \<in> set (show_base b). \<not> is_js_space c" "show_base b \<noteq> []"
  by (cases b; simp add: show_num_clean no_space ball_Un)+

lemma show_term_clean:
  "CHR '','' \<notin> set (show_term t)" "\<forall>c \<in> set (show_term t). \<not> is_js_space c" "show_term t \<noteq> []"
  by (cases t rule: show_term.cases; simp add: show_base_clean show_num_clean no_space ball_Un)+

lemma show_base_star: "show_base b = ''*'' \<longleftrightarrow> b = Star"
proof (cases b)
  case (Val n)
  have "CHR ''*'' \<notin> set (show_num n)" by (rule show_num_clean)
  then show ?thesis using Val by auto
next
  case (Range n n')
  have "CHR ''*'' \<notin> set (show_num n)" "show_num n \<noteq> []" by (rule show_num_clean)+
  then show ?thesis using Range by (cases "show_num n") auto
qed simp

lemma step_of_show_term:
  assumes "k \<noteq> Some 0"
  shows "term_step (show_term (Term b k)) name
    = Inr (show_base b, case k of None \<Rightarrow> 1 | Some n \<Rightarrow> int n)"
  using assms show_base_clean(1,4) [of b] show_num_clean(6)
  by (cases k) (auto simp: term_step_def before_after)

lemma addTerm_show:
  assumes "valid_term lowest highest t"
  shows "\<exists>out'. addTerm out (show_term t) lowest highest name = Inr out'
    \<and> set out' = set out \<union> term_values lowest highest t \<and> (distinct out \<longrightarrow> distinct out')"
proof (cases t)
  case (Term b k)
  have step: "term_step (show_term t) name = Inr (show_base b, case k of None \<Rightarrow> 1 | Some n \<Rightarrow> int n)"
    using assms unfolding Term by (intro step_of_show_term) simp
  have pos: "0 < (case k of None \<Rightarrow> 1 | Some n \<Rightarrow> int n)" using assms Term by (auto split: option.splits)
  have slash: "CHR ''/'' \<in> set (show_term t) \<longleftrightarrow> k \<noteq> None"
    using show_base_clean(1) [of b] Term by (cases k) auto
  note add = set_add_steps [OF pos] distinct_add_steps
  show ?thesis
  proof (cases b)
    case Star
    have "term_values lowest highest t = {x \<in> {lowest..highest}. (case k of None \<Rightarrow> 1 | Some n \<Rightarrow> int n) dvd x - lowest}"
      by (simp add: Term Star)
    then show ?thesis using add [of out lowest highest] Star by (simp add: addTerm_def step)
  next
    case (Val n)
    have star: "show_base b \<noteq> ''*''" using show_base_star [of b] Val by simp
    have n: "\<not> int n < lowest" "\<not> highest < int n" using assms by (simp_all add: Term Val)
    have dash: "CHR ''-'' \<notin> set (show_base b)" using show_num_clean(2) Val by simp
    have ad: "addTerm out (show_term t) lowest highest name = (if k = None then Inr (oset_add (int n) out)
        else Inr (add_steps out (int n) highest (case k of None \<Rightarrow> 1 | Some n \<Rightarrow> int n)))"
      using star n dash slash by (simp add: addTerm_def step Val)
    show ?thesis
    proof (cases k)
      case None
      have "term_values lowest highest t = {int n}" by (auto simp: Term Val None)
      then show ?thesis using None by (simp add: ad)
    next
      case (Some i)
      have "term_values lowest highest t = {x \<in> {int n..highest}. int i dvd x - int n}"
        by (simp add: Term Val Some)
      then show ?thesis using add [of out "int n" highest] Some by (simp add: ad)
    qed
  next
    case (Range n n')
    have star: "show_base b \<noteq> ''*''" using show_base_star [of b] Range by simp
    have n: "\<not> int n < lowest" "\<not> highest < int n'" "\<not> n' < n" using assms by (simp_all add: Term Range)
    have "term_values lowest highest t = {x \<in> {int n..int n'}. (case k of None \<Rightarrow> 1 | Some n \<Rightarrow> int n) dvd x - int n}"
      by (simp add: Term Range)
    then show ?thesis using add [of out "int n" "int n'"] star n show_num_clean(2) [of n]
      by (simp add: addTerm_def step Range before_after)
  qed
qed

lemma addTerms_show:
  assumes "\<forall>t \<in> set ts. valid_term lowest highest t"
  shows "\<exists>out'. addTerms out (map show_term ts) lowest highest name = Inr out'
    \<and> set out' = set out \<union> field_values lowest highest ts \<and> (distinct out \<longrightarrow> distinct out')"
  using assms
proof (induction ts arbitrary: out)
  case Nil
  then show ?case by (simp add: field_values_def)
next
  case (Cons t ts)
  from addTerm_show [of lowest highest t out name] Cons.prems obtain out1 where
    o1: "addTerm out (show_term t) lowest highest name = Inr out1"
      "set out1 = set out \<union> term_values lowest highest t" "distinct out \<longrightarrow> distinct out1" by auto
  from Cons.IH [of out1] Cons.prems obtain out2 where
    o2: "addTerms out1 (map show_term ts) lowest highest name = Inr out2"
      "set out2 = set out1 \<union> field_values lowest highest ts" "distinct out1 \<longrightarrow> distinct out2" by auto
  show ?case using o1 o2 show_term_clean(3) [of t] by (auto simp: field_values_def)
qed

lemma term_values_start: "valid_term lowest highest t \<Longrightarrow> lowest \<le> highest \<Longrightarrow> term_values lowest highest t \<noteq> {}"
proof (cases t)
  case (Term b k)
  assume v: "valid_term lowest highest t" "lowest \<le> highest"
  have "case b of Star \<Rightarrow> lowest \<in> term_values lowest highest t
     | Val n \<Rightarrow> int n \<in> term_values lowest highest t | Range n n' \<Rightarrow> int n \<in> term_values lowest highest t"
    using v by (cases b) (auto simp: Term)
  then show ?thesis by (auto split: cron_base.splits)
qed


section \<open>Fields and expressions\<close>

lemma field_values_start: "valid_field lowest highest ts \<Longrightarrow> lowest \<le> highest \<Longrightarrow> field_values lowest highest ts \<noteq> {}"
proof -
  assume v: "valid_field lowest highest ts" "lowest \<le> highest"
  then have "hd ts \<in> set ts" "valid_term lowest highest (hd ts)" by (simp_all add: valid_field_def)
  with term_values_start v(2) show ?thesis by (fastforce simp: field_values_def)
qed

lemma show_field_nonempty: "ts \<noteq> [] \<Longrightarrow> show_field ts \<noteq> []"
  using show_term_clean(3) by (cases "map show_term ts" rule: list.exhaust; cases "tl ts") (auto simp: show_field_def)

lemma join_clean: "\<forall>w \<in> set ws. P w \<Longrightarrow> (\<And>w. P w \<Longrightarrow> \<forall>c \<in> set w. Q c) \<Longrightarrow> Q d \<Longrightarrow> \<forall>c \<in> set (join_with d ws). Q c"
  by (induction d ws rule: join_with.induct) auto

lemma show_field_clean: "\<forall>c \<in> set (show_field ts). \<not> is_js_space c"
  unfolding show_field_def
  by (rule join_clean [where P = "\<lambda>w. \<forall>c \<in> set w. \<not> is_js_space c"])
    (use show_term_clean(2) no_space in auto)

lemma parseField_show:
  assumes "valid_field lowest highest ts" "lowest \<le> highest"
  shows "\<exists>out. parseField (show_field ts) lowest highest name = Inr out \<and> set out = field_values lowest highest ts"
proof -
  have ts: "ts \<noteq> []" "\<forall>t \<in> set ts. valid_term lowest highest t" using assms by (simp_all add: valid_field_def)
  have "split_at CHR '','' (show_field ts) = map show_term ts"
    unfolding show_field_def using ts(1) show_term_clean(1) by (intro split_at_join) auto
  with addTerms_show [OF ts(2), of "[]" name] obtain out where out:
    "addTerms [] (split_at CHR '','' (show_field ts)) lowest highest name = Inr out"
    "set out = field_values lowest highest ts" by auto
  have "out \<noteq> []" using out(2) field_values_start [OF assms] by auto
  then show ?thesis using out show_field_nonempty [OF ts(1)] by (simp add: parseField_def)
qed

definition show_cron :: "cron_term list \<Rightarrow> cron_term list \<Rightarrow> cron_term list \<Rightarrow> cron_term list \<Rightarrow> cron_term list \<Rightarrow> string" where
  "show_cron mi ho dm mo dw = join_with CHR '' '' (map show_field [mi, ho, dm, mo, dw])"

lemma wildcard_show_field: "ts \<noteq> [] \<Longrightarrow> isWildcard (show_field ts) \<longleftrightarrow> ts = [Term Star None]"
proof -
  assume ne: "ts \<noteq> []"
  show ?thesis
  proof (cases "length ts = 1")
    case True
    then obtain t where t: "ts = [t]" by (auto simp: length_Suc_conv)
    obtain b k where bk: "t = Term b k" by (cases t)
    have "CHR ''/'' \<in> set (show_term t)" if "k \<noteq> None" using that bk by auto
    then have "show_term t \<noteq> ''*''" if "k \<noteq> None" using that by (auto simp del: show_term.simps)
    then have "show_term t = ''*'' \<longleftrightarrow> t = Term Star None"
      using bk show_base_star [of b] by (cases "k = None") (simp_all del: show_term.simps(2))
    then show ?thesis by (simp add: t show_field_def isWildcard_def)
  next
    case False
    then obtain t t' ts' where t: "ts = t # t' # ts'" using ne by (cases ts; cases "tl ts") auto
    then have "CHR '','' \<in> set (show_field ts)" by (simp add: show_field_def)
    then have "show_field ts \<noteq> ''*''" by auto
    then show ?thesis by (simp add: isWildcard_def t)
  qed
qed

lemma js_trim_id: "s \<noteq> [] \<Longrightarrow> \<not> is_js_space (hd s) \<Longrightarrow> \<not> is_js_space (last s) \<Longrightarrow> js_trim s = s"
proof -
  assume s: "s \<noteq> []" "\<not> is_js_space (hd s)" "\<not> is_js_space (last s)"
  have "dropWhile is_js_space s = s" using s by (cases s) auto
  moreover have "dropWhile is_js_space (rev s) = rev s" using s by (cases s rule: rev_cases) auto
  ultimately show ?thesis by (simp add: js_trim_def js_trim_start_def)
qed

definition word :: "string \<Rightarrow> bool" where
  "word w \<longleftrightarrow> w \<noteq> [] \<and> (\<forall>c \<in> set w. \<not> is_js_space c)"

lemma word_show_field: "ts \<noteq> [] \<Longrightarrow> word (show_field ts)"
  using show_field_clean show_field_nonempty by (simp add: word_def)

lemma join_words:
  assumes "ws \<noteq> []" "\<forall>w \<in> set ws. word w"
  shows "join_with CHR '' '' ws \<noteq> [] \<and> \<not> is_js_space (hd (join_with CHR '' '' ws))
    \<and> \<not> is_js_space (last (join_with CHR '' '' ws)) \<and> split_ws (join_with CHR '' '' ws) = ws"
  using assms
proof (induction ws)
  case (Cons w ws)
  have w: "w \<noteq> []" "\<forall>c \<in> set w. \<not> is_js_space c" using Cons.prems by (simp_all add: word_def)
  show ?case
  proof (cases "ws = []")
    case True
    then show ?thesis using w split_ws_clean [OF w(2)] by simp
  next
    case False
    then have ih: "join_with CHR '' '' ws \<noteq> []" "\<not> is_js_space (hd (join_with CHR '' '' ws))"
      "\<not> is_js_space (last (join_with CHR '' '' ws))" "split_ws (join_with CHR '' '' ws) = ws"
      using Cons by simp_all
    have j: "join_with CHR '' '' (w # ws) = w @ CHR '' '' # join_with CHR '' '' ws"
      using False by (cases ws) auto
    show ?thesis unfolding j using ih w split_ws_word [OF w(2) ih(1,2)] by simp
  qed
qed simp

section \<open>What the parser accepts\<close>

definition within :: "int \<Rightarrow> int \<Rightarrow> int list \<Rightarrow> bool" where
  "within lowest highest vs \<longleftrightarrow> vs \<noteq> [] \<and> distinct vs \<and> set vs \<subseteq> {lowest..highest}"

definition well_formed_cron :: "ParsedCronExpression \<Rightarrow> bool" where
  "well_formed_cron p \<longleftrightarrow> within 0 59 (minutes p) \<and> within 0 23 (hours p) \<and> within 1 31 (daysOfMonth p)
     \<and> within 1 12 (months p) \<and> within 0 6 (daysOfWeek p)"

lemma add_steps_range: "set out \<subseteq> {lowest..highest} \<Longrightarrow> lowest \<le> v \<Longrightarrow> hi \<le> highest \<Longrightarrow>
  set (add_steps out v hi step) \<subseteq> {lowest..highest}"
  by (induction out v hi step rule: add_steps.induct) (subst add_steps.simps, auto)

lemma addTerm_cases:
  assumes "addTerm out t lowest highest name = Inr out'"
    and "\<And>v hi step. lowest \<le> v \<Longrightarrow> hi \<le> highest \<Longrightarrow> Q (add_steps out v hi step)"
    and "\<And>v. lowest \<le> v \<Longrightarrow> v \<le> highest \<Longrightarrow> Q (oset_add v out)"
  shows "Q out'"
  using assms(1) unfolding addTerm_def
  by (auto simp: not_less split: sum.splits prod.splits if_splits intro: assms(2,3))

lemma addTerm_range:
  assumes "addTerm out t lowest highest name = Inr out'" "set out \<subseteq> {lowest..highest}" "distinct out"
  shows "set out' \<subseteq> {lowest..highest} \<and> distinct out'"
  using assms(1)
  by (rule addTerm_cases) (use assms add_steps_range distinct_add_steps in simp_all)

lemma addTerms_range:
  "addTerms out ts lowest highest name = Inr out' \<Longrightarrow> set out \<subseteq> {lowest..highest} \<Longrightarrow> distinct out \<Longrightarrow>
    set out' \<subseteq> {lowest..highest} \<and> distinct out'"
  by (induction out ts lowest highest name rule: addTerms.induct)
    (auto split: if_splits sum.splits dest!: addTerm_range)

lemma parseField_within: "parseField field lowest highest name = Inr out \<Longrightarrow> within lowest highest out"
  by (auto simp: parseField_def within_def split: if_splits sum.splits dest!: addTerms_range)

lemma fold_sunday_within: "within 0 7 vs \<Longrightarrow> within 0 6 (fold_sunday vs)"
proof -
  assume v: "within 0 7 vs"
  have "set (fold_sunday vs) = (\<lambda>v. if v = 7 then 0 else v) ` set vs" by (simp add: fold_sunday_def)
  moreover have "(\<lambda>v. if v = 7 then 0 else v) ` set vs \<noteq> {}"
    unfolding image_is_empty using v by (simp add: within_def)
  moreover have "(\<lambda>v. if v = 7 then 0 else v) ` set vs \<subseteq> {0..6}" using v by (auto simp: within_def)
  ultimately have "set (fold_sunday vs) \<noteq> {}" "set (fold_sunday vs) \<subseteq> {0..6}" by simp_all
  then have "fold_sunday vs \<noteq> []" "set (fold_sunday vs) \<subseteq> {0..6}" by auto
  moreover have "distinct (fold_sunday vs)" by (simp add: fold_sunday_def)
  ultimately show ?thesis unfolding within_def by blast
qed


lemma parsed_well_formed: "parseCronExpression s = Inr p \<Longrightarrow> well_formed_cron p"
  unfolding parseCronExpression_def parse_fields_def Let_def
  by (auto simp: well_formed_cron_def split: if_splits sum.splits dest!: parseField_within
      intro: fold_sunday_within)

end
