(* ===== verification/Cron_Properties.thy ===== *)
theory Cron_Properties
  imports Cron_Facts Cron_Parse Cron_Jitter
begin

text \<open>
  The properties of the expression parser, of the search for the next fire and of the jitter.
\<close>

section \<open>The parser\<close>

text \<open>
  C36: The parser reads what the grammar means. An expression built of stars, values and ranges, each
  with an optional step, and printed with the usual separators is accepted, and every field holds
  exactly the values its terms denote, Sunday counted as 0; a field is a wildcard when it is a
  bare star.
\<close>

theorem cron_print_parse:
  assumes "valid_field 0 59 mi" "valid_field 0 23 ho" "valid_field 1 31 dm" "valid_field 1 12 mo"
    "valid_field 0 7 dw"
  shows "case parseCronExpression (show_cron mi ho dm mo dw) of
      Inl e \<Rightarrow> False
    | Inr p \<Rightarrow> set (minutes p) = field_values 0 59 mi \<and> set (hours p) = field_values 0 23 ho
        \<and> set (daysOfMonth p) = field_values 1 31 dm \<and> set (months p) = field_values 1 12 mo
        \<and> set (daysOfWeek p) = (\<lambda>v. if v = 7 then 0 else v) ` field_values 0 7 dw
        \<and> daysOfMonthWildcard p = (dm = [Term Star None])
        \<and> daysOfWeekWildcard p = (dw = [Term Star None])"
proof -
  let ?ws = "map show_field [mi, ho, dm, mo, dw]"
  have ne: "\<forall>ts \<in> {mi, ho, dm, mo, dw}. ts \<noteq> []" using assms by (auto simp: valid_field_def)
  then have "\<forall>w \<in> set ?ws. word w" using word_show_field by simp
  from join_words [OF _ this] have s: "show_cron mi ho dm mo dw \<noteq> []"
    "js_trim (show_cron mi ho dm mo dw) = show_cron mi ho dm mo dw"
    "split_ws (show_cron mi ho dm mo dw) = ?ws"
    unfolding show_cron_def by (simp_all add: js_trim_id)
  obtain a b c d e where f: "parseField (show_field mi) 0 59 ''minute'' = Inr a" "set a = field_values 0 59 mi"
    "parseField (show_field ho) 0 23 ''hour'' = Inr b" "set b = field_values 0 23 ho"
    "parseField (show_field dm) 1 31 ''day-of-month'' = Inr c" "set c = field_values 1 31 dm"
    "parseField (show_field mo) 1 12 ''month'' = Inr d" "set d = field_values 1 12 mo"
    "parseField (show_field dw) 0 7 ''day-of-week'' = Inr e" "set e = field_values 0 7 dw"
    using parseField_show [OF assms(1), of "''minute''"] parseField_show [OF assms(2), of "''hour''"]
      parseField_show [OF assms(3), of "''day-of-month''"] parseField_show [OF assms(4), of "''month''"]
      parseField_show [OF assms(5), of "''day-of-week''"] by auto
  have "parseCronExpression (show_cron mi ho dm mo dw) =
      Inr (Parsed (show_cron mi ho dm mo dw) a b c d (fold_sunday e)
        (isWildcard (show_field dm)) (isWildcard (show_field dw)))"
    unfolding parseCronExpression_def Let_def s(2,3) using s(1) f(1,3,5,7,9)
    by (simp add: parse_fields_def numeral_eq_Suc)
  then show ?thesis using f ne by (simp add: wildcard_show_field fold_sunday_def)
qed

lemma cron_print_parse_witness:
  "parseCronExpression (show_cron [Term Star (Some 15)] [Term (Range 9 17) None] [Term Star None]
      [Term (Val 6) None] [Term (Val 7) None])
    = Inr (Parsed ''*/15 9-17 * 6 7'' [0, 15, 30, 45] [9, 10, 11, 12, 13, 14, 15, 16, 17]
        [1..31] [6] [0] True False)
   \<and> set [0, 15, 30, 45] = field_values 0 59 [Term Star (Some 15)]"
proof -
  have p: "parseCronExpression (show_cron [Term Star (Some 15)] [Term (Range 9 17) None] [Term Star None]
      [Term (Val 6) None] [Term (Val 7) None])
    = Inr (Parsed ''*/15 9-17 * 6 7'' [0, 15, 30, 45] [9, 10, 11, 12, 13, 14, 15, 16, 17]
        [1..31] [6] [0] True False)"
    by code_simp
  have "case parseCronExpression (show_cron [Term Star (Some 15)] [Term (Range 9 17) None] [Term Star None]
      [Term (Val 6) None] [Term (Val 7) None]) of Inl e \<Rightarrow> False
    | Inr p \<Rightarrow> set (minutes p) = field_values 0 59 [Term Star (Some 15)]"
    using cron_print_parse [of "[Term Star (Some 15)]" "[Term (Range 9 17) None]" "[Term Star None]"
        "[Term (Val 6) None]" "[Term (Val 7) None]"]
    by (simp add: valid_field_def split: sum.splits)
  then show ?thesis unfolding p by simp
qed

text \<open>
  C37: Whatever string the parser accepts, the result is well formed: every field is a non-empty
  list without repetition and within the bounds of its field, with days of the week from 0 to 6.
\<close>

theorem parsed_cron_in_bounds:
  "case parseCronExpression s of Inl e \<Rightarrow> True | Inr p \<Rightarrow> well_formed_cron p"
  using parsed_well_formed [of s] by (cases "parseCronExpression s") auto

section \<open>The next fire\<close>

text \<open>
  C35: In a time zone without transitions the next fire is the earliest whole minute after the given
  instant that matches all fields (with the either-or rule of the two day fields), within five years
  of 366 days; there is none exactly when no minute of that window matches. The skips by months, days
  and hours lose nothing, and the iteration cap is never what ends the search.
\<close>

theorem next_run_is_earliest:
  "computeNextCronRun (fixed_zone m) e t0 =
    earliest (fire_times (fixed_zone m) e (t0 + 1) (t0 + 5 * 366 * 24 * 60 * 60000))"
  using next_run_fixed [of "5 * 366 * 24 * 60" m e t0]
  by (simp add: computeNextCronRun_def HARD_ITERATION_CAP_def)

lemma fixed_next_later: "computeNextCronRun (fixed_zone m) e t0 = Some t \<Longrightarrow>
  t0 < t \<and> t \<le> t0 + 158112000000 \<and> 60000 dvd t"
proof -
  assume "computeNextCronRun (fixed_zone m) e t0 = Some t"
  then have "earliest (fire_times (fixed_zone m) e (t0 + 1) (t0 + 2635200 * 60000)) = Some t"
    using next_run_fixed [of "5 * 366 * 24 * 60" m e t0]
    by (simp add: computeNextCronRun_def HARD_ITERATION_CAP_def)
  then have "t \<in> fire_times (fixed_zone m) e (t0 + 1) (t0 + 2635200 * 60000)"
    by (rule earliest_in [OF finite_fire_times])
  then show ?thesis by (auto simp: fire_times_def on_minute_fixed)
qed

section \<open>The jitter\<close>

lemma hex_value_bound: "is_hex c \<Longrightarrow> 0 \<le> hex_value c \<and> hex_value c \<le> 15"
proof -
  have i: "(of_char c :: int) = int (of_char c)" by (simp only: of_nat_of_char)
  assume "is_hex c"
  then consider "is_digit c" | "\<not> is_digit c" "c \<in> set ''abcdefABCDEF''" by (auto simp: is_hex_def)
  then show ?thesis
  proof cases
    case 1
    then show ?thesis by (simp add: hex_value_def is_digit_def i)
  next
    case 2
    have "c \<in> set ''abcdefABCDEF'' \<Longrightarrow> (of_char c :: nat) \<in> {65..70} \<union> {97..102}"
      by (simp, elim disjE) simp_all
    with 2 show ?thesis by (auto simp: hex_value_def i)
  qed
qed

lemma hex_digits_bound: "list_all is_hex s \<Longrightarrow> 0 \<le> n \<Longrightarrow>
  0 \<le> foldl (\<lambda>n c. 16 * n + hex_value c) n s
   \<and> foldl (\<lambda>n c. 16 * n + hex_value c) n s < (n + 1) * 16 ^ length s"
proof (induction s arbitrary: n)
  case (Cons c s)
  have c: "0 \<le> hex_value c" "hex_value c \<le> 15" using Cons.prems(1) hex_value_bound [of c] by simp_all
  have "(16 * n + hex_value c + 1) * 16 ^ length s \<le> (16 * (n + 1)) * 16 ^ length s"
    using c by (intro mult_right_mono) simp_all
  also have "\<dots> = (n + 1) * (16 * 16 ^ length s)" by simp
  finally have "(16 * n + hex_value c + 1) * 16 ^ length s \<le> (n + 1) * 16 ^ length (c # s)" by simp
  moreover have "0 \<le> foldl (\<lambda>n c. 16 * n + hex_value c) (16 * n + hex_value c) s
    \<and> foldl (\<lambda>n c. 16 * n + hex_value c) (16 * n + hex_value c) s < (16 * n + hex_value c + 1) * 16 ^ length s"
    using Cons.prems c by (intro Cons.IH) simp_all
  ultimately show ?case by (simp only: foldl_Cons) (blast intro: order_less_le_trans)
qed simp

lemma fraction_bounds: "0 \<le> fractionFromId s \<and> fractionFromId s < 1"
proof (cases "length s = 8 \<and> list_all is_hex s")
  case True
  then have "0 \<le> parse_hex s" "parse_hex s < 4294967296"
    using hex_digits_bound [of s 0] by (simp_all add: parse_hex_def)
  then have "0 \<le> (of_int (parse_hex s) :: rat)" "(of_int (parse_hex s) :: rat) < of_int 4294967296"
    by (simp, simp only: of_int_less_iff)
  then show ?thesis using True by (simp add: fractionFromId_def)
next
  case False
  have "uint (djb2 s) < 2 ^ 32" using uint_lt2p [of "djb2 s"] by simp
  then have "(of_int (uint (djb2 s)) :: rat) < of_int 4294967296" by (simp only: of_int_less_iff) simp
  moreover have "(0 :: rat) \<le> of_int (uint (djb2 s))" by (simp only: of_int_0_le_iff) simp
  ultimately show ?thesis unfolding fractionFromId_def if_not_P [OF False] by simp
qed


lemma recurring_jitter_bounds:
  assumes "env_zone env = fixed_zone m" "60000 dvd ideal" "\<bar>ideal\<bar> \<le> 9000000000000000"
  shows "\<exists>j. of_int ideal \<le> jitteredNextCronRunMs env task p ideal DEFAULT_CRON_JITTER_CONFIG
    \<and> jitteredNextCronRunMs env task p ideal DEFAULT_CRON_JITTER_CONFIG \<le> of_int (ideal + j)
    \<and> 0 \<le> j \<and> j \<le> 900000
    \<and> (case computeNextCronRun (env_zone env) p ideal of None \<Rightarrow> True | Some next \<Rightarrow> ideal + j < next)"
proof -
  let ?c = "computeNextCronRun (env_zone env) p ideal"
  define period where "period = (case ?c of
      Some nextNext \<Rightarrow> if nextNext > ideal then nextNext - ideal else MS_PER_DAY | None \<Rightarrow> MS_PER_DAY)"
  have p: "60000 \<le> period \<and> period \<le> 158112000000
      \<and> (case ?c of None \<Rightarrow> True | Some next \<Rightarrow> next = ideal + period)"
  proof (cases ?c)
    case None
    then show ?thesis by (simp add: period_def MS_PER_DAY_def)
  next
    case (Some n)
    then have n: "ideal < n" "n \<le> ideal + 158112000000" "60000 dvd n"
      using fixed_next_later [of m p ideal n] assms(1) by simp_all
    then have "60000 dvd n - ideal" using assms(2) by simp
    then have "60000 \<le> n - ideal" using n(1) by (intro zdvd_imp_le) simp_all
    then show ?thesis using Some n by (simp add: period_def)
  qed
  define r where "r = (of_int period * (3602879701896397 / 36028797018963968) :: rat)"
  have r: "0 < r" "r \<le> of_int (period div 5)" "\<bar>r\<bar> < 9007199254740992"
  proof -
    have "(0 :: rat) < of_int period" using p by simp
    then show "0 < r" unfolding r_def by simp
    have "60000 \<le> period" using p by simp
    then have "period \<le> 6 * (period div 5)" by presburger
    then have "(of_int period :: rat) \<le> of_int (6 * (period div 5))" by (simp only: of_int_le_iff)
    then have P: "(of_int period :: rat) \<le> 6 * of_int (period div 5)" by simp
    then show "r \<le> of_int (period div 5)" unfolding r_def by simp
    have "(of_int period :: rat) \<le> of_int 158112000000" using p by (simp only: of_int_le_iff)
    then show "\<bar>r\<bar> < 9007199254740992" using \<open>0 < of_int period\<close> unfolding r_def by simp
  qed
  define cap where "cap = min (double r) (of_int (15 * 60000))"
  define j where "j = min (period div 5) 900000"
  have cap: "0 \<le> cap" "cap \<le> of_int j"
    using double_bounds [OF r(3), of "period div 5"] double_bounds [OF r(3), of 0] r
    by (auto simp: cap_def j_def min_def)
  let ?f = "fractionFromId (task_id task)"
  have "60000 \<le> period" using p by simp
  then have "0 \<le> period div 5" "period div 5 < period" by presburger+
  then have j0: "0 \<le> j" "j \<le> 900000" "j < period" by (simp_all add: j_def)
  have "0 \<le> cap * ?f" "cap * ?f \<le> cap * 1"
    using cap fraction_bounds [of "task_id task"] by (simp, intro mult_left_mono) simp_all
  then have cf: "0 \<le> cap * ?f" "cap * ?f \<le> of_int j" using cap by simp_all
  have "(of_int j :: rat) \<le> of_int 900000" using j0 by (simp only: of_int_le_iff)
  then have small: "\<bar>cap * ?f\<bar> < 9007199254740992" using cf by simp
  have d: "0 \<le> double (cap * ?f)" "double (cap * ?f) \<le> of_int j"
    using double_bounds(2) [OF small, of 0] double_bounds(1) [OF small, of j] cf by simp_all
  have "(of_int ideal :: rat) \<le> of_int 9000000000000000" "- of_int 9000000000000000 \<le> (of_int ideal :: rat)"
    using assms(3) by (simp_all only: of_int_le_iff flip: of_int_minus)
  then have small2: "\<bar>of_int ideal + double (cap * ?f)\<bar> < 9007199254740992"
    using d \<open>(of_int j :: rat) \<le> of_int 900000\<close> by simp
  have s: "of_int ideal \<le> double (of_int ideal + double (cap * ?f))"
    "double (of_int ideal + double (cap * ?f)) \<le> of_int (ideal + j)"
    using double_bounds(2) [OF small2, of ideal] double_bounds(1) [OF small2, of "ideal + j"] d by simp_all
  have jit: "jitteredNextCronRunMs env task p ideal DEFAULT_CRON_JITTER_CONFIG =
      (if env_no_jitter env then of_int ideal else if \<not> cap > 0 then of_int ideal
       else double (of_int ideal + double (cap * ?f)))"
    by (simp add: jitteredNextCronRunMs_def Let_def DEFAULT_CRON_JITTER_CONFIG_def cap_def r_def period_def)
  have "of_int ideal \<le> (of_int (ideal + j) :: rat)" using j0 by (simp only: of_int_le_iff)
  then show ?thesis unfolding jit using s p j0 by (intro exI [of _ j]) (auto split: option.splits)
qed


lemma one_shot_jitter_bounds:
  assumes "\<bar>ideal\<bar> \<le> 8640000000000000"
  shows "of_int (ideal - 90000) \<le> oneShotJitteredNextCronRunMs env task ideal DEFAULT_CRON_JITTER_CONFIG
    \<and> oneShotJitteredNextCronRunMs env task ideal DEFAULT_CRON_JITTER_CONFIG \<le> of_int ideal
    \<and> of_int (min (createdAt task) ideal) \<le> oneShotJitteredNextCronRunMs env task ideal DEFAULT_CRON_JITTER_CONFIG"
proof -
  let ?f = "fractionFromId (task_id task)"
  let ?x = "- (90000 :: rat) * ?f"
  have x: "- 90000 \<le> ?x" "?x \<le> 0" using fraction_bounds [of "task_id task"] by simp_all
  then have small: "\<bar>?x\<bar> < 9007199254740992" by simp
  have d: "- 90000 \<le> double ?x" "double ?x \<le> 0"
    using double_bounds(2) [OF small, of "- 90000"] double_bounds(1) [OF small, of 0] x by simp_all
  have "(of_int ideal :: rat) \<le> of_int 8640000000000000" "- of_int 8640000000000000 \<le> (of_int ideal :: rat)"
    using assms by (simp_all only: of_int_le_iff flip: of_int_minus)
  then have small2: "\<bar>of_int ideal + double ?x\<bar> < 9007199254740992" using d by simp
  have s: "of_int (ideal - 90000) \<le> double (of_int ideal + double ?x)"
    "double (of_int ideal + double ?x) \<le> of_int ideal"
    using double_bounds(2) [OF small2, of "ideal - 90000"] double_bounds(1) [OF small2, of ideal] d by simp_all
  have m: "(of_int (min (createdAt task) ideal) :: rat) \<le> of_int ideal" by (simp only: of_int_le_iff)
  have c: "(of_int (min (createdAt task) ideal) :: rat) \<le> of_int (createdAt task)" by (simp only: of_int_le_iff)
  have "(of_int (ideal - 90000) :: rat) \<le> of_int ideal" by (simp only: of_int_le_iff)
  then show ?thesis
    using s m c by (auto simp: oneShotJitteredNextCronRunMs_def DEFAULT_CRON_JITTER_CONFIG_def Let_def)
qed

text \<open>
  The jitter moves a delivery only within its slot. In a time zone without transitions a
  recurring occurrence is delivered at or after its ideal minute, at most fifteen minutes later and
  before the next ideal occurrence; a one-shot is delivered at its ideal minute or at most ninety
  seconds earlier, and never before the task was created unless its ideal minute already is.
\<close>

theorem jitter_stays_in_slot:
  assumes "env_zone env = fixed_zone m" "60000 dvd ideal" "\<bar>ideal\<bar> \<le> 8640000000000000"
  shows "of_int ideal \<le> jitteredNextCronRunMs env task p ideal DEFAULT_CRON_JITTER_CONFIG
    \<and> jitteredNextCronRunMs env task p ideal DEFAULT_CRON_JITTER_CONFIG \<le> of_int (ideal + 900000)
    \<and> (case computeNextCronRun (env_zone env) p ideal of None \<Rightarrow> True
       | Some next \<Rightarrow> jitteredNextCronRunMs env task p ideal DEFAULT_CRON_JITTER_CONFIG < of_int next)
    \<and> of_int (ideal - 90000) \<le> oneShotJitteredNextCronRunMs env task ideal DEFAULT_CRON_JITTER_CONFIG
    \<and> oneShotJitteredNextCronRunMs env task ideal DEFAULT_CRON_JITTER_CONFIG \<le> of_int ideal
    \<and> of_int (min (createdAt task) ideal) \<le> oneShotJitteredNextCronRunMs env task ideal DEFAULT_CRON_JITTER_CONFIG"
proof -
  let ?j = "jitteredNextCronRunMs env task p ideal DEFAULT_CRON_JITTER_CONFIG"
  obtain j where j: "of_int ideal \<le> ?j" "?j \<le> of_int (ideal + j)" "j \<le> 900000"
    "case computeNextCronRun (env_zone env) p ideal of None \<Rightarrow> True | Some next \<Rightarrow> ideal + j < next"
    using recurring_jitter_bounds [OF assms(1,2)] assms(3) by force
  have "(of_int (ideal + j) :: rat) \<le> of_int (ideal + 900000)" using j(3) by (simp only: of_int_le_iff)
  then have "?j \<le> of_int (ideal + 900000)" using j(2) by (rule order_trans [rotated])
  moreover have "case computeNextCronRun (env_zone env) p ideal of None \<Rightarrow> True | Some next \<Rightarrow> ?j < of_int next"
  proof (cases "computeNextCronRun (env_zone env) p ideal")
    case (Some n)
    then have "ideal + j < n" using j(4) by simp
    then have "(of_int (ideal + j) :: rat) < of_int n" by (simp only: of_int_less_iff)
    then have "?j < of_int n" using j(2) by (rule order_le_less_trans [rotated])
    then show ?thesis by (simp add: Some)
  qed simp
  ultimately show ?thesis using j(1) one_shot_jitter_bounds [OF assms(3), of env task] by blast
qed

definition daily_nine :: ParsedCronExpression where
  "daily_nine = Parsed ''0 9 * * *'' [0] [9] [1..31] [1..12] [0..6] True True"

definition nine_task :: CronTask where
  "nine_task = \<lparr>task_id = ''80000000'', cron = ''0 9 * * *'', prompt = ''report'', createdAt = 0,
     recurring = None, lastFiredAt = None\<rparr>"

lemma daily_nine_next: "computeNextCronRun (fixed_zone 0) daily_nine 32400000 = Some 118800000"
  by code_simp

lemma jitter_stays_in_slot_witness:
  "(32400000 :: rat) \<le> jitteredNextCronRunMs \<lparr>env_zone = fixed_zone 0, env_no_jitter = False\<rparr> nine_task daily_nine
      32400000 DEFAULT_CRON_JITTER_CONFIG
   \<and> jitteredNextCronRunMs \<lparr>env_zone = fixed_zone 0, env_no_jitter = False\<rparr> nine_task daily_nine
      32400000 DEFAULT_CRON_JITTER_CONFIG < 118800000"
  using jitter_stays_in_slot [of "\<lparr>env_zone = fixed_zone 0, env_no_jitter = False\<rparr>" 0 32400000 nine_task daily_nine]
  by (simp add: daily_nine_next)

end
