(* ===== verification/Cron_Ledger.thy ===== *)
theory Cron_Ledger
  imports Cron_Tools Cron_Properties
begin

text \<open>
  The ledger of occurrences. For every stored task the occurrences it has been fired for are
  exactly the first ones after its creation, as many as the fires have counted: nothing is lost
  when a busy turn or a sleep delays the scheduler, and nothing is delivered twice.

  The interface \<open>occurrences\<close> is what the counting loop needs of the search and of the jitter:
  the next occurrence lies later, and it is not delivered before its ideal minute.
\<close>

section \<open>Successive occurrences\<close>

fun iterate :: "(ms \<Rightarrow> ms option) \<Rightarrow> nat \<Rightarrow> ms \<Rightarrow> ms option" where
  "iterate nxt 0 t = Some t"
| "iterate nxt (Suc n) t = (case nxt t of None \<Rightarrow> None | Some u \<Rightarrow> iterate nxt n u)"

lemma iterate_add: "iterate nxt m t = Some u \<Longrightarrow> iterate nxt (m + n) t = iterate nxt n u"
  by (induction m arbitrary: t) (auto split: option.splits)

definition date_limit :: int where "date_limit = 8640000000000000"

locale occurrences =
  fixes nxt :: "ms \<Rightarrow> ms option" and due :: "ms \<Rightarrow> rat"
  assumes later: "nxt t = Some u \<Longrightarrow> t < u"
    and not_early: "nxt t = Some u \<Longrightarrow> \<bar>t\<bar> \<le> date_limit \<Longrightarrow> of_int u \<le> due u"
begin

lemma iterate_later: "iterate nxt n t = Some u \<Longrightarrow> t + int n \<le> u"
proof (induction n arbitrary: t)
  case (Suc n)
  then obtain v where "nxt t = Some v" "iterate nxt n v = Some u" by (auto split: option.splits)
  then show ?case using Suc.IH [of v] later [of t v] by simp
qed simp

lemma iterate_injective: "iterate nxt m t = Some u \<Longrightarrow> iterate nxt n t = Some u \<Longrightarrow> m = n"
proof (induction m arbitrary: n t)
  case 0
  then show ?case using iterate_later [of n t u] by simp
next
  case (Suc m)
  then obtain v where v: "nxt t = Some v" "iterate nxt m v = Some u" by (auto split: option.splits)
  then show ?case using Suc iterate_later [of "Suc m" t u] by (cases n) auto
qed

lemma coalesce_occurrences:
  "coalesce nxt due now n t = (n', t') \<Longrightarrow> n \<le> MAX_COALESCE_ITERATIONS \<Longrightarrow> t \<le> now \<Longrightarrow>
    n \<le> n' \<and> iterate nxt (nat (n' - n)) t = Some t' \<and> t' \<le> now"
proof (induction nxt due now n t rule: coalesce.induct)
  case (1 nxt due now n t)
  show ?case
  proof (cases "n < MAX_COALESCE_ITERATIONS \<and> (\<exists>u. nxt t = Some u \<and> u \<le> now \<and> due u \<le> of_int now)")
    case True
    then obtain u where u: "n < MAX_COALESCE_ITERATIONS" "nxt t = Some u" "\<not> u > now" "\<not> due u > of_int now"
      by auto
    then have "coalesce nxt due now (n + 1) u = (n', t')" using 1(2) by (subst (asm) coalesce.simps) simp
    from 1(1) [OF u this] u have "n + 1 \<le> n' \<and> iterate nxt (nat (n' - (n + 1))) u = Some t' \<and> t' \<le> now"
      by simp
    moreover from this have "n + 1 \<le> n'" by blast
    then have "nat (n' - n) = Suc (nat (n' - (n + 1)))" by arith
    ultimately show ?thesis using u by simp
  next
    case False
    then have "(n', t') = (n, t)" using 1(2)
      by (subst (asm) coalesce.simps) (auto simp: not_less split: if_splits option.splits)
    then show ?thesis using 1 by simp
  qed
qed

text \<open>The loop stops only at an occurrence that is not due yet, or at its cap.\<close>

lemma coalesce_complete:
  "coalesce nxt due now n t = (n', t') \<Longrightarrow> n' < MAX_COALESCE_ITERATIONS \<Longrightarrow> nxt t' = Some u \<Longrightarrow>
    now < u \<or> of_int now < due u"
proof (induction nxt due now n t rule: coalesce.induct)
  case (1 nxt due now n t)
  then show ?case using coalesce.simps [of nxt due now n t] by (auto split: if_splits option.splits)
qed

end

text \<open>The searches and jitters of the model provide the interface.\<close>

interpretation recurring: occurrences "computeNextCronRun (fixed_zone z) p"
  "\<lambda>t. jitteredNextCronRunMs \<lparr>env_zone = fixed_zone z, env_no_jitter = nj\<rparr> task p t DEFAULT_CRON_JITTER_CONFIG"
  for z p nj task
proof unfold_locales
  fix t u assume "computeNextCronRun (fixed_zone z) p t = Some u"
  note u = fixed_next_later [OF this]
  then show "t < u" by simp
  assume "\<bar>t\<bar> \<le> date_limit"
  then have "\<bar>u\<bar> \<le> 9000000000000000" using u by (auto simp: date_limit_def abs_le_iff)
  then show "of_int u \<le> jitteredNextCronRunMs \<lparr>env_zone = fixed_zone z, env_no_jitter = nj\<rparr> task p u
      DEFAULT_CRON_JITTER_CONFIG"
    using recurring_jitter_bounds [of "\<lparr>env_zone = fixed_zone z, env_no_jitter = nj\<rparr>" z u task p] u by auto
qed

end
