(* ===== verification/Cron_Run.thy ===== *)
theory Cron_Run
  imports Cron_Ledger
begin

text \<open>
  Runs of the cron subsystem: what each operation of the manager changes, the ledger of every stored
  task, and the proof that a tick keeps it.
\<close>

section \<open>What the operations change\<close>

lemma persistEnqueue_frame [simp]:
  "mg_store (persistEnqueue i w m) = mg_store m" "cron_events (persistEnqueue i w m) = cron_events m"
  "mg_now (persistEnqueue i w m) = mg_now m" "mg_env (persistEnqueue i w m) = mg_env m"
  "persistStore (persistEnqueue i w m) = persistStore m" "disk (persistEnqueue i w m) = disk m"
  by (simp_all add: persistEnqueue_def Let_def)

lemma fold_enqueue_frame [simp]:
  "mg_store (fold (\<lambda>i. persistEnqueue i w) ids m) = mg_store m"
  "cron_events (fold (\<lambda>i. persistEnqueue i w) ids m) = cron_events m"
  "mg_now (fold (\<lambda>i. persistEnqueue i w) ids m) = mg_now m"
  "mg_env (fold (\<lambda>i. persistEnqueue i w) ids m) = mg_env m"
  "persistStore (fold (\<lambda>i. persistEnqueue i w) ids m) = persistStore m"
  "disk (fold (\<lambda>i. persistEnqueue i w) ids m) = disk m"
  by (induction ids arbitrary: m) simp_all

lemma removeTasks_frame [simp]:
  "mg_store (snd (removeTasks ids m)) = snd (store_remove ids (mg_store m))"
  "cron_events (snd (removeTasks ids m)) = cron_events m" "mg_now (snd (removeTasks ids m)) = mg_now m"
  "mg_env (snd (removeTasks ids m)) = mg_env m" "persistStore (snd (removeTasks ids m)) = persistStore m"
  "disk (snd (removeTasks ids m)) = disk m"
  by (simp_all add: removeTasks_def split_beta)

lemma map_of_store_remove: "map_of (snd (store_remove ids tasks)) j = (if j \<in> set ids then None else map_of tasks j)"
  by (induction ids tasks rule: store_remove.induct)
    (auto simp: split_beta delete_conv' split: option.splits)

lemma advanceCursor_frame [simp]:
  "cron_events (advanceCursor i t m) = cron_events m" "mg_now (advanceCursor i t m) = mg_now m"
  "mg_env (advanceCursor i t m) = mg_env m" "persistStore (advanceCursor i t m) = persistStore m"
  "disk (advanceCursor i t m) = disk m"
  by (simp_all add: advanceCursor_def Let_def split: prod.splits option.splits)

lemma map_of_advanceCursor: "map_of (mg_store (advanceCursor i t m)) j =
  (if j = i then map_option (\<lambda>task. task\<lparr>lastFiredAt := Some t\<rparr>) (map_of (mg_store m) i) else map_of (mg_store m) j)"
  by (simp add: advanceCursor_def store_markFired_def Let_def update_conv' split: option.splits)

lemma steer_frame [simp]:
  "mg_store (snd (steer c og m)) = mg_store m" "cron_events (snd (steer c og m)) = cron_events m"
  "mg_now (snd (steer c og m)) = mg_now m" "mg_env (snd (steer c og m)) = mg_env m"
  "persistStore (snd (steer c og m)) = persistStore m" "disk (snd (steer c og m)) = disk m"
  "persistQueues (snd (steer c og m)) = persistQueues m"
  by (simp_all add: steer_def)

lemma cron_emit_frame [simp]:
  "mg_store (cron_emit e m) = mg_store m" "cron_events (cron_emit e m) = cron_events m @ [e]"
  "mg_now (cron_emit e m) = mg_now m" "mg_env (cron_emit e m) = mg_env m"
  "persistStore (cron_emit e m) = persistStore m" "disk (cron_emit e m) = disk m"
  "persistQueues (cron_emit e m) = persistQueues m"
  by (simp_all add: cron_emit_def)

lemma handleFire_frame [simp]:
  "mg_now (handleFire g task n m) = mg_now m" "mg_env (handleFire g task n m) = mg_env m"
  "persistStore (handleFire g task n m) = persistStore m" "disk (handleFire g task n m) = disk m"
  by (simp_all add: handleFire_def Let_def split_beta emitDeleted_def)

lemma map_of_handleFire: "map_of (mg_store (handleFire g task n m)) j =
  (if j = task_id task \<and> isStale task m \<and> recurring task \<noteq> Some False then None else map_of (mg_store m) j)"
  by (auto simp: handleFire_def Let_def split_beta emitDeleted_def map_of_store_remove
      simp del: store_remove.simps)

section \<open>The ledger\<close>

text \<open>How many occurrences a task has been fired for.\<close>

fun event_count :: "string \<Rightarrow> cron_event \<Rightarrow> nat" where
  "event_count i (Cron_fired og p) = (if jobId og = i then nat (coalescedCount og) else 0)"
| "event_count i _ = 0"

definition fired_count :: "string \<Rightarrow> CronManager \<Rightarrow> nat" where
  "fired_count i m = sum_list (map (event_count i) (cron_events m))"

lemma fired_count_handleFire:
  "fired_count i (handleFire g task n m) = fired_count i m + (if task_id task = i then nat n else 0)"
  by (simp add: fired_count_def handleFire_def Let_def split_beta emitDeleted_def)

lemma fired_count_frame [simp]:
  "fired_count i (persistEnqueue j w m) = fired_count i m"
  "fired_count i (snd (removeTasks ids m)) = fired_count i m"
  "fired_count i (advanceCursor j t m) = fired_count i m"
  by (simp_all add: fired_count_def)

definition cursor_of :: "CronTask \<Rightarrow> ms" where
  "cursor_of task = (case lastFiredAt task of Some t \<Rightarrow> t | None \<Rightarrow> createdAt task)"

text \<open>
  A task is on the ledger when, for a one-shot, it has not fired, and for a recurring one, its cursor
  is the occurrence number \<open>n\<close> after its creation, \<open>n\<close> being the number of occurrences fired.
  \<open>seen\<close> is its entry in \<open>lastSeenAt\<close>, \<open>sd\<close> whether it is in \<open>seededFromDisk\<close>.
\<close>

definition on_ledger :: "int \<Rightarrow> ms option \<Rightarrow> bool \<Rightarrow> nat \<Rightarrow> ms \<Rightarrow> CronTask \<Rightarrow> bool" where
  "on_ledger z seen sd n now task \<longleftrightarrow> 0 \<le> createdAt task \<and> createdAt task \<le> now \<and>
     (if recurring task = Some False then n = 0 \<and> seen = None \<and> lastFiredAt task = None
      else cursor_of task \<le> now \<and> (seen = None \<or> seen = lastFiredAt task)
        \<and> (sd \<and> lastFiredAt task \<noteq> None \<longrightarrow> seen \<noteq> None)
        \<and> (case parseCronExpression (cron task) of
             Inl e \<Rightarrow> n = 0 \<and> lastFiredAt task = None
           | Inr p \<Rightarrow> iterate (computeNextCronRun (fixed_zone z) p) n (createdAt task) = Some (cursor_of task)))"

definition cache_ok :: "CronScheduler \<Rightarrow> bool" where
  "cache_ok st \<longleftrightarrow> (\<forall>e p. map_of (parsedCache st) e = Some p \<longrightarrow> parseCronExpression e = Inr p)"

definition store_ok :: "SessionCronStore \<Rightarrow> bool" where
  "store_ok tasks \<longleftrightarrow> distinct (map fst tasks) \<and> (\<forall>(i, task) \<in> set tasks. task_id task = i)"

definition ledger_ok :: "int \<Rightarrow> CronScheduler \<Rightarrow> CronManager \<Rightarrow> bool" where
  "ledger_ok z st m \<longleftrightarrow> (\<forall>i task. map_of (mg_store m) i = Some task \<longrightarrow> task_id task = i \<and>
     on_ledger z (map_of (lastSeenAt st) i) (i \<in> set (seededFromDisk st)) (fired_count i m) (mg_now m) task)"

definition clock_ok :: "int \<Rightarrow> CronManager \<Rightarrow> bool" where
  "clock_ok z m \<longleftrightarrow> env_zone (mg_env m) = fixed_zone z \<and> 0 \<le> mg_now m \<and> mg_now m \<le> date_limit"

section \<open>One task\<close>

lemma cursor_from_creation: "on_ledger z seen sd n now task \<Longrightarrow> createdAt task \<le> cursor_of task"
proof -
  assume l: "on_ledger z seen sd n now task"
  show ?thesis
  proof (cases "recurring task = Some False \<or> lastFiredAt task = None")
    case True
    then show ?thesis using l by (auto simp: on_ledger_def cursor_of_def)
  next
    case False
    then obtain p where "iterate (computeNextCronRun (fixed_zone z) p) n (createdAt task) = Some (cursor_of task)"
      using l by (auto simp: on_ledger_def split: sum.splits)
    from recurring.iterate_later [OF this] show ?thesis by simp
  qed
qed

lemma getParsed_result:
  assumes "cache_ok st" "getParsed e st = (r, st')"
  shows "r = parseCronExpression e \<and> cache_ok st' \<and> lastSeenAt st' = lastSeenAt st
    \<and> seededFromDisk st' = seededFromDisk st \<and> inFlight st' = inFlight st"
  using assms by (auto simp: getParsed_def cache_ok_def update_conv' split: option.splits sum.splits if_splits)

lemma seed_frame [simp]: "parsedCache (seed now task st) = parsedCache st" "inFlight (seed now task st) = inFlight st"
  "set (seededFromDisk (seed now task st)) = insert (task_id task) (set (seededFromDisk st))"
  by (simp_all add: seed_def Let_def split: option.splits)

lemma seed_others: "j \<noteq> task_id task \<Longrightarrow> map_of (lastSeenAt (seed now task st)) j = map_of (lastSeenAt st) j"
  by (simp add: seed_def Let_def update_conv' split: option.splits)

lemma seed_ledger:
  assumes "on_ledger z (map_of (lastSeenAt st) (task_id task)) (task_id task \<in> set (seededFromDisk st)) n now task"
  shows "on_ledger z (map_of (lastSeenAt (seed now task st)) (task_id task)) True n now task"
    and "baseFromMs task (seed now task st) = cursor_of task"
proof -
  have c: "createdAt task \<le> cursor_of task" using assms by (rule cursor_from_creation)
  have s: "map_of (lastSeenAt (seed now task st)) (task_id task) = lastFiredAt task"
    using assms by (auto simp: seed_def Let_def update_conv' on_ledger_def cursor_of_def
      split: option.splits if_splits)
  show "on_ledger z (map_of (lastSeenAt (seed now task st)) (task_id task)) True n now task"
    unfolding s using assms by (auto simp: on_ledger_def)
  show "baseFromMs task (seed now task st) = cursor_of task"
    unfolding baseFromMs_def s using c by (auto simp: cursor_of_def split: option.splits)
qed


section \<open>A due task\<close>

lemma coalesced_ledger:
  assumes "recurring task \<noteq> Some False" "computeNextCronRun (fixed_zone z) p base = Some ideal"
    "delivery_time \<lparr>env_zone = fixed_zone z, env_no_jitter = nj\<rparr> task p ideal \<le> of_int now"
    "\<bar>base\<bar> \<le> date_limit"
    "coalesced \<lparr>env_zone = fixed_zone z, env_no_jitter = nj\<rparr> task p base now = (n, lst)"
  shows "0 < n \<and> (\<exists>t. lst = Some t \<and> iterate (computeNextCronRun (fixed_zone z) p) (nat n) base = Some t \<and> t \<le> now)"
proof -
  let ?env = "\<lparr>env_zone = fixed_zone z, env_no_jitter = nj\<rparr>"
  have d: "delivery_time ?env task p = (\<lambda>t. jitteredNextCronRunMs ?env task p t DEFAULT_CRON_JITTER_CONFIG)"
    using assms(1) by (simp add: delivery_time_def fun_eq_iff)
  obtain n' t where nt: "coalesce (computeNextCronRun (fixed_zone z) p) (delivery_time ?env task p) now 1 ideal = (n', t)"
    by (cases "coalesce (computeNextCronRun (fixed_zone z) p) (delivery_time ?env task p) now 1 ideal")
  have "of_int ideal \<le> delivery_time ?env task p ideal"
    unfolding d using recurring.not_early [OF assms(2,4)] .
  then have "(of_int ideal :: rat) \<le> of_int now" using assms(3) by simp
  then have "ideal \<le> now" by (simp only: of_int_le_iff)
  from recurring.coalesce_occurrences [OF nt [unfolded d] _ this]
  have c: "1 \<le> n'" "iterate (computeNextCronRun (fixed_zone z) p) (nat (n' - 1)) ideal = Some t" "t \<le> now"
    by (simp_all add: MAX_COALESCE_ITERATIONS_def)
  have "n = n'" "lst = Some t"
    using assms(1,2,5) nt c(1) by (auto simp: coalesced_def countCoalesced_def)
  moreover have "nat n' = Suc (nat (n' - 1))" using c(1) by arith
  ultimately show ?thesis using c assms(2) by auto
qed

lemma on_ledger_later: "on_ledger z seen sd n now task \<Longrightarrow> now \<le> now' \<Longrightarrow> on_ledger z seen sd n now' task"
  by (auto simp: on_ledger_def)

lemma iterate_ledger:
  assumes "on_ledger z seen sd n now task" "recurring task \<noteq> Some False" "parseCronExpression (cron task) = Inr p"
    "iterate (computeNextCronRun (fixed_zone z) p) k (cursor_of task) = Some t" "t \<le> now"
  shows "on_ledger z (Some t) True (n + k) now (task\<lparr>lastFiredAt := Some t\<rparr>)"
  using assms iterate_add by (auto simp: on_ledger_def cursor_of_def)

text \<open>What the ledger of the other tasks and the rest of the state see of one task's processing.\<close>

definition same_elsewhere :: "string \<Rightarrow> CronScheduler \<times> CronManager \<Rightarrow> CronScheduler \<times> CronManager \<Rightarrow> bool" where
  "same_elsewhere i s s' \<longleftrightarrow> mg_now (snd s') = mg_now (snd s) \<and> mg_env (snd s') = mg_env (snd s) \<and>
     (\<forall>j. j \<noteq> i \<longrightarrow> map_of (mg_store (snd s')) j = map_of (mg_store (snd s)) j
        \<and> map_of (lastSeenAt (fst s')) j = map_of (lastSeenAt (fst s)) j
        \<and> (j \<in> set (seededFromDisk (fst s')) \<longleftrightarrow> j \<in> set (seededFromDisk (fst s)))
        \<and> (j \<in> set (inFlight (fst s')) \<longleftrightarrow> j \<in> set (inFlight (fst s)))
        \<and> fired_count j (snd s') = fired_count j (snd s))"

lemma ledger_okD:
  assumes "ledger_ok z st m" "map_of (mg_store m) i = Some task"
  shows "task_id task = i"
    "on_ledger z (map_of (lastSeenAt st) i) (i \<in> set (seededFromDisk st)) (fired_count i m) (mg_now m) task"
  using assms unfolding ledger_ok_def by blast+

lemma ledger_ok_cong: "ledger_ok z st m \<Longrightarrow> lastSeenAt st' = lastSeenAt st \<Longrightarrow>
  seededFromDisk st' = seededFromDisk st \<Longrightarrow> ledger_ok z st' m"
  by (simp add: ledger_ok_def)

lemma ledger_ok_step:
  assumes "ledger_ok z st m" "same_elsewhere i (st, m) (st', m')"
    and "\<And>task. map_of (mg_store m') i = Some task \<Longrightarrow> task_id task = i \<and>
      on_ledger z (map_of (lastSeenAt st') i) (i \<in> set (seededFromDisk st')) (fired_count i m') (mg_now m') task"
  shows "ledger_ok z st' m'"
  unfolding ledger_ok_def
proof (intro allI impI)
  fix j task assume j: "map_of (mg_store m') j = Some task"
  show "task_id task = j \<and>
      on_ledger z (map_of (lastSeenAt st') j) (j \<in> set (seededFromDisk st')) (fired_count j m') (mg_now m') task"
  proof (cases "j = i")
    case True
    then show ?thesis using assms(3) j by simp
  next
    case False
    then show ?thesis using assms(1,2) j unfolding ledger_ok_def same_elsewhere_def by simp
  qed
qed

lemma same_elsewhere_refl [simp]: "same_elsewhere i s s"
  by (simp add: same_elsewhere_def)

lemma same_elsewhere_trans: "same_elsewhere i s s' \<Longrightarrow> same_elsewhere i s' s'' \<Longrightarrow> same_elsewhere i s s''"
  by (simp add: same_elsewhere_def)

lemma fire_task_elsewhere:
  assumes "fire_task env (cron_options g m0) now task p st m = (st', m')"
  shows "same_elsewhere (task_id task) (st, m) (st', m')"
  using assms unfolding fire_task_def delivered_task_def cron_options_def
  by (auto simp: Let_def same_elsewhere_def split_beta map_of_advanceCursor map_of_handleFire map_of_store_remove
      fired_count_handleFire update_conv' delete_conv' simp del: store_remove.simps split: if_splits)

lemma fire_task_cache: "fire_task env (cron_options g m0) now task p st m = (st', m') \<Longrightarrow> cache_ok st \<Longrightarrow> cache_ok st'"
  by (auto simp: fire_task_def delivered_task_def cron_options_def cache_ok_def Let_def split_beta split: if_splits)

lemma fire_task_one_shot:
  assumes "fire_task env (cron_options g m0) now task p st m = (st', m')" "recurring task = Some False"
  shows "map_of (mg_store m') (task_id task) = None"
  using assms by (auto simp: fire_task_def delivered_task_def cron_options_def Let_def split_beta
      map_of_store_remove simp del: store_remove.simps)

lemma fire_task_recurring:
  assumes fire: "fire_task \<lparr>env_zone = fixed_zone z, env_no_jitter = nj\<rparr> (cron_options g m0) now task p st m = (st', m')"
    and base: "baseFromMs task st = cursor_of task" "\<bar>cursor_of task\<bar> \<le> date_limit"
    and nxt: "computeNextCronRun (fixed_zone z) p (cursor_of task) = Some ideal"
    and due: "delivery_time \<lparr>env_zone = fixed_zone z, env_no_jitter = nj\<rparr> task p ideal \<le> of_int now"
    and rec: "recurring task \<noteq> Some False"
  obtains n t where "coalesced \<lparr>env_zone = fixed_zone z, env_no_jitter = nj\<rparr> task p (cursor_of task) now = (n, Some t)"
    "0 < n" "iterate (computeNextCronRun (fixed_zone z) p) (nat n) (cursor_of task) = Some t" "t \<le> now"
    "m' = advanceCursor (task_id task) t (handleFire g task n m)"
    "st' = st\<lparr>inFlight := oset_add (task_id task) (inFlight st),
        lastSeenAt := AList.update (task_id task) t (lastSeenAt st)\<rparr>"
proof -
  let ?env = "\<lparr>env_zone = fixed_zone z, env_no_jitter = nj\<rparr>"
  obtain n lst where nl: "coalesced ?env task p (cursor_of task) now = (n, lst)"
    by (cases "coalesced ?env task p (cursor_of task) now")
  from coalesced_ledger [OF rec nxt due base(2) nl] obtain t where
    t: "0 < n" "lst = Some t" "iterate (computeNextCronRun (fixed_zone z) p) (nat n) (cursor_of task) = Some t" "t \<le> now"
    by blast
  show thesis
    by (rule that [OF nl [unfolded t(2)] t(1,3,4)])
      (use fire rec in \<open>simp_all add: fire_task_def delivered_task_def cron_options_def Let_def base(1) nl t(2)\<close>)
qed

lemma stored_after_fire:
  assumes "map_of (mg_store m) (task_id task) = Some task"
    "map_of (mg_store (advanceCursor (task_id task) t (handleFire g task n m))) (task_id task) = Some task'"
  shows "task' = task\<lparr>lastFiredAt := Some t\<rparr>"
  using assms by (auto simp: map_of_advanceCursor map_of_handleFire split: if_splits)

lemma cursor_in_range: "on_ledger z seen sd n now task \<Longrightarrow> recurring task \<noteq> Some False \<Longrightarrow> now \<le> date_limit \<Longrightarrow>
  \<bar>cursor_of task\<bar> \<le> date_limit"
  using cursor_from_creation by (force simp: on_ledger_def)

lemma fire_task_ledger:
  assumes fire: "fire_task \<lparr>env_zone = fixed_zone z, env_no_jitter = nj\<rparr> (cron_options g m0) now task p st m = (st', m')"
    and ledger: "on_ledger z seen True (fired_count (task_id task) m) now task"
    and base: "baseFromMs task st = cursor_of task"
    and parse: "parseCronExpression (cron task) = Inr p"
    and nxt: "computeNextCronRun (fixed_zone z) p (cursor_of task) = Some ideal"
    and due: "delivery_time \<lparr>env_zone = fixed_zone z, env_no_jitter = nj\<rparr> task p ideal \<le> of_int now"
    and now: "mg_now m = now" "now \<le> date_limit" "task_id task \<in> set (seededFromDisk st)"
    and stored: "map_of (mg_store m) (task_id task) = Some task"
    and stored': "map_of (mg_store m') (task_id task) = Some task'"
  shows "task_id task' = task_id task \<and> on_ledger z (map_of (lastSeenAt st') (task_id task))
    (task_id task \<in> set (seededFromDisk st')) (fired_count (task_id task) m') now task'"
proof (cases "recurring task = Some False")
  case True
  then show ?thesis using fire_task_one_shot [OF fire] stored' by simp
next
  case False
  from fire_task_recurring [OF fire base cursor_in_range [OF ledger False now(2)] nxt due False]
  obtain n t where t: "iterate (computeNextCronRun (fixed_zone z) p) (nat n) (cursor_of task) = Some t" "t \<le> now"
    and m': "m' = advanceCursor (task_id task) t (handleFire g task n m)"
    and st': "st' = st\<lparr>inFlight := oset_add (task_id task) (inFlight st),
        lastSeenAt := AList.update (task_id task) t (lastSeenAt st)\<rparr>" by blast
  then show ?thesis
    using iterate_ledger [OF ledger False parse t] now(3) stored_after_fire [OF stored stored' [unfolded m']]
    by (simp add: m' st' update_conv' fired_count_handleFire add.commute)
qed

section \<open>A tick\<close>

lemma tick_task_ledger:
  assumes run: "tick_task (mg_env m0) (cron_options g m0) (mg_now m) task (st, m) = (st', m')"
    and env: "mg_env m = mg_env m0" "clock_ok z m"
    and ok: "cache_ok st" "ledger_ok z st m"
    and stored: "map_of (mg_store m) (task_id task) = Some task"
  shows "cache_ok st' \<and> ledger_ok z st' m' \<and> same_elsewhere (task_id task) (st, m) (st', m')"
proof (cases "task_id task \<in> set (inFlight st)")
  case True
  then show ?thesis using run ok by (simp add: tick_task_def)
next
  case False
  let ?i = "task_id task"
  obtain r st1 where gp: "getParsed (cron task) st = (r, st1)" by (cases "getParsed (cron task) st")
  note st1 = getParsed_result [OF ok(1) gp]
  have se1: "same_elsewhere ?i (st, m) (st1, m)" using st1 by (simp add: same_elsewhere_def)
  have l0: "on_ledger z (map_of (lastSeenAt st) ?i) (?i \<in> set (seededFromDisk st)) (fired_count ?i m) (mg_now m) task"
    using ledger_okD(2) [OF ok(2) stored] .
  have ok1: "ledger_ok z st1 m" using ledger_ok_cong [OF ok(2)] st1 by blast
  show ?thesis
  proof (cases r)
    case (Inl e)
    then have "st' = st1" "m' = m" using run False by (simp_all add: tick_task_def gp)
    then show ?thesis using st1 se1 ok1 by simp
  next
    case (Inr p)
    let ?st2 = "seed (mg_now m) task st1"
    have sl: "on_ledger z (map_of (lastSeenAt ?st2) ?i) True (fired_count ?i m) (mg_now m) task"
      "baseFromMs task ?st2 = cursor_of task"
      using seed_ledger [of z st1 task "fired_count ?i m" "mg_now m"] l0 st1 by simp_all
    have se2: "same_elsewhere ?i (st, m) (?st2, m)"
      using st1 by (simp add: same_elsewhere_def seed_others)
    have c2: "cache_ok ?st2" using st1 by (simp add: cache_ok_def)
    have ok2: "ledger_ok z ?st2 m"
    proof (rule ledger_ok_step [OF ok(2) se2])
      fix task' assume "map_of (mg_store m) ?i = Some task'"
      then have "task' = task" using stored by simp
      then show "task_id task' = ?i \<and> on_ledger z (map_of (lastSeenAt ?st2) ?i)
          (?i \<in> set (seededFromDisk ?st2)) (fired_count ?i m) (mg_now m) task'"
        using sl(1) by simp
    qed
    obtain nj where e: "mg_env m0 = \<lparr>env_zone = fixed_zone z, env_no_jitter = nj\<rparr>"
      using env by (cases "mg_env m0") (simp add: clock_ok_def)
    show ?thesis
    proof (cases "\<exists>d. computeJitteredNext (mg_env m0) task p (cursor_of task) = Some d \<and> d \<le> of_int (mg_now m)")
      case False
      then have "(st', m') = (?st2, m)" using run \<open>task_id task \<notin> set (inFlight st)\<close> sl(2)
        by (auto simp: tick_task_def gp Inr Let_def split: option.splits if_splits)
      then show ?thesis using c2 ok2 se2 by simp
    next
      case True
      then obtain ideal where d: "computeNextCronRun (fixed_zone z) p (cursor_of task) = Some ideal"
        "delivery_time (mg_env m0) task p ideal \<le> of_int (mg_now m)"
        by (auto simp: computeJitteredNext_def e split: option.splits)
      then have "\<not> of_int (mg_now m) < delivery_time (mg_env m0) task p ideal" by simp
      then have fire: "fire_task (mg_env m0) (cron_options g m0) (mg_now m) task p ?st2 m = (st', m')"
        using run \<open>task_id task \<notin> set (inFlight st)\<close> sl(2) d(1)
        by (simp add: tick_task_def gp Inr Let_def computeJitteredNext_def e)
      have se: "same_elsewhere ?i (st, m) (st', m')"
        using se2 fire_task_elsewhere [OF fire] by (rule same_elsewhere_trans)
      have parse: "parseCronExpression (cron task) = Inr p" using st1 Inr by simp
      have "ledger_ok z st' m'"
      proof (rule ledger_ok_step [OF ok(2) se])
        fix task' assume "map_of (mg_store m') ?i = Some task'"
        from fire_task_ledger [OF fire [unfolded e] sl parse d(1) d(2) [unfolded e] refl _ _ stored this]
        show "task_id task' = ?i \<and> on_ledger z (map_of (lastSeenAt st') ?i) (?i \<in> set (seededFromDisk st'))
            (fired_count ?i m') (mg_now m') task'"
          using env(2) se by (simp add: clock_ok_def same_elsewhere_def)
      qed
      then show ?thesis using fire_task_cache [OF fire c2] se by simp
    qed
  qed
qed

lemma tick_loop_ledger:
  assumes "fold (tick_task (mg_env m0) (cron_options g m0) now) tasks (st, m) = (st', m')"
    and "mg_env m = mg_env m0" "clock_ok z m" "mg_now m = now" "cache_ok st" "ledger_ok z st m"
    and "distinct (map task_id tasks)" "\<forall>task \<in> set tasks. map_of (mg_store m) (task_id task) = Some task"
  shows "cache_ok st' \<and> ledger_ok z st' m' \<and> clock_ok z m' \<and> mg_now m' = now \<and> mg_env m' = mg_env m0"
  using assms
proof (induction tasks arbitrary: st m)
  case (Cons task tasks)
  obtain st1 m1 where one: "tick_task (mg_env m0) (cron_options g m0) now task (st, m) = (st1, m1)"
    by (cases "tick_task (mg_env m0) (cron_options g m0) now task (st, m)")
  have k: "cache_ok st1 \<and> ledger_ok z st1 m1 \<and> same_elsewhere (task_id task) (st, m) (st1, m1)"
    by (rule tick_task_ledger [of m0 g m]) (use Cons.prems one in simp_all)
  have "fold (tick_task (mg_env m0) (cron_options g m0) now) tasks (st1, m1) = (st', m')"
    using Cons.prems(1) one by simp
  then show ?case
  proof (rule Cons.IH)
    show "\<forall>t \<in> set tasks. map_of (mg_store m1) (task_id t) = Some t"
    proof
      fix t assume t: "t \<in> set tasks"
      then have "task_id t \<in> task_id ` set tasks" by (rule imageI)
      then have "task_id t \<noteq> task_id task" using Cons.prems(7) by (auto simp del: imageE)
      then have "map_of (mg_store m1) (task_id t) = map_of (mg_store m) (task_id t)"
        using k by (simp add: same_elsewhere_def)
      then show "map_of (mg_store m1) (task_id t) = Some t" using t Cons.prems(8) by simp
    qed
  qed (use k Cons.prems in \<open>simp_all add: same_elsewhere_def clock_ok_def\<close>)
qed simp

lemma stored_tasks: "distinct (map fst tasks) \<Longrightarrow> (\<And>i task. map_of tasks i = Some task \<Longrightarrow> task_id task = i) \<Longrightarrow>
  distinct (map task_id (store_list tasks)) \<and> (\<forall>task \<in> set (store_list tasks). map_of tasks (task_id task) = Some task)"
proof -
  assume d: "distinct (map fst tasks)" and k: "\<And>i task. map_of tasks i = Some task \<Longrightarrow> task_id task = i"
  have e: "task_id task = i" if "(i, task) \<in> set tasks" for i task using that d k by (metis map_of_is_SomeI)
  then have "map task_id (store_list tasks) = map fst tasks" by (auto simp: store_list_def)
  then have "distinct (map task_id (store_list tasks))" using d by simp
  then show ?thesis using d e by (auto simp: store_list_def)
qed

lemma manager_tick_ledger:
  assumes "manager_tick g (st, m) = (st', m')" "clock_ok z m" "cache_ok st" "ledger_ok z st m"
    "distinct (map fst (mg_store m))"
  shows "cache_ok st' \<and> ledger_ok z st' m' \<and> clock_ok z m'"
proof (cases "fold (tick_task (mg_env m) (cron_options g m) (mg_now m)) (store_list (mg_store m)) (st, m)")
  case (Pair st1 m1)
  have "\<And>i task. map_of (mg_store m) i = Some task \<Longrightarrow> task_id task = i"
    using ledger_okD(1) [OF assms(4)] .
  note stored = stored_tasks [OF assms(5) this]
  have "cache_ok st1 \<and> ledger_ok z st1 m1 \<and> clock_ok z m1 \<and> mg_now m1 = mg_now m \<and> mg_env m1 = mg_env m"
    using tick_loop_ledger [OF Pair refl assms(2) refl assms(3,4)] stored by blast
  moreover have "(st', m') = (st, m) \<or> (st', m') = (st1\<lparr>inFlight := []\<rparr>, m1)"
    using assms(1) Pair by (auto simp: manager_tick_def tick_def cron_options_def split: if_splits)
  ultimately show ?thesis using assms(2-4) by (auto simp: cache_ok_def ledger_ok_def)
qed

end
