(* ===== verification/Cron_Reach.thy ===== *)
theory Cron_Reach
  imports Cron_Run
begin

text \<open>
  The cron subsystem as a transition system: ticks, the clock, turns beginning and ending, tasks
  created and deleted by either way, writes that reach the disk, and an orderly restart. Its
  invariant is the ledger of the occurrences and the agreement of the disk with the store.
\<close>

section \<open>The disk and the store\<close>

fun after_op :: "disk_op \<Rightarrow> CronTask option \<Rightarrow> CronTask option" where
  "after_op (Disk_write task) d = Some task"
| "after_op Disk_remove d = None"

definition queue_of :: "string \<Rightarrow> CronManager \<Rightarrow> disk_op list" where
  "queue_of i m = (case map_of (persistQueues m) i of Some ops \<Rightarrow> ops | None \<Rightarrow> [])"

text \<open>The disk will hold \<open>S\<close> when all that is queued has been written.\<close>

definition mirrors :: "CronManager \<Rightarrow> (string \<Rightarrow> CronTask option) \<Rightarrow> bool" where
  "mirrors m S \<longleftrightarrow> (persistStore m \<longrightarrow> (\<forall>i. fold after_op (queue_of i m) (map_of (disk m) i) = S i))"

lemma mirrors_enqueue: "mirrors m S \<Longrightarrow> mirrors (persistEnqueue i w m) (S(i := after_op w (S i)))"
  by (auto simp: mirrors_def queue_of_def persistEnqueue_def Let_def update_conv' split: option.splits)

lemma mirrors_same: "mirrors m S \<Longrightarrow> persistStore m' = persistStore m \<Longrightarrow> disk m' = disk m \<Longrightarrow>
  persistQueues m' = persistQueues m \<Longrightarrow> mirrors m' S"
  by (simp add: mirrors_def queue_of_def)

lemma mirrors_remove: "mirrors m S \<Longrightarrow>
  mirrors (fold (\<lambda>i. persistEnqueue i Disk_remove) ids m) (\<lambda>j. if j \<in> set ids then None else S j)"
proof (induction ids arbitrary: m S)
  case (Cons i ids)
  have e: "(\<lambda>j. if j \<in> set (i # ids) then None else S j)
      = (\<lambda>j. if j \<in> set ids then None else (S(i := after_op Disk_remove (S i))) j)"
    by (auto simp: fun_eq_iff)
  show ?case unfolding e using Cons.IH [OF mirrors_enqueue [OF Cons.prems, of i Disk_remove]] by simp
qed simp

lemma store_remove_removed: "set (fst (store_remove ids tasks)) \<subseteq> set ids
  \<and> (\<forall>i \<in> set ids. i \<notin> set (fst (store_remove ids tasks)) \<longrightarrow> map_of tasks i = None)"
  by (induction ids tasks rule: store_remove.induct)
    (auto simp: split_beta delete_conv' split: option.splits if_splits)

lemma removeTasks_mirrors:
  assumes "mirrors m (map_of (mg_store m))"
  shows "mirrors (snd (removeTasks ids m)) (map_of (mg_store (snd (removeTasks ids m))))"
proof -
  let ?r = "store_remove ids (mg_store m)"
  have "mirrors (m\<lparr>mg_store := snd ?r\<rparr>) (map_of (mg_store m))"
    using assms by (rule mirrors_same) simp_all
  from mirrors_remove [OF this, of "fst ?r"]
  have "mirrors (snd (removeTasks ids m)) (\<lambda>j. if j \<in> set (fst ?r) then None else map_of (mg_store m) j)"
    by (simp add: removeTasks_def split_beta)
  moreover have "(\<lambda>j. if j \<in> set (fst ?r) then None else map_of (mg_store m) j) = map_of (snd ?r)"
    using store_remove_removed [of ids "mg_store m"] by (auto simp: fun_eq_iff map_of_store_remove)
  ultimately show ?thesis by simp
qed

lemma advanceCursor_mirrors:
  assumes "mirrors m (map_of (mg_store m))"
  shows "mirrors (advanceCursor i t m) (map_of (mg_store (advanceCursor i t m)))"
proof (cases "map_of (mg_store m) i")
  case None
  then show ?thesis using assms by (simp add: advanceCursor_def store_markFired_def mirrors_def queue_of_def)
next
  case (Some task)
  let ?t = "task\<lparr>lastFiredAt := Some t\<rparr>"
  let ?m = "m\<lparr>mg_store := AList.update i ?t (mg_store m)\<rparr>"
  have "mirrors ?m (map_of (mg_store m))" using assms by (rule mirrors_same) simp_all
  from mirrors_enqueue [OF this, of i "Disk_write ?t"] show ?thesis using Some
    by (auto simp: advanceCursor_def store_markFired_def Let_def update_conv' mirrors_def)
qed

lemma addTask_mirrors:
  assumes "mirrors m (map_of (mg_store m))" "addTask candidates c p r m = Some (task, m')"
  shows "mirrors m' (map_of (mg_store m'))"
proof -
  obtain i tasks where s: "store_add candidates c p r (mg_now m) (mg_store m) = Some (task, tasks)"
    "task_id task = i" "tasks = AList.update i task (mg_store m)"
    using assms(2) by (auto simp: addTask_def store_add_def Let_def split: option.splits)
  have "mirrors (m\<lparr>mg_store := tasks\<rparr>) (map_of (mg_store m))" using assms(1) by (rule mirrors_same) simp_all
  from mirrors_enqueue [OF this, of i "Disk_write task"] show ?thesis
    using assms(2) s by (auto simp: addTask_def update_conv')
qed

lemma emit_mirrors [simp]: "mirrors (cron_emit e m) S = mirrors m S" "mirrors (snd (steer c og m)) S = mirrors m S"
  by (simp_all add: mirrors_def queue_of_def)

lemma handleFire_mirrors:
  assumes "mirrors m (map_of (mg_store m))"
  shows "mirrors (handleFire g task n m) (map_of (mg_store (handleFire g task n m)))"
  using assms removeTasks_mirrors [of "cron_emit e2 (snd (steer c og (cron_emit e1 m)))" "[task_id task]" for e2 c og e1]
  unfolding handleFire_def
  by (auto simp: Let_def split_beta emitDeleted_def simp del: removeTasks_frame(1) store_remove.simps)

lemma settle_result:
  "fold after_op (queue_of j (settle i True m)) (map_of (disk (settle i True m)) j)
    = fold after_op (queue_of j m) (map_of (disk m) j)"
proof (cases "map_of (persistQueues m) i")
  case (Some ops)
  show ?thesis
  proof (cases ops)
    case (Cons w rest)
    have "map_of (disk_apply i w (disk m)) j = (if j = i then after_op w (map_of (disk m) i) else map_of (disk m) j)"
      by (cases w) (simp_all add: disk_apply_def update_conv' delete_conv')
    moreover have "queue_of j (settle i True m) = (if j = i then rest else queue_of j m)"
      using Some Cons by (simp add: queue_of_def settle_def update_conv' delete_conv')
    moreover have "queue_of i m = w # rest" using Some Cons by (simp add: queue_of_def)
    ultimately show ?thesis using Some Cons by (simp add: settle_def)
  qed (simp add: settle_def Some)
qed (simp add: settle_def)

lemma settle_mirrors: "mirrors m S \<Longrightarrow> mirrors (settle i True m) S"
  using settle_result by (simp add: mirrors_def) (simp add: settle_def split: option.splits list.splits)

lemma tick_task_mirrors:
  assumes "tick_task env (cron_options g m0) now task (st, m) = (st', m')" "mirrors m (map_of (mg_store m))"
  shows "mirrors m' (map_of (mg_store m'))"
  using assms handleFire_mirrors advanceCursor_mirrors removeTasks_mirrors
  unfolding tick_task_def fire_task_def delivered_task_def cron_options_def
  by (auto simp: Let_def split_beta split: prod.splits sum.splits option.splits if_splits
      simp del: removeTasks_frame(1) store_remove.simps)

lemma manager_tick_mirrors:
  assumes "manager_tick g (st, m) = (st', m')" "mirrors m (map_of (mg_store m))"
  shows "mirrors m' (map_of (mg_store m'))"
proof -
  have "fold (tick_task env (cron_options g m0) now) tasks (st, m) = (st', m') \<Longrightarrow> mirrors m' (map_of (mg_store m'))"
    if "mirrors m (map_of (mg_store m))" for env m0 now tasks st m st' m'
    using that
  proof (induction tasks arbitrary: st m)
    case (Cons task tasks)
    then show ?case using tick_task_mirrors [of env g m0 now task st m]
      by (cases "tick_task env (cron_options g m0) now task (st, m)") auto
  qed simp
  with assms show ?thesis
    by (auto simp: manager_tick_def tick_def split: if_splits prod.splits)
qed


section \<open>The keys of the store\<close>

definition good_store :: "CronManager \<Rightarrow> bool" where
  "good_store m \<longleftrightarrow> keys_ok (mg_store m) \<and> (\<forall>i. map_of (mg_store m) i \<noteq> None \<longrightarrow> cron_id_ok i)"

lemma keys_store_remove: "keys_ok tasks \<Longrightarrow> keys_ok (snd (store_remove ids tasks))"
  by (induction ids tasks rule: store_remove.induct) (auto simp: split_beta split: option.splits)

lemma removeTasks_good: "good_store m \<Longrightarrow> good_store (snd (removeTasks ids m))"
  by (auto simp: good_store_def keys_store_remove map_of_store_remove)

lemma advanceCursor_good: "good_store m \<Longrightarrow> good_store (advanceCursor i t m)"
  unfolding good_store_def map_of_advanceCursor
  by (auto simp: advanceCursor_def store_markFired_def Let_def split: option.splits)

lemma handleFire_good: "good_store m \<Longrightarrow> good_store (handleFire g task n m)"
  using removeTasks_good [of "cron_emit e2 (snd (steer c og (cron_emit e1 m)))" "[task_id task]" for e2 c og e1]
  unfolding handleFire_def
  by (auto simp: good_store_def Let_def split_beta emitDeleted_def simp del: removeTasks_frame(1) store_remove.simps)

lemma tick_task_good:
  assumes "tick_task env (cron_options g m0) now task (st, m) = (st', m')" "good_store m"
  shows "good_store m'"
  using assms handleFire_good advanceCursor_good removeTasks_good
  unfolding tick_task_def fire_task_def delivered_task_def cron_options_def
  by (auto simp: Let_def split_beta split: prod.splits sum.splits option.splits if_splits
      simp del: removeTasks_frame(1) store_remove.simps)

lemma manager_tick_good:
  assumes "manager_tick g (st, m) = (st', m')" "good_store m"
  shows "good_store m'"
proof -
  have "fold (tick_task env (cron_options g m0) now) tasks (st, m) = (st', m') \<Longrightarrow> good_store m'"
    if "good_store m" for env m0 now tasks st m st' m'
    using that
  proof (induction tasks arbitrary: st m)
    case (Cons task tasks)
    then show ?case using tick_task_good [of env g m0 now task st m]
      by (cases "tick_task env (cron_options g m0) now task (st, m)") auto
  qed simp
  with assms show ?thesis
    by (auto simp: manager_tick_def tick_def split: if_splits prod.splits)
qed

section \<open>Steps\<close>

text \<open>
  The steps are the operations of the program under four assumptions on what is outside it. The zone
  has a fixed offset (the hour that occurs twice or never is the subject of \<open>Cron_Findings\<close>). The
  clock does not go back and stays within the dates that JavaScript can hold. A queued write that
  settles succeeds; it may settle at any later time or not at all. A random id that is tried for a
  new task was not used before. A restart is orderly: every queued write has settled.
\<close>

text \<open>A random id is unused when it was never fired and the scheduler does not remember it.\<close>

definition unused :: "string \<Rightarrow> CronScheduler \<Rightarrow> CronManager \<Rightarrow> bool" where
  "unused i st m \<longleftrightarrow> map_of (lastSeenAt st) i = None \<and> fired_count i m = 0"

inductive cron_step :: "string \<Rightarrow> CronScheduler \<times> CronManager \<Rightarrow> CronScheduler \<times> CronManager \<Rightarrow> bool"
  for g :: string where
  ticked: "cron_step g (st, m) (manager_tick g (st, m))"
| clock: "mg_now m \<le> t \<Longrightarrow> t \<le> date_limit \<Longrightarrow> cron_step g (st, m) (st, m\<lparr>mg_now := t\<rparr>)"
| turn: "cron_step g (st, m) (st, m\<lparr>activeTurn := a, isCompacting := b\<rparr>)"
| settled: "cron_step g (st, m) (st, settle i True m)"
| created: "\<forall>i \<in> set candidates. unused i st m \<Longrightarrow>
    createCronTask g candidates (st, m) c p r = (res, st', m') \<Longrightarrow> cron_step g (st, m) (st', m')"
| tool_created: "\<forall>i \<in> set candidates. unused i st m \<Longrightarrow>
    CronCreate_execute candidates prepared m = (res, m') \<Longrightarrow> cron_step g (st, m) (st, m')"
| deleted: "deleteCronTask m i = (res, m') \<Longrightarrow> cron_step g (st, m) (st, m')"
| tool_deleted: "CronDelete_execute i m = (res, m') \<Longrightarrow> cron_step g (st, m) (st, m')"
| listed: "listCronTasks g m (store_list (mg_store m)) st = (ds, st') \<Longrightarrow> cron_step g (st, m) (st', m)"
| restarted: "persistQueues m = [] \<Longrightarrow> distinct entries \<Longrightarrow> set entries = dom (map_of (disk m)) \<Longrightarrow>
    cron_step g (st, m) (createCronScheduler, loadFromDisk entries (m\<lparr>mg_store := []\<rparr>))"

definition new_manager :: "cron_env \<Rightarrow> bool \<Rightarrow> ms \<Rightarrow> CronManager" where
  "new_manager env persist now = \<lparr>mg_env = env, mg_store = [], persistStore = persist, disk = [],
     persistQueues = [], mg_now = now, activeTurn = No_turn, isCompacting = False, steered = [], steerBuffer = [],
     cron_events = [], env_disabled = False, env_no_stale = False, manual_tick = False, poll_option = None\<rparr>"

inductive cron_reach :: "string \<Rightarrow> int \<Rightarrow> CronScheduler \<times> CronManager \<Rightarrow> bool"
  for g :: string and z :: int where
  fresh: "0 \<le> now \<Longrightarrow> now \<le> date_limit \<Longrightarrow> env_zone env = fixed_zone z \<Longrightarrow>
    cron_reach g z (createCronScheduler, new_manager env persist now)"
| step: "cron_reach g z s \<Longrightarrow> cron_step g s s' \<Longrightarrow> cron_reach g z s'"

definition cron_inv :: "int \<Rightarrow> CronScheduler \<times> CronManager \<Rightarrow> bool" where
  "cron_inv z = (\<lambda>(st, m). clock_ok z m \<and> inFlight st = [] \<and> cache_ok st \<and> ledger_ok z st m \<and> good_store m
     \<and> mirrors m (map_of (mg_store m)))"

lemma on_ledger_new: "createdAt task = now \<Longrightarrow> lastFiredAt task = None \<Longrightarrow> 0 \<le> now \<Longrightarrow>
  on_ledger z None sd 0 now task"
  by (auto simp: on_ledger_def cursor_of_def split: sum.splits)

lemma addTask_inv:
  assumes "cron_inv z (st, m)" "\<forall>i \<in> set candidates. unused i st m"
    and add: "addTask candidates c p r m = Some (task, m')"
  shows "cron_inv z (st, m')"
proof -
  obtain i where i: "generateUniqueId candidates (mg_store m) = Some i"
    and task: "task = \<lparr>task_id = i, cron = c, prompt = p, createdAt = mg_now m, recurring = r, lastFiredAt = None\<rparr>"
    and m': "m' = persistEnqueue i (Disk_write task) (m\<lparr>mg_store := AList.update i task (mg_store m)\<rparr>)"
    using add by (auto simp: addTask_def store_add_def Let_def split: option.splits)
  have ok: "cron_id_ok i" "unused i st m"
    using i assms(2) by (auto simp: generateUniqueId_def find_Some_iff dest!: in_set_takeD [OF nth_mem])
  have f: "fired_count j m' = fired_count j m" for j by (simp add: m' fired_count_def)
  have inv: "clock_ok z m" "cache_ok st" "ledger_ok z st m" "good_store m" "mirrors m (map_of (mg_store m))"
    using assms(1) by (simp_all add: cron_inv_def)
  have "clock_ok z m'" using inv(1) by (simp add: clock_ok_def m')
  moreover have "good_store m'" using inv(4) ok by (auto simp: good_store_def m')
  moreover have "mirrors m' (map_of (mg_store m'))" using addTask_mirrors [OF inv(5) add] .
  moreover have "ledger_ok z st m'"
  proof (rule ledger_ok_step [OF inv(3), of i])
    show "same_elsewhere i (st, m) (st, m')" by (simp add: same_elsewhere_def f, simp add: m')
    fix t assume "map_of (mg_store m') i = Some t"
    then have "t = task" by (simp add: m')
    moreover have "on_ledger z None sd 0 (mg_now m) task" for sd
      using inv(1) by (intro on_ledger_new) (simp_all add: task clock_ok_def)
    ultimately show "task_id t = i \<and> on_ledger z (map_of (lastSeenAt st) i) (i \<in> set (seededFromDisk st))
        (fired_count i m') (mg_now m') t"
      using ok(2) f by (simp add: unused_def task m')
  qed
  ultimately show ?thesis using inv(2) assms(1) by (simp add: cron_inv_def)
qed

lemma emit_inv: "cron_inv z (st, m) \<Longrightarrow> (\<And>i. event_count i e = 0) \<Longrightarrow> cron_inv z (st, cron_emit e m)"
  by (simp add: cron_inv_def clock_ok_def ledger_ok_def good_store_def fired_count_def)

lemma removeTasks_inv: "cron_inv z (st, m) \<Longrightarrow> cron_inv z (st, snd (removeTasks ids m))"
  using removeTasks_mirrors [of m ids] removeTasks_good [of m ids]
  by (auto simp: cron_inv_def clock_ok_def ledger_ok_def map_of_store_remove simp del: store_remove.simps split: if_splits)

lemma cache_ok_inv: "cron_inv z (st, m) \<Longrightarrow> cache_ok st' \<Longrightarrow> lastSeenAt st' = lastSeenAt st \<Longrightarrow>
  seededFromDisk st' = seededFromDisk st \<Longrightarrow> inFlight st' = inFlight st \<Longrightarrow> cron_inv z (st', m)"
  by (simp add: cron_inv_def ledger_ok_def)


lemma nextFireFor_cache: "cache_ok st \<Longrightarrow> nextFireFor env opts w task st = (r, st') \<Longrightarrow>
  cache_ok st' \<and> lastSeenAt st' = lastSeenAt st \<and> seededFromDisk st' = seededFromDisk st \<and> inFlight st' = inFlight st"
  using getParsed_result [of st "cron task"]
  by (cases "getParsed (cron task) st") (auto simp: nextFireFor_def Let_def split: sum.splits)

lemma listCronTasks_cache: "cache_ok st \<Longrightarrow> listCronTasks g m tasks st = (ds, st') \<Longrightarrow>
  cache_ok st' \<and> lastSeenAt st' = lastSeenAt st \<and> seededFromDisk st' = seededFromDisk st \<and> inFlight st' = inFlight st"
proof (induction g m tasks st arbitrary: ds st' rule: listCronTasks.induct)
  case (2 g m task tasks st)
  obtain d st1 where one: "projectCronTask g st m task None = (d, st1)" by (cases "projectCronTask g st m task None")
  have "cache_ok st1 \<and> lastSeenAt st1 = lastSeenAt st \<and> seededFromDisk st1 = seededFromDisk st
      \<and> inFlight st1 = inFlight st"
    using one 2(2)
    by (auto simp: projectCronTask_def getNextFireForTask_def Let_def split: sum.splits option.splits prod.splits
        dest!: nextFireFor_cache [OF 2(2)])
  then show ?case using 2(1) [OF one [symmetric] refl] 2(3) one
    by (auto split: prod.splits)
qed simp

lemma load_map_of:
  assumes "\<And>i task. map_of d i = Some task \<Longrightarrow> task_id task = i"
  shows "map_of (foldl (\<lambda>tasks i. case map_of d i of
        Some task \<Rightarrow> if cron_id_ok i then store_adopt task tasks else tasks | None \<Rightarrow> tasks) S entries) j
    = (if j \<in> set entries \<and> cron_id_ok j \<and> map_of d j \<noteq> None then map_of d j else map_of S j)"
proof (induction entries arbitrary: S)
  case (Cons i entries)
  have e: "map_of (case map_of d i of Some task \<Rightarrow> if cron_id_ok i then store_adopt task S else S | None \<Rightarrow> S) j
      = (if j = i \<and> cron_id_ok j \<and> map_of d j \<noteq> None then map_of d j else map_of S j)"
    using assms [of i] by (auto simp: store_adopt_def split: option.splits)
  show ?case unfolding foldl_Cons Cons.IH e by (cases "j = i") auto
qed simp

lemma load_keys: "keys_ok S \<Longrightarrow> keys_ok (foldl (\<lambda>tasks i. case map_of d i of
        Some task \<Rightarrow> if cron_id_ok i then store_adopt task tasks else tasks | None \<Rightarrow> tasks) S entries)"
  by (induction entries arbitrary: S) (auto simp: store_adopt_def split: option.splits)

lemma on_ledger_restart: "on_ledger z seen sd n now task \<Longrightarrow> on_ledger z None False n now task"
  by (auto simp: on_ledger_def)

lemma restart_store:
  assumes "cron_inv z (st, m)" "persistStore m" "persistQueues m = []" "set entries = dom (map_of (disk m))"
  shows "map_of (mg_store (loadFromDisk entries (m\<lparr>mg_store := []\<rparr>))) = map_of (mg_store m)"
proof
  fix j
  have same: "map_of (disk m) j = map_of (mg_store m) j" for j
    using assms(1-3) by (simp add: cron_inv_def mirrors_def queue_of_def)
  have "task_id task = i" if "map_of (disk m) i = Some task" for i task
    using that ledger_okD(1) [of z st m i task] assms(1) by (simp add: same cron_inv_def)
  note load = load_map_of [of "disk m", OF this]
  have "j \<in> set entries \<and> cron_id_ok j" if "map_of (disk m) j \<noteq> None"
    using that assms(1,4) same [of j] by (auto simp: cron_inv_def good_store_def)
  then show "map_of (mg_store (loadFromDisk entries (m\<lparr>mg_store := []\<rparr>))) j = map_of (mg_store m) j"
    using assms(2) same [of j] by (cases "map_of (disk m) j = None") (simp_all add: loadFromDisk_def load)
qed

lemma restart_inv:
  assumes "cron_inv z (st, m)" "persistQueues m = []" "set entries = dom (map_of (disk m))"
  shows "cron_inv z (createCronScheduler, loadFromDisk entries (m\<lparr>mg_store := []\<rparr>))"
proof (cases "persistStore m")
  case False
  then show ?thesis using assms(1)
    by (simp add: loadFromDisk_def cron_inv_def clock_ok_def cache_ok_def createCronScheduler_def ledger_ok_def
        good_store_def mirrors_def)
next
  case True
  let ?m = "loadFromDisk entries (m\<lparr>mg_store := []\<rparr>)"
  note store = restart_store [OF assms(1) True assms(2,3)]
  have f: "mg_now ?m = mg_now m" "mg_env ?m = mg_env m" "cron_events ?m = cron_events m"
    "disk ?m = disk m" "persistQueues ?m = persistQueues m" "persistStore ?m = persistStore m"
    by (simp_all add: loadFromDisk_def)
  have k: "keys_ok (mg_store ?m)" using True load_keys [of "[]"] by (simp add: loadFromDisk_def)
  have "ledger_ok z createCronScheduler ?m"
    unfolding ledger_ok_def
  proof (intro allI impI)
    fix i task assume "map_of (mg_store ?m) i = Some task"
    then have "map_of (mg_store m) i = Some task" by (simp add: store)
    from ledger_okD [OF _ this] assms(1) on_ledger_restart
    show "task_id task = i \<and> on_ledger z (map_of (lastSeenAt createCronScheduler) i)
        (i \<in> set (seededFromDisk createCronScheduler)) (fired_count i ?m) (mg_now ?m) task"
      by (simp add: cron_inv_def createCronScheduler_def f fired_count_def) blast
  qed
  moreover have "mirrors ?m (map_of (mg_store ?m))"
    unfolding store using assms(1) f(4-6) by (simp add: cron_inv_def mirrors_def queue_of_def)
  moreover have "clock_ok z ?m" using assms(1) by (simp add: cron_inv_def clock_ok_def f)
  moreover have "good_store ?m" using assms(1) k by (simp add: cron_inv_def good_store_def store)
  moreover have "cache_ok createCronScheduler" by (simp add: cache_ok_def createCronScheduler_def)
  ultimately show ?thesis by (simp add: cron_inv_def createCronScheduler_def)
qed

lemma emitScheduled_inv: "cron_inv z (st, m) \<Longrightarrow> cron_inv z (st, emitScheduled task m)"
  unfolding emitScheduled_def by (rule emit_inv) simp_all

lemma emitDeleted_inv: "cron_inv z (st, m) \<Longrightarrow> cron_inv z (st, emitDeleted i m)"
  unfolding emitDeleted_def by (rule emit_inv) simp_all

lemma createCronTask_cases:
  assumes "createCronTask g candidates (st, m) c p r = (res, st', m')"
  shows "(st', m') = (st, m) \<or> (\<exists>c' p' r' task m1. addTask candidates c' p' r' m = Some (task, m1)
    \<and> (st', m') = (st, emitScheduled task m1))"
  using assms
  by (auto simp: createCronTask_def projectCronTask_def Let_def split: sum.splits option.splits prod.splits) blast

lemma CronCreate_execute_cases:
  assumes "CronCreate_execute candidates prepared m = (res, m')"
  shows "m' = m \<or> (\<exists>c' p' r' task m1. addTask candidates c' p' r' m = Some (task, m1) \<and> m' = emitScheduled task m1)"
  using assms by (auto simp: CronCreate_execute_def split: if_splits option.splits prod.splits) blast

lemma cron_step_inv: "cron_step g s s' \<Longrightarrow> cron_inv z s \<Longrightarrow> cron_inv z s'"
proof (induction rule: cron_step.induct)
  case (ticked st m)
  obtain st' m' where t: "manager_tick g (st, m) = (st', m')" by (cases "manager_tick g (st, m)")
  have "cache_ok st' \<and> ledger_ok z st' m' \<and> clock_ok z m'"
    by (intro manager_tick_ledger [OF t]) (use ticked in \<open>simp_all add: cron_inv_def good_store_def\<close>)
  moreover have "inFlight st' = [] \<or> st' = st" using t by (auto simp: manager_tick_def tick_def split: if_splits prod.splits)
  ultimately show ?case
    using manager_tick_mirrors [OF t] manager_tick_good [OF t] ticked t by (auto simp: cron_inv_def)
next
  case (clock m t st)
  have "ledger_ok z st (m\<lparr>mg_now := t\<rparr>)"
    using clock on_ledger_later unfolding ledger_ok_def cron_inv_def
    by (simp add: fired_count_def) (blast intro: on_ledger_later)
  then show ?case using clock
    by (simp add: cron_inv_def clock_ok_def good_store_def mirrors_def queue_of_def)
next
  case (turn st m a b)
  then show ?case
    by (simp add: cron_inv_def clock_ok_def ledger_ok_def good_store_def mirrors_def queue_of_def fired_count_def)
next
  case (settled st m i)
  have f: "mg_now (settle i True m) = mg_now m" "mg_env (settle i True m) = mg_env m"
    "cron_events (settle i True m) = cron_events m" "mg_store (settle i True m) = mg_store m"
    by (simp_all add: settle_def split: option.splits list.splits)
  show ?case using settled settle_mirrors
    by (simp add: cron_inv_def clock_ok_def ledger_ok_def good_store_def fired_count_def f)
next
  case (created candidates st m c p r res st' m')
  from createCronTask_cases [OF created(2)] show ?case
    using created(3) addTask_inv [OF created(3,1)] emitScheduled_inv by auto
next
  case (tool_created candidates st m prepared res m')
  from CronCreate_execute_cases [OF tool_created(2)] show ?case
    using tool_created(3) addTask_inv [OF tool_created(3,1)] emitScheduled_inv by auto
next
  case (deleted m i res m' st)
  then show ?case using removeTasks_inv [OF deleted(2), of "[i]"] emitDeleted_inv
    by (auto simp: deleteCronTask_def split_beta simp del: store_remove.simps split: if_splits)
next
  case (tool_deleted i m res m' st)
  then show ?case using removeTasks_inv [OF tool_deleted(2), of "[i]"] emitDeleted_inv
    by (auto simp: CronDelete_execute_def split_beta simp del: store_remove.simps split: if_splits)
next
  case (listed m st ds st')
  have "cache_ok st" using listed(2) by (simp add: cron_inv_def)
  from listCronTasks_cache [OF this listed(1)] show ?case using cache_ok_inv [OF listed(2)] by blast
next
  case (restarted m entries st)
  then show ?case by (blast intro: restart_inv)
qed

lemma new_manager_inv: "0 \<le> now \<Longrightarrow> now \<le> date_limit \<Longrightarrow> env_zone env = fixed_zone z \<Longrightarrow>
  cron_inv z (createCronScheduler, new_manager env persist now)"
  by (simp add: cron_inv_def clock_ok_def cache_ok_def ledger_ok_def good_store_def mirrors_def queue_of_def
      new_manager_def createCronScheduler_def)

lemma cron_reach_inv: "cron_reach g z s \<Longrightarrow> cron_inv z s"
  by (induction rule: cron_reach.induct) (blast intro: new_manager_inv cron_step_inv)+


section \<open>A run to try the theorems on\<close>

text \<open>An every-minute task created at 0; the session is busy until 200 s, then ticks once.\<close>

definition demo_task :: CronTask where
  "demo_task = \<lparr>task_id = ''00000001'', cron = ''* * * * *'', prompt = ''hi'', createdAt = 0,
     recurring = Some True, lastFiredAt = None\<rparr>"

definition demo_prepared :: PreparedCronCreate where
  "demo_prepared = \<lparr>prepared_cron = ''* * * * *'', prepared_prompt = ''hi'', prepared_recurring = True,
     prepared_parsed = daily_nine\<rparr>"

definition demo_new :: CronManager where
  "demo_new = new_manager \<lparr>env_zone = fixed_zone 0, env_no_jitter = True\<rparr> True 0"

definition demo_created :: CronManager where
  "demo_created = demo_new\<lparr>mg_store := [(''00000001'', demo_task)],
     persistQueues := [(''00000001'', [Disk_write demo_task])], cron_events := [Cron_telemetry_scheduled True]\<rparr>"

definition demo_due :: CronManager where
  "demo_due = demo_created\<lparr>mg_now := 200000\<rparr>"

definition demo_ticked :: "CronScheduler \<times> CronManager" where
  "demo_ticked = manager_tick ''report'' (createCronScheduler, demo_due)"

definition demo_flushed :: CronManager where
  "demo_flushed = settle ''00000001'' True (settle ''00000001'' True (snd demo_ticked))"

lemma demo_id: "generateUniqueId [''00000001''] [] = Some ''00000001''"
  by code_simp

lemma demo_created_step: "snd (CronCreate_execute [''00000001''] demo_prepared demo_new) = demo_created"
  by (simp add: CronCreate_execute_def addTask_def store_add_def demo_id demo_new_def new_manager_def
      demo_prepared_def store_list_def MAX_CRON_JOBS_PER_SESSION_def persistEnqueue_def Let_def
      emitScheduled_def cron_emit_def demo_created_def demo_task_def)

lemma demo_due_reach: "cron_reach ''report'' 0 (createCronScheduler, demo_due)"
proof -
  have "cron_reach ''report'' 0 (createCronScheduler, demo_new)"
    unfolding demo_new_def by (rule cron_reach.fresh) (simp_all add: date_limit_def)
  moreover have "cron_step ''report'' (createCronScheduler, demo_new) (createCronScheduler, demo_created)"
  proof (rule cron_step.tool_created)
    show "\<forall>i \<in> set [''00000001'']. unused i createCronScheduler demo_new"
      by (simp add: unused_def createCronScheduler_def demo_new_def new_manager_def fired_count_def)
    show "CronCreate_execute [''00000001''] demo_prepared demo_new
        = (fst (CronCreate_execute [''00000001''] demo_prepared demo_new), demo_created)"
      by (simp add: prod_eq_iff demo_created_step)
  qed
  ultimately have "cron_reach ''report'' 0 (createCronScheduler, demo_created)" by (rule cron_reach.step)
  moreover have "cron_step ''report'' (createCronScheduler, demo_created) (createCronScheduler, demo_due)"
    unfolding demo_due_def by (rule cron_step.clock) (simp_all add: demo_created_def demo_new_def new_manager_def date_limit_def)
  ultimately show ?thesis by (rule cron_reach.step)
qed

lemma demo_ticked_reach: "cron_reach ''report'' 0 (fst demo_ticked, snd demo_ticked)"
  unfolding demo_ticked_def prod.collapse
  by (rule cron_reach.step [OF demo_due_reach cron_step.ticked])

lemma demo_ticked_store: "map_of (mg_store (snd demo_ticked)) ''00000001'' = Some (demo_task\<lparr>lastFiredAt := Some 180000\<rparr>)"
  by code_simp

lemma demo_ticked_count: "fired_count ''00000001'' (snd demo_ticked) = 3"
  by code_simp

lemma demo_parse: "parseCronExpression ''* * * * *'' = Inr (Parsed ''* * * * *'' [0..59] [0..23] [1..31] [1..12] [0..6] True True)"
  by code_simp

section \<open>What holds in every reachable state\<close>

text \<open>
  C33: No occurrence is lost and none is delivered twice, in a zone with a fixed offset, with a clock
  that does not go back, writes that succeed, ids of new tasks that were not used before and restarts that wait for
  the queued writes. However ticks, busy turns, sleeps, creations and deletions, disk writes and
  such restarts interleave, the occurrences that a stored recurring task has been fired for, counted over all its
  fires, are exactly the first ones after its creation, and the last of them is in the past; a
  one-shot that is still stored has not fired.
\<close>

theorem no_occurrence_lost_or_repeated:
  assumes "cron_reach g z (st, m)" "map_of (mg_store m) i = Some task"
  shows "if recurring task = Some False then fired_count i m = 0
    else case parseCronExpression (cron task) of
        Inl e \<Rightarrow> fired_count i m = 0
      | Inr p \<Rightarrow> iterate (computeNextCronRun (fixed_zone z) p) (fired_count i m) (createdAt task)
          = Some (cursor_of task) \<and> cursor_of task \<le> mg_now m"
proof -
  have "ledger_ok z st m" using cron_reach_inv [OF assms(1)] by (simp add: cron_inv_def)
  from ledger_okD(2) [OF this assms(2)] show ?thesis by (auto simp: on_ledger_def split: sum.splits)
qed

lemma no_occurrence_lost_or_repeated_witness:
  "iterate (computeNextCronRun (fixed_zone 0) (Parsed ''* * * * *'' [0..59] [0..23] [1..31] [1..12] [0..6] True True))
     3 0 = Some 180000"
  using no_occurrence_lost_or_repeated [OF demo_ticked_reach demo_ticked_store]
  by (simp add: demo_ticked_count demo_parse demo_task_def cursor_of_def)

text \<open>
  C34: Once the queued writes have reached the disk, the files are the store, and a new process that
  loads them, in whatever order the directory lists them, has the same tasks.
\<close>

theorem disk_mirrors_store:
  assumes "cron_reach g z (st, m)" "persistStore m" "persistQueues m = []" "set entries = dom (map_of (disk m))"
  shows "map_of (disk m) = map_of (mg_store m)
    \<and> map_of (mg_store (loadFromDisk entries (m\<lparr>mg_store := []\<rparr>))) = map_of (mg_store m)"
proof -
  have inv: "cron_inv z (st, m)" by (rule cron_reach_inv [OF assms(1)])
  then have "map_of (disk m) = map_of (mg_store m)"
    using assms(2,3) by (simp add: cron_inv_def mirrors_def queue_of_def fun_eq_iff)
  with restart_store [OF inv assms(2-4)] show ?thesis by blast
qed


lemma demo_flushed_disk: "persistStore demo_flushed" "persistQueues demo_flushed = []" "mg_store demo_flushed = mg_store (snd demo_ticked)"
  "map fst (disk demo_flushed) = [''00000001'']"
  by code_simp+

lemma disk_mirrors_store_witness:
  "map_of (disk demo_flushed) ''00000001'' = Some (demo_task\<lparr>lastFiredAt := Some 180000\<rparr>)"
proof -
  have "cron_reach ''report'' 0 (fst demo_ticked, demo_flushed)"
    unfolding demo_flushed_def by (intro cron_reach.step [OF _ cron_step.settled] demo_ticked_reach)
  moreover have "set [''00000001''] = dom (map_of (disk demo_flushed))"
    unfolding dom_map_of_conv_image_fst using demo_flushed_disk(4) by (metis list.set_map)
  ultimately show ?thesis
    using disk_mirrors_store [of "''report''" 0 "fst demo_ticked" demo_flushed "[''00000001'']"]
    by (simp add: demo_flushed_disk(1-3) demo_ticked_store)
qed

section \<open>A tick delivers what is due\<close>

text \<open>The next occurrence of a stored recurring task is not due, unless a fire has just reached its cap.\<close>

definition caught_up :: "nat \<Rightarrow> CronManager \<Rightarrow> string \<Rightarrow> bool" where
  "caught_up n m i \<longleftrightarrow> (\<forall>task p u. map_of (mg_store m) i = Some task \<longrightarrow> recurring task \<noteq> Some False \<longrightarrow>
     parseCronExpression (cron task) = Inr p \<longrightarrow>
     computeNextCronRun (env_zone (mg_env m)) p (cursor_of task) = Some u \<longrightarrow>
     of_int (mg_now m) < delivery_time (mg_env m) task p u \<or> n + 10000 \<le> fired_count i m)"

lemma caught_up_elsewhere: "caught_up n m i \<Longrightarrow> same_elsewhere j (st, m) (st', m') \<Longrightarrow> i \<noteq> j \<Longrightarrow> caught_up n m' i"
  unfolding caught_up_def same_elsewhere_def by simp

lemma delivery_time_cong: "delivery_time env (task\<lparr>lastFiredAt := t\<rparr>) = delivery_time env task"
  by (intro ext) (simp add: delivery_time_def jitteredNextCronRunMs_def oneShotJitteredNextCronRunMs_def Let_def)

lemma coalesced_complete:
  assumes "recurring task \<noteq> Some False" "computeNextCronRun (fixed_zone z) p base = Some ideal"
    "coalesced \<lparr>env_zone = fixed_zone z, env_no_jitter = nj\<rparr> task p base now = (n, Some t)"
    "computeNextCronRun (fixed_zone z) p t = Some u" "\<bar>t\<bar> \<le> date_limit"
  shows "of_int now < delivery_time \<lparr>env_zone = fixed_zone z, env_no_jitter = nj\<rparr> task p u \<or> 10000 \<le> n"
proof (cases "10000 \<le> n")
  case False
  let ?env = "\<lparr>env_zone = fixed_zone z, env_no_jitter = nj\<rparr>"
  have d: "delivery_time ?env task p = (\<lambda>t. jitteredNextCronRunMs ?env task p t DEFAULT_CRON_JITTER_CONFIG)"
    using assms(1) by (simp add: delivery_time_def fun_eq_iff)
  obtain n' where "coalesce (computeNextCronRun (fixed_zone z) p) (delivery_time ?env task p) now 1 ideal = (n', t)"
    "n = max 1 n'"
    using assms(1-3) by (auto simp: coalesced_def countCoalesced_def split: prod.splits)
  then have "now < u \<or> of_int now < delivery_time ?env task p u"
    using recurring.coalesce_complete [of z p nj task now 1 ideal n' t u] assms(4) False
    by (auto simp: d MAX_COALESCE_ITERATIONS_def)
  moreover have "of_int u \<le> delivery_time ?env task p u"
    unfolding d using recurring.not_early [OF assms(4,5)] .
  moreover have "now < u \<Longrightarrow> (of_int now :: rat) < of_int u" by (simp only: of_int_less_iff)
  ultimately show ?thesis by linarith
qed simp

lemma tick_task_caught_up:
  assumes run: "tick_task (mg_env m0) (cron_options g m0) (mg_now m) task (st, m) = (st', m')"
    and env: "mg_env m = mg_env m0" "clock_ok z m"
    and ok: "cache_ok st" "ledger_ok z st m"
    and stored: "map_of (mg_store m) (task_id task) = Some task"
    and idle: "task_id task \<notin> set (inFlight st)"
  shows "caught_up (fired_count (task_id task) m) m' (task_id task)"
  unfolding caught_up_def
proof (intro allI impI)
  let ?i = "task_id task"
  fix task' p' u
  assume st': "map_of (mg_store m') ?i = Some task'" and rec: "recurring task' \<noteq> Some False"
    and parse: "parseCronExpression (cron task') = Inr p'"
    and nxt: "computeNextCronRun (env_zone (mg_env m')) p' (cursor_of task') = Some u"
  obtain nj where e: "mg_env m0 = \<lparr>env_zone = fixed_zone z, env_no_jitter = nj\<rparr>"
    using env by (cases "mg_env m0") (simp add: clock_ok_def)
  have m': "mg_now m' = mg_now m" "mg_env m' = mg_env m0"
    using tick_task_ledger [OF run env ok stored] env by (simp_all add: same_elsewhere_def)
  obtain r st1 where gp: "getParsed (cron task) st = (r, st1)" by (cases "getParsed (cron task) st")
  note st1 = getParsed_result [OF ok(1) gp]
  let ?st2 = "seed (mg_now m) task st1"
  have sl: "on_ledger z (map_of (lastSeenAt ?st2) ?i) True (fired_count ?i m) (mg_now m) task"
    "baseFromMs task ?st2 = cursor_of task"
    using seed_ledger [of z st1 task "fired_count ?i m" "mg_now m"] ledger_okD(2) [OF ok(2) stored] st1 by simp_all
  show "of_int (mg_now m') < delivery_time (mg_env m') task' p' u \<or> fired_count ?i m + 10000 \<le> fired_count ?i m'"
  proof (cases "\<exists>p d. r = Inr p \<and> computeJitteredNext (mg_env m0) task p (cursor_of task) = Some d \<and> d \<le> of_int (mg_now m)")
    case False
    then have "m' = m" using run idle sl(2)
      by (auto simp: tick_task_def gp Let_def not_less split: sum.splits option.splits if_splits)
    then have "task' = task" using stored st' by simp
    then show ?thesis using False parse nxt st1 by (auto simp: m' computeJitteredNext_def)
  next
    case True
    then obtain p ideal where p: "r = Inr p" and d: "computeNextCronRun (fixed_zone z) p (cursor_of task) = Some ideal"
      "delivery_time (mg_env m0) task p ideal \<le> of_int (mg_now m)"
      by (auto simp: computeJitteredNext_def e split: option.splits)
    then have "\<not> of_int (mg_now m) < delivery_time (mg_env m0) task p ideal" by simp
    then have fire: "fire_task (mg_env m0) (cron_options g m0) (mg_now m) task p ?st2 m = (st', m')"
      using run idle sl(2) d(1) by (simp add: tick_task_def gp p Let_def computeJitteredNext_def e)
    have rec0: "recurring task \<noteq> Some False" using fire_task_one_shot [OF fire] st' by auto
    have limit: "mg_now m \<le> date_limit" using env(2) by (simp add: clock_ok_def)
    from fire_task_recurring [OF fire [unfolded e] sl(2) cursor_in_range [OF sl(1) rec0 limit] d(1) d(2) [unfolded e] rec0]
    obtain n t where t: "coalesced (mg_env m0) task p (cursor_of task) (mg_now m) = (n, Some t)"
      "0 < n" "iterate (computeNextCronRun (fixed_zone z) p) (nat n) (cursor_of task) = Some t" "t \<le> mg_now m"
      and mf: "m' = advanceCursor ?i t (handleFire g task n m)" unfolding e by blast
    note t' = stored_after_fire [OF stored st' [unfolded mf]]
    have "cursor_of task \<le> t" using recurring.iterate_later [OF t(3)] t(2) by simp
    then have "\<bar>t\<bar> \<le> date_limit" using t(4) limit cursor_in_range [OF sl(1) rec0 limit] by simp
    moreover have "p' = p" using parse st1 p by (simp add: t')
    moreover have "computeNextCronRun (fixed_zone z) p t = Some u"
      using nxt \<open>p' = p\<close> by (simp add: t' cursor_of_def m' e)
    moreover have "fired_count ?i m' = fired_count ?i m + nat n" by (simp add: mf fired_count_handleFire)
    ultimately show ?thesis
      using coalesced_complete [OF rec0 d(1) t(1) [unfolded e]] by (auto simp: m' t' delivery_time_cong e)
  qed
qed

lemma tick_loop_caught_up:
  assumes "fold (tick_task (mg_env m0) (cron_options g m0) now) tasks (st, m) = (st', m')"
    and "mg_env m = mg_env m0" "clock_ok z m" "mg_now m = now" "cache_ok st" "ledger_ok z st m"
    and "distinct (map task_id tasks)" "\<forall>task \<in> set tasks. map_of (mg_store m) (task_id task) = Some task"
    and "\<forall>task \<in> set tasks. task_id task \<notin> set (inFlight st)"
  shows "(\<forall>i n. i \<notin> task_id ` set tasks \<longrightarrow> caught_up n m i \<longrightarrow> caught_up n m' i)
    \<and> (\<forall>i \<in> task_id ` set tasks. caught_up (fired_count i m) m' i)"
  using assms
proof (induction tasks arbitrary: st m)
  case (Cons task tasks)
  let ?i = "task_id task"
  obtain st1 m1 where one: "tick_task (mg_env m0) (cron_options g m0) now task (st, m) = (st1, m1)"
    by (cases "tick_task (mg_env m0) (cron_options g m0) now task (st, m)")
  have head: "map_of (mg_store m) ?i = Some task" "?i \<notin> set (inFlight st)" using Cons.prems(8,9) by simp_all
  note now = \<open>mg_now m = now\<close>
  have k: "cache_ok st1 \<and> ledger_ok z st1 m1 \<and> same_elsewhere ?i (st, m) (st1, m1)"
    using tick_task_ledger [OF one [folded now] Cons.prems(2,3,5,6) head(1)] .
  have c: "caught_up (fired_count ?i m) m1 ?i"
    using tick_task_caught_up [OF one [folded now] Cons.prems(2,3,5,6) head] .
  have fresh: "?i \<notin> task_id ` set tasks" using Cons.prems(7) by simp
  then have other: "task_id t \<noteq> ?i" if "t \<in> set tasks" for t using that by (metis imageI)
  have rest: "fold (tick_task (mg_env m0) (cron_options g m0) now) tasks (st1, m1) = (st', m')"
    using Cons.prems(1) one by simp
  have tail: "\<forall>t \<in> set tasks. map_of (mg_store m1) (task_id t) = Some t \<and> task_id t \<notin> set (inFlight st1)"
    using k other Cons.prems(8,9) by (simp add: same_elsewhere_def)
  have ih: "(\<forall>i n. i \<notin> task_id ` set tasks \<longrightarrow> caught_up n m1 i \<longrightarrow> caught_up n m' i)
    \<and> (\<forall>i \<in> task_id ` set tasks. caught_up (fired_count i m1) m' i)"
    by (rule Cons.IH [OF rest]) (use k tail Cons.prems in \<open>simp_all add: same_elsewhere_def clock_ok_def\<close>)
  have "caught_up (fired_count ?i m) m' ?i" using ih c fresh by blast
  moreover have "caught_up (fired_count i m) m' i" if "i \<in> task_id ` set tasks" for i
  proof -
    from that fresh have "i \<noteq> ?i" by blast
    then have "fired_count i m1 = fired_count i m" using k by (simp add: same_elsewhere_def)
    then show ?thesis using ih that by force
  qed
  moreover have "caught_up n m' i" if "i \<notin> task_id ` set (task # tasks)" "caught_up n m i" for i n
    using ih caught_up_elsewhere [OF that(2) conjunct2 [OF conjunct2 [OF k]]] that(1) by simp
  ultimately show ?case by simp
qed simp

text \<open>
  A tick of a reachable subsystem, so in a zone with a fixed offset, delivers everything that is due
  when no turn is active and the killswitch is off. After it, the next occurrence of every
  stored recurring task is delivered later than now, unless the fire just made has counted to its cap
  of ten thousand occurrences.
\<close>

theorem idle_tick_leaves_nothing_due:
  assumes "cron_reach g z (st, m)" "\<not> env_disabled m" "activeTurn m \<noteq> Active_turn"
    "manager_tick g (st, m) = (st', m')"
    "map_of (mg_store m') i = Some task" "recurring task \<noteq> Some False" "parseCronExpression (cron task) = Inr p"
    "computeNextCronRun (env_zone (mg_env m')) p (cursor_of task) = Some u"
  shows "of_int (mg_now m') < delivery_time (mg_env m') task p u \<or> fired_count i m + 10000 \<le> fired_count i m'"
proof -
  have inv: "cron_inv z (st, m)" by (rule cron_reach_inv [OF assms(1)])
  have l: "ledger_ok z st m" using inv by (simp add: cron_inv_def)
  have keys: "keys_ok (mg_store m)" using inv by (simp add: cron_inv_def good_store_def)
  note stored = stored_tasks [OF keys ledger_okD(1) [OF l]]
  obtain st1 m1 where f: "fold (tick_task (mg_env m) (cron_options g m) (mg_now m)) (store_list (mg_store m)) (st, m) = (st1, m1)"
    by (cases "fold (tick_task (mg_env m) (cron_options g m) (mg_now m)) (store_list (mg_store m)) (st, m)")
  have m': "m' = m1"
    using assms(2-4) f by (auto simp: manager_tick_def tick_def cron_options_def hasActiveTurn_def split: if_splits)
  have start: "clock_ok z m" "cache_ok st" "inFlight st = []" using inv by (simp_all add: cron_inv_def)
  have caught: "(\<forall>i n. i \<notin> task_id ` set (store_list (mg_store m)) \<longrightarrow> caught_up n m i \<longrightarrow> caught_up n m1 i)
    \<and> (\<forall>i \<in> task_id ` set (store_list (mg_store m)). caught_up (fired_count i m) m1 i)"
    by (rule tick_loop_caught_up [OF f refl start(1) refl start(2) l]) (use stored start(3) in simp_all)
  show ?thesis
  proof (cases "map_of (mg_store m) i")
    case None
    then have "caught_up n m i" for n by (simp add: caught_up_def)
    moreover have "i \<notin> task_id ` set (store_list (mg_store m))" using stored None by force
    ultimately have "caught_up (Suc (fired_count i m')) m' i" using caught m' by blast
    with assms(5-8) show ?thesis unfolding caught_up_def by fastforce
  next
    case (Some t)
    then have "(i, t) \<in> set (mg_store m)" by (rule map_of_SomeD)
    then have "t \<in> set (store_list (mg_store m))" by (force simp: store_list_def)
    then have "i \<in> task_id ` set (store_list (mg_store m))" using ledger_okD(1) [OF l Some] by blast
    with caught assms(5-8) show ?thesis unfolding m' caught_up_def by blast
  qed
qed


lemma demo_next: "computeNextCronRun (fixed_zone 0) (Parsed ''* * * * *'' [0..59] [0..23] [1..31] [1..12] [0..6] True True)
    180000 = Some 240000"
  by code_simp

lemma demo_after: "mg_env (snd demo_ticked) = \<lparr>env_zone = fixed_zone 0, env_no_jitter = True\<rparr>"
  "mg_now (snd demo_ticked) = 200000"
  by code_simp+

lemma demo_fields: "recurring demo_task = Some True" "cron demo_task = ''* * * * *''"
  by (simp_all add: demo_task_def)

lemma demo_before: "fired_count ''00000001'' demo_due = 0" "\<not> env_disabled demo_due" "activeTurn demo_due = No_turn"
  by code_simp+

lemma idle_tick_leaves_nothing_due_witness:
  "(200000 :: rat) < delivery_time \<lparr>env_zone = fixed_zone 0, env_no_jitter = True\<rparr> demo_task
     (Parsed ''* * * * *'' [0..59] [0..23] [1..31] [1..12] [0..6] True True) 240000"
proof -
  have t: "manager_tick ''report'' (createCronScheduler, demo_due) = (fst demo_ticked, snd demo_ticked)"
    by (simp add: demo_ticked_def)
  show ?thesis
    using idle_tick_leaves_nothing_due [OF demo_due_reach demo_before(2) _ t demo_ticked_store, of _ 240000]
    by (simp add: demo_before demo_ticked_count demo_after demo_parse demo_next demo_fields cursor_of_def
        delivery_time_cong)
qed

end
