(* ===== verification/Cron_Findings.thy ===== *)
theory Cron_Findings
  imports Cron_Reach
begin

text \<open>
  Inputs on which the cron code does not do what its comments promise, each evaluated on the model.
\<close>

section \<open>The hour that occurs twice\<close>

text \<open>
  New York in November 2025: at 06:00 UTC the clocks go back from 02:00 to 01:00. Truncating an
  instant of the second 1 o'clock hour to its minute gives an instant of the first one, so the search
  starts an hour early.
\<close>

definition new_york :: zone where
  "new_york = Zone (- 240) [(1762063200000, - 300)]"

definition every_five :: ParsedCronExpression where
  "every_five = Parsed ''*/5 * * * *'' [0, 5, 10, 15, 20, 25, 30, 35, 40, 45, 50, 55] [0..23] [1..31] [1..12]
     [0..6] True True"

lemma every_five_parsed: "parseCronExpression ''*/5 * * * *'' = Inr every_five"
  by code_simp

text \<open>The next fire after the second 01:10 is the first 01:15, fifty-five minutes earlier.\<close>

lemma repeated_hour_goes_back:
  "computeNextCronRun new_york every_five 1762063800000 = Some 1762060500000"
  by code_simp

text \<open>After the first 01:55 the search jumps to 02:00, seventy minutes later: the second hour has no fire.\<close>

lemma repeated_hour_skipped:
  "computeNextCronRun new_york every_five 1762062900000 = Some 1762066800000"
  by code_simp

text \<open>
  A task created in the second hour, at 01:10, is due at once. The cursor its fire leaves lies before
  its creation and is ignored, so it is due again at the next tick, a second later: it fires with the
  same nine occurrences on every tick until the hour is over.
\<close>

definition ny_task :: CronTask where
  "ny_task = \<lparr>task_id = ''00000001'', cron = ''*/5 * * * *'', prompt = ''hi'', createdAt = 1762063800000,
     recurring = Some True, lastFiredAt = None\<rparr>"

lemma repeated_hour_coalesces:
  "coalesced \<lparr>env_zone = new_york, env_no_jitter = True\<rparr> ny_task every_five 1762063800000 1762063860000
    = (9, Some 1762062900000)"
  by code_simp

lemma repeated_hour_fires_every_tick:
  "baseFromMs ny_task (createCronScheduler\<lparr>lastSeenAt := [(''00000001'', 1762062900000)]\<rparr>) = 1762063800000"
  "computeJitteredNext \<lparr>env_zone = new_york, env_no_jitter = True\<rparr> ny_task every_five 1762063800000
    = Some 1762060500000"
  by code_simp+

section \<open>The summary\<close>

text \<open>Two fires an hour are described as one every five minutes.\<close>

lemma summary_overstates:
  "(case parseCronExpression ''0,5 * * * *'' of Inl e \<Rightarrow> '''' | Inr p \<Rightarrow> cronToHuman p) = ''every 5 minutes''"
  by code_simp

section \<open>An approval that comes late\<close>

text \<open>
  A one-shot for 14:00 today is checked at 13:59, approved at 14:01, and then fires in a year, which
  the check is there to refuse.
\<close>

definition new_year :: "ms \<Rightarrow> CronManager" where
  "new_year now = new_manager \<lparr>env_zone = fixed_zone 0, env_no_jitter = True\<rparr> False now"

definition new_year_call :: ParsedCronExpression where
  "new_year_call = Parsed ''0 14 1 1 *'' [0] [14] [1] [1] [0..6] False True"

lemma new_year_call_parsed: "parseCronExpression ''0 14 1 1 *'' = Inr new_year_call"
  "normalizeCron ''0 14 1 1 *'' = ''0 14 1 1 *''"
  by code_simp+

lemma new_year_call_next:
  "computeNextCronRun (fixed_zone 0) new_year_call 1767275940000 = Some 1767276000000"
  "computeNextCronRun (fixed_zone 0) new_year_call 1767276060000 = Some 1798812000000"
  by code_simp+


lemma has_fire: "computeNextCronRun z p t = Some u \<Longrightarrow> hasFireWithinYears z p 5 t"
  by (simp add: hasFireWithinYears_def computeNextCronRun_def)

definition prepared_call :: PreparedCronCreate where
  "prepared_call = \<lparr>prepared_cron = ''0 14 1 1 *'', prepared_prompt = ''call'', prepared_recurring = False,
     prepared_parsed = new_year_call\<rparr>"

lemma late_approval_accepted:
  "CronCreate_resolve (new_year 1767275940000) ''0 14 1 1 *'' ''call'' (Some False) = Inr prepared_call"
  using has_fire [OF new_year_call_next(1)]
  by (simp add: CronCreate_resolve_def Let_def new_year_call_parsed new_year_def new_manager_def new_year_call_next
      store_list_def MAX_CRON_JOBS_PER_SESSION_def byteLength_def MAX_CRON_PROMPT_BYTES_def
      ONE_SHOT_MAX_FUTURE_MS_def prepared_call_def)

lemma late_approval_fires_next_year:
  "case fst (CronCreate_execute [''00000001''] prepared_call (new_year 1767276060000)) of
     Inl e \<Rightarrow> False | Inr out \<Rightarrow> out_nextFireAt out = Some 1798812000000"
  "CronCreate_resolve (new_year 1767276060000) ''0 14 1 1 *'' ''call'' (Some False)
     = Inl (One_shot_too_far ''0 14 1 1 *'' 1798812000000)"
proof -
  have i: "generateUniqueId [''00000001''] [] = Some ''00000001''" by (rule demo_id)
  show "case fst (CronCreate_execute [''00000001''] prepared_call (new_year 1767276060000)) of
     Inl e \<Rightarrow> False | Inr out \<Rightarrow> out_nextFireAt out = Some 1798812000000"
    by (simp add: CronCreate_execute_def new_year_def new_manager_def store_list_def MAX_CRON_JOBS_PER_SESSION_def
        addTask_def store_add_def i Let_def prepared_call_def nextFireForNewTask_def persistEnqueue_def
        new_year_call_next delivery_time_def oneShotJitteredNextCronRunMs_def)
  show "CronCreate_resolve (new_year 1767276060000) ''0 14 1 1 *'' ''call'' (Some False)
     = Inl (One_shot_too_far ''0 14 1 1 *'' 1798812000000)"
    using has_fire [OF new_year_call_next(2)]
    by (simp add: CronCreate_resolve_def Let_def new_year_call_parsed new_year_def new_manager_def new_year_call_next
        store_list_def MAX_CRON_JOBS_PER_SESSION_def byteLength_def MAX_CRON_PROMPT_BYTES_def
        ONE_SHOT_MAX_FUTURE_MS_def)
qed

end
