(* ===== verification/Path_Access.thy ===== *)
theory Path_Access
  imports Tool_Access
begin

text \<open>
  Path guards of the file tools (\<open>tools/policies/path-access.ts\<close>, \<open>tools/policies/sensitive.ts\<close>),
  the detection of a git work tree (\<open>tools/support/git-worktree.ts\<close>) and the matching of paths
  against rules (\<open>tools/support/path-glob-match.ts\<close>, \<open>tools/support/rule-match.ts\<close>).

  The packages \<open>pathe\<close> and \<open>picomatch\<close> are not part of the repository: their functions are the
  fields of a record that every definition using them takes. So are the host's platform and, of
  Node's own \<open>path/win32\<close>, the function \<open>relative\<close>; \<open>relative\<close> of \<open>path/posix\<close> is defined here.
  The file system of the agent (\<open>Kaos\<close>) is a record of the two calls the code makes.
\<close>

section \<open>The functions of other packages\<close>

datatype PathClass = Posix | Win32

record path_lib =
  pathe_normalize :: "string \<Rightarrow> string"
  pathe_isAbsolute :: "string \<Rightarrow> bool"
  pathe_resolve :: "string \<Rightarrow> string \<Rightarrow> string"
  pathe_join :: "string \<Rightarrow> string \<Rightarrow> string"
  pathe_basename :: "string \<Rightarrow> string"
  pathe_dirname :: "string \<Rightarrow> string"
  pathe_root :: "string \<Rightarrow> string"
  default_path_class :: PathClass
  process_cwd :: string
  win32_relative :: "string \<Rightarrow> string \<Rightarrow> string"

text \<open>\<open>picomatch.isMatch(value, pattern, { nocase })\<close>.\<close>

type_synonym glob_lib = "string \<Rightarrow> string \<Rightarrow> bool \<Rightarrow> bool"

section \<open>Characters and strings\<close>

definition is_letter :: "char \<Rightarrow> bool" where
  "is_letter c = (let n = of_char c :: nat in 65 \<le> n \<and> n \<le> 90 \<or> 97 \<le> n \<and> n \<le> 122)"

definition upper_letter :: "char \<Rightarrow> char" where
  "upper_letter c = (let n = of_char c :: nat in if 97 \<le> n \<and> n \<le> 122 then char_of (n - 32) else c)"

definition is_slash :: "char \<Rightarrow> bool" where
  "is_slash c \<longleftrightarrow> c = CHR ''/'' \<or> c = CHR 0x5C"

definition to_lower :: "string \<Rightarrow> string" where
  "to_lower s = map fold_case s"

text \<open>\<open>s.split(sep)\<close> on single separators.\<close>

fun split_on :: "(char \<Rightarrow> bool) \<Rightarrow> string \<Rightarrow> string list" where
  "split_on p [] = [[]]"
| "split_on p (c # cs) =
     (if p c then [] # split_on p cs
      else case split_on p cs of (w # ws) \<Rightarrow> (c # w) # ws | [] \<Rightarrow> [[c]])"

fun join_with :: "string \<Rightarrow> string list \<Rightarrow> string" where
  "join_with sep [] = []"
| "join_with sep [w] = w"
| "join_with sep (w # v # ws) = w @ sep @ join_with sep (v # ws)"

section \<open>Sensitive files\<close>

definition SENSITIVE_BASENAMES :: "string list" where
  "SENSITIVE_BASENAMES = [''.env'', ''id_rsa'', ''id_ed25519'', ''id_ecdsa'', ''credentials'']"

definition SENSITIVE_PATH_SUFFIXES :: "string list list" where
  "SENSITIVE_PATH_SUFFIXES = [[''.aws'', ''credentials''], [''.gcp'', ''credentials'']]"

definition ENV_PREFIX :: string where "ENV_PREFIX = ''.env.''"

definition ENV_EXEMPTIONS :: "string list" where
  "ENV_EXEMPTIONS = [''.env.example'', ''.env.sample'', ''.env.template'']"

definition SENSITIVE_BASENAME_PREFIXES :: "string list" where
  "SENSITIVE_BASENAME_PREFIXES = [''id_rsa'', ''id_ed25519'', ''id_ecdsa'', ''credentials'']"

definition PUBLIC_KEY_BASENAMES :: "string list" where
  "PUBLIC_KEY_BASENAMES = [''id_rsa.pub'', ''id_ed25519.pub'', ''id_ecdsa.pub'']"

definition SENSITIVE_DOT_VARIANT_SUFFIXES :: "string list" where
  "SENSITIVE_DOT_VARIANT_SUFFIXES =
     [''.bak'', ''.backup'', ''.copy'', ''.disabled'', ''.key'', ''.old'', ''.orig'', ''.pem'',
      ''.save'', ''.tmp'']"

text \<open>The body of the loop over the name prefixes.\<close>

definition shielded_variant :: "string \<Rightarrow> string \<Rightarrow> bool" where
  "shielded_variant comparableName pre \<longleftrightarrow>
     (if comparableName = pre then True
      else if length comparableName > length pre \<and> prefix pre comparableName then
        (let suffix' = drop (length pre) comparableName; nxt = suffix' ! 0
         in nxt = CHR ''-'' \<or> nxt = CHR ''_'' \<or>
            nxt = CHR ''.'' \<and> suffix' \<in> set SENSITIVE_DOT_VARIANT_SUFFIXES)
      else False)"

definition isSensitiveFile :: "path_lib \<Rightarrow> string \<Rightarrow> bool" where
  "isSensitiveFile P path =
     (let name = pathe_basename P path;
          comparableName = to_lower name;
          comparablePath = to_lower path
      in if comparableName \<in> set ENV_EXEMPTIONS then False
         else if comparableName \<in> set PUBLIC_KEY_BASENAMES then False
         else if comparableName \<in> set SENSITIVE_BASENAMES then True
         else if prefix ENV_PREFIX comparableName then True
         else if \<exists>pre \<in> set SENSITIVE_BASENAME_PREFIXES. shielded_variant comparableName pre then True
         else \<exists>parts \<in> set SENSITIVE_PATH_SUFFIXES.
           (let comparableSuffix = to_lower (join_with ''/'' parts)
            in suffix (''/'' @ comparableSuffix) comparablePath \<or>
               sublist (''/'' @ comparableSuffix @ ''/'') comparablePath))"

section \<open>Paths typed by the user or the model\<close>

text \<open>\<open>/^[A-Za-z]:(?:$|[^\\/])/\<close>.\<close>

definition isWin32DriveRelative :: "string \<Rightarrow> bool" where
  "isWin32DriveRelative path =
     (case path of
        d # c # rest \<Rightarrow> is_letter d \<and> c = CHR '':'' \<and> (rest = [] \<or> \<not> is_slash (hd rest))
      | _ \<Rightarrow> False)"

definition drive_path :: "char \<Rightarrow> string \<Rightarrow> string" where
  "drive_path d rest = [upper_letter d] @ '':'' @ (if rest = [] then ''/'' else rest)"

text \<open>The two regular expressions, \<open>/^\/cygdrive\/([A-Za-z])(?:\/|$)/\<close> and
  \<open>/^\/([A-Za-z])(?:\/|$)/\<close>: the drive letter, when they match.\<close>

definition cygdrive_match :: "string \<Rightarrow> char option" where
  "cygdrive_match path =
     (if prefix ''/cygdrive/'' path then
        (case drop 10 path of
           d # rest \<Rightarrow> if is_letter d \<and> (rest = [] \<or> hd rest = CHR ''/'') then Some d else None
         | [] \<Rightarrow> None)
      else None)"

definition drive_match :: "string \<Rightarrow> char option" where
  "drive_match path =
     (case path of
        s # d # rest \<Rightarrow>
          if s = CHR ''/'' \<and> is_letter d \<and> (rest = [] \<or> hd rest = CHR ''/'') then Some d else None
      | _ \<Rightarrow> None)"

definition normalizeUserPath :: "string \<Rightarrow> PathClass \<Rightarrow> string" where
  "normalizeUserPath path pathClass =
     (if pathClass \<noteq> Win32 then path
      else if path = ''/'' then ''/''
      else if prefix ''//'' path then path
      else case cygdrive_match path of
        Some d \<Rightarrow> drive_path d (drop 11 path)
      | None \<Rightarrow>
          (case drive_match path of
             Some d \<Rightarrow> drive_path d (drop 2 path)
           | None \<Rightarrow> path))"

definition expandUserPath :: "path_lib \<Rightarrow> string \<Rightarrow> string option \<Rightarrow> PathClass \<Rightarrow> string" where
  "expandUserPath P path homeDir pathClass =
     (case homeDir of
        None \<Rightarrow> path
      | Some home \<Rightarrow>
          if path = ''~'' then home
          else if prefix ''~/'' path \<or> pathClass = Win32 \<and> prefix (''~'' @ [CHR 0x5C]) path
          then pathe_join P home (drop 2 path)
          else path)"

section \<open>Canonical paths\<close>

datatype PathSecurityCode = PATH_OUTSIDE_WORKSPACE | PATH_SENSITIVE | PATH_INVALID

record PathSecurityError =
  err_code :: PathSecurityCode
  err_rawPath :: string
  err_canonicalPath :: string
  err_message :: string

definition path_error :: "PathSecurityCode \<Rightarrow> string \<Rightarrow> string \<Rightarrow> string \<Rightarrow> PathSecurityError + 'a" where
  "path_error code raw canonical msg =
     Inl \<lparr>err_code = code, err_rawPath = raw, err_canonicalPath = canonical, err_message = msg\<rparr>"

definition quoted :: "string \<Rightarrow> string" where
  "quoted s = [CHR 0x22] @ s @ [CHR 0x22]"

definition canonicalizePath :: "path_lib \<Rightarrow> string \<Rightarrow> string \<Rightarrow> PathClass \<Rightarrow> PathSecurityError + string" where
  "canonicalizePath P path cwd pathClass =
     (if path = [] then path_error PATH_INVALID path path ''Path cannot be empty''
      else let normalizedPath = normalizeUserPath path pathClass
        in if pathClass = Win32 \<and> isWin32DriveRelative normalizedPath then
             path_error PATH_INVALID path normalizedPath
               (quoted path @ '' is a drive-relative Windows path. Use an absolute path like C:'' @ [CHR 0x5C] @
                ''path or a path relative to the working directory.'')
           else if \<not> pathe_isAbsolute P normalizedPath \<and> \<not> pathe_isAbsolute P cwd then
             path_error PATH_INVALID path normalizedPath
               (''Cannot resolve '' @ quoted path @ '' against non-absolute cwd '' @ quoted cwd @ ''.'')
           else Inr (pathe_normalize P
             (if pathe_isAbsolute P normalizedPath then normalizedPath
              else pathe_resolve P cwd normalizedPath)))"

definition isWithinDirectory :: "path_lib \<Rightarrow> string \<Rightarrow> string \<Rightarrow> PathClass \<Rightarrow> bool" where
  "isWithinDirectory P candidate base pathClass =
     (let nc = pathe_normalize P candidate;
          nb = pathe_normalize P base;
          comparableCandidate = (if pathClass = Win32 then to_lower nc else nc);
          comparableBase = (if pathClass = Win32 then to_lower nb else nb)
      in if comparableCandidate = comparableBase then True
         else let pre = (if suffix ''/'' comparableBase then comparableBase else comparableBase @ ''/'')
           in prefix pre comparableCandidate)"

record WorkspaceConfig =
  workspaceDir :: string
  additionalDirs :: "string list"

definition isWithinWorkspace :: "path_lib \<Rightarrow> string \<Rightarrow> WorkspaceConfig \<Rightarrow> PathClass \<Rightarrow> bool" where
  "isWithinWorkspace P candidate config pathClass =
     (if isWithinDirectory P candidate (workspaceDir config) pathClass then True
      else \<exists>dir \<in> set (additionalDirs config). isWithinDirectory P candidate dir pathClass)"

section \<open>The access check\<close>

datatype PathAccessOperation = PathRead | PathWrite | PathSearch
datatype WorkspaceGuardMode = AbsoluteOutsideAllowed | GuardDisabled

record WorkspaceAccessPolicy =
  guardMode :: WorkspaceGuardMode
  checkSensitive :: bool

definition DEFAULT_WORKSPACE_ACCESS_POLICY :: WorkspaceAccessPolicy where
  "DEFAULT_WORKSPACE_ACCESS_POLICY = \<lparr>guardMode = AbsoluteOutsideAllowed, checkSensitive = True\<rparr>"

record PathAccess =
  pa_path :: string
  pa_outsideWorkspace :: bool

record ResolvePathAccessOptions =
  rpa_operation :: PathAccessOperation
  rpa_policy :: "WorkspaceAccessPolicy option"
  rpa_pathClass :: "PathClass option"
  rpa_homeDir :: "string option"

definition relativeOutsideMessage :: "string \<Rightarrow> PathAccessOperation \<Rightarrow> string" where
  "relativeOutsideMessage path operation =
     (let verb = (case operation of PathWrite \<Rightarrow> ''write or edit a file''
                  | PathSearch \<Rightarrow> ''search'' | PathRead \<Rightarrow> ''read a file'')
      in quoted path @ '' is not an absolute path. '' @
         ''You must provide an absolute path to '' @ verb @ '' outside the working directory.'')"

definition resolvePathAccess ::
  "path_lib \<Rightarrow> string \<Rightarrow> string \<Rightarrow> WorkspaceConfig \<Rightarrow> ResolvePathAccessOptions \<Rightarrow>
   PathSecurityError + PathAccess" where
  "resolvePathAccess P path cwd config options =
     (let pathClass = (case rpa_pathClass options of None \<Rightarrow> default_path_class P | Some c \<Rightarrow> c);
          normalizedPath = normalizeUserPath path pathClass;
          expandedPath = expandUserPath P normalizedPath (rpa_homeDir options) pathClass;
          rawIsAbsolute = pathe_isAbsolute P expandedPath
      in case canonicalizePath P expandedPath cwd pathClass of
           Inl e \<Rightarrow> Inl e
         | Inr canonical \<Rightarrow>
             (let outsideWorkspace = (\<not> isWithinWorkspace P canonical config pathClass);
                  policy = (case rpa_policy options of None \<Rightarrow> DEFAULT_WORKSPACE_ACCESS_POLICY | Some p \<Rightarrow> p)
              in if checkSensitive policy \<and> isSensitiveFile P canonical then
                   path_error PATH_SENSITIVE path canonical
                     (quoted path @ '' matches a sensitive-file pattern (env / credential / SSH key). '' @
                      ''Access is blocked to protect secrets.'')
                 else if outsideWorkspace \<and> guardMode policy = AbsoluteOutsideAllowed \<and> \<not> rawIsAbsolute then
                   path_error PATH_OUTSIDE_WORKSPACE path canonical
                     (relativeOutsideMessage path (rpa_operation options))
                 else Inr \<lparr>pa_path = canonical, pa_outsideWorkspace = outsideWorkspace\<rparr>))"

text \<open>The options of \<open>resolvePathAccessPath\<close>: the path class and the home directory are those of
  the agent's \<open>Kaos\<close>; \<open>expandHome\<close> is true unless given.\<close>

definition resolvePathAccessPath ::
  "path_lib \<Rightarrow> PathClass \<Rightarrow> string \<Rightarrow> string \<Rightarrow> WorkspaceConfig \<Rightarrow> PathAccessOperation \<Rightarrow>
   WorkspaceAccessPolicy option \<Rightarrow> bool option \<Rightarrow> PathSecurityError + string" where
  "resolvePathAccessPath P pathClass home path workspace operation policy expandHome =
     map_sum id pa_path (resolvePathAccess P path (workspaceDir workspace) workspace
       \<lparr>rpa_operation = operation, rpa_policy = policy, rpa_pathClass = Some pathClass,
        rpa_homeDir = (if expandHome = Some False then None else Some home)\<rparr>)"

definition assertPathAllowed ::
  "path_lib \<Rightarrow> string \<Rightarrow> string \<Rightarrow> WorkspaceConfig \<Rightarrow> PathAccessOperation \<Rightarrow> bool option \<Rightarrow>
   PathClass option \<Rightarrow> PathSecurityError + string" where
  "assertPathAllowed P path cwd config mode check pathClass =
     map_sum id pa_path (resolvePathAccess P path cwd config
       \<lparr>rpa_operation = mode,
        rpa_policy = Some \<lparr>guardMode = AbsoluteOutsideAllowed,
          checkSensitive = (case check of None \<Rightarrow> checkSensitive DEFAULT_WORKSPACE_ACCESS_POLICY
                            | Some b \<Rightarrow> b)\<rparr>,
        rpa_pathClass = pathClass, rpa_homeDir = None\<rparr>)"

section \<open>Git work trees\<close>

text \<open>\<open>kaos.stat(p).stMode\<close> and \<open>kaos.readText(p)\<close>; \<open>None\<close> when the call throws.\<close>

record kaos_fs =
  fs_stMode :: "string \<Rightarrow> nat option"
  fs_readText :: "string \<Rightarrow> string option"

definition S_IFMT :: nat where "S_IFMT = 61440"
definition S_IFDIR :: nat where "S_IFDIR = 16384"
definition S_IFREG :: nat where "S_IFREG = 32768"

record GitWorkTreeMarker =
  dotGitPath :: string
  controlDirPath :: string

definition isMode :: "nat \<Rightarrow> nat \<Rightarrow> bool" where
  "isMode stMode mode \<longleftrightarrow> and stMode S_IFMT = mode"

text \<open>Strings hold Latin-1 code units, so the byte order mark U+FEFF does not occur.\<close>

definition stripLeadingNoise :: "string \<Rightarrow> string" where
  "stripLeadingNoise content = js_trim_start content"

text \<open>\<open>split(/\r?\n/, 1)[0]\<close>: up to the first line end.\<close>

fun first_line :: "string \<Rightarrow> string" where
  "first_line [] = []"
| "first_line (c # cs) =
     (if c = CHR 0x0A then []
      else if c = CHR 0x0D \<and> cs \<noteq> [] \<and> hd cs = CHR 0x0A then []
      else c # first_line cs)"

definition parseGitDir :: "path_lib \<Rightarrow> string \<Rightarrow> string \<Rightarrow> string option" where
  "parseGitDir P content markerParent =
     (let line = js_trim (first_line (stripLeadingNoise content))
      in if \<not> prefix ''gitdir:'' line then None
         else let rawPath = js_trim (drop 7 line)
           in if rawPath = [] then None
              else Some (pathe_normalize P
                (if pathe_isAbsolute P rawPath then rawPath else pathe_join P markerParent rawPath)))"

definition probeGitMarker :: "path_lib \<Rightarrow> kaos_fs \<Rightarrow> string \<Rightarrow> string \<Rightarrow> GitWorkTreeMarker option" where
  "probeGitMarker P K dotGit markerParent =
     (case fs_stMode K dotGit of
        None \<Rightarrow> None
      | Some m \<Rightarrow>
          if isMode m S_IFDIR then Some \<lparr>dotGitPath = dotGit, controlDirPath = dotGit\<rparr>
          else if \<not> isMode m S_IFREG then None
          else (case fs_readText K dotGit of
             None \<Rightarrow> None
           | Some content \<Rightarrow>
               (case parseGitDir P content markerParent of
                  None \<Rightarrow> None
                | Some c \<Rightarrow> Some \<lparr>dotGitPath = dotGit, controlDirPath = c\<rparr>)))"

text \<open>The loop, with the number of rounds left.\<close>

fun git_marker_walk :: "path_lib \<Rightarrow> kaos_fs \<Rightarrow> nat \<Rightarrow> string \<Rightarrow> GitWorkTreeMarker option" where
  "git_marker_walk P K 0 current = None"
| "git_marker_walk P K (Suc left) current =
     (let dotGit = pathe_join P current ''.git''
      in case probeGitMarker P K dotGit current of
           Some hit \<Rightarrow> Some hit
         | None \<Rightarrow>
             (let parent = pathe_dirname P current
              in if parent = current then None else git_marker_walk P K left parent))"

definition findGitWorkTreeMarker :: "path_lib \<Rightarrow> kaos_fs \<Rightarrow> string \<Rightarrow> GitWorkTreeMarker option" where
  "findGitWorkTreeMarker P K cwd =
     (if cwd = [] \<or> \<not> pathe_isAbsolute P cwd then None
      else git_marker_walk P K 256 (pathe_normalize P cwd))"

section \<open>Relative paths\<close>

text \<open>\<open>resolve\<close> and \<open>relative\<close> of Node's \<open>path/posix\<close>, on components.\<close>

fun push_segment :: "string list \<Rightarrow> string \<Rightarrow> string list" where
  "push_segment acc w =
     (if w = [] \<or> w = ''.'' then acc else if w = ''..'' then butlast acc else acc @ [w])"

definition posix_resolve :: "path_lib \<Rightarrow> string \<Rightarrow> string list" where
  "posix_resolve P path =
     foldl push_segment []
       (split_on (\<lambda>c. c = CHR ''/'')
         (if prefix ''/'' path then path else process_cwd P @ ''/'' @ path))"

fun strip_common :: "string list \<Rightarrow> string list \<Rightarrow> string list \<times> string list" where
  "strip_common (a # as) (b # bs) = (if a = b then strip_common as bs else (a # as, b # bs))"
| "strip_common as bs = (as, bs)"

definition posix_relative :: "path_lib \<Rightarrow> string \<Rightarrow> string \<Rightarrow> string" where
  "posix_relative P src dst =
     (let (up, down) = strip_common (posix_resolve P src) (posix_resolve P dst)
      in join_with ''/'' (replicate (length up) ''..'' @ down))"

definition relativePathParts :: "path_lib \<Rightarrow> string \<Rightarrow> string \<Rightarrow> PathClass \<Rightarrow> string list" where
  "relativePathParts P targetPath cwd pathClass =
     filter (\<lambda>part. part \<noteq> []) (split_on is_slash
       (case pathClass of Win32 \<Rightarrow> win32_relative P cwd targetPath
        | Posix \<Rightarrow> posix_relative P cwd targetPath))"

definition hasGitPathComponent :: "path_lib \<Rightarrow> string \<Rightarrow> string \<Rightarrow> PathClass \<Rightarrow> bool" where
  "hasGitPathComponent P targetPath cwd pathClass \<longleftrightarrow>
     (\<exists>part \<in> set (relativePathParts P targetPath cwd pathClass). to_lower part = ''.git'')"

definition isGitControlPath :: "path_lib \<Rightarrow> string \<Rightarrow> GitWorkTreeMarker \<Rightarrow> PathClass \<Rightarrow> bool" where
  "isGitControlPath P targetPath marker pathClass \<longleftrightarrow>
     isWithinDirectory P targetPath (dotGitPath marker) pathClass \<or>
     isWithinDirectory P targetPath (controlDirPath marker) pathClass"

end
