(* ===== verification/Permission_Rules.thy ===== *)
theory Permission_Rules
  imports Path_Access
begin

text \<open>
  The rule language of the permission system: patterns such as \<open>Bash(rm *)\<close> and their matching
  (\<open>agent/permission/matches-rule.ts\<close>), the patterns that an approval for the session stores
  and the matchers of the tools (\<open>tools/support/rule-match.ts\<close>, \<open>tools/support/path-glob-match.ts\<close>).
  The lemmas show that a printed literal pattern parses back and never reads as a negation.
\<close>

section \<open>Patterns\<close>

record ParsedPattern =
  pp_toolName :: string
  pp_argPattern :: "string option"

text \<open>\<open>s.indexOf(c)\<close> as an option.\<close>

fun index_of :: "char \<Rightarrow> string \<Rightarrow> nat option" where
  "index_of c [] = None"
| "index_of c (x # xs) = (if x = c then Some 0 else map_option Suc (index_of c xs))"

definition parsePattern :: "string \<Rightarrow> string + ParsedPattern" where
  "parsePattern pattern =
     (let trimmed = js_trim pattern
      in if length trimmed = 0 then Inl ''permission pattern: empty string''
         else case index_of CHR ''('' trimmed of
           None \<Rightarrow> Inr \<lparr>pp_toolName = trimmed, pp_argPattern = None\<rparr>
         | Some openIdx \<Rightarrow>
             if \<not> suffix '')'' trimmed then
               Inl (''permission pattern: missing closing paren in '' @ quoted pattern)
             else let toolName = take openIdx trimmed;
                      argPattern = butlast (drop (openIdx + 1) trimmed)
               in if length toolName = 0 then
                    Inl (''permission pattern: empty tool name in '' @ quoted pattern)
                  else if length argPattern = 0 then Inr \<lparr>pp_toolName = toolName, pp_argPattern = None\<rparr>
                  else Inr \<lparr>pp_toolName = toolName, pp_argPattern = Some argPattern\<rparr>)"

section \<open>Rules and their matching\<close>

datatype PermissionRuleDecision = RuleAllow | RuleDeny | RuleAsk
datatype PermissionRuleScope = TurnOverride | SessionRuntime | ProjectScope | UserScope

record PermissionRule =
  pr_decision :: PermissionRuleDecision
  pr_scope :: PermissionRuleScope
  pr_pattern :: string
  pr_reason :: "string option"

datatype PermissionRuleMatchStrategy = Tool_name_only | Matches_rule

record PermissionRuleMatch =
  prm_rule :: PermissionRule
  prm_strategy :: PermissionRuleMatchStrategy
  prm_hasRuleArgs :: bool

text \<open>\<open>matchesRule\<close> is the matcher of the tool call, when the tool provides one.\<close>

definition matchPermissionRule ::
  "glob_lib \<Rightarrow> PermissionRule \<Rightarrow> string \<Rightarrow> (string \<Rightarrow> bool) option \<Rightarrow> PermissionRuleMatch option" where
  "matchPermissionRule isMatch rule toolName matchesRule =
     (case parsePattern (pr_pattern rule) of
        Inl e \<Rightarrow> None
      | Inr parsed \<Rightarrow>
          if pp_toolName parsed \<noteq> ''*'' \<and> \<not> isMatch toolName (pp_toolName parsed) False then None
          else case pp_argPattern parsed of
            None \<Rightarrow> Some \<lparr>prm_rule = rule, prm_strategy = Tool_name_only, prm_hasRuleArgs = False\<rparr>
          | Some argPattern \<Rightarrow>
              (case matchesRule of
                 None \<Rightarrow> None
               | Some matcher \<Rightarrow>
                   if matcher argPattern
                   then Some \<lparr>prm_rule = rule, prm_strategy = Matches_rule, prm_hasRuleArgs = True\<rparr>
                   else None))"

section \<open>Literal patterns\<close>

definition glob_special :: "char list" where
  "glob_special = CHR 0x5C # ''*?[]{}()!+@|''"

definition escapeRuleSubjectLiteral :: "string \<Rightarrow> string" where
  "escapeRuleSubjectLiteral subject =
     concat (map (\<lambda>c. if c \<in> set glob_special then [CHR 0x5C, c] else [c]) subject)"

definition literalRulePattern :: "string \<Rightarrow> string \<Rightarrow> string" where
  "literalRulePattern toolName subject = toolName @ ''('' @ escapeRuleSubjectLiteral subject @ '')''"

definition matchRuleSubjects :: "string \<Rightarrow> string list \<Rightarrow> (string \<Rightarrow> string \<Rightarrow> bool) \<Rightarrow> bool" where
  "matchRuleSubjects ruleArgs subjects matchesPositivePattern =
     (if length ruleArgs = 0 then True
      else let negated = prefix ''!'' ruleArgs;
               positivePattern = (if negated then drop 1 ruleArgs else ruleArgs);
               hit = (\<exists>subject \<in> set subjects. matchesPositivePattern positivePattern subject)
        in if negated then \<not> hit else hit)"

section \<open>Glob matching of strings and paths\<close>

definition stripLeadingDotSlash :: "string \<Rightarrow> string" where
  "stripLeadingDotSlash value = (if prefix ''./'' value then drop 2 value else value)"

definition globMatch :: "glob_lib \<Rightarrow> string \<Rightarrow> string \<Rightarrow> bool \<Rightarrow> bool" where
  "globMatch isMatch value pattern nocase =
     (if isMatch value pattern nocase then True
      else let normalizedValue = stripLeadingDotSlash value;
               normalizedPattern = stripLeadingDotSlash pattern
        in if normalizedValue = value \<and> normalizedPattern = pattern then False
           else isMatch normalizedValue normalizedPattern nocase)"

record PermissionPathMatchOptions =
  mo_cwd :: "string option"
  mo_pathClass :: "PathClass option"
  mo_homeDir :: "string option"
  mo_caseInsensitivePaths :: "bool option"

definition no_match_options :: PermissionPathMatchOptions where
  "no_match_options = \<lparr>mo_cwd = None, mo_pathClass = None, mo_homeDir = None,
     mo_caseInsensitivePaths = None\<rparr>"

definition looks_win32 :: "string \<Rightarrow> bool" where
  "looks_win32 candidate \<longleftrightarrow>
     (case candidate of d # c # rest \<Rightarrow> is_letter d \<and> c = CHR '':'' \<and> (rest = [] \<or> is_slash (hd rest)) | _ \<Rightarrow> False)
     \<or> prefix [CHR 0x5C, CHR 0x5C] candidate \<or> CHR 0x5C \<in> set candidate"

definition pathMatchSemantics :: "string \<Rightarrow> string \<Rightarrow> PermissionPathMatchOptions \<Rightarrow> PathClass" where
  "pathMatchSemantics value pattern opts =
     (case mo_pathClass opts of
        Some c \<Rightarrow> c
      | None \<Rightarrow> if looks_win32 value \<or> looks_win32 pattern then Win32 else Posix)"

definition defaultCwdForPath :: "path_lib \<Rightarrow> string \<Rightarrow> string option" where
  "defaultCwdForPath P value = (if \<not> pathe_isAbsolute P value then None else Some (pathe_root P value))"

definition canonicalizePathPattern ::
  "path_lib \<Rightarrow> string \<Rightarrow> PathClass \<Rightarrow> PermissionPathMatchOptions \<Rightarrow> string option" where
  "canonicalizePathPattern P value pathClass opts =
     (let expanded = expandUserPath P value (mo_homeDir opts) pathClass
      in case (case mo_cwd opts of Some c \<Rightarrow> Some c | None \<Rightarrow> defaultCwdForPath P expanded) of
           None \<Rightarrow> None
         | Some cwd \<Rightarrow> (case canonicalizePath P expanded cwd pathClass of Inl e \<Rightarrow> None | Inr c \<Rightarrow> Some c))"

definition stripLeadingDotPath :: "string \<Rightarrow> PathClass \<Rightarrow> string" where
  "stripLeadingDotPath value pathClass =
     (if prefix ''./'' value then drop 2 value
      else if pathClass = Win32 \<and> prefix (''.'' @ [CHR 0x5C]) value then drop 2 value
      else value)"

definition addPathVariant :: "string list \<Rightarrow> string \<Rightarrow> PathClass \<Rightarrow> string list" where
  "addPathVariant variants value pathClass =
     (let v1 = oset_add value variants
      in if pathClass = Win32 then oset_add (map backslash_to_slash value) v1 else v1)"

definition pathVariants ::
  "path_lib \<Rightarrow> string \<Rightarrow> PathClass \<Rightarrow> PermissionPathMatchOptions \<Rightarrow> string list" where
  "pathVariants P value pathClass opts =
     (let v1 = addPathVariant [] value pathClass;
          v2 = addPathVariant v1 (stripLeadingDotPath value pathClass) pathClass
      in case canonicalizePathPattern P value pathClass opts of
           None \<Rightarrow> v2
         | Some canonical \<Rightarrow> addPathVariant v2 canonical pathClass)"

definition pathGlobMatch ::
  "path_lib \<Rightarrow> glob_lib \<Rightarrow> string \<Rightarrow> string \<Rightarrow> PermissionPathMatchOptions \<Rightarrow> bool" where
  "pathGlobMatch P isMatch value pattern opts =
     (let pathClass = pathMatchSemantics value pattern opts;
          nocase = (case mo_caseInsensitivePaths opts of None \<Rightarrow> True | Some b \<Rightarrow> b)
      in if globMatch isMatch value pattern nocase then True
         else \<exists>valueVariant \<in> set (pathVariants P value pathClass opts).
           \<exists>patternVariant \<in> set (pathVariants P pattern pathClass opts).
             globMatch isMatch valueVariant patternVariant nocase)"

definition matchesGlobRuleSubject :: "glob_lib \<Rightarrow> string \<Rightarrow> string \<Rightarrow> bool" where
  "matchesGlobRuleSubject isMatch ruleArgs subject =
     matchRuleSubjects ruleArgs [subject] (\<lambda>pattern value. globMatch isMatch value pattern False)"

definition matchesPathRuleSubject ::
  "path_lib \<Rightarrow> glob_lib \<Rightarrow> string \<Rightarrow> string \<Rightarrow> PermissionPathMatchOptions \<Rightarrow> bool" where
  "matchesPathRuleSubject P isMatch ruleArgs subject opts =
     matchRuleSubjects ruleArgs [subject] (\<lambda>pattern value. pathGlobMatch P isMatch value pattern opts)"

section \<open>Printing and parsing\<close>

text \<open>Reading an escaped string back: a backslash protects the character after it.\<close>

fun unescape :: "string \<Rightarrow> string" where
  "unescape (a # b # cs) = (if a = CHR 0x5C then b # unescape cs else a # unescape (b # cs))"
| "unescape cs = cs"

lemma escape_Nil [simp]: "escapeRuleSubjectLiteral [] = []"
  by (simp add: escapeRuleSubjectLiteral_def)

lemma escape_Cons [simp]:
  "escapeRuleSubjectLiteral (c # cs) =
     (if c \<in> set glob_special then [CHR 0x5C, c] else [c]) @ escapeRuleSubjectLiteral cs"
  by (simp add: escapeRuleSubjectLiteral_def)

lemma escape_eq_Nil [simp]: "escapeRuleSubjectLiteral s = [] \<longleftrightarrow> s = []"
  by (cases s) auto

lemma unescape_plain: "a \<noteq> CHR 0x5C \<Longrightarrow> unescape (a # s) = a # unescape s"
  by (cases s) auto

lemma unescape_escape [simp]: "unescape (escapeRuleSubjectLiteral s) = s"
proof (induction s)
  case (Cons c cs)
  have "CHR 0x5C \<in> set glob_special" by (simp add: glob_special_def)
  then have "c \<notin> set glob_special \<Longrightarrow> c \<noteq> CHR 0x5C" by blast
  with Cons show ?case by (simp add: unescape_plain)
qed simp

lemma escape_not_negated: "\<not> prefix ''!'' (escapeRuleSubjectLiteral s)"
  by (cases s) (auto simp: glob_special_def)

lemma index_of_append: "c \<notin> set xs \<Longrightarrow> index_of c (xs @ c # ys) = Some (length xs)"
  by (induction xs) auto

lemma js_trim_solid:
  "s \<noteq> [] \<Longrightarrow> \<not> is_js_space (hd s) \<Longrightarrow> \<not> is_js_space (last s) \<Longrightarrow> js_trim s = s"
proof -
  assume a: "s \<noteq> []" "\<not> is_js_space (hd s)" "\<not> is_js_space (last s)"
  have h: "xs \<noteq> [] \<Longrightarrow> \<not> is_js_space (hd xs) \<Longrightarrow> dropWhile is_js_space xs = xs" for xs
    by (cases xs) auto
  show ?thesis using a by (simp add: js_trim_def js_trim_start_def h hd_rev)
qed

text \<open>Names of tools: not empty, no opening parenthesis, no white space in front.\<close>

definition tool_name_ok :: "string \<Rightarrow> bool" where
  "tool_name_ok n \<longleftrightarrow> n \<noteq> [] \<and> CHR ''('' \<notin> set n \<and> \<not> is_js_space (hd n)"

lemma parse_call_pattern:
  assumes "tool_name_ok n"
  shows "parsePattern (n @ ''('' @ a @ '')'') =
     Inr \<lparr>pp_toolName = n, pp_argPattern = (if a = [] then None else Some a)\<rparr>"
proof -
  let ?s = "n @ ''('' @ a @ '')''"
  from assms have n: "n \<noteq> []" "CHR ''('' \<notin> set n" "\<not> is_js_space (hd n)"
    by (auto simp: tool_name_ok_def)
  have "js_trim ?s = ?s"
    by (rule js_trim_solid) (use n in \<open>auto simp: is_js_space_def\<close>)
  moreover have "index_of CHR ''('' ?s = Some (length n)"
    using index_of_append [OF n(2)] by simp
  moreover have "suffix '')'' ?s" by (simp add: suffix_def)
  ultimately show ?thesis using n(1)
    by (simp add: parsePattern_def Let_def butlast_append)
qed

end
