(* ===== verification/Permission.thy ===== *)
theory Permission
  imports Permission_Rules Agent_Records
begin

text \<open>
  The permission manager of an agent (\<open>agent/permission/index.ts\<close>) and its policies
  (\<open>agent/permission/policies/*.ts\<close>), one definition per policy and in the code's order.

  A manager refers to the manager of the parent agent. Operations see the list of managers that
  starts with the agent's own and goes on with its ancestors (\<open>chain\<close>); only its head is changed.
  What a policy reads of the agent besides the manager is \<open>agent_facts\<close>. What the world answers
  during a call (the \<open>PreToolUse\<close> hooks, the abort signal, the user) is part of the context or an
  argument. \<open>beforeToolCall\<close> is split where it awaits the user: it settles the call or is left
  asking, and \<open>answerApproval\<close> goes on with the state found when the answer arrives.

  Telemetry and the two notification hooks are not modelled. The dash U+2014 of the messages for
  sub-agents is written as two hyphens.
\<close>

section \<open>Data\<close>

datatype PermissionMode = Manual | Yolo | Auto
datatype AgentType = MainAgent | SubAgent | IndependentAgent

datatype ApprovalDecision = Approved | Rejected | Cancelled

text \<open>\<open>scope?: 'session'\<close> is the flag \<open>ar_session\<close>.\<close>

record ApprovalResponse =
  ar_decision :: ApprovalDecision
  ar_session :: bool
  ar_feedback :: "string option"
  ar_selectedLabel :: "string option"

record PermissionApprovalResultRecord =
  rec_turnId :: int
  rec_toolCallId :: string
  rec_toolName :: string
  rec_action :: string
  rec_sessionApprovalRule :: "string option"
  rec_result :: ApprovalResponse

datatype PermissionRecord =
    R_set_mode PermissionMode
  | R_record_approval_result PermissionApprovalResultRecord

datatype PermissionEvent = E_permission_status PermissionMode bool

datatype PermissionReplay =
    P_permission_updated PermissionMode
  | P_approval_result PermissionApprovalResultRecord

type_synonym permission_agent = "(PermissionRecord, PermissionEvent, PermissionReplay) agent"

record agent_facts =
  af_type :: AgentType
  af_hasModel :: bool
  af_hasRpc :: bool
  af_discussActive :: bool
  af_teamWriteLocked :: bool
  af_coderWriteEnabled :: bool
  af_cwd :: string
  af_additionalDirs :: "string list"
  af_pathClass :: PathClass
  af_fs :: kaos_fs

record PermissionManager =
  pm_agent :: permission_agent
  pm_facts :: agent_facts
  pm_rules :: "PermissionRule list"
  modeOverride :: "PermissionMode option"
  localSessionApprovalRulePatterns :: "string list"
  toolsReadonly :: bool

type_synonym chain = "PermissionManager list"

record libs =
  lib_path :: path_lib
  lib_isMatch :: glob_lib

section \<open>The call under decision\<close>

datatype hook_outcome = HooksPass | HooksBlock string | HooksThrow string

record ToolExecution =
  te_accesses :: "ToolAccesses option"
  te_displayKind :: "string option"
  te_description :: "string option"
  te_approvalRule :: string
  te_matchesRule :: "(string \<Rightarrow> bool) option"

record PermissionContext =
  pc_turnId :: int
  pc_toolCallId :: string
  pc_toolName :: string
  pc_execution :: ToolExecution
  pc_hooks :: hook_outcome
  pc_abort :: "string option"

text \<open>What \<open>ask\<close> carries: no policy gives \<open>resolveError\<close>, one gives \<open>resolveApproval\<close>.\<close>

datatype ApprovalResolver = ResolveGoalStart

datatype PermissionPolicyResult =
    PolicyApprove
  | PolicyDeny "string option"
  | PolicyAsk "ApprovalResolver option"

datatype PrepareToolExecutionResult = Proceed | Block string

datatype call_state =
    Settled PrepareToolExecutionResult
  | Asking "ApprovalResolver option"
  | Thrown string

section \<open>State of the manager\<close>

abbreviation own :: "chain \<Rightarrow> PermissionManager" where "own ch \<equiv> hd ch"

fun permission_mode :: "chain \<Rightarrow> PermissionMode" where
  "permission_mode [] = Manual"
| "permission_mode (m # parents) =
     (case modeOverride m of Some mode \<Rightarrow> mode | None \<Rightarrow> permission_mode parents)"

fun effectiveRules :: "chain \<Rightarrow> PermissionRule list" where
  "effectiveRules [] = []"
| "effectiveRules (m # parents) = pm_rules m @ effectiveRules parents"

fun sessionApprovalRulePatterns :: "chain \<Rightarrow> string list" where
  "sessionApprovalRulePatterns [] = []"
| "sessionApprovalRulePatterns (m # parents) =
     localSessionApprovalRulePatterns m @ sessionApprovalRulePatterns parents"

record PermissionData =
  pd_mode :: PermissionMode
  pd_rules :: "PermissionRule list"

definition permission_data :: "chain \<Rightarrow> PermissionData" where
  "permission_data ch = \<lparr>pd_mode = permission_mode ch, pd_rules = effectiveRules ch\<rparr>"

definition on_own :: "(PermissionManager \<Rightarrow> PermissionManager) \<Rightarrow> chain \<Rightarrow> chain" where
  "on_own f ch = (case ch of [] \<Rightarrow> [] | m # parents \<Rightarrow> f m # parents)"

definition permission_status :: "chain \<Rightarrow> chain" where
  "permission_status ch = on_own (\<lambda>m. if af_hasModel (pm_facts m)
     then m\<lparr>pm_agent := emitEvent (E_permission_status (permission_mode ch) (toolsReadonly m)) (pm_agent m)\<rparr>
     else m) ch"

definition setMode :: "ms \<Rightarrow> PermissionMode \<Rightarrow> chain \<Rightarrow> chain" where
  "setMode now mode ch =
     permission_status (on_own (\<lambda>m.
       m\<lparr>pm_agent := replay_push now (P_permission_updated mode) (logRecord now (R_set_mode mode) (pm_agent m)),
         modeOverride := Some mode\<rparr>) ch)"

definition setToolsReadonly :: "bool \<Rightarrow> chain \<Rightarrow> chain" where
  "setToolsReadonly enabled ch = on_own (\<lambda>m. m\<lparr>toolsReadonly := enabled\<rparr>) ch"

definition recordApprovalResult :: "ms \<Rightarrow> PermissionApprovalResultRecord \<Rightarrow> chain \<Rightarrow> chain" where
  "recordApprovalResult now r ch = on_own (\<lambda>m.
     let m1 = m\<lparr>pm_agent := replay_push now (P_approval_result r)
                  (logRecord now (R_record_approval_result r) (pm_agent m))\<rparr>
     in if ar_decision (rec_result r) \<noteq> Approved \<or> \<not> ar_session (rec_result r) then m1
        else case rec_sessionApprovalRule r of
          None \<Rightarrow> m1
        | Some pattern \<Rightarrow>
            m1\<lparr>localSessionApprovalRulePatterns := oset_add pattern (localSessionApprovalRulePatterns m1)\<rparr>) ch"

section \<open>The policies\<close>

type_synonym policy_outcome = "string + PermissionPolicyResult option"

abbreviation pass :: policy_outcome where "pass \<equiv> Inr None"
abbreviation decide :: "PermissionPolicyResult \<Rightarrow> policy_outcome" where "decide r \<equiv> Inr (Some r)"

definition tool_in_quotes :: "string \<Rightarrow> string" where
  "tool_in_quotes toolName = ''Tool '' @ quoted toolName"

definition sub_agent_advice :: string where
  "sub_agent_advice = '' Try a different approach -- don't retry the same call, don't attempt to bypass the restriction.''"

definition preToolCallHook :: "chain \<Rightarrow> PermissionContext \<Rightarrow> policy_outcome" where
  "preToolCallHook ch c =
     (case pc_hooks c of
        HooksThrow e \<Rightarrow> Inl e
      | h \<Rightarrow>
          (case pc_abort c of
             Some e \<Rightarrow> Inl e
           | None \<Rightarrow> (case h of HooksBlock reason \<Rightarrow> decide (PolicyDeny (Some reason)) | _ \<Rightarrow> pass)))"

definition autoModeAskUserQuestionDeny :: "chain \<Rightarrow> PermissionContext \<Rightarrow> policy_outcome" where
  "autoModeAskUserQuestionDeny ch c =
     (if permission_mode ch \<noteq> Auto then pass
      else if pc_toolName c \<noteq> ''AskUserQuestion'' then pass
      else decide (PolicyDeny (Some (''AskUserQuestion is disabled while auto permission mode is active. '' @
        ''Make a reasonable decision and continue without asking the user.''))))"

definition DISCUSS_DENIED_TOOLS :: "string list" where
  "DISCUSS_DENIED_TOOLS = [''Write'', ''Edit'', ''Bash'', ''TaskStop'', ''CronCreate'', ''CronDelete'']"

definition discussModeGuardDeny :: "chain \<Rightarrow> PermissionContext \<Rightarrow> policy_outcome" where
  "discussModeGuardDeny ch c =
     (let f = pm_facts (own ch); chairing = af_discussActive f; toolName = pc_toolName c
      in if \<not> chairing \<and> \<not> af_teamWriteLocked f then pass
         else if toolName \<notin> set DISCUSS_DENIED_TOOLS then pass
         else let way_out = (if chairing then ''Call TeamAssign or leave Discuss first.''
                             else ''Your lead is in Discuss; writes resume once it assigns work.'')
           in decide (PolicyDeny (Some
             (if toolName = ''TaskStop'' then
                ''TaskStop is not available while team writes are locked. '' @ way_out
              else if toolName = ''CronCreate'' \<or> toolName = ''CronDelete'' then
                toolName @ '' is not available while team writes are locked because it would mutate scheduled work. '' @ way_out
              else if chairing then
                ''Discuss is active. '' @ toolName @ '' is blocked so the meeting stays read-only. '' @
                ''Use Read, Grep, and Glob, then TeamAssign to enter Code.''
              else toolName @ '' is blocked: your lead is in Discuss, so the department is read-only '' @
                ''until it assigns work. Use Read, Grep, and Glob meanwhile.''))))"

definition READONLY_DENIED_TOOLS :: "string list" where
  "READONLY_DENIED_TOOLS = [''Write'', ''Edit'']"

definition toolsReadonlyDeny :: "chain \<Rightarrow> PermissionContext \<Rightarrow> policy_outcome" where
  "toolsReadonlyDeny ch c =
     (let f = pm_facts (own ch); toolName = pc_toolName c
      in if \<not> toolsReadonly (own ch) then pass
         else if toolName \<notin> set READONLY_DENIED_TOOLS then pass
         else if af_coderWriteEnabled f \<and> af_type f \<noteq> MainAgent then pass
         else decide (PolicyDeny (Some
           (if af_type f = MainAgent then
              tool_in_quotes toolName @ '' is blocked while readonly is on. Assign the work with TeamAssign, or run '' @
              [CHR 0x60] @ ''/setting readonly off'' @ [CHR 0x60] @ '' if the main Agent should write directly.''
            else tool_in_quotes toolName @ '' is not available because tools are set to readonly.''))))"

definition USER_CONFIGURED_SCOPES :: "PermissionRuleScope list" where
  "USER_CONFIGURED_SCOPES = [TurnOverride, ProjectScope, UserScope]"

fun first_match :: "glob_lib \<Rightarrow> PermissionContext \<Rightarrow> PermissionRule list \<Rightarrow> PermissionRuleMatch option" where
  "first_match isMatch c [] = None"
| "first_match isMatch c (rule # rules) =
     (case matchPermissionRule isMatch rule (pc_toolName c) (te_matchesRule (pc_execution c)) of
        Some m \<Rightarrow> Some m
      | None \<Rightarrow> first_match isMatch c rules)"

definition firstMatchingRule ::
  "libs \<Rightarrow> chain \<Rightarrow> PermissionContext \<Rightarrow> PermissionRuleDecision \<Rightarrow> PermissionRuleMatch option" where
  "firstMatchingRule L ch c decision =
     (let rules = filter (\<lambda>rule. pr_scope rule \<in> set USER_CONFIGURED_SCOPES) (pd_rules (permission_data ch))
      in first_match (lib_isMatch L) c (filter (\<lambda>rule. pr_decision rule = decision) rules))"

definition formatPermissionRuleDenyMessage :: "string \<Rightarrow> string option \<Rightarrow> AgentType \<Rightarrow> string" where
  "formatPermissionRuleDenyMessage tool reason agentType =
     (let suffix' = (case reason of Some r \<Rightarrow> if length r > 0 then '' Reason: '' @ r else [] | None \<Rightarrow> [])
      in if agentType = SubAgent then tool_in_quotes tool @ '' was denied.'' @ suffix' @ sub_agent_advice
         else tool_in_quotes tool @ '' was denied by permission rule.'' @ suffix')"

definition userConfiguredDeny :: "libs \<Rightarrow> chain \<Rightarrow> PermissionContext \<Rightarrow> policy_outcome" where
  "userConfiguredDeny L ch c =
     (case firstMatchingRule L ch c RuleDeny of
        None \<Rightarrow> pass
      | Some m \<Rightarrow> decide (PolicyDeny (Some (formatPermissionRuleDenyMessage (pc_toolName c)
          (pr_reason (prm_rule m)) (af_type (pm_facts (own ch)))))))"

definition modeApprove :: "PermissionMode \<Rightarrow> chain \<Rightarrow> PermissionContext \<Rightarrow> policy_outcome" where
  "modeApprove mode ch c = (if permission_mode ch \<noteq> mode then pass else decide PolicyApprove)"

definition session_rule :: "string \<Rightarrow> PermissionRule" where
  "session_rule pattern = \<lparr>pr_decision = RuleAllow, pr_scope = SessionRuntime, pr_pattern = pattern,
     pr_reason = Some ''approve for session''\<rparr>"

definition matchSessionApprovalRule :: "libs \<Rightarrow> chain \<Rightarrow> PermissionContext \<Rightarrow> PermissionRuleMatch option" where
  "matchSessionApprovalRule L ch c =
     first_match (lib_isMatch L) c (map session_rule (sessionApprovalRulePatterns ch))"

definition sessionApprovalHistory :: "libs \<Rightarrow> chain \<Rightarrow> PermissionContext \<Rightarrow> policy_outcome" where
  "sessionApprovalHistory L ch c =
     (case matchSessionApprovalRule L ch c of None \<Rightarrow> pass | Some m \<Rightarrow> decide PolicyApprove)"

definition userConfiguredAsk :: "libs \<Rightarrow> chain \<Rightarrow> PermissionContext \<Rightarrow> policy_outcome" where
  "userConfiguredAsk L ch c =
     (case firstMatchingRule L ch c RuleAsk of None \<Rightarrow> pass | Some m \<Rightarrow> decide (PolicyAsk None))"

definition userConfiguredAllow :: "libs \<Rightarrow> chain \<Rightarrow> PermissionContext \<Rightarrow> policy_outcome" where
  "userConfiguredAllow L ch c =
     (case firstMatchingRule L ch c RuleAllow of None \<Rightarrow> pass | Some m \<Rightarrow> decide PolicyApprove)"

definition goalStartReviewAsk :: "chain \<Rightarrow> PermissionContext \<Rightarrow> policy_outcome" where
  "goalStartReviewAsk ch c =
     (if pc_toolName c \<noteq> ''CreateGoal'' then pass
      else if permission_mode ch = Auto then pass
      else if te_displayKind (pc_execution c) \<noteq> Some ''goal_start'' then pass
      else decide (PolicyAsk (Some ResolveGoalStart)))"

fun access_file :: "ToolResourceAccess \<Rightarrow> ToolFileAccess list" where
  "access_file (AccFile f) = [f]"
| "access_file AccAll = []"

definition fileAccesses :: "PermissionContext \<Rightarrow> ToolFileAccess list" where
  "fileAccesses c =
     (case te_accesses (pc_execution c) of None \<Rightarrow> [] | Some accs \<Rightarrow> concat (map access_file accs))"

definition writeFileAccesses :: "PermissionContext \<Rightarrow> ToolFileAccess list" where
  "writeFileAccesses c =
     filter (\<lambda>a. fa_operation a = OpWrite \<or> fa_operation a = OpReadWrite) (fileAccesses c)"

definition sensitiveFileAccessAsk :: "libs \<Rightarrow> PermissionContext \<Rightarrow> policy_outcome" where
  "sensitiveFileAccessAsk L c =
     (case List.find (\<lambda>a. isSensitiveFile (lib_path L) (fa_path a)) (fileAccesses c) of
        None \<Rightarrow> pass
      | Some a \<Rightarrow> decide (PolicyAsk None))"

definition gitControlPathAccessAsk :: "libs \<Rightarrow> chain \<Rightarrow> PermissionContext \<Rightarrow> policy_outcome" where
  "gitControlPathAccessAsk L ch c =
     (let f = pm_facts (own ch); P = lib_path L; cwd = af_cwd f; pathClass = af_pathClass f;
          accesses = fileAccesses c
      in if length cwd = 0 then pass
         else if length accesses = 0 then pass
         else case List.find (\<lambda>a. hasGitPathComponent P (fa_path a) cwd pathClass) accesses of
           Some a \<Rightarrow> decide (PolicyAsk None)
         | None \<Rightarrow>
             (case findGitWorkTreeMarker P (af_fs f) cwd of
                None \<Rightarrow> pass
              | Some marker \<Rightarrow>
                  (case List.find (\<lambda>a. isGitControlPath P (fa_path a) marker pathClass) accesses of
                     None \<Rightarrow> pass
                   | Some a \<Rightarrow> decide (PolicyAsk None))))"

definition DEFAULT_APPROVE_TOOLS :: "string list" where
  "DEFAULT_APPROVE_TOOLS =
     [''Read'', ''Grep'', ''Glob'', ''ReadMediaFile'', ''SetTodoList'', ''TodoList'', ''TaskList'',
      ''TaskOutput'', ''CronList'', ''WebSearch'', ''FetchURL'', ''AskUserQuestion'', ''TeamCreate'',
      ''TeamDismiss'', ''TeamUpdate'', ''TeamAssign'', ''TeamBroadcast'', ''TeamDM'', ''TeamChat'',
      ''TeamStatus'', ''TeamDiscussInvite'', ''TeamDiscussKick'', ''TeamDecide'', ''TeamSpeak'',
      ''SessionSearch'', ''SessionMount'', ''SessionUnmount'', ''SessionGraph'', ''Skill'',
      ''GetGoal'', ''SetGoalBudget'', ''UpdateGoal'']"

definition defaultToolApprove :: "PermissionContext \<Rightarrow> policy_outcome" where
  "defaultToolApprove c = (if pc_toolName c \<notin> set DEFAULT_APPROVE_TOOLS then pass else decide PolicyApprove)"

definition gitCwdWriteApprove :: "libs \<Rightarrow> chain \<Rightarrow> PermissionContext \<Rightarrow> policy_outcome" where
  "gitCwdWriteApprove L ch c =
     (let f = pm_facts (own ch); P = lib_path L; cwd = af_cwd f; writeAccesses = writeFileAccesses c
      in if pc_toolName c \<noteq> ''Write'' \<and> pc_toolName c \<noteq> ''Edit'' then pass
         else if af_pathClass f \<noteq> Posix then pass
         else if length cwd = 0 then pass
         else if length writeAccesses = 0 then pass
         else if \<not> (\<forall>a \<in> set writeAccesses. isWithinWorkspace P (fa_path a)
                \<lparr>workspaceDir = cwd, additionalDirs = af_additionalDirs f\<rparr> Posix) then pass
         else case findGitWorkTreeMarker P (af_fs f) cwd of
           None \<Rightarrow> pass
         | Some marker \<Rightarrow> decide PolicyApprove)"

definition fallbackAsk :: "PermissionContext \<Rightarrow> policy_outcome" where
  "fallbackAsk c = decide (PolicyAsk None)"

section \<open>Deciding a call\<close>

definition createPermissionDecisionPolicies ::
  "libs \<Rightarrow> chain \<Rightarrow> (PermissionContext \<Rightarrow> policy_outcome) list" where
  "createPermissionDecisionPolicies L ch =
     [preToolCallHook ch,
      autoModeAskUserQuestionDeny ch,
      discussModeGuardDeny ch,
      toolsReadonlyDeny ch,
      userConfiguredDeny L ch,
      modeApprove Auto ch,
      modeApprove Yolo ch,
      sessionApprovalHistory L ch,
      userConfiguredAsk L ch,
      userConfiguredAllow L ch,
      goalStartReviewAsk ch,
      sensitiveFileAccessAsk L,
      gitControlPathAccessAsk L ch,
      defaultToolApprove,
      gitCwdWriteApprove L ch,
      fallbackAsk]"

fun evaluatePolicies :: "(PermissionContext \<Rightarrow> policy_outcome) list \<Rightarrow> PermissionContext \<Rightarrow> policy_outcome" where
  "evaluatePolicies [] c = pass"
| "evaluatePolicies (policy # policies) c =
     (case policy c of
        Inl e \<Rightarrow> Inl e
      | Inr (Some result) \<Rightarrow> decide result
      | Inr None \<Rightarrow> evaluatePolicies policies c)"

definition formatPolicyDenyMessage :: "AgentType \<Rightarrow> string \<Rightarrow> string" where
  "formatPolicyDenyMessage agentType toolName =
     (let pre = tool_in_quotes toolName @ '' was denied by permission policy.''
      in if agentType = SubAgent then pre @ sub_agent_advice else pre)"

definition formatApprovalRejectionMessage :: "AgentType \<Rightarrow> string \<Rightarrow> ApprovalResponse \<Rightarrow> string" where
  "formatApprovalRejectionMessage agentType toolName r =
     (let suffix' = (case ar_feedback r of
            Some f \<Rightarrow> if length f > 0 then '' Reason: '' @ f else [] | None \<Rightarrow> []);
          pre = (if ar_decision r = Cancelled
            then tool_in_quotes toolName @ '' was not run because the approval request was cancelled.''
            else tool_in_quotes toolName @ '' was not run because the user rejected the approval request.'')
      in if agentType = SubAgent then pre @ suffix' @ sub_agent_advice else pre @ suffix')"

definition toPermissionMode :: "string option \<Rightarrow> PermissionMode option" where
  "toPermissionMode label =
     (if label = Some ''auto'' then Some Auto else if label = Some ''yolo'' then Some Yolo
      else if label = Some ''manual'' then Some Manual else None)"

definition resolveGoalStart :: "ms \<Rightarrow> ApprovalResponse \<Rightarrow> chain \<Rightarrow> chain" where
  "resolveGoalStart now result ch =
     (if ar_decision result \<noteq> Approved then ch
      else case toPermissionMode (ar_selectedLabel result) of
        Some mode \<Rightarrow> if mode \<noteq> permission_mode ch then setMode now mode ch else ch
      | None \<Rightarrow> ch)"

text \<open>The part of \<open>requestToolApproval\<close> after the answer; the user's surface may also throw.\<close>

definition approval_record :: "PermissionContext \<Rightarrow> ApprovalResponse \<Rightarrow> PermissionApprovalResultRecord" where
  "approval_record c response =
     (let sessionApprovalRule = (if ar_decision response = Approved \<and> ar_session response
            then Some (te_approvalRule (pc_execution c)) else None);
          action = (case te_description (pc_execution c) of
            Some d \<Rightarrow> d | None \<Rightarrow> ''Call '' @ pc_toolName c)
      in \<lparr>rec_turnId = pc_turnId c, rec_toolCallId = pc_toolCallId c, rec_toolName = pc_toolName c,
          rec_action = action, rec_sessionApprovalRule = sessionApprovalRule, rec_result = response\<rparr>)"

definition answerApproval ::
  "ms \<Rightarrow> PermissionContext \<Rightarrow> ApprovalResolver option \<Rightarrow> string + ApprovalResponse \<Rightarrow> chain \<Rightarrow>
   chain \<times> call_state" where
  "answerApproval now c resolver answer ch =
     (case answer of
        Inl e \<Rightarrow> (ch, Thrown e)
      | Inr response \<Rightarrow>
          (let ch1 = recordApprovalResult now (approval_record c response) ch;
               ch2 = (case resolver of
                 Some ResolveGoalStart \<Rightarrow> resolveGoalStart now response ch1 | None \<Rightarrow> ch1)
           in (ch2, Settled
             (if ar_decision response = Approved then Proceed
              else Block (formatApprovalRejectionMessage (af_type (pm_facts (own ch2)))
                (pc_toolName c) response)))))"

text \<open>Without an approval surface the request counts as approved at once.\<close>

definition requestToolApproval ::
  "ms \<Rightarrow> PermissionContext \<Rightarrow> ApprovalResolver option \<Rightarrow> chain \<Rightarrow> chain \<times> call_state" where
  "requestToolApproval now c resolver ch =
     (if af_hasRpc (pm_facts (own ch)) then (ch, Asking resolver)
      else answerApproval now c resolver (Inr \<lparr>ar_decision = Approved, ar_session = False,
        ar_feedback = None, ar_selectedLabel = None\<rparr>) ch)"

definition permissionPolicyResolutionToPrepare ::
  "ms \<Rightarrow> PermissionContext \<Rightarrow> PermissionPolicyResult \<Rightarrow> chain \<Rightarrow> chain \<times> call_state" where
  "permissionPolicyResolutionToPrepare now c result ch =
     (case result of
        PolicyApprove \<Rightarrow> (ch, Settled Proceed)
      | PolicyDeny msg \<Rightarrow> (ch, Settled (Block (case msg of Some m \<Rightarrow> m
          | None \<Rightarrow> formatPolicyDenyMessage (af_type (pm_facts (own ch))) (pc_toolName c))))
      | PolicyAsk resolver \<Rightarrow> requestToolApproval now c resolver ch)"

definition beforeToolCall :: "libs \<Rightarrow> ms \<Rightarrow> PermissionContext \<Rightarrow> chain \<Rightarrow> chain \<times> call_state" where
  "beforeToolCall L now c ch =
     (case evaluatePolicies (createPermissionDecisionPolicies L ch) c of
        Inl e \<Rightarrow> (ch, Thrown e)
      | Inr None \<Rightarrow> (ch, Settled Proceed)
      | Inr (Some result) \<Rightarrow> permissionPolicyResolutionToPrepare now c result ch)"

section \<open>Restoring\<close>

text \<open>The two cases of \<open>restoreAgentRecord\<close>; \<open>ag_restoring\<close> holds the time of the record.\<close>

definition restoring_at :: "ms option \<Rightarrow> chain \<Rightarrow> chain" where
  "restoring_at t ch = on_own (\<lambda>m. m\<lparr>pm_agent := (pm_agent m)\<lparr>ag_restoring := t\<rparr>\<rparr>) ch"

fun restorePermission :: "chain \<Rightarrow> PermissionRecord \<times> ms \<Rightarrow> chain" where
  "restorePermission ch (R_set_mode mode, t) =
     restoring_at None (setMode t mode (restoring_at (Some t) ch))"
| "restorePermission ch (R_record_approval_result r, t) =
     restoring_at None (recordApprovalResult t r (restoring_at (Some t) ch))"

end
