(* ===== verification/Tool_Executions.thy ===== *)
theory Tool_Executions
  imports Permission
begin

text \<open>
  What the built-in tools tell the permission system about a call: the \<open>resolveExecution\<close> methods
  of Read, ReadMediaFile, Write, Edit, Grep, Glob and Bash (\<open>tools/builtin/file/*.ts\<close>,
  \<open>tools/builtin/shell/bash.ts\<close>), without the closure that runs the call. The ellipsis U+2026 of a
  long command is written as three dots.
\<close>

section \<open>The environment of a tool\<close>

record tool_env =
  env_pathClass :: PathClass
  env_home :: string
  env_workspace :: WorkspaceConfig

definition path_match_options :: "tool_env \<Rightarrow> PermissionPathMatchOptions" where
  "path_match_options E = \<lparr>mo_cwd = Some (workspaceDir (env_workspace E)),
     mo_pathClass = Some (env_pathClass E), mo_homeDir = Some (env_home E), mo_caseInsensitivePaths = None\<rparr>"

definition file_execution ::
  "libs \<Rightarrow> tool_env \<Rightarrow> string \<Rightarrow> string \<Rightarrow> (string \<Rightarrow> ToolAccesses) \<Rightarrow> string \<Rightarrow> string \<Rightarrow> ToolExecution" where
  "file_execution L E toolName verb accesses shown path =
     \<lparr>te_accesses = Some (accesses path), te_displayKind = Some ''file_io'',
      te_description = Some (verb @ shown),
      te_approvalRule = literalRulePattern toolName path,
      te_matchesRule = Some (\<lambda>ruleArgs.
        matchesPathRuleSubject (lib_path L) (lib_isMatch L) ruleArgs path (path_match_options E))\<rparr>"

section \<open>File tools\<close>

definition Read_resolve :: "libs \<Rightarrow> tool_env \<Rightarrow> string \<Rightarrow> PathSecurityError + ToolExecution" where
  "Read_resolve L E arg =
     map_sum id (file_execution L E ''Read'' ''Reading '' readFile arg)
       (resolvePathAccessPath (lib_path L) (env_pathClass E) (env_home E) arg (env_workspace E) PathRead None None)"

definition ReadMediaFile_resolve :: "libs \<Rightarrow> tool_env \<Rightarrow> string \<Rightarrow> PathSecurityError + ToolExecution" where
  "ReadMediaFile_resolve L E arg =
     map_sum id (file_execution L E ''ReadMediaFile'' ''Reading media: '' readFile arg)
       (resolvePathAccessPath (lib_path L) (env_pathClass E) (env_home E) arg (env_workspace E) PathRead None None)"

definition Write_resolve :: "libs \<Rightarrow> tool_env \<Rightarrow> string \<Rightarrow> PathSecurityError + ToolExecution" where
  "Write_resolve L E arg =
     map_sum id (file_execution L E ''Write'' ''Writing '' writeFile arg)
       (resolvePathAccessPath (lib_path L) (env_pathClass E) (env_home E) arg (env_workspace E) PathWrite None None)"

definition Edit_resolve :: "libs \<Rightarrow> tool_env \<Rightarrow> string \<Rightarrow> PathSecurityError + ToolExecution" where
  "Edit_resolve L E arg =
     map_sum id (file_execution L E ''Edit'' ''Editing '' readWriteFile arg)
       (resolvePathAccessPath (lib_path L) (env_pathClass E) (env_home E) arg (env_workspace E) PathWrite None None)"

section \<open>Search tools\<close>

definition search_policy :: WorkspaceAccessPolicy where
  "search_policy = \<lparr>guardMode = AbsoluteOutsideAllowed, checkSensitive = False\<rparr>"

definition search_root :: "libs \<Rightarrow> tool_env \<Rightarrow> string option \<Rightarrow> PathSecurityError + string" where
  "search_root L E path =
     (case path of
        None \<Rightarrow> Inr (workspaceDir (env_workspace E))
      | Some p \<Rightarrow> resolvePathAccessPath (lib_path L) (env_pathClass E) (env_home E) p (env_workspace E)
          PathSearch (Some search_policy) None)"

definition pattern_execution :: "libs \<Rightarrow> string \<Rightarrow> string \<Rightarrow> ToolAccesses option \<Rightarrow> string \<Rightarrow> string \<Rightarrow> ToolExecution" where
  "pattern_execution L toolName description accesses kind subject =
     \<lparr>te_accesses = accesses, te_displayKind = Some kind, te_description = Some description,
      te_approvalRule = literalRulePattern toolName subject,
      te_matchesRule = Some (\<lambda>ruleArgs. matchesGlobRuleSubject (lib_isMatch L) ruleArgs subject)\<rparr>"

definition Grep_resolve :: "libs \<Rightarrow> tool_env \<Rightarrow> string \<Rightarrow> string option \<Rightarrow> PathSecurityError + ToolExecution" where
  "Grep_resolve L E pattern path =
     map_sum id (\<lambda>root. pattern_execution L ''Grep''
         (''Searching for '' @ [CHR 0x27] @ pattern @ [CHR 0x27] @ '' in '' @
           (case path of None \<Rightarrow> workspaceDir (env_workspace E) | Some p \<Rightarrow> p))
         (Some (searchTree root)) ''file_io'' pattern)
       (search_root L E path)"

definition Glob_resolve :: "libs \<Rightarrow> tool_env \<Rightarrow> string \<Rightarrow> string option \<Rightarrow> PathSecurityError + ToolExecution" where
  "Glob_resolve L E pattern path =
     map_sum id (\<lambda>root. pattern_execution L ''Glob'' (''Searching '' @ pattern)
         (Some (searchTree root)) ''file_io'' pattern)
       (search_root L E path)"

section \<open>Bash\<close>

record BashInput =
  bi_command :: string
  bi_cwd :: "string option"
  bi_run_in_background :: bool

definition Bash_resolve :: "libs \<Rightarrow> BashInput \<Rightarrow> ToolExecution" where
  "Bash_resolve L args =
     (let command = bi_command args;
          preview = (if length command > 50 then take 50 command @ ''...'' else command)
      in pattern_execution L ''Bash''
           (if bi_run_in_background args then ''Starting background: '' @ preview else ''Running: '' @ preview)
           None ''command'' command)"

end
