(* ===== verification/Permission_Facts.thy ===== *)
theory Permission_Facts
  imports Tool_Executions
begin

text \<open>
  Facts about the permission system: what the group of policies before the mode can decide, the
  operations of a manager and of its ancestors as a step function, and that the record log
  rebuilds the manager (the interface \<open>event_sourced\<close> of the prelude).
\<close>

section \<open>Evaluation in groups\<close>

lemma evaluatePolicies_append:
  "evaluatePolicies (ps @ qs) c =
     (case evaluatePolicies ps c of Inr None \<Rightarrow> evaluatePolicies qs c | r \<Rightarrow> r)"
  by (induction ps) (auto split: sum.splits option.splits)

lemma evaluatePolicies_pass:
  "evaluatePolicies ps c = Inr None \<longleftrightarrow> (\<forall>policy \<in> set ps. policy c = Inr None)"
  by (induction ps) (auto split: sum.splits option.splits)

text \<open>The policies that run in every mode, and those that only a manual mode reaches.\<close>

definition gates :: "libs \<Rightarrow> chain \<Rightarrow> (PermissionContext \<Rightarrow> policy_outcome) list" where
  "gates L ch = [preToolCallHook ch, autoModeAskUserQuestionDeny ch, discussModeGuardDeny ch,
     toolsReadonlyDeny ch, userConfiguredDeny L ch]"

definition manual_policies :: "libs \<Rightarrow> chain \<Rightarrow> (PermissionContext \<Rightarrow> policy_outcome) list" where
  "manual_policies L ch = [userConfiguredAsk L ch, userConfiguredAllow L ch, goalStartReviewAsk ch,
     sensitiveFileAccessAsk L, gitControlPathAccessAsk L ch, defaultToolApprove,
     gitCwdWriteApprove L ch, fallbackAsk]"

lemma policies_split:
  "createPermissionDecisionPolicies L ch =
     gates L ch @ [modeApprove Auto ch, modeApprove Yolo ch, sessionApprovalHistory L ch] @ manual_policies L ch"
  by (simp add: createPermissionDecisionPolicies_def gates_def manual_policies_def)

lemmas policy_defs = preToolCallHook_def autoModeAskUserQuestionDeny_def discussModeGuardDeny_def
  toolsReadonlyDeny_def userConfiguredDeny_def modeApprove_def sessionApprovalHistory_def

definition gate_result :: "policy_outcome \<Rightarrow> bool" where
  "gate_result r \<longleftrightarrow> r = Inr None \<or> (\<exists>e. r = Inl e) \<or> (\<exists>m. r = Inr (Some (PolicyDeny (Some m))))"

lemma gate_result_simps [simp]:
  "gate_result (Inr None)" "gate_result (Inl e)" "gate_result (Inr (Some (PolicyDeny (Some m))))"
  by (simp_all add: gate_result_def)

lemma gate_result_if [intro]: "gate_result x \<Longrightarrow> gate_result y \<Longrightarrow> gate_result (if b then x else y)"
  by simp

lemma gates_give:
  "policy \<in> set (gates L ch) \<Longrightarrow> gate_result (policy c)"
  unfolding gates_def policy_defs Let_def
  by (auto split: hook_outcome.splits option.splits simp del: if_split)

lemma group_gives:
  "(\<And>policy. policy \<in> set ps \<Longrightarrow> gate_result (policy c)) \<Longrightarrow> gate_result (evaluatePolicies ps c)"
  by (induction ps) (fastforce simp: gate_result_def)+

lemma gates_outcomes: "gate_result (evaluatePolicies (gates L ch) c)"
  by (rule group_gives) (rule gates_give)

text \<open>How a manual mode comes to approve a call.\<close>

lemma evaluate_approve_Cons:
  "evaluatePolicies (policy # ps) c = Inr (Some PolicyApprove) \<longleftrightarrow>
     policy c = Inr (Some PolicyApprove) \<or> policy c = Inr None \<and> evaluatePolicies ps c = Inr (Some PolicyApprove)"
  by (auto split: sum.splits option.splits)

lemma asking_policies [simp]:
  "userConfiguredAsk L ch c \<noteq> Inr (Some PolicyApprove)"
  "goalStartReviewAsk ch c \<noteq> Inr (Some PolicyApprove)"
  "sensitiveFileAccessAsk L c \<noteq> Inr (Some PolicyApprove)"
  "gitControlPathAccessAsk L ch c \<noteq> Inr (Some PolicyApprove)"
  "fallbackAsk c \<noteq> Inr (Some PolicyApprove)"
  by (simp_all add: userConfiguredAsk_def goalStartReviewAsk_def sensitiveFileAccessAsk_def
      gitControlPathAccessAsk_def fallbackAsk_def Let_def split: option.splits)

lemma fallbackAsk_decides [simp]: "fallbackAsk c \<noteq> Inr None"
  by (simp add: fallbackAsk_def)

lemma manual_approve:
  "evaluatePolicies (manual_policies L ch) c = Inr (Some PolicyApprove) \<longleftrightarrow>
     userConfiguredAsk L ch c = Inr None \<and>
     (userConfiguredAllow L ch c = Inr (Some PolicyApprove) \<or>
      userConfiguredAllow L ch c = Inr None \<and> goalStartReviewAsk ch c = Inr None \<and>
      sensitiveFileAccessAsk L c = Inr None \<and> gitControlPathAccessAsk L ch c = Inr None \<and>
      (defaultToolApprove c = Inr (Some PolicyApprove) \<or>
       defaultToolApprove c = Inr None \<and> gitCwdWriteApprove L ch c = Inr (Some PolicyApprove)))"
  unfolding manual_policies_def evaluate_approve_Cons by simp

lemma manual_decides: "evaluatePolicies (manual_policies L ch) c \<noteq> Inr None"
  unfolding evaluatePolicies_pass by (simp add: manual_policies_def)

definition manual_result :: "policy_outcome \<Rightarrow> bool" where
  "manual_result r \<longleftrightarrow> r = Inr None \<or> r = Inr (Some PolicyApprove) \<or> (\<exists>x. r = Inr (Some (PolicyAsk x)))"

lemma manual_result_simps [simp]:
  "manual_result (Inr None)" "manual_result (Inr (Some PolicyApprove))" "manual_result (Inr (Some (PolicyAsk x)))"
  by (simp_all add: manual_result_def)

lemma manual_result_if [intro]: "manual_result x \<Longrightarrow> manual_result y \<Longrightarrow> manual_result (if b then x else y)"
  by simp

lemma manual_gives: "policy \<in> set (manual_policies L ch) \<Longrightarrow> manual_result (policy c)"
  unfolding manual_policies_def userConfiguredAsk_def userConfiguredAllow_def goalStartReviewAsk_def
    sensitiveFileAccessAsk_def gitControlPathAccessAsk_def defaultToolApprove_def gitCwdWriteApprove_def
    fallbackAsk_def Let_def
  by (auto split: option.splits simp del: if_split)

lemma manual_group: "(\<And>policy. policy \<in> set ps \<Longrightarrow> manual_result (policy c)) \<Longrightarrow> manual_result (evaluatePolicies ps c)"
  by (induction ps) (fastforce simp: manual_result_def)+

lemma manual_outcomes:
  "evaluatePolicies (manual_policies L ch) c = Inr (Some PolicyApprove) \<or>
   (\<exists>r. evaluatePolicies (manual_policies L ch) c = Inr (Some (PolicyAsk r)))"
proof -
  have "manual_result (evaluatePolicies (manual_policies L ch) c)"
    by (rule manual_group) (rule manual_gives)
  with manual_decides [of L ch c] show ?thesis by (simp add: manual_result_def)
qed

text \<open>What \<open>beforeToolCall\<close> makes of the gates, and of the rest.\<close>

lemma beforeToolCall_gates:
  "beforeToolCall L now c ch =
     (case evaluatePolicies (gates L ch) c of
        Inl e \<Rightarrow> (ch, Thrown e)
      | Inr (Some (PolicyDeny (Some m))) \<Rightarrow> (ch, Settled (Block m))
      | _ \<Rightarrow> if permission_mode ch = Auto \<or> permission_mode ch = Yolo \<or> matchSessionApprovalRule L ch c \<noteq> None
             then (ch, Settled Proceed)
             else (case evaluatePolicies (manual_policies L ch) c of
               Inl e \<Rightarrow> (ch, Thrown e)
             | Inr None \<Rightarrow> (ch, Settled Proceed)
             | Inr (Some result) \<Rightarrow> permissionPolicyResolutionToPrepare now c result ch))"
proof -
  from gates_outcomes [of L ch c] consider
      (pass) "evaluatePolicies (gates L ch) c = Inr None"
    | (throw) e where "evaluatePolicies (gates L ch) c = Inl e"
    | (deny) m where "evaluatePolicies (gates L ch) c = Inr (Some (PolicyDeny (Some m)))"
    unfolding gate_result_def by blast
  then show ?thesis
  proof cases
    case pass
    then show ?thesis
      by (auto simp: beforeToolCall_def policies_split evaluatePolicies_append modeApprove_def
          sessionApprovalHistory_def permissionPolicyResolutionToPrepare_def split: option.splits)
  qed (simp_all add: beforeToolCall_def policies_split evaluatePolicies_append
      permissionPolicyResolutionToPrepare_def)
qed

section \<open>Rules\<close>

lemma set_effectiveRules: "set (effectiveRules ch) = (\<Union>m \<in> set ch. set (pm_rules m))"
  by (induction ch) auto

lemma set_sessionPatterns:
  "set (sessionApprovalRulePatterns ch) = (\<Union>m \<in> set ch. set (localSessionApprovalRulePatterns m))"
  by (induction ch) auto

lemma first_match_None:
  "first_match isMatch c rules = None \<longleftrightarrow>
     (\<forall>rule \<in> set rules. matchPermissionRule isMatch rule (pc_toolName c) (te_matchesRule (pc_execution c)) = None)"
  by (induction rules) (auto split: option.splits)

lemma firstMatchingRule_None:
  "firstMatchingRule L ch c decision = None \<longleftrightarrow>
     (\<forall>rule \<in> set (effectiveRules ch). pr_decision rule = decision \<longrightarrow> pr_scope rule \<noteq> SessionRuntime \<longrightarrow>
        matchPermissionRule (lib_isMatch L) rule (pc_toolName c) (te_matchesRule (pc_execution c)) = None)"
proof -
  have "pr_scope rule \<in> set USER_CONFIGURED_SCOPES \<longleftrightarrow> pr_scope rule \<noteq> SessionRuntime" for rule
    by (cases "pr_scope rule") (auto simp: USER_CONFIGURED_SCOPES_def)
  then show ?thesis
    by (auto simp: firstMatchingRule_def first_match_None permission_data_def)
qed

lemma matchSession_None:
  "matchSessionApprovalRule L ch c = None \<longleftrightarrow>
     (\<forall>p \<in> set (sessionApprovalRulePatterns ch).
        matchPermissionRule (lib_isMatch L) (session_rule p) (pc_toolName c) (te_matchesRule (pc_execution c)) = None)"
  by (simp add: matchSessionApprovalRule_def first_match_None)

section \<open>Operations as a step function\<close>

text \<open>An operation of the manager at a position of the chain: the agent itself at 0, its parent at
  1, and so on.\<close>

datatype PermissionOp =
    Op_call PermissionContext
  | Op_answer PermissionContext "ApprovalResolver option" "string + ApprovalResponse"
  | Op_set_mode PermissionMode
  | Op_set_readonly bool

fun own_step :: "libs \<Rightarrow> ms \<Rightarrow> PermissionOp \<Rightarrow> chain \<Rightarrow> chain" where
  "own_step L now (Op_call c) ch = fst (beforeToolCall L now c ch)"
| "own_step L now (Op_answer c resolver answer) ch = fst (answerApproval now c resolver answer ch)"
| "own_step L now (Op_set_mode mode) ch = setMode now mode ch"
| "own_step L now (Op_set_readonly b) ch = setToolsReadonly b ch"

type_synonym permission_event = "nat \<times> libs \<times> ms \<times> PermissionOp"

fun perm_step :: "chain \<Rightarrow> permission_event \<Rightarrow> chain" where
  "perm_step ch (k, L, now, x) = take k ch @ (if drop k ch = [] then [] else own_step L now x (drop k ch))"

text \<open>What no operation touches, and how the two durable parts change.\<close>

definition own_frame :: "chain \<Rightarrow> chain \<Rightarrow> bool" where
  "own_frame ch ch' \<longleftrightarrow> (ch = [] \<and> ch' = [] \<or> ch \<noteq> [] \<and> ch' \<noteq> [] \<and> tl ch' = tl ch \<and>
     pm_facts (hd ch') = pm_facts (hd ch) \<and> pm_rules (hd ch') = pm_rules (hd ch) \<and>
     live (pm_agent (hd ch')) = live (pm_agent (hd ch)) \<and>
     set (localSessionApprovalRulePatterns (hd ch)) \<subseteq> set (localSessionApprovalRulePatterns (hd ch')))"

lemma own_frame_refl [simp]: "own_frame ch ch"
  by (simp add: own_frame_def)

lemma own_frame_trans: "own_frame a b \<Longrightarrow> own_frame b c \<Longrightarrow> own_frame a c"
  by (auto simp: own_frame_def)

named_theorems frame_rules \<open>operations keep what \<open>own_frame\<close> lists\<close>

lemmas chain_ops = on_own_def permission_status_def setMode_def setToolsReadonly_def recordApprovalResult_def

lemma own_frame_setMode [frame_rules]: "own_frame ch (setMode now mode ch)"
  by (cases ch) (simp_all add: own_frame_def chain_ops)

lemma own_frame_readonly [frame_rules]: "own_frame ch (setToolsReadonly b ch)"
  by (cases ch) (simp_all add: own_frame_def chain_ops)

lemma own_frame_record [frame_rules]: "own_frame ch (recordApprovalResult now r ch)"
  by (cases ch) (auto simp: own_frame_def chain_ops Let_def split: option.splits)

lemma own_frame_goalStart [frame_rules]: "own_frame ch (resolveGoalStart now r ch)"
  by (auto simp: resolveGoalStart_def intro: frame_rules split: option.splits)

lemma answer_cases:
  obtains (none) "fst (answerApproval now c resolver answer ch) = ch" and "isl answer"
  | (plain) response where "answer = Inr response"
      and "fst (answerApproval now c resolver answer ch) = recordApprovalResult now (approval_record c response) ch"
  | (goal) response where "answer = Inr response"
      and "fst (answerApproval now c resolver answer ch) =
        resolveGoalStart now response (recordApprovalResult now (approval_record c response) ch)"
  by (cases answer; cases resolver) (auto simp: answerApproval_def Let_def split: ApprovalResolver.splits)

lemma own_frame_answer [frame_rules]: "own_frame ch (fst (answerApproval now c resolver answer ch))"
  by (cases rule: answer_cases [of now c resolver answer ch])
    (auto intro: frame_rules own_frame_trans)

lemma beforeToolCall_cases:
  "fst (beforeToolCall L now c ch) = ch \<or>
   (\<exists>resolver response. fst (beforeToolCall L now c ch) = fst (answerApproval now c resolver (Inr response) ch))"
  by (auto simp: beforeToolCall_def permissionPolicyResolutionToPrepare_def requestToolApproval_def
      split: sum.splits option.splits PermissionPolicyResult.splits)

lemma own_frame_call [frame_rules]: "own_frame ch (fst (beforeToolCall L now c ch))"
  using beforeToolCall_cases [of L now c ch] by (auto intro: frame_rules)

lemma own_frame_step: "own_frame ch (own_step L now x ch)"
  by (cases x) (auto intro: frame_rules)

section \<open>Replay\<close>

text \<open>The durable view of a manager: its own mode and its grants for the session.\<close>

type_synonym permission_view = "(PermissionMode option \<times> string list) option"

definition plog :: "chain \<Rightarrow> (PermissionRecord \<times> ms) list" where
  "plog ch = (case ch of [] \<Rightarrow> [] | m # ps \<Rightarrow> logged (pm_agent m))"

definition perm_view :: "chain \<Rightarrow> permission_view" where
  "perm_view ch = (case ch of [] \<Rightarrow> None | m # ps \<Rightarrow> Some (modeOverride m, localSessionApprovalRulePatterns m))"

definition perm_inv :: "chain \<Rightarrow> bool" where
  "perm_inv ch \<longleftrightarrow> ch \<noteq> [] \<and> live (pm_agent (hd ch))"

text \<open>The grant that an approval result leaves, if any.\<close>

definition granted :: "PermissionApprovalResultRecord \<Rightarrow> string option" where
  "granted r = (if ar_decision (rec_result r) = Approved \<and> ar_session (rec_result r)
     then rec_sessionApprovalRule r else None)"

fun pview_step :: "permission_view \<Rightarrow> PermissionRecord \<Rightarrow> permission_view" where
  "pview_step v (R_set_mode mode) = map_option (\<lambda>(md, ps). (Some mode, ps)) v"
| "pview_step v (R_record_approval_result r) =
     map_option (\<lambda>(md, ps). (md, case granted r of None \<Rightarrow> ps | Some p \<Rightarrow> oset_add p ps)) v"

lemma view_setMode: "perm_view (setMode now mode ch) = pview_step (perm_view ch) (R_set_mode mode)"
  by (cases ch) (simp_all add: perm_view_def chain_ops)

lemma view_record:
  "perm_view (recordApprovalResult now r ch) = pview_step (perm_view ch) (R_record_approval_result r)"
  by (cases ch) (auto simp: perm_view_def chain_ops granted_def Let_def split: option.splits)

lemma view_restoring [simp]: "perm_view (restoring_at t ch) = perm_view ch"
  by (cases ch) (simp_all add: perm_view_def restoring_at_def on_own_def)

lemma view_restore: "perm_view (restorePermission ch (r, t)) = pview_step (perm_view ch) r"
  by (cases r) (simp_all add: view_setMode view_record)

lemma view_restores:
  "perm_view (foldl restorePermission ch rs) = foldl pview_step (perm_view ch) (map fst rs)"
  by (induction rs arbitrary: ch) (auto simp: view_restore)

definition perm_written :: "chain \<Rightarrow> chain \<Rightarrow> bool" where
  "perm_written ch ch' \<longleftrightarrow> perm_inv ch' \<and>
     (\<exists>new. plog ch' = plog ch @ new \<and> foldl pview_step (perm_view ch) (map fst new) = perm_view ch')"

lemma perm_written_refl [simp]: "perm_inv ch \<Longrightarrow> perm_written ch ch"
  by (auto simp: perm_written_def)

lemma perm_written_trans: "perm_written a b \<Longrightarrow> perm_written b c \<Longrightarrow> perm_written a c"
  unfolding perm_written_def by (metis append.assoc foldl_append map_append)

named_theorems perm_written_rules \<open>operations write records that rebuild what they do\<close>

lemma perm_written_setMode [perm_written_rules]: "perm_inv ch \<Longrightarrow> perm_written ch (setMode now mode ch)"
  unfolding perm_written_def
  by (cases ch; intro conjI exI [of _ "[(R_set_mode mode, now)]"])
    (simp_all add: perm_inv_def plog_def perm_view_def chain_ops)

lemma perm_written_record [perm_written_rules]:
  "perm_inv ch \<Longrightarrow> perm_written ch (recordApprovalResult now r ch)"
  unfolding perm_written_def
  by (cases ch; intro conjI exI [of _ "[(R_record_approval_result r, now)]"])
    (auto simp: perm_inv_def plog_def perm_view_def chain_ops granted_def Let_def split: option.splits)

lemma perm_written_readonly [perm_written_rules]: "perm_inv ch \<Longrightarrow> perm_written ch (setToolsReadonly b ch)"
  unfolding perm_written_def
  by (cases ch; intro conjI exI [of _ "[]"]) (simp_all add: perm_inv_def plog_def perm_view_def chain_ops)

lemma perm_written_inv: "perm_written ch ch' \<Longrightarrow> perm_inv ch'"
  by (simp add: perm_written_def)

lemma perm_written_goalStart [perm_written_rules]:
  "perm_inv ch \<Longrightarrow> perm_written ch (resolveGoalStart now r ch)"
  by (auto simp: resolveGoalStart_def intro: perm_written_rules split: option.splits)

lemma perm_written_answer [perm_written_rules]:
  "perm_inv ch \<Longrightarrow> perm_written ch (fst (answerApproval now c resolver answer ch))"
proof -
  assume inv: "perm_inv ch"
  have rec: "perm_written ch (recordApprovalResult now r ch)" for r
    using inv by (rule perm_written_record)
  show ?thesis
    by (cases rule: answer_cases [of now c resolver answer ch])
      (simp_all add: inv rec perm_written_trans [OF rec perm_written_goalStart [OF perm_written_inv [OF rec]]])
qed

lemma perm_written_call [perm_written_rules]:
  "perm_inv ch \<Longrightarrow> perm_written ch (fst (beforeToolCall L now c ch))"
  using beforeToolCall_cases [of L now c ch] by (auto intro: perm_written_rules)

lemma perm_written_own: "perm_inv ch \<Longrightarrow> perm_written ch (own_step L now x ch)"
  by (cases x) (auto intro: perm_written_rules)

lemma perm_written_parent:
  "ch' \<noteq> [] \<Longrightarrow> ch \<noteq> [] \<Longrightarrow> hd ch' = hd ch \<Longrightarrow> perm_inv ch \<Longrightarrow> perm_written ch ch'"
  by (cases ch; cases ch') (auto simp: perm_written_def perm_inv_def plog_def perm_view_def intro: exI [of _ "[]"])

lemma perm_step_written: "perm_inv ch \<Longrightarrow> perm_written ch (perm_step ch e)"
proof -
  assume inv: "perm_inv ch"
  obtain k L now x where e: "e = (k, L, now, x)" by (cases e)
  obtain m ps where ch: "ch = m # ps" using inv by (cases ch) (auto simp: perm_inv_def)
  show ?thesis
  proof (cases k)
    case 0
    with inv show ?thesis by (simp add: e ch perm_written_own)
  next
    case (Suc j)
    with inv show ?thesis by (intro perm_written_parent) (simp_all add: e ch)
  qed
qed

interpretation permission: invariant_component perm_step perm_inv
  by unfold_locales (rule perm_written_inv [OF perm_step_written])

interpretation permission_log: event_sourced perm_step perm_inv plog perm_view restorePermission perm_view
proof
  fix s q e
  assume inv: "perm_inv s" and eq: "perm_view q = perm_view s"
  from perm_step_written [OF inv, of e] obtain new where
    "plog (perm_step s e) = plog s @ new"
    "foldl pview_step (perm_view s) (map fst new) = perm_view (perm_step s e)"
    by (auto simp: perm_written_def)
  then show "\<exists>new. plog (perm_step s e) = plog s @ new \<and>
      perm_view (foldl restorePermission q new) = perm_view (perm_step s e)"
    by (auto simp: view_restores eq)
qed

section \<open>Grants persist\<close>

lemma own_frame_patterns:
  "own_frame ch ch' \<Longrightarrow> set (sessionApprovalRulePatterns ch) \<subseteq> set (sessionApprovalRulePatterns ch')"
  by (cases ch; cases ch') (auto simp: own_frame_def)

lemma step_keeps_patterns:
  "set (sessionApprovalRulePatterns ch) \<subseteq> set (sessionApprovalRulePatterns (perm_step ch e))"
proof -
  obtain k L now x where e: "e = (k, L, now, x)" by (cases e)
  have app: "set (sessionApprovalRulePatterns (as @ bs)) =
      set (sessionApprovalRulePatterns as) \<union> set (sessionApprovalRulePatterns bs)" for as bs
    by (auto simp: set_sessionPatterns)
  have "set (sessionApprovalRulePatterns (drop k ch)) \<subseteq>
      set (sessionApprovalRulePatterns (if drop k ch = [] then [] else own_step L now x (drop k ch)))"
    using own_frame_patterns [OF own_frame_step] by (cases "drop k ch = []") simp_all
  then have "set (sessionApprovalRulePatterns (take k ch @ drop k ch)) \<subseteq>
      set (sessionApprovalRulePatterns (perm_step ch e))"
    unfolding e perm_step.simps app by blast
  then show ?thesis by simp
qed

lemma run_keeps_patterns:
  "set (sessionApprovalRulePatterns ch) \<subseteq> set (sessionApprovalRulePatterns (run_ops perm_step ch es))"
proof (induction es arbitrary: ch)
  case (Cons e es)
  from order_trans [OF step_keeps_patterns Cons.IH] show ?case by simp
qed simp

lemma answer_grants:
  assumes "ch \<noteq> []" and "ar_decision response = Approved" and "ar_session response"
  shows "te_approvalRule (pc_execution c) \<in>
     set (sessionApprovalRulePatterns (fst (answerApproval now c resolver (Inr response) ch)))"
proof -
  let ?ch1 = "recordApprovalResult now (approval_record c response) ch"
  have "te_approvalRule (pc_execution c) \<in> set (sessionApprovalRulePatterns ?ch1)"
    using assms by (cases ch) (simp_all add: recordApprovalResult_def on_own_def Let_def approval_record_def)
  then show ?thesis
    using own_frame_patterns [OF own_frame_goalStart [of ?ch1 now response]]
    by (cases rule: answer_cases [of now c resolver "Inr response" ch]) auto
qed

end
