(* ===== verification/Permission_Properties.thy ===== *)
theory Permission_Properties
  imports Permission_Facts
begin

text \<open>
  The properties of the permission system. Their witnesses run on \<open>posix_lib\<close> and \<open>literal_glob\<close>,
  one concrete choice of the functions that other packages provide: paths are sequences of
  components, and a glob matches the string it spells when its backslashes are removed.
\<close>

section \<open>Concrete functions for the witnesses\<close>

definition path_components :: "string \<Rightarrow> string list" where
  "path_components p = foldl push_segment [] (split_on (\<lambda>c. c = CHR ''/'') p)"

definition render_path :: "string list \<Rightarrow> string" where
  "render_path ws = ''/'' @ join_with ''/'' ws"

definition posix_lib :: path_lib where
  "posix_lib = \<lparr>
     pathe_normalize = (\<lambda>p. if prefix ''/'' p then render_path (path_components p)
                            else join_with ''/'' (path_components p)),
     pathe_isAbsolute = prefix ''/'',
     pathe_resolve = (\<lambda>d p. render_path (path_components (d @ ''/'' @ p))),
     pathe_join = (\<lambda>d p. render_path (path_components (d @ ''/'' @ p))),
     pathe_basename = (\<lambda>p. last ([] # path_components p)),
     pathe_dirname = (\<lambda>p. render_path (butlast (path_components p))),
     pathe_root = (\<lambda>p. ''/''), default_path_class = Posix, process_cwd = ''/'',
     win32_relative = (\<lambda>a b. b)\<rparr>"

definition literal_glob :: glob_lib where
  "literal_glob value pattern nocase \<longleftrightarrow> unescape pattern = value"

definition demo_libs :: libs where
  "demo_libs = \<lparr>lib_path = posix_lib, lib_isMatch = literal_glob\<rparr>"

text \<open>The mask of \<open>isMode\<close> by division, so that it can be evaluated in a proof.\<close>

lemma mask_push: "(61440 :: nat) = push_bit 12 (mask 4)"
  by (simp add: push_bit_eq_mult mask_eq_exp_minus_1)

lemma isMode_div [code]: "isMode stMode mode \<longleftrightarrow> stMode div 4096 mod 16 * 4096 = mode"
proof -
  have "and stMode 61440 = push_bit 12 (take_bit 4 (drop_bit 12 stMode))"
    unfolding mask_push by (rule bit_eqI) (auto simp: bit_simps)
  then show ?thesis
    by (simp add: isMode_def S_IFMT_def push_bit_eq_mult take_bit_eq_mod drop_bit_eq_div)
qed

text \<open>A repository at \<open>/ws\<close>.\<close>

definition demo_fs :: kaos_fs where
  "demo_fs = \<lparr>fs_stMode = (\<lambda>p. if p = ''/ws/.git'' then Some (S_IFDIR + 493) else None),
     fs_readText = (\<lambda>p. None)\<rparr>"

definition demo_env :: tool_env where
  "demo_env = \<lparr>env_pathClass = Posix, env_home = ''/home/u'',
     env_workspace = \<lparr>workspaceDir = ''/ws'', additionalDirs = []\<rparr>\<rparr>"

definition demo_facts :: agent_facts where
  "demo_facts = \<lparr>af_type = MainAgent, af_hasModel = True, af_hasRpc = True, af_discussActive = False,
     af_teamWriteLocked = False, af_coderWriteEnabled = False, af_cwd = ''/ws'',
     af_additionalDirs = [], af_pathClass = Posix, af_fs = demo_fs\<rparr>"

definition new_manager :: "agent_facts \<Rightarrow> PermissionRule list \<Rightarrow> PermissionManager" where
  "new_manager f rules = \<lparr>
     pm_agent = \<lparr>ag_restoring = None, ag_persistence = True, ag_metadataInitialized = False, ag_wire = [],
       ag_events = [], ag_replay = new_replay_builder None\<rparr>,
     pm_facts = f, pm_rules = rules, modeOverride = None, localSessionApprovalRulePatterns = [],
     toolsReadonly = False\<rparr>"

definition demo_call :: "string \<Rightarrow> ToolExecution \<Rightarrow> PermissionContext" where
  "demo_call toolName x = \<lparr>pc_turnId = 1, pc_toolCallId = ''c1'', pc_toolName = toolName,
     pc_execution = x, pc_hooks = HooksPass, pc_abort = None\<rparr>"

definition the_right :: "'a + 'b \<Rightarrow> 'b" where
  "the_right x = (case x of Inr b \<Rightarrow> b)"

lemma new_manager_sel [simp]:
  "pm_facts (new_manager f rules) = f" "pm_rules (new_manager f rules) = rules"
  "modeOverride (new_manager f rules) = None" "localSessionApprovalRulePatterns (new_manager f rules) = []"
  "toolsReadonly (new_manager f rules) = False"
  by (simp_all add: new_manager_def)

lemma demo_call_sel [simp]:
  "pc_toolName (demo_call n x) = n" "pc_execution (demo_call n x) = x"
  "pc_hooks (demo_call n x) = HooksPass" "pc_abort (demo_call n x) = None"
  by (simp_all add: demo_call_def)

lemma demo_facts_sel [simp]:
  "af_discussActive demo_facts = False" "af_teamWriteLocked demo_facts = False"
  "af_cwd demo_facts = ''/ws''" "af_additionalDirs demo_facts = []" "af_pathClass demo_facts = Posix"
  "af_fs demo_facts = demo_fs" "af_hasRpc demo_facts = True"
  by (simp_all add: demo_facts_def)

lemma demo_libs_sel [simp]: "lib_path demo_libs = posix_lib" "lib_isMatch demo_libs = literal_glob"
  by (simp_all add: demo_libs_def)


section \<open>Deny rules\<close>

text \<open>
  C24: A deny rule always blocks. If the agent or any of its ancestors holds a configured rule that
  denies and that matches the call, the call is blocked (or a hook fails and the call with it): in
  every mode, before any grant or allow rule, without asking, and without a change of state.
\<close>

theorem deny_rule_always_blocks:
  assumes "m \<in> set ch" and "rule \<in> set (pm_rules m)"
    and "pr_decision rule = RuleDeny" and "pr_scope rule \<noteq> SessionRuntime"
    and "matchPermissionRule (lib_isMatch L) rule (pc_toolName c) (te_matchesRule (pc_execution c)) \<noteq> None"
  shows "(\<exists>msg. beforeToolCall L now c ch = (ch, Settled (Block msg)))
     \<or> (\<exists>e. beforeToolCall L now c ch = (ch, Thrown e))"
proof -
  have "rule \<in> set (effectiveRules ch)" using assms(1,2) by (auto simp: set_effectiveRules)
  with assms(3-5) have "firstMatchingRule L ch c RuleDeny \<noteq> None"
    unfolding firstMatchingRule_None by metis
  then have "userConfiguredDeny L ch c \<noteq> Inr None"
    by (auto simp: userConfiguredDeny_def)
  then have "evaluatePolicies (gates L ch) c \<noteq> Inr None"
    unfolding evaluatePolicies_pass by (simp add: gates_def)
  then show ?thesis
    using gates_outcomes [of L ch c] by (auto simp: beforeToolCall_gates gate_result_def)
qed

text \<open>A child agent in \<open>auto\<close> mode is stopped by the rule of its parent.\<close>

theorem deny_rule_always_blocks_witness:
  "snd (beforeToolCall demo_libs 0 (demo_call ''Bash'' (Bash_resolve demo_libs
       \<lparr>bi_command = ''rm x'', bi_cwd = None, bi_run_in_background = False\<rparr>))
     [(new_manager demo_facts [])\<lparr>modeOverride := Some Auto\<rparr>,
      new_manager demo_facts [\<lparr>pr_decision = RuleDeny, pr_scope = UserScope, pr_pattern = ''Bash(rm x)'',
        pr_reason = None\<rparr>]]) \<noteq> Settled Proceed"
proof -
  let ?r = "\<lparr>pr_decision = RuleDeny, pr_scope = UserScope, pr_pattern = ''Bash(rm x)'', pr_reason = None\<rparr>"
  let ?c = "demo_call ''Bash'' (Bash_resolve demo_libs
    \<lparr>bi_command = ''rm x'', bi_cwd = None, bi_run_in_background = False\<rparr>)"
  let ?p = "new_manager demo_facts [?r]"
  let ?ch = "[(new_manager demo_facts [])\<lparr>modeOverride := Some Auto\<rparr>, ?p]"
  have "matchPermissionRule (lib_isMatch demo_libs) ?r (pc_toolName ?c) (te_matchesRule (pc_execution ?c)) \<noteq> None"
    by code_simp
  from deny_rule_always_blocks [of ?p ?ch ?r, OF _ _ _ _ this, of 0] show ?thesis
    by (auto simp: new_manager_def)
qed

section \<open>Modes that never ask\<close>

text \<open>
  In \<open>auto\<close> and in \<open>yolo\<close> mode a prompt is never opened and nothing changes; a call goes
  ahead exactly when no hook blocks or fails, it is not a question in \<open>auto\<close> mode, the write locks
  of a discussion and of \<open>readonly\<close> do not apply, and no deny rule matches.
\<close>

theorem auto_and_yolo_never_ask:
  assumes "permission_mode ch = Auto \<or> permission_mode ch = Yolo"
  shows "fst (beforeToolCall L now c ch) = ch \<and> (\<forall>r. snd (beforeToolCall L now c ch) \<noteq> Asking r) \<and>
    (snd (beforeToolCall L now c ch) = Settled Proceed \<longleftrightarrow>
       pc_hooks c = HooksPass \<and> pc_abort c = None \<and>
       \<not> (permission_mode ch = Auto \<and> pc_toolName c = ''AskUserQuestion'') \<and>
       \<not> ((af_discussActive (pm_facts (own ch)) \<or> af_teamWriteLocked (pm_facts (own ch))) \<and>
          pc_toolName c \<in> set DISCUSS_DENIED_TOOLS) \<and>
       \<not> (toolsReadonly (own ch) \<and> pc_toolName c \<in> set READONLY_DENIED_TOOLS \<and>
          \<not> (af_coderWriteEnabled (pm_facts (own ch)) \<and> af_type (pm_facts (own ch)) \<noteq> MainAgent)) \<and>
       firstMatchingRule L ch c RuleDeny = None)"
proof -
  have "evaluatePolicies (gates L ch) c = Inr None \<longleftrightarrow>
      preToolCallHook ch c = Inr None \<and> autoModeAskUserQuestionDeny ch c = Inr None \<and>
      discussModeGuardDeny ch c = Inr None \<and> toolsReadonlyDeny ch c = Inr None \<and>
      userConfiguredDeny L ch c = Inr None"
    unfolding evaluatePolicies_pass by (simp add: gates_def)
  moreover have "preToolCallHook ch c = Inr None \<longleftrightarrow> pc_hooks c = HooksPass \<and> pc_abort c = None"
    by (auto simp: preToolCallHook_def split: hook_outcome.splits option.splits)
  moreover have "autoModeAskUserQuestionDeny ch c = Inr None \<longleftrightarrow>
      \<not> (permission_mode ch = Auto \<and> pc_toolName c = ''AskUserQuestion'')"
    by (simp add: autoModeAskUserQuestionDeny_def)
  moreover have "discussModeGuardDeny ch c = Inr None \<longleftrightarrow>
      \<not> ((af_discussActive (pm_facts (own ch)) \<or> af_teamWriteLocked (pm_facts (own ch))) \<and>
          pc_toolName c \<in> set DISCUSS_DENIED_TOOLS)"
    by (simp add: discussModeGuardDeny_def Let_def)
  moreover have "toolsReadonlyDeny ch c = Inr None \<longleftrightarrow>
      \<not> (toolsReadonly (own ch) \<and> pc_toolName c \<in> set READONLY_DENIED_TOOLS \<and>
          \<not> (af_coderWriteEnabled (pm_facts (own ch)) \<and> af_type (pm_facts (own ch)) \<noteq> MainAgent))"
    by (simp add: toolsReadonlyDeny_def Let_def)
  moreover have "userConfiguredDeny L ch c = Inr None \<longleftrightarrow> firstMatchingRule L ch c RuleDeny = None"
    by (simp add: userConfiguredDeny_def split: option.splits)
  moreover from gates_outcomes [of L ch c] assms
  have "fst (beforeToolCall L now c ch) = ch \<and> (\<forall>r. snd (beforeToolCall L now c ch) \<noteq> Asking r) \<and>
      (snd (beforeToolCall L now c ch) = Settled Proceed \<longleftrightarrow> evaluatePolicies (gates L ch) c = Inr None)"
    by (auto simp: beforeToolCall_gates gate_result_def)
  ultimately show ?thesis by simp
qed

theorem auto_and_yolo_never_ask_witness:
  "snd (beforeToolCall demo_libs 0 (demo_call ''Bash'' (Bash_resolve demo_libs
       \<lparr>bi_command = ''ls'', bi_cwd = None, bi_run_in_background = False\<rparr>))
     [(new_manager demo_facts [])\<lparr>modeOverride := Some Yolo\<rparr>]) = Settled Proceed"
proof -
  let ?c = "demo_call ''Bash'' (Bash_resolve demo_libs
    \<lparr>bi_command = ''ls'', bi_cwd = None, bi_run_in_background = False\<rparr>)"
  let ?ch = "[(new_manager demo_facts [])\<lparr>modeOverride := Some Yolo\<rparr>]"
  have "permission_mode ?ch = Auto \<or> permission_mode ?ch = Yolo" by simp
  from auto_and_yolo_never_ask [OF this, of demo_libs 0 ?c] show ?thesis
    by (simp add: demo_call_def new_manager_def demo_facts_def firstMatchingRule_None)
qed

section \<open>Writes that go unasked\<close>

text \<open>
  C25: What a \<open>Write\<close> or \<open>Edit\<close> may do without being asked about. In \<open>manual\<close> mode, at an agent with
  an approval surface, when no grant for the session and no allow rule matches the call: if it goes
  ahead without a prompt, then the working directory lies in a git work tree, the call writes
  something, every file it writes is inside the workspace, none of its files is sensitive or
  belongs to git itself, and nothing changes. (With a matching grant or allow rule, or where nobody
  can be asked, the call can go ahead elsewhere.)
\<close>

theorem unasked_writes_stay_in_repository:
  assumes "pc_toolName c = ''Write'' \<or> pc_toolName c = ''Edit''"
    and "permission_mode ch = Manual" and "af_hasRpc (pm_facts (own ch))"
    and "matchSessionApprovalRule L ch c = None" and "firstMatchingRule L ch c RuleAllow = None"
    and "beforeToolCall L now c ch = (ch', Settled Proceed)"
  shows "ch' = ch \<and> writeFileAccesses c \<noteq> [] \<and>
     (\<exists>marker. findGitWorkTreeMarker (lib_path L) (af_fs (pm_facts (own ch))) (af_cwd (pm_facts (own ch))) = Some marker \<and>
       (\<forall>a \<in> set (fileAccesses c). \<not> isSensitiveFile (lib_path L) (fa_path a) \<and>
          \<not> hasGitPathComponent (lib_path L) (fa_path a) (af_cwd (pm_facts (own ch))) Posix \<and>
          \<not> isGitControlPath (lib_path L) (fa_path a) marker Posix) \<and>
       (\<forall>a \<in> set (writeFileAccesses c). isWithinWorkspace (lib_path L) (fa_path a)
          \<lparr>workspaceDir = af_cwd (pm_facts (own ch)), additionalDirs = af_additionalDirs (pm_facts (own ch))\<rparr> Posix))"
proof -
  have ask: "permissionPolicyResolutionToPrepare now c (PolicyAsk r) ch = (ch, Asking r)" for r
    using assms(3) by (simp add: permissionPolicyResolutionToPrepare_def requestToolApproval_def)
  have "evaluatePolicies (gates L ch) c = Inr None"
    using assms(6) gates_outcomes [of L ch c] by (auto simp: beforeToolCall_gates gate_result_def)
  with assms(2,4,6) have "(case evaluatePolicies (manual_policies L ch) c of
        Inl e \<Rightarrow> (ch, Thrown e) | Inr None \<Rightarrow> (ch, Settled Proceed)
      | Inr (Some result) \<Rightarrow> permissionPolicyResolutionToPrepare now c result ch) = (ch', Settled Proceed)"
    by (simp add: beforeToolCall_gates)
  with manual_outcomes [of L ch c]
  have approve: "evaluatePolicies (manual_policies L ch) c = Inr (Some PolicyApprove)" and same: "ch' = ch"
    by (auto simp: ask permissionPolicyResolutionToPrepare_def [of _ _ PolicyApprove])
  have "userConfiguredAllow L ch c = Inr None" "defaultToolApprove c \<noteq> Inr (Some PolicyApprove)"
    using assms(1,5) by (auto simp: userConfiguredAllow_def defaultToolApprove_def DEFAULT_APPROVE_TOOLS_def)
  with approve have quiet: "sensitiveFileAccessAsk L c = Inr None" "gitControlPathAccessAsk L ch c = Inr None"
    and git: "gitCwdWriteApprove L ch c = Inr (Some PolicyApprove)"
    unfolding manual_approve by simp_all
  from git obtain marker where
    marker: "findGitWorkTreeMarker (lib_path L) (af_fs (pm_facts (own ch))) (af_cwd (pm_facts (own ch))) = Some marker"
    and posix: "af_pathClass (pm_facts (own ch)) = Posix" and cwd: "af_cwd (pm_facts (own ch)) \<noteq> []"
    and ne: "writeFileAccesses c \<noteq> []"
    and ws: "\<forall>a \<in> set (writeFileAccesses c). isWithinWorkspace (lib_path L) (fa_path a)
          \<lparr>workspaceDir = af_cwd (pm_facts (own ch)), additionalDirs = af_additionalDirs (pm_facts (own ch))\<rparr> Posix"
    by (auto simp: gitCwdWriteApprove_def Let_def split: option.splits if_splits)
  have "fileAccesses c \<noteq> []" using ne by (auto simp: writeFileAccesses_def)
  with quiet cwd posix marker have "\<forall>a \<in> set (fileAccesses c). \<not> isSensitiveFile (lib_path L) (fa_path a) \<and>
          \<not> hasGitPathComponent (lib_path L) (fa_path a) (af_cwd (pm_facts (own ch))) Posix \<and>
          \<not> isGitControlPath (lib_path L) (fa_path a) marker Posix"
    by (auto simp: sensitiveFileAccessAsk_def gitControlPathAccessAsk_def Let_def find_None_iff
        split: option.splits if_splits)
  with marker ne ws same show ?thesis by blast
qed

theorem unasked_writes_stay_in_repository_witness:
  "\<not> isSensitiveFile posix_lib ''/ws/src/a.ts'' \<and> isWithinWorkspace posix_lib ''/ws/src/a.ts'' (env_workspace demo_env) Posix"
proof -
  let ?x = "the_right (Write_resolve demo_libs demo_env ''src/a.ts'')"
  let ?c = "demo_call ''Write'' ?x"
  let ?ch = "[new_manager demo_facts []]"
  have acc: "fileAccesses ?c = [\<lparr>fa_operation = OpWrite, fa_path = ''/ws/src/a.ts'', fa_recursive = None\<rparr>]"
    "writeFileAccesses ?c = [\<lparr>fa_operation = OpWrite, fa_path = ''/ws/src/a.ts'', fa_recursive = None\<rparr>]"
    by code_simp+
  have no_grant: "matchSessionApprovalRule demo_libs ?ch ?c = None" by (simp add: matchSession_None new_manager_def)
  have no_allow: "firstMatchingRule demo_libs ?ch ?c RuleAllow = None"
    by (simp add: firstMatchingRule_None new_manager_def)
  have no_rule: "firstMatchingRule demo_libs ?ch ?c d = None" for d
    by (simp add: firstMatchingRule_None new_manager_def)
  have fs: "findGitWorkTreeMarker posix_lib demo_fs ''/ws'' = Some \<lparr>dotGitPath = ''/ws/.git'', controlDirPath = ''/ws/.git''\<rparr>"
    "\<not> hasGitPathComponent posix_lib ''/ws/src/a.ts'' ''/ws'' Posix"
    "\<not> isWithinDirectory posix_lib ''/ws/src/a.ts'' ''/ws/.git'' Posix"
    "isWithinDirectory posix_lib ''/ws/src/a.ts'' ''/ws'' Posix"
    "\<not> isSensitiveFile posix_lib ''/ws/src/a.ts''"
    by code_simp+
  have "evaluatePolicies (gates demo_libs ?ch) ?c = Inr None"
    unfolding evaluatePolicies_pass
    by (simp add: gates_def policy_defs no_rule)
  moreover have "evaluatePolicies (manual_policies demo_libs ?ch) ?c = Inr (Some PolicyApprove)"
    unfolding manual_approve userConfiguredAsk_def userConfiguredAllow_def no_rule sensitiveFileAccessAsk_def
      gitControlPathAccessAsk_def gitCwdWriteApprove_def acc
    by (simp add: goalStartReviewAsk_def defaultToolApprove_def DEFAULT_APPROVE_TOOLS_def fs isGitControlPath_def isWithinWorkspace_def)
  ultimately have "beforeToolCall demo_libs 0 ?c ?ch = (?ch, Settled Proceed)"
    using no_grant by (simp add: beforeToolCall_gates permissionPolicyResolutionToPrepare_def)
  from unasked_writes_stay_in_repository [OF _ _ _ no_grant no_allow this] show ?thesis
    unfolding acc by (auto simp: demo_env_def)
qed

section \<open>Grants for the session\<close>

text \<open>
  C26: A grant for the session is remembered. Once the user has approved a call for the session,
  then whatever calls, answers and settings follow, a later call of the same tool that the granted
  pattern matches is never asked about again, neither at this agent nor at any agent below it.
\<close>

theorem session_grant_is_remembered:
  assumes "ch \<noteq> []" and "ar_decision response = Approved" and "ar_session response"
    and "matchPermissionRule (lib_isMatch L) (session_rule (te_approvalRule (pc_execution c)))
           (pc_toolName c') (te_matchesRule (pc_execution c')) \<noteq> None"
  shows "snd (beforeToolCall L now' c' (below @
     run_ops perm_step (fst (answerApproval now c resolver (Inr response) ch)) es)) \<noteq> Asking r"
proof -
  let ?run = "run_ops perm_step (fst (answerApproval now c resolver (Inr response) ch)) es"
  have "te_approvalRule (pc_execution c) \<in> set (sessionApprovalRulePatterns ?run)"
    using answer_grants [OF assms(1-3)] run_keeps_patterns by blast
  then have "te_approvalRule (pc_execution c) \<in> set (sessionApprovalRulePatterns (below @ ?run))"
    by (auto simp: set_sessionPatterns)
  with assms(4) have "matchSessionApprovalRule L (below @ ?run) c' \<noteq> None"
    unfolding matchSession_None by metis
  then show ?thesis
    using gates_outcomes [of L "below @ ?run" c'] by (auto simp: beforeToolCall_gates gate_result_def)
qed

definition session_yes :: ApprovalResponse where
  "session_yes = \<lparr>ar_decision = Approved, ar_session = True, ar_feedback = None, ar_selectedLabel = None\<rparr>"

theorem session_grant_is_remembered_witness:
  "snd (beforeToolCall demo_libs 9 (demo_call ''Bash'' (Bash_resolve demo_libs
        \<lparr>bi_command = ''make *'', bi_cwd = Some ''/ws/doc'', bi_run_in_background = True\<rparr>))
     ([new_manager demo_facts []] @ run_ops perm_step
       (fst (answerApproval 5 (demo_call ''Bash'' (Bash_resolve demo_libs
          \<lparr>bi_command = ''make *'', bi_cwd = None, bi_run_in_background = False\<rparr>)) None
          (Inr session_yes) [new_manager demo_facts []])) [(0, demo_libs, 7, Op_set_readonly True)])) \<noteq> Asking None"
  by (rule session_grant_is_remembered) (code_simp | simp add: session_yes_def)+

text \<open>
  C27: A manager survives a restart. Whatever is asked, answered and set at the agent and at its
  ancestors, restoring the agent's record log into a fresh manager gives it the mode set and the
  grants given before, in their order.
\<close>

theorem permission_log_rebuilds:
  "perm_view (foldl restorePermission (new_manager f' rules' # parents')
       (plog (run_ops perm_step (new_manager f rules # parents) es)))
   = perm_view (run_ops perm_step (new_manager f rules # parents) es)"
  by (rule permission_log.restore_rebuilds)
    (simp_all add: perm_inv_def live_def perm_view_def plog_def logged_def new_manager_def)

section \<open>What a grant covers\<close>

text \<open>The two laws of \<open>picomatch\<close> that the grants rely on: an escaped string matches itself and
  nothing else, and a tool name without special characters matches itself.\<close>

definition glob_laws :: "glob_lib \<Rightarrow> string \<Rightarrow> bool" where
  "glob_laws isMatch toolName \<longleftrightarrow> isMatch toolName toolName False \<and>
     (\<forall>value subject. isMatch value (escapeRuleSubjectLiteral subject) False = (value = subject))"

lemma strip_escape:
  "stripLeadingDotSlash (escapeRuleSubjectLiteral s) = escapeRuleSubjectLiteral (stripLeadingDotSlash s)"
proof (cases s)
  case (Cons a as)
  show ?thesis
    by (cases as) (auto simp: Cons stripLeadingDotSlash_def glob_special_def prefix_def)
qed (simp add: stripLeadingDotSlash_def)

lemma literal_globMatch:
  assumes "glob_laws isMatch n"
  shows "globMatch isMatch v (escapeRuleSubjectLiteral s) False \<longleftrightarrow>
     stripLeadingDotSlash v = stripLeadingDotSlash s"
proof -
  have m: "isMatch v (escapeRuleSubjectLiteral s) False = (v = s)" for v s
    using assms by (simp add: glob_laws_def)
  have inj: "escapeRuleSubjectLiteral a = escapeRuleSubjectLiteral b \<longleftrightarrow> a = b" for a b
    by (metis unescape_escape)
  show ?thesis by (auto simp: globMatch_def Let_def m strip_escape inj)
qed

text \<open>
  What a grant covers. The pattern stored for a call of a tool that matches by its subject (a
  command, a search pattern) covers another call of the tool exactly when the two subjects agree
  after an initial \<open>./\<close> is dropped from each; special characters of the subject have no meaning
  and an initial exclamation mark does not negate. Only the empty subject differs: its pattern has
  no argument and covers every call of the tool.
\<close>

theorem literal_grant_is_exact:
  assumes "glob_laws isMatch toolName" and "tool_name_ok toolName"
  shows "matchPermissionRule isMatch (session_rule (literalRulePattern toolName subject)) toolName
       (Some (\<lambda>ruleArgs. matchesGlobRuleSubject isMatch ruleArgs value)) \<noteq> None
     \<longleftrightarrow> subject = [] \<or> stripLeadingDotSlash value = stripLeadingDotSlash subject"
proof -
  have parse: "parsePattern (literalRulePattern toolName subject) =
      Inr \<lparr>pp_toolName = toolName,
        pp_argPattern = (if subject = [] then None else Some (escapeRuleSubjectLiteral subject))\<rparr>"
    using parse_call_pattern [OF assms(2)] by (simp add: literalRulePattern_def)
  have "isMatch toolName toolName False" using assms(1) by (simp add: glob_laws_def)
  moreover have "matchesGlobRuleSubject isMatch (escapeRuleSubjectLiteral subject) value \<longleftrightarrow>
      stripLeadingDotSlash value = stripLeadingDotSlash subject" if "subject \<noteq> []"
    using that literal_globMatch [OF assms(1)] escape_not_negated
    by (simp add: matchesGlobRuleSubject_def matchRuleSubjects_def)
  ultimately show ?thesis
    by (simp add: matchPermissionRule_def session_rule_def parse)
qed

lemma literal_glob_laws: "unescape n = n \<Longrightarrow> glob_laws literal_glob n"
  by (auto simp: glob_laws_def literal_glob_def)

theorem literal_grant_is_exact_witness:
  "matchPermissionRule literal_glob (session_rule (literalRulePattern ''Bash'' ''rm !*'')) ''Bash''
     (Some (\<lambda>ruleArgs. matchesGlobRuleSubject literal_glob ruleArgs ''rm !a'')) = None"
proof -
  have "glob_laws literal_glob ''Bash''" by (rule literal_glob_laws) simp
  moreover have "tool_name_ok ''Bash''" by (simp add: tool_name_ok_def is_js_space_def)
  ultimately show ?thesis
    using literal_grant_is_exact [of literal_glob "''Bash''" "''rm !*''" "''rm !a''"]
    by (simp add: stripLeadingDotSlash_def)
qed


end
