(* ===== verification/Permission_Findings.thy ===== *)
theory Permission_Findings
  imports Permission_Properties
begin

text \<open>
  Properties of the path guard, and three calls that a grant for the session covers although the
  user has not seen them.
\<close>

section \<open>Being inside a directory\<close>

definition component_ok :: "string \<Rightarrow> bool" where
  "component_ok w \<longleftrightarrow> w \<noteq> [] \<and> CHR ''/'' \<notin> set w"

text \<open>The components, each closed by a slash.\<close>

definition closed_path :: "string list \<Rightarrow> string" where
  "closed_path ws = concat (map (\<lambda>w. w @ ''/'') ws)"

lemma closed_path_simps [simp]:
  "closed_path [] = []" "closed_path (w # ws) = w @ ''/'' @ closed_path ws"
  by (simp_all add: closed_path_def)

lemma join_closed: "ws \<noteq> [] \<Longrightarrow> join_with ''/'' ws @ ''/'' = closed_path ws"
  by (induction ws rule: induct_list012) simp_all

lemma prefix_component:
  "CHR ''/'' \<notin> set a \<Longrightarrow> CHR ''/'' \<notin> set b \<Longrightarrow>
   prefix (a @ ''/'' @ xs) (b @ ''/'' @ ys) \<longleftrightarrow> a = b \<and> prefix xs ys"
proof (induction a arbitrary: b)
  case Nil
  then show ?case by (cases b) auto
next
  case (Cons c a)
  then show ?case by (cases b) auto
qed

lemma prefix_closed:
  "\<forall>w \<in> set bs. component_ok w \<Longrightarrow> \<forall>w \<in> set cs. component_ok w \<Longrightarrow>
   prefix (closed_path bs) (closed_path cs) \<longleftrightarrow> prefix bs cs"
proof (induction bs arbitrary: cs)
  case (Cons b bs)
  then show ?case by (cases cs) (auto simp: component_ok_def prefix_component [simplified])
qed simp

lemma closed_not_slash_end: "ws \<noteq> [] \<Longrightarrow> \<forall>w \<in> set ws. component_ok w \<Longrightarrow> \<not> suffix ''/'' (''/'' @ join_with ''/'' ws)"
proof (induction ws rule: induct_list012)
  case (2 w)
  then show ?case by (cases w rule: rev_cases) (auto simp: component_ok_def suffix_def)
next
  case (3 w v ws)
  then have "\<not> suffix ''/'' (''/'' @ join_with ''/'' (v # ws))" by simp
  moreover have "suffix ''/'' (w @ ''/'' @ s) = suffix ''/'' (''/'' @ s)" for s
    by (cases s rule: rev_cases) (auto simp: suffix_def)
  ultimately show ?case by (simp add: suffix_Cons)
qed simp

text \<open>
  Containment is by components. When the library's normal forms of two paths are the absolute
  paths with the components \<open>cs\<close> and \<open>bs\<close>, the first is inside the second exactly when \<open>bs\<close> is an
  initial part of \<open>cs\<close>; so \<open>/workspace-evil\<close> is not inside \<open>/workspace\<close>, and everything is inside
  the root.
\<close>

theorem within_directory_is_component_prefix:
  assumes "pathe_normalize P candidate = render_path cs" and "pathe_normalize P base = render_path bs"
    and "\<forall>w \<in> set cs. component_ok w" and "\<forall>w \<in> set bs. component_ok w"
  shows "isWithinDirectory P candidate base Posix \<longleftrightarrow> prefix bs cs"
proof (cases "bs = []")
  case True
  then show ?thesis using assms(1,2)
    by (simp add: isWithinDirectory_def render_path_def suffix_def)
next
  case False
  have within: "isWithinDirectory P candidate base Posix \<longleftrightarrow>
      join_with ''/'' cs = join_with ''/'' bs \<or> prefix (join_with ''/'' bs @ ''/'') (join_with ''/'' cs)"
    using assms(1,2) closed_not_slash_end [OF False assms(4)]
    by (auto simp: isWithinDirectory_def render_path_def)
  show ?thesis
  proof (cases "cs = []")
    case True
    have "join_with ''/'' bs \<noteq> []"
      using False assms(4) by (cases bs; cases "tl bs") (auto simp: component_ok_def)
    then show ?thesis using True False by (simp add: within)
  next
    case cs: False
    have "prefix (join_with ''/'' bs @ ''/'') (join_with ''/'' cs @ ''/'') \<longleftrightarrow> prefix bs cs"
      unfolding join_closed [OF False] join_closed [OF cs] using prefix_closed assms(3,4) by blast
    then show ?thesis unfolding within by (auto simp: prefix_snoc)
  qed
qed

theorem within_directory_is_component_prefix_witness:
  "\<not> isWithinDirectory posix_lib ''/workspace-evil/a'' ''/workspace'' Posix"
proof -
  have "pathe_normalize posix_lib ''/workspace-evil/a'' = render_path [''workspace-evil'', ''a'']"
    "pathe_normalize posix_lib ''/workspace'' = render_path [''workspace'']"
    "\<forall>w \<in> set [''workspace-evil'', ''a'']. component_ok w" "\<forall>w \<in> set [''workspace'']. component_ok w"
    by (code_simp | simp add: component_ok_def)+
  from within_directory_is_component_prefix [OF this] show ?thesis by simp
qed

text \<open>
  What the path guard lets through. Under the default policy an accepted path is never a
  sensitive file, the report of where it lies is right, and it is outside the workspace only when
  the text given, after \<open>~\<close> is expanded, is absolute.
\<close>

theorem accepted_path_is_guarded:
  assumes "resolvePathAccess P path cwd config options = Inr a"
    and "rpa_policy options = None" and "rpa_pathClass options = Some cls"
  shows "\<not> isSensitiveFile P (pa_path a) \<and>
     (pa_outsideWorkspace a \<longleftrightarrow> \<not> isWithinWorkspace P (pa_path a) config cls) \<and>
     (pa_outsideWorkspace a \<longrightarrow>
        pathe_isAbsolute P (expandUserPath P (normalizeUserPath path cls) (rpa_homeDir options) cls))"
  using assms
  by (auto simp: resolvePathAccess_def Let_def path_error_def DEFAULT_WORKSPACE_ACCESS_POLICY_def
      split: sum.splits if_splits)

theorem accepted_path_is_guarded_witness:
  "isWithinWorkspace posix_lib ''/ws/a'' \<lparr>workspaceDir = ''/ws'', additionalDirs = []\<rparr> Posix"
proof -
  let ?o = "\<lparr>rpa_operation = PathRead, rpa_policy = None, rpa_pathClass = Some Posix, rpa_homeDir = None\<rparr>"
  have "resolvePathAccess posix_lib ''b/../a'' ''/ws'' \<lparr>workspaceDir = ''/ws'', additionalDirs = []\<rparr> ?o =
      Inr \<lparr>pa_path = ''/ws/a'', pa_outsideWorkspace = False\<rparr>"
    by code_simp
  from accepted_path_is_guarded [OF this] show ?thesis by simp
qed

section \<open>Grants that cover more than was seen\<close>

text \<open>A search with the empty pattern, approved for the session, frees every later search.\<close>

lemma empty_search_grants_all:
  "isMatch ''Grep'' ''Grep'' False \<Longrightarrow>
   matchPermissionRule isMatch (session_rule (literalRulePattern ''Grep'' [])) ''Grep'' m \<noteq> None"
proof -
  have "parsePattern (literalRulePattern ''Grep'' []) = Inr \<lparr>pp_toolName = ''Grep'', pp_argPattern = None\<rparr>"
    by code_simp
  then show "isMatch ''Grep'' ''Grep'' False \<Longrightarrow> ?thesis"
    by (simp add: matchPermissionRule_def session_rule_def)
qed

text \<open>A search is granted by its pattern alone and a command by its text alone: the directory is not
  part of the rule.\<close>

lemma grant_forgets_search_path:
  "Grep_resolve L E pattern p = Inr x \<Longrightarrow> Grep_resolve L E pattern q = Inr y \<Longrightarrow>
   te_approvalRule x = te_approvalRule y \<and> te_matchesRule x = te_matchesRule y"
  by (cases "search_root L E p"; cases "search_root L E q") (auto simp: Grep_resolve_def pattern_execution_def)

lemma grant_forgets_directory:
  "te_approvalRule (Bash_resolve L (i\<lparr>bi_cwd := d\<rparr>)) = te_approvalRule (Bash_resolve L i) \<and>
   te_matchesRule (Bash_resolve L (i\<lparr>bi_cwd := d\<rparr>)) = te_matchesRule (Bash_resolve L i)"
  by (simp add: Bash_resolve_def pattern_execution_def Let_def)

text \<open>The command \<open>./deploy\<close>, approved for the session, frees \<open>deploy\<close>, which the shell looks up in
  its path.\<close>

lemma dot_slash_command_granted:
  "isMatch ''Bash'' ''Bash'' False \<Longrightarrow> isMatch ''deploy'' ''deploy'' False \<Longrightarrow>
   matchPermissionRule isMatch (session_rule (literalRulePattern ''Bash'' ''./deploy'')) ''Bash''
     (Some (\<lambda>ruleArgs. matchesGlobRuleSubject isMatch ruleArgs ''deploy'')) \<noteq> None"
proof -
  have "parsePattern (literalRulePattern ''Bash'' ''./deploy'') =
      Inr \<lparr>pp_toolName = ''Bash'', pp_argPattern = Some ''./deploy''\<rparr>"
    by code_simp
  moreover have "isMatch ''deploy'' ''deploy'' False \<Longrightarrow> matchesGlobRuleSubject isMatch ''./deploy'' ''deploy''"
    by (simp add: matchesGlobRuleSubject_def matchRuleSubjects_def globMatch_def stripLeadingDotSlash_def)
  ultimately show "isMatch ''Bash'' ''Bash'' False \<Longrightarrow> isMatch ''deploy'' ''deploy'' False \<Longrightarrow> ?thesis"
    by (simp add: matchPermissionRule_def session_rule_def)
qed

end
