(* ===== verification/Json_Values.thy ===== *)
theory Json_Values
  imports Nori_Prelude "HOL-Library.Char_ord" "HOL-Library.List_Lexorder"
begin

text \<open>
  The arguments of tool calls as JSON values, their canonical text
  (\<open>agent/turn/canonical-args.ts\<close>) and the reading of the arguments a provider sends
  (\<open>loop/tool-args-parse.ts\<close>). Numbers are kept as the text \<open>JSON.stringify\<close> gives them. The
  lemmas show that the canonical text does not depend on the order of the keys of an object.
\<close>

section \<open>Values and their text\<close>

datatype json =
    JNull
  | JBool bool
  | JNum string
  | JStr string
  | JArr "json list"
  | JObj "(string \<times> json) list"

definition hex_char :: "nat \<Rightarrow> char" where
  "hex_char n = ''0123456789abcdef'' ! n"

text \<open>The escapes of \<open>JSON.stringify\<close>.\<close>

definition json_char :: "char \<Rightarrow> string" where
  "json_char c = (let n = of_char c :: nat in
     if n = 34 then [CHR 0x5C, CHR 0x22]
     else if n = 92 then [CHR 0x5C, CHR 0x5C]
     else if n = 8 then [CHR 0x5C, CHR ''b'']
     else if n = 9 then [CHR 0x5C, CHR ''t'']
     else if n = 10 then [CHR 0x5C, CHR ''n'']
     else if n = 12 then [CHR 0x5C, CHR ''f'']
     else if n = 13 then [CHR 0x5C, CHR ''r'']
     else if n < 32 then [CHR 0x5C] @ ''u00'' @ [hex_char (n div 16), hex_char (n mod 16)]
     else [c])"

definition json_string :: "string \<Rightarrow> string" where
  "json_string s = [CHR 0x22] @ concat (map json_char s) @ [CHR 0x22]"

fun comma_sep :: "string list \<Rightarrow> string" where
  "comma_sep [] = []"
| "comma_sep [s] = s"
| "comma_sep (s # t # ss) = s @ '','' @ comma_sep (t # ss)"

fun stringify :: "json \<Rightarrow> string" where
  "stringify JNull = ''null''"
| "stringify (JBool b) = (if b then ''true'' else ''false'')"
| "stringify (JNum n) = n"
| "stringify (JStr s) = json_string s"
| "stringify (JArr vs) = ''['' @ comma_sep (map stringify vs) @ '']''"
| "stringify (JObj ps) = ''{'' @ comma_sep (map (\<lambda>(k, v). json_string k @ '':'' @ stringify v) ps) @ ''}''"

section \<open>Canonical order\<close>

text \<open>The order in which an object lists its own keys: array indices first, by value, then the
  other keys in the order in which they were added.\<close>

definition is_digit_char :: "char \<Rightarrow> bool" where
  "is_digit_char c = (let n = of_char c :: nat in 48 \<le> n \<and> n \<le> 57)"

definition decimal :: "string \<Rightarrow> nat" where
  "decimal s = foldl (\<lambda>n c. 10 * n + (of_char c - 48)) 0 s"

definition is_array_index :: "string \<Rightarrow> bool" where
  "is_array_index s \<longleftrightarrow> s \<noteq> [] \<and> list_all is_digit_char s \<and> (hd s \<noteq> CHR ''0'' \<or> s = ''0'') \<and>
     decimal s < 2 ^ 32 - 1"

definition own_key_order :: "(string \<times> 'a) list \<Rightarrow> (string \<times> 'a) list" where
  "own_key_order ps = sort_key (\<lambda>p. decimal (fst p)) (filter (\<lambda>p. is_array_index (fst p)) ps)
     @ filter (\<lambda>p. \<not> is_array_index (fst p)) ps"

text \<open>\<open>out[key] = value\<close> on a fresh object; the key \<open>__proto__\<close> sets the prototype and is lost.\<close>

definition sorted_entries :: "(string \<times> 'a) list \<Rightarrow> (string \<times> 'a) list" where
  "sorted_entries ps = own_key_order (filter (\<lambda>p. fst p \<noteq> ''__proto__'') (sort_key fst ps))"

fun sortJsonValue :: "json \<Rightarrow> json" where
  "sortJsonValue (JArr vs) = JArr (map sortJsonValue vs)"
| "sortJsonValue (JObj ps) = JObj (sorted_entries (map (\<lambda>(k, v). (k, sortJsonValue v)) ps))"
| "sortJsonValue v = v"

definition canonicalTelemetryArgs :: "json \<Rightarrow> string" where
  "canonicalTelemetryArgs args = stringify (sortJsonValue args)"

section \<open>Arguments from the provider\<close>

record ParseToolArgsResult =
  pa_data :: json
  pa_parseFailed :: bool

text \<open>\<open>parse\<close> is \<open>JSON.parse\<close>; \<open>None\<close> when it throws.\<close>

definition parseToolCallArguments :: "(string \<Rightarrow> json option) \<Rightarrow> string option \<Rightarrow> ParseToolArgsResult" where
  "parseToolCallArguments parse raw =
     (case raw of
        None \<Rightarrow> \<lparr>pa_data = JObj [], pa_parseFailed = False\<rparr>
      | Some r \<Rightarrow>
          if length r = 0 then \<lparr>pa_data = JObj [], pa_parseFailed = False\<rparr>
          else (case parse r of
                  Some v \<Rightarrow> \<lparr>pa_data = v, pa_parseFailed = False\<rparr>
                | None \<Rightarrow> \<lparr>pa_data = JObj [], pa_parseFailed = True\<rparr>))"

section \<open>The order of keys does not matter\<close>

lemma sort_key_perm:
  assumes "distinct (map fst ps)" and "mset ps = mset qs"
  shows "sort_key fst ps = sort_key fst (qs :: (('a :: linorder) \<times> 'b) list)"
proof -
  have "inj_on fst (set ps)" using assms(1) by (simp add: distinct_map)
  moreover have "mset (sort_key fst ps) = mset qs" using assms(2) by simp
  ultimately show ?thesis
    by (metis assms(2) mset_eq_setD properties_for_sort_key sort_key_stable sorted_sort_key mset_sort
        sort_key_inj_key_eq)
qed

lemma sorted_entries_perm:
  "distinct (map fst ps) \<Longrightarrow> mset ps = mset qs \<Longrightarrow> sorted_entries ps = sorted_entries qs"
  by (simp add: sorted_entries_def sort_key_perm)

text \<open>Two values that differ only in the order of the keys of their objects, at any depth.\<close>

inductive same_json :: "json \<Rightarrow> json \<Rightarrow> bool" where
  same_refl: "same_json v v"
| same_arr: "list_all2 same_json vs ws \<Longrightarrow> same_json (JArr vs) (JArr ws)"
| same_obj: "distinct (map fst ps) \<Longrightarrow> mset qs = mset rs \<Longrightarrow>
    list_all2 (\<lambda>p q. fst p = fst q \<and> same_json (snd p) (snd q)) ps qs \<Longrightarrow> same_json (JObj ps) (JObj rs)"
  monos list.rel_mono_strong list_all2_mono

lemma same_json_sorted: "same_json v w \<Longrightarrow> sortJsonValue v = sortJsonValue w"
proof (induction rule: same_json.induct)
  case (same_arr vs ws)
  then have "map sortJsonValue vs = map sortJsonValue ws"
    by (induction rule: list_all2_induct) auto
  then show ?case by simp
next
  case (same_obj ps qs rs)
  let ?f = "map (\<lambda>(k, v). (k, sortJsonValue v))"
  have eq: "?f ps = ?f qs" using same_obj(3) by (induction rule: list_all2_induct) auto
  have "distinct (map fst (?f ps))" using same_obj(1) by (simp add: case_prod_unfold comp_def)
  moreover have "mset (?f ps) = mset (?f rs)" unfolding eq using same_obj(2) by simp
  ultimately show ?case by (simp add: sorted_entries_perm)
qed simp

theorem canonical_args_ignore_key_order:
  "same_json v w \<Longrightarrow> canonicalTelemetryArgs v = canonicalTelemetryArgs w"
  by (simp add: canonicalTelemetryArgs_def same_json_sorted)

end
