(* ===== verification/Tool_Dedup.thy ===== *)
theory Tool_Dedup
  imports Json_Values Context_Memory
begin

text \<open>
  Suppression of repeated tool calls within a turn (\<open>agent/turn/tool-dedup.ts\<close>). A deferred
  result is the entry of its key in \<open>stepDeferreds\<close>, \<open>None\<close> while it is unsettled;
  \<open>finalizeResult\<close> gives no result when it is left waiting for such an entry.

  The properties: the count behind a reminder is the length of the run of equal calls in the
  whole turn, whatever the steps it spans, and a repeated call of a step gets the result of the
  first one. Telemetry is not modelled.
\<close>

section \<open>Results and reminders\<close>

record LoopToolResult = ExecutableToolResult +
  tr_stopTurn :: "bool option"
  tr_truncated :: "bool option"
  tr_message :: "string option"

definition nl :: string where "nl = [CHR 0x0A]"

definition REMINDER_TEXT_1 :: string where
  "REMINDER_TEXT_1 = nl @ nl @ ''<system-reminder>'' @ nl @
     ''You are repeating the exact same tool call with identical parameters.'' @
     '' Please carefully analyze the previous result. If the task is not yet complete,'' @
     '' try a different method or parameters instead of repeating the same call.'' @
     nl @ ''</system-reminder>''"

fun show_digits :: "nat \<Rightarrow> nat \<Rightarrow> string" where
  "show_digits 0 n = []"
| "show_digits (Suc fuel) n =
     (if n < 10 then [char_of (48 + n)] else show_digits fuel (n div 10) @ [char_of (48 + n mod 10)])"

definition show_count :: "nat \<Rightarrow> string" where
  "show_count n = show_digits (Suc n) n"

definition makeReminderText2 :: "string \<Rightarrow> nat \<Rightarrow> json \<Rightarrow> string" where
  "makeReminderText2 tool repeatCount args =
     (let argsStr = canonicalTelemetryArgs args
      in nl @ nl @ ''<system-reminder>'' @ nl @
         ''You have repeatedly called the same tool with identical parameters many times.'' @ nl @
         ''Repeated tool call detected:'' @ nl @
         ''- tool: '' @ tool @ nl @
         ''- repeated_times: '' @ show_count repeatCount @ nl @
         ''- arguments: '' @ argsStr @ nl @
         ''The previous repeated calls did not make progress. Do not call this exact same tool with the exact same arguments again.'' @ nl @
         ''Carefully inspect the latest tool result and choose a different next action, different parameters, or finish the task if enough evidence has been gathered.'' @
         nl @ ''</system-reminder>'')"

definition REMINDER_TEXT_3 :: string where
  "REMINDER_TEXT_3 = nl @ nl @ ''<system-reminder>'' @ nl @
     ''You are stuck in a dead end and have repeatedly made the same function call without progress.'' @ nl @
     ''Stop all function calls immediately. Do not call any tool in your next response.'' @ nl @
     ''In analysis, review the current execution state and identify why progress is blocked.'' @ nl @
     ''Then return a text-only summary to the user that reports the current problem, what has already been tried, and what information or decision is needed next.'' @
     nl @ ''</system-reminder>''"

definition REPEAT_REMINDER_1_START :: nat where "REPEAT_REMINDER_1_START = 3"
definition REPEAT_REMINDER_2_START :: nat where "REPEAT_REMINDER_2_START = 5"
definition REPEAT_REMINDER_3_START :: nat where "REPEAT_REMINDER_3_START = 8"
definition REPEAT_FORCE_STOP_STREAK :: nat where "REPEAT_FORCE_STOP_STREAK = 12"

definition appendReminder :: "LoopToolResult \<Rightarrow> string \<Rightarrow> LoopToolResult" where
  "appendReminder result reminderText =
     result\<lparr>tr_output := (case tr_output result of
         Inl t \<Rightarrow> Inl (t @ reminderText)
       | Inr parts \<Rightarrow>
           (if parts \<noteq> [] \<and> is_text (last parts)
            then Inr (butlast parts @ [TextPart (part_text (last parts) @ reminderText)])
            else Inr (parts @ [TextPart reminderText])))\<rparr>"

definition forceStopResult :: "LoopToolResult \<Rightarrow> string \<Rightarrow> LoopToolResult" where
  "forceStopResult result reminderText = (appendReminder result reminderText)\<lparr>tr_stopTurn := Some True\<rparr>"

definition text_result :: "string \<Rightarrow> bool option \<Rightarrow> LoopToolResult" where
  "text_result t err = \<lparr>tr_output = Inl t, tr_isError = err, tr_stopTurn = None, tr_truncated = None,
     tr_message = None\<rparr>"

definition DEDUP_PLACEHOLDER_RESULT :: LoopToolResult where
  "DEDUP_PLACEHOLDER_RESULT = text_result [] None"

definition makeKey :: "string \<Rightarrow> json \<Rightarrow> string" where
  "makeKey tool args = tool @ '' '' @ canonicalTelemetryArgs args"

section \<open>State and operations\<close>

record ToolCallDeduplicator =
  stepDeferreds :: "(string \<times> LoopToolResult option) list"
  stepCalls :: "string list"
  originalCallIndex :: "(string \<times> nat) list"
  syntheticCallIds :: "string list"
  callKeyByCallId :: "(string \<times> string) list"
  consecutiveKey :: "string option"
  consecutiveCount :: nat

definition new_deduplicator :: ToolCallDeduplicator where
  "new_deduplicator = \<lparr>stepDeferreds = [], stepCalls = [], originalCallIndex = [],
     syntheticCallIds = [], callKeyByCallId = [], consecutiveKey = None, consecutiveCount = 0\<rparr>"

text \<open>The second component: what the unsettled results of the last step are settled to.\<close>

definition lost_result :: LoopToolResult where
  "lost_result = text_result ''Tool call deduplicated but original result was lost'' (Some True)"

definition beginStep :: "ToolCallDeduplicator \<Rightarrow> ToolCallDeduplicator \<times> (string \<times> LoopToolResult) list" where
  "beginStep d =
     (d\<lparr>stepDeferreds := [], stepCalls := [], originalCallIndex := [], syntheticCallIds := [],
        callKeyByCallId := []\<rparr>,
      map (\<lambda>(k, r). (k, case r of Some x \<Rightarrow> x | None \<Rightarrow> lost_result)) (stepDeferreds d))"

text \<open>One turn of the two counting loops.\<close>

fun count_key :: "string option \<times> nat \<Rightarrow> string \<Rightarrow> string option \<times> nat" where
  "count_key (lastKey, streak) k = (if Some k = lastKey then (lastKey, streak + 1) else (Some k, 1))"

definition endStep :: "ToolCallDeduplicator \<Rightarrow> ToolCallDeduplicator" where
  "endStep d =
     (let (k, n) = foldl count_key (consecutiveKey d, consecutiveCount d) (stepCalls d)
      in d\<lparr>consecutiveKey := k, consecutiveCount := n\<rparr>)"

definition checkSameStep ::
  "string \<Rightarrow> string \<Rightarrow> json \<Rightarrow> ToolCallDeduplicator \<Rightarrow> LoopToolResult option \<times> ToolCallDeduplicator" where
  "checkSameStep call_id tool args d =
     (let key = makeKey tool args;
          index = length (stepCalls d);
          d1 = d\<lparr>stepCalls := stepCalls d @ [key], callKeyByCallId := map_put call_id key (callKeyByCallId d)\<rparr>
      in if map_get (stepDeferreds d1) key \<noteq> None
         then (Some DEDUP_PLACEHOLDER_RESULT, d1\<lparr>syntheticCallIds := oset_add call_id (syntheticCallIds d1)\<rparr>)
         else (None, d1\<lparr>stepDeferreds := map_put key None (stepDeferreds d1),
                        originalCallIndex := map_put call_id index (originalCallIndex d1)\<rparr>))"

text \<open>The result the model sees for a call that ends a run of \<open>streak\<close> equal calls.\<close>

definition escalate :: "nat \<Rightarrow> string \<Rightarrow> json \<Rightarrow> LoopToolResult \<Rightarrow> LoopToolResult" where
  "escalate streak tool args result =
     (if streak \<ge> REPEAT_FORCE_STOP_STREAK then forceStopResult result REMINDER_TEXT_3
      else if streak \<ge> REPEAT_REMINDER_3_START then appendReminder result REMINDER_TEXT_3
      else if streak \<ge> REPEAT_REMINDER_2_START then appendReminder result (makeReminderText2 tool streak args)
      else if streak \<ge> REPEAT_REMINDER_1_START then appendReminder result REMINDER_TEXT_1
      else result)"

text \<open>Settling a promise that is settled already has no effect.\<close>

definition resolve_deferred :: "string \<Rightarrow> LoopToolResult \<Rightarrow> ToolCallDeduplicator \<Rightarrow> ToolCallDeduplicator" where
  "resolve_deferred key value d =
     (case map_get (stepDeferreds d) key of
        Some None \<Rightarrow> d\<lparr>stepDeferreds := map_put key (Some value) (stepDeferreds d)\<rparr>
      | _ \<Rightarrow> d)"

definition finalizeResult ::
  "string \<Rightarrow> string \<Rightarrow> json \<Rightarrow> LoopToolResult \<Rightarrow> ToolCallDeduplicator \<Rightarrow>
   LoopToolResult option \<times> ToolCallDeduplicator" where
  "finalizeResult call_id tool args result d =
     (case map_get (callKeyByCallId d) call_id of
        None \<Rightarrow> (Some result, d)
      | Some key \<Rightarrow>
          (let d1 = d\<lparr>callKeyByCallId := map_remove call_id (callKeyByCallId d)\<rparr>
           in if call_id \<in> set (syntheticCallIds d1) then
                (let d2 = d1\<lparr>syntheticCallIds := oset_remove call_id (syntheticCallIds d1)\<rparr>
                 in case map_get (stepDeferreds d2) key of
                      None \<Rightarrow> (Some result, d2)
                    | Some promise \<Rightarrow> (promise, d2))
              else case map_get (originalCallIndex d1) call_id of
                None \<Rightarrow> (Some result, d1)
              | Some index \<Rightarrow>
                  (let d2 = d1\<lparr>originalCallIndex := map_remove call_id (originalCallIndex d1)\<rparr>;
                       streak = snd (foldl count_key (consecutiveKey d2, consecutiveCount d2)
                                  (take (index + 1) (stepCalls d2)));
                       finalResult = escalate streak tool args result
                   in (Some finalResult, resolve_deferred key finalResult d2))))"

section \<open>A step of calls\<close>

text \<open>
  One step of the loop, seen by this component: every call is checked in order, then every call is
  finalized in order with the result its execution (or the placeholder) gave, then the step ends.
\<close>

type_synonym dedup_call = "string \<times> string \<times> json \<times> LoopToolResult"

fun check_calls :: "dedup_call list \<Rightarrow> ToolCallDeduplicator \<Rightarrow> bool list \<times> ToolCallDeduplicator" where
  "check_calls [] d = ([], d)"
| "check_calls ((i, n, a, r) # cs) d =
     (case checkSameStep i n a d of (hit, d1) \<Rightarrow>
        (case check_calls cs d1 of (hits, d2) \<Rightarrow> ((hit \<noteq> None) # hits, d2)))"

fun finalize_calls :: "(bool \<times> dedup_call) list \<Rightarrow> ToolCallDeduplicator \<Rightarrow>
    LoopToolResult option list \<times> ToolCallDeduplicator" where
  "finalize_calls [] d = ([], d)"
| "finalize_calls ((dup, i, n, a, r) # cs) d =
     (case finalizeResult i n a (if dup then DEDUP_PLACEHOLDER_RESULT else r) d of (out, d1) \<Rightarrow>
        (case finalize_calls cs d1 of (outs, d2) \<Rightarrow> (out # outs, d2)))"

definition dedup_step :: "dedup_call list \<Rightarrow> ToolCallDeduplicator \<Rightarrow>
    LoopToolResult option list \<times> ToolCallDeduplicator" where
  "dedup_step cs d =
     (case check_calls cs (fst (beginStep d)) of (hits, d1) \<Rightarrow>
        (case finalize_calls (zip hits cs) d1 of (outs, d2) \<Rightarrow> (outs, endStep d2)))"

end
