(* ===== verification/Dedup_Properties.thy ===== *)
theory Dedup_Properties
  imports Tool_Dedup
begin

text \<open>
  What the deduplicator computes, against a definition that only looks at the sequence of calls of
  the turn: the length of the run of equal calls at the end of a sequence, and for a call the first
  call of its step with the same key.
\<close>

section \<open>Runs\<close>

definition run_length :: "string list \<Rightarrow> nat" where
  "run_length ks = (case rev ks of [] \<Rightarrow> 0 | k # rest \<Rightarrow> 1 + length (takeWhile (\<lambda>x. x = k) rest))"

lemma run_length_snoc:
  "run_length (ks @ [k]) = (if ks \<noteq> [] \<and> last ks = k then run_length ks + 1 else 1)"
  by (cases ks rule: rev_cases) (auto simp: run_length_def)

definition last_key :: "string list \<Rightarrow> string option" where
  "last_key ks = (if ks = [] then None else Some (last ks))"

lemma count_keys: "foldl count_key (None, 0) ks = (last_key ks, run_length ks)"
proof (induction ks rule: rev_induct)
  case Nil
  then show ?case by (simp add: last_key_def run_length_def)
next
  case (snoc k ks)
  then show ?case by (auto simp: last_key_def run_length_snoc)
qed

section \<open>The reference\<close>

fun call_id :: "dedup_call \<Rightarrow> string" where "call_id (i, n, a, r) = i"
fun call_key :: "dedup_call \<Rightarrow> string" where "call_key (i, n, a, r) = makeKey n a"

abbreviation keys :: "dedup_call list \<Rightarrow> string list" where "keys cs \<equiv> map call_key cs"

text \<open>The position of the first call of the step with the key of call \<open>j\<close>.\<close>

definition first_at :: "dedup_call list \<Rightarrow> nat \<Rightarrow> nat" where
  "first_at cs j = length (takeWhile (\<lambda>k. k \<noteq> keys cs ! j) (keys cs))"

definition repeated :: "dedup_call list \<Rightarrow> nat \<Rightarrow> bool" where
  "repeated cs j \<longleftrightarrow> first_at cs j \<noteq> j"

definition answer :: "string list \<Rightarrow> dedup_call list \<Rightarrow> nat \<Rightarrow> LoopToolResult" where
  "answer before cs j =
     (case cs ! first_at cs j of
        (i, n, a, r) \<Rightarrow> escalate (run_length (before @ take (first_at cs j + 1) (keys cs))) n a r)"

lemma first_at_props:
  assumes "j < length cs"
  shows "first_at cs j \<le> j" and "keys cs ! first_at cs j = keys cs ! j"
    and "\<And>i. i < first_at cs j \<Longrightarrow> keys cs ! i \<noteq> keys cs ! j"
proof -
  let ?P = "\<lambda>k. k \<noteq> keys cs ! j"
  show le: "first_at cs j \<le> j"
  proof (rule ccontr)
    assume "\<not> ?thesis"
    then have lt: "j < length (takeWhile ?P (keys cs))" by (simp add: first_at_def)
    then have "?P (takeWhile ?P (keys cs) ! j)" using nth_mem set_takeWhileD by fastforce
    then show False by (simp only: takeWhile_nth [OF lt] not_True_eq_False simp_thms)
  qed
  then have "length (takeWhile ?P (keys cs)) < length (keys cs)"
    using assms by (simp add: first_at_def)
  from nth_length_takeWhile [OF this] show "keys cs ! first_at cs j = keys cs ! j"
    by (simp add: first_at_def)
  fix i assume "i < first_at cs j"
  then have lt: "i < length (takeWhile ?P (keys cs))" by (simp add: first_at_def)
  then have "?P (takeWhile ?P (keys cs) ! i)" using nth_mem set_takeWhileD by fastforce
  then show "keys cs ! i \<noteq> keys cs ! j" by (simp del: nth_map add: takeWhile_nth [OF lt])
qed

lemma first_at_eqI:
  assumes "j < length cs" and "i < length cs" and "keys cs ! i = keys cs ! j"
  shows "first_at cs i = first_at cs j"
  using assms(3) by (simp add: first_at_def)

lemma repeated_iff:
  assumes "j < length cs"
  shows "repeated cs j \<longleftrightarrow> keys cs ! j \<in> set (take j (keys cs))"
proof
  assume "repeated cs j"
  then have lt: "first_at cs j < j" using first_at_props(1) [OF assms] by (simp add: repeated_def)
  then have "take j (keys cs) ! first_at cs j = keys cs ! j"
    using first_at_props(2) [OF assms] by simp
  then show "keys cs ! j \<in> set (take j (keys cs))"
    by (metis assms in_set_conv_nth length_map length_take lt min.absorb2 order_less_imp_le)
next
  assume "keys cs ! j \<in> set (take j (keys cs))"
  then obtain i where "i < j" "keys cs ! i = keys cs ! j"
    using assms by (auto simp: in_set_conv_nth)
  then show "repeated cs j" using first_at_props(3) [OF assms, of i] by (auto simp: repeated_def)
qed

section \<open>Checking\<close>

definition checked :: "dedup_call list \<Rightarrow> ToolCallDeduplicator \<Rightarrow> bool" where
  "checked cs d \<longleftrightarrow> stepCalls d = keys cs \<and>
     (\<forall>j < length cs. map_get (callKeyByCallId d) (call_id (cs ! j)) = Some (keys cs ! j)) \<and>
     (\<forall>k. map_get (stepDeferreds d) k = (if k \<in> set (keys cs) then Some None else None)) \<and>
     (\<forall>j < length cs. call_id (cs ! j) \<in> set (syntheticCallIds d) \<longleftrightarrow> keys cs ! j \<in> set (take j (keys cs))) \<and>
     set (syntheticCallIds d) \<subseteq> call_id ` set cs \<and>
     (\<forall>j < length cs. keys cs ! j \<notin> set (take j (keys cs)) \<longrightarrow>
        map_get (originalCallIndex d) (call_id (cs ! j)) = Some j)"

lemma check_calls_append:
  "check_calls (cs @ ds) d =
     (fst (check_calls cs d) @ fst (check_calls ds (snd (check_calls cs d))),
      snd (check_calls ds (snd (check_calls cs d))))"
  by (induction cs arbitrary: d) (auto split: prod.splits)

lemma check_calls_checked:
  assumes "distinct (map call_id cs)"
  shows "checked cs (snd (check_calls cs (fst (beginStep d)))) \<and>
    fst (check_calls cs (fst (beginStep d))) = map (\<lambda>j. keys cs ! j \<in> set (take j (keys cs))) [0..<length cs] \<and>
    consecutiveKey (snd (check_calls cs (fst (beginStep d)))) = consecutiveKey d \<and>
    consecutiveCount (snd (check_calls cs (fst (beginStep d)))) = consecutiveCount d"
  using assms
proof (induction cs rule: rev_induct)
  case Nil
  then show ?case by (simp add: checked_def beginStep_def)
next
  case (snoc c cs)
  obtain i n a r where c: "c = (i, n, a, r)" by (cases c)
  let ?d = "snd (check_calls cs (fst (beginStep d)))"
  let ?k = "makeKey n a"
  from snoc have ih: "checked cs ?d"
    "fst (check_calls cs (fst (beginStep d))) = map (\<lambda>j. keys cs ! j \<in> set (take j (keys cs))) [0..<length cs]"
    "consecutiveKey ?d = consecutiveKey d" "consecutiveCount ?d = consecutiveCount d"
    and new: "i \<notin> call_id ` set cs" by (auto simp: c)
  have other: "call_id (cs ! j) \<noteq> i" if "j < length cs" for j
    using new that by (metis image_eqI nth_mem)
  have len: "length (stepCalls ?d) = length cs" using ih(1) by (simp add: checked_def)
  show ?case
    using ih new other len
    by (auto simp: c check_calls_append checkSameStep_def Let_def checked_def nth_append less_Suc_eq
        take_Suc_conv_app_nth split: if_splits)
qed

section \<open>Finalizing\<close>

definition finalized :: "string list \<Rightarrow> dedup_call list \<Rightarrow> nat \<Rightarrow> ToolCallDeduplicator \<Rightarrow> bool" where
  "finalized before cs m d \<longleftrightarrow> stepCalls d = keys cs \<and>
     consecutiveKey d = last_key before \<and> consecutiveCount d = run_length before \<and>
     (\<forall>j. m \<le> j \<and> j < length cs \<longrightarrow> map_get (callKeyByCallId d) (call_id (cs ! j)) = Some (keys cs ! j)) \<and>
     (\<forall>j < length cs. map_get (stepDeferreds d) (keys cs ! j) =
        Some (if first_at cs j < m then Some (answer before cs j) else None)) \<and>
     (\<forall>j. m \<le> j \<and> j < length cs \<longrightarrow> (call_id (cs ! j) \<in> set (syntheticCallIds d) \<longleftrightarrow> repeated cs j)) \<and>
     (\<forall>j. m \<le> j \<and> j < length cs \<longrightarrow> \<not> repeated cs j \<longrightarrow>
        map_get (originalCallIndex d) (call_id (cs ! j)) = Some j)"

lemma checked_finalized:
  assumes "checked cs d" and "consecutiveKey d = last_key before" and "consecutiveCount d = run_length before"
  shows "finalized before cs 0 d"
proof -
  have "keys cs ! j \<in> set (keys cs)" if "j < length cs" for j using that by (simp only: nth_mem length_map)
  then show ?thesis
    using assms by (simp add: checked_def finalized_def repeated_iff del: nth_map set_map)
qed

lemma answer_first: "answer before cs (first_at cs j) = answer before cs j"
  if "j < length cs" for j
  using first_at_eqI [OF that, of "first_at cs j"] first_at_props [OF that] that
  by (simp add: answer_def)

lemma finalizedD:
  assumes "finalized before cs m d" and "m \<le> j" and "j < length cs"
  shows "map_get (callKeyByCallId d) (call_id (cs ! j)) = Some (keys cs ! j)"
    and "call_id (cs ! j) \<in> set (syntheticCallIds d) \<longleftrightarrow> repeated cs j"
    and "\<not> repeated cs j \<Longrightarrow> map_get (originalCallIndex d) (call_id (cs ! j)) = Some j"
  using assms by (auto simp: finalized_def)

lemma finalized_deferred:
  "finalized before cs m d \<Longrightarrow> j < length cs \<Longrightarrow> map_get (stepDeferreds d) (keys cs ! j) =
     Some (if first_at cs j < m then Some (answer before cs j) else None)"
  by (simp add: finalized_def)

lemma finalize_calls_Cons:
  "finalize_calls ((dup, i, n, a, r) # cs) d =
     (let x = finalizeResult i n a (if dup then DEDUP_PLACEHOLDER_RESULT else r) d;
          y = finalize_calls cs (snd x)
      in (fst x # fst y, snd y))"
  by (simp add: Let_def split: prod.splits)

lemma finalize_one:
  assumes m: "m < length cs" and ok: "finalized before cs m d" and dist: "distinct (map call_id cs)"
    and c: "cs ! m = (i, n, a, r)" and r': "repeated cs m \<or> r' = r"
  shows "fst (finalizeResult i n a r' d) = Some (answer before cs m) \<and>
    finalized before cs (Suc m) (snd (finalizeResult i n a r' d))"
proof -
  have id: "call_id (cs ! m) = i" and key: "keys cs ! m = makeKey n a" using m c by simp_all
  have other: "call_id (cs ! j) \<noteq> i" if "Suc m \<le> j" "j < length cs" for j
    using dist that m id nth_eq_iff_index_eq [of "map call_id cs" j m] by auto
  have get: "map_get (callKeyByCallId d) i = Some (keys cs ! m)"
    using finalizedD(1) [OF ok order_refl m] id by simp
  have syn: "i \<in> set (syntheticCallIds d) \<longleftrightarrow> repeated cs m"
    using finalizedD(2) [OF ok order_refl m] id by simp
  have def: "map_get (stepDeferreds d) (keys cs ! m) =
      Some (if first_at cs m < m then Some (answer before cs m) else None)"
    by (rule finalized_deferred [OF ok m])
  show ?thesis
  proof (cases "repeated cs m")
    case True
    then have lt: "first_at cs m < m" using first_at_props(1) [OF m] by (simp add: repeated_def)
    have same: "first_at cs j < Suc m \<longleftrightarrow> first_at cs j < m" if "j < length cs" for j
    proof -
      have "first_at cs j \<noteq> m"
        using True first_at_props(1,2) [OF that] first_at_eqI [OF that, of m] m
        by (metis repeated_def)
      then show ?thesis by linarith
    qed
    have "finalizeResult i n a r' d = (Some (answer before cs m),
        d\<lparr>callKeyByCallId := map_remove i (callKeyByCallId d),
          syntheticCallIds := oset_remove i (syntheticCallIds d)\<rparr>)"
      using True get syn def lt by (simp add: finalizeResult_def)
    then show ?thesis using ok other same
      by (auto simp: finalized_def simp del: nth_map)
  next
    case False
    then have first: "first_at cs m = m" by (simp add: repeated_def)
    have idx: "map_get (originalCallIndex d) i = Some m"
      using finalizedD(3) [OF ok order_refl m False] id by simp
    have calls: "stepCalls d = keys cs" "consecutiveKey d = last_key before" "consecutiveCount d = run_length before"
      using ok by (simp_all add: finalized_def)
    have streak: "foldl count_key (last_key before, run_length before) ks =
        (last_key (before @ ks), run_length (before @ ks))" for ks
      by (metis count_keys foldl_append)
    have r: "r' = r" using False r' by simp
    have ans: "escalate (run_length (before @ take (m + 1) (keys cs))) n a r = answer before cs m"
      by (simp add: answer_def first c)
    let ?d = "d\<lparr>callKeyByCallId := map_remove i (callKeyByCallId d),
      originalCallIndex := map_remove i (originalCallIndex d),
      stepDeferreds := map_put (keys cs ! m) (Some (answer before cs m)) (stepDeferreds d)\<rparr>"
    have fin: "finalizeResult i n a r' d = (Some (answer before cs m), ?d)"
      using False get syn def first idx
      unfolding finalizeResult_def Let_def
      by (simp add: calls streak r resolve_deferred_def ans [simplified] del: nth_map)
    have "map_get (stepDeferreds ?d) (keys cs ! j) =
        Some (if first_at cs j < Suc m then Some (answer before cs j) else None)" if j: "j < length cs" for j
    proof (cases "keys cs ! j = keys cs ! m")
      case True
      then have "first_at cs j = m" using first_at_eqI [OF m j True] first by simp
      moreover have "answer before cs j = answer before cs m"
        using answer_first [OF j] \<open>first_at cs j = m\<close> by simp
      ultimately show ?thesis using True by (simp del: nth_map)
    next
      case False
      then have "first_at cs j \<noteq> m" using first_at_props(2) [OF j] by metis
      moreover have "map_get (stepDeferreds d) (keys cs ! j) =
          Some (if first_at cs j < m then Some (answer before cs j) else None)"
        by (rule finalized_deferred [OF ok j])
      ultimately show ?thesis using False by (simp del: nth_map add: less_Suc_eq)
    qed
    then show ?thesis using ok other unfolding fin
      by (auto simp: finalized_def simp del: nth_map)
  qed
qed

lemma finalize_all:
  assumes "distinct (map call_id cs)" and "finalized before cs m d" and "m \<le> length cs"
    and "dups = map (repeated cs) [0..<length cs]"
  shows "fst (finalize_calls (drop m (zip dups cs)) d) = map (\<lambda>j. Some (answer before cs j)) [m..<length cs]"
    and "stepCalls (snd (finalize_calls (drop m (zip dups cs)) d)) = keys cs \<and>
      consecutiveKey (snd (finalize_calls (drop m (zip dups cs)) d)) = last_key before \<and>
      consecutiveCount (snd (finalize_calls (drop m (zip dups cs)) d)) = run_length before"
proof -
  have len: "length dups = length cs" using assms(4) by simp
  have "fst (finalize_calls (drop m (zip dups cs)) d) = map (\<lambda>j. Some (answer before cs j)) [m..<length cs] \<and>
    stepCalls (snd (finalize_calls (drop m (zip dups cs)) d)) = keys cs \<and>
      consecutiveKey (snd (finalize_calls (drop m (zip dups cs)) d)) = last_key before \<and>
      consecutiveCount (snd (finalize_calls (drop m (zip dups cs)) d)) = run_length before"
    using assms(2,3)
  proof (induction "length cs - m" arbitrary: m d)
    case 0
    then show ?case by (simp add: len finalized_def)
  next
    case (Suc x)
    then have m: "m < length cs" by simp
    obtain i n a r where c: "cs ! m = (i, n, a, r)" by (cases "cs ! m")
    let ?r = "if repeated cs m then DEDUP_PLACEHOLDER_RESULT else r"
    have "repeated cs m \<or> ?r = r" by simp
    from finalize_one [OF m Suc.prems(1) assms(1) c this]
    have one: "fst (finalizeResult i n a ?r d) = Some (answer before cs m)"
      "finalized before cs (Suc m) (snd (finalizeResult i n a ?r d))" by auto
    have "drop m (zip dups cs) = (repeated cs m, i, n, a, r) # drop (Suc m) (zip dups cs)"
      using m c assms(4) by (simp add: Cons_nth_drop_Suc [symmetric] len)
    moreover from Suc.hyps(1) [OF _ one(2)] Suc.hyps(2) m
    have "fst (finalize_calls (drop (Suc m) (zip dups cs)) (snd (finalizeResult i n a ?r d))) =
        map (\<lambda>j. Some (answer before cs j)) [Suc m..<length cs] \<and>
      stepCalls (snd (finalize_calls (drop (Suc m) (zip dups cs)) (snd (finalizeResult i n a ?r d)))) = keys cs \<and>
      consecutiveKey (snd (finalize_calls (drop (Suc m) (zip dups cs)) (snd (finalizeResult i n a ?r d)))) = last_key before \<and>
      consecutiveCount (snd (finalize_calls (drop (Suc m) (zip dups cs)) (snd (finalizeResult i n a ?r d)))) = run_length before"
      by simp
    ultimately show ?case using one(1) m
      by (simp add: upt_conv_Cons finalize_calls_Cons Let_def del: finalize_calls.simps)
  qed
  then show "fst (finalize_calls (drop m (zip dups cs)) d) = map (\<lambda>j. Some (answer before cs j)) [m..<length cs]"
    and "stepCalls (snd (finalize_calls (drop m (zip dups cs)) d)) = keys cs \<and>
      consecutiveKey (snd (finalize_calls (drop m (zip dups cs)) d)) = last_key before \<and>
      consecutiveCount (snd (finalize_calls (drop m (zip dups cs)) d)) = run_length before" by auto
qed

section \<open>Steps and turns\<close>

lemma dedup_step_answers:
  assumes "distinct (map call_id cs)"
    and "consecutiveKey d = last_key before" and "consecutiveCount d = run_length before"
  shows "fst (dedup_step cs d) = map (\<lambda>j. Some (answer before cs j)) [0..<length cs]"
    and "consecutiveKey (snd (dedup_step cs d)) = last_key (before @ keys cs)"
    and "consecutiveCount (snd (dedup_step cs d)) = run_length (before @ keys cs)"
proof -
  let ?d0 = "fst (beginStep d)"
  note ch = check_calls_checked [OF assms(1), of d]
  then have hits: "fst (check_calls cs ?d0) = map (repeated cs) [0..<length cs]"
    by (auto simp: repeated_iff simp del: nth_map)
  from ch assms(2,3) have "finalized before cs 0 (snd (check_calls cs ?d0))"
    by (intro checked_finalized) simp_all
  note all = finalize_all [OF assms(1) this _ hits, simplified]
  have step: "dedup_step cs d = (fst (finalize_calls (zip (fst (check_calls cs ?d0)) cs) (snd (check_calls cs ?d0))),
      endStep (snd (finalize_calls (zip (fst (check_calls cs ?d0)) cs) (snd (check_calls cs ?d0)))))"
    by (simp add: dedup_step_def split: prod.splits)
  have streak: "foldl count_key (last_key before, run_length before) ks =
      (last_key (before @ ks), run_length (before @ ks))" for ks
    by (metis count_keys foldl_append)
  show "fst (dedup_step cs d) = map (\<lambda>j. Some (answer before cs j)) [0..<length cs]"
    unfolding step using all(1) by simp
  show "consecutiveKey (snd (dedup_step cs d)) = last_key (before @ keys cs)"
    "consecutiveCount (snd (dedup_step cs d)) = run_length (before @ keys cs)"
    unfolding step using all(2) by (simp_all add: endStep_def streak)
qed

definition dedup_turn :: "dedup_call list list \<Rightarrow> ToolCallDeduplicator" where
  "dedup_turn css = foldl (\<lambda>d cs. snd (dedup_step cs d)) new_deduplicator css"

lemma dedup_turn_counts:
  "\<forall>cs \<in> set css. distinct (map call_id cs) \<Longrightarrow>
   consecutiveKey (dedup_turn css) = last_key (concat (map keys css)) \<and>
   consecutiveCount (dedup_turn css) = run_length (concat (map keys css))"
proof (induction css rule: rev_induct)
  case Nil
  then show ?case by (simp add: dedup_turn_def new_deduplicator_def last_key_def run_length_def)
next
  case (snoc cs css)
  then show ?case
    using dedup_step_answers(2,3) [of cs "dedup_turn css" "concat (map keys css)"]
    by (simp add: dedup_turn_def)
qed

text \<open>
  C38: Repetition is judged over the whole turn. After any steps of a turn, in each of which call
  ids are distinct, the next step answers every call (none is left waiting): a call that repeats an
  earlier one of the step gets the result of that one, and the first with its key gets the
  result of its execution, escalated by the length of the run of equal calls that ends with it in
  the sequence of all calls of the turn.
\<close>

theorem dedup_judges_runs:
  assumes "\<forall>ds \<in> set css. distinct (map call_id ds)" and "distinct (map call_id cs)"
  shows "fst (dedup_step cs (dedup_turn css)) =
     map (\<lambda>j. Some (answer (concat (map keys css)) cs j)) [0..<length cs]"
  using dedup_turn_counts [OF assms(1)] by (intro dedup_step_answers(1) assms(2)) simp_all

theorem dedup_judges_runs_witness:
  "fst (dedup_step [(''c'', ''Bash'', JObj [(''command'', JStr ''ls'')], text_result ''x'' None)]
     (dedup_turn [[(''a'', ''Bash'', JObj [(''command'', JStr ''ls'')], text_result ''x'' None),
                   (''b'', ''Bash'', JObj [(''command'', JStr ''ls'')], text_result ''y'' None)]]))
   = [Some (text_result (''x'' @ REMINDER_TEXT_1) None)]"
proof -
  let ?ls = "JObj [(''command'', JStr ''ls'')]"
  let ?step = "[(''a'', ''Bash'', ?ls, text_result ''x'' None), (''b'', ''Bash'', ?ls, text_result ''y'' None)]"
  let ?cs = "[(''c'', ''Bash'', ?ls, text_result ''x'' None)]"
  have "\<forall>ds \<in> set [?step]. distinct (map call_id ds)" "distinct (map call_id ?cs)" by simp_all
  note run = dedup_judges_runs [OF this]
  show ?thesis unfolding run
    by (simp add: answer_def first_at_def run_length_def escalate_def REPEAT_REMINDER_1_START_def
        REPEAT_REMINDER_2_START_def REPEAT_REMINDER_3_START_def REPEAT_FORCE_STOP_STREAK_def
        appendReminder_def text_result_def)
qed

text \<open>
  Call ids that repeat within a step. When a provider gives two equal calls of one response the same
  id, the first of them is finalized as the duplicate: it waits for the result that only
  it would settle, so it is never answered.
\<close>

lemma repeated_id_is_never_answered:
  "hd (fst (dedup_step [(i, n, a, r), (i, n, a, r)] d)) = None"
  by (simp add: dedup_step_def beginStep_def checkSameStep_def finalizeResult_def Let_def
      split: prod.splits)

end
