(* ===== verification/Loop_Core.thy ===== *)
theory Loop_Core
  imports Tool_Dedup Tool_Access
begin

text \<open>
  The ground of the agent loop: its events and their dispatcher (\<open>loop/events.ts\<close>), its errors
  (\<open>loop/errors.ts\<close>), and the calls it makes to its host, collected in \<open>loop_host\<close>
  (\<open>loop/types.ts\<close>, \<open>loop/llm.ts\<close>).

  The world of the host (context, provider, tools, hooks, the abort signal) is a value of an
  arbitrary type \<open>'w\<close> that every call to the host may change; so whatever runs beside the loop
  between two of its own actions is covered by the choice of the host's functions. \<open>ls_events\<close> is
  the sequence of dispatched events, \<open>ls_added\<close> the calls handed to the scheduler to be executed,
  each with the arguments its tool is given, and
  \<open>ls_pendingText\<close>, \<open>ls_pendingThinking\<close> the deltas of the block that is being streamed.
  Fields of events that only identify or time them (turn, step number, latency, finish reason)
  are left out, as are telemetry, logging and tool progress.
\<close>

section \<open>Events and errors\<close>

datatype LoopInterruptReason = IntAborted | IntMaxSteps | IntError

datatype LoopEvent =
    Recorded LoopRecordedEvent
  | LiveInterrupted LoopInterruptReason nat "nat option" "string option"
  | LiveRetrying nat nat nat nat
  | LiveText string
  | LiveThinking string
  | LiveCallDelta string "string option" "string option"

text \<open>An \<open>AbortError\<close>, the error of \<open>createMaxStepsExceededError\<close>, any other.\<close>

datatype loop_error = AbortError string | MaxStepsExceeded nat | OtherError string string

definition isAbortError :: "loop_error \<Rightarrow> bool" where
  "isAbortError e = (case e of AbortError m \<Rightarrow> True | _ \<Rightarrow> False)"

definition isMaxStepsExceededError :: "loop_error \<Rightarrow> bool" where
  "isMaxStepsExceededError e = (case e of MaxStepsExceeded n \<Rightarrow> True | _ \<Rightarrow> False)"

definition max_steps_message :: "nat \<Rightarrow> string" where
  "max_steps_message n = ''Turn exceeded maxSteps='' @ show_count n @
     ''. If max_steps_per_turn is too small, raise it in config.toml (loop_control.max_steps_per_turn), or run '' @
     [CHR 0x22] @ ''/update-config'' @ [CHR 0x22] @ '' to update it, then '' @ [CHR 0x22] @ ''/reload'' @
     [CHR 0x22] @ ''.''"

definition errorMessage :: "loop_error \<Rightarrow> string" where
  "errorMessage e = (case e of AbortError m \<Rightarrow> m | MaxStepsExceeded n \<Rightarrow> max_steps_message n | OtherError nm m \<Rightarrow> m)"

section \<open>What the loop asks of its host\<close>

datatype FinishReason = FR_tool_calls | FR_completed | FR_truncated | FR_filtered | FR_paused | FR_other

record LLMChatResponse =
  lr_toolCalls :: "ToolCall list"
  lr_providerFinishReason :: "FinishReason option"
  lr_usage :: TokenUsage

text \<open>The callbacks a provider makes while it streams, in order.\<close>

datatype stream_item =
    OnTextDelta string
  | OnThinkDelta string
  | OnToolCallDelta string "string option" "string option"
  | OnTextPart string
  | OnThinkPart string "string option"

text \<open>What a tool or hook returns where a result is expected.\<close>

datatype raw_result = RawMissing | RawPrimitive string | RawMalformed | RawResult LoopToolResult

record LoopPrepareResult =
  pre_block :: bool
  pre_reason :: "string option"
  pre_synthetic :: "raw_result option"
  pre_metadata :: "string option"
  pre_updatedArgs :: "json option"

datatype setup_error = PathSecurity string | SetupFailed string

datatype tool_resolution =
    ResolvedError LoopToolResult
  | ResolvedRun "ToolAccesses option" "bool option"

text \<open>The run of one tool: whether the signal was aborted when it was to start, how it settled
  (the tool itself, or the grace time after an abort ran out), whether the signal was aborted then.\<close>

datatype tool_settled = ToolReturned raw_result | ToolThrew loop_error | GraceExpired

record tool_run =
  tr_abortedAtStart :: bool
  tr_settled :: tool_settled
  tr_abortedAtEnd :: bool

datatype LoopStepStopReason = SR_end_turn | SR_max_tokens | SR_tool_use | SR_filtered | SR_paused | SR_unknown

record 'w loop_host =
  h_aborted :: "'w \<Rightarrow> bool"
  h_userCancelled :: "'w \<Rightarrow> bool"
  h_uuid :: "'w \<Rightarrow> string \<times> 'w"
  h_append :: "LoopRecordedEvent \<Rightarrow> 'w \<Rightarrow> loop_error option \<times> 'w"
  h_emit :: "LoopEvent \<Rightarrow> 'w \<Rightarrow> 'w"
  h_chat :: "nat \<Rightarrow> Message list \<Rightarrow> 'w \<Rightarrow> (stream_item list \<times> (loop_error + LLMChatResponse)) \<times> 'w"
  h_isRetryable :: "(loop_error \<Rightarrow> bool) option"
  h_recoverableMedia :: "loop_error \<Rightarrow> bool"
  h_recoverableStructure :: "loop_error \<Rightarrow> bool"
  h_delays :: "nat \<Rightarrow> nat list"
  h_sleep :: "nat \<Rightarrow> 'w \<Rightarrow> loop_error option \<times> 'w"
  h_buildMessages :: "'w \<Rightarrow> (loop_error + Message list) \<times> 'w"
  h_buildMessagesStrict :: "('w \<Rightarrow> (loop_error + Message list) \<times> 'w) option"
  h_recordUsage :: "TokenUsage \<Rightarrow> 'w \<Rightarrow> (loop_error + bool) \<times> 'w"
  h_beforeStep :: "(nat \<Rightarrow> 'w \<Rightarrow> (loop_error + (bool \<times> string option)) \<times> 'w) option"
  h_afterStep :: "(nat \<Rightarrow> LoopStepStopReason \<Rightarrow> 'w \<Rightarrow> (loop_error + bool) \<times> 'w) option"
  h_shouldContinue :: "(nat \<Rightarrow> LoopStepStopReason \<Rightarrow> 'w \<Rightarrow> (loop_error + bool) \<times> 'w) option"
  h_parse :: "string \<Rightarrow> json option"
  h_hasTool :: "string \<Rightarrow> bool"
  h_validate :: "string \<Rightarrow> json \<Rightarrow> string option"
  h_prepare :: "(ToolCall \<Rightarrow> json \<Rightarrow> 'w \<Rightarrow> (loop_error + LoopPrepareResult option) \<times> 'w) option"
  h_resolve :: "string \<Rightarrow> json \<Rightarrow> 'w \<Rightarrow> (setup_error + tool_resolution) \<times> 'w"
  h_authorize :: "(ToolCall \<Rightarrow> json \<Rightarrow> 'w \<Rightarrow> (loop_error + LoopPrepareResult option) \<times> 'w) option"
  h_start :: "ToolCall \<Rightarrow> ToolAccesses \<Rightarrow> json \<Rightarrow> string option \<Rightarrow> 'w \<Rightarrow> 'w"
  h_run :: "ToolCall \<Rightarrow> json \<Rightarrow> string option \<Rightarrow> 'w \<Rightarrow> tool_run \<times> 'w"
  h_finalize :: "(ToolCall \<Rightarrow> json \<Rightarrow> LoopToolResult \<Rightarrow> 'w \<Rightarrow> (loop_error + raw_result option) \<times> 'w) option"
  h_normalizeImages :: "ContentPart list \<Rightarrow> ContentPart list"
  h_maxSteps :: "nat option"
  h_maxRetryAttempts :: "nat option"

section \<open>State and sequencing\<close>

text \<open>A call that was handed over for execution: its id and its arguments.\<close>

type_synonym added_call = "string \<times> json"

record 'w loop_state =
  ls_world :: 'w
  ls_events :: "LoopEvent list"
  ls_added :: "added_call list"
  ls_pendingText :: string
  ls_pendingThinking :: string
  ls_usage :: TokenUsage

type_synonym ('w, 'a) loop = "'w loop_state \<Rightarrow> (loop_error + 'a) \<times> 'w loop_state"

definition ret :: "'a \<Rightarrow> ('w, 'a) loop" where
  "ret a = (\<lambda>s. (Inr a, s))"

definition throw :: "loop_error \<Rightarrow> ('w, 'a) loop" where
  "throw e = (\<lambda>s. (Inl e, s))"

definition andThen :: "('w, 'a) loop \<Rightarrow> ('a \<Rightarrow> ('w, 'b) loop) \<Rightarrow> ('w, 'b) loop" where
  "andThen m k = (\<lambda>s. case m s of (Inl e, s1) \<Rightarrow> (Inl e, s1) | (Inr a, s1) \<Rightarrow> k a s1)"

definition catch :: "('w, 'a) loop \<Rightarrow> (loop_error \<Rightarrow> ('w, 'a) loop) \<Rightarrow> ('w, 'a) loop" where
  "catch m h = (\<lambda>s. case m s of (Inl e, s1) \<Rightarrow> h e s1 | (Inr a, s1) \<Rightarrow> (Inr a, s1))"

text \<open>A call to the host that only changes its world.\<close>

definition host :: "('w \<Rightarrow> 'a \<times> 'w) \<Rightarrow> ('w, 'a) loop" where
  "host f = (\<lambda>s. case f (ls_world s) of (a, w) \<Rightarrow> (Inr a, s\<lparr>ls_world := w\<rparr>))"

definition hostE :: "('w \<Rightarrow> (loop_error + 'a) \<times> 'w) \<Rightarrow> ('w, 'a) loop" where
  "hostE f = (\<lambda>s. case f (ls_world s) of (r, w) \<Rightarrow> (r, s\<lparr>ls_world := w\<rparr>))"

definition get_aborted :: "'w loop_host \<Rightarrow> ('w, bool) loop" where
  "get_aborted H = (\<lambda>s. (Inr (h_aborted H (ls_world s)), s))"

definition throwIfAborted :: "'w loop_host \<Rightarrow> ('w, unit) loop" where
  "throwIfAborted H = (\<lambda>s. if h_aborted H (ls_world s) then (Inl (AbortError ''This operation was aborted''), s)
     else (Inr (), s))"

section \<open>Dispatching\<close>

definition note_event :: "'w loop_host \<Rightarrow> LoopEvent \<Rightarrow> 'w loop_state \<Rightarrow> 'w loop_state" where
  "note_event H ev s = s\<lparr>ls_world := h_emit H ev (ls_world s), ls_events := ls_events s @ [ev]\<rparr>"

text \<open>\<open>recordEvent\<close> appends to the transcript, which may throw, before it tells the listeners, whose
  failures are swallowed.\<close>

definition dispatchEvent :: "'w loop_host \<Rightarrow> LoopEvent \<Rightarrow> ('w, unit) loop" where
  "dispatchEvent H ev = (\<lambda>s.
     case ev of
       Recorded r \<Rightarrow>
         (case h_append H r (ls_world s) of
            (Some e, w) \<Rightarrow> (Inl e, s\<lparr>ls_world := w\<rparr>)
          | (None, w) \<Rightarrow> (Inr (), note_event H ev (s\<lparr>ls_world := w\<rparr>)))
     | _ \<Rightarrow> (Inr (), note_event H ev s))"

text \<open>The transcript: what has been recorded.\<close>

fun recorded_of :: "LoopEvent \<Rightarrow> LoopRecordedEvent list" where
  "recorded_of (Recorded r) = [r]"
| "recorded_of _ = []"

definition recorded :: "'w loop_state \<Rightarrow> LoopRecordedEvent list" where
  "recorded s = concat (map recorded_of (ls_events s))"

section \<open>Facts about sequencing\<close>

named_theorems loop_simps \<open>how the sequencing operators act on a state\<close>

lemma seq_simps [loop_simps]:
  "ret a s = (Inr a, s)"
  "throw e s = (Inl e, s)"
  "andThen m k s = (case m s of (Inl e, s1) \<Rightarrow> (Inl e, s1) | (Inr a, s1) \<Rightarrow> k a s1)"
  "catch m h s = (case m s of (Inl e, s1) \<Rightarrow> h e s1 | (Inr a, s1) \<Rightarrow> (Inr a, s1))"
  "host f s = (Inr (fst (f (ls_world s))), s\<lparr>ls_world := snd (f (ls_world s))\<rparr>)"
  "hostE g s = (fst (g (ls_world s)), s\<lparr>ls_world := snd (g (ls_world s))\<rparr>)"
  "get_aborted H s = (Inr (h_aborted H (ls_world s)), s)"
  by (simp_all add: ret_def throw_def andThen_def catch_def host_def hostE_def get_aborted_def split: prod.splits)

end
