(* ===== verification/Tool_Batch.thy ===== *)
theory Tool_Batch
  imports Loop_Core
begin

text \<open>
  The tool calls of one provider response (\<open>loop/tool-call.ts\<close>): validation, the hooks before a
  call, its execution, and the results in the order of the calls.

  A prepared call is handed to the scheduler (\<open>scheduler.add\<close>) before the next one is prepared, and may
  start at once; which calls overlap or wait is the business of \<open>Tool_Scheduler\<close>. Here \<open>h_start\<close>
  is what adding the call does to the world of the host, and \<open>h_run\<close>, called where the batch awaits the
  result, reports how the run went (was the signal aborted when it was to start, how did it settle).
  Both are choices of the host, and what the run does in between is part of what any call to the host
  may do to its world. The dash
  U+2014 of the message for a user's interruption is written as two hyphens.
\<close>

section \<open>Data\<close>

datatype PreflightedToolCall =
    RunnableToolCall ToolCall json
  | RejectedToolCall ToolCall json string

fun call_of :: "PreflightedToolCall \<Rightarrow> ToolCall" where
  "call_of (RunnableToolCall tc a) = tc"
| "call_of (RejectedToolCall tc a m) = tc"

fun args_of :: "PreflightedToolCall \<Rightarrow> json" where
  "args_of (RunnableToolCall tc a) = a"
| "args_of (RejectedToolCall tc a m) = a"

datatype PrepareToolExecutionDecision =
    PrepAllowed json "string option"
  | PrepSynthetic json raw_result
  | PrepBlocked json string
  | PrepHookFailed json string

record PendingToolResult =
  ptr_toolCall :: ToolCall
  ptr_args :: json
  ptr_result :: LoopToolResult
  ptr_stopTurn :: bool

text \<open>A task of the scheduler: a result that is there already, or a tool to run.\<close>

datatype batch_task =
    ResolvedTask PendingToolResult
  | RunTask ToolAccesses PreflightedToolCall json "string option"

record PreparedToolCallTask =
  pt_task :: batch_task
  pt_stopBatchAfterThis :: bool

definition tool_quoted :: "string \<Rightarrow> string" where
  "tool_quoted tool = ''Tool '' @ [CHR 0x22] @ tool @ [CHR 0x22]"

definition in_quotes :: "string \<Rightarrow> string" where
  "in_quotes t = [CHR 0x22] @ t @ [CHR 0x22]"

definition abortedToolOutput :: "'w loop_host \<Rightarrow> string \<Rightarrow> 'w \<Rightarrow> string" where
  "abortedToolOutput H tool w =
     (if h_userCancelled H w then
        ''The user manually interrupted '' @ in_quotes tool @ '' (and anything else running at the same time). '' @
        ''This was a deliberate user action, not a system error, timeout, or capacity limit. '' @
        ''Do not retry automatically or guess at the cause -- wait for the user's next instruction.''
      else tool_quoted tool @ '' was aborted'')"

section \<open>Results\<close>

definition error_result :: "string \<Rightarrow> LoopToolResult" where
  "error_result output = text_result output (Some True)"

definition toolResultStopsTurn :: "LoopToolResult \<Rightarrow> bool" where
  "toolResultStopsTurn r \<longleftrightarrow> tr_stopTurn r = Some True"

definition makeToolResult :: "PreflightedToolCall \<Rightarrow> json \<Rightarrow> LoopToolResult \<Rightarrow> PendingToolResult" where
  "makeToolResult call args result = \<lparr>ptr_toolCall = call_of call, ptr_args = args, ptr_result = result,
     ptr_stopTurn = toolResultStopsTurn result\<rparr>"

definition makeErrorToolResult :: "PreflightedToolCall \<Rightarrow> json \<Rightarrow> string \<Rightarrow> PendingToolResult" where
  "makeErrorToolResult call args output = makeToolResult call args (error_result output)"

fun coerceToolResult :: "raw_result \<Rightarrow> string \<Rightarrow> LoopToolResult" where
  "coerceToolResult RawMissing tool = error_result (tool_quoted tool @ '' returned no result.'')"
| "coerceToolResult (RawPrimitive t) tool =
     error_result (tool_quoted tool @ '' returned a '' @ t @ '' instead of a tool result.'')"
| "coerceToolResult RawMalformed tool =
     error_result (tool_quoted tool @ '' returned a result with a missing or malformed '' @ in_quotes ''output'' @ '' field.'')"
| "coerceToolResult (RawResult r) tool = r"

fun isMediaContentPart :: "ContentPart \<Rightarrow> bool" where
  "isMediaContentPart (ImageURLPart u d) = True"
| "isMediaContentPart (AudioURLPart u d) = True"
| "isMediaContentPart (VideoURLPart u d) = True"
| "isMediaContentPart (TextPart t) = False"
| "isMediaContentPart (ThinkPart t e) = False"

definition TOOL_OUTPUT_EMPTY :: string where "TOOL_OUTPUT_EMPTY = ''Tool output is empty.''"
definition TOOL_OUTPUT_NON_TEXT :: string where "TOOL_OUTPUT_NON_TEXT = ''Tool returned non-text content.''"

definition normalized_output :: "(ContentPart list \<Rightarrow> ContentPart list) \<Rightarrow> string + ContentPart list \<Rightarrow> string + ContentPart list" where
  "normalized_output images out =
     (case out of
        Inl t \<Rightarrow> Inl (if length t > 0 then t else TOOL_OUTPUT_EMPTY)
      | Inr parts \<Rightarrow>
          if length parts = 0 then Inl TOOL_OUTPUT_EMPTY
          else let normalizedParts = images parts
            in if list_ex isMediaContentPart normalizedParts then
                 (if list_ex (\<lambda>c. is_text c \<and> length (part_text c) > 0) normalizedParts
                  then Inr normalizedParts
                  else Inr (TextPart TOOL_OUTPUT_NON_TEXT # normalizedParts))
               else let textJoined = concat (map part_text (filter is_text normalizedParts))
                 in Inl (if length textJoined > 0 then textJoined else TOOL_OUTPUT_EMPTY))"

definition normalizeToolResult :: "'w loop_host \<Rightarrow> LoopToolResult \<Rightarrow> LoopToolResult" where
  "normalizeToolResult H r =
     \<lparr>tr_output = normalized_output (h_normalizeImages H) (tr_output r),
      tr_isError = (if tr_isError r = Some True then Some True else None), tr_stopTurn = None,
      tr_truncated = (if tr_truncated r = Some True then Some True else None), tr_message = None\<rparr>"

section \<open>Before a call\<close>

definition preflightToolCall :: "'w loop_host \<Rightarrow> ToolCall \<Rightarrow> PreflightedToolCall" where
  "preflightToolCall H tc =
     (let tool = tc_name tc; parsed = parseToolCallArguments (h_parse H) (tc_arguments tc)
      in if \<not> h_hasTool H tool then RejectedToolCall tc (pa_data parsed) (tool_quoted tool @ '' not found'')
         else case h_validate H tool (pa_data parsed) of
           Some e \<Rightarrow> RejectedToolCall tc (pa_data parsed) (''Invalid args for tool '' @ in_quotes tool @ '': '' @ e)
         | None \<Rightarrow> RunnableToolCall tc (pa_data parsed))"

text \<open>The step id, whose events the batch writes, is \<open>u\<close>.\<close>

definition dispatchToolCall :: "'w loop_host \<Rightarrow> string \<Rightarrow> PreflightedToolCall \<Rightarrow> json \<Rightarrow> ('w, unit) loop" where
  "dispatchToolCall H u call args =
     dispatchEvent H (Recorded (ToolCallEvent u (tc_id (call_of call)) (tc_name (call_of call)) (Some (stringify args))))"

definition runPrepareToolExecutionHook ::
  "'w loop_host \<Rightarrow> ToolCall \<Rightarrow> json \<Rightarrow> ('w, PrepareToolExecutionDecision) loop" where
  "runPrepareToolExecutionHook H tc args =
     (case h_prepare H of
        None \<Rightarrow> ret (PrepAllowed args None)
      | Some hook \<Rightarrow>
          andThen (host (hook tc args)) (\<lambda>r. andThen (get_aborted H) (\<lambda>aborted.
            case r of
              Inl e \<Rightarrow> ret (PrepHookFailed args
                (if isAbortError e \<or> aborted
                 then tool_quoted (tc_name tc) @ '' was aborted during prepareToolExecution hook''
                 else ''prepareToolExecution hook failed for '' @ in_quotes (tc_name tc) @ '': '' @ errorMessage e))
            | Inr None \<Rightarrow> ret (PrepAllowed args None)
            | Inr (Some p) \<Rightarrow>
                (let effectiveArgs = (case pre_updatedArgs p of Some a \<Rightarrow> a | None \<Rightarrow> args)
                 in if pre_block p then ret (PrepBlocked effectiveArgs
                      (case pre_reason p of Some m \<Rightarrow> m
                       | None \<Rightarrow> ''Tool call '' @ in_quotes (tc_name tc) @ '' was blocked''))
                    else case pre_synthetic p of
                      Some r \<Rightarrow> ret (PrepSynthetic effectiveArgs r)
                    | None \<Rightarrow> ret (PrepAllowed effectiveArgs (pre_metadata p))))))"

text \<open>The decision of the authorize hook; a failing hook blocks.\<close>

definition blocking :: "string \<Rightarrow> LoopPrepareResult" where
  "blocking reason = \<lparr>pre_block = True, pre_reason = Some reason, pre_synthetic = None,
     pre_metadata = None, pre_updatedArgs = None\<rparr>"

definition runAuthorizeToolExecutionHook ::
  "'w loop_host \<Rightarrow> ToolCall \<Rightarrow> json \<Rightarrow> ('w, LoopPrepareResult option) loop" where
  "runAuthorizeToolExecutionHook H tc args =
     (case h_authorize H of
        None \<Rightarrow> ret None
      | Some hook \<Rightarrow>
          andThen (host (hook tc args)) (\<lambda>r. andThen (get_aborted H) (\<lambda>aborted.
            case r of
              Inr d \<Rightarrow> ret d
            | Inl e \<Rightarrow> ret (Some (blocking
                (if isAbortError e \<or> aborted
                 then tool_quoted (tc_name tc) @ '' was aborted during authorizeToolExecution hook''
                 else ''authorizeToolExecution hook failed for '' @ in_quotes (tc_name tc) @ '': '' @ errorMessage e))))))"

definition resolved_task :: "PendingToolResult \<Rightarrow> bool \<Rightarrow> PreparedToolCallTask" where
  "resolved_task r stop = \<lparr>pt_task = ResolvedTask r, pt_stopBatchAfterThis = stop\<rparr>"

definition settleError ::
  "'w loop_host \<Rightarrow> string \<Rightarrow> PreflightedToolCall \<Rightarrow> json \<Rightarrow> string \<Rightarrow> ('w, PreparedToolCallTask) loop" where
  "settleError H u call args output =
     andThen (dispatchToolCall H u call args)
       (\<lambda>_. ret (resolved_task (makeErrorToolResult call args output) False))"

definition settleSynthetic ::
  "'w loop_host \<Rightarrow> string \<Rightarrow> PreflightedToolCall \<Rightarrow> json \<Rightarrow> raw_result \<Rightarrow> ('w, PreparedToolCallTask) loop" where
  "settleSynthetic H u call args result =
     (let coerced = coerceToolResult result (tc_name (call_of call))
      in andThen (dispatchToolCall H u call args)
           (\<lambda>_. ret (resolved_task (makeToolResult call args coerced) (toolResultStopsTurn coerced))))"

text \<open>\<open>settleAborted\<close>; the wording depends on the signal at that moment.\<close>

definition settleAborted ::
  "'w loop_host \<Rightarrow> string \<Rightarrow> PreflightedToolCall \<Rightarrow> json \<Rightarrow> ('w, PreparedToolCallTask) loop" where
  "settleAborted H u call args = (\<lambda>s.
     settleError H u call args (abortedToolOutput H (tc_name (call_of call)) (ls_world s)) s)"

text \<open>From the arguments the prepare hook allowed to the authorized task.\<close>

definition authorizeToolCall ::
  "'w loop_host \<Rightarrow> string \<Rightarrow> PreflightedToolCall \<Rightarrow> json \<Rightarrow> string option \<Rightarrow> ToolAccesses option \<Rightarrow> bool option \<Rightarrow>
   ('w, PreparedToolCallTask) loop" where
  "authorizeToolCall H u call args metadata accesses stopBatch =
     andThen (runAuthorizeToolExecutionHook H (call_of call) args) (\<lambda>authorization.
     andThen (get_aborted H) (\<lambda>aborted.
       if aborted then settleAborted H u call args
       else case authorization of
         Some a \<Rightarrow>
           (if pre_block a then settleError H u call args
              (case pre_reason a of Some m \<Rightarrow> m
               | None \<Rightarrow> ''Tool call '' @ in_quotes (tc_name (call_of call)) @ '' was blocked'')
            else case pre_synthetic a of
              Some r \<Rightarrow> settleSynthetic H u call args r
            | None \<Rightarrow>
                andThen (dispatchToolCall H u call args) (\<lambda>_. ret
                  \<lparr>pt_task = RunTask (case accesses of Some x \<Rightarrow> x | None \<Rightarrow> acc_all) call args
                     (case pre_metadata a of Some m \<Rightarrow> Some m | None \<Rightarrow> metadata),
                   pt_stopBatchAfterThis = (stopBatch = Some True)\<rparr>))
       | None \<Rightarrow>
           andThen (dispatchToolCall H u call args) (\<lambda>_. ret
             \<lparr>pt_task = RunTask (case accesses of Some x \<Rightarrow> x | None \<Rightarrow> acc_all) call args metadata,
              pt_stopBatchAfterThis = (stopBatch = Some True)\<rparr>)))"

text \<open>From the arguments the prepare hook allowed: validation again, then the tool's own setup.\<close>

definition resolveToolCall ::
  "'w loop_host \<Rightarrow> string \<Rightarrow> PreflightedToolCall \<Rightarrow> json \<Rightarrow> string option \<Rightarrow> ('w, PreparedToolCallTask) loop" where
  "resolveToolCall H u call args metadata =
     (let tool = tc_name (call_of call)
      in case h_validate H tool args of
           Some e \<Rightarrow> settleError H u call args
             (''Invalid args for tool '' @ in_quotes tool @ '' after prepareToolExecution hook: '' @ e)
         | None \<Rightarrow>
             andThen (host (h_resolve H tool args)) (\<lambda>r.
               case r of
                 Inl (PathSecurity m) \<Rightarrow> settleError H u call args m
               | Inl (SetupFailed m) \<Rightarrow> settleError H u call args
                   (tool_quoted tool @ '' failed to resolve execution: '' @ m)
               | Inr execution \<Rightarrow>
                   andThen (get_aborted H) (\<lambda>aborted.
                     if aborted then settleAborted H u call args
                     else case execution of
                       ResolvedError x \<Rightarrow> settleSynthetic H u call args (RawResult x)
                     | ResolvedRun accesses stopBatch \<Rightarrow>
                         authorizeToolCall H u call args metadata accesses stopBatch)))"

definition prepareToolCall :: "'w loop_host \<Rightarrow> string \<Rightarrow> PreflightedToolCall \<Rightarrow> ('w, PreparedToolCallTask) loop" where
  "prepareToolCall H u call =
     (case call of
        RejectedToolCall tc args output \<Rightarrow> settleError H u call args output
      | RunnableToolCall tc args \<Rightarrow>
          andThen (runPrepareToolExecutionHook H tc args) (\<lambda>decision.
            case decision of
              PrepBlocked a output \<Rightarrow> settleError H u call a output
            | PrepHookFailed a output \<Rightarrow> settleError H u call a output
            | PrepSynthetic a r \<Rightarrow> settleSynthetic H u call a r
            | PrepAllowed a metadata \<Rightarrow> resolveToolCall H u call a metadata))"

definition prepareSkippedToolCall :: "'w loop_host \<Rightarrow> string \<Rightarrow> PreflightedToolCall \<Rightarrow> ('w, PreparedToolCallTask) loop" where
  "prepareSkippedToolCall H u call =
     settleError H u call (args_of call) ''Tool skipped because a previous tool call stopped the turn.''"

section \<open>Running a call\<close>

definition GRACE_TIMEOUT_MS :: nat where "GRACE_TIMEOUT_MS = 2000"

definition grace_result :: "string \<Rightarrow> LoopToolResult" where
  "grace_result tool = error_result (tool_quoted tool @ '' aborted by grace timeout ('' @
     show_count GRACE_TIMEOUT_MS @ ''ms)'')"

definition runRunnableToolCall ::
  "'w loop_host \<Rightarrow> PreflightedToolCall \<Rightarrow> json \<Rightarrow> string option \<Rightarrow> ('w, PendingToolResult) loop" where
  "runRunnableToolCall H call args metadata = (\<lambda>s.
     let tc = call_of call; tool = tc_name tc;
         (report, w) = h_run H tc args metadata (ls_world s);
         s1 = s\<lparr>ls_world := w\<rparr>
     in if tr_abortedAtStart report
        then (Inr (makeErrorToolResult call args (abortedToolOutput H tool w)), s1)
        else case tr_settled report of
               ToolReturned raw \<Rightarrow> (Inr (makeToolResult call args (coerceToolResult raw tool)), s1)
             | GraceExpired \<Rightarrow> (Inr (makeToolResult call args (grace_result tool)), s1)
             | ToolThrew e \<Rightarrow>
                 (Inr (makeErrorToolResult call args
                    (if isAbortError e \<or> tr_abortedAtEnd report then abortedToolOutput H tool w
                     else tool_quoted tool @ '' failed: '' @ errorMessage e)), s1))"

definition await_task :: "'w loop_host \<Rightarrow> batch_task \<Rightarrow> ('w, PendingToolResult) loop" where
  "await_task H t = (case t of ResolvedTask r \<Rightarrow> ret r | RunTask acc call args m \<Rightarrow> runRunnableToolCall H call args m)"

section \<open>Results in order\<close>

definition finalizePendingToolResult :: "'w loop_host \<Rightarrow> PendingToolResult \<Rightarrow> ('w, PendingToolResult) loop" where
  "finalizePendingToolResult H p =
     (case h_finalize H of
        None \<Rightarrow> ret (p\<lparr>ptr_result := normalizeToolResult H (ptr_result p)\<rparr>)
      | Some hook \<Rightarrow>
          andThen (host (hook (ptr_toolCall p) (ptr_args p) (ptr_result p))) (\<lambda>r. andThen (get_aborted H) (\<lambda>aborted.
            let tool = tc_name (ptr_toolCall p)
            in case r of
                 Inr fin \<Rightarrow>
                   (let effectiveResult = coerceToolResult
                          (case fin of Some x \<Rightarrow> x | None \<Rightarrow> RawResult (ptr_result p)) tool
                    in ret (p\<lparr>ptr_stopTurn := ptr_stopTurn p \<or> toolResultStopsTurn effectiveResult,
                              ptr_result := normalizeToolResult H effectiveResult\<rparr>))
               | Inl e \<Rightarrow>
                   ret (p\<lparr>ptr_result := error_result
                     (if isAbortError e \<or> aborted then tool_quoted tool @ '' aborted during finalizeToolResult hook.''
                      else ''finalizeToolResult hook failed for '' @ in_quotes tool @ '': '' @ errorMessage e)\<rparr>))))"

definition result_event :: "PendingToolResult \<Rightarrow> LoopEvent" where
  "result_event p = Recorded (ToolResultEvent (tc_id (ptr_toolCall p)) (ExecutableToolResult.truncate (ptr_result p)))"

text \<open>\<open>Promise.allSettled\<close> over the tasks that have not been awaited.\<close>

fun settle_tasks :: "'w loop_host \<Rightarrow> batch_task list \<Rightarrow> 'w loop_state \<Rightarrow> 'w loop_state" where
  "settle_tasks H [] s = s"
| "settle_tasks H (t # ts) s = settle_tasks H ts (snd (await_task H t s))"

definition emit_result :: "'w loop_host \<Rightarrow> batch_task \<Rightarrow> bool \<Rightarrow> ('w, bool) loop" where
  "emit_result H t stopTurn =
     andThen (await_task H t) (\<lambda>p.
     andThen (finalizePendingToolResult H p) (\<lambda>q.
     andThen (dispatchEvent H (result_event q)) (\<lambda>_. ret (stopTurn \<or> ptr_stopTurn q))))"

fun emit_results :: "'w loop_host \<Rightarrow> batch_task list \<Rightarrow> bool \<Rightarrow> ('w, bool) loop" where
  "emit_results H [] stopTurn s = (Inr stopTurn, s)"
| "emit_results H (t # ts) stopTurn s =
     (case emit_result H t stopTurn s of
        (Inr stop, s1) \<Rightarrow> emit_results H ts stop s1
      | (Inl e, s1) \<Rightarrow> (Inl e, settle_tasks H ts s1))"

section \<open>The batch\<close>

text \<open>\<open>scheduler.add\<close>: a call with a tool to run may start from here on.\<close>

definition note_added :: "added_call \<Rightarrow> 'w loop_state \<Rightarrow> 'w loop_state" where
  "note_added x s = s\<lparr>ls_added := ls_added s @ [x]\<rparr>"

definition add_to_scheduler :: "'w loop_host \<Rightarrow> batch_task \<Rightarrow> 'w loop_state \<Rightarrow> 'w loop_state" where
  "add_to_scheduler H t s = (case t of
     ResolvedTask r \<Rightarrow> s
   | RunTask accesses call args metadata \<Rightarrow>
       note_added (tc_id (call_of call), args)
         (s\<lparr>ls_world := h_start H (call_of call) accesses args metadata (ls_world s)\<rparr>))"

text \<open>Preparation gives the tasks added so far, also when it throws.\<close>

fun skip_calls :: "'w loop_host \<Rightarrow> string \<Rightarrow> PreflightedToolCall list \<Rightarrow> 'w loop_state \<Rightarrow>
    batch_task list \<times> (loop_error + unit) \<times> 'w loop_state" where
  "skip_calls H u [] s = ([], Inr (), s)"
| "skip_calls H u (call # calls) s =
     (case prepareSkippedToolCall H u call s of
        (Inl e, s1) \<Rightarrow> ([], Inl e, s1)
      | (Inr p, s1) \<Rightarrow>
          (case skip_calls H u calls (add_to_scheduler H (pt_task p) s1) of (ts, r, s2) \<Rightarrow> (pt_task p # ts, r, s2)))"

fun prepare_calls :: "'w loop_host \<Rightarrow> string \<Rightarrow> PreflightedToolCall list \<Rightarrow> 'w loop_state \<Rightarrow>
    batch_task list \<times> (loop_error + bool) \<times> 'w loop_state" where
  "prepare_calls H u [] s = ([], Inr False, s)"
| "prepare_calls H u (call # calls) s =
     (case prepareToolCall H u call s of
        (Inl e, s1) \<Rightarrow> ([], Inl e, s1)
      | (Inr p, s1) \<Rightarrow>
          let s2 = add_to_scheduler H (pt_task p) s1
          in if pt_stopBatchAfterThis p
             then (case skip_calls H u calls s2 of (ts, r, s3) \<Rightarrow> (pt_task p # ts, map_sum id (\<lambda>_. True) r, s3))
             else (case prepare_calls H u calls s2 of (ts, r, s3) \<Rightarrow> (pt_task p # ts, r, s3)))"

definition runToolCallBatch :: "'w loop_host \<Rightarrow> string \<Rightarrow> LLMChatResponse \<Rightarrow> ('w, bool) loop" where
  "runToolCallBatch H u response = (\<lambda>s.
     if length (lr_toolCalls response) = 0 then (Inr False, s)
     else case prepare_calls H u (map (preflightToolCall H) (lr_toolCalls response)) s of
       (tasks, Inl e, s1) \<Rightarrow> (Inl e, settle_tasks H tasks s1)
     | (tasks, Inr stopTurn, s1) \<Rightarrow> emit_results H tasks stopTurn s1)"

end
