(* ===== verification/Turn_Loop.thy ===== *)
theory Turn_Loop
  imports Tool_Batch
begin

text \<open>
  The loop of a turn: provider calls with retries (\<open>loop/retry.ts\<close>), one step with its streaming
  and its two fallbacks (\<open>loop/turn-step.ts\<close>), and the turn (\<open>loop/run-turn.ts\<close>). The callbacks of a
  stream are run when the provider's call has come back, with the world it left. The loop of
  \<open>runTurn\<close> may go on for ever; \<open>turn_loop\<close> takes the number of rounds it may still make.
\<close>

section \<open>Usage\<close>

definition emptyUsage :: TokenUsage where
  "emptyUsage = \<lparr>inputOther = 0, output_tokens = 0, inputCacheRead = 0, inputCacheCreation = 0\<rparr>"

definition addUsage :: "TokenUsage \<Rightarrow> TokenUsage \<Rightarrow> TokenUsage" where
  "addUsage a b = \<lparr>inputOther = inputOther a + inputOther b, output_tokens = output_tokens a + output_tokens b,
     inputCacheRead = inputCacheRead a + inputCacheRead b,
     inputCacheCreation = inputCacheCreation a + inputCacheCreation b\<rparr>"

section \<open>Streaming\<close>

definition discardPending :: "('w, unit) loop" where
  "discardPending = (\<lambda>s. (Inr (), s\<lparr>ls_pendingText := [], ls_pendingThinking := []\<rparr>))"

definition emitPart :: "'w loop_host \<Rightarrow> string \<Rightarrow> ContentPart \<Rightarrow> ('w, unit) loop" where
  "emitPart H u part = dispatchEvent H (Recorded (ContentPartEvent u part))"

definition flushPending :: "'w loop_host \<Rightarrow> string \<Rightarrow> ('w, unit) loop" where
  "flushPending H u = (\<lambda>s.
     let thinking = ls_pendingThinking s; txt = ls_pendingText s
     in andThen discardPending (\<lambda>_.
        andThen (if length thinking > 0 then emitPart H u (ThinkPart thinking None) else ret ()) (\<lambda>_.
        if length txt > 0 then emitPart H u (TextPart txt) else ret ())) s)"

text \<open>One callback of the provider.\<close>

definition stream_callback :: "'w loop_host \<Rightarrow> string \<Rightarrow> stream_item \<Rightarrow> ('w, unit) loop" where
  "stream_callback H u item = (\<lambda>s.
     case item of
       OnTextDelta d \<Rightarrow> dispatchEvent H (LiveText d) (s\<lparr>ls_pendingText := ls_pendingText s @ d\<rparr>)
     | OnThinkDelta d \<Rightarrow> dispatchEvent H (LiveThinking d) (s\<lparr>ls_pendingThinking := ls_pendingThinking s @ d\<rparr>)
     | OnToolCallDelta i n a \<Rightarrow> dispatchEvent H (LiveCallDelta i n a) s
     | OnTextPart t \<Rightarrow> emitPart H u (TextPart t) (s\<lparr>ls_pendingText := []\<rparr>)
     | OnThinkPart t enc \<Rightarrow> emitPart H u (ThinkPart t enc) (s\<lparr>ls_pendingThinking := []\<rparr>))"

fun run_stream :: "'w loop_host \<Rightarrow> string \<Rightarrow> stream_item list \<Rightarrow> ('w, unit) loop" where
  "run_stream H u [] = ret ()"
| "run_stream H u (i # is) = andThen (stream_callback H u i) (\<lambda>_. run_stream H u is)"

text \<open>\<open>llm.chat\<close> awaits the callbacks, so it rejects when one of them does.\<close>

definition chat :: "'w loop_host \<Rightarrow> string \<Rightarrow> nat \<Rightarrow> Message list \<Rightarrow> ('w, LLMChatResponse) loop" where
  "chat H u attempt msgs =
     andThen (host (h_chat H attempt msgs)) (\<lambda>(items, outcome).
     andThen (run_stream H u items) (\<lambda>_. (\<lambda>s. (outcome, s))))"

section \<open>Retries\<close>

definition DEFAULT_MAX_RETRY_ATTEMPTS :: nat where "DEFAULT_MAX_RETRY_ATTEMPTS = 3"

definition hostThrows :: "('w \<Rightarrow> loop_error option \<times> 'w) \<Rightarrow> ('w, unit) loop" where
  "hostThrows f = hostE (\<lambda>w. case f w of (None, w1) \<Rightarrow> (Inr (), w1) | (Some e, w1) \<Rightarrow> (Inl e, w1))"

definition sleepForRetry :: "'w loop_host \<Rightarrow> nat \<Rightarrow> ('w, unit) loop" where
  "sleepForRetry H delayMs = andThen (throwIfAborted H) (\<lambda>_. hostThrows (h_sleep H delayMs))"

text \<open>The loop, by the number of attempts left after this one.\<close>

fun retry_loop :: "'w loop_host \<Rightarrow> string \<Rightarrow> Message list \<Rightarrow> (loop_error \<Rightarrow> bool) \<Rightarrow> nat list \<Rightarrow> nat \<Rightarrow> nat \<Rightarrow> nat \<Rightarrow>
    ('w, LLMChatResponse) loop" where
  "retry_loop H u msgs isRetryable delays maxAttempts 0 attempt = chat H u attempt msgs"
| "retry_loop H u msgs isRetryable delays maxAttempts (Suc left) attempt =
     catch (chat H u attempt msgs) (\<lambda>e.
       if \<not> isRetryable e then throw e
       else let delayMs = (if attempt - 1 < length delays then delays ! (attempt - 1) else 0)
         in andThen (throwIfAborted H) (\<lambda>_.
            andThen discardPending (\<lambda>_.
            andThen (dispatchEvent H (LiveRetrying attempt (attempt + 1) maxAttempts delayMs)) (\<lambda>_.
            andThen (sleepForRetry H delayMs) (\<lambda>_.
            retry_loop H u msgs isRetryable delays maxAttempts left (attempt + 1))))))"

definition chatWithRetry :: "'w loop_host \<Rightarrow> string \<Rightarrow> Message list \<Rightarrow> ('w, LLMChatResponse) loop" where
  "chatWithRetry H u msgs =
     (let maxAttempts = (case h_maxRetryAttempts H of None \<Rightarrow> DEFAULT_MAX_RETRY_ATTEMPTS | Some n \<Rightarrow> n)
      in case h_isRetryable H of
           None \<Rightarrow> chat H u 1 msgs
         | Some isRetryable \<Rightarrow>
             if maxAttempts \<le> 1 then chat H u 1 msgs
             else retry_loop H u msgs isRetryable (h_delays H maxAttempts) maxAttempts (maxAttempts - 1) 1)"

section \<open>Media that a provider rejects\<close>

definition media_omitted :: "string \<Rightarrow> string" where
  "media_omitted kind = ''['' @ kind @ '' omitted: the provider rejected this media payload. '' @
     ''Continue with the surrounding text and tool output.]''"

fun rejectedMediaPlaceholder :: "ContentPart \<Rightarrow> string option" where
  "rejectedMediaPlaceholder (ImageURLPart u d) = Some (media_omitted ''image'')"
| "rejectedMediaPlaceholder (AudioURLPart u d) = Some (media_omitted ''audio'')"
| "rejectedMediaPlaceholder (VideoURLPart u d) = Some (media_omitted ''video'')"
| "rejectedMediaPlaceholder (TextPart t) = None"
| "rejectedMediaPlaceholder (ThinkPart t e) = None"

definition replace_media :: "ContentPart \<Rightarrow> ContentPart" where
  "replace_media p = (case rejectedMediaPlaceholder p of None \<Rightarrow> p | Some t \<Rightarrow> TextPart t)"

definition omitMediaAfterProviderRejection :: "Message list \<Rightarrow> Message list \<times> nat" where
  "omitMediaAfterProviderRejection msgs =
     (map (\<lambda>m. m\<lparr>content := map replace_media (content m)\<rparr>) msgs,
      length (filter (\<lambda>p. rejectedMediaPlaceholder p \<noteq> None) (concat (map content msgs))))"

section \<open>One step\<close>

definition deriveStepStopReason :: "LLMChatResponse \<Rightarrow> LoopStepStopReason" where
  "deriveStepStopReason r =
     (let uses = (if length (lr_toolCalls r) > 0 then SR_tool_use else SR_end_turn)
      in case lr_providerFinishReason r of
           Some FR_truncated \<Rightarrow> SR_max_tokens
         | Some FR_filtered \<Rightarrow> SR_filtered
         | Some FR_paused \<Rightarrow> SR_paused
         | Some FR_other \<Rightarrow> SR_unknown
         | Some FR_completed \<Rightarrow> uses
         | None \<Rightarrow> uses
         | Some FR_tool_calls \<Rightarrow> (if length (lr_toolCalls r) > 0 then SR_tool_use else SR_unknown))"

text \<open>The provider's response, with the two ways to resend a request it rejects.\<close>

definition request_response :: "'w loop_host \<Rightarrow> string \<Rightarrow> Message list \<Rightarrow> ('w, LLMChatResponse) loop" where
  "request_response H u msgs =
     catch (chatWithRetry H u msgs) (\<lambda>e.
       let (mediaFree, omittedCount) = omitMediaAfterProviderRejection msgs
       in if h_recoverableMedia H e \<and> omittedCount > 0 then
            andThen (throwIfAborted H) (\<lambda>_. andThen discardPending (\<lambda>_. chatWithRetry H u mediaFree))
          else case h_buildMessagesStrict H of
            None \<Rightarrow> throw e
          | Some build \<Rightarrow>
              if \<not> h_recoverableStructure H e then throw e
              else andThen (throwIfAborted H) (\<lambda>_.
                   andThen (hostE build) (\<lambda>strict.
                   andThen (throwIfAborted H) (\<lambda>_.
                   andThen discardPending (\<lambda>_. chatWithRetry H u strict)))))"

text \<open>A step that fails keeps what has been streamed; failing to record it changes nothing.\<close>

definition response_or_flush :: "'w loop_host \<Rightarrow> string \<Rightarrow> Message list \<Rightarrow> ('w, LLMChatResponse) loop" where
  "response_or_flush H u msgs =
     catch (request_response H u msgs) (\<lambda>e.
       andThen (catch (flushPending H u) (\<lambda>_. ret ())) (\<lambda>_. throw e))"

text \<open>\<open>recordStepUsage\<close> of \<open>runTurn\<close>: the turn's own count, then the host's.\<close>

definition recordStepUsage :: "'w loop_host \<Rightarrow> TokenUsage \<Rightarrow> ('w, bool) loop" where
  "recordStepUsage H usage = (\<lambda>s. hostE (h_recordUsage H usage) (s\<lparr>ls_usage := addUsage (ls_usage s) usage\<rparr>))"

text \<open>After the response: usage, tools, the end of the step, the hook that watches it.\<close>

definition finish_step ::
  "'w loop_host \<Rightarrow> string \<Rightarrow> nat \<Rightarrow> LLMChatResponse \<Rightarrow> ('w, TokenUsage \<times> LoopStepStopReason) loop" where
  "finish_step H u currentStep response =
     (let usage = lr_usage response in
      andThen (recordStepUsage H usage) (\<lambda>stopTurnAfterUsage.
      let stopReason = deriveStepStopReason response;
          allowed = (if stopTurnAfterUsage \<and> stopReason = SR_tool_use then SR_end_turn else stopReason)
      in andThen (if allowed = SR_tool_use
                  then andThen (runToolCallBatch H u response) (\<lambda>stop. ret (if stop then SR_end_turn else allowed))
                  else ret allowed) (\<lambda>effectiveStopReason.
         andThen (throwIfAborted H) (\<lambda>_.
         andThen (dispatchEvent H (Recorded (StepEnd u (Some usage)))) (\<lambda>_.
         andThen (case h_afterStep H of
                    None \<Rightarrow> ret stopTurnAfterUsage
                  | Some hook \<Rightarrow> catch (andThen (hostE (hook currentStep effectiveStopReason))
                                        (\<lambda>b. ret (stopTurnAfterUsage \<or> b))) (\<lambda>_. ret stopTurnAfterUsage))
           (\<lambda>stopTurnAfterStep.
         ret (usage, if stopTurnAfterStep \<and> effectiveStopReason = SR_tool_use then SR_end_turn
                     else effectiveStopReason)))))))"

definition executeLoopStep :: "'w loop_host \<Rightarrow> nat \<Rightarrow> ('w, TokenUsage \<times> LoopStepStopReason) loop" where
  "executeLoopStep H currentStep =
     andThen (case h_beforeStep H of
                None \<Rightarrow> ret ()
              | Some hook \<Rightarrow> andThen (hostE (hook currentStep)) (\<lambda>(block, reason).
                  if block then throw (OtherError ''Error'' (case reason of Some r \<Rightarrow> r
                    | None \<Rightarrow> ''Step '' @ show_count currentStep @ '' was blocked''))
                  else ret ())) (\<lambda>_.
     andThen (throwIfAborted H) (\<lambda>_.
     andThen (hostE (h_buildMessages H)) (\<lambda>msgs.
     andThen (throwIfAborted H) (\<lambda>_.
     andThen (host (h_uuid H)) (\<lambda>u.
     andThen (dispatchEvent H (Recorded (StepBegin u))) (\<lambda>_.
     andThen discardPending (\<lambda>_.
     andThen (response_or_flush H u msgs) (\<lambda>response.
     finish_step H u currentStep response))))))))"

section \<open>The turn\<close>

datatype LoopTurnStopReason = TurnStopped LoopStepStopReason | TurnAborted

record TurnResult =
  turn_stopReason :: LoopTurnStopReason
  turn_steps :: nat
  turn_usage :: TokenUsage

text \<open>How the rounds end: a stop reason, or an error with the step that was running, and the number
  of steps begun. \<open>None\<close>: the rounds are used up.\<close>

datatype turn_exit = TurnEnds LoopStepStopReason | TurnFails loop_error "nat option"

fun turn_loop :: "'w loop_host \<Rightarrow> nat \<Rightarrow> nat \<Rightarrow> 'w loop_state \<Rightarrow> (turn_exit \<times> nat \<times> 'w loop_state) option" where
  "turn_loop H 0 steps s = None"
| "turn_loop H (Suc fuel) steps s =
     (if h_aborted H (ls_world s) then Some (TurnFails (AbortError ''This operation was aborted'') None, steps, s)
      else if (case h_maxSteps H of None \<Rightarrow> False | Some n \<Rightarrow> n > 0 \<and> steps \<ge> n)
      then Some (TurnFails (MaxStepsExceeded (the (h_maxSteps H))) None, steps, s)
      else case executeLoopStep H (steps + 1) s of
        (Inl e, s1) \<Rightarrow> Some (TurnFails e (Some (steps + 1)), steps + 1, s1)
      | (Inr (usage, reason), s1) \<Rightarrow>
          if reason = SR_tool_use then turn_loop H fuel (steps + 1) s1
          else (case h_shouldContinue H of
            None \<Rightarrow> Some (TurnEnds reason, steps + 1, s1)
          | Some hook \<Rightarrow>
              (case hostE (hook (steps + 1) reason) s1 of
                 (Inl e, s2) \<Rightarrow> Some (TurnFails e None, steps + 1, s2)
               | (Inr goOn, s2) \<Rightarrow>
                   if goOn then turn_loop H fuel (steps + 1) s2 else Some (TurnEnds reason, steps + 1, s2))))"

definition makeInterruptedEvent :: "LoopInterruptReason \<Rightarrow> nat \<Rightarrow> nat option \<Rightarrow> string option \<Rightarrow> LoopEvent" where
  "makeInterruptedEvent reason attemptedSteps activeStep msg = LiveInterrupted reason attemptedSteps activeStep msg"

definition runTurn :: "'w loop_host \<Rightarrow> nat \<Rightarrow> 'w loop_state \<Rightarrow> ((loop_error + TurnResult) \<times> 'w loop_state) option" where
  "runTurn H fuel s0 =
     (case turn_loop H fuel 0 (s0\<lparr>ls_usage := emptyUsage\<rparr>) of
        None \<Rightarrow> None
      | Some (TurnEnds reason, steps, s) \<Rightarrow>
          Some (Inr \<lparr>turn_stopReason = TurnStopped reason, turn_steps = steps, turn_usage = ls_usage s\<rparr>, s)
      | Some (TurnFails e active, steps, s) \<Rightarrow>
          Some (if isAbortError e \<or> h_aborted H (ls_world s)
            then (Inr \<lparr>turn_stopReason = TurnAborted, turn_steps = steps, turn_usage = ls_usage s\<rparr>,
                  snd (dispatchEvent H (makeInterruptedEvent IntAborted steps active None) s))
            else (Inl e, snd (dispatchEvent H (makeInterruptedEvent
                   (if isMaxStepsExceededError e then IntMaxSteps else IntError) steps active (Some (errorMessage e))) s))))"

end
