(* ===== verification/Loop_Facts.thy ===== *)
theory Loop_Facts
  imports Turn_Loop "HOL-Library.Sublist"
begin

text \<open>
  A calculus for the operations of the loop. \<open>yields m Q E\<close> states what an operation adds to the
  recorded events and to the calls handed to the scheduler: \<open>Q\<close> when it returns, \<open>E\<close> when it throws. Its rules
  follow the sequencing operators; so the lemma for an operation is proved by its structure.
\<close>

section \<open>The calculus\<close>

definition yields ::
  "('w, 'a) loop \<Rightarrow> ('a \<Rightarrow> LoopRecordedEvent list \<Rightarrow> added_call list \<Rightarrow> bool) \<Rightarrow>
   (LoopRecordedEvent list \<Rightarrow> added_call list \<Rightarrow> bool) \<Rightarrow> bool" where
  "yields m Q E \<longleftrightarrow> (\<forall>s. case m s of
      (Inr a, s') \<Rightarrow> \<exists>evs ex. recorded s' = recorded s @ evs \<and> ls_added s' = ls_added s @ ex \<and> Q a evs ex
    | (Inl e, s') \<Rightarrow> \<exists>evs ex. recorded s' = recorded s @ evs \<and> ls_added s' = ls_added s @ ex \<and> E evs ex)"

text \<open>Nothing is added.\<close>

definition silent :: "('w, 'a) loop \<Rightarrow> bool" where
  "silent m \<longleftrightarrow> yields m (\<lambda>_ evs ex. evs = [] \<and> ex = []) (\<lambda>evs ex. evs = [] \<and> ex = [])"

lemma yieldsI:
  assumes "\<And>s a s'. m s = (Inr a, s') \<Longrightarrow>
      \<exists>evs ex. recorded s' = recorded s @ evs \<and> ls_added s' = ls_added s @ ex \<and> Q a evs ex"
    and "\<And>s e s'. m s = (Inl e, s') \<Longrightarrow>
      \<exists>evs ex. recorded s' = recorded s @ evs \<and> ls_added s' = ls_added s @ ex \<and> E evs ex"
  shows "yields m Q E"
  unfolding yields_def using assms by (auto split: prod.splits sum.splits)

lemma yieldsD:
  assumes "yields m Q E"
  shows "m s = (Inr a, s') \<Longrightarrow> \<exists>evs ex. recorded s' = recorded s @ evs \<and> ls_added s' = ls_added s @ ex \<and> Q a evs ex"
    and "m s = (Inl e, s') \<Longrightarrow> \<exists>evs ex. recorded s' = recorded s @ evs \<and> ls_added s' = ls_added s @ ex \<and> E evs ex"
proof -
  note inst = assms [unfolded yields_def, THEN spec, of s]
  show "m s = (Inr a, s') \<Longrightarrow> \<exists>evs ex. recorded s' = recorded s @ evs \<and> ls_added s' = ls_added s @ ex \<and> Q a evs ex"
    using inst by simp
  show "m s = (Inl e, s') \<Longrightarrow> \<exists>evs ex. recorded s' = recorded s @ evs \<and> ls_added s' = ls_added s @ ex \<and> E evs ex"
    using inst by simp
qed

lemma yields_mono:
  assumes "yields m Q E" and "\<And>a evs ex. Q a evs ex \<Longrightarrow> Q' a evs ex" and "\<And>evs ex. E evs ex \<Longrightarrow> E' evs ex"
  shows "yields m Q' E'"
proof (rule yieldsI)
  fix s a s' assume "m s = (Inr a, s')"
  from yieldsD(1) [OF assms(1) this] assms(2)
  show "\<exists>evs ex. recorded s' = recorded s @ evs \<and> ls_added s' = ls_added s @ ex \<and> Q' a evs ex" by blast
next
  fix s e s' assume "m s = (Inl e, s')"
  from yieldsD(2) [OF assms(1) this] assms(3)
  show "\<exists>evs ex. recorded s' = recorded s @ evs \<and> ls_added s' = ls_added s @ ex \<and> E' evs ex" by blast
qed

text \<open>An operation that reads the state to choose its parameter.\<close>

lemma yields_reading:
  assumes "\<And>s. m s = k (f s) s" and "\<And>x. yields (k x) Q E"
  shows "yields m Q E"
proof (rule yieldsI)
  fix s a s' assume "m s = (Inr a, s')"
  then show "\<exists>evs ex. recorded s' = recorded s @ evs \<and> ls_added s' = ls_added s @ ex \<and> Q a evs ex"
    unfolding assms(1) by (rule yieldsD(1) [OF assms(2)])
next
  fix s e s' assume "m s = (Inl e, s')"
  then show "\<exists>evs ex. recorded s' = recorded s @ evs \<and> ls_added s' = ls_added s @ ex \<and> E evs ex"
    unfolding assms(1) by (rule yieldsD(2) [OF assms(2)])
qed

lemma yields_ret: "Q a [] [] \<Longrightarrow> yields (ret a) Q E"
  by (auto simp: yields_def loop_simps)

lemma yields_throw: "E [] [] \<Longrightarrow> yields (throw e) Q E"
  by (auto simp: yields_def loop_simps)

lemma yields_andThen:
  assumes "yields m P E1" and "\<And>a. yields (k a) (Q1 a) (E2 a)"
    and "\<And>evs ex. E1 evs ex \<Longrightarrow> E evs ex"
    and "\<And>a b evs1 ex1 evs2 ex2. P a evs1 ex1 \<Longrightarrow> Q1 a b evs2 ex2 \<Longrightarrow> Q b (evs1 @ evs2) (ex1 @ ex2)"
    and "\<And>a evs1 ex1 evs2 ex2. P a evs1 ex1 \<Longrightarrow> E2 a evs2 ex2 \<Longrightarrow> E (evs1 @ evs2) (ex1 @ ex2)"
  shows "yields (andThen m k) Q E"
proof (rule yieldsI)
  fix s b s' assume "andThen m k s = (Inr b, s')"
  then obtain a s1 where m: "m s = (Inr a, s1)" and k: "k a s1 = (Inr b, s')"
    by (auto simp: loop_simps split: prod.splits sum.splits)
  from yieldsD(1) [OF assms(1) m] yieldsD(1) [OF assms(2) k]
  show "\<exists>evs ex. recorded s' = recorded s @ evs \<and> ls_added s' = ls_added s @ ex \<and> Q b evs ex"
    using assms(4) by (metis append_assoc)
next
  fix s e s' assume "andThen m k s = (Inl e, s')"
  then consider "m s = (Inl e, s')" | a s1 where "m s = (Inr a, s1)" "k a s1 = (Inl e, s')"
    by (auto simp: loop_simps split: prod.splits sum.splits)
  then show "\<exists>evs ex. recorded s' = recorded s @ evs \<and> ls_added s' = ls_added s @ ex \<and> E evs ex"
  proof cases
    case 1
    from yieldsD(2) [OF assms(1) this] show ?thesis using assms(3) by blast
  next
    case 2
    from yieldsD(1) [OF assms(1) 2(1)] yieldsD(2) [OF assms(2) 2(2)]
    show ?thesis using assms(5) by (metis append_assoc)
  qed
qed

lemma yields_catch:
  assumes "yields m Q1 E1" and "\<And>e. yields (h e) (Q2 e) (E2 e)"
    and "\<And>a evs ex. Q1 a evs ex \<Longrightarrow> Q a evs ex"
    and "\<And>e a evs1 ex1 evs2 ex2. E1 evs1 ex1 \<Longrightarrow> Q2 e a evs2 ex2 \<Longrightarrow> Q a (evs1 @ evs2) (ex1 @ ex2)"
    and "\<And>e evs1 ex1 evs2 ex2. E1 evs1 ex1 \<Longrightarrow> E2 e evs2 ex2 \<Longrightarrow> E (evs1 @ evs2) (ex1 @ ex2)"
  shows "yields (catch m h) Q E"
proof (rule yieldsI)
  fix s b s' assume "catch m h s = (Inr b, s')"
  then consider "m s = (Inr b, s')" | e s1 where "m s = (Inl e, s1)" "h e s1 = (Inr b, s')"
    by (auto simp: loop_simps split: prod.splits sum.splits)
  then show "\<exists>evs ex. recorded s' = recorded s @ evs \<and> ls_added s' = ls_added s @ ex \<and> Q b evs ex"
  proof cases
    case 1
    from yieldsD(1) [OF assms(1) this] show ?thesis using assms(3) by blast
  next
    case 2
    from yieldsD(2) [OF assms(1) 2(1)] yieldsD(1) [OF assms(2) 2(2)]
    show ?thesis using assms(4) by (metis append_assoc)
  qed
next
  fix s e s' assume "catch m h s = (Inl e, s')"
  then obtain e1 s1 where m: "m s = (Inl e1, s1)" and h: "h e1 s1 = (Inl e, s')"
    by (auto simp: loop_simps split: prod.splits sum.splits)
  from yieldsD(2) [OF assms(1) m] yieldsD(2) [OF assms(2) h]
  show "\<exists>evs ex. recorded s' = recorded s @ evs \<and> ls_added s' = ls_added s @ ex \<and> E evs ex"
    using assms(5) by (metis append_assoc)
qed

text \<open>A silent first operation drops out.\<close>

lemma yields_silent:
  assumes "silent m" and "\<And>a. yields (k a) Q E" and "E [] []"
  shows "yields (andThen m k) Q E"
  by (rule yields_andThen [OF assms(1) [unfolded silent_def] assms(2)]) (use assms(3) in auto)

text \<open>The result of a call to the host may be used.\<close>

lemma yields_host:
  assumes "\<And>w. yields (k (fst (f w))) Q E"
  shows "yields (andThen (host f) k) Q E"
proof (rule yieldsI)
  fix s a s' assume "andThen (host f) k s = (Inr a, s')"
  then have "k (fst (f (ls_world s))) (s\<lparr>ls_world := snd (f (ls_world s))\<rparr>) = (Inr a, s')" by (simp add: loop_simps)
  from yieldsD(1) [OF assms this] show "\<exists>evs ex. recorded s' = recorded s @ evs \<and> ls_added s' = ls_added s @ ex \<and> Q a evs ex"
    by (simp add: recorded_def)
next
  fix s e s' assume "andThen (host f) k s = (Inl e, s')"
  then have "k (fst (f (ls_world s))) (s\<lparr>ls_world := snd (f (ls_world s))\<rparr>) = (Inl e, s')" by (simp add: loop_simps)
  from yieldsD(2) [OF assms this] show "\<exists>evs ex. recorded s' = recorded s @ evs \<and> ls_added s' = ls_added s @ ex \<and> E evs ex"
    by (simp add: recorded_def)
qed

lemma recorded_frame [simp]:
  "recorded (s\<lparr>ls_world := w\<rparr>) = recorded s" "recorded (s\<lparr>ls_pendingText := t\<rparr>) = recorded s"
  "recorded (s\<lparr>ls_pendingThinking := t\<rparr>) = recorded s" "recorded (s\<lparr>ls_usage := v\<rparr>) = recorded s"
  "recorded (note_event H ev s) = recorded s @ recorded_of ev"
  "ls_added (note_event H ev s) = ls_added s"
  "recorded (note_added x s) = recorded s" "ls_added (note_added x s) = ls_added s @ [x]"
  by (simp_all add: recorded_def note_event_def note_added_def)

lemma silent_basic [simp]:
  "silent (ret a)" "silent (throw e)" "silent (host f)" "silent (hostE g)" "silent (get_aborted H)"
  "silent (throwIfAborted H)" "silent discardPending" "silent (hostThrows c)"
  by (auto simp: silent_def yields_def loop_simps throwIfAborted_def discardPending_def hostThrows_def
      split: prod.splits sum.splits)

lemma silent_andThen: "silent m \<Longrightarrow> (\<And>a. silent (k a)) \<Longrightarrow> silent (andThen m k)"
proof -
  assume m: "silent m" and k: "\<And>a. silent (k a)"
  show ?thesis unfolding silent_def
    by (rule yields_silent [OF m]) (use k in \<open>auto simp: silent_def\<close>)
qed

lemma silent_yields: "silent m \<Longrightarrow> (\<And>a. Q a [] []) \<Longrightarrow> E [] [] \<Longrightarrow> yields m Q E"
proof -
  assume m: "silent m" and q: "\<And>a. Q a [] []" and e: "E [] []"
  show ?thesis by (rule yields_mono [OF m [unfolded silent_def]]) (use q e in auto)
qed

lemma dispatch_recorded:
  "yields (dispatchEvent H (Recorded r)) (\<lambda>_ evs ex. evs = [r] \<and> ex = []) (\<lambda>evs ex. evs = [] \<and> ex = [])"
  by (auto simp: yields_def dispatchEvent_def split: prod.splits sum.splits option.splits)

lemma dispatch_live: "recorded_of ev = [] \<Longrightarrow> silent (dispatchEvent H ev)"
  by (cases ev) (auto simp: silent_def yields_def dispatchEvent_def)

section \<open>Preparing calls\<close>

definition call_event :: "string \<Rightarrow> ToolCall \<Rightarrow> LoopRecordedEvent \<Rightarrow> bool" where
  "call_event u tc r = (case r of
     ToolCallEvent v i n a \<Rightarrow> v = u \<and> i = tc_id tc \<and> n = tc_name tc \<and> a \<noteq> None | _ \<Rightarrow> False)"

fun task_call :: "batch_task \<Rightarrow> ToolCall" where
  "task_call (ResolvedTask p) = ptr_toolCall p"
| "task_call (RunTask acc call args m) = call_of call"

fun run_args :: "batch_task \<Rightarrow> json option" where
  "run_args (ResolvedTask p) = None"
| "run_args (RunTask acc call args m) = Some args"

text \<open>What preparing one call adds: its \<open>tool.call\<close> event. A task that runs a tool comes only with
  arguments that \<open>ok\<close> allows.\<close>

definition prepared :: "string \<Rightarrow> ToolCall \<Rightarrow> (json \<Rightarrow> bool) \<Rightarrow> PreparedToolCallTask \<Rightarrow> LoopRecordedEvent list \<Rightarrow>
    added_call list \<Rightarrow> bool" where
  "prepared u tc ok p evs ex \<longleftrightarrow> ex = [] \<and> (\<exists>r. evs = [r] \<and> call_event u tc r) \<and>
     task_call (pt_task p) = tc \<and> (\<forall>a. run_args (pt_task p) = Some a \<longrightarrow> ok a)"

abbreviation nothing :: "LoopRecordedEvent list \<Rightarrow> added_call list \<Rightarrow> bool" where
  "nothing evs ex \<equiv> evs = [] \<and> ex = []"

lemma yields_settleError: "yields (settleError H u call args out) (prepared u (call_of call) ok) nothing"
  unfolding settleError_def dispatchToolCall_def
  by (rule yields_andThen [OF dispatch_recorded yields_ret [where Q = "\<lambda>p evs ex. evs = [] \<and> ex = [] \<and>
      p = resolved_task (makeErrorToolResult call args out) False"]])
    (auto simp: prepared_def call_event_def resolved_task_def makeErrorToolResult_def makeToolResult_def)

lemma yields_settleSynthetic: "yields (settleSynthetic H u call args r) (prepared u (call_of call) ok) nothing"
  unfolding settleSynthetic_def dispatchToolCall_def Let_def
  by (rule yields_andThen [OF dispatch_recorded yields_ret [where Q = "\<lambda>p evs ex. evs = [] \<and> ex = [] \<and>
      ptr_toolCall (case pt_task p of ResolvedTask q \<Rightarrow> q) = call_of call \<and> run_args (pt_task p) = None"]])
    (auto simp: prepared_def call_event_def resolved_task_def makeToolResult_def split: batch_task.splits)

lemma yields_settleAborted: "yields (settleAborted H u call args) (prepared u (call_of call) ok) nothing"
  by (rule yields_reading [OF _ yields_settleError]) (simp add: settleAborted_def)

text \<open>The answer \<open>d\<close> of a hook lets the call through, and the hook gives it in some world; without a hook
  there is nothing to ask.\<close>

definition authorization_stops :: "LoopPrepareResult option \<Rightarrow> bool" where
  "authorization_stops a = (case a of None \<Rightarrow> False | Some p \<Rightarrow> pre_block p \<or> pre_synthetic p \<noteq> None)"

definition passes ::
  "(ToolCall \<Rightarrow> json \<Rightarrow> 'w \<Rightarrow> (loop_error + LoopPrepareResult option) \<times> 'w) option \<Rightarrow> ToolCall \<Rightarrow> json \<Rightarrow>
   LoopPrepareResult option \<Rightarrow> bool" where
  "passes hook tc args d \<longleftrightarrow> \<not> authorization_stops d \<and>
     (case hook of None \<Rightarrow> d = None | Some f \<Rightarrow> \<exists>w. fst (f tc args w) = Inr d)"

lemma passes_None [simp]: "passes None tc args d \<longleftrightarrow> d = None"
  by (auto simp: passes_def authorization_stops_def)

lemma passes_Some: "fst (f tc args w) = Inr d \<Longrightarrow> \<not> authorization_stops d \<Longrightarrow> passes (Some f) tc args d"
  by (auto simp: passes_def)

text \<open>The arguments after the prepare hook.\<close>

definition updated :: "LoopPrepareResult option \<Rightarrow> json \<Rightarrow> json" where
  "updated d args = (case d of None \<Rightarrow> args | Some p \<Rightarrow> (case pre_updatedArgs p of Some a \<Rightarrow> a | None \<Rightarrow> args))"

text \<open>The prepare hook lets the call through with the arguments \<open>a\<close>.\<close>

definition prepares :: "'w loop_host \<Rightarrow> ToolCall \<Rightarrow> json \<Rightarrow> json \<Rightarrow> bool" where
  "prepares H tc args a \<longleftrightarrow> (\<exists>d. passes (h_prepare H) tc args d \<and> a = updated d args)"

text \<open>The tool of the call may be run with the arguments \<open>a\<close>: \<open>may_execute\<close> is what is asked once the prepare
  hook has let the call through with them.\<close>

definition may_execute :: "'w loop_host \<Rightarrow> ToolCall \<Rightarrow> json \<Rightarrow> bool" where
  "may_execute H tc a \<longleftrightarrow> h_validate H (tc_name tc) a = None \<and>
     (\<exists>w accesses stop. fst (h_resolve H (tc_name tc) a w) = Inr (ResolvedRun accesses stop)) \<and>
     (\<exists>d. passes (h_authorize H) tc a d)"

definition may_run :: "'w loop_host \<Rightarrow> PreflightedToolCall \<Rightarrow> json \<Rightarrow> bool" where
  "may_run H call a \<longleftrightarrow> (case call of
     RejectedToolCall tc args m \<Rightarrow> False
   | RunnableToolCall tc args \<Rightarrow> prepares H tc args a \<and> may_execute H tc a)"

lemma blocking_stops [simp]: "authorization_stops (Some (blocking m))"
  by (simp add: authorization_stops_def blocking_def)

lemma authorize_hook:
  "yields (runAuthorizeToolExecutionHook H tc args)
     (\<lambda>a evs ex. nothing evs ex \<and> (\<not> authorization_stops a \<longrightarrow> passes (h_authorize H) tc args a)) nothing"
  by (auto simp: yields_def runAuthorizeToolExecutionHook_def loop_simps intro: passes_Some split: option.splits sum.splits prod.splits)

lemma yields_authorize:
  assumes "\<And>d. passes (h_authorize H) (call_of call) args d \<Longrightarrow> ok args"
  shows "yields (authorizeToolCall H u call args metadata accesses stopBatch) (prepared u (call_of call) ok) nothing"
proof -
  let ?run = "\<lambda>acc md. andThen (dispatchToolCall H u call args) (\<lambda>_. ret
      \<lparr>pt_task = RunTask acc call args md, pt_stopBatchAfterThis = (stopBatch = Some True)\<rparr>)"
  let ?ok = "\<lambda>d (x::json). x = args \<and> \<not> authorization_stops d"
  have run: "\<not> authorization_stops d \<Longrightarrow> yields (?run acc md) (prepared u (call_of call) (?ok d)) nothing" for d acc md
    unfolding dispatchToolCall_def
    by (rule yields_andThen [OF dispatch_recorded yields_ret [where Q = "\<lambda>p evs ex. evs = [] \<and> ex = [] \<and>
        task_call (pt_task p) = call_of call \<and> run_args (pt_task p) = Some args"]]) (auto simp: prepared_def call_event_def)
  show ?thesis
    unfolding authorizeToolCall_def
  proof (rule yields_andThen [OF authorize_hook])
    fix d
    show "yields (andThen (get_aborted H) (\<lambda>aborted. if aborted then settleAborted H u call args
       else case d of
         Some a \<Rightarrow>
           (if pre_block a then settleError H u call args
              (case pre_reason a of Some m \<Rightarrow> m
               | None \<Rightarrow> ''Tool call '' @ in_quotes (tc_name (call_of call)) @ '' was blocked'')
            else case pre_synthetic a of
              Some r \<Rightarrow> settleSynthetic H u call args r
            | None \<Rightarrow> ?run (case accesses of Some x \<Rightarrow> x | None \<Rightarrow> acc_all) (case pre_metadata a of Some m \<Rightarrow> Some m | None \<Rightarrow> metadata))
       | None \<Rightarrow> ?run (case accesses of Some x \<Rightarrow> x | None \<Rightarrow> acc_all) metadata)) (prepared u (call_of call) (?ok d)) nothing"
    proof (rule yields_silent)
      fix aborted
      show "yields (if aborted then settleAborted H u call args
         else case d of
           Some a \<Rightarrow>
             (if pre_block a then settleError H u call args
                (case pre_reason a of Some m \<Rightarrow> m
                 | None \<Rightarrow> ''Tool call '' @ in_quotes (tc_name (call_of call)) @ '' was blocked'')
              else case pre_synthetic a of
                Some r \<Rightarrow> settleSynthetic H u call args r
              | None \<Rightarrow> ?run (case accesses of Some x \<Rightarrow> x | None \<Rightarrow> acc_all) (case pre_metadata a of Some m \<Rightarrow> Some m | None \<Rightarrow> metadata))
         | None \<Rightarrow> ?run (case accesses of Some x \<Rightarrow> x | None \<Rightarrow> acc_all) metadata) (prepared u (call_of call) (?ok d)) nothing"
      proof (cases "authorization_stops d")
        case True
        then obtain a where "d = Some a" "pre_block a \<or> pre_synthetic a \<noteq> None"
          by (auto simp: authorization_stops_def split: option.splits)
        then show ?thesis by (auto simp: yields_settleAborted yields_settleError yields_settleSynthetic)
      next
        case False
        then have "d = None \<or> (\<exists>a. d = Some a \<and> \<not> pre_block a \<and> pre_synthetic a = None)"
          by (auto simp: authorization_stops_def split: option.splits)
        with run [OF False] show ?thesis by (auto simp: yields_settleAborted)
      qed
    qed simp_all
  qed (use assms in \<open>auto simp: prepared_def\<close>)
qed

lemma yields_resolve:
  assumes "may_execute H (call_of call) args \<Longrightarrow> ok args"
  shows "yields (resolveToolCall H u call args metadata) (prepared u (call_of call) ok) nothing"
proof (cases "h_validate H (tc_name (call_of call)) args")
  case None
  have "yields (andThen (get_aborted H) (\<lambda>aborted.
      if aborted then settleAborted H u call args
      else case x of
        ResolvedError r \<Rightarrow> settleSynthetic H u call args (RawResult r)
      | ResolvedRun accesses stopBatch \<Rightarrow> authorizeToolCall H u call args metadata accesses stopBatch))
      (prepared u (call_of call) ok) nothing"
    if x: "fst (h_resolve H (tc_name (call_of call)) args w) = Inr x" for x w
  proof (cases x)
    case (ResolvedRun accesses stop)
    have "ok args" if "passes (h_authorize H) (call_of call) args d" for d
      using assms None x that unfolding ResolvedRun may_execute_def by blast
    then show ?thesis unfolding ResolvedRun
      by (intro yields_silent) (auto intro: yields_settleAborted yields_authorize)
  qed (auto intro!: yields_silent yields_settleAborted yields_settleSynthetic)
  then show ?thesis unfolding resolveToolCall_def Let_def
    by (auto simp: None intro!: yields_host yields_settleError split: sum.split setup_error.split)
qed (simp add: resolveToolCall_def yields_settleError)

lemma prepares_None: "h_prepare H = None \<Longrightarrow> prepares H tc args args"
  by (simp add: prepares_def updated_def)

lemma prepares_Some:
  "h_prepare H = Some f \<Longrightarrow> fst (f tc args w) = Inr d \<Longrightarrow> \<not> authorization_stops d \<Longrightarrow> a = updated d args \<Longrightarrow>
   prepares H tc args a"
  unfolding prepares_def by (metis passes_Some)

lemma prepare_hook:
  "yields (runPrepareToolExecutionHook H tc args)
     (\<lambda>d evs ex. nothing evs ex \<and> (\<forall>a m. d = PrepAllowed a m \<longrightarrow> prepares H tc args a)) nothing"
  by (auto simp: yields_def runPrepareToolExecutionHook_def loop_simps Let_def authorization_stops_def updated_def
      intro: prepares_None prepares_Some split: option.splits sum.splits prod.splits)

lemma yields_prepare:
  "yields (prepareToolCall H u call) (prepared u (call_of call) (may_run H call)) nothing"
proof (cases call)
  case (RejectedToolCall tc args out)
  then show ?thesis
    using yields_settleError [of H u "RejectedToolCall tc args out"] by (simp add: prepareToolCall_def)
next
  case (RunnableToolCall tc args)
  let ?allowed = "\<lambda>d x. (\<exists>m. d = PrepAllowed x m) \<and> may_execute H tc x"
  show ?thesis
    unfolding prepareToolCall_def RunnableToolCall PreflightedToolCall.case
  proof (rule yields_andThen [OF prepare_hook])
    fix d
    show "yields (case d of
              PrepBlocked a output \<Rightarrow> settleError H u (RunnableToolCall tc args) a output
            | PrepHookFailed a output \<Rightarrow> settleError H u (RunnableToolCall tc args) a output
            | PrepSynthetic a r \<Rightarrow> settleSynthetic H u (RunnableToolCall tc args) a r
            | PrepAllowed a metadata \<Rightarrow> resolveToolCall H u (RunnableToolCall tc args) a metadata)
        (prepared u tc (?allowed d)) nothing"
      using yields_settleError [of H u "RunnableToolCall tc args"] yields_settleSynthetic [of H u "RunnableToolCall tc args"]
        yields_resolve [of H "RunnableToolCall tc args"]
      by (simp split: PrepareToolExecutionDecision.splits)
  qed (auto simp: prepared_def may_run_def)
qed

text \<open>A call that is skipped only gets its \<open>tool.call\<close> event.\<close>

lemma yields_skipped:
  "yields (prepareSkippedToolCall H u call) (prepared u (call_of call) (may_run H call)) nothing"
  unfolding prepareSkippedToolCall_def by (rule yields_settleError)

lemma call_of_preflight [simp]: "call_of (preflightToolCall H tc) = tc"
  by (simp add: preflightToolCall_def Let_def split: option.split)

text \<open>Preparation goes through an initial part of the calls, all of them when it does not throw.\<close>

definition task_for :: "'w loop_host \<Rightarrow> PreflightedToolCall \<Rightarrow> batch_task \<Rightarrow> bool" where
  "task_for H call t \<longleftrightarrow> task_call t = call_of call \<and> (\<forall>a. run_args t = Some a \<longrightarrow> may_run H call a)"

text \<open>What the scheduler is given to run, in the order of the tasks.\<close>

definition added_of :: "batch_task list \<Rightarrow> added_call list" where
  "added_of ts = concat (map (\<lambda>t. case run_args t of None \<Rightarrow> [] | Some a \<Rightarrow> [(tc_id (task_call t), a)]) ts)"

lemma added_of_simps [simp]:
  "added_of [] = []"
  "added_of (t # ts) = (case run_args t of None \<Rightarrow> [] | Some a \<Rightarrow> [(tc_id (task_call t), a)]) @ added_of ts"
  by (simp_all add: added_of_def)

lemma add_to_scheduler_adds:
  "recorded (add_to_scheduler H t s) = recorded s" "ls_added (add_to_scheduler H t s) = ls_added s @ added_of [t]"
  by (cases t; simp add: add_to_scheduler_def)+

definition prepared_upto :: "'w loop_host \<Rightarrow> string \<Rightarrow> PreflightedToolCall list \<Rightarrow> 'w loop_state \<Rightarrow>
    batch_task list \<times> (loop_error + 'a) \<times> 'w loop_state \<Rightarrow> bool" where
  "prepared_upto H u calls s out = (case out of (ts, r, s') \<Rightarrow>
     \<exists>fst_calls rest evs. calls = fst_calls @ rest \<and> recorded s' = recorded s @ evs \<and> ls_added s' = ls_added s @ added_of ts \<and>
       list_all2 (\<lambda>c. call_event u (call_of c)) fst_calls evs \<and> list_all2 (task_for H) fst_calls ts \<and>
       (\<forall>x. r = Inr x \<longrightarrow> rest = []))"

lemma prepared_upto_Nil: "prepared_upto H u [] s ([], Inr x, s)"
  by (simp add: prepared_upto_def)

lemma prepared_upto_throw:
  assumes "yields m (prepared u (call_of c) b) nothing" and "m s = (Inl e, s')"
  shows "prepared_upto H u (c # calls) s ([], Inl e, s')"
  using yieldsD(2) [OF assms] by (auto simp: prepared_upto_def)

lemma prepared_upto_Cons:
  assumes m: "yields m (prepared u (call_of c) (may_run H c)) nothing" "m s = (Inr p, s1)"
    and rest: "prepared_upto H u calls (add_to_scheduler H (pt_task p) s1) (ts, r, s2)" and r': "\<And>x. r' = Inr x \<Longrightarrow> \<exists>y. r = Inr y"
  shows "prepared_upto H u (c # calls) s (pt_task p # ts, r', s2)"
proof -
  from yieldsD(1) [OF m] obtain ev where ev: "recorded s1 = recorded s @ [ev]" "ls_added s1 = ls_added s"
    "call_event u (call_of c) ev" "task_for H c (pt_task p)"
    by (auto simp: prepared_def task_for_def)
  from rest obtain fst_calls rest evs where r: "calls = fst_calls @ rest" "recorded s2 = recorded s1 @ evs"
    "ls_added s2 = ls_added s1 @ added_of [pt_task p] @ added_of ts"
    "list_all2 (\<lambda>c. call_event u (call_of c)) fst_calls evs"
    "list_all2 (task_for H) fst_calls ts" "\<forall>x. r = Inr x \<longrightarrow> rest = []"
    by (auto simp: prepared_upto_def add_to_scheduler_adds)
  have "c # calls = (c # fst_calls) @ rest" "recorded s2 = recorded s @ ev # evs" "ls_added s2 = ls_added s @ added_of (pt_task p # ts)"
    "list_all2 (\<lambda>c. call_event u (call_of c)) (c # fst_calls) (ev # evs)"
    "list_all2 (task_for H) (c # fst_calls) (pt_task p # ts)" "\<forall>x. r' = Inr x \<longrightarrow> rest = []"
    using ev r r' by auto
  then show ?thesis unfolding prepared_upto_def by blast
qed

lemma skip_calls_upto: "prepared_upto H u calls s (skip_calls H u calls s)"
proof (induction calls arbitrary: s)
  case (Cons c calls)
  show ?case
  proof (cases "prepareSkippedToolCall H u c s")
    case (Pair r s1)
    show ?thesis
    proof (cases r)
      case (Inl e)
      then show ?thesis using Pair prepared_upto_throw [OF yields_skipped] by simp
    next
      case (Inr p)
      let ?s2 = "add_to_scheduler H (pt_task p) s1"
      obtain ts q s3 where k: "skip_calls H u calls ?s2 = (ts, q, s3)" by (cases "skip_calls H u calls ?s2")
      with Cons.IH [of ?s2] have "prepared_upto H u calls ?s2 (ts, q, s3)" by simp
      from prepared_upto_Cons [OF yields_skipped Pair [unfolded Inr] this, of q]
      show ?thesis using Pair Inr k by auto
    qed
  qed
qed (simp add: prepared_upto_Nil)

lemma prepare_calls_upto: "prepared_upto H u calls s (prepare_calls H u calls s)"
proof (induction calls arbitrary: s)
  case (Cons c calls)
  show ?case
  proof (cases "prepareToolCall H u c s")
    case (Pair r s1)
    have skip: "map_sum id f x = Inr y \<Longrightarrow> \<exists>z. x = Inr z" for f :: "unit \<Rightarrow> bool" and x :: "loop_error + unit" and y
      by (cases x) auto
    show ?thesis
    proof (cases r)
      case (Inl e)
      then show ?thesis using Pair prepared_upto_throw [OF yields_prepare] by simp
    next
      case (Inr p)
      let ?s2 = "add_to_scheduler H (pt_task p) s1"
      show ?thesis
      proof (cases "pt_stopBatchAfterThis p")
        case True
        obtain ts q s2 where k: "skip_calls H u calls ?s2 = (ts, q, s2)" by (cases "skip_calls H u calls ?s2")
        with skip_calls_upto [of H u calls ?s2] have "prepared_upto H u calls ?s2 (ts, q, s2)" by simp
        from prepared_upto_Cons [OF yields_prepare Pair [unfolded Inr] this, of "map_sum id (\<lambda>_. True) q"]
        show ?thesis using Pair Inr True k skip by auto
      next
        case False
        obtain ts q s2 where k: "prepare_calls H u calls ?s2 = (ts, q, s2)" by (cases "prepare_calls H u calls ?s2")
        with Cons.IH [of ?s2] have "prepared_upto H u calls ?s2 (ts, q, s2)" by simp
        from prepared_upto_Cons [OF yields_prepare Pair [unfolded Inr] this, of q]
        show ?thesis using Pair Inr False k by auto
      qed
    qed
  qed
qed (simp add: prepared_upto_Nil)

section \<open>Running calls and recording their results\<close>

definition result_for :: "ToolCall \<Rightarrow> LoopRecordedEvent \<Rightarrow> bool" where
  "result_for tc r = (case r of ToolResultEvent i x \<Rightarrow> i = tc_id tc | _ \<Rightarrow> False)"

text \<open>Awaiting a task tells how it went; what runs has been handed over before.\<close>

lemma yields_await: "yields (await_task H t) (\<lambda>p evs ex. nothing evs ex \<and> ptr_toolCall p = task_call t) (\<lambda>evs ex. False)"
  by (cases t) (auto simp: yields_def await_task_def loop_simps runRunnableToolCall_def Let_def makeToolResult_def
      makeErrorToolResult_def split: prod.splits tool_settled.splits)

lemma yields_finalize:
  "yields (finalizePendingToolResult H p) (\<lambda>q evs ex. nothing evs ex \<and> ptr_toolCall q = ptr_toolCall p)
     (\<lambda>evs ex. False)"
  by (auto simp: yields_def finalizePendingToolResult_def loop_simps Let_def
      split: prod.splits option.splits sum.splits)

lemma yields_emit_result:
  "yields (emit_result H t stop)
     (\<lambda>_ evs ex. ex = [] \<and> (\<exists>r. evs = [r] \<and> result_for (task_call t) r)) nothing"
proof -
  have ev: "yields (andThen (dispatchEvent H (result_event q)) (\<lambda>_. ret (stop \<or> ptr_stopTurn q)))
      (\<lambda>_ evs ex. ex = [] \<and> (\<exists>r. evs = [r] \<and> result_for (ptr_toolCall q) r)) nothing" for q
    unfolding result_event_def
    by (rule yields_andThen [OF dispatch_recorded yields_ret [where Q = "\<lambda>_. nothing"]]) (auto simp: result_for_def)
  have fin: "yields (andThen (finalizePendingToolResult H p) (\<lambda>q.
        andThen (dispatchEvent H (result_event q)) (\<lambda>_. ret (stop \<or> ptr_stopTurn q))))
      (\<lambda>_ evs ex. ex = [] \<and> (\<exists>r. evs = [r] \<and> result_for (ptr_toolCall p) r)) nothing" for p
    by (rule yields_andThen [OF yields_finalize ev]) auto
  show ?thesis unfolding emit_result_def
    by (rule yields_andThen [OF yields_await fin]) auto
qed

text \<open>\<open>Promise.allSettled\<close> records nothing and adds no call.\<close>

lemma settle_tasks_quiet:
  "recorded (settle_tasks H ts s) = recorded s \<and> ls_added (settle_tasks H ts s) = ls_added s"
proof (induction ts arbitrary: s)
  case (Cons t ts)
  obtain r s1 where a: "await_task H t s = (r, s1)" by (cases "await_task H t s")
  have "recorded s1 = recorded s" "ls_added s1 = ls_added s"
    using yieldsD [OF yields_await, of H t s] a by (cases r; auto)+
  with Cons.IH [of s1] a show ?case by simp
qed simp

text \<open>Results follow the order of the tasks; an error leaves out a final part of them.\<close>

lemma emit_results_trace:
  assumes "emit_results H ts stop s = (r, s')"
  shows "ls_added s' = ls_added s \<and> (\<exists>evs n. recorded s' = recorded s @ evs \<and>
    list_all2 (\<lambda>t. result_for (task_call t)) (take n ts) evs \<and> (\<forall>x. r = Inr x \<longrightarrow> n = length ts))"
  using assms
proof (induction ts arbitrary: stop s)
  case (Cons t ts)
  obtain q s1 where a: "emit_result H t stop s = (q, s1)" by (cases "emit_result H t stop s")
  show ?case
  proof (cases q)
    case (Inl e)
    have "recorded s1 = recorded s" "ls_added s1 = ls_added s"
      using yieldsD(2) [OF yields_emit_result a [unfolded Inl]] by auto
    with Cons.prems a Inl settle_tasks_quiet [of H ts s1] show ?thesis
      by (auto intro!: exI [of _ "[]"] exI [of _ 0])
  next
    case (Inr stop')
    obtain ev where ev: "recorded s1 = recorded s @ [ev]" "result_for (task_call t) ev" "ls_added s1 = ls_added s"
      using yieldsD(1) [OF yields_emit_result a [unfolded Inr]] by auto
    have "emit_results H ts stop' s1 = (r, s')" using Cons.prems a Inr by simp
    from Cons.IH [OF this] obtain evs n where
      "recorded s' = recorded s1 @ evs" "ls_added s' = ls_added s1"
      "list_all2 (\<lambda>t. result_for (task_call t)) (take n ts) evs" "\<forall>x. r = Inr x \<longrightarrow> n = length ts" by blast
    with ev show ?thesis by (intro conjI exI [of _ "ev # evs"] exI [of _ "Suc n"]) auto
  qed
qed (auto intro!: exI [of _ "[]"])

section \<open>The batch\<close>

text \<open>The trace of a batch: the calls, then their results, both in the order of the response. A batch
  that fails leaves an initial part of such a trace.\<close>

definition batch_prefix :: "string \<Rightarrow> ToolCall list \<Rightarrow> LoopRecordedEvent list \<Rightarrow> bool" where
  "batch_prefix u calls evs = (let n = length calls in
     list_all2 (call_event u) (take (length evs) calls) (take n evs) \<and>
     list_all2 result_for (take (length evs - n) calls) (drop n evs))"

definition batch_complete :: "string \<Rightarrow> ToolCall list \<Rightarrow> LoopRecordedEvent list \<Rightarrow> bool" where
  "batch_complete u calls evs \<longleftrightarrow> batch_prefix u calls evs \<and> length evs = 2 * length calls"

text \<open>The calls handed to the scheduler are some of the calls of the response, each at most once and in
  their order, with arguments that nothing forbids.\<close>

definition given_args :: "'w loop_host \<Rightarrow> ToolCall \<Rightarrow> json" where
  "given_args H tc = pa_data (parseToolCallArguments (h_parse H) (tc_arguments tc))"

definition permitted_call :: "'w loop_host \<Rightarrow> ToolCall \<Rightarrow> json \<Rightarrow> bool" where
  "permitted_call H tc a \<longleftrightarrow> h_hasTool H (tc_name tc) \<and> h_validate H (tc_name tc) (given_args H tc) = None \<and>
     prepares H tc (given_args H tc) a \<and> may_execute H tc a"

definition added_rightly :: "'w loop_host \<Rightarrow> ToolCall list \<Rightarrow> added_call list \<Rightarrow> bool" where
  "added_rightly H calls ex \<longleftrightarrow>
     (\<exists>cs. subseq cs calls \<and> list_all2 (\<lambda>tc (i, a). i = tc_id tc \<and> permitted_call H tc a) cs ex)"

lemma may_run_preflight: "may_run H (preflightToolCall H tc) a \<Longrightarrow> permitted_call H tc a"
  by (auto simp: may_run_def preflightToolCall_def permitted_call_def given_args_def Let_def split: if_splits option.splits)

lemma added_rightly_more: "added_rightly H calls ex \<Longrightarrow> added_rightly H (calls @ later) ex"
  by (auto simp: added_rightly_def intro: subseq_order.trans [OF _ list_emb_append2 [OF subseq_order.refl]])

lemma added_of_right:
  "list_all2 (task_for H) (map (preflightToolCall H) tcs) ts \<Longrightarrow> added_rightly H tcs (added_of ts)"
proof (induction tcs arbitrary: ts)
  case (Cons tc tcs)
  then obtain t us where ts: "ts = t # us" "task_for H (preflightToolCall H tc) t" "added_rightly H tcs (added_of us)"
    by (auto simp: list_all2_Cons1)
  then obtain cs where cs: "subseq cs tcs" "list_all2 (\<lambda>tc (i, a). i = tc_id tc \<and> permitted_call H tc a) cs (added_of us)"
    by (auto simp: added_rightly_def)
  show ?case
  proof (cases "run_args t")
    case None
    with ts cs show ?thesis by (auto simp: added_rightly_def intro: list_emb_Cons)
  next
    case (Some a)
    with ts(2) may_run_preflight have "task_call t = tc" "permitted_call H tc a" by (auto simp: task_for_def)
    with Some ts(1) cs show ?thesis
      unfolding added_rightly_def by (intro exI [of _ "tc # cs"]) auto
  qed
qed (auto simp: added_rightly_def)

lemma batch_prefixI:
  assumes "list_all2 (call_event u) cs evs" and "calls = cs @ rest" and "rest = [] \<or> rs = []"
    and "list_all2 result_for (take n cs) rs"
  shows "batch_prefix u calls (evs @ rs)"
proof (cases "rest = []")
  case True
  have "length rs = length (take n cs)" using list_all2_lengthD [OF assms(4)] by simp
  then have "take (length rs) cs = take n cs" by (simp add: min_def)
  then show ?thesis using assms True by (auto simp: batch_prefix_def Let_def list_all2_lengthD)
next
  case False
  with assms show ?thesis by (auto simp: batch_prefix_def Let_def list_all2_lengthD)
qed

lemma tasks_results:
  assumes "list_all2 (task_for H) cs ts" and "list_all2 (\<lambda>t. result_for (task_call t)) (take n ts) rs"
  shows "list_all2 result_for (take n (map call_of cs)) rs"
proof -
  have "map task_call ts = map call_of cs"
    using assms(1) by (induction rule: list_all2_induct) (auto simp: task_for_def)
  then have "take n (map call_of cs) = map task_call (take n ts)" by (metis take_map)
  then show ?thesis using assms(2) by (simp add: list_all2_map1)
qed

lemma yields_batch:
  "yields (runToolCallBatch H u response)
     (\<lambda>_ evs ex. batch_complete u (lr_toolCalls response) evs \<and> added_rightly H (lr_toolCalls response) ex)
     (\<lambda>evs ex. batch_prefix u (lr_toolCalls response) evs \<and> added_rightly H (lr_toolCalls response) ex)"
proof -
  let ?calls = "lr_toolCalls response" let ?pre = "map (preflightToolCall H) ?calls"
  have trace: "\<exists>evs ex. recorded s' = recorded s @ evs \<and> ls_added s' = ls_added s @ ex \<and>
      batch_prefix u ?calls evs \<and> (\<forall>x. r = Inr x \<longrightarrow> length evs = 2 * length ?calls) \<and> added_rightly H ?calls ex"
    if run: "runToolCallBatch H u response s = (r, s')" for s r s'
  proof (cases "?calls = []")
    case True
    with run show ?thesis by (auto simp: runToolCallBatch_def batch_prefix_def added_rightly_def)
  next
    case False
    obtain ts q s1 where p: "prepare_calls H u ?pre s = (ts, q, s1)" by (cases "prepare_calls H u ?pre s")
    with prepare_calls_upto [of H u ?pre s] obtain cs rest evs where
      c: "?pre = cs @ rest" "recorded s1 = recorded s @ evs" "ls_added s1 = ls_added s @ added_of ts"
        "list_all2 (\<lambda>c. call_event u (call_of c)) cs evs" "list_all2 (task_for H) cs ts" "\<forall>x. q = Inr x \<longrightarrow> rest = []"
      by (auto simp: prepared_upto_def)
    have calls: "?calls = map call_of cs @ map call_of rest"
      using arg_cong [OF c(1), of "map call_of"] by (simp add: comp_def)
    have evs: "list_all2 (call_event u) (map call_of cs) evs" using c(4) by (simp add: list_all2_map1)
    from c(1) obtain tcs later where tcs: "?calls = tcs @ later" "map (preflightToolCall H) tcs = cs"
      by (metis map_eq_append_conv)
    have right: "added_rightly H ?calls (added_of ts)"
      unfolding tcs(1) by (intro added_rightly_more added_of_right) (use c(5) tcs(2) in simp)
    show ?thesis
    proof (cases q)
      case (Inl e)
      with run False p c right batch_prefixI [OF evs calls, of "[]" 0] settle_tasks_quiet [of H ts s1] show ?thesis
        by (auto simp: runToolCallBatch_def)
    next
      case (Inr stop)
      with run False p have "emit_results H ts stop s1 = (r, s')" by (simp add: runToolCallBatch_def)
      from emit_results_trace [OF this] obtain rs n where
        e: "recorded s' = recorded s1 @ rs" "ls_added s' = ls_added s1"
          "list_all2 (\<lambda>t. result_for (task_call t)) (take n ts) rs" "\<forall>x. r = Inr x \<longrightarrow> n = length ts" by blast
      have rest: "rest = []" using c(6) Inr by simp
      have "batch_prefix u ?calls (evs @ rs)"
        by (rule batch_prefixI [OF evs calls]) (use rest tasks_results [OF c(5) e(3)] in auto)
      moreover have "length (evs @ rs) = 2 * length ?calls" if "n = length ts"
        using that calls rest list_all2_lengthD [OF c(5)] list_all2_lengthD [OF e(3)] list_all2_lengthD [OF evs] by simp
      moreover have "recorded s' = recorded s @ evs @ rs" "ls_added s' = ls_added s @ added_of ts"
        using e c by simp_all
      ultimately show ?thesis using e(4) right by blast
    qed
  qed
  show ?thesis by (rule yieldsI) (use trace in \<open>auto simp: batch_complete_def, blast+\<close>)
qed

end
