(* ===== verification/Loop_Relations.thy ===== *)
theory Loop_Relations
  imports Turn_Loop "HOL-Library.Sublist"
begin

text \<open>
  Relations between the states before and after an operation of the loop, stated once for every
  operation: what the basic operations keep, batches, streams, retries and steps keep. Two
  relations are given: the usage counted for the turn changes only where a step records it, and the
  dispatched events only grow.
\<close>

section \<open>A step in three parts\<close>

text \<open>Up to the response, the recording of its usage, and what follows.\<close>

definition before_response :: "'w loop_host \<Rightarrow> nat \<Rightarrow> ('w, string \<times> LLMChatResponse) loop" where
  "before_response H currentStep =
     andThen (case h_beforeStep H of
                None \<Rightarrow> ret ()
              | Some hook \<Rightarrow> andThen (hostE (hook currentStep)) (\<lambda>(block, reason).
                  if block then throw (OtherError ''Error'' (case reason of Some r \<Rightarrow> r
                    | None \<Rightarrow> ''Step '' @ show_count currentStep @ '' was blocked''))
                  else ret ())) (\<lambda>_.
     andThen (throwIfAborted H) (\<lambda>_.
     andThen (hostE (h_buildMessages H)) (\<lambda>msgs.
     andThen (throwIfAborted H) (\<lambda>_.
     andThen (host (h_uuid H)) (\<lambda>u.
     andThen (dispatchEvent H (Recorded (StepBegin u))) (\<lambda>_.
     andThen discardPending (\<lambda>_.
     andThen (response_or_flush H u msgs) (\<lambda>response. ret (u, response)))))))))"

definition after_usage ::
  "'w loop_host \<Rightarrow> string \<Rightarrow> nat \<Rightarrow> LLMChatResponse \<Rightarrow> bool \<Rightarrow> ('w, TokenUsage \<times> LoopStepStopReason) loop" where
  "after_usage H u currentStep response stopTurnAfterUsage =
     (let stopReason = deriveStepStopReason response;
          allowed = (if stopTurnAfterUsage \<and> stopReason = SR_tool_use then SR_end_turn else stopReason)
      in andThen (if allowed = SR_tool_use
                  then andThen (runToolCallBatch H u response) (\<lambda>stop. ret (if stop then SR_end_turn else allowed))
                  else ret allowed) (\<lambda>effectiveStopReason.
         andThen (throwIfAborted H) (\<lambda>_.
         andThen (dispatchEvent H (Recorded (StepEnd u (Some (lr_usage response))))) (\<lambda>_.
         andThen (case h_afterStep H of
                    None \<Rightarrow> ret stopTurnAfterUsage
                  | Some hook \<Rightarrow> catch (andThen (hostE (hook currentStep effectiveStopReason))
                                        (\<lambda>b. ret (stopTurnAfterUsage \<or> b))) (\<lambda>_. ret stopTurnAfterUsage))
           (\<lambda>stopTurnAfterStep.
         ret (lr_usage response, if stopTurnAfterStep \<and> effectiveStopReason = SR_tool_use then SR_end_turn
                     else effectiveStopReason))))))"

lemma andThen_assoc: "andThen (andThen m k) l = andThen m (\<lambda>a. andThen (k a) l)"
  by (rule ext) (simp add: loop_simps split: prod.split sum.split)

lemma andThen_ret: "andThen (ret a) k = k a"
  by (rule ext) (simp add: loop_simps)

lemma executeLoopStep_parts:
  "executeLoopStep H n = andThen (before_response H n) (\<lambda>(u, response).
     andThen (recordStepUsage H (lr_usage response)) (after_usage H u n response))"
proof -
  have "finish_step H u n response = andThen (recordStepUsage H (lr_usage response)) (after_usage H u n response)"
    for u response unfolding finish_step_def after_usage_def [abs_def] Let_def by (rule refl)
  then show ?thesis
    by (simp add: executeLoopStep_def before_response_def andThen_assoc andThen_ret)
qed

section \<open>The interface\<close>

text \<open>
  A relation between the states before and after an operation. Every operation of the loop is
  built from the operators above; so a reflexive and transitive relation that the basic
  operations keep is kept by everything.
\<close>

definition keeps :: "('w loop_state \<Rightarrow> 'w loop_state \<Rightarrow> bool) \<Rightarrow> ('w, 'a) loop \<Rightarrow> bool" where
  "keeps R m \<longleftrightarrow> (\<forall>s. R s (snd (m s)))"

locale step_relation =
  fixes R :: "'w loop_state \<Rightarrow> 'w loop_state \<Rightarrow> bool"
  assumes R_refl: "R s s" and R_trans: "R s t \<Longrightarrow> R t u \<Longrightarrow> R s u"
    and R_world: "R s (s\<lparr>ls_world := w\<rparr>)" and R_live: "recorded_of ev = [] \<Longrightarrow> R s (note_event H ev s)"
    and R_pending: "R s (s\<lparr>ls_pendingText := block\<rparr>)" "R s (s\<lparr>ls_pendingThinking := block\<rparr>)"
begin

lemma keeps_ret: "keeps R (ret a)"
  by (simp add: keeps_def loop_simps R_refl)

lemma keeps_throw: "keeps R (throw e)"
  by (simp add: keeps_def loop_simps R_refl)

lemma keeps_andThen: "keeps R m \<Longrightarrow> (\<And>a. keeps R (k a)) \<Longrightarrow> keeps R (andThen m k)"
proof -
  assume m: "keeps R m" and k: "\<And>a. keeps R (k a)"
  have "R s (snd (andThen m k s))" for s
  proof (cases "m s")
    case (Pair r s1)
    with m have "R s s1" by (metis keeps_def snd_conv)
    then show ?thesis using k
      by (cases r) (auto simp: loop_simps Pair keeps_def intro: R_trans)
  qed
  then show ?thesis by (simp add: keeps_def)
qed

lemma keeps_catch: "keeps R m \<Longrightarrow> (\<And>e. keeps R (h e)) \<Longrightarrow> keeps R (catch m h)"
proof -
  assume m: "keeps R m" and h: "\<And>e. keeps R (h e)"
  have "R s (snd (catch m h s))" for s
  proof (cases "m s")
    case (Pair r s1)
    with m have "R s s1" by (metis keeps_def snd_conv)
    then show ?thesis using h
      by (cases r) (auto simp: loop_simps Pair keeps_def intro: R_trans)
  qed
  then show ?thesis by (simp add: keeps_def)
qed

lemma keeps_host: "keeps R (host f)" "keeps R (hostE g)" "keeps R (get_aborted H)" "keeps R (throwIfAborted H)"
  by (simp_all add: keeps_def loop_simps R_world R_refl throwIfAborted_def)

lemma keeps_if: "keeps R m \<Longrightarrow> keeps R n \<Longrightarrow> keeps R (if b then m else n)"
  by simp

lemma keeps_option: "keeps R m \<Longrightarrow> (\<And>x. keeps R (f x)) \<Longrightarrow> keeps R (case v of None \<Rightarrow> m | Some x \<Rightarrow> f x)"
  by (cases v) simp_all

lemma keeps_sum: "(\<And>x. keeps R (f x)) \<Longrightarrow> (\<And>x. keeps R (g x)) \<Longrightarrow> keeps R (case v of Inl x \<Rightarrow> f x | Inr x \<Rightarrow> g x)"
  by (cases v) simp_all

lemmas keeps_rules = keeps_ret keeps_throw keeps_andThen keeps_catch keeps_host keeps_if keeps_option keeps_sum


lemma keepsI: "(\<And>s r s'. m s = (r, s') \<Longrightarrow> R s s') \<Longrightarrow> keeps R m"
  by (metis keeps_def prod.collapse)

lemma keepsD: "keeps R m \<Longrightarrow> m s = (r, s') \<Longrightarrow> R s s'"
  by (metis keeps_def snd_conv)

lemma keeps_live: "recorded_of ev = [] \<Longrightarrow> keeps R (dispatchEvent H ev)"
  by (cases ev) (auto simp: keeps_def dispatchEvent_def R_live)

lemma keeps_record:
  assumes "\<And>s. R s (note_event H (Recorded e) s)"
  shows "keeps R (dispatchEvent H (Recorded e))"
proof (rule keepsI)
  fix s r s' assume "dispatchEvent H (Recorded e) s = (r, s')"
  then show "R s s'"
    by (auto simp: dispatchEvent_def split: prod.splits option.splits intro: R_world R_trans [OF R_world assms])
qed

lemma keeps_discard: "keeps R discardPending"
proof (rule keepsI)
  fix s s' :: "'w loop_state" and r assume "discardPending s = (r, s')"
  then have "s' = s\<lparr>ls_pendingText := [], ls_pendingThinking := []\<rparr>" by (simp add: discardPending_def)
  then show "R s s'" using R_trans [OF R_pending(1) R_pending(2)] by simp
qed

lemmas basic = keeps_rules keeps_live keeps_discard

end

subsection \<open>Streams and retries\<close>

text \<open>Of the recorded events, the content of step \<open>u\<close> keeps the relation.\<close>

locale content_relation = step_relation R
  for R :: "'w loop_state \<Rightarrow> 'w loop_state \<Rightarrow> bool" +
  fixes u :: string
  assumes R_content: "R s (note_event H (Recorded (ContentPartEvent u p)) s)"
begin

lemma keeps_emitPart: "keeps R (emitPart H u p)"
  unfolding emitPart_def by (rule keeps_record) (rule R_content)

lemma keeps_flush: "keeps R (flushPending H u)"
proof -
  have "R s (snd (flushPending H u s))" for s
  proof -
    let ?think = "ls_pendingThinking s" let ?words = "ls_pendingText s"
    have "keeps R (andThen discardPending (\<lambda>_.
        andThen (if length ?think > 0 then emitPart H u (ThinkPart ?think None) else ret ()) (\<lambda>_.
        if length ?words > 0 then emitPart H u (TextPart ?words) else ret ())))"
      by (intro basic keeps_emitPart)
    then show ?thesis by (simp add: keeps_def flushPending_def Let_def)
  qed
  then show ?thesis by (simp add: keeps_def)
qed

lemma keeps_stream: "keeps R (run_stream H u items)"
proof (induction items)
  case (Cons i items)
  have upd: "R s (snd (m (s\<lparr>ls_pendingText := block\<rparr>)))" "R s (snd (m (s\<lparr>ls_pendingThinking := block\<rparr>)))"
    if "keeps R m" for s block and m :: "('w, unit) loop"
    using that by (auto simp: keeps_def intro: R_trans [OF R_pending(1)] R_trans [OF R_pending(2)])
  have here: "R s (snd (m s))" if "keeps R m" for s and m :: "('w, unit) loop"
    using that by (simp add: keeps_def)
  have "R s (snd (stream_callback H u i s))" for s
    by (cases i) (simp_all add: stream_callback_def upd here keeps_live keeps_emitPart)
  then have "keeps R (stream_callback H u i)" by (simp add: keeps_def)
  with Cons.IH show ?case by (auto intro: keeps_andThen)
qed (simp add: keeps_ret)

lemma keeps_chat: "keeps R (chat H u attempt msgs)"
proof -
  have "keeps R (\<lambda>s. (outcome, s))" for outcome :: "loop_error + LLMChatResponse"
    by (simp add: keeps_def R_refl)
  then show ?thesis unfolding chat_def
    by (auto intro!: basic keeps_stream split: prod.split)
qed

lemma keeps_retry: "keeps R (retry_loop H u msgs retryable delays maxAttempts left attempt)"
proof (induction left arbitrary: attempt)
  case (Suc left)
  have sleep: "keeps R (sleepForRetry H d)" for d
    unfolding sleepForRetry_def hostThrows_def by (intro basic)
  show ?case unfolding retry_loop.simps Let_def
    by (intro basic keeps_chat sleep Suc.IH) simp
qed (simp add: keeps_chat)

lemma keeps_response: "keeps R (response_or_flush H u msgs)"
proof -
  have retry: "keeps R (chatWithRetry H u m)" for m
    by (auto simp: chatWithRetry_def Let_def intro: keeps_chat keeps_retry split: option.split)
  have "keeps R (request_response H u msgs)"
    unfolding request_response_def
    by (auto intro!: basic retry split: prod.split option.split)
  then show ?thesis unfolding response_or_flush_def by (intro basic keeps_flush)
qed

end

subsection \<open>Batches and steps\<close>

text \<open>Every event and every execution keeps the relation.\<close>

locale loop_relation = step_relation R
  for R :: "'w loop_state \<Rightarrow> 'w loop_state \<Rightarrow> bool" +
  assumes R_event: "R s (note_event H ev s)" and R_added: "R s (note_added x s)"

sublocale loop_relation \<subseteq> content: content_relation R u for u
  by unfold_locales (rule R_event)

context loop_relation
begin

lemma keeps_dispatch: "keeps R (dispatchEvent H ev)"
  using keeps_live [of ev H] keeps_record [OF R_event, of H] by (cases ev) simp_all

lemmas loop_basic = keeps_rules keeps_discard keeps_dispatch

lemma keeps_settle:
  "keeps R (settleError H u call args out)" "keeps R (settleSynthetic H u call args x)"
  "keeps R (settleAborted H u call args)"
proof -
  show e: "keeps R (settleError H u call args out)" for out
    unfolding settleError_def dispatchToolCall_def by (intro loop_basic)
  show "keeps R (settleSynthetic H u call args x)"
    unfolding settleSynthetic_def dispatchToolCall_def Let_def by (intro loop_basic)
  show "keeps R (settleAborted H u call args)"
    using e by (simp add: keeps_def settleAborted_def)
qed

lemma keeps_hooks:
  "keeps R (runPrepareToolExecutionHook H tc args)" "keeps R (runAuthorizeToolExecutionHook H tc args)"
  by (auto simp: runPrepareToolExecutionHook_def runAuthorizeToolExecutionHook_def Let_def
      intro!: loop_basic split: option.split sum.split)

lemma keeps_prepare: "keeps R (prepareToolCall H u call)" "keeps R (prepareSkippedToolCall H u call)"
proof -
  have auth: "keeps R (authorizeToolCall H u call args metadata accesses stop)" for call args metadata accesses stop
    unfolding authorizeToolCall_def dispatchToolCall_def
    by (intro loop_basic keeps_settle keeps_hooks)
  have res: "keeps R (resolveToolCall H u call args metadata)" for call args metadata
    unfolding resolveToolCall_def Let_def
    by (auto intro!: loop_basic keeps_settle auth split: option.split sum.split setup_error.split tool_resolution.split)
  show "keeps R (prepareToolCall H u call)"
    unfolding prepareToolCall_def
    by (auto intro!: loop_basic keeps_settle keeps_hooks res split: PreflightedToolCall.split PrepareToolExecutionDecision.split)
  show "keeps R (prepareSkippedToolCall H u call)"
    unfolding prepareSkippedToolCall_def by (rule keeps_settle)
qed

lemma keeps_await: "keeps R (await_task H t)"
proof (cases t)
  case (RunTask acc call args md)
  have "R s (snd (runRunnableToolCall H call args md s))" for s
    by (cases "h_run H (call_of call) args md (ls_world s)")
      (auto simp: runRunnableToolCall_def Let_def intro: R_world split: tool_settled.split)
  then show ?thesis by (simp add: keeps_def await_task_def RunTask)
qed (simp add: await_task_def keeps_ret)

lemma keeps_emit: "keeps R (emit_result H t stop)"
proof -
  have "keeps R (finalizePendingToolResult H p)" for p
    by (auto simp: finalizePendingToolResult_def Let_def intro!: loop_basic split: option.split sum.split)
  then show ?thesis unfolding emit_result_def by (intro loop_basic keeps_await)
qed

lemma settle_tasks_R: "R s (settle_tasks H ts s)"
proof (induction ts arbitrary: s)
  case (Cons t ts)
  then show ?case using keeps_await [of H t] by (auto simp: keeps_def intro: R_trans)
qed (simp add: R_refl)

lemma keeps_emit_results: "keeps R (emit_results H ts stop)"
proof -
  have "R s (snd (emit_results H ts stop s))" for s
  proof (induction ts arbitrary: s stop)
    case (Cons t ts)
    obtain r s1 where e: "emit_result H t stop s = (r, s1)" by (cases "emit_result H t stop s")
    from keepsD [OF keeps_emit e] have "R s s1" .
    with Cons.IH [where s = s1] settle_tasks_R [of s1 H ts] e show ?case
      by (cases r) (auto intro: R_trans)
  qed (simp add: R_refl)
  then show ?thesis by (simp add: keeps_def)
qed

lemma add_R: "R s (add_to_scheduler H t s)"
  by (cases t) (auto simp: add_to_scheduler_def R_refl intro: R_trans [OF R_world R_added])

lemma skip_calls_R: "R s (snd (snd (skip_calls H u calls s)))"
proof (induction calls arbitrary: s)
  case (Cons c calls)
  obtain r s1 where e: "prepareSkippedToolCall H u c s = (r, s1)" by (cases "prepareSkippedToolCall H u c s")
  from keepsD [OF keeps_prepare(2) e] have "R s s1" .
  show ?case
  proof (cases r)
    case (Inr p)
    let ?s2 = "add_to_scheduler H (pt_task p) s1"
    have "R s (snd (snd (skip_calls H u calls ?s2)))"
      using R_trans [OF R_trans [OF \<open>R s s1\<close> add_R] Cons.IH] .
    with Inr e show ?thesis by (auto split: prod.split)
  qed (use e \<open>R s s1\<close> in simp)
qed (simp add: R_refl)

lemma prepare_calls_R: "R s (snd (snd (prepare_calls H u calls s)))"
proof (induction calls arbitrary: s)
  case (Cons c calls)
  obtain r s1 where e: "prepareToolCall H u c s = (r, s1)" by (cases "prepareToolCall H u c s")
  from keepsD [OF keeps_prepare(1) e] have "R s s1" .
  show ?case
  proof (cases r)
    case (Inr p)
    let ?s2 = "add_to_scheduler H (pt_task p) s1"
    have "R s ?s2" using R_trans [OF \<open>R s s1\<close> add_R] .
    then have "R s (snd (snd (skip_calls H u calls ?s2)))" "R s (snd (snd (prepare_calls H u calls ?s2)))"
      using R_trans skip_calls_R Cons.IH by blast+
    with Inr e show ?thesis by (auto simp: Let_def split: prod.split)
  qed (use e \<open>R s s1\<close> in simp)
qed (simp add: R_refl)

lemma keeps_batch: "keeps R (runToolCallBatch H u response)"
proof -
  have "R s (snd (runToolCallBatch H u response s))" for s
    using prepare_calls_R [of s H u "map (preflightToolCall H) (lr_toolCalls response)"]
      settle_tasks_R keeps_emit_results
    by (auto simp: runToolCallBatch_def keeps_def R_refl split: prod.split sum.split intro: R_trans)
  then show ?thesis by (simp add: keeps_def)
qed

lemma keeps_before: "keeps R (before_response H currentStep)"
  unfolding before_response_def
  by (auto intro!: loop_basic content.keeps_response split: option.split)

lemma keeps_after: "keeps R (after_usage H u currentStep response stop)"
  unfolding after_usage_def Let_def
  by (intro loop_basic keeps_batch)

end

section \<open>The relations of the loop\<close>

text \<open>The usage of the turn is counted by \<open>recordStepUsage\<close> alone.\<close>

definition same_usage :: "'w loop_state \<Rightarrow> 'w loop_state \<Rightarrow> bool" where
  "same_usage s t \<longleftrightarrow> ls_usage t = ls_usage s"

interpretation usage: loop_relation same_usage
  by unfold_locales (simp_all add: same_usage_def note_event_def note_added_def)

text \<open>What has been dispatched or executed is never taken back.\<close>

definition grows :: "'w loop_state \<Rightarrow> 'w loop_state \<Rightarrow> bool" where
  "grows s t \<longleftrightarrow> prefix (ls_events s) (ls_events t) \<and> prefix (ls_added s) (ls_added t)"

interpretation history: loop_relation grows
  by unfold_locales (auto simp: grows_def note_event_def note_added_def intro: prefix_order.trans)

lemma recordStepUsage_usage:
  "recordStepUsage H v s = (r, s') \<Longrightarrow> ls_usage s' = addUsage (ls_usage s) v"
  by (auto simp: recordStepUsage_def loop_simps)

lemma keeps_ok: "keeps R m \<Longrightarrow> m s = (r, s') \<Longrightarrow> R s s'"
  by (metis keeps_def snd_conv)

text \<open>A step that returns has added the usage it returns.\<close>

lemma step_usage:
  assumes "executeLoopStep H n s = (Inr (v, reason), s')"
  shows "ls_usage s' = addUsage (ls_usage s) v"
proof -
  from assms obtain u response s1 stop s2 where
    b: "before_response H n s = (Inr (u, response), s1)" and
    r: "recordStepUsage H (lr_usage response) s1 = (Inr stop, s2)" and
    a: "after_usage H u n response stop s2 = (Inr (v, reason), s')"
    by (auto simp: executeLoopStep_parts loop_simps split: prod.splits sum.splits)
  have "v = lr_usage response"
    using a by (auto simp: after_usage_def Let_def loop_simps split: prod.splits sum.splits)
  then show ?thesis
    using keeps_ok [OF usage.keeps_before b] recordStepUsage_usage [OF r] keeps_ok [OF usage.keeps_after a]
    by (simp add: same_usage_def)
qed

lemma step_grows: "keeps grows (executeLoopStep H n)"
proof -
  have rec: "keeps grows (recordStepUsage H v)" for v
    by (auto simp: keeps_def recordStepUsage_def loop_simps grows_def)
  show ?thesis unfolding executeLoopStep_parts
    by (auto intro!: history.loop_basic history.keeps_before history.keeps_after rec split: prod.split)
qed

end
