(* ===== verification/Loop_Transcript.thy ===== *)
theory Loop_Transcript
  imports Loop_Facts Loop_Relations
begin

text \<open>
  The transcript a turn may leave, as an automaton over the recorded events: a step begins, streams
  content, calls its tools, answers every call in the order of the calls, and ends. The lemmas show
  that every operation of a turn moves along it.
\<close>

section \<open>The automaton\<close>

datatype transcript_phase =
    BetweenSteps
  | StepStreaming string
  | StepCalling string "string list"
  | StepAnswering string "string list"

fun transcript_step :: "transcript_phase \<Rightarrow> LoopRecordedEvent \<Rightarrow> transcript_phase option" where
  "transcript_step BetweenSteps (StepBegin u) = Some (StepStreaming u)"
| "transcript_step (StepStreaming u) (ContentPartEvent v p) = (if v = u then Some (StepStreaming u) else None)"
| "transcript_step (StepStreaming u) (ToolCallEvent v i n a) =
     (if v = u \<and> a \<noteq> None then Some (StepCalling u [i]) else None)"
| "transcript_step (StepStreaming u) (StepEnd v usage) = (if v = u \<and> usage \<noteq> None then Some BetweenSteps else None)"
| "transcript_step (StepCalling u ids) (ToolCallEvent v i n a) =
     (if v = u \<and> a \<noteq> None then Some (StepCalling u (ids @ [i])) else None)"
| "transcript_step (StepCalling u (i # ids)) (ToolResultEvent j r) =
     (if j = i then Some (StepAnswering u ids) else None)"
| "transcript_step (StepAnswering u (i # ids)) (ToolResultEvent j r) =
     (if j = i then Some (StepAnswering u ids) else None)"
| "transcript_step (StepAnswering u []) (StepEnd v usage) = (if v = u \<and> usage \<noteq> None then Some BetweenSteps else None)"
| "transcript_step _ _ = None"

fun transcript_run :: "transcript_phase \<Rightarrow> LoopRecordedEvent list \<Rightarrow> transcript_phase option" where
  "transcript_run p [] = Some p"
| "transcript_run p (e # es) = (case transcript_step p e of None \<Rightarrow> None | Some q \<Rightarrow> transcript_run q es)"

lemma transcript_run_append:
  "transcript_run p (es @ fs) = (case transcript_run p es of None \<Rightarrow> None | Some q \<Rightarrow> transcript_run q fs)"
  by (induction p es rule: transcript_run.induct) (auto split: option.split)

text \<open>The usages of the ended steps, and the number of steps begun.\<close>

fun step_usages :: "LoopRecordedEvent list \<Rightarrow> TokenUsage list" where
  "step_usages [] = []"
| "step_usages (StepEnd u (Some v) # es) = v # step_usages es"
| "step_usages (_ # es) = step_usages es"

fun steps_begun :: "LoopRecordedEvent list \<Rightarrow> nat" where
  "steps_begun [] = 0"
| "steps_begun (StepBegin u # es) = Suc (steps_begun es)"
| "steps_begun (_ # es) = steps_begun es"

lemma step_usages_Cons: "step_usages (e # es) = step_usages [e] @ step_usages es"
proof (cases e)
  case (StepEnd u v)
  then show ?thesis by (cases v) simp_all
qed simp_all

lemma step_usages_append: "step_usages (es @ fs) = step_usages es @ step_usages fs"
proof (induction es)
  case (Cons e es)
  then show ?case by (metis append_Cons append_assoc step_usages_Cons)
qed simp

lemma steps_begun_Cons: "steps_begun (e # es) = steps_begun [e] + steps_begun es"
  by (cases e) auto

lemma steps_begun_append: "steps_begun (es @ fs) = steps_begun es + steps_begun fs"
proof (induction es)
  case (Cons e es)
  then show ?case by (metis add.assoc append_Cons steps_begun_Cons)
qed simp

section \<open>Streaming\<close>

text \<open>An operation that only records content of step \<open>u\<close> and executes nothing.\<close>

fun content_of :: "string \<Rightarrow> LoopRecordedEvent \<Rightarrow> bool" where
  "content_of u (ContentPartEvent v p) = (v = u)"
| "content_of u _ = False"

definition streamed :: "string \<Rightarrow> 'w loop_state \<Rightarrow> 'w loop_state \<Rightarrow> bool" where
  "streamed u s t \<longleftrightarrow> (\<exists>evs. recorded t = recorded s @ evs \<and> list_all (content_of u) evs) \<and> ls_added t = ls_added s"

lemma streamed_trans: "streamed u s t \<Longrightarrow> streamed u t v \<Longrightarrow> streamed u s v"
  unfolding streamed_def by (metis append_assoc list_all_append)

interpretation content: content_relation "streamed u" u
  by unfold_locales (auto simp: streamed_def intro: streamed_trans [unfolded streamed_def])

definition streaming :: "string \<Rightarrow> LoopRecordedEvent list \<Rightarrow> added_call list \<Rightarrow> bool" where
  "streaming u evs ex \<longleftrightarrow> list_all (content_of u) evs \<and> ex = []"

lemma streaming_Nil [simp]: "streaming u [] []"
  by (simp add: streaming_def)

lemma yields_response: "yields (response_or_flush H u msgs) (\<lambda>_. streaming u) (streaming u)"
  unfolding yields_def
proof
  fix s
  have "streamed u s (snd (response_or_flush H u msgs s))"
    using content.keeps_response [of u H msgs] by (simp add: keeps_def)
  then show "case response_or_flush H u msgs s of
      (Inr a, s') \<Rightarrow> \<exists>evs ex. recorded s' = recorded s @ evs \<and> ls_added s' = ls_added s @ ex \<and> streaming u evs ex
    | (Inl e, s') \<Rightarrow> \<exists>evs ex. recorded s' = recorded s @ evs \<and> ls_added s' = ls_added s @ ex \<and> streaming u evs ex"
    by (auto simp: streamed_def streaming_def split: prod.splits sum.splits)
qed

lemma streaming_run:
  "list_all (content_of u) evs \<Longrightarrow> transcript_run (StepStreaming u) evs = Some (StepStreaming u) \<and>
     step_usages evs = [] \<and> steps_begun evs = 0"
proof (induction evs)
  case (Cons e es)
  then show ?case by (cases e) auto
qed simp

section \<open>A batch moves through the answers\<close>

lemma calls_run:
  "list_all2 (call_event u) cs es \<Longrightarrow>
     transcript_run (StepCalling u ids) es = Some (StepCalling u (ids @ map tc_id cs)) \<and>
     step_usages es = [] \<and> steps_begun es = 0"
proof (induction cs es arbitrary: ids rule: list_all2_induct)
  case (Cons c cs e es)
  then show ?case by (cases e) (auto simp: call_event_def)
qed simp

lemma streaming_calls_run:
  "list_all2 (call_event u) cs es \<Longrightarrow> transcript_run (StepStreaming u) es =
     Some (if cs = [] then StepStreaming u else StepCalling u (map tc_id cs)) \<and>
     step_usages es = [] \<and> steps_begun es = 0"
proof (cases cs es rule: list.exhaust [case_product list.exhaust])
  case (Cons_Cons c cs' e es')
  then show "list_all2 (call_event u) cs es \<Longrightarrow> ?thesis"
    using calls_run [of u cs' es' "[tc_id c]"] by (cases e) (auto simp: call_event_def)
qed auto

lemma result_forD: "result_for c r \<Longrightarrow> \<exists>x. r = ToolResultEvent (tc_id c) x"
  by (cases r) (auto simp: result_for_def)

lemma results_run:
  "list_all2 result_for (take n cs) rs \<Longrightarrow>
     transcript_run (StepAnswering u (map tc_id cs)) rs = Some (StepAnswering u (drop n (map tc_id cs))) \<and>
     step_usages rs = [] \<and> steps_begun rs = 0"
proof (induction rs arbitrary: n cs)
  case (Cons r rs)
  then obtain c cs' m where "cs = c # cs'" "n = Suc m" "result_for c r" "list_all2 result_for (take m cs') rs"
    by (cases cs; cases n) auto
  then show ?case using Cons.IH [of m cs'] by (auto dest!: result_forD)
qed auto

lemma calling_results_run:
  "list_all2 result_for (take n cs) rs \<Longrightarrow> rs \<noteq> [] \<Longrightarrow>
     transcript_run (StepCalling u (map tc_id cs)) rs = Some (StepAnswering u (drop n (map tc_id cs)))"
proof (cases cs rs rule: list.exhaust [case_product list.exhaust])
  case (Cons_Cons c cs' r rs')
  assume a: "list_all2 result_for (take n cs) rs"
  with Cons_Cons obtain m where "n = Suc m" "result_for c r" "list_all2 result_for (take m cs') rs'"
    by (cases n) auto
  then show ?thesis using Cons_Cons results_run [of m cs' rs' u] by (auto dest!: result_forD)
qed auto

lemma batch_run:
  assumes "batch_prefix u calls evs"
  shows "\<exists>p. transcript_run (StepStreaming u) evs = Some p \<and> step_usages evs = [] \<and> steps_begun evs = 0 \<and>
    (calls \<noteq> [] \<longrightarrow> length evs = 2 * length calls \<longrightarrow> p = StepAnswering u [])"
proof -
  let ?n = "length calls"
  let ?es = "take ?n evs" let ?rs = "drop ?n evs" let ?m = "length evs - ?n"
  have es: "list_all2 (call_event u) (take (length evs) calls) ?es" and rs: "list_all2 result_for (take ?m calls) ?rs"
    using assms by (simp_all add: batch_prefix_def Let_def)
  note c = streaming_calls_run [OF es] and r = results_run [OF rs, of u]
  have split: "evs = ?es @ ?rs" by simp
  have quiet: "step_usages evs = []" "steps_begun evs = 0"
    by (subst split, use c r in \<open>simp add: step_usages_append steps_begun_append del: append_take_drop_id\<close>)+
  show ?thesis
  proof (cases "?rs = []")
    case True
    then have "?es = evs" by simp
    with c True have "\<exists>p. transcript_run (StepStreaming u) evs = Some p" by auto
    moreover have "\<not> (calls \<noteq> [] \<and> length evs = 2 * ?n)" using True by auto
    ultimately show ?thesis using quiet by blast
  next
    case False
    then have len: "?n < length evs" by simp
    then have "calls \<noteq> []" using rs False by (cases calls) auto
    with c len have "transcript_run (StepStreaming u) ?es = Some (StepCalling u (map tc_id calls))" by simp
    with calling_results_run [OF rs False, of u]
    have "transcript_run (StepStreaming u) (?es @ ?rs) = Some (StepAnswering u (drop ?m (map tc_id calls)))"
      by (simp add: transcript_run_append del: append_take_drop_id)
    then show ?thesis using quiet by simp
  qed
qed

section \<open>A step\<close>

definition step_trace :: "TokenUsage \<Rightarrow> LoopRecordedEvent list \<Rightarrow> bool" where
  "step_trace v evs \<longleftrightarrow> transcript_run BetweenSteps evs = Some BetweenSteps \<and> step_usages evs = [v] \<and> steps_begun evs = 1"

definition broken_step :: "LoopRecordedEvent list \<Rightarrow> bool" where
  "broken_step evs \<longleftrightarrow> transcript_run BetweenSteps evs \<noteq> None \<and> step_usages evs = [] \<and> steps_begun evs \<le> 1"

text \<open>What follows the response: a batch, or none, and the end of the step.\<close>

definition step_rest :: "string \<Rightarrow> LoopRecordedEvent list \<Rightarrow> bool" where
  "step_rest u evs \<longleftrightarrow> (\<exists>p. transcript_run (StepStreaming u) evs = Some p \<and> step_usages evs = [] \<and>
     steps_begun evs = 0 \<and> p \<in> {StepStreaming u, StepAnswering u []})"

definition step_part :: "string \<Rightarrow> LoopRecordedEvent list \<Rightarrow> bool" where
  "step_part u evs \<longleftrightarrow> transcript_run (StepStreaming u) evs \<noteq> None \<and> step_usages evs = [] \<and> steps_begun evs = 0"

lemma step_part_Nil [simp]: "step_part u []" "step_rest u []"
  by (simp_all add: step_part_def step_rest_def)

lemma step_rest_part: "step_rest u evs \<Longrightarrow> step_part u evs"
  by (auto simp: step_part_def step_rest_def)

lemma yields_tools:
  "yields (runToolCallBatch H u response) (\<lambda>_ evs ex. lr_toolCalls response \<noteq> [] \<longrightarrow> step_rest u evs)
     (\<lambda>evs ex. step_part u evs)"
  by (rule yields_mono [OF yields_batch]) (auto simp: batch_complete_def step_rest_def step_part_def dest!: batch_run)

lemma yields_end:
  "yields (andThen (throwIfAborted H) (\<lambda>_. andThen (dispatchEvent H (Recorded (StepEnd u (Some v)))) (\<lambda>_.
       andThen m (\<lambda>stop. ret (w stop)))))
     (\<lambda>r evs ex. P r \<and> evs = [StepEnd u (Some v)]) nothing"
  if "silent m" "\<And>s e s'. m s \<noteq> (Inl e, s')" "\<And>stop. P (w stop)"
proof -
  have m: "yields m (\<lambda>_. nothing) (\<lambda>_ _. False)"
  proof (rule yieldsI)
    fix s a s' assume "m s = (Inr a, s')"
    then show "\<exists>evs ex. recorded s' = recorded s @ evs \<and> ls_added s' = ls_added s @ ex \<and> nothing evs ex"
      by (rule yieldsD(1) [OF that(1) [unfolded silent_def]])
  qed (use that(2) in auto)
  show ?thesis
    by (rule yields_silent, simp, rule yields_andThen [OF dispatch_recorded],
      rule yields_andThen [OF m yields_ret [where Q = "\<lambda>r evs ex. P r \<and> nothing evs ex"]])
      (use that(3) in auto)
qed

lemma yields_if: "(b \<Longrightarrow> yields m Q E) \<Longrightarrow> (\<not> b \<Longrightarrow> yields n Q E) \<Longrightarrow> yields (if b then m else n) Q E"
  by simp

lemma tool_use_has_calls: "deriveStepStopReason r = SR_tool_use \<Longrightarrow> lr_toolCalls r \<noteq> []"
  by (auto simp: deriveStepStopReason_def Let_def split: option.splits FinishReason.splits if_splits)

definition ended :: "string \<Rightarrow> TokenUsage \<Rightarrow> LoopRecordedEvent list \<Rightarrow> bool" where
  "ended u v evs \<longleftrightarrow> transcript_run (StepStreaming u) evs = Some BetweenSteps \<and> step_usages evs = [v] \<and> steps_begun evs = 0"

lemma ended_rest: "step_rest u evs \<Longrightarrow> ended u v (evs @ [StepEnd u (Some v)])"
  by (auto simp: step_rest_def ended_def transcript_run_append step_usages_append steps_begun_append)

lemma yields_after:
  "yields (after_usage H u n response stop)
     (\<lambda>(v, reason) evs ex. v = lr_usage response \<and> ended u v evs) (\<lambda>evs ex. step_part u evs)"
proof -
  let ?reason = "deriveStepStopReason response"
  let ?allowed = "if stop \<and> ?reason = SR_tool_use then SR_end_turn else ?reason"
  let ?hook = "\<lambda>eff. case h_afterStep H of None \<Rightarrow> ret stop
    | Some hook \<Rightarrow> catch (andThen (hostE (hook n eff)) (\<lambda>b. ret (stop \<or> b))) (\<lambda>_. ret stop)"
  have tools: "yields (if ?allowed = SR_tool_use then andThen (runToolCallBatch H u response)
        (\<lambda>b. ret (if b then SR_end_turn else ?allowed)) else ret ?allowed)
      (\<lambda>_ evs ex. step_rest u evs) (\<lambda>evs ex. step_part u evs)"
  proof (rule yields_if)
    assume "?allowed = SR_tool_use"
    then have "?reason = SR_tool_use" by (auto split: if_splits)
    from tool_use_has_calls [OF this]
    show "yields (andThen (runToolCallBatch H u response) (\<lambda>b. ret (if b then SR_end_turn else ?allowed)))
      (\<lambda>_ evs ex. step_rest u evs) (\<lambda>evs ex. step_part u evs)"
      by (intro yields_andThen [OF yields_tools yields_ret [where Q = "\<lambda>_. nothing" and E = "\<lambda>_ _. False"]]) auto
  qed (rule yields_ret, simp)
  have hook: "silent (?hook eff)" "?hook eff s \<noteq> (Inl e, s')" for eff s e s'
    by (auto simp: silent_def yields_def loop_simps split: option.split sum.split prod.split)
  have rest: "yields (andThen (throwIfAborted H) (\<lambda>_. andThen (dispatchEvent H (Recorded (StepEnd u (Some (lr_usage response)))))
        (\<lambda>_. andThen (?hook eff) (\<lambda>b. ret (lr_usage response, if b \<and> eff = SR_tool_use then SR_end_turn else eff)))))
      (\<lambda>(v, reason) evs ex. v = lr_usage response \<and> evs = [StepEnd u (Some v)]) nothing" for eff
    by (rule yields_mono [OF yields_end [OF hook, where P = "\<lambda>r. fst r = lr_usage response"]]) auto
  show ?thesis
    unfolding after_usage_def Let_def
    by (rule yields_andThen [OF tools rest]) (auto intro: ended_rest step_rest_part)
qed

lemma before_step_hook: "silent (case h_beforeStep H of None \<Rightarrow> ret ()
    | Some hook \<Rightarrow> andThen (hostE (hook n)) (\<lambda>(block, reason).
        if block then throw (OtherError ''Error'' (case reason of Some r \<Rightarrow> r
          | None \<Rightarrow> ''Step '' @ show_count n @ '' was blocked'')) else ret ()))"
  by (auto intro!: silent_andThen split: option.split prod.split)

lemma yields_before:
  "yields (before_response H n)
     (\<lambda>(u, response) evs ex. \<exists>es. evs = StepBegin u # es \<and> streaming u es ex)
     (\<lambda>evs ex. evs = [] \<or> (\<exists>u es. evs = StepBegin u # es \<and> streaming u es ex))"
proof -
  have resp: "yields (andThen discardPending (\<lambda>_. andThen (response_or_flush H u msgs) (\<lambda>response. ret (u, response))))
      (\<lambda>(v, response) evs ex. v = u \<and> streaming u evs ex) (streaming u)" for u msgs
    by (rule yields_silent, simp, rule yields_andThen [OF yields_response yields_ret [where
          Q = "\<lambda>(v, response) evs ex. v = u \<and> nothing evs ex" and E = "\<lambda>_ _. False"]]) auto
  have begun: "yields (andThen (dispatchEvent H (Recorded (StepBegin u))) (\<lambda>_. andThen discardPending (\<lambda>_.
        andThen (response_or_flush H u msgs) (\<lambda>response. ret (u, response)))))
      (\<lambda>(u, response) evs ex. \<exists>es. evs = StepBegin u # es \<and> streaming u es ex)
      (\<lambda>evs ex. evs = [] \<or> (\<exists>u es. evs = StepBegin u # es \<and> streaming u es ex))" for u msgs
    by (rule yields_andThen [OF dispatch_recorded resp]) auto
  show ?thesis
    unfolding before_response_def
    by (intro yields_silent [OF before_step_hook] yields_silent [OF silent_basic(6)] yields_silent [OF silent_basic(4)]
        yields_silent [OF silent_basic(3)] begun) simp_all
qed

lemma stream_run:
  assumes "list_all (content_of u) es"
  shows "transcript_run (StepStreaming u) (es @ fs) = transcript_run (StepStreaming u) fs"
    and "step_usages (es @ fs) = step_usages fs" and "steps_begun (es @ fs) = steps_begun fs"
    and "transcript_run (StepStreaming u) es = Some (StepStreaming u)" and "step_usages es = []" and "steps_begun es = 0"
  using streaming_run [OF assms] by (simp_all add: transcript_run_append step_usages_append steps_begun_append)

lemma yields_step:
  "yields (executeLoopStep H n) (\<lambda>(v, reason) evs ex. step_trace v evs) (\<lambda>evs ex. broken_step evs)"
proof -
  have rec: "silent (recordStepUsage H v)" for v
    by (auto simp: silent_def yields_def recordStepUsage_def loop_simps split: sum.split prod.split)
  have rest: "yields (andThen (recordStepUsage H (lr_usage response)) (after_usage H u n response))
      (\<lambda>(v, reason) evs ex. ended u v evs) (\<lambda>evs ex. step_part u evs)" for u response
    by (rule yields_silent [OF rec yields_mono [OF yields_after]]) auto
  have rest': "yields (case a of (u, response) \<Rightarrow> andThen (recordStepUsage H (lr_usage response)) (after_usage H u n response))
      (\<lambda>(v, reason) evs ex. ended (fst a) v evs) (\<lambda>evs ex. step_part (fst a) evs)" for a
    using rest by (cases a) simp
  show ?thesis unfolding executeLoopStep_parts
    by (rule yields_andThen [OF yields_before rest'])
      (auto simp: step_trace_def broken_step_def ended_def step_part_def streaming_def stream_run)
qed

end
