(* ===== verification/Loop_Context.thy ===== *)
theory Loop_Context
  imports Loop_Transcript Context_Facts
begin

text \<open>
  The transcript automaton as the interface between the turn loop and what stores its events:
  whoever follows the automaton from state to state accepts every transcript. The context memory
  follows it, also when messages of the user and the harness arrive between the events.
\<close>

section \<open>Whole turns\<close>

text \<open>The rounds from step \<open>n\<close> on: every round that returns adds one complete step.\<close>

definition complete_steps :: "nat \<Rightarrow> nat \<Rightarrow> TokenUsage \<Rightarrow> TokenUsage \<Rightarrow> LoopRecordedEvent list \<Rightarrow> bool" where
  "complete_steps n steps v v' evs \<longleftrightarrow> transcript_run BetweenSteps evs = Some BetweenSteps \<and>
     steps = n + steps_begun evs \<and> v' = foldl addUsage v (step_usages evs)"

lemma complete_steps_Nil [simp]: "complete_steps n n v v []"
  by (simp add: complete_steps_def)

lemma complete_steps_step:
  assumes "step_trace w evs" and "v1 = addUsage v w" and "complete_steps (Suc n) steps v1 v' es"
  shows "complete_steps n steps v v' (evs @ es)"
  using assms by (simp add: complete_steps_def step_trace_def transcript_run_append step_usages_append steps_begun_append)

definition turn_trace :: "turn_exit \<Rightarrow> nat \<Rightarrow> nat \<Rightarrow> TokenUsage \<Rightarrow> TokenUsage \<Rightarrow> LoopRecordedEvent list \<Rightarrow> bool" where
  "turn_trace exit n steps v v' evs = (case exit of
     TurnEnds r \<Rightarrow> complete_steps n steps v v' evs \<and> n < steps
   | TurnFails e None \<Rightarrow> complete_steps n steps v v' evs
   | TurnFails e (Some k) \<Rightarrow> transcript_run BetweenSteps evs \<noteq> None \<and> n + steps_begun evs \<le> steps)"

lemma turn_trace_step:
  assumes "step_trace w evs" and "v1 = addUsage v w" and "turn_trace exit (Suc n) steps v1 v' es"
  shows "turn_trace exit n steps v v' (evs @ es)"
proof (cases "\<exists>e k. exit = TurnFails e (Some k)")
  case True
  with assms show ?thesis
    by (auto simp: turn_trace_def step_trace_def transcript_run_append steps_begun_append)
next
  case False
  with assms complete_steps_step [OF assms(1,2)] show ?thesis
    by (auto simp: turn_trace_def split: turn_exit.splits option.splits)
qed

lemma step_then:
  assumes "executeLoopStep H n s = (Inr (v, reason), s')"
  shows "\<exists>evs. recorded s' = recorded s @ evs \<and> step_trace v evs \<and> ls_usage s' = addUsage (ls_usage s) v"
  using yieldsD(1) [OF yields_step assms] step_usage [OF assms] by auto

text \<open>How one round goes on.\<close>

lemma turn_loop_round:
  assumes "turn_loop H (Suc fuel) n s = Some (exit, steps, s')"
  shows "(\<exists>e. exit = TurnFails e None \<and> steps = n \<and> s' = s) \<or>
    (\<exists>e. executeLoopStep H (n + 1) s = (Inl e, s') \<and> exit = TurnFails e (Some (n + 1)) \<and> steps = n + 1) \<or>
    (\<exists>v r s1 w. executeLoopStep H (n + 1) s = (Inr (v, r), s1) \<and>
       (turn_loop H fuel (n + 1) (s1\<lparr>ls_world := w\<rparr>) = Some (exit, steps, s') \<or>
        steps = n + 1 \<and> s' = s1\<lparr>ls_world := w\<rparr> \<and> (exit = TurnEnds r \<or> (\<exists>e. exit = TurnFails e None))))"
proof (cases "executeLoopStep H (n + 1) s")
  case (Pair q s1)
  have same: "s1 = s1\<lparr>ls_world := ls_world s1\<rparr>" by simp
  show ?thesis
  proof (cases q)
    case (Inl e)
    with assms Pair show ?thesis by (auto split: if_splits)
  next
    case (Inr p)
    obtain v r where p: "p = (v, r)" by (cases p)
    show ?thesis
    proof (cases "r = SR_tool_use")
      case True
      with assms Pair Inr p have "(\<exists>e. exit = TurnFails e None \<and> steps = n \<and> s' = s) \<or>
          turn_loop H fuel (n + 1) s1 = Some (exit, steps, s')" by (auto split: if_splits)
      then show ?thesis using Pair Inr p same by metis
    next
      case False
      show ?thesis
      proof (cases "h_shouldContinue H")
        case None
        with assms Pair Inr p False have "(\<exists>e. exit = TurnFails e None \<and> steps = n \<and> s' = s) \<or>
          exit = TurnEnds r \<and> steps = n + 1 \<and> s' = s1" by (auto split: if_splits)
        then show ?thesis using Pair Inr p same by metis
      next
        case (Some hook)
        define w where "w = snd (hook (n + 1) r (ls_world s1))"
        have "(\<exists>e. exit = TurnFails e None \<and> steps = n \<and> s' = s) \<or>
          turn_loop H fuel (n + 1) (s1\<lparr>ls_world := w\<rparr>) = Some (exit, steps, s') \<or>
          steps = n + 1 \<and> s' = s1\<lparr>ls_world := w\<rparr> \<and> (exit = TurnEnds r \<or> (\<exists>e. exit = TurnFails e None))"
          using assms Pair Inr p False Some
          by (auto simp: loop_simps w_def split: if_splits sum.splits prod.splits)
        then show ?thesis using Pair Inr p by blast
      qed
    qed
  qed
qed

lemma turn_loop_trace:
  assumes "turn_loop H fuel n s = Some (exit, steps, s')"
  shows "\<exists>evs. recorded s' = recorded s @ evs \<and> turn_trace exit n steps (ls_usage s) (ls_usage s') evs"
  using assms
proof (induction fuel arbitrary: n s)
  case (Suc fuel)
  from turn_loop_round [OF Suc.prems] consider
    (stop) e where "exit = TurnFails e None" "steps = n" "s' = s"
    | (fails) e where "executeLoopStep H (n + 1) s = (Inl e, s')" "exit = TurnFails e (Some (n + 1))" "steps = n + 1"
    | (more) v r s1 w where "executeLoopStep H (n + 1) s = (Inr (v, r), s1)"
        "turn_loop H fuel (n + 1) (s1\<lparr>ls_world := w\<rparr>) = Some (exit, steps, s')"
    | (ends) v r s1 w where "executeLoopStep H (n + 1) s = (Inr (v, r), s1)" "steps = n + 1" "s' = s1\<lparr>ls_world := w\<rparr>"
        "exit = TurnEnds r \<or> (\<exists>e. exit = TurnFails e None)"
    by metis
  then show ?case
  proof cases
    case stop
    then show ?thesis by (auto simp: turn_trace_def)
  next
    case fails
    from yieldsD(2) [OF yields_step fails(1)] fails(2,3) show ?thesis
      by (auto simp: turn_trace_def broken_step_def)
  next
    case more
    from step_then [OF more(1)] obtain evs where evs: "recorded s1 = recorded s @ evs" "step_trace v evs"
      "ls_usage s1 = addUsage (ls_usage s) v" by blast
    from Suc.IH [OF more(2)] obtain es where es: "recorded s' = recorded s1 @ es"
      "turn_trace exit (Suc n) steps (ls_usage s1) (ls_usage s') es" by auto
    from turn_trace_step [OF evs(2,3) es(2)] evs(1) es(1) show ?thesis by auto
  next
    case ends
    from step_then [OF ends(1)] obtain evs where evs: "recorded s1 = recorded s @ evs" "step_trace v evs"
      "ls_usage s1 = addUsage (ls_usage s) v" by blast
    have "turn_trace exit (Suc n) steps (ls_usage s1) (ls_usage s') [] \<or> exit = TurnEnds r"
      using ends by (auto simp: turn_trace_def)
    moreover have "turn_trace exit n steps (ls_usage s) (ls_usage s') evs" if "exit = TurnEnds r"
      using that ends(2,3) complete_steps_step [OF evs(2,3), of n steps "ls_usage s'" "[]"] by (simp add: turn_trace_def)
    ultimately show ?thesis
      using turn_trace_step [OF evs(2,3), of exit n steps "ls_usage s'" "[]"] evs(1) ends(3) by auto
  qed
qed simp

text \<open>The turn itself: the last event, of its interruption, is not recorded.\<close>

lemma runTurn_trace:
  assumes "runTurn H fuel s = Some (r, s')"
  shows "\<exists>evs. recorded s' = recorded s @ evs \<and> transcript_run BetweenSteps evs \<noteq> None \<and>
    (\<forall>t. r = Inr t \<longrightarrow> turn_stopReason t \<noteq> TurnAborted \<longrightarrow> complete_steps 0 (turn_steps t) emptyUsage (turn_usage t) evs \<and>
       steps_begun evs > 0)"
proof -
  let ?s = "s\<lparr>ls_usage := emptyUsage\<rparr>"
  from assms obtain exit steps s1 where loop: "turn_loop H fuel 0 ?s = Some (exit, steps, s1)"
    by (auto simp: runTurn_def split: option.splits)
  from turn_loop_trace [OF loop] obtain evs where
    evs: "recorded s1 = recorded s @ evs" "turn_trace exit 0 steps emptyUsage (ls_usage s1) evs" by auto
  have quiet: "recorded (snd (dispatchEvent H (makeInterruptedEvent a b c d) s1)) = recorded s1" for a b c d
    by (simp add: dispatchEvent_def makeInterruptedEvent_def)
  have "recorded s' = recorded s1"
    using assms loop quiet by (auto simp: runTurn_def split: option.splits turn_exit.splits if_splits)
  moreover have "transcript_run BetweenSteps evs \<noteq> None"
    using evs(2) by (auto simp: turn_trace_def complete_steps_def split: turn_exit.splits option.splits)
  moreover have "complete_steps 0 (turn_steps t) emptyUsage (turn_usage t) evs \<and> steps_begun evs > 0"
    if "r = Inr t" "turn_stopReason t \<noteq> TurnAborted" for t
    using that assms loop evs(2)
    by (auto simp: runTurn_def turn_trace_def complete_steps_def split: option.splits turn_exit.splits if_splits)
  ultimately show ?thesis using evs(1) by auto
qed

section \<open>What stores a transcript\<close>

text \<open>The items that reach a store: events, each with the time it is stored, and messages that arrive
  between them. The errors are collected.\<close>

fun store_all :: "('t \<Rightarrow> LoopRecordedEvent \<Rightarrow> 'c \<Rightarrow> 'e option \<times> 'c) \<Rightarrow> ('m \<Rightarrow> 'c \<Rightarrow> 'c) \<Rightarrow>
    ('m + 't \<times> LoopRecordedEvent) list \<Rightarrow> 'c \<Rightarrow> 'e list \<times> 'c" where
  "store_all store other [] c = ([], c)"
| "store_all store other (Inl m # items) c = store_all store other items (other m c)"
| "store_all store other (Inr (t, e) # items) c =
     (case store t e c of (err, c1) \<Rightarrow> case store_all store other items c1 of (errs, c2) \<Rightarrow>
        (case err of None \<Rightarrow> errs | Some x \<Rightarrow> x # errs, c2))"

fun events_in :: "('m + 't \<times> LoopRecordedEvent) list \<Rightarrow> LoopRecordedEvent list" where
  "events_in [] = []"
| "events_in (Inl m # items) = events_in items"
| "events_in (Inr (t, e) # items) = e # events_in items"

locale transcript_store =
  fixes store :: "'t \<Rightarrow> LoopRecordedEvent \<Rightarrow> 'c \<Rightarrow> 'e option \<times> 'c" and other :: "'m \<Rightarrow> 'c \<Rightarrow> 'c"
    and ready :: "'c \<Rightarrow> bool" and in_phase :: "transcript_phase \<Rightarrow> 'c \<Rightarrow> bool"
  assumes begins: "ready c \<Longrightarrow> fst (store t (StepBegin u) c) = None \<and>
      in_phase (StepStreaming u) (snd (store t (StepBegin u) c))"
    and follows: "in_phase p c \<Longrightarrow> transcript_step p e = Some q \<Longrightarrow>
      fst (store t e c) = None \<and> in_phase q (snd (store t e c))"
    and undisturbed: "ready c \<Longrightarrow> ready (other m c)" "in_phase p c \<Longrightarrow> in_phase p (other m c)"
begin

lemma accepts_from:
  "in_phase p c \<Longrightarrow> transcript_run p (events_in items) = Some q \<Longrightarrow>
     fst (store_all store other items c) = [] \<and> in_phase q (snd (store_all store other items c))"
proof (induction items arbitrary: p c)
  case (Cons i items)
  show ?case
  proof (cases i)
    case (Inl m)
    with Cons.IH [OF undisturbed(2) [OF Cons.prems(1)]] Cons.prems show ?thesis by simp
  next
    case (Inr te)
    obtain t e where te: "te = (t, e)" by (cases te)
    from Cons.prems(2) Inr te obtain p' where p': "transcript_step p e = Some p'"
      "transcript_run p' (events_in items) = Some q" by (auto split: option.splits)
    obtain err c1 where st: "store t e c = (err, c1)" by (cases "store t e c")
    from follows [OF Cons.prems(1) p'(1), of t] st have "err = None" "in_phase p' c1" by auto
    with Cons.IH [OF this(2) p'(2)] Inr te st show ?thesis by (auto split: prod.splits)
  qed
qed simp

lemma accepts:
  "ready c \<Longrightarrow> transcript_run BetweenSteps (events_in items) = Some q \<Longrightarrow>
     fst (store_all store other items c) = [] \<and>
     (events_in items \<noteq> [] \<longrightarrow> in_phase q (snd (store_all store other items c)))"
proof (induction items arbitrary: c)
  case (Cons i items)
  show ?case
  proof (cases i)
    case (Inl m)
    with Cons.IH [OF undisturbed(1) [OF Cons.prems(1)]] Cons.prems show ?thesis by simp
  next
    case (Inr te)
    obtain t e where te: "te = (t, e)" by (cases te)
    from Cons.prems(2) Inr te obtain u where u: "e = StepBegin u"
      "transcript_run (StepStreaming u) (events_in items) = Some q" by (cases e) auto
    obtain err c1 where st: "store t e c = (err, c1)" by (cases "store t e c")
    from begins [OF Cons.prems(1), of t u] st u have "err = None" "in_phase (StepStreaming u) c1" by auto
    with accepts_from [OF this(2) u(2)] Inr te st show ?thesis by (auto split: prod.splits)
  qed
qed simp

end

section \<open>The context memory stores it\<close>

text \<open>Messages that arrive meanwhile: \<open>appendMessage\<close>, or \<open>appendTranscriptMessage\<close>.\<close>

definition harness_message :: "bool \<times> ms \<times> ContextMessage \<Rightarrow> ContextMemory \<Rightarrow> ContextMemory" where
  "harness_message m c = (case m of (transcriptOnly, now, msg) \<Rightarrow>
     if transcriptOnly then cx_step c (now, CxTranscript msg) else cx_step c (now, CxAppend msg))"

fun context_phase :: "transcript_phase \<Rightarrow> ContextMemory \<Rightarrow> bool" where
  "context_phase BetweenSteps c \<longleftrightarrow> ctx_inv c \<and> cx_pending c = []"
| "context_phase (StepStreaming u) c \<longleftrightarrow> ctx_inv c \<and> cx_pending c = [] \<and> map_get (cx_openSteps c) u \<noteq> None"
| "context_phase (StepCalling u ids) c \<longleftrightarrow> ctx_inv c \<and> set (cx_pending c) \<subseteq> set ids \<and> map_get (cx_openSteps c) u \<noteq> None"
| "context_phase (StepAnswering u ids) c \<longleftrightarrow> ctx_inv c \<and> set (cx_pending c) \<subseteq> set ids"

lemma event_step: "ctx_inv c \<Longrightarrow> ctx_inv (snd (appendLoopEvent now e c))"
  by (simp add: ctx_inv_def ok_appendLoopEvent)

lemma begin_phase:
  assumes "ctx_inv c"
  shows "fst (appendLoopEvent now (StepBegin u) c) = None \<and>
    context_phase (StepStreaming u) (snd (appendLoopEvent now (StepBegin u) c))"
  using event_step [OF assms, of now "StepBegin u"]
  by (simp add: appendLoopEvent_def Let_def alloc_def closePending_nothing_pending)

lemma result_pending: "set (cx_pending (append_tool_result now i r c)) = set (cx_pending c) - {i}"
  by (auto simp: append_tool_result_def Let_def alloc_def)

lemma end_pending: "cx_pending (snd (appendLoopEvent now (StepEnd u v) c)) = cx_pending c"
  by (simp add: appendLoopEvent_def end_step_def Let_def split: option.split)

lemma context_follows:
  assumes "context_phase p c" and "transcript_step p e = Some q"
  shows "fst (appendLoopEvent now e c) = None \<and> context_phase q (snd (appendLoopEvent now e c))"
proof -
  have inv: "ctx_inv c" using assms(1) by (cases p) auto
  note after = event_step [OF inv, of now e]
  show ?thesis
    using assms after begin_phase [OF inv] end_pending
    by (cases "(p, e)" rule: transcript_step.cases)
      (auto simp: appendLoopEvent_def Let_def result_pending split: if_splits option.splits)
qed

lemma appendMessage_keeps [simp]:
  "cx_pending (appendMessage now m c) = cx_pending c" "cx_openSteps (appendMessage now m c) = cx_openSteps c"
  "cx_pending (appendTranscriptMessage now m c) = cx_pending c"
  "cx_openSteps (appendTranscriptMessage now m c) = cx_openSteps c"
  by (simp_all add: appendMessage_def appendTranscriptMessage_def alloc_def)

lemma harness_keeps:
  "ctx_inv c \<Longrightarrow> ctx_inv (harness_message m c)" "cx_pending (harness_message m c) = cx_pending c"
  "cx_openSteps (harness_message m c) = cx_openSteps c"
  by (auto simp del: cx_step.simps simp: harness_message_def cx_step_inv split: prod.split)
    (auto simp: harness_message_def split: prod.split)

lemma harness_phase: "context_phase p c \<Longrightarrow> context_phase p (harness_message m c)"
  by (cases p) (auto simp: harness_keeps)

interpretation memory: transcript_store appendLoopEvent harness_message ctx_inv context_phase
  by unfold_locales (use begin_phase context_follows harness_keeps(1) harness_phase in auto)

end
