(* ===== verification/Loop_Properties.thy ===== *)
theory Loop_Properties
  imports Loop_Context Context_Properties
begin

text \<open>
  What the turn loop promises: complete and ordered transcripts that the context memory accepts,
  tools that run only when nothing forbids them, an end within the step limit, bounded retries.
\<close>

section \<open>A host to try them on\<close>

text \<open>The first request is answered with two calls, every later one with text. The authorize hook blocks
  \<open>Bash\<close>. The world counts the requests.\<close>

definition demo_call :: "string \<Rightarrow> string \<Rightarrow> ToolCall" where
  "demo_call i tool = \<lparr>tc_id = i, tc_name = tool, tc_arguments = None, tc_streamIndex = None\<rparr>"

definition demo_usage :: TokenUsage where
  "demo_usage = \<lparr>inputOther = 3, output_tokens = 2, inputCacheRead = 0, inputCacheCreation = 0\<rparr>"

definition demo_response :: "ToolCall list \<Rightarrow> LLMChatResponse" where
  "demo_response calls = \<lparr>lr_toolCalls = calls, lr_providerFinishReason = None, lr_usage = demo_usage\<rparr>"

definition demo_calls :: "ToolCall list" where
  "demo_calls = [demo_call ''c1'' ''Read'', demo_call ''c2'' ''Bash'']"

definition demo_host :: "nat loop_host" where
  "demo_host = \<lparr>h_aborted = \<lambda>w. False, h_userCancelled = \<lambda>w. False, h_uuid = \<lambda>w. (if w = 0 then ''s1'' else ''s2'', w),
     h_append = \<lambda>r w. (None, w), h_emit = \<lambda>ev w. w,
     h_chat = \<lambda>attempt msgs w. (([OnTextDelta ''hi'', OnTextPart ''hi''],
        Inr (demo_response (if w = 0 then demo_calls else []))), Suc w),
     h_isRetryable = Some (\<lambda>e. True), h_recoverableMedia = \<lambda>e. False, h_recoverableStructure = \<lambda>e. False,
     h_delays = \<lambda>n. [], h_sleep = \<lambda>d w. (None, w), h_buildMessages = \<lambda>w. (Inr [], w), h_buildMessagesStrict = None,
     h_recordUsage = \<lambda>v w. (Inr False, w), h_beforeStep = None, h_afterStep = None, h_shouldContinue = None,
     h_parse = \<lambda>t. None, h_hasTool = \<lambda>t. True, h_validate = \<lambda>t j. None, h_prepare = None,
     h_resolve = \<lambda>t j w. (Inr (ResolvedRun None None), w),
     h_authorize = Some (\<lambda>tc j w. (Inr (if tc_name tc = ''Bash'' then Some (blocking ''no'') else None), w)),
     h_start = \<lambda>tc acc j m w. w, h_run = \<lambda>tc j m w. (\<lparr>tr_abortedAtStart = False, tr_settled = ToolReturned (RawResult (text_result ''ok'' None)),
        tr_abortedAtEnd = False\<rparr>, w),
     h_finalize = None, h_normalizeImages = id, h_maxSteps = Some 4, h_maxRetryAttempts = None\<rparr>"

definition demo_start :: "nat loop_state" where
  "demo_start = \<lparr>ls_world = 0, ls_events = [], ls_added = [], ls_pendingText = [], ls_pendingThinking = [],
     ls_usage = emptyUsage\<rparr>"

lemma demo_sel [simp]:
  "h_aborted demo_host w = False" "h_uuid demo_host w = (if w = 0 then ''s1'' else ''s2'', w)"
  "h_append demo_host r w = (None, w)" "h_emit demo_host ev w = w"
  "h_chat demo_host n msgs w = (([OnTextDelta ''hi'', OnTextPart ''hi''],
     Inr (demo_response (if w = 0 then demo_calls else []))), Suc w)"
  "h_isRetryable demo_host = Some (\<lambda>e. True)" "h_delays demo_host n = []" "h_buildMessages demo_host w = (Inr [], w)"
  "h_recordUsage demo_host v w = (Inr False, w)" "h_beforeStep demo_host = None" "h_afterStep demo_host = None"
  "h_shouldContinue demo_host = None" "h_parse demo_host t = None" "h_hasTool demo_host nm = True"
  "h_validate demo_host nm j = None" "h_prepare demo_host = None" "h_resolve demo_host nm j w = (Inr (ResolvedRun None None), w)"
  "h_authorize demo_host =
     Some (\<lambda>tc j w. (Inr (if tc_name tc = ''Bash'' then Some (blocking ''no'') else None), w))"
  "h_start demo_host tc acc j m w = w" "h_run demo_host tc j m w = (\<lparr>tr_abortedAtStart = False, tr_settled = ToolReturned (RawResult (text_result ''ok'' None)),
     tr_abortedAtEnd = False\<rparr>, w)"
  "h_finalize demo_host = None" "h_maxSteps demo_host = Some 4" "h_maxRetryAttempts demo_host = None"
  by (simp_all add: demo_host_def)

lemmas run_defs = loop_simps throwIfAborted_def discardPending_def dispatchEvent_def chat_def stream_callback_def
  emitPart_def chatWithRetry_def request_response_def response_or_flush_def recordStepUsage_def finish_step_def
  executeLoopStep_def note_event_def Let_def DEFAULT_MAX_RETRY_ATTEMPTS_def deriveStepStopReason_def numeral_2_eq_2

lemma demo_stream: "response_or_flush demo_host u msgs s =
   (Inr (demo_response (if ls_world s = 0 then demo_calls else [])),
     s\<lparr>ls_world := Suc (ls_world s), ls_events := ls_events s @ [LiveText ''hi'', Recorded (ContentPartEvent u (TextPart ''hi''))],
       ls_pendingText := []\<rparr>)"
  by (simp add: run_defs)

lemmas batch_defs = runToolCallBatch_def preflightToolCall_def parseToolCallArguments_def prepareToolCall_def
  runPrepareToolExecutionHook_def resolveToolCall_def authorizeToolCall_def runAuthorizeToolExecutionHook_def
  blocking_def settleError_def dispatchToolCall_def resolved_task_def makeErrorToolResult_def makeToolResult_def
  toolResultStopsTurn_def emit_result_def await_task_def runRunnableToolCall_def finalizePendingToolResult_def
  result_event_def add_to_scheduler_def note_added_def error_result_def text_result_def normalizeToolResult_def

definition demo_json :: json where
  "demo_json = given_args demo_host (demo_call ''c1'' ''Read'')"

definition demo_args :: "string option" where
  "demo_args = Some (stringify demo_json)"

definition demo_results :: "LoopRecordedEvent list" where
  "demo_results = [ToolResultEvent ''c1'' (ExecutableToolResult.truncate (normalizeToolResult demo_host (text_result ''ok'' None))),
     ToolResultEvent ''c2'' (ExecutableToolResult.truncate (normalizeToolResult demo_host (error_result ''no'')))]"

lemma demo_batch: "runToolCallBatch demo_host u (demo_response demo_calls) s =
   (Inr False, s\<lparr>ls_events := ls_events s @ map Recorded ([ToolCallEvent u ''c1'' ''Read'' demo_args,
      ToolCallEvent u ''c2'' ''Bash'' demo_args] @ demo_results), ls_added := ls_added s @ [(''c1'', demo_json)]\<rparr>)"
  by (simp add: demo_response_def demo_calls_def demo_call_def batch_defs run_defs demo_args_def demo_json_def given_args_def demo_results_def)

lemma demo_step: "executeLoopStep demo_host n s = (Inr (demo_usage, if ls_world s = 0 then SR_tool_use else SR_end_turn),
   let u = (if ls_world s = 0 then ''s1'' else ''s2'') in
   s\<lparr>ls_world := Suc (ls_world s), ls_pendingText := [], ls_pendingThinking := [],
     ls_usage := addUsage (ls_usage s) demo_usage,
     ls_added := ls_added s @ (if ls_world s = 0 then [(''c1'', demo_json)] else []),
     ls_events := ls_events s @ [Recorded (StepBegin u), LiveText ''hi'', Recorded (ContentPartEvent u (TextPart ''hi''))] @
       (if ls_world s = 0 then map Recorded ([ToolCallEvent u ''c1'' ''Read'' demo_args,
          ToolCallEvent u ''c2'' ''Bash'' demo_args] @ demo_results) else []) @
       [Recorded (StepEnd u (Some demo_usage))]\<rparr>)"
proof (cases "ls_world s = 0")
  case True
  then show ?thesis
    using demo_batch [of "''s1''"]
    by (simp add: executeLoopStep_def loop_simps throwIfAborted_def dispatchEvent_def note_event_def discardPending_def
        demo_stream finish_step_def recordStepUsage_def Let_def)
      (simp add: demo_response_def deriveStepStopReason_def demo_calls_def)
next
  case False
  then show ?thesis
    by (simp add: executeLoopStep_def loop_simps throwIfAborted_def dispatchEvent_def note_event_def discardPending_def
        demo_stream finish_step_def recordStepUsage_def Let_def demo_response_def deriveStepStopReason_def)
qed

definition demo_turn :: "TurnResult" where
  "demo_turn = \<lparr>turn_stopReason = TurnStopped SR_end_turn, turn_steps = 2,
     turn_usage = addUsage (addUsage emptyUsage demo_usage) demo_usage\<rparr>"

definition demo_transcript :: "LoopRecordedEvent list" where
  "demo_transcript = [StepBegin ''s1'', ContentPartEvent ''s1'' (TextPart ''hi''),
     ToolCallEvent ''s1'' ''c1'' ''Read'' demo_args, ToolCallEvent ''s1'' ''c2'' ''Bash'' demo_args] @ demo_results @
     [StepEnd ''s1'' (Some demo_usage), StepBegin ''s2'', ContentPartEvent ''s2'' (TextPart ''hi''),
      StepEnd ''s2'' (Some demo_usage)]"

lemma demo_run: "\<exists>s'. runTurn demo_host 5 demo_start = Some (Inr demo_turn, s') \<and>
    recorded s' = demo_transcript \<and> ls_added s' = [(''c1'', demo_json)]"
  by (simp add: runTurn_def eval_nat_numeral demo_step Let_def demo_start_def demo_turn_def recorded_def
      demo_transcript_def demo_results_def)

section \<open>Transcripts\<close>

text \<open>
  C5: A turn that ends normally has recorded complete steps only: every step begins, streams, calls its
  tools, answers every call once and in the order of the calls, and ends, with the events of one step
  carrying its id. The steps and the usage it reports are those of the record.
\<close>

theorem turn_records_complete_steps:
  assumes "runTurn H fuel s = Some (Inr t, s')" and "turn_stopReason t \<noteq> TurnAborted"
  shows "\<exists>evs. recorded s' = recorded s @ evs \<and> transcript_run BetweenSteps evs = Some BetweenSteps \<and>
    turn_steps t = steps_begun evs \<and> turn_usage t = foldl addUsage emptyUsage (step_usages evs)"
  using runTurn_trace [OF assms(1)] assms(2) by (auto simp: complete_steps_def)

lemma turn_records_complete_steps_witness:
  "\<exists>s' evs. runTurn demo_host 5 demo_start = Some (Inr demo_turn, s') \<and> recorded s' = evs \<and> evs = demo_transcript \<and>
    transcript_run BetweenSteps evs = Some BetweenSteps \<and> turn_steps demo_turn = steps_begun evs"
proof -
  obtain s' where s': "runTurn demo_host 5 demo_start = Some (Inr demo_turn, s')" "recorded s' = demo_transcript"
    using demo_run by blast
  have "recorded demo_start = []" "turn_stopReason demo_turn \<noteq> TurnAborted"
    by (simp_all add: recorded_def demo_start_def demo_turn_def)
  with turn_records_complete_steps [OF s'(1)] s' show ?thesis by auto
qed

text \<open>
  C6: The context memory accepts the record of any turn, however it ends, from any conversation it can be in
  before: if between the events of the turn nothing reaches the memory but appended and transcript
  messages (of the user, the harness or a hook; no clear, undo or compaction, which close the open
  step), none of the events is rejected. After a turn that ended normally no call is left without a
  result and no message is held back.
\<close>

theorem context_accepts_every_turn:
  assumes "runTurn H fuel s = Some (r, s')" and "recorded s' = recorded s @ events_in items"
  shows "let c = run_ops cx_step new_context past; (errs, c') = store_all appendLoopEvent harness_message items c in
    errs = [] \<and> (\<forall>t. r = Inr t \<longrightarrow> turn_stopReason t \<noteq> TurnAborted \<longrightarrow> cx_pending c' = [] \<and> cx_deferred c' = [])"
proof -
  let ?c = "run_ops cx_step new_context past"
  have inv: "ctx_inv ?c" by (rule reachable_inv)
  from runTurn_trace [OF assms(1)] assms(2) obtain q where q: "transcript_run BetweenSteps (events_in items) = Some q"
    and normal: "\<And>t. r = Inr t \<Longrightarrow> turn_stopReason t \<noteq> TurnAborted \<Longrightarrow> q = BetweenSteps \<and> events_in items \<noteq> []"
    by (fastforce simp: complete_steps_def)
  from memory.accepts [OF inv q] have ok: "fst (store_all appendLoopEvent harness_message items ?c) = []"
    and phase: "events_in items \<noteq> [] \<Longrightarrow> context_phase q (snd (store_all appendLoopEvent harness_message items ?c))" by auto
  have "cx_pending c' = [] \<and> cx_deferred c' = []" if "context_phase BetweenSteps c'" for c'
    using that by (auto simp: ctx_inv_def ctx_ok_def)
  with ok phase normal show ?thesis by (auto simp: Let_def split: prod.split)
qed

definition demo_items :: "((bool \<times> ms \<times> ContextMessage) + ms \<times> LoopRecordedEvent) list" where
  "demo_items = Inl (False, 1, plain_user [TextPart ''more''] USER_PROMPT_ORIGIN) # map (\<lambda>e. Inr (2, e)) demo_transcript"

lemma context_accepts_every_turn_witness:
  "\<exists>s'. runTurn demo_host 5 demo_start = Some (Inr demo_turn, s') \<and> recorded s' = events_in demo_items \<and>
    (let (errs, c') = store_all appendLoopEvent harness_message demo_items new_context
     in errs = [] \<and> cx_pending c' = [] \<and> cx_deferred c' = [])"
proof -
  obtain s' where s': "runTurn demo_host 5 demo_start = Some (Inr demo_turn, s')" "recorded s' = demo_transcript"
    using demo_run by blast
  have ev: "events_in (map (\<lambda>e. Inr (2, e)) es) = es" for es by (induction es) auto
  have "recorded demo_start = []" "turn_stopReason demo_turn \<noteq> TurnAborted"
    by (simp_all add: recorded_def demo_start_def demo_turn_def)
  moreover have "events_in demo_items = demo_transcript" by (simp add: demo_items_def ev)
  ultimately show ?thesis
    using context_accepts_every_turn [OF s'(1), of demo_items "[]"] s' by auto
qed

section \<open>Batches\<close>

text \<open>
  C8: The calls of a response are recorded in their order, then their results, in the same order and
  with the same ids: all of them when the batch returns, an initial part when it throws.
\<close>

theorem batch_answers_calls_in_order:
  assumes "runToolCallBatch H u response s = (r, s')"
  shows "\<exists>evs. recorded s' = recorded s @ evs \<and> batch_prefix u (lr_toolCalls response) evs \<and>
    (\<forall>stop. r = Inr stop \<longrightarrow> batch_complete u (lr_toolCalls response) evs)"
  using yieldsD [OF yields_batch] assms by (cases r) (fastforce simp: batch_complete_def)+

lemma batch_answers_calls_in_order_witness:
  "\<exists>s'. runToolCallBatch demo_host ''s1'' (demo_response demo_calls) demo_start = (Inr False, s') \<and>
    batch_complete ''s1'' demo_calls (recorded s')"
proof -
  have "lr_toolCalls (demo_response demo_calls) = demo_calls" "recorded demo_start = []"
    by (simp_all add: demo_response_def demo_start_def recorded_def)
  with batch_answers_calls_in_order [OF demo_batch [of "''s1''" demo_start]] demo_batch [of "''s1''" demo_start]
  show ?thesis by auto
qed

text \<open>
  C7: What a batch hands to the scheduler, which may start it at once, is permitted, whatever fails then or
  later. The calls it adds are calls of the response, each at most once and in their order. Each names a
  known tool and had valid arguments; the prepare hook, asked with these, let it through with the
  arguments the tool is run with (its replacement, if it gave one); they are valid too; the tool
  resolved them to an execution; and the authorize hook, asked with them, let it through. A hook lets a
  call through when it returns in some state of the world, not throwing, blocking or answering itself.
\<close>

theorem forbidden_calls_never_run:
  "\<exists>added cs. ls_added (snd (runToolCallBatch H u response s)) = ls_added s @ added \<and>
     subseq cs (lr_toolCalls response) \<and>
     list_all2 (\<lambda>tc (i, args). i = tc_id tc \<and> h_hasTool H (tc_name tc) \<and>
         h_validate H (tc_name tc) (given_args H tc) = None \<and> prepares H tc (given_args H tc) args \<and>
         h_validate H (tc_name tc) args = None \<and>
         (\<exists>w accesses stop. fst (h_resolve H (tc_name tc) args w) = Inr (ResolvedRun accesses stop)) \<and>
         (\<exists>d. passes (h_authorize H) tc args d)) cs added"
proof -
  obtain r s' where run: "runToolCallBatch H u response s = (r, s')" by (metis surj_pair)
  from yieldsD [OF yields_batch, of H u response s] run obtain added where
    "ls_added s' = ls_added s @ added" "added_rightly H (lr_toolCalls response) added"
    by (cases r) fastforce+
  with run show ?thesis
    unfolding added_rightly_def permitted_call_def may_execute_def by auto
qed

lemma forbidden_calls_never_run_witness:
  "fst (runToolCallBatch demo_host ''s1'' (demo_response [demo_call ''c2'' ''Bash'']) demo_start) = Inr False \<and>
   ls_added (snd (runToolCallBatch demo_host ''s1'' (demo_response [demo_call ''c2'' ''Bash'']) demo_start)) = []"
proof -
  define tc where "tc = demo_call ''c2'' ''Bash''"
  define response where "response = demo_response [tc]"
  let ?out = "runToolCallBatch demo_host ''s1'' response demo_start"
  have calls: "lr_toolCalls response = [tc]" by (simp add: response_def demo_response_def)
  have no: "\<not> passes (h_authorize demo_host) tc args d" for args d
    by (auto simp: passes_def demo_call_def tc_def)
  from forbidden_calls_never_run [of demo_host "''s1''" response demo_start, unfolded calls] no
  obtain added cs where a: "ls_added (snd ?out) = ls_added demo_start @ added" and cs: "subseq cs [tc]"
    and all: "list_all2 (\<lambda>tc' x. tc' \<noteq> tc) cs added"
    by (elim exE conjE) (rule that, assumption+, erule list_all2_mono, auto)
  have "cs = []" using cs all by (cases cs) (auto simp: list_all2_Cons1 split: if_splits)
  with a all have "ls_added (snd ?out) = []" by (simp add: demo_start_def)
  moreover have "fst ?out = Inr False"
    by (simp add: response_def tc_def demo_response_def demo_call_def batch_defs run_defs)
  ultimately show ?thesis by (simp add: response_def tc_def)
qed

section \<open>Ends\<close>

text \<open>More rounds change nothing once a number of rounds is enough.\<close>

lemma turn_loop_more: "turn_loop H fuel n s = Some x \<Longrightarrow> turn_loop H (fuel + k) n s = Some x"
proof (induction fuel arbitrary: n s)
  case (Suc fuel)
  then show ?case
    by (auto simp: split: if_splits prod.splits sum.splits option.splits)
qed simp

lemma turn_loop_enough:
  assumes "h_maxSteps H = Some m" and "0 < m"
  shows "m - n < fuel \<Longrightarrow> \<exists>x. turn_loop H fuel n s = Some x"
proof (induction fuel arbitrary: n s)
  case (Suc fuel)
  show ?case
  proof (cases "m \<le> n")
    case True
    with assms show ?thesis by simp
  next
    case False
    then have "m - (n + 1) < fuel" using Suc.prems by simp
    from Suc.IH [OF this] show ?thesis
      by (auto split: prod.splits sum.splits option.splits)
  qed
qed simp

lemma turn_loop_steps:
  assumes "h_maxSteps H = Some m" and "0 < m"
  shows "turn_loop H fuel n s = Some (exit, steps, s') \<Longrightarrow> n \<le> m \<Longrightarrow> steps \<le> m"
proof (induction fuel arbitrary: n s)
  case (Suc fuel)
  show ?case
  proof (cases "m \<le> n")
    case True
    with Suc.prems assms show ?thesis by (auto split: if_splits)
  next
    case False
    with Suc.prems turn_loop_round [OF Suc.prems(1)] Suc.IH show ?thesis by fastforce
  qed
qed simp

text \<open>
  C9: With a step limit every turn ends, whatever the provider, the tools and the hooks do: there is one
  outcome, and any number of rounds above the limit computes it. It counts no more steps than the limit.
\<close>

theorem turn_ends_within_step_limit:
  assumes "h_maxSteps H = Some m" and "0 < m"
  shows "\<exists>r s'. (\<forall>fuel > m. runTurn H fuel s = Some (r, s')) \<and> (\<forall>t. r = Inr t \<longrightarrow> turn_steps t \<le> m)"
proof -
  let ?s = "s\<lparr>ls_usage := emptyUsage\<rparr>"
  obtain exit steps s1 where loop: "turn_loop H (m + 1) 0 ?s = Some (exit, steps, s1)"
    using turn_loop_enough [OF assms, of 0 "m + 1" ?s] by auto
  have "turn_loop H fuel 0 ?s = Some (exit, steps, s1)" if "fuel > m" for fuel
    using turn_loop_more [OF loop, of "fuel - (m + 1)"] that by simp
  then have same: "runTurn H fuel s = runTurn H (m + 1) s" if "fuel > m" for fuel
    using that by (simp only: runTurn_def loop)
  have le0: "0 \<le> m" by simp
  have "runTurn H (m + 1) s \<noteq> None" unfolding runTurn_def loop by (simp split: turn_exit.split)
  then obtain r s' where run: "runTurn H (m + 1) s = Some (r, s')" by auto
  have "turn_steps t \<le> m" if "r = Inr t" for t
    using run [unfolded runTurn_def loop option.case prod.case] that turn_loop_steps [OF assms loop le0]
    by (cases exit) (auto simp only: turn_exit.case option.inject prod.inject sum.inject sum.distinct
        TurnResult.simps split: if_splits)
  moreover have "\<forall>fuel > m. runTurn H fuel s = Some (r, s')"
  proof (intro allI impI)
    fix fuel assume "m < fuel"
    from same [OF this] run show "runTurn H fuel s = Some (r, s')" by (rule trans)
  qed
  ultimately show ?thesis by blast
qed

lemma turn_ends_within_step_limit_witness:
  "\<exists>r s'. \<forall>fuel > 4. runTurn demo_host fuel demo_start = Some (r, s')"
  using turn_ends_within_step_limit [of demo_host 4 demo_start] by auto

section \<open>Retries\<close>

fun retry_of :: "LoopEvent \<Rightarrow> (nat \<times> nat) list" where
  "retry_of (LiveRetrying failed following maxAttempts delay) = [(failed, following)]"
| "retry_of _ = []"

definition retries :: "'w loop_state \<Rightarrow> (nat \<times> nat) list" where
  "retries s = concat (map retry_of (ls_events s))"

lemma retries_frame [simp]:
  "retries (s\<lparr>ls_world := w\<rparr>) = retries s" "retries (s\<lparr>ls_pendingText := t\<rparr>) = retries s"
  "retries (s\<lparr>ls_pendingThinking := t\<rparr>) = retries s" "retries (note_event H ev s) = retries s @ retry_of ev"
  by (simp_all add: retries_def note_event_def)

lemma dispatch_retries: "retry_of ev = [] \<Longrightarrow> retries (snd (dispatchEvent H ev s)) = retries s"
  by (cases ev) (auto simp: dispatchEvent_def split: prod.split option.split)

lemma stream_retries: "retries (snd (run_stream H u items s)) = retries s"
proof (induction items arbitrary: s)
  case (Cons i items)
  have "retries (snd (stream_callback H u i s)) = retries s"
    by (cases i) (auto simp: stream_callback_def emitPart_def dispatch_retries)
  with Cons.IH show ?case by (auto simp: loop_simps split: prod.split sum.split)
qed (simp add: loop_simps)

lemma chat_retries: "chat H u n msgs s = (r, s') \<Longrightarrow> retries s' = retries s"
proof -
  assume c: "chat H u n msgs s = (r, s')"
  obtain items outcome w where h: "h_chat H n msgs (ls_world s) = ((items, outcome), w)"
    by (metis surj_pair)
  have "s' = snd (run_stream H u items (s\<lparr>ls_world := w\<rparr>))"
    using c by (auto simp: chat_def loop_simps h split: prod.splits sum.splits)
  then show ?thesis using stream_retries [of H u items "s\<lparr>ls_world := w\<rparr>"] by simp
qed

text \<open>A count of the requests made, kept in the world: only a request raises it.\<close>

definition counts_requests :: "'w loop_host \<Rightarrow> ('w \<Rightarrow> nat) \<Rightarrow> bool" where
  "counts_requests H n \<longleftrightarrow> (\<forall>a msgs w. n (snd (h_chat H a msgs w)) = Suc (n w)) \<and>
     (\<forall>r w. n (snd (h_append H r w)) = n w) \<and> (\<forall>ev w. n (h_emit H ev w) = n w) \<and>
     (\<forall>d w. n (snd (h_sleep H d w)) = n w)"

lemma dispatch_count: "counts_requests H n \<Longrightarrow> n (ls_world (snd (dispatchEvent H ev s))) = n (ls_world s)"
proof (cases ev)
  case (Recorded r)
  assume "counts_requests H n"
  then have "n (snd (h_append H r (ls_world s))) = n (ls_world s)" "n (h_emit H ev w) = n w" for w
    by (simp_all add: counts_requests_def)
  with Recorded show ?thesis by (auto simp: dispatchEvent_def note_event_def split: prod.split option.split)
qed (auto simp: dispatchEvent_def note_event_def counts_requests_def)

lemma stream_count: "counts_requests H n \<Longrightarrow> n (ls_world (snd (run_stream H u items s))) = n (ls_world s)"
proof (induction items arbitrary: s)
  case (Cons i items)
  have "n (ls_world (snd (stream_callback H u i s))) = n (ls_world s)"
    using Cons.prems by (cases i) (auto simp: stream_callback_def emitPart_def dispatch_count)
  with Cons show ?case by (auto simp: loop_simps split: prod.split sum.split)
qed (simp add: loop_simps)

lemma chat_count:
  assumes "counts_requests H n" and c: "chat H u a msgs s = (r, s')"
  shows "n (ls_world s') = Suc (n (ls_world s))"
proof -
  obtain items outcome w where h: "h_chat H a msgs (ls_world s) = ((items, outcome), w)"
    by (metis surj_pair)
  have "s' = snd (run_stream H u items (s\<lparr>ls_world := w\<rparr>))"
    using c by (auto simp: chat_def loop_simps h split: prod.splits sum.splits)
  moreover have "n w = Suc (n (ls_world s))" using assms(1) h by (metis counts_requests_def snd_conv)
  ultimately show ?thesis using stream_count [OF assms(1), of u items "s\<lparr>ls_world := w\<rparr>"] by simp
qed

definition numbered :: "nat \<Rightarrow> nat \<Rightarrow> (nat \<times> nat) list" where
  "numbered a k = map (\<lambda>i. (i, i + 1)) [a..<k]"

lemma retry_loop_retries:
  assumes count: "counts_requests H n" and "retry_loop H u msgs f delays maxAttempts left a s = (r, s')"
  shows "\<exists>k. a \<le> k \<and> k \<le> a + left \<and> retries s' = retries s @ numbered a k \<and>
    (n (ls_world s') = n (ls_world s) + Suc (k - a) \<or>
     isl r \<and> a < k \<and> n (ls_world s') = n (ls_world s) + (k - a))"
  using assms(2)
proof (induction left arbitrary: a s)
  case 0
  then have "retries s' = retries s" "n (ls_world s') = Suc (n (ls_world s))"
    by (simp_all add: chat_retries chat_count [OF count])
  then show ?case by (intro exI [of _ a]) (simp add: numbered_def)
next
  case (Suc left)
  obtain q s1 where c: "chat H u a msgs s = (q, s1)" by (cases "chat H u a msgs s")
  note quiet = chat_retries [OF c] chat_count [OF count c]
  have none: "numbered a a = []" and one: "numbered a (a + 1) = [(a, a + 1)]" by (simp_all add: numbered_def)
  show ?case
  proof (cases "\<exists>e. q = Inl e \<and> f e \<and> \<not> h_aborted H (ls_world s1)")
    case False
    then have "s' = s1"
      using Suc.prems c by (auto simp: loop_simps throwIfAborted_def Let_def split: sum.splits if_splits)
    with quiet none show ?thesis by (intro exI [of _ a]) simp
  next
    case True
    then obtain e where e: "q = Inl e" "f e" "\<not> h_aborted H (ls_world s1)" by blast
    define d where "d = (if a - 1 < length delays then delays ! (a - 1) else 0)"
    define s2 where "s2 = note_event H (LiveRetrying a (a + 1) maxAttempts d) (s1\<lparr>ls_pendingText := [], ls_pendingThinking := []\<rparr>)"
    have r2: "retries s2 = retries s @ [(a, a + 1)]" "n (ls_world s2) = Suc (n (ls_world s))"
      using quiet count by (simp_all add: s2_def note_event_def counts_requests_def retries_def)
    obtain p s3 where sl: "sleepForRetry H d s2 = (p, s3)" by (cases "sleepForRetry H d s2")
    have "s3 = s2 \<or> s3 = s2\<lparr>ls_world := snd (h_sleep H d (ls_world s2))\<rparr>"
      using sl by (auto simp: sleepForRetry_def loop_simps throwIfAborted_def hostThrows_def split: if_splits prod.splits option.splits)
    then have r3: "retries s3 = retries s2" "n (ls_world s3) = n (ls_world s2)"
      using count by (auto simp: counts_requests_def)
    have go: "(case p of Inl x \<Rightarrow> (Inl x, s3) | Inr y \<Rightarrow>
        retry_loop H u msgs f delays maxAttempts left (a + 1) s3) = (r, s')"
      using Suc.prems c e sl
      by (simp add: loop_simps throwIfAborted_def discardPending_def dispatchEvent_def Let_def d_def s2_def split: sum.splits)
    show ?thesis
    proof (cases p)
      case (Inl x)
      with go r2 r3 one show ?thesis by (intro exI [of _ "a + 1"]) auto
    next
      case (Inr y)
      with go have "retry_loop H u msgs f delays maxAttempts left (a + 1) s3 = (r, s')" by simp
      from Suc.IH [OF this] obtain k where k: "a + 1 \<le> k" "k \<le> a + 1 + left"
        "retries s' = retries s3 @ numbered (a + 1) k"
        "n (ls_world s') = n (ls_world s3) + Suc (k - (a + 1)) \<or>
         isl r \<and> a + 1 < k \<and> n (ls_world s') = n (ls_world s3) + (k - (a + 1))" by blast
      have "numbered a k = (a, a + 1) # numbered (a + 1) k" using k(1) by (simp add: numbered_def upt_conv_Cons)
      with k r2 r3 show ?thesis by (intro exI [of _ k]) auto
    qed
  qed
qed

text \<open>
  C10: A request is made at least once and at most as often as configured, whatever fails. The retries
  announced are numbered from the first attempt on without a gap, one before every further request, and
  only one that an abort or a failing wait cuts off is followed by no request. An error that is not
  retryable is returned after the first request.
\<close>

theorem retries_are_bounded:
  assumes "chatWithRetry H u msgs s = (r, s')" and "counts_requests H n"
  shows "\<exists>attempts \<ge> 1. n (ls_world s') = n (ls_world s) + attempts \<and>
    attempts \<le> max 1 (case h_maxRetryAttempts H of None \<Rightarrow> DEFAULT_MAX_RETRY_ATTEMPTS | Some m \<Rightarrow> m) \<and>
    (retries s' = retries s @ numbered 1 attempts \<or> isl r \<and> retries s' = retries s @ numbered 1 (attempts + 1)) \<and>
    (\<forall>e f. fst (chat H u 1 msgs s) = Inl e \<longrightarrow> h_isRetryable H = Some f \<longrightarrow> \<not> f e \<longrightarrow> r = Inl e \<and> attempts = 1)"
proof -
  let ?max = "case h_maxRetryAttempts H of None \<Rightarrow> DEFAULT_MAX_RETRY_ATTEMPTS | Some m \<Rightarrow> m"
  have none: "numbered (Suc 0) (Suc 0) = []" by (simp add: numbered_def)
  show ?thesis
  proof (cases "h_isRetryable H = None \<or> ?max \<le> 1")
    case True
    then have c: "chat H u 1 msgs s = (r, s')" using assms(1) by (auto simp: chatWithRetry_def Let_def split: option.splits)
    from chat_retries [OF c] chat_count [OF assms(2) c] c show ?thesis by (intro exI [of _ 1]) (simp add: none)
  next
    case False
    then obtain f where f: "h_isRetryable H = Some f" "1 < ?max" by auto
    then have l: "retry_loop H u msgs f (h_delays H ?max) ?max (?max - 1) 1 s = (r, s')"
      using assms(1) by (simp add: chatWithRetry_def Let_def)
    from retry_loop_retries [OF assms(2) l] f(2) obtain k where k: "1 \<le> k" "k \<le> ?max"
      "retries s' = retries s @ numbered 1 k"
      "n (ls_world s') = n (ls_world s) + k \<or> isl r \<and> 1 < k \<and> n (ls_world s') = n (ls_world s) + (k - 1)" by fastforce
    define attempts where "attempts = n (ls_world s') - n (ls_world s)"
    have attempts: "1 \<le> attempts" "n (ls_world s') = n (ls_world s) + attempts" "attempts \<le> ?max"
      "k = attempts \<or> isl r \<and> k = attempts + 1" using k unfolding attempts_def by auto
    obtain m where m: "?max - 1 = Suc m" using f(2) by (cases "?max - 1") auto
    have "r = Inl e \<and> attempts = 1" if "fst (chat H u 1 msgs s) = Inl e" "\<not> f e" for e
    proof -
      define s1 where "s1 = snd (chat H u 1 msgs s)"
      have c: "chat H u 1 msgs s = (Inl e, s1)" using that(1) by (simp add: s1_def prod_eq_iff)
      with l that(2) chat_count [OF assms(2) c] show ?thesis unfolding m by (simp add: loop_simps attempts_def)
    qed
    moreover have "retries s' = retries s @ numbered 1 attempts \<or> isl r \<and> retries s' = retries s @ numbered 1 (attempts + 1)"
      using attempts(4) k(3) by auto
    ultimately show ?thesis using attempts(1-3) f(1) by (intro exI [of _ attempts]) auto
  qed
qed

lemma retries_are_bounded_witness:
  "\<exists>r s'. chatWithRetry demo_host ''s1'' [] demo_start = (r, s') \<and> 1 \<le> ls_world s' \<and> ls_world s' \<le> 3"
proof -
  obtain r s' where c: "chatWithRetry demo_host ''s1'' [] demo_start = (r, s')" by (metis surj_pair)
  have "ls_world demo_start = 0" by (simp add: demo_start_def)
  moreover have "counts_requests demo_host id" by (simp add: counts_requests_def demo_host_def)
  ultimately show ?thesis using retries_are_bounded [OF c] c by (force simp: DEFAULT_MAX_RETRY_ATTEMPTS_def)
qed

end
