(* ===== verification/Background_Tasks.thy ===== *)
theory Background_Tasks
  imports Tool_Dedup
begin

text \<open>
  Background tasks (\<open>agent/background/index.ts\<close>, \<open>task.ts\<close>, \<open>persist.ts\<close> and
  \<open>agent/context/notification-xml.ts\<close>).

  The manager is asynchronous. Its steps here are the stretches of code between two awaits, and the
  events that settle what it awaits: a task that writes or settles, a timer, an abort signal, a disk
  write that finishes or fails. \<open>bg_step\<close> runs one of them; an event that cannot happen in a
  state does nothing. Any sequence of events is a schedule; so where a race of promises has several
  winners every one of them is allowed. The lifecycle of a task is \<open>life_phase\<close>.

  The concrete task (a process, a question) appears through what it does to its sink and through the
  fields it adds to its info, of which the exit code of a process is one that it sets itself
  (\<open>Ev_exited\<close>), after a forced stop also when the manager has ended the task already. Telemetry is left
  out. The buffered output counts code units where the
  code counts them and UTF-8 bytes where it counts bytes.
\<close>

section \<open>Tasks\<close>

datatype BackgroundTaskStatus = TS_running | TS_completed | TS_failed | TS_timed_out | TS_killed | TS_lost

definition TERMINAL_STATUSES :: "BackgroundTaskStatus list" where
  "TERMINAL_STATUSES = [TS_completed, TS_failed, TS_timed_out, TS_killed, TS_lost]"

definition isBackgroundTaskTerminal :: "BackgroundTaskStatus \<Rightarrow> bool" where
  "isBackgroundTaskTerminal s \<longleftrightarrow> s \<in> set TERMINAL_STATUSES"

fun status_name :: "BackgroundTaskStatus \<Rightarrow> string" where
  "status_name TS_running = ''running''"
| "status_name TS_completed = ''completed''"
| "status_name TS_failed = ''failed''"
| "status_name TS_timed_out = ''timed_out''"
| "status_name TS_killed = ''killed''"
| "status_name TS_lost = ''lost''"

datatype BackgroundTaskSettlementStatus = Set_completed | Set_failed | Set_timed_out | Set_killed

fun settled_status :: "BackgroundTaskSettlementStatus \<Rightarrow> BackgroundTaskStatus" where
  "settled_status Set_completed = TS_completed"
| "settled_status Set_failed = TS_failed"
| "settled_status Set_timed_out = TS_timed_out"
| "settled_status Set_killed = TS_killed"

record BackgroundTaskSettlement =
  bs_status :: BackgroundTaskSettlementStatus
  bs_stopReason :: "string option"

text \<open>What the task itself adds: command, process id and exit code, or the number of questions and the call.\<close>

datatype TaskDetails =
    ProcessDetails string int "int option"
  | QuestionDetails nat "string option"

record BackgroundTaskInfo =
  bi_taskId :: string
  bi_kind :: string
  bi_description :: string
  bi_status :: BackgroundTaskStatus
  bi_detached :: "bool option"
  bi_startedAt :: ms
  bi_endedAt :: "ms option"
  bi_stopReason :: "string option"
  bi_suppressed :: "bool option"
  bi_timeoutMs :: "ms option"
  bi_details :: TaskDetails

text \<open>The task: what it is made with, what it tells of itself, and which of the optional methods it has.\<close>

record BackgroundTask =
  bt_idPrefix :: string
  bt_kind :: string
  bt_description :: string
  bt_timeoutMs :: "ms option"
  bt_details :: TaskDetails
  bt_pause :: bool
  bt_addGuidance :: bool
  bt_resume :: bool

record RegisterBackgroundTaskOptions =
  bo_detached :: "bool option"
  bo_timeoutMs :: "ms option"
  bo_detachTimeoutMs :: "ms option"
  bo_signal :: bool

section \<open>Ids\<close>

definition ID_ALPHABET :: string where "ID_ALPHABET = ''0123456789abcdefghijklmnopqrstuvwxyz''"

definition generateTaskId :: "string \<Rightarrow> nat list \<Rightarrow> string" where
  "generateTaskId kind bytes = kind @ ''-'' @ map (\<lambda>b. ID_ALPHABET ! (b mod 36)) (take 8 bytes)"

text \<open>\<open>VALID_TASK_ID\<close>: groups of lower-case letters and digits joined by dashes, at least two of them, the
  last of eight characters.\<close>

fun dash_groups :: "string \<Rightarrow> string list" where
  "dash_groups [] = [[]]"
| "dash_groups (c # cs) =
     (if c = CHR ''-'' then [] # dash_groups cs
      else case dash_groups cs of [] \<Rightarrow> [[c]] | g # gs \<Rightarrow> (c # g) # gs)"

definition valid_task_id :: "string \<Rightarrow> bool" where
  "valid_task_id i = (let gs = dash_groups i in length gs \<ge> 2 \<and>
     list_all (\<lambda>g. length g > 0 \<and> list_all (\<lambda>c. c \<in> set ID_ALPHABET) g) gs \<and> length (last gs) = 8)"

section \<open>Notifications\<close>

record BackgroundTaskOrigin =
  or_taskId :: string
  or_status :: BackgroundTaskStatus
  or_notificationId :: string

record BackgroundTaskNotification =
  nt_id :: string
  nt_category :: string
  nt_type :: string
  nt_source_kind :: string
  nt_source_id :: string
  nt_title :: string
  nt_severity :: string
  nt_body :: string
  nt_children :: "string list"

definition stringAttr :: "string \<Rightarrow> string \<Rightarrow> string" where
  "stringAttr value fallback = (if length value = 0 then fallback else escapeXmlAttr value)"

definition quoted_attr :: "string \<Rightarrow> string \<Rightarrow> string" where
  "quoted_attr name value = name @ ''='' @ [CHR 0x22] @ value @ [CHR 0x22]"

definition renderNotificationXml :: "BackgroundTaskNotification \<Rightarrow> string" where
  "renderNotificationXml n =
     (let open_tag = ''<notification '' @ quoted_attr ''id'' (stringAttr (nt_id n) ''unknown'') @ '' '' @
            quoted_attr ''category'' (stringAttr (nt_category n) ''unknown'') @ '' '' @
            quoted_attr ''type'' (stringAttr (nt_type n) ''unknown'') @ '' '' @
            quoted_attr ''source_kind'' (stringAttr (nt_source_kind n) ''unknown'') @ '' '' @
            quoted_attr ''source_id'' (stringAttr (nt_source_id n) ''unknown'') @ ''>''
      in join_with nl ([open_tag] @
           (if length (nt_title n) > 0 then [''Title: '' @ nt_title n] else []) @
           (if length (nt_severity n) > 0 then [''Severity: '' @ nt_severity n] else []) @
           (if length (nt_body n) > 0 then [nt_body n] else []) @
           filter (\<lambda>c. length c > 0) (nt_children n) @ [''</notification>'']))"

text \<open>\<open>notificationKey\<close> joins the three parts with a NUL; they are kept apart here.\<close>

type_synonym notification_key = "string \<times> BackgroundTaskStatus \<times> string"

definition notificationKey :: "BackgroundTaskOrigin \<Rightarrow> notification_key" where
  "notificationKey og = (or_taskId og, or_status og, or_notificationId og)"

definition buildBackgroundTaskNotificationBody :: "BackgroundTaskInfo \<Rightarrow> string" where
  "buildBackgroundTaskNotificationBody info =
     (if bi_status info = TS_timed_out then bi_description info @ '' timed out.''
      else case bi_stopReason info of
        Some r \<Rightarrow>
          (if length r > 0 then bi_description info @ '' '' @
             (if bi_status info = TS_killed then ''was killed'' else status_name (bi_status info)) @ '': '' @ r @ ''.''
           else bi_description info @ '' '' @ status_name (bi_status info) @ ''.'')
      | None \<Rightarrow> bi_description info @ '' '' @ status_name (bi_status info) @ ''.'')"

section \<open>Output\<close>

text \<open>UTF-8 of the Latin-1 range.\<close>

definition utf8_char :: "char \<Rightarrow> nat list" where
  "utf8_char c = (let n = of_char c in if n < 128 then [n] else [192 + n div 64, 128 + n mod 64])"

definition utf8 :: "string \<Rightarrow> nat list" where
  "utf8 s = concat (map utf8_char s)"

definition byteLength :: "string \<Rightarrow> nat" where
  "byteLength s = length (utf8 s)"

definition MAX_OUTPUT_BYTES :: nat where "MAX_OUTPUT_BYTES = 1024 * 1024"
definition NOTIFICATION_FALLBACK_PREVIEW_BYTES :: int where "NOTIFICATION_FALLBACK_PREVIEW_BYTES = 3000"
definition USER_INTERRUPT_REASON :: string where "USER_INTERRUPT_REASON = ''Interrupted by user''"

text \<open>The preview is the window of bytes, before its decoding.\<close>

record BackgroundTaskOutputSnapshot =
  os_outputPath :: "string option"
  os_outputSizeBytes :: nat
  os_previewBytes :: nat
  os_truncated :: bool
  os_fullOutputAvailable :: bool
  os_preview :: "nat list"

definition emptyOutputSnapshot :: BackgroundTaskOutputSnapshot where
  "emptyOutputSnapshot = \<lparr>os_outputPath = None, os_outputSizeBytes = 0, os_previewBytes = 0, os_truncated = False,
     os_fullOutputAvailable = False, os_preview = []\<rparr>"

text \<open>The oldest chunks are dropped while the buffer is over its budget and has more than one.\<close>

fun drop_oldest :: "nat \<Rightarrow> string list \<Rightarrow> string list" where
  "drop_oldest units (c # d # cs) =
     (if units > MAX_OUTPUT_BYTES then drop_oldest (units - length c) (d # cs) else c # d # cs)"
| "drop_oldest units cs = cs"

section \<open>The manager\<close>

datatype ForegroundTaskReleaseReason = Rel_detached | Rel_terminal

datatype TerminalOutcome = Worker BackgroundTaskSettlement | Timeout | StopRequested "string option"

text \<open>Where \<open>runTaskLifecycle\<close> stands: in the race, in the grace time after an abort, in \<open>forceStop\<close>, waiting
  for so many record writes, waiting for so many output writes with the snapshot that is to be
  notified, or done.\<close>

datatype life_phase =
    Racing
  | InGrace TerminalOutcome
  | ForceStopping TerminalOutcome
  | PersistingEnd nat
  | Notifying BackgroundTaskInfo nat
  | LifeEnded

record ManagedTask =
  mt_taskId :: string
  mt_task :: BackgroundTask
  mt_outputChunks :: "string list"
  mt_outputSizeBytes :: nat
  mt_status :: BackgroundTaskStatus
  mt_options :: RegisterBackgroundTaskOptions
  mt_startedAt :: ms
  mt_endedAt :: "ms option"
  mt_foreground :: bool
  mt_released :: "ForegroundTaskReleaseReason option"
  mt_timer :: "ms option"
  mt_timedOut :: bool
  mt_stop :: "string option option"
  mt_signalled :: bool
  mt_worker :: "BackgroundTaskSettlement option"
  mt_terminal :: bool
  mt_stopReason :: "string option"
  mt_suppressed :: "bool option"
  mt_aborted :: bool
  mt_persistWriteQueue :: "BackgroundTaskInfo list"
  mt_outputWriteQueue :: "string list"
  mt_pendingOutput :: "string list"
  mt_pendingOutputBytes :: nat
  mt_outputPersistStarted :: bool
  mt_phase :: life_phase

datatype bg_effect =
    EmitStarted BackgroundTaskInfo
  | EmitUpdated BackgroundTaskInfo
  | EmitTerminated BackgroundTaskInfo
  | Call_turn_noteBackgroundActivity
  | Call_task_onDetach string
  | Call_turn_steer string BackgroundTaskOrigin
  | Call_context_appendUserMessage string BackgroundTaskOrigin
  | Trigger_Notification BackgroundTaskNotification

text \<open>The manager with the session directory it writes to: records and output logs by task id.
  \<open>bm_persistence\<close> says whether there is one. A record may be an old one.\<close>

record LegacyPersistedTask =
  lt_task_id :: string
  lt_command :: string
  lt_pid :: int
  lt_exit_code :: "int option"
  lt_description :: string
  lt_started_at :: ms
  lt_ended_at :: "ms option"
  lt_awaiting_approval :: bool
  lt_status :: BackgroundTaskStatus
  lt_timed_out :: "bool option"
  lt_stop_reason :: "string option"
  lt_timeout_ms :: "ms option"

datatype DiskPersistedTask = CurrentRecord BackgroundTaskInfo | LegacyRecord LegacyPersistedTask

record BackgroundManager =
  bm_tasks :: "(string \<times> ManagedTask) list"
  bm_ghosts :: "(string \<times> BackgroundTaskInfo) list"
  bm_scheduled :: "notification_key list"
  bm_delivered :: "notification_key list"
  bm_persistence :: bool
  bm_records :: "(string \<times> DiskPersistedTask) list"
  bm_logs :: "(string \<times> string) list"
  bm_maxRunningTasks :: "int option"
  bm_effects :: "bg_effect list"

definition effect :: "bg_effect \<Rightarrow> BackgroundManager \<Rightarrow> BackgroundManager" where
  "effect x m = m\<lparr>bm_effects := bm_effects m @ [x]\<rparr>"

definition put_task :: "ManagedTask \<Rightarrow> BackgroundManager \<Rightarrow> BackgroundManager" where
  "put_task e m = m\<lparr>bm_tasks := map_put (mt_taskId e) e (bm_tasks m)\<rparr>"

definition isDetached :: "ManagedTask \<Rightarrow> bool" where
  "isDetached e \<longleftrightarrow> \<not> mt_foreground e"

definition toInfo :: "ManagedTask \<Rightarrow> BackgroundTaskInfo" where
  "toInfo e = \<lparr>bi_taskId = mt_taskId e, bi_kind = bt_kind (mt_task e), bi_description = bt_description (mt_task e),
     bi_status = mt_status e, bi_detached = Some (isDetached e), bi_startedAt = mt_startedAt e,
     bi_endedAt = mt_endedAt e, bi_stopReason = mt_stopReason e, bi_suppressed = mt_suppressed e,
     bi_timeoutMs = bo_timeoutMs (mt_options e), bi_details = bt_details (mt_task e)\<rparr>"

text \<open>\<open>ProcessBackgroundTask.start\<close> notes the exit code of its process.\<close>

fun set_exit_code :: "int option \<Rightarrow> TaskDetails \<Rightarrow> TaskDetails" where
  "set_exit_code code (ProcessDetails command pid old) = ProcessDetails command pid code"
| "set_exit_code code (QuestionDetails n call) = QuestionDetails n call"

definition exited :: "int option \<Rightarrow> ManagedTask \<Rightarrow> ManagedTask" where
  "exited code e = e\<lparr>mt_task := (mt_task e)\<lparr>bt_details := set_exit_code code (bt_details (mt_task e))\<rparr>\<rparr>"

definition emitTaskStarted :: "BackgroundTaskInfo \<Rightarrow> BackgroundManager \<Rightarrow> BackgroundManager" where
  "emitTaskStarted info m = effect Call_turn_noteBackgroundActivity (effect (EmitStarted info) m)"

definition emitTaskUpdated :: "BackgroundTaskInfo \<Rightarrow> BackgroundManager \<Rightarrow> BackgroundManager" where
  "emitTaskUpdated info m = effect Call_turn_noteBackgroundActivity (effect (EmitUpdated info) m)"

definition emitTaskTerminated :: "BackgroundTaskInfo \<Rightarrow> BackgroundManager \<Rightarrow> BackgroundManager" where
  "emitTaskTerminated info m = effect Call_turn_noteBackgroundActivity (effect (EmitTerminated info) m)"

section \<open>Registering\<close>

definition startedInBackground :: "ManagedTask \<Rightarrow> bool" where
  "startedInBackground e \<longleftrightarrow> bo_detached (mt_options e) \<noteq> Some False"

definition activeBackgroundAdmissionCount :: "BackgroundManager \<Rightarrow> nat" where
  "activeBackgroundAdmissionCount m =
     length (filter (\<lambda>(i, e). \<not> isBackgroundTaskTerminal (mt_status e) \<and> startedInBackground e) (bm_tasks m))"

definition assertCanRegister :: "bool \<Rightarrow> BackgroundManager \<Rightarrow> bool" where
  "assertCanRegister startedInBg m =
     (case bm_maxRunningTasks m of None \<Rightarrow> True
      | Some mx \<Rightarrow> \<not> startedInBg \<or> int (activeBackgroundAdmissionCount m) < mx)"

definition armed :: "ms option \<Rightarrow> ms option" where
  "armed t = (case t of Some d \<Rightarrow> if d > 0 then Some d else None | None \<Rightarrow> None)"

text \<open>\<open>persistLive\<close>: the snapshot is taken now and written when the writes before it are done.\<close>

definition persistLive :: "ManagedTask \<Rightarrow> BackgroundManager \<Rightarrow> BackgroundManager" where
  "persistLive e m =
     (if \<not> bm_persistence m then put_task e m
      else put_task (e\<lparr>mt_persistWriteQueue := mt_persistWriteQueue e @ [toInfo e]\<rparr>) m)"

definition new_task :: "ms \<Rightarrow> string \<Rightarrow> BackgroundTask \<Rightarrow> RegisterBackgroundTaskOptions \<Rightarrow> bool \<Rightarrow> ManagedTask" where
  "new_task now taskId task options signalAborted =
     (let detached = (case bo_detached options of Some d \<Rightarrow> d | None \<Rightarrow> True);
          timeoutMs = (case bo_timeoutMs options of Some t \<Rightarrow> Some t | None \<Rightarrow> bt_timeoutMs task)
      in \<lparr>mt_taskId = taskId, mt_task = task, mt_outputChunks = [], mt_outputSizeBytes = 0, mt_status = TS_running,
          mt_options = \<lparr>bo_detached = Some detached, bo_timeoutMs = timeoutMs,
            bo_detachTimeoutMs = bo_detachTimeoutMs options, bo_signal = (\<not> detached \<and> bo_signal options)\<rparr>,
          mt_startedAt = now, mt_endedAt = None, mt_foreground = (\<not> detached), mt_released = None,
          mt_timer = armed timeoutMs, mt_timedOut = False, mt_stop = None,
          mt_signalled = (\<not> detached \<and> bo_signal options \<and> signalAborted), mt_worker = None, mt_terminal = False,
          mt_stopReason = None, mt_suppressed = None, mt_aborted = False, mt_persistWriteQueue = [],
          mt_outputWriteQueue = [], mt_pendingOutput = [], mt_pendingOutputBytes = 0,
          mt_outputPersistStarted = detached, mt_phase = Racing\<rparr>)"

text \<open>The id is drawn at random; the step is given it.\<close>

definition registerTask :: "ms \<Rightarrow> string \<Rightarrow> BackgroundTask \<Rightarrow> RegisterBackgroundTaskOptions \<Rightarrow> bool \<Rightarrow>
    BackgroundManager \<Rightarrow> string option \<times> BackgroundManager" where
  "registerTask now taskId task options signalAborted m =
     (let e = new_task now taskId task options signalAborted
      in if \<not> assertCanRegister (isDetached e) m then (None, m)
         else (Some taskId,
           if isDetached e then emitTaskStarted (toInfo e) (persistLive e m) else put_task e m))"

section \<open>Output\<close>

definition appendTaskOutput :: "string \<Rightarrow> bool \<Rightarrow> ManagedTask \<Rightarrow> ManagedTask" where
  "appendTaskOutput chunk persistence e =
     (if \<not> persistence then e else e\<lparr>mt_outputWriteQueue := mt_outputWriteQueue e @ [chunk]\<rparr>)"

definition startOutputPersist :: "bool \<Rightarrow> ManagedTask \<Rightarrow> ManagedTask" where
  "startOutputPersist persistence e =
     (if mt_outputPersistStarted e then e
      else let e1 = e\<lparr>mt_outputPersistStarted := True\<rparr>;
               e2 = (if length (mt_pendingOutput e1) > 0 then appendTaskOutput (concat (mt_pendingOutput e1)) persistence e1
                     else e1)
           in e2\<lparr>mt_pendingOutput := [], mt_pendingOutputBytes := 0\<rparr>)"

definition appendOutput :: "string \<Rightarrow> bool \<Rightarrow> ManagedTask \<Rightarrow> ManagedTask" where
  "appendOutput chunk persistence e =
     (let chunks = mt_outputChunks e @ [chunk];
          e1 = e\<lparr>mt_outputSizeBytes := mt_outputSizeBytes e + byteLength chunk,
                 mt_outputChunks := drop_oldest (sum_list (map length chunks)) chunks\<rparr>
      in if \<not> persistence then e1
         else if \<not> mt_outputPersistStarted e1 then
           (let e2 = e1\<lparr>mt_pendingOutput := mt_pendingOutput e1 @ [chunk],
                        mt_pendingOutputBytes := mt_pendingOutputBytes e1 + byteLength chunk\<rparr>
            in if mt_pendingOutputBytes e2 > MAX_OUTPUT_BYTES then startOutputPersist persistence e2 else e2)
         else appendTaskOutput chunk persistence e1)"

section \<open>Queries\<close>

definition getTask :: "string \<Rightarrow> BackgroundManager \<Rightarrow> BackgroundTaskInfo option" where
  "getTask i m = (case map_get (bm_tasks m) i of Some e \<Rightarrow> Some (toInfo e) | None \<Rightarrow> map_get (bm_ghosts m) i)"

definition shouldListTask :: "BackgroundTaskInfo \<Rightarrow> bool \<Rightarrow> bool" where
  "shouldListTask info activeOnly =
     (if \<not> isBackgroundTaskTerminal (bi_status info) then True
      else if activeOnly then False else bi_detached info \<noteq> Some False)"

text \<open>The limit is tested after an info is added, so a limit of zero still gives one.\<close>

definition listTasks :: "bool \<Rightarrow> nat option \<Rightarrow> BackgroundManager \<Rightarrow> BackgroundTaskInfo list" where
  "listTasks activeOnly limit m =
     (let infos = filter (\<lambda>i. shouldListTask i activeOnly)
            (map (toInfo \<circ> snd) (bm_tasks m) @ (if activeOnly then [] else map snd (bm_ghosts m)))
      in case limit of None \<Rightarrow> infos | Some n \<Rightarrow> take (max 1 n) infos)"

definition readTaskOutputBytes :: "BackgroundManager \<Rightarrow> string \<Rightarrow> nat \<Rightarrow> nat \<Rightarrow> nat list" where
  "readTaskOutputBytes m i offset maxBytes =
     (case map_get (bm_logs m) i of None \<Rightarrow> [] | Some t \<Rightarrow> take maxBytes (drop offset (utf8 t)))"

text \<open>What \<open>getOutputSnapshot\<close> gives once the output writes it awaits are done. \<open>path\<close> names the log of
  a task.\<close>

definition getOutputSnapshot :: "(string \<Rightarrow> string) \<Rightarrow> string \<Rightarrow> int \<Rightarrow> BackgroundManager \<Rightarrow> BackgroundTaskOutputSnapshot" where
  "getOutputSnapshot path i maxPreviewBytes m =
     (if getTask i m = None then emptyOutputSnapshot
      else let previewLimit = nat maxPreviewBytes
        in case (if bm_persistence m then map_get (bm_logs m) i else None) of
             Some t \<Rightarrow>
               (let outputSizeBytes = length (utf8 t); previewOffset = outputSizeBytes - previewLimit;
                    previewBytes = outputSizeBytes - previewOffset
                in \<lparr>os_outputPath = Some (path i), os_outputSizeBytes = outputSizeBytes, os_previewBytes = previewBytes,
                    os_truncated = (previewOffset > 0), os_fullOutputAvailable = True,
                    os_preview = readTaskOutputBytes m i previewOffset previewBytes\<rparr>)
           | None \<Rightarrow>
               (case map_get (bm_tasks m) i of
                  None \<Rightarrow> emptyOutputSnapshot
                | Some e \<Rightarrow>
                    (let available = utf8 (concat (mt_outputChunks e));
                         previewBytes = min previewLimit (min (length available) (mt_outputSizeBytes e));
                         previewOffset = length available - previewBytes
                     in \<lparr>os_outputPath = None, os_outputSizeBytes = mt_outputSizeBytes e, os_previewBytes = previewBytes,
                         os_truncated = (mt_outputSizeBytes e > previewBytes), os_fullOutputAvailable = False,
                         os_preview = drop previewOffset available\<rparr>)))"

text \<open>\<open>slice(-tail)\<close>: the last \<open>tail\<close> units, but all of them for a tail of zero. The snapshot is taken with no limit.\<close>

definition readOutput :: "(nat list \<Rightarrow> string) \<Rightarrow> (string \<Rightarrow> string) \<Rightarrow> string \<Rightarrow> nat option \<Rightarrow> BackgroundManager \<Rightarrow> string" where
  "readOutput decode path i tail m =
     (let output = decode (os_preview (getOutputSnapshot path i 9007199254740991 m))
      in case tail of
           Some n \<Rightarrow> if n < length output then (if n = 0 then output else drop (length output - n) output) else output
         | None \<Rightarrow> output)"

definition renderOutputFileBlock :: "string \<Rightarrow> nat \<Rightarrow> string" where
  "renderOutputFileBlock outputPath outputSizeBytes = join_with nl
     [''<output-file '' @ quoted_attr ''path'' (escapeXmlAttr outputPath) @ '' '' @
        quoted_attr ''bytes'' (show_count outputSizeBytes) @ ''>'',
      ''Read the output file to retrieve the result: '' @ escapeXml outputPath,
      ''</output-file>'']"

text \<open>The decoding of a window that may start inside a character is a parameter.\<close>

definition renderOutputPreviewBlock :: "(nat list \<Rightarrow> string) \<Rightarrow> BackgroundTaskOutputSnapshot \<Rightarrow> string" where
  "renderOutputPreviewBlock decode output = join_with nl
     [''<output-preview '' @ quoted_attr ''bytes'' (show_count (os_previewBytes output)) @ '' '' @
        quoted_attr ''total_bytes'' (show_count (os_outputSizeBytes output)) @ '' '' @
        quoted_attr ''truncated'' (if os_truncated output then ''true'' else ''false'') @ ''>'',
      if os_truncated output
      then ''Showing the last '' @ show_count (os_previewBytes output) @ '' bytes. No persisted full output is available.''
      else ''No persisted full output is available; this preview is the currently buffered task output.'',
      escapeXml (decode (os_preview output)),
      ''</output-preview>'']"

definition backgroundTaskNotificationChildren ::
  "(nat list \<Rightarrow> string) \<Rightarrow> BackgroundTaskOutputSnapshot \<Rightarrow> string list" where
  "backgroundTaskNotificationChildren decode output =
     (case (os_fullOutputAvailable output, os_outputPath output) of
        (True, Some p) \<Rightarrow> [renderOutputFileBlock p (os_outputSizeBytes output)]
      | _ \<Rightarrow> if length (decode (os_preview output)) = 0 then [] else [renderOutputPreviewBlock decode output])"

section \<open>Notifying\<close>

text \<open>The parameters of the rendering: the path of a log, and the decoder of a window.\<close>

record output_env =
  oe_path :: "string \<Rightarrow> string"
  oe_decode :: "nat list \<Rightarrow> string"

definition notification_origin :: "BackgroundTaskInfo \<Rightarrow> BackgroundTaskOrigin" where
  "notification_origin info = \<lparr>or_taskId = bi_taskId info, or_status = bi_status info,
     or_notificationId = ''task:'' @ bi_taskId info @ '':'' @ status_name (bi_status info)\<rparr>"

definition isTerminalNotificationSuppressed :: "string \<Rightarrow> BackgroundManager \<Rightarrow> bool" where
  "isTerminalNotificationSuppressed i m \<longleftrightarrow>
     (case map_get (bm_tasks m) i of Some e \<Rightarrow> mt_suppressed e = Some True | None \<Rightarrow> False) \<or>
     (case map_get (bm_ghosts m) i of Some g \<Rightarrow> bi_suppressed g = Some True | None \<Rightarrow> False)"

text \<open>\<open>buildBackgroundTaskNotificationContext\<close> up to its first await: the key is scheduled.\<close>

definition begin_notification :: "BackgroundTaskInfo \<Rightarrow> BackgroundManager \<Rightarrow> BackgroundManager option" where
  "begin_notification info m =
     (let key = notificationKey (notification_origin info)
      in if bi_detached info = Some False then None
         else if isTerminalNotificationSuppressed (bi_taskId info) m then None
         else if key \<in> set (bm_scheduled m) then None
         else if key \<in> set (bm_delivered m) then None
         else Some (m\<lparr>bm_scheduled := oset_add key (bm_scheduled m)\<rparr>))"

definition unschedule :: "BackgroundTaskInfo \<Rightarrow> BackgroundManager \<Rightarrow> BackgroundManager" where
  "unschedule info m = m\<lparr>bm_scheduled := oset_remove (notificationKey (notification_origin info)) (bm_scheduled m)\<rparr>"

text \<open>What it builds when the snapshots have been taken.\<close>

definition build_notification :: "output_env \<Rightarrow> BackgroundTaskInfo \<Rightarrow> BackgroundManager \<Rightarrow> BackgroundTaskNotification" where
  "build_notification E info m =
     (let first = getOutputSnapshot (oe_path E) (bi_taskId info) 0 m;
          output = (if os_fullOutputAvailable first then first
                    else getOutputSnapshot (oe_path E) (bi_taskId info) NOTIFICATION_FALLBACK_PREVIEW_BYTES m)
      in \<lparr>nt_id = or_notificationId (notification_origin info), nt_category = ''task'',
          nt_type = ''task.'' @ status_name (bi_status info), nt_source_kind = ''background_task'',
          nt_source_id = bi_taskId info,
          nt_title = ''Background '' @ bi_kind info @ '' '' @ status_name (bi_status info),
          nt_severity = (if bi_status info = TS_completed then ''info'' else ''warning''),
          nt_body = buildBackgroundTaskNotificationBody info,
          nt_children = backgroundTaskNotificationChildren (oe_decode E) output\<rparr>)"

definition notification_text :: "BackgroundTaskNotification \<Rightarrow> string" where
  "notification_text n = join_with nl [''<system-reminder>'', renderNotificationXml n, ''</system-reminder>'']"

text \<open>The rest of \<open>notifyBackgroundTask\<close>. \<open>ok\<close> is false when taking a snapshot threw.\<close>

definition notifyBackgroundTask :: "output_env \<Rightarrow> bool \<Rightarrow> BackgroundTaskInfo \<Rightarrow> BackgroundManager \<Rightarrow> BackgroundManager" where
  "notifyBackgroundTask E ok info m =
     (if \<not> ok \<or> isTerminalNotificationSuppressed (bi_taskId info) m then unschedule info m
      else let n = build_notification E info m
        in effect (Trigger_Notification n)
             (effect (Call_turn_steer (notification_text n) (notification_origin info)) m))"

definition markDeliveredNotification :: "BackgroundTaskOrigin \<Rightarrow> BackgroundManager \<Rightarrow> BackgroundManager" where
  "markDeliveredNotification og m = m\<lparr>bm_delivered := oset_add (notificationKey og) (bm_delivered m)\<rparr>"

section \<open>Requests\<close>

definition suppressTerminalNotification :: "string \<Rightarrow> BackgroundManager \<Rightarrow> BackgroundManager" where
  "suppressTerminalNotification i m =
     (case map_get (bm_tasks m) i of
        None \<Rightarrow> m
      | Some e \<Rightarrow> if mt_suppressed e = Some True then m else persistLive (e\<lparr>mt_suppressed := Some True\<rparr>) m)"

definition detach :: "string \<Rightarrow> BackgroundManager \<Rightarrow> BackgroundTaskInfo option \<times> BackgroundManager" where
  "detach i m =
     (case map_get (bm_tasks m) i of
        None \<Rightarrow> (map_get (bm_ghosts m) i, m)
      | Some e \<Rightarrow>
          if isBackgroundTaskTerminal (mt_status e) then (Some (toInfo e), m)
          else if \<not> mt_foreground e then (Some (toInfo e), m)
          else let e1 = e\<lparr>mt_foreground := False\<rparr>;
                   e2 = (case bo_detachTimeoutMs (mt_options e1) of
                           None \<Rightarrow> e1
                         | Some d \<Rightarrow> if mt_phase e1 = Racing then e1\<lparr>mt_timer := armed (Some d)\<rparr> else e1);
                   m1 = effect (Call_task_onDetach i) m;
                   e3 = startOutputPersist (bm_persistence m) e2;
                   m2 = emitTaskStarted (toInfo e3) (persistLive (e3\<lparr>mt_released := Some Rel_detached\<rparr>) m1)
               in (Some (toInfo e3), m2))"

definition persistOutput :: "string \<Rightarrow> BackgroundManager \<Rightarrow> BackgroundManager" where
  "persistOutput i m =
     (case map_get (bm_tasks m) i of None \<Rightarrow> m | Some e \<Rightarrow> put_task (startOutputPersist (bm_persistence m) e) m)"

text \<open>\<open>stop\<close> up to its await.\<close>

definition stop :: "string \<Rightarrow> string option \<Rightarrow> BackgroundManager \<Rightarrow> BackgroundManager" where
  "stop i reason m =
     (case map_get (bm_tasks m) i of
        None \<Rightarrow> m
      | Some e \<Rightarrow>
          (let stopReason = (case reason of None \<Rightarrow> None
                 | Some r \<Rightarrow> if length (js_trim r) = 0 then None else Some (js_trim r))
           in if isBackgroundTaskTerminal (mt_status e) then m
              else put_task (e\<lparr>mt_stopReason := stopReason, mt_aborted := True,
                     mt_stop := (case mt_stop e of None \<Rightarrow> Some stopReason | Some r \<Rightarrow> Some r)\<rparr>) m))"

definition stopAll :: "string option \<Rightarrow> BackgroundManager \<Rightarrow> BackgroundManager" where
  "stopAll reason m = foldl (\<lambda>m i. stop i reason m) m (map fst (bm_tasks m))"

text \<open>\<open>pause\<close>, \<open>addGuidance\<close> and \<open>resume\<close> differ in the method of the task they call; \<open>worked\<close> is false
  when it threw. None: the error that the task has no such method.\<close>

definition ask_task :: "(BackgroundTask \<Rightarrow> bool) \<Rightarrow> bool \<Rightarrow> string \<Rightarrow> BackgroundManager \<Rightarrow> BackgroundManager option" where
  "ask_task has worked i m =
     (case map_get (bm_tasks m) i of
        None \<Rightarrow> Some m
      | Some e \<Rightarrow>
          if isBackgroundTaskTerminal (mt_status e) then Some m
          else if \<not> has (mt_task e) then None
          else if \<not> worked then Some m
          else Some (emitTaskUpdated (toInfo e) (persistLive e m)))"

section \<open>The lifecycle\<close>

definition settleWorker :: "BackgroundTaskSettlement \<Rightarrow> ManagedTask \<Rightarrow> ManagedTask" where
  "settleWorker st e = (case mt_worker e of None \<Rightarrow> e\<lparr>mt_worker := Some st\<rparr> | Some x \<Rightarrow> e)"

text \<open>\<open>task.start\<close> rejected.\<close>

definition start_failed :: "string \<Rightarrow> ManagedTask \<Rightarrow> ManagedTask" where
  "start_failed msg e = settleWorker
     \<lparr>bs_status = (if mt_aborted e then Set_killed else Set_failed),
      bs_stopReason = (if mt_aborted e then None else Some msg)\<rparr> e"

text \<open>The promises of the race that have settled.\<close>

definition available :: "ManagedTask \<Rightarrow> TerminalOutcome \<Rightarrow> bool" where
  "available e oc = (case oc of
     Worker st \<Rightarrow> mt_worker e = Some st
   | Timeout \<Rightarrow> mt_timedOut e
   | StopRequested r \<Rightarrow> mt_stop e = Some r \<or> mt_signalled e \<and> r = Some USER_INTERRUPT_REASON)"

text \<open>The last part of \<open>finalizeTask\<close>.\<close>

definition end_task :: "ManagedTask \<Rightarrow> ManagedTask" where
  "end_task e = e\<lparr>mt_released := (if mt_foreground e \<and> mt_released e = None then Some Rel_terminal else mt_released e),
     mt_terminal := True, mt_phase := LifeEnded\<rparr>"

definition fireTerminalEffects :: "ManagedTask \<Rightarrow> BackgroundManager \<Rightarrow> BackgroundManager" where
  "fireTerminalEffects e m =
     (if \<not> isDetached e then put_task (end_task e) m
      else let info = toInfo e
        in case begin_notification info m of
             Some m1 \<Rightarrow> put_task (e\<lparr>mt_phase := Notifying info (length (mt_outputWriteQueue e))\<rparr>) m1
           | None \<Rightarrow> put_task (end_task e) (emitTaskTerminated info m))"

definition finalizeTask :: "ms \<Rightarrow> BackgroundTaskSettlement \<Rightarrow> ManagedTask \<Rightarrow> BackgroundManager \<Rightarrow> BackgroundManager" where
  "finalizeTask now st e m =
     (let e1 = e\<lparr>mt_status := settled_status (bs_status st), mt_endedAt := Some now,
            mt_stopReason := (case bs_stopReason st of Some r \<Rightarrow> Some r
              | None \<Rightarrow> if bs_status st = Set_killed then mt_stopReason e else None)\<rparr>
      in if mt_outputPersistStarted e1 then
           persistLive (e1\<lparr>mt_phase := PersistingEnd
             (if bm_persistence m then Suc (length (mt_persistWriteQueue e1)) else 0)\<rparr>) m
         else fireTerminalEffects (e1\<lparr>mt_pendingOutput := [], mt_pendingOutputBytes := 0\<rparr>) m)"

text \<open>The race is decided: the timer is cleared, and unless the worker won, the task is aborted.\<close>

definition race_won :: "ms \<Rightarrow> TerminalOutcome \<Rightarrow> ManagedTask \<Rightarrow> BackgroundManager \<Rightarrow> BackgroundManager" where
  "race_won now oc e m =
     (let e1 = e\<lparr>mt_timer := None\<rparr>
      in case oc of
           Worker st \<Rightarrow> finalizeTask now st e1 m
         | Timeout \<Rightarrow> put_task (e1\<lparr>mt_stopReason := None, mt_aborted := True, mt_phase := InGrace oc\<rparr>) m
         | StopRequested r \<Rightarrow> put_task (e1\<lparr>mt_stopReason := r, mt_aborted := True, mt_phase := InGrace oc\<rparr>) m)"

definition outcome_settlement :: "TerminalOutcome \<Rightarrow> BackgroundTaskSettlement" where
  "outcome_settlement oc = \<lparr>bs_status = (if oc = Timeout then Set_timed_out else Set_killed),
     bs_stopReason = (case oc of StopRequested r \<Rightarrow> r | _ \<Rightarrow> None)\<rparr>"

text \<open>The worker settled in the grace time: a stop keeps a result that is not an interruption.\<close>

definition settlement_after_abort :: "TerminalOutcome \<Rightarrow> BackgroundTaskSettlement \<Rightarrow> BackgroundTaskSettlement" where
  "settlement_after_abort oc st =
     (if (case oc of StopRequested r \<Rightarrow> True | _ \<Rightarrow> False) \<and> bs_status st \<noteq> Set_killed \<and> bs_status st \<noteq> Set_timed_out
      then st else outcome_settlement oc)"

section \<open>The session directory\<close>

definition writeTask :: "BackgroundTaskInfo \<Rightarrow> BackgroundManager \<Rightarrow> BackgroundManager" where
  "writeTask info m =
     (if valid_task_id (bi_taskId info)
      then m\<lparr>bm_records := map_put (bi_taskId info) (CurrentRecord info) (bm_records m)\<rparr> else m)"

definition write_output :: "string \<Rightarrow> string \<Rightarrow> BackgroundManager \<Rightarrow> BackgroundManager" where
  "write_output i chunk m =
     (if valid_task_id i
      then m\<lparr>bm_logs := map_put i ((case map_get (bm_logs m) i of None \<Rightarrow> [] | Some t \<Rightarrow> t) @ chunk) (bm_logs m)\<rparr>
      else m)"

definition optionalNonEmptyString :: "string option \<Rightarrow> string option" where
  "optionalNonEmptyString v = (case v of None \<Rightarrow> None
     | Some t \<Rightarrow> if length (js_trim t) > 0 then Some (js_trim t) else None)"

definition legacyStatusToCurrent :: "LegacyPersistedTask \<Rightarrow> BackgroundTaskStatus" where
  "legacyStatusToCurrent t =
     (if lt_awaiting_approval t then TS_running
      else if lt_status t = TS_failed \<and> lt_timed_out t = Some True then TS_timed_out else lt_status t)"

definition legacyPersistedTaskToInfo :: "LegacyPersistedTask \<Rightarrow> BackgroundTaskInfo" where
  "legacyPersistedTaskToInfo t = \<lparr>bi_taskId = lt_task_id t, bi_kind = ''process'', bi_description = lt_description t,
     bi_status = legacyStatusToCurrent t, bi_detached = Some True, bi_startedAt = lt_started_at t,
     bi_endedAt = lt_ended_at t, bi_stopReason = optionalNonEmptyString (lt_stop_reason t), bi_suppressed = None,
     bi_timeoutMs = lt_timeout_ms t, bi_details = ProcessDetails (lt_command t) (lt_pid t) (lt_exit_code t)\<rparr>"

definition normalizePersistedTask :: "DiskPersistedTask \<Rightarrow> BackgroundTaskInfo" where
  "normalizePersistedTask t = (case t of
     LegacyRecord x \<Rightarrow> legacyPersistedTaskToInfo x
   | CurrentRecord i \<Rightarrow> i\<lparr>bi_detached := (case bi_detached i of None \<Rightarrow> Some True | Some d \<Rightarrow> Some d)\<rparr>)"

text \<open>\<open>listTasks\<close> of the persistence: the records whose file name is a valid id.\<close>

definition persisted_tasks :: "BackgroundManager \<Rightarrow> BackgroundTaskInfo list" where
  "persisted_tasks m = map (normalizePersistedTask \<circ> snd) (filter (\<lambda>(i, t). valid_task_id i) (bm_records m))"

definition loadFromDisk :: "BackgroundManager \<Rightarrow> BackgroundManager" where
  "loadFromDisk m =
     (if \<not> bm_persistence m then m
      else m\<lparr>bm_ghosts := foldl (\<lambda>g t. if map_get (bm_tasks m) (bi_taskId t) \<noteq> None then g
                                      else map_put (bi_taskId t) t g) [] (persisted_tasks m)\<rparr>)"

text \<open>The ghosts are gone through in order; \<open>writes\<close> says which record writes succeed. One that fails
  ends the pass with its error.\<close>

definition lost_info :: "ms \<Rightarrow> BackgroundTaskInfo \<Rightarrow> BackgroundTaskInfo" where
  "lost_info now info = info\<lparr>bi_status := TS_lost,
     bi_endedAt := (case bi_endedAt info of None \<Rightarrow> Some now | Some t \<Rightarrow> Some t)\<rparr>"

fun markLoadedTasksLost :: "ms \<Rightarrow> (string \<Rightarrow> bool) \<Rightarrow> string list \<Rightarrow> BackgroundManager \<Rightarrow>
    BackgroundTaskInfo list option \<times> BackgroundManager" where
  "markLoadedTasksLost now writes [] m = (Some [], m)"
| "markLoadedTasksLost now writes (i # is) m =
     (case map_get (bm_ghosts m) i of
        None \<Rightarrow> markLoadedTasksLost now writes is m
      | Some info \<Rightarrow>
          if isBackgroundTaskTerminal (bi_status info) then markLoadedTasksLost now writes is m
          else let updated = lost_info now info;
                   m1 = m\<lparr>bm_ghosts := map_put i updated (bm_ghosts m)\<rparr>
            in if bm_persistence m1 \<and> \<not> (writes i \<and> valid_task_id (bi_taskId updated)) then (None, m1)
               else let m2 = (if bm_persistence m1 then writeTask updated m1 else m1)
                 in case markLoadedTasksLost now writes is m2 of
                      (None, m3) \<Rightarrow> (None, m3)
                    | (Some infos, m3) \<Rightarrow> (Some (updated # infos), m3))"

text \<open>\<open>ok\<close> is false when taking a snapshot threw: then the key is taken back and the error is passed on.\<close>

definition restoreBackgroundTaskNotification :: "output_env \<Rightarrow> bool \<Rightarrow> BackgroundTaskInfo \<Rightarrow> BackgroundManager \<Rightarrow>
    BackgroundManager" where
  "restoreBackgroundTaskNotification E ok info m =
     (case begin_notification info m of
        None \<Rightarrow> m
      | Some m1 \<Rightarrow>
          if \<not> ok then unschedule info m1
          else (let n = build_notification E info m1; t = notification_text n; og = notification_origin info
           in effect (Trigger_Notification n)
                (effect (if bi_status info = TS_failed \<or> bi_status info = TS_lost then Call_turn_steer t og
                         else Call_context_appendUserMessage t og) m1)))"

text \<open>The loop ends with the first task whose snapshots cannot be taken (\<open>snaps\<close>).\<close>

fun restore_loop :: "output_env \<Rightarrow> (string \<Rightarrow> bool) \<Rightarrow> BackgroundTaskInfo list \<Rightarrow> BackgroundManager \<Rightarrow> BackgroundManager" where
  "restore_loop E snaps [] m = m"
| "restore_loop E snaps (info # infos) m =
     (if \<not> isBackgroundTaskTerminal (bi_status info) then restore_loop E snaps infos m
      else let ok = snaps (bi_taskId info); m1 = restoreBackgroundTaskNotification E ok info m
        in if \<not> ok \<and> begin_notification info m \<noteq> None then m1 else restore_loop E snaps infos m1)"

definition restoreBackgroundTaskNotifications :: "output_env \<Rightarrow> (string \<Rightarrow> bool) \<Rightarrow> BackgroundManager \<Rightarrow> BackgroundManager" where
  "restoreBackgroundTaskNotifications E snaps m = restore_loop E snaps (listTasks False None m) m"

text \<open>\<open>reconcile\<close> awaits a record write for every lost task and the snapshots for every notification. It is one
  step here: that other events come between its awaits is not modelled.\<close>

definition reconcile :: "output_env \<Rightarrow> ms \<Rightarrow> (string \<Rightarrow> bool) \<Rightarrow> (string \<Rightarrow> bool) \<Rightarrow> BackgroundManager \<Rightarrow> BackgroundManager" where
  "reconcile E now writes snaps m =
     (case markLoadedTasksLost now writes (map fst (bm_ghosts m)) m of
        (None, m1) \<Rightarrow> m1
      | (Some infos, m1) \<Rightarrow> restoreBackgroundTaskNotifications E snaps (foldl (\<lambda>m i. emitTaskTerminated i m) m1 infos))"

section \<open>Events\<close>

datatype bg_event =
    Ev_register ms string BackgroundTask RegisterBackgroundTaskOptions bool
  | Ev_output string string
  | Ev_settle string BackgroundTaskSettlement
  | Ev_exited string "int option"
  | Ev_start_failed string string
  | Ev_timer string
  | Ev_signal_abort string
  | Ev_stop string "string option"
  | Ev_stop_all "string option"
  | Ev_detach string
  | Ev_suppress string
  | Ev_persist_output string
  | Ev_pause bool string
  | Ev_guidance bool string
  | Ev_resume bool string
  | Ev_race ms string TerminalOutcome
  | Ev_grace_settled ms string
  | Ev_grace_over string
  | Ev_force_stopped ms string
  | Ev_record_written string bool
  | Ev_output_written string bool
  | Ev_end_persisted string
  | Ev_notified string bool
  | Ev_delivered BackgroundTaskOrigin
  | Ev_load
  | Ev_reconcile ms "string \<Rightarrow> bool" "string \<Rightarrow> bool"

definition on_task :: "string \<Rightarrow> (ManagedTask \<Rightarrow> BackgroundManager) \<Rightarrow> BackgroundManager \<Rightarrow> BackgroundManager" where
  "on_task i f m = (case map_get (bm_tasks m) i of None \<Rightarrow> m | Some e \<Rightarrow> f e)"

definition record_written :: "bool \<Rightarrow> ManagedTask \<Rightarrow> BackgroundManager \<Rightarrow> BackgroundManager" where
  "record_written ok e m =
     (case mt_persistWriteQueue e of
        [] \<Rightarrow> m
      | info # rest \<Rightarrow>
          (let e1 = e\<lparr>mt_persistWriteQueue := rest,
                 mt_phase := (case mt_phase e of PersistingEnd k \<Rightarrow> PersistingEnd (k - 1) | ph \<Rightarrow> ph)\<rparr>
           in put_task e1 (if ok then writeTask info m else m)))"

definition output_written :: "bool \<Rightarrow> ManagedTask \<Rightarrow> BackgroundManager \<Rightarrow> BackgroundManager" where
  "output_written ok e m =
     (case mt_outputWriteQueue e of
        [] \<Rightarrow> m
      | chunk # rest \<Rightarrow>
          (let e1 = e\<lparr>mt_outputWriteQueue := rest,
                 mt_phase := (case mt_phase e of Notifying info k \<Rightarrow> Notifying info (k - 1) | ph \<Rightarrow> ph)\<rparr>
           in put_task e1 (if ok then write_output (mt_taskId e) chunk m else m)))"

definition notified :: "output_env \<Rightarrow> bool \<Rightarrow> ManagedTask \<Rightarrow> BackgroundManager \<Rightarrow> BackgroundManager" where
  "notified E ok e m =
     (case mt_phase e of
        Notifying info 0 \<Rightarrow> put_task (end_task e) (emitTaskTerminated info (notifyBackgroundTask E ok info m))
      | _ \<Rightarrow> m)"

fun bg_step :: "output_env \<Rightarrow> BackgroundManager \<Rightarrow> bg_event \<Rightarrow> BackgroundManager" where
  "bg_step E m (Ev_register now i task options aborted) = snd (registerTask now i task options aborted m)"
| "bg_step E m (Ev_output i chunk) = on_task i (\<lambda>e. put_task (appendOutput chunk (bm_persistence m) e) m) m"
| "bg_step E m (Ev_settle i st) = on_task i (\<lambda>e. put_task (settleWorker st e) m) m"
| "bg_step E m (Ev_exited i code) = on_task i (\<lambda>e. put_task (exited code e) m) m"
| "bg_step E m (Ev_start_failed i msg) = on_task i (\<lambda>e. put_task (start_failed msg e) m) m"
| "bg_step E m (Ev_timer i) = on_task i (\<lambda>e. if mt_timer e = None then m
     else put_task (e\<lparr>mt_timer := None, mt_timedOut := True\<rparr>) m) m"
| "bg_step E m (Ev_signal_abort i) = on_task i (\<lambda>e. if bo_signal (mt_options e) \<and> mt_foreground e
     then put_task (e\<lparr>mt_signalled := True\<rparr>) m else m) m"
| "bg_step E m (Ev_stop i reason) = stop i reason m"
| "bg_step E m (Ev_stop_all reason) = stopAll reason m"
| "bg_step E m (Ev_detach i) = snd (detach i m)"
| "bg_step E m (Ev_suppress i) = suppressTerminalNotification i m"
| "bg_step E m (Ev_persist_output i) = persistOutput i m"
| "bg_step E m (Ev_pause worked i) = (case ask_task bt_pause worked i m of None \<Rightarrow> m | Some m1 \<Rightarrow> m1)"
| "bg_step E m (Ev_guidance worked i) = (case ask_task bt_addGuidance worked i m of None \<Rightarrow> m | Some m1 \<Rightarrow> m1)"
| "bg_step E m (Ev_resume worked i) = (case ask_task bt_resume worked i m of None \<Rightarrow> m | Some m1 \<Rightarrow> m1)"
| "bg_step E m (Ev_race now i oc) = on_task i (\<lambda>e. if mt_phase e = Racing \<and> available e oc then race_won now oc e m else m) m"
| "bg_step E m (Ev_grace_settled now i) = on_task i (\<lambda>e. case (mt_phase e, mt_worker e) of
     (InGrace oc, Some st) \<Rightarrow> finalizeTask now (settlement_after_abort oc st) e m | _ \<Rightarrow> m) m"
| "bg_step E m (Ev_grace_over i) = on_task i (\<lambda>e. case mt_phase e of
     InGrace oc \<Rightarrow> put_task (e\<lparr>mt_phase := ForceStopping oc\<rparr>) m | _ \<Rightarrow> m) m"
| "bg_step E m (Ev_force_stopped now i) = on_task i (\<lambda>e. case mt_phase e of
     ForceStopping oc \<Rightarrow> finalizeTask now (outcome_settlement oc) e m | _ \<Rightarrow> m) m"
| "bg_step E m (Ev_record_written i ok) = on_task i (\<lambda>e. record_written ok e m) m"
| "bg_step E m (Ev_output_written i ok) = on_task i (\<lambda>e. output_written ok e m) m"
| "bg_step E m (Ev_end_persisted i) = on_task i (\<lambda>e. if mt_phase e = PersistingEnd 0 then fireTerminalEffects e m else m) m"
| "bg_step E m (Ev_notified i ok) = on_task i (\<lambda>e. notified E ok e m) m"
| "bg_step E m (Ev_delivered og) = markDeliveredNotification og m"
| "bg_step E m Ev_load = loadFromDisk m"
| "bg_step E m (Ev_reconcile now writes snaps) = reconcile E now writes snaps m"

definition new_manager :: "bool \<Rightarrow> int option \<Rightarrow> (string \<times> DiskPersistedTask) list \<Rightarrow> (string \<times> string) list \<Rightarrow> BackgroundManager" where
  "new_manager persistence maxRunning records logs = \<lparr>bm_tasks = [], bm_ghosts = [], bm_scheduled = [], bm_delivered = [],
     bm_persistence = persistence, bm_records = records, bm_logs = logs, bm_maxRunningTasks = maxRunning, bm_effects = []\<rparr>"

end
