(* ===== verification/Background_Facts.thy ===== *)
theory Background_Facts
  imports Background_Tasks
begin

text \<open>
  How the steps of the background manager change one task. Every step changes the entry of a task, if
  at all, by one of few moves, and each move is described by what it keeps; so an invariant of the
  entries is shown for the moves.
\<close>

section \<open>Access\<close>

lemma task_put [simp]:
  "bm_tasks (put_task e m) = map_put (mt_taskId e) e (bm_tasks m)"
  "bm_ghosts (put_task e m) = bm_ghosts m" "bm_scheduled (put_task e m) = bm_scheduled m"
  "bm_delivered (put_task e m) = bm_delivered m" "bm_persistence (put_task e m) = bm_persistence m"
  "bm_records (put_task e m) = bm_records m" "bm_logs (put_task e m) = bm_logs m"
  "bm_maxRunningTasks (put_task e m) = bm_maxRunningTasks m" "bm_effects (put_task e m) = bm_effects m"
  by (simp_all add: put_task_def)

lemma effect_fields [simp]:
  "bm_tasks (effect x m) = bm_tasks m" "bm_ghosts (effect x m) = bm_ghosts m"
  "bm_scheduled (effect x m) = bm_scheduled m" "bm_delivered (effect x m) = bm_delivered m"
  "bm_persistence (effect x m) = bm_persistence m" "bm_records (effect x m) = bm_records m"
  "bm_logs (effect x m) = bm_logs m" "bm_maxRunningTasks (effect x m) = bm_maxRunningTasks m"
  "bm_effects (effect x m) = bm_effects m @ [x]"
  by (simp_all add: effect_def)

lemmas emit_defs = emitTaskStarted_def emitTaskUpdated_def emitTaskTerminated_def

lemma terminal_iff [simp]: "isBackgroundTaskTerminal s \<longleftrightarrow> s \<noteq> TS_running"
  by (cases s) (simp_all add: isBackgroundTaskTerminal_def TERMINAL_STATUSES_def)

lemma settled_not_running [simp]: "settled_status s \<noteq> TS_running" "settled_status s \<noteq> TS_lost"
  by (cases s; simp)+

lemma persistLive_simps [simp]:
  "bm_ghosts (persistLive e m) = bm_ghosts m" "bm_scheduled (persistLive e m) = bm_scheduled m"
  "bm_delivered (persistLive e m) = bm_delivered m" "bm_persistence (persistLive e m) = bm_persistence m"
  "bm_records (persistLive e m) = bm_records m" "bm_logs (persistLive e m) = bm_logs m"
  "bm_maxRunningTasks (persistLive e m) = bm_maxRunningTasks m" "bm_effects (persistLive e m) = bm_effects m"
  by (simp_all add: persistLive_def)

definition queued :: "bool \<Rightarrow> ManagedTask \<Rightarrow> ManagedTask" where
  "queued persistence e = (if persistence then e\<lparr>mt_persistWriteQueue := mt_persistWriteQueue e @ [toInfo e]\<rparr> else e)"

lemma persistLive_queued: "persistLive e m = put_task (queued (bm_persistence m) e) m"
  by (simp add: persistLive_def queued_def)

section \<open>Moves of an entry\<close>

text \<open>The changes a step makes to the entry of a task that is there before and after it. A move is labelled
  with what it may do beyond what every step may: write output, take a chunk of the queue, decide the end of
  the task, or begin its notification.\<close>

datatype move_kind = Quiet | Wrote string | Logged | Settling | Announcing

inductive task_move :: "bool \<Rightarrow> move_kind \<Rightarrow> ManagedTask \<Rightarrow> ManagedTask \<Rightarrow> bool" for persistence where
  idle: "task_move persistence L e e"
| out: "task_move persistence (Wrote chunk) e (appendOutput chunk persistence e)"
| worker: "task_move persistence L e (settleWorker st e)"
| exited: "task_move persistence L e (exited code e)"
| timer: "task_move persistence L e (e\<lparr>mt_timer := t, mt_timedOut := b\<rparr>)"
| signalled: "task_move persistence L e (e\<lparr>mt_signalled := True\<rparr>)"
| stopped: "mt_status e = TS_running \<Longrightarrow>
    task_move persistence L e (e\<lparr>mt_stopReason := r, mt_aborted := True, mt_stop := s\<rparr>)"
| suppressed: "task_move persistence L e (queued persistence (e\<lparr>mt_suppressed := Some True\<rparr>))"
| updated: "mt_status e = TS_running \<Longrightarrow> task_move persistence L e (queued persistence e)"
| kept_output: "task_move persistence L e (startOutputPersist persistence e)"
| detached: "mt_status e = TS_running \<Longrightarrow> mt_foreground e \<Longrightarrow> task_move persistence L e
    (queued persistence (startOutputPersist persistence (e\<lparr>mt_foreground := False, mt_timer := t,
       mt_released := Some Rel_detached\<rparr>)))"
| aborting: "mt_phase e = Racing \<Longrightarrow> task_move persistence L e
    (e\<lparr>mt_timer := None, mt_stopReason := r, mt_aborted := True, mt_phase := InGrace oc\<rparr>)"
| forcing: "mt_phase e = InGrace oc \<Longrightarrow> task_move persistence L e (e\<lparr>mt_phase := ForceStopping oc\<rparr>)"
| final_kept: "mt_phase e = Racing \<or> (\<exists>oc. mt_phase e = InGrace oc \<or> mt_phase e = ForceStopping oc) \<Longrightarrow>
    mt_outputPersistStarted e \<Longrightarrow> s \<noteq> TS_running \<Longrightarrow> s \<noteq> TS_lost \<Longrightarrow> task_move persistence Settling e
    (queued persistence (e\<lparr>mt_timer := t, mt_status := s, mt_endedAt := Some now, mt_stopReason := r,
       mt_phase := PersistingEnd (if persistence then Suc (length (mt_persistWriteQueue e)) else 0)\<rparr>))"
| final_dropped: "mt_phase e = Racing \<or> (\<exists>oc. mt_phase e = InGrace oc \<or> mt_phase e = ForceStopping oc) \<Longrightarrow>
    \<not> mt_outputPersistStarted e \<Longrightarrow> s \<noteq> TS_running \<Longrightarrow> s \<noteq> TS_lost \<Longrightarrow> mt_foreground e \<Longrightarrow> task_move persistence Settling e
    (end_task (e\<lparr>mt_timer := t, mt_status := s, mt_endedAt := Some now, mt_stopReason := r, mt_pendingOutput := [],
       mt_pendingOutputBytes := 0\<rparr>))"
| notifying: "mt_phase e = PersistingEnd 0 \<Longrightarrow> \<not> mt_foreground e \<Longrightarrow> task_move persistence Announcing e
    (e\<lparr>mt_phase := Notifying (toInfo e) (length (mt_outputWriteQueue e))\<rparr>)"
| ended: "mt_phase e = PersistingEnd 0 \<or> (\<exists>info. mt_phase e = Notifying info 0) \<Longrightarrow> task_move persistence L e (end_task e)"
| record_done: "mt_persistWriteQueue e = info # rest \<Longrightarrow> task_move persistence L e (e\<lparr>mt_persistWriteQueue := rest,
    mt_phase := (case mt_phase e of PersistingEnd k \<Rightarrow> PersistingEnd (k - 1) | ph \<Rightarrow> ph)\<rparr>)"
| log_done: "mt_outputWriteQueue e = chunk # rest \<Longrightarrow> task_move persistence Logged e (e\<lparr>mt_outputWriteQueue := rest,
    mt_phase := (case mt_phase e of Notifying info k \<Rightarrow> Notifying info (k - 1) | ph \<Rightarrow> ph)\<rparr>)"

section \<open>What holds of every entry\<close>

definition unsettled :: "life_phase \<Rightarrow> bool" where
  "unsettled ph = (case ph of Racing \<Rightarrow> True | InGrace oc \<Rightarrow> True | ForceStopping oc \<Rightarrow> True | _ \<Rightarrow> False)"

definition entry_ok :: "ManagedTask \<Rightarrow> bool" where
  "entry_ok e \<longleftrightarrow> (mt_status e = TS_running \<longleftrightarrow> unsettled (mt_phase e)) \<and> mt_status e \<noteq> TS_lost \<and>
     (mt_status e = TS_running \<longleftrightarrow> mt_endedAt e = None) \<and>
     (\<not> mt_foreground e \<longrightarrow> mt_outputPersistStarted e) \<and>
     (mt_terminal e \<longleftrightarrow> mt_phase e = LifeEnded) \<and>
     (case mt_phase e of
        PersistingEnd k \<Rightarrow> mt_outputPersistStarted e \<and> k \<le> length (mt_persistWriteQueue e)
      | Notifying info k \<Rightarrow> \<not> mt_foreground e \<and> k \<le> length (mt_outputWriteQueue e) \<and>
          bi_taskId info = mt_taskId e \<and> bi_status info = mt_status e
      | _ \<Rightarrow> True)"

lemma startOutputPersist_fields [simp]:
  "mt_taskId (startOutputPersist p e) = mt_taskId e" "mt_status (startOutputPersist p e) = mt_status e"
  "mt_phase (startOutputPersist p e) = mt_phase e" "mt_endedAt (startOutputPersist p e) = mt_endedAt e"
  "mt_foreground (startOutputPersist p e) = mt_foreground e" "mt_terminal (startOutputPersist p e) = mt_terminal e"
  "mt_persistWriteQueue (startOutputPersist p e) = mt_persistWriteQueue e" "mt_outputPersistStarted (startOutputPersist p e)"
  "mt_options (startOutputPersist p e) = mt_options e" "mt_stop (startOutputPersist p e) = mt_stop e"
  "mt_suppressed (startOutputPersist p e) = mt_suppressed e" "mt_worker (startOutputPersist p e) = mt_worker e"
  "mt_stopReason (startOutputPersist p e) = mt_stopReason e" "mt_task (startOutputPersist p e) = mt_task e"
  "mt_startedAt (startOutputPersist p e) = mt_startedAt e"
  "length (mt_outputWriteQueue e) \<le> length (mt_outputWriteQueue (startOutputPersist p e))"
  by (simp_all add: startOutputPersist_def appendTaskOutput_def Let_def)

lemma appendOutput_fields [simp]:
  "mt_taskId (appendOutput c p e) = mt_taskId e" "mt_status (appendOutput c p e) = mt_status e"
  "mt_phase (appendOutput c p e) = mt_phase e" "mt_endedAt (appendOutput c p e) = mt_endedAt e"
  "mt_foreground (appendOutput c p e) = mt_foreground e" "mt_terminal (appendOutput c p e) = mt_terminal e"
  "mt_persistWriteQueue (appendOutput c p e) = mt_persistWriteQueue e"
  "mt_options (appendOutput c p e) = mt_options e" "mt_stop (appendOutput c p e) = mt_stop e"
  "mt_suppressed (appendOutput c p e) = mt_suppressed e" "mt_worker (appendOutput c p e) = mt_worker e"
  "mt_stopReason (appendOutput c p e) = mt_stopReason e" "mt_task (appendOutput c p e) = mt_task e"
  "mt_startedAt (appendOutput c p e) = mt_startedAt e"
  "mt_outputPersistStarted e \<Longrightarrow> mt_outputPersistStarted (appendOutput c p e)"
  by (simp_all add: appendOutput_def appendTaskOutput_def Let_def)

lemma startOutputPersist_queue: "mt_outputWriteQueue (startOutputPersist p e) = mt_outputWriteQueue e @
    (if mt_outputPersistStarted e \<or> \<not> p \<or> mt_pendingOutput e = [] then [] else [concat (mt_pendingOutput e)])"
  by (simp add: startOutputPersist_def appendTaskOutput_def Let_def)

lemma appendOutput_queue: "length (mt_outputWriteQueue e) \<le> length (mt_outputWriteQueue (appendOutput c p e))"
  by (simp add: appendOutput_def appendTaskOutput_def Let_def startOutputPersist_queue)

lemma queued_fields [simp]:
  "mt_taskId (queued p e) = mt_taskId e" "mt_status (queued p e) = mt_status e"
  "mt_phase (queued p e) = mt_phase e" "mt_endedAt (queued p e) = mt_endedAt e"
  "mt_foreground (queued p e) = mt_foreground e" "mt_terminal (queued p e) = mt_terminal e"
  "mt_outputWriteQueue (queued p e) = mt_outputWriteQueue e" "mt_outputPersistStarted (queued p e) = mt_outputPersistStarted e"
  "mt_options (queued p e) = mt_options e" "mt_pendingOutput (queued p e) = mt_pendingOutput e"
  "mt_suppressed (queued p e) = mt_suppressed e"
  "length (mt_persistWriteQueue e) \<le> length (mt_persistWriteQueue (queued p e))"
  by (simp_all add: queued_def)

lemma queued_length: "length (mt_persistWriteQueue (queued p e)) = (if p then Suc (length (mt_persistWriteQueue e)) else length (mt_persistWriteQueue e))"
  by (simp add: queued_def)

lemma settleWorker_fields [simp]:
  "mt_taskId (settleWorker st e) = mt_taskId e" "mt_status (settleWorker st e) = mt_status e"
  "mt_phase (settleWorker st e) = mt_phase e" "mt_endedAt (settleWorker st e) = mt_endedAt e"
  "mt_foreground (settleWorker st e) = mt_foreground e" "mt_terminal (settleWorker st e) = mt_terminal e"
  "mt_persistWriteQueue (settleWorker st e) = mt_persistWriteQueue e"
  "mt_outputWriteQueue (settleWorker st e) = mt_outputWriteQueue e"
  "mt_outputPersistStarted (settleWorker st e) = mt_outputPersistStarted e"
  "mt_options (settleWorker st e) = mt_options e" "mt_pendingOutput (settleWorker st e) = mt_pendingOutput e"
  "mt_suppressed (settleWorker st e) = mt_suppressed e" "mt_task (settleWorker st e) = mt_task e"
  "mt_startedAt (settleWorker st e) = mt_startedAt e" "mt_stopReason (settleWorker st e) = mt_stopReason e"
  by (simp_all add: settleWorker_def split: option.split)

lemma exited_fields [simp]:
  "mt_taskId (exited c e) = mt_taskId e" "mt_status (exited c e) = mt_status e"
  "mt_phase (exited c e) = mt_phase e" "mt_endedAt (exited c e) = mt_endedAt e"
  "mt_foreground (exited c e) = mt_foreground e" "mt_terminal (exited c e) = mt_terminal e"
  "mt_persistWriteQueue (exited c e) = mt_persistWriteQueue e"
  "mt_outputWriteQueue (exited c e) = mt_outputWriteQueue e"
  "mt_outputPersistStarted (exited c e) = mt_outputPersistStarted e"
  "mt_options (exited c e) = mt_options e" "mt_pendingOutput (exited c e) = mt_pendingOutput e"
  "mt_suppressed (exited c e) = mt_suppressed e" "mt_startedAt (exited c e) = mt_startedAt e"
  "mt_stopReason (exited c e) = mt_stopReason e" "bt_kind (mt_task (exited c e)) = bt_kind (mt_task e)"
  "mt_outputChunks (exited c e) = mt_outputChunks e" "mt_outputSizeBytes (exited c e) = mt_outputSizeBytes e"
  "bt_description (mt_task (exited c e)) = bt_description (mt_task e)"
  "bt_details (mt_task (exited c e)) = set_exit_code c (bt_details (mt_task e))"
  "mt_pendingOutputBytes (exited c e) = mt_pendingOutputBytes e" "mt_timer (exited c e) = mt_timer e"
  "mt_stop (exited c e) = mt_stop e" "mt_aborted (exited c e) = mt_aborted e" "mt_worker (exited c e) = mt_worker e"
  by (simp_all add: exited_def)

lemma move_entry_ok: "task_move p L e e' \<Longrightarrow> entry_ok e \<Longrightarrow> entry_ok e'"
proof (induction rule: task_move.induct)
  case (out chunk e)
  then show ?case using appendOutput_queue [of e chunk p]
    by (auto simp: entry_ok_def split: life_phase.splits intro: order.trans)
next
  case (kept_output L e)
  then show ?case using startOutputPersist_fields(16) [of e p]
    by (auto simp: entry_ok_def split: life_phase.splits intro: order.trans simp del: startOutputPersist_fields(16))
next
  case (detached e L t)
  then show ?case by (auto simp: entry_ok_def unsettled_def queued_length split: life_phase.splits)
qed (auto simp: entry_ok_def unsettled_def queued_length end_task_def toInfo_def split: life_phase.splits
    intro: order.trans [OF _ queued_fields(12)])

lemma move_id: "task_move p L e e' \<Longrightarrow> mt_taskId e' = mt_taskId e"
  by (induction rule: task_move.induct) (simp_all add: end_task_def)

end
