(* ===== verification/Background_Steps.thy ===== *)
theory Background_Steps
  imports Background_Facts
begin

text \<open>Every step of the manager moves the entries of its tasks, and keeps them well-formed.\<close>

section \<open>What reconciling leaves alone\<close>

lemma writeTask_fields [simp]:
  "bm_tasks (writeTask info m) = bm_tasks m" "bm_persistence (writeTask info m) = bm_persistence m"
  "bm_logs (writeTask info m) = bm_logs m" "bm_scheduled (writeTask info m) = bm_scheduled m"
  "bm_delivered (writeTask info m) = bm_delivered m" "bm_effects (writeTask info m) = bm_effects m"
  "bm_maxRunningTasks (writeTask info m) = bm_maxRunningTasks m" "bm_ghosts (writeTask info m) = bm_ghosts m"
  by (simp_all add: writeTask_def)

lemma write_output_fields [simp]:
  "bm_tasks (write_output i c m) = bm_tasks m" "bm_persistence (write_output i c m) = bm_persistence m"
  "bm_records (write_output i c m) = bm_records m" "bm_scheduled (write_output i c m) = bm_scheduled m"
  "bm_delivered (write_output i c m) = bm_delivered m" "bm_effects (write_output i c m) = bm_effects m"
  "bm_maxRunningTasks (write_output i c m) = bm_maxRunningTasks m" "bm_ghosts (write_output i c m) = bm_ghosts m"
  by (simp_all add: write_output_def)

text \<open>Only ghosts and records change.\<close>

definition same_live :: "BackgroundManager \<Rightarrow> BackgroundManager \<Rightarrow> bool" where
  "same_live m m' \<longleftrightarrow> bm_tasks m' = bm_tasks m \<and> bm_persistence m' = bm_persistence m \<and> bm_logs m' = bm_logs m \<and>
     bm_scheduled m' = bm_scheduled m \<and> bm_delivered m' = bm_delivered m \<and> bm_effects m' = bm_effects m \<and>
     bm_maxRunningTasks m' = bm_maxRunningTasks m"

lemma mark_lost_fields: "same_live m (snd (markLoadedTasksLost now writes is m))"
proof (induction "is" arbitrary: m)
  case (Cons i "is")
  show ?case
  proof (cases "map_get (bm_ghosts m) i")
    case (Some info)
    let ?m1 = "m\<lparr>bm_ghosts := map_put i (lost_info now info) (bm_ghosts m)\<rparr>"
    let ?m2 = "if bm_persistence ?m1 then writeTask (lost_info now info) ?m1 else ?m1"
    have 1: "same_live m ?m1" and 2: "same_live m ?m2" by (simp_all add: same_live_def)
    obtain r m3 where r: "markLoadedTasksLost now writes is ?m2 = (r, m3)" by (metis surj_pair)
    from Cons.IH [of ?m2] r have "same_live ?m2 m3" by simp
    with 2 have "same_live m m3" by (simp add: same_live_def)
    with 1 Some r Cons.IH [of m] show ?thesis by (cases r) (simp_all add: Let_def)
  qed (use Cons.IH in simp)
qed (simp add: same_live_def)

lemma begin_notification_fields:
  assumes "begin_notification info m = Some m1"
  shows "bm_tasks m1 = bm_tasks m" "bm_persistence m1 = bm_persistence m" "bm_logs m1 = bm_logs m"
    "bm_maxRunningTasks m1 = bm_maxRunningTasks m" "bm_records m1 = bm_records m" "bm_ghosts m1 = bm_ghosts m"
    "bm_delivered m1 = bm_delivered m" "bm_effects m1 = bm_effects m"
    "bm_scheduled m1 = oset_add (notificationKey (notification_origin info)) (bm_scheduled m)"
    "notificationKey (notification_origin info) \<notin> set (bm_scheduled m)"
    "notificationKey (notification_origin info) \<notin> set (bm_delivered m)" "bi_detached info \<noteq> Some False"
  using assms by (auto simp: begin_notification_def Let_def split: if_splits)

lemma restore_one_fields [simp]:
  "bm_tasks (restoreBackgroundTaskNotification E ok info m) = bm_tasks m"
  "bm_persistence (restoreBackgroundTaskNotification E ok info m) = bm_persistence m"
  "bm_logs (restoreBackgroundTaskNotification E ok info m) = bm_logs m"
  "bm_maxRunningTasks (restoreBackgroundTaskNotification E ok info m) = bm_maxRunningTasks m"
  "bm_records (restoreBackgroundTaskNotification E ok info m) = bm_records m"
  "bm_ghosts (restoreBackgroundTaskNotification E ok info m) = bm_ghosts m"
  "bm_delivered (restoreBackgroundTaskNotification E ok info m) = bm_delivered m"
  by (auto simp: restoreBackgroundTaskNotification_def Let_def begin_notification_fields unschedule_def split: option.split)

lemma restore_loop_fields:
  "bm_tasks (restore_loop E snaps infos m) = bm_tasks m \<and> bm_persistence (restore_loop E snaps infos m) = bm_persistence m \<and>
   bm_logs (restore_loop E snaps infos m) = bm_logs m \<and> bm_maxRunningTasks (restore_loop E snaps infos m) = bm_maxRunningTasks m"
  by (induction infos arbitrary: m) (auto simp: Let_def)

lemma emit_all_fields:
  "bm_tasks (foldl (\<lambda>m i. emitTaskTerminated i m) m infos) = bm_tasks m \<and>
   bm_persistence (foldl (\<lambda>m i. emitTaskTerminated i m) m infos) = bm_persistence m \<and>
   bm_logs (foldl (\<lambda>m i. emitTaskTerminated i m) m infos) = bm_logs m \<and>
   bm_maxRunningTasks (foldl (\<lambda>m i. emitTaskTerminated i m) m infos) = bm_maxRunningTasks m"
  by (induction infos arbitrary: m) (simp_all add: emit_defs)

lemma reconcile_fields [simp]:
  "bm_tasks (reconcile E now writes snaps m) = bm_tasks m" "bm_persistence (reconcile E now writes snaps m) = bm_persistence m"
  "bm_logs (reconcile E now writes snaps m) = bm_logs m" "bm_maxRunningTasks (reconcile E now writes snaps m) = bm_maxRunningTasks m"
proof -
  obtain r m1 where r: "markLoadedTasksLost now writes (map fst (bm_ghosts m)) m = (r, m1)"
    by (metis surj_pair)
  from mark_lost_fields [of m now writes "map fst (bm_ghosts m)"] r have "same_live m m1" by simp
  with r restore_loop_fields emit_all_fields
  show "bm_tasks (reconcile E now writes snaps m) = bm_tasks m" "bm_persistence (reconcile E now writes snaps m) = bm_persistence m"
    "bm_logs (reconcile E now writes snaps m) = bm_logs m" "bm_maxRunningTasks (reconcile E now writes snaps m) = bm_maxRunningTasks m"
    by (auto simp: reconcile_def restoreBackgroundTaskNotifications_def same_live_def split: option.split)
qed

lemma load_fields [simp]:
  "bm_tasks (loadFromDisk m) = bm_tasks m" "bm_persistence (loadFromDisk m) = bm_persistence m"
  "bm_logs (loadFromDisk m) = bm_logs m" "bm_maxRunningTasks (loadFromDisk m) = bm_maxRunningTasks m"
  "bm_effects (loadFromDisk m) = bm_effects m" "bm_scheduled (loadFromDisk m) = bm_scheduled m"
  "bm_delivered (loadFromDisk m) = bm_delivered m"
  by (simp_all add: loadFromDisk_def)

lemma notify_fields [simp]:
  "bm_tasks (notifyBackgroundTask E ok info m) = bm_tasks m"
  "bm_persistence (notifyBackgroundTask E ok info m) = bm_persistence m"
  "bm_logs (notifyBackgroundTask E ok info m) = bm_logs m"
  "bm_maxRunningTasks (notifyBackgroundTask E ok info m) = bm_maxRunningTasks m"
  by (simp_all add: notifyBackgroundTask_def unschedule_def Let_def)

section \<open>Well-formed managers\<close>

definition man_ok :: "BackgroundManager \<Rightarrow> bool" where
  "man_ok m \<longleftrightarrow> keys_ok (bm_tasks m) \<and>
     (\<forall>i e. map_get (bm_tasks m) i = Some e \<longrightarrow> mt_taskId e = i \<and> entry_ok e)"

lemma man_okD: "man_ok m \<Longrightarrow> map_get (bm_tasks m) i = Some e \<Longrightarrow> mt_taskId e = i \<and> entry_ok e"
  by (simp add: man_ok_def)

text \<open>One task is moved, the others are left alone.\<close>

definition moved :: "string \<Rightarrow> move_kind \<Rightarrow> BackgroundManager \<Rightarrow> BackgroundManager \<Rightarrow> bool" where
  "moved i L m m' \<longleftrightarrow> bm_persistence m' = bm_persistence m \<and>
     (bm_tasks m' = bm_tasks m \<or>
      (\<exists>e e'. map_get (bm_tasks m) i = Some e \<and> task_move (bm_persistence m) L e e' \<and> bm_tasks m' = map_put i e' (bm_tasks m)))"

lemma moved_same: "bm_persistence m' = bm_persistence m \<Longrightarrow> bm_tasks m' = bm_tasks m \<Longrightarrow> moved i L m m'"
  by (simp add: moved_def)

lemma moved_put:
  assumes "man_ok m" and "map_get (bm_tasks m) i = Some e" and "task_move (bm_persistence m) L e e'"
    and "bm_tasks m1 = bm_tasks m" and "bm_persistence m1 = bm_persistence m"
  shows "moved i L m (put_task e' m1)"
proof -
  have "mt_taskId e' = i" using man_okD [OF assms(1,2)] move_id [OF assms(3)] by simp
  then show ?thesis using assms by (auto simp: moved_def)
qed

lemma moved_keeps:
  assumes "man_ok m" and "moved i L m m'"
  shows "man_ok m'"
proof -
  from assms(2) consider "bm_tasks m' = bm_tasks m"
    | e e' where "map_get (bm_tasks m) i = Some e" "task_move (bm_persistence m) L e e'" "bm_tasks m' = map_put i e' (bm_tasks m)"
    by (auto simp: moved_def)
  then show ?thesis
  proof cases
    case 2
    with man_okD [OF assms(1) 2(1)] have "mt_taskId e' = i" "entry_ok e'" using move_entry_ok move_id by auto
    with assms(1) 2(3) show ?thesis by (simp add: man_ok_def)
  qed (use assms(1) in \<open>simp add: man_ok_def\<close>)
qed


lemma on_task_moved:
  assumes "\<And>e. map_get (bm_tasks m) i = Some e \<Longrightarrow> moved i L m (f e)"
  shows "moved i L m (on_task i f m)"
  using assms by (auto simp: on_task_def moved_same split: option.split)

text \<open>A task that is put back changed by a move.\<close>

lemma put_moved:
  assumes "man_ok m" and "map_get (bm_tasks m) i = Some e" and "task_move (bm_persistence m) L e e'"
  shows "moved i L m (put_task e' m)"
  using moved_put [OF assms] by simp

lemma finalize_moved:
  assumes ok: "man_ok m" and e: "map_get (bm_tasks m) i = Some e"
    and ph: "mt_phase e = Racing \<or> (\<exists>oc. mt_phase e = InGrace oc \<or> mt_phase e = ForceStopping oc)"
  shows "moved i Settling m (finalizeTask now st (e\<lparr>mt_timer := t\<rparr>) m)"
proof -
  let ?s = "settled_status (bs_status st)"
  let ?r = "case bs_stopReason st of Some r \<Rightarrow> Some r | None \<Rightarrow> if bs_status st = Set_killed then mt_stopReason e else None"
  have fg: "\<not> mt_outputPersistStarted e \<Longrightarrow> mt_foreground e" using man_okD [OF ok e] by (auto simp: entry_ok_def)
  show ?thesis
  proof (cases "mt_outputPersistStarted e")
    case True
    have "finalizeTask now st (e\<lparr>mt_timer := t\<rparr>) m = put_task (queued (bm_persistence m) (e\<lparr>mt_timer := t, mt_status := ?s,
        mt_endedAt := Some now, mt_stopReason := ?r,
        mt_phase := PersistingEnd (if bm_persistence m then Suc (length (mt_persistWriteQueue e)) else 0)\<rparr>)) m"
      using True by (simp add: finalizeTask_def Let_def persistLive_queued cong: option.case_cong)
    moreover have "moved i Settling m \<dots>" by (rule put_moved [OF ok e final_kept [OF ph True]]) simp_all
    ultimately show ?thesis by simp
  next
    case False
    have "finalizeTask now st (e\<lparr>mt_timer := t\<rparr>) m = put_task (end_task (e\<lparr>mt_timer := t, mt_status := ?s,
        mt_endedAt := Some now, mt_stopReason := ?r, mt_pendingOutput := [], mt_pendingOutputBytes := 0\<rparr>)) m"
      using False fg by (simp add: finalizeTask_def Let_def fireTerminalEffects_def isDetached_def cong: option.case_cong)
    moreover have "moved i Settling m \<dots>" by (rule put_moved [OF ok e final_dropped [OF ph False]]) (simp_all add: fg False)
    ultimately show ?thesis by simp
  qed
qed

lemma fire_moved:
  assumes ok: "man_ok m" and e: "map_get (bm_tasks m) i = Some e" and ph: "mt_phase e = PersistingEnd 0"
  shows "moved i Announcing m (fireTerminalEffects e m)"
proof -
  have "moved i Announcing m (put_task (end_task e) m1)"
    if "bm_tasks m1 = bm_tasks m" "bm_persistence m1 = bm_persistence m" for m1
    using moved_put [OF ok e ended] ph that by blast
  moreover have "moved i Announcing m (put_task (e\<lparr>mt_phase := Notifying (toInfo e) (length (mt_outputWriteQueue e))\<rparr>) m1)"
    if "\<not> mt_foreground e" "bm_tasks m1 = bm_tasks m" "bm_persistence m1 = bm_persistence m" for m1
    using moved_put [OF ok e notifying] ph that by blast
  ultimately show ?thesis
    by (auto simp: fireTerminalEffects_def isDetached_def Let_def emit_defs begin_notification_fields split: option.split)
qed

section \<open>Every step\<close>

lemma detach_release:
  "(startOutputPersist p e)\<lparr>mt_released := r\<rparr> = startOutputPersist p (e\<lparr>mt_released := r\<rparr>)"
  by (simp add: startOutputPersist_def appendTaskOutput_def Let_def)

text \<open>The task an event is about, and what it may do to it.\<close>

fun target :: "bg_event \<Rightarrow> string" where
  "target (Ev_register now i task options ab) = i"
| "target (Ev_output i c) = i"
| "target (Ev_settle i st) = i"
| "target (Ev_exited i code) = i"
| "target (Ev_start_failed i msg) = i"
| "target (Ev_timer i) = i"
| "target (Ev_signal_abort i) = i"
| "target (Ev_stop i r) = i"
| "target (Ev_detach i) = i"
| "target (Ev_suppress i) = i"
| "target (Ev_persist_output i) = i"
| "target (Ev_pause w i) = i"
| "target (Ev_guidance w i) = i"
| "target (Ev_resume w i) = i"
| "target (Ev_race now i oc) = i"
| "target (Ev_grace_settled now i) = i"
| "target (Ev_grace_over i) = i"
| "target (Ev_force_stopped now i) = i"
| "target (Ev_record_written i ok) = i"
| "target (Ev_output_written i ok) = i"
| "target (Ev_end_persisted i) = i"
| "target (Ev_notified i ok) = i"
| "target ev = []"

fun kind :: "bg_event \<Rightarrow> move_kind" where
  "kind (Ev_output i c) = Wrote c"
| "kind (Ev_race now i oc) = Settling"
| "kind (Ev_grace_settled now i) = Settling"
| "kind (Ev_force_stopped now i) = Settling"
| "kind (Ev_output_written i ok) = Logged"
| "kind (Ev_end_persisted i) = Announcing"
| "kind ev = Quiet"

lemma stop_moved: "man_ok m \<Longrightarrow> moved i L m (stop i reason m)"
  by (auto simp: stop_def Let_def moved_same intro!: put_moved stopped split: option.split)

lemma step_moved:
  assumes ok: "man_ok m" and ev: "\<And>now i task options ab. ev \<noteq> Ev_register now i task options ab" "\<And>r. ev \<noteq> Ev_stop_all r"
  shows "moved (target ev) (kind ev) m (bg_step E m ev)"
proof -
  have ask: "moved i Quiet m (case ask_task has worked i m of None \<Rightarrow> m | Some m1 \<Rightarrow> m1)" for has worked i
  proof (cases "map_get (bm_tasks m) i")
    case (Some e)
    have "mt_status e = TS_running \<Longrightarrow> moved i Quiet m (put_task (queued (bm_persistence m) e) m)"
      by (rule put_moved [OF ok Some updated])
    then show ?thesis using Some by (simp add: ask_task_def persistLive_queued moved_same emit_defs moved_def)
  qed (simp add: ask_task_def moved_same)
  show ?thesis
  proof (cases ev)
    case (Ev_output i c)
    then show ?thesis by (auto intro!: on_task_moved put_moved ok out)
  next
    case (Ev_settle i st)
    then show ?thesis by (auto intro!: on_task_moved put_moved ok worker)
  next
    case (Ev_exited i code)
    then show ?thesis by (auto intro!: on_task_moved put_moved ok exited)
  next
    case (Ev_start_failed i msg)
    then show ?thesis by (auto simp: start_failed_def intro!: on_task_moved put_moved ok worker)
  next
    case (Ev_timer i)
    then show ?thesis by (auto simp: moved_same intro!: on_task_moved put_moved ok timer)
  next
    case (Ev_signal_abort i)
    then show ?thesis by (auto simp: moved_same intro!: on_task_moved put_moved ok signalled)
  next
    case (Ev_stop i r)
    with stop_moved [OF ok] show ?thesis by auto
  next
    case (Ev_detach i)
    have "moved i Quiet m (snd (detach i m))"
    proof (cases "map_get (bm_tasks m) i")
      case (Some e)
      show ?thesis
      proof (cases "mt_status e = TS_running \<and> mt_foreground e")
        case True
        obtain t where "snd (detach i m) = effect Call_turn_noteBackgroundActivity (effect (EmitStarted (toInfo
            (startOutputPersist (bm_persistence m) (e\<lparr>mt_foreground := False, mt_timer := t\<rparr>))))
           (put_task (queued (bm_persistence m) (startOutputPersist (bm_persistence m) (e\<lparr>mt_foreground := False, mt_timer := t,
              mt_released := Some Rel_detached\<rparr>))) (effect (Call_task_onDetach i) m)))"
        proof (cases "bo_detachTimeoutMs (mt_options e)")
          case None
          with Some True show ?thesis
            by (intro that [of "mt_timer e"]) (simp add: detach_def detach_release emit_defs persistLive_queued Let_def)
        next
          case (Some d)
          with \<open>map_get (bm_tasks m) i = Some e\<close> True show ?thesis
            by (intro that [of "if mt_phase e = Racing then armed (Some d) else mt_timer e"])
              (simp add: detach_def detach_release emit_defs persistLive_queued Let_def)
        qed
        with moved_put [OF ok Some detached [where L = Quiet and t = t], of "effect (Call_task_onDetach i) m"] True
        show ?thesis by (simp add: moved_def)
      qed (use Some in \<open>auto simp: detach_def moved_same\<close>)
    qed (simp add: detach_def moved_same)
    with Ev_detach show ?thesis by auto
  next
    case (Ev_suppress i)
    have "moved i Quiet m (suppressTerminalNotification i m)"
      by (auto simp: suppressTerminalNotification_def persistLive_queued moved_same intro!: put_moved ok suppressed split: option.split)
    with Ev_suppress show ?thesis by auto
  next
    case (Ev_persist_output i)
    have "moved i Quiet m (persistOutput i m)"
      by (auto simp: persistOutput_def moved_same intro!: put_moved ok kept_output split: option.split)
    with Ev_persist_output show ?thesis by auto
  next
    case (Ev_pause w i)
    with ask show ?thesis by auto
  next
    case (Ev_guidance w i)
    with ask show ?thesis by auto
  next
    case (Ev_resume w i)
    with ask show ?thesis by auto
  next
    case (Ev_race now i oc)
    have "moved i Settling m (race_won now oc e m)" if e: "map_get (bm_tasks m) i = Some e" and "mt_phase e = Racing" for e
      using that put_moved [OF ok e aborting] finalize_moved [OF ok e, of now _ None]
      by (auto simp: race_won_def Let_def split: TerminalOutcome.split)
    with Ev_race show ?thesis by (auto simp: moved_same intro!: on_task_moved)
  next
    case (Ev_grace_settled now i)
    have "moved i Settling m (finalizeTask now st e m)" if "map_get (bm_tasks m) i = Some e" "mt_phase e = InGrace oc" for e oc st
      using finalize_moved [OF ok that(1), of now st "mt_timer e"] that(2) by simp
    with Ev_grace_settled show ?thesis
      by (auto simp: moved_same intro!: on_task_moved split: life_phase.split option.split)
  next
    case (Ev_grace_over i)
    then show ?thesis
      by (auto simp: moved_same intro!: on_task_moved put_moved ok forcing split: life_phase.split)
  next
    case (Ev_force_stopped now i)
    have "moved i Settling m (finalizeTask now st e m)" if "map_get (bm_tasks m) i = Some e" "mt_phase e = ForceStopping oc" for e oc st
      using finalize_moved [OF ok that(1), of now st "mt_timer e"] that(2) by simp
    with Ev_force_stopped show ?thesis
      by (auto simp: moved_same intro!: on_task_moved split: life_phase.split)
  next
    case (Ev_record_written i k)
    have "moved i Quiet m (record_written k e m)" if "map_get (bm_tasks m) i = Some e" for e
      by (cases "mt_persistWriteQueue e") (auto simp: record_written_def moved_same Let_def intro!: moved_put [OF ok that record_done])
    with Ev_record_written show ?thesis by (auto intro!: on_task_moved)
  next
    case (Ev_output_written i k)
    have "moved i Logged m (output_written k e m)" if "map_get (bm_tasks m) i = Some e" for e
      by (cases "mt_outputWriteQueue e") (auto simp: output_written_def moved_same Let_def intro!: moved_put [OF ok that log_done])
    with Ev_output_written show ?thesis by (auto intro!: on_task_moved)
  next
    case (Ev_end_persisted i)
    then show ?thesis by (auto simp: moved_same intro!: on_task_moved fire_moved ok)
  next
    case (Ev_notified i k)
    have "moved i Quiet m (notified E k e m)" if "map_get (bm_tasks m) i = Some e" for e
      by (auto simp: notified_def moved_same emit_defs intro!: moved_put [OF ok that ended] split: life_phase.split nat.split)
    with Ev_notified show ?thesis by (auto intro!: on_task_moved)
  next
    case (Ev_delivered og)
    then show ?thesis by (auto intro!: moved_same simp: markDeliveredNotification_def)
  next
    case Ev_load
    then show ?thesis by (auto intro!: moved_same)
  next
    case (Ev_reconcile now w snaps)
    then show ?thesis by (auto intro!: moved_same)
  qed (use ev in auto)
qed

end
