(* ===== verification/Background_Runs.thy ===== *)
theory Background_Runs
  imports Background_Steps
begin

text \<open>
  Runs of the background manager, and what holds along every one of them: the end of a task is final,
  the limit of running tasks is kept, and a task is notified at most once.
\<close>

section \<open>Runs\<close>

definition bg_run :: "output_env \<Rightarrow> BackgroundManager \<Rightarrow> bg_event list \<Rightarrow> BackgroundManager" where
  "bg_run E m evs = run_ops (bg_step E) m evs"

lemma bg_run_simps [simp]:
  "bg_run E m [] = m" "bg_run E m (ev # evs) = bg_run E (bg_step E m ev) evs"
  "bg_run E m (evs @ evs') = bg_run E (bg_run E m evs) evs'"
  by (simp_all add: bg_run_def run_ops_def)

fun registers :: "string \<Rightarrow> bg_event \<Rightarrow> bool" where
  "registers i (Ev_register now j task options ab) \<longleftrightarrow> j = i"
| "registers i ev \<longleftrightarrow> False"

lemma register_tasks:
  "bm_tasks (snd (registerTask now i task options ab m)) = (if assertCanRegister (isDetached (new_task now i task options ab)) m
     then map_put i (if isDetached (new_task now i task options ab)
       then queued (bm_persistence m) (new_task now i task options ab) else new_task now i task options ab) (bm_tasks m)
     else bm_tasks m)"
  by (simp add: registerTask_def Let_def emit_defs persistLive_queued) (simp add: new_task_def Let_def)

lemma register_fields [simp]:
  "bm_persistence (snd (registerTask now i task options ab m)) = bm_persistence m"
  "bm_logs (snd (registerTask now i task options ab m)) = bm_logs m"
  "bm_scheduled (snd (registerTask now i task options ab m)) = bm_scheduled m"
  "bm_maxRunningTasks (snd (registerTask now i task options ab m)) = bm_maxRunningTasks m"
  by (simp_all add: registerTask_def Let_def emit_defs)

lemma new_task_ok: "entry_ok (new_task now i task options ab)" "mt_taskId (new_task now i task options ab) = i"
  by (simp_all add: new_task_def Let_def entry_ok_def unsettled_def)

lemma queued_ok: "entry_ok e \<Longrightarrow> mt_status e = TS_running \<Longrightarrow> entry_ok (queued p e)"
  using move_entry_ok [OF updated] by blast

lemma new_task_fields [simp]:
  "mt_status (new_task now i task options ab) = TS_running" "mt_phase (new_task now i task options ab) = Racing"
  "mt_persistWriteQueue (new_task now i task options ab) = []" "mt_outputWriteQueue (new_task now i task options ab) = []"
  "mt_pendingOutput (new_task now i task options ab) = []"
  "mt_foreground (new_task now i task options ab) \<longleftrightarrow> bo_detached options = Some False"
  "startedInBackground (new_task now i task options ab) \<longleftrightarrow> bo_detached options \<noteq> Some False"
  by (auto simp: new_task_def Let_def startedInBackground_def split: option.splits)

lemma man_ok_put:
  "man_ok m \<Longrightarrow> bm_tasks m' = map_put i e (bm_tasks m) \<Longrightarrow> mt_taskId e = i \<Longrightarrow> entry_ok e \<Longrightarrow> man_ok m'"
  by (simp add: man_ok_def)

lemma register_ok:
  assumes "man_ok m"
  shows "man_ok (snd (registerTask now i task options ab m))"
proof (cases "assertCanRegister (isDetached (new_task now i task options ab)) m")
  case True
  have "entry_ok (queued (bm_persistence m) (new_task now i task options ab))" by (simp add: queued_ok new_task_ok)
  with True assms show ?thesis
    by (cases "isDetached (new_task now i task options ab)")
      (auto simp: register_tasks new_task_ok intro!: man_ok_put [OF assms, of _ i])
qed (use assms in \<open>simp add: register_tasks man_ok_def\<close>)

lemma moved_entry:
  assumes "moved j L m m'" and "map_get (bm_tasks m) i = Some e"
  shows "\<exists>e'. map_get (bm_tasks m') i = Some e' \<and> task_move (bm_persistence m) (if i = j then L else Quiet) e e'"
  using assms by (auto simp: moved_def intro: idle)

lemma stops_moved:
  assumes "man_ok m"
  shows "man_ok (foldl (\<lambda>m i. stop i reason m) m is) \<and>
    bm_persistence (foldl (\<lambda>m i. stop i reason m) m is) = bm_persistence m \<and>
    (\<forall>i e. map_get (bm_tasks m) i = Some e \<longrightarrow>
       (\<exists>e'. map_get (bm_tasks (foldl (\<lambda>m i. stop i reason m) m is)) i = Some e' \<and>
             (task_move (bm_persistence m) Quiet)\<^sup>*\<^sup>* e e'))"
  using assms
proof (induction "is" arbitrary: m)
  case (Cons j "is")
  let ?m = "stop j reason m"
  note mv = stop_moved [OF Cons.prems, of j Quiet reason]
  have ok: "man_ok ?m" by (rule moved_keeps [OF Cons.prems mv])
  have p: "bm_persistence ?m = bm_persistence m" using mv by (simp add: moved_def)
  have "\<exists>e'. map_get (bm_tasks (foldl (\<lambda>m i. stop i reason m) ?m is)) i = Some e' \<and>
      (task_move (bm_persistence m) Quiet)\<^sup>*\<^sup>* e e'" if e: "map_get (bm_tasks m) i = Some e" for i e
  proof -
    from moved_entry [OF mv e] obtain e1 where e1: "map_get (bm_tasks ?m) i = Some e1"
        "task_move (bm_persistence m) Quiet e e1" by auto
    from Cons.IH [OF ok] e1(1) p obtain e2 where
      "map_get (bm_tasks (foldl (\<lambda>m i. stop i reason m) ?m is)) i = Some e2" "(task_move (bm_persistence m) Quiet)\<^sup>*\<^sup>* e1 e2"
      by fastforce
    with e1(2) show ?thesis by (meson converse_rtranclp_into_rtranclp)
  qed
  with Cons.IH [OF ok] p show ?case by auto
qed auto

lemma step_ok: "man_ok m \<Longrightarrow> man_ok (bg_step E m ev)"
proof (cases "(\<exists>now i task options ab. ev = Ev_register now i task options ab) \<or> (\<exists>r. ev = Ev_stop_all r)")
  case True
  assume "man_ok m"
  with True show ?thesis using register_ok stops_moved by (auto simp: stopAll_def)
qed (use step_moved moved_keeps in blast)

text \<open>What a step does to the entry of one task.\<close>

lemma step_entry:
  assumes ok: "man_ok m" and e: "map_get (bm_tasks m) i = Some e" and ev: "\<not> registers i ev"
  shows "\<exists>e'. map_get (bm_tasks (bg_step E m ev)) i = Some e' \<and>
    (task_move (bm_persistence m) (if i = target ev then kind ev else Quiet))\<^sup>*\<^sup>* e e'"
proof (cases "(\<exists>now i task options ab. ev = Ev_register now i task options ab) \<or> (\<exists>r. ev = Ev_stop_all r)")
  case True
  then show ?thesis using e ev stops_moved [OF ok] by (auto simp: register_tasks stopAll_def)
next
  case False
  then have "moved (target ev) (kind ev) m (bg_step E m ev)" using step_moved [OF ok] by blast
  from moved_entry [OF this e] show ?thesis by blast
qed

lemma step_persistence [simp]: "man_ok m \<Longrightarrow> bm_persistence (bg_step E m ev) = bm_persistence m"
proof (cases "(\<exists>now i task options ab. ev = Ev_register now i task options ab) \<or> (\<exists>r. ev = Ev_stop_all r)")
  case True
  assume "man_ok m"
  with True show ?thesis using stops_moved by (auto simp: stopAll_def)
qed (use step_moved in \<open>auto simp: moved_def\<close>)

lemma new_manager_ok [simp]: "man_ok (new_manager p mx records logs)"
  by (simp add: man_ok_def new_manager_def)

interpretation manager: invariant_component "bg_step E" man_ok for E
  by unfold_locales (rule step_ok)

lemma run_ok: "man_ok m \<Longrightarrow> man_ok (bg_run E m evs)"
  unfolding bg_run_def by (rule manager.run_inv)

lemma run_persistence [simp]: "man_ok m \<Longrightarrow> bm_persistence (bg_run E m evs) = bm_persistence m"
  by (induction evs arbitrary: m) (simp_all add: step_ok)

text \<open>A property of the entries that every move keeps holds to the end of a run.\<close>

lemma run_entry:
  assumes move: "\<And>L e e'. task_move (bm_persistence m) L e e' \<Longrightarrow> entry_ok e \<Longrightarrow> P e \<Longrightarrow> P e'"
    and ok: "man_ok m" and e: "map_get (bm_tasks m) i = Some e" and P: "P e"
    and evs: "\<forall>ev \<in> set evs. \<not> registers i ev"
  shows "\<exists>e'. map_get (bm_tasks (bg_run E m evs)) i = Some e' \<and> P e'"
  using ok e P evs move
proof (induction evs arbitrary: m e)
  case (Cons ev evs)
  from step_entry [OF Cons.prems(1,2)] Cons.prems(4) obtain e' L where
    e': "map_get (bm_tasks (bg_step E m ev)) i = Some e'" "(task_move (bm_persistence m) L)\<^sup>*\<^sup>* e e'" by fastforce
  from e'(2) have "entry_ok e' \<and> P e'"
  proof (induction rule: rtranclp_induct)
    case base
    with Cons.prems show ?case using man_okD by blast
  next
    case (step a b)
    then show ?case using Cons.prems(5) move_entry_ok by blast
  qed
  with Cons.IH [OF step_ok [OF Cons.prems(1)] e'(1)] Cons.prems show ?case by simp
qed auto

section \<open>The end of a task is final\<close>

text \<open>What does not change: all but the suppression and the exit code.\<close>

definition settled_part :: "BackgroundTaskInfo \<Rightarrow> BackgroundTaskInfo" where
  "settled_part info = info\<lparr>bi_suppressed := None, bi_details := set_exit_code None (bi_details info)\<rparr>"

lemma exit_code_twice [simp]: "set_exit_code a (set_exit_code b d) = set_exit_code a d"
  by (cases d) simp_all

lemma exit_code_only: "set_exit_code None a = set_exit_code None b \<Longrightarrow> \<exists>c. a = set_exit_code c b"
  by (cases a; cases b) auto

lemma settled_partD: "settled_part a = settled_part b \<Longrightarrow> \<exists>s c. a = b\<lparr>bi_suppressed := s, bi_details := set_exit_code c (bi_details b)\<rparr>"
proof -
  assume eq: "settled_part a = settled_part b"
  from arg_cong [OF eq, of bi_details] obtain c where c: "bi_details a = set_exit_code c (bi_details b)"
    by (auto simp: settled_part_def dest: exit_code_only)
  have "a = (settled_part a)\<lparr>bi_suppressed := bi_suppressed a, bi_details := bi_details a\<rparr>" by (simp add: settled_part_def)
  with c have "a = b\<lparr>bi_suppressed := bi_suppressed a, bi_details := set_exit_code c (bi_details b)\<rparr>"
    unfolding eq by (simp add: settled_part_def)
  then show ?thesis by blast
qed

lemma move_final: "task_move p L e e' \<Longrightarrow> entry_ok e \<Longrightarrow>
    mt_status e \<noteq> TS_running \<and> settled_part (toInfo e) = info \<Longrightarrow>
    mt_status e' \<noteq> TS_running \<and> settled_part (toInfo e') = info"
  by (induction rule: task_move.induct)
    (auto simp: settled_part_def toInfo_def isDetached_def entry_ok_def unsettled_def end_task_def queued_def)

lemma run_final:
  assumes "man_ok m" and "map_get (bm_tasks m) i = Some e" and "mt_status e \<noteq> TS_running"
    and "\<forall>ev \<in> set evs. \<not> registers i ev"
  shows "\<exists>e'. map_get (bm_tasks (bg_run E m evs)) i = Some e' \<and>
    mt_status e' \<noteq> TS_running \<and> settled_part (toInfo e') = settled_part (toInfo e)"
proof (rule run_entry [OF _ assms(1,2) _ assms(4)])
  fix L a b
  assume "task_move (bm_persistence m) L a b" and "entry_ok a"
    and "mt_status a \<noteq> TS_running \<and> settled_part (toInfo a) = settled_part (toInfo e)"
  then show "mt_status b \<noteq> TS_running \<and> settled_part (toInfo b) = settled_part (toInfo e)"
    by (rule move_final)
qed (simp add: assms(3))

section \<open>The limit of running tasks\<close>

lemma move_admission: "task_move p L e e' \<Longrightarrow> entry_ok e \<Longrightarrow>
    mt_status e' = TS_running \<and> startedInBackground e' \<Longrightarrow> mt_status e = TS_running \<and> startedInBackground e"
  by (induction rule: task_move.induct)
    (auto simp: startedInBackground_def entry_ok_def unsettled_def end_task_def)


definition active :: "ManagedTask \<Rightarrow> bool" where
  "active e \<longleftrightarrow> mt_status e = TS_running \<and> startedInBackground e"

lemma admission_count: "activeBackgroundAdmissionCount m = length (filter (\<lambda>(i, e). active e) (bm_tasks m))"
  by (simp add: activeBackgroundAdmissionCount_def active_def)

lemma count_put:
  "map_get ts i = Some e \<Longrightarrow> (active e' \<longrightarrow> active e) \<Longrightarrow>
     length (filter (\<lambda>(i, e). active e) (map_put i e' ts)) \<le> length (filter (\<lambda>(i, e). active e) ts)"
  by (induction ts) (auto split: if_splits)

lemma count_put_new:
  "length (filter (\<lambda>(i, e). active e) (map_put i e' ts)) \<le> length (filter (\<lambda>(i, e). active e) ts) + (if active e' then 1 else 0)"
  by (induction ts) auto

lemma moved_count: "man_ok m \<Longrightarrow> moved i L m m' \<Longrightarrow> activeBackgroundAdmissionCount m' \<le> activeBackgroundAdmissionCount m"
  using move_admission man_okD by (fastforce simp: moved_def admission_count active_def [symmetric] intro: count_put)

lemma stops_count:
  "man_ok m \<Longrightarrow> activeBackgroundAdmissionCount (foldl (\<lambda>m i. stop i reason m) m is) \<le> activeBackgroundAdmissionCount m"
proof (induction "is" arbitrary: m)
  case (Cons j "is")
  have mv: "moved j Quiet m (stop j reason m)" by (rule stop_moved [OF Cons.prems])
  from Cons.IH [OF moved_keeps [OF Cons.prems mv]] moved_count [OF Cons.prems mv] show ?case by simp
qed simp

lemma stop_maxRunning [simp]: "bm_maxRunningTasks (stop i r m) = bm_maxRunningTasks m"
  by (simp add: stop_def Let_def split: option.split)

lemma stops_maxRunning [simp]: "bm_maxRunningTasks (foldl (\<lambda>m i. stop i reason m) m is) = bm_maxRunningTasks m"
  by (induction "is" arbitrary: m) simp_all

lemma finalize_fields [simp]:
  "bm_maxRunningTasks (finalizeTask now st e m) = bm_maxRunningTasks m"
  "bm_maxRunningTasks (fireTerminalEffects e m) = bm_maxRunningTasks m"
  "bm_logs (finalizeTask now st e m) = bm_logs m" "bm_logs (fireTerminalEffects e m) = bm_logs m"
  by (auto simp: finalizeTask_def fireTerminalEffects_def Let_def emit_defs begin_notification_fields split: option.split)

lemma race_won_fields [simp]:
  "bm_maxRunningTasks (race_won now oc e m) = bm_maxRunningTasks m" "bm_logs (race_won now oc e m) = bm_logs m"
  by (simp_all add: race_won_def Let_def split: TerminalOutcome.split)

lemma step_maxRunning [simp]: "bm_maxRunningTasks (bg_step E m ev) = bm_maxRunningTasks m"
  by (cases ev) (auto simp: on_task_def stopAll_def detach_def suppressTerminalNotification_def persistOutput_def ask_task_def
      record_written_def output_written_def notified_def markDeliveredNotification_def emit_defs Let_def
      split: option.split life_phase.split list.split nat.split)

lemma step_count:
  assumes ok: "man_ok m" and lim: "bm_maxRunningTasks m = Some mx" and c: "int (activeBackgroundAdmissionCount m) \<le> max 0 mx"
  shows "int (activeBackgroundAdmissionCount (bg_step E m ev)) \<le> max 0 mx"
proof (cases "(\<exists>now i task options ab. ev = Ev_register now i task options ab) \<or> (\<exists>r. ev = Ev_stop_all r)")
  case True
  then consider (reg) now i task options ab where "ev = Ev_register now i task options ab" | (all) r where "ev = Ev_stop_all r"
    by blast
  then show ?thesis
  proof cases
    case reg
    let ?e = "new_task now i task options ab"
    let ?e' = "if isDetached ?e then queued (bm_persistence m) ?e else ?e"
    have act: "active ?e' \<longleftrightarrow> isDetached ?e"
      by (auto simp: active_def isDetached_def startedInBackground_def)
        (simp add: new_task_def Let_def split: option.splits)+
    from count_put_new [of i ?e' "bm_tasks m"] act lim c reg show ?thesis
      by (auto simp: register_tasks assertCanRegister_def admission_count split: if_splits)
  next
    case (all r)
    with stops_count [OF ok, of r "map fst (bm_tasks m)"] c show ?thesis by (simp add: stopAll_def)
  qed
next
  case False
  then have "moved (target ev) (kind ev) m (bg_step E m ev)" using step_moved [OF ok] by blast
  from moved_count [OF ok this] c show ?thesis by linarith
qed

definition within_limit :: "int \<Rightarrow> BackgroundManager \<Rightarrow> bool" where
  "within_limit mx m \<longleftrightarrow> man_ok m \<and> bm_maxRunningTasks m = Some mx \<and> int (activeBackgroundAdmissionCount m) \<le> max 0 mx"

interpretation limited: invariant_component "bg_step E" "within_limit mx" for E mx
  by unfold_locales (auto simp: within_limit_def step_ok intro: step_count)

end
