(* ===== verification/Background_Notices.thy ===== *)
theory Background_Notices
  imports Background_Runs
begin

text \<open>
  The end of a task is announced to the model at most once: by a steer or, for a task of an earlier
  session, by a message. What is scheduled is announced, or about to be.
\<close>

section \<open>Announcements\<close>

fun announces :: "notification_key \<Rightarrow> bg_effect \<Rightarrow> bool" where
  "announces k (Call_turn_steer t og) \<longleftrightarrow> notificationKey og = k"
| "announces k (Call_context_appendUserMessage t og) \<longleftrightarrow> notificationKey og = k"
| "announces k x \<longleftrightarrow> False"

definition announcements :: "notification_key \<Rightarrow> BackgroundManager \<Rightarrow> nat" where
  "announcements k m = length (filter (announces k) (bm_effects m))"

definition is_notifying :: "notification_key \<Rightarrow> ManagedTask \<Rightarrow> bool" where
  "is_notifying k e = (case mt_phase e of Notifying info n \<Rightarrow> notificationKey (notification_origin info) = k | _ \<Rightarrow> False)"

definition notifying_now :: "notification_key \<Rightarrow> BackgroundManager \<Rightarrow> bool" where
  "notifying_now k m = (case map_get (bm_tasks m) (fst k) of Some e \<Rightarrow> is_notifying k e | None \<Rightarrow> False)"

definition notices_ok :: "BackgroundManager \<Rightarrow> bool" where
  "notices_ok m \<longleftrightarrow> (\<forall>k. announcements k m + of_bool (notifying_now k m) \<le> of_bool (k \<in> set (bm_scheduled m)))"

lemma announcements_effect [simp]: "announcements k (effect x m) = announcements k m + of_bool (announces k x)"
  by (simp add: announcements_def)

lemma announcements_same: "bm_effects m' = bm_effects m \<Longrightarrow> announcements k m' = announcements k m"
  by (simp add: announcements_def)

lemma announcements_put [simp]: "announcements k (put_task e m) = announcements k m" "announcements k (persistLive e m) = announcements k m"
  by (simp_all add: announcements_def)

text \<open>A step that announces nothing and schedules nothing.\<close>

definition silent :: "BackgroundManager \<Rightarrow> BackgroundManager \<Rightarrow> bool" where
  "silent m m' \<longleftrightarrow> bm_scheduled m' = bm_scheduled m \<and> (\<forall>k. announcements k m' = announcements k m)"

lemma silent_same: "bm_scheduled m' = bm_scheduled m \<Longrightarrow> bm_effects m' = bm_effects m \<Longrightarrow> silent m m'"
  by (simp add: silent_def announcements_def)

lemma silent_refl [simp]: "silent m m"
  by (simp add: silent_def)

lemma silent_finalize: "entry_ok e \<Longrightarrow> silent m (finalizeTask now st (e\<lparr>mt_timer := t\<rparr>) m)"
  by (auto simp: silent_def finalizeTask_def fireTerminalEffects_def isDetached_def Let_def entry_ok_def cong: option.case_cong)

lemma silent_stops: "silent m (foldl (\<lambda>m i. stop i reason m) m is)"
proof (induction "is" arbitrary: m)
  case (Cons i "is")
  have "silent m (stop i reason m)" by (simp add: silent_def stop_def Let_def split: option.split)
  with Cons.IH [of "stop i reason m"] show ?case by (simp add: silent_def)
qed simp

lemma silent_on_task:
  "(\<And>e. map_get (bm_tasks m) i = Some e \<Longrightarrow> silent m (f e)) \<Longrightarrow> silent m (on_task i f m)"
  by (simp add: on_task_def split: option.split)

lemma silent_step:
  assumes ok: "man_ok m" and ev: "\<And>i. ev \<noteq> Ev_end_persisted i" "\<And>i k. ev \<noteq> Ev_notified i k" "\<And>now w z. ev \<noteq> Ev_reconcile now w z"
  shows "silent m (bg_step E m ev)"
proof (cases "\<exists>now i. (\<exists>oc. ev = Ev_race now i oc) \<or> ev = Ev_grace_settled now i \<or> ev = Ev_force_stopped now i")
  case True
  have "silent m (finalizeTask now st e m)" if "map_get (bm_tasks m) i = Some e" for now i st e
    using silent_finalize [of e m now st "mt_timer e"] man_okD [OF ok that] by simp
  moreover have "silent m (race_won now oc e m)" if "map_get (bm_tasks m) i = Some e" for now i oc e
    using silent_finalize [of e m now _ None] man_okD [OF ok that]
    by (auto simp: race_won_def Let_def silent_def split: TerminalOutcome.split)
  ultimately show ?thesis using True
    by (auto intro!: silent_on_task split: life_phase.split option.split)
next
  case False
  show ?thesis
  proof (cases ev)
    case (Ev_stop_all r)
    then show ?thesis by (simp add: stopAll_def silent_stops)
  qed (use ev False in \<open>auto simp: silent_def on_task_def stop_def detach_def suppressTerminalNotification_def persistOutput_def
      ask_task_def record_written_def output_written_def markDeliveredNotification_def registerTask_def loadFromDisk_def
      writeTask_def write_output_def announcements_def emit_defs Let_def
      split: option.split life_phase.split list.split\<close>)
qed

section \<open>Who is about to announce\<close>

lemma move_notifying: "task_move p L e e' \<Longrightarrow> L \<noteq> Announcing \<Longrightarrow> is_notifying k e' \<Longrightarrow> is_notifying k e"
  by (induction rule: task_move.induct) (auto simp: is_notifying_def end_task_def split: life_phase.splits)

lemma moves_notifying: "(task_move p L)\<^sup>*\<^sup>* e e' \<Longrightarrow> L \<noteq> Announcing \<Longrightarrow> is_notifying k e' \<Longrightarrow> is_notifying k e"
  by (induction rule: rtranclp_induct) (auto dest: move_notifying)

lemma stops_domain: "man_ok m \<Longrightarrow> map_get (bm_tasks m) i = None \<Longrightarrow> map_get (bm_tasks (foldl (\<lambda>m i. stop i r m) m is)) i = None"
proof (induction "is" arbitrary: m)
  case (Cons j "is")
  note mv = stop_moved [OF Cons.prems(1), of j Quiet r]
  have "map_get (bm_tasks (stop j r m)) i = None" using mv Cons.prems(2) by (auto simp: moved_def)
  with Cons.IH [OF moved_keeps [OF Cons.prems(1) mv]] show ?case by simp
qed simp

lemma step_domain:
  assumes ok: "man_ok m" and none: "map_get (bm_tasks m) i = None" and ev: "\<not> registers i ev"
  shows "map_get (bm_tasks (bg_step E m ev)) i = None"
proof (cases "(\<exists>now i task options ab. ev = Ev_register now i task options ab) \<or> (\<exists>r. ev = Ev_stop_all r)")
  case True
  then show ?thesis using none ev stops_domain [OF ok none] by (auto simp: register_tasks stopAll_def)
next
  case False
  then have "moved (target ev) (kind ev) m (bg_step E m ev)" using step_moved [OF ok] by blast
  with none show ?thesis by (auto simp: moved_def)
qed

lemma step_notifying:
  assumes ok: "man_ok m" and ev: "\<And>i. ev \<noteq> Ev_end_persisted i" and k: "notifying_now k (bg_step E m ev)"
  shows "notifying_now k m"
proof (cases "registers (fst k) ev")
  case True
  then obtain now task options ab where "ev = Ev_register now (fst k) task options ab" by (cases ev) auto
  with k show ?thesis by (auto simp: notifying_now_def register_tasks is_notifying_def split: if_splits)
next
  case False
  show ?thesis
  proof (cases "map_get (bm_tasks m) (fst k)")
    case None
    with step_domain [OF ok None False] k show ?thesis by (simp add: notifying_now_def)
  next
    case (Some e)
    from step_entry [OF ok Some False] obtain e' where
      e': "map_get (bm_tasks (bg_step E m ev)) (fst k) = Some e'"
        "(task_move (bm_persistence m) (if fst k = target ev then kind ev else Quiet))\<^sup>*\<^sup>* e e'" by blast
    have "kind ev \<noteq> Announcing" using ev by (cases ev) auto
    with moves_notifying [OF e'(2)] k e'(1) Some show ?thesis by (auto simp: notifying_now_def)
  qed
qed

section \<open>Every step keeps the notices\<close>

lemma silent_notices:
  "notices_ok m \<Longrightarrow> silent m m' \<Longrightarrow> (\<And>k. notifying_now k m' \<Longrightarrow> notifying_now k m) \<Longrightarrow> notices_ok m'"
  unfolding notices_ok_def silent_def by (metis (no_types, lifting) of_bool_def add_0_right le_add1 order.trans add_leE)


lemma notifying_put [simp]:
  "notifying_now k (put_task e m) \<longleftrightarrow> (if fst k = mt_taskId e then is_notifying k e else notifying_now k m)"
  by (simp add: notifying_now_def)

lemma notifying_same: "bm_tasks m' = bm_tasks m \<Longrightarrow> notifying_now k m' = notifying_now k m"
  by (simp add: notifying_now_def)

lemma end_not_notifying [simp]: "\<not> is_notifying k (end_task e)"
  by (simp add: is_notifying_def end_task_def)

lemma end_task_id [simp]: "mt_taskId (end_task e) = mt_taskId e"
  by (simp add: end_task_def)

lemma key_task [simp]: "fst (notificationKey (notification_origin info)) = bi_taskId info"
  by (simp add: notificationKey_def notification_origin_def)

lemma noticesD: "notices_ok m \<Longrightarrow> announcements k m + of_bool (notifying_now k m) \<le> of_bool (k \<in> set (bm_scheduled m))"
  unfolding notices_ok_def by (rule spec)

lemma fire_notices:
  assumes "notices_ok m"
  shows "notices_ok (fireTerminalEffects e m)"
proof -
  have drop: "notices_ok (put_task (end_task e) m')" if "silent m m'" "bm_tasks m' = bm_tasks m" for m'
    using that assms by (intro silent_notices [OF assms]) (auto simp: silent_def notifying_now_def split: if_splits)
  show ?thesis
  proof (cases "isDetached e")
    case True
    show ?thesis
    proof (cases "begin_notification (toInfo e) m")
      case None
      then show ?thesis using True drop [of "emitTaskTerminated (toInfo e) m"]
        by (simp add: fireTerminalEffects_def Let_def emit_defs silent_def)
    next
      case (Some m1)
      note F = begin_notification_fields [OF Some]
      let ?e = "e\<lparr>mt_phase := Notifying (toInfo e) (length (mt_outputWriteQueue e))\<rparr>"
      let ?key = "notificationKey (notification_origin (toInfo e))"
      have "announcements k (put_task ?e m1) + of_bool (notifying_now k (put_task ?e m1)) \<le> of_bool (k \<in> set (bm_scheduled m1))" for k
        using noticesD [OF assms, of k] F(9-10) notifying_same [OF F(1)] announcements_same [OF F(8), of k]
        by (auto simp: is_notifying_def toInfo_def split: if_splits)
      with True Some show ?thesis by (simp add: fireTerminalEffects_def Let_def notices_ok_def)
    qed
  qed (use drop [of m] in \<open>simp add: fireTerminalEffects_def\<close>)
qed

lemma notify_announcements:
  "announcements k (notifyBackgroundTask E ok info m) = announcements k m +
     of_bool (ok \<and> \<not> isTerminalNotificationSuppressed (bi_taskId info) m \<and> notificationKey (notification_origin info) = k)"
  by (auto simp: notifyBackgroundTask_def Let_def announcements_def unschedule_def effect_def)

lemma notify_scheduled:
  "set (bm_scheduled (notifyBackgroundTask E ok info m)) = (if ok \<and> \<not> isTerminalNotificationSuppressed (bi_taskId info) m
     then set (bm_scheduled m) else set (bm_scheduled m) - {notificationKey (notification_origin info)})"
  by (auto simp: notifyBackgroundTask_def Let_def unschedule_def)

lemma notified_notices:
  assumes no: "notices_ok m" and ok: "man_ok m" and e: "map_get (bm_tasks m) i = Some e"
  shows "notices_ok (notified E k e m)"
proof (cases "\<exists>info. mt_phase e = Notifying info 0")
  case True
  then obtain info where ph: "mt_phase e = Notifying info 0" by blast
  let ?key = "notificationKey (notification_origin info)"
  let ?m' = "put_task (end_task e) (emitTaskTerminated info (notifyBackgroundTask E k info m))"
  have id: "mt_taskId e = i" "bi_taskId info = i" using man_okD [OF ok e] ph by (auto simp: entry_ok_def)
  have now: "notifying_now ?key m" using e ph id by (simp add: notifying_now_def is_notifying_def)
  have "announcements x ?m' + of_bool (notifying_now x ?m') \<le> of_bool (x \<in> set (bm_scheduled ?m'))" for x
    using noticesD [OF no, of x] noticesD [OF no, of ?key] now id
    by (auto simp: emit_defs notify_announcements notify_scheduled notifying_now_def split: if_splits)
  with ph show ?thesis by (simp add: notified_def notices_ok_def)
qed (use no in \<open>auto simp: notified_def split: life_phase.split nat.split\<close>)

lemma restore_one_notices:
  assumes "notices_ok m"
  shows "notices_ok (restoreBackgroundTaskNotification E ok info m)"
proof (cases "begin_notification info m")
  case (Some m1)
  note F = begin_notification_fields [OF Some]
  let ?key = "notificationKey (notification_origin info)"
  let ?m' = "restoreBackgroundTaskNotification E ok info m"
  have "announcements k ?m' = announcements k m + of_bool (ok \<and> ?key = k)" for k
    using Some announcements_same [OF F(8)]
    by (auto simp: restoreBackgroundTaskNotification_def Let_def unschedule_def announcements_def)
  moreover have "set (bm_scheduled ?m') = set (bm_scheduled m) \<union> (if ok then {?key} else {})"
    using Some F(9,10) by (auto simp: restoreBackgroundTaskNotification_def Let_def unschedule_def)
  ultimately have "announcements k ?m' + of_bool (notifying_now k ?m') \<le> of_bool (k \<in> set (bm_scheduled ?m'))" for k
    using noticesD [OF assms, of k] F(10) notifying_same [of ?m' m k] by (auto simp: of_bool_def split: if_splits)
  then show ?thesis by (simp add: notices_ok_def)
qed (use assms in \<open>simp add: restoreBackgroundTaskNotification_def\<close>)

lemma restore_loop_notices: "notices_ok m \<Longrightarrow> notices_ok (restore_loop E snaps infos m)"
  by (induction infos arbitrary: m) (simp_all add: restore_one_notices Let_def)

lemma emit_all_notices: "notices_ok m \<Longrightarrow> notices_ok (foldl (\<lambda>m i. emitTaskTerminated i m) m infos)"
proof (induction infos arbitrary: m)
  case (Cons info infos)
  have "notices_ok (emitTaskTerminated info m)"
    by (rule silent_notices [OF Cons.prems]) (auto simp: silent_def emit_defs notifying_now_def)
  with Cons.IH show ?case by simp
qed simp

lemma reconcile_notices:
  assumes "notices_ok m"
  shows "notices_ok (reconcile E now writes snaps m)"
proof -
  obtain r m1 where r: "markLoadedTasksLost now writes (map fst (bm_ghosts m)) m = (r, m1)" by (metis surj_pair)
  from mark_lost_fields [of m now writes "map fst (bm_ghosts m)"] r have "same_live m m1" by simp
  then have "notices_ok m1"
    by (intro silent_notices [OF assms]) (auto simp: same_live_def silent_same notifying_now_def)
  with r show ?thesis
    by (simp add: reconcile_def restoreBackgroundTaskNotifications_def emit_all_notices restore_loop_notices split: option.split)
qed

lemma step_notices:
  assumes "man_ok m" and "notices_ok m"
  shows "notices_ok (bg_step E m ev)"
proof (cases "(\<exists>i. ev = Ev_end_persisted i) \<or> (\<exists>i k. ev = Ev_notified i k) \<or> (\<exists>now w z. ev = Ev_reconcile now w z)")
  case True
  then show ?thesis using assms fire_notices notified_notices reconcile_notices
    by (auto simp: on_task_def split: option.split)
next
  case False
  then show ?thesis using silent_notices [OF assms(2) silent_step [OF assms(1)]] step_notifying [OF assms(1)] by blast
qed

interpretation notices: invariant_component "bg_step E" "\<lambda>m. man_ok m \<and> notices_ok m" for E
  by unfold_locales (simp add: step_ok step_notices)

lemma run_notices: "man_ok m \<Longrightarrow> notices_ok m \<Longrightarrow> notices_ok (bg_run E m evs)"
  unfolding bg_run_def using notices.run_inv by blast

lemma new_manager_notices [simp]: "notices_ok (new_manager p mx records logs)"
  by (simp add: notices_ok_def new_manager_def announcements_def notifying_now_def)

end
