(* ===== verification/Background_Output.thy ===== *)
theory Background_Output
  imports Background_Notices
begin

text \<open>
  What a task writes is in its log, in order, or still queued for it, unless the task ended in the
  foreground with its output never asked for: then what was held back is dropped.
\<close>

section \<open>Output of one entry\<close>

definition unlogged :: "ManagedTask \<Rightarrow> string" where
  "unlogged e = concat (mt_outputWriteQueue e) @ concat (mt_pendingOutput e)"

definition dropped :: "ManagedTask \<Rightarrow> bool" where
  "dropped e \<longleftrightarrow> mt_foreground e \<and> mt_phase e = LifeEnded"

definition output_ok :: "ManagedTask \<Rightarrow> bool" where
  "output_ok e \<longleftrightarrow> (mt_outputPersistStarted e \<longrightarrow> mt_pendingOutput e = [])"

lemma startOutputPersist_output [simp]:
  "unlogged (startOutputPersist True e) = unlogged e"
  "mt_pendingOutput (startOutputPersist True e) = (if mt_outputPersistStarted e then mt_pendingOutput e else [])"
  by (auto simp: unlogged_def startOutputPersist_def appendTaskOutput_def Let_def)

lemma appendOutput_output:
  assumes "output_ok e"
  shows "unlogged (appendOutput c True e) = unlogged e @ c" "output_ok (appendOutput c True e)"
    "dropped (appendOutput c True e) = dropped e"
  using assms by (auto simp: unlogged_def output_ok_def dropped_def appendOutput_def startOutputPersist_def appendTaskOutput_def Let_def)

lemma move_output:
  assumes "task_move True L e e'" and "entry_ok e" and "output_ok e" and "\<forall>c. L \<noteq> Wrote c" and "L \<noteq> Logged"
  shows "output_ok e'" and "\<not> dropped e' \<Longrightarrow> unlogged e' = unlogged e \<and> \<not> dropped e"
proof -
  have "output_ok e' \<and> (dropped e' \<or> unlogged e' = unlogged e \<and> \<not> dropped e)"
    using assms
  proof (induction rule: task_move.induct)
    case (kept_output L e)
    then show ?case by (auto simp: dropped_def output_ok_def)
  next
    case (detached e L t)
    then show ?case
      by (auto simp: dropped_def output_ok_def entry_ok_def unsettled_def queued_def unlogged_def startOutputPersist_def
          appendTaskOutput_def Let_def)
  next
    case (worker L e st)
    then show ?case by (simp add: dropped_def output_ok_def settleWorker_def unlogged_def split: option.split)
  qed (auto simp: dropped_def output_ok_def entry_ok_def unsettled_def queued_def unlogged_def end_task_def
      split: life_phase.splits)
  then show "output_ok e'" and "\<not> dropped e' \<Longrightarrow> unlogged e' = unlogged e \<and> \<not> dropped e" by auto
qed

lemma moves_output:
  assumes "(task_move True L)\<^sup>*\<^sup>* e e'" and "entry_ok e" and "output_ok e" and "\<forall>c. L \<noteq> Wrote c" and "L \<noteq> Logged"
  shows "output_ok e' \<and> entry_ok e' \<and> (dropped e' \<or> unlogged e' = unlogged e \<and> \<not> dropped e)"
  using assms(1)
proof (induction rule: rtranclp_induct)
  case (step a b)
  then have a: "output_ok a" "entry_ok a" by auto
  from move_output [OF step.hyps(2) a(2,1) assms(4,5)] move_entry_ok [OF step.hyps(2) a(2)] step.IH show ?case by metis
qed (use assms in blast)

section \<open>The log\<close>

definition log_of :: "string \<Rightarrow> BackgroundManager \<Rightarrow> string" where
  "log_of i m = (case map_get (bm_logs m) i of None \<Rightarrow> [] | Some t \<Rightarrow> t)"

fun written :: "string \<Rightarrow> bg_event \<Rightarrow> string" where
  "written i (Ev_output j c) = (if j = i then c else [])"
| "written i ev = []"

lemma stop_logs [simp]: "bm_logs (stop i r m) = bm_logs m"
  by (simp add: stop_def Let_def split: option.split)

lemma stops_logs [simp]: "bm_logs (foldl (\<lambda>m i. stop i reason m) m is) = bm_logs m"
  by (induction "is" arbitrary: m) simp_all

lemma step_log:
  assumes "man_ok m" and "\<And>k. ev \<noteq> Ev_output_written i k"
  shows "log_of i (bg_step E m ev) = log_of i m"
proof -
  have "map_get (bm_logs (bg_step E m ev)) i = map_get (bm_logs m) i"
  proof (cases "\<exists>j k. ev = Ev_output_written j k")
    case True
    then obtain j k where jk: "ev = Ev_output_written j k" "j \<noteq> i" using assms(2) by blast
    have "map_get (bm_logs (output_written k e m)) i = map_get (bm_logs m) i" if "map_get (bm_tasks m) j = Some e" for e
      using man_okD [OF assms(1) that] jk(2) by (simp add: output_written_def Let_def write_output_def split: list.split)
    with jk show ?thesis by (simp add: on_task_def split: option.split)
  next
    case False
    then show ?thesis
      by (cases ev) (simp_all add: on_task_def stopAll_def detach_def suppressTerminalNotification_def persistOutput_def
        ask_task_def record_written_def notified_def markDeliveredNotification_def emit_defs Let_def
        split: option.split life_phase.split list.split nat.split)
  qed
  then show ?thesis by (simp add: log_of_def)
qed

text \<open>One step of a task whose output is kept.\<close>

definition kept :: "string \<Rightarrow> string \<Rightarrow> BackgroundManager \<Rightarrow> bool" where
  "kept i out m \<longleftrightarrow> (\<exists>e. map_get (bm_tasks m) i = Some e \<and> output_ok e \<and> (dropped e \<or> log_of i m @ unlogged e = out))"

lemma step_kept:
  assumes ok: "man_ok m" and p: "bm_persistence m" and vi: "valid_task_id i" and k: "kept i out m"
    and ev: "\<not> registers i ev" "ev \<noteq> Ev_output_written i False"
  shows "kept i (out @ written i ev) (bg_step E m ev)"
proof -
  from k obtain e where e: "map_get (bm_tasks m) i = Some e" "output_ok e" "dropped e \<or> log_of i m @ unlogged e = out"
    by (auto simp: kept_def)
  from man_okD [OF ok e(1)] have eo: "entry_ok e" and id: "mt_taskId e = i" by auto
  consider (out) c where "ev = Ev_output i c" | (logged) "ev = Ev_output_written i True"
    | (other) "\<And>c. ev \<noteq> Ev_output i c" "\<And>k. ev \<noteq> Ev_output_written i k"
    using ev(2) by (metis (full_types))
  then show ?thesis
  proof cases
    case out
    with e p id appendOutput_output [OF e(2), of c] show ?thesis by (auto simp: kept_def on_task_def log_of_def)
  next
    case logged
    show ?thesis
    proof (cases "mt_outputWriteQueue e")
      case (Cons chunk rest)
      let ?e = "e\<lparr>mt_outputWriteQueue := rest,
        mt_phase := (case mt_phase e of Notifying info k \<Rightarrow> Notifying info (k - 1) | ph \<Rightarrow> ph)\<rparr>"
      have "dropped ?e \<longleftrightarrow> dropped e" by (auto simp: dropped_def split: life_phase.split)
      with logged Cons e id vi show ?thesis
        by (auto simp: kept_def on_task_def output_written_def Let_def log_of_def write_output_def unlogged_def output_ok_def
            split: option.split)
    qed (use logged e in \<open>simp add: kept_def on_task_def output_written_def\<close>)
  next
    case other
    define L where "L = (if i = target ev then kind ev else Quiet)"
    have "(\<forall>c. L \<noteq> Wrote c) \<and> L \<noteq> Logged" using other by (cases ev) (auto simp: L_def)
    moreover from step_entry [OF ok e(1) ev(1)] obtain e' where
      "map_get (bm_tasks (bg_step E m ev)) i = Some e'" "(task_move True L)\<^sup>*\<^sup>* e e'" using p by (auto simp: L_def)
    moreover have "written i ev = []" using other by (cases ev) auto
    ultimately show ?thesis using moves_output [OF _ eo e(2)] e(3) step_log [OF ok other(2)]
      by (auto simp: kept_def)
  qed
qed

lemma run_kept:
  assumes "man_ok m" and "bm_persistence m" and "valid_task_id i" and "kept i out m"
    and "\<forall>ev \<in> set evs. \<not> registers i ev \<and> ev \<noteq> Ev_output_written i False"
  shows "kept i (out @ concat (map (written i) evs)) (bg_run E m evs)"
  using assms
proof (induction evs arbitrary: m out)
  case (Cons ev evs)
  then have "kept i (out @ written i ev) (bg_step E m ev)" by (intro step_kept) auto
  with Cons.IH [of "bg_step E m ev" "out @ written i ev"] Cons.prems show ?case by (simp add: step_ok)
qed simp

text \<open>Before it is registered, nothing is known of a task.\<close>

lemma absent_step:
  assumes "man_ok m" and "map_get (bm_tasks m) i = None" and "\<not> registers i ev"
  shows "map_get (bm_tasks (bg_step E m ev)) i = None \<and> log_of i (bg_step E m ev) = log_of i m"
proof (cases "\<exists>k. ev = Ev_output_written i k")
  case True
  with assms show ?thesis by (auto simp: on_task_def)
qed (use step_domain [OF assms] step_log [OF assms(1)] in blast)

lemma absent_run:
  assumes "man_ok m" and "map_get (bm_tasks m) i = None" and "\<forall>ev \<in> set evs. \<not> registers i ev"
  shows "map_get (bm_tasks (bg_run E m evs)) i = None \<and> log_of i (bg_run E m evs) = log_of i m"
  using assms
proof (induction evs arbitrary: m)
  case (Cons ev evs)
  with absent_step [of m i ev E] show ?case by (simp add: step_ok)
qed simp

lemma register_kept:
  assumes "map_get (bm_tasks (bg_step E m (Ev_register now i task options ab))) i \<noteq> None"
    and "map_get (bm_tasks m) i = None" and "log_of i m = []"
  shows "kept i [] (bg_step E m (Ev_register now i task options ab))"
  using assms by (auto simp: kept_def register_tasks log_of_def output_ok_def unlogged_def split: if_splits)

end
