(* ===== verification/Background_Ends.thy ===== *)
theory Background_Ends
  imports Background_Output
begin

text \<open>
  How a task comes to its end once it is asked to stop, and what becomes of the tasks of an earlier
  session.
\<close>

section \<open>A stop ends the task\<close>

text \<open>There is a way to the end that needs neither the worker nor another task: timers that run out and
  disk writes that finish, well or badly.\<close>

definition ends :: "output_env \<Rightarrow> string \<Rightarrow> BackgroundManager \<Rightarrow> bool" where
  "ends E i m \<longleftrightarrow> (\<exists>evs e. (\<forall>ev \<in> set evs. target ev = i \<and> \<not> registers i ev \<and> (\<forall>st. ev \<noteq> Ev_settle i st)) \<and>
     map_get (bm_tasks (bg_run E m evs)) i = Some e \<and> mt_terminal e)"

lemma ends_here: "map_get (bm_tasks m) i = Some e \<Longrightarrow> mt_terminal e \<Longrightarrow> ends E i m"
  unfolding ends_def by (rule exI [of _ "[]"]) simp

lemma ends_step:
  assumes "ends E i (bg_step E m ev)" and "target ev = i" and "\<not> registers i ev" and "\<And>st. ev \<noteq> Ev_settle i st"
  shows "ends E i m"
proof -
  from assms(1) obtain evs e where "\<forall>ev \<in> set evs. target ev = i \<and> \<not> registers i ev \<and> (\<forall>st. ev \<noteq> Ev_settle i st)"
    "map_get (bm_tasks (bg_run E (bg_step E m ev) evs)) i = Some e" "mt_terminal e" unfolding ends_def by blast
  with assms(2-4) show ?thesis unfolding ends_def by (intro exI [of _ "ev # evs"] exI [of _ e]) simp
qed

lemma end_task_terminal [simp]: "mt_terminal (end_task e)"
  by (simp add: end_task_def)

lemma notifying_ends:
  assumes "man_ok m" and "map_get (bm_tasks m) i = Some e" and "mt_phase e = Notifying info n"
  shows "ends E i m"
  using assms
proof (induction n arbitrary: m e)
  case 0
  then have "map_get (bm_tasks (bg_step E m (Ev_notified i True))) i = Some (end_task e)"
    using man_okD [OF 0(1,2)] by (simp add: on_task_def notified_def emit_defs)
  then show ?case using ends_step [OF ends_here, of E m "Ev_notified i True" i "end_task e"] by simp
next
  case (Suc n)
  from man_okD [OF Suc.prems(1,2)] Suc.prems(3) obtain chunk rest where q: "mt_outputWriteQueue e = chunk # rest" and id: "mt_taskId e = i"
    by (cases "mt_outputWriteQueue e") (auto simp: entry_ok_def)
  have "ends E i (bg_step E m (Ev_output_written i False))"
    by (rule Suc.IH [OF step_ok [OF Suc.prems(1)], where e = "e\<lparr>mt_outputWriteQueue := rest, mt_phase := Notifying info n\<rparr>"])
      (use Suc.prems q id in \<open>simp_all add: on_task_def output_written_def Let_def\<close>)
  then show ?case by (rule ends_step) simp_all
qed

lemma fire_ends:
  assumes "man_ok (fireTerminalEffects e m)" and "mt_taskId e = i"
  shows "ends E i (fireTerminalEffects e m)"
proof -
  have "map_get (bm_tasks (fireTerminalEffects e m)) i = Some (end_task e) \<or>
    map_get (bm_tasks (fireTerminalEffects e m)) i = Some (e\<lparr>mt_phase := Notifying (toInfo e) (length (mt_outputWriteQueue e))\<rparr>)"
    using assms(2) by (auto simp: fireTerminalEffects_def Let_def emit_defs split: option.split)
  then show ?thesis
  proof
    assume *: "map_get (bm_tasks (fireTerminalEffects e m)) i = Some (end_task e)"
    show ?thesis by (rule ends_here [OF *]) simp
  next
    assume *: "map_get (bm_tasks (fireTerminalEffects e m)) i =
      Some (e\<lparr>mt_phase := Notifying (toInfo e) (length (mt_outputWriteQueue e))\<rparr>)"
    show ?thesis by (rule notifying_ends [OF assms(1) *]) simp
  qed
qed

lemma persisting_ends:
  assumes "man_ok m" and "map_get (bm_tasks m) i = Some e" and "mt_phase e = PersistingEnd k"
  shows "ends E i m"
  using assms
proof (induction k arbitrary: m e)
  case 0
  have fire: "bg_step E m (Ev_end_persisted i) = fireTerminalEffects e m" using 0 by (simp add: on_task_def)
  have "ends E i (fireTerminalEffects e m)"
    by (rule fire_ends) (use step_ok [OF 0(1), of E "Ev_end_persisted i"] fire man_okD [OF 0(1,2)] in simp_all)
  then show ?case using ends_step [of E i m "Ev_end_persisted i"] fire by simp
next
  case (Suc k)
  from man_okD [OF Suc.prems(1,2)] Suc.prems(3) obtain r rest where q: "mt_persistWriteQueue e = r # rest" and id: "mt_taskId e = i"
    by (cases "mt_persistWriteQueue e") (auto simp: entry_ok_def)
  have "ends E i (bg_step E m (Ev_record_written i False))"
    by (rule Suc.IH [OF step_ok [OF Suc.prems(1)], where e = "e\<lparr>mt_persistWriteQueue := rest, mt_phase := PersistingEnd k\<rparr>"])
      (use Suc.prems q id in \<open>simp_all add: on_task_def record_written_def Let_def\<close>)
  then show ?case by (rule ends_step) simp_all
qed

lemma settled_ends:
  assumes ok: "man_ok m" and e: "map_get (bm_tasks m) i = Some e" and "\<not> unsettled (mt_phase e)"
  shows "ends E i m"
proof (cases "mt_phase e")
  case LifeEnded
  with man_okD [OF ok e] have "mt_terminal e" by (simp add: entry_ok_def)
  with e show ?thesis by (rule ends_here)
qed (use assms persisting_ends notifying_ends in \<open>auto simp: unsettled_def\<close>)

lemma fire_settles:
  "\<exists>e'. map_get (bm_tasks (fireTerminalEffects e m)) (mt_taskId e) = Some e' \<and> \<not> unsettled (mt_phase e')"
  by (cases "isDetached e"; cases "begin_notification (toInfo e) m")
    (simp_all add: fireTerminalEffects_def Let_def emit_defs unsettled_def end_task_def)

lemma finalize_settles:
  assumes "mt_taskId e = i"
  shows "\<exists>e'. map_get (bm_tasks (finalizeTask now st e m)) i = Some e' \<and> \<not> unsettled (mt_phase e')"
proof -
  define e1 where "e1 = e\<lparr>mt_status := settled_status (bs_status st), mt_endedAt := Some now,
    mt_stopReason := (case bs_stopReason st of Some r \<Rightarrow> Some r
      | None \<Rightarrow> if bs_status st = Set_killed then mt_stopReason e else None)\<rparr>"
  have id: "mt_taskId e1 = i" using assms by (simp add: e1_def)
  have "finalizeTask now st e m = (if mt_outputPersistStarted e1
      then persistLive (e1\<lparr>mt_phase := PersistingEnd (if bm_persistence m then Suc (length (mt_persistWriteQueue e1)) else 0)\<rparr>) m
      else fireTerminalEffects (e1\<lparr>mt_pendingOutput := [], mt_pendingOutputBytes := 0\<rparr>) m)"
    by (simp only: finalizeTask_def Let_def e1_def)
  with fire_settles [of "e1\<lparr>mt_pendingOutput := [], mt_pendingOutputBytes := 0\<rparr>" m] id show ?thesis
    by (simp add: persistLive_queued unsettled_def)
qed

lemma stopped_ends:
  assumes ok: "man_ok m" and e: "map_get (bm_tasks m) i = Some e" and s: "mt_phase e \<noteq> Racing \<or> mt_stop e \<noteq> None"
  shows "ends E i m"
proof -
  have force: "ends E i m" if "man_ok m" "map_get (bm_tasks m) i = Some e" "mt_phase e = ForceStopping oc" for m e oc
  proof -
    from finalize_settles [of e i 0 "outcome_settlement oc" m] man_okD [OF that(1,2)] obtain e' where
      e': "map_get (bm_tasks (finalizeTask 0 (outcome_settlement oc) e m)) i = Some e'" "\<not> unsettled (mt_phase e')" by auto
    have "bg_step E m (Ev_force_stopped 0 i) = finalizeTask 0 (outcome_settlement oc) e m" using that by (simp add: on_task_def)
    with e' settled_ends [OF step_ok [OF that(1)], of E "Ev_force_stopped 0 i" i e'] have "ends E i (bg_step E m (Ev_force_stopped 0 i))"
      by simp
    then show ?thesis by (rule ends_step) simp_all
  qed
  have grace: "ends E i m" if "man_ok m" "map_get (bm_tasks m) i = Some e" "mt_phase e = InGrace oc" for m e oc
  proof -
    have "ends E i (bg_step E m (Ev_grace_over i))"
      by (rule force [OF step_ok [OF that(1)], of _ _ "e\<lparr>mt_phase := ForceStopping oc\<rparr>"])
        (use that man_okD [OF that(1,2)] in \<open>simp_all add: on_task_def\<close>)
    then show ?thesis by (rule ends_step) simp_all
  qed
  show ?thesis
  proof (cases "mt_phase e")
    case Racing
    with s obtain r where r: "mt_stop e = Some r" by auto
    have "ends E i (bg_step E m (Ev_race 0 i (StopRequested r)))"
      by (rule grace [OF step_ok [OF ok], of _ _
            "e\<lparr>mt_timer := None, mt_stopReason := r, mt_aborted := True, mt_phase := InGrace (StopRequested r)\<rparr>"])
        (use Racing r e man_okD [OF ok e] in \<open>simp_all add: on_task_def race_won_def available_def Let_def\<close>)
    then show ?thesis by (rule ends_step) simp_all
  qed (use force [OF ok e] grace [OF ok e] settled_ends [OF ok e] in \<open>simp_all add: unsettled_def\<close>)
qed

section \<open>Tasks of an earlier session\<close>

definition settle_ghost :: "ms \<Rightarrow> BackgroundTaskInfo \<Rightarrow> BackgroundTaskInfo" where
  "settle_ghost now g = (if isBackgroundTaskTerminal (bi_status g) then g else lost_info now g)"

lemma settle_ghost_fields [simp]:
  "bi_status (settle_ghost now g) \<noteq> TS_running" "bi_taskId (settle_ghost now g) = bi_taskId g"
  "bi_suppressed (settle_ghost now g) = bi_suppressed g" "bi_detached (settle_ghost now g) = bi_detached g"
  by (simp_all add: settle_ghost_def lost_info_def)

lemma lost_id: "bi_taskId (lost_info now g) = bi_taskId g"
  by (simp add: lost_info_def)

lemma mark_lost_all:
  assumes "\<forall>i \<in> set is. writes i" and "\<forall>i \<in> set is. \<forall>g. map_get (bm_ghosts m) i = Some g \<longrightarrow> valid_task_id (bi_taskId g)"
    and "distinct is"
  shows "\<exists>infos m1. markLoadedTasksLost now writes is m = (Some infos, m1) \<and>
    (\<forall>i. map_get (bm_ghosts m1) i = (if i \<in> set is then map_option (settle_ghost now) (map_get (bm_ghosts m) i)
                                    else map_get (bm_ghosts m) i))"
  using assms
proof (induction "is" arbitrary: m)
  case (Cons i "is")
  show ?case
  proof (cases "map_get (bm_ghosts m) i")
    case None
    with Cons.IH [of m] Cons.prems show ?thesis by fastforce
  next
    case (Some g)
    show ?thesis
    proof (cases "bi_status g = TS_running")
      case False
      with Some Cons.IH [of m] Cons.prems show ?thesis by (fastforce simp: settle_ghost_def)
    next
      case True
      define m2 where "m2 = (if bm_persistence m then writeTask (lost_info now g) (m\<lparr>bm_ghosts := map_put i (lost_info now g) (bm_ghosts m)\<rparr>)
        else m\<lparr>bm_ghosts := map_put i (lost_info now g) (bm_ghosts m)\<rparr>)"
      have g2: "map_get (bm_ghosts m2) j = (if j = i then Some (lost_info now g) else map_get (bm_ghosts m) j)" for j
        by (simp add: m2_def)
      have v: "writes i" "valid_task_id (bi_taskId g)" using Cons.prems Some by auto
      have "\<forall>i \<in> set is. \<forall>g. map_get (bm_ghosts m2) i = Some g \<longrightarrow> valid_task_id (bi_taskId g)"
        using Cons.prems(2,3) by (simp add: g2)
      with Cons.IH [of m2] Cons.prems(1,3) obtain infos m3 where
        r: "markLoadedTasksLost now writes is m2 = (Some infos, m3)" and
          r2: "\<And>j. map_get (bm_ghosts m3) j = (if j \<in> set is then map_option (settle_ghost now) (map_get (bm_ghosts m2) j)
                                          else map_get (bm_ghosts m2) j)" by auto
      have "markLoadedTasksLost now writes (i # is) m = (Some (lost_info now g # infos), m3)"
        using Some True v r unfolding m2_def by (cases "bm_persistence m") (simp_all add: Let_def lost_id)
      moreover have "map_get (bm_ghosts m3) j = (if j \<in> set (i # is) then map_option (settle_ghost now) (map_get (bm_ghosts m) j)
          else map_get (bm_ghosts m) j)" for j
        using r2 [of j] g2 [of j] Cons.prems(3) Some True by (auto simp: settle_ghost_def)
      ultimately show ?thesis by blast
    qed
  qed
qed simp

lemma restore_keeps_known:
  "k \<in> set (bm_scheduled m) \<union> set (bm_delivered m) \<Longrightarrow>
   k \<in> set (bm_scheduled (restoreBackgroundTaskNotification E True info m)) \<union> set (bm_delivered (restoreBackgroundTaskNotification E True info m))"
  by (auto simp: restoreBackgroundTaskNotification_def Let_def begin_notification_fields split: option.split)

lemma restore_known:
  assumes "bi_detached info \<noteq> Some False" and "\<not> isTerminalNotificationSuppressed (bi_taskId info) m"
  shows "notificationKey (notification_origin info) \<in>
    set (bm_scheduled (restoreBackgroundTaskNotification E True info m)) \<union> set (bm_delivered (restoreBackgroundTaskNotification E True info m))"
  using assms by (auto simp: restoreBackgroundTaskNotification_def begin_notification_def Let_def)

definition restore_all :: "output_env \<Rightarrow> BackgroundTaskInfo list \<Rightarrow> BackgroundManager \<Rightarrow> BackgroundManager" where
  "restore_all E infos m = foldl (\<lambda>m info. if bi_status info = TS_running then m
     else restoreBackgroundTaskNotification E True info m) m infos"

lemma restore_all_Cons [simp]:
  "restore_all E [] m = m"
  "restore_all E (info # infos) m = restore_all E infos (if bi_status info = TS_running then m
     else restoreBackgroundTaskNotification E True info m)"
  by (simp_all add: restore_all_def)

lemma restore_loop_all: "restore_loop E (\<lambda>i. True) infos m = restore_all E infos m"
  by (induction infos arbitrary: m) (auto simp: Let_def)

lemma restore_suppressed [simp]:
  "isTerminalNotificationSuppressed i (restoreBackgroundTaskNotification E True info m) = isTerminalNotificationSuppressed i m"
  by (simp add: isTerminalNotificationSuppressed_def)

lemma restore_all_keeps_known:
  "k \<in> set (bm_scheduled m) \<union> set (bm_delivered m) \<Longrightarrow>
   k \<in> set (bm_scheduled (restore_all E infos m)) \<union> set (bm_delivered (restore_all E infos m))"
proof (induction infos arbitrary: m)
  case (Cons info infos)
  then show ?case using restore_keeps_known [OF Cons.prems, of E info] by (cases "bi_status info = TS_running") auto
qed simp

lemma restored_known:
  "info \<in> set infos \<Longrightarrow> bi_status info \<noteq> TS_running \<Longrightarrow> bi_detached info \<noteq> Some False \<Longrightarrow>
   \<not> isTerminalNotificationSuppressed (bi_taskId info) m \<Longrightarrow>
   notificationKey (notification_origin info) \<in> set (bm_scheduled (restore_all E infos m)) \<union> set (bm_delivered (restore_all E infos m))"
proof (induction infos arbitrary: m)
  case (Cons x xs)
  show ?case
  proof (cases "info = x")
    case True
    with Cons.prems restore_all_keeps_known [OF restore_known [of info m E], of E xs] show ?thesis by simp
  next
    case False
    with Cons.IH [of m] Cons.IH [of "restoreBackgroundTaskNotification E True x m"] Cons.prems show ?thesis by auto
  qed
qed simp


text \<open>With nothing delivered before, what is scheduled while restoring is announced.\<close>

definition told :: "BackgroundManager \<Rightarrow> bool" where
  "told m \<longleftrightarrow> bm_delivered m = [] \<and> (\<forall>k \<in> set (bm_scheduled m). 1 \<le> announcements k m)"

lemma restore_one_told:
  assumes "told m"
  shows "told (restoreBackgroundTaskNotification E True info m)"
proof (cases "begin_notification info m")
  case (Some m1)
  note F = begin_notification_fields [OF Some]
  have "announcements k (restoreBackgroundTaskNotification E True info m) =
      announcements k m + of_bool (notificationKey (notification_origin info) = k)" for k
    using Some announcements_same [OF F(8)] by (auto simp: restoreBackgroundTaskNotification_def Let_def)
  moreover have "bm_scheduled (restoreBackgroundTaskNotification E True info m) = bm_scheduled m1"
    using Some by (simp add: restoreBackgroundTaskNotification_def Let_def)
  ultimately show ?thesis using assms F(9) by (auto simp: told_def)
qed (use assms in \<open>simp add: restoreBackgroundTaskNotification_def\<close>)

lemma restore_all_told: "told m \<Longrightarrow> told (restore_all E infos m)"
  by (induction infos arbitrary: m) (simp_all add: restore_one_told)

lemma restore_all_same:
  "bm_tasks (restore_all E infos m) = bm_tasks m \<and> bm_ghosts (restore_all E infos m) = bm_ghosts m \<and>
   bm_delivered (restore_all E infos m) = bm_delivered m"
  by (induction infos arbitrary: m) simp_all

definition emit_all :: "BackgroundTaskInfo list \<Rightarrow> BackgroundManager \<Rightarrow> BackgroundManager" where
  "emit_all infos m = foldl (\<lambda>m i. emitTaskTerminated i m) m infos"

lemma emit_all_same:
  "bm_tasks (emit_all infos m) = bm_tasks m \<and> bm_ghosts (emit_all infos m) = bm_ghosts m \<and>
   bm_delivered (emit_all infos m) = bm_delivered m \<and> bm_scheduled (emit_all infos m) = bm_scheduled m \<and>
   announcements k (emit_all infos m) = announcements k m"
  unfolding emit_all_def by (induction infos arbitrary: m) (simp_all add: emit_defs)

lemma reconcile_parts:
  assumes "markLoadedTasksLost now writes (map fst (bm_ghosts m)) m = (Some infos, m1)"
  shows "reconcile E now writes (\<lambda>i. True) m = restore_all E (listTasks False None (emit_all infos m1)) (emit_all infos m1)"
  using assms by (simp add: reconcile_def restoreBackgroundTaskNotifications_def restore_loop_all emit_all_def)

text \<open>The ghosts are kept by their own ids.\<close>

definition own_keys :: "(string \<times> BackgroundTaskInfo) list \<Rightarrow> bool" where
  "own_keys gs \<longleftrightarrow> keys_ok gs \<and> (\<forall>i g. map_get gs i = Some g \<longrightarrow> bi_taskId g = i)"

lemma own_keys_put: "own_keys gs \<Longrightarrow> own_keys (map_put (bi_taskId info) info gs)"
  by (simp add: own_keys_def del: map_of_eq_Some_iff)

lemma own_keys_load: "own_keys (bm_ghosts (loadFromDisk (new_manager True mx records logs)))"
proof -
  have "own_keys (foldl (\<lambda>g t. map_put (bi_taskId t) t g) gs infos)" if "own_keys gs" for gs infos
    using that by (induction infos arbitrary: gs) (simp_all add: own_keys_put)
  moreover have "own_keys []" by (simp add: own_keys_def)
  ultimately show ?thesis by (simp add: loadFromDisk_def new_manager_def)
qed

lemma reconciled:
  fixes mx :: "int option" and records logs
  defines "m0 \<equiv> loadFromDisk (new_manager True mx records logs)"
  assumes w: "\<forall>i g. map_get (bm_ghosts m0) i = Some g \<longrightarrow> writes i \<and> valid_task_id i"
    and g: "map_get (bm_ghosts m0) i = Some g"
  shows "map_get (bm_ghosts (reconcile E now writes (\<lambda>i. True) m0)) i = Some (settle_ghost now g)"
    and "bi_detached g \<noteq> Some False \<Longrightarrow> bi_suppressed g \<noteq> Some True \<Longrightarrow>
      1 \<le> announcements (notificationKey (notification_origin (settle_ghost now g))) (reconcile E now writes (\<lambda>i. True) m0)"
proof -
  have ids: "keys_ok (bm_ghosts m0)" "\<And>i g. map_get (bm_ghosts m0) i = Some g \<Longrightarrow> bi_taskId g = i"
    using own_keys_load [of mx records logs] unfolding m0_def own_keys_def by blast+
  have dom: "i \<in> set (map fst (bm_ghosts m0)) \<Longrightarrow> \<exists>g. map_get (bm_ghosts m0) i = Some g" for i
    using weak_map_of_SomeI by fastforce
  have "\<forall>i \<in> set (map fst (bm_ghosts m0)). writes i" using w dom by blast
  moreover have "\<forall>i \<in> set (map fst (bm_ghosts m0)). \<forall>g. map_get (bm_ghosts m0) i = Some g \<longrightarrow> valid_task_id (bi_taskId g)"
    using w ids(2) by metis
  ultimately obtain infos m1 where m1: "markLoadedTasksLost now writes (map fst (bm_ghosts m0)) m0 = (Some infos, m1)"
    "\<And>i. map_get (bm_ghosts m1) i = (if i \<in> set (map fst (bm_ghosts m0)) then map_option (settle_ghost now) (map_get (bm_ghosts m0) i)
        else map_get (bm_ghosts m0) i)"
    using mark_lost_all ids(1) by blast
  have same: "same_live m0 m1" using mark_lost_fields [of m0 now writes "map fst (bm_ghosts m0)"] m1(1) by simp
  have live: "bm_tasks m0 = []" "bm_scheduled m0 = []" "bm_delivered m0 = []" by (simp_all add: m0_def) (simp_all add: new_manager_def)
  define m2 where "m2 = emit_all infos m1"
  have m2: "bm_tasks m2 = []" "bm_scheduled m2 = []" "bm_delivered m2 = []" "bm_ghosts m2 = bm_ghosts m1"
    using emit_all_same [of infos m1] same live by (simp_all add: m2_def same_live_def)
  have r: "reconcile E now writes (\<lambda>i. True) m0 = restore_all E (listTasks False None m2) m2" by (simp add: reconcile_parts [OF m1(1)] m2_def)
  have g1: "map_get (bm_ghosts m2) i = Some (settle_ghost now g)"
    using m1(2) [of i] g m2(4) map_of_SomeD [OF g] by (force simp del: map_of_eq_Some_iff)
  then show "map_get (bm_ghosts (reconcile E now writes (\<lambda>i. True) m0)) i = Some (settle_ghost now g)"
    using restore_all_same [of E "listTasks False None m2" m2] r by simp
  show "1 \<le> announcements (notificationKey (notification_origin (settle_ghost now g))) (reconcile E now writes (\<lambda>i. True) m0)"
    if d: "bi_detached g \<noteq> Some False" and s: "bi_suppressed g \<noteq> Some True"
  proof -
    have "settle_ghost now g \<in> set (listTasks False None m2)"
      using map_of_SomeD [OF g1] d by (force simp: listTasks_def shouldListTask_def)
    moreover have "\<not> isTerminalNotificationSuppressed (bi_taskId (settle_ghost now g)) m2"
      using g1 ids(2) [OF g] s m2(1) by (simp add: isTerminalNotificationSuppressed_def)
    ultimately have "notificationKey (notification_origin (settle_ghost now g)) \<in>
        set (bm_scheduled (reconcile E now writes (\<lambda>i. True) m0)) \<union> set (bm_delivered (reconcile E now writes (\<lambda>i. True) m0))"
      using restored_known [of "settle_ghost now g" "listTasks False None m2" m2 E] d r by simp
    moreover have "told (reconcile E now writes (\<lambda>i. True) m0)"
      unfolding r by (rule restore_all_told) (simp add: told_def m2)
    ultimately show ?thesis by (auto simp: told_def)
  qed
qed


text \<open>A session directory as the manager writes it: every record is in the file of its own, valid, id.\<close>

definition records_ok :: "(string \<times> DiskPersistedTask) list \<Rightarrow> bool" where
  "records_ok records \<longleftrightarrow> keys_ok records \<and>
     (\<forall>(i, t) \<in> set records. valid_task_id i \<and> bi_taskId (normalizePersistedTask t) = i)"

lemma foldl_put_other:
  "i \<notin> bi_taskId ` set infos \<Longrightarrow> map_get (foldl (\<lambda>g t. map_put (bi_taskId t) t g) gs infos) i = map_get gs i"
  by (induction infos arbitrary: gs) auto

lemma foldl_put_own:
  "distinct (map bi_taskId infos) \<Longrightarrow> g \<in> set infos \<Longrightarrow>
   map_get (foldl (\<lambda>g t. map_put (bi_taskId t) t g) gs infos) (bi_taskId g) = Some g"
proof (induction infos arbitrary: gs)
  case (Cons info infos)
  show ?case
  proof (cases "g \<in> set infos")
    case True
    with Cons show ?thesis by simp
  next
    case False
    with Cons.prems have "g = info" "bi_taskId info \<notin> bi_taskId ` set infos" by auto
    then show ?thesis using foldl_put_other [of "bi_taskId info" infos] by simp
  qed
qed simp

lemma loaded_ghosts:
  assumes "records_ok records"
  shows "(i, t) \<in> set records \<Longrightarrow>
      map_get (bm_ghosts (loadFromDisk (new_manager True mx records logs))) i = Some (normalizePersistedTask t)"
    and "map_get (bm_ghosts (loadFromDisk (new_manager True mx records logs))) i = Some g \<Longrightarrow> i \<in> fst ` set records"
proof -
  let ?infos = "map (normalizePersistedTask \<circ> snd) records"
  have "filter (\<lambda>(i, t). valid_task_id i) records = records" using assms by (auto simp: records_ok_def filter_id_conv)
  then have m: "bm_ghosts (loadFromDisk (new_manager True mx records logs)) = foldl (\<lambda>g t. map_put (bi_taskId t) t g) [] ?infos"
    by (simp add: loadFromDisk_def new_manager_def persisted_tasks_def)
  have ids: "map bi_taskId ?infos = map fst records" using assms by (auto simp: records_ok_def)
  show "map_get (bm_ghosts (loadFromDisk (new_manager True mx records logs))) i = Some (normalizePersistedTask t)"
    if "(i, t) \<in> set records"
  proof -
    have "distinct (map bi_taskId ?infos)" unfolding ids using assms by (simp add: records_ok_def)
    moreover have "normalizePersistedTask t \<in> set ?infos" using that by force
    ultimately have "map_get (foldl (\<lambda>g t. map_put (bi_taskId t) t g) [] ?infos) (bi_taskId (normalizePersistedTask t)) =
      Some (normalizePersistedTask t)" by (rule foldl_put_own)
    moreover have "bi_taskId (normalizePersistedTask t) = i" using assms that by (auto simp: records_ok_def)
    ultimately show ?thesis unfolding m by simp
  qed
  show "i \<in> fst ` set records" if g: "map_get (bm_ghosts (loadFromDisk (new_manager True mx records logs))) i = Some g"
  proof (rule ccontr)
    assume "i \<notin> fst ` set records"
    then have "i \<notin> bi_taskId ` set ?infos" using ids by (metis set_map)
    with foldl_put_other [OF this, of "[]"] g m show False by simp
  qed
qed

end
