(* ===== verification/Background_Properties.thy ===== *)
theory Background_Properties
  imports Background_Ends
begin

text \<open>
  What the background manager promises: of one task, along every schedule of the events around it, and
  of the tasks an earlier session left behind.
\<close>

section \<open>A session to apply the properties to\<close>

definition demo_env :: output_env where
  "demo_env = \<lparr>oe_path = (\<lambda>i. ''tasks/'' @ i), oe_decode = map char_of\<rparr>"

definition demo_task :: BackgroundTask where
  "demo_task = \<lparr>bt_idPrefix = ''bash'', bt_kind = ''process'', bt_description = ''build'', bt_timeoutMs = None,
     bt_details = ProcessDetails ''make'' 42 None, bt_pause = False, bt_addGuidance = False, bt_resume = False\<rparr>"

definition demo_id :: string where "demo_id = ''bash-00000000''"

definition demo_options :: RegisterBackgroundTaskOptions where
  "demo_options = \<lparr>bo_detached = Some True, bo_timeoutMs = None, bo_detachTimeoutMs = None, bo_signal = False\<rparr>"

abbreviation demo_register :: bg_event where
  "demo_register \<equiv> Ev_register 0 demo_id demo_task demo_options False"

definition demo_done :: BackgroundTaskSettlement where
  "demo_done = \<lparr>bs_status = Set_completed, bs_stopReason = None\<rparr>"

lemmas demo_defs = demo_task_def demo_id_def demo_options_def demo_done_def new_manager_def on_task_def Let_def
  registerTask_def new_task_def assertCanRegister_def isDetached_def persistLive_def emit_defs effect_def put_task_def armed_def

section \<open>The end of a task\<close>

text \<open>
  C21: The end of a task is final. Once a live task is reported with a terminal status, every later
  report of it is the same but for two fields, the suppression of its notification and the exit code that
  a process task notes itself: no schedule of events (another stop, a late result of the worker, a
  timer, a detach, disk writes, a reconcile) changes its status, its times, its reason, its command or
  anything else of it, or makes it disappear. The id is not registered again.
\<close>

theorem ended_task_never_changes:
  assumes "m = bg_run E (new_manager p mx records logs) pre" and "map_get (bm_tasks m) i \<noteq> None"
    and "getTask i m = Some info" and "isBackgroundTaskTerminal (bi_status info)"
    and "\<forall>ev \<in> set post. \<not> registers i ev"
  shows "\<exists>b code. getTask i (bg_run E m post) =
    Some (info\<lparr>bi_suppressed := b, bi_details := set_exit_code code (bi_details info)\<rparr>)"
proof -
  from assms(2,3) obtain e where e: "map_get (bm_tasks m) i = Some e" "info = toInfo e" by (auto simp: getTask_def)
  have "man_ok m" by (simp add: assms(1) run_ok)
  moreover have "mt_status e \<noteq> TS_running" using assms(4) e(2) by (simp add: toInfo_def)
  ultimately obtain e' where e': "map_get (bm_tasks (bg_run E m post)) i = Some e'"
    "settled_part (toInfo e') = settled_part (toInfo e)"
    using run_final [OF _ e(1) _ assms(5), of E] by blast
  from settled_partD [OF e'(2)] e'(1) e(2) show ?thesis by (auto simp: getTask_def)
qed

lemma ended_task_never_changes_witness:
  "\<exists>b code. getTask demo_id (bg_run demo_env (bg_run demo_env (new_manager False None [] [])
      [demo_register, Ev_settle demo_id demo_done, Ev_race 7 demo_id (Worker demo_done)])
      [Ev_stop demo_id (Some ''late''), Ev_exited demo_id (Some 0), Ev_end_persisted demo_id]) =
    Some (\<lparr>bi_taskId = demo_id, bi_kind = ''process'', bi_description = ''build'', bi_status = TS_completed, bi_detached = Some True,
       bi_startedAt = 0, bi_endedAt = Some 7, bi_stopReason = None, bi_suppressed = None, bi_timeoutMs = None,
       bi_details = ProcessDetails ''make'' 42 None\<rparr>\<lparr>bi_suppressed := b,
         bi_details := set_exit_code code (ProcessDetails ''make'' 42 None)\<rparr>)"
  using ended_task_never_changes [OF refl, where p = False and mx = None and records = "[]" and logs = "[]" and E = demo_env
      and pre = "[demo_register, Ev_settle demo_id demo_done, Ev_race 7 demo_id (Worker demo_done)]" and i = demo_id
      and post = "[Ev_stop demo_id (Some ''late''), Ev_exited demo_id (Some 0), Ev_end_persisted demo_id]"]
  by (simp add: demo_defs settleWorker_def race_won_def available_def finalizeTask_def getTask_def toInfo_def)

text \<open>
  C22: The end of a task is announced to the model at most once. Along every schedule, from every content
  of the session directory, for every task and status: the notifications of that task and status given
  to the turn (steered) or appended to the context never exceed one, though a live end, a reload of the
  session and failures between scheduling and sending may all try.
\<close>

theorem task_announced_at_most_once:
  "announcements k (bg_run E (new_manager p mx records logs) evs) \<le> 1"
proof -
  have "notices_ok (bg_run E (new_manager p mx records logs) evs)" by (simp add: run_notices)
  from noticesD [OF this, of k] show ?thesis by (auto simp: of_bool_def split: if_splits)
qed

text \<open>
  C23: Along every schedule, the running tasks that were started in the background never exceed the
  configured limit. A task that is detached later, or that was refused, does not add to them.
\<close>

theorem running_tasks_stay_in_limit:
  "int (activeBackgroundAdmissionCount (bg_run E (new_manager p (Some mx) records logs) evs)) \<le> max 0 mx"
proof -
  have "within_limit mx (new_manager p (Some mx) records logs)"
    by (simp add: within_limit_def new_manager_def admission_count man_ok_def)
  then have "within_limit mx (bg_run E (new_manager p (Some mx) records logs) evs)"
    unfolding bg_run_def by (rule limited.run_inv)
  then show ?thesis by (simp add: within_limit_def)
qed

text \<open>
  A task that is stopped can always reach its end, whatever happened before and whatever its worker
  does: from every reachable state, after a stop of a live task, timers and disk writes (successful or
  not) of that task alone, without its worker ever settling, lead to a state where its end is reached,
  so that the call of stop returns.
\<close>

theorem stopped_task_can_end:
  assumes "map_get (bm_tasks (bg_run E (new_manager p mx records logs) pre)) i \<noteq> None"
  shows "ends E i (bg_run E (new_manager p mx records logs) (pre @ [Ev_stop i reason]))"
proof -
  define m where "m = bg_run E (new_manager p mx records logs) pre"
  have ok: "man_ok m" "man_ok (stop i reason m)" using step_ok [of m E "Ev_stop i reason"] by (simp_all add: m_def run_ok)
  from assms obtain e where e: "map_get (bm_tasks m) i = Some e" by (auto simp: m_def)
  have eo: "entry_ok e" "mt_taskId e = i" using man_okD [OF ok(1) e] by auto
  have "ends E i (stop i reason m)"
  proof (cases "mt_status e = TS_running")
    case True
    then obtain e' where "map_get (bm_tasks (stop i reason m)) i = Some e'" "mt_stop e' \<noteq> None"
      using e eo(2) by (auto simp: stop_def Let_def split: option.splits)
    then show ?thesis using stopped_ends [OF ok(2)] by blast
  next
    case False
    then have "stop i reason m = m" using e by (simp add: stop_def Let_def)
    moreover have "mt_phase e \<noteq> Racing" using eo(1) False by (auto simp: entry_ok_def unsettled_def)
    ultimately show ?thesis using stopped_ends [OF ok(1) e] by simp
  qed
  then show ?thesis by (simp add: m_def)
qed

lemma stopped_task_can_end_witness:
  "ends demo_env demo_id (bg_run demo_env (new_manager True None [] []) ([demo_register] @ [Ev_stop demo_id None]))"
  by (rule stopped_task_can_end) (simp add: demo_defs)

section \<open>Its output\<close>

text \<open>
  C20: The log of a task in the background is what it wrote. Let the manager have a session directory, a task
  be registered under a fresh valid id that has no log yet, be it started in the background or detached
  later, and no write of its log fail (a failing one is dropped by the code). Then its \<open>output.log\<close>
  followed by the chunks still queued for it is the concatenation of every chunk it wrote since it was
  registered, in order: what was held back while it ran in the foreground comes first and nothing is
  lost, doubled or reordered by the detach, by spilling, or by the end of the task.
\<close>

theorem background_log_is_output:
  assumes run: "m = bg_run E (new_manager True mx records logs) (pre @ Ev_register now i task options ab # post)"
    and fresh: "\<forall>ev \<in> set (pre @ post). \<not> registers i ev" and log: "map_get logs i = None" and vi: "valid_task_id i"
    and writes: "Ev_output_written i False \<notin> set post"
    and e: "map_get (bm_tasks m) i = Some e" and det: "isDetached e"
  shows "log_of i m @ concat (mt_outputWriteQueue e) = concat (map (written i) post)"
proof -
  define m0 where "m0 = bg_run E (new_manager True mx records logs) pre"
  define m1 where "m1 = bg_step E m0 (Ev_register now i task options ab)"
  have ok: "man_ok m0" "man_ok m1" by (simp_all add: m0_def m1_def run_ok register_ok)
  have p: "bm_persistence m1" by (simp add: m0_def m1_def run_ok) (simp add: new_manager_def)
  have m: "m = bg_run E m1 post" by (simp add: run m0_def m1_def)
  have m0: "map_get (bm_tasks m0) i = None" "log_of i m0 = []"
    using absent_run [of "new_manager True mx records logs" i pre E] fresh log
    by (simp_all add: m0_def) (simp_all add: new_manager_def log_of_def)
  have "map_get (bm_tasks m1) i \<noteq> None" using absent_run [OF ok(2), of i post E] fresh e m by auto
  then have "kept i [] m1" using register_kept [OF _ m0, of E now task options ab] by (simp add: m1_def)
  from run_kept [OF ok(2) p vi this, of post E] fresh writes m
  have "kept i (concat (map (written i) post)) m" by fastforce
  with e have *: "output_ok e" "dropped e \<or> log_of i m @ unlogged e = concat (map (written i) post)" by (auto simp: kept_def)
  have "man_ok m" using run_ok [OF ok(2)] m by simp
  with e det have "mt_outputPersistStarted e" by (auto simp: entry_ok_def isDetached_def dest: man_okD)
  with * det show ?thesis by (auto simp: output_ok_def unlogged_def dropped_def isDetached_def)
qed


lemma background_log_is_output_witness:
  "log_of demo_id (bg_run demo_env (new_manager True None [] []) ([] @ demo_register #
      [Ev_output demo_id ''a'', Ev_output_written demo_id True, Ev_output demo_id ''b''])) @ concat [''b''] =
    concat (map (written demo_id) [Ev_output demo_id ''a'', Ev_output_written demo_id True, Ev_output demo_id ''b''])"
proof -
  define m where "m = bg_run demo_env (new_manager True None [] []) ([] @ demo_register #
      [Ev_output demo_id ''a'', Ev_output_written demo_id True, Ev_output demo_id ''b''])"
  have vi: "valid_task_id demo_id" by code_simp
  then obtain e where e: "map_get (bm_tasks m) demo_id = Some e" "isDetached e" "mt_outputWriteQueue e = [''b'']"
    by (simp add: m_def demo_defs appendOutput_def appendTaskOutput_def output_written_def write_output_def)
  have "log_of demo_id m @ concat (mt_outputWriteQueue e) =
      concat (map (written demo_id) [Ev_output demo_id ''a'', Ev_output_written demo_id True, Ev_output demo_id ''b''])"
    by (rule background_log_is_output [OF m_def _ _ vi _ e(1,2)]) simp_all
  with e(3) show ?thesis by (simp add: m_def)
qed

section \<open>Tasks of an earlier session\<close>

text \<open>
  A resumed session accounts for every task an earlier one left behind. When a new manager, which has
  delivered no notification yet, loads the records of the session directory, in the old format or the
  current, and reconciles them, and no record and no snapshot fails, a task that was still running is lost, with an end time, every other keeps its end; and each of them that was not in the
  foreground and not suppressed is announced to the model exactly once.
\<close>

theorem lost_tasks_are_announced:
  assumes "records_ok records" and "(i, t) \<in> set records" and "\<forall>(j, u) \<in> set records. writes j"
    and "m = reconcile E now writes (\<lambda>i. True) (loadFromDisk (new_manager True mx records logs))" and "g = normalizePersistedTask t"
  shows "getTask i m = Some (settle_ghost now g) \<and>
    bi_status (settle_ghost now g) = (if bi_status g = TS_running then TS_lost else bi_status g) \<and>
    (bi_detached g \<noteq> Some False \<and> bi_suppressed g \<noteq> Some True \<longrightarrow>
       announcements (notificationKey (notification_origin (settle_ghost now g))) m = 1)"
proof -
  define m0 where "m0 = loadFromDisk (new_manager True mx records logs)"
  have g: "map_get (bm_ghosts m0) i = Some g" using loaded_ghosts(1) [OF assms(1,2)] assms(5) by (simp add: m0_def)
  have "\<forall>i g. map_get (bm_ghosts m0) i = Some g \<longrightarrow> writes i \<and> valid_task_id i"
  proof (intro allI impI)
    fix j h assume "map_get (bm_ghosts m0) j = Some h"
    then have "j \<in> fst ` set records" unfolding m0_def by (rule loaded_ghosts(2) [OF assms(1)])
    then obtain u where "(j, u) \<in> set records" by auto
    with assms(1,3) show "writes j \<and> valid_task_id j" unfolding records_ok_def by blast
  qed
  note R = reconciled [where mx = mx and records = records and logs = logs and writes = writes and i = i and g = g and now = now and E = E,
    folded m0_def, OF this g, folded m0_def]
  have m: "m = reconcile E now writes (\<lambda>i. True) m0" by (simp add: assms(4) m0_def)
  have "bm_tasks m = []" by (simp add: m m0_def) (simp add: new_manager_def)
  then have "getTask i m = Some (settle_ghost now g)" using R(1) by (simp add: getTask_def m)
  moreover have "announcements k m \<le> 1" for k
    using noticesD [OF reconcile_notices [OF silent_notices [OF new_manager_notices, of True mx records logs m0]], of k E now writes "\<lambda>i. True"]
    by (auto simp: m m0_def silent_same notifying_now_def of_bool_def split: if_splits)
  moreover have "bi_status (settle_ghost now g) = (if bi_status g = TS_running then TS_lost else bi_status g)"
    by (simp add: settle_ghost_def lost_info_def)
  ultimately show ?thesis using R(2) by (simp add: order.antisym m)
qed

definition demo_record :: BackgroundTaskInfo where
  "demo_record = \<lparr>bi_taskId = demo_id, bi_kind = ''process'', bi_description = ''build'', bi_status = TS_running, bi_detached = Some True,
     bi_startedAt = 0, bi_endedAt = None, bi_stopReason = None, bi_suppressed = None, bi_timeoutMs = None,
     bi_details = ProcessDetails ''make'' 42 None\<rparr>"

lemma lost_tasks_are_announced_witness:
  "getTask demo_id (reconcile demo_env 9 (\<lambda>i. True) (\<lambda>i. True) (loadFromDisk (new_manager True None [(demo_id, CurrentRecord demo_record)] []))) =
     Some (demo_record\<lparr>bi_status := TS_lost, bi_endedAt := Some 9\<rparr>)"
proof -
  have "valid_task_id demo_id" by code_simp
  then have "records_ok [(demo_id, CurrentRecord demo_record)]"
    by (simp add: records_ok_def normalizePersistedTask_def demo_record_def)
  from lost_tasks_are_announced [OF this, of demo_id "CurrentRecord demo_record" "\<lambda>i. True", OF _ _ refl refl, of demo_env 9 None "[]"]
  show ?thesis by (simp add: settle_ghost_def lost_info_def normalizePersistedTask_def demo_record_def)
qed

end
