(* ===== verification/Js_Text.thy ===== *)
theory Js_Text
  imports Nori_Prelude Messages
begin

text \<open>
  The searches of JavaScript strings that the turn driver edits prompts with: \<open>indexOf\<close>,
  \<open>lastIndexOf\<close>, \<open>includes\<close> and \<open>trimEnd\<close>, and where they find a block that was
  appended to a text.
\<close>

definition eol :: string where "eol = [CHR 0x0A]"

definition js_trimEnd :: "string \<Rightarrow> string" where
  "js_trimEnd s = rev (dropWhile is_js_space (rev s))"

fun find_at :: "string \<Rightarrow> string \<Rightarrow> nat option" where
  "find_at p [] = (if p = [] then Some 0 else None)"
| "find_at p (c # s) = (if prefix p (c # s) then Some 0 else map_option Suc (find_at p s))"

fun find_last :: "string \<Rightarrow> string \<Rightarrow> nat option" where
  "find_last p [] = (if p = [] then Some 0 else None)"
| "find_last p (c # s) =
     (case find_last p s of
        Some i \<Rightarrow> Some (Suc i)
      | None \<Rightarrow> if prefix p (c # s) then Some 0 else None)"

definition js_includes :: "string \<Rightarrow> string \<Rightarrow> bool" where
  "js_includes p s \<longleftrightarrow> find_at p s \<noteq> None"

section \<open>Searching\<close>

lemma find_at_None: "find_at p s = None \<longleftrightarrow> \<not> sublist p s"
  by (induction s) (auto simp: sublist_Cons_right)

lemma js_includes_sublist: "js_includes p s \<longleftrightarrow> sublist p s"
  by (simp add: js_includes_def find_at_None)

lemma find_at_Some:
  "find_at p s = Some i \<longleftrightarrow> i \<le> length s \<and> prefix p (drop i s) \<and> (\<forall>j < i. \<not> prefix p (drop j s))"
proof (induction s arbitrary: i)
  case Nil
  then show ?case by auto
next
  case (Cons c s)
  show ?case
  proof (cases i)
    case 0
    then show ?thesis by auto
  next
    case (Suc k)
    have "(\<forall>j < Suc k. \<not> prefix p (drop j (c # s))) \<longleftrightarrow>
      \<not> prefix p (c # s) \<and> (\<forall>j < k. \<not> prefix p (drop j s))"
      by (simp add: All_less_Suc2)
    then show ?thesis using Cons.IH [of k] Suc by auto
  qed
qed

lemma find_last_short: "length s < length p \<Longrightarrow> find_last p s = None"
proof (induction s)
  case (Cons c s)
  then have "\<not> prefix p (c # s)" using prefix_length_le by fastforce
  then show ?case using Cons by simp
qed auto

lemma find_last_self: "p \<noteq> [] \<Longrightarrow> find_last p (xs @ p) = Some (length xs)"
proof (induction xs)
  case Nil
  then show ?case using find_last_short [of "tl p" p] by (cases p) auto
qed auto

lemma sublist_trimEnd: "sublist (js_trimEnd s) s"
proof -
  have "suffix (dropWhile is_js_space (rev s)) (rev s)" by (rule suffix_dropWhile)
  then have "prefix (js_trimEnd s) s" by (simp add: js_trimEnd_def suffix_to_prefix)
  then show ?thesis by (rule prefix_imp_sublist)
qed

lemma js_trimEnd_eol [simp]: "js_trimEnd (s @ eol) = js_trimEnd s"
  by (simp add: js_trimEnd_def eol_def is_js_space_def)

lemma js_trimEnd_idem [simp]: "js_trimEnd (js_trimEnd s) = js_trimEnd s"
  by (simp add: js_trimEnd_def)

section \<open>A block appended after an empty line\<close>

text \<open>
  A marker that does not start or end with a line break and has no empty line in it: when the
  base does not contain it, the first occurrence in the base followed by an empty line and a
  block is the start of the block, never an occurrence that crosses the empty line.
\<close>

definition plain_marker :: "string \<Rightarrow> bool" where
  "plain_marker m \<longleftrightarrow> m \<noteq> [] \<and> hd m \<noteq> CHR 0x0A \<and> List.last m \<noteq> CHR 0x0A \<and>
     list_all (\<lambda>k. \<not> (m ! k = CHR 0x0A \<and> m ! Suc k = CHR 0x0A)) [0 ..< length m - 1]"

lemma crossing_marker:
  assumes m: "plain_marker m" and base: "\<not> sublist m base" and j: "j < length base + 2"
  shows "\<not> prefix m (drop j (base @ eol @ eol @ w))"
proof
  let ?t = "base @ eol @ eol @ w"
  assume "prefix m (drop j ?t)"
  then obtain r where r: "drop j ?t = m @ r" by (auto simp: prefix_def)
  have at: "m ! k = ?t ! (j + k)" if "k < length m" for k
  proof -
    have "m ! k = drop j ?t ! k" using that r by (simp add: nth_append)
    moreover have "j \<le> length ?t" using j by (simp add: eol_def)
    ultimately show ?thesis by (metis nth_drop)
  qed
  have brk: "?t ! length base = CHR 0x0A" "?t ! Suc (length base) = CHR 0x0A"
    by (auto simp: eol_def nth_append)
  from m have m0: "0 < length m" "m ! 0 \<noteq> CHR 0x0A" by (auto simp: plain_marker_def hd_conv_nth)
  have "j \<noteq> length base" "j \<noteq> Suc (length base)" using at [OF m0(1)] brk m0(2) by auto
  then have j: "j < length base" using j by simp
  show False
  proof (cases "j + length m \<le> length base")
    case True
    have "m = take (length m) (drop j base)"
      using True arg_cong [OF r, of "take (length m)"] by simp
    then have "prefix m (drop j base)" by (metis take_is_prefix)
    then have "sublist m base" using prefix_imp_sublist sublist_order.order_trans
      by (metis sublist_drop)
    then show False using base by simp
  next
    case False
    define k where "k = length base - j"
    have k: "k < length m" "j + k = length base" using False j by (auto simp: k_def)
    have mk: "m ! k = CHR 0x0A" using at [OF k(1)] k(2) brk by simp
    show False
    proof (cases "Suc k = length m")
      case True
      then have "length m - 1 = k" by simp
      then have "List.last m = m ! k" using m0(1) by (simp add: last_conv_nth)
      then show False using m mk by (simp add: plain_marker_def)
    next
      case False
      then have "Suc k < length m" using k by simp
      moreover from this have "m ! Suc k = CHR 0x0A" using at [of "Suc k"] k(2) brk by simp
      ultimately show False using m mk by (auto simp: plain_marker_def list_all_iff)
    qed
  qed
qed

lemma find_block:
  assumes "plain_marker m" "\<not> sublist m base"
  shows "find_at m (base @ eol @ eol @ m @ w) = Some (length base + 2)"
  unfolding find_at_Some
proof (intro conjI allI impI)
  show "prefix m (drop (length base + 2) (base @ eol @ eol @ m @ w))" by (simp add: eol_def)
qed (use crossing_marker [OF assms, of _ "m @ w"] in \<open>auto simp: eol_def\<close>)

end
