(* ===== verification/Rule_Engine.thy ===== *)
theory Rule_Engine
  imports Js_Text
begin

text \<open>
  The rule engine (\<open>agent/turn/rule-engine.ts\<close>) and the two blocks that the turn driver keeps in
  the system prompt (\<open>agent/turn/index.ts\<close>): the block of the activated rules, replaced before
  every step, and the reminder of the notes that are missing when a phase ends.

  The lemmas: activation keeps the definition order with the enforced rules first, and injecting
  is a replacement. Whatever rules were injected before, the prompt is the base prompt followed by
  the block of the rules active now.
\<close>

section \<open>Rules and their activation\<close>

datatype ConditionType = Always | On_phase | On_tool | On_event
datatype Stage = St_enter | St_exit | St_before | St_after

record RuleCondition =
  rc_type :: ConditionType
  rc_phase :: "string option"
  rc_stage :: "Stage option"
  rc_tool :: "string option"
  rc_event :: "string option"

record RuleConfig =
  ru_name :: string
  ru_description :: string
  ru_condition :: RuleCondition
  ru_prompt :: string
  ru_enforced :: bool
  ru_editable :: bool

record RuleContext =
  rx_currentPhase :: "string option"
  rx_phaseStage :: "Stage option"
  rx_currentTool :: "string option"
  rx_toolStage :: "Stage option"
  rx_event :: "string option"

definition checkCondition :: "RuleCondition \<Rightarrow> RuleContext \<Rightarrow> bool" where
  "checkCondition c x =
     (case rc_type c of
        Always \<Rightarrow> True
      | On_phase \<Rightarrow>
          if rx_currentPhase x \<noteq> rc_phase c then False
          else if rc_stage c \<noteq> None \<and> rx_phaseStage x \<noteq> rc_stage c then False
          else True
      | On_tool \<Rightarrow>
          if rx_currentTool x \<noteq> rc_tool c then False
          else if rc_stage c \<noteq> None \<and> rx_toolStage x \<noteq> rc_stage c then False
          else True
      | On_event \<Rightarrow> rx_event x = rc_event c)"

text \<open>\<open>Array.prototype.sort\<close> is stable, and so is \<^const>\<open>sort_key\<close>.\<close>

definition getActivatedRules :: "RuleConfig list \<Rightarrow> RuleContext \<Rightarrow> RuleConfig list" where
  "getActivatedRules rules x =
     (let matched = filter (\<lambda>r. checkCondition (ru_condition r) x) rules
      in sort_key (\<lambda>r. if ru_enforced r then 0 else 1 :: nat) matched)"

definition enforced_line :: "RuleConfig \<Rightarrow> string" where
  "enforced_line r = ''- **'' @ ru_name r @ ''** (enforced): '' @ ru_prompt r
     @ (if ru_editable r then [] else '' [not user-editable]'')"

definition advisory_line :: "RuleConfig \<Rightarrow> string" where
  "advisory_line r = ''- **'' @ ru_name r @ ''** (advisory): '' @ ru_prompt r"

definition getRulePrompt :: "RuleConfig list \<Rightarrow> string" where
  "getRulePrompt rules =
     (if length rules = 0 then []
      else
        let enforcedRules = filter ru_enforced rules;
            advisoryRules = filter (\<lambda>r. \<not> ru_enforced r) rules;
            b1 = (if length enforcedRules > 0
                  then [''<system>'' @ eol
                        @ ''The following **mandatory rules** are active. You MUST follow them:'' @ eol
                        @ join_with eol (map enforced_line enforcedRules) @ eol @ ''</system>'']
                  else []);
            b2 = (if length advisoryRules > 0
                  then [''<system>'' @ eol
                        @ ''The following **advisory rules** are active. Follow them when applicable:'' @ eol
                        @ join_with eol (map advisory_line advisoryRules) @ eol @ ''</system>'']
                  else [])
        in join_with (eol @ eol) (b1 @ b2))"

section \<open>The rules block of the system prompt\<close>

definition RULES_START :: string where "RULES_START = ''<system>'' @ eol @ ''The following **''"
definition RULES_END :: string where "RULES_END = ''</system>''"

definition removeNoriRulesBlock :: "string \<Rightarrow> string" where
  "removeNoriRulesBlock prompt =
     (case find_at RULES_START prompt of
        None \<Rightarrow> prompt
      | Some idx \<Rightarrow>
          (case find_last RULES_END prompt of
             None \<Rightarrow> prompt
           | Some endIdx \<Rightarrow>
               if endIdx \<le> idx then prompt
               else js_trimEnd (take idx prompt @ drop (endIdx + length RULES_END) prompt)))"

text \<open>The rules of one step: those of the current phase, then, when the phase changed since the
  step before, the exit rules of the old phase under names not taken yet.\<close>

fun add_unseen :: "string list \<Rightarrow> RuleConfig list \<Rightarrow> RuleConfig list \<Rightarrow> RuleConfig list" where
  "add_unseen seen acc [] = acc"
| "add_unseen seen acc (r # rs) =
     (if ru_name r \<in> set seen then add_unseen seen acc rs
      else add_unseen (ru_name r # seen) (acc @ [r]) rs)"

definition step_rules ::
    "RuleConfig list \<Rightarrow> bool \<Rightarrow> string option \<Rightarrow> string option \<Rightarrow> RuleConfig list" where
  "step_rules rules workflow previousPhase lastPhase =
     (let currentPhase = (case lastPhase of Some p \<Rightarrow> Some p
                          | None \<Rightarrow> if \<not> workflow then None else Some ''implement'');
          activated = getActivatedRules rules
            \<lparr>rx_currentPhase = currentPhase,
             rx_phaseStage = (if currentPhase = None then None else Some St_enter),
             rx_currentTool = None, rx_toolStage = None, rx_event = None\<rparr>
      in if previousPhase \<noteq> None \<and> lastPhase \<noteq> None \<and> previousPhase \<noteq> lastPhase
         then add_unseen (map ru_name activated) activated
                (getActivatedRules rules
                   \<lparr>rx_currentPhase = previousPhase, rx_phaseStage = Some St_exit,
                    rx_currentTool = None, rx_toolStage = None, rx_event = None\<rparr>)
         else activated)"

definition inject_rules :: "RuleConfig list \<Rightarrow> string \<Rightarrow> string" where
  "inject_rules activated currentPrompt =
     (let rulePrompt = getRulePrompt activated;
          cleaned = removeNoriRulesBlock currentPrompt
      in if rulePrompt \<noteq> [] then cleaned @ eol @ eol @ rulePrompt
         else if cleaned \<noteq> currentPrompt then cleaned else currentPrompt)"

section \<open>The reminder of missing notes\<close>

definition NOTE_START :: string where
  "NOTE_START = ''<system-reminder>'' @ eol @ ''## Note Requirement Not Met''"
definition NOTE_END :: string where "NOTE_END = ''</system-reminder>''"

definition note_block :: "string \<Rightarrow> string" where
  "note_block hint = ''<system-reminder>'' @ eol @ ''## Note Requirement Not Met'' @ eol @ eol @ hint @ eol
     @ ''</system-reminder>''"

definition injectNoriNoteReminder :: "string \<Rightarrow> string \<Rightarrow> string" where
  "injectNoriNoteReminder hint currentPrompt =
     (let cleaned =
        (case find_at NOTE_START currentPrompt of
           None \<Rightarrow> currentPrompt
         | Some idx \<Rightarrow>
             (case find_at NOTE_END (drop idx currentPrompt) of
                None \<Rightarrow> js_trimEnd (take idx currentPrompt)
              | Some k \<Rightarrow> js_trimEnd (take idx currentPrompt
                            @ drop (idx + k + length NOTE_END) currentPrompt)))
      in cleaned @ eol @ eol @ note_block hint)"

section \<open>Activation\<close>

lemma sort_key_two:
  "sort_key (\<lambda>r. if P r then 0 else 1 :: nat) xs = filter P xs @ filter (\<lambda>r. \<not> P r) xs"
proof (induction xs)
  case (Cons x xs)
  have front: "insort_key (\<lambda>r. if P r then 0 else 1 :: nat) x (ys @ zs) = x # ys @ zs"
    if "P x" for ys zs using that by (cases "ys @ zs") auto
  have behind: "insort_key (\<lambda>r. if P r then 0 else 1 :: nat) x (ys @ zs) = ys @ x # zs"
    if "\<not> P x" "\<forall>y \<in> set ys. P y" "\<forall>z \<in> set zs. \<not> P z" for ys zs
    using that by (induction ys) (cases zs, auto)
  show ?case using Cons front behind by auto
qed simp

lemma activated_rules_eq:
  "getActivatedRules rules x =
     filter (\<lambda>r. checkCondition (ru_condition r) x \<and> ru_enforced r) rules
     @ filter (\<lambda>r. checkCondition (ru_condition r) x \<and> \<not> ru_enforced r) rules"
  by (simp add: getActivatedRules_def sort_key_two conj_commute)

lemma add_unseen_names:
  "set (map ru_name acc) \<subseteq> set seen \<Longrightarrow>
   \<exists>new. add_unseen seen acc rs = acc @ new \<and> set new \<subseteq> set rs \<and> distinct (map ru_name new)
     \<and> set (map ru_name new) \<inter> set seen = {}
     \<and> (\<forall>r \<in> set rs. ru_name r \<in> set seen \<union> ru_name ` set new)"
proof (induction rs arbitrary: seen acc)
  case Nil
  then show ?case by auto
next
  case (Cons r rs)
  show ?case
  proof (cases "ru_name r \<in> set seen")
    case True
    then show ?thesis using Cons.IH [OF Cons.prems] by fastforce
  next
    case False
    have "set (map ru_name (acc @ [r])) \<subseteq> set (ru_name r # seen)" using Cons.prems by auto
    from Cons.IH [OF this] obtain new where n:
      "add_unseen (ru_name r # seen) (acc @ [r]) rs = (acc @ [r]) @ new" "set new \<subseteq> set rs"
      "distinct (map ru_name new)" "set (map ru_name new) \<inter> set (ru_name r # seen) = {}"
      "\<forall>q \<in> set rs. ru_name q \<in> set (ru_name r # seen) \<union> ru_name ` set new" by blast
    show ?thesis
      by (rule exI [of _ "r # new"]) (use n False in auto)
  qed
qed

section \<open>Injecting is replacing\<close>

lemma plain_rules_start: "plain_marker RULES_START"
  by code_simp

lemma plain_note_start: "plain_marker NOTE_START"
  by code_simp

lemma rules_prompt_shape:
  assumes "rs \<noteq> []"
  shows "\<exists>mid. getRulePrompt rs = RULES_START @ mid @ RULES_END"
proof -
  let ?e = "filter ru_enforced rs" and ?a = "filter (\<lambda>r. \<not> ru_enforced r) rs"
  have some: "?e \<noteq> [] \<or> ?a \<noteq> []" using assms by (cases rs) auto
  define el where "el = join_with eol (map enforced_line ?e)"
  define al where "al = join_with eol (map advisory_line ?a)"
  define eh where "eh = ''mandatory rules** are active. You MUST follow them:'' @ eol"
  define ah where "ah = ''advisory rules** are active. Follow them when applicable:'' @ eol"
  have b: "''<system>'' @ eol @ ''The following **mandatory rules** are active. You MUST follow them:'' @ eol
      @ el @ eol @ ''</system>'' = RULES_START @ (eh @ el @ eol) @ RULES_END"
    "''<system>'' @ eol @ ''The following **advisory rules** are active. Follow them when applicable:'' @ eol
      @ al @ eol @ ''</system>'' = RULES_START @ (ah @ al @ eol) @ RULES_END"
    by (simp_all add: RULES_START_def RULES_END_def eh_def ah_def eol_def)
  consider (both) "?e \<noteq> []" "?a \<noteq> []" | (enf) "?e \<noteq> []" "?a = []" | (adv) "?e = []" "?a \<noteq> []"
    using some by blast
  then show ?thesis
  proof cases
    case both
    have "getRulePrompt rs = RULES_START @ ((eh @ el @ eol) @ RULES_END @ eol @ eol @ RULES_START @ (ah @ al @ eol)) @ RULES_END"
      unfolding getRulePrompt_def Let_def using both assms b
      by (simp del: append_Cons append_Nil flip: el_def al_def)
        (simp only: append.simps join_with.simps append_assoc)
    then show ?thesis by blast
  next
    case enf
    have "getRulePrompt rs = RULES_START @ (eh @ el @ eol) @ RULES_END"
      unfolding getRulePrompt_def Let_def using enf assms b
      by (simp del: append_Cons append_Nil flip: el_def al_def)
    then show ?thesis by blast
  next
    case adv
    have "getRulePrompt rs = RULES_START @ (ah @ al @ eol) @ RULES_END"
      unfolding getRulePrompt_def Let_def using adv assms b
      by (simp del: append_Cons append_Nil flip: el_def al_def)
        (simp only: append.simps join_with.simps append_assoc)
    then show ?thesis by blast
  qed
qed

lemma remove_no_block: "\<not> sublist RULES_START p \<Longrightarrow> removeNoriRulesBlock p = p"
  by (simp add: removeNoriRulesBlock_def find_at_None [THEN iffD2])

lemma remove_block:
  assumes base: "\<not> sublist RULES_START base"
  shows "removeNoriRulesBlock (base @ eol @ eol @ RULES_START @ mid @ RULES_END) = js_trimEnd base"
proof -
  let ?p = "base @ eol @ eol @ RULES_START @ mid @ RULES_END"
  have a: "find_at RULES_START ?p = Some (length base + 2)"
    by (rule find_block [OF plain_rules_start base])
  have "find_last RULES_END ((base @ eol @ eol @ RULES_START @ mid) @ RULES_END)
      = Some (length (base @ eol @ eol @ RULES_START @ mid))"
    by (rule find_last_self) (simp add: RULES_END_def)
  then have b: "find_last RULES_END ?p = Some (length base + 2 + (length RULES_START + length mid))"
    by (simp add: eol_def)
  have "length RULES_START > 0" by (simp add: RULES_START_def)
  then have "removeNoriRulesBlock ?p = js_trimEnd (take (length base + 2) ?p
     @ drop (length base + 2 + (length RULES_START + length mid) + length RULES_END) ?p)"
    by (simp add: removeNoriRulesBlock_def a b)
  also have "take (length base + 2) ?p = base @ eol @ eol" by (simp add: eol_def)
  also have "drop (length base + 2 + (length RULES_START + length mid) + length RULES_END) ?p = []"
    by (simp add: eol_def)
  finally show ?thesis by (metis append_Nil2 append_assoc js_trimEnd_eol)
qed

text \<open>
  Injecting rules into the system prompt is a replacement. For a prompt that holds no rules
  block, taking the injected block out again gives the prompt back without its trailing white space,
  and injecting the rules of a later step gives that prompt followed by the new block, whatever block
  was there before: blocks never pile up.\<close>

theorem rules_block_replaced:
  assumes "\<not> js_includes RULES_START base" and "rs \<noteq> []"
  shows "removeNoriRulesBlock (inject_rules rs base) = js_trimEnd base
    \<and> inject_rules rs' (inject_rules rs base) = inject_rules rs' (js_trimEnd base)"
proof -
  from assms(1) have b: "\<not> sublist RULES_START base" by (simp add: js_includes_sublist)
  then have bt: "\<not> sublist RULES_START (js_trimEnd base)"
    using sublist_trimEnd sublist_order.order_trans by blast
  from rules_prompt_shape [OF assms(2)] obtain mid where
    m: "getRulePrompt rs = RULES_START @ mid @ RULES_END" by blast
  then have "getRulePrompt rs \<noteq> []" by (simp add: RULES_START_def)
  then have i: "inject_rules rs base = base @ eol @ eol @ RULES_START @ mid @ RULES_END"
    by (simp add: inject_rules_def remove_no_block [OF b] m del: append_assoc)
  have r: "removeNoriRulesBlock (inject_rules rs base) = js_trimEnd base"
    unfolding i by (rule remove_block [OF b])
  moreover have "inject_rules rs' (inject_rules rs base) = inject_rules rs' (js_trimEnd base)"
    unfolding inject_rules_def [of rs'] r remove_no_block [OF bt] by (simp add: Let_def)
  ultimately show ?thesis by blast
qed

definition demo_rule :: "string \<Rightarrow> bool \<Rightarrow> RuleConfig" where
  "demo_rule n e = \<lparr>ru_name = n, ru_description = [],
     ru_condition = \<lparr>rc_type = Always, rc_phase = None, rc_stage = None, rc_tool = None, rc_event = None\<rparr>,
     ru_prompt = ''p'', ru_enforced = e, ru_editable = True\<rparr>"

lemma rules_block_replaced_witness:
  "removeNoriRulesBlock (inject_rules [demo_rule ''a'' False, demo_rule ''b'' True] ''Hi. '') = js_trimEnd ''Hi. ''
   \<and> inject_rules [] (inject_rules [demo_rule ''a'' False, demo_rule ''b'' True] ''Hi. '')
     = inject_rules [] (js_trimEnd ''Hi. '')"
proof (rule rules_block_replaced)
  show "\<not> js_includes RULES_START ''Hi. ''" by code_simp
qed simp

section \<open>The reminder is replaced too\<close>

lemma drop_long: "j \<le> length xs \<Longrightarrow> drop j ((xs @ ys) @ zs) = drop j (xs @ ys) @ zs"
  by simp

lemma note_reminder_replaced:
  assumes base: "\<not> sublist NOTE_START base" and hint: "\<not> sublist NOTE_END (NOTE_START @ eol @ eol @ hint @ eol @ butlast NOTE_END)"
  shows "injectNoriNoteReminder h2 (injectNoriNoteReminder hint base) = injectNoriNoteReminder h2 (js_trimEnd base)"
proof -
  let ?b = "NOTE_START @ eol @ eol @ hint @ eol"
  have blk: "note_block hint = ?b @ NOTE_END"
    by (simp add: note_block_def NOTE_START_def NOTE_END_def)
  have first: "injectNoriNoteReminder hint base = base @ eol @ eol @ NOTE_START @ (eol @ eol @ hint @ eol) @ NOTE_END"
    by (simp add: injectNoriNoteReminder_def find_at_None [THEN iffD2, OF base] blk)
  let ?p = "base @ eol @ eol @ NOTE_START @ (eol @ eol @ hint @ eol) @ NOTE_END"
  have idx: "find_at NOTE_START ?p = Some (length base + 2)" by (rule find_block [OF plain_note_start base])
  have dr: "drop (length base + 2) ?p = ?b @ NOTE_END" by (simp add: eol_def)
  have k: "find_at NOTE_END (?b @ NOTE_END) = Some (length ?b)"
    unfolding find_at_Some
  proof (intro conjI allI impI)
    fix j assume j: "j < length ?b"
    show "\<not> prefix NOTE_END (drop j (?b @ NOTE_END))"
    proof
      assume p: "prefix NOTE_END (drop j (?b @ NOTE_END))"
      let ?q = "?b @ butlast NOTE_END"
      have e: "NOTE_END = butlast NOTE_END @ [CHR ''>'']" by (simp add: NOTE_END_def)
      have d: "drop j (?b @ NOTE_END) = drop j ?q @ [CHR ''>'']"
        using j drop_long [of j ?b "butlast NOTE_END" "[CHR ''>'']"] e by (metis append_assoc less_imp_le)
      have "length NOTE_END \<le> length (drop j ?q)" using j by (simp add: NOTE_END_def)
      then have "prefix NOTE_END (drop j ?q)"
        using p unfolding d by (metis prefixI prefix_length_prefix)
      then have "sublist NOTE_END (?b @ butlast NOTE_END)"
        by (metis prefix_imp_sublist sublist_drop sublist_order.order_trans)
      then show False using hint by simp
    qed
  qed auto
  have bt: "\<not> sublist NOTE_START (js_trimEnd base)"
    using base sublist_trimEnd sublist_order.order_trans by blast
  have tk: "take (length base + 2) ?p = base @ eol @ eol" by (simp add: eol_def)
  have dr2: "drop (length base + 2 + length ?b + length NOTE_END) ?p = []" by (simp add: eol_def)
  have "injectNoriNoteReminder h2 ?p = js_trimEnd (base @ eol @ eol) @ eol @ eol @ note_block h2"
    unfolding injectNoriNoteReminder_def idx option.case dr k tk dr2 by (simp add: Let_def)
  also have "js_trimEnd (base @ eol @ eol) = js_trimEnd base" by (metis append_assoc js_trimEnd_eol)
  finally show ?thesis
    unfolding first by (simp add: injectNoriNoteReminder_def find_at_None [THEN iffD2, OF bt])
qed

end
