(* ===== verification/Js_Regex.thy ===== *)
theory Js_Regex
  imports Js_Text
begin

text \<open>
  The part of JavaScript regular expressions that the turn driver and the workflow gates use:
  literals and character classes under the flag \<open>i\<close> (or, which is the same for patterns in lower
  case, on a text put in lower case), word boundaries, runs of white space (\<open>\s*\<close>, \<open>\s+\<close>),
  \<open>.*\<close> and \<open>[\s\S]*\<close>, anchors, alternatives and optional parts. Only \<open>test\<close> is called, so the matcher gives the
  set of ends of a match and their order does not matter. Texts are Latin-1: an alternative with a
  Chinese character never matches and is left out of the patterns.
\<close>

datatype rx =
    RLit string
  | RSet string
  | RBound
  | RSpace0
  | RSpace1
  | RDots
  | RAny
  | RStart
  | REnd
  | RSeq "rx list"
  | RAlt "rx list"

definition ascii_lower :: "char \<Rightarrow> char" where
  "ascii_lower c = (let n = of_char c :: nat in if 65 \<le> n \<and> n \<le> 90 then char_of (n + 32) else c)"

definition is_word_char :: "char \<Rightarrow> bool" where
  "is_word_char c = (let n = of_char c :: nat in
     48 \<le> n \<and> n \<le> 57 \<or> 65 \<le> n \<and> n \<le> 90 \<or> n = 95 \<or> 97 \<le> n \<and> n \<le> 122)"

definition at_boundary :: "string \<Rightarrow> nat \<Rightarrow> bool" where
  "at_boundary s i =
     ((0 < i \<and> i \<le> length s \<and> is_word_char (s ! (i - 1))) \<noteq> (i < length s \<and> is_word_char (s ! i)))"

definition space_ends :: "string \<Rightarrow> nat \<Rightarrow> nat list" where
  "space_ends s i = map (\<lambda>k. i + k) [0 ..< Suc (length (takeWhile is_js_space (drop i s)))]"

fun rx_ends :: "rx \<Rightarrow> string \<Rightarrow> nat \<Rightarrow> nat list"
  and seq_ends :: "rx list \<Rightarrow> string \<Rightarrow> nat list \<Rightarrow> nat list"
  and alt_ends :: "rx list \<Rightarrow> string \<Rightarrow> nat \<Rightarrow> nat list" where
  "rx_ends (RLit l) s i =
     (if map ascii_lower (take (length l) (drop i s)) = map ascii_lower l then [i + length l] else [])"
| "rx_ends (RSet cs) s i =
     (if i < length s \<and> ascii_lower (s ! i) \<in> set (map ascii_lower cs) then [Suc i] else [])"
| "rx_ends RBound s i = (if at_boundary s i then [i] else [])"
| "rx_ends RSpace0 s i = space_ends s i"
| "rx_ends RSpace1 s i = tl (space_ends s i)"
| "rx_ends RDots s i =
     map (\<lambda>k. i + k) [0 ..< Suc (length (takeWhile (\<lambda>c. c \<noteq> CHR 0x0A \<and> c \<noteq> CHR 0x0D) (drop i s)))]"
| "rx_ends RAny s i = [i ..< Suc (length s)]"
| "rx_ends RStart s i = (if i = 0 then [i] else [])"
| "rx_ends REnd s i = (if i = length s then [i] else [])"
| "rx_ends (RSeq rs) s i = seq_ends rs s [i]"
| "rx_ends (RAlt rs) s i = alt_ends rs s i"
| "seq_ends [] s is = is"
| "seq_ends (r # rs) s is = seq_ends rs s (concat (map (rx_ends r s) is))"
| "alt_ends [] s i = []"
| "alt_ends (r # rs) s i = rx_ends r s i @ alt_ends rs s i"

abbreviation ROpt :: "rx \<Rightarrow> rx" where
  "ROpt r \<equiv> RAlt [r, RSeq []]"

definition rx_test :: "rx \<Rightarrow> string \<Rightarrow> bool" where
  "rx_test r s = list_ex (\<lambda>i. rx_ends r s i \<noteq> []) [0 ..< Suc (length s)]"

definition word_rx :: "rx \<Rightarrow> rx" where
  "word_rx r = RSeq [RBound, r, RBound]"

end
