(* ===== verification/Nori_Workflow.thy ===== *)
theory Nori_Workflow
  imports Js_Regex Complex_Main
begin

text \<open>
  The workflow gates (\<open>agent/nori-workflow.ts\<close>): the configuration read from the project file,
  the review difficulty of the work observed in a turn, and the decision whether the turn may end.
  A configuration value is a tree whose numbers are rationals (a binary64 number is one) or not
  finite; a property that is absent is \<open>None\<close>. The Chinese alternatives of the bug-hunt pattern
  cannot match a Latin-1 prompt.
\<close>

section \<open>Configuration\<close>

datatype cfg =
    CNull
  | CBool bool
  | CNum rat
  | CNonFinite
  | CStr string
  | CArr "cfg list"
  | CObj "(string \<times> cfg) list"

record NoriWorkflowConfig =
  reviewSuggestionThreshold :: int
  reviewRequiredThreshold :: int
  maxReviewGateContinuations :: int
  memorySearchRequired :: "bool option"
  bugHuntDelegationRequired :: "bool option"
  requireAnalysisNote :: "bool option"
  requireDecisionNote :: "bool option"
  requireReviewNote :: "bool option"

definition DEFAULT_NORI_WORKFLOW_CONFIG :: NoriWorkflowConfig where
  "DEFAULT_NORI_WORKFLOW_CONFIG =
     \<lparr>reviewSuggestionThreshold = 4, reviewRequiredThreshold = 7, maxReviewGateContinuations = 2,
      memorySearchRequired = None, bugHuntDelegationRequired = Some True,
      requireAnalysisNote = None, requireDecisionNote = None, requireReviewNote = None\<rparr>"

text \<open>An array is an object too; none of the names that the code looks up is one of its keys.\<close>

fun asRecord :: "cfg option \<Rightarrow> (string \<times> cfg) list option" where
  "asRecord (Some (CObj ps)) = Some ps"
| "asRecord (Some (CArr vs)) = Some []"
| "asRecord _ = None"

definition prop_of :: "(string \<times> cfg) list option \<Rightarrow> string \<Rightarrow> cfg option" where
  "prop_of r k = (case r of None \<Rightarrow> None | Some ps \<Rightarrow> map_of ps k)"

fun booleanValue :: "cfg option \<Rightarrow> bool option" where
  "booleanValue (Some (CBool b)) = Some b"
| "booleanValue _ = None"

fun firstNumber :: "cfg option list \<Rightarrow> rat option" where
  "firstNumber [] = None"
| "firstNumber (Some (CNum x) # vs) = Some x"
| "firstNumber (v # vs) = firstNumber vs"

text \<open>\<open>Math.round\<close>: to the nearest integer, a half up.\<close>

definition js_round :: "rat \<Rightarrow> int" where
  "js_round x = \<lfloor>x + 1 / 2\<rfloor>"

definition clampInteger :: "rat \<Rightarrow> int \<Rightarrow> int \<Rightarrow> int" where
  "clampInteger v mn mx = min mx (max mn (js_round v))"

definition clampScore :: "rat \<Rightarrow> int" where
  "clampScore v = clampInteger (of_int (js_round v)) 0 10"

fun or_else :: "'a option \<Rightarrow> 'a option \<Rightarrow> 'a option" where
  "or_else (Some x) y = Some x"
| "or_else None y = y"

definition stepsIncludeHandler :: "cfg option \<Rightarrow> string \<Rightarrow> bool" where
  "stepsIncludeHandler steps h =
     (case steps of
        Some (CArr vs) \<Rightarrow>
          list_ex (\<lambda>v. prop_of (asRecord (Some v)) ''handler'' = Some (CStr h)
                     \<or> prop_of (asRecord (Some v)) ''command'' = Some (CStr h)) vs
      | _ \<Rightarrow> False)"

fun phases_have_step :: "cfg list \<Rightarrow> string \<Rightarrow> string \<Rightarrow> bool option" where
  "phases_have_step [] p h = None"
| "phases_have_step (v # vs) p h =
     (let r = asRecord (Some v)
      in if prop_of r ''name'' \<noteq> Some (CStr p) then phases_have_step vs p h
         else if stepsIncludeHandler (prop_of r ''steps'') h then Some True
         else phases_have_step vs p h)"

definition hasWorkflowToolStep :: "(string \<times> cfg) list \<Rightarrow> string \<Rightarrow> string \<Rightarrow> bool option" where
  "hasWorkflowToolStep c p h =
     (case prop_of (Some c) ''phases'' of Some (CArr vs) \<Rightarrow> phases_have_step vs p h | _ \<Rightarrow> None)"

fun enforced_in :: "cfg list \<Rightarrow> string \<Rightarrow> bool option" where
  "enforced_in [] n = None"
| "enforced_in (v # vs) n =
     (let r = asRecord (Some v)
      in if prop_of r ''name'' \<noteq> Some (CStr n) then enforced_in vs n
         else or_else (booleanValue (prop_of r ''enforced'')) (Some True))"

definition hasEnforcedRule :: "cfg option \<Rightarrow> string \<Rightarrow> bool option" where
  "hasEnforcedRule defs n = (case defs of Some (CArr vs) \<Rightarrow> enforced_in vs n | _ \<Rightarrow> None)"

definition default_num :: "rat option \<Rightarrow> int \<Rightarrow> rat" where
  "default_num v d = (case v of Some x \<Rightarrow> x | None \<Rightarrow> of_int d)"

definition resolveNoriWorkflowConfig :: "(string \<times> cfg) list option \<Rightarrow> NoriWorkflowConfig option" where
  "resolveNoriWorkflowConfig noriConfig =
     (case noriConfig of
        None \<Rightarrow> None
      | Some c \<Rightarrow>
          let top = prop_of (Some c);
              workflow = asRecord (top ''workflow'');
              review = asRecord (prop_of workflow ''review'');
              reviewGate = asRecord (prop_of workflow ''review_gate'');
              topReview = asRecord (top ''review'');
              rules = asRecord (top ''rules'')
          in Some
            \<lparr>reviewSuggestionThreshold = clampScore (default_num (firstNumber
                [prop_of review ''suggestion_threshold'',
                 prop_of reviewGate ''suggestion_threshold'',
                 prop_of workflow ''review_suggestion_threshold'',
                 prop_of topReview ''suggestion_threshold''])
                (reviewSuggestionThreshold DEFAULT_NORI_WORKFLOW_CONFIG)),
             reviewRequiredThreshold = clampScore (default_num (firstNumber
                [prop_of review ''required_threshold'',
                 prop_of review ''difficulty_threshold'',
                 prop_of reviewGate ''required_threshold'',
                 prop_of workflow ''review_required_threshold'',
                 prop_of workflow ''review_difficulty_threshold'',
                 prop_of topReview ''required_threshold'',
                 prop_of topReview ''difficulty_threshold''])
                (reviewRequiredThreshold DEFAULT_NORI_WORKFLOW_CONFIG)),
             maxReviewGateContinuations = clampInteger (default_num (firstNumber
                [prop_of review ''max_gate_continuations'',
                 prop_of reviewGate ''max_gate_continuations'',
                 prop_of workflow ''max_review_gate_continuations'',
                 prop_of topReview ''max_gate_continuations''])
                (maxReviewGateContinuations DEFAULT_NORI_WORKFLOW_CONFIG)) 1 5,
             memorySearchRequired =
               or_else (booleanValue (prop_of workflow ''memory_search_required''))
               (or_else (booleanValue (prop_of workflow ''require_memory_search''))
               (or_else (hasWorkflowToolStep c ''implement'' ''nori_memory_search'')
                        (hasEnforcedRule (prop_of rules ''definitions'') ''search_before_code''))),
             bugHuntDelegationRequired =
               or_else (booleanValue (prop_of workflow ''bug_hunt_delegation_required''))
                       (bugHuntDelegationRequired DEFAULT_NORI_WORKFLOW_CONFIG),
             requireAnalysisNote = booleanValue (prop_of rules ''require_analysis_note''),
             requireDecisionNote = booleanValue (prop_of rules ''require_decision_note''),
             requireReviewNote = booleanValue (prop_of rules ''require_pattern_note'')\<rparr>)"

section \<open>Observed work and its difficulty\<close>

record NoriReviewActivity =
  filesCreated :: nat
  filesModified :: nat
  testFilesCreated :: nat
  shellCommandCount :: nat
  verificationCommandCount :: nat
  delegationCount :: nat

record NoriWorkflowActivity = NoriReviewActivity +
  memorySearchCount :: nat
  memoryWriteCount :: nat
  userPromptText :: string

definition hasImplementationActivity :: "'a NoriReviewActivity_scheme \<Rightarrow> bool" where
  "hasImplementationActivity a \<longleftrightarrow> filesCreated a > 0 \<or> filesModified a > 0 \<or> delegationCount a > 0"

definition scoreNoriReviewDifficulty :: "'a NoriReviewActivity_scheme \<Rightarrow> int" where
  "scoreNoriReviewDifficulty a =
     (let changedFiles = filesCreated a + filesModified a;
          score = min 6 (changedFiles * 2);
          score = score + min 2 (filesCreated a);
          score = score + min 2 (shellCommandCount a);
          score = score + min 3 (delegationCount a * 3);
          score = (if changedFiles > 0 \<and> testFilesCreated a = 0 \<and> verificationCommandCount a = 0
                   then score + 2 else score);
          score = (if changedFiles \<ge> 3 then score + 1 else score)
      in clampInteger (of_nat score) 0 10)"

section \<open>Gates\<close>

datatype GateMode = GM_required | GM_suggested
datatype NoriWorkflowGateKind = GK_bug_hunt_delegation | GK_memory_search | GK_review

record NoriReviewGateDecision =
  rg_mode :: GateMode
  rg_score :: int
  rg_suggestionThreshold :: int
  rg_requiredThreshold :: int
  rg_reason :: string

record NoriWorkflowGateDecision =
  wg_kind :: NoriWorkflowGateKind
  wg_phase :: string
  wg_mode :: GateMode
  wg_reason :: string
  wg_requiredTool :: "string option"
  wg_review :: "NoriReviewGateDecision option"

definition bug_hunt_rx :: rx where
  "bug_hunt_rx = RAlt
     [word_rx (RSeq [RLit ''bug'', ROpt (RLit ''s'')]),
      word_rx (RSeq [RLit ''debug'', ROpt (RLit ''ging'')]),
      word_rx (RLit ''failure''),
      word_rx (RLit ''failing''),
      word_rx (RLit ''regression''),
      word_rx (RSeq [RLit ''diagnos'', RAlt [RLit ''e'', RLit ''is'', RLit ''tic'']]),
      word_rx (RLit ''review''),
      word_rx (RLit ''audit''),
      word_rx (RSeq [RLit ''black'', RSpace0, RLit ''screen'']),
      word_rx (RSeq [RLit ''render'', ROpt (RLit ''ing''), RSpace1, RLit ''pipeline'']),
      word_rx (RSeq [RLit ''permission'', RSpace1,
        RAlt [RLit ''bug'', RLit ''issue'', RLit ''problem'', RLit ''failure'']])]"

definition hasNoriBugHuntIntent :: "string \<Rightarrow> bool" where
  "hasNoriBugHuntIntent text = rx_test bug_hunt_rx text"

definition decideNoriReviewGate ::
    "NoriWorkflowConfig option \<Rightarrow> 'a NoriReviewActivity_scheme \<Rightarrow> NoriReviewGateDecision option" where
  "decideNoriReviewGate config a =
     (case config of
        None \<Rightarrow> None
      | Some c \<Rightarrow>
          if \<not> hasImplementationActivity a then None
          else
            let score = scoreNoriReviewDifficulty a
            in if score \<ge> reviewRequiredThreshold c
               then Some \<lparr>rg_mode = GM_required, rg_score = score,
                      rg_suggestionThreshold = reviewSuggestionThreshold c,
                      rg_requiredThreshold = reviewRequiredThreshold c,
                      rg_reason = ''observed implementation complexity reached the required review threshold''\<rparr>
               else if score \<ge> reviewSuggestionThreshold c
               then Some \<lparr>rg_mode = GM_suggested, rg_score = score,
                      rg_suggestionThreshold = reviewSuggestionThreshold c,
                      rg_requiredThreshold = reviewRequiredThreshold c,
                      rg_reason = ''observed implementation complexity reached the suggested review threshold''\<rparr>
               else None)"

definition decideNoriWorkflowGate ::
    "NoriWorkflowConfig option \<Rightarrow> NoriWorkflowActivity \<Rightarrow> NoriWorkflowGateDecision option" where
  "decideNoriWorkflowGate config a =
     (case config of
        None \<Rightarrow> None
      | Some c \<Rightarrow>
          if (case bugHuntDelegationRequired c of None \<Rightarrow> True | Some b \<Rightarrow> b)
             \<and> hasNoriBugHuntIntent (userPromptText a) \<and> delegationCount a = 0
          then Some \<lparr>wg_kind = GK_bug_hunt_delegation, wg_phase = ''review'', wg_mode = GM_required,
                 wg_reason = ''the user asked for bug hunting, failure diagnosis, review, or broad problem finding'',
                 wg_requiredTool = Some ''TeamAssign'', wg_review = None\<rparr>
          else if memorySearchRequired c = Some True \<and> hasImplementationActivity a
             \<and> memorySearchCount a = 0
          then Some \<lparr>wg_kind = GK_memory_search, wg_phase = ''plan'', wg_mode = GM_required,
                 wg_reason = ''configured workflow requires memory retrieval before implementation work'',
                 wg_requiredTool = Some ''nori_memory_search'', wg_review = None\<rparr>
          else (case decideNoriReviewGate (Some c) a of
                  None \<Rightarrow> None
                | Some review \<Rightarrow>
                    Some \<lparr>wg_kind = GK_review, wg_phase = ''review'', wg_mode = rg_mode review,
                      wg_reason = rg_reason review, wg_requiredTool = None, wg_review = Some review\<rparr>))"

section \<open>Bounds of the configuration and the score\<close>

lemma js_round_int [simp]: "js_round (of_int n) = n" "js_round (of_nat k) = int k"
proof -
  show a: "js_round (of_int n) = n" for n by (simp add: js_round_def floor_eq_iff)
  show "js_round (of_nat k) = int k" using a [of "int k"] by simp
qed

lemma clampInteger_range: "mn \<le> mx \<Longrightarrow> mn \<le> clampInteger v mn mx \<and> clampInteger v mn mx \<le> mx"
  by (simp add: clampInteger_def)

lemma resolve_bounds:
  assumes "resolveNoriWorkflowConfig r = Some c"
  shows "0 \<le> reviewSuggestionThreshold c \<and> reviewSuggestionThreshold c \<le> 10
    \<and> 0 \<le> reviewRequiredThreshold c \<and> reviewRequiredThreshold c \<le> 10
    \<and> 1 \<le> maxReviewGateContinuations c \<and> maxReviewGateContinuations c \<le> 5
    \<and> bugHuntDelegationRequired c \<noteq> None"
proof -
  have some: "or_else x (bugHuntDelegationRequired DEFAULT_NORI_WORKFLOW_CONFIG) \<noteq> None" for x
    by (cases x) (simp_all add: DEFAULT_NORI_WORKFLOW_CONFIG_def)
  show ?thesis
    using assms some clampInteger_range [of 0 10] clampInteger_range [of 1 5]
    by (cases r) (auto simp: resolveNoriWorkflowConfig_def Let_def clampScore_def)
qed

lemma two_bonuses:
  "(if d then (if c then s + 2 else s) + 1 else (if c then s + 2 else s))
   = s + (if c then 2 else 0) + (if d then 1 else (0 :: nat))"
  by simp

lemma score_closed_form:
  "scoreNoriReviewDifficulty a =
     int (min 10 (min 6 (2 * (filesCreated a + filesModified a)) + min 2 (filesCreated a)
       + min 2 (shellCommandCount a) + min 3 (3 * delegationCount a)
       + (if filesCreated a + filesModified a > 0 \<and> testFilesCreated a = 0 \<and> verificationCommandCount a = 0
          then 2 else 0)
       + (if filesCreated a + filesModified a \<ge> 3 then 1 else 0)))"
proof -
  have "clampInteger (of_nat n) 0 10 = int (min 10 n)" for n
    by (simp add: clampInteger_def)
  then show ?thesis
    unfolding scoreNoriReviewDifficulty_def Let_def two_bonuses by (simp only: mult.commute)
qed

text \<open>More work of any kind but tests and verification never lowers the score.\<close>

lemma score_mono:
  assumes "filesCreated a \<le> filesCreated b" "filesModified a \<le> filesModified b"
    "shellCommandCount a \<le> shellCommandCount b" "delegationCount a \<le> delegationCount b"
    "testFilesCreated b \<le> testFilesCreated a" "verificationCommandCount b \<le> verificationCommandCount a"
  shows "scoreNoriReviewDifficulty a \<le> scoreNoriReviewDifficulty b"
  unfolding score_closed_form of_nat_le_iff
  by (intro min.mono add_mono order_refl mult_le_mono) (use assms in auto)

end
