(* ===== verification/Turn_Tracking.thy ===== *)
theory Turn_Tracking
  imports Rule_Engine Nori_Workflow Tool_Dedup
begin

text \<open>
  What the turn driver (\<open>agent/turn/index.ts\<close>) observes of the steps of a turn, and what it makes of
  it: the counts of files, commands, searches and assignments, the phase and the notes of the
  phase, the duplicate tool calls reported as telemetry, and the workflow gate that asks for another
  step at a terminal stop.

  \<open>nt_work\<close> holds the counters \<open>turnFilesCreated\<close> \dots \<open>turnUserPromptText\<close>; \<open>nt_stepKeys\<close> is
  \<open>stepToolCallKeys\<close> (a set per step); \<open>nt_track\<close> the telemetry, in order. The SHA-256 digest of the
  arguments is left out of the telemetry, and so are the properties of the provider.

  The lemmas: the counters are the counts of the tool calls since the turn began; a call is reported
  as a duplicate exactly when the same call was made before in the turn; and the gates ask at most a
  fixed number of times in one turn.
\<close>

section \<open>Data\<close>

datatype DupType = Dup_normal | Dup_same_step | Dup_cross_step
datatype TrackOutcome = Out_success | Out_error | Out_cancelled

datatype turn_track =
    Track_dedup int nat string DupType
  | Track_tool_call string TrackOutcome ms DupType "string option"
  | Track_interrupted int bool nat

type_synonym call_key = "string \<times> string"

record NoriTurn =
  nt_work :: NoriWorkflowActivity
  nt_toolNames :: "string list"
  nt_pendingGate :: bool
  nt_gateCounts :: "(NoriWorkflowGateKind \<times> nat) list"
  nt_lastPhase :: "string option"
  nt_phaseAtStepStart :: "string option"
  nt_notesThisPhase :: "string list"
  nt_currentTool :: "string option"
  nt_toolStage :: "Stage option"
  nt_currentStep :: nat
  nt_stepKeys :: "(nat \<times> call_key list) list"
  nt_dupType :: "(string \<times> DupType) list"
  nt_startedAt :: "(string \<times> string \<times> ms) list"
  nt_discussByTurn :: "(int \<times> bool) list"
  nt_stepByTurn :: "(int \<times> nat) list"
  nt_interruptedTurns :: "int list"
  nt_failedStep :: "(int \<times> nat option) list"
  nt_track :: "turn_track list"

definition no_work :: NoriWorkflowActivity where
  "no_work = \<lparr>filesCreated = 0, filesModified = 0, testFilesCreated = 0, shellCommandCount = 0,
     verificationCommandCount = 0, delegationCount = 0, memorySearchCount = 0, memoryWriteCount = 0,
     userPromptText = []\<rparr>"

definition new_turn_state :: NoriTurn where
  "new_turn_state = \<lparr>nt_work = no_work, nt_toolNames = [], nt_pendingGate = False, nt_gateCounts = [],
     nt_lastPhase = None, nt_phaseAtStepStart = None, nt_notesThisPhase = [], nt_currentTool = None,
     nt_toolStage = None, nt_currentStep = 0, nt_stepKeys = [], nt_dupType = [], nt_startedAt = [],
     nt_discussByTurn = [], nt_stepByTurn = [], nt_interruptedTurns = [], nt_failedStep = [],
     nt_track = []\<rparr>"

definition track :: "turn_track \<Rightarrow> NoriTurn \<Rightarrow> NoriTurn" where
  "track e t = t\<lparr>nt_track := nt_track t @ [e]\<rparr>"

section \<open>Reading tool arguments\<close>

definition str_prop :: "(string \<times> json) list \<Rightarrow> string \<Rightarrow> string option" where
  "str_prop ps k = (case map_of ps k of Some (JStr s) \<Rightarrow> Some s | _ \<Rightarrow> None)"

definition toolFilePath :: "json \<Rightarrow> string" where
  "toolFilePath args =
     (case args of
        JObj ps \<Rightarrow>
          (case str_prop ps ''file_path'' of
             Some p \<Rightarrow> p
           | None \<Rightarrow> (case str_prop ps ''path'' of Some p \<Rightarrow> p | None \<Rightarrow> []))
      | _ \<Rightarrow> [])"

definition slash_rx :: rx where "slash_rx = RSet [CHR ''/'', CHR 0x5C]"

definition test_file_rx :: rx where
  "test_file_rx = RAlt
     [RSeq [RAlt [RStart, slash_rx],
            RAlt [RLit ''__tests__'', RLit ''test'', RLit ''tests'', RLit ''spec''],
            RAlt [slash_rx, REnd]],
      RSeq [RSet ''._-'', RAlt [RLit ''test'', RLit ''spec''], RLit ''.'', ROpt (RSet ''cm''),
            RSet ''jt'', RLit ''s'', ROpt (RLit ''x''), REnd]]"

definition isTestFilePath :: "string \<Rightarrow> bool" where
  "isTestFilePath p = rx_test test_file_rx p"

definition verification_rx :: rx where
  "verification_rx = word_rx (RAlt
     [RLit ''test'', RLit ''tests'', RLit ''lint'', RLit ''typecheck'', RLit ''tsc'', RLit ''vitest'',
      RLit ''jest'', RLit ''pytest'', RSeq [RLit ''cargo'', RSpace1, RLit ''test''],
      RSeq [RLit ''go'', RSpace1, RLit ''test''], RSeq [RLit ''pnpm'', RSpace1, RLit ''build''],
      RSeq [RLit ''npm'', RSpace1, RLit ''run'', RSpace1, RLit ''build''],
      RSeq [RLit ''yarn'', RSpace1, RLit ''build'']])"

definition isVerificationCommand :: "json \<Rightarrow> bool" where
  "isVerificationCommand args =
     (case args of
        JObj ps \<Rightarrow> (case str_prop ps ''command'' of Some c \<Rightarrow> rx_test verification_rx c | None \<Rightarrow> False)
      | _ \<Rightarrow> False)"

definition contentPartsText :: "ContentPart list \<Rightarrow> string" where
  "contentPartsText input = join_with eol (map part_text (filter is_text input))"

section \<open>The start of a turn and of a step\<close>

definition begin_turn_tracking ::
    "bool \<Rightarrow> bool \<Rightarrow> int \<Rightarrow> ContentPart list \<Rightarrow> PromptOrigin \<Rightarrow> NoriTurn \<Rightarrow> NoriTurn" where
  "begin_turn_tracking workflow discuss turnId input og t =
     (let t1 = t\<lparr>nt_currentStep := 0, nt_stepKeys := [], nt_dupType := [], nt_toolNames := [],
                 nt_work := no_work\<lparr>userPromptText := contentPartsText input\<rparr>,
                 nt_pendingGate := False, nt_gateCounts := []\<rparr>;
          t2 = (if workflow \<and> (case origin_kind og of OK_user b \<Rightarrow> True | _ \<Rightarrow> False)
                then t1\<lparr>nt_lastPhase := Some ''discuss'', nt_notesThisPhase := []\<rparr> else t1)
      in t2\<lparr>nt_discussByTurn := map_put turnId discuss (nt_discussByTurn t2),
            nt_stepByTurn := map_put turnId 0 (nt_stepByTurn t2)\<rparr>)"

text \<open>The part of \<open>beforeStep\<close> about phases and rules; it returns the new system prompt.\<close>

definition before_step_rules ::
    "RuleConfig list option \<Rightarrow> bool \<Rightarrow> string \<Rightarrow> NoriTurn \<Rightarrow> string \<times> NoriTurn" where
  "before_step_rules rules workflow prompt t =
     (let previousPhase = nt_phaseAtStepStart t;
          t1 = t\<lparr>nt_phaseAtStepStart := nt_lastPhase t\<rparr>
      in case rules of
           None \<Rightarrow> (prompt, t1)
         | Some rs \<Rightarrow> (inject_rules (step_rules rs workflow previousPhase (nt_lastPhase t1)) prompt, t1))"

definition begin_tracked_step :: "int \<Rightarrow> nat \<Rightarrow> NoriTurn \<Rightarrow> NoriTurn" where
  "begin_tracked_step turnId step t =
     t\<lparr>nt_stepByTurn := map_put turnId step (nt_stepByTurn t), nt_currentStep := step,
       nt_stepKeys := (if map_get (nt_stepKeys t) step = None then map_put step [] (nt_stepKeys t)
                       else nt_stepKeys t)\<rparr>"

section \<open>Tool calls\<close>

definition hasPriorStepToolCallKey :: "nat \<Rightarrow> call_key \<Rightarrow> NoriTurn \<Rightarrow> bool" where
  "hasPriorStepToolCallKey step key t = list_ex (\<lambda>(s, ks). s \<noteq> step \<and> key \<in> set ks) (nt_stepKeys t)"

definition trackDuplicateToolCall ::
    "int \<Rightarrow> nat \<Rightarrow> string \<Rightarrow> json \<Rightarrow> NoriTurn \<Rightarrow> DupType \<times> NoriTurn" where
  "trackDuplicateToolCall turnId step toolName args t =
     (let key = (toolName, canonicalTelemetryArgs args);
          stepKeys = (case map_get (nt_stepKeys t) step of Some ks \<Rightarrow> ks | None \<Rightarrow> []);
          t1 = t\<lparr>nt_stepKeys := map_put step stepKeys (nt_stepKeys t)\<rparr>;
          dupType = (if key \<in> set stepKeys then Dup_same_step
                     else if hasPriorStepToolCallKey step key t1 then Dup_cross_step
                     else Dup_normal);
          t2 = t1\<lparr>nt_stepKeys := map_put step (oset_add key stepKeys) (nt_stepKeys t1)\<rparr>
      in if dupType = Dup_normal then (Dup_normal, t2)
         else (dupType, track (Track_dedup turnId step toolName dupType) t2))"

definition count_tool_call :: "string \<Rightarrow> json \<Rightarrow> NoriTurn \<Rightarrow> NoriTurn" where
  "count_tool_call name args t =
     (let w = nt_work t in
      if name = ''nori_memory_search'' then
        t\<lparr>nt_work := w\<lparr>memorySearchCount := memorySearchCount w + 1\<rparr>,
          nt_lastPhase := (if nt_lastPhase t = Some ''discuss'' then Some ''implement'' else nt_lastPhase t)\<rparr>
      else if name = ''nori_memory_write'' then
        t\<lparr>nt_work := w\<lparr>memoryWriteCount := memoryWriteCount w + 1\<rparr>\<rparr>
      else if name = ''TeamAssign'' then
        t\<lparr>nt_work := w\<lparr>delegationCount := delegationCount w + 1\<rparr>\<rparr>
      else if name = ''Bash'' then
        t\<lparr>nt_work := w\<lparr>shellCommandCount := shellCommandCount w + 1,
            verificationCommandCount := verificationCommandCount w
              + (if isVerificationCommand args then 1 else 0)\<rparr>\<rparr>
      else if name = ''Write'' then
        t\<lparr>nt_lastPhase := Some ''implement'',
          nt_work := w\<lparr>filesCreated := filesCreated w + 1,
            testFilesCreated := testFilesCreated w
              + (if isTestFilePath (toolFilePath args) then 1 else 0)\<rparr>\<rparr>
      else if name = ''Edit'' then
        t\<lparr>nt_lastPhase := Some ''implement'',
          nt_work := w\<lparr>filesModified := filesModified w + 1,
            testFilesCreated := testFilesCreated w
              + (if isTestFilePath (toolFilePath args) then 1 else 0)\<rparr>\<rparr>
      else t)"

definition track_tool_call ::
    "ms \<Rightarrow> int \<Rightarrow> nat \<Rightarrow> string \<Rightarrow> string \<Rightarrow> json \<Rightarrow> NoriTurn \<Rightarrow> NoriTurn" where
  "track_tool_call now turnId step call_id name args t =
     (case trackDuplicateToolCall turnId step name args t of
        (dupType, t1) \<Rightarrow>
          count_tool_call name args
            (t1\<lparr>nt_dupType := map_put call_id
                  (if dupType = Dup_cross_step then Dup_cross_step else Dup_normal) (nt_dupType t1),
                nt_startedAt := map_put call_id (name, now) (nt_startedAt t1),
                nt_toolNames := nt_toolNames t1 @ [name]\<rparr>))"

definition toolOutputText :: "string + ContentPart list \<Rightarrow> string" where
  "toolOutputText out = (case out of Inl t \<Rightarrow> t | Inr parts \<Rightarrow> concat (map part_text (filter is_text parts)))"

definition telemetryToolOutcome :: "ExecutableToolResult \<Rightarrow> TrackOutcome" where
  "telemetryToolOutcome r =
     (if tr_isError r \<noteq> Some True then Out_success
      else
        let t = map ascii_lower (toolOutputText (tr_output r))
        in if js_includes ''aborted'' t \<or> js_includes ''cancelled'' t
              \<or> js_includes ''manually interrupted'' t
           then Out_cancelled else Out_error)"

definition telemetryToolErrorType :: "ExecutableToolResult \<Rightarrow> string" where
  "telemetryToolErrorType r =
     (let t = toolOutputText (tr_output r) in
      if prefix (''Tool '' @ [CHR 0x22]) t \<and> js_includes ([CHR 0x22] @ '' not found'') t then ''ToolNotFound''
      else if prefix (''Invalid args for tool '' @ [CHR 0x22]) t then ''ToolInputError''
      else if js_includes ''prepareToolExecution hook failed'' t then ''HookError''
      else if js_includes ''finalizeToolResult hook failed'' t then ''HookError''
      else if js_includes ''blocked'' t then ''ToolBlocked''
      else ''ToolError'')"

definition track_tool_result :: "ms \<Rightarrow> string \<Rightarrow> ExecutableToolResult \<Rightarrow> NoriTurn \<Rightarrow> NoriTurn" where
  "track_tool_result now call_id r t =
     (case map_get (nt_startedAt t) call_id of
        None \<Rightarrow> t
      | Some (name, began) \<Rightarrow>
          let t1 = t\<lparr>nt_startedAt := map_remove call_id (nt_startedAt t)\<rparr>;
              dupType = (case map_get (nt_dupType t1) call_id of Some d \<Rightarrow> d | None \<Rightarrow> Dup_normal);
              t2 = t1\<lparr>nt_dupType := map_remove call_id (nt_dupType t1)\<rparr>;
              outcome = telemetryToolOutcome r
          in track (Track_tool_call name outcome (now - began) dupType
                      (if outcome = Out_error then Some (telemetryToolErrorType r) else None)) t2)"

section \<open>Interrupted turns\<close>

definition trackTurnInterrupted :: "bool \<Rightarrow> int \<Rightarrow> nat \<Rightarrow> NoriTurn \<Rightarrow> NoriTurn" where
  "trackTurnInterrupted discuss turnId atStep t =
     (if turnId \<in> set (nt_interruptedTurns t) then t
      else track (Track_interrupted turnId
                   (case map_get (nt_discussByTurn t) turnId of Some d \<Rightarrow> d | None \<Rightarrow> discuss) atStep)
             (t\<lparr>nt_interruptedTurns := oset_add turnId (nt_interruptedTurns t)\<rparr>))"

definition interruptedStep :: "nat option \<Rightarrow> nat \<Rightarrow> nat" where
  "interruptedStep activeStep attemptedSteps = (case activeStep of Some s \<Rightarrow> s | None \<Rightarrow> attemptedSteps)"

definition track_interrupted_event ::
    "bool \<Rightarrow> int \<Rightarrow> bool \<Rightarrow> nat option \<Rightarrow> nat \<Rightarrow> NoriTurn \<Rightarrow> NoriTurn" where
  "track_interrupted_event discuss turnId isErr activeStep attemptedSteps t =
     (let t1 = (if isErr \<and> activeStep \<noteq> None
                then t\<lparr>nt_failedStep := map_put turnId activeStep (nt_failedStep t)\<rparr> else t)
      in trackTurnInterrupted discuss turnId (interruptedStep activeStep attemptedSteps) t1)"

definition shouldTrackApiError :: "int \<Rightarrow> NoriTurn \<Rightarrow> bool" where
  "shouldTrackApiError turnId t =
     (case map_get (nt_failedStep t) turnId of Some (Some s) \<Rightarrow> True | _ \<Rightarrow> False)"

definition end_turn_tracking :: "bool \<Rightarrow> bool \<Rightarrow> int \<Rightarrow> NoriTurn \<Rightarrow> NoriTurn" where
  "end_turn_tracking discuss completed turnId t =
     (let t1 = (if \<not> completed
                then trackTurnInterrupted discuss turnId
                       (case map_get (nt_stepByTurn t) turnId of Some s \<Rightarrow> s | None \<Rightarrow> nt_currentStep t) t
                else t)
      in t1\<lparr>nt_discussByTurn := map_remove turnId (nt_discussByTurn t1),
            nt_stepByTurn := map_remove turnId (nt_stepByTurn t1),
            nt_interruptedTurns := oset_remove turnId (nt_interruptedTurns t1),
            nt_failedStep := map_remove turnId (nt_failedStep t1)\<rparr>)"

section \<open>Notes and tools as the hooks see them\<close>

definition prepare_tool_tracking :: "string \<Rightarrow> bool \<Rightarrow> json \<Rightarrow> NoriTurn \<Rightarrow> NoriTurn" where
  "prepare_tool_tracking name cached args t =
     (let t1 = t\<lparr>nt_currentTool := Some name, nt_toolStage := Some St_before\<rparr>
      in if cached then t1
         else if name = ''nori_memory_write'' then
           (case args of
              JObj ps \<Rightarrow>
                (case str_prop ps ''note_type'' of
                   Some n \<Rightarrow> t1\<lparr>nt_notesThisPhase := oset_add n (nt_notesThisPhase t1)\<rparr>
                 | None \<Rightarrow> t1)
            | _ \<Rightarrow> t1)
         else t1)"

definition finalize_tool_tracking :: "string \<Rightarrow> NoriTurn \<Rightarrow> NoriTurn" where
  "finalize_tool_tracking name t = t\<lparr>nt_currentTool := Some name, nt_toolStage := Some St_after\<rparr>"

definition is_set :: "bool option \<Rightarrow> bool" where
  "is_set b \<longleftrightarrow> b = Some True"

definition checkNoriNoteRules :: "NoriWorkflowConfig \<Rightarrow> string \<Rightarrow> NoriTurn \<Rightarrow> string option" where
  "checkNoriNoteRules c phaseName t =
     (if \<not> is_set (requireAnalysisNote c) \<and> \<not> is_set (requireDecisionNote c) \<and> \<not> is_set (requireReviewNote c)
      then None
      else
        let written = nt_notesThisPhase t;
            m1 = (if is_set (requireAnalysisNote c) \<and> ''analysis'' \<notin> set written then [''analysis''] else []);
            m2 = (if is_set (requireDecisionNote c) \<and> ''decision'' \<notin> set written
                  then [''decision (ADR)''] else []);
            m3 = (if is_set (requireReviewNote c) \<and> ''analysis'' \<notin> set written
                     \<and> \<not> is_set (requireAnalysisNote c)
                  then [''pattern (analysis/)''] else []);
            missing = m1 @ m2 @ m3
        in if missing = [] then None
           else Some (''Note-writing rules require you to document your work before leaving the ''
                  @ [CHR 0x22] @ phaseName @ [CHR 0x22] @ '' phase. '' @ ''Missing note type(s): ''
                  @ join_with '', '' missing @ ''. ''
                  @ ''Call nori_memory_write to write the required note(s), then the phase will advance.''))"

section \<open>The gate prompt\<close>

definition kind_name :: "NoriWorkflowGateKind \<Rightarrow> string" where
  "kind_name k = (case k of GK_bug_hunt_delegation \<Rightarrow> ''bug_hunt_delegation''
     | GK_memory_search \<Rightarrow> ''memory_search'' | GK_review \<Rightarrow> ''review'')"

definition mode_name :: "GateMode \<Rightarrow> string" where
  "mode_name m = (case m of GM_required \<Rightarrow> ''required'' | GM_suggested \<Rightarrow> ''suggested'')"

definition quoted :: "string \<Rightarrow> string" where
  "quoted s = [CHR 0x22] @ s @ [CHR 0x22]"

definition show_score :: "int \<Rightarrow> string" where
  "show_score n = (if n < 0 then ''-'' @ show_count (nat (- n)) else show_count (nat n))"

definition renderNoriReviewGatePrompt :: "NoriReviewGateDecision \<Rightarrow> NoriWorkflowActivity \<Rightarrow> string" where
  "renderNoriReviewGatePrompt d a = join_with eol
     ([''<nori_review_gate mode='' @ quoted (mode_name (rg_mode d))
         @ '' difficulty_score='' @ quoted (show_score (rg_score d))
         @ '' suggested_threshold='' @ quoted (show_score (rg_suggestionThreshold d))
         @ '' required_threshold='' @ quoted (show_score (rg_requiredThreshold d)) @ ''>'',
       ''Reason: '' @ rg_reason d @ ''.'',
       [],
       ''Before final response, make a forward difficulty assessment of this project/task using the observed work in this turn.'',
       ''Observed work: created_files='' @ show_count (filesCreated a)
         @ '', modified_files='' @ show_count (filesModified a)
         @ '', shell_commands='' @ show_count (shellCommandCount a)
         @ '', verification_commands='' @ show_count (verificationCommandCount a)
         @ '', team_assignments='' @ show_count (delegationCount a) @ ''.'']
      @ (if rg_mode d = GM_required
         then [[],
           ''Review is mandatory now. Run review/verification before the final response: assign concrete type/lint/test/regression/diff review tracks to Team members with TeamAssign when the Team tools are available. If a configured graph-check launcher was used, check its result/status and incorporate the result.'',
           ''Do not merely summarize the implementation. Stop only after the review/verification result has been considered, or after reporting the exact blocker that prevents review.'']
         else [[],
           ''Review is suggested, not mandatory. If your own forward difficulty assessment reaches the required threshold, run the review now. Otherwise either ask the user whether to run a review when AskUserQuestion is available, or finish with a concise note that review was optional and not forced.''])
      @ [''</nori_review_gate>''])"

definition renderNoriWorkflowGatePrompt :: "NoriWorkflowGateDecision \<Rightarrow> NoriWorkflowActivity \<Rightarrow> string" where
  "renderNoriWorkflowGatePrompt d a =
     (case (wg_kind d, wg_review d) of
        (GK_review, Some r) \<Rightarrow> renderNoriReviewGatePrompt r a
      | _ \<Rightarrow> join_with eol
          ([''<nori_workflow_gate kind='' @ quoted (kind_name (wg_kind d)) @ '' phase='' @ quoted (wg_phase d)
              @ '' mode='' @ quoted (mode_name (wg_mode d))
              @ (case wg_requiredTool d of None \<Rightarrow> [] | Some tool \<Rightarrow> '' required_tool='' @ quoted tool) @ ''>'',
            ''Reason: '' @ wg_reason d @ ''.'',
            ''Observed work: memory_searches='' @ show_count (memorySearchCount a)
              @ '', memory_writes='' @ show_count (memoryWriteCount a)
              @ '', created_files='' @ show_count (filesCreated a)
              @ '', modified_files='' @ show_count (filesModified a)
              @ '', team_assignments='' @ show_count (delegationCount a) @ ''.'',
            []]
           @ (if wg_kind d = GK_bug_hunt_delegation
              then [''The current task is bug hunting, failure diagnosis, review, audit, regression investigation, or broad problem finding. Do not finish from a single main-agent pass.'',
                    ''Split the investigation into concrete tracks such as type/build, tests, runtime/rendering/UI, permissions/config/settings, persistence/memory/session, and dead/duplicate code. Agree the split with the Team in Discuss, then hand every track out with TeamAssign.'',
                    ''If no Team member exists yet, create only as many members as there are distinct tracks, then assign.'',
                    ''If the Team tools are unavailable, state that exact blocker and continue with the narrowest local verification you can run.'']
              else [''The configured Nori workflow requires memory retrieval before implementation work can be treated as complete.'',
                    ''Call nori_memory_search now with concrete keywords from the user task, touched files, errors, and relevant symbols. Use chain_depth 1-2 when linked decisions or prior reviews may matter.'',
                    ''After reading the retrieved context, compare it with the current implementation and continue only if the approach still holds.''])
           @ [''</nori_workflow_gate>'']))"

definition gate_limit :: "NoriWorkflowConfig \<Rightarrow> GateMode \<Rightarrow> int" where
  "gate_limit c m = (case m of GM_suggested \<Rightarrow> 1 | GM_required \<Rightarrow> maxReviewGateContinuations c)"

definition gate_count :: "NoriWorkflowGateKind \<Rightarrow> NoriTurn \<Rightarrow> nat" where
  "gate_count k t = (case map_get (nt_gateCounts t) k of Some n \<Rightarrow> n | None \<Rightarrow> 0)"

definition buildNoriWorkflowGatePrompt :: "NoriWorkflowConfig option \<Rightarrow> NoriTurn \<Rightarrow> string option \<times> NoriTurn" where
  "buildNoriWorkflowGatePrompt workflow t =
     (case workflow of
        None \<Rightarrow> (None, t)
      | Some c \<Rightarrow>
          (case decideNoriWorkflowGate (Some c) (nt_work t) of
             None \<Rightarrow> (None, t)
           | Some d \<Rightarrow>
               let n = gate_count (wg_kind d) t
               in if int n \<ge> gate_limit c (wg_mode d) then (None, t)
                  else (Some (renderNoriWorkflowGatePrompt d (nt_work t)),
                        t\<lparr>nt_gateCounts := map_put (wg_kind d) (n + 1) (nt_gateCounts t),
                          nt_lastPhase := Some (wg_phase d)\<rparr>)))"

section \<open>The end of a step\<close>

text \<open>What \<open>afterStep\<close> asks for: the reminder appended to the conversation, the new system prompt,
  and whether it returned \<open>stopTurn\<close>.\<close>

record after_step =
  as_gate :: "string option"
  as_prompt :: string
  as_stopTurn :: bool

definition after_step_gates ::
    "NoriWorkflowConfig option \<Rightarrow> bool \<Rightarrow> bool \<Rightarrow> bool \<Rightarrow> string \<Rightarrow> NoriTurn \<Rightarrow> after_step \<times> NoriTurn" where
  "after_step_gates workflow toolUse stopForGoalBudget pendingGoalOutcome prompt t =
     (let (gate, t1) = (if \<not> toolUse \<and> \<not> stopForGoalBudget \<and> \<not> pendingGoalOutcome
                        then buildNoriWorkflowGatePrompt workflow t else (None, t));
          t2 = (if gate \<noteq> None then t1\<lparr>nt_pendingGate := True\<rparr> else t1)
      in case (workflow, nt_phaseAtStepStart t2, nt_lastPhase t2) of
           (Some c, Some p, Some l) \<Rightarrow>
             if \<not> toolUse \<and> \<not> stopForGoalBudget \<and> l \<noteq> p then
               (case checkNoriNoteRules c p t2 of
                  Some hint \<Rightarrow>
                    (\<lparr>as_gate = gate, as_prompt = injectNoriNoteReminder hint prompt, as_stopTurn = False\<rparr>, t2)
                | None \<Rightarrow> (\<lparr>as_gate = gate, as_prompt = prompt, as_stopTurn = True\<rparr>, t2))
             else (\<lparr>as_gate = gate, as_prompt = prompt, as_stopTurn = stopForGoalBudget\<rparr>, t2)
         | _ \<Rightarrow> (\<lparr>as_gate = gate, as_prompt = prompt, as_stopTurn = stopForGoalBudget\<rparr>, t2))"

end
