(* ===== verification/Turn_Tracking_Facts.thy ===== *)
theory Turn_Tracking_Facts
  imports Turn_Tracking
begin

text \<open>
  What the observation of a turn promises, over any sequence of hook calls of the step loop after
  the turn began: the counters count the tool calls, duplicates are recognised, gates are bounded.
\<close>

section \<open>Runs of hooks\<close>

datatype turn_hook =
    Hook_before_step "RuleConfig list option" string
  | Hook_step_begin nat
  | Hook_tool_call ms nat string string json
  | Hook_tool_result ms string ExecutableToolResult
  | Hook_prepare string bool json
  | Hook_finalize string
  | Hook_interrupted bool "nat option" nat
  | Hook_after_step bool bool bool string
  | Hook_gate_continued

text \<open>A run carries the gate prompts it appended so far.\<close>

fun run_hook :: "NoriWorkflowConfig option \<Rightarrow> int \<Rightarrow> NoriTurn \<times> string list \<Rightarrow> turn_hook \<Rightarrow> NoriTurn \<times> string list" where
  "run_hook w i (t, gs) (Hook_before_step rules p) = (snd (before_step_rules rules (w \<noteq> None) p t), gs)"
| "run_hook w i (t, gs) (Hook_step_begin step) = (begin_tracked_step i step t, gs)"
| "run_hook w i (t, gs) (Hook_tool_call now step c n a) = (track_tool_call now i step c n a t, gs)"
| "run_hook w i (t, gs) (Hook_tool_result now c r) = (track_tool_result now c r t, gs)"
| "run_hook w i (t, gs) (Hook_prepare n b a) = (prepare_tool_tracking n b a t, gs)"
| "run_hook w i (t, gs) (Hook_finalize n) = (finalize_tool_tracking n t, gs)"
| "run_hook w i (t, gs) (Hook_interrupted e a n) = (track_interrupted_event False i e a n t, gs)"
| "run_hook w i (t, gs) (Hook_after_step u b g p) =
     (case after_step_gates w u b g p t of
        (r, t1) \<Rightarrow> (t1, gs @ (case as_gate r of None \<Rightarrow> [] | Some x \<Rightarrow> [x])))"
| "run_hook w i (t, gs) Hook_gate_continued = (t\<lparr>nt_pendingGate := False\<rparr>, gs)"

definition run_hooks ::
    "NoriWorkflowConfig option \<Rightarrow> int \<Rightarrow> ContentPart list \<Rightarrow> PromptOrigin \<Rightarrow> NoriTurn \<Rightarrow> turn_hook list
      \<Rightarrow> NoriTurn \<times> string list" where
  "run_hooks w i input og t hs =
     run_ops (run_hook w i) (begin_turn_tracking (w \<noteq> None) False i input og t, []) hs"

section \<open>Frames\<close>

lemma work_frame [simp]:
  "nt_work (track e t) = nt_work t" "nt_gateCounts (track e t) = nt_gateCounts t"
  "nt_stepKeys (track e t) = nt_stepKeys t"
  by (simp_all add: track_def)

lemma dup_frame:
  "nt_work (snd (trackDuplicateToolCall i st n a t)) = nt_work t"
  "nt_gateCounts (snd (trackDuplicateToolCall i st n a t)) = nt_gateCounts t"
  by (simp_all add: trackDuplicateToolCall_def Let_def)

lemma count_frame [simp]:
  "nt_stepKeys (count_tool_call n a t) = nt_stepKeys t"
  "nt_gateCounts (count_tool_call n a t) = nt_gateCounts t"
  by (simp_all add: count_tool_call_def Let_def)

lemma tool_call_frame [simp]:
  "nt_gateCounts (track_tool_call now i st c n a t) = nt_gateCounts t"
  by (simp add: track_tool_call_def case_prod_unfold dup_frame)

lemma before_frame [simp]:
  "nt_work (snd (before_step_rules rs w p t)) = nt_work t"
  "nt_gateCounts (snd (before_step_rules rs w p t)) = nt_gateCounts t"
  "nt_stepKeys (snd (before_step_rules rs w p t)) = nt_stepKeys t"
  by (simp_all add: before_step_rules_def Let_def split: option.split)

lemma result_frame [simp]:
  "nt_work (track_tool_result now c r t) = nt_work t"
  "nt_gateCounts (track_tool_result now c r t) = nt_gateCounts t"
  "nt_stepKeys (track_tool_result now c r t) = nt_stepKeys t"
  by (simp_all add: track_tool_result_def Let_def split: option.split)

lemma interrupted_frame [simp]:
  "nt_work (track_interrupted_event d i e a n t) = nt_work t"
  "nt_gateCounts (track_interrupted_event d i e a n t) = nt_gateCounts t"
  "nt_stepKeys (track_interrupted_event d i e a n t) = nt_stepKeys t"
  by (simp_all add: track_interrupted_event_def trackTurnInterrupted_def Let_def)

lemma prepare_frame [simp]:
  "nt_work (prepare_tool_tracking n b a t) = nt_work t"
  "nt_gateCounts (prepare_tool_tracking n b a t) = nt_gateCounts t"
  "nt_stepKeys (prepare_tool_tracking n b a t) = nt_stepKeys t"
  "nt_work (finalize_tool_tracking n t) = nt_work t"
  "nt_gateCounts (finalize_tool_tracking n t) = nt_gateCounts t"
  "nt_stepKeys (finalize_tool_tracking n t) = nt_stepKeys t"
  by (simp_all add: prepare_tool_tracking_def finalize_tool_tracking_def Let_def split: json.split option.split)

lemma build_frame [simp]:
  "nt_work (snd (buildNoriWorkflowGatePrompt w t)) = nt_work t"
  "nt_stepKeys (snd (buildNoriWorkflowGatePrompt w t)) = nt_stepKeys t"
  by (simp_all add: buildNoriWorkflowGatePrompt_def Let_def split: option.split)

text \<open>The end of a step changes what the gate changes, and the mark of the pending gate.\<close>

definition asked :: "NoriWorkflowConfig option \<Rightarrow> bool \<Rightarrow> bool \<Rightarrow> bool \<Rightarrow> NoriTurn \<Rightarrow> string option \<times> NoriTurn" where
  "asked w u b g t = (if \<not> u \<and> \<not> b \<and> \<not> g then buildNoriWorkflowGatePrompt w t else (None, t))"

lemma after_step_frame:
  "as_gate (fst (after_step_gates w u b g p t)) = fst (asked w u b g t)"
  "nt_work (snd (after_step_gates w u b g p t)) = nt_work t"
  "nt_stepKeys (snd (after_step_gates w u b g p t)) = nt_stepKeys t"
  "nt_gateCounts (snd (after_step_gates w u b g p t)) = nt_gateCounts (snd (asked w u b g t))"
proof -
  define a where "a = asked w u b g t"
  define t2 where "t2 = (if fst a \<noteq> None then snd a\<lparr>nt_pendingGate := True\<rparr> else snd a)"
  have t2: "nt_work t2 = nt_work t" "nt_stepKeys t2 = nt_stepKeys t" "nt_gateCounts t2 = nt_gateCounts (snd a)"
    by (auto simp: t2_def a_def asked_def)
  have "\<exists>pr st. after_step_gates w u b g p t = (\<lparr>as_gate = fst a, as_prompt = pr, as_stopTurn = st\<rparr>, t2)"
    unfolding after_step_gates_def Let_def case_prod_unfold asked_def [symmetric] a_def [symmetric]
      t2_def [symmetric]
    by (cases w; cases "nt_phaseAtStepStart t2"; cases "nt_lastPhase t2") (auto split: option.split)
  then show "as_gate (fst (after_step_gates w u b g p t)) = fst (asked w u b g t)"
    "nt_work (snd (after_step_gates w u b g p t)) = nt_work t"
    "nt_stepKeys (snd (after_step_gates w u b g p t)) = nt_stepKeys t"
    "nt_gateCounts (snd (after_step_gates w u b g p t)) = nt_gateCounts (snd (asked w u b g t))"
    using t2 by (auto simp: a_def)
qed

section \<open>Counters\<close>

fun called :: "turn_hook \<Rightarrow> (nat \<times> string \<times> json) list" where
  "called (Hook_tool_call now step c n a) = [(step, n, a)]"
| "called _ = []"

definition calls_of :: "turn_hook list \<Rightarrow> (nat \<times> string \<times> json) list" where
  "calls_of hs = concat (map called hs)"

definition times_of :: "(string \<Rightarrow> json \<Rightarrow> bool) \<Rightarrow> (nat \<times> string \<times> json) list \<Rightarrow> nat" where
  "times_of P cs = length (filter (\<lambda>(s, n, a). P n a) cs)"

definition work_of :: "string \<Rightarrow> (nat \<times> string \<times> json) list \<Rightarrow> NoriWorkflowActivity" where
  "work_of txt1 cs =
     \<lparr>filesCreated = times_of (\<lambda>n a. n = ''Write'') cs,
      filesModified = times_of (\<lambda>n a. n = ''Edit'') cs,
      testFilesCreated = times_of (\<lambda>n a. (n = ''Write'' \<or> n = ''Edit'') \<and> isTestFilePath (toolFilePath a)) cs,
      shellCommandCount = times_of (\<lambda>n a. n = ''Bash'') cs,
      verificationCommandCount = times_of (\<lambda>n a. n = ''Bash'' \<and> isVerificationCommand a) cs,
      delegationCount = times_of (\<lambda>n a. n = ''TeamAssign'') cs,
      memorySearchCount = times_of (\<lambda>n a. n = ''nori_memory_search'') cs,
      memoryWriteCount = times_of (\<lambda>n a. n = ''nori_memory_write'') cs,
      userPromptText = txt1\<rparr>"

lemma times_of_simps [simp]:
  "times_of P [] = 0"
  "times_of P (cs @ [(s, n, a)]) = times_of P cs + (if P n a then 1 else 0)"
  by (simp_all add: times_of_def)

lemma count_work:
  "nt_work t = work_of x cs \<Longrightarrow> nt_work (count_tool_call n a t) = work_of x (cs @ [(s, n, a)])"
  by (simp add: count_tool_call_def Let_def work_of_def)

lemma track_call_work:
  "nt_work t = work_of x cs \<Longrightarrow>
   nt_work (track_tool_call now i st c n a t) = work_of x (cs @ [(st, n, a)])"
  unfolding track_tool_call_def case_prod_unfold
  by (rule count_work) (simp add: dup_frame)

lemma hook_work:
  "nt_work (fst s) = work_of x cs \<Longrightarrow> nt_work (fst (run_hook w i s h)) = work_of x (cs @ called h)"
  by (cases s; cases h)
    (simp_all add: track_call_work begin_tracked_step_def after_step_frame case_prod_unfold)

lemma hooks_work:
  "nt_work (fst s) = work_of x cs \<Longrightarrow>
   nt_work (fst (run_ops (run_hook w i) s hs)) = work_of x (cs @ calls_of hs)"
proof (induction hs arbitrary: s cs)
  case (Cons h hs)
  from Cons.IH [OF hook_work [OF Cons.prems]] show ?case by (simp add: calls_of_def)
qed (simp add: calls_of_def)

text \<open>
  The work that the review gate judges is the work of the turn: after any sequence of hook
  calls of the step loop, the counters of files, tests, commands, verification runs, assignments and
  memory calls are the numbers of such tool calls since the turn began, whatever earlier turns did.\<close>

theorem turn_work_counted:
  "nt_work (fst (run_hooks w i input og t hs)) = work_of (contentPartsText input) (calls_of hs)"
proof -
  have "nt_work (begin_turn_tracking v d i input og t) = work_of (contentPartsText input) []" for v d
    by (simp add: begin_turn_tracking_def Let_def no_work_def work_of_def)
  then show ?thesis
    unfolding run_hooks_def
    using hooks_work [of "(begin_turn_tracking (w \<noteq> None) False i input og t, [])" _ "[]"]
    by (metis append_Nil fst_conv)
qed

section \<open>Duplicates\<close>

definition key_of :: "nat \<times> string \<times> json \<Rightarrow> nat \<times> call_key" where
  "key_of c = (case c of (s, n, a) \<Rightarrow> (s, n, canonicalTelemetryArgs a))"

text \<open>The reference: what the calls made so far in the turn say of the next one.\<close>

definition dup_of :: "(nat \<times> string \<times> json) list \<Rightarrow> nat \<Rightarrow> string \<Rightarrow> json \<Rightarrow> DupType" where
  "dup_of cs step n a =
     (let k = (n, canonicalTelemetryArgs a); seen = map key_of cs
      in if (step, k) \<in> set seen then Dup_same_step
         else if k \<in> snd ` set seen then Dup_cross_step else Dup_normal)"

definition keys_match :: "(nat \<times> call_key list) list \<Rightarrow> (nat \<times> string \<times> json) list \<Rightarrow> bool" where
  "keys_match m cs \<longleftrightarrow> keys_ok m \<and>
     (\<forall>s k. (s, k) \<in> set (map key_of cs) \<longleftrightarrow> (\<exists>ks. map_get m s = Some ks \<and> k \<in> set ks))"

lemma dup_match:
  assumes "keys_match (nt_stepKeys t) cs"
  shows "fst (trackDuplicateToolCall i st n a t) = dup_of cs st n a"
    and "keys_match (nt_stepKeys (snd (trackDuplicateToolCall i st n a t))) (cs @ [(st, n, a)])"
proof -
  let ?m = "nt_stepKeys t" and ?k = "(n, canonicalTelemetryArgs a)"
  let ?ks = "case map_get ?m st of Some ks \<Rightarrow> ks | None \<Rightarrow> []"
  from assms have ok: "keys_ok ?m" and
    iff: "\<And>s k. (s, k) \<in> set (map key_of cs) \<longleftrightarrow> (\<exists>ks. map_get ?m s = Some ks \<and> k \<in> set ks)"
    unfolding keys_match_def by blast+
  have same: "?k \<in> set ?ks \<longleftrightarrow> (st, ?k) \<in> set (map key_of cs)"
    unfolding iff by (cases "map_get ?m st") auto
  let ?m1 = "map_put st ?ks ?m"
  have ok1: "keys_ok ?m1" using ok by (rule keys_ok_put)
  have prior: "list_ex (\<lambda>(s, ks). s \<noteq> st \<and> ?k \<in> set ks) ?m1 \<longleftrightarrow>
      (\<exists>s. s \<noteq> st \<and> (s, ?k) \<in> set (map key_of cs))"
  proof -
    have "list_ex (\<lambda>(s, ks). s \<noteq> st \<and> ?k \<in> set ks) ?m1 \<longleftrightarrow>
        (\<exists>s ks. map_get ?m1 s = Some ks \<and> s \<noteq> st \<and> ?k \<in> set ks)"
      using ok1 by (auto simp: list_ex_iff simp del: map_get_put)
    then show ?thesis unfolding iff by auto
  qed
  have img: "?k \<in> snd ` set (map key_of cs) \<longleftrightarrow> (\<exists>s. (s, ?k) \<in> set (map key_of cs))"
    by (metis (no_types, lifting) image_iff prod.collapse snd_conv)
  show "fst (trackDuplicateToolCall i st n a t) = dup_of cs st n a"
  proof -
    have "fst (trackDuplicateToolCall i st n a t) =
        (if ?k \<in> set ?ks then Dup_same_step
         else if list_ex (\<lambda>(s, ks). s \<noteq> st \<and> ?k \<in> set ks) ?m1 then Dup_cross_step else Dup_normal)"
      by (simp add: trackDuplicateToolCall_def Let_def hasPriorStepToolCallKey_def)
    also have "\<dots> = dup_of cs st n a"
      unfolding same prior dup_of_def Let_def img
      by (rule if_cong [OF refl refl], rule if_cong [OF _ refl refl]) metis
    finally show ?thesis .
  qed
  have put: "nt_stepKeys (snd (trackDuplicateToolCall i st n a t)) = map_put st (oset_add ?k ?ks) ?m1"
    by (simp add: trackDuplicateToolCall_def Let_def)
  show "keys_match (nt_stepKeys (snd (trackDuplicateToolCall i st n a t))) (cs @ [(st, n, a)])"
    unfolding keys_match_def put
  proof (intro conjI allI)
    show "keys_ok (map_put st (oset_add ?k ?ks) ?m1)" using ok1 by (rule keys_ok_put)
    fix s k
    have "(s, k) \<in> set (map key_of (cs @ [(st, n, a)])) \<longleftrightarrow>
        (s, k) \<in> set (map key_of cs) \<or> s = st \<and> k = ?k"
      by (auto simp: key_of_def)
    also have "\<dots> \<longleftrightarrow> (\<exists>ks. map_get (map_put st (oset_add ?k ?ks) ?m1) s = Some ks \<and> k \<in> set ks)"
      unfolding iff by (cases "map_get ?m st") auto
    finally show "(s, k) \<in> set (map key_of (cs @ [(st, n, a)])) \<longleftrightarrow>
        (\<exists>ks. map_get (map_put st (oset_add ?k ?ks) ?m1) s = Some ks \<and> k \<in> set ks)" .
  qed
qed

lemma keys_match_empty_step:
  "keys_match m cs \<Longrightarrow> map_get m s = None \<Longrightarrow> keys_match (map_put s [] m) cs"
  by (auto simp: keys_match_def)

lemma hook_keys:
  assumes "keys_match (nt_stepKeys (fst s)) cs"
  shows "keys_match (nt_stepKeys (fst (run_hook w i s h))) (cs @ called h)"
proof (cases s)
  case (Pair t gs)
  show ?thesis
  proof (cases h)
    case (Hook_tool_call now st c n a)
    have "nt_stepKeys (track_tool_call now i st c n a t) = nt_stepKeys (snd (trackDuplicateToolCall i st n a t))"
      by (simp add: track_tool_call_def case_prod_unfold)
    then show ?thesis using dup_match(2) assms Pair Hook_tool_call by simp
  next
    case (Hook_step_begin st)
    then show ?thesis using assms Pair keys_match_empty_step by (simp add: begin_tracked_step_def)
  qed (use assms Pair in \<open>simp_all add: after_step_frame case_prod_unfold\<close>)
qed

lemma hooks_keys:
  "keys_match (nt_stepKeys (fst s)) cs \<Longrightarrow>
   keys_match (nt_stepKeys (fst (run_ops (run_hook w i) s hs))) (cs @ calls_of hs)"
proof (induction hs arbitrary: s cs)
  case (Cons h hs)
  from Cons.IH [OF hook_keys [OF Cons.prems]] show ?case by (simp add: calls_of_def)
qed (simp add: calls_of_def)

text \<open>
  Telemetry reports a tool call as a duplicate exactly when the turn has made the same call
  before (same tool, same arguments up to the order of their keys): in the same step, or else in
  another step. Calls of earlier turns, failed calls and the order of the steps do not matter.\<close>

theorem duplicates_recognised:
  "fst (trackDuplicateToolCall i step n a (fst (run_hooks w i input og t hs))) = dup_of (calls_of hs) step n a"
proof (rule dup_match(1))
  have "keys_match (nt_stepKeys (begin_turn_tracking v d i input og t)) []" for v d
    by (simp add: begin_turn_tracking_def Let_def keys_match_def)
  then show "keys_match (nt_stepKeys (fst (run_hooks w i input og t hs))) (calls_of hs)"
    unfolding run_hooks_def
    using hooks_keys [of "(begin_turn_tracking (w \<noteq> None) False i input og t, [])" "[]"]
    by (metis append_Nil fst_conv)
qed

section \<open>Gates\<close>

definition all_kinds :: "NoriWorkflowGateKind list" where
  "all_kinds = [GK_bug_hunt_delegation, GK_memory_search, GK_review]"

definition gates_counted :: "NoriWorkflowConfig \<Rightarrow> NoriTurn \<times> string list \<Rightarrow> bool" where
  "gates_counted c s \<longleftrightarrow> length (snd s) = sum_list (map (\<lambda>k. gate_count k (fst s)) all_kinds)
     \<and> (\<forall>k \<in> set all_kinds. int (gate_count k (fst s)) \<le> max 1 (maxReviewGateContinuations c))"

lemma gate_count_cong: "nt_gateCounts t = nt_gateCounts t' \<Longrightarrow> gate_count k t = gate_count k t'"
  by (simp add: gate_count_def)

lemma in_all_kinds: "k \<in> set all_kinds"
  by (cases k) (simp_all add: all_kinds_def)

lemma sum_bump: "(\<forall>k'. f k' = (if k' = k then g k' + 1 else g k')) \<Longrightarrow>
   sum_list (map f all_kinds) = sum_list (map g all_kinds) + (1 :: nat)"
  by (cases k) (simp_all add: all_kinds_def)

lemma asked_counted:
  assumes "gates_counted c (t, gs)"
  shows "gates_counted c (snd (asked (Some c) u b g t), gs @ (case fst (asked (Some c) u b g t) of None \<Rightarrow> [] | Some x \<Rightarrow> [x]))"
proof (cases "\<not> u \<and> \<not> b \<and> \<not> g")
  case False
  then show ?thesis using assms by (auto simp: asked_def)
next
  case True
  then have a: "asked (Some c) u b g t = buildNoriWorkflowGatePrompt (Some c) t" by (simp add: asked_def)
  show ?thesis
  proof (cases "decideNoriWorkflowGate (Some c) (nt_work t)")
    case None
    then show ?thesis using assms by (simp add: a buildNoriWorkflowGatePrompt_def)
  next
    case (Some d)
    let ?n = "gate_count (wg_kind d) t"
    show ?thesis
    proof (cases "int ?n \<ge> gate_limit c (wg_mode d)")
      case True
      then show ?thesis using assms Some by (simp add: a buildNoriWorkflowGatePrompt_def)
    next
      case False
      let ?t = "t\<lparr>nt_gateCounts := map_put (wg_kind d) (?n + 1) (nt_gateCounts t), nt_lastPhase := Some (wg_phase d)\<rparr>"
      have b: "asked (Some c) u b g t = (Some (renderNoriWorkflowGatePrompt d (nt_work t)), ?t)"
        using False Some by (simp add: a buildNoriWorkflowGatePrompt_def)
      have cnt: "\<forall>k. gate_count k ?t = (if k = wg_kind d then gate_count k t + 1 else gate_count k t)"
        by (simp add: gate_count_def)
      have lim: "int ?n + 1 \<le> max 1 (maxReviewGateContinuations c)"
        using False by (simp add: gate_limit_def split: GateMode.splits)
      have len: "length gs = sum_list (map (\<lambda>k. gate_count k t) all_kinds)"
        and le: "\<forall>k \<in> set all_kinds. int (gate_count k t) \<le> max 1 (maxReviewGateContinuations c)"
        using assms unfolding gates_counted_def fst_conv snd_conv by blast+
      show ?thesis
        unfolding b gates_counted_def fst_conv snd_conv
      proof (intro conjI ballI)
        show "length (gs @ (case Some (renderNoriWorkflowGatePrompt d (nt_work t)) of None \<Rightarrow> [] | Some x \<Rightarrow> [x]))
            = sum_list (map (\<lambda>k. gate_count k ?t) all_kinds)"
          using sum_bump [OF cnt] len by simp
        fix k assume k: "k \<in> set all_kinds"
        show "int (gate_count k ?t) \<le> max 1 (maxReviewGateContinuations c)"
          using cnt lim le k by (cases "k = wg_kind d") simp_all
      qed
    qed
  qed
qed

lemma gates_counted_cong:
  "nt_gateCounts t = nt_gateCounts t' \<Longrightarrow> gates_counted c (t, gs) \<longleftrightarrow> gates_counted c (t', gs)"
  unfolding gates_counted_def fst_conv snd_conv by (simp add: gate_count_cong [of t t'])

lemma hook_gates:
  assumes "gates_counted c s"
  shows "gates_counted c (run_hook (Some c) i s h)"
proof (cases s)
  case (Pair t gs)
  show ?thesis
  proof (cases h)
    case (Hook_after_step u b g p)
    have "gates_counted c (snd (after_step_gates (Some c) u b g p t),
        gs @ (case fst (asked (Some c) u b g t) of None \<Rightarrow> [] | Some x \<Rightarrow> [x]))"
      using asked_counted [of c t gs u b g] assms Pair
      by (subst gates_counted_cong [OF after_step_frame(4)]) simp
    then show ?thesis using Pair Hook_after_step by (simp add: case_prod_unfold after_step_frame)
  qed (use assms Pair in \<open>auto simp: begin_tracked_step_def gates_counted_def gate_count_def\<close>)
qed

interpretation gates: invariant_component "run_hook (Some c) i" "gates_counted c"
  by unfold_locales (rule hook_gates)

text \<open>
  A turn is held back by the workflow gates only a bounded number of times. With the workflow
  configuration of the project file, whatever the step loop does, a turn gets at most three times
  \<open>maxReviewGateContinuations\<close> gate prompts, so never more than fifteen.\<close>

theorem turn_gates_bounded:
  assumes "resolveNoriWorkflowConfig r = Some c"
  shows "length (snd (run_hooks (Some c) i input og t hs)) \<le> 3 * nat (maxReviewGateContinuations c)
    \<and> length (snd (run_hooks (Some c) i input og t hs)) \<le> 15"
proof -
  let ?s = "run_hooks (Some c) i input og t hs"
  from resolve_bounds [OF assms] have b: "1 \<le> maxReviewGateContinuations c" "maxReviewGateContinuations c \<le> 5"
    by auto
  have "gates_counted c (begin_turn_tracking (Some c \<noteq> None) False i input og t, [])"
    using b by (simp add: gates_counted_def gate_count_def begin_turn_tracking_def Let_def all_kinds_def)
  then have "gates_counted c ?s" unfolding run_hooks_def by (rule gates.run_inv)
  then have "length (snd ?s) = sum_list (map (\<lambda>k. gate_count k (fst ?s)) all_kinds)"
    "int (gate_count GK_bug_hunt_delegation (fst ?s)) \<le> maxReviewGateContinuations c"
    "int (gate_count GK_memory_search (fst ?s)) \<le> maxReviewGateContinuations c"
    "int (gate_count GK_review (fst ?s)) \<le> maxReviewGateContinuations c"
    using b in_all_kinds by (auto simp: gates_counted_def)
  then show ?thesis using b by (simp add: all_kinds_def)
qed

lemma turn_gates_bounded_witness:
  "length (snd (run_hooks (Some DEFAULT_NORI_WORKFLOW_CONFIG) 0 [] USER_PROMPT_ORIGIN new_turn_state
      (replicate 9 (Hook_after_step False False False []))))
     \<le> 3 * nat (maxReviewGateContinuations DEFAULT_NORI_WORKFLOW_CONFIG)
   \<and> length (snd (run_hooks (Some DEFAULT_NORI_WORKFLOW_CONFIG) 0 [] USER_PROMPT_ORIGIN new_turn_state
      (replicate 9 (Hook_after_step False False False [])))) \<le> 15"
proof (rule turn_gates_bounded)
  have r: "js_round 4 = 4" "js_round 7 = 7" "js_round 2 = 2"
    using js_round_int(1) [of 4] js_round_int(1) [of 7] js_round_int(1) [of 2] by simp_all
  show "resolveNoriWorkflowConfig (Some []) = Some DEFAULT_NORI_WORKFLOW_CONFIG"
    by (simp add: resolveNoriWorkflowConfig_def prop_of_def DEFAULT_NORI_WORKFLOW_CONFIG_def default_num_def
        clampScore_def clampInteger_def r hasWorkflowToolStep_def hasEnforcedRule_def)
qed

end
