(* ===== verification/Turn_Results.thy ===== *)
theory Turn_Results
  imports Js_Text Tool_Dedup
begin

text \<open>
  What the turn driver hands to the model around a step: the result of a tool cut to a preview when
  it is too long (\<open>agent/turn/tool-result-budget.ts\<close>), the messages of the prompt hooks
  (\<open>session/hooks/user-prompt.ts\<close>), and the settings of the wait for background work
  (\<open>agent/turn/goal-background-idle.ts\<close>).

  \<open>join\<close> is the path join of the library pathe, and \<open>save\<close> says whether the file could be written
  (its directory made, the file new). The length in bytes is that of the UTF-8 form of a Latin-1
  text.

  The lemmas: what the model gets is bounded although nothing is lost, and the name of the file
  cannot leave its directory.
\<close>

section \<open>The budget of a tool result\<close>

definition TOOL_RESULT_MAX_CHARS :: nat where "TOOL_RESULT_MAX_CHARS = 50000"
definition TOOL_RESULT_PREVIEW_CHARS :: nat where "TOOL_RESULT_PREVIEW_CHARS = 2000"

definition persistableToolResultText :: "string + ContentPart list \<Rightarrow> string option" where
  "persistableToolResultText out =
     (case out of
        Inl t \<Rightarrow> Some t
      | Inr parts \<Rightarrow> if \<not> list_all is_text parts then None else Some (concat (map part_text parts)))"

definition is_stem_char :: "char \<Rightarrow> bool" where
  "is_stem_char c = (let n = of_char c :: nat in
     97 \<le> n \<and> n \<le> 122 \<or> 65 \<le> n \<and> n \<le> 90 \<or> 48 \<le> n \<and> n \<le> 57 \<or> c \<in> set ''._-'')"

text \<open>\<open>replace(/[^a-zA-Z0-9._-]+/g, '_')\<close>; \<open>run\<close> says whether the character before was replaced.\<close>

fun squash :: "bool \<Rightarrow> string \<Rightarrow> string" where
  "squash run [] = []"
| "squash run (c # cs) =
     (if is_stem_char c then c # squash False cs
      else if run then squash True cs else CHR ''_'' # squash True cs)"

definition strip_underscores :: "string \<Rightarrow> string" where
  "strip_underscores s = rev (dropWhile (\<lambda>c. c = CHR ''_'') (rev (dropWhile (\<lambda>c. c = CHR ''_'') s)))"

definition safeToolResultFileStem :: "string \<Rightarrow> string \<Rightarrow> string" where
  "safeToolResultFileStem toolName call_id =
     (let label = take 80 (strip_underscores (squash False (toolName @ ''-'' @ call_id)))
      in if length label = 0 then ''tool-result'' else label)"

definition utf8_length :: "string \<Rightarrow> nat" where
  "utf8_length s = sum_list (map (\<lambda>c. if (of_char c :: nat) < 128 then 1 else 2) s)"

definition renderPersistedToolResult :: "string \<Rightarrow> string \<Rightarrow> string \<Rightarrow> string \<Rightarrow> string" where
  "renderPersistedToolResult toolName call_id t outputPath = join_with eol
     [''Tool output exceeded '' @ show_count TOOL_RESULT_MAX_CHARS @ '' characters; showing a preview only.'',
      ''tool_name: '' @ toolName,
      ''tool_call_id: '' @ call_id,
      ''output_size_chars: '' @ show_count (length t),
      ''output_size_bytes: '' @ show_count (utf8_length t),
      ''output_path: '' @ outputPath,
      ''next_step: Use Read with output_path to page through the full output.'',
      [], ''[preview]'', take TOOL_RESULT_PREVIEW_CHARS t]"

definition saveToolResult ::
    "(string \<Rightarrow> string \<Rightarrow> string) \<Rightarrow> (string \<Rightarrow> bool) \<Rightarrow> string \<Rightarrow> string \<Rightarrow> string \<Rightarrow> string \<Rightarrow> string option" where
  "saveToolResult join save uuid homedir toolName call_id =
     (let dir = join homedir ''tool-results'';
          outputPath = join dir (safeToolResultFileStem toolName call_id @ ''-'' @ uuid @ ''.txt'')
      in if save outputPath then Some outputPath else None)"

text \<open>The result for the model, with the file written, if one was.\<close>

definition budgetToolResultForModel ::
    "(string \<Rightarrow> string \<Rightarrow> string) \<Rightarrow> (string \<Rightarrow> bool) \<Rightarrow> string \<Rightarrow> string option \<Rightarrow> string \<Rightarrow> string
      \<Rightarrow> LoopToolResult \<Rightarrow> LoopToolResult \<times> (string \<times> string) option" where
  "budgetToolResultForModel join save uuid homedir toolName call_id r =
     (case persistableToolResultText (tr_output r) of
        None \<Rightarrow> (r, None)
      | Some t \<Rightarrow>
          if length t \<le> TOOL_RESULT_MAX_CHARS then (r, None)
          else if tr_truncated r = Some True then (r, None)
          else (case homedir of
                  None \<Rightarrow> (r, None)
                | Some home \<Rightarrow>
                    (case saveToolResult join save uuid home toolName call_id of
                       None \<Rightarrow> (r, None)
                     | Some outputPath \<Rightarrow>
                         let out = renderPersistedToolResult toolName call_id t outputPath
                         in (if tr_isError r = Some True
                             then r\<lparr>tr_output := Inl out, tr_isError := Some True\<rparr>
                             else r\<lparr>tr_output := Inl out\<rparr>, Some (outputPath, t)))))"

section \<open>Messages of the prompt hooks\<close>

record HookResult =
  hr_block :: bool
  hr_message :: "string option"
  hr_reason :: "string option"
  hr_stdout :: "string option"
  hr_exitCode :: "int option"
  hr_timedOut :: "bool option"

record RenderedHookResult =
  rh_event :: string
  rh_message :: string
  rh_text :: string

definition renderHookResult :: "string \<Rightarrow> string \<Rightarrow> string" where
  "renderHookResult event m =
     ''<hook_result hook_event='' @ [CHR 0x22] @ event @ [CHR 0x22] @ ''>'' @ eol @ m @ eol @ ''</hook_result>''"

definition userPromptHookMessage :: "HookResult \<Rightarrow> string option" where
  "userPromptHookMessage r =
     (if hr_timedOut r = Some True \<or> (hr_exitCode r \<noteq> None \<and> hr_exitCode r \<noteq> Some 0) then None
      else case map_option js_trim (hr_message r) of
             Some (c # cs) \<Rightarrow> Some (c # cs)
           | _ \<Rightarrow> (case map_option js_trim (hr_stdout r) of Some (c # cs) \<Rightarrow> Some (c # cs) | _ \<Rightarrow> None))"

definition renderUserPromptHookResult :: "HookResult list option \<Rightarrow> RenderedHookResult option" where
  "renderUserPromptHookResult results =
     (let messages = (case results of
            None \<Rightarrow> []
          | Some rs \<Rightarrow> filter (\<lambda>m. length m > 0)
                         (List.map_filter userPromptHookMessage (filter (\<lambda>r. \<not> hr_block r) rs)))
      in if length messages = 0 then None
         else Some \<lparr>rh_event = ''UserPromptSubmit'',
                    rh_message = join_with (eol @ eol) messages,
                    rh_text = join_with eol (map (renderHookResult ''UserPromptSubmit'') messages)\<rparr>)"

definition renderUserPromptHookBlockResult :: "HookResult list option \<Rightarrow> RenderedHookResult option" where
  "renderUserPromptHookBlockResult results =
     (case List.find hr_block (case results of None \<Rightarrow> [] | Some rs \<Rightarrow> rs) of
        None \<Rightarrow> None
      | Some b \<Rightarrow>
          let rendered = (\<lambda>m. Some \<lparr>rh_event = ''UserPromptSubmit'', rh_message = m,
                                  rh_text = renderHookResult ''UserPromptSubmit'' m\<rparr>)
          in case map_option js_trim (hr_message b) of
               Some (c # cs) \<Rightarrow> rendered (c # cs)
             | _ \<Rightarrow>
                 (case map_option js_trim (hr_reason b) of
                    Some (c # cs) \<Rightarrow> rendered (c # cs)
                  | _ \<Rightarrow> rendered ''Blocked by UserPromptSubmit hook''))"

section \<open>Waiting for background work\<close>

definition DEFAULT_GOAL_BACKGROUND_IDLE_MINUTES :: int where
  "DEFAULT_GOAL_BACKGROUND_IDLE_MINUTES = 5"

text \<open>\<open>Some None\<close> is a configured number that is not finite.\<close>

definition resolveGoalBackgroundIdleMinutes :: "rat option option \<Rightarrow> int" where
  "resolveGoalBackgroundIdleMinutes configured =
     (case configured of
        None \<Rightarrow> DEFAULT_GOAL_BACKGROUND_IDLE_MINUTES
      | Some None \<Rightarrow> DEFAULT_GOAL_BACKGROUND_IDLE_MINUTES
      | Some (Some x) \<Rightarrow> if x < 0 then DEFAULT_GOAL_BACKGROUND_IDLE_MINUTES else \<lfloor>x\<rfloor>)"

definition hasUnfinishedBackgroundTasks :: "'a list \<Rightarrow> bool" where
  "hasUnfinishedBackgroundTasks tasks \<longleftrightarrow> length tasks > 0"

definition shouldSuppressGoalContinuationForBackground :: "'a list \<Rightarrow> bool" where
  "shouldSuppressGoalContinuationForBackground tasks = hasUnfinishedBackgroundTasks tasks"

definition hasStepBudgetRemaining :: "int option \<Rightarrow> int \<Rightarrow> bool" where
  "hasStepBudgetRemaining maxSteps currentStep =
     (case maxSteps of None \<Rightarrow> True | Some m \<Rightarrow> m \<le> 0 \<or> currentStep < m)"

section \<open>What holds\<close>

lemma squash_chars: "c \<in> set (squash run s) \<Longrightarrow> is_stem_char c"
proof (induction s arbitrary: run)
  case (Cons a s)
  have "is_stem_char (CHR ''_'')" by (simp add: is_stem_char_def)
  then show ?case using Cons by (auto split: if_splits)
qed simp

lemma strip_chars: "c \<in> set (strip_underscores s) \<Longrightarrow> c \<in> set s"
  unfolding strip_underscores_def by (metis set_dropWhileD set_rev)

lemma stem_chars: "list_all is_stem_char (safeToolResultFileStem n i)"
proof -
  have d: "list_all is_stem_char ''tool-result''" by code_simp
  have "is_stem_char c" if "c \<in> set (take 80 (strip_underscores (squash False t)))" for c t
    using that squash_chars strip_chars in_set_takeD by metis
  then show ?thesis using d by (auto simp: safeToolResultFileStem_def Let_def list_all_iff)
qed

text \<open>
  The file name that holds a long tool result is harmless whatever the tool name and call id are:
  between one and eighty characters of letters, digits, dots, dashes and underscores, so no path
  separator, and it cannot leave the directory of the results.\<close>

theorem result_file_name_safe:
  "list_all is_stem_char (safeToolResultFileStem n i) \<and> CHR ''/'' \<notin> set (safeToolResultFileStem n i)
   \<and> 1 \<le> length (safeToolResultFileStem n i) \<and> length (safeToolResultFileStem n i) \<le> 80"
proof -
  have "\<not> is_stem_char (CHR ''/'')" by (simp add: is_stem_char_def)
  moreover have "1 \<le> length (safeToolResultFileStem n i) \<and> length (safeToolResultFileStem n i) \<le> 80"
    by (simp add: safeToolResultFileStem_def Let_def Suc_le_eq)
  ultimately show ?thesis using stem_chars [of n i] by (auto simp: list_all_iff)
qed

lemma show_digits_small: "n < 10 ^ k \<Longrightarrow> length (show_digits fuel n) \<le> max 1 k"
proof (induction fuel arbitrary: n k)
  case (Suc f)
  show ?case
  proof (cases "n < 10")
    case False
    then obtain k' where k: "k = Suc k'" using Suc.prems by (cases k) auto
    have "n div 10 < 10 ^ k'" using Suc.prems k by (simp add: less_mult_imp_div_less mult.commute)
    from Suc.IH [OF this] have "length (show_digits f (n div 10)) \<le> max 1 k'" .
    moreover have "k' \<noteq> 0" using False Suc.prems k by (cases k') auto
    ultimately show ?thesis using False k by simp
  qed simp
qed simp

lemma show_count_small: "n < 10 ^ k \<Longrightarrow> length (show_count n) \<le> max 1 k"
  unfolding show_count_def by (rule show_digits_small)

lemma utf8_length_le: "utf8_length s \<le> 2 * length s"
  by (induction s) (simp_all add: utf8_length_def)

text \<open>
  What the model reads of a tool result is bounded and nothing is lost. When the agent has a home
  directory and the file can be written, a text result that was not truncated before is handed on as
  it is up to 50,000 characters; a longer one is replaced by a notice with its first 2,000
  characters, itself shorter than 3,000 characters plus the names of the tool, of the call and of the
  file, and the file holds the whole text.\<close>

theorem long_results_previewed:
  assumes "persistableToolResultText (tr_output r) = Some t" and "tr_truncated r \<noteq> Some True"
    and "\<And>p. save p" and "length t < 10 ^ 15"
  shows "case budgetToolResultForModel join save uuid (Some home) name i r of
     (r', file) \<Rightarrow>
       if length t \<le> 50000 then r' = r \<and> file = None
       else (\<exists>path out. file = Some (path, t) \<and> tr_output r' = Inl out \<and> suffix (take 2000 t) out
               \<and> tr_isError r' = tr_isError r
               \<and> length out \<le> 3000 + length name + length i + length path)"
proof (cases "length t \<le> 50000")
  case True
  then show ?thesis using assms(1) by (simp add: budgetToolResultForModel_def TOOL_RESULT_MAX_CHARS_def)
next
  case False
  define path where "path = join (join home ''tool-results'') (safeToolResultFileStem name i @ ''-'' @ uuid @ ''.txt'')"
  define out where "out = renderPersistedToolResult name i t path"
  have saved: "saveToolResult join save uuid home name i = Some path"
    using assms(3) by (simp add: saveToolResult_def Let_def path_def)
  obtain r' where r: "budgetToolResultForModel join save uuid (Some home) name i r = (r', Some (path, t))"
      "tr_output r' = Inl out" "tr_isError r' = tr_isError r"
  proof (cases "tr_isError r = Some True")
    case True
    then show thesis
      using that [of "r\<lparr>tr_output := Inl out, tr_isError := Some True\<rparr>"] assms(1,2) False saved
      by (simp add: budgetToolResultForModel_def TOOL_RESULT_MAX_CHARS_def out_def)
  next
    case err: False
    then show thesis
      using that [of "r\<lparr>tr_output := Inl out\<rparr>"] assms(1,2) False saved
      by (simp add: budgetToolResultForModel_def TOOL_RESULT_MAX_CHARS_def out_def)
  qed
  have n1: "length (show_count (length t)) \<le> 15" using show_count_small [OF assms(4)] by simp
  have "utf8_length t < 10 ^ 16" using utf8_length_le [of t] assms(4) by simp
  then have n2: "length (show_count (utf8_length t)) \<le> 16" using show_count_small [of _ 16] by simp
  have n3: "length (show_count TOOL_RESULT_MAX_CHARS) \<le> 5"
    using show_count_small [of TOOL_RESULT_MAX_CHARS 5] by (simp add: TOOL_RESULT_MAX_CHARS_def)
  have len: "length out \<le> 3000 + length name + length i + length path"
    using n1 n2 n3 by (simp add: out_def renderPersistedToolResult_def eol_def TOOL_RESULT_PREVIEW_CHARS_def)
  have "suffix (take 2000 t) out"
    unfolding out_def renderPersistedToolResult_def join_with.simps TOOL_RESULT_PREVIEW_CHARS_def
    by (intro suffix_appendI suffix_order.refl)
  with r len False show ?thesis by auto
qed

definition long_text :: LoopToolResult where
  "long_text = \<lparr>tr_output = Inl (replicate 60000 (CHR ''x'')), tr_isError = None, tr_stopTurn = None,
     tr_truncated = None, tr_message = None\<rparr>"

lemma long_results_previewed_witness:
  "case budgetToolResultForModel (\<lambda>a b. a @ ''/'' @ b) (\<lambda>p. True) ''u'' (Some ''/h'') ''Bash'' ''c1'' long_text of
     (r', file) \<Rightarrow>
       if length (replicate 60000 (CHR ''x'')) \<le> 50000 then r' = long_text \<and> file = None
       else (\<exists>path out. file = Some (path, replicate 60000 (CHR ''x'')) \<and> tr_output r' = Inl out
               \<and> suffix (take 2000 (replicate 60000 (CHR ''x''))) out \<and> tr_isError r' = tr_isError long_text
               \<and> length out \<le> 3000 + length ''Bash'' + length ''c1'' + length path)"
  by (rule long_results_previewed) (simp_all add: long_text_def persistableToolResultText_def)

lemma idle_minutes_nonneg: "0 \<le> resolveGoalBackgroundIdleMinutes x"
  by (auto simp: resolveGoalBackgroundIdleMinutes_def DEFAULT_GOAL_BACKGROUND_IDLE_MINUTES_def split: option.split)

text \<open>A hook that blocks is shown, whatever the other hooks said.\<close>

lemma block_shown:
  "b \<in> set rs \<Longrightarrow> hr_block b \<Longrightarrow> renderUserPromptHookBlockResult (Some rs) \<noteq> None"
proof -
  assume "b \<in> set rs" "hr_block b"
  then have "List.find hr_block rs \<noteq> None" by (auto simp: find_None_iff)
  then obtain x where "List.find hr_block rs = Some x" by blast
  then show ?thesis
    by (auto simp: renderUserPromptHookBlockResult_def Let_def split: option.split list.split)
qed

end
