(* ===== verification/Provider_Errors.thy ===== *)
theory Provider_Errors
  imports Js_Regex Json_Values Tool_Dedup
begin

text \<open>
  Errors of the model providers and their wire form: the error classes and their classification
  (\<open>packages/kosong/src/errors.ts\<close>), the registry of error codes (\<open>errors/codes.ts\<close>), the payload
  of an error (\<open>errors/serialize.ts\<close>, \<open>errors/classes.ts\<close>), and what the turn driver makes of
  a failed turn (\<open>agent/turn/index.ts\<close>: the type of an API error, the reason a goal pauses).

  A thrown value is a constructor of \<open>thrown\<close>; for values that are not errors of this code, the
  numeric status fields that \<open>getStatusCode\<close> reads are kept.

  The lemmas: a status error is met by at most one recovery (retry, compaction, resending a repaired
  request), and the payload survives the trip over the wire.
\<close>

section \<open>Codes\<close>

datatype ErrorCode =
    EC_CONFIG_INVALID
  | EC_SESSION_NOT_FOUND
  | EC_SESSION_ALREADY_EXISTS
  | EC_SESSION_ID_INVALID
  | EC_SESSION_ID_REQUIRED
  | EC_SESSION_ID_EMPTY
  | EC_SESSION_TITLE_EMPTY
  | EC_SESSION_STATE_NOT_FOUND
  | EC_SESSION_STATE_INVALID
  | EC_SESSION_FORK_ACTIVE_TURN
  | EC_SESSION_EXPORT_NOT_FOUND
  | EC_SESSION_EXPORT_MISSING_VERSION
  | EC_SESSION_CLOSED
  | EC_SESSION_PERMISSION_MODE_INVALID
  | EC_SESSION_THINKING_EMPTY
  | EC_SESSION_MODEL_EMPTY
  | EC_SESSION_APPROVAL_HANDLER_ERROR
  | EC_SESSION_QUESTION_HANDLER_ERROR
  | EC_SESSION_INIT_FAILED
  | EC_AGENT_NOT_FOUND
  | EC_TURN_AGENT_BUSY
  | EC_GOAL_ALREADY_EXISTS
  | EC_GOAL_NOT_FOUND
  | EC_GOAL_OBJECTIVE_EMPTY
  | EC_GOAL_OBJECTIVE_TOO_LONG
  | EC_GOAL_STATUS_INVALID
  | EC_GOAL_METADATA_RESERVED
  | EC_GOAL_NOT_RESUMABLE
  | EC_MODEL_NOT_CONFIGURED
  | EC_MODEL_CONFIG_INVALID
  | EC_AUTH_LOGIN_REQUIRED
  | EC_CONTEXT_OVERFLOW
  | EC_LOOP_MAX_STEPS_EXCEEDED
  | EC_PROVIDER_API_ERROR
  | EC_PROVIDER_RATE_LIMIT
  | EC_PROVIDER_AUTH_ERROR
  | EC_PROVIDER_CONNECTION_ERROR
  | EC_SKILL_NOT_FOUND
  | EC_SKILL_TYPE_UNSUPPORTED
  | EC_SKILL_NAME_EMPTY
  | EC_RECORDS_WRITE_FAILED
  | EC_COMPACTION_FAILED
  | EC_COMPACTION_UNABLE
  | EC_BACKGROUND_TASK_ID_EMPTY
  | EC_MCP_SERVER_NOT_FOUND
  | EC_MCP_SERVER_DISABLED
  | EC_MCP_STARTUP_FAILED
  | EC_MCP_TOOL_NAME_COLLISION
  | EC_PLUGIN_NOT_FOUND
  | EC_PLUGIN_LOAD_FAILED
  | EC_REQUEST_INVALID
  | EC_REQUEST_WORK_DIR_REQUIRED
  | EC_REQUEST_PROMPT_INPUT_EMPTY
  | EC_SHELL_GIT_BASH_NOT_FOUND
  | EC_NOT_IMPLEMENTED
  | EC_INTERNAL

primrec code_text :: "ErrorCode \<Rightarrow> string" where
  "code_text EC_CONFIG_INVALID = ''config.invalid''"
| "code_text EC_SESSION_NOT_FOUND = ''session.not_found''"
| "code_text EC_SESSION_ALREADY_EXISTS = ''session.already_exists''"
| "code_text EC_SESSION_ID_INVALID = ''session.id_invalid''"
| "code_text EC_SESSION_ID_REQUIRED = ''session.id_required''"
| "code_text EC_SESSION_ID_EMPTY = ''session.id_empty''"
| "code_text EC_SESSION_TITLE_EMPTY = ''session.title_empty''"
| "code_text EC_SESSION_STATE_NOT_FOUND = ''session.state_not_found''"
| "code_text EC_SESSION_STATE_INVALID = ''session.state_invalid''"
| "code_text EC_SESSION_FORK_ACTIVE_TURN = ''session.fork_active_turn''"
| "code_text EC_SESSION_EXPORT_NOT_FOUND = ''session.export_not_found''"
| "code_text EC_SESSION_EXPORT_MISSING_VERSION = ''session.export_missing_version''"
| "code_text EC_SESSION_CLOSED = ''session.closed''"
| "code_text EC_SESSION_PERMISSION_MODE_INVALID = ''session.permission_mode_invalid''"
| "code_text EC_SESSION_THINKING_EMPTY = ''session.thinking_empty''"
| "code_text EC_SESSION_MODEL_EMPTY = ''session.model_empty''"
| "code_text EC_SESSION_APPROVAL_HANDLER_ERROR = ''session.approval_handler_error''"
| "code_text EC_SESSION_QUESTION_HANDLER_ERROR = ''session.question_handler_error''"
| "code_text EC_SESSION_INIT_FAILED = ''session.init_failed''"
| "code_text EC_AGENT_NOT_FOUND = ''agent.not_found''"
| "code_text EC_TURN_AGENT_BUSY = ''turn.agent_busy''"
| "code_text EC_GOAL_ALREADY_EXISTS = ''goal.already_exists''"
| "code_text EC_GOAL_NOT_FOUND = ''goal.not_found''"
| "code_text EC_GOAL_OBJECTIVE_EMPTY = ''goal.objective_empty''"
| "code_text EC_GOAL_OBJECTIVE_TOO_LONG = ''goal.objective_too_long''"
| "code_text EC_GOAL_STATUS_INVALID = ''goal.status_invalid''"
| "code_text EC_GOAL_METADATA_RESERVED = ''goal.metadata_reserved''"
| "code_text EC_GOAL_NOT_RESUMABLE = ''goal.not_resumable''"
| "code_text EC_MODEL_NOT_CONFIGURED = ''model.not_configured''"
| "code_text EC_MODEL_CONFIG_INVALID = ''model.config_invalid''"
| "code_text EC_AUTH_LOGIN_REQUIRED = ''auth.login_required''"
| "code_text EC_CONTEXT_OVERFLOW = ''context.overflow''"
| "code_text EC_LOOP_MAX_STEPS_EXCEEDED = ''loop.max_steps_exceeded''"
| "code_text EC_PROVIDER_API_ERROR = ''provider.api_error''"
| "code_text EC_PROVIDER_RATE_LIMIT = ''provider.rate_limit''"
| "code_text EC_PROVIDER_AUTH_ERROR = ''provider.auth_error''"
| "code_text EC_PROVIDER_CONNECTION_ERROR = ''provider.connection_error''"
| "code_text EC_SKILL_NOT_FOUND = ''skill.not_found''"
| "code_text EC_SKILL_TYPE_UNSUPPORTED = ''skill.type_unsupported''"
| "code_text EC_SKILL_NAME_EMPTY = ''skill.name_empty''"
| "code_text EC_RECORDS_WRITE_FAILED = ''records.write_failed''"
| "code_text EC_COMPACTION_FAILED = ''compaction.failed''"
| "code_text EC_COMPACTION_UNABLE = ''compaction.unable''"
| "code_text EC_BACKGROUND_TASK_ID_EMPTY = ''background.task_id_empty''"
| "code_text EC_MCP_SERVER_NOT_FOUND = ''mcp.server_not_found''"
| "code_text EC_MCP_SERVER_DISABLED = ''mcp.server_disabled''"
| "code_text EC_MCP_STARTUP_FAILED = ''mcp.startup_failed''"
| "code_text EC_MCP_TOOL_NAME_COLLISION = ''mcp.tool_name_collision''"
| "code_text EC_PLUGIN_NOT_FOUND = ''plugin.not_found''"
| "code_text EC_PLUGIN_LOAD_FAILED = ''plugin.load_failed''"
| "code_text EC_REQUEST_INVALID = ''request.invalid''"
| "code_text EC_REQUEST_WORK_DIR_REQUIRED = ''request.work_dir_required''"
| "code_text EC_REQUEST_PROMPT_INPUT_EMPTY = ''request.prompt_input_empty''"
| "code_text EC_SHELL_GIT_BASH_NOT_FOUND = ''shell.git_bash_not_found''"
| "code_text EC_NOT_IMPLEMENTED = ''not_implemented''"
| "code_text EC_INTERNAL = ''internal''"

definition all_codes :: "ErrorCode list" where
  "all_codes = [EC_CONFIG_INVALID, EC_SESSION_NOT_FOUND, EC_SESSION_ALREADY_EXISTS,
     EC_SESSION_ID_INVALID, EC_SESSION_ID_REQUIRED, EC_SESSION_ID_EMPTY,
     EC_SESSION_TITLE_EMPTY, EC_SESSION_STATE_NOT_FOUND, EC_SESSION_STATE_INVALID,
     EC_SESSION_FORK_ACTIVE_TURN, EC_SESSION_EXPORT_NOT_FOUND, EC_SESSION_EXPORT_MISSING_VERSION,
     EC_SESSION_CLOSED, EC_SESSION_PERMISSION_MODE_INVALID, EC_SESSION_THINKING_EMPTY,
     EC_SESSION_MODEL_EMPTY, EC_SESSION_APPROVAL_HANDLER_ERROR, EC_SESSION_QUESTION_HANDLER_ERROR,
     EC_SESSION_INIT_FAILED, EC_AGENT_NOT_FOUND, EC_TURN_AGENT_BUSY,
     EC_GOAL_ALREADY_EXISTS, EC_GOAL_NOT_FOUND, EC_GOAL_OBJECTIVE_EMPTY,
     EC_GOAL_OBJECTIVE_TOO_LONG, EC_GOAL_STATUS_INVALID, EC_GOAL_METADATA_RESERVED,
     EC_GOAL_NOT_RESUMABLE, EC_MODEL_NOT_CONFIGURED, EC_MODEL_CONFIG_INVALID,
     EC_AUTH_LOGIN_REQUIRED, EC_CONTEXT_OVERFLOW, EC_LOOP_MAX_STEPS_EXCEEDED,
     EC_PROVIDER_API_ERROR, EC_PROVIDER_RATE_LIMIT, EC_PROVIDER_AUTH_ERROR,
     EC_PROVIDER_CONNECTION_ERROR, EC_SKILL_NOT_FOUND, EC_SKILL_TYPE_UNSUPPORTED,
     EC_SKILL_NAME_EMPTY, EC_RECORDS_WRITE_FAILED, EC_COMPACTION_FAILED,
     EC_COMPACTION_UNABLE, EC_BACKGROUND_TASK_ID_EMPTY, EC_MCP_SERVER_NOT_FOUND,
     EC_MCP_SERVER_DISABLED, EC_MCP_STARTUP_FAILED, EC_MCP_TOOL_NAME_COLLISION,
     EC_PLUGIN_NOT_FOUND, EC_PLUGIN_LOAD_FAILED, EC_REQUEST_INVALID,
     EC_REQUEST_WORK_DIR_REQUIRED, EC_REQUEST_PROMPT_INPUT_EMPTY, EC_SHELL_GIT_BASH_NOT_FOUND,
     EC_NOT_IMPLEMENTED, EC_INTERNAL]"

record KimiErrorInfo =
  ei_title :: string
  ei_retryable :: bool
  ei_public :: bool
  ei_action :: string

abbreviation (input) err_info :: "string \<Rightarrow> bool \<Rightarrow> bool \<Rightarrow> string \<Rightarrow> KimiErrorInfo" where
  "err_info t r p a \<equiv> \<lparr>ei_title = t, ei_retryable = r, ei_public = p, ei_action = a\<rparr>"

primrec KIMI_ERROR_INFO :: "ErrorCode \<Rightarrow> KimiErrorInfo" where
  "KIMI_ERROR_INFO EC_CONFIG_INVALID = err_info ''Invalid configuration'' False True
     ''Check config.toml and provider/model settings.''"
| "KIMI_ERROR_INFO EC_SESSION_NOT_FOUND = err_info ''Session not found'' False True
     ''Check the session id or list available sessions.''"
| "KIMI_ERROR_INFO EC_SESSION_ALREADY_EXISTS = err_info ''Session already exists'' False True
     ''Use a different session id or remove the existing session first.''"
| "KIMI_ERROR_INFO EC_SESSION_ID_INVALID = err_info ''Invalid session id'' False True
     ''Use a session id without path-traversal characters.''"
| "KIMI_ERROR_INFO EC_SESSION_ID_REQUIRED = err_info ''Session id required'' False True
     ''Provide a session id when calling this method.''"
| "KIMI_ERROR_INFO EC_SESSION_ID_EMPTY = err_info ''Session id is empty'' False True
     ''Provide a non-empty session id.''"
| "KIMI_ERROR_INFO EC_SESSION_TITLE_EMPTY = err_info ''Session title is empty'' False True
     ''Provide a non-empty session title.''"
| "KIMI_ERROR_INFO EC_SESSION_STATE_NOT_FOUND = err_info ''Session state missing'' False True
     ''The session directory is corrupted or missing state.json.''"
| "KIMI_ERROR_INFO EC_SESSION_STATE_INVALID = err_info ''Session state invalid'' False True
     ''The session state.json is corrupted; remove the session or repair the file.''"
| "KIMI_ERROR_INFO EC_SESSION_FORK_ACTIVE_TURN = err_info ''Cannot fork session during active turn'' True True
     ''Wait for the active turn to complete before forking.''"
| "KIMI_ERROR_INFO EC_SESSION_EXPORT_NOT_FOUND = err_info ''Session export directory missing'' False True
     ''The session has not been persisted to disk yet.''"
| "KIMI_ERROR_INFO EC_SESSION_EXPORT_MISSING_VERSION = err_info ''Export version is missing'' False True
     ''Provide a version when exporting the session.''"
| "KIMI_ERROR_INFO EC_SESSION_CLOSED = err_info ''Session is closed'' False True
     ''Create a new session.''"
| "KIMI_ERROR_INFO EC_SESSION_PERMISSION_MODE_INVALID = err_info ''Invalid permission mode'' False True
     ''Use one of: yolo / manual / auto.''"
| "KIMI_ERROR_INFO EC_SESSION_THINKING_EMPTY = err_info ''Thinking value is empty'' False True
     ''Provide a non-empty thinking option.''"
| "KIMI_ERROR_INFO EC_SESSION_MODEL_EMPTY = err_info ''Model is empty'' False True
     ''Provide a non-empty model identifier.''"
| "KIMI_ERROR_INFO EC_SESSION_APPROVAL_HANDLER_ERROR = err_info ''Approval handler threw'' False True
     ''Inspect the SDK approval handler for an unhandled exception.''"
| "KIMI_ERROR_INFO EC_SESSION_QUESTION_HANDLER_ERROR = err_info ''Question handler threw'' False True
     ''Inspect the SDK question handler for an unhandled exception.''"
| "KIMI_ERROR_INFO EC_SESSION_INIT_FAILED = err_info ''Session init failed'' False False
     ''Review the init failure details and try again.''"
| "KIMI_ERROR_INFO EC_AGENT_NOT_FOUND = err_info ''Agent not found'' False True
     ''Check the agent id or list available agents.''"
| "KIMI_ERROR_INFO EC_TURN_AGENT_BUSY = err_info ''Agent is busy'' True True
     ''Wait for the current turn to finish or steer it.''"
| "KIMI_ERROR_INFO EC_GOAL_ALREADY_EXISTS = err_info ''A goal is already active'' False True
     ''Use `/goal replace <objective>` to replace the current goal.''"
| "KIMI_ERROR_INFO EC_GOAL_NOT_FOUND = err_info ''No goal found'' False True
     ''Start a goal with `/goal <objective>` first.''"
| "KIMI_ERROR_INFO EC_GOAL_OBJECTIVE_EMPTY = err_info ''Goal objective is empty'' False True
     ''Provide a non-empty objective.''"
| "KIMI_ERROR_INFO EC_GOAL_OBJECTIVE_TOO_LONG = err_info ''Goal objective is too long'' False True
     ''Keep the objective under 4000 characters; reference long details by file path.''"
| "KIMI_ERROR_INFO EC_GOAL_STATUS_INVALID = err_info ''Invalid goal status transition'' False True
     ''Use a status allowed for this actor (complete, blocked, or impossible).''"
| "KIMI_ERROR_INFO EC_GOAL_METADATA_RESERVED = err_info ''Goal metadata is reserved'' False True
     ''Do not write metadata.custom.goal directly; use the goal lifecycle methods.''"
| "KIMI_ERROR_INFO EC_GOAL_NOT_RESUMABLE = err_info ''Goal is not resumable'' False True
     ''Only paused goals can be resumed.''"
| "KIMI_ERROR_INFO EC_MODEL_NOT_CONFIGURED = err_info ''No model configured'' False True
     ''Set a default model in config.toml or via setModel.''"
| "KIMI_ERROR_INFO EC_MODEL_CONFIG_INVALID = err_info ''Invalid model configuration'' False True
     ''Check the model and provider entries in config.toml.''"
| "KIMI_ERROR_INFO EC_AUTH_LOGIN_REQUIRED = err_info ''Login required'' False True
     ''Run the login flow for the provider before retrying.''"
| "KIMI_ERROR_INFO EC_CONTEXT_OVERFLOW = err_info ''Context window overflow'' True True
     ''Compact the conversation or start a new session.''"
| "KIMI_ERROR_INFO EC_LOOP_MAX_STEPS_EXCEEDED = err_info ''Turn exceeded max steps'' False True
     ''Increase loop_control.max_steps_per_turn in config.toml or split the task.''"
| "KIMI_ERROR_INFO EC_PROVIDER_API_ERROR = err_info ''Provider API error'' False True
     ''Inspect details.statusCode / details.requestId; check provider status.''"
| "KIMI_ERROR_INFO EC_PROVIDER_RATE_LIMIT = err_info ''Provider rate limit'' True True
     ''Retry after a delay or reduce request frequency.''"
| "KIMI_ERROR_INFO EC_PROVIDER_AUTH_ERROR = err_info ''Provider authentication error'' False True
     ''Re-authenticate with the provider.''"
| "KIMI_ERROR_INFO EC_PROVIDER_CONNECTION_ERROR = err_info ''Provider connection error'' True True
     ''Check network connectivity and retry.''"
| "KIMI_ERROR_INFO EC_SKILL_NOT_FOUND = err_info ''Skill not found'' False True
     ''List available skills via the skill registry.''"
| "KIMI_ERROR_INFO EC_SKILL_TYPE_UNSUPPORTED = err_info ''Skill type not supported'' False True
     ''Only inline skills can be activated by the user.''"
| "KIMI_ERROR_INFO EC_SKILL_NAME_EMPTY = err_info ''Skill name is empty'' False True
     ''Provide a non-empty skill name.''"
| "KIMI_ERROR_INFO EC_RECORDS_WRITE_FAILED = err_info ''Failed to write records'' True True
     ''Check disk space and permissions on the session directory.''"
| "KIMI_ERROR_INFO EC_COMPACTION_FAILED = err_info ''Compaction failed'' False True
     ''Inspect logs and consider increasing compaction limits.''"
| "KIMI_ERROR_INFO EC_COMPACTION_UNABLE = err_info ''Unable to compact'' False True
     ''The current history has no prefix that can be compacted (e.g. only a pending user message). Start a new turn or session instead.''"
| "KIMI_ERROR_INFO EC_BACKGROUND_TASK_ID_EMPTY = err_info ''Background task id is empty'' False True
     ''Provide a non-empty task id.''"
| "KIMI_ERROR_INFO EC_MCP_SERVER_NOT_FOUND = err_info ''MCP server not found'' False True
     ''List configured MCP servers and check the requested name.''"
| "KIMI_ERROR_INFO EC_MCP_SERVER_DISABLED = err_info ''MCP server is disabled'' False True
     ''Enable the MCP server entry in config before reconnecting.''"
| "KIMI_ERROR_INFO EC_MCP_STARTUP_FAILED = err_info ''MCP server startup failed'' True True
     ''Inspect the MCP server log or call reconnect once the server is healthy.''"
| "KIMI_ERROR_INFO EC_MCP_TOOL_NAME_COLLISION = err_info ''MCP tool name collision'' False True
     ''Rename one of the colliding MCP tools or servers so their qualified names are unique.''"
| "KIMI_ERROR_INFO EC_PLUGIN_NOT_FOUND = err_info ''Plugin not found'' False True
     ''List installed plugins via /plugins and check the requested id.''"
| "KIMI_ERROR_INFO EC_PLUGIN_LOAD_FAILED = err_info ''Plugin state failed to load'' True True
     ''Fix the installed.json file under $NORI_CODE_HOME/plugins/ and run /plugins reload.''"
| "KIMI_ERROR_INFO EC_REQUEST_INVALID = err_info ''Invalid request'' False True
     ''Check the input shape matches the API contract.''"
| "KIMI_ERROR_INFO EC_REQUEST_WORK_DIR_REQUIRED = err_info ''workDir is required'' False True
     ''Provide workDir in the request payload.''"
| "KIMI_ERROR_INFO EC_REQUEST_PROMPT_INPUT_EMPTY = err_info ''Prompt input is empty'' False True
     ''Provide non-empty prompt input.''"
| "KIMI_ERROR_INFO EC_SHELL_GIT_BASH_NOT_FOUND = err_info ''Git Bash not found'' False True
     ''Install Git for Windows from https://gitforwindows.org/ or set NORI_SHELL_PATH to a bash.exe.''"
| "KIMI_ERROR_INFO EC_NOT_IMPLEMENTED = err_info ''Not implemented'' False True
     ''This feature is not implemented yet.''"
| "KIMI_ERROR_INFO EC_INTERNAL = err_info ''Internal error'' False True
     ''Inspect logs or report the issue with diagnostics.''"
section \<open>Thrown values\<close>

record StatusFields =
  sf_statusCode :: "nat option"
  sf_status :: "nat option"
  sf_responseStatusCode :: "nat option"
  sf_responseStatus :: "nat option"

datatype thrown =
    KimiError ErrorCode string "(string \<times> json) list option"
  | APIStatusError nat string "string option"
  | APIContextOverflowError nat string "string option"
  | APIProviderRateLimitError string "string option"
  | APIConnectionError string
  | APITimeoutError string
  | APIEmptyResponseError string "string option" "string option"
  | ChatProviderError string
  | OtherErr string string StatusFields
  | NotAnError string StatusFields

text \<open>\<open>instanceof APIStatusError\<close> with its status.\<close>

definition status_of :: "thrown \<Rightarrow> nat option" where
  "status_of e = (case e of
       APIStatusError s m r \<Rightarrow> Some s
     | APIContextOverflowError s m r \<Rightarrow> Some s
     | APIProviderRateLimitError m r \<Rightarrow> Some 429
     | _ \<Rightarrow> None)"

definition is_overflow :: "thrown \<Rightarrow> bool" where
  "is_overflow e = (case e of APIContextOverflowError s m r \<Rightarrow> True | _ \<Rightarrow> False)"

definition err_message :: "thrown \<Rightarrow> string" where
  "err_message e = (case e of
       KimiError c m d \<Rightarrow> m
     | APIStatusError s m r \<Rightarrow> m
     | APIContextOverflowError s m r \<Rightarrow> m
     | APIProviderRateLimitError m r \<Rightarrow> m
     | APIConnectionError m \<Rightarrow> m
     | APITimeoutError m \<Rightarrow> m
     | APIEmptyResponseError m f rf \<Rightarrow> m
     | ChatProviderError m \<Rightarrow> m
     | OtherErr n m sf \<Rightarrow> m
     | NotAnError s sf \<Rightarrow> s)"

section \<open>Classification\<close>

definition isRetryableGenerateError :: "thrown \<Rightarrow> bool" where
  "isRetryableGenerateError e = (case e of
       APIConnectionError m \<Rightarrow> True
     | APITimeoutError m \<Rightarrow> True
     | APIEmptyResponseError m f rf \<Rightarrow> True
     | _ \<Rightarrow> (case status_of e of Some s \<Rightarrow> s \<in> set [429, 500, 502, 503, 504] | None \<Rightarrow> False))"

definition NETWORK_RE :: rx where
  "NETWORK_RE = RAlt [RLit ''network'', RLit ''connection'', RLit ''connect'', RLit ''disconnect'', RLit ''terminated'']"

definition TIMEOUT_RE :: rx where
  "TIMEOUT_RE = RAlt [RSeq [RLit ''time'', ROpt (RLit ''d''), RSpace0, RLit ''out''], RLit ''timeout'', RLit ''deadline'']"

definition classifyBaseApiError :: "string \<Rightarrow> thrown" where
  "classifyBaseApiError m =
     (if rx_test TIMEOUT_RE m then APITimeoutError m
      else if rx_test NETWORK_RE m then APIConnectionError m
      else ChatProviderError (''Error: '' @ m))"

definition sep_rx :: rx where "sep_rx = ROpt (RSet '' _-'')"

definition exceed_rx :: rx where
  "exceed_rx = RSeq [RLit ''exceed'', RAlt [RLit ''ed'', RLit ''s'', RLit ''ing'', RSeq []]]"

definition CONTEXT_OVERFLOW_MESSAGE_PATTERNS :: "rx list" where
  "CONTEXT_OVERFLOW_MESSAGE_PATTERNS =
     [RSeq [RLit ''context'', sep_rx, RLit ''length''],
      RAlt [RSeq [RLit ''context'', sep_rx, RLit ''window'', RDots, RLit ''exceed''],
            RSeq [RLit ''exceed'', RDots, RLit ''context'', sep_rx, RLit ''window'']],
      RLit ''maximum context'',
      RSeq [exceed_rx, RSpace1, ROpt (RSeq [RLit ''the'', RSpace1]), RLit ''max'', ROpt (RLit ''imum''),
            RSpace1, RLit ''token''],
      RAlt [RSeq [RLit ''too many tokens'', RDots, RAlt [RLit ''prompt'', RLit ''input'', RLit ''context'']],
            RSeq [RAlt [RLit ''prompt'', RLit ''input'', RLit ''context''], RDots, RLit ''too many tokens'']],
      RSeq [RLit ''prompt is too long'', RDots, RLit ''maximum''],
      RSeq [RLit ''input token count'', RDots, RLit ''exceed'', ROpt (RLit ''s''), RDots,
            RLit ''maximum number of tokens''],
      RSeq [RLit ''request'', RDots, exceed_rx, RDots, RLit ''model token limit'']]"

definition PROVIDER_RATE_LIMIT_MESSAGE_PATTERNS :: "rx list" where
  "PROVIDER_RATE_LIMIT_MESSAGE_PATTERNS =
     [RAlt [RSeq [RLit ''apistatuserror'', RDots, RLit ''429''], RSeq [RLit ''429'', RDots, RLit ''apistatuserror'']],
      RSeq [RLit ''429'', RDots, RLit ''too many requests''],
      RLit ''too many requests'',
      RLit ''provider.rate_limit'',
      RSeq [RLit ''reached '', RDots, RLit ''max rpm''],
      RSeq [RLit ''rate'', sep_rx, RLit ''limit'', ROpt (RLit ''ed'')],
      RLit ''rate-limited'']"

definition isContextOverflowStatusError :: "nat \<Rightarrow> string \<Rightarrow> bool" where
  "isContextOverflowStatusError s m =
     (if s \<noteq> 400 \<and> s \<noteq> 413 \<and> s \<noteq> 422 then False
      else list_ex (\<lambda>p. rx_test p m) CONTEXT_OVERFLOW_MESSAGE_PATTERNS)"

definition normalizeAPIStatusError :: "nat \<Rightarrow> string \<Rightarrow> string option \<Rightarrow> thrown" where
  "normalizeAPIStatusError s m r =
     (if s = 429 then APIProviderRateLimitError m r
      else if isContextOverflowStatusError s m then APIContextOverflowError s m r
      else APIStatusError s m r)"

definition TOOL_EXCHANGE_ADJACENCY_MESSAGE_PATTERNS :: "rx list" where
  "TOOL_EXCHANGE_ADJACENCY_MESSAGE_PATTERNS =
     [RSeq [RLit ''tool_use'', RAny, RLit ''tool_result''],
      RSeq [RLit ''tool_result'', RAny, RLit ''tool_use''],
      RSeq [RLit ''unexpected'', RSpace1, ROpt (RLit [CHR 0x60]), RLit ''tool_result'']]"

definition isToolExchangeAdjacencyError :: "thrown \<Rightarrow> bool" where
  "isToolExchangeAdjacencyError e =
     (case status_of e of
        None \<Rightarrow> False
      | Some s \<Rightarrow>
          if is_overflow e then False
          else if s \<noteq> 400 \<and> s \<noteq> 422 then False
          else list_ex (\<lambda>p. rx_test p (err_message e)) TOOL_EXCHANGE_ADJACENCY_MESSAGE_PATTERNS)"

definition STRUCTURAL_REQUEST_MESSAGE_PATTERNS :: "rx list" where
  "STRUCTURAL_REQUEST_MESSAGE_PATTERNS =
     [RLit ''text content blocks must be non-empty'',
      RLit ''text content blocks must contain non-whitespace'',
      RSeq [RLit ''first message must use the '', RDots, RLit ''user'', RDots, RLit '' role''],
      RLit ''roles must alternate'',
      RSeq [RLit ''multiple '', RDots, RAlt [RLit ''user'', RLit ''assistant''], RDots, RLit '' roles in a row'']]"

definition media_kind_rx :: rx where
  "media_kind_rx = RAlt [RLit ''image'', RLit ''audio'', RLit ''video'']"

definition MEDIA_REQUEST_MESSAGE_PATTERNS :: "rx list" where
  "MEDIA_REQUEST_MESSAGE_PATTERNS =
     [RSeq [RLit ''unsupported '', media_kind_rx, RLit '' format''],
      RSeq [RLit ''invalid '', ROpt (RSeq [RLit ''base64'', RSet ''- '', RLit ''encoded '']), media_kind_rx,
            RAlt [RLit '' data'', RLit '' format'', RLit '' payload'', RSeq []]],
      RSeq [media_kind_rx, RLit '' '', RAlt [RLit ''mime'', RLit ''content''], sep_rx, RLit ''type '', RDots,
            RLit ''not supported''],
      RSeq [RAlt [RLit ''mime'', RLit ''content''], sep_rx, RLit ''type '', RDots, RLit ''not supported'', RDots,
            media_kind_rx],
      RSeq [RLit ''could not '', RAlt [RLit ''decode'', RLit ''process''], RLit '' '', ROpt (RLit ''the ''),
            media_kind_rx]]"

definition isRecoverableRequestStructureError :: "thrown \<Rightarrow> bool" where
  "isRecoverableRequestStructureError e =
     (if isToolExchangeAdjacencyError e then True
      else case status_of e of
             None \<Rightarrow> False
           | Some s \<Rightarrow>
               if is_overflow e then False
               else if s \<noteq> 400 \<and> s \<noteq> 422 then False
               else list_ex (\<lambda>p. rx_test p (err_message e)) STRUCTURAL_REQUEST_MESSAGE_PATTERNS)"

definition isRecoverableMediaRequestError :: "thrown \<Rightarrow> bool" where
  "isRecoverableMediaRequestError e =
     (case status_of e of
        None \<Rightarrow> False
      | Some s \<Rightarrow>
          if is_overflow e then False
          else if s \<noteq> 400 \<and> s \<noteq> 415 \<and> s \<noteq> 422 then False
          else list_ex (\<lambda>p. rx_test p (err_message e)) MEDIA_REQUEST_MESSAGE_PATTERNS)"

definition first_some :: "'a option list \<Rightarrow> 'a option" where
  "first_some os = foldr (\<lambda>x r. case x of Some v \<Rightarrow> Some v | None \<Rightarrow> r) os None"

definition fields_of :: "thrown \<Rightarrow> StatusFields option" where
  "fields_of e = (case e of OtherErr n m sf \<Rightarrow> Some sf | NotAnError s sf \<Rightarrow> Some sf | _ \<Rightarrow> None)"

definition getStatusCode :: "thrown \<Rightarrow> nat option" where
  "getStatusCode e =
     (case status_of e of
        Some s \<Rightarrow> Some s
      | None \<Rightarrow>
          (case fields_of e of
             None \<Rightarrow> None
           | Some sf \<Rightarrow> first_some [sf_statusCode sf, sf_status sf, sf_responseStatusCode sf,
                          sf_responseStatus sf]))"

definition isProviderRateLimitError :: "thrown \<Rightarrow> bool" where
  "isProviderRateLimitError e =
     (case e of
        APIProviderRateLimitError m r \<Rightarrow> True
      | _ \<Rightarrow>
          (case getStatusCode e of
             Some s \<Rightarrow> s = 429
           | None \<Rightarrow> list_ex (\<lambda>p. rx_test p (err_message e)) PROVIDER_RATE_LIMIT_MESSAGE_PATTERNS))"

section \<open>Payloads\<close>

record KimiErrorPayload =
  ep_code :: ErrorCode
  ep_message :: string
  ep_name :: "string option"
  ep_details :: "(string \<times> json) list option"
  ep_retryable :: bool

definition makeErrorPayload ::
    "ErrorCode \<Rightarrow> string \<Rightarrow> (string \<times> json) list option \<Rightarrow> string option \<Rightarrow> KimiErrorPayload" where
  "makeErrorPayload c m d n =
     \<lparr>ep_code = c, ep_message = m, ep_name = n, ep_details = d,
      ep_retryable = ei_retryable (KIMI_ERROR_INFO c)\<rparr>"

text \<open>\<open>/<title[^>]*>([\s\S]*?)<\/title>/i\<close>: the first opening tag with a closing tag after it.\<close>

definition title_match :: "string \<Rightarrow> string option" where
  "title_match m =
     (let low = map ascii_lower m in
      case find_at ''<title'' low of
        None \<Rightarrow> None
      | Some i \<Rightarrow>
          (case find_at ''>'' (drop (i + 6) low) of
             None \<Rightarrow> None
           | Some j \<Rightarrow>
               let rest = drop (i + 6 + j + 1) m
               in case find_at ''</title>'' (map ascii_lower rest) of
                    None \<Rightarrow> None
                  | Some k \<Rightarrow> Some (take k rest)))"

definition sanitizeStatusErrorMessage :: "string \<Rightarrow> string" where
  "sanitizeStatusErrorMessage m =
     (let extracted = map_option js_trim (title_match m);
          normalized = (case extracted of Some x \<Rightarrow> if length x > 0 then x else m | None \<Rightarrow> m)
      in filter (\<lambda>c. c \<noteq> CHR 0x0D) normalized)"

definition json_opt :: "string option \<Rightarrow> json" where
  "json_opt x = (case x of None \<Rightarrow> JNull | Some s \<Rightarrow> JStr s)"

definition status_payload :: "nat \<Rightarrow> string \<Rightarrow> string option \<Rightarrow> string \<Rightarrow> KimiErrorPayload" where
  "status_payload s m r n =
     (let c = (if s = 429 then EC_PROVIDER_RATE_LIMIT else if s = 401 then EC_PROVIDER_AUTH_ERROR
               else EC_PROVIDER_API_ERROR)
      in makeErrorPayload c (sanitizeStatusErrorMessage m)
           (Some [(''statusCode'', JNum (show_count s)), (''requestId'', json_opt r)]) (Some n))"

definition toKimiErrorPayload :: "thrown \<Rightarrow> KimiErrorPayload" where
  "toKimiErrorPayload e = (case e of
       KimiError c m d \<Rightarrow> makeErrorPayload c m d (Some ''KimiError'')
     | APIStatusError s m r \<Rightarrow> status_payload s m r ''APIStatusError''
     | APIContextOverflowError s m r \<Rightarrow> status_payload s m r ''APIContextOverflowError''
     | APIProviderRateLimitError m r \<Rightarrow> status_payload 429 m r ''APIProviderRateLimitError''
     | APIConnectionError m \<Rightarrow> makeErrorPayload EC_PROVIDER_CONNECTION_ERROR m None (Some ''APIConnectionError'')
     | APITimeoutError m \<Rightarrow> makeErrorPayload EC_PROVIDER_CONNECTION_ERROR m None (Some ''APITimeoutError'')
     | APIEmptyResponseError m f rf \<Rightarrow>
         makeErrorPayload EC_PROVIDER_API_ERROR m
           (Some [(''finishReason'', json_opt f), (''rawFinishReason'', json_opt rf)])
           (Some ''APIEmptyResponseError'')
     | ChatProviderError m \<Rightarrow> makeErrorPayload EC_PROVIDER_API_ERROR m None (Some ''ChatProviderError'')
     | OtherErr n m sf \<Rightarrow> makeErrorPayload EC_INTERNAL m None (Some n)
     | NotAnError s sf \<Rightarrow> makeErrorPayload EC_INTERNAL s None None)"

definition fromKimiErrorPayload :: "KimiErrorPayload \<Rightarrow> thrown" where
  "fromKimiErrorPayload p = KimiError (ep_code p) (ep_message p) (ep_details p)"

section \<open>A failed turn\<close>

definition LLM_NOT_SET_MESSAGE :: string where
  "LLM_NOT_SET_MESSAGE = ''LLM not set, send '' @ [CHR 0x22] @ ''/login'' @ [CHR 0x22] @ '' to login''"

definition summarizeTurnError :: "thrown \<Rightarrow> nat \<Rightarrow> KimiErrorPayload" where
  "summarizeTurnError e turnId =
     (let p = toKimiErrorPayload e;
          details = map_put ''turnId'' (JNum (show_count turnId))
                      (case ep_details p of None \<Rightarrow> [] | Some d \<Rightarrow> d)
      in if ep_code p = EC_MODEL_NOT_CONFIGURED
         then p\<lparr>ep_message := LLM_NOT_SET_MESSAGE, ep_details := Some details\<rparr>
         else p\<lparr>ep_details := Some details\<rparr>)"

definition pauseReasonWithMessage :: "string \<Rightarrow> string option \<Rightarrow> string" where
  "pauseReasonWithMessage pre m =
     (case m of None \<Rightarrow> pre | Some t \<Rightarrow> if length t = 0 then pre else pre @ '': '' @ t)"

definition goalFailurePauseReason :: "KimiErrorPayload option \<Rightarrow> string" where
  "goalFailurePauseReason error =
     (case error of
        None \<Rightarrow> pauseReasonWithMessage ''Paused after runtime error'' None
      | Some p \<Rightarrow>
          let c = ep_code p in
          if c = EC_PROVIDER_RATE_LIMIT then ''Paused after provider rate limit''
          else if c = EC_PROVIDER_CONNECTION_ERROR
          then pauseReasonWithMessage ''Paused after provider connection error'' (Some (ep_message p))
          else if c = EC_PROVIDER_AUTH_ERROR
          then pauseReasonWithMessage ''Paused after provider authentication error'' (Some (ep_message p))
          else if c = EC_PROVIDER_API_ERROR
          then pauseReasonWithMessage ''Paused after provider API error'' (Some (ep_message p))
          else if c = EC_MODEL_NOT_CONFIGURED \<or> c = EC_MODEL_CONFIG_INVALID
          then pauseReasonWithMessage ''Paused after model configuration error'' (Some (ep_message p))
          else pauseReasonWithMessage ''Paused after runtime error'' (Some (ep_message p)))"

definition apiStatusCode :: "thrown \<Rightarrow> nat option" where
  "apiStatusCode e =
     (case status_of e of
        Some s \<Rightarrow> Some s
      | None \<Rightarrow> (case fields_of e of None \<Rightarrow> None
                 | Some sf \<Rightarrow> first_some [sf_statusCode sf, sf_status sf]))"

text \<open>The \<open>statusCode\<close> of the details as a number; \<open>parse\<close> reads the text of a JSON number.\<close>

definition summaryStatusCode :: "(string \<Rightarrow> nat) \<Rightarrow> KimiErrorPayload \<Rightarrow> nat option" where
  "summaryStatusCode parse p =
     (case ep_details p of
        None \<Rightarrow> None
      | Some d \<Rightarrow> (case map_of d ''statusCode'' of Some (JNum n) \<Rightarrow> Some (parse n) | _ \<Rightarrow> None))"

definition is_class :: "string \<Rightarrow> thrown \<Rightarrow> bool" where
  "is_class n e = (case e of
       APIConnectionError m \<Rightarrow> n = ''APIConnectionError''
     | APITimeoutError m \<Rightarrow> n = ''APITimeoutError''
     | APIEmptyResponseError m f rf \<Rightarrow> n = ''APIEmptyResponseError''
     | _ \<Rightarrow> False)"

definition classifyApiError :: "(string \<Rightarrow> nat) \<Rightarrow> thrown \<Rightarrow> KimiErrorPayload \<Rightarrow> string \<times> nat option" where
  "classifyApiError parse e p =
     (case (case apiStatusCode e of Some s \<Rightarrow> Some s | None \<Rightarrow> summaryStatusCode parse p) of
        Some s \<Rightarrow>
          if s = 429 then (''rate_limit'', Some s)
          else if s = 401 \<or> s = 403 then (''auth'', Some s)
          else if s \<ge> 500 then (''5xx_server'', Some s)
          else if isContextOverflowStatusError s (ep_message p) then (''context_overflow'', Some s)
          else if s \<ge> 400 then (''4xx_client'', Some s)
          else (''api'', Some s)
      | None \<Rightarrow>
          if ep_code p = EC_PROVIDER_RATE_LIMIT then (''rate_limit'', None)
          else if ep_code p = EC_PROVIDER_AUTH_ERROR then (''auth'', None)
          else if ep_code p = EC_CONTEXT_OVERFLOW then (''context_overflow'', None)
          else if is_class ''APIConnectionError'' e \<or> ep_name p = Some ''APIConnectionError'' then (''network'', None)
          else if is_class ''APITimeoutError'' e \<or> ep_name p = Some ''APITimeoutError''
                  \<or> ep_name p = Some ''TimeoutError'' then (''timeout'', None)
          else if is_class ''APIEmptyResponseError'' e \<or> ep_name p = Some ''APIEmptyResponseError''
          then (''empty_response'', None)
          else (''other'', None))"

section \<open>What holds\<close>

lemma codes_complete: "c \<in> set all_codes"
  by (cases c) (simp_all add: all_codes_def)

lemma codes_distinct: "distinct (map code_text all_codes)"
  by code_simp

lemma code_text_inj: "code_text c = code_text d \<Longrightarrow> c = d"
  using codes_distinct codes_complete by (metis distinct_map inj_on_eq_iff)

lemma payload_retryable:
  "ep_retryable (toKimiErrorPayload e) = ei_retryable (KIMI_ERROR_INFO (ep_code (toKimiErrorPayload e)))"
  by (cases e) (simp_all add: toKimiErrorPayload_def makeErrorPayload_def status_payload_def Let_def)

text \<open>
  An error that crosses the wire twice is the error that crossed it once: rebuilding the error
  of a payload and making its payload again gives back code, message, details and whether it may be
  retried (only the class name becomes \<open>KimiError\<close>); distinct codes stay distinct as strings.\<close>

theorem error_payload_roundtrip:
  "toKimiErrorPayload (fromKimiErrorPayload (toKimiErrorPayload e))
     = (toKimiErrorPayload e)\<lparr>ep_name := Some ''KimiError''\<rparr>
   \<and> (code_text c = code_text d \<longleftrightarrow> c = d)"
  using code_text_inj [of c d] payload_retryable [of e]
  by (auto simp: fromKimiErrorPayload_def toKimiErrorPayload_def [of "KimiError a b d'" for a b d']
      makeErrorPayload_def)

lemma overflow_status:
  "normalizeAPIStatusError s m r = e \<Longrightarrow> is_overflow e \<Longrightarrow> s = 400 \<or> s = 413 \<or> s = 422"
  by (auto simp: normalizeAPIStatusError_def is_overflow_def isContextOverflowStatusError_def split: if_splits)

lemma normalize_status [simp]: "status_of (normalizeAPIStatusError s m r) = Some s"
  by (simp add: normalizeAPIStatusError_def status_of_def)

lemma normalize_retryable:
  "isRetryableGenerateError (normalizeAPIStatusError s m r) \<longleftrightarrow> s \<in> {429, 500, 502, 503, 504}"
  by (auto simp: normalizeAPIStatusError_def isRetryableGenerateError_def status_of_def)

lemma structure_status:
  "isRecoverableRequestStructureError e \<Longrightarrow> \<not> is_overflow e \<and> (status_of e = Some 400 \<or> status_of e = Some 422)"
  by (auto simp: isRecoverableRequestStructureError_def isToolExchangeAdjacencyError_def
      split: option.splits if_splits)

lemma media_status:
  "isRecoverableMediaRequestError e \<Longrightarrow> \<not> is_overflow e \<and>
     (status_of e = Some 400 \<or> status_of e = Some 415 \<or> status_of e = Some 422)"
  by (auto simp: isRecoverableMediaRequestError_def split: option.splits if_splits)

text \<open>
  The three recoveries do not compete. A status answer of a provider is never both retried as it
  is and treated as an overflow of the context (which compacts the conversation), nor retried and
  resent in a repaired form, nor compacted and resent.\<close>

theorem recoveries_exclusive:
  "let e = normalizeAPIStatusError s m r;
       resent = isRecoverableRequestStructureError e \<or> isRecoverableMediaRequestError e
   in \<not> (isRetryableGenerateError e \<and> is_overflow e) \<and> \<not> (isRetryableGenerateError e \<and> resent)
      \<and> \<not> (is_overflow e \<and> resent)"
  unfolding Let_def
  using overflow_status [OF refl, of s m r] normalize_retryable [of s m r]
    structure_status [of "normalizeAPIStatusError s m r"] media_status [of "normalizeAPIStatusError s m r"]
  by auto

end
