(* ===== verification/Compaction_Round.thy ===== *)
theory Compaction_Round
  imports Context_Facts Cron_Jitter Provider_Errors
begin

text \<open>
  The request for a summary (\<open>agent/compaction/full.ts\<close>): what of the history is sent, and what
  is done with each answer of the provider. One round sends requests until a summary comes back:
  after an overflow of the context it sends only the most recent part of the history, after an empty
  or truncated answer it leaves out the oldest message, and after a transient error it waits and
  sends the same again.

  \<open>SummaryLoop\<close> is the state of the loop of \<open>compactionRound\<close>, \<open>sl_requests\<close> counts its requests;
  an answer is a thrown value or a response. The products with the ratios 0.7, 0.5, 0.35 and 0.85
  are rounded as binary64 numbers are. \<open>CompactionTruncatedError\<close> is an error of its own name.

  The lemmas: a round ends after at most 45 requests, and what it sends is always an end piece of the
  history, with the number of messages cut off reported.
\<close>

section \<open>Shrinking the history\<close>

fun recent_count :: "ContextMessage list \<Rightarrow> nat \<Rightarrow> int \<Rightarrow> nat" where
  "recent_count [] tokens tokenBudget = 0"
| "recent_count (m # older) tokens tokenBudget =
     (let messageTokens = estimateTokensForMessage m
      in if int (tokens + messageTokens) > tokenBudget then 0
         else Suc (recent_count older (tokens + messageTokens) tokenBudget))"

definition dropLeadingToolResults :: "ContextMessage list \<Rightarrow> ContextMessage list" where
  "dropLeadingToolResults ms = dropWhile (\<lambda>m. role m = RoleTool) ms"

definition takeRecentMessagesWithinTokenBudget :: "ContextMessage list \<Rightarrow> int \<Rightarrow> ContextMessage list" where
  "takeRecentMessagesWithinTokenBudget ms tokenBudget =
     (let begins = length ms - recent_count (rev ms) 0 tokenBudget
      in dropLeadingToolResults (drop (if begins = 0 then 1 else begins) ms))"

definition dropOldestMessageAndLeadingToolResults :: "ContextMessage list \<Rightarrow> ContextMessage list" where
  "dropOldestMessageAndLeadingToolResults ms =
     (if length ms \<le> 1 then ms else dropLeadingToolResults (drop 1 ms))"

definition COMPACTION_OVERFLOW_SHRINK_RATIOS :: "rat list" where
  "COMPACTION_OVERFLOW_SHRINK_RATIOS = [double (7 / 10), 1 / 2, double (35 / 100)]"

definition shrinkCompactionHistoryAfterOverflow :: "ContextMessage list \<Rightarrow> nat \<Rightarrow> ContextMessage list" where
  "shrinkCompactionHistoryAfterOverflow ms attempt =
     (if length ms \<le> 1 then ms
      else
        let ratio = COMPACTION_OVERFLOW_SHRINK_RATIOS ! min (attempt - 1) (length COMPACTION_OVERFLOW_SHRINK_RATIOS - 1);
            tokenBudget = \<lfloor>double (of_nat (estimateTokensForMessages ms) * ratio)\<rfloor>
        in takeRecentMessagesWithinTokenBudget ms tokenBudget)"

section \<open>The limit of the context\<close>

definition MAX_COMPACTION_RETRY_ATTEMPTS :: nat where "MAX_COMPACTION_RETRY_ATTEMPTS = 5"
definition MAX_COMPACTION_OVERFLOW_SHRINK_ATTEMPTS :: nat where "MAX_COMPACTION_OVERFLOW_SHRINK_ATTEMPTS = 3"

text \<open>What the round reads of the agent: the alias of the model, its context window, the estimate for
  the system prompt and the tools, and the settings of the strategy (no limit on the number of
  compactions in a turn is \<open>None\<close>).\<close>

record compaction_env =
  ev_modelAlias :: "string option"
  ev_maxContextTokens :: int
  ev_overhead :: nat
  ev_strategy :: CompactionConfig
  ev_maxCompactionPerTurn :: "nat option"

type_synonym observed = "(string \<times> int) list"

definition getEffectiveMaxContextTokens :: "compaction_env \<Rightarrow> observed \<Rightarrow> int" where
  "getEffectiveMaxContextTokens ev obs =
     (let configured = ev_maxContextTokens ev
      in case (case ev_modelAlias ev of None \<Rightarrow> None | Some a \<Rightarrow> map_get obs a) of
           None \<Rightarrow> configured
         | Some observed \<Rightarrow> if configured \<le> 0 then observed else min configured observed)"

definition estimateRequestTokens :: "compaction_env \<Rightarrow> Message list \<Rightarrow> nat" where
  "estimateRequestTokens ev ms = ev_overhead ev + estimateTokensForMessages ms"

definition shouldRecoverFromContextOverflow :: "compaction_env \<Rightarrow> observed \<Rightarrow> thrown \<Rightarrow> nat \<Rightarrow> bool" where
  "shouldRecoverFromContextOverflow ev obs e estimated =
     (if is_overflow e then True
      else if status_of e \<noteq> Some 413 then False
      else let effectiveMax = getEffectiveMaxContextTokens ev obs
           in effectiveMax > 0 \<and> of_nat estimated \<ge> (of_int effectiveMax * (1 / 2) :: rat))"

definition observeContextOverflow :: "compaction_env \<Rightarrow> nat \<Rightarrow> observed \<Rightarrow> observed" where
  "observeContextOverflow ev estimated obs =
     (if estimated = 0 then obs
      else case ev_modelAlias ev of
             None \<Rightarrow> obs
           | Some a \<Rightarrow>
               let observed = max 1 \<lfloor>double (of_nat estimated * double (85 / 100))\<rfloor>;
                   current = getEffectiveMaxContextTokens ev obs
               in if current > 0 \<and> observed \<ge> current then obs else map_put a observed obs)"

section \<open>Answers\<close>

record GenerateResult =
  gr_content :: "string + ContentPart list"
  gr_truncated :: bool
  gr_usage :: "TokenUsage option"

definition no_fields :: StatusFields where
  "no_fields = \<lparr>sf_statusCode = None, sf_status = None, sf_responseStatusCode = None, sf_responseStatus = None\<rparr>"

definition CompactionTruncatedError :: thrown where
  "CompactionTruncatedError = OtherErr ''CompactionTruncatedError''
     ''Compaction response was truncated before producing a complete summary.'' no_fields"

definition is_abort :: "thrown \<Rightarrow> bool" where
  "is_abort e = (case e of OtherErr n m sf \<Rightarrow> n = ''AbortError'' | _ \<Rightarrow> False)"

definition is_empty_or_truncated :: "thrown \<Rightarrow> bool" where
  "is_empty_or_truncated e =
     (case e of
        OtherErr n m sf \<Rightarrow> n = ''CompactionTruncatedError''
      | APIEmptyResponseError m f rf \<Rightarrow> True
      | _ \<Rightarrow> False)"

definition summary_text :: "GenerateResult \<Rightarrow> string" where
  "summary_text r = (case gr_content r of Inl t \<Rightarrow> t | Inr parts \<Rightarrow> concat (map part_text parts))"

definition extractCompactionSummary :: "GenerateResult \<Rightarrow> thrown + string" where
  "extractCompactionSummary r =
     (let summary = summary_text r
      in if length (js_trim summary) = 0
         then Inl (APIEmptyResponseError ''The compaction response did not contain a non-empty summary.'' None None)
         else Inr summary)"

record SummaryLoop =
  sl_history :: "ContextMessage list"
  sl_dropped :: nat
  sl_overflowShrinks :: nat
  sl_emptyShrinks :: nat
  sl_retry :: nat
  sl_requests :: nat
  sl_estimate :: nat

definition start_loop :: "ContextMessage list \<Rightarrow> SummaryLoop" where
  "start_loop originalHistory = \<lparr>sl_history = originalHistory, sl_dropped = 0, sl_overflowShrinks = 0,
     sl_emptyShrinks = 0, sl_retry = 0, sl_requests = 0, sl_estimate = 0\<rparr>"

datatype summary_next =
    Send_again
  | Wait_and_send
  | Summarised string "TokenUsage option"
  | Summary_failed thrown

definition answer :: "thrown + GenerateResult \<Rightarrow> thrown + (string \<times> TokenUsage option)" where
  "answer out =
     (case out of
        Inl e \<Rightarrow> Inl e
      | Inr r \<Rightarrow>
          if gr_truncated r then Inl CompactionTruncatedError
          else (case extractCompactionSummary r of Inl e \<Rightarrow> Inl e | Inr t \<Rightarrow> Inr (t, gr_usage r)))"

definition after_error ::
    "compaction_env \<Rightarrow> thrown \<Rightarrow> observed \<Rightarrow> SummaryLoop \<Rightarrow> summary_next \<times> observed \<times> SummaryLoop" where
  "after_error ev e obs sl =
     (let isContextOverflow = shouldRecoverFromContextOverflow ev obs e (sl_estimate sl);
          obs1 = (if isContextOverflow then observeContextOverflow ev (sl_estimate sl) obs else obs)
      in if isContextOverflow \<and> length (sl_history sl) > 1 then
           (let n = sl_overflowShrinks sl + 1; sl1 = sl\<lparr>sl_overflowShrinks := n\<rparr>
            in if n > MAX_COMPACTION_OVERFLOW_SHRINK_ATTEMPTS then (Summary_failed e, obs1, sl1)
               else let h = shrinkCompactionHistoryAfterOverflow (sl_history sl) n
                    in (Send_again, obs1,
                        sl1\<lparr>sl_history := h, sl_dropped := sl_dropped sl + (length (sl_history sl) - length h),
                            sl_retry := 0\<rparr>))
         else if is_empty_or_truncated e \<and> length (sl_history sl) > 1 then
           (let n = sl_emptyShrinks sl + 1; sl1 = sl\<lparr>sl_emptyShrinks := n\<rparr>
            in if n > MAX_COMPACTION_RETRY_ATTEMPTS then (Summary_failed e, obs1, sl1)
               else let h = dropOldestMessageAndLeadingToolResults (sl_history sl)
                    in (Send_again, obs1,
                        sl1\<lparr>sl_history := h, sl_dropped := sl_dropped sl + (length (sl_history sl) - length h),
                            sl_retry := 0\<rparr>))
         else if \<not> isRetryableGenerateError e then (Summary_failed e, obs1, sl)
         else if sl_retry sl + 1 \<ge> MAX_COMPACTION_RETRY_ATTEMPTS then (Summary_failed e, obs1, sl)
         else (Wait_and_send, obs1, sl\<lparr>sl_retry := sl_retry sl + 1\<rparr>))"

definition summary_step ::
    "compaction_env \<Rightarrow> thrown + GenerateResult \<Rightarrow> observed \<Rightarrow> SummaryLoop \<Rightarrow> summary_next \<times> observed \<times> SummaryLoop" where
  "summary_step ev out obs sl =
     (case answer out of
        Inr (t, usage) \<Rightarrow> (Summarised t usage, obs, sl)
      | Inl e \<Rightarrow> after_error ev e obs sl)"

text \<open>A request of the loop: the projected history and the instruction. The projection may throw, and
  reports its repairs to the conversation.\<close>

definition send_request ::
    "compaction_env \<Rightarrow> (ContextMessage list \<Rightarrow> ContextMessage list) \<Rightarrow> string \<Rightarrow> SummaryLoop \<Rightarrow> ContextMemory
      \<Rightarrow> (projection_error + (Message list \<times> SummaryLoop)) \<times> ContextMemory" where
  "send_request ev micro instr sl c =
     (case cx_project micro (sl_history sl)
             \<lparr>synthesizeMissing = True, dropOrphanResults = False, dropLeadingNonUser = False,
              mergeConsecutiveAssistants = False\<rparr> c of
        (Inl e, c1) \<Rightarrow> (Inl e, c1)
      | (Inr out, c1) \<Rightarrow>
          (let ms = out @ [createUserMessage instr]
           in (Inr (ms, sl\<lparr>sl_requests := sl_requests sl + 1, sl_estimate := estimateRequestTokens ev ms\<rparr>), c1)))"

section \<open>A round ends\<close>

text \<open>The requests that a round may still send.\<close>

definition budget_left :: "SummaryLoop \<Rightarrow> nat" where
  "budget_left sl = ((MAX_COMPACTION_OVERFLOW_SHRINK_ATTEMPTS - sl_overflowShrinks sl)
     + (MAX_COMPACTION_RETRY_ATTEMPTS - sl_emptyShrinks sl)) * MAX_COMPACTION_RETRY_ATTEMPTS
     + (MAX_COMPACTION_RETRY_ATTEMPTS - sl_retry sl)"

definition loop_ok :: "ContextMessage list \<Rightarrow> SummaryLoop \<Rightarrow> bool" where
  "loop_ok orig sl \<longleftrightarrow> suffix (sl_history sl) orig \<and> sl_dropped sl + length (sl_history sl) = length orig
     \<and> sl_overflowShrinks sl \<le> 3 \<and> sl_emptyShrinks sl \<le> 5 \<and> sl_retry sl \<le> 4"

lemma suffix_dropLeading: "suffix (dropLeadingToolResults ms) ms"
  by (simp add: dropLeadingToolResults_def suffix_dropWhile)

lemma suffix_shrink: "suffix (shrinkCompactionHistoryAfterOverflow ms n) ms"
  using suffix_dropLeading suffix_drop suffix_order.order_trans
  by (auto simp: shrinkCompactionHistoryAfterOverflow_def takeRecentMessagesWithinTokenBudget_def Let_def) blast+

lemma suffix_dropOldest: "suffix (dropOldestMessageAndLeadingToolResults ms) ms"
  using suffix_dropLeading suffix_drop suffix_order.order_trans
  by (auto simp: dropOldestMessageAndLeadingToolResults_def) blast

text \<open>A shrunk history is strictly shorter, so a round that goes on makes progress.\<close>

lemma shrink_shorter:
  assumes "1 < length ms" shows "length (shrinkCompactionHistoryAfterOverflow ms n) < length ms"
proof -
  have le: "length (dropLeadingToolResults xs) \<le> length xs" for xs
    using suffix_dropLeading suffix_length_le by blast
  have "ms \<noteq> []" using assms by auto
  then have "length (drop (if b = 0 then 1 else b) ms) < length ms" for b :: nat by simp
  moreover have "length xs < k \<Longrightarrow> length (dropLeadingToolResults xs) < k" for xs k
    using le le_less_trans by blast
  ultimately show ?thesis using assms
    by (simp add: shrinkCompactionHistoryAfterOverflow_def takeRecentMessagesWithinTokenBudget_def Let_def)
qed

lemma dropOldest_shorter:
  assumes "1 < length ms" shows "length (dropOldestMessageAndLeadingToolResults ms) < length ms"
  using assms suffix_length_le [OF suffix_dropLeading [of "drop 1 ms"]]
  by (simp add: dropOldestMessageAndLeadingToolResults_def)

lemma shrunk_ok:
  assumes "loop_ok orig sl" "suffix h (sl_history sl)"
  shows "suffix h orig \<and> sl_dropped sl + (length (sl_history sl) - length h) + length h = length orig"
  using assms suffix_length_le [OF assms(2)] suffix_order.order_trans [OF assms(2)] by (auto simp: loop_ok_def)

lemma after_error_ok:
  assumes ok: "loop_ok orig sl" and a: "after_error ev e obs sl = (nxt, obs', sl')"
    and go: "nxt = Send_again \<or> nxt = Wait_and_send"
  shows "loop_ok orig sl' \<and> budget_left sl' < budget_left sl \<and> sl_requests sl' = sl_requests sl"
proof -
  let ?big = "length (sl_history sl) > 1"
  let ?ov = "shouldRecoverFromContextOverflow ev obs e (sl_estimate sl) \<and> ?big"
  let ?em = "is_empty_or_truncated e \<and> ?big"
  from ok have le: "sl_overflowShrinks sl \<le> 3" "sl_emptyShrinks sl \<le> 5" "sl_retry sl \<le> 4"
    by (auto simp: loop_ok_def)
  consider (over) ?ov | (empty) "\<not> ?ov" ?em | (retry) "\<not> ?ov" "\<not> ?em" by blast
  then show ?thesis
  proof cases
    case over
    let ?n = "sl_overflowShrinks sl + 1"
    let ?h = "shrinkCompactionHistoryAfterOverflow (sl_history sl) ?n"
    from a go over have n: "\<not> ?n > 3" and sl': "sl' = sl\<lparr>sl_overflowShrinks := ?n, sl_history := ?h,
        sl_dropped := sl_dropped sl + (length (sl_history sl) - length ?h), sl_retry := 0\<rparr>"
      by (auto simp: after_error_def Let_def MAX_COMPACTION_OVERFLOW_SHRINK_ATTEMPTS_def split: if_splits)
    show ?thesis using shrunk_ok [OF ok suffix_shrink [of "sl_history sl" ?n]] le n
      by (simp add: sl' loop_ok_def budget_left_def MAX_COMPACTION_RETRY_ATTEMPTS_def
          MAX_COMPACTION_OVERFLOW_SHRINK_ATTEMPTS_def)
  next
    case empty
    let ?n = "sl_emptyShrinks sl + 1"
    let ?h = "dropOldestMessageAndLeadingToolResults (sl_history sl)"
    from a go empty have n: "\<not> ?n > 5" and sl': "sl' = sl\<lparr>sl_emptyShrinks := ?n, sl_history := ?h,
        sl_dropped := sl_dropped sl + (length (sl_history sl) - length ?h), sl_retry := 0\<rparr>"
      by (auto simp: after_error_def Let_def MAX_COMPACTION_RETRY_ATTEMPTS_def split: if_splits)
    show ?thesis using shrunk_ok [OF ok suffix_dropOldest [of "sl_history sl"]] le n
      by (simp add: sl' loop_ok_def budget_left_def MAX_COMPACTION_RETRY_ATTEMPTS_def
          MAX_COMPACTION_OVERFLOW_SHRINK_ATTEMPTS_def)
  next
    case retry
    from a go retry have n: "\<not> sl_retry sl + 1 \<ge> 5" and sl': "sl' = sl\<lparr>sl_retry := sl_retry sl + 1\<rparr>"
      by (auto simp: after_error_def Let_def MAX_COMPACTION_RETRY_ATTEMPTS_def split: if_splits)
    show ?thesis using ok le n
      by (simp add: sl' loop_ok_def budget_left_def MAX_COMPACTION_RETRY_ATTEMPTS_def)
  qed
qed

lemma summary_step_ok:
  assumes "loop_ok orig sl" "summary_step ev out obs sl = (nxt, obs', sl')"
    "nxt = Send_again \<or> nxt = Wait_and_send"
  shows "loop_ok orig sl' \<and> budget_left sl' < budget_left sl \<and> sl_requests sl' = sl_requests sl"
proof -
  from assms(2,3) obtain e where "after_error ev e obs sl = (nxt, obs', sl')"
    by (auto simp: summary_step_def split: sum.splits prod.splits)
  from after_error_ok [OF assms(1) this assms(3)] show ?thesis .
qed

lemma summary_step_done:
  assumes "summary_step ev out obs sl = (Summarised t usage, obs', sl')"
  shows "sl' = sl \<and> js_trim t \<noteq> [] \<and> obs' = obs"
proof -
  have nf: "fst (after_error ev e obs sl) \<noteq> Summarised t usage" for e
    by (auto simp: after_error_def Let_def)
  from assms obtain r where a: "answer out = Inr (t, usage)" "sl' = sl" "obs' = obs"
    using nf by (auto simp: summary_step_def split: sum.splits prod.splits) (metis fst_conv)
  then have "js_trim t \<noteq> []"
    by (auto simp: answer_def extractCompactionSummary_def Let_def split: sum.splits if_splits)
  then show ?thesis using a by simp
qed

text \<open>A whole round, with the answers of the provider in order; sending and waiting always succeed
  here. \<open>None\<close>: the round waits for an answer that is not in the list.\<close>

fun summary_round ::
    "compaction_env \<Rightarrow> (SummaryLoop \<Rightarrow> nat) \<Rightarrow> (thrown + GenerateResult) list \<Rightarrow> observed \<Rightarrow> SummaryLoop
      \<Rightarrow> ((thrown + (string \<times> ContextMessage list \<times> nat)) \<times> nat) option" where
  "summary_round ev est [] obs sl = None"
| "summary_round ev est (out # outs) obs sl =
     (let sl0 = sl\<lparr>sl_requests := sl_requests sl + 1, sl_estimate := est sl\<rparr>
      in case summary_step ev out obs sl0 of
           (Summarised t usage, obs1, sl1) \<Rightarrow> Some (Inr (t, sl_history sl1, sl_dropped sl1), sl_requests sl1)
         | (Summary_failed e, obs1, sl1) \<Rightarrow> Some (Inl e, sl_requests sl1)
         | (_, obs1, sl1) \<Rightarrow> summary_round ev est outs obs1 sl1)"

lemma loop_ok_sent:
  "loop_ok orig sl \<Longrightarrow> loop_ok orig (sl\<lparr>sl_requests := n, sl_estimate := m\<rparr>)"
  "budget_left (sl\<lparr>sl_requests := n, sl_estimate := m\<rparr>) = budget_left sl"
  by (simp_all add: loop_ok_def budget_left_def)

lemma summary_round_ends:
  assumes "loop_ok orig sl" and "budget_left sl \<le> length outs"
  shows "\<exists>r n. summary_round ev est outs obs sl = Some (r, n) \<and> n \<le> sl_requests sl + budget_left sl
     \<and> (case r of Inl e \<Rightarrow> True
        | Inr (t, h, d) \<Rightarrow> suffix h orig \<and> d + length h = length orig \<and> js_trim t \<noteq> [])"
  using assms
proof (induction outs arbitrary: obs sl)
  case Nil
  then show ?case by (simp add: budget_left_def loop_ok_def MAX_COMPACTION_RETRY_ATTEMPTS_def)
next
  case (Cons out outs)
  define sl0 where "sl0 = sl\<lparr>sl_requests := sl_requests sl + 1, sl_estimate := est sl\<rparr>"
  have ok0: "loop_ok orig sl0" and b0: "budget_left sl0 = budget_left sl" and r0: "sl_requests sl0 = sl_requests sl + 1"
    using loop_ok_sent Cons.prems(1) by (simp_all add: sl0_def)
  have pos: "0 < budget_left sl"
    using Cons.prems(1) by (simp add: budget_left_def loop_ok_def MAX_COMPACTION_RETRY_ATTEMPTS_def)
  obtain nxt obs1 sl1 where st: "summary_step ev out obs sl0 = (nxt, obs1, sl1)" by (cases "summary_step ev out obs sl0")
  have req: "sl_requests sl1 = sl_requests sl0"
    using st by (auto simp: summary_step_def after_error_def Let_def split: sum.splits prod.splits if_splits)
  note unroll = summary_round.simps Let_def sl0_def [symmetric] st
  show ?case
  proof (cases nxt)
    case (Summarised t usage)
    from summary_step_done [of ev out obs sl0 t usage obs1 sl1] st Summarised
    have "sl1 = sl0" "js_trim t \<noteq> []" by auto
    then show ?thesis unfolding unroll using Summarised ok0 r0 pos by (simp add: loop_ok_def)
  next
    case (Summary_failed e)
    then show ?thesis unfolding unroll using req r0 pos by simp
  next
    case Send_again
    then have go: "nxt = Send_again \<or> nxt = Wait_and_send" by simp
    from summary_step_ok [OF ok0 st go] have s: "loop_ok orig sl1" "budget_left sl1 < budget_left sl"
      "sl_requests sl1 = sl_requests sl + 1" using b0 r0 by auto
    have "budget_left sl1 \<le> length outs" using s(2) Cons.prems(2) by simp
    from Cons.IH [OF s(1) this, of obs1] obtain r n where r:
      "summary_round ev est outs obs1 sl1 = Some (r, n)" "n \<le> sl_requests sl1 + budget_left sl1"
      "case r of Inl e \<Rightarrow> True | Inr (t, h, d) \<Rightarrow> suffix h orig \<and> d + length h = length orig \<and> js_trim t \<noteq> []"
      by blast
    have "n \<le> sl_requests sl + budget_left sl" using r(2) s(2,3) by simp
    then show ?thesis unfolding unroll Send_again summary_next.case prod.case using r(1,3) by blast
  next
    case Wait_and_send
    then have go: "nxt = Send_again \<or> nxt = Wait_and_send" by simp
    from summary_step_ok [OF ok0 st go] have s: "loop_ok orig sl1" "budget_left sl1 < budget_left sl"
      "sl_requests sl1 = sl_requests sl + 1" using b0 r0 by auto
    have "budget_left sl1 \<le> length outs" using s(2) Cons.prems(2) by simp
    from Cons.IH [OF s(1) this, of obs1] obtain r n where r:
      "summary_round ev est outs obs1 sl1 = Some (r, n)" "n \<le> sl_requests sl1 + budget_left sl1"
      "case r of Inl e \<Rightarrow> True | Inr (t, h, d) \<Rightarrow> suffix h orig \<and> d + length h = length orig \<and> js_trim t \<noteq> []"
      by blast
    have "n \<le> sl_requests sl + budget_left sl" using r(2) s(2,3) by simp
    then show ?thesis unfolding unroll Wait_and_send summary_next.case prod.case using r(1,3) by blast
  qed
qed

lemma start_ok [simp]: "loop_ok ms (start_loop ms)" "budget_left (start_loop ms) = 45"
  by (simp_all add: loop_ok_def start_loop_def budget_left_def MAX_COMPACTION_RETRY_ATTEMPTS_def
      MAX_COMPACTION_OVERFLOW_SHRINK_ATTEMPTS_def)

text \<open>
  A request for a summary ends. Whatever the provider answers, the round is over after at most
  45 requests, with an error or with a summary that is not blank; the summary was made of an end piece
  of the conversation, and the messages that were left out are exactly the number it reports.\<close>

theorem summary_round_bounded:
  assumes "45 \<le> length outs"
  shows "\<exists>r n. summary_round ev est outs obs (start_loop ms) = Some (r, n) \<and> n \<le> 45
     \<and> (case r of Inl e \<Rightarrow> True
        | Inr (t, h, d) \<Rightarrow> h = drop d ms \<and> d \<le> length ms \<and> js_trim t \<noteq> [])"
proof -
  have s: "suffix h ms \<Longrightarrow> d + length h = length ms \<Longrightarrow> h = drop d ms \<and> d \<le> length ms"
    for h :: "ContextMessage list" and d by (auto simp: suffix_def)
  have len: "budget_left (start_loop ms) \<le> length outs" using assms by simp
  from summary_round_ends [OF start_ok(1) len, of ev est obs] obtain r n where
    r: "summary_round ev est outs obs (start_loop ms) = Some (r, n)" "n \<le> sl_requests (start_loop ms) + 45"
      "case r of Inl e \<Rightarrow> True | Inr (t, h, d) \<Rightarrow> suffix h ms \<and> d + length h = length ms \<and> js_trim t \<noteq> []"
    unfolding start_ok by blast
  have "case r of Inl e \<Rightarrow> True | Inr (t, h, d) \<Rightarrow> h = drop d ms \<and> d \<le> length ms \<and> js_trim t \<noteq> []"
    using r(3) s by (simp split: sum.splits prod.splits)
  moreover have "n \<le> 45" using r(2) by (simp add: start_loop_def)
  ultimately show ?thesis using r(1) by blast
qed

definition demo_env :: compaction_env where
  "demo_env = \<lparr>ev_modelAlias = Some ''m'', ev_maxContextTokens = 1000, ev_overhead = 100,
     ev_strategy = DEFAULT_COMPACTION_CONFIG, ev_maxCompactionPerTurn = None\<rparr>"

lemma summary_round_bounded_witness:
  "\<exists>r n. summary_round demo_env (\<lambda>sl. 10) (replicate 50 (Inl (APIConnectionError ''x''))) [] (start_loop []) = Some (r, n)
     \<and> n \<le> 45
     \<and> (case r of Inl e \<Rightarrow> True
        | Inr (t, h, d) \<Rightarrow> h = drop d [] \<and> d \<le> length ([] :: ContextMessage list) \<and> js_trim t \<noteq> [])"
  by (rule summary_round_bounded) simp

section \<open>The observed limit\<close>

lemma map_put_values: "(k, n) \<in> set (map_put a v m) \<Longrightarrow> n = v \<or> n \<in> snd ` set m"
  by (induction m) (auto split: if_splits intro: rev_image_eqI)

lemma double_85: "0 \<le> double (85 / 100) \<and> double (85 / 100) \<le> 1"
  using double_bounds(1) [of "85 / 100" 1] double_bounds(2) [of "85 / 100" 0] by simp

text \<open>
  The limit learned from an overflow is sane and only gets tighter: after observing one, the
  effective context window is at least one token, no larger than it was (when it was known), and no
  larger than the request that overflowed.\<close>

theorem observed_limit_tightens:
  assumes "ev_modelAlias ev = Some a" and "0 < estimated" and "estimated < 2 ^ 53"
    and "\<forall>n \<in> set (map snd obs). 1 \<le> n"
  shows "let before = getEffectiveMaxContextTokens ev obs;
             after = getEffectiveMaxContextTokens ev (observeContextOverflow ev estimated obs)
         in (\<forall>n \<in> set (map snd (observeContextOverflow ev estimated obs)). 1 \<le> n) \<and> 1 \<le> after
            \<and> (0 < before \<longrightarrow> after \<le> before) \<and> (after < before \<or> before \<le> 0 \<longrightarrow> after \<le> int estimated)"
proof -
  define o1 where "o1 = max 1 \<lfloor>double (of_nat estimated * double (85 / 100))\<rfloor>"
  let ?p = "of_nat estimated * double (85 / 100) :: rat"
  have le: "?p \<le> of_int (int estimated)" using double_85 by (simp add: mult_left_le)
  have "estimated < 9007199254740992" using assms(3) by simp
  then have "(of_nat estimated :: rat) < of_nat 9007199254740992" by (simp only: of_nat_less_iff)
  then have "\<bar>?p\<bar> < 9007199254740992" using le double_85 by (simp add: abs_mult)
  then have "double ?p \<le> of_int (int estimated)" using le by (rule double_bounds(1))
  then have "\<lfloor>double (of_nat estimated * double (85 / 100))\<rfloor> \<le> int estimated" by linarith
  then have o1: "1 \<le> o1" "o1 \<le> int estimated" using assms(2) by (auto simp: o1_def)
  have vals: "\<forall>n \<in> set (map snd (map_put a o1 obs)). 1 \<le> n"
    using assms(4) o1(1) map_put_values by fastforce
  have get: "1 \<le> n" if "map_get obs a = Some n" for n
    using that assms(4) by (metis image_eqI list.set_map map_of_SomeD snd_conv)
  have eff: "getEffectiveMaxContextTokens ev m = (case map_get m a of None \<Rightarrow> ev_maxContextTokens ev
      | Some v \<Rightarrow> if ev_maxContextTokens ev \<le> 0 then v else min (ev_maxContextTokens ev) v)" for m
    by (simp add: getEffectiveMaxContextTokens_def assms(1) Let_def split: option.split)
  define cur where "cur = getEffectiveMaxContextTokens ev obs"
  have cur: "cur = ev_maxContextTokens ev \<or> 1 \<le> cur \<or> ev_maxContextTokens ev > 0 \<and> cur \<ge> 1"
    using get unfolding cur_def eff by (auto split: option.split)
  have obs': "observeContextOverflow ev estimated obs = (if cur > 0 \<and> o1 \<ge> cur then obs else map_put a o1 obs)"
    using assms(2) by (simp add: observeContextOverflow_def assms(1) o1_def cur_def Let_def)
  have put: "getEffectiveMaxContextTokens ev (map_put a o1 obs)
      = (if ev_maxContextTokens ev \<le> 0 then o1 else min (ev_maxContextTokens ev) o1)"
    unfolding eff by simp
  have le: "0 < cur \<Longrightarrow> 0 < ev_maxContextTokens ev \<Longrightarrow> cur \<le> ev_maxContextTokens ev"
    unfolding cur_def eff by (auto split: option.split)
  show ?thesis
  proof (cases "cur > 0 \<and> o1 \<ge> cur")
    case True
    then show ?thesis unfolding Let_def obs' cur_def [symmetric] using assms(4) by (simp add: cur_def)
  next
    case False
    then show ?thesis unfolding Let_def obs' cur_def [symmetric] if_not_P [OF False] put
      using vals o1 le cur by auto
  qed
qed

lemma observed_limit_tightens_witness:
  "let before = getEffectiveMaxContextTokens demo_env [];
       after = getEffectiveMaxContextTokens demo_env (observeContextOverflow demo_env 900 [])
   in (\<forall>n \<in> set (map snd (observeContextOverflow demo_env 900 [])). 1 \<le> n) \<and> 1 \<le> after
      \<and> (0 < before \<longrightarrow> after \<le> before) \<and> (after < before \<or> before \<le> 0 \<longrightarrow> after \<le> int 900)"
  by (rule observed_limit_tightens [where a = "''m''"]) (simp_all add: demo_env_def)

section \<open>A round that summarises nothing\<close>

lemma recent_none:
  "int (estimateTokensForMessage m) > b \<Longrightarrow> recent_count (rev (old @ [m])) 0 b = 0"
  by (simp add: Let_def)

text \<open>
  When the context overflows because of its newest message, nothing at all is summarised. If that
  message alone exceeds seven tenths of the estimate of the history, the request after the first
  overflow holds the instruction only, and a round that gets an answer to it replaces the whole
  conversation by a summary of nothing: all messages count as dropped.\<close>

theorem overflow_by_newest_sends_nothing:
  assumes "old \<noteq> []" and "is_overflow e" and "js_trim t \<noteq> []"
    and "int (estimateTokensForMessage m)
      > \<lfloor>double (of_nat (estimateTokensForMessages (old @ [m])) * double (7 / 10))\<rfloor>"
  shows "shrinkCompactionHistoryAfterOverflow (old @ [m]) 1 = []
    \<and> summary_round ev est [Inl e, Inr \<lparr>gr_content = Inl t, gr_truncated = False, gr_usage = u\<rparr>] obs
        (start_loop (old @ [m])) = Some (Inr (t, [], Suc (length old)), 2)"
proof -
  have big: "1 < length (old @ [m])" using assms(1) by (cases old) simp_all
  let ?b = "\<lfloor>double (of_nat (estimateTokensForMessages (old @ [m])) * double (7 / 10))\<rfloor>"
  have shr: "shrinkCompactionHistoryAfterOverflow (old @ [m]) 1 = []"
    unfolding shrinkCompactionHistoryAfterOverflow_def Let_def takeRecentMessagesWithinTokenBudget_def
    using big recent_none [OF assms(4)]
    by (simp add: COMPACTION_OVERFLOW_SHRINK_RATIOS_def dropLeadingToolResults_def)
  define sl where "sl = (start_loop (old @ [m]))\<lparr>sl_requests := 1, sl_estimate := est (start_loop (old @ [m]))\<rparr>"
  have sl: "sl_history sl = old @ [m]" "sl_overflowShrinks sl = 0" "sl_dropped sl = 0" "sl_requests sl = 1"
    by (simp_all add: sl_def start_loop_def)
  have rec: "shouldRecoverFromContextOverflow ev obs e (sl_estimate sl)"
    using assms(2) by (simp add: shouldRecoverFromContextOverflow_def)
  have one: "summary_step ev (Inl e) obs sl = (Send_again, observeContextOverflow ev (sl_estimate sl) obs,
      sl\<lparr>sl_overflowShrinks := 1, sl_history := [], sl_dropped := Suc (length old), sl_retry := 0\<rparr>)"
    using rec big shr sl
    by (simp add: summary_step_def answer_def after_error_def Let_def MAX_COMPACTION_OVERFLOW_SHRINK_ATTEMPTS_def)
  have two: "summary_step ev (Inr \<lparr>gr_content = Inl t, gr_truncated = False, gr_usage = u\<rparr>) o2 s2 = (Summarised t u, o2, s2)"
    for o2 s2
    using assms(3) by (simp add: summary_step_def answer_def extractCompactionSummary_def summary_text_def)
  have n: "sl_requests (start_loop (old @ [m])) + 1 = 1" by (simp add: start_loop_def)
  show ?thesis
    using shr unfolding summary_round.simps Let_def n sl_def [symmetric] one two by (simp add: sl(4))
qed

definition demo_message :: "string \<Rightarrow> ContextMessage" where
  "demo_message t = \<lparr>role = RoleUser, msg_name = None, content = [TextPart t], toolCalls = [],
     toolCallId = None, partial = None, origin = None, isError = None\<rparr>"

lemma overflow_by_newest_sends_nothing_witness:
  "shrinkCompactionHistoryAfterOverflow ([demo_message ''a''] @ [demo_message (replicate 40 CHR ''b'')]) 1 = []
   \<and> summary_round demo_env (\<lambda>sl. 20)
       [Inl (APIContextOverflowError 400 ''maximum context'' None),
        Inr \<lparr>gr_content = Inl ''s'', gr_truncated = False, gr_usage = None\<rparr>] []
       (start_loop ([demo_message ''a''] @ [demo_message (replicate 40 CHR ''b'')]))
     = Some (Inr (''s'', [], Suc (length [demo_message ''a''])), 2)"
proof (rule overflow_by_newest_sends_nothing)
  show "is_overflow (APIContextOverflowError 400 ''maximum context'' None)" by (simp add: is_overflow_def)
  show "js_trim ''s'' \<noteq> []" by code_simp
  have "estimateTokensForMessages ([demo_message ''a''] @ [demo_message (replicate 40 CHR ''b'')]) = 13" by code_simp
  moreover have "estimateTokensForMessage (demo_message (replicate 40 CHR ''b'')) = 11" by code_simp
  moreover have "\<lfloor>double (13 * double (7 / 10))\<rfloor> = 9" by code_simp
  ultimately show "int (estimateTokensForMessage (demo_message (replicate 40 CHR ''b'')))
      > \<lfloor>double (of_nat (estimateTokensForMessages ([demo_message ''a''] @ [demo_message (replicate 40 CHR ''b'')])) * double (7 / 10))\<rfloor>"
    by simp
qed simp

end
