(* ===== verification/Full_Compaction.thy ===== *)
theory Full_Compaction
  imports Compaction_Round
begin

text \<open>
  The summarising compaction of an agent (\<open>agent/compaction/full.ts\<close>): when it begins, the worker
  that asks for the summary and puts it in place of the conversation, how it is cancelled, and what
  a turn does about an overflow of the context.

  \<open>FullCompaction\<close> is the state of the class together with the conversation. A worker is a call of
  \<open>compactionWorker\<close> that has not ended: \<open>cw_phase\<close> is the await it is suspended in, and the
  functions named after an answer resume it (\<open>pre_hook_returned\<close>, \<open>generate_returned\<close>,
  \<open>slept\<close>, \<open>refreshed\<close>, \<open>reinjected\<close>). Several workers may be alive: a cancelled one ends only
  when its await does. \<open>fc_compacting\<close> is the field \<open>compacting\<close>: the worker and whether a turn
  waits for it. The identity of a message object is the id of its entry.

  Records, events, calls to other components and what happened to each promise are lists, in order;
  events carry the worker they are about. Telemetry and logging are left out, and so is the mark
  \<open>cancelled\<close> in the replay of a restored session. The template of the instruction and the prefix of
  the summary are Markdown files, so their texts are arguments.
\<close>

section \<open>State\<close>

datatype CompactionSource = Src_manual | Src_auto

datatype worker_phase =
    W_preHook
  | W_generating SummaryLoop
  | W_sleeping SummaryLoop
  | W_refreshing CompactionResult
  | W_injecting CompactionResult

record compaction_worker =
  cw_source :: CompactionSource
  cw_original :: "entry list"
  cw_tokensBefore :: nat
  cw_aborted :: bool
  cw_phase :: worker_phase

datatype fc_record =
    FR_begin CompactionSource "string option"
  | FR_cancel
  | FR_complete

datatype fc_event =
    FE_started nat CompactionSource "string option"
  | FE_cancelled nat
  | FE_completed nat CompactionResult
  | FE_blocked nat
  | FE_error nat KimiErrorPayload

datatype fc_call =
    FC_hook_PreCompact nat CompactionSource nat
  | FC_generate nat "Message list"
  | FC_usage_record TokenUsage
  | FC_refreshSystemPrompt nat
  | FC_injectAfterCompaction nat
  | FC_hook_PostCompact nat CompactionSource int
  | FC_turn_onCompactionFinished nat
  | FC_rejected nat thrown

record FullCompaction =
  fc_countInTurn :: nat
  fc_compacting :: "(nat \<times> bool) option"
  fc_observed :: observed
  fc_lastCompacted :: "int option"
  fc_overflows :: nat
  fc_workers :: "(nat \<times> compaction_worker) list"
  fc_nextWorker :: nat
  fc_context :: ContextMemory
  fc_records :: "fc_record list"
  fc_events :: "fc_event list"
  fc_calls :: "fc_call list"

definition new_compaction :: "ContextMemory \<Rightarrow> FullCompaction" where
  "new_compaction c = \<lparr>fc_countInTurn = 0, fc_compacting = None, fc_observed = [], fc_lastCompacted = None,
     fc_overflows = 0, fc_workers = [], fc_nextWorker = 0, fc_context = c, fc_records = [],
     fc_events = [], fc_calls = []\<rparr>"

definition fc_log :: "fc_record \<Rightarrow> FullCompaction \<Rightarrow> FullCompaction" where
  "fc_log r s = s\<lparr>fc_records := fc_records s @ [r]\<rparr>"

definition fc_emit :: "fc_event \<Rightarrow> FullCompaction \<Rightarrow> FullCompaction" where
  "fc_emit e s = s\<lparr>fc_events := fc_events s @ [e]\<rparr>"

definition fc_do :: "fc_call \<Rightarrow> FullCompaction \<Rightarrow> FullCompaction" where
  "fc_do k s = s\<lparr>fc_calls := fc_calls s @ [k]\<rparr>"

definition isCompacting :: "FullCompaction \<Rightarrow> bool" where
  "isCompacting s \<longleftrightarrow> fc_compacting s \<noteq> None"

definition fc_restoring :: "FullCompaction \<Rightarrow> bool" where
  "fc_restoring s \<longleftrightarrow> ag_restoring (cx_agent (fc_context s)) \<noteq> None"

definition fc_tokens :: "FullCompaction \<Rightarrow> int" where
  "fc_tokens s = tokenCountWithPending (fc_context s)"

section \<open>Begin and cancel\<close>

definition compaction_unable :: "string \<Rightarrow> thrown" where
  "compaction_unable m = KimiError EC_COMPACTION_UNABLE m None"

text \<open>\<open>begin\<close>; the result is the error it throws.\<close>

definition fc_begin ::
    "compaction_env \<Rightarrow> ms \<Rightarrow> bool \<Rightarrow> CompactionSource \<Rightarrow> string option \<Rightarrow> FullCompaction
      \<Rightarrow> thrown option \<times> FullCompaction" where
  "fc_begin ev now hasActiveTurn src instruction s =
     (if isCompacting s then (None, s)
      else
        let s1 = s\<lparr>fc_countInTurn := (if src = Src_manual then 0 else fc_countInTurn s + 1)\<rparr>
        in if (case ev_maxCompactionPerTurn ev of None \<Rightarrow> False | Some mx \<Rightarrow> fc_countInTurn s1 > mx) then (None, s1)
           else if fc_restoring s1
           then (None, s1\<lparr>fc_context := on_agent_cx (replay_push now (CP_compaction None)) (fc_context s1)\<rparr>)
           else if length (cx_history (fc_context s1)) = 0
           then (Some (compaction_unable ''No messages to compact in current history.''), s1)
           else if src = Src_manual \<and> hasActiveTurn
           then (Some (compaction_unable ''Cannot compact while a turn is active. Wait for it to finish, then retry.''), s1)
           else
             let w = fc_nextWorker s1;
                 original = cx_history (fc_context s1);
                 tokensBefore = estimateTokensForMessages (map snd original);
                 s2 = fc_emit (FE_started w src instruction) (fc_log (FR_begin src instruction) s1);
                 s3 = fc_do (FC_hook_PreCompact w src tokensBefore) s2
             in (None, s3\<lparr>fc_nextWorker := w + 1,
                   fc_workers := map_put w \<lparr>cw_source = src, cw_original = original, cw_tokensBefore = tokensBefore,
                                            cw_aborted = False, cw_phase = W_preHook\<rparr> (fc_workers s3),
                   fc_compacting := Some (w, False)\<rparr>))"

definition put_phase :: "nat \<Rightarrow> worker_phase \<Rightarrow> FullCompaction \<Rightarrow> FullCompaction" where
  "put_phase w ph s =
     (case map_get (fc_workers s) w of
        None \<Rightarrow> s
      | Some k \<Rightarrow> s\<lparr>fc_workers := map_put w (k\<lparr>cw_phase := ph\<rparr>) (fc_workers s)\<rparr>)"

definition fc_cancel :: "FullCompaction \<Rightarrow> FullCompaction" where
  "fc_cancel s =
     (case fc_compacting s of
        None \<Rightarrow> s
      | Some (w, blocked) \<Rightarrow>
          let s1 = fc_log FR_cancel s;
              s2 = (case map_get (fc_workers s1) w of
                      None \<Rightarrow> s1
                    | Some k \<Rightarrow> s1\<lparr>fc_workers := map_put w (k\<lparr>cw_aborted := True\<rparr>) (fc_workers s1)\<rparr>)
          in fc_emit (FE_cancelled w) (s2\<lparr>fc_compacting := None\<rparr>))"

definition markCompleted :: "FullCompaction \<Rightarrow> FullCompaction" where
  "markCompleted s = (fc_log FR_complete s)\<lparr>fc_compacting := None\<rparr>"

section \<open>The worker\<close>

text \<open>The end of \<open>compactionWorker\<close>, its \<open>finally\<close> included.\<close>

definition worker_ends :: "nat \<Rightarrow> FullCompaction \<Rightarrow> FullCompaction" where
  "worker_ends w s = fc_do (FC_turn_onCompactionFinished w) (s\<lparr>fc_workers := map_remove w (fc_workers s)\<rparr>)"

text \<open>The \<open>catch\<close> of \<open>compactionWorker\<close>.\<close>

definition worker_catches :: "nat \<Rightarrow> thrown \<Rightarrow> FullCompaction \<Rightarrow> FullCompaction" where
  "worker_catches w e s =
     (if is_abort e then worker_ends w s
      else
        let blockedByTurn = (case fc_compacting s of None \<Rightarrow> False | Some (v, b) \<Rightarrow> b);
            s1 = fc_cancel s
        in worker_ends w (if blockedByTurn then fc_do (FC_rejected w e) s1
                          else fc_emit (FE_error w (toKimiErrorPayload e)) s1))"

definition err_name :: "thrown \<Rightarrow> string" where
  "err_name e = (case ep_name (toKimiErrorPayload e) of Some n \<Rightarrow> n | None \<Rightarrow> [])"

text \<open>\<open>String(error)\<close>.\<close>

definition err_string :: "thrown \<Rightarrow> string" where
  "err_string e =
     (case e of
        NotAnError t sf \<Rightarrow> t
      | _ \<Rightarrow> if err_message e = [] then err_name e else err_name e @ '': '' @ err_message e)"

text \<open>The \<open>catch\<close> of \<open>compactionRound\<close>; an abort makes it return nothing.\<close>

definition round_catches :: "nat \<Rightarrow> thrown \<Rightarrow> FullCompaction \<Rightarrow> FullCompaction" where
  "round_catches w e s =
     (if is_abort e then worker_ends w s
      else if (case e of KimiError c m d \<Rightarrow> c = EC_AUTH_LOGIN_REQUIRED | _ \<Rightarrow> False) then worker_catches w e s
      else worker_catches w (KimiError EC_COMPACTION_FAILED (err_string e) None) s)"

definition projection_thrown :: "projection_error \<Rightarrow> thrown" where
  "projection_thrown e =
     (case e of EmptyToolResult i \<Rightarrow>
        KimiError EC_REQUEST_INVALID
          ''Tool result message content cannot be empty after removing empty text blocks.''
          (Some (case i of None \<Rightarrow> [] | Some x \<Rightarrow> [(''toolCallId'', JStr x)])))"

definition send_summary_request ::
    "compaction_env \<Rightarrow> (ContextMessage list \<Rightarrow> ContextMessage list) \<Rightarrow> string \<Rightarrow> nat \<Rightarrow> SummaryLoop \<Rightarrow> FullCompaction
      \<Rightarrow> FullCompaction" where
  "send_summary_request ev micro instr w sl s =
     (case send_request ev micro instr sl (fc_context s) of
        (Inl e, c1) \<Rightarrow> round_catches w (projection_thrown e) (s\<lparr>fc_context := c1\<rparr>)
      | (Inr (ms, sl1), c1) \<Rightarrow> fc_do (FC_generate w ms) (put_phase w (W_generating sl1) (s\<lparr>fc_context := c1\<rparr>)))"

definition abort_error :: thrown where
  "abort_error = OtherErr ''AbortError'' ''This operation was aborted'' no_fields"

text \<open>The hook \<open>PreCompact\<close> returned or threw; \<open>setup\<close> is what building the provider and the
  instruction threw, if anything.\<close>

definition pre_hook_returned ::
    "compaction_env \<Rightarrow> (ContextMessage list \<Rightarrow> ContextMessage list) \<Rightarrow> string \<Rightarrow> thrown option \<Rightarrow> thrown option \<Rightarrow> nat
      \<Rightarrow> FullCompaction \<Rightarrow> FullCompaction" where
  "pre_hook_returned ev micro instr threw setup w s =
     (case map_get (fc_workers s) w of
        Some k \<Rightarrow>
          if cw_phase k \<noteq> W_preHook then s
          else (case threw of
                  Some e \<Rightarrow> round_catches w e s
                | None \<Rightarrow>
                    if cw_aborted k then round_catches w abort_error s
                    else (case setup of
                            Some e \<Rightarrow> round_catches w e s
                          | None \<Rightarrow> send_summary_request ev micro instr w (start_loop (map snd (cw_original k))) s))
      | None \<Rightarrow> s)"

datatype TodoStatus = Td_pending | Td_in_progress | Td_done

definition statusMarker :: "TodoStatus \<Rightarrow> string" where
  "statusMarker t = (case t of Td_pending \<Rightarrow> ''[pending]'' | Td_in_progress \<Rightarrow> ''[in_progress]'' | Td_done \<Rightarrow> ''[done]'')"

definition renderTodoList :: "(string \<times> TodoStatus) list \<Rightarrow> string \<Rightarrow> string" where
  "renderTodoList todos title =
     (if length todos = 0 then ''Todo list is empty.''
      else Messages.join_with eol (title # map (\<lambda>(t, st). ''  '' @ statusMarker st @ '' '' @ t) todos))"

definition postProcessSummary :: "(string \<times> TodoStatus) list \<Rightarrow> string \<Rightarrow> string" where
  "postProcessSummary todos summary =
     (if length todos = 0 then summary
      else js_trim summary @ eol @ eol @ renderTodoList todos ''## TODO List'')"

text \<open>The rest of \<open>compactionRound\<close> once there is a summary: the conversation must still begin with
  the messages that were summarised, and only real user input may have been added.\<close>

definition round_summarised ::
    "ms \<Rightarrow> string \<Rightarrow> (string \<times> TodoStatus) list \<Rightarrow> string \<Rightarrow> nat \<Rightarrow> nat \<Rightarrow> compaction_worker \<Rightarrow> FullCompaction
      \<Rightarrow> FullCompaction" where
  "round_summarised now prefix_text todos summary dropped w k s =
     (let n = length (cw_original k);
          newHistory = cx_history (fc_context s)
      in if map fst (take n newHistory) \<noteq> map fst (cw_original k) then worker_ends w (fc_cancel s)
         else if list_ex (\<lambda>e. \<not> isRealUserInput (snd e)) (drop n newHistory) then worker_ends w (fc_cancel s)
         else
           let rawSummary = postProcessSummary todos summary;
               input = \<lparr>ci_summary = rawSummary,
                        ci_contextSummary = Some (buildCompactionSummaryText prefix_text rawSummary),
                        ci_compactedCount = n, ci_tokensBefore = int (cw_tokensBefore k), ci_tokensAfter = None,
                        ci_keptUserMessageCount = None,
                        ci_droppedCount = (if dropped = 0 then None else Some dropped)\<rparr>
           in case applyCompaction now input (fc_context s) of
                (r, c1) \<Rightarrow>
                  fc_do (FC_refreshSystemPrompt w)
                    (put_phase w (W_refreshing r)
                      (s\<lparr>fc_context := c1, fc_lastCompacted := Some (cr_tokensAfter r)\<rparr>)))"

definition generate_returned ::
    "compaction_env \<Rightarrow> ms \<Rightarrow> (ContextMessage list \<Rightarrow> ContextMessage list) \<Rightarrow> string \<Rightarrow> string
      \<Rightarrow> (string \<times> TodoStatus) list \<Rightarrow> thrown + GenerateResult \<Rightarrow> nat \<Rightarrow> FullCompaction \<Rightarrow> FullCompaction" where
  "generate_returned ev now micro instr prefix_text todos out w s =
     (case map_get (fc_workers s) w of
        Some k \<Rightarrow>
          (case cw_phase k of
             W_generating sl \<Rightarrow>
               (case summary_step ev out (fc_observed s) sl of
                  (Send_again, obs, sl1) \<Rightarrow> send_summary_request ev micro instr w sl1 (s\<lparr>fc_observed := obs\<rparr>)
                | (Wait_and_send, obs, sl1) \<Rightarrow> put_phase w (W_sleeping sl1) (s\<lparr>fc_observed := obs\<rparr>)
                | (Summary_failed e, obs, sl1) \<Rightarrow> round_catches w e (s\<lparr>fc_observed := obs\<rparr>)
                | (Summarised t usage, obs, sl1) \<Rightarrow>
                    round_summarised now prefix_text todos t (sl_dropped sl1) w k
                      (case usage of None \<Rightarrow> s | Some u \<Rightarrow> fc_do (FC_usage_record u) s))
           | _ \<Rightarrow> s)
      | None \<Rightarrow> s)"

definition slept ::
    "compaction_env \<Rightarrow> (ContextMessage list \<Rightarrow> ContextMessage list) \<Rightarrow> string \<Rightarrow> thrown option \<Rightarrow> nat
      \<Rightarrow> FullCompaction \<Rightarrow> FullCompaction" where
  "slept ev micro instr threw w s =
     (case map_get (fc_workers s) w of
        Some k \<Rightarrow>
          (case cw_phase k of
             W_sleeping sl \<Rightarrow>
               (case threw of Some e \<Rightarrow> round_catches w e s | None \<Rightarrow> send_summary_request ev micro instr w sl s)
           | _ \<Rightarrow> s)
      | None \<Rightarrow> s)"

text \<open>The system prompt was refreshed; an error of that is only logged.\<close>

definition refreshed :: "nat \<Rightarrow> FullCompaction \<Rightarrow> FullCompaction" where
  "refreshed w s =
     (case map_get (fc_workers s) w of
        Some k \<Rightarrow>
          (case cw_phase k of
             W_refreshing r \<Rightarrow> fc_do (FC_injectAfterCompaction w) (put_phase w (W_injecting r) s)
           | _ \<Rightarrow> s)
      | None \<Rightarrow> s)"

definition reinjected :: "thrown option \<Rightarrow> nat \<Rightarrow> FullCompaction \<Rightarrow> FullCompaction" where
  "reinjected threw w s =
     (case map_get (fc_workers s) w of
        Some k \<Rightarrow>
          (case cw_phase k of
             W_injecting r \<Rightarrow>
               (case threw of
                  Some e \<Rightarrow> worker_catches w e s
                | None \<Rightarrow>
                    worker_ends w (fc_do (FC_hook_PostCompact w (cw_source k) (cr_tokensAfter r))
                      (fc_emit (FE_completed w r) (markCompleted s))))
           | _ \<Rightarrow> s)
      | None \<Rightarrow> s)"

section \<open>The turn\<close>

definition resetForTurn :: "FullCompaction \<Rightarrow> FullCompaction" where
  "resetForTurn s = s\<lparr>fc_countInTurn := 0, fc_lastCompacted := None, fc_overflows := 0\<rparr>"

definition overflow_error :: "string \<Rightarrow> thrown" where
  "overflow_error m = KimiError EC_CONTEXT_OVERFLOW m None"

text \<open>\<open>beginAutoCompaction\<close>: the error it throws or whether a compaction runs now.\<close>

definition beginAutoCompaction ::
    "compaction_env \<Rightarrow> ms \<Rightarrow> bool \<Rightarrow> FullCompaction \<Rightarrow> (thrown + bool) \<times> FullCompaction" where
  "beginAutoCompaction ev now throwOnLimit s =
     (if isCompacting s then (Inr True, s)
      else if (case ev_maxCompactionPerTurn ev of None \<Rightarrow> False | Some mx \<Rightarrow> fc_countInTurn s \<ge> mx)
      then (if throwOnLimit
            then (Inl (overflow_error (''Compaction limit exceeded ('' @
                    (case ev_maxCompactionPerTurn ev of Some mx \<Rightarrow> show_count mx | None \<Rightarrow> ''Infinity'') @ '')'')), s)
            else (Inr False, s))
      else (case fc_begin ev now True Src_auto None s of
              (Some e, s1) \<Rightarrow> (Inl e, s1)
            | (None, s1) \<Rightarrow> (Inr (isCompacting s1), s1)))"

definition fc_maxSize :: "compaction_env \<Rightarrow> FullCompaction \<Rightarrow> int" where
  "fc_maxSize ev s = getEffectiveMaxContextTokens ev (fc_observed s)"

definition checkAutoCompaction ::
    "compaction_env \<Rightarrow> ms \<Rightarrow> bool \<Rightarrow> FullCompaction \<Rightarrow> (thrown + bool) \<times> FullCompaction" where
  "checkAutoCompaction ev now throwOnLimit s =
     (if isCompacting s then (Inr True, s)
      else if (case fc_lastCompacted s of None \<Rightarrow> False | Some n \<Rightarrow> fc_tokens s \<le> n) then (Inr False, s)
      else if \<not> shouldCompact (ev_strategy ev) (fc_maxSize ev s) (fc_tokens s) then (Inr False, s)
      else beginAutoCompaction ev now throwOnLimit s)"

text \<open>\<open>block\<close>: the worker whose promise the turn waits for; its abort listener is \<open>turn_aborted\<close>.\<close>

definition fc_block :: "FullCompaction \<Rightarrow> nat option \<times> FullCompaction" where
  "fc_block s =
     (case fc_compacting s of
        None \<Rightarrow> (None, s)
      | Some (w, b) \<Rightarrow> (Some w, fc_emit (FE_blocked w) (s\<lparr>fc_compacting := Some (w, True)\<rparr>)))"

definition turn_aborted :: "nat \<Rightarrow> FullCompaction \<Rightarrow> FullCompaction" where
  "turn_aborted w s = (if map_option fst (fc_compacting s) = Some w then fc_cancel s else s)"

definition handleOverflowError ::
    "compaction_env \<Rightarrow> ms \<Rightarrow> thrown \<Rightarrow> FullCompaction \<Rightarrow> (thrown + nat option) \<times> FullCompaction" where
  "handleOverflowError ev now e s =
     (let s1 = s\<lparr>fc_overflows := fc_overflows s + 1\<rparr>;
          maxAttempts = maxOverflowCompactionAttempts (ev_strategy ev)
      in if fc_overflows s1 > maxAttempts
         then (Inl (overflow_error (''Compaction failed to bring the context under the model window after ''
                 @ show_count maxAttempts @ '' attempts.'')), s1)
         else (case beginAutoCompaction ev now True s1 of
                 (Inl err, s2) \<Rightarrow> (Inl err, s2)
               | (Inr didStart, s2) \<Rightarrow>
                   if \<not> didStart \<and> \<not> isCompacting s2 then (Inl e, s2)
                   else (case fc_block s2 of (w, s3) \<Rightarrow> (Inr w, s3))))"

definition compaction_beforeStep ::
    "compaction_env \<Rightarrow> ms \<Rightarrow> FullCompaction \<Rightarrow> (thrown + nat option) \<times> FullCompaction" where
  "compaction_beforeStep ev now s =
     (case checkAutoCompaction ev now True s of
        (Inl e, s1) \<Rightarrow> (Inl e, s1)
      | (Inr b, s1) \<Rightarrow>
          if shouldBlock (ev_strategy ev) (fc_maxSize ev s1) (fc_tokens s1)
          then (case fc_block s1 of (w, s2) \<Rightarrow> (Inr w, s2))
          else (Inr None, s1))"

definition compaction_afterStep :: "compaction_env \<Rightarrow> ms \<Rightarrow> FullCompaction \<Rightarrow> thrown option \<times> FullCompaction" where
  "compaction_afterStep ev now s =
     (let s1 = s\<lparr>fc_overflows := 0\<rparr>
      in if checkAfterStep (ev_strategy ev)
         then (case checkAutoCompaction ev now False s1 of
                 (Inl e, s2) \<Rightarrow> (Some e, s2)
               | (Inr b, s2) \<Rightarrow> (None, s2))
         else (None, s1))"

definition observe_overflow :: "compaction_env \<Rightarrow> nat \<Rightarrow> FullCompaction \<Rightarrow> FullCompaction" where
  "observe_overflow ev estimated s = s\<lparr>fc_observed := observeContextOverflow ev estimated (fc_observed s)\<rparr>"

section \<open>Steps\<close>

datatype fc_op =
    Op_begin bool CompactionSource "string option"
  | Op_cancel
  | Op_pre_hook nat "thrown option" "thrown option"
  | Op_answer nat "thrown + GenerateResult"
  | Op_slept nat "thrown option"
  | Op_refreshed nat
  | Op_reinjected nat "thrown option"
  | Op_turn_begins
  | Op_before_step
  | Op_after_step
  | Op_overflow thrown nat
  | Op_turn_aborted nat
  | Op_context CxOp

text \<open>One operation at a time \<open>now\<close>; \<open>micro\<close>, \<open>instr\<close>, \<open>prefix_text\<close> and \<open>todos\<close> stay the same in a run.\<close>

fun fc_step ::
    "compaction_env \<Rightarrow> (ContextMessage list \<Rightarrow> ContextMessage list) \<Rightarrow> string \<Rightarrow> string \<Rightarrow> (string \<times> TodoStatus) list
      \<Rightarrow> FullCompaction \<Rightarrow> ms \<times> fc_op \<Rightarrow> FullCompaction" where
  "fc_step ev micro instr pt todos s (now, Op_begin act src i) = snd (fc_begin ev now act src i s)"
| "fc_step ev micro instr pt todos s (now, Op_cancel) = fc_cancel s"
| "fc_step ev micro instr pt todos s (now, Op_pre_hook w e setup) = pre_hook_returned ev micro instr e setup w s"
| "fc_step ev micro instr pt todos s (now, Op_answer w out) = generate_returned ev now micro instr pt todos out w s"
| "fc_step ev micro instr pt todos s (now, Op_slept w e) = slept ev micro instr e w s"
| "fc_step ev micro instr pt todos s (now, Op_refreshed w) = refreshed w s"
| "fc_step ev micro instr pt todos s (now, Op_reinjected w e) = reinjected e w s"
| "fc_step ev micro instr pt todos s (now, Op_turn_begins) = resetForTurn s"
| "fc_step ev micro instr pt todos s (now, Op_before_step) = snd (compaction_beforeStep ev now s)"
| "fc_step ev micro instr pt todos s (now, Op_after_step) = snd (compaction_afterStep ev now s)"
| "fc_step ev micro instr pt todos s (now, Op_overflow e estimated) =
     snd (handleOverflowError ev now e (observe_overflow ev estimated s))"
| "fc_step ev micro instr pt todos s (now, Op_turn_aborted w) = turn_aborted w s"
| "fc_step ev micro instr pt todos s (now, Op_context x) = s\<lparr>fc_context := cx_step (fc_context s) (now, x)\<rparr>"

end
