(* ===== verification/Turn_Flow.thy ===== *)
theory Turn_Flow
  imports Turn_Tracking_Facts Turn_Results Full_Compaction Goal_Facts Turn_Loop
begin

text \<open>
  The turn driver of an agent (\<open>agent/turn/index.ts\<close>, class \<open>TurnFlow\<close>): how prompts and steers start
  or join a turn, how a turn runs from its prompt to \<open>turn.ended\<close>, how an active goal is driven by one
  turn after another, what cancelling does, and the wait for background work.

  The state joins the driver with the components it shares: the conversation and its compaction
  (\<open>tf_compaction\<close>), the goal (\<open>tf_goal\<close>) and the observation of the turn (\<open>tf_nori\<close>). A worker is a
  call of \<open>turnWorker\<close> that has not ended, named by the number of its abort controller; its phase is
  the await it is suspended in. The functions named after an answer resume it. Awaits of the class's
  own methods return at once. The step loop is a phase (\<open>TP_loop\<close>) in which the hooks of the driver
  may be called in any order; which the loop really calls, and when, is the subject of \<open>Turn_Loop\<close>.

  \<open>tf_out\<close> lists, in order, the records, events and calls of the driver, and what its hooks returned.
  The lists of background tasks and the time are inputs. Progress listeners, the promise of the first
  request, durations, logging, the detection of micro compaction before a step and the telemetry outside
  \<open>tf_nori\<close> are left out.
\<close>

section \<open>State\<close>

record BufferedSteer =
  bs_input :: "ContentPart list"
  bs_origin :: PromptOrigin

datatype active_turn = No_turn | Resuming | Active nat

datatype TurnEndReason = End_completed | End_cancelled | End_failed | End_filtered

datatype abort_reason = User_cancellation | Abort_reason thrown

text \<open>The variables of \<open>runStepLoop\<close> that survive its iterations, and \<open>stopForGoalBudget\<close>.\<close>

record step_loop =
  sp_stopHookUsed :: bool
  sp_goalOutcomeUsed :: bool
  sp_outputLimit :: nat
  sp_stopForGoalBudget :: bool

text \<open>\<open>TP_counting\<close> and \<open>TP_blocking\<close> are the awaits of the goal at the top of \<open>driveGoal\<close>,
  \<open>TP_stopping\<close> the one after a turn that ends the drive. \<open>TP_waiting\<close> and \<open>TP_overflow\<close> wait for a
  compaction.\<close>

datatype turn_phase =
    TP_counting
  | TP_blocking
  | TP_promptHook
  | TP_loading
  | TP_loop step_loop
  | TP_waiting nat step_loop
  | TP_stopHook step_loop
  | TP_overflow nat step_loop
  | TP_stopping

text \<open>\<open>tw_drive\<close>: the worker is in \<open>driveGoal\<close>. \<open>tw_listeners\<close>: the compactions whose abort listeners
  are on the signal. \<open>tw_aborted\<close>: \<open>signal.reason\<close>.\<close>

record turn_worker =
  tw_turnId :: int
  tw_drive :: bool
  tw_input :: "ContentPart list"
  tw_origin :: PromptOrigin
  tw_aborted :: "abort_reason option"
  tw_listeners :: "nat list"
  tw_phase :: turn_phase

datatype tf_out =
    TO_record_prompt "ContentPart list" PromptOrigin
  | TO_record_steer "ContentPart list" PromptOrigin
  | TO_record_cancel "int option"
  | TO_started int PromptOrigin
  | TO_ended int TurnEndReason "KimiErrorPayload option"
  | TO_error KimiErrorPayload
  | TO_hook_result int string string bool
  | TO_user_message "ContentPart list" PromptOrigin
  | TO_usage_begin
  | TO_usage_end
  | TO_usage_record TokenUsage
  | TO_hook_UserPromptSubmit "ContentPart list"
  | TO_hook_Stop bool
  | TO_fire_StopFailure string string
  | TO_fire_Interrupt int
  | TO_mcp_wait
  | TO_inject
  | TO_run_turn int
  | TO_hook_threw int thrown
  | TO_after_step int bool
  | TO_continue int bool

record TurnFlow =
  tf_steerBuffer :: "BufferedSteer list"
  tf_turnId :: int
  tf_activeTurn :: active_turn
  tf_pendingGoalOutcome :: bool
  tf_idleArmed :: bool
  tf_idleTimer :: "ms option"
  tf_nori :: NoriTurn
  tf_workers :: "(nat \<times> turn_worker) list"
  tf_nextSignal :: nat
  tf_compaction :: FullCompaction
  tf_goal :: GoalMode
  tf_systemPrompt :: string
  tf_unfinished :: "string list"
  tf_out :: "tf_out list"

text \<open>What the driver is configured with, and the parameters of the compaction. The prompts
  \<open>GOAL_CONTINUATION_PROMPT\<close> and \<open>OUTPUT_LIMIT_CONTINUATION_PROMPT\<close> hold characters outside the range
  of strings here, and \<open>GOAL_BACKGROUND_IDLE_WAKE_PROMPT\<close> is a Markdown file, so their texts are arguments, too.\<close>

record turn_env =
  te_compaction :: compaction_env
  te_micro :: "ContextMessage list \<Rightarrow> ContextMessage list"
  te_instruction :: string
  te_prefix :: string
  te_todos :: "(string \<times> TodoStatus) list"
  te_workflow :: "NoriWorkflowConfig option"
  te_rules :: "RuleConfig list option"
  te_discuss :: bool
  te_maxSteps :: "int option"
  te_idleMinutes :: "rat option option"
  te_goalPrompt :: string
  te_outputLimitPrompt :: string
  te_wakePrompt :: string

definition new_flow :: "ContextMemory \<Rightarrow> GoalMode \<Rightarrow> string \<Rightarrow> TurnFlow" where
  "new_flow c g p = \<lparr>tf_steerBuffer = [], tf_turnId = -1, tf_activeTurn = No_turn,
     tf_pendingGoalOutcome = False, tf_idleArmed = False, tf_idleTimer = None, tf_nori = new_turn_state,
     tf_workers = [], tf_nextSignal = 0, tf_compaction = new_compaction c, tf_goal = g,
     tf_systemPrompt = p, tf_unfinished = [], tf_out = []\<rparr>"

definition tf_do :: "tf_out \<Rightarrow> TurnFlow \<Rightarrow> TurnFlow" where
  "tf_do x s = s\<lparr>tf_out := tf_out s @ [x]\<rparr>"

definition put_worker :: "nat \<Rightarrow> turn_worker \<Rightarrow> TurnFlow \<Rightarrow> TurnFlow" where
  "put_worker k w s = s\<lparr>tf_workers := map_put k w (tf_workers s)\<rparr>"

definition set_phase :: "nat \<Rightarrow> turn_worker \<Rightarrow> turn_phase \<Rightarrow> TurnFlow \<Rightarrow> TurnFlow" where
  "set_phase k w ph s = put_worker k (w\<lparr>tw_phase := ph\<rparr>) s"

definition on_goal :: "(GoalMode \<Rightarrow> GoalMode) \<Rightarrow> TurnFlow \<Rightarrow> TurnFlow" where
  "on_goal f s = s\<lparr>tf_goal := f (tf_goal s)\<rparr>"

definition on_conversation :: "(ContextMemory \<Rightarrow> ContextMemory) \<Rightarrow> TurnFlow \<Rightarrow> TurnFlow" where
  "on_conversation f s =
     s\<lparr>tf_compaction := (tf_compaction s)\<lparr>fc_context := f (fc_context (tf_compaction s))\<rparr>\<rparr>"

definition tf_context :: "TurnFlow \<Rightarrow> ContextMemory" where
  "tf_context s = fc_context (tf_compaction s)"

text \<open>\<open>agent.context.appendUserMessage\<close>.\<close>

definition append_user :: "ms \<Rightarrow> ContentPart list \<Rightarrow> PromptOrigin \<Rightarrow> TurnFlow \<Rightarrow> TurnFlow" where
  "append_user now input og s =
     on_conversation (appendUserMessage now input (Some og)) (tf_do (TO_user_message input og) s)"

definition is_user_origin :: "PromptOrigin \<Rightarrow> bool" where
  "is_user_origin og = (case origin_kind og of OK_user b \<Rightarrow> True | _ \<Rightarrow> False)"

definition system_trigger :: "string \<Rightarrow> PromptOrigin" where
  "system_trigger n = simple_origin (OK_system_trigger n)"

definition GOAL_CONTINUATION_ORIGIN :: PromptOrigin where
  "GOAL_CONTINUATION_ORIGIN = system_trigger ''goal_continuation''"

section \<open>Waiting for background work\<close>

definition rescheduleGoalBackgroundIdleWake :: "turn_env \<Rightarrow> TurnFlow \<Rightarrow> TurnFlow" where
  "rescheduleGoalBackgroundIdleWake E s =
     (let s1 = s\<lparr>tf_idleTimer := None\<rparr>;
          minutes = resolveGoalBackgroundIdleMinutes (te_idleMinutes E)
      in if \<not> tf_idleArmed s1 then s1
         else if minutes \<le> 0 then s1
         else s1\<lparr>tf_idleTimer := Some (minutes * 60000)\<rparr>)"

definition armGoalBackgroundIdleWake :: "turn_env \<Rightarrow> TurnFlow \<Rightarrow> TurnFlow" where
  "armGoalBackgroundIdleWake E s = rescheduleGoalBackgroundIdleWake E (s\<lparr>tf_idleArmed := True\<rparr>)"

definition clearGoalBackgroundIdleWake :: "TurnFlow \<Rightarrow> TurnFlow" where
  "clearGoalBackgroundIdleWake s = s\<lparr>tf_idleArmed := False, tf_idleTimer := None\<rparr>"

definition noteBackgroundActivity :: "turn_env \<Rightarrow> TurnFlow \<Rightarrow> TurnFlow" where
  "noteBackgroundActivity E s =
     (if \<not> tf_idleArmed s then s else rescheduleGoalBackgroundIdleWake E s)"

section \<open>The start of a turn\<close>

definition goal_is_active :: "ms \<Rightarrow> TurnFlow \<Rightarrow> bool" where
  "goal_is_active now s = (map_option sn_status (getGoal now (tf_goal s)) = Some G_active)"

definition goal_over_budget :: "ms \<Rightarrow> TurnFlow \<Rightarrow> bool" where
  "goal_over_budget now s =
     (case getGoal now (tf_goal s) of Some sn \<Rightarrow> overBudget (sn_budget sn) | None \<Rightarrow> False)"

definition allocateTurnId :: "TurnFlow \<Rightarrow> int \<times> TurnFlow" where
  "allocateTurnId s = (tf_turnId s + 1, s\<lparr>tf_turnId := tf_turnId s + 1\<rparr>)"

text \<open>The start of \<open>runOneTurn\<close>, up to the prompt hook.\<close>

definition turn_starts :: "turn_env \<Rightarrow> ms \<Rightarrow> turn_worker \<Rightarrow> TurnFlow \<Rightarrow> TurnFlow" where
  "turn_starts E now w s =
     (let s1 = s\<lparr>tf_nori := begin_turn_tracking (te_workflow E \<noteq> None) (te_discuss E) (tw_turnId w)
                             (tw_input w) (tw_origin w) (tf_nori s),
                 tf_compaction := resetForTurn (tf_compaction s)\<rparr>
      in append_user now (tw_input w) (tw_origin w)
           (tf_do (TO_started (tw_turnId w) (tw_origin w)) (tf_do TO_usage_begin s1)))"

text \<open>The start of \<open>runStepLoop\<close>.\<close>

definition start_step_loop :: "nat \<Rightarrow> turn_worker \<Rightarrow> TurnFlow \<Rightarrow> TurnFlow" where
  "start_step_loop k w s =
     set_phase k w TP_loading (tf_do TO_mcp_wait (s\<lparr>tf_pendingGoalOutcome := False\<rparr>))"

text \<open>\<open>applyUserPromptHook\<close> up to its await; its first check of the signal is the caller's.\<close>

definition applyUserPromptHook :: "nat \<Rightarrow> turn_worker \<Rightarrow> TurnFlow \<Rightarrow> TurnFlow" where
  "applyUserPromptHook k w s =
     (if \<not> is_user_origin (tw_origin w) then start_step_loop k w s
      else set_phase k w TP_promptHook (tf_do (TO_hook_UserPromptSubmit (tw_input w)) s))"

text \<open>The top of the loop of \<open>driveGoal\<close>.\<close>

definition drive_top :: "ms \<Rightarrow> nat \<Rightarrow> turn_worker \<Rightarrow> TurnFlow \<Rightarrow> TurnFlow" where
  "drive_top now k w s =
     (let w1 = w\<lparr>tw_drive := True\<rparr>
      in if goal_is_active now s \<and> goal_over_budget now s
         then set_phase k w1 TP_blocking
                (on_goal (\<lambda>g. snd (markBlocked now (Some ''A configured budget was reached'') A_runtime g)) s)
         else set_phase k w1 TP_counting (on_goal (\<lambda>g. snd (incrementTurn now g)) s))"

text \<open>\<open>turnWorker\<close> up to its first await. The signal is fresh, so its checks pass.\<close>

definition turnWorker ::
    "turn_env \<Rightarrow> ms \<Rightarrow> nat \<Rightarrow> int \<Rightarrow> ContentPart list \<Rightarrow> PromptOrigin \<Rightarrow> TurnFlow \<Rightarrow> TurnFlow" where
  "turnWorker E now k turnId input og s =
     (let w = \<lparr>tw_turnId = turnId, tw_drive = False, tw_input = input, tw_origin = og, tw_aborted = None,
               tw_listeners = [], tw_phase = TP_loading\<rparr>
      in if goal_is_active now s then drive_top now k w s
         else applyUserPromptHook k w (turn_starts E now w s))"

definition busy_error :: "int \<Rightarrow> KimiErrorPayload" where
  "busy_error turnId = makeErrorPayload EC_TURN_AGENT_BUSY
     (''Cannot launch a new turn while another turn (ID '' @ show_count (nat turnId) @ '') is active'')
     (Some [(''turnId'', JNum (show_count (nat turnId)))]) None"

definition launch ::
    "turn_env \<Rightarrow> ms \<Rightarrow> ContentPart list \<Rightarrow> PromptOrigin \<Rightarrow> TurnFlow \<Rightarrow> int option \<times> TurnFlow" where
  "launch E now input og s =
     (if tf_activeTurn s \<noteq> No_turn then (None, tf_do (TO_error (busy_error (tf_turnId s))) s)
      else if isCompacting (tf_compaction s)
      then (None, s\<lparr>tf_steerBuffer := tf_steerBuffer s @ [\<lparr>bs_input = input, bs_origin = og\<rparr>]\<rparr>)
      else case allocateTurnId (clearGoalBackgroundIdleWake s) of
             (turnId, s1) \<Rightarrow>
               let k = tf_nextSignal s1;
                   s2 = turnWorker E now k turnId input og (s1\<lparr>tf_nextSignal := k + 1\<rparr>)
               in (Some turnId, s2\<lparr>tf_activeTurn := Active k\<rparr>))"

definition launchBufferedSteerIfIdle :: "turn_env \<Rightarrow> ms \<Rightarrow> TurnFlow \<Rightarrow> TurnFlow" where
  "launchBufferedSteerIfIdle E now s =
     (if tf_activeTurn s \<noteq> No_turn \<or> isCompacting (tf_compaction s) then s
      else case tf_steerBuffer s of
             [] \<Rightarrow> s
           | b # bs \<Rightarrow> snd (launch E now (bs_input b) (bs_origin b) (s\<lparr>tf_steerBuffer := bs\<rparr>)))"

definition flushSteerBuffer :: "ms \<Rightarrow> TurnFlow \<Rightarrow> bool \<times> TurnFlow" where
  "flushSteerBuffer now s =
     (if tf_steerBuffer s = [] then (False, s)
      else (True, (foldl (\<lambda>t b. append_user now (bs_input b) (bs_origin b) t) s (tf_steerBuffer s))
                    \<lparr>tf_steerBuffer := []\<rparr>))"

section \<open>Calls from outside\<close>

text \<open>The checkpoint of a user prompt, with the mark of the prompt in the log of the goal.\<close>

definition flow_begins_prompt :: "ms \<Rightarrow> PromptOrigin \<Rightarrow> TurnFlow \<Rightarrow> TurnFlow" where
  "flow_begins_prompt now og s =
     (if is_user_origin og
      then on_goal (\<lambda>g. on_agent (logRecord now R_user_prompt) (beginRewindablePrompt now False g)) s
      else s)"

definition prompt ::
    "turn_env \<Rightarrow> ms \<Rightarrow> ContentPart list \<Rightarrow> PromptOrigin \<Rightarrow> TurnFlow \<Rightarrow> int option \<times> TurnFlow" where
  "prompt E now input og s =
     launch E now input og (tf_do (TO_record_prompt input og) (flow_begins_prompt now og s))"

datatype PromptStartResult = Start_busy int | Start_deferred | Start_started int

definition requestPrompt ::
    "turn_env \<Rightarrow> ms \<Rightarrow> ContentPart list \<Rightarrow> PromptOrigin \<Rightarrow> TurnFlow \<Rightarrow> PromptStartResult \<times> TurnFlow" where
  "requestPrompt E now input og s =
     (if tf_activeTurn s \<noteq> No_turn then (Start_busy (tf_turnId s), s)
      else case prompt E now input og s of
             (None, s1) \<Rightarrow> (Start_deferred, s1)
           | (Some turnId, s1) \<Rightarrow> (Start_started turnId, s1))"

definition steer ::
    "turn_env \<Rightarrow> ms \<Rightarrow> ContentPart list \<Rightarrow> PromptOrigin \<Rightarrow> TurnFlow \<Rightarrow> int option \<times> TurnFlow" where
  "steer E now input og s =
     (let s1 = tf_do (TO_record_steer input og) (flow_begins_prompt now og s)
      in if tf_activeTurn s1 \<noteq> No_turn \<or> isCompacting (tf_compaction s1)
         then (None, s1\<lparr>tf_steerBuffer := tf_steerBuffer s1 @ [\<lparr>bs_input = input, bs_origin = og\<rparr>]\<rparr>)
         else launch E now input og s1)"

definition retry :: "turn_env \<Rightarrow> ms \<Rightarrow> string option \<Rightarrow> TurnFlow \<Rightarrow> int option \<times> TurnFlow" where
  "retry E now trigger s = prompt E now [] (simple_origin (OK_retry trigger)) s"

text \<open>\<open>abortTurn\<close>. Only the first abort of a controller has a reason and runs its listeners: those of
  the compactions the turn waited for.\<close>

definition abortTurn :: "abort_reason \<Rightarrow> TurnFlow \<Rightarrow> TurnFlow" where
  "abortTurn reason s =
     (case tf_activeTurn s of
        No_turn \<Rightarrow> s
      | Resuming \<Rightarrow> s\<lparr>tf_activeTurn := No_turn\<rparr>
      | Active k \<Rightarrow>
          (case map_get (tf_workers s) k of
             None \<Rightarrow> s
           | Some w \<Rightarrow>
               if tw_aborted w \<noteq> None then s
               else put_worker k (w\<lparr>tw_aborted := Some reason\<rparr>)
                      (s\<lparr>tf_compaction := foldl (\<lambda>c v. turn_aborted v c) (tf_compaction s) (tw_listeners w)\<rparr>)))"

definition cancel :: "int option \<Rightarrow> abort_reason option \<Rightarrow> TurnFlow \<Rightarrow> TurnFlow" where
  "cancel turnId reason s =
     (let s1 = tf_do (TO_record_cancel turnId) s
      in if turnId \<noteq> None \<and> turnId \<noteq> Some (tf_turnId s1) then s1
         else abortTurn (case reason of Some r \<Rightarrow> r | None \<Rightarrow> User_cancellation)
                (s1\<lparr>tf_steerBuffer := filter (\<lambda>b. \<not> is_user_origin (bs_origin b)) (tf_steerBuffer s1)\<rparr>))"

definition hasActiveTurn :: "TurnFlow \<Rightarrow> bool" where
  "hasActiveTurn s = (tf_activeTurn s \<noteq> No_turn \<and> tf_activeTurn s \<noteq> Resuming)"

definition onCompactionFinished :: "turn_env \<Rightarrow> ms \<Rightarrow> TurnFlow \<Rightarrow> TurnFlow" where
  "onCompactionFinished E now s =
     (if tf_steerBuffer s = [] then s
      else if tf_activeTurn s \<noteq> No_turn then snd (flushSteerBuffer now s)
      else launchBufferedSteerIfIdle E now s)"

text \<open>The timer of the wait fires.\<close>

definition GOAL_BACKGROUND_IDLE_WAKE_ORIGIN :: PromptOrigin where
  "GOAL_BACKGROUND_IDLE_WAKE_ORIGIN = system_trigger ''goal_background_idle_wake''"

definition fireGoalBackgroundIdleWake :: "turn_env \<Rightarrow> ms \<Rightarrow> TurnFlow \<Rightarrow> TurnFlow" where
  "fireGoalBackgroundIdleWake E now s =
     (let s0 = s\<lparr>tf_idleTimer := None\<rparr>
      in if \<not> tf_idleArmed s0 then s0
         else if \<not> goal_is_active now s0 then clearGoalBackgroundIdleWake s0
         else if \<not> shouldSuppressGoalContinuationForBackground (tf_unfinished s0)
         then clearGoalBackgroundIdleWake s0
         else if tf_activeTurn s0 \<noteq> No_turn then rescheduleGoalBackgroundIdleWake E s0
         else snd (steer E now [TextPart (te_wakePrompt E)] GOAL_BACKGROUND_IDLE_WAKE_ORIGIN
                     (clearGoalBackgroundIdleWake s0)))"

section \<open>The end of a turn\<close>

text \<open>The \<open>finally\<close> of \<open>turnWorker\<close>.\<close>

definition worker_finishes :: "turn_env \<Rightarrow> ms \<Rightarrow> nat \<Rightarrow> TurnFlow \<Rightarrow> TurnFlow" where
  "worker_finishes E now k s =
     (let s1 = s\<lparr>tf_workers := map_remove k (tf_workers s)\<rparr>
      in if tf_activeTurn s1 = Active k
         then launchBufferedSteerIfIdle E now (s1\<lparr>tf_activeTurn := No_turn\<rparr>) else s1)"

text \<open>The next turn of a drive; its input is the continuation prompt.\<close>

definition drive_continues :: "turn_env \<Rightarrow> ms \<Rightarrow> nat \<Rightarrow> turn_worker \<Rightarrow> TurnFlow \<Rightarrow> TurnFlow" where
  "drive_continues E now k w s =
     (case allocateTurnId s of
        (turnId, s1) \<Rightarrow>
          drive_top now k (w\<lparr>tw_turnId := turnId, tw_input := [TextPart (te_goalPrompt E)],
                             tw_origin := GOAL_CONTINUATION_ORIGIN\<rparr>) s1)"

text \<open>What \<open>driveGoal\<close> does after a turn.\<close>

definition driveGoal_after ::
    "turn_env \<Rightarrow> ms \<Rightarrow> nat \<Rightarrow> turn_worker \<Rightarrow> TurnEndReason \<Rightarrow> KimiErrorPayload option \<Rightarrow> bool
      \<Rightarrow> TurnFlow \<Rightarrow> TurnFlow" where
  "driveGoal_after E now k w reason err blocked s =
     (let stop = (\<lambda>f. set_phase k w TP_stopping (on_goal f s))
      in case reason of
           End_cancelled \<Rightarrow> stop (\<lambda>g. snd (pauseOnInterrupt now (Some ''Paused after interruption'') g))
         | End_failed \<Rightarrow> stop (\<lambda>g. snd (pauseActiveGoal now (Some (goalFailurePauseReason err)) A_runtime g))
         | End_filtered \<Rightarrow>
             stop (\<lambda>g. snd (pauseActiveGoal now (Some ''Paused after provider safety policy block'') A_runtime g))
         | End_completed \<Rightarrow>
             if blocked
             then stop (\<lambda>g. snd (markBlocked now (Some ''Blocked by UserPromptSubmit hook'') A_runtime g))
             else if \<not> goal_is_active now s
             then worker_finishes E now k (clearGoalBackgroundIdleWake s)
             else if goal_over_budget now s
             then stop (\<lambda>g. snd (markBlocked now (Some ''A configured budget was reached'') A_runtime g))
             else if shouldSuppressGoalContinuationForBackground (tf_unfinished s)
             then worker_finishes E now k (armGoalBackgroundIdleWake E s)
             else drive_continues E now k w (clearGoalBackgroundIdleWake s))"

text \<open>What \<open>turnWorker\<close> does after \<open>runOneTurn\<close>.\<close>

definition after_turn ::
    "turn_env \<Rightarrow> ms \<Rightarrow> nat \<Rightarrow> turn_worker \<Rightarrow> TurnEndReason \<Rightarrow> KimiErrorPayload option \<Rightarrow> bool
      \<Rightarrow> TurnFlow \<Rightarrow> TurnFlow" where
  "after_turn E now k w reason err blocked s =
     (if tw_drive w then driveGoal_after E now k w reason err blocked s
      else if goal_is_active now s \<and> reason \<noteq> End_cancelled \<and> reason \<noteq> End_failed \<and> reason \<noteq> End_filtered
      then drive_continues E now k w s
      else worker_finishes E now k s)"

text \<open>The end of \<open>runOneTurn\<close>, from the decision on how the turn ended.\<close>

definition end_turn ::
    "turn_env \<Rightarrow> ms \<Rightarrow> nat \<Rightarrow> turn_worker \<Rightarrow> TurnEndReason \<Rightarrow> KimiErrorPayload option \<Rightarrow> bool
      \<Rightarrow> TurnFlow \<Rightarrow> TurnFlow" where
  "end_turn E now k w reason err blocked s =
     (let turnId = tw_turnId w;
          s1 = (if tf_turnId s = turnId then tf_do TO_usage_end s else s);
          s2 = (if reason = End_cancelled \<and> tw_aborted w = Some User_cancellation
                then tf_do (TO_fire_Interrupt turnId) s1 else s1);
          s3 = tf_do (TO_ended turnId reason err) s2;
          s4 = (if \<not> tw_drive w \<and> tf_turnId s3 = turnId \<and> \<not> goal_is_active now s3
                then launchBufferedSteerIfIdle E now (s3\<lparr>tf_activeTurn := No_turn\<rparr>) else s3);
          s5 = (case err of Some p \<Rightarrow> tf_do (TO_error p) s4 | None \<Rightarrow> s4);
          s6 = s5\<lparr>tf_nori := end_turn_tracking (te_discuss E) (reason = End_completed) turnId (tf_nori s5)\<rparr>
      in after_turn E now k w reason err blocked s6)"

definition reason_thrown :: "abort_reason \<Rightarrow> thrown" where
  "reason_thrown r =
     (case r of User_cancellation \<Rightarrow> OtherErr ''AbortError'' ''Aborted by the user'' no_fields
              | Abort_reason e \<Rightarrow> e)"

text \<open>The \<open>catch\<close> of \<open>runOneTurn\<close>.\<close>

definition turn_fails :: "turn_env \<Rightarrow> ms \<Rightarrow> nat \<Rightarrow> turn_worker \<Rightarrow> thrown \<Rightarrow> TurnFlow \<Rightarrow> TurnFlow" where
  "turn_fails E now k w e s =
     (if is_abort e then end_turn E now k w End_cancelled None False s
      else
        let summary = summarizeTurnError e (nat (tw_turnId w));
            n = (case ep_name summary of Some x \<Rightarrow> x | None \<Rightarrow> [])
        in end_turn E now k w End_failed (Some summary) False
             (tf_do (TO_fire_StopFailure n (ep_message summary)) s))"

definition endGoalTurnWithoutModel :: "ms \<Rightarrow> turn_worker \<Rightarrow> TurnFlow \<Rightarrow> TurnFlow" where
  "endGoalTurnWithoutModel now w s =
     tf_do (TO_ended (tw_turnId w) End_completed None) (tf_do TO_usage_end
       (append_user now (tw_input w) (tw_origin w)
         (tf_do (TO_started (tw_turnId w) (tw_origin w)) (tf_do TO_usage_begin s))))"

text \<open>An await of the goal returned.\<close>

definition goal_settled :: "turn_env \<Rightarrow> ms \<Rightarrow> nat \<Rightarrow> TurnFlow \<Rightarrow> TurnFlow" where
  "goal_settled E now k s =
     (case map_get (tf_workers s) k of
        None \<Rightarrow> s
      | Some w \<Rightarrow>
          (case tw_phase w of
             TP_blocking \<Rightarrow> worker_finishes E now k (endGoalTurnWithoutModel now w s)
           | TP_counting \<Rightarrow>
               (let s1 = turn_starts E now w s
                in case tw_aborted w of
                     Some r \<Rightarrow> if is_user_origin (tw_origin w) then turn_fails E now k w (reason_thrown r) s1
                               else start_step_loop k w s1
                   | None \<Rightarrow> applyUserPromptHook k w s1)
           | TP_stopping \<Rightarrow>
               worker_finishes E now k (clearGoalBackgroundIdleWake s)
           | _ \<Rightarrow> s))"

text \<open>The hook \<open>UserPromptSubmit\<close> returned or threw.\<close>

definition hook_message :: "string \<Rightarrow> ContextMessage" where
  "hook_message t = \<lparr>role = RoleAssistant, msg_name = None, content = [TextPart t], toolCalls = [],
     toolCallId = None, partial = None,
     origin = Some (simple_origin (OK_hook_result ''UserPromptSubmit'' (Some True))), isError = None\<rparr>"

definition prompt_hook_returned ::
    "turn_env \<Rightarrow> ms \<Rightarrow> thrown option \<Rightarrow> HookResult list option \<Rightarrow> nat \<Rightarrow> TurnFlow \<Rightarrow> TurnFlow" where
  "prompt_hook_returned E now threw results k s =
     (case map_get (tf_workers s) k of
        None \<Rightarrow> s
      | Some w \<Rightarrow>
          if tw_phase w \<noteq> TP_promptHook then s
          else case threw of
                 Some e \<Rightarrow> turn_fails E now k w e s
               | None \<Rightarrow>
                   (case tw_aborted w of
                      Some r \<Rightarrow> turn_fails E now k w (reason_thrown r) s
                    | None \<Rightarrow>
                        (case renderUserPromptHookBlockResult results of
                           Some b \<Rightarrow>
                             end_turn E now k w End_completed None True
                               (tf_do (TO_hook_result (tw_turnId w) (rh_event b) (rh_message b) True)
                                 (on_conversation (appendMessage now (hook_message (rh_text b))) s))
                         | None \<Rightarrow>
                             (case renderUserPromptHookResult results of
                                None \<Rightarrow> start_step_loop k w s
                              | Some h \<Rightarrow>
                                  start_step_loop k w
                                    (tf_do (TO_hook_result (tw_turnId w) (rh_event h) (rh_message h) False)
                                      (append_user now [TextPart (rh_text h)]
                                        (simple_origin (OK_hook_result ''UserPromptSubmit'' None)) s))))))"

section \<open>The step loop\<close>

definition fresh_loop :: step_loop where
  "fresh_loop = \<lparr>sp_stopHookUsed = False, sp_goalOutcomeUsed = False, sp_outputLimit = 0,
     sp_stopForGoalBudget = False\<rparr>"

text \<open>The top of the loop of \<open>runStepLoop\<close>.\<close>

definition loop_top :: "turn_env \<Rightarrow> ms \<Rightarrow> nat \<Rightarrow> turn_worker \<Rightarrow> step_loop \<Rightarrow> TurnFlow \<Rightarrow> TurnFlow" where
  "loop_top E now k w sl s =
     (case tw_aborted w of
        Some r \<Rightarrow> turn_fails E now k w (reason_thrown r) s
      | None \<Rightarrow> set_phase k w (TP_loop (sl\<lparr>sp_stopForGoalBudget := False\<rparr>)) (tf_do (TO_run_turn (tw_turnId w)) s))"

text \<open>The tool servers have loaded and the goal is injected, or one of them threw.\<close>

definition loaded :: "turn_env \<Rightarrow> ms \<Rightarrow> thrown option \<Rightarrow> nat \<Rightarrow> TurnFlow \<Rightarrow> TurnFlow" where
  "loaded E now threw k s =
     (case map_get (tf_workers s) k of
        None \<Rightarrow> s
      | Some w \<Rightarrow>
          if tw_phase w \<noteq> TP_loading then s
          else case threw of
                 Some e \<Rightarrow> turn_fails E now k w e s
               | None \<Rightarrow> loop_top E now k w fresh_loop s)"

text \<open>What became of the promise of a compaction: pending, resolved or rejected.\<close>

definition rejection_of :: "nat \<Rightarrow> FullCompaction \<Rightarrow> thrown option" where
  "rejection_of v c =
     map_option (\<lambda>x. case x of FC_rejected u e \<Rightarrow> e | _ \<Rightarrow> abort_error)
       (List.find (\<lambda>x. case x of FC_rejected u e \<Rightarrow> u = v | _ \<Rightarrow> False) (fc_calls c))"

definition promise_of :: "nat \<Rightarrow> FullCompaction \<Rightarrow> thrown option option" where
  "promise_of v c = (if map_get (fc_workers c) v \<noteq> None then None else Some (rejection_of v c))"

text \<open>\<open>beforeStep\<close> once no compaction blocks it.\<close>

definition step_begins :: "turn_env \<Rightarrow> ms \<Rightarrow> nat \<Rightarrow> turn_worker \<Rightarrow> step_loop \<Rightarrow> TurnFlow \<Rightarrow> TurnFlow" where
  "step_begins E now k w sl s =
     (let s1 = snd (flushSteerBuffer now s);
          s2 = tf_do TO_inject s1
      in case before_step_rules (te_rules E) (te_workflow E \<noteq> None) (tf_systemPrompt s2) (tf_nori s2) of
           (p, t) \<Rightarrow> set_phase k w (TP_loop sl) (s2\<lparr>tf_systemPrompt := p, tf_nori := t\<rparr>))"

definition beforeStep :: "turn_env \<Rightarrow> ms \<Rightarrow> nat \<Rightarrow> turn_worker \<Rightarrow> step_loop \<Rightarrow> TurnFlow \<Rightarrow> TurnFlow" where
  "beforeStep E now k w sl s =
     (case compaction_beforeStep (te_compaction E) now (tf_compaction s) of
        (Inl e, c) \<Rightarrow> tf_do (TO_hook_threw (tw_turnId w) e) (s\<lparr>tf_compaction := c\<rparr>)
      | (Inr None, c) \<Rightarrow> step_begins E now k w sl (s\<lparr>tf_compaction := c\<rparr>)
      | (Inr (Some v), c) \<Rightarrow>
          set_phase k (w\<lparr>tw_listeners := tw_listeners w @ [v]\<rparr>) (TP_waiting v sl) (s\<lparr>tf_compaction := c\<rparr>))"

definition beforeStep_settled ::
    "turn_env \<Rightarrow> ms \<Rightarrow> nat \<Rightarrow> turn_worker \<Rightarrow> nat \<Rightarrow> step_loop \<Rightarrow> TurnFlow \<Rightarrow> TurnFlow" where
  "beforeStep_settled E now k w v sl s =
     (case promise_of v (tf_compaction s) of
        None \<Rightarrow> s
      | Some (Some e) \<Rightarrow> set_phase k w (TP_loop sl) (tf_do (TO_hook_threw (tw_turnId w) e) s)
      | Some None \<Rightarrow> step_begins E now k w sl s)"

definition recordStepUsage :: "ms \<Rightarrow> int \<Rightarrow> nat \<Rightarrow> turn_worker \<Rightarrow> step_loop \<Rightarrow> TurnFlow \<Rightarrow> TurnFlow" where
  "recordStepUsage now tokens k w sl s =
     (case recordTokenUsage now tokens (tf_goal s) of
        (snapshot, g) \<Rightarrow>
          let stop = (case snapshot of Some sn \<Rightarrow> overBudget (sn_budget sn) | None \<Rightarrow> False)
          in set_phase k w (TP_loop (sl\<lparr>sp_stopForGoalBudget := stop\<rparr>)) (s\<lparr>tf_goal := g\<rparr>))"

definition NORI_REVIEW_GATE_ORIGIN :: PromptOrigin where
  "NORI_REVIEW_GATE_ORIGIN = system_trigger ''nori_review_gate''"

definition afterStep :: "turn_env \<Rightarrow> ms \<Rightarrow> bool \<Rightarrow> TokenUsage \<Rightarrow> turn_worker \<Rightarrow> step_loop \<Rightarrow> TurnFlow \<Rightarrow> TurnFlow" where
  "afterStep E now toolUse usage w sl s =
     (let s1 = tf_do (TO_usage_record usage) s
      in case compaction_afterStep (te_compaction E) now (tf_compaction s1) of
           (Some e, c) \<Rightarrow> tf_do (TO_hook_threw (tw_turnId w) e) (s1\<lparr>tf_compaction := c\<rparr>)
         | (None, c) \<Rightarrow>
             (case after_step_gates (te_workflow E) toolUse (sp_stopForGoalBudget sl)
                     (tf_pendingGoalOutcome s1) (tf_systemPrompt s1) (tf_nori s1) of
                (r, t) \<Rightarrow>
                  let s2 = s1\<lparr>tf_compaction := c, tf_nori := t, tf_systemPrompt := as_prompt r\<rparr>;
                      s3 = (case as_gate r of
                              Some g \<Rightarrow> append_user now [TextPart g] NORI_REVIEW_GATE_ORIGIN s2
                            | None \<Rightarrow> s2)
                  in tf_do (TO_after_step (tw_turnId w) (as_stopTurn r)) s3))"

definition isGoalOutcomeReminderOrigin :: "PromptOrigin option \<Rightarrow> bool" where
  "isGoalOutcomeReminderOrigin og =
     (case og of
        Some p \<Rightarrow> (case origin_kind p of
                     OK_system_trigger n \<Rightarrow> n = ''goal_completion'' \<or> n = ''goal_blocked''
                   | _ \<Rightarrow> False)
      | None \<Rightarrow> False)"

definition isNoriReviewGateReminderOrigin :: "PromptOrigin option \<Rightarrow> bool" where
  "isNoriReviewGateReminderOrigin og =
     (case og of
        Some p \<Rightarrow> (case origin_kind p of OK_system_trigger n \<Rightarrow> n = ''nori_review_gate'' | _ \<Rightarrow> False)
      | None \<Rightarrow> False)"

definition OUTPUT_LIMIT_CONTINUATIONS_PER_TURN :: nat where
  "OUTPUT_LIMIT_CONTINUATIONS_PER_TURN = 3"

definition OUTPUT_LIMIT_ORIGIN :: PromptOrigin where
  "OUTPUT_LIMIT_ORIGIN = system_trigger ''output_limit_continuation''"

definition STOP_HOOK_ORIGIN :: PromptOrigin where
  "STOP_HOOK_ORIGIN = system_trigger ''stop_hook''"

definition last_origin :: "TurnFlow \<Rightarrow> PromptOrigin option" where
  "last_origin s =
     (let h = cx_history (tf_context s) in if h = [] then None else origin (snd (List.last h)))"

definition answer_continue ::
    "nat \<Rightarrow> turn_worker \<Rightarrow> step_loop \<Rightarrow> bool \<Rightarrow> TurnFlow \<Rightarrow> TurnFlow" where
  "answer_continue k w sl b s = set_phase k w (TP_loop sl) (tf_do (TO_continue (tw_turnId w) b) s)"

text \<open>\<open>shouldContinueAfterStop\<close> up to the Stop hook.\<close>

definition shouldContinueAfterStop ::
    "turn_env \<Rightarrow> ms \<Rightarrow> bool \<Rightarrow> int \<Rightarrow> nat \<Rightarrow> turn_worker \<Rightarrow> step_loop \<Rightarrow> TurnFlow \<Rightarrow> TurnFlow" where
  "shouldContinueAfterStop E now maxTokens stepNumber k w sl s0 =
     (case flushSteerBuffer now s0 of
        (flushedSteer, s) \<Rightarrow>
          let budget = hasStepBudgetRemaining (te_maxSteps E) stepNumber in
          case tw_aborted w of
            Some r \<Rightarrow> tf_do (TO_hook_threw (tw_turnId w) (reason_thrown r)) s
          | None \<Rightarrow>
              if maxTokens \<and> sp_outputLimit sl < OUTPUT_LIMIT_CONTINUATIONS_PER_TURN \<and> budget
              then answer_continue k w (sl\<lparr>sp_outputLimit := sp_outputLimit sl + 1\<rparr>) True
                     (append_user now [TextPart (te_outputLimitPrompt E)] OUTPUT_LIMIT_ORIGIN s)
              else if \<not> sp_goalOutcomeUsed sl
                      \<and> (tf_pendingGoalOutcome s \<or> isGoalOutcomeReminderOrigin (last_origin s))
              then let sl1 = sl\<lparr>sp_goalOutcomeUsed := True\<rparr>; s1 = s\<lparr>tf_pendingGoalOutcome := False\<rparr>
                   in if \<not> budget
                      then answer_continue k w sl1 False
                             (on_conversation (\<lambda>c. snd (popMatchedMessage isGoalOutcomeReminderOrigin c)) s1)
                      else answer_continue k w sl1 True s1
              else if nt_pendingGate (tf_nori s)
              then let s1 = s\<lparr>tf_nori := (tf_nori s)\<lparr>nt_pendingGate := False\<rparr>\<rparr>
                   in if \<not> budget
                      then answer_continue k w sl False
                             (on_conversation (\<lambda>c. snd (popMatchedMessage isNoriReviewGateReminderOrigin c)) s1)
                      else answer_continue k w sl True s1
              else if flushedSteer then answer_continue k w sl True s
              else if \<not> sp_stopHookUsed sl
              then set_phase k w (TP_stopHook sl) (tf_do (TO_hook_Stop (sp_stopHookUsed sl)) s)
              else answer_continue k w sl False s)"

text \<open>The Stop hook returned, with the reason of a block, or threw.\<close>

definition stop_hook_returned ::
    "ms \<Rightarrow> thrown option \<Rightarrow> string option \<Rightarrow> nat \<Rightarrow> turn_worker \<Rightarrow> step_loop \<Rightarrow> TurnFlow \<Rightarrow> TurnFlow" where
  "stop_hook_returned now threw block k w sl s =
     (case threw of
        Some e \<Rightarrow> set_phase k w (TP_loop sl) (tf_do (TO_hook_threw (tw_turnId w) e) s)
      | None \<Rightarrow>
          (case tw_aborted w of
             Some r \<Rightarrow> set_phase k w (TP_loop sl) (tf_do (TO_hook_threw (tw_turnId w) (reason_thrown r)) s)
           | None \<Rightarrow>
               (case block of
                  Some b \<Rightarrow> answer_continue k w (sl\<lparr>sp_stopHookUsed := True\<rparr>) True
                              (append_user now [TextPart b] STOP_HOOK_ORIGIN s)
                | None \<Rightarrow> answer_continue k w sl False s)))"

definition stop_reason_end :: "LoopTurnStopReason \<Rightarrow> TurnEndReason" where
  "stop_reason_end r = (case r of TurnAborted \<Rightarrow> End_cancelled
     | TurnStopped x \<Rightarrow> if x = SR_filtered then End_filtered else End_completed)"

text \<open>\<open>runTurn\<close> threw \<open>e\<close>; \<open>estimated\<close> is the estimate of the current request.\<close>

definition run_turn_threw ::
    "turn_env \<Rightarrow> ms \<Rightarrow> thrown \<Rightarrow> nat \<Rightarrow> nat \<Rightarrow> turn_worker \<Rightarrow> step_loop \<Rightarrow> TurnFlow \<Rightarrow> TurnFlow" where
  "run_turn_threw E now e estimated k w sl s =
     (let ev = te_compaction E;
          isContextOverflow = is_overflow e \<or> (case e of KimiError c m d \<Rightarrow> c = EC_CONTEXT_OVERFLOW | _ \<Rightarrow> False)
      in if isContextOverflow \<or> shouldRecoverFromContextOverflow ev (fc_observed (tf_compaction s)) e estimated
         then (case handleOverflowError ev now e (observe_overflow ev estimated (tf_compaction s)) of
                 (Inl e1, c) \<Rightarrow> turn_fails E now k w e1 (s\<lparr>tf_compaction := c\<rparr>)
               | (Inr None, c) \<Rightarrow> loop_top E now k w sl (s\<lparr>tf_compaction := c\<rparr>)
               | (Inr (Some v), c) \<Rightarrow>
                   set_phase k (w\<lparr>tw_listeners := tw_listeners w @ [v]\<rparr>) (TP_overflow v sl)
                     (s\<lparr>tf_compaction := c\<rparr>))
         else turn_fails E now k w e s)"

definition overflow_settled ::
    "turn_env \<Rightarrow> ms \<Rightarrow> nat \<Rightarrow> turn_worker \<Rightarrow> nat \<Rightarrow> step_loop \<Rightarrow> TurnFlow \<Rightarrow> TurnFlow" where
  "overflow_settled E now k w v sl s =
     (case promise_of v (tf_compaction s) of
        None \<Rightarrow> s
      | Some (Some e) \<Rightarrow> turn_fails E now k w e s
      | Some None \<Rightarrow> loop_top E now k w sl s)"

section \<open>Restoring\<close>

definition restorePrompt :: "TurnFlow \<Rightarrow> TurnFlow" where
  "restorePrompt s =
     (if tf_activeTurn s \<noteq> No_turn then s
      else s\<lparr>tf_turnId := tf_turnId s + 1, tf_activeTurn := Resuming\<rparr>)"

definition restoreSteer :: "ContentPart list \<Rightarrow> PromptOrigin \<Rightarrow> TurnFlow \<Rightarrow> TurnFlow" where
  "restoreSteer input og s =
     (if tf_activeTurn s \<noteq> No_turn
      then s\<lparr>tf_steerBuffer := tf_steerBuffer s @ [\<lparr>bs_input = input, bs_origin = og\<rparr>]\<rparr>
      else s\<lparr>tf_turnId := tf_turnId s + 1, tf_activeTurn := Resuming\<rparr>)"

definition observeRestoredTurnId :: "int \<Rightarrow> TurnFlow \<Rightarrow> TurnFlow" where
  "observeRestoredTurnId turnId s = (if turnId > tf_turnId s then s\<lparr>tf_turnId := turnId\<rparr> else s)"

definition flow_finishResume :: "TurnFlow \<Rightarrow> TurnFlow" where
  "flow_finishResume s =
     s\<lparr>tf_activeTurn := (if tf_activeTurn s = Resuming then No_turn else tf_activeTurn s),
       tf_steerBuffer := []\<rparr>"

section \<open>Steps\<close>

text \<open>An operation on the compaction from outside the turn, and the call back it ends with.\<close>

definition finishes_compaction :: "FullCompaction \<Rightarrow> FullCompaction \<Rightarrow> bool" where
  "finishes_compaction c c' \<longleftrightarrow>
     list_ex (\<lambda>x. case x of FC_turn_onCompactionFinished v \<Rightarrow> True | _ \<Rightarrow> False)
       (drop (length (fc_calls c)) (fc_calls c'))"

definition compaction_op :: "turn_env \<Rightarrow> ms \<Rightarrow> fc_op \<Rightarrow> TurnFlow \<Rightarrow> TurnFlow" where
  "compaction_op E now x s =
     (let c' = fc_step (te_compaction E) (te_micro E) (te_instruction E) (te_prefix E) (te_todos E)
                 (tf_compaction s) (now, x);
          s1 = s\<lparr>tf_compaction := c'\<rparr>
      in if finishes_compaction (tf_compaction s) c' then onCompactionFinished E now s1 else s1)"

text \<open>What the world may do. The hooks of the loop and the answers name the worker.\<close>

datatype tf_op =
    Tf_prompt "ContentPart list" PromptOrigin
  | Tf_requestPrompt "ContentPart list" PromptOrigin
  | Tf_steer "ContentPart list" PromptOrigin
  | Tf_retry "string option"
  | Tf_cancel "int option" "abort_reason option"
  | Tf_background "string list"
  | Tf_idle_timer
  | Tf_note_outcome
  | Tf_goal GoalOp
  | Tf_context CxOp
  | Tf_compact "string option"
  | Tf_cancel_compaction
  | Tf_pre_hook nat "thrown option" "thrown option"
  | Tf_answer nat "thrown + GenerateResult"
  | Tf_slept nat "thrown option"
  | Tf_refreshed nat
  | Tf_reinjected nat "thrown option"
  | Tf_goal_settled nat
  | Tf_prompt_hook nat "thrown option" "HookResult list option"
  | Tf_loaded nat "thrown option"
  | Tf_before_step nat
  | Tf_settled nat
  | Tf_event nat turn_hook
  | Tf_usage nat int
  | Tf_after_step nat bool TokenUsage
  | Tf_should_continue nat bool int
  | Tf_stop_hook nat "thrown option" "string option"
  | Tf_returned nat LoopTurnStopReason
  | Tf_threw nat thrown nat

text \<open>The hooks of \<open>Turn_Tracking_Facts\<close> that the driver observes as events of the loop.\<close>

fun is_loop_event :: "turn_hook \<Rightarrow> bool" where
  "is_loop_event (Hook_step_begin st) = True"
| "is_loop_event (Hook_tool_call t st c n a) = True"
| "is_loop_event (Hook_tool_result t c r) = True"
| "is_loop_event (Hook_prepare n b a) = True"
| "is_loop_event (Hook_finalize n) = True"
| "is_loop_event (Hook_interrupted e a n) = True"
| "is_loop_event _ = False"

definition observe_event :: "turn_env \<Rightarrow> turn_hook \<Rightarrow> int \<Rightarrow> TurnFlow \<Rightarrow> TurnFlow" where
  "observe_event E h turnId s =
     (if is_loop_event h then s\<lparr>tf_nori := fst (run_hook (te_workflow E) turnId (tf_nori s, []) h)\<rparr> else s)"

text \<open>A hook of the loop runs only while the worker \<open>k\<close> is in it.\<close>

definition in_loop :: "nat \<Rightarrow> (turn_worker \<Rightarrow> step_loop \<Rightarrow> TurnFlow \<Rightarrow> TurnFlow) \<Rightarrow> TurnFlow \<Rightarrow> TurnFlow" where
  "in_loop k f s =
     (case map_get (tf_workers s) k of
        None \<Rightarrow> s
      | Some w \<Rightarrow> (case tw_phase w of TP_loop sl \<Rightarrow> f w sl s | _ \<Rightarrow> s))"

text \<open>The compaction a worker waits for has settled.\<close>

definition compaction_settled :: "turn_env \<Rightarrow> ms \<Rightarrow> nat \<Rightarrow> TurnFlow \<Rightarrow> TurnFlow" where
  "compaction_settled E now k s =
     (case map_get (tf_workers s) k of
        None \<Rightarrow> s
      | Some w \<Rightarrow>
          (case tw_phase w of
             TP_waiting v sl \<Rightarrow> beforeStep_settled E now k w v sl s
           | TP_overflow v sl \<Rightarrow> overflow_settled E now k w v sl s
           | _ \<Rightarrow> s))"

definition stop_hook_settled ::
    "ms \<Rightarrow> thrown option \<Rightarrow> string option \<Rightarrow> nat \<Rightarrow> TurnFlow \<Rightarrow> TurnFlow" where
  "stop_hook_settled now threw block k s =
     (case map_get (tf_workers s) k of
        None \<Rightarrow> s
      | Some w \<Rightarrow>
          (case tw_phase w of TP_stopHook sl \<Rightarrow> stop_hook_returned now threw block k w sl s | _ \<Rightarrow> s))"

fun tf_step :: "turn_env \<Rightarrow> TurnFlow \<Rightarrow> ms \<times> tf_op \<Rightarrow> TurnFlow" where
  "tf_step E s (now, Tf_prompt i og) = snd (prompt E now i og s)"
| "tf_step E s (now, Tf_requestPrompt i og) = snd (requestPrompt E now i og s)"
| "tf_step E s (now, Tf_steer i og) = snd (steer E now i og s)"
| "tf_step E s (now, Tf_retry t) = snd (retry E now t s)"
| "tf_step E s (now, Tf_cancel t r) = cancel t r s"
| "tf_step E s (now, Tf_background ts) = noteBackgroundActivity E (s\<lparr>tf_unfinished := ts\<rparr>)"
| "tf_step E s (now, Tf_idle_timer) =
     (if tf_idleTimer s = None then s else fireGoalBackgroundIdleWake E now s)"
| "tf_step E s (now, Tf_note_outcome) = s\<lparr>tf_pendingGoalOutcome := True\<rparr>"
| "tf_step E s (now, Tf_goal g) = on_goal (\<lambda>m. goal_step m (now, g)) s"
| "tf_step E s (now, Tf_context x) = compaction_op E now (Full_Compaction.Op_context x) s"
| "tf_step E s (now, Tf_compact i) = compaction_op E now (Op_begin (hasActiveTurn s) Src_manual i) s"
| "tf_step E s (now, Tf_cancel_compaction) = compaction_op E now Full_Compaction.Op_cancel s"
| "tf_step E s (now, Tf_pre_hook v e setup) = compaction_op E now (Op_pre_hook v e setup) s"
| "tf_step E s (now, Tf_answer v out) = compaction_op E now (Op_answer v out) s"
| "tf_step E s (now, Tf_slept v e) = compaction_op E now (Op_slept v e) s"
| "tf_step E s (now, Tf_refreshed v) = compaction_op E now (Op_refreshed v) s"
| "tf_step E s (now, Tf_reinjected v e) = compaction_op E now (Op_reinjected v e) s"
| "tf_step E s (now, Tf_goal_settled k) = goal_settled E now k s"
| "tf_step E s (now, Tf_prompt_hook k e rs) = prompt_hook_returned E now e rs k s"
| "tf_step E s (now, Tf_loaded k e) = loaded E now e k s"
| "tf_step E s (now, Tf_before_step k) = in_loop k (beforeStep E now k) s"
| "tf_step E s (now, Tf_settled k) = compaction_settled E now k s"
| "tf_step E s (now, Tf_event k h) = in_loop k (\<lambda>w sl. observe_event E h (tw_turnId w)) s"
| "tf_step E s (now, Tf_usage k n) = in_loop k (recordStepUsage now n k) s"
| "tf_step E s (now, Tf_after_step k b u) = in_loop k (afterStep E now b u) s"
| "tf_step E s (now, Tf_should_continue k b n) = in_loop k (shouldContinueAfterStop E now b n k) s"
| "tf_step E s (now, Tf_stop_hook k e b) = stop_hook_settled now e b k s"
| "tf_step E s (now, Tf_returned k r) = in_loop k (\<lambda>w sl. end_turn E now k w (stop_reason_end r) None False) s"
| "tf_step E s (now, Tf_threw k e n) = in_loop k (run_turn_threw E now e n k) s"

end
