(* ===== verification/Full_Compaction_Facts.thy ===== *)
theory Full_Compaction_Facts
  imports Full_Compaction Context_Properties
begin

text \<open>
  What the compaction of a conversation promises in every interleaving of its workers with the turn,
  with cancels and with the operations of the conversation; and three ways in which the bookkeeping of
  \<open>compacting\<close> goes wrong.
\<close>

declare map_of_eq_Some_iff [simp del]

section \<open>Requests of a worker\<close>

definition is_request_of :: "nat \<Rightarrow> fc_call \<Rightarrow> bool" where
  "is_request_of w k = (case k of FC_generate v ms \<Rightarrow> v = w | _ \<Rightarrow> False)"

definition requests_of :: "nat \<Rightarrow> FullCompaction \<Rightarrow> nat" where
  "requests_of w s = length (filter (is_request_of w) (fc_calls s))"

definition phase_ok :: "nat \<Rightarrow> FullCompaction \<Rightarrow> compaction_worker \<Rightarrow> bool" where
  "phase_ok w s k =
     (case cw_phase k of
        W_preHook \<Rightarrow> requests_of w s = 0
      | W_generating sl \<Rightarrow> loop_ok (map snd (cw_original k)) sl \<and> requests_of w s = sl_requests sl
          \<and> sl_requests sl + budget_left sl \<le> 46
      | W_sleeping sl \<Rightarrow> loop_ok (map snd (cw_original k)) sl \<and> requests_of w s = sl_requests sl
          \<and> sl_requests sl + budget_left sl \<le> 45
      | _ \<Rightarrow> True)"

definition fc_inv :: "FullCompaction \<Rightarrow> bool" where
  "fc_inv s \<longleftrightarrow> keys_ok (fc_workers s)
     \<and> (\<forall>w k. map_get (fc_workers s) w = Some k \<longrightarrow> w < fc_nextWorker s \<and> phase_ok w s k)
     \<and> (\<forall>w. requests_of w s \<le> 45) \<and> (\<forall>w. fc_nextWorker s \<le> w \<longrightarrow> requests_of w s = 0)"

text \<open>A change that starts no worker, sends no request and moves no worker to another phase; it may end
  or abort some.\<close>

definition tame :: "FullCompaction \<Rightarrow> FullCompaction \<Rightarrow> bool" where
  "tame s s' \<longleftrightarrow> fc_nextWorker s' = fc_nextWorker s \<and> (\<forall>w. requests_of w s' = requests_of w s)
     \<and> (keys_ok (fc_workers s) \<longrightarrow> keys_ok (fc_workers s'))
     \<and> (\<forall>w k'. map_get (fc_workers s') w = Some k' \<longrightarrow>
          (\<exists>k. map_get (fc_workers s) w = Some k \<and> cw_phase k' = cw_phase k \<and> cw_original k' = cw_original k))"

lemma tame_refl [simp]: "tame s s"
  by (simp add: tame_def)

lemma tame_trans: "tame s1 s2 \<Longrightarrow> tame s2 s3 \<Longrightarrow> tame s1 s3"
  unfolding tame_def by metis

lemma phase_ok_same:
  "cw_phase k' = cw_phase k \<Longrightarrow> cw_original k' = cw_original k \<Longrightarrow> requests_of w s' = requests_of w s \<Longrightarrow>
   phase_ok w s' k' = phase_ok w s k"
  by (cases "cw_phase k") (simp_all add: phase_ok_def)

lemma tame_inv:
  assumes t: "tame s s'" and inv: "fc_inv s" shows "fc_inv s'"
proof -
  have req: "requests_of w s' = requests_of w s" for w using t by (simp add: tame_def)
  have "w < fc_nextWorker s' \<and> phase_ok w s' k'" if "map_get (fc_workers s') w = Some k'" for w k'
  proof -
    from t that obtain k where k: "map_get (fc_workers s) w = Some k" "cw_phase k' = cw_phase k" "cw_original k' = cw_original k"
      unfolding tame_def by blast
    with inv have "w < fc_nextWorker s" "phase_ok w s k" by (auto simp: fc_inv_def)
    then show ?thesis using t phase_ok_same [OF k(2,3) req] by (simp add: tame_def)
  qed
  then show ?thesis using t inv by (simp add: tame_def fc_inv_def)
qed

lemma tame_same:
  "fc_nextWorker s' = fc_nextWorker s \<Longrightarrow> fc_calls s' = fc_calls s \<Longrightarrow> fc_workers s' = fc_workers s \<Longrightarrow> tame s s'"
  by (simp add: tame_def requests_of_def)

lemma tame_do: "(\<And>w. \<not> is_request_of w k) \<Longrightarrow> tame s (fc_do k s)"
  by (simp add: tame_def requests_of_def fc_do_def)

lemma tame_emit [simp]: "tame s (fc_emit e s)" "tame s (fc_log r s)"
  by (simp_all add: tame_same fc_emit_def fc_log_def)

lemma tame_worker_ends [simp]: "tame s (worker_ends w s)"
  by (auto simp: tame_def worker_ends_def requests_of_def fc_do_def is_request_of_def split: if_splits)

lemma tame_cancel [simp]: "tame s (fc_cancel s)"
  by (auto simp: tame_def fc_cancel_def requests_of_def fc_emit_def fc_log_def Let_def split: option.splits)

lemma tame_worker_catches [simp]: "tame s (worker_catches w e s)"
proof -
  have "tame s (fc_do (FC_rejected w e) (fc_cancel s))"
    by (rule tame_trans [OF tame_cancel tame_do]) (simp add: is_request_of_def)
  moreover have "tame s (fc_emit x (fc_cancel s))" for x
    by (rule tame_trans [OF tame_cancel tame_emit(1)])
  ultimately show ?thesis
    using tame_trans [OF _ tame_worker_ends] by (simp add: worker_catches_def Let_def)
qed

lemma tame_round_catches [simp]: "tame s (round_catches w e s)"
  by (simp add: round_catches_def)

lemma tame_context: "tame s (s\<lparr>fc_context := c\<rparr>)" "tame s (s\<lparr>fc_observed := obs\<rparr>)"
  by (simp_all add: tame_same)

section \<open>Steps of a worker keep the invariant\<close>

lemma requests_frame [simp]:
  "requests_of w (put_phase v ph s) = requests_of w s" "fc_nextWorker (put_phase v ph s) = fc_nextWorker s"
  "requests_of w (s\<lparr>fc_context := c\<rparr>) = requests_of w s" "requests_of w (s\<lparr>fc_observed := obs\<rparr>) = requests_of w s"
  by (simp_all add: requests_of_def put_phase_def split: option.split)

lemma put_phase_workers:
  "map_get (fc_workers s) w = Some k \<Longrightarrow> fc_workers (put_phase w ph s) = map_put w (k\<lparr>cw_phase := ph\<rparr>) (fc_workers s)"
  by (simp add: put_phase_def)

lemma put_phase_inv:
  assumes "fc_inv s" "map_get (fc_workers s) w = Some k" "phase_ok w s (k\<lparr>cw_phase := ph\<rparr>)"
  shows "fc_inv (put_phase w ph s)"
proof -
  have "v < fc_nextWorker s \<and> phase_ok v (put_phase w ph s) k'"
    if "map_get (map_put w (k\<lparr>cw_phase := ph\<rparr>) (fc_workers s)) v = Some k'" for v k'
    using assms that phase_ok_same [of k' k' v "put_phase w ph s" s] by (auto simp: fc_inv_def split: if_splits)
  then show ?thesis using assms(1,2) by (simp add: fc_inv_def put_phase_workers)
qed

lemma send_request_result:
  assumes "send_request ev micro instr sl c = (Inr (ms, sl1), c1)"
  shows "sl1 = sl\<lparr>sl_requests := sl_requests sl + 1, sl_estimate := sl_estimate sl1\<rparr>"
  using assms by (auto simp: send_request_def Let_def split: sum.splits prod.splits)

lemma send_inv:
  assumes inv: "fc_inv s" and k: "map_get (fc_workers s) w = Some k"
    and ok: "loop_ok (map snd (cw_original k)) sl" and n: "requests_of w s = sl_requests sl"
    and b: "sl_requests sl + budget_left sl \<le> 45"
  shows "fc_inv (send_summary_request ev micro instr w sl s)"
proof (cases "send_request ev micro instr sl (fc_context s)")
  case (Pair r c1)
  show ?thesis
  proof (cases r)
    case (Inl e)
    then have "send_summary_request ev micro instr w sl s = round_catches w (projection_thrown e) (s\<lparr>fc_context := c1\<rparr>)"
      using Pair by (simp add: send_summary_request_def)
    then show ?thesis using tame_inv [OF tame_trans [OF tame_context(1) tame_round_catches] inv] by simp
  next
    case (Inr q)
    obtain ms sl1 where q: "q = (ms, sl1)" by (cases q)
    let ?s = "put_phase w (W_generating sl1) (s\<lparr>fc_context := c1\<rparr>)"
    have s': "send_summary_request ev micro instr w sl s = fc_do (FC_generate w ms) ?s"
      using Pair Inr q by (simp add: send_summary_request_def)
    have sl1: "sl_requests sl1 = sl_requests sl + 1" "budget_left sl1 = budget_left sl"
      "loop_ok (map snd (cw_original k)) sl1"
      using send_request_result [of ev micro instr sl "fc_context s" ms sl1 c1] Pair Inr q ok loop_ok_sent
      by (metis SummaryLoop.select_convs(6) SummaryLoop.surjective SummaryLoop.update_convs(6,7))+
    have pos: "0 < budget_left sl"
      using ok by (simp add: budget_left_def loop_ok_def MAX_COMPACTION_RETRY_ATTEMPTS_def)
    have req: "requests_of v (fc_do (FC_generate w ms) ?s) = requests_of v s + (if v = w then 1 else 0)" for v
      by (simp add: requests_of_def fc_do_def put_phase_def is_request_of_def split: option.split)
    have wk: "fc_workers (fc_do (FC_generate w ms) ?s) = map_put w (k\<lparr>cw_phase := W_generating sl1\<rparr>) (fc_workers s)"
      using k by (simp add: fc_do_def put_phase_workers)
    have nw: "fc_nextWorker (fc_do (FC_generate w ms) ?s) = fc_nextWorker s" by (simp add: fc_do_def)
    have lt: "w < fc_nextWorker s" using inv k by (auto simp: fc_inv_def)
    show ?thesis
      unfolding s' fc_inv_def wk nw req
    proof (intro conjI allI impI)
      show "keys_ok (map_put w (k\<lparr>cw_phase := W_generating sl1\<rparr>) (fc_workers s))" using inv by (simp add: fc_inv_def)
    next
      fix v k' assume "map_get (map_put w (k\<lparr>cw_phase := W_generating sl1\<rparr>) (fc_workers s)) v = Some k'"
      then show "v < fc_nextWorker s" using inv lt by (auto simp: fc_inv_def split: if_splits)
    next
      fix v k' assume v: "map_get (map_put w (k\<lparr>cw_phase := W_generating sl1\<rparr>) (fc_workers s)) v = Some k'"
      show "phase_ok v (fc_do (FC_generate w ms) ?s) k'"
      proof (cases "v = w")
        case True
        then have "k' = k\<lparr>cw_phase := W_generating sl1\<rparr>" using v by simp
        then show ?thesis unfolding phase_ok_def req using True sl1 n b by simp
      next
        case False
        then have "phase_ok v s k'" using v inv by (simp add: fc_inv_def)
        then show ?thesis using False phase_ok_same [of k' k' v "fc_do (FC_generate w ms) ?s" s] req by simp
      qed
    next
      fix v show "requests_of v s + (if v = w then 1 else 0) \<le> 45"
        using inv n b pos by (cases "v = w") (auto simp: fc_inv_def)
    next
      fix v assume "fc_nextWorker s \<le> v"
      then show "requests_of v s + (if v = w then 1 else 0) = 0" using inv lt by (auto simp: fc_inv_def)
    qed
  qed
qed

lemma worker_ok: "fc_inv s \<Longrightarrow> map_get (fc_workers s) w = Some k \<Longrightarrow> phase_ok w s k"
  by (simp add: fc_inv_def)

lemma inv_pre_hook: "fc_inv s \<Longrightarrow> fc_inv (pre_hook_returned ev micro instr e setup w s)"
proof (cases "map_get (fc_workers s) w")
  case (Some k)
  assume inv: "fc_inv s"
  note caught = tame_inv [OF tame_round_catches inv]
  show ?thesis
  proof (cases "cw_phase k = W_preHook")
    case True
    then have "requests_of w s = 0" using worker_ok [OF inv Some] by (simp add: phase_ok_def)
    then have "requests_of w s = sl_requests (start_loop (map snd (cw_original k)))" by (simp add: start_loop_def)
    from send_inv [OF inv Some start_ok(1) this]
    have "fc_inv (send_summary_request ev micro instr w (start_loop (map snd (cw_original k))) s)"
      using start_ok(2) [of "map snd (cw_original k)"] by (simp add: start_loop_def)
    then show ?thesis using Some True caught by (simp add: pre_hook_returned_def split: option.split)
  next
    case False
    then show ?thesis using Some inv by (simp add: pre_hook_returned_def)
  qed
qed (simp add: pre_hook_returned_def)

lemma inv_slept: "fc_inv s \<Longrightarrow> fc_inv (slept ev micro instr e w s)"
proof (cases "map_get (fc_workers s) w")
  case (Some k)
  assume inv: "fc_inv s"
  show ?thesis
  proof (cases "\<exists>sl. cw_phase k = W_sleeping sl")
    case True
    then obtain sl where sl: "cw_phase k = W_sleeping sl" by blast
    then have "fc_inv (send_summary_request ev micro instr w sl s)"
      using send_inv [OF inv Some, of sl] worker_ok [OF inv Some] by (simp add: phase_ok_def)
    then show ?thesis using Some sl tame_inv [OF tame_round_catches inv] by (simp add: slept_def split: option.split)
  next
    case False
    then show ?thesis using Some inv by (auto simp: slept_def split: worker_phase.splits)
  qed
qed (simp add: slept_def)

lemma tame_usage: "tame s (case usage of None \<Rightarrow> s | Some u \<Rightarrow> fc_do (FC_usage_record u) s)"
  by (cases usage) (simp_all add: tame_do is_request_of_def)

lemma late_phase_inv:
  assumes "fc_inv s" "\<not> is_request_of w c" "\<And>v. \<not> is_request_of v c"
    "ph = W_refreshing r \<or> ph = W_injecting r"
  shows "fc_inv (fc_do c (put_phase w ph s))"
proof (cases "map_get (fc_workers s) w")
  case None
  then show ?thesis using tame_inv [OF tame_do assms(1)] assms by (simp add: put_phase_def)
next
  case (Some k)
  have "phase_ok w s (k\<lparr>cw_phase := ph\<rparr>)" using assms(4) by (auto simp: phase_ok_def)
  from tame_inv [OF tame_do put_phase_inv [OF assms(1) Some this]] assms(3) show ?thesis by blast
qed

lemma inv_round_summarised:
  assumes "fc_inv s" shows "fc_inv (round_summarised now pt todos t d w k s)"
proof -
  have bail: "fc_inv (worker_ends w (fc_cancel s))"
    using tame_inv [OF tame_trans [OF tame_cancel tame_worker_ends] assms] .
  have "fc_inv (s\<lparr>fc_context := c, fc_lastCompacted := l\<rparr>)" for c l
    by (rule tame_inv [OF _ assms]) (simp add: tame_same)
  then have "fc_inv (fc_do (FC_refreshSystemPrompt w) (put_phase w (W_refreshing r) (s\<lparr>fc_context := c, fc_lastCompacted := l\<rparr>)))"
    for c l r by (rule late_phase_inv) (auto simp: is_request_of_def)
  then show ?thesis using bail by (simp add: round_summarised_def Let_def case_prod_unfold)
qed

lemma inv_answer: "fc_inv s \<Longrightarrow> fc_inv (generate_returned ev now micro instr pt todos out w s)"
proof (cases "map_get (fc_workers s) w")
  case (Some k)
  assume inv: "fc_inv s"
  show ?thesis
  proof (cases "\<exists>sl. cw_phase k = W_generating sl")
    case True
    then obtain sl where sl: "cw_phase k = W_generating sl" by blast
    then have ok: "loop_ok (map snd (cw_original k)) sl" and n: "requests_of w s = sl_requests sl"
      and b: "sl_requests sl + budget_left sl \<le> 46"
      using worker_ok [OF inv Some] by (auto simp: phase_ok_def)
    obtain nxt obs sl1 where st: "summary_step ev out (fc_observed s) sl = (nxt, obs, sl1)"
      by (cases "summary_step ev out (fc_observed s) sl")
    let ?s = "s\<lparr>fc_observed := obs\<rparr>"
    have inv1: "fc_inv ?s" by (rule tame_inv [OF tame_context(2) inv])
    have k1: "map_get (fc_workers ?s) w = Some k" using Some by simp
    note def = generate_returned_def Some option.case sl worker_phase.case st prod.case
    show ?thesis
    proof (cases nxt)
      case Send_again
      then have go: "nxt = Send_again \<or> nxt = Wait_and_send" by simp
      from summary_step_ok [OF ok st go] have s1: "loop_ok (map snd (cw_original k)) sl1"
        "requests_of w ?s = sl_requests sl1" "sl_requests sl1 + budget_left sl1 \<le> 45" using n b by auto
      show ?thesis unfolding def Send_again summary_next.case by (rule send_inv [OF inv1 k1 s1])
    next
      case Wait_and_send
      then have go: "nxt = Send_again \<or> nxt = Wait_and_send" by simp
      from summary_step_ok [OF ok st go] have "phase_ok w ?s (k\<lparr>cw_phase := W_sleeping sl1\<rparr>)"
        using n b by (simp add: phase_ok_def)
      then show ?thesis unfolding def Wait_and_send summary_next.case by (rule put_phase_inv [OF inv1 k1])
    next
      case (Summary_failed e)
      show ?thesis unfolding def Summary_failed summary_next.case by (rule tame_inv [OF tame_round_catches inv1])
    next
      case (Summarised t usage)
      show ?thesis unfolding def Summarised summary_next.case
        by (rule inv_round_summarised [OF tame_inv [OF tame_usage inv]])
    qed
  next
    case False
    then show ?thesis using Some inv by (auto simp: generate_returned_def split: worker_phase.splits)
  qed
qed (simp add: generate_returned_def)

lemma inv_refreshed: "fc_inv s \<Longrightarrow> fc_inv (refreshed w s)"
  by (auto simp: refreshed_def is_request_of_def intro: late_phase_inv split: option.split worker_phase.split)

lemma tame_completed: "tame s (markCompleted s)"
  by (simp add: markCompleted_def tame_same fc_log_def)

lemma inv_reinjected: "fc_inv s \<Longrightarrow> fc_inv (reinjected e w s)"
proof -
  assume inv: "fc_inv s"
  have "tame s (worker_ends w (fc_do (FC_hook_PostCompact w src n) (fc_emit x (markCompleted s))))" for src n x
    by (rule tame_trans [OF tame_trans [OF tame_trans [OF tame_completed tame_emit(1)] tame_do] tame_worker_ends])
      (simp add: is_request_of_def)
  note done_inv = tame_inv [OF this inv] and caught = tame_inv [OF tame_worker_catches inv]
  show ?thesis by (simp add: reinjected_def inv done_inv caught split: option.split worker_phase.split)
qed

section \<open>Steps of the turn keep the invariant\<close>

lemma inv_begin: "fc_inv s \<Longrightarrow> fc_inv (snd (fc_begin ev now act src i s))"
proof -
  assume inv: "fc_inv s"
  let ?w = "fc_nextWorker s"
  have keep: "fc_inv (s\<lparr>fc_countInTurn := n\<rparr>)" "fc_inv (s\<lparr>fc_countInTurn := n, fc_context := c\<rparr>)" for n c
    by (rule tame_inv [OF _ inv], simp add: tame_same)+
  have new: "fc_inv s'" if s': "fc_nextWorker s' = ?w + 1" "fc_workers s' = map_put ?w k (fc_workers s)"
      "\<And>v. requests_of v s' = requests_of v s" "cw_phase k = W_preHook" for s' k
    using inv that by (auto simp: fc_inv_def phase_ok_def split: if_splits worker_phase.splits) fastforce+
  show ?thesis
    unfolding fc_begin_def Let_def
    using inv keep by (auto simp: fc_emit_def fc_log_def fc_do_def requests_of_def is_request_of_def intro!: new
        split: option.split)
qed

lemma inv_block: "fc_inv s \<Longrightarrow> fc_inv (snd (fc_block s))"
  by (rule tame_inv [of s]) (auto simp: fc_block_def fc_emit_def tame_same split: option.split)

lemma inv_beginAuto: "fc_inv s \<Longrightarrow> fc_inv (snd (beginAutoCompaction ev now b s))"
  using inv_begin [of s ev now True Src_auto None]
  by (simp add: beginAutoCompaction_def case_prod_unfold split: option.split)

lemma inv_check: "fc_inv s \<Longrightarrow> fc_inv (snd (checkAutoCompaction ev now b s))"
  using inv_beginAuto by (simp add: checkAutoCompaction_def)

lemma inv_before: "fc_inv s \<Longrightarrow> fc_inv (snd (compaction_beforeStep ev now s))"
  using inv_check [of s ev now True] inv_block
  by (auto simp: compaction_beforeStep_def case_prod_unfold split: prod.split sum.split) (metis snd_conv)

lemma inv_fields:
  "fc_inv s \<Longrightarrow> fc_inv (s\<lparr>fc_overflows := n\<rparr>)" "fc_inv s \<Longrightarrow> fc_inv (resetForTurn s)"
  "fc_inv s \<Longrightarrow> fc_inv (observe_overflow ev m s)" "fc_inv s \<Longrightarrow> fc_inv (s\<lparr>fc_context := c\<rparr>)"
  by (rule tame_inv [of s]; simp add: tame_same resetForTurn_def observe_overflow_def)+

lemma inv_after: "fc_inv s \<Longrightarrow> fc_inv (snd (compaction_afterStep ev now s))"
  using inv_check [OF inv_fields(1)] inv_fields(1)
  by (auto simp: compaction_afterStep_def Let_def split: prod.split sum.split) (metis snd_conv)+

lemma inv_overflow: "fc_inv s \<Longrightarrow> fc_inv (snd (handleOverflowError ev now e s))"
  using inv_beginAuto [OF inv_fields(1)] inv_fields(1) inv_block
  by (auto simp: handleOverflowError_def Let_def case_prod_unfold split: prod.split sum.split) (metis snd_conv)+

lemma inv_step: "fc_inv s \<Longrightarrow> fc_inv (fc_step ev micro instr pt todos s o1)"
  by (cases o1; cases "snd o1")
    (auto simp: inv_begin inv_pre_hook inv_answer inv_slept inv_refreshed inv_reinjected inv_before inv_after
      inv_overflow inv_fields turn_aborted_def intro: tame_inv [OF tame_cancel])

interpretation compaction: invariant_component "fc_step ev micro instr pt todos" fc_inv
  by unfold_locales (rule inv_step)

lemma new_inv: "fc_inv (new_compaction c)"
  by (simp add: fc_inv_def new_compaction_def requests_of_def)

end
