(* ===== verification/Turn_Flow_Facts.thy ===== *)
theory Turn_Flow_Facts
  imports Turn_Flow Full_Compaction_Facts
begin

text \<open>
  What every operation of the turn driver does to the bookkeeping of turns: at most one worker, turns
  bracketed by their events, nothing buffered while nobody would fetch it, and nothing lost.
\<close>

section \<open>Frames\<close>

lemmas flow_defs = tf_do_def put_worker_def set_phase_def on_goal_def on_conversation_def append_user_def
  clearGoalBackgroundIdleWake_def

lemma is_compacting_context [simp]: "isCompacting (c\<lparr>fc_context := x\<rparr>) = isCompacting c"
  by (simp add: isCompacting_def)

text \<open>The part of the compaction that the driver looks at.\<close>

definition same_books :: "FullCompaction \<Rightarrow> FullCompaction \<Rightarrow> bool" where
  "same_books c c' \<longleftrightarrow> fc_workers c' = fc_workers c \<and> fc_compacting c' = fc_compacting c \<and> fc_calls c' = fc_calls c"

lemma same_books_simps [simp]:
  "same_books c c" "same_books c (c\<lparr>fc_context := x\<rparr>)" "same_books c (resetForTurn c)"
  by (simp_all add: same_books_def resetForTurn_def)

lemma same_books_trans: "same_books a b \<Longrightarrow> same_books b c \<Longrightarrow> same_books a c"
  by (simp add: same_books_def)

lemma idle_frame [simp]:
  "tf_steerBuffer (rescheduleGoalBackgroundIdleWake E s) = tf_steerBuffer s"
  "tf_activeTurn (rescheduleGoalBackgroundIdleWake E s) = tf_activeTurn s"
  "tf_workers (rescheduleGoalBackgroundIdleWake E s) = tf_workers s"
  "tf_nextSignal (rescheduleGoalBackgroundIdleWake E s) = tf_nextSignal s"
  "tf_turnId (rescheduleGoalBackgroundIdleWake E s) = tf_turnId s"
  "tf_out (rescheduleGoalBackgroundIdleWake E s) = tf_out s"
  "tf_nori (rescheduleGoalBackgroundIdleWake E s) = tf_nori s"
  "tf_goal (rescheduleGoalBackgroundIdleWake E s) = tf_goal s"
  "tf_compaction (rescheduleGoalBackgroundIdleWake E s) = tf_compaction s"
  by (simp_all add: rescheduleGoalBackgroundIdleWake_def Let_def)

text \<open>The driver's own view of a state: what the invariants below speak of.\<close>

record driver_view =
  dv_buffer :: "BufferedSteer list"
  dv_active :: active_turn
  dv_workers :: "(nat \<times> turn_worker) list"
  dv_next :: nat
  dv_turnId :: int
  dv_out :: "tf_out list"
  dv_gate :: bool
  dv_compactions :: "(nat \<times> compaction_worker) list"
  dv_compacting :: "(nat \<times> bool) option"

definition view :: "TurnFlow \<Rightarrow> driver_view" where
  "view s = \<lparr>dv_buffer = tf_steerBuffer s, dv_active = tf_activeTurn s, dv_workers = tf_workers s,
     dv_next = tf_nextSignal s, dv_turnId = tf_turnId s, dv_out = tf_out s,
     dv_gate = nt_pendingGate (tf_nori s), dv_compactions = fc_workers (tf_compaction s),
     dv_compacting = fc_compacting (tf_compaction s)\<rparr>"

lemma view_do [simp]: "view (tf_do x s) = (view s)\<lparr>dv_out := tf_out s @ [x]\<rparr>"
  by (simp add: view_def tf_do_def)

lemma view_put [simp]:
  "view (put_worker k w s) = (view s)\<lparr>dv_workers := map_put k w (tf_workers s)\<rparr>"
  "view (set_phase k w ph s) = (view s)\<lparr>dv_workers := map_put k (w\<lparr>tw_phase := ph\<rparr>) (tf_workers s)\<rparr>"
  by (simp_all add: view_def set_phase_def put_worker_def)

lemma view_frame [simp]:
  "view (on_goal f s) = view s"
  "view (on_conversation g s) = view s"
  "view (clearGoalBackgroundIdleWake s) = view s"
  "view (rescheduleGoalBackgroundIdleWake E s) = view s"
  "view (append_user now i og s) = (view s)\<lparr>dv_out := tf_out s @ [TO_user_message i og]\<rparr>"
  by (simp_all add: view_def flow_defs)

lemma view_update [simp]:
  "view (s\<lparr>tf_steerBuffer := b\<rparr>) = (view s)\<lparr>dv_buffer := b\<rparr>"
  "view (s\<lparr>tf_activeTurn := a\<rparr>) = (view s)\<lparr>dv_active := a\<rparr>"
  "view (s\<lparr>tf_workers := ws\<rparr>) = (view s)\<lparr>dv_workers := ws\<rparr>"
  "view (s\<lparr>tf_nextSignal := n\<rparr>) = (view s)\<lparr>dv_next := n\<rparr>"
  "view (s\<lparr>tf_turnId := i\<rparr>) = (view s)\<lparr>dv_turnId := i\<rparr>"
  "view (s\<lparr>tf_nori := t\<rparr>) = (view s)\<lparr>dv_gate := nt_pendingGate t\<rparr>"
  "view (s\<lparr>tf_goal := g\<rparr>) = view s"
  "view (s\<lparr>tf_systemPrompt := p\<rparr>) = view s"
  "view (s\<lparr>tf_pendingGoalOutcome := q\<rparr>) = view s"
  "view (s\<lparr>tf_idleArmed := r\<rparr>) = view s"
  "view (s\<lparr>tf_idleTimer := u\<rparr>) = view s"
  "view (s\<lparr>tf_unfinished := v\<rparr>) = view s"
  "view (s\<lparr>tf_compaction := c\<rparr>) = (view s)\<lparr>dv_compactions := fc_workers c, dv_compacting := fc_compacting c\<rparr>"
  by (simp_all add: view_def)

lemma view_fields [simp]:
  "dv_buffer (view s) = tf_steerBuffer s" "dv_active (view s) = tf_activeTurn s"
  "dv_workers (view s) = tf_workers s" "dv_next (view s) = tf_nextSignal s"
  "dv_turnId (view s) = tf_turnId s" "dv_out (view s) = tf_out s"
  "dv_gate (view s) = nt_pendingGate (tf_nori s)"
  "dv_compactions (view s) = fc_workers (tf_compaction s)"
  "dv_compacting (view s) = fc_compacting (tf_compaction s)"
  by (simp_all add: view_def)

lemma view_flush:
  "view (snd (flushSteerBuffer now s)) = (view s)\<lparr>dv_buffer := [],
     dv_out := tf_out s @ map (\<lambda>b. TO_user_message (bs_input b) (bs_origin b)) (tf_steerBuffer s)\<rparr>"
  "fst (flushSteerBuffer now s) \<longleftrightarrow> tf_steerBuffer s \<noteq> []"
proof -
  have F: "view (foldl (\<lambda>t b. append_user now (bs_input b) (bs_origin b) t) s bs) =
      (view s)\<lparr>dv_out := tf_out s @ map (\<lambda>b. TO_user_message (bs_input b) (bs_origin b)) bs\<rparr>" for bs
  proof (induction bs arbitrary: s)
    case (Cons b bs)
    have "tf_out (append_user now (bs_input b) (bs_origin b) s) = tf_out s @ [TO_user_message (bs_input b) (bs_origin b)]"
      by (simp add: flow_defs)
    then show ?case using Cons by simp
  qed (simp add: view_def)
  show "view (snd (flushSteerBuffer now s)) = (view s)\<lparr>dv_buffer := [],
     dv_out := tf_out s @ map (\<lambda>b. TO_user_message (bs_input b) (bs_origin b)) (tf_steerBuffer s)\<rparr>"
  proof (cases "tf_steerBuffer s = []")
    case False
    then show ?thesis by (simp only: flushSteerBuffer_def if_False snd_conv view_update F) simp
  qed (simp add: flushSteerBuffer_def view_def)
qed (simp add: flushSteerBuffer_def)

lemma begin_tracking_gate [simp]: "nt_pendingGate (begin_turn_tracking w d i input og t) = False"
  by (simp add: begin_turn_tracking_def Let_def)

lemma end_tracking_gate [simp]: "nt_pendingGate (end_turn_tracking d c i t) = nt_pendingGate t"
  by (simp add: end_turn_tracking_def trackTurnInterrupted_def Turn_Tracking.track_def Let_def)

lemma view_turn_starts:
  "view (turn_starts E now w s) = (view s)\<lparr>dv_out := tf_out s @ [TO_usage_begin, TO_started (tw_turnId w) (tw_origin w),
     TO_user_message (tw_input w) (tw_origin w)], dv_gate := False\<rparr>"
  by (simp add: turn_starts_def Let_def view_def flow_defs resetForTurn_def)

lemma view_start_step_loop:
  "view (start_step_loop k w s) = (view s)\<lparr>dv_out := tf_out s @ [TO_mcp_wait],
     dv_workers := map_put k (w\<lparr>tw_phase := TP_loading\<rparr>) (tf_workers s)\<rparr>"
  by (simp add: start_step_loop_def view_def flow_defs)

definition entry_phases :: "turn_phase set" where
  "entry_phases = {TP_promptHook, TP_loading}"

definition quiet :: "tf_out \<Rightarrow> bool" where
  "quiet x = (case x of
       TO_started i og \<Rightarrow> False | TO_ended i r e \<Rightarrow> False | TO_user_message i og \<Rightarrow> False
     | TO_run_turn i \<Rightarrow> False | TO_continue i b \<Rightarrow> False | TO_hook_threw i e \<Rightarrow> False
     | TO_after_step i b \<Rightarrow> False | TO_hook_result i a b c \<Rightarrow> False | TO_fire_Interrupt i \<Rightarrow> False
     | _ \<Rightarrow> True)"

lemma view_apply_hook:
  "\<exists>x p. quiet x \<and> p \<in> entry_phases \<and> view (applyUserPromptHook k w s) = (view s)\<lparr>dv_out := tf_out s @ [x],
     dv_workers := map_put k (w\<lparr>tw_phase := p\<rparr>) (tf_workers s)\<rparr>"
proof (cases "is_user_origin (tw_origin w)")
  case True
  then have "view (applyUserPromptHook k w s) = (view s)\<lparr>dv_out := tf_out s @ [TO_hook_UserPromptSubmit (tw_input w)],
     dv_workers := map_put k (w\<lparr>tw_phase := TP_promptHook\<rparr>) (tf_workers s)\<rparr>"
    by (simp add: applyUserPromptHook_def view_def flow_defs)
  then show ?thesis by (intro exI conjI) (auto simp: quiet_def entry_phases_def)
next
  case False
  then have "view (applyUserPromptHook k w s) = (view s)\<lparr>dv_out := tf_out s @ [TO_mcp_wait],
     dv_workers := map_put k (w\<lparr>tw_phase := TP_loading\<rparr>) (tf_workers s)\<rparr>"
    by (simp add: applyUserPromptHook_def view_start_step_loop)
  then show ?thesis by (intro exI conjI) (auto simp: quiet_def entry_phases_def)
qed

definition waiting_phases :: "turn_phase set" where
  "waiting_phases = {TP_counting, TP_blocking}"

lemma view_drive_top:
  "\<exists>p \<in> waiting_phases. view (drive_top now k w s) = (view s)\<lparr>
     dv_workers := map_put k (w\<lparr>tw_drive := True, tw_phase := p\<rparr>) (tf_workers s)\<rparr>"
  by (auto simp: drive_top_def Let_def waiting_phases_def view_def flow_defs)

text \<open>A launch: the new worker either holds its input back or has opened its turn.\<close>

definition begun :: "int \<Rightarrow> BufferedSteer \<Rightarrow> turn_worker \<Rightarrow> tf_out list \<Rightarrow> bool" where
  "begun i b w xs \<longleftrightarrow> tw_turnId w = i \<and> tw_input w = bs_input b \<and> tw_origin w = bs_origin b \<and>
     (tw_phase w \<in> waiting_phases \<and> xs = [] \<or>
      tw_phase w \<in> entry_phases \<and> (\<exists>x. quiet x \<and>
        xs = [TO_usage_begin, TO_started i (bs_origin b), TO_user_message (bs_input b) (bs_origin b), x]))"

lemma view_launch:
  assumes "tf_activeTurn s = No_turn" and "\<not> isCompacting (tf_compaction s)"
  shows "\<exists>w xs g. begun (tf_turnId s + 1) \<lparr>bs_input = i, bs_origin = og\<rparr> w xs \<and> (xs \<noteq> [] \<longrightarrow> \<not> g)
    \<and> view (snd (launch E now i og s)) = (view s)\<lparr>dv_active := Active (tf_nextSignal s),
        dv_next := tf_nextSignal s + 1, dv_turnId := tf_turnId s + 1,
        dv_workers := map_put (tf_nextSignal s) w (tf_workers s), dv_out := tf_out s @ xs, dv_gate := g\<rparr>"
proof -
  let ?k = "tf_nextSignal s" and ?b = "\<lparr>bs_input = i, bs_origin = og\<rparr>"
  define s1 where "s1 = (clearGoalBackgroundIdleWake s)\<lparr>tf_turnId := tf_turnId s + 1, tf_nextSignal := ?k + 1\<rparr>"
  define w where "w = \<lparr>tw_turnId = tf_turnId s + 1, tw_drive = False, tw_input = i, tw_origin = og,
    tw_aborted = None, tw_listeners = [], tw_phase = TP_loading\<rparr>"
  have v1: "view s1 = (view s)\<lparr>dv_turnId := tf_turnId s + 1, dv_next := ?k + 1\<rparr>"
    by (simp add: s1_def view_def flow_defs)
  have same: "tf_workers s1 = tf_workers s" "tf_out s1 = tf_out s" by (simp_all add: s1_def flow_defs)
  have l: "snd (launch E now i og s) = (turnWorker E now ?k (tf_turnId s + 1) i og s1)\<lparr>tf_activeTurn := Active ?k\<rparr>"
    using assms by (simp add: launch_def allocateTurnId_def s1_def Let_def flow_defs)
  show ?thesis
  proof (cases "goal_is_active now s1")
    case True
    then have t: "turnWorker E now ?k (tf_turnId s + 1) i og s1 = drive_top now ?k w s1"
      by (simp add: turnWorker_def w_def)
    obtain p where p: "p \<in> waiting_phases" "view (drive_top now ?k w s1) = (view s1)\<lparr>
       dv_workers := map_put ?k (w\<lparr>tw_drive := True, tw_phase := p\<rparr>) (tf_workers s1)\<rparr>"
      using view_drive_top by blast
    show ?thesis
    proof (intro exI conjI)
      show "begun (tf_turnId s + 1) ?b (w\<lparr>tw_drive := True, tw_phase := p\<rparr>) []"
        using p(1) by (simp add: begun_def w_def)
      show "view (snd (launch E now i og s)) = (view s)\<lparr>dv_active := Active ?k,
        dv_next := ?k + 1, dv_turnId := tf_turnId s + 1,
        dv_workers := map_put ?k (w\<lparr>tw_drive := True, tw_phase := p\<rparr>) (tf_workers s), dv_out := tf_out s @ [],
        dv_gate := nt_pendingGate (tf_nori s)\<rparr>"
        unfolding l t view_update p(2) v1 same by (simp add: view_def)
    qed simp
  next
    case False
    then have t: "turnWorker E now ?k (tf_turnId s + 1) i og s1 = applyUserPromptHook ?k w (turn_starts E now w s1)"
      by (simp add: turnWorker_def w_def Let_def)
    let ?t = "turn_starts E now w s1"
    have vt: "view ?t = (view s1)\<lparr>dv_out := tf_out s @ [TO_usage_begin, TO_started (tf_turnId s + 1) og,
        TO_user_message i og], dv_gate := False\<rparr>"
      unfolding view_turn_starts same by (simp add: w_def)
    have wt: "tf_workers ?t = tf_workers s" and ot: "tf_out ?t = tf_out s @ [TO_usage_begin, TO_started (tf_turnId s + 1) og,
        TO_user_message i og]"
      using arg_cong [OF vt, of dv_workers] arg_cong [OF vt, of dv_out] same by simp_all
    obtain x p where xp: "quiet x" "p \<in> entry_phases" "view (applyUserPromptHook ?k w ?t) = (view ?t)\<lparr>dv_out := tf_out ?t @ [x],
       dv_workers := map_put ?k (w\<lparr>tw_phase := p\<rparr>) (tf_workers ?t)\<rparr>"
      using view_apply_hook by blast
    show ?thesis
    proof (intro exI conjI)
      show "begun (tf_turnId s + 1) ?b (w\<lparr>tw_phase := p\<rparr>)
          [TO_usage_begin, TO_started (tf_turnId s + 1) og, TO_user_message i og, x]"
        using xp(1,2) by (simp add: begun_def w_def)
      show "view (snd (launch E now i og s)) = (view s)\<lparr>dv_active := Active ?k,
        dv_next := ?k + 1, dv_turnId := tf_turnId s + 1,
        dv_workers := map_put ?k (w\<lparr>tw_phase := p\<rparr>) (tf_workers s),
        dv_out := tf_out s @ [TO_usage_begin, TO_started (tf_turnId s + 1) og, TO_user_message i og, x],
        dv_gate := False\<rparr>"
        unfolding l t view_update xp(3) vt v1 wt ot by simp
    qed simp
  qed
qed

end
