(* ===== verification/Turn_Spec.thy ===== *)
theory Turn_Spec
  imports Turn_Flow_Facts
begin

text \<open>
  What the turn driver promises its callers, as a small machine: a queue of inputs and one turn at a
  time. A turn is pending (it holds its input), open (between \<open>turn.started\<close> and \<open>turn.ended\<close>, with
  the continuations it has used up) or closed (ended, but its worker has not let go). \<open>ts_holding\<close>
  says that a compaction is at work, whose end looks after the queue.

  The moves are labelled with the inputs that callers hand over and those that a cancel drops. By rule
  induction: the events of turns are properly bracketed with rising ids, no input is lost or
  repeated, a turn is continued only so often, a goal is continued only after a completed turn, and
  when nothing is going on the queue is empty. That the driver is such a machine is shown in
  \<open>Turn_Refinement\<close> and \<open>Turn_Steps\<close>.
\<close>

section \<open>The machine\<close>

text \<open>An open turn: the continuations after an output limit, and whether the Stop hook had its own.\<close>

datatype turn_stage = Idle | Pending BufferedSteer | Open "nat \<times> bool" | Closed

record turn_spec =
  ts_buffer :: "BufferedSteer list"
  ts_stage :: turn_stage
  ts_turnId :: int
  ts_out :: "tf_out list"
  ts_holding :: bool

definition message :: "BufferedSteer \<Rightarrow> tf_out" where
  "message b = TO_user_message (bs_input b) (bs_origin b)"

text \<open>The origins the driver itself gives to messages.\<close>

definition own_origin :: "PromptOrigin \<Rightarrow> bool" where
  "own_origin og \<longleftrightarrow> og \<in> {OUTPUT_LIMIT_ORIGIN, STOP_HOOK_ORIGIN, NORI_REVIEW_GATE_ORIGIN,
     simple_origin (OK_hook_result ''UserPromptSubmit'' None), GOAL_CONTINUATION_ORIGIN}"

text \<open>What belongs into the bracket of the turn \<open>i\<close>.\<close>

fun inside :: "int \<Rightarrow> tf_out \<Rightarrow> bool" where
  "inside i (TO_run_turn j) = (i = j)"
| "inside i (TO_continue j b) = (i = j)"
| "inside i (TO_hook_threw j e) = (i = j)"
| "inside i (TO_after_step j b) = (i = j)"
| "inside i (TO_hook_result j a b c) = (i = j)"
| "inside i (TO_fire_Interrupt j) = (i = j)"
| "inside i (TO_user_message inp og) = (own_origin og \<and> og \<noteq> OUTPUT_LIMIT_ORIGIN \<and> og \<noteq> STOP_HOOK_ORIGIN)"
| "inside i _ = False"

text \<open>How the last turn ended.\<close>

definition last_end :: "tf_out list \<Rightarrow> TurnEndReason option" where
  "last_end xs = foldl (\<lambda>r x. case x of TO_ended i q e \<Rightarrow> Some q | _ \<Rightarrow> r) None xs"

lemma last_end_simps [simp]:
  "last_end (xs @ [TO_ended i r e]) = Some r" "last_end (xs @ [TO_error p]) = last_end xs"
  "last_end (xs @ [TO_ended i r e, TO_error p]) = Some r"
  by (simp_all add: last_end_def)

inductive spec_move ::
    "turn_spec \<Rightarrow> BufferedSteer list \<Rightarrow> BufferedSteer list \<Rightarrow> turn_spec \<Rightarrow> bool" where
  say: "quiet x \<Longrightarrow> spec_move d [] [] (d\<lparr>ts_out := ts_out d @ [x]\<rparr>)"
| tell: "ts_stage d = Open c \<Longrightarrow> inside (ts_turnId d) x \<Longrightarrow> spec_move d [] [] (d\<lparr>ts_out := ts_out d @ [x]\<rparr>)"
| extends: "ts_stage d = Open (n, b) \<Longrightarrow> n < OUTPUT_LIMIT_CONTINUATIONS_PER_TURN \<Longrightarrow>
    spec_move d [] [] (d\<lparr>ts_stage := Open (Suc n, b), ts_out := ts_out d @ [TO_user_message i OUTPUT_LIMIT_ORIGIN]\<rparr>)"
| resumes: "ts_stage d = Open (n, False) \<Longrightarrow>
    spec_move d [] [] (d\<lparr>ts_stage := Open (n, True), ts_out := ts_out d @ [TO_user_message i STOP_HOOK_ORIGIN]\<rparr>)"
| buffer: "ts_stage d \<noteq> Idle \<or> ts_holding d \<Longrightarrow> spec_move d [b] [] (d\<lparr>ts_buffer := ts_buffer d @ [b]\<rparr>)"
| accept: "ts_stage d = Idle \<Longrightarrow>
    spec_move d [b] [] (d\<lparr>ts_stage := Pending b, ts_turnId := ts_turnId d + 1\<rparr>)"
| fetch: "ts_stage d = Idle \<or> ts_stage d = Closed \<Longrightarrow> ts_buffer d = b # bs \<Longrightarrow>
    spec_move d [] [] (d\<lparr>ts_buffer := bs, ts_stage := Pending b, ts_turnId := ts_turnId d + 1\<rparr>)"
| opens: "ts_stage d = Pending b \<Longrightarrow>
    spec_move d [] [] (d\<lparr>ts_stage := Open (0, False),
      ts_out := ts_out d @ [TO_started (ts_turnId d) (bs_origin b), message b]\<rparr>)"
| flush: "ts_stage d \<noteq> Idle \<Longrightarrow>
    spec_move d [] [] (d\<lparr>ts_buffer := [], ts_out := ts_out d @ map message (ts_buffer d)\<rparr>)"
| closes: "ts_stage d = Open c \<Longrightarrow>
    spec_move d [] [] (d\<lparr>ts_stage := Closed, ts_out := ts_out d @ [TO_ended (ts_turnId d) r e]\<rparr>)"
| goes_on: "ts_stage d = Closed \<Longrightarrow> bs_origin b = GOAL_CONTINUATION_ORIGIN \<Longrightarrow>
    last_end (ts_out d) = Some End_completed \<Longrightarrow>
    spec_move d [] [] (d\<lparr>ts_stage := Pending b, ts_turnId := ts_turnId d + 1\<rparr>)"
| rests: "ts_stage d = Closed \<Longrightarrow> ts_buffer d = [] \<or> ts_holding d \<Longrightarrow>
    spec_move d [] [] (d\<lparr>ts_stage := Idle\<rparr>)"
| cancels: "spec_move d [] (filter (\<lambda>b. is_user_origin (bs_origin b)) (ts_buffer d))
    (d\<lparr>ts_buffer := filter (\<lambda>b. \<not> is_user_origin (bs_origin b)) (ts_buffer d)\<rparr>)"
| holds: "h \<or> ts_stage d \<noteq> Idle \<or> ts_buffer d = [] \<Longrightarrow> spec_move d [] [] (d\<lparr>ts_holding := h\<rparr>)"
| lets_go: "ts_stage d = Idle \<Longrightarrow> ts_buffer d = b # bs \<Longrightarrow>
    spec_move d [] [] (d\<lparr>ts_buffer := bs, ts_stage := Pending b, ts_turnId := ts_turnId d + 1,
      ts_holding := h\<rparr>)"

text \<open>Several moves, with what was handed over and dropped on the way.\<close>

inductive spec_moves ::
    "turn_spec \<Rightarrow> BufferedSteer list \<Rightarrow> BufferedSteer list \<Rightarrow> turn_spec \<Rightarrow> bool" where
  none: "spec_moves d [] [] d"
| more: "spec_moves d i o1 e \<Longrightarrow> spec_move e i' o2 f \<Longrightarrow> spec_moves d (i @ i') (o1 @ o2) f"

lemma one_move: "spec_move d i o1 e \<Longrightarrow> spec_moves d i o1 e"
  using spec_moves.more [OF spec_moves.none] by force

lemma moves_trans:
  assumes "spec_moves d i o1 e" and "spec_moves e i' o2 f"
  shows "spec_moves d (i @ i') (o1 @ o2) f"
  using assms(2,1)
proof (induction rule: spec_moves.induct)
  case (more e i' o2 g j o3 h)
  have "spec_moves d ((i @ i') @ j) ((o1 @ o2) @ o3) h"
    using spec_moves.more [OF more.IH [OF more.prems] more.hyps(2)] .
  then show ?case by simp
qed simp

lemma silent_trans: "spec_moves d [] [] e \<Longrightarrow> spec_moves e i o1 f \<Longrightarrow> spec_moves d i o1 f"
  using moves_trans [of d "[]" "[]" e i o1 f] by simp

lemma trans_silent: "spec_moves d i o1 e \<Longrightarrow> spec_moves e [] [] f \<Longrightarrow> spec_moves d i o1 f"
  using moves_trans [of d i o1 e "[]" "[]" f] by simp

text \<open>Silent moves by their results.\<close>

lemma says:
  assumes "list_all quiet xs"
  shows "spec_moves d [] [] (d\<lparr>ts_out := ts_out d @ xs\<rparr>)"
  using assms
proof (induction xs rule: rev_induct)
  case (snoc x xs)
  let ?e = "d\<lparr>ts_out := ts_out d @ xs\<rparr>"
  have "spec_moves ?e [] [] (?e\<lparr>ts_out := ts_out ?e @ [x]\<rparr>)"
    using snoc.prems by (intro one_move spec_move.say) simp
  then show ?case using silent_trans [OF snoc.IH] snoc.prems by simp
qed (simp add: spec_moves.none)

lemma tells:
  assumes "ts_stage d = Open c" and "list_all (\<lambda>x. quiet x \<or> inside (ts_turnId d) x) xs"
  shows "spec_moves d [] [] (d\<lparr>ts_out := ts_out d @ xs\<rparr>)"
  using assms(2)
proof (induction xs rule: rev_induct)
  case (snoc x xs)
  let ?e = "d\<lparr>ts_out := ts_out d @ xs\<rparr>"
  have "spec_move ?e [] [] (?e\<lparr>ts_out := ts_out ?e @ [x]\<rparr>)"
    using snoc.prems assms(1) spec_move.say [of x ?e] spec_move.tell [of ?e c x] by auto
  then show ?case using silent_trans [OF snoc.IH one_move] snoc.prems by simp
qed (simp add: spec_moves.none)

section \<open>Brackets\<close>

text \<open>The turn that is open, if any, and the last id seen; nothing after a violation.\<close>

definition bracket :: "(int option \<times> int) option \<Rightarrow> tf_out \<Rightarrow> (int option \<times> int) option" where
  "bracket st x =
     (case st of
        None \<Rightarrow> None
      | Some (opn, l) \<Rightarrow>
          (case x of
             TO_started i og \<Rightarrow> if opn = None \<and> l < i then Some (Some i, i) else None
           | TO_ended i r e \<Rightarrow> if opn = Some i then Some (None, i) else None
           | TO_run_turn i \<Rightarrow> if opn = Some i then st else None
           | TO_continue i b \<Rightarrow> if opn = Some i then st else None
           | TO_hook_threw i e \<Rightarrow> if opn = Some i then st else None
           | TO_after_step i b \<Rightarrow> if opn = Some i then st else None
           | TO_hook_result i a b c \<Rightarrow> if opn = Some i then st else None
           | TO_fire_Interrupt i \<Rightarrow> if opn = Some i then st else None
           | _ \<Rightarrow> st))"

definition brackets :: "int \<Rightarrow> tf_out list \<Rightarrow> (int option \<times> int) option" where
  "brackets n xs = foldl bracket (Some (None, n)) xs"

text \<open>All ids are above \<open>n\<close>.\<close>

definition well_bracketed :: "int \<Rightarrow> tf_out list \<Rightarrow> bool" where
  "well_bracketed n xs \<longleftrightarrow> brackets n xs \<noteq> None"

lemma brackets_simps [simp]:
  "brackets n [] = Some (None, n)" "brackets n (xs @ [x]) = bracket (brackets n xs) x"
  by (simp_all add: brackets_def)

lemma bracket_quiet: "quiet x \<Longrightarrow> bracket st x = st"
  by (cases x) (auto simp: quiet_def bracket_def split: option.split)

lemma bracket_message [simp]: "bracket st (message b) = st" "bracket st (TO_user_message i og) = st"
  by (auto simp: bracket_def message_def split: option.split)

lemma bracket_inside: "inside i x \<Longrightarrow> bracket (Some (Some i, l)) x = Some (Some i, l)"
  by (cases x) (auto simp: bracket_def)

lemma brackets_messages [simp]: "brackets n (xs @ map message bs) = brackets n xs"
  by (induction bs rule: rev_induct) (simp_all add: append_assoc [symmetric] del: append_assoc)

definition brackets_fit :: "int \<Rightarrow> turn_spec \<Rightarrow> bool" where
  "brackets_fit n d \<longleftrightarrow> (\<exists>l. brackets n (ts_out d) = Some (if (\<exists>c. ts_stage d = Open c) then Some (ts_turnId d) else None, l)
     \<and> l \<le> ts_turnId d \<and> ((\<exists>b. ts_stage d = Pending b) \<longrightarrow> l < ts_turnId d))"

lemma move_brackets: "spec_move d i o1 e \<Longrightarrow> brackets_fit n d \<Longrightarrow> brackets_fit n e"
proof (induction rule: spec_move.induct)
  case (tell d x)
  then show ?case by (auto simp: brackets_fit_def bracket_inside)
next
  case (opens d b)
  have "brackets n (ts_out d @ [TO_started (ts_turnId d) (bs_origin b), message b]) =
      bracket (brackets n (ts_out d)) (TO_started (ts_turnId d) (bs_origin b))"
    using brackets_simps(2) [of n "ts_out d @ [TO_started (ts_turnId d) (bs_origin b)]" "message b"] by simp
  then show ?case using opens by (auto simp: brackets_fit_def bracket_def)
next
  case (say x d)
  then show ?case by (auto simp: brackets_fit_def bracket_quiet split: if_splits)
next
  case (closes d r e)
  then show ?case by (auto simp: brackets_fit_def bracket_def)
qed (auto simp: brackets_fit_def split: if_splits)

section \<open>The queue\<close>

definition rest_is_empty :: "turn_spec \<Rightarrow> bool" where
  "rest_is_empty d \<longleftrightarrow> (ts_stage d = Idle \<longrightarrow> ts_buffer d = [] \<or> ts_holding d)"

lemma move_rest: "spec_move d i o1 e \<Longrightarrow> rest_is_empty d \<Longrightarrow> rest_is_empty e"
  by (induction rule: spec_move.induct) (auto simp: rest_is_empty_def)

text \<open>The inputs of callers that reached the conversation, and those the driver still holds.\<close>

definition foreign :: "BufferedSteer \<Rightarrow> bool" where
  "foreign b \<longleftrightarrow> \<not> own_origin (bs_origin b)"

fun messages_of :: "tf_out list \<Rightarrow> BufferedSteer list" where
  "messages_of (TO_user_message i og # xs) = \<lparr>bs_input = i, bs_origin = og\<rparr> # messages_of xs"
| "messages_of (x # xs) = messages_of xs"
| "messages_of [] = []"

definition delivered :: "tf_out list \<Rightarrow> BufferedSteer multiset" where
  "delivered xs = mset (filter foreign (messages_of xs))"

definition in_hand :: "turn_spec \<Rightarrow> BufferedSteer multiset" where
  "in_hand d = mset (filter foreign (ts_buffer d @ (case ts_stage d of Pending b \<Rightarrow> [b] | _ \<Rightarrow> [])))"

definition of_callers :: "BufferedSteer list \<Rightarrow> BufferedSteer multiset" where
  "of_callers bs = mset (filter foreign bs)"

lemma steer_eta [simp]: "\<lparr>bs_input = bs_input b, bs_origin = bs_origin b\<rparr> = b"
  by simp

lemma messages_of_append [simp]: "messages_of (xs @ ys) = messages_of xs @ messages_of ys"
  by (induction xs rule: messages_of.induct) auto

lemma messages_of_map [simp]: "messages_of (map message bs) = bs"
  by (induction bs) (simp_all add: message_def)

lemma messages_of_quiet: "quiet x \<Longrightarrow> messages_of [x] = []"
  by (cases x) (simp_all add: quiet_def)

lemma messages_of_inside: "inside i x \<Longrightarrow> filter foreign (messages_of [x]) = []"
  by (cases x) (simp_all add: foreign_def)

lemma of_callers_simps [simp]:
  "of_callers [] = {#}" "of_callers (xs @ ys) = of_callers xs + of_callers ys"
  by (simp_all add: of_callers_def)

lemma filter_split: "mset (filter P (filter (\<lambda>b. \<not> Q b) xs)) + mset (filter P (filter Q xs)) = mset (filter P xs)"
  by (induction xs) (auto simp del: mset_filter)

lemma move_conserves:
  "spec_move d i o1 e \<Longrightarrow>
   delivered (ts_out e) + in_hand e + of_callers o1 = delivered (ts_out d) + in_hand d + of_callers i"
proof (induction rule: spec_move.induct)
  case (say x d)
  then show ?case by (simp add: delivered_def messages_of_quiet in_hand_def)
next
  case (tell d x)
  then show ?case using messages_of_inside by (simp add: delivered_def in_hand_def)
next
  case (cancels d)
  then show ?case
    using filter_split [of foreign "\<lambda>b. is_user_origin (bs_origin b)" "ts_buffer d"]
    by (simp add: in_hand_def of_callers_def)
next
  case (goes_on d b)
  then have "\<not> foreign b" by (simp add: foreign_def own_origin_def)
  then show ?case using goes_on by (simp add: in_hand_def)
next
  case (extends d n b i)
  then show ?case by (simp add: delivered_def in_hand_def foreign_def own_origin_def)
next
  case (resumes d n i)
  then show ?case by (simp add: delivered_def in_hand_def foreign_def own_origin_def)
qed (auto simp: delivered_def in_hand_def of_callers_def message_def)

lemma moves_conserve:
  "spec_moves d i o1 e \<Longrightarrow>
   delivered (ts_out e) + in_hand e + of_callers o1 = delivered (ts_out d) + in_hand d + of_callers i"
proof (induction rule: spec_moves.induct)
  case (more d i o1 e i' o2 f)
  have "delivered (ts_out f) + in_hand f + of_callers (o1 @ o2) =
      (delivered (ts_out f) + in_hand f + of_callers o2) + of_callers o1"
    by (simp add: ac_simps)
  also have "\<dots> = (delivered (ts_out e) + in_hand e + of_callers o1) + of_callers i'"
    unfolding move_conserves [OF more.hyps(2)] by (simp add: ac_simps)
  also have "\<dots> = delivered (ts_out d) + in_hand d + of_callers (i @ i')"
    unfolding more.IH by (simp add: ac_simps)
  finally show ?case .
qed simp

lemma moves_keep:
  assumes "spec_moves d i o1 e"
  shows "brackets_fit n d \<Longrightarrow> brackets_fit n e" and "rest_is_empty d \<Longrightarrow> rest_is_empty e"
  using assms by (induction rule: spec_moves.induct) (auto dest: move_brackets move_rest)

section \<open>Continuations\<close>

text \<open>How often the last turn was continued: after an output limit, and by the Stop hook.\<close>

definition tally_step :: "nat \<times> nat \<Rightarrow> tf_out \<Rightarrow> nat \<times> nat" where
  "tally_step c x =
     (case x of
        TO_started i og \<Rightarrow> (0, 0)
      | TO_user_message i og \<Rightarrow>
          (if og = OUTPUT_LIMIT_ORIGIN then (Suc (fst c), snd c)
           else if og = STOP_HOOK_ORIGIN then (fst c, Suc (snd c)) else c)
      | _ \<Rightarrow> c)"

definition tally :: "tf_out list \<Rightarrow> nat \<times> nat" where
  "tally xs = foldl tally_step (0, 0) xs"

text \<open>The driver continues a goal only after a turn that completed.\<close>

definition continued_rightly :: "tf_out list \<Rightarrow> bool" where
  "continued_rightly xs \<longleftrightarrow>
     (\<forall>ys i. prefix (ys @ [TO_started i GOAL_CONTINUATION_ORIGIN]) xs \<longrightarrow> last_end ys = Some End_completed)"

lemma tally_simps [simp]: "tally [] = (0, 0)" "tally (xs @ [x]) = tally_step (tally xs) x"
  by (simp_all add: tally_def)

lemma tally_quiet: "quiet x \<Longrightarrow> tally_step c x = c" "inside i x \<Longrightarrow> tally_step c x = c"
  by (cases x; simp add: quiet_def tally_step_def)+

lemma last_end_quiet: "quiet x \<Longrightarrow> last_end (xs @ [x]) = last_end xs" "inside i x \<Longrightarrow> last_end (xs @ [x]) = last_end xs"
  by (cases x; simp add: quiet_def last_end_def)+

lemma messages_neutral:
  assumes "list_all foreign bs"
  shows "tally (xs @ map message bs) = tally xs" and "last_end (xs @ map message bs) = last_end xs"
proof -
  have "tally (xs @ map message bs) = tally xs \<and> last_end (xs @ map message bs) = last_end xs"
    using assms
    by (induction bs rule: rev_induct)
      (auto simp: append_assoc [symmetric] message_def tally_step_def last_end_def foreign_def own_origin_def
        simp del: append_assoc)
  then show "tally (xs @ map message bs) = tally xs" "last_end (xs @ map message bs) = last_end xs" by auto
qed

lemma continued_snoc [simp]:
  "continued_rightly (xs @ [x]) \<longleftrightarrow> continued_rightly xs
     \<and> (\<forall>i. x = TO_started i GOAL_CONTINUATION_ORIGIN \<longrightarrow> last_end xs = Some End_completed)"
  by (auto simp: continued_rightly_def prefix_snoc)

lemma continued_messages [simp]: "continued_rightly (xs @ map message bs) = continued_rightly xs"
  by (induction bs rule: rev_induct) (simp_all add: append_assoc [symmetric] message_def del: append_assoc)

lemma continued_quiet: "quiet x \<Longrightarrow> x \<noteq> TO_started i og" "inside j x \<Longrightarrow> x \<noteq> TO_started i og"
  by (auto simp: quiet_def)

definition continuing :: "turn_spec \<Rightarrow> bool" where
  "continuing d \<longleftrightarrow> list_all foreign (ts_buffer d) \<and> continued_rightly (ts_out d)
     \<and> fst (tally (ts_out d)) \<le> OUTPUT_LIMIT_CONTINUATIONS_PER_TURN \<and> snd (tally (ts_out d)) \<le> 1
     \<and> (case ts_stage d of
          Pending b \<Rightarrow> foreign b \<or> bs_origin b = GOAL_CONTINUATION_ORIGIN \<and> last_end (ts_out d) = Some End_completed
        | Open c \<Rightarrow> tally (ts_out d) = (fst c, of_bool (snd c))
        | _ \<Rightarrow> True)"

lemma continuing_out:
  assumes "continuing d" and "tally xs = tally (ts_out d)" and "last_end xs = last_end (ts_out d)"
    and "continued_rightly xs" and "ts_out e = xs" and "ts_stage e = ts_stage d" and "list_all foreign (ts_buffer e)"
  shows "continuing e"
  using assms by (simp add: continuing_def cong: turn_stage.case_cong)

lemma move_continuing: "spec_move d i o1 e \<Longrightarrow> list_all foreign i \<Longrightarrow> continuing d \<Longrightarrow> continuing e"
proof (induction rule: spec_move.induct)
  case (say x d)
  then show ?case
    using continued_quiet(1) by (intro continuing_out [OF say(3)]) (auto simp: continuing_def tally_quiet last_end_quiet)
next
  case (tell d c x)
  then show ?case
    using continued_quiet(2) by (intro continuing_out [OF tell(4)]) (auto simp: continuing_def tally_quiet last_end_quiet)
next
  case (flush d)
  then show ?case
    by (intro continuing_out [OF flush(3)]) (auto simp: continuing_def messages_neutral)
next
  case (opens d b)
  let ?xs = "ts_out d @ [TO_started (ts_turnId d) (bs_origin b)]"
  have x: "ts_out d @ [TO_started (ts_turnId d) (bs_origin b), message b] = ?xs @ [message b]" by simp
  have m: "bs_origin b \<noteq> OUTPUT_LIMIT_ORIGIN \<and> bs_origin b \<noteq> STOP_HOOK_ORIGIN
      \<and> (bs_origin b = GOAL_CONTINUATION_ORIGIN \<longrightarrow> last_end (ts_out d) = Some End_completed)"
    using opens by (auto simp: continuing_def foreign_def own_origin_def GOAL_CONTINUATION_ORIGIN_def
        OUTPUT_LIMIT_ORIGIN_def STOP_HOOK_ORIGIN_def system_trigger_def simple_origin_def)
  have "continued_rightly (?xs @ [message b])"
    using opens m unfolding continued_snoc by (auto simp: continuing_def message_def)
  moreover have "tally (?xs @ [message b]) = (0, 0)"
  proof -
    have "tally ?xs = (0, 0)" by (simp add: tally_step_def)
    then have "tally (?xs @ [message b]) = tally_step (0, 0) (message b)" by (simp only: tally_simps)
    also have "\<dots> = (0, 0)" using m by (simp add: tally_step_def message_def)
    finally show ?thesis .
  qed
  ultimately have "continued_rightly (ts_out d @ [TO_started (ts_turnId d) (bs_origin b), message b])"
    "tally (ts_out d @ [TO_started (ts_turnId d) (bs_origin b), message b]) = (0, 0)" by (simp_all only: x)
  then show ?case using opens by (simp add: continuing_def)
next
  case (cancels d)
  then show ?case by (intro continuing_out [OF cancels(2)]) (auto simp: continuing_def list_all_iff)
qed (auto simp: continuing_def tally_step_def OUTPUT_LIMIT_ORIGIN_def STOP_HOOK_ORIGIN_def system_trigger_def
  simple_origin_def split: turn_stage.splits if_splits)

lemma moves_continuing:
  assumes "spec_moves d i o1 e" and "list_all foreign i" and "continuing d"
  shows "continuing e"
  using assms by (induction rule: spec_moves.induct) (auto intro: move_continuing)

section \<open>Ids\<close>

fun started_ids :: "tf_out list \<Rightarrow> int list" where
  "started_ids [] = []"
| "started_ids (TO_started i og # xs) = i # started_ids xs"
| "started_ids (x # xs) = started_ids xs"

lemma started_append [simp]: "started_ids (xs @ ys) = started_ids xs @ started_ids ys"
  by (induction xs rule: started_ids.induct) auto

lemma brackets_ids:
  assumes "brackets n xs = Some (opn, l)"
  shows "n \<le> l" and "list_all (\<lambda>i. n < i \<and> i \<le> l) (started_ids xs)" and "sorted_wrt (<) (started_ids xs)"
proof -
  have "n \<le> l \<and> list_all (\<lambda>i. n < i \<and> i \<le> l) (started_ids xs) \<and> sorted_wrt (<) (started_ids xs)
      \<and> (\<forall>i. opn = Some i \<longrightarrow> i = l)"
    using assms
  proof (induction xs arbitrary: opn l rule: rev_induct)
    case (snoc x xs)
    then obtain o1 l1 where b: "brackets n xs = Some (o1, l1)"
      by (cases "brackets n xs") (auto simp: bracket_def)
    note ih = snoc.IH [OF b]
    show ?case
      using snoc.prems b ih
      by (cases x) (auto simp: bracket_def sorted_wrt_append list_all_iff split: if_splits)
  qed simp
  then show "n \<le> l" "list_all (\<lambda>i. n < i \<and> i \<le> l) (started_ids xs)" "sorted_wrt (<) (started_ids xs)" by auto
qed

end
