(* ===== verification/Turn_Books.thy ===== *)
theory Turn_Books
  imports Turn_Spec
begin

text \<open>
  The books of the compaction as the turn driver reads them: \<open>compacting\<close> names a worker that is alive
  and not aborted, and a worker that ends calls the driver back. Both hold as long as nobody throws an
  \<open>AbortError\<close> into a worker that was not aborted (a run where somebody does is
  \<open>foreign_abort_leaves_compacting\<close>).
\<close>

definition fc_books :: "FullCompaction \<Rightarrow> bool" where
  "fc_books c \<longleftrightarrow> (\<forall>v b. fc_compacting c = Some (v, b) \<longrightarrow>
     (\<exists>k. map_get (fc_workers c) v = Some k \<and> \<not> cw_aborted k))"

definition aborted_in :: "FullCompaction \<Rightarrow> nat \<Rightarrow> bool" where
  "aborted_in c v = (case map_get (fc_workers c) v of Some k \<Rightarrow> cw_aborted k | None \<Rightarrow> False)"

text \<open>The worker that ended has called back, or no worker is gone.\<close>

definition accounted :: "FullCompaction \<Rightarrow> FullCompaction \<Rightarrow> bool" where
  "accounted c c' \<longleftrightarrow> prefix (fc_calls c) (fc_calls c') \<and>
     (finishes_compaction c c' \<or> (fc_workers c \<noteq> [] \<longrightarrow> fc_workers c' \<noteq> []))"

lemma put_not_Nil [simp]: "map_put k v m \<noteq> []"
  by (induction m) auto

lemma books_none: "fc_compacting c = None \<Longrightarrow> fc_books c"
  by (simp add: fc_books_def)

lemma books_same:
  "fc_books c \<Longrightarrow> fc_workers c' = fc_workers c \<Longrightarrow> fc_compacting c' = fc_compacting c \<Longrightarrow> fc_books c'"
  by (simp add: fc_books_def)

lemma books_frame [simp]:
  "fc_books (c\<lparr>fc_context := x\<rparr>) = fc_books c" "fc_books (resetForTurn c) = fc_books c"
  "fc_books (fc_do k c) = fc_books c" "fc_books (fc_emit e c) = fc_books c" "fc_books (fc_log r c) = fc_books c"
  "fc_books (observe_overflow ev n c) = fc_books c" "fc_books (c\<lparr>fc_observed := ob\<rparr>) = fc_books c"
  by (simp_all add: fc_books_def resetForTurn_def fc_do_def fc_emit_def fc_log_def observe_overflow_def)

lemma cancel_compacting [simp]: "fc_compacting (fc_cancel c) = None"
  by (simp add: fc_cancel_def fc_emit_def Let_def split: option.split prod.split)

lemma books_cancel [simp]: "fc_books (fc_cancel c)"
  by (rule books_none) simp

lemma calls_cancel [simp]: "fc_calls (fc_cancel c) = fc_calls c"
  by (simp add: fc_cancel_def fc_emit_def fc_log_def Let_def split: option.split prod.split)

lemma workers_cancel [simp]: "fc_workers (fc_cancel c) = [] \<longleftrightarrow> fc_workers c = []"
  by (auto simp: fc_cancel_def fc_emit_def fc_log_def Let_def split: option.split prod.split)

lemma books_phase: "fc_books c \<Longrightarrow> fc_books (put_phase v ph c)"
  by (auto simp: fc_books_def put_phase_def split: option.split)

lemma phase_frame [simp]:
  "fc_calls (put_phase v ph c) = fc_calls c" "fc_workers (put_phase v ph c) = [] \<longleftrightarrow> fc_workers c = []"
  "fc_compacting (put_phase v ph c) = fc_compacting c"
  by (auto simp: put_phase_def split: option.split)

lemma books_begin: "fc_books c \<Longrightarrow> fc_books (snd (fc_begin ev now act src i c))"
  by (simp add: fc_begin_def fc_books_def isCompacting_def fc_emit_def fc_log_def fc_do_def Let_def)

lemma begin_frame:
  "prefix (fc_calls c) (fc_calls (snd (fc_begin ev now act src i c)))"
  "fc_workers c \<noteq> [] \<Longrightarrow> fc_workers (snd (fc_begin ev now act src i c)) \<noteq> []"
  by (simp_all add: fc_begin_def fc_emit_def fc_log_def fc_do_def Let_def)

lemma books_block: "fc_books c \<Longrightarrow> fc_books (snd (fc_block c))"
  by (auto simp: fc_block_def fc_books_def fc_emit_def split: option.split prod.split)

lemma books_auto: "fc_books c \<Longrightarrow> fc_books (snd (beginAutoCompaction ev now b c))"
  using books_begin [of c ev now True Src_auto None]
  by (auto simp: beginAutoCompaction_def split: prod.split option.split)

lemma books_check: "fc_books c \<Longrightarrow> fc_books (snd (checkAutoCompaction ev now b c))"
  by (simp add: checkAutoCompaction_def books_auto)

lemma books_before: "fc_books c \<Longrightarrow> fc_books (snd (compaction_beforeStep ev now c))"
  using books_check [of c ev now True] books_block
  by (auto simp: compaction_beforeStep_def split: prod.split sum.split) (metis snd_conv)

lemma books_after: "fc_books c \<Longrightarrow> fc_books (snd (compaction_afterStep ev now c))"
  using books_check [of "c\<lparr>fc_overflows := 0\<rparr>" ev now False] books_same [of c "c\<lparr>fc_overflows := 0\<rparr>"]
  by (auto simp: compaction_afterStep_def Let_def split: prod.split sum.split)

lemma books_overflow: "fc_books c \<Longrightarrow> fc_books (snd (handleOverflowError ev now e c))"
proof -
  assume "fc_books c"
  define c1 where "c1 = c\<lparr>fc_overflows := fc_overflows c + 1\<rparr>"
  have c1: "fc_books c1" by (rule books_same [OF \<open>fc_books c\<close>]) (simp_all add: c1_def)
  obtain r c2 where r: "beginAutoCompaction ev now True c1 = (r, c2)" by force
  have c2: "fc_books c2" using books_auto [OF c1, of ev now True] r by simp
  have "snd (handleOverflowError ev now e c) \<in> {c1, c2, snd (fc_block c2)}"
    unfolding handleOverflowError_def Let_def c1_def [symmetric] r
    by (cases r) (auto split: prod.split)
  then show ?thesis using c1 c2 books_block [OF c2] by auto
qed

lemma books_turn_aborted: "fc_books c \<Longrightarrow> fc_books (foldl (\<lambda>c v. turn_aborted v c) c vs)"
  by (induction vs arbitrary: c) (simp_all add: turn_aborted_def)

section \<open>The end of a worker\<close>

lemma finishes_ends: "prefix (fc_calls c) (fc_calls c1) \<Longrightarrow> finishes_compaction c (worker_ends v c1)"
  by (auto simp: finishes_compaction_def worker_ends_def fc_do_def elim: prefixE)

lemma calls_ends: "prefix (fc_calls c) (fc_calls c1) \<Longrightarrow> prefix (fc_calls c) (fc_calls (worker_ends v c1))"
  by (simp add: worker_ends_def fc_do_def prefix_prefix)

lemma accounted_ends: "prefix (fc_calls c) (fc_calls c1) \<Longrightarrow> accounted c (worker_ends v c1)"
  by (simp add: accounted_def finishes_ends calls_ends)

lemma accounted_kept:
  "prefix (fc_calls c) (fc_calls c') \<Longrightarrow> (fc_workers c \<noteq> [] \<Longrightarrow> fc_workers c' \<noteq> []) \<Longrightarrow> accounted c c'"
  by (simp add: accounted_def)

lemma accounted_do:
  "prefix (fc_calls c) (fc_calls c') \<Longrightarrow> fc_workers c' \<noteq> [] \<Longrightarrow> accounted c (fc_do k c')"
  by (simp add: accounted_def fc_do_def prefix_prefix)

lemma accounted_refl [simp]: "accounted c c"
  by (simp add: accounted_def)

lemma books_ends_none: "fc_compacting c = None \<Longrightarrow> fc_books (worker_ends v c)"
  by (rule books_none) (simp add: worker_ends_def fc_do_def)

lemma books_ends_aborted: "fc_books c \<Longrightarrow> aborted_in c v \<Longrightarrow> fc_books (worker_ends v c)"
  by (auto simp: fc_books_def worker_ends_def fc_do_def aborted_in_def split: option.splits)

lemma worker_catches_ok:
  assumes "fc_books c" and "is_abort e \<Longrightarrow> aborted_in c v" and "prefix (fc_calls a) (fc_calls c)"
  shows "fc_books (worker_catches v e c)" and "accounted a (worker_catches v e c)"
proof -
  have p: "prefix (fc_calls a) (fc_calls c @ [x])" for x using assms(3) by (simp add: prefix_prefix)
  have "fc_books (worker_catches v e c) \<and> accounted a (worker_catches v e c)"
  proof (cases "is_abort e")
    case True
    then show ?thesis
      using assms by (simp add: worker_catches_def books_ends_aborted accounted_ends)
  next
    case False
    then show ?thesis
      using assms(3) p by (auto simp: worker_catches_def Let_def fc_do_def fc_emit_def
          intro!: accounted_ends books_ends_none)
  qed
  then show "fc_books (worker_catches v e c)" "accounted a (worker_catches v e c)" by auto
qed

lemma round_catches_ok:
  assumes "fc_books c" and "is_abort e \<Longrightarrow> aborted_in c v" and "prefix (fc_calls a) (fc_calls c)"
  shows "fc_books (round_catches v e c)" and "accounted a (round_catches v e c)"
proof -
  note w = worker_catches_ok [OF assms(1) _ assms(3)]
  have k: "\<not> is_abort (KimiError x m d)" for x m d by (simp add: is_abort_def)
  have "fc_books (round_catches v e c) \<and> accounted a (round_catches v e c)"
  proof (cases "is_abort e")
    case True
    then show ?thesis
      using assms by (simp add: round_catches_def books_ends_aborted accounted_ends)
  next
    case False
    then show ?thesis
      using w [of e v] w [of "KimiError EC_COMPACTION_FAILED (err_string e) None" v] k
      by (simp add: round_catches_def)
  qed
  then show "fc_books (round_catches v e c)" "accounted a (round_catches v e c)" by auto
qed

section \<open>Answers to a worker\<close>

lemma aborted_frame [simp]: "aborted_in (c\<lparr>fc_context := x\<rparr>) v = aborted_in c v"
  by (simp add: aborted_in_def)

lemma send_ok:
  assumes "fc_books c" and "prefix (fc_calls a) (fc_calls c)" and "fc_workers c \<noteq> []"
  shows "fc_books (send_summary_request ev micro instr v sl c)"
    and "accounted a (send_summary_request ev micro instr v sl c)"
proof -
  obtain r c1 where r: "send_request ev micro instr sl (fc_context c) = (r, c1)" by force
  have n: "\<not> is_abort (projection_thrown x)" for x
    by (simp add: projection_thrown_def is_abort_def split: projection_error.split)
  have "fc_books (send_summary_request ev micro instr v sl c) \<and>
    accounted a (send_summary_request ev micro instr v sl c)"
  proof (cases r)
    case (Inl e)
    then show ?thesis
      using assms n round_catches_ok [of "c\<lparr>fc_context := c1\<rparr>" "projection_thrown e" v a]
      by (simp add: send_summary_request_def r)
  next
    case (Inr x)
    then show ?thesis
      using assms books_phase [of "c\<lparr>fc_context := c1\<rparr>"]
      by (cases x) (simp add: send_summary_request_def r accounted_do)
  qed
  then show "fc_books (send_summary_request ev micro instr v sl c)"
    "accounted a (send_summary_request ev micro instr v sl c)" by auto
qed

lemma pre_hook_ok:
  assumes "fc_books c" and "\<And>x. e = Some x \<or> setup = Some x \<Longrightarrow> is_abort x \<Longrightarrow> aborted_in c v"
  shows "fc_books (pre_hook_returned ev micro instr e setup v c)"
    and "accounted c (pre_hook_returned ev micro instr e setup v c)"
proof -
  have "fc_books (pre_hook_returned ev micro instr e setup v c) \<and>
    accounted c (pre_hook_returned ev micro instr e setup v c)"
  proof (cases "map_get (fc_workers c) v")
    case (Some k)
    then have ne: "fc_workers c \<noteq> []" by auto
    have ab: "cw_aborted k \<Longrightarrow> aborted_in c v" using Some by (simp add: aborted_in_def)
    have R: "fc_books (round_catches v x c) \<and> accounted c (round_catches v x c)"
      if "is_abort x \<Longrightarrow> aborted_in c v" for x
      by (intro conjI round_catches_ok assms(1)) (auto intro: that)
    have R': "fc_books (round_catches v x c) \<and> accounted c (round_catches v x c)"
      if "e = Some x \<or> setup = Some x \<or> cw_aborted k" for x
      by (rule R) (use that assms(2) ab in blast)
    show ?thesis
      using assms(1) R' send_ok [OF assms(1) _ ne, of c]
      by (cases e; cases "setup"; cases "cw_aborted k") (simp_all add: pre_hook_returned_def Some)
  qed (simp add: pre_hook_returned_def assms(1))
  then show "fc_books (pre_hook_returned ev micro instr e setup v c)"
    "accounted c (pre_hook_returned ev micro instr e setup v c)" by auto
qed

lemma slept_ok:
  assumes "fc_books c" and "\<And>x. e = Some x \<Longrightarrow> is_abort x \<Longrightarrow> aborted_in c v"
  shows "fc_books (slept ev micro instr e v c)" and "accounted c (slept ev micro instr e v c)"
proof -
  have "fc_books (slept ev micro instr e v c) \<and> accounted c (slept ev micro instr e v c)"
  proof (cases "map_get (fc_workers c) v")
    case (Some k)
    then have ne: "fc_workers c \<noteq> []" by auto
    show ?thesis
      using assms send_ok [OF assms(1) _ ne, of c] round_catches_ok [OF assms(1), of _ v c]
      by (auto simp: slept_def Some split: option.split worker_phase.split)
  qed (simp add: slept_def assms(1))
  then show "fc_books (slept ev micro instr e v c)" "accounted c (slept ev micro instr e v c)" by auto
qed

lemma failed_summary:
  "summary_step ev out obs sl = (Summary_failed e, obs1, sl1) \<Longrightarrow> is_abort e \<Longrightarrow> out = Inl e"
  by (auto simp: summary_step_def answer_def after_error_def Let_def is_abort_def CompactionTruncatedError_def
      extractCompactionSummary_def split: sum.splits if_splits)

lemma summarised_ok:
  assumes "fc_books c" and "prefix (fc_calls a) (fc_calls c)" and "fc_workers c \<noteq> []"
  shows "fc_books (round_summarised now pt todos t n v k c)"
    and "accounted a (round_summarised now pt todos t n v k c)"
proof -
  define input where "input = \<lparr>ci_summary = postProcessSummary todos t,
     ci_contextSummary = Some (buildCompactionSummaryText pt (postProcessSummary todos t)),
     ci_compactedCount = length (cw_original k), ci_tokensBefore = int (cw_tokensBefore k), ci_tokensAfter = None,
     ci_keptUserMessageCount = None, ci_droppedCount = (if n = 0 then None else Some n)\<rparr>"
  obtain r c1 where r: "applyCompaction now input (fc_context c) = (r, c1)" by force
  let ?c = "c\<lparr>fc_context := c1, fc_lastCompacted := Some (cr_tokensAfter r)\<rparr>"
  have b: "fc_books (put_phase v (W_refreshing r) ?c)"
    by (rule books_phase) (rule books_same [OF assms(1)], simp_all)
  have "round_summarised now pt todos t n v k c \<in> {worker_ends v (fc_cancel c),
      fc_do (FC_refreshSystemPrompt v) (put_phase v (W_refreshing r) ?c)}"
    unfolding round_summarised_def Let_def input_def [symmetric] r by simp
  moreover have "fc_books (worker_ends v (fc_cancel c))" "accounted a (worker_ends v (fc_cancel c))"
    using assms(2) by (auto intro!: books_ends_none accounted_ends)
  moreover have "accounted a (fc_do (FC_refreshSystemPrompt v) (put_phase v (W_refreshing r) ?c))"
    using assms(2,3) by (intro accounted_kept) (simp_all add: fc_do_def prefix_prefix)
  ultimately show "fc_books (round_summarised now pt todos t n v k c)"
    "accounted a (round_summarised now pt todos t n v k c)" using b by auto
qed

lemma generate_ok:
  assumes "fc_books c" and "\<And>x. out = Inl x \<Longrightarrow> is_abort x \<Longrightarrow> aborted_in c v"
  shows "fc_books (generate_returned ev now micro instr pt todos out v c)"
    and "accounted c (generate_returned ev now micro instr pt todos out v c)"
proof -
  have "fc_books (generate_returned ev now micro instr pt todos out v c) \<and>
    accounted c (generate_returned ev now micro instr pt todos out v c)"
  proof (cases "map_get (fc_workers c) v")
    case (Some k)
    then have ne: "fc_workers c \<noteq> []" by auto
    show ?thesis
    proof (cases "cw_phase k")
      case (W_generating sl)
      obtain x ob sl1 where x: "summary_step ev out (fc_observed c) sl = (x, ob, sl1)" by (metis prod_cases3)
      have ab: "aborted_in (c\<lparr>fc_observed := ob\<rparr>) v = aborted_in c v" by (simp add: aborted_in_def)
      show ?thesis
      proof (cases x)
        case Send_again
        then show ?thesis
          using send_ok [of "c\<lparr>fc_observed := ob\<rparr>" c] assms(1) ne
          by (simp add: generate_returned_def Some W_generating x)
      next
        case Wait_and_send
        then show ?thesis
          using books_phase [of "c\<lparr>fc_observed := ob\<rparr>"] assms(1)
          by (simp add: generate_returned_def Some W_generating x accounted_kept)
      next
        case (Summary_failed e)
        then have "is_abort e \<Longrightarrow> aborted_in c v" using failed_summary x assms(2) by blast
        then show ?thesis
          using round_catches_ok [of "c\<lparr>fc_observed := ob\<rparr>" e v c] assms(1) ab
          by (simp add: generate_returned_def Some W_generating x Summary_failed)
      next
        case (Summarised t u)
        then show ?thesis
          using summarised_ok [of "case u of None \<Rightarrow> c | Some y \<Rightarrow> fc_do (FC_usage_record y) c" c] assms(1) ne
          by (cases u) (simp_all add: generate_returned_def Some W_generating x fc_do_def prefix_prefix,
              metis books_frame(3) fc_do_def)
      qed
    qed (simp_all add: generate_returned_def Some assms(1))
  qed (simp add: generate_returned_def assms(1))
  then show "fc_books (generate_returned ev now micro instr pt todos out v c)"
    "accounted c (generate_returned ev now micro instr pt todos out v c)" by auto
qed

lemma refreshed_ok:
  assumes "fc_books c"
  shows "fc_books (refreshed v c)" and "accounted c (refreshed v c)"
  using assms
  by (auto simp: refreshed_def fc_do_def prefix_prefix split: option.split worker_phase.split
      intro!: accounted_kept intro: books_same [OF books_phase])

lemma reinjected_ok:
  assumes "fc_books c" and "\<And>x. e = Some x \<Longrightarrow> is_abort x \<Longrightarrow> aborted_in c v"
  shows "fc_books (reinjected e v c)" and "accounted c (reinjected e v c)"
proof -
  have m: "fc_books (worker_ends v (fc_do x (fc_emit y (markCompleted c)))) \<and>
      accounted c (worker_ends v (fc_do x (fc_emit y (markCompleted c))))" for x y
    by (auto simp: markCompleted_def fc_log_def fc_emit_def fc_do_def prefix_prefix
        intro!: books_ends_none accounted_ends)
  have "fc_books (reinjected e v c) \<and> accounted c (reinjected e v c)"
    using assms worker_catches_ok [OF assms(1), of _ v c] m
    by (auto simp: reinjected_def split: option.split worker_phase.split)
  then show "fc_books (reinjected e v c)" "accounted c (reinjected e v c)" by auto
qed

end
