(* ===== verification/Turn_Refinement.thy ===== *)
theory Turn_Refinement
  imports Turn_Books
begin

text \<open>
  The turn driver is the machine of \<open>Turn_Spec\<close>. The stage of the machine is read off the one worker
  there is; every operation of the driver and every answer of the world is a sequence of its moves,
  labelled with the inputs the operation hands over or drops.
\<close>

section \<open>Reading the driver\<close>

definition used :: "step_loop \<Rightarrow> nat \<times> bool" where
  "used sl = (sp_outputLimit sl, sp_stopHookUsed sl)"

lemma used_simps [simp]:
  "used (sl\<lparr>sp_stopForGoalBudget := b\<rparr>) = used sl" "used (sl\<lparr>sp_goalOutcomeUsed := b\<rparr>) = used sl"
  "used fresh_loop = (0, False)"
  by (simp_all add: used_def fresh_loop_def)

definition stage_of :: "turn_worker \<Rightarrow> turn_stage" where
  "stage_of w =
     (case tw_phase w of
        TP_counting \<Rightarrow> Pending \<lparr>bs_input = tw_input w, bs_origin = tw_origin w\<rparr>
      | TP_blocking \<Rightarrow> Pending \<lparr>bs_input = tw_input w, bs_origin = tw_origin w\<rparr>
      | TP_stopping \<Rightarrow> Closed
      | TP_loop sl \<Rightarrow> Open (used sl)
      | TP_waiting v sl \<Rightarrow> Open (used sl)
      | TP_stopHook sl \<Rightarrow> Open (used sl)
      | TP_overflow v sl \<Rightarrow> Open (used sl)
      | _ \<Rightarrow> Open (0, False))"

definition spec_of :: "driver_view \<Rightarrow> turn_spec" where
  "spec_of v = \<lparr>ts_buffer = dv_buffer v, ts_stage = (case dv_workers v of [] \<Rightarrow> Idle | kw # kws \<Rightarrow> stage_of (snd kw)),
     ts_turnId = dv_turnId v, ts_out = dv_out v, ts_holding = (dv_compactions v \<noteq> [])\<rparr>"

definition books_ok :: "driver_view \<Rightarrow> bool" where
  "books_ok v \<longleftrightarrow> (\<forall>k b. dv_compacting v = Some (k, b) \<longrightarrow>
     (\<exists>c. map_get (dv_compactions v) k = Some c \<and> \<not> cw_aborted c))"

text \<open>The Stop hook is asked only once a turn.\<close>

definition phase_ok :: "turn_phase \<Rightarrow> bool" where
  "phase_ok ph = (case ph of TP_stopHook sl \<Rightarrow> \<not> sp_stopHookUsed sl | _ \<Rightarrow> True)"

lemma phase_ok_simps [simp]:
  "phase_ok TP_counting" "phase_ok TP_blocking" "phase_ok TP_promptHook" "phase_ok TP_loading"
  "phase_ok (TP_loop sl)" "phase_ok (TP_waiting v sl)" "phase_ok (TP_overflow v sl)" "phase_ok TP_stopping"
  "phase_ok (TP_stopHook sl) = (\<not> sp_stopHookUsed sl)"
  by (simp_all add: phase_ok_def)

text \<open>At most one worker, and it is the active turn.\<close>

definition one_turn :: "driver_view \<Rightarrow> bool" where
  "one_turn v \<longleftrightarrow>
     (case dv_active v of
        No_turn \<Rightarrow> dv_workers v = []
      | Resuming \<Rightarrow> False
      | Active k \<Rightarrow> k < dv_next v \<and> (\<exists>w. dv_workers v = [(k, w)] \<and> tw_turnId w = dv_turnId v
                        \<and> phase_ok (tw_phase w)))"

lemma books_view [simp]: "books_ok (view s) = fc_books (tf_compaction s)"
  by (simp add: books_ok_def fc_books_def)

lemma books_update [simp]:
  "books_ok (v\<lparr>dv_buffer := b\<rparr>) = books_ok v" "books_ok (v\<lparr>dv_active := a\<rparr>) = books_ok v"
  "books_ok (v\<lparr>dv_workers := ws\<rparr>) = books_ok v" "books_ok (v\<lparr>dv_next := n\<rparr>) = books_ok v"
  "books_ok (v\<lparr>dv_turnId := i\<rparr>) = books_ok v" "books_ok (v\<lparr>dv_out := xs\<rparr>) = books_ok v"
  "books_ok (v\<lparr>dv_gate := g\<rparr>) = books_ok v"
  "books_ok (v\<lparr>dv_compactions := fc_workers c, dv_compacting := fc_compacting c\<rparr>) = fc_books c"
  by (simp_all add: books_ok_def fc_books_def)

definition sound :: "TurnFlow \<Rightarrow> bool" where
  "sound s \<longleftrightarrow> one_turn (view s) \<and> books_ok (view s)"

definition reaches :: "turn_spec \<Rightarrow> TurnFlow \<Rightarrow> bool" where
  "reaches d t \<longleftrightarrow> sound t \<and> spec_moves d [] [] (spec_of (view t))"

text \<open>The machine as the driver stands, but in the given stage.\<close>

definition at_stage :: "turn_stage \<Rightarrow> TurnFlow \<Rightarrow> turn_spec" where
  "at_stage st s = (spec_of (view s))\<lparr>ts_stage := st\<rparr>"

lemma at_stage_simps [simp]:
  "ts_stage (at_stage st s) = st" "ts_buffer (at_stage st s) = tf_steerBuffer s"
  "ts_turnId (at_stage st s) = tf_turnId s" "ts_out (at_stage st s) = tf_out s"
  "ts_holding (at_stage st s) = (fc_workers (tf_compaction s) \<noteq> [])"
  by (simp_all add: at_stage_def spec_of_def)

lemma spec_eqI:
  fixes d e :: turn_spec
  assumes "ts_buffer d = ts_buffer e" "ts_stage d = ts_stage e" "ts_turnId d = ts_turnId e"
    "ts_out d = ts_out e" "ts_holding d = ts_holding e"
  shows "d = e"
  using assms by simp

lemma spec_simps [simp]:
  "ts_buffer (spec_of v) = dv_buffer v" "ts_turnId (spec_of v) = dv_turnId v" "ts_out (spec_of v) = dv_out v"
  "ts_holding (spec_of v) = (dv_compactions v \<noteq> [])"
  "dv_workers v = [] \<Longrightarrow> ts_stage (spec_of v) = Idle"
  "dv_workers v = [(k, w)] \<Longrightarrow> ts_stage (spec_of v) = stage_of w"
  by (simp_all add: spec_of_def)

lemma spec_at_stage:
  "tf_workers s = [] \<Longrightarrow> spec_of (view s) = at_stage Idle s"
  "tf_workers s = [(k, w)] \<Longrightarrow> spec_of (view s) = at_stage (stage_of w) s"
  by (auto intro!: spec_eqI)

lemma reaches_via: "spec_moves d [] [] e \<Longrightarrow> reaches e t \<Longrightarrow> reaches d t"
  using silent_trans by (auto simp: reaches_def)

definition holds_turn :: "nat \<Rightarrow> TurnFlow \<Rightarrow> bool" where
  "holds_turn k s \<longleftrightarrow> tf_activeTurn s = Active k \<and> k < tf_nextSignal s \<and> (\<exists>w. tf_workers s = [(k, w)])
     \<and> books_ok (view s)"

text \<open>Two states the driver cannot tell apart.\<close>

lemma alike:
  assumes "view s = view t"
  shows "sound s = sound t" "at_stage st s = at_stage st t" "holds_turn k s = holds_turn k t"
proof -
  have "tf_activeTurn s = tf_activeTurn t" "tf_nextSignal s = tf_nextSignal t" "tf_workers s = tf_workers t"
    using assms by (metis view_fields(2), metis view_fields(4), metis view_fields(3))
  then show "sound s = sound t" "at_stage st s = at_stage st t" "holds_turn k s = holds_turn k t"
    by (simp_all add: sound_def at_stage_def holds_turn_def assms)
qed

section \<open>Launching\<close>

lemma begun_moves:
  assumes "begun i b w xs" and "ts_stage d = Pending b" and "ts_turnId d = i"
  shows "spec_moves d [] [] (d\<lparr>ts_stage := stage_of w, ts_out := ts_out d @ xs\<rparr>)"
proof (cases "tw_phase w \<in> waiting_phases")
  case True
  then have "stage_of w = Pending b" "xs = []"
    using assms(1) by (auto simp: begun_def stage_of_def waiting_phases_def entry_phases_def)
  then have "d\<lparr>ts_stage := stage_of w, ts_out := ts_out d @ xs\<rparr> = d" using assms(2) by (intro spec_eqI) simp_all
  then show ?thesis by (simp only: spec_moves.none)
next
  case False
  then have o: "stage_of w = Open (0, False)"
    using assms(1) by (auto simp: begun_def stage_of_def entry_phases_def)
  obtain x where x: "quiet x"
    "xs = [TO_usage_begin, TO_started i (bs_origin b), TO_user_message (bs_input b) (bs_origin b), x]"
    using assms(1) False by (auto simp: begun_def)
  let ?d1 = "d\<lparr>ts_out := ts_out d @ [TO_usage_begin]\<rparr>"
  let ?d2 = "?d1\<lparr>ts_stage := Open (0, False), ts_out := ts_out ?d1 @ [TO_started (ts_turnId ?d1) (bs_origin b), message b]\<rparr>"
  have "spec_moves d [] [] ?d1" by (rule says) (simp add: quiet_def)
  moreover have "spec_moves ?d1 [] [] ?d2"
    by (intro one_move spec_move.opens) (simp add: assms(2))
  moreover have "spec_moves ?d2 [] [] (?d2\<lparr>ts_out := ts_out ?d2 @ [x]\<rparr>)" by (rule says) (simp add: x(1))
  moreover have "?d2\<lparr>ts_out := ts_out ?d2 @ [x]\<rparr> = d\<lparr>ts_stage := stage_of w, ts_out := ts_out d @ xs\<rparr>"
    by (intro spec_eqI) (simp_all add: o x(2) assms(3) message_def)
  ultimately show ?thesis by (metis silent_trans)
qed

text \<open>A launch out of rest: the machine takes the input \<open>b\<close> by some move, then begins.\<close>

lemma launched:
  fixes s :: TurnFlow
  assumes "begun (tf_turnId s + 1) b w xs" and "books_ok (view s)"
    and "view t = (view s)\<lparr>dv_buffer := bs, dv_active := Active n, dv_next := n + 1, dv_turnId := tf_turnId s + 1,
        dv_workers := [(n, w)], dv_out := tf_out s @ xs @ ys, dv_gate := g\<rparr>"
    and "spec_move d i o1 ((at_stage (Pending b) s)\<lparr>ts_buffer := bs, ts_turnId := tf_turnId s + 1\<rparr>)"
    and "list_all quiet ys"
  shows "sound t" and "spec_moves d i o1 (spec_of (view t))"
proof -
  let ?e = "(at_stage (Pending b) s)\<lparr>ts_buffer := bs, ts_turnId := tf_turnId s + 1\<rparr>"
  let ?f = "?e\<lparr>ts_stage := stage_of w, ts_out := ts_out ?e @ xs\<rparr>"
  have "tw_turnId w = tf_turnId s + 1 \<and> phase_ok (tw_phase w)"
    using assms(1) by (auto simp: begun_def waiting_phases_def entry_phases_def)
  then show "sound t" using assms(2) unfolding sound_def assms(3) by (simp add: one_turn_def)
  have "spec_moves ?e [] [] ?f" by (rule begun_moves [OF assms(1)]) simp_all
  then have "spec_moves ?e [] [] (?f\<lparr>ts_out := ts_out ?f @ ys\<rparr>)" by (rule silent_trans) (rule says [OF assms(5)])
  moreover have "?f\<lparr>ts_out := ts_out ?f @ ys\<rparr> = spec_of (view t)"
    unfolding assms(3) by (intro spec_eqI) simp_all
  ultimately show "spec_moves d i o1 (spec_of (view t))"
    using trans_silent [OF one_move [OF assms(4)]] by simp
qed

lemma buffered_cases:
  fixes s :: TurnFlow
  assumes "tf_activeTurn s = No_turn"
  shows "launchBufferedSteerIfIdle E now s = s \<and> (isCompacting (tf_compaction s) \<or> tf_steerBuffer s = [])
    \<or> (\<exists>b bs w xs g. \<not> isCompacting (tf_compaction s) \<and> tf_steerBuffer s = b # bs
        \<and> begun (tf_turnId s + 1) b w xs \<and> (xs \<noteq> [] \<longrightarrow> \<not> g)
        \<and> view (launchBufferedSteerIfIdle E now s) = (view s)\<lparr>dv_buffer := bs, dv_active := Active (tf_nextSignal s),
            dv_next := tf_nextSignal s + 1, dv_turnId := tf_turnId s + 1,
            dv_workers := map_put (tf_nextSignal s) w (tf_workers s), dv_out := tf_out s @ xs, dv_gate := g\<rparr>)"
proof (cases "isCompacting (tf_compaction s) \<or> tf_steerBuffer s = []")
  case True
  then show ?thesis using assms by (auto simp: launchBufferedSteerIfIdle_def split: list.split)
next
  case False
  then obtain b bs where b: "tf_steerBuffer s = b # bs" by (cases "tf_steerBuffer s") auto
  let ?s = "s\<lparr>tf_steerBuffer := bs\<rparr>"
  have l: "launchBufferedSteerIfIdle E now s = snd (launch E now (bs_input b) (bs_origin b) ?s)"
    using assms False b by (simp add: launchBufferedSteerIfIdle_def)
  obtain w xs g where w: "begun (tf_turnId s + 1) b w xs" "xs \<noteq> [] \<longrightarrow> \<not> g"
    "view (snd (launch E now (bs_input b) (bs_origin b) ?s)) = (view ?s)\<lparr>dv_active := Active (tf_nextSignal s),
      dv_next := tf_nextSignal s + 1, dv_turnId := tf_turnId s + 1,
      dv_workers := map_put (tf_nextSignal s) w (tf_workers s), dv_out := tf_out s @ xs, dv_gate := g\<rparr>"
    using view_launch [of ?s "bs_input b" "bs_origin b" E now] assms False by auto
  show ?thesis
    by (rule disjI2, intro exI [of _ b] exI [of _ bs] exI [of _ w] exI [of _ xs] exI [of _ g])
      (use False b w l in simp)
qed

lemma buffered_worker:
  fixes s :: TurnFlow
  assumes "tf_activeTurn s = No_turn" and t: "t = launchBufferedSteerIfIdle E now s"
  shows "t = s \<or> tf_activeTurn t = Active (tf_nextSignal s)
    \<and> (\<exists>w. tf_workers t = map_put (tf_nextSignal s) w (tf_workers s))"
proof -
  consider "t = s" | (go) bs w xs g where
    "view t = (view s)\<lparr>dv_buffer := bs, dv_active := Active (tf_nextSignal s),
            dv_next := tf_nextSignal s + 1, dv_turnId := tf_turnId s + 1,
            dv_workers := map_put (tf_nextSignal s) w (tf_workers s), dv_out := tf_out s @ xs, dv_gate := g\<rparr>"
    using buffered_cases [OF assms(1), of E now] unfolding t by fastforce
  then show ?thesis
  proof cases
    case (go bs w xs g)
    from arg_cong [OF go, of dv_active] arg_cong [OF go, of dv_workers] show ?thesis by auto
  qed simp
qed

text \<open>The books tell whether a compaction is at work.\<close>

lemma compacting_holds: "books_ok (view s) \<Longrightarrow> isCompacting (tf_compaction s) \<Longrightarrow> fc_workers (tf_compaction s) \<noteq> []"
  by (auto simp: fc_books_def isCompacting_def)

text \<open>The worker lets go; what is buffered is launched, or there is nothing to do. The old worker may
  be taken out of the list after that, with some more output.\<close>

lemma settle:
  fixes s :: TurnFlow
  assumes "tf_activeTurn s = No_turn" and "map_remove k (tf_workers s) = []" and "k \<noteq> tf_nextSignal s"
    and "books_ok (view s)" and t: "t = launchBufferedSteerIfIdle E now s"
    and u: "view u = (view t)\<lparr>dv_workers := map_remove k (tf_workers t), dv_out := tf_out t @ ys, dv_gate := h\<rparr>"
    and "list_all quiet ys"
  shows "reaches (at_stage Closed s) u"
proof -
  consider (stay) "t = s" "isCompacting (tf_compaction s) \<or> tf_steerBuffer s = []"
    | (go) b bs w xs g where "tf_steerBuffer s = b # bs" "begun (tf_turnId s + 1) b w xs"
    "view t = (view s)\<lparr>dv_buffer := bs, dv_active := Active (tf_nextSignal s),
            dv_next := tf_nextSignal s + 1, dv_turnId := tf_turnId s + 1,
            dv_workers := map_put (tf_nextSignal s) w (tf_workers s), dv_out := tf_out s @ xs, dv_gate := g\<rparr>"
    using buffered_cases [OF assms(1), of E now] unfolding t by blast
  then show ?thesis
  proof cases
    case stay
    let ?d = "at_stage Closed s"
    have m: "spec_move ?d [] [] (?d\<lparr>ts_stage := Idle\<rparr>)"
      by (rule spec_move.rests) (use stay compacting_holds assms(4) in auto)
    have v: "view u = (view s)\<lparr>dv_workers := [], dv_out := tf_out s @ ys, dv_gate := h\<rparr>"
      using u assms(2) by (simp add: stay(1))
    have "spec_moves (?d\<lparr>ts_stage := Idle\<rparr>) [] [] (?d\<lparr>ts_stage := Idle, ts_out := tf_out s @ ys\<rparr>)"
      using says [OF assms(7), of "?d\<lparr>ts_stage := Idle\<rparr>"] by simp
    moreover have "?d\<lparr>ts_stage := Idle, ts_out := tf_out s @ ys\<rparr> = spec_of (view u)"
      unfolding v by (intro spec_eqI) simp_all
    moreover have "sound u" using assms(1,4) unfolding sound_def v by (simp add: one_turn_def)
    ultimately show ?thesis using silent_trans [OF one_move [OF m]] by (simp add: reaches_def)
  next
    case (go b bs w xs g)
    have "spec_move (at_stage Closed s) [] [] ((at_stage Closed s)\<lparr>ts_buffer := bs, ts_stage := Pending b,
        ts_turnId := ts_turnId (at_stage Closed s) + 1\<rparr>)"
      by (rule spec_move.fetch) (simp_all add: go(1))
    moreover have "(at_stage Closed s)\<lparr>ts_buffer := bs, ts_stage := Pending b,
          ts_turnId := ts_turnId (at_stage Closed s) + 1\<rparr>
        = (at_stage (Pending b) s)\<lparr>ts_buffer := bs, ts_turnId := tf_turnId s + 1\<rparr>"
      by (intro spec_eqI) simp_all
    ultimately have m: "spec_move (at_stage Closed s) [] []
        ((at_stage (Pending b) s)\<lparr>ts_buffer := bs, ts_turnId := tf_turnId s + 1\<rparr>)" by (simp only:)
    have "map_remove k (map_put (tf_nextSignal s) w (tf_workers s)) = [(tf_nextSignal s, w)]"
      using assms(2,3) by (simp add: AList.delete_update)
    moreover have "tf_workers t = map_put (tf_nextSignal s) w (tf_workers s)" "tf_out t = tf_out s @ xs"
      using arg_cong [OF go(3), of dv_workers] arg_cong [OF go(3), of dv_out] by simp_all
    ultimately have v: "view u = (view s)\<lparr>dv_buffer := bs, dv_active := Active (tf_nextSignal s),
            dv_next := tf_nextSignal s + 1, dv_turnId := tf_turnId s + 1,
            dv_workers := [(tf_nextSignal s, w)], dv_out := tf_out s @ xs @ ys, dv_gate := h\<rparr>"
      by (simp add: u go(3))
    show ?thesis unfolding reaches_def using launched [OF go(2) assms(4) v m assms(7)] by simp
  qed
qed

section \<open>Letting go and going on\<close>

lemma finishes_sim:
  assumes "holds_turn k s"
  shows "reaches (at_stage Closed s) (worker_finishes E now k s)"
proof -
  obtain w where w: "tf_activeTurn s = Active k" "tf_workers s = [(k, w)]" using assms by (auto simp: holds_turn_def)
  let ?s = "s\<lparr>tf_workers := [], tf_activeTurn := No_turn\<rparr>"
  have f: "worker_finishes E now k s = launchBufferedSteerIfIdle E now ?s"
    by (simp add: worker_finishes_def Let_def w)
  let ?t = "launchBufferedSteerIfIdle E now ?s"
  have k: "k < tf_nextSignal s" and b: "fc_books (tf_compaction s)" using assms by (simp_all add: holds_turn_def)
  have "map_remove k (tf_workers ?t) = tf_workers ?t"
    using buffered_worker [of ?s ?t E now] k by auto
  then have v: "view ?t = (view ?t)\<lparr>dv_workers := map_remove k (tf_workers ?t), dv_out := tf_out ?t @ [],
      dv_gate := nt_pendingGate (tf_nori ?t)\<rparr>" by (simp add: view_def)
  have "reaches (at_stage Closed ?s) ?t"
    by (rule settle [where k = k, OF _ _ _ _ refl v]) (use k b in simp_all)
  moreover have "at_stage Closed ?s = at_stage Closed s" by (intro spec_eqI) simp_all
  ultimately show ?thesis by (simp add: f)
qed

text \<open>A worker that is put back in some phase, with new output.\<close>

lemma phase_sim:
  assumes "holds_turn k s" and "tw_turnId w = tf_turnId s" and "stage_of (w\<lparr>tw_phase := ph\<rparr>) = st \<and> phase_ok ph"
  shows "reaches (at_stage st s) (set_phase k w ph s)"
proof -
  obtain w0 where "tf_workers s = [(k, w0)]" using assms(1) by (auto simp: holds_turn_def)
  then have v: "view (set_phase k w ph s) = (view s)\<lparr>dv_workers := [(k, w\<lparr>tw_phase := ph\<rparr>)]\<rparr>" by simp
  have "sound (set_phase k w ph s)"
    using assms unfolding sound_def v by (simp add: one_turn_def holds_turn_def)
  moreover have "spec_of (view (set_phase k w ph s)) = at_stage st s"
    unfolding v by (intro spec_eqI) (simp_all add: assms(3))
  ultimately show ?thesis by (simp add: reaches_def spec_moves.none)
qed

lemma holds_frame [simp]:
  "holds_turn k (tf_do x s) = holds_turn k s" "holds_turn k (append_user now i og s) = holds_turn k s"
  "holds_turn k (on_conversation f s) = holds_turn k s" "holds_turn k (on_goal g s) = holds_turn k s"
  "holds_turn k (clearGoalBackgroundIdleWake s) = holds_turn k s"
  "holds_turn k (armGoalBackgroundIdleWake E s) = holds_turn k s"
  "holds_turn k (s\<lparr>tf_nori := t\<rparr>) = holds_turn k s" "holds_turn k (s\<lparr>tf_turnId := i1\<rparr>) = holds_turn k s"
  "holds_turn k (s\<lparr>tf_pendingGoalOutcome := q\<rparr>) = holds_turn k s"
  "holds_turn k (s\<lparr>tf_systemPrompt := p\<rparr>) = holds_turn k s"
  "holds_turn k (s\<lparr>tf_steerBuffer := bs\<rparr>) = holds_turn k s"
  "holds_turn k (s\<lparr>tf_goal := g1\<rparr>) = holds_turn k s"
  by (simp_all add: holds_turn_def flow_defs armGoalBackgroundIdleWake_def)

lemma id_frame [simp]:
  "tf_turnId (tf_do x s) = tf_turnId s" "tf_turnId (append_user now i og s) = tf_turnId s"
  "tf_turnId (on_conversation f s) = tf_turnId s" "tf_turnId (on_goal g s) = tf_turnId s"
  "tf_turnId (clearGoalBackgroundIdleWake s) = tf_turnId s"
  "tf_turnId (armGoalBackgroundIdleWake E s) = tf_turnId s"
  by (simp_all add: flow_defs armGoalBackgroundIdleWake_def)

lemma stage_frame [simp]:
  "at_stage st (on_goal g s) = at_stage st s" "at_stage st (on_conversation f s) = at_stage st s"
  "at_stage st (clearGoalBackgroundIdleWake s) = at_stage st s"
  "at_stage st (armGoalBackgroundIdleWake E s) = at_stage st s"
  "at_stage st (s\<lparr>tf_nori := t\<rparr>) = at_stage st s"
  "at_stage st (s\<lparr>tf_pendingGoalOutcome := q\<rparr>) = at_stage st s"
  "at_stage st (s\<lparr>tf_systemPrompt := p\<rparr>) = at_stage st s"
  "at_stage st (s\<lparr>tf_goal := g1\<rparr>) = at_stage st s"
  by (auto intro!: spec_eqI simp: flow_defs armGoalBackgroundIdleWake_def)

lemma stage_outputs:
  "at_stage st (tf_do x s) = (at_stage st s)\<lparr>ts_out := tf_out s @ [x]\<rparr>"
  "at_stage st (append_user now i og s) = (at_stage st s)\<lparr>ts_out := tf_out s @ [TO_user_message i og]\<rparr>"
  by (auto intro!: spec_eqI simp: flow_defs)

lemma say_stage: "quiet x \<Longrightarrow> spec_moves (at_stage st s) [] [] (at_stage st (tf_do x s))"
  using says [of "[x]" "at_stage st s"] by (simp add: stage_outputs)

lemma tell_stage: "inside (tf_turnId s) x \<Longrightarrow> spec_moves (at_stage (Open c) s) [] [] (at_stage (Open c) (tf_do x s))"
  using tells [of "at_stage (Open c) s" c "[x]"] by (simp add: stage_outputs)

lemma own_stage: "own_origin og \<and> og \<noteq> OUTPUT_LIMIT_ORIGIN \<and> og \<noteq> STOP_HOOK_ORIGIN \<Longrightarrow> spec_moves (at_stage (Open c) s) [] [] (at_stage (Open c) (append_user now i og s))"
  using tells [of "at_stage (Open c) s" c "[TO_user_message i og]"] by (simp add: stage_outputs)

lemma close_stage: "spec_moves (at_stage (Open c) s) [] [] (at_stage Closed (tf_do (TO_ended (tf_turnId s) r e) s))"
proof -
  have "spec_move (at_stage (Open c) s) [] [] ((at_stage (Open c) s)\<lparr>ts_stage := Closed,
      ts_out := ts_out (at_stage (Open c) s) @ [TO_ended (ts_turnId (at_stage (Open c) s)) r e]\<rparr>)"
    by (rule spec_move.closes) simp
  moreover have "(at_stage (Open c) s)\<lparr>ts_stage := Closed,
      ts_out := ts_out (at_stage (Open c) s) @ [TO_ended (ts_turnId (at_stage (Open c) s)) r e]\<rparr>
    = at_stage Closed (tf_do (TO_ended (tf_turnId s) r e) s)"
    by (intro spec_eqI) (simp_all add: stage_outputs)
  ultimately show ?thesis by (metis one_move)
qed

lemma open_stage:
  "spec_moves (at_stage (Pending \<lparr>bs_input = i, bs_origin = og\<rparr>) s) [] []
     (at_stage (Open (0, False)) (append_user now i og (tf_do (TO_started (tf_turnId s) og) s)))"
proof -
  let ?b = "\<lparr>bs_input = i, bs_origin = og\<rparr>" and ?d = "at_stage (Pending \<lparr>bs_input = i, bs_origin = og\<rparr>) s"
  have "spec_move ?d [] [] (?d\<lparr>ts_stage := Open (0, False), ts_out := ts_out ?d @ [TO_started (ts_turnId ?d) (bs_origin ?b), message ?b]\<rparr>)"
    by (rule spec_move.opens) simp
  moreover have "?d\<lparr>ts_stage := Open (0, False), ts_out := ts_out ?d @ [TO_started (ts_turnId ?d) (bs_origin ?b), message ?b]\<rparr>
    = at_stage (Open (0, False)) (append_user now i og (tf_do (TO_started (tf_turnId s) og) s))"
    by (intro spec_eqI) (simp_all add: stage_outputs message_def flow_defs)
  ultimately show ?thesis by (metis one_move)
qed

lemma continues_sim:
  assumes "holds_turn k s" and "last_end (tf_out s) = Some End_completed"
  shows "reaches (at_stage Closed s) (drive_continues E now k w s)"
proof -
  obtain w0 where w0: "tf_activeTurn s = Active k" "k < tf_nextSignal s" "tf_workers s = [(k, w0)]" "books_ok (view s)"
    using assms(1) by (auto simp: holds_turn_def)
  let ?b = "\<lparr>bs_input = [TextPart (te_goalPrompt E)], bs_origin = GOAL_CONTINUATION_ORIGIN\<rparr>"
  let ?w = "w\<lparr>tw_turnId := tf_turnId s + 1, tw_input := bs_input ?b, tw_origin := bs_origin ?b\<rparr>"
  let ?s = "s\<lparr>tf_turnId := tf_turnId s + 1\<rparr>"
  have d: "drive_continues E now k w s = drive_top now k ?w ?s"
    by (simp add: drive_continues_def allocateTurnId_def)
  obtain p where p: "p \<in> waiting_phases" "view (drive_top now k ?w ?s) = (view ?s)\<lparr>
     dv_workers := map_put k (?w\<lparr>tw_drive := True, tw_phase := p\<rparr>) (tf_workers ?s)\<rparr>"
    using view_drive_top by blast
  let ?w' = "?w\<lparr>tw_drive := True, tw_phase := p\<rparr>"
  have v: "view (drive_top now k ?w ?s) = (view s)\<lparr>dv_turnId := tf_turnId s + 1, dv_workers := [(k, ?w')]\<rparr>"
    unfolding p(2) by (simp add: w0)
  have st: "stage_of ?w' = Pending ?b" using p(1) by (auto simp: stage_of_def waiting_phases_def)
  have "spec_move (at_stage Closed s) [] [] ((at_stage Closed s)\<lparr>ts_stage := Pending ?b,
      ts_turnId := ts_turnId (at_stage Closed s) + 1\<rparr>)"
    by (rule spec_move.goes_on) (simp_all add: assms(2))
  moreover have "(at_stage Closed s)\<lparr>ts_stage := Pending ?b, ts_turnId := ts_turnId (at_stage Closed s) + 1\<rparr>
      = spec_of (view (drive_continues E now k w s))"
    unfolding d v by (intro spec_eqI) (simp_all add: st [simplified])
  moreover have "sound (drive_continues E now k w s)"
    unfolding d sound_def v using w0 p(1) by (auto simp: one_turn_def waiting_phases_def)
  ultimately show ?thesis unfolding reaches_def by (metis one_move)
qed

lemma stopping_sim:
  assumes "holds_turn k s" and "tw_turnId w = tf_turnId s"
  shows "reaches (at_stage Closed s) (set_phase k w TP_stopping (on_goal f s))"
  using phase_sim [of k "on_goal f s" w TP_stopping Closed] assms by (simp add: stage_of_def)

lemma out_frame [simp]:
  "tf_out (clearGoalBackgroundIdleWake s) = tf_out s" "tf_out (armGoalBackgroundIdleWake E s) = tf_out s"
  by (simp_all add: flow_defs armGoalBackgroundIdleWake_def)

lemma driven_sim:
  assumes "holds_turn k s" and "tw_turnId w = tf_turnId s" and "last_end (tf_out s) = Some r"
  shows "reaches (at_stage Closed s) (driveGoal_after E now k w r err blocked s)"
  using finishes_sim [of k "clearGoalBackgroundIdleWake s"] finishes_sim [of k "armGoalBackgroundIdleWake E s"]
    continues_sim [of k "clearGoalBackgroundIdleWake s"] stopping_sim [OF assms(1,2)] assms(1,3)
  by (cases r) (simp_all add: driveGoal_after_def Let_def)

section \<open>The end of a turn\<close>

lemma launch_goal:
  "\<not> goal_is_active now s \<Longrightarrow> tf_goal (snd (launch E now i og s)) = tf_goal s"
  by (auto simp: launch_def allocateTurnId_def turnWorker_def goal_is_active_def applyUserPromptHook_def
      start_step_loop_def turn_starts_def flow_defs Let_def)

lemma buffered_goal:
  assumes "\<not> goal_is_active now s"
  shows "tf_goal (launchBufferedSteerIfIdle E now s) = tf_goal s"
proof -
  have "tf_goal (snd (launch E now i og (s\<lparr>tf_steerBuffer := bs\<rparr>))) = tf_goal s" for i og bs
    using launch_goal [of now "s\<lparr>tf_steerBuffer := bs\<rparr>" E i og] assms by (simp add: goal_is_active_def)
  then show ?thesis by (simp add: launchBufferedSteerIfIdle_def split: list.split)
qed

lemma quiet_simps [simp]:
  "quiet TO_usage_end" "quiet (TO_error p)" "quiet (TO_fire_StopFailure n m)" "quiet TO_inject" "quiet TO_mcp_wait"
  "quiet (TO_hook_Stop b)" "quiet (TO_usage_record u)" "quiet (TO_record_prompt i og)" "quiet (TO_record_steer i og)"
  "quiet (TO_record_cancel t)" "quiet TO_usage_begin" "quiet (TO_hook_UserPromptSubmit i)"
  by (simp_all add: quiet_def)

text \<open>A standalone turn lets go in the frame of \<open>turn.ended\<close>; its worker ends after the next has begun.\<close>

lemma release_sim:
  assumes "holds_turn k s" and "\<not> goal_is_active now s"
    and t: "t = launchBufferedSteerIfIdle E now (s\<lparr>tf_activeTurn := No_turn\<rparr>)"
    and t': "view t' = (view t)\<lparr>dv_out := tf_out t @ xs, dv_gate := g\<rparr>" and "list_all quiet xs"
    and "tf_goal t' = tf_goal t"
  shows "reaches (at_stage Closed s) (worker_finishes E now k t')" and "\<not> goal_is_active now t'"
proof -
  obtain w where w: "tf_activeTurn s = Active k" "k < tf_nextSignal s" "tf_workers s = [(k, w)]"
    "fc_books (tf_compaction s)" using assms(1) by (auto simp: holds_turn_def)
  let ?s = "s\<lparr>tf_activeTurn := No_turn\<rparr>"
  let ?f = "worker_finishes E now k t'"
  have a: "tf_activeTurn t' = tf_activeTurn t" and ws: "tf_workers t' = tf_workers t" and o: "tf_out t' = tf_out t @ xs"
    using arg_cong [OF t', of dv_active] arg_cong [OF t', of dv_workers] arg_cong [OF t', of dv_out] by simp_all
  have na: "\<not> goal_is_active now ?s" using assms(2) by (simp add: goal_is_active_def)
  have "tf_goal t' = tf_goal ?s" using buffered_goal [OF na, of E] assms(6) t by simp
  then show "\<not> goal_is_active now t'" using na by (simp add: goal_is_active_def)
  have "tf_activeTurn t \<in> {No_turn, Active (tf_nextSignal s)}"
    using buffered_worker [OF _ t] by auto
  then have "tf_activeTurn t' \<noteq> Active k" using a w(2) by auto
  then have "?f = t'\<lparr>tf_workers := map_remove k (tf_workers t')\<rparr>" by (simp add: worker_finishes_def Let_def)
  then have v: "view ?f = (view t)\<lparr>dv_workers := map_remove k (tf_workers t), dv_out := tf_out t @ xs, dv_gate := g\<rparr>"
    by (simp add: t' ws)
  have "reaches (at_stage Closed ?s) ?f"
    by (rule settle [OF _ _ _ _ t v]) (use w assms(5) in simp_all)
  moreover have "at_stage Closed ?s = at_stage Closed s" by (intro spec_eqI) simp_all
  ultimately show "reaches (at_stage Closed s) ?f" by simp
qed

text \<open>What a worker does in the middle of its turn, stage and all.\<close>

definition leads :: "turn_stage \<Rightarrow> TurnFlow \<Rightarrow> TurnFlow \<Rightarrow> bool" where
  "leads st s t \<longleftrightarrow> spec_moves (at_stage st s) [] [] (at_stage st t)
     \<and> (\<forall>k. holds_turn k s \<longrightarrow> holds_turn k t) \<and> tf_turnId t = tf_turnId s"

lemma leads_refl [simp]: "leads st s s"
  by (simp add: leads_def spec_moves.none)

lemma leads_trans [trans]: "leads st s t \<Longrightarrow> leads st t u \<Longrightarrow> leads st s u"
  unfolding leads_def using silent_trans by auto

lemma leads_reaches:
  "leads st s t \<Longrightarrow> holds_turn k s \<Longrightarrow> (holds_turn k t \<Longrightarrow> tf_turnId t = tf_turnId s \<Longrightarrow> reaches (at_stage st t) u) \<Longrightarrow>
   reaches (at_stage st s) u"
  unfolding leads_def using reaches_via by blast

lemma leads_id: "leads st s t \<Longrightarrow> tf_turnId t = tf_turnId s"
  by (simp add: leads_def)

lemma leads_say: "leads st s t \<Longrightarrow> quiet x \<Longrightarrow> leads st s (tf_do x t)"
  by (erule leads_trans) (simp add: leads_def say_stage)

lemma leads_tell:
  assumes "leads (Open c) s t" and "inside (tf_turnId s) x"
  shows "leads (Open c) s (tf_do x t)"
  using tell_stage [of t x c] assms(2) leads_id [OF assms(1)]
  by (intro leads_trans [OF assms(1)]) (simp add: leads_def)

lemma leads_own: "leads (Open c) s t \<Longrightarrow> own_origin og \<and> og \<noteq> OUTPUT_LIMIT_ORIGIN \<and> og \<noteq> STOP_HOOK_ORIGIN \<Longrightarrow> leads (Open c) s (append_user now i og t)"
  by (erule leads_trans) (simp add: leads_def own_stage)

lemma leads_same:
  "leads st s t \<Longrightarrow> at_stage st u = at_stage st t \<Longrightarrow> (\<And>k. holds_turn k u = holds_turn k t) \<Longrightarrow> leads st s u"
  unfolding leads_def by (metis at_stage_simps(3))

lemma leads_frame:
  assumes "leads st s t"
  shows "leads st s (on_goal g t)" "leads st s (on_conversation f t)" "leads st s (clearGoalBackgroundIdleWake t)"
    "leads st s (t\<lparr>tf_nori := n\<rparr>)" "leads st s (t\<lparr>tf_pendingGoalOutcome := q\<rparr>)" "leads st s (t\<lparr>tf_systemPrompt := p\<rparr>)"
    "leads st s (t\<lparr>tf_goal := g1\<rparr>)"
  by (rule leads_same [OF assms]; simp)+

lemma leads_flush:
  assumes "leads st s t" and "st \<noteq> Idle"
  shows "leads st s (snd (flushSteerBuffer now t))"
proof (rule leads_trans [OF assms(1)])
  let ?u = "snd (flushSteerBuffer now t)"
  have v: "view ?u = (view t)\<lparr>dv_buffer := [], dv_out := tf_out t @ map message (tf_steerBuffer t)\<rparr>"
    using view_flush(1) [of now t] by (simp add: message_def)
  have "spec_move (at_stage st t) [] [] ((at_stage st t)\<lparr>ts_buffer := [],
      ts_out := ts_out (at_stage st t) @ map message (ts_buffer (at_stage st t))\<rparr>)"
    by (rule spec_move.flush) (simp add: assms(2))
  moreover have "(at_stage st t)\<lparr>ts_buffer := [], ts_out := ts_out (at_stage st t) @ map message (ts_buffer (at_stage st t))\<rparr>
    = at_stage st ?u"
    unfolding at_stage_def [of st ?u] v by (intro spec_eqI) simp_all
  moreover have "holds_turn k ?u = holds_turn k t" for k
    using arg_cong [OF v, of dv_active] arg_cong [OF v, of dv_next] arg_cong [OF v, of dv_workers]
      arg_cong [OF v, of books_ok] by (simp add: holds_turn_def)
  moreover have "tf_turnId ?u = tf_turnId t" using arg_cong [OF v, of dv_turnId] by simp
  ultimately show "leads st t ?u" unfolding leads_def by (metis one_move)
qed

lemma leads_compaction:
  assumes "leads st s t" and "st \<noteq> Idle" and "fc_books (tf_compaction t) \<Longrightarrow> fc_books c"
  shows "leads st s (t\<lparr>tf_compaction := c\<rparr>)"
proof (rule leads_trans [OF assms(1)])
  let ?h = "fc_workers c \<noteq> []"
  have "spec_move (at_stage st t) [] [] ((at_stage st t)\<lparr>ts_holding := ?h\<rparr>)"
    by (rule spec_move.holds) (simp add: assms(2))
  moreover have "(at_stage st t)\<lparr>ts_holding := ?h\<rparr> = at_stage st (t\<lparr>tf_compaction := c\<rparr>)"
    by (intro spec_eqI) simp_all
  ultimately show "leads st t (t\<lparr>tf_compaction := c\<rparr>)"
    using assms(3) unfolding leads_def by (auto simp: holds_turn_def intro: one_move)
qed

lemmas leads_rules = leads_refl leads_say leads_tell leads_own leads_frame leads_flush leads_compaction

lemma end_turn_sim:
  assumes h: "holds_turn k s" and i: "tw_turnId w = tf_turnId s"
  shows "reaches (at_stage (Open c) s) (end_turn E now k w r err blocked s)"
proof -
  define s2 where "s2 = (if r = End_cancelled \<and> tw_aborted w = Some User_cancellation
      then tf_do (TO_fire_Interrupt (tf_turnId s)) (tf_do TO_usage_end s) else tf_do TO_usage_end s)"
  define s3 where "s3 = tf_do (TO_ended (tf_turnId s) r err) s2"
  have u: "leads (Open c) s (tf_do TO_usage_end s)" by (rule leads_say) simp_all
  have l2: "leads (Open c) s s2" unfolding s2_def using u leads_tell [OF u] by simp
  then have h3: "holds_turn k s3" and i3: "tf_turnId s3 = tf_turnId s" and i2: "tf_turnId s2 = tf_turnId s"
    using h by (simp_all add: leads_def s3_def)
  have M: "spec_moves (at_stage (Open c) s) [] [] (at_stage Closed s3)"
    using silent_trans [of "at_stage (Open c) s" "at_stage (Open c) s2"] l2 close_stage [of c s2 r err] i2
    unfolding leads_def s3_def by auto
  define xs where "xs = (case err of Some p \<Rightarrow> [TO_error p] | None \<Rightarrow> [])"
  define fin where "fin = (\<lambda>t. (case err of Some p \<Rightarrow> tf_do (TO_error p) t | None \<Rightarrow> t))"
  define s4 where "s4 = (if \<not> tw_drive w \<and> \<not> goal_is_active now s3
      then launchBufferedSteerIfIdle E now (s3\<lparr>tf_activeTurn := No_turn\<rparr>) else s3)"
  define s6 where "s6 = (fin s4)\<lparr>tf_nori := end_turn_tracking (te_discuss E) (r = End_completed) (tf_turnId s) (tf_nori (fin s4))\<rparr>"
  have e: "end_turn E now k w r err blocked s = after_turn E now k w r err blocked s6"
    by (cases err) (simp_all add: end_turn_def Let_def i i3 s6_def s4_def fin_def s3_def s2_def)
  have v6: "view s6 = (view s4)\<lparr>dv_out := tf_out s4 @ xs, dv_gate := nt_pendingGate (tf_nori s4)\<rparr>"
    by (cases err) (simp_all add: s6_def fin_def xs_def view_def tf_do_def)
  have g6: "tf_goal s6 = tf_goal s4" by (cases err) (simp_all add: s6_def fin_def tf_do_def)
  have q: "list_all quiet xs" by (cases err) (simp_all add: xs_def)
  show ?thesis
  proof (rule reaches_via [OF M], cases "\<not> tw_drive w \<and> \<not> goal_is_active now s3")
    case True
    then have t4: "s4 = launchBufferedSteerIfIdle E now (s3\<lparr>tf_activeTurn := No_turn\<rparr>)" by (simp add: s4_def)
    note rel = release_sim [OF h3 _ t4 v6 q g6]
    show "reaches (at_stage Closed s3) (end_turn E now k w r err blocked s)"
      using rel True unfolding e after_turn_def by simp
  next
    case False
    then have s4: "s4 = s3" by (auto simp: s4_def)
    have le: "last_end (tf_out s6) = Some r"
      unfolding s6_def fin_def s4 by (cases err) (simp_all add: s3_def tf_do_def)
    have "leads Closed s3 s6"
      unfolding s6_def fin_def s4 by (cases err) (auto intro!: leads_rules)
    then show "reaches (at_stage Closed s3) (end_turn E now k w r err blocked s)"
    proof (rule leads_reaches [OF _ h3])
      assume h6: "holds_turn k s6" and "tf_turnId s6 = tf_turnId s3"
      then have "tw_turnId w = tf_turnId s6" using i i3 by simp
      then show "reaches (at_stage Closed s6) (end_turn E now k w r err blocked s)"
        unfolding e after_turn_def
        using driven_sim [OF h6 _ le] continues_sim [OF h6] finishes_sim [OF h6] le by (cases r) simp_all
    qed
  qed
qed

lemma turn_fails_sim:
  assumes "holds_turn k s" and "tw_turnId w = tf_turnId s"
  shows "reaches (at_stage (Open c) s) (turn_fails E now k w e s)"
proof (cases "is_abort e")
  case False
  let ?m = "summarizeTurnError e (nat (tw_turnId w))"
  let ?s = "tf_do (TO_fire_StopFailure (case ep_name ?m of Some x \<Rightarrow> x | None \<Rightarrow> []) (ep_message ?m)) s"
  have l: "leads (Open c) s ?s" by (rule leads_say) simp_all
  have "reaches (at_stage (Open c) s) (end_turn E now k w End_failed (Some ?m) False ?s)"
    by (rule leads_reaches [OF l assms(1)]) (rule end_turn_sim, simp_all add: assms)
  then show ?thesis using False by (simp add: turn_fails_def Let_def)
qed (use assms end_turn_sim in \<open>simp add: turn_fails_def\<close>)

section \<open>Answers to a worker\<close>

lemma sound_worker:
  assumes "sound s" and "map_get (tf_workers s) k = Some w"
  shows "holds_turn k s" and "tw_turnId w = tf_turnId s" and "spec_of (view s) = at_stage (stage_of w) s"
    and "phase_ok (tw_phase w)"
proof -
  obtain w0 where w: "tf_activeTurn s = Active k" "k < tf_nextSignal s" "tf_workers s = [(k, w0)]" "tw_turnId w0 = tf_turnId s"
    "phase_ok (tw_phase w0)"
    using assms by (auto simp: sound_def one_turn_def split: active_turn.splits if_splits)
  then have "w0 = w" using assms(2) by simp
  then show "holds_turn k s" "tw_turnId w = tf_turnId s" "spec_of (view s) = at_stage (stage_of w) s"
    "phase_ok (tw_phase w)"
    using w assms(1) spec_at_stage(2) by (auto simp: holds_turn_def sound_def)
qed

lemma no_answer: "sound s \<Longrightarrow> reaches (spec_of (view s)) s"
  by (simp add: reaches_def spec_moves.none)

lemma put_back:
  assumes "leads st s t" and "holds_turn k s" and "tw_turnId w = tf_turnId s"
    and "stage_of (w\<lparr>tw_phase := ph\<rparr>) = st \<and> phase_ok ph"
  shows "reaches (at_stage st s) (set_phase k w ph t)"
  by (rule leads_reaches [OF assms(1,2)]) (rule phase_sim, simp_all add: assms(3,4))

lemma start_loop_sim:
  assumes "leads (Open (0, False)) s t" and "holds_turn k s" and "tw_turnId w = tf_turnId s"
  shows "reaches (at_stage (Open (0, False)) s) (start_step_loop k w t)"
  unfolding start_step_loop_def
  by (rule put_back [OF _ assms(2,3)]) (auto intro!: leads_say leads_frame assms(1) simp: stage_of_def)

lemma apply_hook_sim:
  assumes "leads (Open (0, False)) s t" and "holds_turn k s" and "tw_turnId w = tf_turnId s"
  shows "reaches (at_stage (Open (0, False)) s) (applyUserPromptHook k w t)"
proof (cases "is_user_origin (tw_origin w)")
  case True
  show ?thesis
    unfolding applyUserPromptHook_def using True
    by simp (rule put_back [OF _ assms(2,3)], auto intro!: leads_say assms(1) simp: stage_of_def)
qed (use start_loop_sim [OF assms] in \<open>simp add: applyUserPromptHook_def\<close>)

text \<open>The start of a pending turn.\<close>

definition input_of :: "turn_worker \<Rightarrow> BufferedSteer" where
  "input_of w = \<lparr>bs_input = tw_input w, bs_origin = tw_origin w\<rparr>"

lemma opens_sim:
  assumes "leads (Pending (input_of w)) s t" and "holds_turn k s" and "tw_turnId w = tf_turnId s"
    and "leads (Open (0, False)) (append_user now (tw_input w) (tw_origin w) (tf_do (TO_started (tw_turnId w) (tw_origin w)) t)) u"
    and "holds_turn k u \<Longrightarrow> tf_turnId u = tf_turnId s \<Longrightarrow> reaches (at_stage (Open (0, False)) u) v"
  shows "reaches (at_stage (Pending (input_of w)) s) v"
proof -
  let ?a = "append_user now (tw_input w) (tw_origin w) (tf_do (TO_started (tw_turnId w) (tw_origin w)) t)"
  have i: "tf_turnId t = tf_turnId s" using assms(1) by (simp add: leads_def)
  have h: "holds_turn k ?a" using assms(1,2) by (simp add: leads_def)
  have "spec_moves (at_stage (Pending (input_of w)) s) [] [] (at_stage (Open (0, False)) ?a)"
    using silent_trans [of _ "at_stage (Pending (input_of w)) t" "[]" "[]"] assms(1)
      open_stage [of "tw_input w" "tw_origin w" t now] i assms(3)
    by (auto simp: leads_def input_of_def)
  moreover have "reaches (at_stage (Open (0, False)) ?a) v"
    by (rule leads_reaches [OF assms(4) h]) (use assms(5) i in simp)
  ultimately show ?thesis by (rule reaches_via)
qed

lemma turn_starts_sim:
  assumes "holds_turn k s" and "tw_turnId w = tf_turnId s"
    and "\<And>u. holds_turn k u \<Longrightarrow> tf_turnId u = tf_turnId s \<Longrightarrow> u = turn_starts E now w s \<Longrightarrow> reaches (at_stage (Open (0, False)) u) v"
  shows "reaches (at_stage (Pending (input_of w)) s) v"
proof -
  define s1 where "s1 = s\<lparr>tf_nori := begin_turn_tracking (te_workflow E \<noteq> None) (te_discuss E) (tw_turnId w)
    (tw_input w) (tw_origin w) (tf_nori s), tf_compaction := resetForTurn (tf_compaction s)\<rparr>"
  have t: "turn_starts E now w s = append_user now (tw_input w) (tw_origin w)
      (tf_do (TO_started (tw_turnId w) (tw_origin w)) (tf_do TO_usage_begin s1))"
    by (simp add: turn_starts_def s1_def Let_def)
  have "leads (Pending (input_of w)) s s1"
    unfolding s1_def by (intro leads_compaction leads_frame leads_refl) simp_all
  then have l: "leads (Pending (input_of w)) s (tf_do TO_usage_begin s1)" by (rule leads_say) simp
  show ?thesis
    by (rule opens_sim [OF l assms(1,2) leads_refl]) (rule assms(3), simp_all add: t)
qed

lemma goal_settled_sim:
  assumes "sound s"
  shows "reaches (spec_of (view s)) (goal_settled E now k s)"
proof (cases "map_get (tf_workers s) k")
  case (Some w)
  note h = sound_worker [OF assms Some]
  show ?thesis
  proof (cases "tw_phase w")
    case TP_counting
    then have st: "stage_of w = Pending (input_of w)" by (simp add: stage_of_def input_of_def)
    show ?thesis
      unfolding h(3) st
    proof (rule turn_starts_sim [OF h(1,2)])
      fix u assume u: "holds_turn k u" "tf_turnId u = tf_turnId s" "u = turn_starts E now w s"
      have i: "tw_turnId w = tf_turnId u" using h(2) u(2) by simp
      show "reaches (at_stage (Open (0, False)) u) (goal_settled E now k s)"
        using turn_fails_sim [OF u(1) i] apply_hook_sim [OF leads_refl u(1) i] start_loop_sim [OF leads_refl u(1) i]
        by (cases "tw_aborted w") (simp_all add: goal_settled_def Some TP_counting u(3) [symmetric])
    qed
  next
    case TP_blocking
    then have st: "stage_of w = Pending (input_of w)" by (simp add: stage_of_def input_of_def)
    let ?t = "tf_do TO_usage_begin s"
    let ?u = "tf_do TO_usage_end (append_user now (tw_input w) (tw_origin w)
       (tf_do (TO_started (tw_turnId w) (tw_origin w)) ?t))"
    have g: "goal_settled E now k s = worker_finishes E now k (tf_do (TO_ended (tw_turnId w) End_completed None) ?u)"
      by (simp add: goal_settled_def Some TP_blocking endGoalTurnWithoutModel_def)
    have l: "leads (Pending (input_of w)) s ?t" by (rule leads_say) simp_all
    show ?thesis
      unfolding h(3) st
    proof (rule opens_sim [OF l h(1,2) leads_say [OF leads_refl]])
      assume u: "holds_turn k ?u" "tf_turnId ?u = tf_turnId s"
      have "spec_moves (at_stage (Open (0, False)) ?u) [] [] (at_stage Closed (tf_do (TO_ended (tw_turnId w) End_completed None) ?u))"
        using close_stage [of "(0, False)" ?u] u(2) h(2) by simp
      then show "reaches (at_stage (Open (0, False)) ?u) (goal_settled E now k s)"
        unfolding g by (rule reaches_via) (rule finishes_sim, use u(1) in simp)
    qed simp
  next
    case TP_stopping
    then have "stage_of w = Closed" by (simp add: stage_of_def)
    then show ?thesis
      using finishes_sim [of k "clearGoalBackgroundIdleWake s" E now] h
      by (simp add: goal_settled_def Some TP_stopping)
  qed (use no_answer [OF assms] in \<open>simp_all add: goal_settled_def Some\<close>)
qed (use no_answer [OF assms] in \<open>simp add: goal_settled_def\<close>)

end
