(* ===== verification/Turn_Steps.thy ===== *)
theory Turn_Steps
  imports Turn_Refinement
begin

text \<open>
  The steps of the turn driver as moves of the machine of \<open>Turn_Spec\<close>: the answers to a worker inside
  its turn, the calls from outside, and the compaction.
\<close>

section \<open>Inside a turn\<close>

lemma stays_sim:
  assumes "leads (stage_of w) s t" and "holds_turn k s" and "map_get (tf_workers s) k = Some w"
    and "tf_workers t = tf_workers s" and "tw_turnId w = tf_turnId s" and "phase_ok (tw_phase w)"
  shows "reaches (at_stage (stage_of w) s) t"
proof -
  have w: "tf_workers s = [(k, w)]" using assms(2,3) by (auto simp: holds_turn_def split: if_splits)
  have h: "holds_turn k t" "tf_turnId t = tf_turnId s" using assms(1,2) by (simp_all add: leads_def)
  then have "sound t" using w assms(4-6) by (auto simp: sound_def one_turn_def holds_turn_def)
  moreover have "spec_of (view t) = at_stage (stage_of w) t" using w assms(4) by (intro spec_at_stage) simp
  ultimately show ?thesis using assms(1) by (simp add: reaches_def leads_def)
qed

lemma loop_top_sim:
  assumes "leads (Open (used sl)) s t" and "holds_turn k s" and "tw_turnId w = tf_turnId s"
  shows "reaches (at_stage (Open (used sl)) s) (loop_top E now k w sl t)"
proof (cases "tw_aborted w")
  case None
  then show ?thesis
    unfolding loop_top_def
    by simp (rule put_back [OF _ assms(2,3)], auto intro!: leads_tell assms(1) simp: stage_of_def assms(3))
next
  case (Some r)
  show ?thesis
    by (rule leads_reaches [OF assms(1,2)])
      (use turn_fails_sim [of k t w "used sl" E now] assms(3) Some in \<open>simp add: loop_top_def\<close>)
qed

lemma fails_sim:
  assumes "leads (Open c) s t" and "holds_turn k s" and "tw_turnId w = tf_turnId s"
  shows "reaches (at_stage (Open c) s) (turn_fails E now k w e t)"
  by (rule leads_reaches [OF assms(1,2)]) (use turn_fails_sim [of k t w c E now e] assms(3) in simp)

lemma ends_sim:
  assumes "leads (Open c) s t" and "holds_turn k s" and "tw_turnId w = tf_turnId s"
  shows "reaches (at_stage (Open c) s) (end_turn E now k w r err blocked t)"
  by (rule leads_reaches [OF assms(1,2)]) (use end_turn_sim [of k t w c E now r err blocked] assms(3) in simp)

lemma own_origins [simp]:
  "own_origin OUTPUT_LIMIT_ORIGIN" "own_origin STOP_HOOK_ORIGIN" "own_origin NORI_REVIEW_GATE_ORIGIN"
  "own_origin (simple_origin (OK_hook_result ''UserPromptSubmit'' None))" "own_origin GOAL_CONTINUATION_ORIGIN"
  by (simp_all add: own_origin_def)

lemma distinct_origins [simp]:
  "NORI_REVIEW_GATE_ORIGIN \<noteq> OUTPUT_LIMIT_ORIGIN" "NORI_REVIEW_GATE_ORIGIN \<noteq> STOP_HOOK_ORIGIN"
  "simple_origin (OK_hook_result n b) \<noteq> OUTPUT_LIMIT_ORIGIN" "simple_origin (OK_hook_result n b) \<noteq> STOP_HOOK_ORIGIN"
  by (simp_all add: NORI_REVIEW_GATE_ORIGIN_def OUTPUT_LIMIT_ORIGIN_def STOP_HOOK_ORIGIN_def system_trigger_def
      simple_origin_def)

lemma loaded_sim:
  assumes "sound s"
  shows "reaches (spec_of (view s)) (loaded E now threw k s)"
proof (cases "\<exists>w. map_get (tf_workers s) k = Some w \<and> tw_phase w = TP_loading")
  case True
  then obtain w where w: "map_get (tf_workers s) k = Some w" "tw_phase w = TP_loading" by blast
  note h = sound_worker [OF assms w(1)]
  have "stage_of w = Open (0, False)" by (simp add: stage_of_def w(2))
  then show ?thesis
    using fails_sim [OF leads_refl h(1,2)] loop_top_sim [OF leads_refl h(1,2), of fresh_loop] h(3) w
    by (cases threw) (simp_all add: loaded_def)
qed (use no_answer [OF assms] in \<open>auto simp: loaded_def split: option.splits\<close>)

lemma prompt_hook_sim:
  assumes "sound s"
  shows "reaches (spec_of (view s)) (prompt_hook_returned E now threw results k s)"
proof (cases "\<exists>w. map_get (tf_workers s) k = Some w \<and> tw_phase w = TP_promptHook")
  case True
  then obtain w where w: "map_get (tf_workers s) k = Some w" "tw_phase w = TP_promptHook" by blast
  note h = sound_worker [OF assms w(1)]
  have o: "stage_of w = Open (0, False)" by (simp add: stage_of_def w(2))
  have i: "tf_turnId s = tw_turnId w" using h(2) by simp
  note defs = prompt_hook_returned_def w h(3) o
  note fails = fails_sim [OF leads_refl h(1,2), of "(0, False)" E now]
  note own = leads_own [OF leads_refl, of "simple_origin (OK_hook_result ''UserPromptSubmit'' None)"]
  show ?thesis
  proof (cases threw)
    case None
    show ?thesis
    proof (cases "tw_aborted w")
      case ab: None
      show ?thesis
      proof (cases "renderUserPromptHookBlockResult results")
        case bl: None
        show ?thesis
        proof (cases "renderUserPromptHookResult results")
          case (Some r)
          show ?thesis
            unfolding defs
            by (simp add: None ab bl Some w(2))
              (rule start_loop_sim [OF leads_tell [OF own] h(1,2)], simp_all add: i)
        qed (use start_loop_sim [OF leads_refl h(1,2)] in \<open>simp add: defs None ab bl\<close>)
      next
        case (Some b)
        show ?thesis
          unfolding defs
          by (simp add: None ab Some w(2))
            (rule ends_sim [OF leads_tell [OF leads_frame(2) [OF leads_refl]] h(1,2)], simp add: i)
      qed
    qed (use fails in \<open>simp add: defs None\<close>)
  qed (use fails in \<open>simp add: defs\<close>)
qed (use no_answer [OF assms] in \<open>auto simp: prompt_hook_returned_def split: option.splits\<close>)


section \<open>Hooks of the loop\<close>

lemma in_loop_sim:
  assumes "sound s"
    and "\<And>w sl. map_get (tf_workers s) k = Some w \<Longrightarrow> tw_phase w = TP_loop sl \<Longrightarrow> holds_turn k s \<Longrightarrow>
      tw_turnId w = tf_turnId s \<Longrightarrow> reaches (at_stage (Open (used sl)) s) (f w sl s)"
  shows "reaches (spec_of (view s)) (in_loop k f s)"
proof (cases "\<exists>w sl. map_get (tf_workers s) k = Some w \<and> tw_phase w = TP_loop sl")
  case True
  then obtain w sl where w: "map_get (tf_workers s) k = Some w" "tw_phase w = TP_loop sl" by blast
  note h = sound_worker [OF assms(1) w(1)]
  have o: "stage_of w = Open (used sl)" by (simp add: stage_of_def w(2))
  show ?thesis using assms(2) [OF w h(1,2)] h(3) o w by (simp add: in_loop_def)
next
  case False
  then have "in_loop k f s = s" by (auto simp: in_loop_def split: option.split turn_phase.split)
  then show ?thesis using no_answer [OF assms(1)] by simp
qed

lemma open_stays:
  assumes "leads (Open (used sl)) s t" and "holds_turn k s" and "map_get (tf_workers s) k = Some w"
    and "tf_workers t = tf_workers s" and "tw_turnId w = tf_turnId s" and "tw_phase w = TP_loop sl"
  shows "reaches (at_stage (Open (used sl)) s) t"
  using stays_sim [of w s t k] assms by (simp add: stage_of_def)

lemma step_begins_sim:
  assumes "leads (Open (used sl)) s t" and "holds_turn k s" and "tw_turnId w = tf_turnId s"
  shows "reaches (at_stage (Open (used sl)) s) (step_begins E now k w sl t)"
proof -
  obtain p n where r: "before_step_rules (te_rules E) (te_workflow E \<noteq> None)
      (tf_systemPrompt (tf_do TO_inject (snd (flushSteerBuffer now t))))
      (tf_nori (tf_do TO_inject (snd (flushSteerBuffer now t)))) = (p, n)" by force
  have l: "leads (Open (used sl)) s (tf_do TO_inject (snd (flushSteerBuffer now t)))"
    by (intro leads_say leads_flush assms(1)) simp_all
  show ?thesis
    unfolding step_begins_def Let_def r
    by simp (rule put_back [OF leads_frame(4) [OF leads_frame(6) [OF l]] assms(2,3)], simp add: stage_of_def)
qed

lemma beforeStep_sim:
  assumes "holds_turn k s" and "tw_turnId w = tf_turnId s" and "map_get (tf_workers s) k = Some w" and "tw_phase w = TP_loop sl"
  shows "reaches (at_stage (Open (used sl)) s) (beforeStep E now k w sl s)"
proof -
  obtain r c where r: "compaction_beforeStep (te_compaction E) now (tf_compaction s) = (r, c)" by force
  have l: "leads (Open (used sl)) s (s\<lparr>tf_compaction := c\<rparr>)"
    using books_before [of "tf_compaction s" "te_compaction E" now] r
    by (intro leads_compaction leads_refl) simp_all
  show ?thesis
  proof (cases r)
    case (Inl e)
    have "reaches (at_stage (Open (used sl)) s) (tf_do (TO_hook_threw (tw_turnId w) e) (s\<lparr>tf_compaction := c\<rparr>))"
      by (rule open_stays [OF leads_tell [OF l] assms(1,3)]) (simp_all add: assms tf_do_def)
    then show ?thesis by (simp add: beforeStep_def r Inl)
  next
    case (Inr x)
    then show ?thesis
      using step_begins_sim [OF l assms(1,2)] put_back [OF l assms(1), of "w\<lparr>tw_listeners := tw_listeners w @ [y]\<rparr>" "TP_waiting y sl" for y] assms(2)
      by (cases x) (simp_all add: beforeStep_def r stage_of_def)
  qed
qed

lemma recordStepUsage_sim:
  assumes "holds_turn k s" and "tw_turnId w = tf_turnId s"
  shows "reaches (at_stage (Open (used sl)) s) (recordStepUsage now n k w sl s)"
proof -
  obtain sn g where r: "recordTokenUsage now n (tf_goal s) = (sn, g)" by force
  show ?thesis
    unfolding recordStepUsage_def r
    by simp (rule put_back [OF leads_frame(7) [OF leads_refl] assms], simp add: stage_of_def)
qed

lemma afterStep_sim:
  assumes "holds_turn k s" and "tw_turnId w = tf_turnId s" and "map_get (tf_workers s) k = Some w" and "tw_phase w = TP_loop sl"
  shows "reaches (at_stage (Open (used sl)) s) (afterStep E now b u w sl s)"
proof -
  let ?s = "tf_do (TO_usage_record u) s"
  obtain r c where r: "compaction_afterStep (te_compaction E) now (tf_compaction s) = (r, c)" by force
  have l: "leads (Open (used sl)) s (?s\<lparr>tf_compaction := c\<rparr>)"
    using books_after [of "tf_compaction s" "te_compaction E" now] r
    by (intro leads_compaction leads_say leads_refl) (simp_all add: tf_do_def)
  show ?thesis
  proof (cases r)
    case (Some e)
    have "reaches (at_stage (Open (used sl)) s) (tf_do (TO_hook_threw (tw_turnId w) e) (?s\<lparr>tf_compaction := c\<rparr>))"
      by (rule open_stays [OF leads_tell [OF l] assms(1,3)]) (simp_all add: assms tf_do_def)
    then show ?thesis by (simp add: afterStep_def r Some tf_do_def Let_def)
  next
    case None
    have r': "compaction_afterStep (te_compaction E) now (tf_compaction ?s) = (r, c)" by (simp add: tf_do_def r)
    obtain a n where a: "after_step_gates (te_workflow E) b (sp_stopForGoalBudget sl)
      (tf_pendingGoalOutcome ?s) (tf_systemPrompt ?s) (tf_nori ?s) = (a, n)" by force
    let ?t = "?s\<lparr>tf_compaction := c, tf_nori := n, tf_systemPrompt := as_prompt a\<rparr>"
    let ?u = "case as_gate a of Some g \<Rightarrow> append_user now [TextPart g] NORI_REVIEW_GATE_ORIGIN ?t | None \<Rightarrow> ?t"
    have e: "afterStep E now b u w sl s = tf_do (TO_after_step (tw_turnId w) (as_stopTurn a)) ?u"
      by (simp only: afterStep_def Let_def r' None a prod.case option.case)
    have "leads (Open (used sl)) s ?t" by (rule leads_frame(6) [OF leads_frame(4) [OF l]])
    then have "leads (Open (used sl)) s ?u" by (cases "as_gate a") (simp_all add: leads_own)
    then have "leads (Open (used sl)) s (tf_do (TO_after_step (tw_turnId w) (as_stopTurn a)) ?u)"
      by (rule leads_tell) (simp add: assms(2))
    then show ?thesis
      unfolding e by (rule open_stays [OF _ assms(1,3)])
        (cases "as_gate a"; simp add: assms flow_defs)+
  qed
qed


lemma reaches_if: "(c \<Longrightarrow> reaches d s) \<Longrightarrow> (\<not> c \<Longrightarrow> reaches d t) \<Longrightarrow> reaches d (if c then s else t)"
  by simp

lemma answer_sim:
  assumes "leads (Open (used sl)) s t" and "holds_turn k s" and "tw_turnId w = tf_turnId s"
  shows "reaches (at_stage (Open (used sl)) s) (answer_continue k w sl b t)"
  unfolding answer_continue_def
  by (rule put_back [OF leads_tell [OF assms(1)] assms(2,3)]) (simp_all add: assms(3) stage_of_def)

text \<open>The messages that cost a continuation.\<close>

lemma extended_sim:
  assumes "leads (Open (used sl)) s t" and "holds_turn k s" and "tw_turnId w = tf_turnId s"
    and "used sl = (n, b)" and "n < OUTPUT_LIMIT_CONTINUATIONS_PER_TURN" and "used sl' = (Suc n, b)"
  shows "reaches (at_stage (Open (used sl)) s) (answer_continue k w sl' True (append_user now i OUTPUT_LIMIT_ORIGIN t))"
proof (rule leads_reaches [OF assms(1,2)])
  let ?a = "append_user now i OUTPUT_LIMIT_ORIGIN t" and ?d = "at_stage (Open (used sl)) t"
  assume t: "holds_turn k t" "tf_turnId t = tf_turnId s"
  have "spec_move ?d [] [] (?d\<lparr>ts_stage := Open (Suc n, b), ts_out := ts_out ?d @ [TO_user_message i OUTPUT_LIMIT_ORIGIN]\<rparr>)"
    by (rule spec_move.extends) (simp_all add: assms(4,5))
  moreover have "?d\<lparr>ts_stage := Open (Suc n, b), ts_out := ts_out ?d @ [TO_user_message i OUTPUT_LIMIT_ORIGIN]\<rparr>
      = at_stage (Open (used sl')) ?a"
    by (intro spec_eqI) (simp_all add: stage_outputs assms(6))
  ultimately have "spec_moves ?d [] [] (at_stage (Open (used sl')) ?a)" by (metis one_move)
  then show "reaches ?d (answer_continue k w sl' True ?a)"
    by (rule reaches_via) (rule answer_sim [OF leads_refl], simp_all add: t assms(3))
qed

lemma resumed_sim:
  assumes "holds_turn k s" and "tw_turnId w = tf_turnId s" and "used sl = (n, False)" and "used sl' = (n, True)"
  shows "reaches (at_stage (Open (used sl)) s) (answer_continue k w sl' True (append_user now i STOP_HOOK_ORIGIN s))"
proof -
  let ?a = "append_user now i STOP_HOOK_ORIGIN s" and ?d = "at_stage (Open (used sl)) s"
  have "spec_move ?d [] [] (?d\<lparr>ts_stage := Open (n, True), ts_out := ts_out ?d @ [TO_user_message i STOP_HOOK_ORIGIN]\<rparr>)"
    by (rule spec_move.resumes) (simp add: assms(3))
  moreover have "?d\<lparr>ts_stage := Open (n, True), ts_out := ts_out ?d @ [TO_user_message i STOP_HOOK_ORIGIN]\<rparr>
      = at_stage (Open (used sl')) ?a"
    by (intro spec_eqI) (simp_all add: stage_outputs assms(4))
  ultimately have "spec_moves ?d [] [] (at_stage (Open (used sl')) ?a)" by (metis one_move)
  then show ?thesis
    by (rule reaches_via) (rule answer_sim [OF leads_refl], simp_all add: assms)
qed

lemma shouldContinue_sim:
  assumes "holds_turn k s" and "tw_turnId w = tf_turnId s" and "map_get (tf_workers s) k = Some w" and "tw_phase w = TP_loop sl"
  shows "reaches (at_stage (Open (used sl)) s) (shouldContinueAfterStop E now b n k w sl s)"
proof -
  obtain fl t where f: "flushSteerBuffer now s = (fl, t)" by force
  have l: "leads (Open (used sl)) s t" using leads_flush [OF leads_refl, of "Open (used sl)" s now] f by simp
  have ws: "tf_workers t = tf_workers s" using arg_cong [OF view_flush(1) [of now s], of dv_workers] f by simp
  show ?thesis
  proof (cases "tw_aborted w")
    case (Some r)
    have "reaches (at_stage (Open (used sl)) s) (tf_do (TO_hook_threw (tw_turnId w) (reason_thrown r)) t)"
      by (rule open_stays [OF leads_tell [OF l] assms(1,3)]) (simp_all add: assms ws tf_do_def)
    then show ?thesis by (simp add: shouldContinueAfterStop_def f Some)
  next
    case None
    have hook: "reaches (at_stage (Open (used sl)) s) (set_phase k w (TP_stopHook sl) (tf_do (TO_hook_Stop (sp_stopHookUsed sl)) t))"
      if "\<not> sp_stopHookUsed sl"
      by (rule put_back [OF leads_say [OF l] assms(1,2)]) (simp_all add: stage_of_def that)
    have limit: "reaches (at_stage (Open (used sl)) s)
        (answer_continue k w (sl\<lparr>sp_outputLimit := sp_outputLimit sl + 1\<rparr>) True (append_user now i OUTPUT_LIMIT_ORIGIN t))"
      if "sp_outputLimit sl < OUTPUT_LIMIT_CONTINUATIONS_PER_TURN" for i
      by (rule extended_sim [OF l assms(1,2)]) (simp_all add: used_def that)
    have answer: "reaches (at_stage (Open (used sl)) s) (answer_continue k w sl' v u)"
      if "used sl' = used sl" "leads (Open (used sl)) s u" for sl' v u
      using answer_sim [of sl' s u k w] that assms(1,2) by simp
    show ?thesis
      unfolding shouldContinueAfterStop_def f prod.case None option.case Let_def
      by (intro reaches_if answer limit hook; (intro leads_frame l)?; simp)
  qed
qed

lemma stop_hook_sim:
  assumes "sound s"
  shows "reaches (spec_of (view s)) (stop_hook_settled now threw block k s)"
proof (cases "\<exists>w sl. map_get (tf_workers s) k = Some w \<and> tw_phase w = TP_stopHook sl")
  case True
  then obtain w sl where w: "map_get (tf_workers s) k = Some w" "tw_phase w = TP_stopHook sl" by blast
  note h = sound_worker [OF assms w(1)]
  have o: "stage_of w = Open (used sl)" by (simp add: stage_of_def w(2))
  have thrown: "reaches (at_stage (Open (used sl)) s) (set_phase k w (TP_loop sl) (tf_do (TO_hook_threw (tw_turnId w) e) s))" for e
    by (rule put_back [OF leads_tell [OF leads_refl] h(1,2)]) (simp_all add: stage_of_def h(2))
  have e: "stop_hook_settled now threw block k s = stop_hook_returned now threw block k w sl s"
    by (simp add: stop_hook_settled_def w)
  show ?thesis
    unfolding e h(3) o stop_hook_returned_def
    using thrown answer_sim [OF leads_refl h(1,2), of sl] resumed_sim [OF h(1,2), of sl "sp_outputLimit sl" "sl\<lparr>sp_stopHookUsed := True\<rparr>"] h(4) w(2)
    by (simp add: used_def cong: option.case_cong split: option.split)
next
  case False
  then have "stop_hook_settled now threw block k s = s"
    by (auto simp: stop_hook_settled_def split: option.split turn_phase.split)
  then show ?thesis using no_answer [OF assms(1)] by simp
qed

lemma run_turn_threw_sim:
  assumes "holds_turn k s" and "tw_turnId w = tf_turnId s"
  shows "reaches (at_stage (Open (used sl)) s) (run_turn_threw E now e n k w sl s)"
proof -
  obtain r c where r: "handleOverflowError (te_compaction E) now e
      (observe_overflow (te_compaction E) n (tf_compaction s)) = (r, c)" by force
  have l: "leads (Open (used sl)) s (s\<lparr>tf_compaction := c\<rparr>)"
    using books_overflow [of "observe_overflow (te_compaction E) n (tf_compaction s)" "te_compaction E" now e] r
    by (intro leads_compaction leads_refl) simp_all
  note f = fails_sim [OF l assms] fails_sim [OF leads_refl assms]
  show ?thesis
  proof (cases r)
    case (Inl x)
    then show ?thesis using f by (simp add: run_turn_threw_def Let_def r)
  next
    case (Inr x)
    then show ?thesis
      using f loop_top_sim [OF l assms] put_back [OF l assms(1), of "w\<lparr>tw_listeners := tw_listeners w @ [y]\<rparr>" "TP_overflow y sl" for y] assms(2)
      by (cases x) (simp_all add: run_turn_threw_def Let_def r stage_of_def)
  qed
qed

lemma compaction_settled_sim:
  assumes "sound s"
  shows "reaches (spec_of (view s)) (compaction_settled E now k s)"
proof (cases "map_get (tf_workers s) k")
  case None
  then show ?thesis using no_answer [OF assms] by (simp add: compaction_settled_def)
next
  case (Some w)
  note h = sound_worker [OF assms Some]
  have stay: "reaches (at_stage (stage_of w) s) s" using no_answer [OF assms] h(3) by simp
  show ?thesis
  proof (cases "tw_phase w")
    case (TP_waiting v sl)
    then have o: "stage_of w = Open (used sl)" by (simp add: stage_of_def)
    have thrown: "reaches (at_stage (Open (used sl)) s) (set_phase k w (TP_loop sl) (tf_do (TO_hook_threw (tw_turnId w) e) s))" for e
      by (rule put_back [OF leads_tell [OF leads_refl] h(1,2)]) (simp_all add: stage_of_def h(2))
    show ?thesis
      unfolding h(3) o
      using thrown stay [unfolded o] step_begins_sim [OF leads_refl h(1,2)]
      by (simp add: compaction_settled_def Some TP_waiting beforeStep_settled_def split: option.split)
  next
    case (TP_overflow v sl)
    then have o: "stage_of w = Open (used sl)" by (simp add: stage_of_def)
    show ?thesis
      unfolding h(3) o
      using stay [unfolded o] fails_sim [OF leads_refl h(1,2)] loop_top_sim [OF leads_refl h(1,2)]
      by (simp add: compaction_settled_def Some TP_overflow overflow_settled_def split: option.split)
  qed (use no_answer [OF assms] in \<open>simp_all add: compaction_settled_def Some\<close>)
qed

lemma observe_event_sim:
  assumes "holds_turn k s" and "tw_turnId w = tf_turnId s" and "map_get (tf_workers s) k = Some w" and "tw_phase w = TP_loop sl"
  shows "reaches (at_stage (Open (used sl)) s) (observe_event E h i s)"
  by (rule open_stays [OF _ assms(1,3) _ assms(2,4)])
    (auto simp: observe_event_def intro: leads_frame(4))


section \<open>Calls from outside\<close>

text \<open>Between two states: sound, and moves with the inputs handed over and dropped.\<close>

definition makes :: "TurnFlow \<Rightarrow> BufferedSteer list \<Rightarrow> BufferedSteer list \<Rightarrow> TurnFlow \<Rightarrow> bool" where
  "makes s i o1 t \<longleftrightarrow> sound t \<and> spec_moves (spec_of (view s)) i o1 (spec_of (view t))"

lemma makes_refl: "sound s \<Longrightarrow> makes s [] [] s"
  by (simp add: makes_def spec_moves.none)

lemma makes_after: "makes s [] [] t \<Longrightarrow> makes t i o1 u \<Longrightarrow> makes s i o1 u"
  unfolding makes_def using silent_trans by blast

lemma makes_reaches: "reaches (spec_of (view s)) t \<Longrightarrow> makes s [] [] t"
  by (simp add: makes_def reaches_def)

lemma makes_alike: "sound s \<Longrightarrow> view t = view s \<Longrightarrow> makes s [] [] t"
  by (simp add: makes_def sound_def spec_moves.none)

lemma one_turn_update [simp]:
  "one_turn (v\<lparr>dv_buffer := b\<rparr>) = one_turn v" "one_turn (v\<lparr>dv_out := xs\<rparr>) = one_turn v"
  "one_turn (v\<lparr>dv_compactions := cs, dv_compacting := c\<rparr>) = one_turn v"
  by (auto simp: one_turn_def split: active_turn.split)

lemma makes_say:
  assumes "sound s" and "quiet x"
  shows "makes s [] [] (tf_do x s)"
proof -
  have "(spec_of (view s))\<lparr>ts_out := ts_out (spec_of (view s)) @ [x]\<rparr> = spec_of (view (tf_do x s))"
    by (intro spec_eqI) (simp_all add: spec_of_def)
  then have "spec_moves (spec_of (view s)) [] [] (spec_of (view (tf_do x s)))"
    using one_move [OF spec_move.say [OF assms(2)]] by metis
  moreover have "sound (tf_do x s)" using assms(1) by (simp add: sound_def)
  ultimately show ?thesis by (simp add: makes_def)
qed

text \<open>A sound state at rest, and one with a turn.\<close>

lemma sound_cases [consumes 1, case_names rest turn]:
  assumes "sound s"
  obtains (rest) "tf_activeTurn s = No_turn" "tf_workers s = []" "spec_of (view s) = at_stage Idle s"
    | (turn) k w where "tf_activeTurn s = Active k" "k < tf_nextSignal s" "tf_workers s = [(k, w)]"
      "tw_turnId w = tf_turnId s" "spec_of (view s) = at_stage (stage_of w) s" "stage_of w \<noteq> Idle"
      "phase_ok (tw_phase w)"
proof -
  have "one_turn (view s)" using assms by (simp add: sound_def)
  then show thesis
    using that spec_at_stage by (cases "tf_activeTurn s") (auto simp: one_turn_def stage_of_def split: turn_phase.split)
qed

lemma sound_buffer: "sound s \<Longrightarrow> sound (s\<lparr>tf_steerBuffer := bs\<rparr>)"
  by (simp add: sound_def)

lemma spec_buffer: "spec_of (view (s\<lparr>tf_steerBuffer := bs\<rparr>)) = (spec_of (view s))\<lparr>ts_buffer := bs\<rparr>"
  by (intro spec_eqI) (simp_all add: spec_of_def)

lemma makes_buffer:
  assumes "sound s" and "tf_activeTurn s \<noteq> No_turn \<or> isCompacting (tf_compaction s)"
  shows "makes s [b] [] (s\<lparr>tf_steerBuffer := tf_steerBuffer s @ [b]\<rparr>)"
proof -
  have "ts_stage (spec_of (view s)) \<noteq> Idle \<or> ts_holding (spec_of (view s))"
    using assms(2) compacting_holds [of s] assms(1)
    by (cases rule: sound_cases [OF assms(1)]) (auto simp: sound_def)
  from one_move [OF spec_move.buffer [OF this, of b]] show ?thesis
    using sound_buffer [OF assms(1)] unfolding makes_def spec_buffer by simp
qed

lemma makes_launch:
  assumes "sound s" and "tf_activeTurn s = No_turn"
  shows "makes s [\<lparr>bs_input = i, bs_origin = og\<rparr>] [] (snd (launch E now i og s))"
proof (cases "isCompacting (tf_compaction s)")
  case True
  then show ?thesis using makes_buffer [OF assms(1)] assms(2) by (simp add: launch_def)
next
  case False
  let ?b = "\<lparr>bs_input = i, bs_origin = og\<rparr>" and ?t = "snd (launch E now i og s)"
  obtain w xs g where l: "begun (tf_turnId s + 1) ?b w xs" "view ?t = (view s)\<lparr>dv_active := Active (tf_nextSignal s),
        dv_next := tf_nextSignal s + 1, dv_turnId := tf_turnId s + 1,
        dv_workers := map_put (tf_nextSignal s) w (tf_workers s), dv_out := tf_out s @ xs, dv_gate := g\<rparr>"
    using view_launch [OF assms(2) False] by blast
  have r: "tf_workers s = []" "spec_of (view s) = at_stage Idle s"
    using assms(2) by (cases rule: sound_cases [OF assms(1)]; simp)+
  have v: "view ?t = (view s)\<lparr>dv_buffer := tf_steerBuffer s, dv_active := Active (tf_nextSignal s),
        dv_next := tf_nextSignal s + 1, dv_turnId := tf_turnId s + 1,
        dv_workers := [(tf_nextSignal s, w)], dv_out := tf_out s @ xs @ [], dv_gate := g\<rparr>"
    unfolding l(2) r(1) by (simp add: view_def)
  have "spec_move (at_stage Idle s) [?b] [] ((at_stage Idle s)\<lparr>ts_stage := Pending ?b, ts_turnId := ts_turnId (at_stage Idle s) + 1\<rparr>)"
    by (rule spec_move.accept) simp
  moreover have "(at_stage Idle s)\<lparr>ts_stage := Pending ?b, ts_turnId := ts_turnId (at_stage Idle s) + 1\<rparr>
      = (at_stage (Pending ?b) s)\<lparr>ts_buffer := tf_steerBuffer s, ts_turnId := tf_turnId s + 1\<rparr>"
    by (intro spec_eqI) simp_all
  ultimately have m: "spec_move (at_stage Idle s) [?b] []
      ((at_stage (Pending ?b) s)\<lparr>ts_buffer := tf_steerBuffer s, ts_turnId := tf_turnId s + 1\<rparr>)" by (simp only:)
  have b: "books_ok (view s)" using assms(1) by (simp add: sound_def)
  show ?thesis using launched [OF l(1) b v m] r(2) by (simp add: makes_def)
qed

lemma makes_record:
  assumes "sound s" and "quiet x"
  shows "makes s [] [] (tf_do x (flow_begins_prompt now og s))"
proof -
  have v: "view (flow_begins_prompt now og s) = view s" by (simp add: flow_begins_prompt_def)
  have "sound (flow_begins_prompt now og s)" using assms(1) alike(1) [OF v] by simp
  then show ?thesis using makes_after [OF makes_alike [OF assms(1) v] makes_say] assms(2) by blast
qed

lemma record_frame [simp]:
  "tf_activeTurn (tf_do x (flow_begins_prompt now og s)) = tf_activeTurn s"
  "tf_compaction (tf_do x (flow_begins_prompt now og s)) = tf_compaction s"
  by (simp_all add: flow_defs flow_begins_prompt_def)

lemma makes_prompt:
  assumes "sound s"
  shows "makes s (if tf_activeTurn s = No_turn then [\<lparr>bs_input = i, bs_origin = og\<rparr>] else []) []
    (snd (prompt E now i og s))"
proof -
  let ?s = "tf_do (TO_record_prompt i og) (flow_begins_prompt now og s)"
  have m: "makes s [] [] ?s" by (rule makes_record [OF assms]) simp
  then have "sound ?s" by (simp add: makes_def)
  show ?thesis
  proof (cases "tf_activeTurn s = No_turn")
    case True
    then have "makes ?s [\<lparr>bs_input = i, bs_origin = og\<rparr>] [] (snd (launch E now i og ?s))"
      by (intro makes_launch \<open>sound ?s\<close>) simp
    from makes_after [OF m this] show ?thesis using True by (simp add: prompt_def)
  next
    case False
    then have "makes ?s [] [] (snd (launch E now i og ?s))"
      using makes_say [OF \<open>sound ?s\<close>] by (simp add: launch_def)
    from makes_after [OF m this] show ?thesis using False by (simp add: prompt_def)
  qed
qed

lemma makes_steer:
  assumes "sound s"
  shows "makes s [\<lparr>bs_input = i, bs_origin = og\<rparr>] [] (snd (steer E now i og s))"
proof -
  let ?s = "tf_do (TO_record_steer i og) (flow_begins_prompt now og s)"
  have m: "makes s [] [] ?s" by (rule makes_record [OF assms]) simp
  then have "sound ?s" by (simp add: makes_def)
  have "makes ?s [\<lparr>bs_input = i, bs_origin = og\<rparr>] [] (snd (steer E now i og s))"
    using makes_buffer [OF \<open>sound ?s\<close>] makes_launch [OF \<open>sound ?s\<close>]
    by (simp add: steer_def Let_def)
  from makes_after [OF m this] show ?thesis .
qed

lemma makes_requestPrompt:
  assumes "sound s"
  shows "makes s (if tf_activeTurn s = No_turn then [\<lparr>bs_input = i, bs_origin = og\<rparr>] else []) []
    (snd (requestPrompt E now i og s))"
proof -
  have "snd (requestPrompt E now i og s) = (if tf_activeTurn s = No_turn then snd (prompt E now i og s) else s)"
    by (auto simp: requestPrompt_def split: prod.split option.split)
  then show ?thesis using makes_prompt [OF assms] makes_refl [OF assms] by auto
qed


text \<open>What a cancel drops: the buffered inputs of the user, unless it names another turn.\<close>

definition cancelled_inputs :: "int option \<Rightarrow> TurnFlow \<Rightarrow> BufferedSteer list" where
  "cancelled_inputs turnId s =
     (if turnId \<noteq> None \<and> turnId \<noteq> Some (tf_turnId s) then []
      else filter (\<lambda>b. is_user_origin (bs_origin b)) (tf_steerBuffer s))"

lemma stage_aborted [simp]: "stage_of (w\<lparr>tw_aborted := r\<rparr>) = stage_of w"
  by (cases "tw_phase w") (simp_all add: stage_of_def)

lemma makes_abort:
  assumes "sound s"
  shows "makes s [] [] (abortTurn r s)"
  using assms
proof (cases rule: sound_cases)
  case rest
  then show ?thesis using makes_refl [OF assms] by (simp add: abortTurn_def)
next
  case (turn k w)
  show ?thesis
  proof (cases "tw_aborted w")
    case None
    let ?c = "foldl (\<lambda>c v. turn_aborted v c) (tf_compaction s) (tw_listeners w)"
    let ?s = "s\<lparr>tf_compaction := ?c\<rparr>"
    let ?t = "put_worker k (w\<lparr>tw_aborted := Some r\<rparr>) ?s"
    have l: "leads (stage_of w) s ?s"
      by (rule leads_compaction [OF leads_refl turn(6)]) (rule books_turn_aborted)
    have b: "fc_books ?c" using l turn assms by (simp add: leads_def holds_turn_def sound_def)
    have v: "view ?t = (view ?s)\<lparr>dv_workers := [(k, w\<lparr>tw_aborted := Some r\<rparr>)]\<rparr>" by (simp add: turn)
    have "sound ?t" unfolding sound_def v using turn b by (simp add: one_turn_def)
    moreover have "spec_of (view ?t) = at_stage (stage_of w) ?s"
      unfolding v by (intro spec_eqI) simp_all
    moreover have "abortTurn r s = ?t" using turn None by (simp add: abortTurn_def)
    ultimately show ?thesis using l turn(5) by (simp add: makes_def leads_def)
  next
    case (Some x)
    then show ?thesis using makes_refl [OF assms] turn by (simp add: abortTurn_def)
  qed
qed

lemma makes_cancel:
  assumes "sound s"
  shows "makes s [] (cancelled_inputs t s) (cancel t r s)"
proof -
  let ?s = "tf_do (TO_record_cancel t) s"
  have m: "makes s [] [] ?s" by (rule makes_say [OF assms]) simp
  then have sd: "sound ?s" by (simp add: makes_def)
  show ?thesis
  proof (cases "t \<noteq> None \<and> t \<noteq> Some (tf_turnId s)")
    case True
    then show ?thesis using m by (simp add: cancel_def cancelled_inputs_def)
  next
    case False
    let ?u = "?s\<lparr>tf_steerBuffer := filter (\<lambda>b. \<not> is_user_origin (bs_origin b)) (tf_steerBuffer ?s)\<rparr>"
    have b: "tf_steerBuffer ?s = tf_steerBuffer s" by (simp add: tf_do_def)
    have "makes ?s [] (filter (\<lambda>b. is_user_origin (bs_origin b)) (tf_steerBuffer s)) ?u"
      using one_move [OF spec_move.cancels [of "spec_of (view ?s)"]] sound_buffer [OF sd] b
      unfolding makes_def spec_buffer by simp
    then have c: "makes s [] (cancelled_inputs t s) ?u"
      using makes_after [OF m] False unfolding cancelled_inputs_def by (simp only: if_False)
    then have "makes ?u [] [] (abortTurn (case r of Some r \<Rightarrow> r | None \<Rightarrow> User_cancellation) ?u)"
      by (intro makes_abort) (simp add: makes_def)
    with c have "makes s [] (cancelled_inputs t s) (abortTurn (case r of Some r \<Rightarrow> r | None \<Rightarrow> User_cancellation) ?u)"
      unfolding makes_def using trans_silent by blast
    then show ?thesis using False unfolding cancel_def Let_def by (simp only: id_frame if_False)
  qed
qed

definition timer_wakes :: "ms \<Rightarrow> TurnFlow \<Rightarrow> bool" where
  "timer_wakes now s \<longleftrightarrow> tf_idleTimer s \<noteq> None \<and> tf_idleArmed s \<and> goal_is_active now s
     \<and> shouldSuppressGoalContinuationForBackground (tf_unfinished s) \<and> tf_activeTurn s = No_turn"

lemma makes_timer:
  assumes "sound s" and "tf_idleTimer s \<noteq> None"
  shows "makes s (if timer_wakes now s
      then [\<lparr>bs_input = [TextPart (te_wakePrompt E)], bs_origin = GOAL_BACKGROUND_IDLE_WAKE_ORIGIN\<rparr>] else []) []
    (fireGoalBackgroundIdleWake E now s)"
proof -
  let ?s = "s\<lparr>tf_idleTimer := None\<rparr>"
  let ?c = "clearGoalBackgroundIdleWake ?s"
  have g: "goal_is_active now ?s = goal_is_active now s" by (simp add: goal_is_active_def)
  have v: "view ?s = view s" "view ?c = view s" "view (rescheduleGoalBackgroundIdleWake E ?s) = view s" by simp_all
  have sd: "sound ?c" using assms(1) by (simp add: sound_def)
  note stay = makes_alike [OF assms(1) v(1)] makes_alike [OF assms(1) v(2)] makes_alike [OF assms(1) v(3)]
  show ?thesis
    using stay makes_after [OF stay(2) makes_steer [OF sd]] assms(2)
    by (simp add: fireGoalBackgroundIdleWake_def Let_def timer_wakes_def g)
qed

section \<open>The compaction\<close>

text \<open>An answer to the summarising worker that a well-behaved world gives: an \<open>AbortError\<close> only after the
  worker was aborted.\<close>

definition own_abort :: "TurnFlow \<Rightarrow> nat \<Rightarrow> thrown option \<Rightarrow> bool" where
  "own_abort s v e = (case e of None \<Rightarrow> True | Some x \<Rightarrow> is_abort x \<longrightarrow> aborted_in (tf_compaction s) v)"

fun honest :: "TurnFlow \<Rightarrow> tf_op \<Rightarrow> bool" where
  "honest s (Tf_pre_hook v e setup) \<longleftrightarrow> own_abort s v e \<and> own_abort s v setup"
| "honest s (Tf_answer v out) \<longleftrightarrow> (case out of Inl x \<Rightarrow> own_abort s v (Some x) | Inr y \<Rightarrow> True)"
| "honest s (Tf_slept v e) \<longleftrightarrow> own_abort s v e"
| "honest s (Tf_reinjected v e) \<longleftrightarrow> own_abort s v e"
| "honest s x \<longleftrightarrow> True"

definition rests_empty :: "TurnFlow \<Rightarrow> bool" where
  "rests_empty s \<longleftrightarrow> rest_is_empty (spec_of (view s))"

lemma makes_holding:
  assumes "sound s" and "fc_books c" and "fc_workers c \<noteq> [] \<or> tf_activeTurn s \<noteq> No_turn \<or> tf_steerBuffer s = []"
  shows "makes s [] [] (s\<lparr>tf_compaction := c\<rparr>)"
proof -
  let ?t = "s\<lparr>tf_compaction := c\<rparr>"
  have a: "ts_stage (spec_of (view s)) \<noteq> Idle \<or> tf_activeTurn s = No_turn"
    by (cases rule: sound_cases [OF assms(1)]) simp_all
  have "spec_moves (spec_of (view s)) [] [] ((spec_of (view s))\<lparr>ts_holding := fc_workers c \<noteq> []\<rparr>)"
    using assms(3) a by (intro one_move spec_move.holds) auto
  moreover have "(spec_of (view s))\<lparr>ts_holding := fc_workers c \<noteq> []\<rparr> = spec_of (view ?t)"
    by (intro spec_eqI) (simp_all add: spec_of_def)
  moreover have "sound ?t" using assms(1,2) by (simp add: sound_def)
  ultimately show ?thesis by (simp add: makes_def)
qed

lemma makes_finished:
  assumes "sound s" and "fc_books c"
  shows "makes s [] [] (onCompactionFinished E now (s\<lparr>tf_compaction := c\<rparr>))"
proof (cases "tf_steerBuffer s")
  case Nil
  then show ?thesis using makes_holding [OF assms] by (simp add: onCompactionFinished_def)
next
  case (Cons b bs)
  let ?t = "s\<lparr>tf_compaction := c\<rparr>"
  have st: "sound ?t" using assms by (simp add: sound_def)
  from assms(1) show ?thesis
  proof (cases rule: sound_cases)
    case (turn k w)
    let ?f = "snd (flushSteerBuffer now ?t)"
    have l: "leads (stage_of w) s ?f"
      using turn(6) assms(2) by (intro leads_flush leads_compaction leads_refl) simp_all
    have ws: "tf_workers ?f = tf_workers s" using arg_cong [OF view_flush(1) [of now ?t], of dv_workers] by simp
    have "reaches (at_stage (stage_of w) s) ?f"
      using assms(1) turn by (intro stays_sim [OF l]) (simp_all add: holds_turn_def sound_def ws)
    then have "makes s [] [] ?f" using turn(5) by (intro makes_reaches) simp
    then show ?thesis using Cons turn(1) by (simp add: onCompactionFinished_def)
  next
    case rest
    let ?l = "launchBufferedSteerIfIdle E now ?t"
    have f: "onCompactionFinished E now ?t = ?l" using Cons rest(1) by (simp add: onCompactionFinished_def)
    consider (stay) "?l = ?t" "isCompacting c"
      | (go) w xs g where "begun (tf_turnId s + 1) b w xs"
        "view ?l = (view ?t)\<lparr>dv_buffer := bs, dv_active := Active (tf_nextSignal s),
          dv_next := tf_nextSignal s + 1, dv_turnId := tf_turnId s + 1,
          dv_workers := map_put (tf_nextSignal s) w (tf_workers s), dv_out := tf_out s @ xs, dv_gate := g\<rparr>"
      using buffered_cases [of ?t E now] rest(1) Cons by auto
    then show ?thesis
    proof cases
      case stay
      then have "fc_workers c \<noteq> []" using compacting_holds [of ?t] assms(2) by simp
      then show ?thesis unfolding f using makes_holding [OF assms] stay(1) by simp
    next
      case (go w xs g)
      let ?h = "fc_workers c \<noteq> []"
      have "spec_move (at_stage Idle s) [] [] ((at_stage Idle s)\<lparr>ts_buffer := bs, ts_stage := Pending b,
          ts_turnId := ts_turnId (at_stage Idle s) + 1, ts_holding := ?h\<rparr>)"
        by (rule spec_move.lets_go) (simp_all add: Cons)
      moreover have "(at_stage Idle s)\<lparr>ts_buffer := bs, ts_stage := Pending b,
          ts_turnId := ts_turnId (at_stage Idle s) + 1, ts_holding := ?h\<rparr>
          = (at_stage (Pending b) ?t)\<lparr>ts_buffer := bs, ts_turnId := tf_turnId ?t + 1\<rparr>"
        by (intro spec_eqI) simp_all
      ultimately have m: "spec_move (at_stage Idle s) [] []
          ((at_stage (Pending b) ?t)\<lparr>ts_buffer := bs, ts_turnId := tf_turnId ?t + 1\<rparr>)" by (simp only:)
      have v: "view ?l = (view ?t)\<lparr>dv_buffer := bs, dv_active := Active (tf_nextSignal s),
          dv_next := tf_nextSignal s + 1, dv_turnId := tf_turnId ?t + 1,
          dv_workers := [(tf_nextSignal s, w)], dv_out := tf_out ?t @ xs @ [], dv_gate := g\<rparr>"
        unfolding go(2) rest(2) by simp
      have g1: "begun (tf_turnId ?t + 1) b w xs" using go(1) by simp
      have bk: "books_ok (view ?t)" using assms(2) by simp
      show ?thesis
        unfolding f using launched [OF g1 bk v m] rest(3) by (simp add: makes_def)
    qed
  qed
qed

lemma makes_compaction:
  assumes "sound s" and "rests_empty s"
    and c: "c' = fc_step (te_compaction E) (te_micro E) (te_instruction E) (te_prefix E) (te_todos E) (tf_compaction s) (now, x)"
    and "fc_books c'" and "accounted (tf_compaction s) c'"
  shows "makes s [] [] (compaction_op E now x s)"
proof (cases "finishes_compaction (tf_compaction s) c'")
  case True
  then show ?thesis
    using makes_finished [OF assms(1,4), of E now] by (simp add: compaction_op_def c [symmetric])
next
  case False
  then have w: "fc_workers (tf_compaction s) \<noteq> [] \<Longrightarrow> fc_workers c' \<noteq> []" using assms(5) by (simp add: accounted_def)
  have "fc_workers c' \<noteq> [] \<or> tf_activeTurn s \<noteq> No_turn \<or> tf_steerBuffer s = []"
    using assms(2) w by (cases rule: sound_cases [OF assms(1)]) (auto simp: rests_empty_def rest_is_empty_def)
  from makes_holding [OF assms(1,4) this] show ?thesis
    using False by (simp add: compaction_op_def c [symmetric])
qed

end
