(* ===== verification/Turn_Runs.thy ===== *)
theory Turn_Runs
  imports Turn_Steps
begin

text \<open>
  Runs of the turn driver from a restored agent: each step is a sequence of moves of the machine of
  \<open>Turn_Spec\<close>, labelled with the inputs it takes from its callers and those it drops.
\<close>

section \<open>One step\<close>

definition the_input :: "ContentPart list \<Rightarrow> PromptOrigin \<Rightarrow> BufferedSteer" where
  "the_input i og = \<lparr>bs_input = i, bs_origin = og\<rparr>"

text \<open>The inputs an operation hands over. A prompt is turned away while a turn is active.\<close>

fun handed_over :: "turn_env \<Rightarrow> TurnFlow \<Rightarrow> ms \<times> tf_op \<Rightarrow> BufferedSteer list" where
  "handed_over E s (now, Tf_prompt i og) = (if tf_activeTurn s = No_turn then [the_input i og] else [])"
| "handed_over E s (now, Tf_requestPrompt i og) = (if tf_activeTurn s = No_turn then [the_input i og] else [])"
| "handed_over E s (now, Tf_steer i og) = [the_input i og]"
| "handed_over E s (now, Tf_retry t) =
     (if tf_activeTurn s = No_turn then [the_input [] (simple_origin (OK_retry t))] else [])"
| "handed_over E s (now, Tf_idle_timer) =
     (if timer_wakes now s then [the_input [TextPart (te_wakePrompt E)] GOAL_BACKGROUND_IDLE_WAKE_ORIGIN] else [])"
| "handed_over E s (now, x) = []"

fun dropped_by :: "TurnFlow \<Rightarrow> tf_op \<Rightarrow> BufferedSteer list" where
  "dropped_by s (Tf_cancel t r) = cancelled_inputs t s"
| "dropped_by s x = []"

definition resting :: "TurnFlow \<Rightarrow> bool" where
  "resting s \<longleftrightarrow> sound s \<and> rests_empty s"

lemma makes_operation:
  assumes "sound s" and "rests_empty s"
    and "fc_books (fc_step (te_compaction E) (te_micro E) (te_instruction E) (te_prefix E) (te_todos E) (tf_compaction s) (now, x))"
    and "accounted (tf_compaction s)
      (fc_step (te_compaction E) (te_micro E) (te_instruction E) (te_prefix E) (te_todos E) (tf_compaction s) (now, x))"
  shows "makes s [] [] (compaction_op E now x s)"
  by (rule makes_compaction [OF assms(1,2) refl assms(3,4)])

lemma step_makes:
  assumes "sound s" and "rests_empty s" and h: "honest s x"
  shows "makes s (handed_over E s (now, x)) (dropped_by s x) (tf_step E s (now, x))"
proof -
  have b: "fc_books (tf_compaction s)" using assms(1) by (simp add: sound_def)
  note op = makes_operation [OF assms(1,2)]
  note loop = makes_reaches [OF in_loop_sim [OF assms(1)]]
  have own: "own_abort s v e \<Longrightarrow> e = Some y \<Longrightarrow> is_abort y \<Longrightarrow> aborted_in (tf_compaction s) v" for v e y
    by (simp add: own_abort_def)
  show ?thesis
  proof (cases x)
    case (Tf_prompt i og)
    then show ?thesis using makes_prompt [OF assms(1), of i og E now] by (cases "tf_activeTurn s = No_turn") (simp_all add: the_input_def)
  next
    case (Tf_requestPrompt i og)
    then show ?thesis using makes_requestPrompt [OF assms(1), of i og E now] by (cases "tf_activeTurn s = No_turn") (simp_all add: the_input_def)
  next
    case (Tf_steer i og)
    then show ?thesis using makes_steer [OF assms(1)] by (simp add: the_input_def)
  next
    case (Tf_retry t)
    then show ?thesis using makes_prompt [OF assms(1), of "[]" "simple_origin (OK_retry t)" E now] by (cases "tf_activeTurn s = No_turn") (simp_all add: the_input_def retry_def)
  next
    case (Tf_cancel t r)
    then show ?thesis using makes_cancel [OF assms(1)] by simp
  next
    case (Tf_background ts)
    have "view (noteBackgroundActivity E (s\<lparr>tf_unfinished := ts\<rparr>)) = view s"
      by (simp add: noteBackgroundActivity_def)
    then show ?thesis using makes_alike [OF assms(1)] Tf_background by simp
  next
    case Tf_idle_timer
    show ?thesis
    proof (cases "tf_idleTimer s")
      case None
      then show ?thesis using makes_refl [OF assms(1)] by (simp add: Tf_idle_timer timer_wakes_def)
    next
      case (Some u)
      then show ?thesis using makes_timer [OF assms(1), of now E]
        by (cases "timer_wakes now s") (simp_all add: Tf_idle_timer the_input_def)
    qed
  next
    case Tf_note_outcome
    then show ?thesis using makes_alike [OF assms(1), of "s\<lparr>tf_pendingGoalOutcome := True\<rparr>"] by simp
  next
    case (Tf_goal g)
    then show ?thesis using makes_alike [OF assms(1), of "on_goal (\<lambda>m. goal_step m (now, g)) s"] by simp
  next
    case (Tf_context y)
    have "accounted (tf_compaction s) (tf_compaction s\<lparr>fc_context := z\<rparr>)" for z by (simp add: accounted_def)
    then show ?thesis using op b Tf_context by simp
  next
    case (Tf_compact i)
    have "accounted (tf_compaction s) (snd (fc_begin (te_compaction E) now (hasActiveTurn s) Src_manual i (tf_compaction s)))"
      using begin_frame by (intro accounted_kept)
    then show ?thesis using op books_begin [OF b] Tf_compact by simp
  next
    case Tf_cancel_compaction
    then show ?thesis using op by (simp add: accounted_def)
  next
    case (Tf_pre_hook v e u)
    then have "\<And>y. e = Some y \<or> u = Some y \<Longrightarrow> is_abort y \<Longrightarrow> aborted_in (tf_compaction s) v"
      using h own by (cases e; cases u) auto
    from pre_hook_ok [OF b this] show ?thesis using op Tf_pre_hook by simp
  next
    case (Tf_answer v out)
    have "\<And>y. out = Inl y \<Longrightarrow> is_abort y \<Longrightarrow> aborted_in (tf_compaction s) v"
      using h Tf_answer own by simp
    from generate_ok [OF b this] show ?thesis using op Tf_answer by simp
  next
    case (Tf_slept v e)
    then have "\<And>y. e = Some y \<Longrightarrow> is_abort y \<Longrightarrow> aborted_in (tf_compaction s) v" using h own by simp
    from slept_ok [OF b this] show ?thesis using op Tf_slept by simp
  next
    case (Tf_refreshed v)
    then show ?thesis using op refreshed_ok [OF b] by simp
  next
    case (Tf_reinjected v e)
    then have "\<And>y. e = Some y \<Longrightarrow> is_abort y \<Longrightarrow> aborted_in (tf_compaction s) v" using h own by simp
    from reinjected_ok [OF b this] show ?thesis using op Tf_reinjected by simp
  next
    case (Tf_goal_settled k)
    then show ?thesis using makes_reaches [OF goal_settled_sim [OF assms(1)]] by simp
  next
    case (Tf_prompt_hook k e rs)
    then show ?thesis using makes_reaches [OF prompt_hook_sim [OF assms(1)]] by simp
  next
    case (Tf_loaded k e)
    then show ?thesis using makes_reaches [OF loaded_sim [OF assms(1)]] by simp
  next
    case (Tf_before_step k)
    then show ?thesis using loop [of k "beforeStep E now k"] beforeStep_sim by simp
  next
    case (Tf_settled k)
    then show ?thesis using makes_reaches [OF compaction_settled_sim [OF assms(1)]] by simp
  next
    case (Tf_event k hk)
    then show ?thesis using loop [of k "\<lambda>w sl. observe_event E hk (tw_turnId w)"] observe_event_sim by simp
  next
    case (Tf_usage k n)
    then show ?thesis using loop [of k "recordStepUsage now n k"] recordStepUsage_sim by simp
  next
    case (Tf_after_step k q u)
    then show ?thesis using loop [of k "afterStep E now q u"] afterStep_sim by simp
  next
    case (Tf_should_continue k q n)
    then show ?thesis using loop [of k "shouldContinueAfterStop E now q n k"] shouldContinue_sim by simp
  next
    case (Tf_stop_hook k e y)
    then show ?thesis using makes_reaches [OF stop_hook_sim [OF assms(1)]] by simp
  next
    case (Tf_returned k r)
    then show ?thesis
      using loop [of k "\<lambda>w sl. end_turn E now k w (stop_reason_end r) None False"] end_turn_sim by simp
  next
    case (Tf_threw k e n)
    then show ?thesis using loop [of k "run_turn_threw E now e n k"] run_turn_threw_sim by simp
  qed
qed

section \<open>Runs\<close>

text \<open>An answer that is not honest does not happen.\<close>

definition honest_step :: "turn_env \<Rightarrow> TurnFlow \<Rightarrow> ms \<times> tf_op \<Rightarrow> TurnFlow" where
  "honest_step E s x = (if honest s (snd x) then tf_step E s x else s)"

definition driven :: "turn_env \<Rightarrow> TurnFlow \<Rightarrow> (ms \<times> tf_op) list \<Rightarrow> TurnFlow" where
  "driven E = run_ops (honest_step E)"

fun handed_in :: "turn_env \<Rightarrow> TurnFlow \<Rightarrow> (ms \<times> tf_op) list \<Rightarrow> BufferedSteer list" where
  "handed_in E s [] = []"
| "handed_in E s (x # xs) =
     (if honest s (snd x) then handed_over E s x else []) @ handed_in E (honest_step E s x) xs"

fun dropped_in :: "turn_env \<Rightarrow> TurnFlow \<Rightarrow> (ms \<times> tf_op) list \<Rightarrow> BufferedSteer list" where
  "dropped_in E s [] = []"
| "dropped_in E s (x # xs) =
     (if honest s (snd x) then dropped_by s (snd x) else []) @ dropped_in E (honest_step E s x) xs"

lemma makes_resting: "resting s \<Longrightarrow> makes s i o1 t \<Longrightarrow> resting t"
  using moves_keep(2) by (auto simp: resting_def makes_def rests_empty_def)

lemma honest_makes:
  assumes "resting s"
  shows "makes s (if honest s (snd x) then handed_over E s x else []) (if honest s (snd x) then dropped_by s (snd x) else [])
    (honest_step E s x)"
  using step_makes [of s "snd x" E "fst x"] makes_refl [of s] assms by (simp add: resting_def honest_step_def)

interpretation driver: invariant_component "honest_step E" resting for E
  by unfold_locales (metis honest_makes makes_resting)

lemma driven_simps [simp]: "driven E s [] = s" "driven E s (x # xs) = driven E (honest_step E s x) xs"
  by (simp_all add: driven_def)

lemma driven_resting: "resting s \<Longrightarrow> resting (driven E s xs)"
  unfolding driven_def by (rule driver.run_inv)

lemma driven_makes: "resting s \<Longrightarrow> makes s (handed_in E s xs) (dropped_in E s xs) (driven E s xs)"
proof (induction xs arbitrary: s)
  case Nil
  then show ?case using makes_refl by (simp add: resting_def)
next
  case (Cons x xs)
  note h = honest_makes [OF Cons.prems, of x E]
  have "makes (honest_step E s x) (handed_in E (honest_step E s x) xs) (dropped_in E (honest_step E s x) xs)
      (driven E (honest_step E s x) xs)"
    by (rule Cons.IH [OF makes_resting [OF Cons.prems h]])
  with h show ?case unfolding makes_def using moves_trans by force
qed

section \<open>Restoring\<close>

text \<open>The records the driver restores. A restored cancel writes no record.\<close>

datatype turn_record =
    TR_prompt
  | TR_steer "ContentPart list" PromptOrigin
  | TR_cancel "int option"
  | TR_turn_id int

definition restoreCancel :: "int option \<Rightarrow> TurnFlow \<Rightarrow> TurnFlow" where
  "restoreCancel turnId s =
     (if turnId \<noteq> None \<and> turnId \<noteq> Some (tf_turnId s) then s
      else abortTurn User_cancellation
             (s\<lparr>tf_steerBuffer := filter (\<lambda>b. \<not> is_user_origin (bs_origin b)) (tf_steerBuffer s)\<rparr>))"

fun restore_turn :: "TurnFlow \<Rightarrow> turn_record \<Rightarrow> TurnFlow" where
  "restore_turn s TR_prompt = restorePrompt s"
| "restore_turn s (TR_steer i og) = restoreSteer i og s"
| "restore_turn s (TR_cancel t) = restoreCancel t s"
| "restore_turn s (TR_turn_id n) = observeRestoredTurnId n s"

text \<open>A new agent that has restored the records \<open>rs\<close> of its turns.\<close>

definition resumed :: "ContextMemory \<Rightarrow> GoalMode \<Rightarrow> string \<Rightarrow> turn_record list \<Rightarrow> TurnFlow" where
  "resumed c g p rs = flow_finishResume (run_ops restore_turn (new_flow c g p) rs)"

definition unstarted :: "TurnFlow \<Rightarrow> bool" where
  "unstarted s \<longleftrightarrow> tf_workers s = [] \<and> tf_out s = [] \<and> (\<forall>k. tf_activeTurn s \<noteq> Active k)
     \<and> fc_workers (tf_compaction s) = [] \<and> fc_compacting (tf_compaction s) = None"

interpretation restoring: invariant_component restore_turn unstarted
proof unfold_locales
  fix s x
  assume "unstarted s"
  then show "unstarted (restore_turn s x)"
    by (cases x) (auto simp: unstarted_def restorePrompt_def restoreSteer_def restoreCancel_def
        observeRestoredTurnId_def abortTurn_def split: active_turn.split)
qed

lemma resumed_start:
  "tf_activeTurn (resumed c g p rs) = No_turn" "tf_steerBuffer (resumed c g p rs) = []"
  "tf_out (resumed c g p rs) = []" "tf_workers (resumed c g p rs) = []" "resting (resumed c g p rs)"
proof -
  have "unstarted (new_flow c g p)" by (simp add: unstarted_def new_flow_def new_compaction_def)
  then have u: "unstarted (run_ops restore_turn (new_flow c g p) rs)" by (rule restoring.run_inv)
  then show b: "tf_activeTurn (resumed c g p rs) = No_turn" "tf_steerBuffer (resumed c g p rs) = []"
    "tf_out (resumed c g p rs) = []" "tf_workers (resumed c g p rs) = []"
    by (auto simp: resumed_def flow_finishResume_def unstarted_def intro: active_turn.exhaust)
  have "fc_compacting (tf_compaction (resumed c g p rs)) = None"
    using u by (simp add: resumed_def flow_finishResume_def unstarted_def)
  then show "resting (resumed c g p rs)"
    using b by (simp add: resting_def sound_def one_turn_def rests_empty_def rest_is_empty_def books_none)
qed

lemma resumed_spec:
  "ts_stage (spec_of (view (resumed c g p rs))) = Idle" "ts_buffer (spec_of (view (resumed c g p rs))) = []"
  "ts_out (spec_of (view (resumed c g p rs))) = []"
  by (simp_all add: resumed_start spec_of_def)

lemmas resumed_makes = driven_makes [OF resumed_start(5)]

lemma spec_out: "ts_out (spec_of (view s)) = tf_out s"
  by (simp add: spec_of_def)

text \<open>The ids of the turns that the log names.\<close>

lemma restored_ids:
  "tf_turnId s \<le> tf_turnId (run_ops restore_turn s rs)"
  "TR_turn_id n \<in> set rs \<Longrightarrow> n \<le> tf_turnId (run_ops restore_turn s rs)"
proof -
  have step: "tf_turnId s \<le> tf_turnId (restore_turn s x)" for s x
    by (cases x) (auto simp: restorePrompt_def restoreSteer_def restoreCancel_def observeRestoredTurnId_def
        abortTurn_def put_worker_def split: active_turn.split option.split)
  show m: "tf_turnId s \<le> tf_turnId (run_ops restore_turn s rs)" for s rs
    by (induction rs arbitrary: s) (auto intro: order_trans [OF step])
  show "TR_turn_id n \<in> set rs \<Longrightarrow> n \<le> tf_turnId (run_ops restore_turn s rs)"
  proof (induction rs arbitrary: s)
    case (Cons x xs)
    show ?case
    proof (cases "x = TR_turn_id n")
      case True
      have "n \<le> tf_turnId (restore_turn s x)" using True by (simp add: observeRestoredTurnId_def)
      then show ?thesis using m [of "restore_turn s x" xs] by simp
    qed (use Cons in auto)
  qed simp
qed

text \<open>
  What resuming an agent does to its turns (\<open>Agent.resume\<close> of \<open>agent/index.ts\<close>): the records are replayed; the
  background tasks are reconciled, which steers a notice for each task that failed or was lost; then
  the driver finishes.
\<close>

definition resume_agent ::
    "turn_env \<Rightarrow> ms \<Rightarrow> turn_record list \<Rightarrow> BufferedSteer list \<Rightarrow> TurnFlow \<Rightarrow> TurnFlow" where
  "resume_agent E now rs notices s =
     flow_finishResume
       (foldl (\<lambda>t b. snd (steer E now (bs_input b) (bs_origin b) t)) (run_ops restore_turn s rs) notices)"

lemma resuming_steers:
  assumes "tf_activeTurn s = Resuming"
  shows "tf_activeTurn (foldl (\<lambda>t b. snd (steer E now (bs_input b) (bs_origin b) t)) s bs) = Resuming
    \<and> messages_of (tf_out (foldl (\<lambda>t b. snd (steer E now (bs_input b) (bs_origin b) t)) s bs)) = messages_of (tf_out s)
    \<and> tf_workers (foldl (\<lambda>t b. snd (steer E now (bs_input b) (bs_origin b) t)) s bs) = tf_workers s
    \<and> tf_context (foldl (\<lambda>t b. snd (steer E now (bs_input b) (bs_origin b) t)) s bs) = tf_context s"
  using assms
proof (induction bs arbitrary: s)
  case (Cons b bs)
  let ?t = "snd (steer E now (bs_input b) (bs_origin b) s)"
  have t: "tf_activeTurn ?t = Resuming" "messages_of (tf_out ?t) = messages_of (tf_out s)" "tf_workers ?t = tf_workers s"
    "tf_context ?t = tf_context s"
    using Cons.prems by (auto simp: steer_def Let_def flow_defs flow_begins_prompt_def tf_context_def)
  from Cons.IH [OF t(1)] t show ?case by simp
qed simp

end
