(* ===== verification/Turn_Flow_Properties.thy ===== *)
theory Turn_Flow_Properties
  imports Turn_Runs Compaction_Round Context_Properties Goal_Properties
begin

text \<open>
  The properties of the turn driver: of every run of an agent that was restored from any log, and of
  what happens to inputs that arrive while the agent is restored or that are cancelled.
\<close>

section \<open>The machine\<close>

text \<open>
  C11: Refinement: at rest, every operation of the driver and every answer it waits for is a sequence of moves
  of the abstract machine of turns, labelled with exactly the inputs that the operation takes from its caller and
  those a cancel drops, and the driver is at rest again: at most one worker exists, it is the active
  turn, and without a turn or a compaction at work nothing is buffered. The answers are honest: the
  summariser throws an \<open>AbortError\<close> only after its worker was aborted.
\<close>

theorem driver_refines_turn_machine:
  assumes "resting s" and "honest s x"
  shows "spec_moves (spec_of (view s)) (handed_over E s (now, x)) (dropped_by s x) (spec_of (view (tf_step E s (now, x))))
    \<and> resting (tf_step E s (now, x))"
proof -
  have m: "makes s (handed_over E s (now, x)) (dropped_by s x) (tf_step E s (now, x))"
    using step_makes assms by (simp add: resting_def)
  then show ?thesis using makes_resting [OF assms(1) m] by (simp add: makes_def)
qed

definition demo_flow_env :: turn_env where
  "demo_flow_env = \<lparr>te_compaction = demo_env, te_micro = (\<lambda>ms. ms), te_instruction = ''go'', te_prefix = ''S'',
     te_todos = [], te_workflow = None, te_rules = None, te_discuss = False, te_maxSteps = None,
     te_idleMinutes = None, te_goalPrompt = ''go on'', te_outputLimitPrompt = ''continue'', te_wakePrompt = ''wake''\<rparr>"

definition demo_agent :: "turn_record list \<Rightarrow> TurnFlow" where
  "demo_agent = resumed new_context (new_goal_mode True) ''S''"

lemma driver_refines_turn_machine_witness:
  "spec_moves (spec_of (view (demo_agent [TR_prompt]))) [the_input [TextPart ''hi''] USER_PROMPT_ORIGIN] []
     (spec_of (view (tf_step demo_flow_env (demo_agent [TR_prompt]) (1, Tf_steer [TextPart ''hi''] USER_PROMPT_ORIGIN))))"
  using driver_refines_turn_machine [of "demo_agent [TR_prompt]" "Tf_steer [TextPart ''hi''] USER_PROMPT_ORIGIN" demo_flow_env 1]
  by (simp add: demo_agent_def resumed_start)



text \<open>
  C13: No input is lost or repeated: in every run of an agent from the end of its resume on, with honest
  answers of the summariser, the inputs that reached the conversation, those still buffered or held by a turn that has not started, and those dropped by a cancel are,
  with their multiplicities, the inputs that callers handed over. Inputs under an origin that the
  driver itself uses (its own continuations and gates) are not counted; a prompt turned away because a
  turn is active is not handed over.
\<close>

theorem no_input_lost:
  "let s = resumed c g p rs; s' = driven E s xs in
    delivered (tf_out s') + in_hand (spec_of (view s')) + of_callers (dropped_in E s xs) = of_callers (handed_in E s xs)"
proof -
  define s where "s = resumed c g p rs"
  have "spec_moves (spec_of (view s)) (handed_in E s xs) (dropped_in E s xs) (spec_of (view (driven E s xs)))"
    using resumed_makes by (simp add: s_def makes_def)
  from moves_conserve [OF this] show ?thesis
    by (simp add: spec_out s_def in_hand_def resumed_spec delivered_def resumed_start Let_def)
qed

text \<open>
  An idle driver owes nothing: when no turn is registered and no compaction is at work, the buffer is
  empty, and every input handed over reached the conversation or was dropped by a cancel.
\<close>

theorem idle_driver_owes_nothing:
  fixes c :: ContextMemory and g :: GoalMode and p :: string and rs :: "turn_record list"
  defines "s \<equiv> resumed c g p rs"
  assumes "tf_activeTurn (driven E s xs) = No_turn" and "fc_workers (tf_compaction (driven E s xs)) = []"
  shows "tf_steerBuffer (driven E s xs) = []
    \<and> delivered (tf_out (driven E s xs)) + of_callers (dropped_in E s xs) = of_callers (handed_in E s xs)"
proof -
  let ?t = "driven E s xs"
  have m: "resting ?t" "spec_moves (spec_of (view s)) (handed_in E s xs) (dropped_in E s xs) (spec_of (view ?t))"
    using driven_resting [OF resumed_start(5)] resumed_makes by (simp_all add: s_def makes_def)
  then have st: "ts_stage (spec_of (view ?t)) = Idle"
    using assms(2) by (auto simp: resting_def sound_def one_turn_def)
  then have b: "tf_steerBuffer ?t = []"
    using m(1) assms(3) by (auto simp: resting_def rests_empty_def rest_is_empty_def)
  have "in_hand (spec_of (view ?t)) = {#}" using st b by (simp add: in_hand_def)
  then show ?thesis
    using moves_conserve [OF m(2)] b by (simp add: spec_out s_def in_hand_def resumed_spec delivered_def resumed_start)
qed

definition demo_run :: "(ms \<times> tf_op) list" where
  "demo_run = [(1, Tf_prompt [TextPart ''hi''] (system_trigger ''cron'')), (2, Tf_loaded 0 None),
     (3, Tf_returned 0 (TurnStopped SR_end_turn))]"

lemma demo_run_ends:
  "tf_activeTurn (driven demo_flow_env (demo_agent []) demo_run) = No_turn
   \<and> fc_workers (tf_compaction (driven demo_flow_env (demo_agent []) demo_run)) = []"
  by code_simp

lemma idle_driver_owes_nothing_witness:
  "tf_steerBuffer (driven demo_flow_env (demo_agent []) demo_run) = []
   \<and> delivered (tf_out (driven demo_flow_env (demo_agent []) demo_run)) + of_callers (dropped_in demo_flow_env (demo_agent []) demo_run)
     = of_callers (handed_in demo_flow_env (demo_agent []) demo_run)"
  using idle_driver_owes_nothing [of demo_flow_env new_context "new_goal_mode True" "''S''" "[]" demo_run] demo_run_ends
  by (simp add: demo_agent_def)

section \<open>Continuations\<close>

lemma resumed_continuing:
  assumes "list_all foreign (handed_in E (resumed c g p rs) xs)"
  shows "continuing (spec_of (view (driven E (resumed c g p rs) xs)))"
proof (rule moves_continuing [where ?o1.0 = "dropped_in E (resumed c g p rs) xs", OF _ assms])
  show "continuing (spec_of (view (resumed c g p rs)))"
    unfolding continuing_def resumed_spec by (simp add: continued_rightly_def)
qed (use resumed_makes in \<open>simp add: makes_def\<close>)

text \<open>
  A turn is continued only so often: if no caller borrows the origins of the driver, then at any moment
  of any run the last turn has got at most three continuations after an output limit and at most
  one from the Stop hook.
\<close>

theorem continuations_bounded:
  assumes "list_all foreign (handed_in E (resumed c g p rs) xs)"
  shows "fst (tally (tf_out (driven E (resumed c g p rs) xs))) \<le> 3 \<and> snd (tally (tf_out (driven E (resumed c g p rs) xs))) \<le> 1"
  using resumed_continuing [OF assms] by (simp add: continuing_def spec_out OUTPUT_LIMIT_CONTINUATIONS_PER_TURN_def)

definition limit_run :: "(ms \<times> tf_op) list" where
  "limit_run = [(1, Tf_prompt [TextPart ''hi''] USER_PROMPT_ORIGIN), (2, Tf_prompt_hook 0 None None), (3, Tf_loaded 0 None),
     (4, Tf_should_continue 0 True 1), (5, Tf_should_continue 0 True 2), (6, Tf_should_continue 0 True 3),
     (7, Tf_should_continue 0 True 4), (8, Tf_stop_hook 0 None (Some ''not yet'')), (9, Tf_should_continue 0 True 5)]"

lemma limit_run_foreign: "list_all foreign (handed_in demo_flow_env (demo_agent []) limit_run)"
  by (simp add: limit_run_def demo_agent_def resumed_start the_input_def foreign_def own_origin_def USER_PROMPT_ORIGIN_def
      OUTPUT_LIMIT_ORIGIN_def STOP_HOOK_ORIGIN_def NORI_REVIEW_GATE_ORIGIN_def GOAL_CONTINUATION_ORIGIN_def
      system_trigger_def simple_origin_def)

lemma continuations_bounded_witness:
  "fst (tally (tf_out (driven demo_flow_env (demo_agent []) limit_run))) \<le> 3
   \<and> snd (tally (tf_out (driven demo_flow_env (demo_agent []) limit_run))) \<le> 1"
  using continuations_bounded [of demo_flow_env new_context "new_goal_mode True" "''S''" "[]" limit_run] limit_run_foreign
  by (simp add: demo_agent_def)

text \<open>
  C32: The driver continues a goal only after success: in a run of a restored agent, with honest answers of
  the summariser and if no caller borrows the origins of the driver, every
  turn that it starts with the continuation prompt comes after a turn that ended as completed, not
  after one that failed, was filtered or was cancelled.
\<close>

theorem goal_continues_after_completion:
  assumes "list_all foreign (handed_in E (resumed c g p rs) xs)"
    and "prefix (ys @ [TO_started i GOAL_CONTINUATION_ORIGIN]) (tf_out (driven E (resumed c g p rs) xs))"
  shows "last_end ys = Some End_completed"
  using resumed_continuing [OF assms(1)] assms(2) by (auto simp: continuing_def spec_out continued_rightly_def)

definition goal_run :: "(ms \<times> tf_op) list" where
  "goal_run = [(1, Tf_goal (Op_create ''id'' None ''tidy up'' None False A_user)),
     (2, Tf_prompt [TextPart ''hi''] (system_trigger ''cron'')), (3, Tf_goal_settled 0), (4, Tf_loaded 0 None),
     (5, Tf_returned 0 (TurnStopped SR_end_turn)), (6, Tf_goal_settled 0)]"

lemma goal_run_continues:
  "tf_out (driven demo_flow_env (demo_agent []) goal_run) =
     [TO_record_prompt [TextPart ''hi''] (system_trigger ''cron''), TO_usage_begin, TO_started 0 (system_trigger ''cron''),
      TO_user_message [TextPart ''hi''] (system_trigger ''cron''), TO_mcp_wait, TO_run_turn 0, TO_usage_end,
      TO_ended 0 End_completed None, TO_usage_begin, TO_started 1 GOAL_CONTINUATION_ORIGIN,
      TO_user_message [TextPart ''go on''] GOAL_CONTINUATION_ORIGIN, TO_mcp_wait]"
  by code_simp

lemma goal_run_foreign: "list_all foreign (handed_in demo_flow_env (demo_agent []) goal_run)"
  by (simp add: goal_run_def demo_agent_def resumed_start the_input_def foreign_def own_origin_def
      OUTPUT_LIMIT_ORIGIN_def STOP_HOOK_ORIGIN_def NORI_REVIEW_GATE_ORIGIN_def GOAL_CONTINUATION_ORIGIN_def
      system_trigger_def simple_origin_def)

lemma goal_continues_after_completion_witness:
  "last_end (take 9 (tf_out (driven demo_flow_env (demo_agent []) goal_run))) = Some End_completed"
proof -
  have "prefix (take 9 (tf_out (driven demo_flow_env (demo_agent []) goal_run)) @ [TO_started 1 GOAL_CONTINUATION_ORIGIN])
      (tf_out (driven demo_flow_env (demo_agent []) goal_run))"
    unfolding goal_run_continues by (simp add: numeral_eq_Suc)
  then show ?thesis
    using goal_continues_after_completion [of demo_flow_env new_context "new_goal_mode True" "''S''" "[]" goal_run]
      goal_run_foreign by (simp add: demo_agent_def)
qed

section \<open>Inputs that are lost\<close>

text \<open>
  Notices steered while an agent resumes are lost: when the replayed log leaves a turn open, as every log with a
  prompt does, what the reconciliation of background tasks steers is neither put into the conversation
  nor starts a turn, and the driver ends up idle with an empty buffer.
\<close>

theorem resume_discards_notices:
  fixes s :: TurnFlow and E :: turn_env and now :: ms and notices :: "BufferedSteer list"
  assumes "tf_activeTurn (run_ops restore_turn s rs) = Resuming"
  defines "t \<equiv> resume_agent E now rs notices s"
  shows "tf_activeTurn t = No_turn \<and> tf_steerBuffer t = [] \<and> tf_workers t = tf_workers (run_ops restore_turn s rs)
    \<and> messages_of (tf_out t) = messages_of (tf_out (run_ops restore_turn s rs))
    \<and> tf_context t = tf_context (run_ops restore_turn s rs)"
  using resuming_steers [OF assms(1), of E now notices]
  by (simp add: t_def resume_agent_def flow_finishResume_def tf_context_def)

lemma resume_discards_notices_witness:
  "tf_steerBuffer (resume_agent demo_flow_env 5 [TR_prompt, TR_turn_id 0]
      [the_input [TextPart ''task lost''] (system_trigger ''task'')] (new_flow new_context (new_goal_mode True) ''S'')) = []
   \<and> tf_workers (resume_agent demo_flow_env 5 [TR_prompt, TR_turn_id 0]
      [the_input [TextPart ''task lost''] (system_trigger ''task'')] (new_flow new_context (new_goal_mode True) ''S'')) = []"
  using resume_discards_notices [of "new_flow new_context (new_goal_mode True) ''S''" "[TR_prompt, TR_turn_id 0]" demo_flow_env 5
      "[the_input [TextPart ''task lost''] (system_trigger ''task'')]"]
  by (simp add: new_flow_def restorePrompt_def observeRestoredTurnId_def)

lemma abort_frame [simp]:
  "tf_goal (abortTurn r s) = tf_goal s" "tf_steerBuffer (abortTurn r s) = tf_steerBuffer s"
  by (simp_all add: abortTurn_def put_worker_def split: active_turn.split option.split)

lemma abort_context [simp]: "fc_context (tf_compaction (abortTurn r s)) = fc_context (tf_compaction s)"
proof -
  have c: "fc_context (fc_cancel c) = fc_context c" for c
    by (simp add: fc_cancel_def fc_emit_def fc_log_def Let_def split: option.split prod.split)
  have "fc_context (foldl (\<lambda>c v. turn_aborted v c) c vs) = fc_context c" for c vs
    by (induction vs arbitrary: c) (simp_all add: turn_aborted_def c)
  then show ?thesis by (simp add: abortTurn_def put_worker_def split: active_turn.split option.split)
qed

text \<open>
  A cancelled steer leaves its checkpoint: a user input steered into a running turn and dropped by the cancel
  of that turn is gone from the buffer and never was in the conversation, but the checkpoint of the goal taken
  for it stays; undoing one prompt then sets the goal back to that steer and not to the last prompt of
  the conversation.
\<close>

theorem cancelled_steer_keeps_checkpoint:
  fixes s :: TurnFlow and E :: turn_env and now :: ms and i :: "ContentPart list" and r :: "abort_reason option"
  assumes "tf_activeTurn s \<noteq> No_turn" and "is_user_origin og" and "\<not> rewindCheckpointPrepared (tf_goal s)"
  defines "t \<equiv> cancel None r (snd (steer E now i og s))"
  shows "tf_steerBuffer t = filter (\<lambda>b. \<not> is_user_origin (bs_origin b)) (tf_steerBuffer s) \<and> tf_context t = tf_context s
    \<and> length (rewindCheckpoints (tf_goal t)) = length (rewindCheckpoints (tf_goal s)) + 1
    \<and> gm_state (rewind now1 1 (tf_goal t)) = stateFromRewindSnapshot now1 (rewindSnapshot now (tf_goal s))"
proof -
  let ?s1 = "tf_do (TO_record_steer i og) (flow_begins_prompt now og s)"
  have st: "snd (steer E now i og s) = ?s1\<lparr>tf_steerBuffer := tf_steerBuffer ?s1 @ [\<lparr>bs_input = i, bs_origin = og\<rparr>]\<rparr>"
    using assms(1) by (simp add: steer_def Let_def)
  have g: "tf_goal t = on_agent (logRecord now R_user_prompt) (beginRewindablePrompt now False (tf_goal s))"
    using assms(2) unfolding t_def st by (simp add: cancel_def flow_begins_prompt_def flow_defs)
  have b: "tf_steerBuffer t = filter (\<lambda>b. \<not> is_user_origin (bs_origin b)) (tf_steerBuffer s)"
    using assms(2) unfolding t_def st by (simp add: cancel_def flow_begins_prompt_def flow_defs)
  have c: "tf_context t = tf_context s"
    unfolding t_def st tf_context_def by (simp add: cancel_def flow_begins_prompt_def flow_defs)
  show ?thesis
    using assms(3) b c unfolding g
    by (simp add: beginRewindablePrompt_def Let_def rewind_def reset_to_def checkpoint_now_def
        emitStatusUpdated_def emitGoalUpdated_def nth_append)
qed

lemma running:
  "tf_activeTurn (driven demo_flow_env (demo_agent []) (take 1 demo_run)) \<noteq> No_turn
   \<and> \<not> rewindCheckpointPrepared (tf_goal (driven demo_flow_env (demo_agent []) (take 1 demo_run)))"
  by code_simp

lemma cancelled_steer_keeps_checkpoint_witness:
  "let s = driven demo_flow_env (demo_agent []) (take 1 demo_run);
       t = cancel None None (snd (steer demo_flow_env 2 [TextPart ''wait''] USER_PROMPT_ORIGIN s))
   in tf_context t = tf_context s
      \<and> length (rewindCheckpoints (tf_goal t)) = length (rewindCheckpoints (tf_goal s)) + 1"
  using cancelled_steer_keeps_checkpoint [of "driven demo_flow_env (demo_agent []) (take 1 demo_run)" USER_PROMPT_ORIGIN
      None demo_flow_env 2 "[TextPart ''wait'']" 3] running
  by (simp add: is_user_origin_def USER_PROMPT_ORIGIN_def Let_def)

end
