(* ===== verification/Full_Compaction_Properties.thy ===== *)
theory Full_Compaction_Properties
  imports Full_Compaction_Facts
begin

text \<open>
  Properties of the summarising compaction over all its runs, and the runs in which a worker that
  should be out of the game still acts on the state.
\<close>

section \<open>Requests\<close>

text \<open>
  No compaction floods the provider. In every run of the agent, with any number of workers, cancels,
  overflows and changes of the conversation in any order, each worker sends at most 45 requests for a
  summary.\<close>

theorem compaction_requests_bounded:
  "requests_of w (run_ops (fc_step ev micro instr pt todos) (new_compaction c) ops) \<le> 45"
  using compaction.run_inv [OF new_inv, of ev micro instr pt todos c ops] by (simp add: fc_inv_def)

section \<open>What is replaced\<close>

lemma frames_phase [simp]:
  "fc_workers (fc_do k s) = fc_workers s" "fc_context (fc_do k s) = fc_context s"
  "fc_workers (fc_emit e s) = fc_workers s" "fc_context (fc_emit e s) = fc_context s"
  "fc_context (put_phase w ph s) = fc_context s"
  by (simp_all add: fc_do_def fc_emit_def put_phase_def split: option.split)

lemma ends_gone [simp]: "map_get (fc_workers (worker_ends w s)) w = None"
  by (simp add: worker_ends_def)

lemma catches_gone [simp]: "map_get (fc_workers (round_catches w e s)) w = None"
  by (simp add: round_catches_def worker_catches_def Let_def)





section \<open>Overflows\<close>

text \<open>The overflows that a turn recovers from, without error, in a sequence of operations.\<close>

fun recoveries ::
    "compaction_env \<Rightarrow> (ContextMessage list \<Rightarrow> ContextMessage list) \<Rightarrow> string \<Rightarrow> string \<Rightarrow> (string \<times> TodoStatus) list
      \<Rightarrow> FullCompaction \<Rightarrow> (ms \<times> fc_op) list \<Rightarrow> nat" where
  "recoveries ev micro instr pt todos s [] = 0"
| "recoveries ev micro instr pt todos s ((now, o1) # os) =
     (case o1 of
        Op_overflow e n \<Rightarrow>
          (case fst (handleOverflowError ev now e (observe_overflow ev n s)) of Inl x \<Rightarrow> 0 | Inr x \<Rightarrow> 1)
      | _ \<Rightarrow> 0)
     + recoveries ev micro instr pt todos (fc_step ev micro instr pt todos s (now, o1)) os"

definition same_overflows :: "FullCompaction \<Rightarrow> FullCompaction \<Rightarrow> bool" where
  "same_overflows s s' \<longleftrightarrow> fc_overflows s' = fc_overflows s"

lemma ov_basic [simp]:
  "fc_overflows (fc_do k s) = fc_overflows s" "fc_overflows (fc_emit e s) = fc_overflows s"
  "fc_overflows (fc_log r s) = fc_overflows s" "fc_overflows (put_phase w ph s) = fc_overflows s"
  "fc_overflows (worker_ends w s) = fc_overflows s"
  by (simp_all add: fc_do_def fc_emit_def fc_log_def put_phase_def worker_ends_def split: option.split)

lemma ov_cancel [simp]: "fc_overflows (fc_cancel s) = fc_overflows s"
  by (simp add: fc_cancel_def Let_def split: option.split)

lemma ov_catches [simp]:
  "fc_overflows (worker_catches w e s) = fc_overflows s" "fc_overflows (round_catches w e s) = fc_overflows s"
  by (simp_all add: round_catches_def worker_catches_def Let_def)

lemma ov_send [simp]: "fc_overflows (send_summary_request ev micro instr w sl s) = fc_overflows s"
  by (simp add: send_summary_request_def split: sum.split prod.split)

lemma ov_summarised [simp]: "fc_overflows (round_summarised now pt todos t d w k s) = fc_overflows s"
  by (simp add: round_summarised_def Let_def case_prod_unfold)

lemma ov_worker [simp]:
  "fc_overflows (pre_hook_returned ev micro instr e setup w s) = fc_overflows s"
  "fc_overflows (slept ev micro instr e w s) = fc_overflows s"
  "fc_overflows (refreshed w s) = fc_overflows s"
  "fc_overflows (reinjected e w s) = fc_overflows s"
  by (simp_all add: pre_hook_returned_def slept_def refreshed_def reinjected_def markCompleted_def
      split: option.split worker_phase.split)

lemma ov_answer [simp]: "fc_overflows (generate_returned ev now micro instr pt todos out w s) = fc_overflows s"
proof (cases "map_get (fc_workers s) w")
  case (Some k)
  have u: "fc_overflows (case usage of None \<Rightarrow> s | Some u \<Rightarrow> fc_do (FC_usage_record u) s) = fc_overflows s" for usage
    by (cases usage) simp_all
  show ?thesis
  proof (cases "cw_phase k")
    case (W_generating sl)
    show ?thesis unfolding generate_returned_def Some option.case W_generating worker_phase.case
      by (simp add: case_prod_unfold u split: summary_next.split)
  qed (simp_all add: generate_returned_def Some)
qed (simp add: generate_returned_def)

lemma ov_begin [simp]: "fc_overflows (snd (fc_begin ev now act src i s)) = fc_overflows s"
  by (simp add: fc_begin_def Let_def split: option.split)

lemma ov_auto [simp]:
  "fc_overflows (snd (beginAutoCompaction ev now b s)) = fc_overflows s"
  "fc_overflows (snd (checkAutoCompaction ev now b s)) = fc_overflows s"
  "fc_overflows (snd (fc_block s)) = fc_overflows s"
proof -
  show a: "fc_overflows (snd (beginAutoCompaction ev now b s)) = fc_overflows s" for b s
    using ov_begin [of ev now True Src_auto None s]
    by (auto simp: beginAutoCompaction_def simp del: ov_begin split: option.split prod.split)
  show "fc_overflows (snd (checkAutoCompaction ev now b s)) = fc_overflows s"
    using a by (simp add: checkAutoCompaction_def)
  show "fc_overflows (snd (fc_block s)) = fc_overflows s" by (simp add: fc_block_def split: option.split)
qed

lemma ov_before [simp]: "fc_overflows (snd (compaction_beforeStep ev now s)) = fc_overflows s"
proof -
  obtain r s1 where r: "checkAutoCompaction ev now True s = (r, s1)" by (cases "checkAutoCompaction ev now True s")
  then have "fc_overflows s1 = fc_overflows s" using ov_auto(2) [of ev now True s] by simp
  moreover have "fc_overflows (snd (fc_block s1)) = fc_overflows s1" by simp
  ultimately show ?thesis by (simp add: compaction_beforeStep_def r case_prod_unfold split: sum.split)
qed

lemma ov_overflow:
  "fc_overflows (snd (handleOverflowError ev now e s)) = fc_overflows s + 1"
  "fst (handleOverflowError ev now e s) = Inr x \<Longrightarrow>
     fc_overflows s + 1 \<le> maxOverflowCompactionAttempts (ev_strategy ev)"
proof -
  let ?s1 = "s\<lparr>fc_overflows := fc_overflows s + 1\<rparr>"
  obtain r s2 where r: "beginAutoCompaction ev now True ?s1 = (r, s2)" by (cases "beginAutoCompaction ev now True ?s1")
  then have s2: "fc_overflows s2 = fc_overflows s + 1" using ov_auto(1) [of ev now True ?s1] by simp
  moreover have "fc_overflows (snd (fc_block s2)) = fc_overflows s2" by simp
  ultimately show "fc_overflows (snd (handleOverflowError ev now e s)) = fc_overflows s + 1"
    by (simp add: handleOverflowError_def r Let_def case_prod_unfold split: sum.split)
  show "fst (handleOverflowError ev now e s) = Inr x \<Longrightarrow>
     fc_overflows s + 1 \<le> maxOverflowCompactionAttempts (ev_strategy ev)"
    by (auto simp: handleOverflowError_def Let_def split: if_splits)
qed

definition overflow_only :: "fc_op \<Rightarrow> bool" where
  "overflow_only o1 \<longleftrightarrow> (case o1 of Op_after_step \<Rightarrow> False | Op_turn_begins \<Rightarrow> False | _ \<Rightarrow> True)"

lemma recoveries_le:
  "list_all (\<lambda>o1. overflow_only (snd o1)) os \<Longrightarrow>
   recoveries ev micro instr pt todos s os \<le> maxOverflowCompactionAttempts (ev_strategy ev) - fc_overflows s"
proof (induction os arbitrary: s)
  case (Cons o1 os)
  obtain now x where o1: "o1 = (now, x)" by (cases o1)
  let ?s = "fc_step ev micro instr pt todos s (now, x)"
  have IH: "recoveries ev micro instr pt todos ?s os \<le> maxOverflowCompactionAttempts (ev_strategy ev) - fc_overflows ?s"
    using Cons by simp
  show ?case
  proof (cases "\<exists>e n. x = Op_overflow e n")
    case True
    then obtain e n where x: "x = Op_overflow e n" by blast
    have o: "fc_overflows (observe_overflow ev n s) = fc_overflows s" by (simp add: observe_overflow_def)
    show ?thesis
      using IH ov_overflow [of ev now e "observe_overflow ev n s"] unfolding o1 x
      by (auto simp: o split: sum.split)
  next
    case False
    have "overflow_only x" using Cons.prems o1 by simp
    then have "fc_overflows ?s = fc_overflows s"
      using False by (cases x) (auto simp: overflow_only_def turn_aborted_def)
    then show ?thesis using IH False unfolding o1 by (cases x) auto
  qed
qed simp

text \<open>
  A turn does not loop between overflow and compaction for ever. Without a successful step in
  between, a turn recovers from at most \<open>maxOverflowCompactionAttempts\<close> overflows, whatever else
  happens; the next one ends it with an error.\<close>

theorem overflow_recoveries_bounded:
  assumes "list_all (\<lambda>o1. overflow_only (snd o1)) os"
  shows "recoveries ev micro instr pt todos (resetForTurn s) os \<le> maxOverflowCompactionAttempts (ev_strategy ev)"
  using recoveries_le [OF assms, of ev micro instr pt todos "resetForTurn s"] by (simp add: resetForTurn_def)

lemma overflow_recoveries_bounded_witness:
  "recoveries demo_env (\<lambda>ms. ms) [] [] [] (resetForTurn (new_compaction new_context))
     (replicate 5 (0, Op_overflow (APIContextOverflowError 400 [] None) 900))
   \<le> maxOverflowCompactionAttempts (ev_strategy demo_env)"
  by (rule overflow_recoveries_bounded) (simp add: overflow_only_def list_all_iff)

section \<open>Workers that still act\<close>

text \<open>
  An abort that no one asked for leaves the agent compacting for ever. When the provider's answer to
  the current worker is an \<open>AbortError\<close> although the worker was not cancelled, the worker ends and
  announces it, but \<open>compacting\<close> still names it: no worker is left to clear it, and beginning another
  compaction does nothing. (The comment at the end of \<open>compactionWorker\<close> says that \<open>compacting\<close> is
  null by then in every path.)\<close>

theorem foreign_abort_leaves_compacting:
  assumes "map_get (fc_workers s) w = Some k" and "cw_phase k = W_generating sl"
    and "fc_compacting s = Some (w, b)" and "is_abort e"
  shows "let s' = generate_returned ev now micro instr pt todos (Inl e) w s
    in map_get (fc_workers s') w = None \<and> List.last (fc_calls s') = FC_turn_onCompactionFinished w
       \<and> isCompacting s' \<and> fc_events s' = fc_events s
       \<and> fc_begin ev now' act src i s' = (None, s')"
proof -
  obtain n m sf where e: "e = OtherErr n m sf" "n = ''AbortError''"
    using assms(4) by (auto simp: is_abort_def split: thrown.splits)
  have "shouldRecoverFromContextOverflow ev (fc_observed s) e (sl_estimate sl) = False"
    by (simp add: shouldRecoverFromContextOverflow_def e is_overflow_def status_of_def)
  moreover have "is_empty_or_truncated e = False" "isRetryableGenerateError e = False"
    by (simp_all add: is_empty_or_truncated_def isRetryableGenerateError_def e status_of_def)
  ultimately have st: "summary_step ev (Inl e) (fc_observed s) sl = (Summary_failed e, fc_observed s, sl)"
    by (simp add: summary_step_def answer_def after_error_def)
  have s': "generate_returned ev now micro instr pt todos (Inl e) w s = worker_ends w s"
    using assms(1,2,4) st by (simp add: generate_returned_def round_catches_def)
  show ?thesis
    unfolding Let_def s' using assms(3)
    by (simp add: worker_ends_def fc_do_def isCompacting_def fc_begin_def)
qed

definition one_message :: ContextMemory where
  "one_message = cx_step new_context (0, CxAppend (plain_user [TextPart ''hi''] USER_PROMPT_ORIGIN))"

definition waiting :: FullCompaction where
  "waiting = run_ops (fc_step demo_env (\<lambda>ms. ms) ''go'' ''S'' []) (new_compaction one_message)
     [(1, Op_begin False Src_manual None), (2, Op_pre_hook 0 None None)]"

lemma one_message_history:
  "cx_history one_message = [(0, plain_user [TextPart ''hi''] USER_PROMPT_ORIGIN)]" "ag_restoring (cx_agent one_message) = None"
  by (simp_all add: one_message_def plain_def plain_user_def appendMessage_def alloc_def hasOpenToolExchange_def
      new_context_def new_context_agent_def)

lemma hi_projected:
  "project [plain_user [TextPart ''hi''] USER_PROMPT_ORIGIN] \<lparr>synthesizeMissing = True, dropOrphanResults = False,
      dropLeadingNonUser = False, mergeConsecutiveAssistants = False\<rparr> = (Inr [createUserMessage ''hi''], [])"
  by code_simp

lemma waiting_state:
  "fc_compacting waiting = Some (0, False)"
  "\<exists>k sl. map_get (fc_workers waiting) 0 = Some k \<and> cw_phase k = W_generating sl
     \<and> cw_original k = cx_history one_message"
  "cx_history (fc_context waiting) = cx_history one_message" "\<not> fc_restoring waiting"
proof -
  let ?m = "plain_user [TextPart ''hi''] USER_PROMPT_ORIGIN"
  define s1 where "s1 = snd (fc_begin demo_env 1 False Src_manual None (new_compaction one_message))"
  have s1: "fc_compacting s1 = Some (0, False)" "fc_context s1 = one_message"
    "\<exists>k. map_get (fc_workers s1) 0 = Some k \<and> cw_phase k = W_preHook \<and> \<not> cw_aborted k
       \<and> cw_original k = cx_history one_message"
    by (simp_all add: s1_def fc_begin_def isCompacting_def new_compaction_def demo_env_def fc_restoring_def
        one_message_history fc_emit_def fc_log_def fc_do_def Let_def)
  from s1(3) obtain k where k: "map_get (fc_workers s1) 0 = Some k" "cw_phase k = W_preHook" "\<not> cw_aborted k"
    "cw_original k = cx_history one_message" by (elim exE conjE) (rule that)
  have orig: "map snd (cx_history one_message) = [?m]" by (simp add: one_message_history)
  have w: "waiting = pre_hook_returned demo_env (\<lambda>ms. ms) ''go'' None None 0 s1"
    by (simp add: waiting_def s1_def)
  have "\<exists>ms sl c. send_request demo_env (\<lambda>ms. ms) ''go'' (start_loop [?m]) (fc_context s1) = (Inr (ms, sl), c)
      \<and> cx_history c = cx_history one_message \<and> cx_agent c = cx_agent one_message"
    using hi_projected
    by (simp add: send_request_def cx_project_def start_loop_def Let_def reportProjectionRepairs_def s1(2))
  then obtain ms sl c where snd: "send_request demo_env (\<lambda>ms. ms) ''go'' (start_loop [?m]) (fc_context s1) = (Inr (ms, sl), c)"
    "cx_history c = cx_history one_message" "cx_agent c = cx_agent one_message" by (elim exE conjE) (rule that)
  have eq: "waiting = fc_do (FC_generate 0 ms) (put_phase 0 (W_generating sl) (s1\<lparr>fc_context := c\<rparr>))"
    using k(1-3) snd(1) by (simp add: w pre_hook_returned_def send_summary_request_def k(4) orig)
  show "\<exists>k sl. map_get (fc_workers waiting) 0 = Some k \<and> cw_phase k = W_generating sl
     \<and> cw_original k = cx_history one_message"
    using k by (simp add: eq put_phase_def)
  show "fc_compacting waiting = Some (0, False)" using k s1(1) by (simp add: eq put_phase_def fc_do_def)
  show "cx_history (fc_context waiting) = cx_history one_message" using snd(2) by (simp add: eq)
  show "\<not> fc_restoring waiting" using snd(3) by (simp add: eq fc_restoring_def one_message_history)
qed



lemma foreign_abort_leaves_compacting_witness:
  "let s' = generate_returned demo_env 3 (\<lambda>ms. ms) ''go'' ''S'' [] (Inl abort_error) 0 waiting
   in map_get (fc_workers s') 0 = None \<and> List.last (fc_calls s') = FC_turn_onCompactionFinished 0
      \<and> isCompacting s' \<and> fc_events s' = fc_events waiting
      \<and> fc_begin demo_env 4 False Src_manual None s' = (None, s')"
proof -
  from waiting_state(2) obtain k sl where k: "map_get (fc_workers waiting) 0 = Some k" "cw_phase k = W_generating sl"
    by (elim exE conjE) (rule that)
  show ?thesis
    by (rule foreign_abort_leaves_compacting [OF k waiting_state(1)]) (simp add: is_abort_def abort_error_def)
qed

text \<open>
  Cancelling a compaction while its reminders are put back cancels nothing, and takes the next
  compaction off the books. The conversation is already replaced and stays so. When a second
  compaction is begun, the first worker goes on; it reports its compaction as completed although it was
  reported as cancelled, and clears \<open>compacting\<close>, which names the second worker: that one goes on
  summarising while the agent takes itself to be idle, open to turns and to a third compaction.\<close>

theorem cancel_during_reinjection_completes:
  assumes "map_get (fc_workers s) w = Some k" and "cw_phase k = W_injecting r"
    and "fc_compacting s = Some (w, b)" and "w < fc_nextWorker s"
    and "\<not> fc_restoring s" and "cx_history (fc_context s) \<noteq> []"
  shows "let s1 = fc_cancel s; s2 = snd (fc_begin ev now False Src_manual i s1); s3 = reinjected None w s2
    in fc_context s1 = fc_context s \<and> fc_events s1 = fc_events s @ [FE_cancelled w]
       \<and> fc_compacting s2 = Some (fc_nextWorker s, False)
       \<and> List.last (fc_events s3) = FE_completed w r \<and> \<not> isCompacting s3
       \<and> map_get (fc_workers s3) (fc_nextWorker s) = map_get (fc_workers s2) (fc_nextWorker s)
       \<and> map_get (fc_workers s3) (fc_nextWorker s) \<noteq> None"
proof -
  define s1 where "s1 = fc_cancel s"
  define s2 where "s2 = snd (fc_begin ev now False Src_manual i s1)"
  have s1: "fc_context s1 = fc_context s" "fc_events s1 = fc_events s @ [FE_cancelled w]" "fc_compacting s1 = None"
    "map_get (fc_workers s1) w = Some (k\<lparr>cw_aborted := True\<rparr>)" "fc_nextWorker s1 = fc_nextWorker s"
    using assms(1,3) by (simp_all add: s1_def fc_cancel_def fc_log_def fc_emit_def)
  have r1: "\<not> fc_restoring s1" "cx_history (fc_context s1) \<noteq> []" using assms(5,6) s1(1) by (simp_all add: fc_restoring_def)
  have s2: "fc_compacting s2 = Some (fc_nextWorker s, False)"
    "map_get (fc_workers s2) (fc_nextWorker s) \<noteq> None"
    "map_get (fc_workers s2) w = Some (k\<lparr>cw_aborted := True\<rparr>)"
    using s1 r1 assms(4) by (simp_all add: s2_def fc_begin_def Let_def fc_emit_def fc_log_def fc_do_def
        isCompacting_def fc_restoring_def split: option.split)
  have s3: "reinjected None w s2 = worker_ends w (fc_do (FC_hook_PostCompact w (cw_source k) (cr_tokensAfter r))
      (fc_emit (FE_completed w r) (markCompleted s2)))"
    using s2(3) assms(2) by (simp add: reinjected_def)
  show ?thesis
    unfolding Let_def s1_def [symmetric] s2_def [symmetric] s3
    using s1 s2 assms(4)
    by (simp add: worker_ends_def fc_do_def fc_emit_def markCompleted_def fc_log_def isCompacting_def)
qed

definition empty_result :: CompactionResult where
  "empty_result = \<lparr>cr_summary = [], cr_contextSummary = [], cr_compactedCount = 0, cr_tokensBefore = 0,
     cr_tokensAfter = 0, cr_keptUserMessageCount = 0, cr_droppedCount = None\<rparr>"

definition injecting :: FullCompaction where
  "injecting = (new_compaction one_message)\<lparr>fc_workers := [(0, \<lparr>cw_source = Src_manual, cw_original = [],
     cw_tokensBefore = 0, cw_aborted = False, cw_phase = W_injecting empty_result\<rparr>)],
     fc_nextWorker := 1, fc_compacting := Some (0, False)\<rparr>"

lemma cancel_during_reinjection_completes_witness:
  "let s1 = fc_cancel injecting; s2 = snd (fc_begin demo_env 5 False Src_manual None s1); s3 = reinjected None 0 s2
   in fc_context s1 = fc_context injecting \<and> fc_events s1 = fc_events injecting @ [FE_cancelled 0]
      \<and> fc_compacting s2 = Some (fc_nextWorker injecting, False)
      \<and> List.last (fc_events s3) = FE_completed 0 empty_result \<and> \<not> isCompacting s3
      \<and> map_get (fc_workers s3) (fc_nextWorker injecting) = map_get (fc_workers s2) (fc_nextWorker injecting)
      \<and> map_get (fc_workers s3) (fc_nextWorker injecting) \<noteq> None"
  by (rule cancel_during_reinjection_completes [where b = False and k = "\<lparr>cw_source = Src_manual,
      cw_original = [], cw_tokensBefore = 0, cw_aborted = False, cw_phase = W_injecting empty_result\<rparr>"])
    (simp_all add: injecting_def new_compaction_def fc_restoring_def one_message_history)

end
