(* ===== verification/Spec2Isabelle.thy ===== *)
theory Spec2Isabelle
  imports Tool_Scheduler Undo_History Cron_Findings Permission_Findings Dedup_Properties Loop_Properties Background_Properties
    Turn_Flow_Properties Full_Compaction_Properties
begin

text \<open>
  A development of the agent core of nori-code, a coding agent in TypeScript
  (\<open>src/packages/agent-core\<close>, with the message types of \<open>src/packages/kosong\<close>).

  \<^bold>\<open>The program.\<close> An agent holds a conversation with a model. A turn sends the conversation, streams the
  response into the context, runs the tools the response calls, and repeats until the model stops. Around
  the turn stand: the context memory, which stores the loop's events and the user's messages and projects
  them to a request a strict provider accepts; permissions, which decide each call; the tool scheduler,
  which lets calls that do not interfere overlap; the deduplicator of repeated calls; the goal mode, which
  keeps a goal with budgets across turns; cron, which fires prompts at their times; background tasks, which
  outlive the calls that started them; and compaction, which shortens the conversation. Most state is event
  sourced: an operation writes a record, and a resume replays the records.

  \<^bold>\<open>Theories and sources.\<close>
  \<^item> \<open>Nori_Prelude\<close>: JavaScript strings, ordered maps and sets, trimming; the interfaces
    \<open>invariant_component\<close> (an invariant every operation keeps) and \<open>event_sourced\<close> (a log whose replay
    rebuilds the state), which context, goal, permissions and background tasks interpret.
  \<^item> \<open>Tool_Access\<close>, \<open>Tool_Scheduler\<close> (\<open>loop/tool-access.ts\<close>, \<open>loop/tool-scheduler.ts\<close>): what a call may read or
    write, when two conflict, and the scheduler as a machine of starts and completions, which runs
    conflicting calls apart and in order and drains.
  \<^item> \<open>Loop_Core\<close>, \<open>Tool_Batch\<close>, \<open>Turn_Loop\<close> (\<open>loop/events.ts\<close>, \<open>tool-call.ts\<close>, \<open>turn-step.ts\<close>, \<open>retry.ts\<close>,
    \<open>run-turn.ts\<close>): the turn. The outside (provider, tools, hooks, abort signal, recorder) is a \<open>loop_host\<close>
    over a world that any of its calls may change and that may fail or throw at any call. A batch hands its
    calls to the scheduler while it prepares them (\<open>add_to_scheduler\<close>): from then on a call may run, so
    \<open>h_start\<close> changes the world there, \<open>ls_added\<close> notes it, and the await gives the result. \<open>Loop_Facts\<close> is a
    calculus of what an operation records, \<open>Loop_Relations\<close> of what it keeps; \<open>Loop_Transcript\<close> is the automaton
    of the records of a turn, \<open>Loop_Context\<close> the refinement to the context memory, \<open>Loop_Properties\<close> the results.
  \<^item> \<open>Json_Values\<close>, \<open>Tool_Dedup\<close>, \<open>Dedup_Properties\<close> (\<open>agent/turn/tool-dedup.ts\<close>, \<open>canonical-args.ts\<close>).
  \<^item> \<open>Messages\<close>, \<open>Context_Projector\<close>, \<open>Projector_*\<close> (\<open>kosong/src/message.ts\<close>, \<open>agent/context/projector.ts\<close>):
    streaming merge and the projection to a request.
  \<^item> \<open>Agent_Records\<close>, \<open>Context_Memory\<close>, \<open>Context_Replay\<close>, \<open>Context_Facts\<close>, \<open>Context_Properties\<close>
    (\<open>agent/context/index.ts\<close>, \<open>agent/records\<close>, \<open>agent/replay\<close>): the conversation and its log. \<open>cx_step\<close> runs
    the six operations of a session, rejected events included; \<open>in_open_steps\<close> singles out the runs
    without a rejected event, whose log can be restored.
  \<^item> \<open>Goal_*\<close> (\<open>agent/goal/index.ts\<close>): the goal, its clock, budgets and checkpoints, and the replay of its log
    with the closing \<open>finishReplay\<close>; \<open>Undo_History\<close> (undo across conversation and goal, \<open>agent/index.ts\<close>).
  \<^item> \<open>Compaction*\<close> (\<open>utils/tokens.ts\<close>, \<open>agent/compaction\<close>): estimates, kept messages, micro compaction.
    \<open>Compaction_Round\<close> is the loop that asks for a summary, \<open>Full_Compaction\<close> (\<open>compaction/full.ts\<close>) the
    compaction as workers between awaits, \<open>Full_Compaction_Facts\<close> its invariant, \<open>Full_Compaction_Properties\<close>
    the results.
  \<^item> \<open>Provider_Errors\<close> (\<open>kosong/src/errors.ts\<close>, \<open>errors\<close>, the error functions of \<open>agent/turn/index.ts\<close>), with
    \<open>Js_Text\<close> and \<open>Js_Regex\<close> for the strings and patterns they use.
  \<^item> \<open>Rule_Engine\<close>, \<open>Nori_Workflow\<close>, \<open>Turn_Tracking\<close>, \<open>Turn_Tracking_Facts\<close>, \<open>Turn_Results\<close> (\<open>turn/rule-engine.ts\<close>,
    \<open>agent/nori-workflow.ts\<close>, \<open>turn/index.ts\<close>, \<open>turn/tool-result-budget.ts\<close>, \<open>session/hooks/user-prompt.ts\<close>,
    \<open>turn/goal-background-idle.ts\<close>): what the turn driver observes of a turn, the gates and rules it adds, and
    what it makes of results and hooks.
  \<^item> \<open>Turn_Flow\<close> (\<open>turn/index.ts\<close>, class \<open>TurnFlow\<close>): the driver itself, as operations and answers to the workers
    it started: prompts, steers, the queue, cancelling, the goal driver, the wait for background work.
    \<open>Turn_Spec\<close> is a small machine of what it promises, \<open>Turn_Flow_Facts\<close>, \<open>Turn_Books\<close> (the compaction as the
    driver sees it), \<open>Turn_Refinement\<close> and \<open>Turn_Steps\<close> show that it is one, \<open>Turn_Runs\<close> lifts this to runs from a
    restored agent, \<open>Turn_Flow_Properties\<close> has the results.
  \<^item> \<open>Cron_Date\<close>, \<open>Cron_Expr\<close>, \<open>Cron_Jitter\<close>, \<open>Cron_Scheduler\<close>, \<open>Cron_Manager\<close>, \<open>Cron_Tools\<close> (\<open>tools/cron\<close>,
    \<open>agent/cron\<close>) with \<open>Cron_Facts\<close>, \<open>Cron_Parse\<close>, \<open>Cron_Ledger\<close>, \<open>Cron_Run\<close>, \<open>Cron_Reach\<close>, \<open>Cron_Properties\<close>
    and \<open>Cron_Findings\<close>: parser, search for the next time over a local time zone, jitter in binary64,
    scheduler, store, and the whole as a transition system with disk and restarts, under the
    assumptions named at \<open>cron_step\<close> (fixed offset, forward clock, writes that succeed, unused ids).
  \<^item> \<open>Permission_Rules\<close>, \<open>Permission\<close>, \<open>Path_Access\<close>, \<open>Tool_Executions\<close> with \<open>Permission_Facts\<close>,
    \<open>Permission_Properties\<close>, \<open>Permission_Findings\<close> (\<open>agent/permission\<close>, \<open>tools/policies\<close>, \<open>tools/support\<close>): rules,
    the chain of policies, approvals, path guards, and what each tool announces of a call.
  \<^item> \<open>Background_Tasks\<close> (\<open>agent/background\<close>): the manager as the stretches of code between its awaits, and
    events for whatever it awaits, the exit code that a process task notes itself, writes that fail and
    a snapshot that cannot be read while notices are restored. \<open>Background_Facts\<close> and \<open>Background_Steps\<close> show that each step is one of few
    moves of one task; \<open>Background_Runs\<close>, \<open>Background_Notices\<close>, \<open>Background_Output\<close> and \<open>Background_Ends\<close> lift
    this to schedules; \<open>Background_Properties\<close> has the results.

  \<^bold>\<open>How the code is read.\<close> An interface or class is a record, its fields prefixed; a union is a datatype;
  a throw is a value (an option, a sum, or the exceptional result of the loop). An asynchronous method is
  cut at its awaits where others may run in between (background tasks, the scheduler, cron, approvals) and
  taken as one operation where the code keeps others out. Effects on other components are a list of calls.
  Strings are lists of code units of the Latin-1 range; numbers are integers, and rationals with rounding to
  binary64 where the jitter depends on it.

  \<^bold>\<open>Bounds and fuel.\<close> The scheduler's rescans take fuel that grows with the queue, and are shown to need no
  more unless a start throws (then the code does not return, either). The search for the next cron time has
  the code's own cap of iterations; one fire coalesces up to the code's own cap. The loop of a turn takes
  fuel; with a step limit any fuel above the limit gives the same end. The search for the git directory
  climbs 256 levels, more than a path has. The loop of the summary request needs no fuel: a measure shows
  that it ends after at most 45 requests. Everything else is structural recursion or measured.

  \<^bold>\<open>What is shown.\<close> Safety of overlapping calls and of permissions, refinement of the stores by their logs and
  disks, transcripts the context accepts, requests without an open call, ends of turns and tasks, bounds on
  steps, retries, running tasks and jitter, and equivalence of the cron search, the deduplicator and undo
  with direct specifications. For the turn driver: one turn at a time, no input lost, bounded continuations.
  Inputs on which the code departs from its comments are evaluated in
  \<open>Cron_Findings\<close>, \<open>Permission_Findings\<close>, \<open>Projector_Properties\<close>, \<open>Compaction_Properties\<close> and beside the
  properties they limit.

  \<^bold>\<open>Not modelled.\<close> Providers and their wire formats, the operating system (processes, files, terminal), the
  user interfaces, the server, and most telemetry are inputs and outputs of the above, and so are sessions and
  their services. Their effects on what is modelled appear as events or as parameters. The turn driver and
  the loop are joined by the hooks only: in \<open>Turn_Flow\<close> the loop may call its hooks in any order. Libraries (pathe,
  picomatch, the file system) are parameters with the laws that are used named at the theorem.
\<close>

end
